(* ===== verification/Prelude.thy ===== *)
theory Prelude
  imports Complex_Main "HOL-Library.Sublist" "HOL-Library.Char_ord" "HOL-Library.List_Lexorder"
begin

text \<open>
  The shared vocabulary of the development.

  \<^item> Errors are values.  \<open>ToolFailure\<close> mirrors \<open>coding_tools_mcp/errors.py\<close>: the code, the
    category, the retry hint and the structured details of the exception are kept, the prose
    message is not.  \<open>pyexn\<close> adds the built-in exceptions the modelled code raises or lets
    through.  A fallible operation returns \<open>pyexn + 'a\<close>, with \<open>Inl\<close> for the raise.
  \<^item> \<open>json\<close> is the type of the values \<^verbatim>\<open>json.loads\<close> produces, with Python's distinction of
    \<^verbatim>\<open>bool\<close>, \<^verbatim>\<open>int\<close> and \<^verbatim>\<open>float\<close>; an object is an association list in insertion order.
  \<^item> List functions with the meaning of Python's \<^verbatim>\<open>startswith\<close>, \<^verbatim>\<open>removeprefix\<close>, \<^verbatim>\<open>split\<close>,
    \<^verbatim>\<open>join\<close>, \<^verbatim>\<open>replace\<close> and \<^verbatim>\<open>find\<close>, over lists of any element type, so that they serve
    strings of characters, texts of code points and byte sequences alike.
  \<^item> An insertion-ordered dictionary as an association list with distinct keys.
  \<^item> The locale \<open>machine\<close> of state machines, with reachability and the invariant rule.
\<close>

named_theorems py_simps \<open>defining equations of the Python list and string helpers\<close>
named_theorems result_simps \<open>inversion of results in the sum type\<close>

section \<open>Values and errors\<close>

datatype json =
    JNull
  | JBool bool
  | JInt int
  | JFloat real
  | JStr string
  | JList "json list"
  | JObj "(string \<times> json) list"

type_synonym obj = "(string \<times> json) list"

text \<open>\<^verbatim>\<open>record.get(key)\<close>: a missing key gives \<^verbatim>\<open>None\<close>.\<close>

definition obj_get :: "obj \<Rightarrow> string \<Rightarrow> json" where
  "obj_get ob k = (case map_of ob k of None \<Rightarrow> JNull | Some v \<Rightarrow> v)"

text \<open>Python's truth value of a JSON value.\<close>

definition json_falsy :: "json \<Rightarrow> bool" where
  "json_falsy v \<longleftrightarrow> v \<in> {JNull, JBool False, JInt 0, JFloat 0, JStr [], JList [], JObj []}"

text \<open>Python compares numbers and truth values by their numeric value.  The modelled code compares scalars only.\<close>

definition num_of :: "json \<Rightarrow> real option" where
  "num_of v = (case v of JBool b \<Rightarrow> Some (if b then 1 else 0) | JInt n \<Rightarrow> Some (of_int n) | JFloat x \<Rightarrow> Some x | _ \<Rightarrow> None)"

definition py_eq :: "json \<Rightarrow> json \<Rightarrow> bool" where
  "py_eq a b = (case (num_of a, num_of b) of (Some x, Some y) \<Rightarrow> x = y | (None, None) \<Rightarrow> a = b | _ \<Rightarrow> False)"

record ToolFailure =
  tf_code :: string
  tf_category :: string
  tf_retryable :: bool
  tf_details :: "(string \<times> json) list"

datatype pyexn =
    Tool ToolFailure
  | ValueError string
  | TypeError
  | KeyError
  | RuntimeError string
  | OSError
  | FileNotFoundError
  | FileExistsError
  | UnicodeEncodeError
  | UnicodeDecodeError
  | AssertionError

type_synonym 'a result = "pyexn + 'a"

definition tool_failure :: "string \<Rightarrow> string \<Rightarrow> pyexn" where
  "tool_failure c cat =
     Tool \<lparr>tf_code = c, tf_category = cat, tf_retryable = False, tf_details = []\<rparr>"

definition retryable_failure :: "string \<Rightarrow> string \<Rightarrow> (string \<times> json) list \<Rightarrow> pyexn" where
  "retryable_failure c cat d =
     Tool \<lparr>tf_code = c, tf_category = cat, tf_retryable = True, tf_details = d\<rparr>"

definition tool_failure_with :: "string \<Rightarrow> string \<Rightarrow> (string \<times> json) list \<Rightarrow> pyexn" where
  "tool_failure_with c cat d =
     Tool \<lparr>tf_code = c, tf_category = cat, tf_retryable = False, tf_details = d\<rparr>"

text \<open>The error code of an exception, when it is a tool failure.\<close>

fun failure_code :: "pyexn \<Rightarrow> string option" where
  "failure_code (Tool f) = Some (tf_code f)"
| "failure_code _ = None"

lemma failure_code_tool [simp]:
  "failure_code (tool_failure c cat) = Some c"
  "failure_code (retryable_failure c cat d) = Some c"
  "failure_code (tool_failure_with c cat d) = Some c"
  by (simp_all add: tool_failure_def retryable_failure_def tool_failure_with_def)

fun rbind :: "'a result \<Rightarrow> ('a \<Rightarrow> 'b result) \<Rightarrow> 'b result" where
  "rbind (Inl e) f = Inl e"
| "rbind (Inr x) f = f x"

lemma rbind_Inr_conv [result_simps]: "rbind r f = Inr y \<longleftrightarrow> (\<exists>x. r = Inr x \<and> f x = Inr y)"
  by (cases r) auto

lemma rbind_Inl_conv [result_simps]:
  "rbind r f = Inl e \<longleftrightarrow> r = Inl e \<or> (\<exists>x. r = Inr x \<and> f x = Inl e)"
  by (cases r) auto

text \<open>Mapping a fallible function over a list stops at the first error, as a Python loop does.\<close>

fun rmap :: "('a \<Rightarrow> 'b result) \<Rightarrow> 'a list \<Rightarrow> 'b list result" where
  "rmap f [] = Inr []"
| "rmap f (x # xs) = rbind (f x) (\<lambda>y. rbind (rmap f xs) (\<lambda>ys. Inr (y # ys)))"

lemma rmap_Inr_length: "rmap f xs = Inr ys \<Longrightarrow> length ys = length xs"
  by (induction xs arbitrary: ys) (auto simp: result_simps)

lemma rmap_Inr_nth: "rmap f xs = Inr ys \<Longrightarrow> i < length xs \<Longrightarrow> f (xs ! i) = Inr (ys ! i)"
proof (induction xs arbitrary: ys i)
  case (Cons x xs)
  then show ?case by (cases i) (auto simp: result_simps)
qed simp

section \<open>Python's list and string helpers\<close>

definition startswith :: "'a list \<Rightarrow> 'a list \<Rightarrow> bool" where
  "startswith s p \<longleftrightarrow> take (length p) s = p"

definition endswith :: "'a list \<Rightarrow> 'a list \<Rightarrow> bool" where
  "endswith s p \<longleftrightarrow> length p \<le> length s \<and> drop (length s - length p) s = p"

definition removeprefix :: "'a list \<Rightarrow> 'a list \<Rightarrow> 'a list" where
  "removeprefix s p = (if startswith s p then drop (length p) s else s)"

fun split_on :: "'a \<Rightarrow> 'a list \<Rightarrow> 'a list list" where
  "split_on sep [] = [[]]"
| "split_on sep (c # cs) =
     (if c = sep then [] # split_on sep cs
      else case split_on sep cs of [] \<Rightarrow> [[c]] | w # ws \<Rightarrow> (c # w) # ws)"

fun join :: "'a list \<Rightarrow> 'a list list \<Rightarrow> 'a list" where
  "join sep [] = []"
| "join sep [x] = x"
| "join sep (x # y # ys) = x @ sep @ join sep (y # ys)"

function (sequential) replace_all :: "'a list \<Rightarrow> 'a list \<Rightarrow> 'a list \<Rightarrow> 'a list" where
  "replace_all pat rep [] = []"
| "replace_all pat rep (c # cs) =
     (if pat \<noteq> [] \<and> startswith (c # cs) pat
      then rep @ replace_all pat rep (drop (length pat) (c # cs))
      else c # replace_all pat rep cs)"
  by pat_completeness auto
termination
  by (relation "measure (\<lambda>(pat, rep, s). length s)") auto

fun find_sub :: "'a list \<Rightarrow> 'a list \<Rightarrow> nat option" where
  "find_sub [] pat = (if pat = [] then Some 0 else None)"
| "find_sub (c # cs) pat =
     (if startswith (c # cs) pat then Some 0 else map_option Suc (find_sub cs pat))"

definition strip_by :: "('a \<Rightarrow> bool) \<Rightarrow> 'a list \<Rightarrow> 'a list" where
  "strip_by P s = rev (dropWhile P (rev (dropWhile P s)))"

lemma startswith_append [simp]: "startswith (p @ s) p"
  by (simp add: startswith_def)

lemma startswith_Nil [simp]: "startswith s []"
  by (simp add: startswith_def)

lemma startswith_iff_prefix: "startswith s p \<longleftrightarrow> prefix p s"
  unfolding startswith_def by (metis append_eq_conv_conj append_take_drop_id prefix_def)

lemma startswith_Cons [py_simps]:
  "startswith (c # cs) (d # ds) \<longleftrightarrow> c = d \<and> startswith cs ds"
  "startswith [] (d # ds) \<longleftrightarrow> False"
  by (auto simp: startswith_def)

lemma removeprefix_append [simp]: "removeprefix (p @ s) p = s"
  by (simp add: removeprefix_def)

lemma split_on_nonempty [simp]: "split_on sep s \<noteq> []"
  by (induction s) (auto split: list.splits)

lemma split_on_length_pos [simp]: "0 < length (split_on sep s)"
  by simp

lemma split_on_no_sep: "w \<in> set (split_on sep s) \<Longrightarrow> sep \<notin> set w"
proof (induction s arbitrary: w)
  case Nil
  then show ?case by simp
next
  case (Cons c cs)
  then show ?case by (cases "split_on sep cs") (auto split: if_splits)
qed

lemma join_Cons: "ws \<noteq> [] \<Longrightarrow> join sep (w # ws) = w @ sep @ join sep ws"
  by (cases ws) auto

lemma join_split_on [simp]: "join [sep] (split_on sep s) = s"
proof (induction s)
  case Nil
  then show ?case by simp
next
  case (Cons c cs)
  obtain w ws where w: "split_on sep cs = w # ws"
    using split_on_nonempty [of sep cs] by (cases "split_on sep cs") auto
  show ?case
  proof (cases "c = sep")
    case True
    with Cons w show ?thesis by (simp add: join_Cons)
  next
    case False
    with Cons w show ?thesis by (cases ws) auto
  qed
qed

lemma split_on_free: "sep \<notin> set s \<Longrightarrow> split_on sep s = [s]"
  by (induction s) auto

lemma split_on_append_sep: "sep \<notin> set w \<Longrightarrow> split_on sep (w @ sep # s) = w # split_on sep s"
  by (induction w) auto

lemma split_on_join:
  "ws \<noteq> [] \<Longrightarrow> \<forall>w \<in> set ws. sep \<notin> set w \<Longrightarrow> split_on sep (join [sep] ws) = ws"
proof (induction ws rule: induct_list012)
  case (3 x y zs)
  then show ?case by (simp add: split_on_append_sep)
qed (auto simp: split_on_free)

lemma length_join:
  "length (join [sep] ws) = (\<Sum>w\<leftarrow>ws. length w) + (length ws - 1)"
  by (induction ws rule: induct_list012) auto

lemma join_append:
  "xs \<noteq> [] \<Longrightarrow> ys \<noteq> [] \<Longrightarrow> join sep (xs @ ys) = join sep xs @ sep @ join sep ys"
proof (induction xs rule: induct_list012)
  case (2 x)
  then show ?case by (simp add: join_Cons)
qed auto

lemma find_sub_Some: "find_sub s pat = Some i \<Longrightarrow> startswith (drop i s) pat \<and> i \<le> length s"
  by (induction s arbitrary: i) (auto split: if_splits)

lemma find_sub_least: "find_sub s pat = Some i \<Longrightarrow> j < i \<Longrightarrow> \<not> startswith (drop j s) pat"
proof (induction s arbitrary: i j)
  case (Cons c cs)
  then show ?case by (cases j) (auto split: if_splits)
qed (simp split: if_splits)

lemma find_sub_None: "find_sub s pat = None \<Longrightarrow> \<not> startswith (drop j s) pat"
proof (induction s arbitrary: j)
  case (Cons c cs)
  then show ?case by (cases j) (auto split: if_splits)
next
  case Nil
  then show ?case by (cases pat) (auto simp: startswith_def split: if_splits)
qed

section \<open>Insertion-ordered dictionaries\<close>

text \<open>
  A Python \<^verbatim>\<open>dict\<close> as an association list.  Assigning an existing key keeps its place; a new key
  goes to the end; \<^verbatim>\<open>pop\<close> removes the entry.
\<close>

type_synonym ('k, 'v) dict = "('k \<times> 'v) list"

fun dict_set :: "'k \<Rightarrow> 'v \<Rightarrow> ('k, 'v) dict \<Rightarrow> ('k, 'v) dict" where
  "dict_set k v [] = [(k, v)]"
| "dict_set k v ((k', v') # d) = (if k' = k then (k, v) # d else (k', v') # dict_set k v d)"

definition dict_del :: "'k \<Rightarrow> ('k, 'v) dict \<Rightarrow> ('k, 'v) dict" where
  "dict_del k d = filter (\<lambda>e. fst e \<noteq> k) d"

definition keys :: "('k, 'v) dict \<Rightarrow> 'k list" where
  "keys d = map fst d"

definition dict_ok :: "('k, 'v) dict \<Rightarrow> bool" where
  "dict_ok d \<longleftrightarrow> distinct (map fst d)"

lemma map_of_dict_set [simp]: "map_of (dict_set k v d) = (map_of d)(k \<mapsto> v)"
  by (induction d) (auto simp: fun_eq_iff)

lemma map_of_dict_del [simp]: "map_of (dict_del k d) = (map_of d)(k := None)"
  by (induction d) (auto simp: dict_del_def fun_eq_iff)

lemma fst_set_dict_set [simp]: "fst ` set (dict_set k v d) = insert k (fst ` set d)"
  by (induction k v d rule: dict_set.induct) (simp_all add: insert_commute)

lemma dict_ok_set [simp, intro]: "dict_ok d \<Longrightarrow> dict_ok (dict_set k v d)"
  unfolding dict_ok_def
proof (induction k v d rule: dict_set.induct)
  case (2 k v k' v' d)
  then show ?case by (cases "k' = k") simp_all
qed simp

lemma dict_ok_filter [simp, intro]: "dict_ok d \<Longrightarrow> dict_ok (filter P d)"
  by (simp add: dict_ok_def distinct_map_filter)

lemma dict_ok_del [simp, intro]: "dict_ok d \<Longrightarrow> dict_ok (dict_del k d)"
  by (simp add: dict_del_def)

lemma dict_ok_Nil [simp]: "dict_ok []"
  by (simp add: dict_ok_def)

lemma length_dict_set:
  "length (dict_set k v d) = (if k \<in> fst ` set d then length d else Suc (length d))"
  by (induction k v d rule: dict_set.induct) simp_all

lemma length_dict_del_le: "length (dict_del k d) \<le> length d"
  by (simp add: dict_del_def)

lemma map_of_None_fst: "map_of d k = None \<longleftrightarrow> k \<notin> fst ` set d"
  by (simp add: map_of_eq_None_iff)

lemma length_dict_del_less: "map_of d k = Some v \<Longrightarrow> length (dict_del k d) < length d"
  by (induction d) (auto simp: dict_del_def less_Suc_eq_le length_filter_le split: if_splits)

lemma map_of_filter_ok:
  "dict_ok d \<Longrightarrow>
   map_of (filter P d) k = (case map_of d k of None \<Rightarrow> None | Some v \<Rightarrow> if P (k, v) then Some v else None)"
proof (induction d)
  case (Cons e d)
  obtain k' v' where e: "e = (k', v')" by (cases e)
  have notin: "k' \<notin> fst ` set d" and ok: "dict_ok d"
    using Cons.prems by (auto simp: dict_ok_def e)
  from notin have "map_of (filter P d) k' = None"
    by (auto simp: map_of_eq_None_iff)
  with Cons.IH [OF ok] notin show ?case
    by (auto simp: e map_of_eq_None_iff split: option.splits)
qed simp

text \<open>A dict comprehension or \<^verbatim>\<open>dict(pairs)\<close>: a repeated key keeps its first place, last value.\<close>

definition dict_from :: "('k \<times> 'v) list \<Rightarrow> ('k, 'v) dict" where
  "dict_from es = foldl (\<lambda>d e. dict_set (fst e) (snd e) d) [] es"

lemma dict_set_new: "k \<notin> fst ` set d \<Longrightarrow> dict_set k v d = d @ [(k, v)]"
  by (induction k v d rule: dict_set.induct) auto

lemma foldl_dict_set_distinct:
  "distinct (map fst (d @ es)) \<Longrightarrow> foldl (\<lambda>d e. dict_set (fst e) (snd e) d) d es = d @ es"
proof (induction es arbitrary: d)
  case (Cons e es)
  then have "dict_set (fst e) (snd e) d = d @ [e]" by (subst dict_set_new) auto
  with Cons.IH [of "d @ [e]"] Cons.prems show ?case by simp
qed simp

lemma dict_from_distinct: "distinct (map fst es) \<Longrightarrow> dict_from es = es"
  by (simp add: dict_from_def foldl_dict_set_distinct)

lemma dict_ok_foldl_dict_set:
  "dict_ok d \<Longrightarrow> dict_ok (foldl (\<lambda>d e. dict_set (fst e) (snd e) d) d es)"
  by (induction es arbitrary: d) auto

lemma dict_ok_dict_from [simp]: "dict_ok (dict_from es)"
  by (simp add: dict_from_def dict_ok_foldl_dict_set)

section \<open>Numbers as text\<close>

text \<open>\<^verbatim>\<open>str(n)\<close> of a non-negative integer.\<close>

fun nat_str :: "nat \<Rightarrow> string" where
  "nat_str n = (if n < 10 then [char_of (48 + n)] else nat_str (n div 10) @ [char_of (48 + n mod 10)])"

declare nat_str.simps [simp del]

definition int_str :: "int \<Rightarrow> string" where
  "int_str k = (if k < 0 then ''-'' @ nat_str (nat (- k)) else nat_str (nat k))"

section \<open>State machines\<close>

text \<open>The interface of the stateful components: a start state, steps, and what is reachable by them.\<close>

locale machine =
  fixes start :: "'s \<Rightarrow> bool" and step :: "'s \<Rightarrow> 's \<Rightarrow> bool"
begin

inductive reach :: "'s \<Rightarrow> bool" where
  reach_start: "start s \<Longrightarrow> reach s"
| reach_step: "reach s \<Longrightarrow> step s t \<Longrightarrow> reach t"

lemma reach_invariant:
  assumes "reach s" "\<And>s. start s \<Longrightarrow> J s" "\<And>s t. reach s \<Longrightarrow> J s \<Longrightarrow> step s t \<Longrightarrow> J t"
  shows "J s"
  using assms(1)
proof (induction rule: reach.induct)
  case (reach_start s)
  then show ?case by (rule assms(2))
next
  case (reach_step s t)
  then show ?case using assms(3) by blast
qed

end

end
