(* ===== verification/PyText.thy ===== *)
theory PyText
  imports Prelude "HOL-Library.Word"
begin

unbundle bit_operations_syntax

text \<open>
  Python text and bytes.  A \<^verbatim>\<open>str\<close> whose content matters (patches, file contents, process
  output) is a list of code points; \<^verbatim>\<open>bytes\<close> is a list of 8-bit words.  The theory holds the
  UTF-8 codec in the two forms the runtime uses (strict encoding, decoding with
  \<^verbatim>\<open>errors="replace"\<close> and strict decoding), Python's notion of white space and of a line
  boundary, and the round trip of the codec, which the truncation functions rest on.
  Identifiers, paths and tokens are \<open>string\<close>, i.e. code points below 256.
\<close>

type_synonym byte = "8 word"
type_synonym bytes = "byte list"
type_synonym pytext = "nat list"

section \<open>UTF-8\<close>

definition lit :: "string \<Rightarrow> pytext" where
  "lit s = map of_char s"

definition is_scalar :: "nat \<Rightarrow> bool" where
  "is_scalar c \<longleftrightarrow> c < 0x110000 \<and> \<not> (0xD800 \<le> c \<and> c < 0xE000)"

definition encode1 :: "nat \<Rightarrow> bytes" where
  "encode1 c =
     (if c < 0x80 then [of_nat c]
      else if c < 0x800 then [of_nat (0xC0 + c div 64), of_nat (0x80 + c mod 64)]
      else if c < 0x10000 then
        [of_nat (0xE0 + c div 4096), of_nat (0x80 + c div 64 mod 64), of_nat (0x80 + c mod 64)]
      else
        [of_nat (0xF0 + c div 262144), of_nat (0x80 + c div 4096 mod 64),
         of_nat (0x80 + c div 64 mod 64), of_nat (0x80 + c mod 64)])"

definition utf8 :: "pytext \<Rightarrow> bytes" where
  "utf8 s = concat (map encode1 s)"

text \<open>\<^verbatim>\<open>text.encode("utf-8")\<close> raises on a lone surrogate.\<close>

definition py_encode :: "pytext \<Rightarrow> bytes result" where
  "py_encode s = (if list_all is_scalar s then Inr (utf8 s) else Inl UnicodeEncodeError)"

definition is_cont :: "byte \<Rightarrow> bool" where
  "is_cont b \<longleftrightarrow> b AND 0xC0 = 0x80"

text \<open>
  The decoder's table of well-formed sequences.  \<open>second_ok\<close> is the range the second byte may
  have after a given lead byte.
\<close>

definition seq_len :: "nat \<Rightarrow> nat" where
  "seq_len b =
     (if b < 0x80 then 1
      else if 0xC2 \<le> b \<and> b < 0xE0 then 2
      else if 0xE0 \<le> b \<and> b < 0xF0 then 3
      else if 0xF0 \<le> b \<and> b < 0xF5 then 4
      else 0)"

definition second_ok :: "nat \<Rightarrow> nat \<Rightarrow> bool" where
  "second_ok lead b \<longleftrightarrow>
     (if lead = 0xE0 then 0xA0 \<le> b \<and> b < 0xC0
      else if lead = 0xED then 0x80 \<le> b \<and> b < 0xA0
      else if lead = 0xF0 then 0x90 \<le> b \<and> b < 0xC0
      else if lead = 0xF4 then 0x80 \<le> b \<and> b < 0x90
      else 0x80 \<le> b \<and> b < 0xC0)"

definition cont_ok :: "nat \<Rightarrow> bool" where
  "cont_ok b \<longleftrightarrow> 0x80 \<le> b \<and> b < 0xC0"

text \<open>
  One decoding step on a non-empty input: the code point decoded (\<open>None\<close> for an ill-formed
  sequence) and how many bytes it takes.  An ill-formed sequence takes its maximal subpart.
\<close>

fun decode1 :: "nat list \<Rightarrow> nat option \<times> nat" where
  "decode1 [] = (None, 0)"
| "decode1 (b0 # rest) =
     (let n = seq_len b0 in
      if n = 0 then (None, 1)
      else if n = 1 then (Some b0, 1)
      else case rest of
          [] \<Rightarrow> (None, 1)
        | b1 # rest1 \<Rightarrow>
            if \<not> second_ok b0 b1 then (None, 1)
            else if n = 2 then (Some ((b0 - 0xC0) * 64 + (b1 - 0x80)), 2)
            else case rest1 of
                [] \<Rightarrow> (None, 2)
              | b2 # rest2 \<Rightarrow>
                  if \<not> cont_ok b2 then (None, 2)
                  else if n = 3 then
                    (Some ((b0 - 0xE0) * 4096 + (b1 - 0x80) * 64 + (b2 - 0x80)), 3)
                  else case rest2 of
                      [] \<Rightarrow> (None, 3)
                    | b3 # rest3 \<Rightarrow>
                        if \<not> cont_ok b3 then (None, 3)
                        else (Some ((b0 - 0xF0) * 262144 + (b1 - 0x80) * 4096
                                    + (b2 - 0x80) * 64 + (b3 - 0x80)), 4))"

lemma decode1_pos: "0 < snd (decode1 (b # bs))"
  by (auto simp: Let_def split: list.splits)

text \<open>\<^verbatim>\<open>data.decode("utf-8", errors="replace")\<close> and the strict \<^verbatim>\<open>data.decode("utf-8")\<close>.\<close>

function (sequential) decode_nats :: "nat list \<Rightarrow> nat option list" where
  "decode_nats [] = []"
| "decode_nats (b # bs) =
     (case decode1 (b # bs) of (r, k) \<Rightarrow> r # decode_nats (drop k (b # bs)))"
  by pat_completeness auto
termination
proof (relation "measure length", simp, goal_cases)
  case (1 b bs r k)
  then have "0 < k" using decode1_pos [of b bs] by (metis snd_conv)
  then show ?case by (cases k) auto
qed

definition decode_replace :: "bytes \<Rightarrow> pytext" where
  "decode_replace bs = map (\<lambda>r. case r of None \<Rightarrow> 0xFFFD | Some c \<Rightarrow> c) (decode_nats (map unat bs))"

definition py_decode :: "bytes \<Rightarrow> pytext result" where
  "py_decode bs =
     (let rs = decode_nats (map unat bs) in
      if None \<in> set rs then Inl UnicodeDecodeError else Inr (map the rs))"

section \<open>White space and lines\<close>

definition is_space :: "nat \<Rightarrow> bool" where
  "is_space c \<longleftrightarrow>
     (9 \<le> c \<and> c \<le> 13) \<or> (28 \<le> c \<and> c \<le> 32) \<or> c = 133 \<or> c = 160 \<or> c = 5760 \<or>
     (8192 \<le> c \<and> c \<le> 8202) \<or> c = 8232 \<or> c = 8233 \<or> c = 8239 \<or> c = 8287 \<or> c = 12288"

definition strip :: "pytext \<Rightarrow> pytext" where
  "strip = strip_by is_space"

definition is_line_break :: "nat \<Rightarrow> bool" where
  "is_line_break c \<longleftrightarrow>
     c = 10 \<or> c = 11 \<or> c = 12 \<or> c = 13 \<or> c = 28 \<or> c = 29 \<or> c = 30 \<or> c = 133 \<or>
     c = 8232 \<or> c = 8233"

text \<open>
  \<^verbatim>\<open>str.splitlines()\<close>: a final line break opens no further line, and carriage return with line
  feed is one break.  \<open>splitlines_acc\<close> carries the current line.
\<close>

fun splitlines_acc :: "pytext \<Rightarrow> pytext \<Rightarrow> pytext list" where
  "splitlines_acc cur [] = (if cur = [] then [] else [cur])"
| "splitlines_acc cur (c # cs) =
     (if is_line_break c then
        (if c = 13 then (case cs of [] \<Rightarrow> [cur]
           | d # ds \<Rightarrow> if d = 10 then cur # splitlines_acc [] ds else cur # splitlines_acc [] cs)
         else cur # splitlines_acc [] cs)
      else splitlines_acc (cur @ [c]) cs)"

definition splitlines :: "pytext \<Rightarrow> pytext list" where
  "splitlines s = splitlines_acc [] s"

section \<open>Lemmas on the codec\<close>

lemma encode1_length: "1 \<le> length (encode1 c) \<and> length (encode1 c) \<le> 4"
  by (simp add: encode1_def)

lemma encode1_nonempty [simp]: "encode1 c \<noteq> []"
  by (simp add: encode1_def)

lemma utf8_simps [simp]:
  "utf8 [] = []" "utf8 (c # s) = encode1 c @ utf8 s" "utf8 (s @ t) = utf8 s @ utf8 t"
  by (simp_all add: utf8_def)

lemma length_utf8_ge: "length s \<le> length (utf8 s)"
proof (induction s)
  case (Cons c s)
  then show ?case using encode1_length [of c] by simp
qed simp

lemma utf8_Nil_iff [simp]: "utf8 s = [] \<longleftrightarrow> s = []"
  using length_utf8_ge [of s] by (cases s) auto

lemma unat_of_nat8 [simp]: "n < 256 \<Longrightarrow> unat (of_nat n :: byte) = n"
  by (simp add: unat_of_nat)

lemma unat_encode1:
  assumes "is_scalar c"
  shows "map unat (encode1 c) =
     (if c < 0x80 then [c]
      else if c < 0x800 then [0xC0 + c div 64, 0x80 + c mod 64]
      else if c < 0x10000 then [0xE0 + c div 4096, 0x80 + c div 64 mod 64, 0x80 + c mod 64]
      else [0xF0 + c div 262144, 0x80 + c div 4096 mod 64, 0x80 + c div 64 mod 64, 0x80 + c mod 64])"
proof -
  have m: "c mod 64 < 64" "c div 64 mod 64 < 64" "c div 4096 mod 64 < 64" by simp_all
  have d: "c < 0x800 \<Longrightarrow> c div 64 < 32" "c < 0x10000 \<Longrightarrow> c div 4096 < 16"
    by (auto simp: less_mult_imp_div_less)
  have e: "c div 262144 < 5"
    using assms by (auto simp: is_scalar_def intro: less_mult_imp_div_less)
  have s: "n < 64 \<Longrightarrow> unat (of_nat (0x80 + n) :: byte) = 0x80 + n" for n
    by (rule unat_of_nat8) simp
  have s2: "n < 32 \<Longrightarrow> unat (of_nat (0xC0 + n) :: byte) = 0xC0 + n" for n
    by (rule unat_of_nat8) simp
  have s3: "n < 16 \<Longrightarrow> unat (of_nat (0xE0 + n) :: byte) = 0xE0 + n" for n
    by (rule unat_of_nat8) simp
  have s4: "n < 5 \<Longrightarrow> unat (of_nat (0xF0 + n) :: byte) = 0xF0 + n" for n
    by (rule unat_of_nat8) simp
  consider "c < 0x80" | "0x80 \<le> c" "c < 0x800" | "0x800 \<le> c" "c < 0x10000" | "0x10000 \<le> c"
    by linarith
  then show ?thesis
  proof cases
    case 1
    then show ?thesis by (simp add: encode1_def)
  next
    case 2
    then have "encode1 c = [of_nat (0xC0 + c div 64), of_nat (0x80 + c mod 64)]"
      by (simp add: encode1_def)
    with 2 show ?thesis by (simp only: list.map s [OF m(1)] s2 [OF d(1)]) simp
  next
    case 3
    then have "encode1 c = [of_nat (0xE0 + c div 4096), of_nat (0x80 + c div 64 mod 64), of_nat (0x80 + c mod 64)]"
      by (simp add: encode1_def)
    with 3 show ?thesis by (simp only: list.map s [OF m(1)] s [OF m(2)] s3 [OF d(2)]) simp
  next
    case 4
    then have "encode1 c = [of_nat (0xF0 + c div 262144), of_nat (0x80 + c div 4096 mod 64),
         of_nat (0x80 + c div 64 mod 64), of_nat (0x80 + c mod 64)]"
      by (simp add: encode1_def)
    with 4 show ?thesis
      by (simp only: list.map s [OF m(1)] s [OF m(2)] s [OF m(3)] s4 [OF e]) simp
  qed
qed

lemma is_cont_unat: "is_cont b \<longleftrightarrow> 0x80 \<le> unat b \<and> unat b < 0xC0"
proof -
  have "\<forall>n < 256. (of_nat n AND 0xC0 = (0x80 :: byte)) = (0x80 \<le> n \<and> n < (0xC0 :: nat))"
    by code_simp
  moreover have "unat b < 2 ^ LENGTH(8)" by (rule unsigned_less)
  then have "unat b < 256" by simp
  ultimately have "(of_nat (unat b) AND 0xC0 = (0x80 :: byte)) = (0x80 \<le> unat b \<and> unat b < 0xC0)"
    by blast
  then show ?thesis by (simp add: is_cont_def)
qed

text \<open>The first byte of an encoded code point is no continuation byte; the others are.\<close>

lemma encode1_hd: "is_scalar c \<Longrightarrow> \<not> is_cont (hd (encode1 c))"
proof -
  assume c: "is_scalar c"
  have "unat (hd (encode1 c)) = hd (map unat (encode1 c))" by (simp add: list.map_sel)
  then show ?thesis
    unfolding is_cont_unat unat_encode1 [OF c] by (auto split: if_splits)
qed

lemma encode1_tl: "is_scalar c \<Longrightarrow> b \<in> set (tl (encode1 c)) \<Longrightarrow> is_cont b"
proof -
  assume c: "is_scalar c" and b: "b \<in> set (tl (encode1 c))"
  from b have "unat b \<in> set (tl (map unat (encode1 c)))" by (simp add: map_tl [symmetric])
  then show ?thesis
    unfolding is_cont_unat unat_encode1 [OF c] by (auto split: if_splits)
qed

lemma decode1_encode1:
  assumes "is_scalar c"
  shows "decode1 (map unat (encode1 c) @ rest) = (Some c, length (encode1 c))"
proof -
  have len: "length (encode1 c) = length (map unat (encode1 c))" by simp
  have r2: "c div 64 * 64 + c mod 64 = c" by simp
  have r3: "c div 4096 * 4096 + c div 64 mod 64 * 64 + c mod 64 = c"
  proof -
    have "c div 64 div 64 = c div 4096" by (simp flip: div_mult2_eq)
    then have "c div 64 = c div 4096 * 64 + c div 64 mod 64"
      by (metis div_mult_mod_eq)
    with r2 show ?thesis by linarith
  qed
  have r4: "c div 262144 * 262144 + c div 4096 mod 64 * 4096 + c div 64 mod 64 * 64 + c mod 64 = c"
  proof -
    have "c div 4096 div 64 = c div 262144" by (simp flip: div_mult2_eq)
    then have "c div 4096 = c div 262144 * 64 + c div 4096 mod 64"
      by (metis div_mult_mod_eq)
    with r3 show ?thesis by linarith
  qed
  consider "c < 0x80" | "0x80 \<le> c" "c < 0x800" | "0x800 \<le> c" "c < 0x10000" | "0x10000 \<le> c"
    by linarith
  then show ?thesis
  proof cases
    case 1
    then show ?thesis unfolding len unat_encode1 [OF assms] by (simp add: seq_len_def)
  next
    case 2
    then have "2 \<le> c div 64" "c div 64 < 32" by (auto simp: less_mult_imp_div_less)
    with 2 r2 show ?thesis unfolding len unat_encode1 [OF assms]
      by (simp add: seq_len_def second_ok_def)
  next
    case 3
    then have d: "c div 4096 < 16" by (simp add: less_mult_imp_div_less)
    have ge: "c div 4096 = 0 \<Longrightarrow> 32 \<le> c div 64 mod 64"
    proof -
      assume "c div 4096 = 0"
      then have "c < 4096" by (simp add: div_eq_0_iff)
      then have "c div 64 < 64" by (simp add: less_mult_imp_div_less)
      moreover have "32 \<le> c div 64" using 3 by simp
      ultimately show ?thesis by simp
    qed
    have sur: "c div 4096 = 13 \<Longrightarrow> c div 64 mod 64 < 32"
    proof -
      assume a: "c div 4096 = 13"
      have m: "c div 64 mod 64 < 64" "c mod 64 < 64" by simp_all
      with a r3 have "c < 0xE000" by linarith
      then have "c < 0xD800" using assms by (auto simp: is_scalar_def)
      with a r3 m show ?thesis by linarith
    qed
    have so: "second_ok (0xE0 + c div 4096) (0x80 + c div 64 mod 64)"
      using ge sur d by (auto simp: second_ok_def)
    have c2: "cont_ok (0x80 + c mod 64)" by (simp add: cont_ok_def)
    have sl: "seq_len (0xE0 + c div 4096) = 3" using d by (simp add: seq_len_def)
    show ?thesis unfolding len unat_encode1 [OF assms]
      using 3 so c2 sl r3 by (simp add: Let_def)
  next
    case 4
    have d: "c div 262144 < 5" using assms by (auto simp: is_scalar_def intro: less_mult_imp_div_less)
    have ge: "c div 262144 = 0 \<Longrightarrow> 16 \<le> c div 4096 mod 64"
    proof -
      assume "c div 262144 = 0"
      then have "c < 262144" by (simp add: div_eq_0_iff)
      then have "c div 4096 < 64" by (simp add: less_mult_imp_div_less)
      moreover have "16 \<le> c div 4096" using 4 by simp
      ultimately show ?thesis by simp
    qed
    have hi: "c div 262144 = 4 \<Longrightarrow> c div 4096 mod 64 < 16"
    proof -
      assume a: "c div 262144 = 4"
      moreover have "c < 0x110000" using assms by (simp add: is_scalar_def)
      ultimately show ?thesis using r4 by linarith
    qed
    have so: "second_ok (0xF0 + c div 262144) (0x80 + c div 4096 mod 64)"
      using ge hi d by (auto simp: second_ok_def)
    have c2: "cont_ok (0x80 + c div 64 mod 64)" "cont_ok (0x80 + c mod 64)"
      by (simp_all add: cont_ok_def)
    have sl: "seq_len (0xF0 + c div 262144) = 4" using d by (simp add: seq_len_def)
    show ?thesis unfolding len unat_encode1 [OF assms]
      using 4 so c2 sl r4 by (simp add: Let_def)
  qed
qed

lemma decode_nats_utf8_append:
  "list_all is_scalar s \<Longrightarrow> decode_nats (map unat (utf8 s) @ rest) = map Some s @ decode_nats rest"
proof (induction s)
  case (Cons c s)
  then have c: "is_scalar c" by simp
  obtain b bs where b: "map unat (encode1 c) = b # bs"
    by (cases "map unat (encode1 c)") auto
  have "decode1 (b # bs @ map unat (utf8 s) @ rest) = (Some c, length (encode1 c))"
    using decode1_encode1 [OF c, of "map unat (utf8 s) @ rest"] by (simp add: b)
  moreover have "drop (length (encode1 c)) (b # bs @ map unat (utf8 s) @ rest) = map unat (utf8 s) @ rest"
    using b by (metis append_Cons append_eq_conv_conj length_map)
  ultimately show ?case
    using Cons by (simp add: b del: decode1.simps)
qed simp

lemma decode_nats_utf8: "list_all is_scalar s \<Longrightarrow> decode_nats (map unat (utf8 s)) = map Some s"
  using decode_nats_utf8_append [of s "[]"] by simp

lemma decode_replace_utf8 [simp]: "list_all is_scalar s \<Longrightarrow> decode_replace (utf8 s) = s"
  by (simp add: decode_replace_def decode_nats_utf8 comp_def)

lemma py_decode_utf8 [simp]: "list_all is_scalar s \<Longrightarrow> py_decode (utf8 s) = Inr s"
  by (simp add: py_decode_def decode_nats_utf8 comp_def image_iff)

text \<open>A byte offset is a character boundary of an encoded text when it ends some prefix of it.\<close>

lemma utf8_take_boundary:
  assumes "list_all is_scalar s" "e \<le> length (utf8 s)"
    "e = length (utf8 s) \<or> \<not> is_cont (utf8 s ! e)"
  shows "\<exists>k \<le> length s. take e (utf8 s) = utf8 (take k s) \<and> drop e (utf8 s) = utf8 (drop k s)"
  using assms
proof (induction s arbitrary: e)
  case (Cons c s)
  show ?case
  proof (cases "e < length (encode1 c)")
    case True
    have "e = 0"
    proof (rule ccontr)
      assume "e \<noteq> 0"
      then obtain e' where e: "e = Suc e'" by (cases e) auto
      with True have "utf8 (c # s) ! e = tl (encode1 c) ! e'" "e' < length (tl (encode1 c))"
        by (auto simp: nth_append nth_tl)
      then have "is_cont (utf8 (c # s) ! e)"
        using encode1_tl [of c, OF _ nth_mem] Cons.prems(1) by simp
      with Cons.prems(3) True show False by simp
    qed
    then show ?thesis by (intro exI [of _ 0]) simp
  next
    case False
    let ?e = "e - length (encode1 c)"
    have "?e = length (utf8 s) \<or> \<not> is_cont (utf8 s ! ?e)"
      using Cons.prems(3) False by (auto simp: nth_append)
    moreover have "list_all is_scalar s" "?e \<le> length (utf8 s)"
      using Cons.prems False by auto
    ultimately obtain k where "k \<le> length s" "take ?e (utf8 s) = utf8 (take k s)"
      "drop ?e (utf8 s) = utf8 (drop k s)"
      using Cons.IH [of ?e] by blast
    with False show ?thesis by (intro exI [of _ "Suc k"]) simp
  qed
qed simp

end
