(* ===== verification/TextUtils.thy ===== *)
theory TextUtils
  imports PyText
begin

text \<open>
  \<open>coding_tools_mcp/textutils.py\<close>: head and tail truncation of text under a line and a byte
  budget.  The two truncation functions satisfy one contract, the locale
  \<open>bounded_truncation\<close>; its clients (the process output of \<open>ExecSession\<close>, the search previews)
  use only that contract.
\<close>

section \<open>The functions\<close>

record TextTruncation =
  content :: pytext
  truncated :: bool
  truncated_by :: "string option"
  total_lines :: nat
  total_bytes :: nat
  output_lines :: nat
  output_bytes :: nat
  last_line_partial :: bool
  first_line_exceeds_limit :: bool
  max_lines :: int
  max_bytes :: int

definition DEFAULT_MAX_LINES :: int where
  "DEFAULT_MAX_LINES = 2000"

text \<open>The loop \<^verbatim>\<open>while end > 0 and end < len(data) and (data[end] & 0xC0) == 0x80: end -= 1\<close>.\<close>

fun back_up :: "bytes \<Rightarrow> nat \<Rightarrow> nat" where
  "back_up data 0 = 0"
| "back_up data (Suc n) =
     (if Suc n < length data \<and> is_cont (data ! Suc n) then back_up data n else Suc n)"

definition truncate_string_to_bytes_from_start :: "pytext \<Rightarrow> int \<Rightarrow> pytext result" where
  "truncate_string_to_bytes_from_start text mb =
     rbind (py_encode text) (\<lambda>data.
       if int (length data) \<le> mb then Inr text
       else let e = nat (max 0 (min mb (int (length data)))) in
            Inr (decode_replace (take (back_up data e) data)))"

text \<open>The loop \<^verbatim>\<open>while start < len(data) and (data[start] & 0xC0) == 0x80: start += 1\<close>.\<close>

function skip_cont :: "bytes \<Rightarrow> nat \<Rightarrow> nat" where
  "skip_cont data s =
     (if s < length data \<and> is_cont (data ! s) then skip_cont data (Suc s) else s)"
  by pat_completeness auto
termination
  by (relation "measure (\<lambda>(data, s). length data - s)") auto

declare skip_cont.simps [simp del]

definition truncate_string_to_bytes_from_end :: "pytext \<Rightarrow> int \<Rightarrow> pytext result" where
  "truncate_string_to_bytes_from_end text mb =
     rbind (py_encode text) (\<lambda>data.
       if int (length data) \<le> mb then Inr text
       else let s = nat (int (length data) - mb) in
            Inr (decode_replace (drop (skip_cont data s) data)))"

text \<open>The \<^verbatim>\<open>for\<close> loop of \<^verbatim>\<open>truncate_text_head\<close>: it carries \<^verbatim>\<open>index\<close>, \<^verbatim>\<open>output\<close> and \<^verbatim>\<open>output_bytes\<close>.\<close>

fun head_loop :: "int \<Rightarrow> int \<Rightarrow> nat \<Rightarrow> pytext list \<Rightarrow> pytext list \<Rightarrow> nat \<Rightarrow> pytext list \<times> string" where
  "head_loop ml mb index [] output ob = (output, ''lines'')"
| "head_loop ml mb index (line # rest) output ob =
     (if int (length output) \<ge> ml then (output, ''lines'')
      else let lb = length (utf8 line) + (if index > 0 then 1 else 0) in
           if int (ob + lb) > mb then (output, ''bytes'')
           else head_loop ml mb (Suc index) rest (output @ [line]) (ob + lb))"

definition truncate_text_head :: "pytext \<Rightarrow> int \<Rightarrow> int \<Rightarrow> TextTruncation result" where
  "truncate_text_head text ml0 mb0 =
     (let ml = (if ml0 \<le> 0 then 1 else ml0); mb = (if mb0 \<le> 0 then 1 else mb0) in
      rbind (py_encode text) (\<lambda>data.
      let tb = length data; lines = split_on 10 text; tl = length lines in
      if int tl \<le> ml \<and> int tb \<le> mb then
        Inr \<lparr>content = text, truncated = False, truncated_by = None, total_lines = tl,
             total_bytes = tb, output_lines = tl, output_bytes = tb, last_line_partial = False,
             first_line_exceeds_limit = False, max_lines = ml, max_bytes = mb\<rparr>
      else if int (length (utf8 (hd lines))) > mb then
        rbind (truncate_string_to_bytes_from_start (hd lines) mb) (\<lambda>pre.
        Inr \<lparr>content = pre, truncated = True, truncated_by = Some ''bytes'', total_lines = tl,
             total_bytes = tb, output_lines = (if pre \<noteq> [] then 1 else 0),
             output_bytes = length (utf8 pre), last_line_partial = False,
             first_line_exceeds_limit = True, max_lines = ml, max_bytes = mb\<rparr>)
      else case head_loop ml mb 0 lines [] 0 of (output, why) \<Rightarrow>
        let c = join [10] output in
        Inr \<lparr>content = c, truncated = True, truncated_by = Some why, total_lines = tl,
             total_bytes = tb, output_lines = length output,
             output_bytes = length (utf8 c), last_line_partial = False,
             first_line_exceeds_limit = False, max_lines = ml, max_bytes = mb\<rparr>))"

text \<open>
  The \<^verbatim>\<open>for\<close> loop of \<^verbatim>\<open>truncate_text_tail\<close>, over the reversed candidate lines: it returns
  \<^verbatim>\<open>output\<close> in the order of appending, \<^verbatim>\<open>truncated_by\<close> and \<^verbatim>\<open>last_line_partial\<close>.
\<close>

fun tail_loop :: "int \<Rightarrow> int \<Rightarrow> nat \<Rightarrow> pytext list \<Rightarrow> pytext list \<Rightarrow> nat \<Rightarrow>
    (pytext list \<times> string \<times> bool) result" where
  "tail_loop ml mb index [] output ob = Inr (output, ''lines'', False)"
| "tail_loop ml mb index (line # rest) output ob =
     (if int (length output) \<ge> ml then Inr (output, ''lines'', False)
      else let lb = length (utf8 line) + (if index > 0 then 1 else 0) in
           if int (ob + lb) > mb then
             (if output = [] then
                rbind (truncate_string_to_bytes_from_end line mb) (\<lambda>partial.
                Inr ([partial], ''bytes'', True))
              else Inr (output, ''bytes'', False))
           else tail_loop ml mb (Suc index) rest (output @ [line]) (ob + lb))"

definition truncate_text_tail :: "pytext \<Rightarrow> int \<Rightarrow> int \<Rightarrow> TextTruncation result" where
  "truncate_text_tail text ml0 mb0 =
     (let ml = (if ml0 \<le> 0 then 1 else ml0); mb = (if mb0 \<le> 0 then 1 else mb0) in
      rbind (py_encode text) (\<lambda>data.
      let tb = length data; lines = split_on 10 text; tl = length lines in
      if int tl \<le> ml \<and> int tb \<le> mb then
        Inr \<lparr>content = text, truncated = False, truncated_by = None, total_lines = tl,
             total_bytes = tb, output_lines = tl, output_bytes = tb, last_line_partial = False,
             first_line_exceeds_limit = False, max_lines = ml, max_bytes = mb\<rparr>
      else
        let candidate = (if last lines = [] then butlast lines else lines) in
        rbind (tail_loop ml mb 0 (rev candidate) [] 0) (\<lambda>(output, why, partial).
        let c = join [10] (rev output) in
        Inr \<lparr>content = c, truncated = True, truncated_by = Some why, total_lines = tl,
             total_bytes = tb, output_lines = length output,
             output_bytes = length (utf8 c), last_line_partial = partial,
             first_line_exceeds_limit = False, max_lines = ml, max_bytes = mb\<rparr>)))"

section \<open>Cutting at a character boundary\<close>

lemma back_up_le: "back_up data n \<le> n"
  by (induction n) auto

lemma back_up_boundary: "n < length data \<Longrightarrow> back_up data n = 0 \<or> \<not> is_cont (data ! back_up data n)"
  by (induction n) auto

lemma skip_cont_ge: "s \<le> skip_cont data s"
proof (induction data s rule: skip_cont.induct)
  case (1 data s)
  then show ?case by (subst skip_cont.simps) auto
qed

lemma skip_cont_stops:
  "skip_cont data s \<ge> length data \<or> \<not> is_cont (data ! skip_cont data s)"
proof (induction data s rule: skip_cont.induct)
  case (1 data s)
  then show ?case by (cases "s < length data \<and> is_cont (data ! s)") (auto simp: skip_cont.simps [of data s])
qed

lemma skip_cont_le: "s \<le> length data \<Longrightarrow> skip_cont data s \<le> length data"
proof (induction data s rule: skip_cont.induct)
  case (1 data s)
  then show ?case by (cases "s < length data \<and> is_cont (data ! s)") (auto simp: skip_cont.simps [of data s])
qed

lemma scalar_take: "list_all is_scalar s \<Longrightarrow> list_all is_scalar (take k s)"
  by (meson in_set_takeD list_all_iff)

lemma scalar_drop: "list_all is_scalar s \<Longrightarrow> list_all is_scalar (drop k s)"
  by (meson in_set_dropD list_all_iff)

lemma utf8_first_not_cont: "list_all is_scalar s \<Longrightarrow> s \<noteq> [] \<Longrightarrow> \<not> is_cont (utf8 s ! 0)"
proof (cases s)
  case (Cons c t)
  assume "list_all is_scalar s"
  then show ?thesis using Cons encode1_hd [of c]
    by (simp add: nth_append hd_conv_nth)
qed simp

lemma from_start_spec:
  assumes "list_all is_scalar s" "0 \<le> mb"
  shows "\<exists>k. truncate_string_to_bytes_from_start s mb = Inr (take k s) \<and>
             int (length (utf8 (take k s))) \<le> mb"
proof (cases "int (length (utf8 s)) \<le> mb")
  case True
  with assms show ?thesis
    by (intro exI [of _ "length s"]) (simp add: truncate_string_to_bytes_from_start_def py_encode_def)
next
  case False
  let ?e = "back_up (utf8 s) (nat mb)"
  have lt: "nat mb < length (utf8 s)" using False assms(2) by simp
  have le: "?e \<le> nat mb" by (rule back_up_le)
  have "?e = 0 \<or> \<not> is_cont (utf8 s ! ?e)" using back_up_boundary [OF lt] .
  moreover have "\<not> is_cont (utf8 s ! 0)"
    using utf8_first_not_cont [OF assms(1)] lt by (cases s) auto
  ultimately have "\<not> is_cont (utf8 s ! ?e)" by auto
  then obtain k where k: "take ?e (utf8 s) = utf8 (take k s)"
    using utf8_take_boundary [OF assms(1), of ?e] le lt by auto
  have "length (utf8 (take k s)) = ?e" unfolding k [symmetric] using le lt by simp
  then have "int (length (utf8 (take k s))) \<le> mb" using le assms(2) by simp
  moreover have "nat (max 0 (min mb (int (length (utf8 s))))) = nat mb"
    using False assms(2) by simp
  ultimately show ?thesis
    using False assms k by (auto simp: truncate_string_to_bytes_from_start_def py_encode_def scalar_take)
qed

lemma from_end_spec:
  assumes "list_all is_scalar s" "0 \<le> mb"
  shows "\<exists>k. truncate_string_to_bytes_from_end s mb = Inr (drop k s) \<and>
             int (length (utf8 (drop k s))) \<le> mb"
proof (cases "int (length (utf8 s)) \<le> mb")
  case True
  with assms show ?thesis
    by (intro exI [of _ 0]) (simp add: truncate_string_to_bytes_from_end_def py_encode_def)
next
  case False
  let ?s = "nat (int (length (utf8 s)) - mb)"
  let ?e = "skip_cont (utf8 s) ?s"
  have le: "?e \<le> length (utf8 s)" by (rule skip_cont_le) (use False assms(2) in simp)
  have "?e = length (utf8 s) \<or> \<not> is_cont (utf8 s ! ?e)"
    using skip_cont_stops [of "utf8 s" ?s] le by auto
  then obtain k where k: "drop ?e (utf8 s) = utf8 (drop k s)"
    using utf8_take_boundary [OF assms(1) le] by auto
  have "length (utf8 (drop k s)) = length (utf8 s) - ?e" unfolding k [symmetric] by simp
  then have "int (length (utf8 (drop k s))) \<le> mb"
    using skip_cont_ge [of ?s "utf8 s"] False assms(2) by linarith
  then show ?thesis
    using False assms k by (auto simp: truncate_string_to_bytes_from_end_def py_encode_def scalar_drop Let_def)
qed

section \<open>The line loops\<close>

lemma encode1_newline [simp]: "length (encode1 10) = 1"
  by (simp add: encode1_def)

lemma utf8_join_snoc:
  "length (utf8 (join [10] (out @ [l]))) =
     length (utf8 (join [10] out)) + length (utf8 l) + (if out = [] then 0 else 1)"
  by (cases "out = []") (simp_all add: join_append)

lemma utf8_join_rev_snoc:
  "length (utf8 (join [10] (rev (out @ [l])))) =
     length (utf8 (join [10] (rev out))) + length (utf8 l) + (if out = [] then 0 else 1)"
  by (cases "out = []") (simp_all add: join_Cons)

lemma head_loop_spec:
  assumes "index = length out" "ob = length (utf8 (join [10] out))" "int ob \<le> mb" "int (length out) \<le> ml"
    "head_loop ml mb index lines out ob = (out', why)"
  shows "\<exists>k \<le> length lines. out' = out @ take k lines \<and>
     int (length (utf8 (join [10] out'))) \<le> mb \<and> int (length out') \<le> ml \<and>
     (k = length lines \<or> int (length out') = ml \<or>
      int (length (utf8 (join [10] (out @ take (Suc k) lines)))) > mb)"
  using assms
proof (induction ml mb index lines out ob rule: head_loop.induct)
  case (1 ml mb index out ob)
  then show ?case by simp
next
  case (2 ml mb index line rest out ob)
  let ?lb = "length (utf8 line) + (if index > 0 then 1 else 0)"
  have next_ob: "ob + ?lb = length (utf8 (join [10] (out @ [line])))"
    using 2(2,3) by (simp add: utf8_join_snoc)
  show ?case
  proof (cases "int (length out) \<ge> ml \<or> int (ob + ?lb) > mb")
    case True
    then have "out' = out" using "2.prems"(5) by (auto simp: Let_def split: if_splits)
    moreover have "int (length out) = ml \<or> int (length (utf8 (join [10] (out @ [line])))) > mb"
      using True 2(5) next_ob by auto
    ultimately show ?thesis using "2.prems" by (intro exI [of _ 0]) auto
  next
    case False
    have "head_loop ml mb (Suc index) rest (out @ [line]) (ob + ?lb) = (out', why)"
      using "2.prems"(5) False by (auto simp: Let_def split: if_splits)
    then obtain k where "k \<le> length rest" "out' = (out @ [line]) @ take k rest"
      "int (length (utf8 (join [10] out'))) \<le> mb" "int (length out') \<le> ml"
      "k = length rest \<or> int (length out') = ml \<or>
       int (length (utf8 (join [10] ((out @ [line]) @ take (Suc k) rest)))) > mb"
      using "2.IH" [OF _ refl] False "2.prems"(1) next_ob by fastforce
    then show ?thesis by (intro exI [of _ "Suc k"]) auto
  qed
qed

lemma tail_loop_spec:
  assumes "index = length out" "ob = length (utf8 (join [10] (rev out)))" "int ob \<le> mb"
    "int (length out) \<le> ml" "1 \<le> ml" "\<forall>l \<in> set lines. list_all is_scalar l"
  shows "\<exists>out' why part. tail_loop ml mb index lines out ob = Inr (out', why, part) \<and>
     int (length (utf8 (join [10] (rev out')))) \<le> mb \<and> int (length out') \<le> ml \<and>
     (\<not> part \<longrightarrow> (\<exists>k \<le> length lines. out' = out @ take k lines \<and>
        (k = length lines \<or> int (length out') = ml \<or>
         int (length (utf8 (join [10] (rev (out @ take (Suc k) lines))))) > mb))) \<and>
     (part \<longrightarrow> out = [] \<and> lines \<noteq> [] \<and> (\<exists>k. out' = [drop k (hd lines)]))"
  using assms
proof (induction ml mb index lines out ob rule: tail_loop.induct)
  case (1 ml mb index out ob)
  then show ?case by (auto intro: exI [of _ False])
next
  case (2 ml mb index line rest out ob)
  let ?lb = "length (utf8 line) + (if index > 0 then 1 else 0)"
  have next_ob: "ob + ?lb = length (utf8 (join [10] (rev (out @ [line]))))"
    using 2(2,3) unfolding utf8_join_rev_snoc by simp
  consider (full) "int (length out) \<ge> ml" | (over) "int (length out) < ml" "int (ob + ?lb) > mb"
    | (fits) "int (length out) < ml" "int (ob + ?lb) \<le> mb" by linarith
  then show ?case
  proof cases
    case full
    with "2.prems" show ?thesis by auto
  next
    case over
    show ?thesis
    proof (cases "out = []")
      case True
      obtain k where "truncate_string_to_bytes_from_end line mb = Inr (drop k line)"
        "int (length (utf8 (drop k line))) \<le> mb"
        using from_end_spec [of line mb] "2.prems" by auto
      with True over "2.prems" show ?thesis by auto
    next
      case False
      with over "2.prems" next_ob show ?thesis by (auto simp: Let_def)
    qed
  next
    case fits
    have eq: "tail_loop ml mb index (line # rest) out ob =
        tail_loop ml mb (Suc index) rest (out @ [line]) (ob + ?lb)"
      using fits by (simp add: Let_def)
    have "\<exists>out' why part.
      tail_loop ml mb (Suc index) rest (out @ [line]) (ob + ?lb) = Inr (out', why, part) \<and>
      int (length (utf8 (join [10] (rev out')))) \<le> mb \<and> int (length out') \<le> ml \<and>
      (\<not> part \<longrightarrow> (\<exists>k \<le> length rest. out' = (out @ [line]) @ take k rest \<and>
        (k = length rest \<or> int (length out') = ml \<or>
         int (length (utf8 (join [10] (rev ((out @ [line]) @ take (Suc k) rest))))) > mb))) \<and>
      (part \<longrightarrow> out @ [line] = [] \<and> rest \<noteq> [] \<and> (\<exists>k. out' = [drop k (hd rest)]))"
      by (rule "2.IH" [OF _ refl]) (use fits "2.prems" next_ob in auto)
    then obtain out' why part where
      ih: "tail_loop ml mb (Suc index) rest (out @ [line]) (ob + ?lb) = Inr (out', why, part)"
      "int (length (utf8 (join [10] (rev out')))) \<le> mb" "int (length out') \<le> ml"
      "\<not> part \<longrightarrow> (\<exists>k \<le> length rest. out' = (out @ [line]) @ take k rest \<and>
        (k = length rest \<or> int (length out') = ml \<or>
         int (length (utf8 (join [10] (rev ((out @ [line]) @ take (Suc k) rest))))) > mb))"
      "part \<longrightarrow> out @ [line] = []"
      by blast
    from ih(5) have "\<not> part" by auto
    with ih(4) obtain k where "k \<le> length rest" "out' = out @ take (Suc k) (line # rest)"
      "k = length rest \<or> int (length out') = ml \<or>
         int (length (utf8 (join [10] (rev (out @ take (Suc (Suc k)) (line # rest)))))) > mb"
      by auto
    then have "\<exists>k \<le> length (line # rest). out' = out @ take k (line # rest) \<and>
        (k = length (line # rest) \<or> int (length out') = ml \<or>
         int (length (utf8 (join [10] (rev (out @ take (Suc k) (line # rest)))))) > mb)"
      by (intro exI [of _ "Suc k"]) auto
    then show ?thesis using eq ih \<open>\<not> part\<close> by auto
  qed
qed

section \<open>The contract of a truncation function\<close>

lemma prefix_join_take: "prefix (join sep (take k ls)) (join sep ls)"
proof (cases "k < length ls \<and> 0 < k")
  case True
  then have "join sep ls = join sep (take k ls) @ sep @ join sep (drop k ls)"
    using join_append [of "take k ls" "drop k ls" sep] by force
  then show ?thesis by (simp add: prefix_def)
qed (auto simp: not_less)

lemma suffix_join_drop: "suffix (join sep (drop k ls)) (join sep ls)"
proof (cases "k < length ls \<and> 0 < k")
  case True
  then have "join sep ls = join sep (take k ls) @ sep @ join sep (drop k ls)"
    using join_append [of "take k ls" "drop k ls" sep] by force
  then show ?thesis by (simp add: suffix_def)
qed (auto simp: suffix_def not_less)

lemma scalar_lines: "list_all is_scalar s \<Longrightarrow> l \<in> set (split_on c s) \<Longrightarrow> list_all is_scalar l"
proof (induction s arbitrary: l)
  case (Cons d s)
  then show ?case by (cases "split_on c s") (auto split: if_splits)
qed simp

lemma last_line_split:
  assumes "last (split_on c s) = []" "s \<noteq> []"
  shows "s = join [c] (butlast (split_on c s)) @ [c]"
proof -
  let ?ls = "split_on c s"
  have "length ?ls \<noteq> 1"
  proof
    assume "length ?ls = 1"
    then obtain w where w: "?ls = [w]" by (auto simp: length_Suc_conv)
    then have "s = w" using join_split_on [of c s] by simp
    with w assms show False by simp
  qed
  then have ne: "butlast ?ls \<noteq> []"
    by (metis One_nat_def append.left_neutral append_butlast_last_id length_Cons list.size(3) split_on_nonempty)
  have "?ls = butlast ?ls @ [[]]" using assms(1) by (metis append_butlast_last_id split_on_nonempty)
  then have "join [c] ?ls = join [c] (butlast ?ls) @ [c] @ []"
    using join_append [OF ne, of "[[]]" "[c]"] by simp
  then show ?thesis by simp
qed

text \<open>
  What a caller may rely on: an encodable text is never refused, the result is within both
  budgets, the reported sizes are the real ones, and an untruncated result is the text itself.
\<close>

locale bounded_truncation =
  fixes trunc :: "pytext \<Rightarrow> int \<Rightarrow> int \<Rightarrow> TextTruncation result"
  assumes returns: "list_all is_scalar text \<Longrightarrow> \<exists>t. trunc text ml mb = Inr t"
    and sizes: "trunc text ml mb = Inr t \<Longrightarrow>
      output_bytes t = length (utf8 (content t)) \<and> total_bytes t = length (utf8 text)"
    and byte_budget: "trunc text ml mb = Inr t \<Longrightarrow> int (output_bytes t) \<le> max 1 mb"
    and line_budget: "trunc text ml mb = Inr t \<Longrightarrow> int (output_lines t) \<le> max 1 ml"
    and whole: "trunc text ml mb = Inr t \<Longrightarrow> \<not> truncated t \<Longrightarrow> content t = text"
    and cut: "trunc text ml mb = Inr t \<Longrightarrow>
      truncated t \<longleftrightarrow> \<not> (int (total_lines t) \<le> max 1 ml \<and> int (length (utf8 text)) \<le> max 1 mb)"
begin

text \<open>A text within the byte budget and of few lines passes through unchanged.\<close>

lemma small_unchanged:
  assumes "list_all is_scalar text" "trunc text ml mb = Inr t"
    "int (length (utf8 text)) \<le> max 1 mb" "int (total_lines t) \<le> max 1 ml"
  shows "content t = text"
  using whole cut assms by blast

text \<open>Decoded process output always has a truncation, whatever the bytes were.\<close>

lemma decoded_output_fits:
  assumes "list_all is_scalar (decode_replace data)"
  shows "\<exists>t. trunc (decode_replace data) ml mb = Inr t \<and>
     int (length (utf8 (content t))) \<le> max 1 mb \<and> int (output_lines t) \<le> max 1 ml"
  using returns [OF assms, of ml mb] sizes byte_budget line_budget by force

end

lemma decode1_scalar: "decode1 (b # bs) = (Some c, k) \<Longrightarrow> is_scalar c"
  by (auto simp: Let_def seq_len_def second_ok_def cont_ok_def is_scalar_def split: list.splits if_splits)

lemma decode_nats_scalar: "Some c \<in> set (decode_nats bs) \<Longrightarrow> is_scalar c"
proof (induction bs rule: decode_nats.induct)
  case (2 b bs)
  obtain r k where d: "decode1 (b # bs) = (r, k)" by (cases "decode1 (b # bs)")
  with 2 show ?case by (auto simp del: decode1.simps dest: decode1_scalar)
qed simp

lemma decode_replace_scalar [simp]: "list_all is_scalar (decode_replace data)"
  by (auto simp: decode_replace_def list_all_iff is_scalar_def split: option.splits
      dest: decode_nats_scalar)

lemma truncate_text_head_cases:
  assumes "list_all is_scalar text" "ml' = max 1 ml" "mb' = max 1 mb"
  obtains (fits) "int (length (split_on 10 text)) \<le> ml'" "int (length (utf8 text)) \<le> mb'"
      "truncate_text_head text ml mb = Inr \<lparr>content = text, truncated = False, truncated_by = None,
         total_lines = length (split_on 10 text), total_bytes = length (utf8 text),
         output_lines = length (split_on 10 text), output_bytes = length (utf8 text),
         last_line_partial = False, first_line_exceeds_limit = False, max_lines = ml', max_bytes = mb'\<rparr>"
  | (long_line) k where "\<not> (int (length (split_on 10 text)) \<le> ml' \<and> int (length (utf8 text)) \<le> mb')"
      "int (length (utf8 (hd (split_on 10 text)))) > mb'"
      "int (length (utf8 (take k (hd (split_on 10 text))))) \<le> mb'"
      "truncate_text_head text ml mb = Inr \<lparr>content = take k (hd (split_on 10 text)), truncated = True,
         truncated_by = Some ''bytes'',
         total_lines = length (split_on 10 text), total_bytes = length (utf8 text),
         output_lines = (if take k (hd (split_on 10 text)) \<noteq> [] then 1 else 0),
         output_bytes = length (utf8 (take k (hd (split_on 10 text)))),
         last_line_partial = False, first_line_exceeds_limit = True, max_lines = ml', max_bytes = mb'\<rparr>"
  | (lines) k why where "\<not> (int (length (split_on 10 text)) \<le> ml' \<and> int (length (utf8 text)) \<le> mb')"
      "int (length (utf8 (hd (split_on 10 text)))) \<le> mb'"
      "k \<le> length (split_on 10 text)" "int k \<le> ml'"
      "int (length (utf8 (join [10] (take k (split_on 10 text))))) \<le> mb'"
      "k = length (split_on 10 text) \<or> int k = ml' \<or>
       int (length (utf8 (join [10] (take (Suc k) (split_on 10 text))))) > mb'"
      "truncate_text_head text ml mb = Inr \<lparr>content = join [10] (take k (split_on 10 text)), truncated = True,
         truncated_by = Some why,
         total_lines = length (split_on 10 text), total_bytes = length (utf8 text),
         output_lines = k, output_bytes = length (utf8 (join [10] (take k (split_on 10 text)))),
         last_line_partial = False, first_line_exceeds_limit = False, max_lines = ml', max_bytes = mb'\<rparr>"
proof -
  let ?ls = "split_on 10 text"
  have eqs: "(if ml \<le> 0 then 1 else ml) = ml'" "(if mb \<le> 0 then 1 else mb) = mb'"
    using assms by auto
  have enc: "py_encode text = Inr (utf8 text)" using assms by (simp add: py_encode_def)
  consider (a) "int (length ?ls) \<le> ml' \<and> int (length (utf8 text)) \<le> mb'"
    | (b) "\<not> (int (length ?ls) \<le> ml' \<and> int (length (utf8 text)) \<le> mb')" "int (length (utf8 (hd ?ls))) > mb'"
    | (c) "\<not> (int (length ?ls) \<le> ml' \<and> int (length (utf8 text)) \<le> mb')" "\<not> int (length (utf8 (hd ?ls))) > mb'"
    by blast
  then show thesis
  proof cases
    case a
    then show ?thesis by (intro fits) (simp_all add: truncate_text_head_def eqs enc Let_def)
  next
    case b
    have "list_all is_scalar (hd ?ls)" "0 \<le> mb'"
      using assms scalar_lines [OF assms(1), of "hd ?ls" 10] by auto
    then obtain k where "truncate_string_to_bytes_from_start (hd ?ls) mb' = Inr (take k (hd ?ls))"
      "int (length (utf8 (take k (hd ?ls)))) \<le> mb'" using from_start_spec by blast
    with b show ?thesis by (intro long_line [of k]) (simp_all add: truncate_text_head_def eqs enc Let_def)
  next
    case c
    obtain out' why where hl: "head_loop ml' mb' 0 ?ls [] 0 = (out', why)" by fastforce
    have pos: "0 \<le> mb'" "0 \<le> ml'" using assms by simp_all
    obtain k where "k \<le> length ?ls" "out' = take k ?ls" "int (length (utf8 (join [10] out'))) \<le> mb'"
      "int (length out') \<le> ml'" "k = length ?ls \<or> int (length out') = ml' \<or>
       int (length (utf8 (join [10] (take (Suc k) ?ls)))) > mb'"
      using head_loop_spec [of 0 "[]" 0 mb' ml' ?ls out' why] hl pos by (simp only: append_Nil) force
    with c hl show ?thesis
      by (intro lines [of k why]) (auto simp add: truncate_text_head_def eqs enc Let_def)
  qed
qed

lemma truncate_text_tail_cases:
  assumes "list_all is_scalar text" "ml' = max 1 ml" "mb' = max 1 mb"
    "cand = (if last (split_on 10 text) = [] then butlast (split_on 10 text) else split_on 10 text)"
  obtains (fits) "int (length (split_on 10 text)) \<le> ml'" "int (length (utf8 text)) \<le> mb'"
      "truncate_text_tail text ml mb = Inr \<lparr>content = text, truncated = False, truncated_by = None,
         total_lines = length (split_on 10 text), total_bytes = length (utf8 text),
         output_lines = length (split_on 10 text), output_bytes = length (utf8 text),
         last_line_partial = False, first_line_exceeds_limit = False, max_lines = ml', max_bytes = mb'\<rparr>"
  | (cut) out why part where
      "\<not> (int (length (split_on 10 text)) \<le> ml' \<and> int (length (utf8 text)) \<le> mb')"
      "int (length (utf8 (join [10] out))) \<le> mb'" "int (length out) \<le> ml'"
      "(\<exists>k. out = drop k cand) \<or> (part \<and> cand \<noteq> [] \<and> (\<exists>k. out = [drop k (last cand)]))"
      "truncate_text_tail text ml mb = Inr \<lparr>content = join [10] out, truncated = True,
         truncated_by = Some why,
         total_lines = length (split_on 10 text), total_bytes = length (utf8 text),
         output_lines = length out, output_bytes = length (utf8 (join [10] out)),
         last_line_partial = part, first_line_exceeds_limit = False, max_lines = ml', max_bytes = mb'\<rparr>"
proof -
  let ?ls = "split_on 10 text"
  have eqs: "(if ml \<le> 0 then 1 else ml) = ml'" "(if mb \<le> 0 then 1 else mb) = mb'"
    using assms by auto
  have enc: "py_encode text = Inr (utf8 text)" using assms by (simp add: py_encode_def)
  have pos: "0 \<le> mb'" "0 \<le> ml'" "1 \<le> ml'" using assms by simp_all
  show thesis
  proof (cases "int (length ?ls) \<le> ml' \<and> int (length (utf8 text)) \<le> mb'")
    case True
    then show ?thesis by (intro fits) (simp_all add: truncate_text_tail_def eqs enc Let_def)
  next
    case False
    have "set cand \<subseteq> set ?ls" using assms(4) by (auto dest: in_set_butlastD split: if_splits)
    then have sc: "\<forall>l \<in> set (rev cand). list_all is_scalar l" using scalar_lines [OF assms(1)] by auto
    obtain out' why part where t: "tail_loop ml' mb' 0 (rev cand) [] 0 = Inr (out', why, part)"
      "int (length (utf8 (join [10] (rev out')))) \<le> mb'" "int (length out') \<le> ml'"
      "\<not> part \<longrightarrow> (\<exists>k \<le> length (rev cand). out' = take k (rev cand))"
      "part \<longrightarrow> rev cand \<noteq> [] \<and> (\<exists>k. out' = [drop k (hd (rev cand))])"
      using tail_loop_spec [of 0 "[]" 0 mb' ml' "rev cand"] pos sc by auto
    have "(\<exists>k. rev out' = drop k cand) \<or> (part \<and> cand \<noteq> [] \<and> (\<exists>k. rev out' = [drop k (last cand)]))"
      using t(4,5) by (cases part) (auto simp: take_rev hd_rev)
    with t(1-3) False show ?thesis
      by (intro cut [of "rev out'" part why])
        (auto simp: truncate_text_tail_def eqs enc Let_def assms(4))
  qed
qed

lemma suffix_last_join: "ls \<noteq> [] \<Longrightarrow> suffix (last ls) (join sep ls)"
proof -
  assume ne: "ls \<noteq> []"
  then have "drop (length ls - 1) ls = [last ls]"
    by (metis append_butlast_last_id append_eq_conv_conj length_butlast)
  then show ?thesis using suffix_join_drop [of sep "length ls - 1" ls] by simp
qed

interpretation head: bounded_truncation truncate_text_head
proof
  fix s :: pytext and ml mb t
  assume a: "truncate_text_head s ml mb = Inr t"
  then have sc: "list_all is_scalar s"
    by (auto simp: truncate_text_head_def py_encode_def Let_def split: if_splits)
  note cs = truncate_text_head_cases [OF sc refl refl, of ml mb]
  show "output_bytes t = length (utf8 (content t)) \<and> total_bytes t = length (utf8 s)"
    by (rule cs) (use a in auto)
  show "int (output_bytes t) \<le> max 1 mb"
    by (rule cs) (use a in auto)
  show "int (output_lines t) \<le> max 1 ml"
    by (rule cs) (use a in auto)
  show "truncated t \<longleftrightarrow> \<not> (int (total_lines t) \<le> max 1 ml \<and> int (length (utf8 s)) \<le> max 1 mb)"
    by (rule cs) (use a in auto)
  assume nt: "\<not> truncated t"
  show "content t = s"
    by (rule cs) (use a nt in auto)
qed (metis truncate_text_head_cases)

interpretation tail: bounded_truncation truncate_text_tail
proof
  fix s :: pytext and ml mb t
  assume a: "truncate_text_tail s ml mb = Inr t"
  then have sc: "list_all is_scalar s"
    by (auto simp: truncate_text_tail_def py_encode_def Let_def split: if_splits)
  note cs = truncate_text_tail_cases [OF sc refl refl refl, of ml mb]
  show "output_bytes t = length (utf8 (content t)) \<and> total_bytes t = length (utf8 s)"
    by (rule cs) (use a in auto)
  show "int (output_bytes t) \<le> max 1 mb"
    by (rule cs) (use a in auto)
  show "int (output_lines t) \<le> max 1 ml"
    by (rule cs) (use a in auto)
  show "truncated t \<longleftrightarrow> \<not> (int (total_lines t) \<le> max 1 ml \<and> int (length (utf8 s)) \<le> max 1 mb)"
    by (rule cs) (use a in auto)
  assume nt: "\<not> truncated t"
  show "content t = s"
    by (rule cs) (use a nt in auto)
qed (metis truncate_text_tail_cases)

section \<open>Properties\<close>

text \<open>
  C40: head truncation.  On every encodable text \<^verbatim>\<open>truncate_text_head\<close> returns; the content is a
  prefix of the text, fits both budgets, differs from the text exactly when the result is marked
  truncated, and, unless the first line alone is too long, it is the longest whole-line prefix
  within the budgets.
\<close>

theorem truncate_text_head_correct:
  assumes "list_all is_scalar text"
  shows "\<exists>t. truncate_text_head text ml mb = Inr t \<and>
     prefix (content t) text \<and> int (length (utf8 (content t))) \<le> max 1 mb \<and>
     int (output_lines t) \<le> max 1 ml \<and> (truncated t \<longleftrightarrow> content t \<noteq> text) \<and>
     (truncated t \<and> \<not> first_line_exceeds_limit t \<longrightarrow>
        content t = join [10] (take (output_lines t) (split_on 10 text)) \<and>
        (int (output_lines t) = max 1 ml \<or>
         int (length (utf8 (join [10] (take (Suc (output_lines t)) (split_on 10 text))))) > max 1 mb))"
proof (rule truncate_text_head_cases [OF assms refl refl, of ml mb])
  let ?ls = "split_on 10 text"
  have hd_pre: "prefix (hd ?ls) text"
  proof -
    have "join [10] (take 1 ?ls) = hd ?ls" by (cases ?ls) auto
    then show ?thesis by (metis prefix_join_take join_split_on)
  qed
  fix k
  assume b: "int (length (utf8 (hd ?ls))) > max 1 mb" "int (length (utf8 (take k (hd ?ls)))) \<le> max 1 mb"
    "truncate_text_head text ml mb = Inr \<lparr>content = take k (hd ?ls), truncated = True,
         truncated_by = Some ''bytes'',
         total_lines = length (split_on 10 text), total_bytes = length (utf8 text),
         output_lines = (if take k (hd (split_on 10 text)) \<noteq> [] then 1 else 0),
         output_bytes = length (utf8 (take k (hd (split_on 10 text)))),
         last_line_partial = False, first_line_exceeds_limit = True, max_lines = max 1 ml, max_bytes = max 1 mb\<rparr>"
  have "prefix (take k (hd ?ls)) text"
    using hd_pre take_is_prefix prefix_order.trans by blast
  moreover have "take k (hd ?ls) \<noteq> text"
  proof
    assume "take k (hd ?ls) = text"
    then have "hd ?ls = text" using hd_pre by (metis prefix_order.antisym take_is_prefix)
    then have "int (length (utf8 text)) > max 1 mb" using b(1) by (simp only:)
    moreover have "int (length (utf8 text)) \<le> max 1 mb"
      using b(2) \<open>take k (hd ?ls) = text\<close> by (simp only:)
    ultimately show False by linarith
  qed
  ultimately show ?thesis using b by auto
next
  fix k why
  let ?ls = "split_on 10 text"
  assume c: "\<not> (int (length ?ls) \<le> max 1 ml \<and> int (length (utf8 text)) \<le> max 1 mb)"
    "int (length (utf8 (hd ?ls))) \<le> max 1 mb" "k \<le> length ?ls" "int k \<le> max 1 ml"
    "int (length (utf8 (join [10] (take k ?ls)))) \<le> max 1 mb"
    "k = length ?ls \<or> int k = max 1 ml \<or> int (length (utf8 (join [10] (take (Suc k) ?ls)))) > max 1 mb"
    "truncate_text_head text ml mb = Inr \<lparr>content = join [10] (take k ?ls), truncated = True,
         truncated_by = Some why,
         total_lines = length ?ls, total_bytes = length (utf8 text),
         output_lines = k, output_bytes = length (utf8 (join [10] (take k ?ls))),
         last_line_partial = False, first_line_exceeds_limit = False, max_lines = max 1 ml, max_bytes = max 1 mb\<rparr>"
  have kl: "k < length ?ls" using c by (cases "k = length ?ls") auto
  have "0 < k"
  proof (rule ccontr)
    assume "\<not> 0 < k"
    then have "int (length (utf8 (join [10] (take (Suc 0) ?ls)))) > max 1 mb" using c(6) kl by auto
    then show False using c(2) by (cases ?ls) auto
  qed
  have "join [10] (take k ?ls) \<noteq> text"
  proof
    assume "join [10] (take k ?ls) = text"
    moreover have "split_on 10 (join [10] (take k ?ls)) = take k ?ls"
      using \<open>0 < k\<close> by (intro split_on_join) (auto dest: in_set_takeD split_on_no_sep)
    ultimately show False using kl by (metis length_take min.absorb4 nat_less_le)
  qed
  moreover have "prefix (join [10] (take k ?ls)) text"
    using prefix_join_take [of "[10]" k ?ls] by simp
  ultimately show ?thesis using c kl by auto
qed (use assms in auto)

theorem truncate_text_head_correct_witness:
  "list_all is_scalar (lit ''ab'' @ [10] @ [0x20AC] @ [10]) \<and>
   (\<exists>t. truncate_text_head (lit ''ab'' @ [10] @ [0x20AC] @ [10]) 2 4 = Inr t \<and>
     prefix (content t) (lit ''ab'' @ [10] @ [0x20AC] @ [10]) \<and>
     int (length (utf8 (content t))) \<le> 4 \<and> int (output_lines t) \<le> 2)"
proof -
  have h: "list_all is_scalar (lit ''ab'' @ [10] @ [0x20AC] @ [10])"
    by (simp add: lit_def is_scalar_def)
  show ?thesis using h truncate_text_head_correct [OF h, of 2 4] by auto
qed

text \<open>
  Tail truncation.  On every encodable text \<^verbatim>\<open>truncate_text_tail\<close> returns; the content fits
  both budgets and is a suffix of the text, or of the text without its final line feed.
\<close>

theorem truncate_text_tail_correct:
  assumes "list_all is_scalar text"
  shows "\<exists>t. truncate_text_tail text ml mb = Inr t \<and>
     int (length (utf8 (content t))) \<le> max 1 mb \<and> int (output_lines t) \<le> max 1 ml \<and>
     (suffix (content t) text \<or> suffix (content t @ [10]) text) \<and>
     (\<not> truncated t \<longrightarrow> content t = text) \<and>
     (truncated t \<longleftrightarrow> int (length (split_on 10 text)) > max 1 ml \<or> int (length (utf8 text)) > max 1 mb)"
proof -
  let ?ls = "split_on 10 text"
  let ?cand = "if last ?ls = [] then butlast ?ls else ?ls"
  have cand: "text = [] \<or> text = join [10] ?cand \<or> text = join [10] ?cand @ [10]"
    using last_line_split [of 10 "text"] by auto
  have to_text: "suffix c text \<or> suffix (c @ [10]) text" if "suffix c (join [10] ?cand)" "text \<noteq> []" for c
    using cand that by (auto simp: suffix_def)
  show ?thesis
  proof (rule truncate_text_tail_cases [OF assms refl refl refl, of ml mb])
    fix out why part
    assume c: "\<not> (int (length ?ls) \<le> max 1 ml \<and> int (length (utf8 text)) \<le> max 1 mb)"
      "int (length (utf8 (join [10] out))) \<le> max 1 mb" "int (length out) \<le> max 1 ml"
      "(\<exists>k. out = drop k ?cand) \<or> (part \<and> ?cand \<noteq> [] \<and> (\<exists>k. out = [drop k (last ?cand)]))"
      "truncate_text_tail text ml mb = Inr \<lparr>content = join [10] out, truncated = True,
         truncated_by = Some why,
         total_lines = length ?ls, total_bytes = length (utf8 text),
         output_lines = length out, output_bytes = length (utf8 (join [10] out)),
         last_line_partial = part, first_line_exceeds_limit = False, max_lines = max 1 ml, max_bytes = max 1 mb\<rparr>"
    have ne: "text \<noteq> []" using c(1) by auto
    have "suffix (join [10] out) (join [10] ?cand)"
      using c(4) suffix_join_drop [of "[10]" _ ?cand] suffix_last_join [of ?cand "[10]"]
        suffix_drop suffix_order.trans by fastforce
    from to_text [OF this ne] c show ?thesis by auto
  qed auto
qed

theorem truncate_text_tail_correct_witness:
  "list_all is_scalar (lit ''ab'' @ [10] @ lit ''cd'' @ [10]) \<and>
   (\<exists>t. truncate_text_tail (lit ''ab'' @ [10] @ lit ''cd'' @ [10]) 1 50 = Inr t \<and>
     int (length (utf8 (content t))) \<le> 50 \<and> int (output_lines t) \<le> 1 \<and> truncated t)"
proof -
  have h: "list_all is_scalar (lit ''ab'' @ [10] @ lit ''cd'' @ [10])"
    by (simp add: lit_def is_scalar_def)
  have l: "int (length (split_on 10 (lit ''ab'' @ [10] @ lit ''cd'' @ [10]))) > max 1 1"
    by (simp add: lit_def)
  show ?thesis using h l truncate_text_tail_correct [OF h, of 1 50] by auto
qed

end
