(* ===== verification/PatchText.thy ===== *)
theory PatchText
  imports PyText "HOL-Library.Multiset"
begin

text \<open>
  The text half of \<open>coding_tools_mcp/patching.py\<close>: the parser of the \<^verbatim>\<open>*** Begin Patch\<close> format
  and the application of update hunks to a file's content.  Positions in the list of patch lines
  become the list of the lines that are left.
\<close>

section \<open>Parsing a patch\<close>

record PatchOperation =
  op_kind :: string
  op_path :: pytext
  op_add_content :: "pytext option"
  op_hunks :: "pytext list list"
  op_move_to :: "pytext option"

record ParsedHunk =
  ph_old :: "pytext list"
  ph_new :: "pytext list"

record MatchedHunk =
  mh_index :: nat
  mh_start :: nat
  mh_end :: nat
  mh_new :: "pytext list"

definition patch_failed :: pyexn where
  "patch_failed = tool_failure ''PATCH_FAILED'' ''validation''"

text \<open>The inner loop of \<^verbatim>\<open>*** Add File\<close>: the \<^verbatim>\<open>+\<close> lines up to the next \<^verbatim>\<open>*** \<close> line.\<close>

fun add_loop :: "pytext list \<Rightarrow> pytext list \<Rightarrow> (pytext list \<times> pytext list) result" where
  "add_loop content_lines [] = Inr (content_lines, [])"
| "add_loop content_lines (l # ls) =
     (if startswith l (lit ''*** '') then Inr (content_lines, l # ls)
      else if \<not> startswith l (lit ''+'') then Inl patch_failed
      else add_loop (content_lines @ [drop 1 l]) ls)"

text \<open>The inner loop of \<^verbatim>\<open>*** Update File\<close>: hunks separated by \<^verbatim>\<open>@@\<close> lines.\<close>

fun hunk_loop :: "pytext list list \<Rightarrow> pytext list \<Rightarrow> pytext list \<Rightarrow> pytext list list \<times> pytext list" where
  "hunk_loop hunks current [] = (if current \<noteq> [] then hunks @ [current] else hunks, [])"
| "hunk_loop hunks current (l # ls) =
     (if startswith l (lit ''*** '') then
        (if current \<noteq> [] then hunks @ [current] else hunks, l # ls)
      else if startswith l (lit ''@@'') then
        hunk_loop (if current \<noteq> [] then hunks @ [current] else hunks) [] ls
      else hunk_loop hunks (current @ [l]) ls)"

lemma add_loop_length: "add_loop acc ls = Inr (c, rest) \<Longrightarrow> length rest \<le> length ls"
  by (induction acc ls rule: add_loop.induct) (auto split: if_splits)

lemma hunk_loop_length: "length (snd (hunk_loop hs cur ls)) \<le> length ls"
  by (induction hs cur ls rule: hunk_loop.induct) auto

function parse_loop :: "PatchOperation list \<Rightarrow> pytext list \<Rightarrow> PatchOperation list result" where
  "parse_loop operations [] = Inr operations"
| "parse_loop operations (line # rest) =
     (if line = [] then parse_loop operations rest
      else if startswith line (lit ''*** Add File: '') then
        (case add_loop [] rest of
           Inl e \<Rightarrow> Inl e
         | Inr (content_lines, rest') \<Rightarrow>
             parse_loop (operations @
               [\<lparr>op_kind = ''add'', op_path = strip (removeprefix line (lit ''*** Add File: '')),
                 op_add_content = Some (join [10] content_lines @ [10]),
                 op_hunks = [], op_move_to = None\<rparr>]) rest')
      else if startswith line (lit ''*** Delete File: '') then
        parse_loop (operations @
          [\<lparr>op_kind = ''delete'', op_path = strip (removeprefix line (lit ''*** Delete File: '')),
            op_add_content = None, op_hunks = [], op_move_to = None\<rparr>]) rest
      else if startswith line (lit ''*** Update File: '') then
        (let p = strip (removeprefix line (lit ''*** Update File: '')) in
         if rest \<noteq> [] \<and> startswith (hd rest) (lit ''*** Move to: '') then
           parse_loop (operations @
             [\<lparr>op_kind = ''move'', op_path = p, op_add_content = None, op_hunks = [],
               op_move_to = Some (strip (removeprefix (hd rest) (lit ''*** Move to: '')))\<rparr>]) (tl rest)
         else
           (let r = hunk_loop [] [] rest in
           parse_loop (operations @
             [\<lparr>op_kind = ''update'', op_path = p, op_add_content = None, op_hunks = fst r,
               op_move_to = None\<rparr>]) (snd r)))
      else Inl patch_failed)"
  by pat_completeness auto
termination
  by (relation "measure (\<lambda>(ops, ls). length ls)")
    (auto dest: add_loop_length simp: le_imp_less_Suc hunk_loop_length less_Suc_eq_le)

definition parse_patch :: "pytext \<Rightarrow> PatchOperation list result" where
  "parse_patch patch =
     (let lines = splitlines patch in
      if lines = [] \<or> strip (hd lines) \<noteq> lit ''*** Begin Patch'' \<or>
         strip (last lines) \<noteq> lit ''*** End Patch''
      then Inl patch_failed
      else parse_loop [] (butlast (tl lines)))"

section \<open>Applying hunks\<close>

fun parse_update_hunk_loop :: "pytext list \<Rightarrow> pytext list \<Rightarrow> pytext list \<Rightarrow> ParsedHunk result" where
  "parse_update_hunk_loop old new [] = Inr \<lparr>ph_old = old, ph_new = new\<rparr>"
| "parse_update_hunk_loop old new (raw # rest) =
     (if raw = lit ''*** End of File'' then parse_update_hunk_loop old new rest
      else case raw of
          [] \<Rightarrow> Inl patch_failed
        | marker # value \<Rightarrow>
            if marker = of_char CHR '' '' then parse_update_hunk_loop (old @ [value]) (new @ [value]) rest
            else if marker = of_char CHR ''-'' then parse_update_hunk_loop (old @ [value]) new rest
            else if marker = of_char CHR ''+'' then parse_update_hunk_loop old (new @ [value]) rest
            else Inl patch_failed)"

definition parse_update_hunk :: "pytext list \<Rightarrow> ParsedHunk result" where
  "parse_update_hunk hunk = parse_update_hunk_loop [] [] hunk"

definition find_subsequence_all :: "pytext list \<Rightarrow> pytext list \<Rightarrow> nat list" where
  "find_subsequence_all lines needle =
     (if needle = [] then [0]
      else filter (\<lambda>i. lines ! i = hd needle \<and> take (length needle) (drop i lines) = needle)
             [0 ..< length lines + 1 - length needle])"

definition strip_bom :: "pytext \<Rightarrow> pytext \<times> pytext" where
  "strip_bom s = (if startswith s [0xFEFF] then ([0xFEFF], drop 1 s) else ([], s))"

definition detect_line_ending :: "pytext \<Rightarrow> pytext" where
  "detect_line_ending s =
     (case (find_sub s [13, 10], find_sub s [10]) of
        (Some crlf, Some lf) \<Rightarrow> (if crlf \<le> lf then [13, 10] else [10])
      | _ \<Rightarrow> [10])"

definition normalize_to_lf :: "pytext \<Rightarrow> pytext" where
  "normalize_to_lf s = replace_all [13] [10] (replace_all [13, 10] [10] s)"

definition restore_line_endings :: "pytext \<Rightarrow> pytext \<Rightarrow> pytext" where
  "restore_line_endings s ending = (if ending = [13, 10] then replace_all [10] [13, 10] s else s)"

text \<open>The loop that places every hunk: a hunk must match at exactly one position.\<close>

fun match_loop :: "pytext list \<Rightarrow> nat \<Rightarrow> ParsedHunk list \<Rightarrow> MatchedHunk list result" where
  "match_loop lines index [] = Inr []"
| "match_loop lines index (hunk # rest) =
     (case (if ph_old hunk = [] then [0] else find_subsequence_all lines (ph_old hunk)) of
        [] \<Rightarrow> Inl (retryable_failure ''PATCH_CONTEXT_NOT_FOUND'' ''validation''
                   [(''hunk_index'', JInt (int index)), (''match_count'', JInt 0)])
      | [start] \<Rightarrow>
          rbind (match_loop lines (Suc index) rest) (\<lambda>ms.
          Inr (\<lparr>mh_index = index, mh_start = start, mh_end = start + length (ph_old hunk),
                mh_new = ph_new hunk\<rparr> # ms))
      | (m # m' # ms') \<Rightarrow> Inl (retryable_failure ''PATCH_CONTEXT_AMBIGUOUS'' ''validation''
                   [(''hunk_index'', JInt (int index)),
                    (''match_count'', JInt (int (length (m # m' # ms'))))]))"

fun overlap_check :: "MatchedHunk list \<Rightarrow> unit result" where
  "overlap_check (previous # current # rest) =
     (if mh_end previous > mh_start current then Inl (tool_failure ''PATCH_HUNKS_OVERLAP'' ''validation'')
      else overlap_check (current # rest))"
| "overlap_check _ = Inr ()"

definition apply_matched :: "pytext list \<Rightarrow> MatchedHunk \<Rightarrow> pytext list" where
  "apply_matched lines m = take (mh_start m) lines @ mh_new m @ drop (mh_end m) lines"

text \<open>\<^verbatim>\<open>sorted(..., reverse=True)\<close> is stable: equal keys keep their order.\<close>

definition sorted_reverse :: "MatchedHunk list \<Rightarrow> MatchedHunk list" where
  "sorted_reverse ms = rev (sort_key mh_start (rev ms))"

text \<open>Joining the lines again and deciding about a final line feed.\<close>

definition final_text :: "bool \<Rightarrow> pytext \<Rightarrow> pytext list \<Rightarrow> pytext" where
  "final_text had_trailing_newline txt updated_lines =
     (let updated = join [10] updated_lines in
      if had_trailing_newline \<and> (updated_lines \<noteq> [] \<or> updated = []) then updated @ [10]
      else if txt = [] \<and> updated_lines \<noteq> [] then updated @ [10]
      else updated)"

definition apply_update_hunks :: "pytext \<Rightarrow> pytext list list \<Rightarrow> pytext result" where
  "apply_update_hunks content hunks =
     (if hunks = [] then Inr content
      else case strip_bom content of (bom, txt) \<Rightarrow>
        let line_ending = detect_line_ending txt;
            normalized = normalize_to_lf txt;
            had_trailing_newline = endswith normalized [10];
            lines = splitlines normalized in
        rbind (rmap parse_update_hunk hunks) (\<lambda>parsed.
        rbind (match_loop lines 0 parsed) (\<lambda>matched0.
        let matched = sort_key mh_start matched0 in
        rbind (overlap_check matched) (\<lambda>_.
        let updated_lines = foldl apply_matched lines (sorted_reverse matched) in
        Inr (bom @ restore_line_endings (final_text had_trailing_newline txt updated_lines) line_ending)))))"

section \<open>Where a hunk matches\<close>

lemma set_find_subsequence_all:
  "needle \<noteq> [] \<Longrightarrow>
   i \<in> set (find_subsequence_all lines needle) \<longleftrightarrow>
     i + length needle \<le> length lines \<and> take (length needle) (drop i lines) = needle"
proof -
  assume ne: "needle \<noteq> []"
  have "take (length needle) (drop i lines) = needle \<Longrightarrow> i + length needle \<le> length lines \<Longrightarrow>
      lines ! i = hd needle"
    using ne by (metis Cons_nth_drop_Suc add_leD1 drop_eq_Nil hd_drop_conv_nth hd_take length_greater_0_conv
        not_less take_Nil)
  with ne show ?thesis by (auto simp: find_subsequence_all_def)
qed

lemma find_subsequence_all_bound:
  "needle \<noteq> [] \<Longrightarrow> find_subsequence_all lines needle = [s] \<Longrightarrow> s + length needle \<le> length lines"
  using set_find_subsequence_all [of needle s lines] by simp

section \<open>Disjoint replacements\<close>

text \<open>
  The reference for a set of placed hunks: one pass from left to right that copies the lines
  between the hunks and writes every replacement in place of the block it matched.
\<close>

fun splice_hunks :: "nat \<Rightarrow> MatchedHunk list \<Rightarrow> pytext list \<Rightarrow> pytext list" where
  "splice_hunks pos [] lines = drop pos lines"
| "splice_hunks pos (m # ms) lines =
     take (mh_start m - pos) (drop pos lines) @ mh_new m @ splice_hunks (mh_end m) ms lines"

fun ordered_from :: "nat \<Rightarrow> nat \<Rightarrow> MatchedHunk list \<Rightarrow> bool" where
  "ordered_from pos n [] \<longleftrightarrow> pos \<le> n"
| "ordered_from pos n (m # ms) \<longleftrightarrow>
     pos \<le> mh_start m \<and> mh_start m \<le> mh_end m \<and> mh_end m \<le> n \<and> ordered_from (mh_end m) n ms"

lemma foldl_apply_rev_splice:
  "ordered_from pos (length lines) ms \<Longrightarrow>
   foldl apply_matched lines (rev ms) = take pos lines @ splice_hunks pos ms lines"
proof (induction ms arbitrary: pos)
  case (Cons m ms)
  let ?upd = "foldl apply_matched lines (rev ms)"
  have ih: "?upd = take (mh_end m) lines @ splice_hunks (mh_end m) ms lines"
    using Cons by simp
  have t: "take (mh_start m) ?upd = take (mh_start m) lines"
    and d: "drop (mh_end m) ?upd = splice_hunks (mh_end m) ms lines"
    using Cons.prems unfolding ih by (simp_all add: min_def)
  have "take (mh_start m) lines = take pos lines @ take (mh_start m - pos) (drop pos lines)"
    using Cons.prems by (metis le_add_diff_inverse ordered_from.simps(2) take_add)
  moreover have "foldl apply_matched lines (rev (m # ms)) = apply_matched ?upd m" by simp
  moreover have "apply_matched ?upd m = take (mh_start m) lines @ mh_new m @ splice_hunks (mh_end m) ms lines"
    unfolding apply_matched_def t d ..
  ultimately show ?case by simp
qed simp

lemma overlap_check_ordered:
  assumes "overlap_check ms = Inr ()" "\<forall>m \<in> set ms. mh_start m \<le> mh_end m \<and> mh_end m \<le> n"
    "ms \<noteq> [] \<longrightarrow> pos \<le> mh_start (hd ms)" "pos \<le> n"
  shows "ordered_from pos n ms"
  using assms
  by (induction ms arbitrary: pos rule: overlap_check.induct) (auto split: if_splits)

lemma ordered_strict:
  assumes "ordered_from pos n ms" "\<forall>m \<in> set ms. mh_start m < mh_end m"
  shows "sorted_wrt (<) (map mh_start ms) \<and> (\<forall>m \<in> set ms. pos \<le> mh_start m)"
  using assms
proof (induction ms arbitrary: pos)
  case (Cons m ms)
  then have "sorted_wrt (<) (map mh_start ms) \<and> (\<forall>m' \<in> set ms. mh_end m \<le> mh_start m')"
    using Cons.IH [of "mh_end m"] by simp
  with Cons.prems show ?case by fastforce
qed simp

lemma sort_key_rev_strict:
  assumes "sorted_wrt (<) (map f ms)"
  shows "sort_key f (rev ms) = ms"
proof (rule properties_for_sort_key)
  have dist: "distinct (map f ms)" using assms strict_sorted_iff by blast
  show "sorted (map f ms)" using assms strict_sorted_imp_sorted by blast
  fix k assume k: "k \<in> set ms"
  have u: "filter (\<lambda>x. f k = f x) xs = filter (\<lambda>x. x = k) xs" if "set xs = set ms" for xs
  proof (rule filter_cong [OF refl])
    fix x assume "x \<in> set xs"
    with that have "x \<in> set ms" by simp
    then show "(f k = f x) = (x = k)" using k dist by (auto simp: distinct_map dest: inj_onD)
  qed
  have "distinct ms" using dist by (simp add: distinct_map)
  then have "filter (\<lambda>x. x = k) ms = [k]" "filter (\<lambda>x. x = k) (rev ms) = [k]"
    using k by (induction ms) (auto simp: filter_empty_conv)
  then show "filter (\<lambda>x. f k = f x) ms = filter (\<lambda>x. f k = f x) (rev ms)"
    by (simp add: u)
qed simp

lemma match_loop_spec:
  "match_loop lines index hs = Inr ms \<Longrightarrow>
   length ms = length hs \<and>
   (\<forall>i < length hs. ms ! i =
      \<lparr>mh_index = index + i, mh_start = mh_start (ms ! i),
       mh_end = mh_start (ms ! i) + length (ph_old (hs ! i)), mh_new = ph_new (hs ! i)\<rparr> \<and>
      (ph_old (hs ! i) \<noteq> [] \<longrightarrow> find_subsequence_all lines (ph_old (hs ! i)) = [mh_start (ms ! i)]))"
proof (induction hs arbitrary: index ms)
  case (Cons h rest)
  let ?f = "if ph_old h = [] then [0] else find_subsequence_all lines (ph_old h)"
  obtain start where f: "?f = [start]"
    using Cons.prems by (auto split: list.splits if_splits)
  with Cons.prems obtain ms' where ms': "match_loop lines (Suc index) rest = Inr ms'"
    "ms = \<lparr>mh_index = index, mh_start = start, mh_end = start + length (ph_old h), mh_new = ph_new h\<rparr> # ms'"
    by (auto simp: result_simps split: if_splits)
  from Cons.IH [OF ms'(1)] show ?case
    using f ms'(2) by (auto simp: nth_Cons split: nat.splits if_splits)
qed simp

section \<open>Printing a patch\<close>

text \<open>The reference printer of the patch format, for the round trip with the parser.\<close>

definition break_free :: "pytext \<Rightarrow> bool" where
  "break_free s \<longleftrightarrow> (\<forall>c \<in> set s. \<not> is_line_break c)"

definition render_op :: "PatchOperation \<Rightarrow> pytext list" where
  "render_op oper =
     (if op_kind oper = ''add'' then
        (lit ''*** Add File: '' @ op_path oper) #
          map (\<lambda>l. lit ''+'' @ l) (split_on 10 (butlast (the (op_add_content oper))))
      else if op_kind oper = ''delete'' then [lit ''*** Delete File: '' @ op_path oper]
      else if op_kind oper = ''move'' then
        [lit ''*** Update File: '' @ op_path oper, lit ''*** Move to: '' @ the (op_move_to oper)]
      else (lit ''*** Update File: '' @ op_path oper) #
          concat (map (\<lambda>h. lit ''@@'' # h) (op_hunks oper)))"

definition render_patch :: "PatchOperation list \<Rightarrow> pytext" where
  "render_patch ops =
     join [10] (lit ''*** Begin Patch'' # concat (map render_op ops) @ [lit ''*** End Patch''])"

definition printable_path :: "pytext \<Rightarrow> bool" where
  "printable_path p \<longleftrightarrow> break_free p \<and> strip p = p"

definition printable_line :: "pytext \<Rightarrow> bool" where
  "printable_line l \<longleftrightarrow> break_free l \<and> \<not> startswith l (lit ''*** '') \<and> \<not> startswith l (lit ''@@'')"

definition printable :: "PatchOperation \<Rightarrow> bool" where
  "printable oper \<longleftrightarrow> printable_path (op_path oper) \<and>
     ((op_kind oper = ''add'' \<and> op_hunks oper = [] \<and> op_move_to oper = None \<and>
         (\<exists>c. op_add_content oper = Some (c @ [10]) \<and> (\<forall>l \<in> set (split_on 10 c). break_free l))) \<or>
      (op_kind oper = ''delete'' \<and> op_hunks oper = [] \<and> op_move_to oper = None \<and> op_add_content oper = None) \<or>
      (op_kind oper = ''move'' \<and> op_hunks oper = [] \<and> op_add_content oper = None \<and>
         (\<exists>p. op_move_to oper = Some p \<and> printable_path p)) \<or>
      (op_kind oper = ''update'' \<and> op_move_to oper = None \<and> op_add_content oper = None \<and>
         (\<forall>h \<in> set (op_hunks oper). h \<noteq> [] \<and> (\<forall>l \<in> set h. printable_line l))))"

lemma splitlines_acc_break_free: "break_free w \<Longrightarrow> splitlines_acc cur (w @ 10 # s) = (cur @ w) # splitlines_acc [] s"
  by (induction w arbitrary: cur) (auto simp: break_free_def is_line_break_def split: list.splits)

lemma splitlines_acc_last: "break_free w \<Longrightarrow> cur @ w \<noteq> [] \<Longrightarrow> splitlines_acc cur w = [cur @ w]"
  by (induction w arbitrary: cur) (auto simp: break_free_def)

lemma splitlines_join:
  "ls \<noteq> [] \<Longrightarrow> \<forall>l \<in> set ls. break_free l \<Longrightarrow> last ls \<noteq> [] \<Longrightarrow> splitlines (join [10] ls) = ls"
  unfolding splitlines_def
  by (induction ls rule: induct_list012)
    (auto simp: splitlines_acc_break_free splitlines_acc_last)

lemmas lit_simps = lit_def startswith_Cons

lemma lit_eq_Nil [simp]: "lit w = [] \<longleftrightarrow> w = []"
  by (simp add: lit_def)

lemma length_lit [simp]: "length (lit w) = length w"
  by (simp add: lit_def)

lemma marker_simps [simp]:
  "startswith (lit ''*** Add File: '' @ p) (lit ''*** Add File: '')"
  "\<not> startswith (lit ''*** Delete File: '' @ p) (lit ''*** Add File: '')"
  "\<not> startswith (lit ''*** Update File: '' @ p) (lit ''*** Add File: '')"
  "\<not> startswith (lit ''*** Update File: '' @ p) (lit ''*** Delete File: '')"
  "startswith (lit ''*** Add File: '' @ p) (lit ''*** '')"
  "startswith (lit ''*** Delete File: '' @ p) (lit ''*** '')"
  "startswith (lit ''*** Update File: '' @ p) (lit ''*** '')"
  "\<not> startswith (lit ''+'' @ p) (lit ''*** '')"
  "startswith (lit ''@@'') (lit ''@@'')"
  "\<not> startswith (lit ''@@'') (lit ''*** '')"
  "\<not> startswith (lit ''*** Add File: '' @ p) (lit ''*** Move to: '')"
  "\<not> startswith (lit ''*** Delete File: '' @ p) (lit ''*** Move to: '')"
  "\<not> startswith (lit ''*** Update File: '' @ p) (lit ''*** Move to: '')"
  by (simp_all add: lit_simps)

lemma add_loop_render:
  "rest = [] \<or> startswith (hd rest) (lit ''*** '') \<Longrightarrow>
   add_loop acc (map (\<lambda>l. lit ''+'' @ l) ls @ rest) = Inr (acc @ ls, rest)"
proof (induction ls arbitrary: acc)
  case Nil
  then show ?case by (cases rest) auto
qed auto

lemma hunk_loop_lines:
  "\<forall>l \<in> set h. printable_line l \<Longrightarrow> hunk_loop hs cur (h @ rest) = hunk_loop hs (cur @ h) rest"
  by (induction h arbitrary: cur) (auto simp: printable_line_def)

lemma hunk_loop_render:
  assumes "\<forall>h \<in> set hunks. h \<noteq> [] \<and> (\<forall>l \<in> set h. printable_line l)"
    "rest = [] \<or> startswith (hd rest) (lit ''*** '')"
  shows "hunk_loop hs cur (concat (map (\<lambda>h. lit ''@@'' # h) hunks) @ rest) =
     (hs @ (if cur \<noteq> [] then [cur] else []) @ hunks, rest)"
  using assms
proof (induction hunks arbitrary: hs cur)
  case Nil
  then show ?case by (cases rest) auto
next
  case (Cons h hunks)
  let ?hs = "if cur \<noteq> [] then hs @ [cur] else hs"
  have "hunk_loop hs cur (concat (map (\<lambda>h. lit ''@@'' # h) (h # hunks)) @ rest) =
      hunk_loop ?hs [] (h @ concat (map (\<lambda>h. lit ''@@'' # h) hunks) @ rest)" by simp
  also have "\<dots> = hunk_loop ?hs h (concat (map (\<lambda>h. lit ''@@'' # h) hunks) @ rest)"
    using Cons.prems by (subst hunk_loop_lines) auto
  also have "\<dots> = (?hs @ (if h \<noteq> [] then [h] else []) @ hunks, rest)"
    using Cons by simp
  finally show ?case using Cons.prems by simp
qed

lemma printable_cases:
  assumes "printable oper"
  obtains (add) p c where "oper = \<lparr>op_kind = ''add'', op_path = p, op_add_content = Some (c @ [10]),
      op_hunks = [], op_move_to = None\<rparr>" "printable_path p" "\<forall>l \<in> set (split_on 10 c). break_free l"
  | (delete) p where "oper = \<lparr>op_kind = ''delete'', op_path = p, op_add_content = None,
      op_hunks = [], op_move_to = None\<rparr>" "printable_path p"
  | (move) p q where "oper = \<lparr>op_kind = ''move'', op_path = p, op_add_content = None,
      op_hunks = [], op_move_to = Some q\<rparr>" "printable_path p" "printable_path q"
  | (update) p hs where "oper = \<lparr>op_kind = ''update'', op_path = p, op_add_content = None,
      op_hunks = hs, op_move_to = None\<rparr>" "printable_path p"
      "\<forall>h \<in> set hs. h \<noteq> [] \<and> (\<forall>l \<in> set h. printable_line l)"
  using assms by (cases oper) (auto simp: printable_def)

lemma parse_loop_render_op:
  assumes "printable oper" "rest = [] \<or> startswith (hd rest) (lit ''*** '') \<and>
      \<not> startswith (hd rest) (lit ''*** Move to: '')"
  shows "parse_loop acc (render_op oper @ rest) = parse_loop (acc @ [oper]) rest"
  using assms(1)
proof (cases rule: printable_cases)
  case (add p c)
  have "add_loop [] (map (\<lambda>l. lit ''+'' @ l) (split_on 10 c) @ rest) = Inr (split_on 10 c, rest)"
    using add_loop_render [of rest "[]" "split_on 10 c"] assms(2) by auto
  with add show ?thesis by (simp add: render_op_def printable_path_def)
next
  case (delete p)
  then show ?thesis by (simp add: render_op_def printable_path_def)
next
  case (move p q)
  have "startswith (lit ''*** Move to: '' @ q) (lit ''*** Move to: '')" by simp
  with move show ?thesis by (simp add: render_op_def printable_path_def Let_def)
next
  case (update p hs)
  let ?body = "concat (map (\<lambda>h. lit ''@@'' # h) hs) @ rest"
  have "hunk_loop [] [] ?body = (hs, rest)"
    using hunk_loop_render [OF update(3), of rest "[]" "[]"] assms(2) by auto
  moreover have "\<not> (?body \<noteq> [] \<and> startswith (hd ?body) (lit ''*** Move to: ''))"
    using assms(2) by (cases hs) (auto simp: lit_simps)
  ultimately show ?thesis using update(1,2)
    by (auto simp: render_op_def printable_path_def Let_def)
qed

lemma render_op_head:
  "printable oper \<Longrightarrow> render_op oper \<noteq> [] \<and> startswith (hd (render_op oper)) (lit ''*** '') \<and>
     \<not> startswith (hd (render_op oper)) (lit ''*** Move to: '')"
  by (erule printable_cases) (simp_all add: render_op_def)

lemma parse_loop_render:
  "\<forall>oper \<in> set ops. printable oper \<Longrightarrow> parse_loop acc (concat (map render_op ops)) = Inr (acc @ ops)"
proof (induction ops arbitrary: acc)
  case (Cons oper ops)
  let ?rest = "concat (map render_op ops)"
  have "?rest = [] \<or> startswith (hd ?rest) (lit ''*** '') \<and> \<not> startswith (hd ?rest) (lit ''*** Move to: '')"
    using Cons.prems render_op_head by (cases ops) (auto simp: hd_append)
  then have "parse_loop acc (render_op oper @ ?rest) = parse_loop (acc @ [oper]) ?rest"
    using parse_loop_render_op Cons.prems by simp
  with Cons show ?case by simp
qed simp

lemma break_free_append [simp]: "break_free (s @ t) \<longleftrightarrow> break_free s \<and> break_free t"
  by (auto simp: break_free_def)

lemma break_free_markers [simp]:
  "break_free (lit ''*** Add File: '')" "break_free (lit ''*** Delete File: '')"
  "break_free (lit ''*** Update File: '')" "break_free (lit ''*** Move to: '')"
  "break_free (lit ''*** Begin Patch'')" "break_free (lit ''*** End Patch'')"
  "break_free (lit ''+'')" "break_free (lit ''@@'')"
  by (simp_all add: lit_def break_free_def is_line_break_def)

lemma render_op_break_free: "printable oper \<Longrightarrow> l \<in> set (render_op oper) \<Longrightarrow> break_free l"
  by (erule printable_cases) (auto simp: render_op_def printable_path_def printable_line_def split: if_splits)

lemma strip_envelope [simp]:
  "strip (lit ''*** Begin Patch'') = lit ''*** Begin Patch''"
  "strip (lit ''*** End Patch'') = lit ''*** End Patch''"
  by (simp_all add: strip_def strip_by_def lit_def is_space_def)

text \<open>The equations that evaluate the patch functions on closed texts.\<close>

lemmas patch_eval = apply_update_hunks_def strip_bom_def lit_simps detect_line_ending_def
  normalize_to_lf_def endswith_def splitlines_def is_line_break_def parse_update_hunk_def
  find_subsequence_all_def sorted_reverse_def apply_matched_def final_text_def
  restore_line_endings_def parse_patch_def strip_def strip_by_def is_space_def removeprefix_def
  Let_def upt_conv_Cons

section \<open>Properties\<close>

text \<open>
  C7: round trip of the patch format.  Parsing the printed form of any list of printable
  operations gives back the operations, in order.
\<close>

theorem parse_patch_render:
  assumes "\<forall>oper \<in> set ops. printable oper"
  shows "parse_patch (render_patch ops) = Inr ops"
proof -
  let ?body = "concat (map render_op ops)"
  have "splitlines (render_patch ops) = lit ''*** Begin Patch'' # ?body @ [lit ''*** End Patch'']"
    unfolding render_patch_def using assms
    by (intro splitlines_join) (auto simp: render_op_break_free)
  then show ?thesis using parse_loop_render [OF assms, of "[]"]
    by (simp add: parse_patch_def Let_def)
qed

theorem parse_patch_render_witness:
  "let ops = [\<lparr>op_kind = ''add'', op_path = lit ''a.txt'', op_add_content = Some (lit ''hi'' @ [10]),
               op_hunks = [], op_move_to = None\<rparr>,
              \<lparr>op_kind = ''update'', op_path = lit ''b.py'', op_add_content = None,
               op_hunks = [[lit ''-x'', lit ''+y'']], op_move_to = None\<rparr>]
   in (\<forall>oper \<in> set ops. printable oper) \<and> parse_patch (render_patch ops) = Inr ops"
proof -
  let ?a = "\<lparr>op_kind = ''add'', op_path = lit ''a.txt'', op_add_content = Some (lit ''hi'' @ [10]),
               op_hunks = [], op_move_to = None\<rparr>"
  let ?u = "\<lparr>op_kind = ''update'', op_path = lit ''b.py'', op_add_content = None,
               op_hunks = [[lit ''-x'', lit ''+y'']], op_move_to = None\<rparr>"
  have "printable ?a" "printable ?u"
    by (simp_all add: printable_def printable_path_def printable_line_def break_free_def lit_simps
        is_line_break_def strip_def strip_by_def is_space_def)
  then have h: "\<forall>oper \<in> set [?a, ?u]. printable oper" by simp
  show ?thesis unfolding Let_def using h parse_patch_render [OF h] by blast
qed

text \<open>
  C8: functional correctness of hunk application.  When every hunk of an update carries context
  or removed lines and the update succeeds, each hunk's old block occurs exactly once in the file,
  the blocks are disjoint, and the new content is the one-pass replacement of every block by its
  new lines, with the byte order mark, the line ending and the final line feed put back.
\<close>

theorem apply_update_hunks_correct:
  assumes "hunks \<noteq> []" "strip_bom content = (bom, txt)" "lines = splitlines (normalize_to_lf txt)"
    "rmap parse_update_hunk hunks = Inr parsed" "\<forall>h \<in> set parsed. ph_old h \<noteq> []"
    "apply_update_hunks content hunks = Inr r"
  shows "\<exists>ms. length ms = length parsed \<and> ordered_from 0 (length lines) ms \<and>
     (\<forall>i < length parsed. \<exists>m \<in> set ms. mh_index m = i \<and>
        find_subsequence_all lines (ph_old (parsed ! i)) = [mh_start m] \<and>
        mh_end m = mh_start m + length (ph_old (parsed ! i)) \<and> mh_new m = ph_new (parsed ! i)) \<and>
     r = bom @ restore_line_endings
           (final_text (endswith (normalize_to_lf txt) [10]) txt (splice_hunks 0 ms lines))
           (detect_line_ending txt)"
proof -
  obtain matched0 where m0: "match_loop lines 0 parsed = Inr matched0"
    and oc: "overlap_check (sort_key mh_start matched0) = Inr ()"
    and r: "r = bom @ restore_line_endings
           (final_text (endswith (normalize_to_lf txt) [10]) txt
             (foldl apply_matched lines (sorted_reverse (sort_key mh_start matched0))))
           (detect_line_ending txt)"
    using assms by (auto simp: apply_update_hunks_def result_simps Let_def)
  let ?ms = "sort_key mh_start matched0"
  note spec = match_loop_spec [OF m0]
  have each: "mh_start m < mh_end m \<and> mh_end m \<le> length lines" if "m \<in> set matched0" for m
  proof -
    obtain i where i: "i < length parsed" "m = matched0 ! i"
      using \<open>m \<in> set matched0\<close> spec by (metis in_set_conv_nth)
    have ne: "ph_old (parsed ! i) \<noteq> []" using assms(5) i by simp
    have f: "find_subsequence_all lines (ph_old (parsed ! i)) = [mh_start m]"
      and e: "mh_end m = mh_start m + length (ph_old (parsed ! i))"
      using spec i ne by (metis MatchedHunk.select_convs(3))+
    show ?thesis using find_subsequence_all_bound [OF ne f] ne e by simp
  qed
  have ord: "ordered_from 0 (length lines) ?ms"
    using overlap_check_ordered [OF oc, of "length lines" 0] each by (simp add: less_imp_le)
  have "sorted_reverse ?ms = rev ?ms"
    using ordered_strict [OF ord] each unfolding sorted_reverse_def
    by (simp add: sort_key_rev_strict)
  then have "foldl apply_matched lines (sorted_reverse ?ms) = splice_hunks 0 ?ms lines"
    using foldl_apply_rev_splice [OF ord] by simp
  moreover have "\<exists>m \<in> set ?ms. mh_index m = i \<and>
        find_subsequence_all lines (ph_old (parsed ! i)) = [mh_start m] \<and>
        mh_end m = mh_start m + length (ph_old (parsed ! i)) \<and> mh_new m = ph_new (parsed ! i)"
    if i: "i < length parsed" for i
  proof (rule bexI [of _ "matched0 ! i"])
    show "matched0 ! i \<in> set ?ms" using i spec by simp
    have ne: "ph_old (parsed ! i) \<noteq> []" using assms(5) i by simp
    show "mh_index (matched0 ! i) = i \<and>
        find_subsequence_all lines (ph_old (parsed ! i)) = [mh_start (matched0 ! i)] \<and>
        mh_end (matched0 ! i) = mh_start (matched0 ! i) + length (ph_old (parsed ! i)) \<and>
        mh_new (matched0 ! i) = ph_new (parsed ! i)"
      using spec i ne by (metis (no_types, lifting) MatchedHunk.select_convs add.left_neutral)
  qed
  ultimately show ?thesis using r ord spec by (intro exI [of _ ?ms]) simp
qed

lemma apply_update_hunks_example:
  "apply_update_hunks (lit ''a'' @ [13, 10] @ lit ''b'' @ [13, 10]) [[lit '' a'', lit ''-b'', lit ''+c'']] =
   Inr (lit ''a'' @ [13, 10] @ lit ''c'' @ [13, 10])"
  by (simp add: patch_eval)

theorem apply_update_hunks_correct_witness:
  "\<exists>ms. length ms = 1 \<and> ordered_from 0 2 ms \<and>
     (\<exists>m \<in> set ms. mh_index m = 0 \<and>
        find_subsequence_all [lit ''a'', lit ''b''] [lit ''a'', lit ''b''] = [mh_start m])"
proof -
  let ?txt = "lit ''a'' @ [13, 10] @ lit ''b'' @ [13, 10]"
  have l: "[lit ''a'', lit ''b''] = splitlines (normalize_to_lf ?txt)" by (simp add: patch_eval)
  have b: "strip_bom ?txt = ([], ?txt)" by (simp add: patch_eval)
  have p: "rmap parse_update_hunk [[lit '' a'', lit ''-b'', lit ''+c'']] =
      Inr [\<lparr>ph_old = [lit ''a'', lit ''b''], ph_new = [lit ''a'', lit ''c'']\<rparr>]" by (simp add: patch_eval)
  show ?thesis
    using apply_update_hunks_correct [OF _ b l p _ apply_update_hunks_example]
    by (force simp: numeral_2_eq_2)
qed

text \<open>
  An insertion hunk (no old lines) placed before a hunk that replaces the first line.  Both
  start at line 0 and do not count as overlapping; the stable reverse sort applies the insertion
  first, and the second hunk then overwrites the inserted line: the insertion is lost and the line
  to be replaced survives.
\<close>

theorem apply_update_hunks_insertion_lost:
  "apply_update_hunks (lit ''x'' @ [10]) [[lit ''+new''], [lit ''-x'', lit ''+y'']] =
   Inr (lit ''y'' @ [10] @ lit ''x'' @ [10])"
  by (simp add: patch_eval)

text \<open>
  A form feed in a line that no hunk touches is rewritten as a line feed, because the lines are
  taken with \<^verbatim>\<open>splitlines\<close> and joined with line feeds.
\<close>

theorem apply_update_hunks_form_feed:
  "apply_update_hunks (lit ''a'' @ [12] @ lit ''b'' @ [10] @ lit ''c'' @ [10]) [[lit ''-c'', lit ''+d'']] =
   Inr (lit ''a'' @ [10] @ lit ''b'' @ [10] @ lit ''d'' @ [10])"
  by (simp add: patch_eval)

text \<open>
  The end-of-file marker that \<^verbatim>\<open>parse_update_hunk\<close> accepts never reaches it: a patch that
  contains the marker is refused by the parser, whatever follows the hunk.
\<close>

theorem parse_patch_end_of_file_refused:
  "parse_patch (join [10] [lit ''*** Begin Patch'', lit ''*** Update File: f'', lit ''@@'',
     lit ''-x'', lit ''+y'', lit ''*** End of File'', lit ''*** End Patch'']) = Inl patch_failed"
  by (simp add: patch_eval)

end
