(* ===== verification/FileSystem.thy ===== *)
theory FileSystem
  imports PyText
begin

text \<open>
  The operating system as the modelled code sees it.  A tree of files and directories is a
  dictionary from absolute paths (lists of names) to nodes; symbolic links are not part of the
  tree, since the callers refuse them before they reach the modelled code.  Every system call that
  reads or changes a node may fail with \<^verbatim>\<open>OSError\<close>: the parameter \<open>os_fault\<close> says which calls
  do.  The queries \<^verbatim>\<open>Path.exists\<close> and \<^verbatim>\<open>Path.is_dir\<close> do not fail.  The random names of
  \<^verbatim>\<open>tempfile.mkstemp\<close> and the hash function of \<^verbatim>\<open>hashlib\<close> are parameters too.
\<close>

section \<open>The tree\<close>

type_synonym path = "string list"

datatype node = File bytes nat | Dir

type_synonym fs = "(path, node) dict"

definition file_at :: "fs \<Rightarrow> path \<Rightarrow> (bytes \<times> nat) option" where
  "file_at s p = (case map_of s p of Some (File d m) \<Rightarrow> Some (d, m) | _ \<Rightarrow> None)"

definition fs_exists :: "fs \<Rightarrow> path \<Rightarrow> bool" where
  "fs_exists s p \<longleftrightarrow> map_of s p \<noteq> None"

definition fs_is_dir :: "fs \<Rightarrow> path \<Rightarrow> bool" where
  "fs_is_dir s p \<longleftrightarrow> map_of s p = Some Dir"

definition fs_mkdir :: "path \<Rightarrow> fs \<Rightarrow> unit result \<times> fs" where
  "fs_mkdir p s =
     (case map_of s p of
        Some _ \<Rightarrow> (Inl FileExistsError, s)
      | None \<Rightarrow> (case map_of s (butlast p) of
            None \<Rightarrow> (Inl FileNotFoundError, s)
          | Some (File _ _) \<Rightarrow> (Inl OSError, s)
          | Some Dir \<Rightarrow> (Inr (), dict_set p Dir s)))"

definition fs_rmdir :: "path \<Rightarrow> fs \<Rightarrow> unit result \<times> fs" where
  "fs_rmdir p s =
     (if map_of s p = Some Dir \<and> list_all (\<lambda>e. fst e = [] \<or> butlast (fst e) \<noteq> p) s
      then (Inr (), dict_del p s) else (Inl OSError, s))"

definition fs_create :: "path \<Rightarrow> fs \<Rightarrow> unit result \<times> fs" where
  "fs_create p s =
     (case map_of s p of
        Some _ \<Rightarrow> (Inl FileExistsError, s)
      | None \<Rightarrow> (if map_of s (butlast p) = Some Dir then (Inr (), dict_set p (File [] 384) s)
                 else (Inl FileNotFoundError, s)))"

definition fs_write :: "path \<Rightarrow> bytes \<Rightarrow> fs \<Rightarrow> unit result \<times> fs" where
  "fs_write p data s =
     (case map_of s p of
        Some (File _ m) \<Rightarrow> (Inr (), dict_set p (File data m) s)
      | Some Dir \<Rightarrow> (Inl OSError, s)
      | None \<Rightarrow> (Inl FileNotFoundError, s))"

definition fs_chmod :: "path \<Rightarrow> nat \<Rightarrow> fs \<Rightarrow> unit result \<times> fs" where
  "fs_chmod p mode s =
     (case map_of s p of
        Some (File d _) \<Rightarrow> (Inr (), dict_set p (File d mode) s)
      | Some Dir \<Rightarrow> (Inr (), s)
      | None \<Rightarrow> (Inl FileNotFoundError, s))"

definition fs_read :: "path \<Rightarrow> fs \<Rightarrow> (bytes \<times> nat) result \<times> fs" where
  "fs_read p s =
     (case map_of s p of
        Some (File d m) \<Rightarrow> (Inr (d, m), s)
      | Some Dir \<Rightarrow> (Inl OSError, s)
      | None \<Rightarrow> (Inl FileNotFoundError, s))"

definition fs_unlink :: "bool \<Rightarrow> path \<Rightarrow> fs \<Rightarrow> unit result \<times> fs" where
  "fs_unlink missing_ok p s =
     (case map_of s p of
        Some (File _ _) \<Rightarrow> (Inr (), dict_del p s)
      | Some Dir \<Rightarrow> (Inl OSError, s)
      | None \<Rightarrow> (if missing_ok then Inr () else Inl FileNotFoundError, s))"

text \<open>\<^verbatim>\<open>os.replace\<close> of a file: the target's directory must exist and the target be no directory.\<close>

definition fs_replace :: "path \<Rightarrow> path \<Rightarrow> fs \<Rightarrow> unit result \<times> fs" where
  "fs_replace src dst s =
     (case map_of s src of
        None \<Rightarrow> (Inl FileNotFoundError, s)
      | Some Dir \<Rightarrow> (Inl OSError, s)
      | Some (File d m) \<Rightarrow>
          (if map_of s (butlast dst) \<noteq> Some Dir \<or> map_of s dst = Some Dir then (Inl OSError, s)
           else if src = dst then (Inr (), s)
           else (Inr (), dict_set dst (File d m) (dict_del src s))))"

section \<open>System calls in a world that may fail\<close>

record os =
  os_fault :: "nat \<Rightarrow> bool"
  os_rand :: "nat \<Rightarrow> string"
  os_sha256 :: "bytes \<Rightarrow> string"

record world =
  w_fs :: fs
  w_calls :: nat

type_synonym ('a, 'z) io = "'z world_scheme \<Rightarrow> 'a result \<times> 'z world_scheme"

definition syscall :: "os \<Rightarrow> (fs \<Rightarrow> 'a result \<times> fs) \<Rightarrow> ('a, 'z) io" where
  "syscall os f w =
     (let w' = w\<lparr>w_calls := Suc (w_calls w)\<rparr> in
      if os_fault os (w_calls w) then (Inl OSError, w')
      else case f (w_fs w) of (r, s) \<Rightarrow> (r, w'\<lparr>w_fs := s\<rparr>))"

definition io_return :: "'a \<Rightarrow> ('a, 'z) io" where
  "io_return x w = (Inr x, w)"

definition io_raise :: "pyexn \<Rightarrow> ('a, 'z) io" where
  "io_raise e w = (Inl e, w)"

definition io_bind :: "('a, 'z) io \<Rightarrow> ('a \<Rightarrow> ('b, 'z) io) \<Rightarrow> ('b, 'z) io" where
  "io_bind m f w = (case m w of (Inl e, w') \<Rightarrow> (Inl e, w') | (Inr x, w') \<Rightarrow> f x w')"

definition io_modify :: "('z world_scheme \<Rightarrow> 'z world_scheme) \<Rightarrow> (unit, 'z) io" where
  "io_modify f w = (Inr (), f w)"

text \<open>\<^verbatim>\<open>try: m except ...: h\<close>, and a loop over a list that stops at the first exception.\<close>

definition io_catch :: "('a, 'z) io \<Rightarrow> (pyexn \<Rightarrow> ('a, 'z) io) \<Rightarrow> ('a, 'z) io" where
  "io_catch m h w = (case m w of (Inl e, w') \<Rightarrow> h e w' | (Inr x, w') \<Rightarrow> (Inr x, w'))"

fun io_each :: "('x \<Rightarrow> (unit, 'z) io) \<Rightarrow> 'x list \<Rightarrow> (unit, 'z) io" where
  "io_each f [] w = (Inr (), w)"
| "io_each f (x # xs) w = io_bind (f x) (\<lambda>_. io_each f xs) w"

text \<open>\<^verbatim>\<open>tempfile.mkstemp(prefix=..., dir=...)\<close>: an exclusive creation under a random name.\<close>

definition mkstemp :: "os \<Rightarrow> string \<Rightarrow> path \<Rightarrow> (path, 'z) io" where
  "mkstemp os pre dir w =
     (let p = dir @ [pre @ os_rand os (w_calls w)] in
      io_bind (syscall os (fs_create p)) (\<lambda>_. io_return p) w)"

text \<open>\<^verbatim>\<open>Path.mkdir(parents=True, exist_ok=True)\<close>.\<close>

definition mkdir_exist_ok :: "os \<Rightarrow> path \<Rightarrow> (unit, 'z) io" where
  "mkdir_exist_ok os p =
     io_catch (syscall os (fs_mkdir p))
       (\<lambda>e w. if fs_is_dir (w_fs w) p then (Inr (), w) else (Inl e, w))"

function mkdir_parents :: "os \<Rightarrow> path \<Rightarrow> (unit, 'z) io" where
  "mkdir_parents os p w =
     (case syscall os (fs_mkdir p) w of
        (Inr _, w') \<Rightarrow> (Inr (), w')
      | (Inl e, w') \<Rightarrow>
          if e = FileNotFoundError \<and> p \<noteq> [] then
            io_bind (mkdir_parents os (butlast p)) (\<lambda>_. mkdir_exist_ok os p) w'
          else if fs_is_dir (w_fs w') p then (Inr (), w') else (Inl e, w'))"
  by pat_completeness auto
termination
  by (relation "measure (\<lambda>(os, p, w). length p)") auto

declare mkdir_parents.simps [simp del]

section \<open>Lemmas on the tree\<close>

lemma file_at_dict_set:
  "file_at (dict_set p n s) q =
     (if q = p then (case n of File d m \<Rightarrow> Some (d, m) | Dir \<Rightarrow> None) else file_at s q)"
  by (simp add: file_at_def split: node.splits)

lemma file_at_dict_del: "file_at (dict_del p s) q = (if q = p then None else file_at s q)"
  by (simp add: file_at_def)

lemmas file_at_simps = file_at_dict_set file_at_dict_del

lemma file_at_None: "map_of s p = None \<Longrightarrow> file_at s p = None"
  "map_of s p = Some Dir \<Longrightarrow> file_at s p = None"
  by (simp_all add: file_at_def)

lemma file_at_Some_exists: "file_at s p = Some x \<Longrightarrow> fs_exists s p \<and> \<not> fs_is_dir s p"
  by (auto simp: file_at_def fs_exists_def fs_is_dir_def split: option.splits node.splits)

lemma file_at_Some_iff: "file_at s p = Some (d, m) \<longleftrightarrow> map_of s p = Some (File d m)"
  by (auto simp: file_at_def split: option.splits node.splits)

text \<open>\<open>changes_only X m\<close>: however \<open>m\<close> ends, the files at paths outside \<open>X\<close> are as before.\<close>

definition same_files :: "path set \<Rightarrow> fs \<Rightarrow> fs \<Rightarrow> bool" where
  "same_files X s s' \<longleftrightarrow> (\<forall>p. p \<notin> X \<longrightarrow> file_at s' p = file_at s p)"

lemma same_files_refl [simp]: "same_files X s s"
  by (simp add: same_files_def)

lemma same_files_trans: "same_files X s t \<Longrightarrow> same_files X t u \<Longrightarrow> same_files X s u"
  by (simp add: same_files_def)

lemma same_files_mono: "same_files X s t \<Longrightarrow> X \<subseteq> Y \<Longrightarrow> same_files Y s t"
  by (auto simp: same_files_def)

lemma fs_op_frames [simp]:
  "same_files {} s (snd (fs_mkdir p s))"
  "same_files {} s (snd (fs_rmdir p s))"
  "same_files {p} s (snd (fs_create p s))"
  "same_files {p} s (snd (fs_write p data s))"
  "same_files {p} s (snd (fs_chmod p mode s))"
  "same_files {} s (snd (fs_read p s))"
  "same_files {p} s (snd (fs_unlink mo p s))"
  "same_files {p, q} s (snd (fs_replace p q s))"
  by (auto simp: same_files_def fs_mkdir_def fs_rmdir_def fs_create_def fs_write_def fs_chmod_def
      fs_read_def fs_unlink_def fs_replace_def file_at_simps file_at_None split: option.splits node.splits)

section \<open>Triples\<close>

text \<open>
  \<open>triple P m Q E\<close>: from a world with \<open>P\<close>, a normal return of \<open>m\<close> gives \<open>Q\<close> and an exception
  gives \<open>E\<close>.
\<close>

definition triple ::
    "('z world_scheme \<Rightarrow> bool) \<Rightarrow> ('a, 'z) io \<Rightarrow> ('a \<Rightarrow> 'z world_scheme \<Rightarrow> bool) \<Rightarrow>
     ('z world_scheme \<Rightarrow> bool) \<Rightarrow> bool" where
  "triple P m Q E \<longleftrightarrow>
     (\<forall>w. P w \<longrightarrow> (case m w of (Inl e, w') \<Rightarrow> E w' | (Inr x, w') \<Rightarrow> Q x w'))"

lemma tripleI:
  assumes "\<And>w e w'. P w \<Longrightarrow> m w = (Inl e, w') \<Longrightarrow> E w'"
    and "\<And>w x w'. P w \<Longrightarrow> m w = (Inr x, w') \<Longrightarrow> Q x w'"
  shows "triple P m Q E"
  unfolding triple_def using assms by (auto split: sum.splits prod.splits)

lemma triple_Inr: "triple P m Q E \<Longrightarrow> P w \<Longrightarrow> m w = (Inr x, w') \<Longrightarrow> Q x w'"
  and triple_Inl: "triple P m Q E \<Longrightarrow> P w \<Longrightarrow> m w = (Inl e, w') \<Longrightarrow> E w'"
  by (auto simp: triple_def)

lemma triple_pre: "(\<And>w. P w \<Longrightarrow> P' w) \<Longrightarrow> triple P' m Q E \<Longrightarrow> triple P m Q E"
  by (auto simp: triple_def)

lemma triple_post:
  "triple P m Q E \<Longrightarrow> (\<And>x w. Q x w \<Longrightarrow> Q' x w) \<Longrightarrow> triple P m Q' E"
  by (fastforce simp: triple_def split: sum.splits prod.splits)

lemma triple_pure: "(C \<Longrightarrow> triple P m Q E) \<Longrightarrow> triple (\<lambda>w. P w \<and> C) m Q E"
  by (auto simp: triple_def)

lemma triple_exc:
  "triple P m Q E \<Longrightarrow> (\<And>w. E w \<Longrightarrow> E' w) \<Longrightarrow> triple P m Q E'"
  by (fastforce simp: triple_def split: sum.splits prod.splits)

lemma triple_bind:
  assumes "triple P m R E" and "\<And>x. triple (R x) (f x) Q E"
  shows "triple P (io_bind m f) Q E"
proof (rule tripleI)
  fix w e w'
  assume "P w" "io_bind m f w = (Inl e, w')"
  then show "E w'"
    using triple_Inr [OF assms(1)] triple_Inl [OF assms(1)] triple_Inl [OF assms(2)]
    by (fastforce simp: io_bind_def split: sum.splits prod.splits)
next
  fix w x w'
  assume "P w" "io_bind m f w = (Inr x, w')"
  then show "Q x w'"
    using triple_Inr [OF assms(1)] triple_Inr [OF assms(2)]
    by (fastforce simp: io_bind_def split: sum.splits prod.splits)
qed

lemma triple_catch:
  assumes "triple P m Q R" and "\<And>e. triple R (h e) Q E"
  shows "triple P (io_catch m h) Q E"
proof (rule tripleI)
  fix w e w'
  assume "P w" "io_catch m h w = (Inl e, w')"
  then show "E w'"
    using triple_Inl [OF assms(1)] triple_Inl [OF assms(2)]
    by (fastforce simp: io_catch_def split: sum.splits prod.splits)
next
  fix w x w'
  assume "P w" "io_catch m h w = (Inr x, w')"
  then show "Q x w'"
    using triple_Inr [OF assms(1)] triple_Inl [OF assms(1)] triple_Inr [OF assms(2)]
    by (fastforce simp: io_catch_def split: sum.splits prod.splits)
qed

lemma triple_if:
  "triple (\<lambda>w. P w \<and> c w) m Q E \<Longrightarrow> triple (\<lambda>w. P w \<and> \<not> c w) m' Q E \<Longrightarrow>
   triple P (\<lambda>w. if c w then m w else m' w) Q E"
  by (auto simp: triple_def)

lemma triple_return: "(\<And>w. P w \<Longrightarrow> Q x w) \<Longrightarrow> triple P (io_return x) Q E"
  by (simp add: triple_def io_return_def)

lemma triple_raise: "(\<And>w. P w \<Longrightarrow> E w) \<Longrightarrow> triple P (io_raise e) Q E"
  by (simp add: triple_def io_raise_def)

lemma triple_modify: "(\<And>w. P w \<Longrightarrow> Q () (f w)) \<Longrightarrow> triple P (io_modify f) Q E"
  by (simp add: triple_def io_modify_def)

lemma triple_syscall:
  assumes "\<And>w. P w \<Longrightarrow> E (w\<lparr>w_calls := Suc (w_calls w)\<rparr>)"
    and "\<And>w e s. P w \<Longrightarrow> f (w_fs w) = (Inl e, s) \<Longrightarrow> E (w\<lparr>w_calls := Suc (w_calls w), w_fs := s\<rparr>)"
    and "\<And>w x s. P w \<Longrightarrow> f (w_fs w) = (Inr x, s) \<Longrightarrow> Q x (w\<lparr>w_calls := Suc (w_calls w), w_fs := s\<rparr>)"
  shows "triple P (syscall os f) Q E"
  unfolding triple_def syscall_def Let_def using assms
  by (auto split: sum.splits prod.splits)

text \<open>A loop carries an invariant indexed by the part of the list that has been processed.\<close>

lemma triple_each_aux:
  assumes "\<And>ys x zs. xs0 = ys @ x # zs \<Longrightarrow> triple (I ys) (f x) (\<lambda>_. I (ys @ [x])) E"
  shows "xs0 = ys @ xs \<Longrightarrow> triple (I ys) (io_each f xs) (\<lambda>_. I xs0) E"
proof (induction xs arbitrary: ys)
  case Nil
  then show ?case by (simp add: triple_def)
next
  case (Cons x xs)
  have "triple (I ys) (io_bind (f x) (\<lambda>_. io_each f xs)) (\<lambda>_. I xs0) E"
    using Cons by (intro triple_bind [OF assms [of ys x xs]]) auto
  then show ?case by (simp add: triple_def)
qed

lemma triple_each:
  assumes "\<And>ys x zs. xs = ys @ x # zs \<Longrightarrow> triple (I ys) (f x) (\<lambda>_. I (ys @ [x])) E"
  shows "triple (I []) (io_each f xs) (\<lambda>_. I xs) E"
  using triple_each_aux [of xs I f E "[]" xs] assms by simp

end
