(* ===== verification/PatchCommit.thy ===== *)
theory PatchCommit
  imports FileSystem
begin

text \<open>
  The file half of \<open>coding_tools_mcp/patching.py\<close>: baselines, staged files and
  \<open>AtomicPatchCommitter\<close>.  The committer's local variables (\<^verbatim>\<open>created_dirs\<close>, \<^verbatim>\<open>prepared\<close>,
  \<^verbatim>\<open>backups\<close>, \<^verbatim>\<open>installed\<close>) are part of the state, because the exception handler reads the values
  they have when a system call fails.  The theorems hold for every pattern of failing calls.
\<close>

section \<open>Baselines and staged files\<close>

definition PATCH_TEMP_PREFIX :: string where
  "PATCH_TEMP_PREFIX = ''.coding-tools-patch-''"

definition PATCH_BACKUP_PREFIX :: string where
  "PATCH_BACKUP_PREFIX = ''.coding-tools-backup-''"

record FileBaseline =
  fb_data :: "bytes option"
  fb_mode :: "nat option"
  fb_digest :: "string option"

datatype staged_content = CBytes bytes | CText pytext

record StagedFile =
  sf_display :: string
  sf_path :: path
  sf_content :: "staged_content option"
  sf_baseline :: FileBaseline
  sf_mode :: "nat option"

definition capture :: "os \<Rightarrow> path \<Rightarrow> (FileBaseline, 'z) io" where
  "capture os p w =
     (if \<not> fs_exists (w_fs w) p then
        io_return \<lparr>fb_data = None, fb_mode = None, fb_digest = None\<rparr> w
      else if fs_is_dir (w_fs w) p then io_raise (tool_failure ''PATCH_FAILED'' ''validation'') w
      else io_bind (syscall os (fs_read p)) (\<lambda>dm.
           io_bind (syscall os (fs_read p)) (\<lambda>dm'.
           io_return \<lparr>fb_data = Some (fst dm), fb_mode = Some (snd dm'),
                      fb_digest = Some (os_sha256 os (fst dm))\<rparr>)) w)"

definition baseline_matches :: "os \<Rightarrow> FileBaseline \<Rightarrow> path \<Rightarrow> (bool, 'z) io" where
  "baseline_matches os b p w =
     (if fb_data b = None then io_return (\<not> fs_exists (w_fs w) p) w
      else if \<not> fs_exists (w_fs w) p \<or> fs_is_dir (w_fs w) p then io_return False w
      else io_bind (syscall os (fs_read p)) (\<lambda>dm.
           if fb_digest b = Some (os_sha256 os (fst dm)) then
             io_bind (syscall os (fs_read p)) (\<lambda>dm'. io_return (fb_mode b = Some (snd dm')))
           else io_return False) w)"

definition baseline_text :: "FileBaseline \<Rightarrow> pytext result" where
  "baseline_text b =
     (case fb_data b of
        None \<Rightarrow> Inr []
      | Some data \<Rightarrow>
          (case py_decode data of
             Inl _ \<Rightarrow> Inl (tool_failure ''UNSUPPORTED_ENCODING'' ''validation'')
           | Inr t \<Rightarrow> Inr t))"

section \<open>The helpers of the committer\<close>

fun missing_dirs :: "fs \<Rightarrow> path \<Rightarrow> path list" where
  "missing_dirs s p =
     (if fs_exists s p \<or> p = [] then [] else p # missing_dirs s (butlast p))"

declare missing_dirs.simps [simp del]

definition ensure_parent :: "os \<Rightarrow> path \<Rightarrow> (path list, 'z) io" where
  "ensure_parent os parent w =
     (let missing = missing_dirs (w_fs w) parent in
      io_bind (mkdir_parents os parent) (\<lambda>_. io_return (rev missing)) w)"

definition content_bytes :: "staged_content \<Rightarrow> bytes result" where
  "content_bytes c = (case c of CBytes d \<Rightarrow> Inr d | CText t \<Rightarrow> py_encode t)"

definition install_mode :: "nat option \<Rightarrow> nat" where
  "install_mode m = (case m of Some k \<Rightarrow> k | None \<Rightarrow> 420)"

definition prepare_file :: "os \<Rightarrow> StagedFile \<Rightarrow> staged_content \<Rightarrow> (path, 'z) io" where
  "prepare_file os change c =
     io_bind (mkstemp os PATCH_TEMP_PREFIX (butlast (sf_path change))) (\<lambda>tmp.
     io_catch
       (case content_bytes c of
          Inl e \<Rightarrow> io_raise e
        | Inr data \<Rightarrow>
            io_bind (syscall os (fs_write tmp data)) (\<lambda>_.
            io_bind (syscall os (\<lambda>s. (Inr (), s))) (\<lambda>_.
            io_bind (syscall os (fs_chmod tmp (install_mode (sf_mode change)))) (\<lambda>_.
            io_return tmp))))
       (\<lambda>e. io_bind (syscall os (fs_unlink True tmp)) (\<lambda>_. io_raise e)))"

definition reserve_backup_path :: "os \<Rightarrow> path \<Rightarrow> (path, 'z) io" where
  "reserve_backup_path os parent =
     io_bind (mkstemp os PATCH_BACKUP_PREFIX parent) (\<lambda>p.
     io_bind (syscall os (fs_unlink False p)) (\<lambda>_. io_return p))"

text \<open>Durability only: every error is swallowed and no node changes.\<close>

definition fsync_directory :: "os \<Rightarrow> (unit, 'z) io" where
  "fsync_directory os w = (Inr (), snd (syscall os (\<lambda>s. (Inr (), s)) w))"

section \<open>The committer\<close>

record commit_state = world +
  cs_created :: "path list"
  cs_prepared :: "(path, path) dict"
  cs_backups :: "(path, path) dict"
  cs_installed :: "path list"

type_synonym 'a commit = "commit_state \<Rightarrow> 'a result \<times> commit_state"

definition assert_unique_paths :: "StagedFile list \<Rightarrow> unit result" where
  "assert_unique_paths changes =
     (if distinct (map sf_path changes) then Inr ()
      else Inl (tool_failure ''PATCH_FAILED'' ''validation''))"

definition assert_baseline :: "os \<Rightarrow> StagedFile \<Rightarrow> unit commit" where
  "assert_baseline os change =
     io_bind (baseline_matches os (sf_baseline change) (sf_path change)) (\<lambda>ok.
       if ok then io_return ()
       else io_raise (retryable_failure ''PATCH_CONFLICT'' ''conflict''
                        [(''path'', JStr (sf_display change))]))"

definition prepare_step :: "os \<Rightarrow> StagedFile \<Rightarrow> unit commit" where
  "prepare_step os change =
     io_bind (ensure_parent os (butlast (sf_path change))) (\<lambda>dirs.
     io_bind (io_modify (\<lambda>w. w\<lparr>cs_created := cs_created w @ dirs\<rparr>)) (\<lambda>_.
       case sf_content change of
         None \<Rightarrow> io_return ()
       | Some c \<Rightarrow>
           io_bind (prepare_file os change c) (\<lambda>tmp.
           io_modify (\<lambda>w. w\<lparr>cs_prepared := dict_set (sf_path change) tmp (cs_prepared w)\<rparr>))))"

definition backup_step :: "os \<Rightarrow> StagedFile \<Rightarrow> unit commit" where
  "backup_step os change =
     io_bind (assert_baseline os change) (\<lambda>_ w.
       if fs_exists (w_fs w) (sf_path change) then
         io_bind (reserve_backup_path os (butlast (sf_path change))) (\<lambda>backup.
         io_bind (syscall os (fs_replace (sf_path change) backup)) (\<lambda>_.
         io_bind (io_modify (\<lambda>w. w\<lparr>cs_backups := dict_set (sf_path change) backup (cs_backups w)\<rparr>)) (\<lambda>_.
         fsync_directory os))) w
       else io_return () w)"

definition install_step :: "os \<Rightarrow> StagedFile \<Rightarrow> unit commit" where
  "install_step os change w =
     (case map_of (cs_prepared w) (sf_path change) of
        None \<Rightarrow> io_return () w
      | Some prepared_path \<Rightarrow>
          io_bind (if map_of (cs_backups w) (sf_path change) = None then assert_baseline os change
                   else io_return ()) (\<lambda>_.
          io_bind (syscall os (fs_replace prepared_path (sf_path change))) (\<lambda>_.
          io_bind (io_modify (\<lambda>w. w\<lparr>cs_installed := sf_path change # cs_installed w\<rparr>)) (\<lambda>_.
          fsync_directory os))) w)"

definition commit_body :: "os \<Rightarrow> StagedFile list \<Rightarrow> unit commit" where
  "commit_body os changes =
     io_bind (io_each (prepare_step os) changes) (\<lambda>_.
     io_bind (io_each (assert_baseline os) changes) (\<lambda>_.
     io_bind (io_each (backup_step os) changes) (\<lambda>_.
     io_each (install_step os) changes)))"

text \<open>
  \<^verbatim>\<open>_rollback\<close>: an \<^verbatim>\<open>OSError\<close> (also as one of its subclasses) is recorded and the loop goes on.
  The error list is kept as the list of the paths concerned.
\<close>

definition remove_installed :: "os \<Rightarrow> path \<Rightarrow> unit commit" where
  "remove_installed os p w =
     (if p \<in> set (cs_installed w) \<and> fs_exists (w_fs w) p \<and> \<not> fs_is_dir (w_fs w) p
      then syscall os (fs_unlink False p) w else io_return () w)"

definition restore_backup :: "os \<Rightarrow> path \<Rightarrow> bool commit" where
  "restore_backup os p w =
     (case map_of (cs_backups w) p of
        None \<Rightarrow> io_return True w
      | Some backup \<Rightarrow>
          if \<not> fs_exists (w_fs w) backup then io_return False w
          else io_bind (syscall os (fs_replace backup p)) (\<lambda>_.
               io_bind (fsync_directory os) (\<lambda>_. io_return True)) w)"

definition rollback_path :: "os \<Rightarrow> path \<Rightarrow> commit_state \<Rightarrow> path list \<times> commit_state" where
  "rollback_path os p w =
     (case io_bind (remove_installed os p) (\<lambda>_. restore_backup os p) w of
        (Inl e, w') \<Rightarrow> ([p], w')
      | (Inr restored, w') \<Rightarrow> (if restored then [] else [p], w'))"

fun rollback_paths :: "os \<Rightarrow> path list \<Rightarrow> commit_state \<Rightarrow> path list \<times> commit_state" where
  "rollback_paths os [] w = ([], w)"
| "rollback_paths os (p # ps) w =
     (case rollback_path os p w of (es, w') \<Rightarrow>
        case rollback_paths os ps w' of (es', w'') \<Rightarrow> (es @ es', w''))"

fun unlink_all :: "os \<Rightarrow> path list \<Rightarrow> commit_state \<Rightarrow> path list \<times> commit_state" where
  "unlink_all os [] w = ([], w)"
| "unlink_all os (p # ps) w =
     (case syscall os (fs_unlink True p) w of (r, w') \<Rightarrow>
        case unlink_all os ps w' of (es, w'') \<Rightarrow>
          ((case r of Inl _ \<Rightarrow> [p] | Inr _ \<Rightarrow> []) @ es, w''))"

fun rmdir_all :: "os \<Rightarrow> path list \<Rightarrow> commit_state \<Rightarrow> commit_state" where
  "rmdir_all os [] w = w"
| "rmdir_all os (p # ps) w = rmdir_all os ps (snd (syscall os (fs_rmdir p) w))"

definition rollback :: "os \<Rightarrow> StagedFile list \<Rightarrow> commit_state \<Rightarrow> path list \<times> commit_state" where
  "rollback os changes w =
     (case rollback_paths os (rev (map sf_path changes)) w of (es1, w1) \<Rightarrow>
      case unlink_all os (map snd (cs_prepared w1)) w1 of (es2, w2) \<Rightarrow>
        (es1 @ es2, rmdir_all os (rev (cs_created w2)) w2))"

text \<open>The backups that still exist, listed in the details of a failed rollback.\<close>

definition recovery_backups :: "commit_state \<Rightarrow> (path, path) dict" where
  "recovery_backups w = filter (\<lambda>e. fs_exists (w_fs w) (snd e)) (cs_backups w)"

text \<open>
  The exception of a failed rollback: the paths that could not be restored and, by display name,
  the backup of every original that still exists.
\<close>

definition path_str :: "path \<Rightarrow> string" where
  "path_str p = concat (map (\<lambda>n. ''/'' @ n) p)"

definition display_of :: "StagedFile list \<Rightarrow> path \<Rightarrow> string" where
  "display_of changes p =
     (case map_of (map (\<lambda>c. (sf_path c, sf_display c)) (rev changes)) p of
        Some d \<Rightarrow> d | None \<Rightarrow> path_str p)"

definition rollback_failed :: "StagedFile list \<Rightarrow> path list \<Rightarrow> commit_state \<Rightarrow> pyexn" where
  "rollback_failed changes errors w =
     Tool \<lparr>tf_code = ''PATCH_ROLLBACK_FAILED'', tf_category = ''internal'', tf_retryable = False,
           tf_details =
             [(''rollback_errors'', JList (map (\<lambda>p. JStr (path_str p)) errors)),
              (''recovery_backups'',
               JObj (dict_from (map (\<lambda>e. (display_of changes (fst e), JStr (path_str (snd e))))
                 (recovery_backups w))))]\<rparr>"

text \<open>The \<^verbatim>\<open>finally\<close> block.\<close>

fun unlink_backups :: "os \<Rightarrow> path list \<Rightarrow> commit_state \<Rightarrow> commit_state" where
  "unlink_backups os [] w = w"
| "unlink_backups os (p # ps) w =
     (case syscall os (fs_unlink True p) w of
        (Inl _, w') \<Rightarrow> unlink_backups os ps w'
      | (Inr _, w') \<Rightarrow> unlink_backups os ps (snd (fsync_directory os w')))"

definition cleanup :: "os \<Rightarrow> bool \<Rightarrow> commit_state \<Rightarrow> commit_state" where
  "cleanup os preserve_backups w =
     (let w1 = snd (unlink_all os (map snd (cs_prepared w)) w) in
      if preserve_backups then w1 else unlink_backups os (map snd (cs_backups w1)) w1)"

definition commit_in :: "os \<Rightarrow> StagedFile list \<Rightarrow> unit commit" where
  "commit_in os changes w =
     (case commit_body os changes w of
        (Inr _, w1) \<Rightarrow> (Inr (), cleanup os False w1)
      | (Inl e, w1) \<Rightarrow>
          (case rollback os changes w1 of (errors, w2) \<Rightarrow>
             if errors \<noteq> [] then (Inl (rollback_failed changes errors w2), cleanup os True w2)
             else (Inl e, cleanup os False w2)))"

definition start_commit :: "world \<Rightarrow> commit_state" where
  "start_commit w =
     \<lparr>w_fs = w_fs w, w_calls = w_calls w, cs_created = [], cs_prepared = [], cs_backups = [],
      cs_installed = []\<rparr>"

definition commit :: "os \<Rightarrow> StagedFile list \<Rightarrow> unit commit" where
  "commit os changes w =
     (if changes = [] then (Inr (), w)
      else case assert_unique_paths changes of
          Inl e \<Rightarrow> (Inl e, w)
        | Inr _ \<Rightarrow> commit_in os changes w)"

section \<open>What a commit promises\<close>

text \<open>
  Paths whose last component carries one of the two reserved prefixes are the committer's own; all
  others belong to the user.
\<close>

definition temp_name :: "path \<Rightarrow> bool" where
  "temp_name p \<longleftrightarrow> p \<noteq> [] \<and> startswith (last p) PATCH_TEMP_PREFIX"

definition backup_name :: "path \<Rightarrow> bool" where
  "backup_name p \<longleftrightarrow> p \<noteq> [] \<and> startswith (last p) PATCH_BACKUP_PREFIX"

definition user_path :: "path \<Rightarrow> bool" where
  "user_path p \<longleftrightarrow> \<not> temp_name p \<and> \<not> backup_name p"

text \<open>The file a change leaves at its path, and the file map after a whole change set.\<close>

definition staged_value :: "StagedFile \<Rightarrow> (bytes \<times> nat) option" where
  "staged_value c =
     (case sf_content c of
        None \<Rightarrow> None
      | Some x \<Rightarrow> (case content_bytes x of
            Inl _ \<Rightarrow> None
          | Inr d \<Rightarrow> Some (d, install_mode (sf_mode c))))"

definition expected :: "StagedFile list \<Rightarrow> path \<Rightarrow> (bytes \<times> nat) option" where
  "expected changes p =
     (case find (\<lambda>c. sf_path c = p) changes of None \<Rightarrow> None | Some c \<Rightarrow> staged_value c)"

definition patched ::
    "(path \<Rightarrow> (bytes \<times> nat) option) \<Rightarrow> StagedFile list \<Rightarrow> path \<Rightarrow> (bytes \<times> nat) option" where
  "patched orig changes p =
     (if p \<in> set (map sf_path changes) then expected changes p else orig p)"

text \<open>A baseline describes the present file.\<close>

definition baseline_holds :: "os \<Rightarrow> FileBaseline \<Rightarrow> (bytes \<times> nat) option \<Rightarrow> bool" where
  "baseline_holds os b x =
     (case x of
        None \<Rightarrow> fb_data b = None
      | Some (d, m) \<Rightarrow> fb_data b \<noteq> None \<and> fb_digest b = Some (os_sha256 os d) \<and> fb_mode b = Some m)"

section \<open>The ledger\<close>

text \<open>
  The invariant of the committer over the file map \<open>F\<close>, the backups \<open>B\<close>, the prepared files \<open>T\<close>
  and the installed paths \<open>I\<close>, relative to the original file map \<open>orig\<close>, the paths \<open>P\<close> of the
  change set and the expected new files \<open>X\<close>.
\<close>

type_synonym files = "path \<Rightarrow> (bytes \<times> nat) option"

definition ledger ::
    "files \<Rightarrow> path set \<Rightarrow> files \<Rightarrow> files \<Rightarrow> (path \<rightharpoonup> path) \<Rightarrow> (path \<rightharpoonup> path) \<Rightarrow> path set \<Rightarrow> bool" where
  "ledger orig P X F B T I \<longleftrightarrow>
     (\<forall>p. user_path p \<longrightarrow> B p = None \<longrightarrow> p \<notin> I \<longrightarrow> F p = orig p) \<and>
     (\<forall>p b. B p = Some b \<longrightarrow>
        p \<in> P \<and> backup_name b \<and> butlast b = butlast p \<and> F b = orig p \<and> orig p \<noteq> None \<and>
        (p \<notin> I \<longrightarrow> F p = None)) \<and>
     (\<forall>p q b. B p = Some b \<longrightarrow> B q = Some b \<longrightarrow> p = q) \<and>
     (\<forall>p \<in> I. p \<in> P \<and> (B p = None \<longrightarrow> orig p = None) \<and> F p = X p) \<and>
     (\<forall>p t. T p = Some t \<longrightarrow>
        p \<in> P \<and> temp_name t \<and> (p \<notin> I \<longrightarrow> F t = X p \<and> X p \<noteq> None)) \<and>
     (\<forall>p q t. T p = Some t \<longrightarrow> T q = Some t \<longrightarrow> p \<notin> I \<longrightarrow> q \<notin> I \<longrightarrow> p = q)"

lemma ledgerD:
  assumes "ledger orig P X F B T I"
  shows "user_path p \<Longrightarrow> B p = None \<Longrightarrow> p \<notin> I \<Longrightarrow> F p = orig p"
    and "B p = Some b \<Longrightarrow> p \<in> P \<and> backup_name b \<and> butlast b = butlast p \<and> F b = orig p \<and> orig p \<noteq> None"
    and "B p = Some b \<Longrightarrow> p \<notin> I \<Longrightarrow> F p = None"
    and "B p = Some b \<Longrightarrow> B q = Some b \<Longrightarrow> p = q"
    and "p \<in> I \<Longrightarrow> p \<in> P \<and> (B p = None \<longrightarrow> orig p = None) \<and> F p = X p"
    and "T p = Some t \<Longrightarrow> p \<in> P \<and> temp_name t"
    and "T p = Some t \<Longrightarrow> p \<notin> I \<Longrightarrow> F t = X p \<and> X p \<noteq> None"
    and "T p = Some t \<Longrightarrow> T q = Some t \<Longrightarrow> p \<notin> I \<Longrightarrow> q \<notin> I \<Longrightarrow> p = q"
  using assms unfolding ledger_def by simp_all

lemma ledgerI:
  assumes "\<And>p. user_path p \<Longrightarrow> B p = None \<Longrightarrow> p \<notin> I \<Longrightarrow> F p = orig p"
    and "\<And>p b. B p = Some b \<Longrightarrow>
      p \<in> P \<and> backup_name b \<and> butlast b = butlast p \<and> F b = orig p \<and> orig p \<noteq> None"
    and "\<And>p b. B p = Some b \<Longrightarrow> p \<notin> I \<Longrightarrow> F p = None"
    and "\<And>p q b. B p = Some b \<Longrightarrow> B q = Some b \<Longrightarrow> p = q"
    and "\<And>p. p \<in> I \<Longrightarrow> p \<in> P \<and> (B p = None \<longrightarrow> orig p = None) \<and> F p = X p"
    and "\<And>p t. T p = Some t \<Longrightarrow> p \<in> P \<and> temp_name t"
    and "\<And>p t. T p = Some t \<Longrightarrow> p \<notin> I \<Longrightarrow> F t = X p \<and> X p \<noteq> None"
    and "\<And>p q t. T p = Some t \<Longrightarrow> T q = Some t \<Longrightarrow> p \<notin> I \<Longrightarrow> q \<notin> I \<Longrightarrow> p = q"
  shows "ledger orig P X F B T I"
  using assms unfolding ledger_def by simp

lemma name_classes [simp]:
  "temp_name p \<Longrightarrow> \<not> backup_name p" "temp_name p \<Longrightarrow> \<not> user_path p"
  "backup_name p \<Longrightarrow> \<not> user_path p" "backup_name p \<Longrightarrow> \<not> temp_name p"
  by (auto simp: temp_name_def backup_name_def user_path_def PATCH_TEMP_PREFIX_def
      PATCH_BACKUP_PREFIX_def startswith_iff_prefix prefix_def)

lemma mkstemp_names [simp]:
  "temp_name (d @ [PATCH_TEMP_PREFIX @ r])" "backup_name (d @ [PATCH_BACKUP_PREFIX @ r])"
  by (simp_all add: temp_name_def backup_name_def)

text \<open>A file that no table mentions may come and go.\<close>

lemma ledger_other:
  assumes "ledger orig P X F B T I" "\<not> user_path t" "\<forall>p \<in> P. user_path p"
    and "\<forall>p. B p \<noteq> Some t" "\<forall>p. T p = Some t \<longrightarrow> p \<in> I"
    and "\<And>q. q \<noteq> t \<Longrightarrow> F' q = F q"
  shows "ledger orig P X F' B T I"
proof -
  have user: "F' q = F q" if "user_path q" for q using assms(2,6) that by metis
  have inP: "F' q = F q" if "q \<in> P" for q using user assms(3) that by blast
  have bs: "F' b = F b" if "B p = Some b" for p b using assms(4,6) that by metis
  have ts: "F' u = F u" if "T p = Some u" "p \<notin> I" for p u using assms(5,6) that by metis
  have IP: "I \<subseteq> P" using assms(1) by (auto simp: ledger_def)
  show ?thesis
    using assms(1) IP unfolding ledger_def by (simp add: user inP bs ts subset_iff)
qed

lemma ledger_backup:
  assumes "ledger orig P X F B T I" "\<forall>p \<in> P. user_path p"
    and "p \<in> P" "B p = None" "p \<notin> I" "F p \<noteq> None"
    and "backup_name b" "butlast b = butlast p" "F b = None"
  shows "ledger orig P X (F(p := None, b := F p)) (B(p \<mapsto> b)) T I"
proof -
  have up: "user_path p" using assms(2,3) by blast
  have pb: "p \<noteq> b" using up assms(7) by auto
  have Fp: "F p = orig p" using assms(1,4,5) up by (auto simp: ledger_def)
  have bfree: "\<forall>q. B q \<noteq> Some b" using assms(1,9) by (fastforce simp: ledger_def)
  have bu: "q \<noteq> b" if "user_path q" for q using that assms(7) by auto
  have tb: "t \<noteq> b \<and> t \<noteq> p" if "temp_name t" for t using that assms(7) up by auto
  have ubn: "c \<noteq> p" if "backup_name c" for c using that up by auto
  note D = ledgerD [OF assms(1)]
  have bP: "b \<notin> P" using assms(2) bu by blast
  have bI: "b \<notin> I" using bP D(5) by blast
  have Bb: "B b = None" using bP D(2) [of b] by (cases "B b") auto
  let ?F = "F(p := None, b := F p)" and ?B = "B(p \<mapsto> b)"
  show ?thesis
  proof (rule ledgerI)
    show "?F q = orig q" if "user_path q" "?B q = None" "q \<notin> I" for q
      using that D(1) bu by (auto split: if_splits)
    show "q \<in> P \<and> backup_name c \<and> butlast c = butlast q \<and> ?F c = orig q \<and> orig q \<noteq> None"
      if "?B q = Some c" for q c
      using that D(2) [of q c] ubn [of c] bfree assms(3,6-8) Fp pb by (cases "q = p") auto
    show "?F q = None" if "?B q = Some c" "q \<notin> I" for q c
      using that D(3) [of q c] pb Bb by (auto split: if_splits)
    show "q = q'" if "?B q = Some c" "?B q' = Some c" for q q' c
      using that D(4) [of q c q'] bfree by (auto split: if_splits)
    show "q \<in> P \<and> (?B q = None \<longrightarrow> orig q = None) \<and> ?F q = X q" if "q \<in> I" for q
      using that D(5) [of q] bI assms(5) by auto
    show "q \<in> P \<and> temp_name t" if "T q = Some t" for q t using that by (rule D(6))
    show "?F t = X q \<and> X q \<noteq> None" if "T q = Some t" "q \<notin> I" for q t
      using that D(6,7) [of q t] tb [of t] by auto
    show "q = q'" if "T q = Some t" "T q' = Some t" "q \<notin> I" "q' \<notin> I" for q q' t
      using that by (rule D(8))
  qed
qed

lemma ledger_install:
  assumes "ledger orig P X F B T I" "\<forall>p \<in> P. user_path p"
    and "T p = Some t" "p \<notin> I" "B p = None \<longrightarrow> F p = None"
  shows "ledger orig P X (F(t := None, p := F t)) B T (insert p I)"
proof -
  have pP: "p \<in> P" and tt: "temp_name t" and Ft: "F t = X p"
    using assms(1,3,4) by (auto simp: ledger_def)
  have up: "user_path p" using pP assms(2) by blast
  have tu: "q \<noteq> t" if "user_path q" for q using that tt by auto
  have bt: "b \<noteq> t \<and> b \<noteq> p" if "backup_name b" for b using that tt up by auto
  have tp: "u \<noteq> p" if "temp_name u" for u using that up by auto
  have orig: "B p = None \<Longrightarrow> orig p = None"
    using assms(1,4,5) up by (auto simp: ledger_def)
  note D = ledgerD [OF assms(1)]
  have tq: "u \<noteq> t" if "T q = Some u" "q \<notin> insert p I" for q u
    using D(8) [OF assms(3), of q] that assms(4) by auto
  have tP: "t \<notin> I" using assms(2) tu D(5) by auto
  let ?F = "F(t := None, p := F t)"
  show ?thesis
  proof (rule ledgerI)
    show "?F q = orig q" if "user_path q" "B q = None" "q \<notin> insert p I" for q
      using that D(1) tu by auto
    show "q \<in> P \<and> backup_name b \<and> butlast b = butlast q \<and> ?F b = orig q \<and> orig q \<noteq> None"
      if "B q = Some b" for q b
      using that D(2) [of q b] bt [of b] by auto
    show "?F q = None" if "B q = Some b" "q \<notin> insert p I" for q b
      using that D(3) [of q b] by auto
    show "q = q'" if "B q = Some b" "B q' = Some b" for q q' b using that by (rule D(4))
    show "q \<in> P \<and> (B q = None \<longrightarrow> orig q = None) \<and> ?F q = X q" if "q \<in> insert p I" for q
      using that D(5) [of q] tP pP Ft orig by auto
    show "q \<in> P \<and> temp_name u" if "T q = Some u" for q u using that by (rule D(6))
    show "?F u = X q \<and> X q \<noteq> None" if "T q = Some u" "q \<notin> insert p I" for q u
      using that D(6,7) [of q u] tq [of q u] tp [of u] by auto
    show "q = q'" if "T q = Some u" "T q' = Some u" "q \<notin> insert p I" "q' \<notin> insert p I" for q q' u
      using that D(8) [of q u q'] by auto
  qed
qed

section \<open>The steps keep the ledger\<close>

type_synonym view = "(files \<times> bool) \<times> (path \<rightharpoonup> path) \<times> (path \<rightharpoonup> path) \<times> path set"

definition view :: "commit_state \<Rightarrow> view" where
  "view w =
     ((file_at (w_fs w), dict_ok (cs_backups w) \<and> dict_ok (cs_prepared w)),
      map_of (cs_backups w), map_of (cs_prepared w), set (cs_installed w))"

definition led :: "files \<Rightarrow> StagedFile list \<Rightarrow> commit_state \<Rightarrow> bool" where
  "led orig changes w \<longleftrightarrow>
     ledger orig (set (map sf_path changes)) (expected changes) (file_at (w_fs w))
       (map_of (cs_backups w)) (map_of (cs_prepared w)) (set (cs_installed w)) \<and>
     dict_ok (cs_backups w) \<and> dict_ok (cs_prepared w)"

lemma ledD:
  "led orig changes w \<Longrightarrow>
   ledger orig (set (map sf_path changes)) (expected changes) (file_at (w_fs w))
       (map_of (cs_backups w)) (map_of (cs_prepared w)) (set (cs_installed w))"
  by (simp add: led_def)

lemma led_view: "view w = view w' \<Longrightarrow> led orig changes w = led orig changes w'"
  by (simp add: view_def led_def)

text \<open>Operations that look at the tree, or touch directories only, leave the view alone.\<close>

definition silent :: "'a commit \<Rightarrow> bool" where
  "silent m \<longleftrightarrow> (\<forall>w. view (snd (m w)) = view w)"

lemma silentD: "silent m \<Longrightarrow> m w = (r, w') \<Longrightarrow> view w' = view w"
  unfolding silent_def by (metis snd_conv)

lemma silent_bind: "silent m \<Longrightarrow> (\<And>x. silent (f x)) \<Longrightarrow> silent (io_bind m f)"
  unfolding silent_def io_bind_def by (auto split: prod.splits sum.splits) (metis snd_conv)+

lemma silent_catch: "silent m \<Longrightarrow> (\<And>e. silent (h e)) \<Longrightarrow> silent (io_catch m h)"
  unfolding silent_def io_catch_def by (auto split: prod.splits sum.splits) (metis snd_conv)+

lemma silent_basic [simp]: "silent (io_return x)" "silent (io_raise e)"
  by (simp_all add: silent_def io_return_def io_raise_def)

lemma silent_syscall:
  assumes "\<And>s. same_files {} s (snd (f s))"
  shows "silent (syscall os f)"
proof -
  have "file_at (snd (f s)) = file_at s" for s
    using assms [of s] by (auto simp: same_files_def)
  then show ?thesis
    unfolding silent_def syscall_def view_def Let_def by (auto split: prod.splits) (metis snd_conv)
qed

lemma silent_fsync [simp]: "silent (fsync_directory os)"
  using silent_syscall [of "\<lambda>s. (Inr (), s)" os]
  by (simp add: silent_def fsync_directory_def)

lemma silent_mkdir_exist_ok [simp]: "silent (mkdir_exist_ok os p)"
  unfolding mkdir_exist_ok_def
  by (rule silent_catch, rule silent_syscall, simp) (auto simp: silent_def)

lemma silent_mkdir_parents: "view (snd (mkdir_parents os p w)) = view (w :: commit_state)"
proof (induction os p w rule: mkdir_parents.induct)
  case (1 os p w)
  have s: "silent (syscall os (fs_mkdir p))" by (rule silent_syscall) simp
  obtain r w1 where r: "syscall os (fs_mkdir p) w = (r, w1)" by (cases "syscall os (fs_mkdir p) w")
  have v1: "view w1 = view w" using silentD [OF s r] .
  show ?case
  proof (cases r)
    case (Inr u)
    with r v1 show ?thesis by (subst mkdir_parents.simps) simp
  next
    case (Inl e)
    have ih: "view (snd (mkdir_parents os (butlast p) w1)) = view w1"
      if "e = FileNotFoundError \<and> p \<noteq> []"
      using 1 [OF r [symmetric] Inl] that by blast
    obtain r2 w2 where r2: "mkdir_parents os (butlast p) w1 = (r2, w2)"
      by (cases "mkdir_parents os (butlast p) w1")
    have "view (snd (io_bind (mkdir_parents os (butlast p)) (\<lambda>_. mkdir_exist_ok os p) w1)) = view w1"
      if "e = FileNotFoundError \<and> p \<noteq> []"
      using ih [OF that] r2 silent_mkdir_exist_ok [of os p]
      by (auto simp: io_bind_def silent_def split: sum.splits)
    with r v1 Inl show ?thesis by (subst mkdir_parents.simps) auto
  qed
qed

lemma silent_ensure_parent [simp]: "silent (ensure_parent os p)"
proof -
  have "silent (io_bind (mkdir_parents os p) (\<lambda>_. io_return (rev ds)))" for ds
    by (rule silent_bind) (simp_all add: silent_def silent_mkdir_parents io_return_def)
  then show ?thesis unfolding silent_def ensure_parent_def Let_def by blast
qed

lemma silent_baseline_matches [simp]: "silent (baseline_matches os b p)"
proof -
  have rd: "silent (syscall os (fs_read p))" by (rule silent_syscall) simp
  have "silent (io_bind (syscall os (fs_read p)) (\<lambda>dm.
           if fb_digest b = Some (os_sha256 os (fst dm)) then
             io_bind (syscall os (fs_read p)) (\<lambda>dm'. io_return (fb_mode b = Some (snd dm')))
           else io_return False))"
    by (auto intro!: silent_bind rd)
  then show ?thesis by (auto simp: silent_def baseline_matches_def io_return_def)
qed

lemma silent_assert_baseline [simp]: "silent (assert_baseline os c)"
  unfolding assert_baseline_def by (rule silent_bind) auto

lemma triple_silent:
  assumes "silent m" and "\<And>w w'. view w = view w' \<Longrightarrow> P w \<Longrightarrow> P w'" and "\<And>w. P w \<Longrightarrow> E w"
  shows "triple P m (\<lambda>_. P) E"
  by (rule tripleI) (metis silentD [OF assms(1)] assms(2,3))+

text \<open>A file of the committer that no table lists yet may be created, written and removed.\<close>

definition scratch_at ::
    "files \<Rightarrow> StagedFile list \<Rightarrow> (path \<rightharpoonup> path) \<times> (path \<rightharpoonup> path) \<times> path set \<Rightarrow> path \<Rightarrow> commit_state \<Rightarrow> bool"
  where
  "scratch_at orig changes V t w \<longleftrightarrow>
     led orig changes w \<and> snd (view w) = V \<and> \<not> user_path t \<and>
     (\<forall>p. fst V p \<noteq> Some t) \<and> (\<forall>p. fst (snd V) p = Some t \<longrightarrow> p \<in> snd (snd V))"

definition user_changes :: "StagedFile list \<Rightarrow> bool" where
  "user_changes changes \<longleftrightarrow> list_all (\<lambda>c. user_path (sf_path c)) changes"

lemma user_changesD: "user_changes changes \<Longrightarrow> \<forall>p \<in> set (map sf_path changes). user_path p"
  by (auto simp: user_changes_def list_all_iff)

lemma scratch_at_step:
  assumes users: "user_changes changes" and w: "scratch_at orig changes V t w"
    and fr: "same_files {t} (w_fs w) s"
  shows "scratch_at orig changes V t (w\<lparr>w_calls := n, w_fs := s\<rparr>)"
proof -
  have fr': "q \<noteq> t \<Longrightarrow> file_at s q = file_at (w_fs w) q" for q
    using fr by (simp add: same_files_def)
  have "ledger orig (set (map sf_path changes)) (expected changes) (file_at s)
       (map_of (cs_backups w)) (map_of (cs_prepared w)) (set (cs_installed w))"
    using w by (intro ledger_other [OF _ _ user_changesD [OF users] _ _ fr'])
      (auto simp: scratch_at_def led_def view_def)
  with w show ?thesis by (auto simp: scratch_at_def led_def view_def)
qed

lemma scratch_at_calls:
  "scratch_at orig changes V t w \<Longrightarrow> scratch_at orig changes V t (w\<lparr>w_calls := n\<rparr>)"
  by (simp add: scratch_at_def led_def view_def)

lemma triple_scratch:
  assumes users: "user_changes changes"
    and fr: "\<And>s. same_files {t} s (snd (f s))"
    and val: "\<And>s x s'. G (file_at s t) \<Longrightarrow> f s = (Inr x, s') \<Longrightarrow> G' (file_at s' t)"
  shows "triple (\<lambda>w. scratch_at orig changes V t w \<and> G (file_at (w_fs w) t)) (syscall os f)
     (\<lambda>_ w. scratch_at orig changes V t w \<and> G' (file_at (w_fs w) t))
     (scratch_at orig changes V t)"
proof (rule triple_syscall)
  fix w :: commit_state
  assume "scratch_at orig changes V t w \<and> G (file_at (w_fs w) t)"
  then show "scratch_at orig changes V t (w\<lparr>w_calls := Suc (w_calls w)\<rparr>)"
    by (simp add: scratch_at_calls)
next
  fix w :: commit_state and e s
  assume "scratch_at orig changes V t w \<and> G (file_at (w_fs w) t)" "f (w_fs w) = (Inl e, s)"
  with fr [of "w_fs w"]
  show "scratch_at orig changes V t (w\<lparr>w_calls := Suc (w_calls w), w_fs := s\<rparr>)"
    by (intro scratch_at_step [OF users]) auto
next
  fix w :: commit_state and x s
  assume "scratch_at orig changes V t w \<and> G (file_at (w_fs w) t)" "f (w_fs w) = (Inr x, s)"
  with fr [of "w_fs w"] val [of "w_fs w" x s]
  show "scratch_at orig changes V t (w\<lparr>w_calls := Suc (w_calls w), w_fs := s\<rparr>) \<and>
      G' (file_at (w_fs (w\<lparr>w_calls := Suc (w_calls w), w_fs := s\<rparr>)) t)"
    by (auto intro: scratch_at_step [OF users])
qed

lemma triple_scratch_keep:
  assumes "user_changes changes" and "\<And>s. same_files {t} s (snd (f s))"
  shows "triple (scratch_at orig changes V t) (syscall os f)
     (\<lambda>_. scratch_at orig changes V t) (scratch_at orig changes V t)"
  using triple_scratch [OF assms, of "\<lambda>_. True" "\<lambda>_. True"] by simp

lemma fs_create_Inr:
  "fs_create t s = (Inr x, s') \<Longrightarrow> file_at s t = None \<and> file_at s' t = Some ([], 384)"
  by (auto simp: fs_create_def file_at_simps file_at_None split: option.splits if_splits)

lemma triple_mkstemp:
  assumes users: "user_changes changes"
    and pre: "\<And>r. \<not> user_path (dir @ [pre @ r])"
  shows "triple (\<lambda>w. led orig changes w \<and> snd (view w) = V) (mkstemp os pre dir)
     (\<lambda>t w. (scratch_at orig changes V t w \<and> file_at (w_fs w) t = Some ([], 384)) \<and>
        (\<exists>r. t = dir @ [pre @ r]))
     (led orig changes)"
proof (rule tripleI)
  fix w :: commit_state and e w'
  assume w: "led orig changes w \<and> snd (view w) = V" and m: "mkstemp os pre dir w = (Inl e, w')"
  have "w_fs w' = w_fs w"
    using m by (auto simp: mkstemp_def Let_def io_bind_def io_return_def syscall_def fs_create_def
        split: if_splits option.splits prod.splits sum.splits)
  moreover have "cs_backups w' = cs_backups w" "cs_prepared w' = cs_prepared w"
    "cs_installed w' = cs_installed w"
    using m by (auto simp: mkstemp_def Let_def io_bind_def io_return_def syscall_def
        split: if_splits option.splits prod.splits sum.splits)
  ultimately show "led orig changes w'" using w by (simp add: led_def)
next
  fix w :: commit_state and t w'
  assume w: "led orig changes w \<and> snd (view w) = V" and m: "mkstemp os pre dir w = (Inr t, w')"
  obtain r s where t: "t = dir @ [pre @ r]" and c: "fs_create t (w_fs w) = (Inr (), s)"
    and w': "w' = w\<lparr>w_calls := Suc (w_calls w), w_fs := s\<rparr>"
    using m by (auto simp: mkstemp_def Let_def io_bind_def io_return_def syscall_def
        split: if_splits prod.splits sum.splits)
  have free: "file_at (w_fs w) t = None" and s: "file_at s t = Some ([], 384)"
    using fs_create_Inr [OF c] by auto
  note D = ledgerD [OF ledD [OF conjunct1 [OF w]]]
  have "map_of (cs_backups w) q \<noteq> Some t" for q using D(2) [of q t] free by auto
  moreover have "q \<in> set (cs_installed w)" if "map_of (cs_prepared w) q = Some t" for q
    using D(7) [of q t] that free by (cases "q \<in> set (cs_installed w)") auto
  ultimately have "scratch_at orig changes V t w"
    using w pre [of r] t unfolding scratch_at_def view_def by auto
  then have "scratch_at orig changes V t w'"
    using fs_op_frames(3) [of t "w_fs w"] c unfolding w'
    by (intro scratch_at_step [OF users]) auto
  with s t w' show "(scratch_at orig changes V t w' \<and> file_at (w_fs w') t = Some ([], 384)) \<and>
      (\<exists>r. t = dir @ [pre @ r])"
    by auto
qed

lemma not_user_names [simp]:
  "\<not> user_path (d @ [PATCH_TEMP_PREFIX @ r])" "\<not> user_path (d @ [PATCH_BACKUP_PREFIX @ r])"
  by simp_all

lemma fs_write_Inr: "fs_write t d s = (Inr x, s') \<Longrightarrow> \<exists>m. file_at s' t = Some (d, m)"
  by (auto simp: fs_write_def file_at_simps split: option.splits node.splits)

lemma fs_chmod_Inr:
  "fs_chmod t k s = (Inr x, s') \<Longrightarrow> \<exists>m. file_at s t = Some (d, m) \<Longrightarrow> file_at s' t = Some (d, k)"
  by (auto simp: fs_chmod_def file_at_simps file_at_Some_iff split: option.splits node.splits)

lemma triple_prepare_file:
  assumes users: "user_changes changes" and c: "sf_content change = Some c"
  shows "triple (\<lambda>w. led orig changes w \<and> snd (view w) = V) (prepare_file os change c)
     (\<lambda>t w. scratch_at orig changes V t w \<and> temp_name t \<and>
        file_at (w_fs w) t = staged_value change \<and> staged_value change \<noteq> None)
     (led orig changes)"
proof -
  let ?S = "scratch_at orig changes V"
  let ?k = "install_mode (sf_mode change)"
  have wr: "triple (\<lambda>w. ?S t w \<and> file_at (w_fs w) t = Some ([], 384)) (syscall os (fs_write t d))
      (\<lambda>_ w. ?S t w \<and> (\<exists>m. file_at (w_fs w) t = Some (d, m))) (?S t)" for t d
    by (rule triple_scratch [OF users]) (auto dest: fs_write_Inr)
  have fl: "triple (\<lambda>w. ?S t w \<and> (\<exists>m. file_at (w_fs w) t = Some (d, m)))
      (syscall os (\<lambda>s. (Inr (), s)))
      (\<lambda>_ w. ?S t w \<and> (\<exists>m. file_at (w_fs w) t = Some (d, m))) (?S t)" for t d
    by (rule triple_scratch [OF users]) auto
  have ch: "triple (\<lambda>w. ?S t w \<and> (\<exists>m. file_at (w_fs w) t = Some (d, m)))
      (syscall os (fs_chmod t ?k))
      (\<lambda>_ w. ?S t w \<and> file_at (w_fs w) t = Some (d, ?k)) (?S t)" for t d
    by (rule triple_scratch [OF users]) (auto dest: fs_chmod_Inr)
  have inner: "triple (\<lambda>w. ?S t w \<and> file_at (w_fs w) t = Some ([], 384))
      (case content_bytes c of
          Inl e \<Rightarrow> io_raise e
        | Inr data \<Rightarrow>
            io_bind (syscall os (fs_write t data)) (\<lambda>_.
            io_bind (syscall os (\<lambda>s. (Inr (), s))) (\<lambda>_.
            io_bind (syscall os (fs_chmod t ?k)) (\<lambda>_. io_return t))))
      (\<lambda>t' w. ?S t w \<and> t' = t \<and> file_at (w_fs w) t = staged_value change \<and>
          staged_value change \<noteq> None) (?S t)" for t
    by (cases "content_bytes c")
      (auto simp: staged_value_def c intro!: triple_raise triple_bind wr fl ch triple_return)
  have un: "triple (?S t) (io_bind (syscall os (fs_unlink True t)) (\<lambda>_. io_raise e)) Q
      (led orig changes)" for t e and Q :: "path \<Rightarrow> commit_state \<Rightarrow> bool"
    by (rule triple_exc [OF triple_bind [OF triple_scratch_keep [OF users] triple_raise]])
      (auto simp: scratch_at_def)
  show ?thesis
    unfolding prepare_file_def
    by (rule triple_bind [OF triple_mkstemp [OF users]], simp, rule triple_pure,
        rule triple_catch [OF _ un], rule triple_post [OF inner]) auto
qed

section \<open>The phases of a commit\<close>

definition staged_keys :: "StagedFile list \<Rightarrow> path set" where
  "staged_keys changes = sf_path ` {c \<in> set changes. sf_content c \<noteq> None}"

lemma staged_keys_simps [simp]:
  "staged_keys [] = {}"
  "staged_keys (ys @ [c]) =
     (if sf_content c = None then staged_keys ys else insert (sf_path c) (staged_keys ys))"
  by (auto simp: staged_keys_def)

lemma staged_keys_paths: "p \<in> staged_keys ys \<Longrightarrow> p \<in> sf_path ` set ys"
  by (auto simp: staged_keys_def)

lemma expected_at:
  assumes "distinct (map sf_path changes)" "c \<in> set changes"
  shows "expected changes (sf_path c) = staged_value c"
proof -
  have "find (\<lambda>d. sf_path d = sf_path c) changes = Some c"
    using assms by (induction changes) auto
  then show ?thesis by (simp add: expected_def)
qed

definition prepare_inv :: "files \<Rightarrow> StagedFile list \<Rightarrow> StagedFile list \<Rightarrow> commit_state \<Rightarrow> bool" where
  "prepare_inv orig changes ys w \<longleftrightarrow>
     led orig changes w \<and> map_of (cs_backups w) = Map.empty \<and> set (cs_installed w) = {} \<and>
     dom (map_of (cs_prepared w)) = staged_keys ys"

definition backup_inv :: "files \<Rightarrow> StagedFile list \<Rightarrow> StagedFile list \<Rightarrow> commit_state \<Rightarrow> bool" where
  "backup_inv orig changes ys w \<longleftrightarrow>
     led orig changes w \<and> set (cs_installed w) = {} \<and>
     dom (map_of (cs_prepared w)) = staged_keys changes \<and>
     dom (map_of (cs_backups w)) \<subseteq> sf_path ` set ys \<and>
     (\<forall>c \<in> set ys. file_at (w_fs w) (sf_path c) = None)"

definition install_inv :: "files \<Rightarrow> StagedFile list \<Rightarrow> StagedFile list \<Rightarrow> commit_state \<Rightarrow> bool" where
  "install_inv orig changes ys w \<longleftrightarrow>
     led orig changes w \<and> dom (map_of (cs_prepared w)) = staged_keys changes \<and>
     set (cs_installed w) = staged_keys ys \<and>
     (\<forall>p \<in> set (map sf_path changes). p \<notin> set (cs_installed w) \<longrightarrow> file_at (w_fs w) p = None)"

lemmas phase_defs = prepare_inv_def backup_inv_def install_inv_def

lemma phase_view:
  assumes "view w = view w'"
  shows "prepare_inv orig changes ys w = prepare_inv orig changes ys w'"
    "backup_inv orig changes ys w = backup_inv orig changes ys w'"
    "install_inv orig changes ys w = install_inv orig changes ys w'"
  using assms led_view [OF assms] by (simp_all add: phase_defs view_def)

lemma phase_led:
  "prepare_inv orig changes ys w \<Longrightarrow> led orig changes w"
  "backup_inv orig changes ys w \<Longrightarrow> led orig changes w"
  "install_inv orig changes ys w \<Longrightarrow> led orig changes w"
  by (simp_all add: phase_defs)

lemma phase_silent:
  assumes "silent m"
  shows
    "triple (prepare_inv orig changes ys) m (\<lambda>_. prepare_inv orig changes ys) (led orig changes)"
    "triple (backup_inv orig changes ys) m (\<lambda>_. backup_inv orig changes ys) (led orig changes)"
    "triple (install_inv orig changes ys) m (\<lambda>_. install_inv orig changes ys) (led orig changes)"
  by (rule triple_silent [OF assms], erule phase_view [THEN iffD1], assumption, erule phase_led)+

lemma led_prepare:
  assumes "scratch_at orig changes (Map.empty, T, {}) t w" "temp_name t" "p \<in> set (map sf_path changes)"
    and "file_at (w_fs w) t = expected changes p" "expected changes p \<noteq> None"
  shows "led orig changes (w\<lparr>cs_prepared := dict_set p t (cs_prepared w)\<rparr>)"
proof -
  have l: "ledger orig (set (map sf_path changes)) (expected changes) (file_at (w_fs w)) Map.empty T {}"
    and T: "map_of (cs_prepared w) = T" "\<forall>q. T q \<noteq> Some t"
    and B: "map_of (cs_backups w) = Map.empty" "set (cs_installed w) = {}"
    using assms(1) by (auto simp: scratch_at_def led_def view_def)
  have "ledger orig (set (map sf_path changes)) (expected changes) (file_at (w_fs w)) Map.empty
      (T(p \<mapsto> t)) {}"
    using l T(2) assms(2-5) unfolding ledger_def by auto
  with T(1) B assms(1) show ?thesis by (simp add: led_def scratch_at_def)
qed

lemma triple_prepare_step:
  assumes users: "user_changes changes" and dist: "distinct (map sf_path changes)"
    and split: "changes = ys @ c # zs"
  shows "triple (prepare_inv orig changes ys) (prepare_step os c)
     (\<lambda>_. prepare_inv orig changes (ys @ [c])) (led orig changes)"
proof -
  have cin: "c \<in> set changes" using split by simp
  have cr: "triple (prepare_inv orig changes ys)
      (io_modify (\<lambda>w. w\<lparr>cs_created := cs_created w @ dirs\<rparr>)) (\<lambda>_. prepare_inv orig changes ys)
      (led orig changes)" for dirs
    by (rule triple_modify) (auto simp: prepare_inv_def led_def)
  have prep: "triple (prepare_inv orig changes ys)
      (io_bind (prepare_file os c x) (\<lambda>tmp.
           io_modify (\<lambda>w. w\<lparr>cs_prepared := dict_set (sf_path c) tmp (cs_prepared w)\<rparr>)))
      (\<lambda>_. prepare_inv orig changes (ys @ [c])) (led orig changes)" if x: "sf_content c = Some x" for x
  proof (rule tripleI)
    fix w e w'
    assume "prepare_inv orig changes ys w"
    then show "led orig changes w'" if "io_bind (prepare_file os c x) (\<lambda>tmp.
           io_modify (\<lambda>w. w\<lparr>cs_prepared := dict_set (sf_path c) tmp (cs_prepared w)\<rparr>)) w = (Inl e, w')"
      using that triple_Inl [OF triple_prepare_file [OF users x], of orig w "snd (view w)" os]
      by (auto simp: io_bind_def io_modify_def prepare_inv_def split: prod.splits sum.splits)
  next
    fix w u w'
    assume w: "prepare_inv orig changes ys w" and m: "io_bind (prepare_file os c x) (\<lambda>tmp.
           io_modify (\<lambda>w. w\<lparr>cs_prepared := dict_set (sf_path c) tmp (cs_prepared w)\<rparr>)) w = (Inr u, w')"
    obtain t w1 where p: "prepare_file os c x w = (Inr t, w1)"
      and w': "w' = w1\<lparr>cs_prepared := dict_set (sf_path c) t (cs_prepared w1)\<rparr>"
      using m by (auto simp: io_bind_def io_modify_def split: prod.splits sum.splits)
    have w1: "scratch_at orig changes (snd (view w)) t w1" "temp_name t"
      "file_at (w_fs w1) t = staged_value c" "staged_value c \<noteq> None"
      using triple_Inr [OF triple_prepare_file [OF users x] _ p, of orig "snd (view w)"] w
      by (auto simp: prepare_inv_def)
    have "led orig changes w'"
      unfolding w' using w1 w expected_at [OF dist cin] cin
      by (intro led_prepare [where T = "map_of (cs_prepared w)"]) (auto simp: prepare_inv_def view_def)
    then show "prepare_inv orig changes (ys @ [c]) w'"
      using w1(1) w x unfolding w' by (auto simp: prepare_inv_def scratch_at_def view_def)
  qed
  show ?thesis
    unfolding prepare_step_def
    by (rule triple_bind [OF phase_silent(1) [OF silent_ensure_parent]],
        rule triple_bind [OF cr], cases "sf_content c")
      (auto intro: triple_return prep simp: prepare_inv_def)
qed

lemma baseline_matches_True:
  assumes "baseline_matches os b p w = (Inr True, w')"
  shows "baseline_holds os b (file_at (w_fs w) p)"
proof (cases "map_of (w_fs w) p")
  case None
  with assms show ?thesis
    by (auto simp: baseline_matches_def baseline_holds_def file_at_None fs_exists_def io_return_def
        split: if_splits)
next
  case (Some n)
  with assms show ?thesis
    by (cases n) (auto simp: baseline_matches_def baseline_holds_def file_at_def fs_exists_def
        fs_is_dir_def io_return_def io_bind_def syscall_def fs_read_def Let_def split: if_splits)
qed

lemma assert_baseline_Inr:
  assumes "assert_baseline os c w = (Inr u, w')"
  shows "baseline_holds os (sf_baseline c) (file_at (w_fs w) (sf_path c))"
  using assms by (auto simp: assert_baseline_def io_bind_def io_raise_def io_return_def
      split: prod.splits sum.splits if_splits intro: baseline_matches_True)

lemma triple_check_phase:
  assumes users: "user_changes changes" and split: "changes = ys @ c # zs"
  shows "triple
     (\<lambda>w. prepare_inv orig changes changes w \<and>
        (\<forall>d \<in> set ys. baseline_holds os (sf_baseline d) (orig (sf_path d))))
     (assert_baseline os c)
     (\<lambda>_ w. prepare_inv orig changes changes w \<and>
        (\<forall>d \<in> set (ys @ [c]). baseline_holds os (sf_baseline d) (orig (sf_path d))))
     (led orig changes)"
proof (rule triple_pure, rule tripleI)
  fix w :: commit_state and e w'
  assume w: "prepare_inv orig changes changes w" and m: "assert_baseline os c w = (Inl e, w')"
  show "led orig changes w'" using triple_Inl [OF phase_silent(1) [OF silent_assert_baseline] w m] .
next
  fix w :: commit_state and u w'
  assume ys: "\<forall>d \<in> set ys. baseline_holds os (sf_baseline d) (orig (sf_path d))"
  assume w: "prepare_inv orig changes changes w" and m: "assert_baseline os c w = (Inr u, w')"
  have "file_at (w_fs w) (sf_path c) = orig (sf_path c)"
    using w user_changesD [OF users] split by (auto simp: prepare_inv_def led_def ledger_def)
  with assert_baseline_Inr [OF m] ys triple_Inr [OF phase_silent(1) [OF silent_assert_baseline] w m]
  show "prepare_inv orig changes changes w' \<and>
      (\<forall>d \<in> set (ys @ [c]). baseline_holds os (sf_baseline d) (orig (sf_path d)))"
    by auto
qed

lemma fs_replace_Inr:
  "fs_replace p q s = (Inr x, s') \<Longrightarrow> p \<noteq> q \<Longrightarrow>
   file_at s p \<noteq> None \<and> file_at s' = (file_at s)(p := None, q := file_at s p)"
  by (auto simp: fs_replace_def file_at_simps fun_eq_iff file_at_def split: option.splits node.splits if_splits)

lemma fs_replace_Inl: "fs_replace p q s = (Inl e, s') \<Longrightarrow> s' = s"
  by (auto simp: fs_replace_def split: option.splits node.splits if_splits)

lemma triple_reserve:
  assumes users: "user_changes changes"
  shows "triple (\<lambda>w. led orig changes w \<and> snd (view w) = V) (reserve_backup_path os dir)
     (\<lambda>b w. (scratch_at orig changes V b w \<and> file_at (w_fs w) b = None) \<and>
        backup_name b \<and> butlast b = dir)
     (led orig changes)"
proof -
  have un: "triple (\<lambda>w. scratch_at orig changes V t w \<and> file_at (w_fs w) t = Some ([], 384))
      (syscall os (fs_unlink False t))
      (\<lambda>_ w. scratch_at orig changes V t w \<and> file_at (w_fs w) t = None)
      (led orig changes)" for t
    by (rule triple_exc [OF triple_scratch [OF users fs_op_frames(7)]])
      (auto simp: fs_unlink_def file_at_simps scratch_at_def split: option.splits node.splits)
  show ?thesis
    unfolding reserve_backup_path_def
    by (rule triple_bind [OF triple_mkstemp [OF users]], simp, rule triple_pure,
        rule triple_bind [OF un], rule triple_return) auto
qed

lemma led_backup:
  assumes "user_changes changes" "led orig changes w" "p \<in> set (map sf_path changes)"
    and "map_of (cs_backups w) p = None" "p \<notin> set (cs_installed w)"
    and "backup_name b" "butlast b = butlast p" "file_at (w_fs w) b = None"
    and "fs_replace p b (w_fs w) = (Inr x, s)"
  shows "led orig changes (w\<lparr>w_calls := n, w_fs := s, cs_backups := dict_set p b (cs_backups w)\<rparr>)"
    and "file_at s = (file_at (w_fs w))(p := None, b := file_at (w_fs w) p)"
proof -
  note P = user_changesD [OF assms(1)]
  have "p \<noteq> b" using P assms(3,6) by auto
  note F = fs_replace_Inr [OF assms(9) this]
  show "file_at s = (file_at (w_fs w))(p := None, b := file_at (w_fs w) p)" using F by blast
  with ledger_backup [OF ledD [OF assms(2)] P assms(3-5) conjunct1 [OF F] assms(6-8)] assms(2)
  show "led orig changes (w\<lparr>w_calls := n, w_fs := s, cs_backups := dict_set p b (cs_backups w)\<rparr>)"
    by (simp add: led_def)
qed

text \<open>While nothing is installed, the user's files follow from the original ones and the tables.\<close>

lemma backup_inv_transfer:
  assumes "user_changes changes" "backup_inv orig changes ys w" "set ys \<subseteq> set changes"
    and "led orig changes w'" "snd (view w') = snd (view w)"
  shows "backup_inv orig changes ys w'"
proof -
  have T: "map_of (cs_backups w') = map_of (cs_backups w)" "map_of (cs_prepared w') = map_of (cs_prepared w)"
    "set (cs_installed w') = {}"
    using assms(2,5) by (auto simp: view_def backup_inv_def)
  have "file_at (w_fs w') (sf_path c) = None" if "c \<in> set ys" for c
  proof -
    have u: "user_path (sf_path c)" using user_changesD [OF assms(1)] assms(3) that by auto
    have "file_at (w_fs w) (sf_path c) = None" using assms(2) that by (simp add: backup_inv_def)
    with u ledgerD(1,3) [OF ledD [OF assms(4)], of "sf_path c"]
      ledgerD(1) [OF ledD [OF phase_led(2) [OF assms(2)]], of "sf_path c"] T assms(2)
    show ?thesis by (cases "map_of (cs_backups w) (sf_path c)") (auto simp: backup_inv_def)
  qed
  with assms(2,4) T show ?thesis by (simp add: backup_inv_def)
qed

lemma triple_backup_step:
  assumes users: "user_changes changes" and dist: "distinct (map sf_path changes)"
    and split: "changes = ys @ c # zs"
  shows "triple (backup_inv orig changes ys) (backup_step os c)
     (\<lambda>_. backup_inv orig changes (ys @ [c])) (led orig changes)"
proof -
  let ?p = "sf_path c"
  have cin: "?p \<in> set (map sf_path changes)" and cnew: "?p \<notin> sf_path ` set ys"
    using split dist by auto
  have ysb: "sf_path d \<noteq> b" if "d \<in> set ys" "backup_name b" for d b
  proof -
    have "user_path (sf_path d)" using that user_changesD [OF users] split by simp
    with that show ?thesis by auto
  qed
  let ?R = "\<lambda>b w. backup_inv orig changes ys w \<and> file_at (w_fs w) b = None \<and> backup_name b \<and>
      butlast b = butlast ?p"
  have mv: "triple (?R b) (syscall os (fs_replace ?p b))
      (\<lambda>_ w. backup_inv orig changes (ys @ [c]) (w\<lparr>cs_backups := dict_set ?p b (cs_backups w)\<rparr>))
      (led orig changes)" for b
  proof (rule triple_syscall, goal_cases)
    case (3 w x s)
    then have "map_of (cs_backups w) ?p = None" "?p \<notin> set (cs_installed w)"
      using cnew by (auto simp: backup_inv_def)
    with 3 led_backup(1) [OF users _ cin, of orig w b x s "Suc (w_calls w)"]
      led_backup(2) [OF users _ cin, of orig w b x s] ysb show ?case
      by (auto simp: backup_inv_def)
  qed (auto simp: backup_inv_def led_def dest: fs_replace_Inl)
  have rs: "triple (\<lambda>w. backup_inv orig changes ys w \<and> fs_exists (w_fs w) ?p)
      (reserve_backup_path os (butlast ?p)) ?R (led orig changes)"
  proof (rule tripleI)
    fix w e w'
    assume "backup_inv orig changes ys w \<and> fs_exists (w_fs w) ?p"
      "reserve_backup_path os (butlast ?p) w = (Inl e, w')"
    with triple_Inl [OF triple_reserve [OF users], of orig w "snd (view w)"]
    show "led orig changes w'" by (auto simp: backup_inv_def)
  next
    fix w b w'
    assume a: "backup_inv orig changes ys w \<and> fs_exists (w_fs w) ?p"
      "reserve_backup_path os (butlast ?p) w = (Inr b, w')"
    with triple_Inr [OF triple_reserve [OF users], of orig w "snd (view w)"]
    have "scratch_at orig changes (snd (view w)) b w' \<and> file_at (w_fs w') b = None \<and>
        backup_name b \<and> butlast b = butlast ?p"
      by (auto simp: backup_inv_def)
    with a backup_inv_transfer [OF users, of orig ys w w'] split
    show "?R b w'" by (auto simp: scratch_at_def)
  qed
  have skip: "backup_inv orig changes (ys @ [c]) w"
    if "backup_inv orig changes ys w \<and> \<not> fs_exists (w_fs w) ?p" for w
    using that by (auto simp: backup_inv_def fs_exists_def file_at_None)
  show ?thesis
    unfolding backup_step_def
    by (rule triple_bind [OF phase_silent(2) [OF silent_assert_baseline]], rule triple_if,
        rule triple_bind [OF rs], rule triple_bind [OF mv],
        rule triple_bind [OF triple_modify phase_silent(2) [OF silent_fsync]], assumption,
        rule triple_return, erule skip)
qed

lemma led_install:
  assumes "user_changes changes" "led orig changes w" "map_of (cs_prepared w) p = Some t"
    and "p \<notin> set (cs_installed w)" "file_at (w_fs w) p = None"
    and "fs_replace t p (w_fs w) = (Inr x, s)"
  shows "led orig changes (w\<lparr>w_calls := n, w_fs := s, cs_installed := p # cs_installed w\<rparr>)"
    and "file_at s = (file_at (w_fs w))(t := None, p := file_at (w_fs w) t)"
proof -
  note P = user_changesD [OF assms(1)]
  note L = ledD [OF assms(2)]
  have "p \<in> set (map sf_path changes)" "temp_name t" using ledgerD(6) [OF L assms(3)] by auto
  then have "t \<noteq> p" using P by auto
  note F = fs_replace_Inr [OF assms(6) this]
  show "file_at s = (file_at (w_fs w))(t := None, p := file_at (w_fs w) t)" using F by blast
  with ledger_install [OF L P assms(3,4)] assms(2,5)
  show "led orig changes (w\<lparr>w_calls := n, w_fs := s, cs_installed := p # cs_installed w\<rparr>)"
    by (simp add: led_def)
qed

lemma staged_keys_iff:
  "distinct (map sf_path changes) \<Longrightarrow> c \<in> set changes \<Longrightarrow>
   sf_path c \<in> staged_keys changes \<longleftrightarrow> sf_content c \<noteq> None"
  by (auto simp: staged_keys_def distinct_map inj_on_def)

lemma triple_install_step:
  assumes users: "user_changes changes" and dist: "distinct (map sf_path changes)"
    and split: "changes = ys @ c # zs"
  shows "triple (install_inv orig changes ys) (install_step os c)
     (\<lambda>_. install_inv orig changes (ys @ [c])) (led orig changes)"
proof -
  let ?p = "sf_path c"
  have cin: "c \<in> set changes" "?p \<in> set (map sf_path changes)" and cnew: "?p \<notin> staged_keys ys"
    using split dist by (auto dest: staged_keys_paths)
  let ?R = "\<lambda>t w. install_inv orig changes ys w \<and> map_of (cs_prepared w) ?p = Some t"
  have content: "sf_content c \<noteq> None" if "?R t w" for t w
    using that staged_keys_iff [OF dist cin(1)] by (auto simp: install_inv_def dom_def)
  have mv: "triple (?R t) (syscall os (fs_replace t ?p))
      (\<lambda>_ w. install_inv orig changes (ys @ [c]) (w\<lparr>cs_installed := ?p # cs_installed w\<rparr>))
      (led orig changes)" for t
  proof (rule triple_syscall, goal_cases)
    case (3 w x s)
    then have new: "?p \<notin> set (cs_installed w)" "file_at (w_fs w) ?p = None"
      using cnew cin by (auto simp: install_inv_def)
    from 3 content [of w t] led_install(1) [OF users _ _ new, of orig t x s "Suc (w_calls w)"]
      led_install(2) [OF users _ _ new, of orig t x s]
    show ?case by (auto simp: install_inv_def)
  qed (auto simp: install_inv_def led_def dest: fs_replace_Inl)
  have as: "triple (?R t) (if b then assert_baseline os c else io_return ()) (\<lambda>_. ?R t)
      (led orig changes)" for t b
    using phase_view(3) by (intro triple_silent) (auto simp: view_def install_inv_def led_def)
  have run: "triple (?R t)
      (io_bind (if b then assert_baseline os c else io_return ()) (\<lambda>_.
       io_bind (syscall os (fs_replace t ?p)) (\<lambda>_.
       io_bind (io_modify (\<lambda>w. w\<lparr>cs_installed := ?p # cs_installed w\<rparr>)) (\<lambda>_.
       fsync_directory os))))
      (\<lambda>_. install_inv orig changes (ys @ [c])) (led orig changes)" for t b
    by (rule triple_bind [OF as], rule triple_bind [OF mv],
        rule triple_bind [OF triple_modify phase_silent(3) [OF silent_fsync]], assumption)
  have skip: "install_inv orig changes (ys @ [c]) w"
    if "install_inv orig changes ys w" "map_of (cs_prepared w) ?p = None" for w
  proof -
    have "dom (map_of (cs_prepared w)) = staged_keys changes" using that by (simp add: install_inv_def)
    then have "?p \<notin> staged_keys changes" using that(2) by (metis domIff)
    then show ?thesis using that staged_keys_iff [OF dist cin(1)] by (simp add: install_inv_def)
  qed
  show ?thesis
  proof (rule tripleI)
    fix w e w'
    assume w: "install_inv orig changes ys w" "install_step os c w = (Inl e, w')"
    then obtain t where "map_of (cs_prepared w) ?p = Some t"
      by (auto simp: install_step_def io_return_def split: option.splits)
    with w triple_Inl [OF run, where w = w and w' = w'] show "led orig changes w'"
      by (auto simp: install_step_def)
  next
    fix w u w'
    assume w: "install_inv orig changes ys w" "install_step os c w = (Inr u, w')"
    with skip triple_Inr [OF run, where w = w and w' = w'] show "install_inv orig changes (ys @ [c]) w'"
      by (auto simp: install_step_def io_return_def split: option.splits)
  qed
qed

lemma backup_to_install:
  "backup_inv orig changes changes w \<Longrightarrow> install_inv orig changes [] w"
  by (auto simp: backup_inv_def install_inv_def)

lemma prepare_to_backup:
  "prepare_inv orig changes changes w \<Longrightarrow> backup_inv orig changes [] w"
  by (auto simp: backup_inv_def prepare_inv_def)

text \<open>The body of the \<^verbatim>\<open>try\<close> block, whatever fails in it.\<close>

lemma triple_commit_body:
  assumes users: "user_changes changes" and dist: "distinct (map sf_path changes)"
  shows "triple (prepare_inv orig changes []) (commit_body os changes)
     (\<lambda>_ w. install_inv orig changes changes w \<and>
        (\<forall>c \<in> set changes. baseline_holds os (sf_baseline c) (orig (sf_path c))))
     (led orig changes)"
proof -
  let ?C = "\<lambda>ys. \<forall>c \<in> set ys. baseline_holds os (sf_baseline c) (orig (sf_path c))"
  note p1 = triple_each [where I = "prepare_inv orig changes", OF triple_prepare_step [OF users dist]]
  have p2: "triple (prepare_inv orig changes changes) (io_each (assert_baseline os) changes)
      (\<lambda>_ w. prepare_inv orig changes changes w \<and> ?C changes) (led orig changes)"
    using triple_each [where I = "\<lambda>ys w. prepare_inv orig changes changes w \<and> ?C ys",
        OF triple_check_phase [OF users]]
    by simp
  have p3: "triple (prepare_inv orig changes changes) (io_each (backup_step os) changes)
      (\<lambda>_. install_inv orig changes []) (led orig changes)"
    by (rule triple_pre [OF prepare_to_backup triple_post [OF triple_each
          [where I = "backup_inv orig changes", OF triple_backup_step [OF users dist]]]])
      (simp_all add: backup_to_install)
  note p4 = triple_each [where I = "install_inv orig changes", OF triple_install_step [OF users dist]]
  show ?thesis
    unfolding commit_body_def
    by (rule triple_bind [OF p1], assumption, rule triple_bind [OF p2], rule triple_pure,
        rule triple_bind [OF p3], rule triple_post [OF p4]) auto
qed

lemma install_inv_patched:
  assumes users: "user_changes changes" and dist: "distinct (map sf_path changes)"
    and w: "install_inv orig changes changes w" and p: "user_path p"
  shows "file_at (w_fs w) p = patched orig changes p"
proof -
  note L = ledgerD [OF ledD [OF phase_led(3) [OF w]]]
  show ?thesis
  proof (cases "p \<in> set (map sf_path changes)")
    case True
    then obtain c where c: "c \<in> set changes" "p = sf_path c" by auto
    show ?thesis
    proof (cases "p \<in> set (cs_installed w)")
      case inst: True
      with L(5) [of p] True show ?thesis by (simp add: patched_def)
    next
      case False
      then have "sf_content c = None" "file_at (w_fs w) p = None"
        using w c True staged_keys_iff [OF dist c(1)] by (auto simp: install_inv_def)
      with c True expected_at [OF dist c(1)] show ?thesis by (simp add: patched_def staged_value_def)
    qed
  next
    case False
    have "map_of (cs_backups w) p = None"
    proof (rule ccontr)
      assume "map_of (cs_backups w) p \<noteq> None"
      then obtain b where "map_of (cs_backups w) p = Some b" by blast
      with L(2) [of p b] False show False by blast
    qed
    moreover have "p \<notin> set (cs_installed w)" using L(5) [of p] False by blast
    ultimately show ?thesis using L(1) [of p] p False by (simp add: patched_def)
  qed
qed

section \<open>Rollback\<close>

text \<open>
  The invariant of the rollback: an original that was moved away is in its backup, or already back
  at a path \<open>D\<close> that the rollback has visited.
\<close>

definition saved ::
    "files \<Rightarrow> path set \<Rightarrow> path set \<Rightarrow> files \<Rightarrow> (path \<rightharpoonup> path) \<Rightarrow> (path \<rightharpoonup> path) \<Rightarrow> path set \<Rightarrow> bool" where
  "saved orig P D F B T I \<longleftrightarrow>
     (\<forall>p. user_path p \<longrightarrow> B p = None \<longrightarrow> p \<notin> I \<longrightarrow> F p = orig p) \<and>
     (\<forall>p b. B p = Some b \<longrightarrow> p \<in> P \<and> backup_name b \<and> butlast b = butlast p \<and> orig p \<noteq> None) \<and>
     (\<forall>p b. B p = Some b \<longrightarrow> F b = orig p \<or> p \<in> D \<and> F p = orig p) \<and>
     (\<forall>p q b. B p = Some b \<longrightarrow> B q = Some b \<longrightarrow> p = q) \<and>
     (\<forall>p \<in> I. p \<in> P \<and> (B p = None \<longrightarrow> orig p = None)) \<and>
     (\<forall>p t. T p = Some t \<longrightarrow> temp_name t)"

lemma ledger_saved: "ledger orig P X F B T I \<Longrightarrow> saved orig P {} F B T I"
  unfolding ledger_def saved_def by simp

lemma savedD:
  assumes "saved orig P D F B T I"
  shows "user_path p \<Longrightarrow> B p = None \<Longrightarrow> p \<notin> I \<Longrightarrow> F p = orig p"
    and "B p = Some b \<Longrightarrow> p \<in> P \<and> backup_name b \<and> butlast b = butlast p \<and> orig p \<noteq> None"
    and "B p = Some b \<Longrightarrow> F b = orig p \<or> p \<in> D \<and> F p = orig p"
    and "B p = Some b \<Longrightarrow> B q = Some b \<Longrightarrow> p = q"
    and "p \<in> I \<Longrightarrow> p \<in> P \<and> (B p = None \<longrightarrow> orig p = None)"
    and "T p = Some t \<Longrightarrow> temp_name t"
  using assms unfolding saved_def by simp_all

lemma saved_mono: "saved orig P D F B T I \<Longrightarrow> D \<subseteq> D' \<Longrightarrow> saved orig P D' F B T I"
  unfolding saved_def by blast

text \<open>Files under names of the committer that hold no backup do not matter.\<close>

lemma saved_other:
  assumes "saved orig P D F B T I" "\<forall>p \<in> P. user_path p"
    and "\<And>q. user_path q \<or> backup_name q \<Longrightarrow> F' q = F q"
  shows "saved orig P D F' B T I"
proof -
  note D = savedD [OF assms(1)]
  have "F' b = F b" "F' p = F p" if "B p = Some b" for p b
    using that D(2) [of p b] assms(2,3) by blast+
  then show ?thesis
    using assms(1,3) unfolding saved_def by auto
qed

lemma saved_unlink:
  assumes "saved orig P D F B T I" "\<forall>p \<in> P. user_path p" "p \<in> I" "p \<notin> D"
  shows "saved orig P D (F(p := None)) B T I"
proof -
  note D = savedD [OF assms(1)]
  have "user_path p" using D(5) assms(2,3) by blast
  then have b: "b \<noteq> p" if "B q = Some b" for q b using D(2) [OF that] by auto
  have "(F(p := None)) b = orig q \<or> q \<in> D \<and> (F(p := None)) q = orig q" if "B q = Some b" for q b
    using D(3) [OF that] b [OF that] assms(4) by auto
  then show ?thesis using assms(1,3) unfolding saved_def by auto
qed

lemma saved_restore:
  assumes "saved orig P D F B T I" "\<forall>p \<in> P. user_path p" "B p = Some b" "p \<notin> D"
  shows "saved orig P (insert p D) (F(b := None, p := F b)) B T I"
proof -
  note D = savedD [OF assms(1)]
  have Fb: "F b = orig p" using D(3) [OF assms(3)] assms(4) by blast
  have nb: "backup_name b" and up: "user_path p" using D(2) [OF assms(3)] assms(2) by auto
  have ub: "q \<noteq> b" if "user_path q" for q using that nb by auto
  have c: "(F(b := None, p := F b)) c = orig q \<or>
      q \<in> insert p D \<and> (F(b := None, p := F b)) q = orig q" if "B q = Some c" for q c
  proof (cases "q = p")
    case False
    have "c \<noteq> b" using D(4) [OF that, of p] assms(3) False by auto
    moreover have "c \<noteq> p" using D(2) [OF that] up by auto
    moreover have "q \<noteq> b" using D(2) [OF that] assms(2) ub by auto
    ultimately show ?thesis using D(3) [OF that] False by auto
  qed (simp add: Fb)
  show ?thesis using assms(1,3) ub c unfolding saved_def by auto
qed

definition tables :: "commit_state \<Rightarrow> path list \<times> (path, path) dict \<times> (path, path) dict \<times> path list" where
  "tables w = (cs_created w, cs_prepared w, cs_backups w, cs_installed w)"

definition saved_in :: "files \<Rightarrow> StagedFile list \<Rightarrow> path set \<Rightarrow> commit_state \<Rightarrow> bool" where
  "saved_in orig changes D w \<longleftrightarrow>
     saved orig (set (map sf_path changes)) D (file_at (w_fs w)) (map_of (cs_backups w))
       (map_of (cs_prepared w)) (set (cs_installed w))"

lemma syscall_cases:
  assumes "syscall os f w = (r, w')"
  obtains (fault) "r = Inl OSError" "w' = w\<lparr>w_calls := Suc (w_calls w)\<rparr>"
    | (call) s where "f (w_fs w) = (r, s)" "w' = w\<lparr>w_calls := Suc (w_calls w), w_fs := s\<rparr>"
  using assms by (auto simp: syscall_def Let_def split: if_splits prod.splits)

lemma syscall_tables: "tables (snd (syscall os f w)) = tables w"
  by (auto simp: tables_def syscall_def Let_def split: prod.splits)

lemma fsync_keeps: "tables (snd (fsync_directory os w)) = tables w" "w_fs (snd (fsync_directory os w)) = w_fs w"
  by (simp_all add: fsync_directory_def tables_def syscall_def Let_def)

lemma remove_installed_result:
  assumes "remove_installed os p w = (r, w1)"
  shows "tables w1 = tables w"
    and "file_at (w_fs w1) =
      (if p \<in> set (cs_installed w) \<and> r = Inr () then (file_at (w_fs w))(p := None) else file_at (w_fs w))"
proof -
  show "tables w1 = tables w"
    using assms syscall_tables [of os "fs_unlink False p" w]
    by (auto simp: remove_installed_def io_return_def split: if_splits)
  show "file_at (w_fs w1) =
      (if p \<in> set (cs_installed w) \<and> r = Inr () then (file_at (w_fs w))(p := None) else file_at (w_fs w))"
  proof (cases "p \<in> set (cs_installed w) \<and> fs_exists (w_fs w) p \<and> \<not> fs_is_dir (w_fs w) p")
    case True
    then have "syscall os (fs_unlink False p) w = (r, w1)" using assms by (simp add: remove_installed_def)
    then show ?thesis
    proof (cases rule: syscall_cases)
      case (call s)
      with True show ?thesis
        by (auto simp: fs_unlink_def fs_exists_def fs_is_dir_def file_at_simps fun_eq_iff
            split: option.splits node.splits)
    qed simp
  next
    case False
    with assms show ?thesis
      by (auto simp: remove_installed_def io_return_def fs_exists_def fs_is_dir_def file_at_def fun_eq_iff)
  qed
qed

lemma restore_backup_result:
  assumes users: "user_changes changes" and w: "saved_in orig changes D w"
    and p: "p \<in> set (map sf_path changes)" "p \<notin> D"
    and run: "restore_backup os p w = (r, w')"
  shows "saved_in orig changes (insert p D) w' \<and> tables w' = tables w \<and>
    (r = Inr True \<longrightarrow>
       file_at (w_fs w') p = (if map_of (cs_backups w) p = None then file_at (w_fs w) p else orig p)) \<and>
    (\<forall>q. user_path q \<longrightarrow> q \<noteq> p \<longrightarrow> file_at (w_fs w') q = file_at (w_fs w) q)"
proof -
  note P = user_changesD [OF users]
  note S = savedD [OF w [unfolded saved_in_def]]
  have more: "saved_in orig changes (insert p D) w2"
    if "file_at (w_fs w2) = file_at (w_fs w)" "tables w2 = tables w" for w2
    using saved_mono [OF w [unfolded saved_in_def], of "insert p D"] that
    by (auto simp: saved_in_def tables_def)
  show ?thesis
  proof (cases "map_of (cs_backups w) p")
    case None
    with run more [of w] show ?thesis by (auto simp: restore_backup_def io_return_def)
  next
    case (Some b)
    have up: "user_path p" using P p by blast
    have b: "backup_name b" "b \<noteq> p" using S(2) [OF Some] up by auto
    have Fb: "file_at (w_fs w) b = orig p" using S(3) [OF Some] p(2) by blast
    then have ex: "fs_exists (w_fs w) b"
      using S(2) [OF Some] file_at_Some_exists [of "w_fs w" b] by auto
    obtain r1 w1 where r1: "syscall os (fs_replace b p) w = (r1, w1)"
      by (cases "syscall os (fs_replace b p) w")
    note t1 = syscall_tables [of os "fs_replace b p" w]
    show ?thesis
    proof (cases r1)
      case (Inl e)
      have "file_at (w_fs w1) = file_at (w_fs w)"
        using r1 by (cases rule: syscall_cases) (auto simp: Inl dest: fs_replace_Inl)
      with run r1 Some ex Inl more [of w1] t1 show ?thesis
        by (auto simp: restore_backup_def io_bind_def)
    next
      case (Inr u)
      have F: "file_at (w_fs w1) = (file_at (w_fs w))(b := None, p := file_at (w_fs w) b)"
        using r1 fs_replace_Inr [OF _ b(2), of "w_fs w"]
        by (cases rule: syscall_cases) (auto simp: Inr)
      have w': "r = Inr True" "w' = snd (fsync_directory os w1)"
        using run r1 Some ex Inr
        by (auto simp: restore_backup_def io_bind_def fsync_directory_def io_return_def)
      have "saved_in orig changes (insert p D) w'"
        using saved_restore [OF w [unfolded saved_in_def] P Some p(2)] F t1 r1
          fsync_keeps [of os w1]
        by (simp add: saved_in_def w' tables_def)
      moreover have "q \<noteq> b" if "user_path q" for q using that b by auto
      ultimately show ?thesis using F t1 r1 Fb Some fsync_keeps [of os w1] w' by auto
    qed
  qed
qed

lemma rollback_path_result:
  assumes users: "user_changes changes" and w: "saved_in orig changes D w"
    and p: "p \<in> set (map sf_path changes)" "p \<notin> D"
    and run: "rollback_path os p w = (es, w')"
  shows "saved_in orig changes (insert p D) w' \<and> tables w' = tables w \<and>
    (es = [] \<longrightarrow> file_at (w_fs w') p = orig p) \<and>
    (\<forall>q. user_path q \<longrightarrow> q \<noteq> p \<longrightarrow> file_at (w_fs w') q = file_at (w_fs w) q)"
proof -
  note P = user_changesD [OF users]
  have up: "user_path p" using P p by blast
  obtain r w1 where r: "remove_installed os p w = (r, w1)" by (cases "remove_installed os p w")
  note t1 = remove_installed_result [OF r]
  have w1: "saved_in orig changes D w1"
    using w t1 saved_unlink [OF w [unfolded saved_in_def] P _ p(2)]
    by (auto simp: saved_in_def tables_def split: if_splits)
  show ?thesis
  proof (cases r)
    case (Inl e)
    with r run have "es = [p]" "w' = w1" by (auto simp: rollback_path_def io_bind_def)
    with t1 Inl saved_mono [OF w1 [unfolded saved_in_def], of "insert p D"] show ?thesis
      by (auto simp: saved_in_def)
  next
    case (Inr u)
    obtain r2 where r2: "restore_backup os p w1 = (r2, w')" and es: "es = [] \<longleftrightarrow> r2 = Inr True"
      using r run Inr by (auto simp: rollback_path_def io_bind_def split: prod.splits sum.splits if_splits)
    note t2 = restore_backup_result [OF users w1 p r2]
    have keep: "file_at (w_fs w1) p = orig p" if none: "map_of (cs_backups w1) p = None"
      using savedD(1,5) [OF w [unfolded saved_in_def], of p] none up t1 Inr
      by (cases "p \<in> set (cs_installed w)") (auto simp: tables_def)
    show ?thesis using t2 es keep t1 by auto
  qed
qed

lemma rollback_paths_result:
  assumes users: "user_changes changes"
  shows "saved_in orig changes D w \<Longrightarrow> set ps \<subseteq> set (map sf_path changes) \<Longrightarrow> distinct ps \<Longrightarrow>
    set ps \<inter> D = {} \<Longrightarrow> rollback_paths os ps w = (es, w') \<Longrightarrow>
    saved_in orig changes (set ps \<union> D) w' \<and> tables w' = tables w \<and>
    (es = [] \<longrightarrow> (\<forall>p \<in> set ps. file_at (w_fs w') p = orig p)) \<and>
    (\<forall>q. user_path q \<longrightarrow> q \<notin> set ps \<longrightarrow> file_at (w_fs w') q = file_at (w_fs w) q)"
proof (induction ps arbitrary: D w es)
  case Nil
  then show ?case by simp
next
  case (Cons p ps)
  obtain es1 w1 where r1: "rollback_path os p w = (es1, w1)" by (cases "rollback_path os p w")
  obtain es2 where r2: "rollback_paths os ps w1 = (es2, w')" and es: "es = es1 @ es2"
    using Cons.prems(5) r1 by (auto split: prod.splits)
  have p: "p \<in> set (map sf_path changes)" "p \<notin> D" "p \<notin> set ps" using Cons.prems by auto
  note t1 = rollback_path_result [OF users Cons.prems(1) p(1,2) r1]
  have t2: "saved_in orig changes (set ps \<union> insert p D) w' \<and> tables w' = tables w1 \<and>
    (es2 = [] \<longrightarrow> (\<forall>q \<in> set ps. file_at (w_fs w') q = orig q)) \<and>
    (\<forall>q. user_path q \<longrightarrow> q \<notin> set ps \<longrightarrow> file_at (w_fs w') q = file_at (w_fs w1) q)"
    using Cons.IH [OF conjunct1 [OF t1] _ _ _ r2] Cons.prems by auto
  have "user_path p" using user_changesD [OF users] p by blast
  with t1 t2 p es show ?case by auto
qed

text \<open>Removing files under reserved names, and directories, touches no file of the user.\<close>

lemma syscall_unlink_other:
  assumes "q \<noteq> t"
  shows "file_at (w_fs (snd (syscall os (fs_unlink mo t) w))) q = file_at (w_fs w) q"
  using assms fs_op_frames(7) [of t "w_fs w" mo]
  by (auto simp: syscall_def Let_def same_files_def split: prod.splits)

lemma unlink_all_result:
  "unlink_all os ts w = (es, w') \<Longrightarrow>
   tables w' = tables w \<and> (\<forall>q. q \<notin> set ts \<longrightarrow> file_at (w_fs w') q = file_at (w_fs w) q)"
proof (induction ts arbitrary: w es)
  case (Cons t ts)
  then show ?case
    using syscall_tables [of os "fs_unlink True t" w] syscall_unlink_other [of _ t os True w]
    by (fastforce split: prod.splits)
qed simp

lemma rmdir_all_result:
  "tables (rmdir_all os ds w) = tables w \<and> file_at (w_fs (rmdir_all os ds w)) = file_at (w_fs w)"
proof (induction ds arbitrary: w)
  case (Cons d ds)
  have "file_at (w_fs (snd (syscall os (fs_rmdir d) w))) = file_at (w_fs w)"
    using silent_syscall [of "fs_rmdir d" os] by (simp add: silent_def view_def)
  with Cons [of "snd (syscall os (fs_rmdir d) w)"] syscall_tables [of os "fs_rmdir d" w]
  show ?case by simp
qed simp

lemma unlink_backups_result:
  "q \<notin> set bs \<Longrightarrow> file_at (w_fs (unlink_backups os bs w)) q = file_at (w_fs w) q"
proof (induction bs arbitrary: w)
  case (Cons b bs)
  then show ?case
    using syscall_unlink_other [of q b os True w] fsync_keeps(2)
    by (auto split: prod.splits sum.splits)
qed simp

lemma saved_prepared_temp:
  assumes "saved_in orig changes D w" "dict_ok (cs_prepared w)" "t \<in> set (map snd (cs_prepared w))"
  shows "temp_name t"
proof -
  obtain p where "(p, t) \<in> set (cs_prepared w)" using assms(3) by auto
  with assms(2) have "map_of (cs_prepared w) p = Some t" by (simp add: dict_ok_def)
  with savedD(6) [OF assms(1) [unfolded saved_in_def]] show ?thesis by blast
qed

lemma rollback_result:
  assumes users: "user_changes changes" and dist: "distinct (map sf_path changes)"
    and w: "led orig changes w" and run: "rollback os changes w = (es, w')"
  shows "saved_in orig changes (set (map sf_path changes)) w' \<and> tables w' = tables w \<and>
    (es = [] \<longrightarrow> (\<forall>p. user_path p \<longrightarrow> file_at (w_fs w') p = orig p))"
proof -
  let ?P = "set (map sf_path changes)"
  note P = user_changesD [OF users]
  obtain es1 w1 where r1: "rollback_paths os (rev (map sf_path changes)) w = (es1, w1)"
    by (cases "rollback_paths os (rev (map sf_path changes)) w")
  obtain es2 w2 where r2: "unlink_all os (map snd (cs_prepared w1)) w1 = (es2, w2)"
    by (cases "unlink_all os (map snd (cs_prepared w1)) w1")
  have es: "es = es1 @ es2" and w': "w' = rmdir_all os (rev (cs_created w2)) w2"
    using run r1 r2 by (auto simp: rollback_def)
  have w0: "saved_in orig changes {} w"
    using ledger_saved [OF ledD [OF w]] by (simp add: saved_in_def)
  have t1: "saved_in orig changes ?P w1" "tables w1 = tables w"
    "es1 = [] \<Longrightarrow> \<forall>p \<in> ?P. file_at (w_fs w1) p = orig p"
    "\<forall>q. user_path q \<longrightarrow> q \<notin> ?P \<longrightarrow> file_at (w_fs w1) q = file_at (w_fs w) q"
    using rollback_paths_result [OF users w0 _ _ _ r1] dist by auto
  note t2 = unlink_all_result [OF r2] and t3 = rmdir_all_result [of os "rev (cs_created w2)" w2]
  have tmp: "temp_name t" if "t \<in> set (map snd (cs_prepared w1))" for t
    using saved_prepared_temp [OF t1(1) _ that] w t1(2) by (simp add: led_def tables_def)
  have keep: "file_at (w_fs w') q = file_at (w_fs w1) q" if "user_path q \<or> backup_name q" for q
  proof -
    have "q \<notin> set (map snd (cs_prepared w1))" using tmp [of q] name_classes(1,2) [of q] that by blast
    with t2 t3 show ?thesis by (simp add: w')
  qed
  have tb: "tables w' = tables w" using t1(2) t2 t3 by (simp add: w')
  have "saved_in orig changes ?P w'"
    using saved_other [OF t1(1) [unfolded saved_in_def] P keep] tb t1(2)
    by (simp add: saved_in_def tables_def)
  moreover have "file_at (w_fs w') p = orig p" if "es = []" "user_path p" for p
  proof (cases "p \<in> ?P")
    case True
    with t1(3) that keep [of p] es show ?thesis by auto
  next
    case False
    then have "map_of (cs_backups w) p = None" "p \<notin> set (cs_installed w)"
      using savedD(2,5) [OF w0 [unfolded saved_in_def], of p] by (meson not_None_eq)+
    then have "file_at (w_fs w) p = orig p"
      using savedD(1) [OF w0 [unfolded saved_in_def] that(2)] by blast
    with False t1(4) that keep [of p] show ?thesis by auto
  qed
  ultimately show ?thesis using tb by blast
qed

lemma cleanup_user_files:
  assumes ok: "dict_ok (cs_prepared w)" "dict_ok (cs_backups w)" and q: "user_path q"
    and s: "saved_in orig changes D w"
  shows "file_at (w_fs (cleanup os preserve w)) q = file_at (w_fs w) q"
proof -
  obtain es w1 where r: "unlink_all os (map snd (cs_prepared w)) w = (es, w1)"
    by (cases "unlink_all os (map snd (cs_prepared w)) w")
  note t = unlink_all_result [OF r]
  have "q \<notin> set (map snd (cs_prepared w))" using saved_prepared_temp [OF s ok(1), of q] name_classes(2) [of q] q by blast
  moreover have "backup_name b" if "b \<in> set (map snd (cs_backups w))" for b
  proof -
    from that obtain p where "(p, b) \<in> set (cs_backups w)" by auto
    with ok(2) have "map_of (cs_backups w) p = Some b" by (simp add: dict_ok_def)
    with savedD(2) [OF s [unfolded saved_in_def]] show ?thesis by blast
  qed
  then have "q \<notin> set (map snd (cs_backups w))" using name_classes(3) [of q] q by blast
  ultimately show ?thesis
    using r t unlink_backups_result [of q "map snd (cs_backups w)" os w1]
    by (simp add: cleanup_def Let_def tables_def)
qed

lemma cleanup_backup_files:
  assumes "dict_ok (cs_prepared w)" "backup_name q" "saved_in orig changes D w"
  shows "file_at (w_fs (cleanup os True w)) q = file_at (w_fs w) q"
proof -
  obtain es w1 where r: "unlink_all os (map snd (cs_prepared w)) w = (es, w1)"
    by (cases "unlink_all os (map snd (cs_prepared w)) w")
  have "q \<notin> set (map snd (cs_prepared w))" using saved_prepared_temp [OF assms(3,1), of q] name_classes(1) [of q] assms(2) by blast
  with r unlink_all_result [OF r] show ?thesis by (simp add: cleanup_def)
qed

section \<open>The commit as a whole\<close>

lemma start_inv: "prepare_inv (file_at (w_fs w)) changes [] (start_commit w)"
  by (simp add: prepare_inv_def start_commit_def led_def ledger_def)

lemma commit_unfold:
  "changes \<noteq> [] \<Longrightarrow> distinct (map sf_path changes) \<Longrightarrow> commit os changes w = commit_in os changes w"
  by (simp add: commit_def assert_unique_paths_def)

lemma commit_not_distinct:
  "\<not> distinct (map sf_path changes) \<Longrightarrow>
   commit os changes w = (Inl (tool_failure ''PATCH_FAILED'' ''validation''), w)"
  by (auto simp: commit_def assert_unique_paths_def)

text \<open>The two ways a commit of at least one change ends, with what is known of the files.\<close>

lemma commit_in_success:
  assumes users: "user_changes changes" and dist: "distinct (map sf_path changes)"
    and run: "commit_in os changes (start_commit w) = (Inr u, w')"
  shows "user_path p \<Longrightarrow> file_at (w_fs w') p = patched (file_at (w_fs w)) changes p"
    and "c \<in> set changes \<Longrightarrow> baseline_holds os (sf_baseline c) (file_at (w_fs w) (sf_path c))"
proof -
  let ?o = "file_at (w_fs w)"
  obtain v w1 where b: "commit_body os changes (start_commit w) = (Inr v, w1)"
    and w': "w' = cleanup os False w1"
    using run by (auto simp: commit_in_def split: prod.splits sum.splits if_splits)
  note t = triple_Inr [OF triple_commit_body [OF users dist] start_inv b]
  have l: "led ?o changes w1" using phase_led(3) t by blast
  then have s: "saved_in ?o changes {} w1"
    using ledger_saved [OF ledD] by (simp add: saved_in_def)
  show "file_at (w_fs w') p = patched ?o changes p" if "user_path p"
    using cleanup_user_files [OF _ _ that s] l install_inv_patched [OF users dist _ that] t
    by (simp add: w' led_def)
  show "baseline_holds os (sf_baseline c) (?o (sf_path c))" if "c \<in> set changes"
    using t that by blast
qed

lemma commit_in_failure:
  assumes users: "user_changes changes" and dist: "distinct (map sf_path changes)"
    and run: "commit_in os changes (start_commit w) = (Inl e, w')"
  obtains (restored) "\<forall>p. user_path p \<longrightarrow> file_at (w_fs w') p = file_at (w_fs w) p"
    | (preserved) errors w2 where "e = rollback_failed changes errors w2" "w' = cleanup os True w2"
        "saved_in (file_at (w_fs w)) changes (set (map sf_path changes)) w2"
        "dict_ok (cs_backups w2)" "dict_ok (cs_prepared w2)"
proof -
  let ?o = "file_at (w_fs w)"
  obtain e1 w1 where b: "commit_body os changes (start_commit w) = (Inl e1, w1)"
    using run by (auto simp: commit_in_def split: prod.splits sum.splits)
  obtain errors w2 where r: "rollback os changes w1 = (errors, w2)" by (cases "rollback os changes w1")
  have l: "led ?o changes w1"
    using triple_Inl [OF triple_commit_body [OF users dist] start_inv b] .
  note t = rollback_result [OF users dist l r]
  have ok: "dict_ok (cs_backups w2)" "dict_ok (cs_prepared w2)"
    using l t by (auto simp: led_def tables_def)
  show thesis
  proof (cases "errors = []")
    case True
    then have "w' = cleanup os False w2" using run b r by (simp add: commit_in_def)
    then show thesis
      using restored cleanup_user_files [OF ok(2,1)] t True by metis
  next
    case False
    then have "e = rollback_failed changes errors w2" "w' = cleanup os True w2"
      using run b r by (auto simp: commit_in_def)
    then show thesis using preserved t ok by blast
  qed
qed

lemma rollback_failed_code [simp]:
  "failure_code (rollback_failed changes errors w) = Some ''PATCH_ROLLBACK_FAILED''"
  by (simp add: rollback_failed_def)

text \<open>
  A small world for the witnesses: a file \<^verbatim>\<open>/a\<close>, an update of it, the creation of \<^verbatim>\<open>/d/b\<close> and
  a parameter that says which system calls fail.
\<close>

definition demo_os :: "(nat \<Rightarrow> bool) \<Rightarrow> os" where
  "demo_os faults = \<lparr>os_fault = faults, os_rand = (\<lambda>n. replicate n CHR ''x''),
     os_sha256 = map (\<lambda>b. if b = 1 then CHR ''1'' else CHR ''0'')\<rparr>"

definition demo_world :: world where
  "demo_world = \<lparr>w_fs = [([], Dir), ([''a''], File [1] 4)], w_calls = 0\<rparr>"

definition demo_changes :: "StagedFile list" where
  "demo_changes =
     [\<lparr>sf_display = ''a'', sf_path = [''a''], sf_content = Some (CBytes [2]),
       sf_baseline = \<lparr>fb_data = Some [1], fb_mode = Some 4, fb_digest = Some ''1''\<rparr>, sf_mode = Some 4\<rparr>,
      \<lparr>sf_display = ''d/b'', sf_path = [''d'', ''b''], sf_content = Some (CBytes [3]),
       sf_baseline = \<lparr>fb_data = None, fb_mode = None, fb_digest = None\<rparr>, sf_mode = None\<rparr>]"

lemma demo_user_changes: "user_changes demo_changes"
  by code_simp

lemma demo_success: "fst (commit (demo_os (\<lambda>n. False)) demo_changes (start_commit demo_world)) = Inr ()"
  by code_simp


text \<open>The entry of a failed rollback's details that names the preserved backups.\<close>

definition recovery_of :: "pyexn \<Rightarrow> (string \<times> json) list" where
  "recovery_of e =
     (case e of
        Tool f \<Rightarrow> (case map_of (tf_details f) ''recovery_backups'' of Some (JObj d) \<Rightarrow> d | _ \<Rightarrow> [])
      | _ \<Rightarrow> [])"

lemma display_of_at:
  assumes "distinct (map sf_path changes)" "c \<in> set changes"
  shows "display_of changes (sf_path c) = sf_display c"
proof -
  have "map_of (map (\<lambda>c. (sf_path c, sf_display c)) (rev changes)) (sf_path c) = Some (sf_display c)"
    using assms by (intro map_of_is_SomeI) (auto simp: rev_map [symmetric] comp_def)
  then show ?thesis by (simp add: display_of_def)
qed

lemma display_of_inj:
  assumes "distinct (map sf_path changes)" "distinct (map sf_display changes)"
  shows "inj_on (display_of changes) (set (map sf_path changes))"
  using assms(2) by (auto simp: inj_on_def display_of_at [OF assms(1)] distinct_map)

lemma recovery_of_rollback_failed:
  assumes dist: "distinct (map sf_path changes)" "distinct (map sf_display changes)"
    and s: "saved_in orig changes D w" and ok: "dict_ok (cs_backups w)"
  shows "recovery_of (rollback_failed changes errors w) =
    map (\<lambda>e. (display_of changes (fst e), JStr (path_str (snd e)))) (recovery_backups w)"
proof -
  have sub: "fst ` set (cs_backups w) \<subseteq> set (map sf_path changes)"
  proof
    fix q assume "q \<in> fst ` set (cs_backups w)"
    then obtain b where "map_of (cs_backups w) q = Some b"
      using ok by (auto simp: dict_ok_def)
    with savedD(2) [OF s [unfolded saved_in_def]] show "q \<in> set (map sf_path changes)" by blast
  qed
  have "distinct (map fst (recovery_backups w))" "set (map fst (recovery_backups w)) \<subseteq> set (map sf_path changes)"
    using ok sub by (auto simp: recovery_backups_def dict_ok_def distinct_map_filter)
  then have "distinct (map (display_of changes) (map fst (recovery_backups w)))"
    using display_of_inj [OF dist] by (metis distinct_map inj_on_subset)
  then show ?thesis
    by (simp add: recovery_of_def rollback_failed_def dict_from_distinct comp_def)
qed

section \<open>Theorems\<close>

lemma commit_success:
  assumes "user_changes changes" "commit os changes (start_commit w) = (Inr u, w')"
  shows "(\<forall>p. user_path p \<longrightarrow> file_at (w_fs w') p = patched (file_at (w_fs w)) changes p) \<and>
    (\<forall>c \<in> set changes. baseline_holds os (sf_baseline c) (file_at (w_fs w) (sf_path c)))"
proof (cases "changes = []")
  case True
  with assms(2) show ?thesis by (auto simp: commit_def start_commit_def patched_def)
next
  case False
  have dist: "distinct (map sf_path changes)"
    using assms(2) commit_not_distinct [of changes os "start_commit w"] by auto
  then show ?thesis
    using commit_in_success [OF assms(1) dist] assms(2) commit_unfold [OF False dist] by metis
qed

lemma commit_failure_unchanged:
  assumes "user_changes changes" "commit os changes (start_commit w) = (Inl e, w')"
    and "failure_code e \<noteq> Some ''PATCH_ROLLBACK_FAILED''" "user_path p"
  shows "file_at (w_fs w') p = file_at (w_fs w) p"
proof (cases "changes = [] \<or> \<not> distinct (map sf_path changes)")
  case True
  with assms(2) show ?thesis
    by (auto simp: commit_def assert_unique_paths_def start_commit_def split: if_splits)
next
  case False
  then have run: "commit_in os changes (start_commit w) = (Inl e, w')"
    using assms(2) commit_unfold [of changes os] by simp
  from False have dist: "distinct (map sf_path changes)" by blast
  show ?thesis
    by (cases rule: commit_in_failure [OF assms(1) dist run]) (use assms(3,4) in auto)
qed

text \<open>
  The contract of a committer, for its clients: a normal return has applied the change set to the files
  of the user, and a failure other than that of the rollback has changed none of them.
\<close>

locale file_committer =
  fixes run :: "StagedFile list \<Rightarrow> world \<Rightarrow> unit result \<times> fs"
  assumes applied: "user_changes cs \<Longrightarrow> run cs w = (Inr u, s') \<Longrightarrow> user_path p \<Longrightarrow>
      file_at s' p = patched (file_at (w_fs w)) cs p"
    and refused: "user_changes cs \<Longrightarrow> run cs w = (Inl e, s') \<Longrightarrow>
      failure_code e \<noteq> Some ''PATCH_ROLLBACK_FAILED'' \<Longrightarrow> user_path p \<Longrightarrow> file_at s' p = file_at (w_fs w) p"
begin

text \<open>Either everything or nothing, and never a file outside the change set.\<close>

lemma all_or_nothing:
  assumes "user_changes cs" "run cs w = (r, s')" "\<forall>e. r = Inl e \<longrightarrow> failure_code e \<noteq> Some ''PATCH_ROLLBACK_FAILED''"
  shows "(\<forall>p. user_path p \<longrightarrow> file_at s' p = patched (file_at (w_fs w)) cs p) \<or>
    (\<forall>p. user_path p \<longrightarrow> file_at s' p = file_at (w_fs w) p)"
  using assms applied refused by (cases r) metis+

lemma others_kept:
  assumes "user_changes cs" "run cs w = (r, s')" "\<forall>e. r = Inl e \<longrightarrow> failure_code e \<noteq> Some ''PATCH_ROLLBACK_FAILED''"
    and "user_path p" "p \<notin> sf_path ` set cs"
  shows "file_at s' p = file_at (w_fs w) p"
  using all_or_nothing [OF assms(1-3)] assms(4,5) by (auto simp: patched_def)

end

definition run_commit :: "os \<Rightarrow> StagedFile list \<Rightarrow> world \<Rightarrow> unit result \<times> fs" where
  "run_commit os cs w = (case commit os cs (start_commit w) of (r, c) \<Rightarrow> (r, w_fs c))"

interpretation pc: file_committer "run_commit os" for os
proof
  show "file_at s' p = patched (file_at (w_fs w)) cs p"
    if "user_changes cs" "run_commit os cs w = (Inr u, s')" "user_path p" for cs w u s' p
    using that commit_success [OF that(1), of os w] by (auto simp: run_commit_def split: prod.splits)
  show "file_at s' p = file_at (w_fs w) p"
    if "user_changes cs" "run_commit os cs w = (Inl e, s')" "failure_code e \<noteq> Some ''PATCH_ROLLBACK_FAILED''" "user_path p"
    for cs w e s' p
    using that commit_failure_unchanged [OF that(1), of os w e] by (auto simp: run_commit_def split: prod.splits)
qed

text \<open>
  C2: A commit that returns normally has applied the whole change set and nothing else: every
  change path holds exactly the staged bytes with the staged mode (or no file, for a deletion),
  every other file of the user is as before, and each baseline described the file that was there
  when the commit started, so that no concurrent edit made before the commit was overwritten.
  This holds for every pattern of failing system calls.
\<close>

theorem commit_applies_all:
  assumes "user_changes changes" "commit os changes (start_commit w) = (Inr u, w')"
  shows "(\<forall>p. user_path p \<longrightarrow> file_at (w_fs w') p = patched (file_at (w_fs w)) changes p) \<and>
    (\<forall>c \<in> set changes. baseline_holds os (sf_baseline c) (file_at (w_fs w) (sf_path c)))"
  using assms by (rule commit_success)

theorem commit_applies_all_witness:
  "file_at (w_fs (snd (commit (demo_os (\<lambda>n. False)) demo_changes (start_commit demo_world)))) [''d'', ''b''] =
     Some ([3], 420)"
proof -
  let ?r = "commit (demo_os (\<lambda>n. False)) demo_changes (start_commit demo_world)"
  have "?r = (Inr (), snd ?r)" using demo_success by (metis prod.collapse)
  then have "file_at (w_fs (snd ?r)) [''d'', ''b''] =
      patched (file_at (w_fs demo_world)) demo_changes [''d'', ''b'']"
    using commit_applies_all [OF demo_user_changes, of "demo_os (\<lambda>n. False)" demo_world "()" "snd ?r"]
    by (simp add: user_path_def temp_name_def backup_name_def PATCH_TEMP_PREFIX_def
        PATCH_BACKUP_PREFIX_def startswith_def)
  also have "\<dots> = Some ([3], 420)"
    by (simp add: patched_def expected_def demo_changes_def staged_value_def content_bytes_def install_mode_def)
  finally show ?thesis .
qed

text \<open>
  C3: A commit that raises anything but \<^verbatim>\<open>PATCH_ROLLBACK_FAILED\<close> has left every file of the user
  exactly as it was, bytes and mode, whichever system calls failed on the way.
\<close>

theorem commit_all_or_nothing:
  assumes "user_changes changes" "commit os changes (start_commit w) = (Inl e, w')"
    and "failure_code e \<noteq> Some ''PATCH_ROLLBACK_FAILED''" "user_path p"
  shows "file_at (w_fs w') p = file_at (w_fs w) p"
  using assms by (rule commit_failure_unchanged)

theorem commit_all_or_nothing_witness:
  "file_at (w_fs (snd (commit (demo_os (\<lambda>n. n = 20)) demo_changes (start_commit demo_world)))) [''a''] =
     Some ([1], 4)"
proof -
  let ?r = "commit (demo_os (\<lambda>n. n = 20)) demo_changes (start_commit demo_world)"
  have "fst ?r = Inl OSError" by code_simp
  then have "?r = (Inl OSError, snd ?r)" by (metis prod.collapse)
  then have "file_at (w_fs (snd ?r)) [''a''] = file_at (w_fs demo_world) [''a'']"
    by (rule commit_all_or_nothing [OF demo_user_changes]) (simp_all add: user_path_def temp_name_def
        backup_name_def PATCH_TEMP_PREFIX_def PATCH_BACKUP_PREFIX_def startswith_def)
  also have "\<dots> = Some ([1], 4)" by (simp add: demo_world_def file_at_def)
  finally show ?thesis .
qed

text \<open>
  C5: When even the rollback fails, no original is lost: each file of the user is in place, or its
  bytes and mode are in a backup in the same directory which the raised error names under the
  file's display name.
\<close>

theorem commit_rollback_failed_recoverable:
  assumes "user_changes changes" "distinct (map sf_display changes)"
    and "commit os changes (start_commit w) = (Inl e, w')"
    and "failure_code e = Some ''PATCH_ROLLBACK_FAILED''"
    and "user_path p" "file_at (w_fs w) p \<noteq> None"
  shows "file_at (w_fs w') p = file_at (w_fs w) p \<or>
    (\<exists>b. butlast b = butlast p \<and> file_at (w_fs w') b = file_at (w_fs w) p \<and>
         (display_of changes p, JStr (path_str b)) \<in> set (recovery_of e))"
proof (cases "changes = [] \<or> \<not> distinct (map sf_path changes)")
  case True
  with assms(3) show ?thesis
    by (auto simp: commit_def assert_unique_paths_def start_commit_def split: if_splits)
next
  case False
  then have run: "commit_in os changes (start_commit w) = (Inl e, w')"
    using assms(3) commit_unfold [of changes os] by simp
  from False have dist: "distinct (map sf_path changes)" by blast
  from assms(1) dist run show ?thesis
  proof (cases rule: commit_in_failure)
    case restored
    with assms(5) show ?thesis by blast
  next
    case (preserved errors w2)
    note S = savedD [OF preserved(3) [unfolded saved_in_def]]
    note user = cleanup_user_files [OF preserved(5,4) _ preserved(3)]
    show ?thesis
    proof (cases "map_of (cs_backups w2) p")
      case None
      with S(1,5) [of p] assms(5,6) user [of p] preserved(2) show ?thesis by metis
    next
      case (Some b)
      show ?thesis
      proof (cases "file_at (w_fs w2) b = file_at (w_fs w) p")
        case True
        then have "fs_exists (w_fs w2) b" using assms(6) file_at_Some_exists [of "w_fs w2" b] by auto
        then have "(p, b) \<in> set (recovery_backups w2)"
          using map_of_SomeD [OF Some] by (simp add: recovery_backups_def)
        then have "(display_of changes p, JStr (path_str b)) \<in> set (recovery_of e)"
          using recovery_of_rollback_failed [OF dist assms(2) preserved(3,4)] preserved(1) by force
        then show ?thesis
          using True S(2) [OF Some] cleanup_backup_files [OF preserved(5) _ preserved(3)] preserved(2)
          by metis
      next
        case False
        with S(3) [OF Some] user [OF assms(5)] preserved(2) show ?thesis by metis
      qed
    qed
  qed
qed

theorem commit_rollback_failed_recoverable_witness:
  "let r = commit (demo_os (\<lambda>n. 18 \<le> n)) demo_changes (start_commit demo_world) in
   file_at (w_fs (snd r)) [''a''] = None \<and>
   (\<exists>b. file_at (w_fs (snd r)) b = Some ([1], 4) \<and>
        (''a'', JStr (path_str b)) \<in> set (recovery_of (projl (fst r))))"
proof -
  let ?r = "commit (demo_os (\<lambda>n. 18 \<le> n)) demo_changes (start_commit demo_world)"
  have c: "isl (fst ?r) \<and> failure_code (projl (fst ?r)) = Some ''PATCH_ROLLBACK_FAILED''" by code_simp
  have a: "file_at (w_fs (snd ?r)) [''a''] = None" by code_simp
  have o: "file_at (w_fs demo_world) [''a''] = Some ([1], 4)" by (simp add: demo_world_def file_at_def)
  have d: "distinct (map sf_display demo_changes)" "display_of demo_changes [''a''] = ''a''" by code_simp+
  have u: "user_path [''a'']" by code_simp
  have r: "?r = (Inl (projl (fst ?r)), snd ?r)" using c by (metis prod.collapse sum.collapse(1))
  from commit_rollback_failed_recoverable [OF demo_user_changes d(1) r conjunct2 [OF c] u] a o d(2)
  show ?thesis by (auto simp: Let_def)
qed

end
