(* ===== verification/Transactions.thy ===== *)
theory Transactions
  imports PatchCommit "HOL-Library.Multiset"
begin

text \<open>
  \<open>coding_tools_mcp/transactions.py\<close>: hashing an execution snapshot, the difference of two
  snapshots and its application to the authoritative tree.  The snapshot is a private tree, given
  as a value with its symbolic links and special files; the authoritative tree is the one of
  \<^verbatim>\<open>FileSystem\<close>, whose system calls may fail.  \<^verbatim>\<open>difflib.unified_diff\<close> and the caller's
  \<^verbatim>\<open>validate_relative_path\<close> are parameters.
\<close>

section \<open>Snapshots\<close>

definition MAX_TRANSACTION_FILES :: nat where
  "MAX_TRANSACTION_FILES = 50000"

definition MAX_TRANSACTION_CHANGED_FILES :: nat where
  "MAX_TRANSACTION_CHANGED_FILES = 2000"

definition MAX_TRANSACTION_APPLY_BYTES :: nat where
  "MAX_TRANSACTION_APPLY_BYTES = 128 * 1024 * 1024"

definition MAX_TRANSACTION_DIFF_BYTES :: nat where
  "MAX_TRANSACTION_DIFF_BYTES = 256 * 1024"

datatype snode =
    SFile bytes nat
  | SDir nat "(string \<times> snode) list"
  | SLink string nat
  | SOther

type_synonym listing = "(string \<times> snode) list"

record SnapshotEntry =
  se_kind :: string
  se_digest :: "string option"
  se_mode :: "nat option"
  se_size :: nat
  se_link_target :: "string option"

type_synonym snapshot = "(string, SnapshotEntry) dict"

record TransactionChange =
  tc_path :: string
  tc_operation :: string
  tc_bytes :: nat
  tc_mode :: "nat option"

definition ignored_name :: "string \<Rightarrow> bool" where
  "ignored_name name \<longleftrightarrow> name = ''.git'' \<or> startswith name ''.devmcp-''"

definition file_entry :: "os \<Rightarrow> bytes \<Rightarrow> nat \<Rightarrow> SnapshotEntry" where
  "file_entry os d m =
     \<lparr>se_kind = ''file'', se_digest = Some (os_sha256 os d), se_mode = Some m, se_size = length d,
      se_link_target = None\<rparr>"

definition dir_entry :: "nat \<Rightarrow> SnapshotEntry" where
  "dir_entry m =
     \<lparr>se_kind = ''dir'', se_digest = None, se_mode = Some m, se_size = 0, se_link_target = None\<rparr>"

definition link_entry :: "string \<Rightarrow> nat \<Rightarrow> SnapshotEntry" where
  "link_entry t m =
     \<lparr>se_kind = ''symlink'', se_digest = None, se_mode = Some m, se_size = 0, se_link_target = Some t\<rparr>"

text \<open>The loop over one directory: the result so far and the stack of directories to visit.\<close>

type_synonym scan_stack = "(listing \<times> string list) list"

fun scan_entries ::
    "os \<Rightarrow> string list \<Rightarrow> listing \<Rightarrow> snapshot \<Rightarrow> scan_stack \<Rightarrow> (snapshot \<times> scan_stack) result" where
  "scan_entries os rel_parts [] res stack = Inr (res, stack)"
| "scan_entries os rel_parts ((name, node) # es) res stack =
     (if ignored_name name then scan_entries os rel_parts es res stack
      else
        let child_parts = rel_parts @ [name]; rel = join ''/'' child_parts in
        if MAX_TRANSACTION_FILES \<le> length res then
          Inl (tool_failure_with ''TRANSACTION_TOO_LARGE'' ''runtime''
                 [(''max_paths'', JInt (int MAX_TRANSACTION_FILES))])
        else case node of
            SLink t m \<Rightarrow> scan_entries os rel_parts es (dict_set rel (link_entry t m) res) stack
          | SDir m cs \<Rightarrow>
              scan_entries os rel_parts es (dict_set rel (dir_entry m) res) (stack @ [(cs, child_parts)])
          | SOther \<Rightarrow> Inl (tool_failure ''TRANSACTION_UNSAFE_CHANGE'' ''security'')
          | SFile d m \<Rightarrow> scan_entries os rel_parts es (dict_set rel (file_entry os d m) res) stack)"

fun snode_weight :: "snode \<Rightarrow> nat" where
  "snode_weight (SDir m cs) = Suc (sum_list (map (\<lambda>e. Suc (snode_weight (snd e))) cs))"
| "snode_weight _ = 0"

definition listing_weight :: "listing \<Rightarrow> nat" where
  "listing_weight cs = sum_list (map (\<lambda>e. Suc (snode_weight (snd e))) cs)"

definition stack_weight :: "scan_stack \<Rightarrow> nat" where
  "stack_weight st = sum_list (map (\<lambda>e. Suc (listing_weight (fst e))) st)"

lemma snode_weight_SDir: "snode_weight (SDir m cs) = Suc (listing_weight cs)"
  by (simp add: listing_weight_def)

lemma listing_weight_Cons: "listing_weight (e # es) = Suc (snode_weight (snd e)) + listing_weight es"
  by (simp add: listing_weight_def)

lemma stack_weight_append [simp]: "stack_weight (xs @ ys) = stack_weight xs + stack_weight ys"
  by (simp add: stack_weight_def)

lemma scan_entries_weight:
  "scan_entries os rel es res stack = Inr (res', stack') \<Longrightarrow>
   stack_weight stack' \<le> stack_weight stack + listing_weight es"
proof (induction es arbitrary: res stack)
  case (Cons e es)
  obtain name node where e: "e = (name, node)" by (cases e)
  have one: "stack_weight (stack @ [(cs, p)]) = stack_weight stack + Suc (listing_weight cs)" for cs p
    by (simp add: stack_weight_def)
  show ?case
    using Cons.prems unfolding e
    by (cases node)
      (auto simp: Let_def listing_weight_Cons snode_weight_SDir one
        simp del: snode_weight.simps(1) stack_weight_append split: if_splits dest!: Cons.IH)
qed simp

text \<open>\<^verbatim>\<open>while stack: directory, rel_parts = stack.pop()\<close>.\<close>

function scan_loop :: "os \<Rightarrow> snapshot \<Rightarrow> scan_stack \<Rightarrow> snapshot result" where
  "scan_loop os res stack =
     (if stack = [] then Inr res
      else case scan_entries os (snd (last stack)) (fst (last stack)) res (butlast stack) of
          Inl e \<Rightarrow> Inl e
        | Inr (res', stack') \<Rightarrow> scan_loop os res' stack')"
  by pat_completeness auto
termination
proof (relation "measure (\<lambda>(os, res, stack). stack_weight stack)", simp, clarsimp)
  fix os :: os and res res' :: snapshot and stack stack' :: scan_stack
  assume ne: "stack \<noteq> []"
    and run: "scan_entries os (snd (last stack)) (fst (last stack)) res (butlast stack) = Inr (res', stack')"
  have "stack_weight stack = stack_weight (butlast stack) + Suc (listing_weight (fst (last stack)))"
    using ne by (cases stack rule: rev_cases) (auto simp: stack_weight_def)
  with scan_entries_weight [OF run] show "stack_weight stack' < stack_weight stack" by simp
qed

declare scan_loop.simps [simp del]

definition capture_snapshot :: "os \<Rightarrow> listing \<Rightarrow> snapshot result" where
  "capture_snapshot os tree = scan_loop os [] [(tree, [])]"

section \<open>The difference of two snapshots\<close>

definition has_kind :: "string \<Rightarrow> SnapshotEntry option \<Rightarrow> bool" where
  "has_kind k x = (case x of None \<Rightarrow> False | Some e \<Rightarrow> se_kind e = k)"

definition absent_or_dir :: "SnapshotEntry option \<Rightarrow> bool" where
  "absent_or_dir x = (case x of None \<Rightarrow> True | Some e \<Rightarrow> se_kind e = ''dir'')"

type_synonym raw_change = "string \<times> SnapshotEntry option \<times> SnapshotEntry option"

fun diff_loop :: "snapshot \<Rightarrow> snapshot \<Rightarrow> string list \<Rightarrow> raw_change list result" where
  "diff_loop before after [] = Inr []"
| "diff_loop before after (rel # rels) =
     (let b = map_of before rel; c = map_of after rel in
      if b = c then diff_loop before after rels
      else if has_kind ''symlink'' b \<or> has_kind ''symlink'' c then
        Inl (tool_failure_with ''TRANSACTION_UNSAFE_CHANGE'' ''security'' [(''path'', JStr rel)])
      else if b \<noteq> None \<and> c \<noteq> None \<and> se_kind (the b) \<noteq> se_kind (the c) then
        Inl (tool_failure_with ''TRANSACTION_UNSAFE_CHANGE'' ''security''
               [(''path'', JStr rel), (''before'', JStr (se_kind (the b))),
                (''after'', JStr (se_kind (the c)))])
      else if absent_or_dir b \<and> absent_or_dir c then diff_loop before after rels
      else rbind (diff_loop before after rels) (\<lambda>raw. Inr ((rel, b, c) # raw)))"

definition diff_keys :: "snapshot \<Rightarrow> snapshot \<Rightarrow> string list" where
  "diff_keys before after = sort (remdups (keys before @ keys after))"

definition diff_entries :: "snapshot \<Rightarrow> snapshot \<Rightarrow> raw_change list result" where
  "diff_entries before after =
     rbind (diff_loop before after (diff_keys before after)) (\<lambda>raw.
       if MAX_TRANSACTION_CHANGED_FILES < length raw then
         Inl (tool_failure_with ''TRANSACTION_TOO_LARGE'' ''runtime''
                [(''changed_files'', JInt (int (length raw))),
                 (''max_changed_files'', JInt (int MAX_TRANSACTION_CHANGED_FILES))])
       else Inr raw)"

section \<open>Preparing and finishing a transaction\<close>

text \<open>
  What the transaction reads from its surroundings: the unified diff of two texts (with the two
  header names), the caller's path check, and the decoder that ignores malformed bytes.
\<close>

record tx_env =
  te_unified_diff :: "pytext \<Rightarrow> pytext \<Rightarrow> string \<Rightarrow> string \<Rightarrow> pytext"
  te_validate :: "string \<Rightarrow> unit result"
  te_decode_ignore :: "bytes \<Rightarrow> pytext"

record ExecutionTransaction =
  tx_root :: path
  tx_before :: snapshot

fun tree_node :: "listing \<Rightarrow> string list \<Rightarrow> snode option" where
  "tree_node cs [] = None"
| "tree_node cs [n] = map_of cs n"
| "tree_node cs (n # m # ns) =
     (case map_of cs n of Some (SDir _ cs') \<Rightarrow> tree_node cs' (m # ns) | _ \<Rightarrow> None)"

definition tree_read :: "listing \<Rightarrow> string list \<Rightarrow> bytes result" where
  "tree_read cs parts =
     (case tree_node cs parts of
        Some (SFile d _) \<Rightarrow> Inr d
      | None \<Rightarrow> Inl FileNotFoundError
      | _ \<Rightarrow> Inl OSError)"

record prep_state =
  ps_staged :: "StagedFile list"
  ps_summary :: "TransactionChange list"
  ps_diff_parts :: "pytext list"
  ps_apply_bytes :: nat
  ps_diff_bytes :: nat

definition change_baseline :: "SnapshotEntry option \<Rightarrow> FileBaseline result" where
  "change_baseline before =
     (case before of
        None \<Rightarrow> Inr \<lparr>fb_data = None, fb_mode = None, fb_digest = None\<rparr>
      | Some b \<Rightarrow>
          if se_kind b = ''file''
          then Inr \<lparr>fb_data = Some [], fb_mode = se_mode b, fb_digest = se_digest b\<rparr>
          else Inl AssertionError)"

definition change_operation :: "SnapshotEntry option \<Rightarrow> SnapshotEntry option \<Rightarrow> string" where
  "change_operation before after =
     (if before = None then ''create'' else if after = None then ''delete'' else ''update'')"

text \<open>The staged content of a path, the mode, and the byte budget after it.\<close>

definition change_content ::
    "listing \<Rightarrow> string \<Rightarrow> SnapshotEntry option \<Rightarrow> nat \<Rightarrow> (bytes option \<times> nat option \<times> nat) result" where
  "change_content tree rel after apply_bytes =
     (case after of
        None \<Rightarrow> Inr (None, None, apply_bytes)
      | Some a \<Rightarrow>
          if se_kind a \<noteq> ''file'' then
            Inl (tool_failure ''TRANSACTION_UNSAFE_CHANGE'' ''security'')
          else rbind (tree_read tree (split_on CHR ''/'' rel)) (\<lambda>content.
            let total = apply_bytes + length content in
            if MAX_TRANSACTION_APPLY_BYTES < total then
              Inl (tool_failure_with ''TRANSACTION_TOO_LARGE'' ''runtime''
                     [(''apply_bytes'', JInt (int total)),
                      (''max_apply_bytes'', JInt (int MAX_TRANSACTION_APPLY_BYTES))])
            else Inr (Some content, se_mode a, total)))"

definition read_before :: "os \<Rightarrow> SnapshotEntry option \<Rightarrow> path \<Rightarrow> (bytes, 'z) io" where
  "read_before os before p w =
     (if before \<noteq> None \<and> file_at (w_fs w) p \<noteq> None then
        io_catch (io_bind (syscall os (fs_read p)) (\<lambda>dm. io_return (fst dm))) (\<lambda>_. io_return []) w
      else io_return [] w)"

definition str_text :: "string \<Rightarrow> pytext" where
  "str_text s = map of_char s"

text \<open>One part of the textual diff and the number of bytes it uses.\<close>

definition diff_part ::
    "tx_env \<Rightarrow> string \<Rightarrow> string \<Rightarrow> nat \<Rightarrow> bytes \<Rightarrow> bytes \<Rightarrow> nat \<Rightarrow> pytext \<times> nat" where
  "diff_part env rel op sz before_bytes after_bytes diff_bytes =
     (case (py_decode before_bytes, py_decode after_bytes) of
        (Inr before_text, Inr after_text) \<Rightarrow>
          (let part = te_unified_diff env before_text after_text (''a/'' @ rel) (''b/'' @ rel);
               encoded = utf8 part;
               remaining = MAX_TRANSACTION_DIFF_BYTES - diff_bytes in
           if remaining < length encoded then
             (te_decode_ignore env (take remaining encoded) @
                str_text (CHR 0x0A # ''... transaction diff truncated ...'' @ [CHR 0x0A]), remaining)
           else (part, length encoded))
      | _ \<Rightarrow> (str_text (''Binary change: '' @ rel @ '' ('' @ op @ '', '' @ nat_str sz @ '' bytes)'' @ [CHR 0x0A]), 0))"

definition prepare_one ::
    "os \<Rightarrow> tx_env \<Rightarrow> ExecutionTransaction \<Rightarrow> listing \<Rightarrow> raw_change \<Rightarrow> prep_state \<Rightarrow> (prep_state, 'z) io" where
  "prepare_one os env tx tree change st =
     (case change of (rel, before, after) \<Rightarrow>
      case te_validate env rel of
        Inl e \<Rightarrow> io_raise e
      | Inr _ \<Rightarrow>
      (case change_baseline before of
         Inl e \<Rightarrow> io_raise e
       | Inr baseline \<Rightarrow>
      (case change_content tree rel after (ps_apply_bytes st) of
         Inl e \<Rightarrow> io_raise e
       | Inr (content, mode, apply_bytes) \<Rightarrow>
           let authoritative = tx_root tx @ split_on CHR ''/'' rel;
               op = change_operation before after;
               sz = (case content of None \<Rightarrow> 0 | Some d \<Rightarrow> length d);
               staged = \<lparr>sf_display = rel, sf_path = authoritative,
                         sf_content = map_option CBytes content, sf_baseline = baseline, sf_mode = mode\<rparr>;
               st' = st\<lparr>ps_staged := ps_staged st @ [staged],
                        ps_summary := ps_summary st @
                          [\<lparr>tc_path = rel, tc_operation = op, tc_bytes = sz, tc_mode = mode\<rparr>],
                        ps_apply_bytes := apply_bytes\<rparr> in
           if ps_diff_bytes st < MAX_TRANSACTION_DIFF_BYTES then
             io_bind (read_before os before authoritative) (\<lambda>before_bytes.
               case diff_part env rel op sz before_bytes (case content of None \<Rightarrow> [] | Some d \<Rightarrow> d)
                      (ps_diff_bytes st) of
                 (part, n) \<Rightarrow>
                   io_return (st'\<lparr>ps_diff_parts := ps_diff_parts st @ [part],
                                  ps_diff_bytes := ps_diff_bytes st + n\<rparr>))
           else io_return st')))"

fun prepare_loop ::
    "os \<Rightarrow> tx_env \<Rightarrow> ExecutionTransaction \<Rightarrow> listing \<Rightarrow> raw_change list \<Rightarrow> prep_state \<Rightarrow> (prep_state, 'z) io" where
  "prepare_loop os env tx tree [] st w = (Inr st, w)"
| "prepare_loop os env tx tree (c # cs) st w =
     io_bind (prepare_one os env tx tree c st) (prepare_loop os env tx tree cs) w"

definition prep_start :: prep_state where
  "prep_start =
     \<lparr>ps_staged = [], ps_summary = [], ps_diff_parts = [], ps_apply_bytes = 0, ps_diff_bytes = 0\<rparr>"

definition prepare :: "os \<Rightarrow> tx_env \<Rightarrow> ExecutionTransaction \<Rightarrow> listing \<Rightarrow> (prep_state, 'z) io" where
  "prepare os env tx tree =
     (case rbind (capture_snapshot os tree) (diff_entries (tx_before tx)) of
        Inl e \<Rightarrow> io_raise e
      | Inr raw \<Rightarrow> prepare_loop os env tx tree raw prep_start)"

record tx_payload =
  tp_status :: string
  tp_changed_files :: "TransactionChange list"
  tp_diff :: pytext

text \<open>
  The \<^verbatim>\<open>cause\<close> detail of the source is \<^verbatim>\<open>str(exc)\<close>, the prose message, since \<^verbatim>\<open>ToolFailure\<close> has no
  \<^verbatim>\<open>to_dict\<close>: the structured details of the cause, with the preserved backups, do not get through.
\<close>

definition transaction_conflict :: "ToolFailure \<Rightarrow> pyexn" where
  "transaction_conflict f =
     Tool \<lparr>tf_code = ''TRANSACTION_CONFLICT'', tf_category = ''conflict'',
           tf_retryable = tf_retryable f, tf_details = []\<rparr>"

definition commit_failure :: "pyexn \<Rightarrow> pyexn" where
  "commit_failure e =
     (case e of
        Tool f \<Rightarrow> (if tf_code f \<in> {''PATCH_CONFLICT'', ''PATCH_ROLLBACK_FAILED''}
                   then transaction_conflict f else e)
      | _ \<Rightarrow> e)"

definition finish :: "os \<Rightarrow> tx_env \<Rightarrow> ExecutionTransaction \<Rightarrow> listing \<Rightarrow> bool \<Rightarrow> tx_payload commit" where
  "finish os env tx tree apply =
     io_bind (prepare os env tx tree) (\<lambda>st.
       let payload = (\<lambda>status. \<lparr>tp_status = status, tp_changed_files = ps_summary st,
                                tp_diff = concat (ps_diff_parts st)\<rparr>) in
       if \<not> apply then io_return (payload ''discarded'')
       else if ps_staged st = [] then io_return (payload ''unchanged'')
       else io_catch (io_bind (commit os (ps_staged st)) (\<lambda>_. io_return (payload ''applied'')))
              (\<lambda>e. io_raise (commit_failure e)))"

section \<open>The snapshot lists the tree\<close>

text \<open>The entries of a tree, by path, in the order of the directories.\<close>

fun tree_entries :: "os \<Rightarrow> string list \<Rightarrow> listing \<Rightarrow> (string list \<times> SnapshotEntry) list" where
  "tree_entries os rel [] = []"
| "tree_entries os rel ((n, node) # es) =
     (if ignored_name n then []
      else (case node of
          SFile d m \<Rightarrow> [(rel @ [n], file_entry os d m)]
        | SDir m cs \<Rightarrow> (rel @ [n], dir_entry m) # tree_entries os (rel @ [n]) cs
        | SLink t m \<Rightarrow> [(rel @ [n], link_entry t m)]
        | SOther \<Rightarrow> []))
     @ tree_entries os rel es"

fun supported :: "listing \<Rightarrow> bool" where
  "supported [] = True"
| "supported ((n, node) # es) =
     ((ignored_name n \<or> (case node of SDir _ cs \<Rightarrow> supported cs | SOther \<Rightarrow> False | _ \<Rightarrow> True)) \<and>
      supported es)"

definition named :: "(string list \<times> SnapshotEntry) list \<Rightarrow> snapshot" where
  "named xs = map (\<lambda>e. (join ''/'' (fst e), snd e)) xs"

definition pending :: "os \<Rightarrow> scan_stack \<Rightarrow> (string list \<times> SnapshotEntry) list" where
  "pending os st = concat (map (\<lambda>e. tree_entries os (snd e) (fst e)) st)"

lemma named_append [simp]: "named (xs @ ys) = named xs @ named ys"
  by (simp add: named_def)

lemma pending_append [simp]: "pending os (xs @ ys) = pending os xs @ pending os ys"
  by (simp add: pending_def)

text \<open>Everything found or still to be found: the quantity that the scan keeps.\<close>

definition scan_total :: "os \<Rightarrow> snapshot \<Rightarrow> string list \<Rightarrow> listing \<Rightarrow> scan_stack \<Rightarrow> (string \<times> SnapshotEntry) multiset" where
  "scan_total os res rel es st =
     mset res + mset (named (tree_entries os rel es)) + mset (named (pending os st))"

definition unique_keys :: "(string \<times> SnapshotEntry) multiset \<Rightarrow> bool" where
  "unique_keys M \<longleftrightarrow> (\<forall>k. count (image_mset fst M) k \<le> 1)"

lemma scan_total_found:
  assumes "unique_keys (scan_total os res rel ((n, node) # es) st)"
    and "\<not> ignored_name n" "node \<noteq> SOther"
  shows "join ''/'' (rel @ [n]) \<notin> fst ` set res"
proof
  let ?k = "join ''/'' (rel @ [n])"
  assume "?k \<in> fst ` set res"
  then have "?k \<in># image_mset fst (mset res)" by simp
  then have "1 \<le> count (image_mset fst (mset res)) ?k"
    by (simp only: count_greater_eq_one_iff)
  moreover have "1 \<le> count (image_mset fst (mset (named (tree_entries os rel ((n, node) # es))))) ?k"
    using assms(2,3) by (cases node) (auto simp: named_def)
  ultimately have "2 \<le> count (image_mset fst (scan_total os res rel ((n, node) # es) st)) ?k"
    unfolding scan_total_def image_mset_union count_union by linarith
  with assms(1) [unfolded unique_keys_def, rule_format, of ?k] show False by linarith
qed

lemma scan_entries_total:
  assumes "scan_entries os rel es res st = Inr (res', st')"
    and "unique_keys (scan_total os res rel es st)"
  shows "mset res' + mset (named (pending os st')) = scan_total os res rel es st"
  using assms
proof (induction es arbitrary: res st)
  case Nil
  then show ?case by (simp add: scan_total_def named_def)
next
  case (Cons e es)
  obtain n node where e: "e = (n, node)" by (cases e)
  show ?case
  proof (cases "ignored_name n")
    case True
    then have "scan_total os res rel (e # es) st = scan_total os res rel es st"
      by (simp add: scan_total_def e)
    with True Cons show ?thesis by (simp add: e)
  next
    case False
    have ne: "node \<noteq> SOther" using Cons.prems(1) False by (auto simp: e Let_def split: if_splits)
    note new = dict_set_new [OF scan_total_found [OF Cons.prems(2) [unfolded e] False ne]]
    let ?k = "join ''/'' (rel @ [n])"
    show ?thesis
    proof (cases node)
      case (SFile d m)
      have "scan_total os res rel (e # es) st = scan_total os (res @ [(?k, file_entry os d m)]) rel es st"
        using False by (simp add: scan_total_def e SFile named_def)
      with Cons False SFile new show ?thesis by (auto simp: e Let_def split: if_splits)
    next
      case (SDir m cs)
      have "scan_total os res rel (e # es) st =
          scan_total os (res @ [(?k, dir_entry m)]) rel es (st @ [(cs, rel @ [n])])"
        using False by (simp add: scan_total_def e SDir named_def pending_def)
      with Cons False SDir new show ?thesis by (auto simp: e Let_def split: if_splits)
    next
      case (SLink t m)
      have "scan_total os res rel (e # es) st = scan_total os (res @ [(?k, link_entry t m)]) rel es st"
        using False by (simp add: scan_total_def e SLink named_def)
      with Cons False SLink new show ?thesis by (auto simp: e Let_def split: if_splits)
    qed (use ne in simp)
  qed
qed

lemma scan_loop_total:
  "scan_loop os res st = Inr d \<Longrightarrow>
   unique_keys (mset res + mset (named (pending os st))) \<Longrightarrow>
   mset d = mset res + mset (named (pending os st))"
proof (induction os res st rule: scan_loop.induct)
  case (1 os res st)
  show ?case
  proof (cases "st = []")
    case True
    with 1(2) show ?thesis by (simp add: scan_loop.simps pending_def named_def)
  next
    case False
    obtain res' st' where s: "scan_entries os (snd (last st)) (fst (last st)) res (butlast st) = Inr (res', st')"
      and l: "scan_loop os res' st' = Inr d"
      using 1(2) False by (subst (asm) scan_loop.simps) (auto split: sum.splits)
    have t: "scan_total os res (snd (last st)) (fst (last st)) (butlast st) =
        mset res + mset (named (pending os st))"
      using False by (cases st rule: rev_cases) (auto simp: scan_total_def pending_def)
    have e: "mset res' + mset (named (pending os st')) = mset res + mset (named (pending os st))"
      using scan_entries_total [OF s] 1(3) t by simp
    show ?thesis using 1(1) [OF False s _ l] 1(3) e by simp
  qed
qed

text \<open>A directory has one entry per name, and no name contains a slash.\<close>

fun tree_ok :: "listing \<Rightarrow> bool" where
  "tree_ok [] = True"
| "tree_ok ((n, node) # es) =
     (CHR ''/'' \<notin> set n \<and> n \<notin> fst ` set es \<and> (case node of SDir _ cs \<Rightarrow> tree_ok cs | _ \<Rightarrow> True) \<and>
      tree_ok es)"

definition node_entry :: "os \<Rightarrow> snode \<Rightarrow> SnapshotEntry option" where
  "node_entry os node =
     (case node of
        SFile d m \<Rightarrow> Some (file_entry os d m)
      | SDir m _ \<Rightarrow> Some (dir_entry m)
      | SLink t m \<Rightarrow> Some (link_entry t m)
      | SOther \<Rightarrow> None)"

definition visible :: "os \<Rightarrow> listing \<Rightarrow> string list \<Rightarrow> SnapshotEntry option" where
  "visible os cs parts =
     (if list_ex ignored_name parts then None else Option.bind (tree_node cs parts) (node_entry os))"

lemma visible_simps [simp]:
  "visible os cs [] = None"
  "visible os cs [n] = (if ignored_name n then None else Option.bind (map_of cs n) (node_entry os))"
  "visible os cs (n # m # ns) =
     (if ignored_name n then None
      else case map_of cs n of Some (SDir _ cs') \<Rightarrow> visible os cs' (m # ns) | _ \<Rightarrow> None)"
  by (auto simp: visible_def split: option.splits snode.splits)

lemma tree_entries_prefix:
  "e \<in> set (tree_entries os rel es) \<Longrightarrow> \<exists>n ns. fst e = rel @ n # ns \<and> n \<in> fst ` set es"
proof (induction os rel es arbitrary: e rule: tree_entries.induct)
  case (2 os rel n node es)
  show ?case
  proof (cases "e \<in> set (tree_entries os rel es)")
    case True
    with 2(2) [of e] show ?thesis by auto
  next
    case False
    with 2(1,3) show ?thesis by (cases node) (auto split: if_splits dest!: 2(1))
  qed
qed simp

lemma tree_entries_visible:
  "tree_ok es \<Longrightarrow> (rel @ ns, e) \<in> set (tree_entries os rel es) \<longleftrightarrow> visible os es ns = Some e"
proof (induction os rel es arbitrary: ns rule: tree_entries.induct)
  case (1 os rel)
  then show ?case by (cases "(([] :: listing), ns)" rule: tree_node.cases) simp_all
next
  case (2 os rel n node es)
  have rest: "(rel @ ns, e) \<in> set (tree_entries os rel es) \<longleftrightarrow> visible os es ns = Some e"
    using 2 by simp
  have nin: "n \<notin> fst ` set es" using 2(3) by simp
  show ?case
  proof (cases ns)
    case Nil
    have "(rel, e) \<notin> set (tree_entries os rel' es)" if "length rel \<le> length rel'" for rel' es
      using tree_entries_prefix [of "(rel, e)" os rel' es] that by auto
    with Nil show ?thesis by (auto split: snode.splits if_splits)
  next
    case (Cons k ks)
    show ?thesis
    proof (cases "k = n")
      case True
      then have "map_of es k = None" using nin by (simp add: map_of_eq_None_iff)
      then have no: "visible os es ns = None"
        using Cons by (cases ks) auto
      have sub: "(rel @ n # ks, e) \<in> set (tree_entries os (rel @ [n]) cs) \<longleftrightarrow> visible os cs ks = Some e"
        if "node = SDir m cs" "\<not> ignored_name n" for m cs
        using 2(1) [OF that(2,1), of ks] 2(3) that by simp
      show ?thesis
        using rest no True Cons sub by (cases node; cases ks) (auto simp: node_entry_def)
    next
      case False
      have "(rel @ k # ks, e) \<notin> set (tree_entries os (rel @ [n]) cs)" for cs
        using tree_entries_prefix [of "(rel @ k # ks, e)" os "rel @ [n]" cs] False by auto
      moreover have "visible os ((n, node) # es) ns = visible os es ns"
        using False Cons by (cases ks) auto
      ultimately show ?thesis using rest False Cons by (cases node) auto
    qed
  qed
qed

lemma tree_entries_distinct: "tree_ok es \<Longrightarrow> distinct (map fst (tree_entries os rel es))"
proof (induction os rel es rule: tree_entries.induct)
  case (2 os rel n node es)
  have nin: "n \<notin> fst ` set es" using 2(3) by simp
  have apart: "ps \<notin> fst ` set (tree_entries os rel es)" if "ps = rel @ n # ns" for ps ns
    using tree_entries_prefix [of _ os rel es] nin that by fastforce
  have sub: "fst e \<noteq> rel @ [n] \<and> (\<exists>ns. fst e = rel @ n # ns)"
    if "e \<in> set (tree_entries os (rel @ [n]) cs)" for e cs
    using tree_entries_prefix [OF that] by auto
  show ?case
  proof (cases node)
    case (SDir m cs)
    have "fst ` set (tree_entries os (rel @ [n]) cs) \<inter> fst ` set (tree_entries os rel es) = {}"
      using sub apart by blast
    moreover have "rel @ [n] \<notin> fst ` set (tree_entries os (rel @ [n]) cs)"
    proof
      assume "rel @ [n] \<in> fst ` set (tree_entries os (rel @ [n]) cs)"
      then obtain e where "e \<in> set (tree_entries os (rel @ [n]) cs)" "fst e = rel @ [n]" by auto
      with sub show False by blast
    qed
    moreover have "rel @ [n] \<notin> fst ` set (tree_entries os rel es)" using apart by blast
    ultimately show ?thesis using 2 SDir by auto
  qed (use 2 apart in auto)
qed simp

lemma tree_entries_names:
  "tree_ok es \<Longrightarrow> e \<in> set (tree_entries os rel es) \<Longrightarrow> \<forall>n \<in> set rel. CHR ''/'' \<notin> set n \<Longrightarrow>
   \<forall>n \<in> set (fst e). CHR ''/'' \<notin> set n"
proof (induction os rel es rule: tree_entries.induct)
  case (2 os rel n node es)
  then show ?case by (cases node) (auto split: if_splits)
qed simp

lemma join_slash_inj:
  assumes "xs \<noteq> []" "ys \<noteq> []" "\<forall>n \<in> set xs. c \<notin> set n" "\<forall>n \<in> set ys. c \<notin> set n"
    and "join [c] xs = join [c] ys"
  shows "xs = ys"
  using assms split_on_join by metis

lemma count_distinct: "distinct xs \<Longrightarrow> count (mset xs) k \<le> 1"
  using distinct_count_atmost_1 [of xs] by auto

lemma capture_snapshot_mset:
  assumes "tree_ok tree" "capture_snapshot os tree = Inr d"
  shows "mset d = mset (named (tree_entries os [] tree))" and "dict_ok d"
proof -
  let ?E = "tree_entries os [] tree"
  have "inj_on (\<lambda>e. join ''/'' (fst e)) (set ?E)"
  proof (rule inj_onI)
    fix x y assume x: "x \<in> set ?E" and y: "y \<in> set ?E" and j: "join ''/'' (fst x) = join ''/'' (fst y)"
    have "fst x = fst y"
      using tree_entries_prefix [OF x] tree_entries_prefix [OF y]
        tree_entries_names [OF assms(1) x] tree_entries_names [OF assms(1) y]
      by (intro join_slash_inj [OF _ _ _ _ j]) auto
    with x y tree_entries_distinct [OF assms(1), of os "[]"] show "x = y"
      by (metis eq_key_imp_eq_value prod.collapse)
  qed
  then have dist: "distinct (map fst (named ?E))"
    using tree_entries_distinct [OF assms(1), of os "[]"] by (auto simp: named_def distinct_map comp_def)
  have u: "unique_keys (mset [] + mset (named (pending os [(tree, [])])))"
  proof -
    have "count (mset (map fst (named ?E))) k \<le> 1" for k using count_distinct [OF dist] .
    then show ?thesis by (simp add: unique_keys_def pending_def)
  qed
  show m: "mset d = mset (named ?E)"
    using scan_loop_total [OF assms(2) [unfolded capture_snapshot_def] u] by (simp add: pending_def)
  show "dict_ok d" using dist m unfolding dict_ok_def by (metis mset_map mset_eq_imp_distinct_iff)
qed

lemma scan_entries_returns:
  assumes "supported es" "length res + length (tree_entries os rel es) + length (pending os st) \<le> MAX_TRANSACTION_FILES"
    and "list_all (\<lambda>e. supported (fst e)) st"
  shows "\<exists>res' st'. scan_entries os rel es res st = Inr (res', st') \<and>
    length res' + length (pending os st') \<le> MAX_TRANSACTION_FILES \<and> list_all (\<lambda>e. supported (fst e)) st'"
  using assms
proof (induction es arbitrary: res st)
  case (Cons e es)
  obtain n node where e: "e = (n, node)" by (cases e)
  have le: "length (dict_set k v res) \<le> Suc (length res)" for k v by (simp add: length_dict_set)
  show ?case
  proof (cases "ignored_name n")
    case True
    with Cons show ?thesis by (simp add: e)
  next
    case False
    have sup: "supported es" using Cons.prems(1) by (simp add: e)
    note IH = Cons.IH [OF sup]
    show ?thesis
    proof (cases node)
      case (SFile d m)
      with False Cons.prems IH [of "dict_set (join ''/'' (rel @ [n])) (file_entry os d m) res" st]
        le [of "join ''/'' (rel @ [n])" "file_entry os d m"]
      show ?thesis by (simp add: e Let_def)
    next
      case (SLink t m)
      with False Cons.prems IH [of "dict_set (join ''/'' (rel @ [n])) (link_entry t m) res" st]
        le [of "join ''/'' (rel @ [n])" "link_entry t m"]
      show ?thesis by (simp add: e Let_def)
    next
      case (SDir m cs)
      with False Cons.prems
        IH [of "dict_set (join ''/'' (rel @ [n])) (dir_entry m) res" "st @ [(cs, rel @ [n])]"]
        le [of "join ''/'' (rel @ [n])" "dir_entry m"]
      show ?thesis by (simp add: e Let_def pending_def)
    next
      case SOther
      with Cons.prems(1) False show ?thesis by (simp add: e)
    qed
  qed
qed simp

lemma scan_loop_returns:
  "length res + length (pending os st) \<le> MAX_TRANSACTION_FILES \<Longrightarrow> list_all (\<lambda>e. supported (fst e)) st \<Longrightarrow>
   \<exists>d. scan_loop os res st = Inr d"
proof (induction os res st rule: scan_loop.induct)
  case (1 os res st)
  show ?case
  proof (cases "st = []")
    case True
    then show ?thesis by (simp add: scan_loop.simps)
  next
    case False
    then obtain st0 cs rel where st: "st = st0 @ [(cs, rel)]" by (cases st rule: rev_cases) auto
    obtain res' st' where s: "scan_entries os rel cs res st0 = Inr (res', st')"
      and p: "length res' + length (pending os st') \<le> MAX_TRANSACTION_FILES"
        "list_all (\<lambda>e. supported (fst e)) st'"
      using scan_entries_returns [of cs res os rel st0] 1(2,3) by (auto simp: st pending_def)
    obtain d where "scan_loop os res' st' = Inr d"
      using 1(1) [OF False, of "(res', st')" res' st'] s p by (auto simp: st)
    with s False show ?thesis by (subst scan_loop.simps) (simp add: st)
  qed
qed

text \<open>
  The snapshot of a tree is exactly its visible content.  A tree of files, directories and
  links with at most \<^verbatim>\<open>MAX_TRANSACTION_FILES\<close> visible entries is captured without an error, and
  the snapshot then maps the slash-joined name of every path to the entry of the node there (hash,
  mode and size of a file, mode of a directory, target of a link), and to nothing when there is no
  node or when a component of the path is \<^verbatim>\<open>.git\<close> or starts with \<^verbatim>\<open>.devmcp-\<close>.
\<close>

theorem capture_snapshot_correct:
  assumes "tree_ok tree" "supported tree" "length (tree_entries os [] tree) \<le> MAX_TRANSACTION_FILES"
  shows "\<exists>d. capture_snapshot os tree = Inr d \<and> dict_ok d \<and>
    (\<forall>parts. parts \<noteq> [] \<longrightarrow> list_all (\<lambda>n. CHR ''/'' \<notin> set n) parts \<longrightarrow>
       map_of d (join ''/'' parts) = visible os tree parts)"
proof -
  obtain d where d: "capture_snapshot os tree = Inr d"
    using scan_loop_returns [of "[]" os "[(tree, [])]"] assms(2,3)
    by (auto simp: capture_snapshot_def pending_def)
  note m = capture_snapshot_mset [OF assms(1) d]
  have "map_of d (join ''/'' parts) = visible os tree parts"
    if parts: "parts \<noteq> []" "list_all (\<lambda>n. CHR ''/'' \<notin> set n) parts" for parts
  proof -
    have "map_of d (join ''/'' parts) = Some e \<longleftrightarrow> visible os tree parts = Some e" for e
    proof -
      have "map_of d (join ''/'' parts) = Some e \<longleftrightarrow> (join ''/'' parts, e) \<in> set d"
        using m(2) by (simp add: dict_ok_def)
      also have "\<dots> \<longleftrightarrow> (\<exists>x \<in> set (tree_entries os [] tree). join ''/'' (fst x) = join ''/'' parts \<and> snd x = e)"
        using mset_eq_setD [OF m(1)] by (force simp: named_def)
      also have "\<dots> \<longleftrightarrow> (parts, e) \<in> set (tree_entries os [] tree)"
      proof
        assume "\<exists>x \<in> set (tree_entries os [] tree). join ''/'' (fst x) = join ''/'' parts \<and> snd x = e"
        then obtain x where x: "x \<in> set (tree_entries os [] tree)" "join ''/'' (fst x) = join ''/'' parts"
          "snd x = e" by blast
        have "fst x = parts"
          using tree_entries_prefix [OF x(1)] tree_entries_names [OF assms(1) x(1)] parts
          by (intro join_slash_inj [OF _ _ _ _ x(2)]) (auto simp: list_all_iff)
        with x show "(parts, e) \<in> set (tree_entries os [] tree)" by (metis prod.collapse)
      qed force
      also have "\<dots> \<longleftrightarrow> visible os tree parts = Some e"
        using tree_entries_visible [OF assms(1), of "[]" parts e os] by simp
      finally show ?thesis .
    qed
    then show ?thesis by (cases "visible os tree parts"; cases "map_of d (join ''/'' parts)") auto
  qed
  with d m(2) show ?thesis by blast
qed

definition demo_tree :: listing where
  "demo_tree = [(''.git'', SDir 5 []), (''d'', SDir 5 [(''b'', SFile [3] 4)]), (''a'', SFile [1] 4)]"

theorem capture_snapshot_correct_witness:
  "\<exists>d. capture_snapshot (demo_os (\<lambda>n. False)) demo_tree = Inr d \<and>
     map_of d ''d/b'' = Some (file_entry (demo_os (\<lambda>n. False)) [3] 4) \<and> map_of d ''.git'' = None"
proof -
  let ?os = "demo_os (\<lambda>n. False)"
  have ok: "tree_ok demo_tree" "supported demo_tree" by code_simp+
  have len: "length (tree_entries ?os [] demo_tree) \<le> MAX_TRANSACTION_FILES"
    by (simp add: demo_tree_def ignored_name_def startswith_def MAX_TRANSACTION_FILES_def)
  obtain d where d: "capture_snapshot ?os demo_tree = Inr d"
    and m: "\<And>parts. parts \<noteq> [] \<Longrightarrow> list_all (\<lambda>n. CHR ''/'' \<notin> set n) parts \<Longrightarrow>
       map_of d (join ''/'' parts) = visible ?os demo_tree parts"
    using capture_snapshot_correct [OF ok len] by blast
  show ?thesis
    using d m [of "[''d'', ''b'']"] m [of "[''.git'']"]
    by (auto simp: demo_tree_def node_entry_def ignored_name_def startswith_def)
qed

section \<open>The staged changes\<close>

text \<open>A path whose file was created, updated or deleted between the two snapshots.\<close>

definition tx_changed :: "snapshot \<Rightarrow> snapshot \<Rightarrow> string \<Rightarrow> bool" where
  "tx_changed before after rel \<longleftrightarrow>
     map_of before rel \<noteq> map_of after rel \<and>
     \<not> (absent_or_dir (map_of before rel) \<and> absent_or_dir (map_of after rel))"

lemma diff_loop_Inr:
  "diff_loop before after rels = Inr raw \<Longrightarrow>
   raw = map (\<lambda>rel. (rel, map_of before rel, map_of after rel)) (filter (tx_changed before after) rels)"
  by (induction rels arbitrary: raw)
    (auto simp: Let_def tx_changed_def result_simps split: if_splits)

lemma diff_entries_Inr:
  assumes "diff_entries before after = Inr raw"
  shows "raw = map (\<lambda>rel. (rel, map_of before rel, map_of after rel))
      (filter (tx_changed before after) (diff_keys before after))"
  using assms diff_loop_Inr by (auto simp: diff_entries_def result_simps split: if_splits)

lemma diff_keys_changed: "tx_changed before after rel \<Longrightarrow> rel \<in> set (diff_keys before after)"
  by (auto simp: tx_changed_def diff_keys_def keys_def absent_or_dir_def image_iff split: option.splits
      dest!: map_of_SomeD) force+

lemma diff_keys_distinct: "distinct (diff_keys before after)"
  by (simp add: diff_keys_def)

text \<open>How a staged file reflects one raw change.\<close>

definition stages :: "ExecutionTransaction \<Rightarrow> listing \<Rightarrow> raw_change \<Rightarrow> StagedFile \<Rightarrow> bool" where
  "stages tx tree c sf \<longleftrightarrow>
     (case c of (rel, before, after) \<Rightarrow>
        sf_display sf = rel \<and> sf_path sf = tx_root tx @ split_on CHR ''/'' rel \<and>
        change_baseline before = Inr (sf_baseline sf) \<and>
        (case after of
           None \<Rightarrow> sf_content sf = None
         | Some a \<Rightarrow> \<exists>d. tree_read tree (split_on CHR ''/'' rel) = Inr d \<and>
             sf_content sf = Some (CBytes d) \<and> sf_mode sf = se_mode a))"

lemma read_before_keeps:
  "read_before os before p w = (r, w') \<Longrightarrow> \<exists>n. w' = w\<lparr>w_calls := n\<rparr> \<and> isl r = False"
  unfolding read_before_def io_catch_def io_bind_def io_return_def syscall_def fs_read_def Let_def
  by (auto split: if_splits prod.splits sum.splits option.splits node.splits)
    (metis world.surjective world.update_convs(2))+

lemma w_calls_same: "\<exists>n. w = w\<lparr>w_calls := n\<rparr>"
  by (rule exI [of _ "w_calls w"]) simp

lemma change_content_Inr:
  assumes "change_content tree rel after n = Inr (content, mode, budget)"
  shows "case after of None \<Rightarrow> content = None | Some a \<Rightarrow>
      \<exists>d. tree_read tree (split_on CHR ''/'' rel) = Inr d \<and> content = Some d \<and> mode = se_mode a"
  using assms by (auto simp: change_content_def Let_def result_simps split: option.splits if_splits)

lemma prepare_one_result:
  assumes "prepare_one os env tx tree c st w = (r, w')"
  shows "(\<exists>n. w' = w\<lparr>w_calls := n\<rparr>) \<and>
    (\<forall>st'. r = Inr st' \<longrightarrow> (\<exists>sf. ps_staged st' = ps_staged st @ [sf] \<and> stages tx tree c sf))"
proof -
  obtain rel before after where c: "c = (rel, before, after)" by (cases c) auto
  show ?thesis
  proof (cases "te_validate env rel")
    case (Inl e)
    with assms w_calls_same show ?thesis by (auto simp: prepare_one_def c io_raise_def)
  next
    case v: (Inr u)
    show ?thesis
    proof (cases "change_baseline before")
      case (Inl e)
      with assms v w_calls_same show ?thesis by (auto simp: prepare_one_def c io_raise_def)
    next
      case b: (Inr baseline)
      show ?thesis
      proof (cases "change_content tree rel after (ps_apply_bytes st)")
        case (Inl e)
        with assms v b w_calls_same show ?thesis by (auto simp: prepare_one_def c io_raise_def)
      next
        case (Inr x)
        obtain content mode budget where x: "x = (content, mode, budget)" by (cases x) auto
        note cc = change_content_Inr [OF Inr [unfolded x]]
        have "stages tx tree c \<lparr>sf_display = rel, sf_path = tx_root tx @ split_on CHR ''/'' rel,
            sf_content = map_option CBytes content, sf_baseline = baseline, sf_mode = mode\<rparr>"
          using cc b by (auto simp: stages_def c split: option.splits)
        moreover obtain r1 w1 where
          rb: "read_before os before (tx_root tx @ split_on CHR ''/'' rel) w = (r1, w1)"
          by (cases "read_before os before (tx_root tx @ split_on CHR ''/'' rel) w")
        ultimately show ?thesis
          using assms v b Inr x read_before_keeps [OF rb] rb w_calls_same [of w]
          by (auto simp: prepare_one_def c Let_def io_bind_def io_return_def
              split: if_splits sum.splits prod.splits)
      qed
    qed
  qed
qed

lemma prepare_loop_result:
  assumes "prepare_loop os env tx tree raw st w = (r, w')"
  shows "(\<exists>n. w' = w\<lparr>w_calls := n\<rparr>) \<and>
    (\<forall>st'. r = Inr st' \<longrightarrow>
       (\<exists>sfs. ps_staged st' = ps_staged st @ sfs \<and> list_all2 (stages tx tree) raw sfs))"
  using assms
proof (induction raw arbitrary: st w)
  case Nil
  then show ?case using w_calls_same [of w] by auto
next
  case (Cons c cs)
  obtain r1 w1 where p: "prepare_one os env tx tree c st w = (r1, w1)"
    by (cases "prepare_one os env tx tree c st w")
  obtain n1 where w1: "w1 = w\<lparr>w_calls := n1\<rparr>" using prepare_one_result [OF p] by blast
  show ?case
  proof (cases r1)
    case (Inl e)
    with Cons.prems p w1 show ?thesis by (auto simp: io_bind_def)
  next
    case (Inr st1)
    then have l: "prepare_loop os env tx tree cs st1 w1 = (r, w')"
      using Cons.prems p by (simp add: io_bind_def)
    obtain sf where sf: "ps_staged st1 = ps_staged st @ [sf]" "stages tx tree c sf"
      using prepare_one_result [OF p] Inr by auto
    show ?thesis using Cons.IH [OF l] w1 sf by fastforce
  qed
qed

lemma prepare_result:
  assumes "prepare os env tx tree w = (r, w')"
  shows "\<exists>n. w' = w\<lparr>w_calls := n\<rparr>"
    and "r = Inr st \<Longrightarrow> capture_snapshot os tree = Inr after \<Longrightarrow>
      list_all2 (stages tx tree)
        (map (\<lambda>rel. (rel, map_of (tx_before tx) rel, map_of after rel))
           (filter (tx_changed (tx_before tx) after) (diff_keys (tx_before tx) after)))
        (ps_staged st)"
proof -
  show "\<exists>n. w' = w\<lparr>w_calls := n\<rparr>"
  proof (cases "rbind (capture_snapshot os tree) (diff_entries (tx_before tx))")
    case (Inl e)
    with assms w_calls_same [of w] show ?thesis by (auto simp: prepare_def io_raise_def)
  next
    case (Inr raw)
    with assms have "prepare_loop os env tx tree raw prep_start w = (r, w')" by (simp add: prepare_def)
    from prepare_loop_result [OF this] show ?thesis by blast
  qed
  assume "r = Inr st" "capture_snapshot os tree = Inr after"
  with assms obtain raw where raw: "diff_entries (tx_before tx) after = Inr raw"
    and l: "prepare_loop os env tx tree raw prep_start w = (Inr st, w')"
    by (auto simp: prepare_def io_raise_def split: sum.splits)
  show "list_all2 (stages tx tree)
        (map (\<lambda>rel. (rel, map_of (tx_before tx) rel, map_of after rel))
           (filter (tx_changed (tx_before tx) after) (diff_keys (tx_before tx) after)))
        (ps_staged st)"
    using prepare_loop_result [OF l] diff_entries_Inr [OF raw] by (auto simp: prep_start_def)
qed

section \<open>What a transaction promises\<close>

definition tx_path :: "ExecutionTransaction \<Rightarrow> string \<Rightarrow> path" where
  "tx_path tx rel = tx_root tx @ split_on CHR ''/'' rel"

lemma tx_path_inj: "tx_path tx rel = tx_path tx rel' \<longleftrightarrow> rel = rel'"
  by (auto simp: tx_path_def) (metis join_split_on)

definition new_file :: "listing \<Rightarrow> snapshot \<Rightarrow> string \<Rightarrow> (bytes \<times> nat) option" where
  "new_file tree after rel =
     (case map_of after rel of
        None \<Rightarrow> None
      | Some a \<Rightarrow> (case tree_read tree (split_on CHR ''/'' rel) of
            Inl _ \<Rightarrow> None
          | Inr d \<Rightarrow> Some (d, install_mode (se_mode a))))"

text \<open>The file that was there is the one the first snapshot recorded.\<close>

definition entry_describes :: "os \<Rightarrow> SnapshotEntry option \<Rightarrow> (bytes \<times> nat) option \<Rightarrow> bool" where
  "entry_describes os before x =
     (case (before, x) of
        (None, None) \<Rightarrow> True
      | (Some b, Some (d, m)) \<Rightarrow> se_digest b = Some (os_sha256 os d) \<and> se_mode b = Some m
      | _ \<Rightarrow> False)"

lemma stages_facts:
  assumes "list_all2 (stages tx tree)
      (map (\<lambda>rel. (rel, map_of before rel, map_of after rel)) rels) staged"
  shows "map sf_path staged = map (tx_path tx) rels"
    and "rel \<in> set rels \<Longrightarrow> \<exists>sf \<in> set staged. sf_path sf = tx_path tx rel \<and>
      stages tx tree (rel, map_of before rel, map_of after rel) sf"
proof -
  show "map sf_path staged = map (tx_path tx) rels"
    using assms by (intro nth_equalityI)
      (auto simp: list_all2_conv_all_nth stages_def tx_path_def split: option.splits)
  show "\<exists>sf \<in> set staged. sf_path sf = tx_path tx rel \<and>
      stages tx tree (rel, map_of before rel, map_of after rel) sf" if "rel \<in> set rels"
    using assms that
    by (auto simp: list_all2_conv_all_nth in_set_conv_nth) (auto simp: stages_def tx_path_def)
qed

lemma staged_baseline:
  assumes "stages tx tree (rel, before, after) sf" "baseline_holds os (sf_baseline sf) x"
  shows "entry_describes os before x"
proof (cases before)
  case None
  then have "sf_baseline sf = \<lparr>fb_data = None, fb_mode = None, fb_digest = None\<rparr>"
    using assms(1) by (auto simp: stages_def change_baseline_def)
  with assms(2) None show ?thesis
    by (auto simp: baseline_holds_def entry_describes_def split: option.splits)
next
  case (Some b)
  then have "sf_baseline sf = \<lparr>fb_data = Some [], fb_mode = se_mode b, fb_digest = se_digest b\<rparr>"
    using assms(1) by (auto simp: stages_def change_baseline_def split: if_splits)
  with assms(2) Some show ?thesis
    by (auto simp: baseline_holds_def entry_describes_def split: option.splits)
qed

lemma staged_new_file:
  assumes "stages tx tree (rel, before, map_of after rel) sf"
  shows "staged_value sf = new_file tree after rel"
  using assms by (auto simp: stages_def staged_value_def new_file_def content_bytes_def split: option.splits)

lemma staged_paths_changed:
  assumes "list_all2 (stages tx tree) (map (\<lambda>rel. (rel, map_of before rel, map_of after rel))
      (filter (tx_changed before after) (diff_keys before after))) staged"
  shows "set (map sf_path staged) = {p. \<exists>rel. tx_changed before after rel \<and> p = tx_path tx rel}"
  unfolding stages_facts(1) [OF assms] using diff_keys_changed by auto

lemma staged_users:
  assumes "list_all2 (stages tx tree) (map (\<lambda>rel. (rel, map_of before rel, map_of after rel))
      (filter (tx_changed before after) (diff_keys before after))) staged"
    and "\<forall>rel. tx_changed before after rel \<longrightarrow> user_path (tx_path tx rel)"
  shows "user_changes staged"
proof -
  have "user_path p" if "p \<in> set (map sf_path staged)" for p
    using that assms(2) unfolding staged_paths_changed [OF assms(1)] by blast
  then show ?thesis by (simp add: user_changes_def list_all_iff)
qed

lemma staged_distinct:
  assumes "list_all2 (stages tx tree) (map (\<lambda>rel. (rel, map_of before rel, map_of after rel))
      (filter (tx_changed before after) (diff_keys before after))) staged"
  shows "distinct (map sf_path staged)"
  unfolding stages_facts(1) [OF assms] using diff_keys_distinct
  by (auto simp: distinct_map inj_on_def tx_path_inj)

fun failure_retryable :: "pyexn \<Rightarrow> bool" where
  "failure_retryable (Tool f) = tf_retryable f"
| "failure_retryable _ = False"

text \<open>
  C9: a transaction that reports \<^verbatim>\<open>applied\<close> has carried over exactly what the command changed: at
  every path that differs between the two snapshots the authoritative tree now has the file of the
  second snapshot (or none), every other file is as before, and at each changed path the file that
  was replaced is the one the first snapshot recorded, so that no concurrent edit is overwritten.
\<close>

theorem finish_applies_delta:
  assumes "capture_snapshot os tree = Inr after"
    and "\<forall>rel. tx_changed (tx_before tx) after rel \<longrightarrow> user_path (tx_path tx rel)"
    and "finish os env tx tree True (start_commit w) = (Inr payload, w')" "tp_status payload = ''applied''"
  shows "(\<forall>rel. tx_changed (tx_before tx) after rel \<longrightarrow>
        file_at (w_fs w') (tx_path tx rel) = new_file tree after rel \<and>
        entry_describes os (map_of (tx_before tx) rel) (file_at (w_fs w) (tx_path tx rel))) \<and>
    (\<forall>p. user_path p \<longrightarrow> (\<forall>rel. tx_changed (tx_before tx) after rel \<longrightarrow> p \<noteq> tx_path tx rel) \<longrightarrow>
        file_at (w_fs w') p = file_at (w_fs w) p)"
proof -
  let ?ch = "tx_changed (tx_before tx) after"
  let ?rels = "filter ?ch (diff_keys (tx_before tx) after)"
  obtain st w1 where p: "prepare os env tx tree (start_commit w) = (Inr st, w1)"
    and c: "commit os (ps_staged st) w1 = (Inr (), w')"
    using assms(3,4) by (auto simp: finish_def io_bind_def io_catch_def io_return_def io_raise_def Let_def
        split: sum.splits prod.splits if_splits)
  obtain n where w1: "w1 = start_commit (w\<lparr>w_calls := n\<rparr>)"
    using prepare_result(1) [OF p] by (auto simp: start_commit_def)
  note l = prepare_result(2) [OF p refl assms(1)]
  note paths = stages_facts(1) [OF l]
  have mem: "rel \<in> set ?rels \<longleftrightarrow> ?ch rel" for rel using diff_keys_changed by auto
  have users: "user_changes (ps_staged st)" by (rule staged_users [OF l assms(2)])
  have dist: "distinct (map sf_path (ps_staged st))" by (rule staged_distinct [OF l])
  have ok: "\<forall>p. user_path p \<longrightarrow> file_at (w_fs w') p = patched (file_at (w_fs w)) (ps_staged st) p"
    "\<forall>c \<in> set (ps_staged st). baseline_holds os (sf_baseline c) (file_at (w_fs w) (sf_path c))"
    using commit_success [OF users c [unfolded w1]] by auto
  have "file_at (w_fs w') (tx_path tx rel) = new_file tree after rel \<and>
        entry_describes os (map_of (tx_before tx) rel) (file_at (w_fs w) (tx_path tx rel))"
    if ch: "?ch rel" for rel
  proof -
    obtain sf where sf: "sf \<in> set (ps_staged st)" "sf_path sf = tx_path tx rel"
      and sg: "stages tx tree (rel, map_of (tx_before tx) rel, map_of after rel) sf"
      using stages_facts(2) [OF l] mem ch by blast
    have "file_at (w_fs w') (tx_path tx rel) = staged_value sf"
    proof -
      have "tx_path tx rel \<in> set (map sf_path (ps_staged st))" using sf by (metis image_eqI set_map)
      with ok(1) assms(2) ch sf expected_at [OF dist sf(1)] show ?thesis by (simp add: patched_def)
    qed
    with staged_new_file [OF sg] staged_baseline [OF sg] ok(2) sf show ?thesis by metis
  qed
  moreover have "file_at (w_fs w') p = file_at (w_fs w) p"
    if "user_path p" "\<forall>rel. ?ch rel \<longrightarrow> p \<noteq> tx_path tx rel" for p
  proof -
    have "p \<notin> set (map sf_path (ps_staged st))" unfolding paths using that mem by auto
    with ok(1) that show ?thesis by (simp add: patched_def)
  qed
  ultimately show ?thesis by blast
qed

definition demo_tx :: ExecutionTransaction where
  "demo_tx = \<lparr>tx_root = [], tx_before = [(''a'', file_entry (demo_os (\<lambda>n. False)) [1] 4)]\<rparr>"

definition demo_env :: tx_env where
  "demo_env = \<lparr>te_unified_diff = (\<lambda>b a f t. a), te_validate = (\<lambda>rel. Inr ()), te_decode_ignore = (\<lambda>b. [])\<rparr>"

lemma demo_capture:
  "capture_snapshot (demo_os (\<lambda>n. False)) demo_tree =
     Inr [(''d'', dir_entry 5), (''a'', file_entry (demo_os (\<lambda>n. False)) [1] 4),
          (''d/b'', file_entry (demo_os (\<lambda>n. False)) [3] 4)]"
  by (simp add: capture_snapshot_def scan_loop.simps demo_tree_def ignored_name_def startswith_def
      MAX_TRANSACTION_FILES_def Let_def)

lemma demo_changed:
  "tx_changed (tx_before demo_tx)
     [(''d'', dir_entry 5), (''a'', file_entry (demo_os (\<lambda>n. False)) [1] 4),
      (''d/b'', file_entry (demo_os (\<lambda>n. False)) [3] 4)] rel \<longleftrightarrow> rel = ''d/b''"
  by (auto simp: tx_changed_def demo_tx_def absent_or_dir_def dir_entry_def file_entry_def)

definition demo_staged :: "StagedFile list" where
  "demo_staged =
     [\<lparr>sf_display = ''d/b'', sf_path = [''d'', ''b''], sf_content = Some (CBytes [3]),
       sf_baseline = \<lparr>fb_data = None, fb_mode = None, fb_digest = None\<rparr>, sf_mode = Some 4\<rparr>]"

lemma demo_prepare:
  "prepare (demo_os (\<lambda>n. False)) demo_env demo_tx demo_tree w =
     (Inr \<lparr>ps_staged = demo_staged,
           ps_summary = [\<lparr>tc_path = ''d/b'', tc_operation = ''create'', tc_bytes = 1, tc_mode = Some 4\<rparr>],
           ps_diff_parts = [[3]], ps_apply_bytes = 1, ps_diff_bytes = 1\<rparr>, w)"
proof -
  have d: "py_decode [] = Inr []" "py_decode [3] = Inr [3]" "encode1 3 = [3]" by code_simp+
  have k: "diff_keys (tx_before demo_tx) [(''d'', dir_entry 5),
      (''a'', file_entry (demo_os (\<lambda>n. False)) [1] 4), (''d/b'', file_entry (demo_os (\<lambda>n. False)) [3] 4)] =
      [''a'', ''d'', ''d/b'']"
    by code_simp
  let ?e = "file_entry (demo_os (\<lambda>n. False)) [3] 4"
  have raw: "rbind (capture_snapshot (demo_os (\<lambda>n. False)) demo_tree) (diff_entries (tx_before demo_tx)) =
      Inr [(''d/b'', None, Some ?e)]"
    unfolding demo_capture diff_entries_def rbind.simps k
    by (simp add: demo_tx_def Let_def has_kind_def absent_or_dir_def dir_entry_def file_entry_def
        MAX_TRANSACTION_CHANGED_FILES_def)
  show ?thesis
    unfolding prepare_def raw
    by (simp add: prepare_one_def change_baseline_def change_content_def tree_read_def demo_tree_def
        prep_start_def demo_env_def demo_tx_def io_bind_def io_return_def read_before_def diff_part_def d Let_def
        change_operation_def demo_staged_def file_entry_def MAX_TRANSACTION_APPLY_BYTES_def
        MAX_TRANSACTION_DIFF_BYTES_def)
qed

lemma demo_finish:
  "finish (demo_os (\<lambda>n. False)) demo_env demo_tx demo_tree True (start_commit demo_world) =
     (Inr \<lparr>tp_status = ''applied'',
           tp_changed_files = [\<lparr>tc_path = ''d/b'', tc_operation = ''create'', tc_bytes = 1, tc_mode = Some 4\<rparr>],
           tp_diff = [3]\<rparr>, snd (commit (demo_os (\<lambda>n. False)) demo_staged (start_commit demo_world)))"
proof -
  have "fst (commit (demo_os (\<lambda>n. False)) demo_staged (start_commit demo_world)) = Inr ()" by code_simp
  then obtain w2 where c: "commit (demo_os (\<lambda>n. False)) demo_staged (start_commit demo_world) = (Inr (), w2)"
    by (metis prod.collapse)
  have ne: "demo_staged \<noteq> []" by (simp add: demo_staged_def)
  show ?thesis
    by (simp add: finish_def io_bind_def io_catch_def io_return_def demo_prepare Let_def c ne)
qed

theorem finish_applies_delta_witness:
  "file_at (w_fs (snd (finish (demo_os (\<lambda>n. False)) demo_env demo_tx demo_tree True
      (start_commit demo_world)))) [''d'', ''b''] = Some ([3], 4)"
proof -
  have d: "tx_path demo_tx ''d/b'' = [''d'', ''b'']" by (simp add: tx_path_def demo_tx_def)
  have "file_at (w_fs (snd (commit (demo_os (\<lambda>n. False)) demo_staged (start_commit demo_world))))
      (tx_path demo_tx ''d/b'') = new_file demo_tree [(''d'', dir_entry 5),
      (''a'', file_entry (demo_os (\<lambda>n. False)) [1] 4), (''d/b'', file_entry (demo_os (\<lambda>n. False)) [3] 4)] ''d/b''"
    using finish_applies_delta [OF demo_capture _ demo_finish] by (simp add: demo_changed d user_path_def
        temp_name_def backup_name_def PATCH_TEMP_PREFIX_def PATCH_BACKUP_PREFIX_def startswith_def)
  moreover have "new_file demo_tree [(''d'', dir_entry 5), (''a'', file_entry (demo_os (\<lambda>n. False)) [1] 4),
      (''d/b'', file_entry (demo_os (\<lambda>n. False)) [3] 4)] ''d/b'' = Some ([3], 4)"
    by (simp add: new_file_def tree_read_def demo_tree_def install_mode_def file_entry_def)
  ultimately show ?thesis by (simp add: demo_finish d)
qed

text \<open>
  C11: a transaction that is discarded, and one that fails with anything but a conflict that is not
  retryable (the sign of a failed rollback), leaves every file of the authoritative tree as it was.
\<close>

theorem finish_leaves_files:
  assumes "\<forall>after rel. capture_snapshot os tree = Inr after \<longrightarrow> tx_changed (tx_before tx) after rel \<longrightarrow>
      user_path (tx_path tx rel)"
    and "finish os env tx tree apply (start_commit w) = (r, w')"
    and "\<not> apply \<or> (\<exists>e. r = Inl e \<and> (failure_code e \<noteq> Some ''TRANSACTION_CONFLICT'' \<or> failure_retryable e))"
    and "user_path p"
  shows "file_at (w_fs w') p = file_at (w_fs w) p"
proof -
  obtain r1 w1 where p: "prepare os env tx tree (start_commit w) = (r1, w1)"
    by (cases "prepare os env tx tree (start_commit w)")
  obtain n where w1: "w1 = start_commit (w\<lparr>w_calls := n\<rparr>)"
    using prepare_result(1) [OF p] by (auto simp: start_commit_def)
  have same: ?thesis if "w' = w1" using that w1 by (simp add: start_commit_def)
  show ?thesis
  proof (cases "\<exists>st. r1 = Inr st \<and> apply \<and> ps_staged st \<noteq> []")
    case False
    then have "w' = w1"
      using assms(2) p by (auto simp: finish_def io_bind_def io_return_def Let_def split: sum.splits if_splits)
    then show ?thesis by (rule same)
  next
    case True
    then obtain st where st: "r1 = Inr st" "apply" "ps_staged st \<noteq> []" by blast
    obtain after where after: "capture_snapshot os tree = Inr after"
      using p st by (auto simp: prepare_def io_raise_def result_simps split: sum.splits)
    note l = prepare_result(2) [OF p st(1) after]
    have users: "user_changes (ps_staged st)" using staged_users [OF l] assms(1) after by blast
    have dist: "distinct (map sf_path (ps_staged st))" by (rule staged_distinct [OF l])
    obtain r2 w2 where c: "commit os (ps_staged st) w1 = (r2, w2)" by (cases "commit os (ps_staged st) w1")
    have w2: "w' = w2" and r: "r = (case r2 of Inl e \<Rightarrow> Inl (commit_failure e) | Inr _ \<Rightarrow> r) \<and> (isl r \<longrightarrow> isl r2)"
      using assms(2) p st c by (auto simp: finish_def io_bind_def io_catch_def io_return_def io_raise_def Let_def
          split: sum.splits)
    obtain e where e: "r = Inl e" "failure_code e \<noteq> Some ''TRANSACTION_CONFLICT'' \<or> failure_retryable e"
      using assms(3) st by blast
    obtain e2 where e2: "r2 = Inl e2" "e = commit_failure e2" using r e by (cases r2) auto
    have run: "commit_in os (ps_staged st) (start_commit (w\<lparr>w_calls := n\<rparr>)) = (Inl e2, w2)"
      using c commit_unfold [OF st(3) dist] e2 w1 by metis
    from users dist run show ?thesis
    proof (cases rule: commit_in_failure)
      case restored
      with assms(4) w2 show ?thesis by simp
    next
      case (preserved errors w3)
      with e(2) e2(2) show ?thesis
        by (simp add: commit_failure_def rollback_failed_def transaction_conflict_def)
    qed
  qed
qed

theorem finish_leaves_files_witness:
  "file_at (w_fs (snd (finish (demo_os (\<lambda>n. False)) demo_env demo_tx demo_tree False
      (start_commit demo_world)))) [''a''] = Some ([1], 4)"
proof -
  let ?r = "finish (demo_os (\<lambda>n. False)) demo_env demo_tx demo_tree False (start_commit demo_world)"
  have names: "user_path [''a'']" "user_path (tx_path demo_tx ''d/b'')"
    by (simp_all add: tx_path_def demo_tx_def user_path_def temp_name_def backup_name_def
        PATCH_TEMP_PREFIX_def PATCH_BACKUP_PREFIX_def startswith_def)
  have users: "\<forall>after rel. capture_snapshot (demo_os (\<lambda>n. False)) demo_tree = Inr after \<longrightarrow>
      tx_changed (tx_before demo_tx) after rel \<longrightarrow> user_path (tx_path demo_tx rel)"
    using demo_changed names(2) by (auto simp: demo_capture)
  have "file_at (w_fs (snd ?r)) [''a''] = file_at (w_fs demo_world) [''a'']"
    using finish_leaves_files [OF users prod.collapse [symmetric, of ?r] _ names(1)] by simp
  then show ?thesis by (simp add: demo_world_def file_at_def)
qed

end
