(* ===== verification/StateStore.thy ===== *)
theory StateStore
  imports Prelude
begin

text \<open>
  \<open>coding_tools_mcp/state_store.py\<close>: JSON records in a directory per project, written by an atomic
  replacement.  A file is represented by the length of its bytes and the JSON value they denote
  (none when they are not JSON), so that the JSON codec itself is not part of the model; the
  length of an encoded value, the hash function, the ISO rendering of a time and the parser of
  \<^verbatim>\<open>float(str)\<close> are fields of \<open>store_env\<close>.  The advisory file lock makes the operations of the
  clients atomic: each client operation is one step on the store.  Seconds are real numbers.
\<close>

section \<open>The store\<close>

datatype stored = Unreadable | Raw nat "json option"

type_synonym spath = "string list"

record store =
  st_files :: "(spath, stored) dict"
  st_calls :: nat

record store_env =
  en_config_root :: spath
  en_json_size :: "json \<Rightarrow> nat"
  en_scope_id :: "string \<Rightarrow> string"
  en_iso :: "real \<Rightarrow> string"
  en_clock :: real
  en_float :: "string \<Rightarrow> real option"
  en_fault :: "nat \<Rightarrow> bool"

definition MAX_WRITER_TTL_SECONDS :: int where
  "MAX_WRITER_TTL_SECONDS = 86400"

definition MAX_STATE_BYTES :: nat where
  "MAX_STATE_BYTES = 2 * 1024 * 1024"

text \<open>\<^verbatim>\<open>now or time.time()\<close>: a zero counts as missing.\<close>

definition now_iso :: "store_env \<Rightarrow> real \<Rightarrow> string" where
  "now_iso env now = en_iso env (if now = 0 then en_clock env else now)"

definition spath_str :: "spath \<Rightarrow> string" where
  "spath_str p = concat (map (\<lambda>n. ''/'' @ n) p)"

definition state_root :: "store_env \<Rightarrow> spath \<Rightarrow> spath result" where
  "state_root env project =
     (if prefix project (en_config_root env) then
        Inl (tool_failure ''RUNTIME_DIR_UNWRITABLE'' ''runtime'')
      else Inr (en_config_root env @ [''state-management'', en_scope_id env (spath_str project)]))"

definition read_json :: "store \<Rightarrow> spath \<Rightarrow> obj option result" where
  "read_json s p =
     (case map_of (st_files s) p of
        None \<Rightarrow> Inr None
      | Some Unreadable \<Rightarrow> Inl (tool_failure ''RUNTIME_DIR_UNWRITABLE'' ''runtime'')
      | Some (Raw n v) \<Rightarrow>
          if MAX_STATE_BYTES < n then Inl (tool_failure ''INVALID_STATE'' ''runtime'')
          else (case v of
              Some (JObj ob) \<Rightarrow> Inr (Some ob)
            | _ \<Rightarrow> Inl (tool_failure ''INVALID_STATE'' ''runtime'')))"

text \<open>
  \<^verbatim>\<open>write_json\<close> makes six system calls up to and including the atomic replacement (\<^verbatim>\<open>mkdir\<close>,
  \<^verbatim>\<open>mkstemp\<close>, \<^verbatim>\<open>fchmod\<close>, \<^verbatim>\<open>write\<close>, \<^verbatim>\<open>fsync\<close>, \<^verbatim>\<open>replace\<close>) and two after it (\<^verbatim>\<open>chmod\<close>,
  \<^verbatim>\<open>unlink\<close>).  A failure before the replacement leaves the old record, one after it the new one.
\<close>

definition write_json :: "store_env \<Rightarrow> spath \<Rightarrow> obj \<Rightarrow> store \<Rightarrow> unit result \<times> store" where
  "write_json env p v s =
     (let n = Suc (en_json_size env (JObj v)); c = st_calls s; s' = s\<lparr>st_calls := c + 8\<rparr> in
      if MAX_STATE_BYTES < n then (Inl (tool_failure ''OUTPUT_TOO_LARGE'' ''runtime''), s)
      else if list_ex (en_fault env) [c..<c + 6] then (Inl OSError, s')
      else (let s'' = s'\<lparr>st_files := dict_set p (Raw n (Some (JObj v))) (st_files s)\<rparr> in
            if list_ex (en_fault env) [c + 6..<c + 8] then (Inl OSError, s'') else (Inr (), s'')))"

definition unlink_json :: "spath \<Rightarrow> store \<Rightarrow> store" where
  "unlink_json p s = s\<lparr>st_files := dict_del p (st_files s)\<rparr>"

definition lease_path :: "store_env \<Rightarrow> spath \<Rightarrow> string \<Rightarrow> spath result" where
  "lease_path env project branch =
     rbind (state_root env project) (\<lambda>r. Inr (r @ [''leases'', en_scope_id env branch @ ''.json'']))"

definition checkpoint_path :: "store_env \<Rightarrow> spath \<Rightarrow> string \<Rightarrow> bool \<Rightarrow> spath result" where
  "checkpoint_path env project branch before =
     rbind (state_root env project) (\<lambda>r.
       Inr (r @ [''checkpoints'',
                 en_scope_id env branch @ (if before then ''.before.json'' else ''.json'')]))"

definition context_checkpoint_path :: "store_env \<Rightarrow> spath \<Rightarrow> string \<Rightarrow> spath result" where
  "context_checkpoint_path env project owner =
     rbind (state_root env project) (\<lambda>r. Inr (r @ [''contexts'', en_scope_id env owner @ ''.json'']))"

section \<open>The contract of a record store\<close>

text \<open>
  What the clients rely on: a completed write can be read back, a write touches no other record,
  and after a failed write the record is the old or the new one, never a torn one.
\<close>

locale record_store =
  fixes rd :: "'s \<Rightarrow> spath \<Rightarrow> obj option result"
    and wr :: "spath \<Rightarrow> obj \<Rightarrow> 's \<Rightarrow> unit result \<times> 's"
    and del :: "spath \<Rightarrow> 's \<Rightarrow> 's"
  assumes read_write_same: "wr p v s = (Inr u, s') \<Longrightarrow> rd s' p = Inr (Some v)"
    and read_write_other: "wr p v s = (r, s') \<Longrightarrow> q \<noteq> p \<Longrightarrow> rd s' q = rd s q"
    and read_write_failed: "wr p v s = (Inl e, s') \<Longrightarrow> rd s' p = rd s p \<or> rd s' p = Inr (Some v)"
    and read_unlink: "rd (del p s) q = (if q = p then Inr None else rd s q)"
begin

text \<open>A loop that writes one record after the other.\<close>

fun write_all :: "(spath \<times> obj) list \<Rightarrow> 's \<Rightarrow> unit result \<times> 's" where
  "write_all [] s = (Inr (), s)"
| "write_all ((p, v) # ws) s =
     (case wr p v s of (Inl e, s') \<Rightarrow> (Inl e, s') | (Inr _, s') \<Rightarrow> write_all ws s')"

lemma write_all_other: "write_all ws s = (r, s') \<Longrightarrow> q \<notin> fst ` set ws \<Longrightarrow> rd s' q = rd s q"
proof (induction ws arbitrary: s)
  case (Cons w ws)
  then show ?case
    using read_write_other by (cases w) (fastforce split: prod.splits sum.splits)
qed simp

lemma write_all_done:
  "write_all ws s = (Inr u, s') \<Longrightarrow> p \<in> fst ` set ws \<Longrightarrow>
   \<exists>v. (p, v) \<in> set ws \<and> rd s' p = Inr (Some v)"
proof (induction ws arbitrary: s)
  case (Cons w ws)
  obtain p0 v0 where w: "w = (p0, v0)" by (cases w)
  obtain u1 s1 where 1: "wr p0 v0 s = (Inr u1, s1)" and 2: "write_all ws s1 = (Inr u, s')"
    using Cons.prems(1) by (auto simp: w split: prod.splits sum.splits)
  show ?case
  proof (cases "p \<in> fst ` set ws")
    case True
    with Cons.IH [OF 2] show ?thesis by auto
  next
    case False
    then have "p = p0" using Cons.prems(2) w by auto
    with write_all_other [OF 2 False] read_write_same [OF 1] w show ?thesis by auto
  qed
qed simp

end

interpretation js: record_store read_json "write_json env" unlink_json
proof
  show "read_json s' p = Inr (Some v)" if "write_json env p v s = (Inr u, s')" for p v s u s'
    using that by (auto simp: write_json_def read_json_def Let_def split: if_splits)
  show "read_json s' q = read_json s q" if "write_json env p v s = (r, s')" "q \<noteq> p" for p v s r s' q
    using that by (auto simp: write_json_def read_json_def Let_def split: if_splits)
  show "read_json s' p = read_json s p \<or> read_json s' p = Inr (Some v)"
    if "write_json env p v s = (Inl e, s')" for p v s e s'
    using that by (auto simp: write_json_def read_json_def Let_def split: if_splits)
  show "read_json (unlink_json p s) q = (if q = p then Inr None else read_json s q)" for p s q
    by (simp add: read_json_def unlink_json_def)
qed

end
