(* ===== verification/WriterLease.thy ===== *)
theory WriterLease
  imports StateStore
begin

text \<open>
  \<open>coding_tools_mcp/writer_lease.py\<close> and \<open>state_checkpoint.py\<close>: the advisory lease that one logical
  context holds on a branch of a project, and the checkpoints written beside it.  Every operation
  runs under the project lock, so it is one step on the store.
\<close>

section \<open>Leases\<close>

text \<open>\<^verbatim>\<open>float(record.get("expires_at_epoch", 0.0)) > now\<close>, false when the conversion raises.\<close>

definition lease_active :: "store_env \<Rightarrow> obj \<Rightarrow> real \<Rightarrow> bool" where
  "lease_active env ob now =
     (case map_of ob ''expires_at_epoch'' of
        None \<Rightarrow> 0 > now
      | Some (JFloat r) \<Rightarrow> r > now
      | Some (JInt k) \<Rightarrow> of_int k > now
      | Some (JBool b) \<Rightarrow> (if b then 1 else 0) > now
      | Some (JStr t) \<Rightarrow> (case en_float env t of None \<Rightarrow> False | Some r \<Rightarrow> r > now)
      | Some _ \<Rightarrow> False)"

definition inspect_writer_lease :: "store_env \<Rightarrow> spath \<Rightarrow> string \<Rightarrow> real \<Rightarrow> store \<Rightarrow> obj option result" where
  "inspect_writer_lease env project branch now s =
     rbind (lease_path env project branch) (\<lambda>p.
     rbind (read_json s p) (\<lambda>r.
       case r of
         None \<Rightarrow> Inr None
       | Some ob \<Rightarrow> Inr (Some (dict_set ''stale'' (JBool (\<not> lease_active env ob now)) ob))))"

record lease_request =
  lr_branches :: "string list"
  lr_owner :: string
  lr_task :: "string option"
  lr_ttl :: int
  lr_checkpoint :: "string option"
  lr_now :: real

definition opt_str :: "string option \<Rightarrow> json" where
  "opt_str x = (case x of None \<Rightarrow> JNull | Some t \<Rightarrow> JStr t)"

definition unique_branches :: "string list \<Rightarrow> string list" where
  "unique_branches bs = sort (remdups (filter (\<lambda>b. b \<noteq> []) bs))"

definition foreign_active :: "store_env \<Rightarrow> string \<Rightarrow> real \<Rightarrow> obj option \<Rightarrow> bool" where
  "foreign_active env owner now r =
     (case r of
        None \<Rightarrow> False
      | Some ob \<Rightarrow> lease_active env ob now \<and> obj_get ob ''owner'' \<noteq> JStr owner)"

definition conflict_entry :: "string \<Rightarrow> obj \<Rightarrow> json" where
  "conflict_entry branch ob =
     JObj [(''branch'', JStr branch), (''owner'', obj_get ob ''owner''),
           (''logical_task'', obj_get ob ''logical_task''), (''since'', obj_get ob ''acquired_at''),
           (''expires_at'', obj_get ob ''expires_at''),
           (''checkpoint_id'', obj_get ob ''checkpoint_id'')]"

definition lease_same_owner :: "store_env \<Rightarrow> lease_request \<Rightarrow> obj option \<Rightarrow> bool" where
  "lease_same_owner env rq previous =
     (case previous of
        None \<Rightarrow> False
      | Some ob \<Rightarrow> lease_active env ob (lr_now rq) \<and> obj_get ob ''owner'' = JStr (lr_owner rq))"

definition lease_record :: "store_env \<Rightarrow> lease_request \<Rightarrow> string \<Rightarrow> obj option \<Rightarrow> obj" where
  "lease_record env rq branch previous =
     (let now = lr_now rq; same = lease_same_owner env rq previous in
      [(''version'', JInt 1), (''branch'', JStr branch), (''owner'', JStr (lr_owner rq)),
       (''logical_task'', opt_str (lr_task rq)),
       (''acquired_at'', if same then obj_get (the previous) ''acquired_at'' else JStr (now_iso env now)),
       (''heartbeat_at'', JStr (now_iso env now)),
       (''expires_at'', JStr (now_iso env (now + of_int (lr_ttl rq)))),
       (''expires_at_epoch'', JFloat (now + of_int (lr_ttl rq))),
       (''ttl_seconds'', JInt (lr_ttl rq)), (''checkpoint_id'', opt_str (lr_checkpoint rq)),
       (''recovered_stale_owner'',
        case previous of
          None \<Rightarrow> JNull
        | Some ob \<Rightarrow> if same then JNull
                     else JObj [(''owner'', obj_get ob ''owner''),
                                (''logical_task'', obj_get ob ''logical_task''),
                                (''expires_at'', obj_get ob ''expires_at'')])])"

fun write_leases ::
    "store_env \<Rightarrow> (spath \<times> obj) list \<Rightarrow> store \<Rightarrow> unit result \<times> store" where
  "write_leases env [] s = (Inr (), s)"
| "write_leases env ((p, ob) # ws) s =
     (case write_json env p ob s of
        (Inl e, s') \<Rightarrow> (Inl e, s')
      | (Inr _, s') \<Rightarrow> write_leases env ws s')"

definition read_lease :: "store_env \<Rightarrow> spath \<Rightarrow> store \<Rightarrow> string \<Rightarrow> obj option result" where
  "read_lease env project s branch = rbind (lease_path env project branch) (read_json s)"

definition acquire_writer_leases ::
    "store_env \<Rightarrow> spath \<Rightarrow> lease_request \<Rightarrow> store \<Rightarrow> (string, obj) dict result \<times> store" where
  "acquire_writer_leases env project rq s =
     (if \<not> (1 \<le> lr_ttl rq \<and> lr_ttl rq \<le> MAX_WRITER_TTL_SECONDS) then
        (Inl (tool_failure ''INVALID_ARGUMENT'' ''validation''), s)
      else if lr_owner rq = [] \<or> 256 < length (lr_owner rq) then
        (Inl (tool_failure ''INVALID_ARGUMENT'' ''validation''), s)
      else
        let bs = unique_branches (lr_branches rq) in
        if bs = [] then (Inl (tool_failure ''INVALID_STATE'' ''conflict''), s)
        else case rmap (read_lease env project s) bs of
            Inl e \<Rightarrow> (Inl e, s)
          | Inr existing \<Rightarrow>
              (let conflicts = filter (\<lambda>br. foreign_active env (lr_owner rq) (lr_now rq) (snd br))
                                 (zip bs existing) in
               if conflicts \<noteq> [] then
                 (Inl (retryable_failure ''WRITER_LEASE_CONFLICT'' ''conflict''
                         [(''conflicts'',
                           JList (map (\<lambda>br. conflict_entry (fst br) (the (snd br))) conflicts))]), s)
               else
                 let records = map (\<lambda>br. (fst br, lease_record env rq (fst br) (snd br)))
                                 (zip bs existing) in
                 case rmap (\<lambda>br. lease_path env project (fst br)) records of
                   Inl e \<Rightarrow> (Inl e, s)
                 | Inr paths \<Rightarrow>
                     (case write_leases env (zip paths (map snd records)) s of
                        (Inl e, s') \<Rightarrow> (Inl e, s')
                      | (Inr _, s') \<Rightarrow> (Inr records, s'))))"

definition release_writer_lease ::
    "store_env \<Rightarrow> spath \<Rightarrow> string \<Rightarrow> string \<Rightarrow> string option \<Rightarrow> real \<Rightarrow> store \<Rightarrow> bool result \<times> store" where
  "release_writer_lease env project branch owner task now s =
     (case lease_path env project branch of
        Inl e \<Rightarrow> (Inl e, s)
      | Inr p \<Rightarrow>
          (case read_json s p of
             Inl e \<Rightarrow> (Inl e, s)
           | Inr None \<Rightarrow> (Inr False, s)
           | Inr (Some ob) \<Rightarrow>
               (let owned = obj_get ob ''owner'' = JStr owner \<and>
                            (task = None \<or> obj_get ob ''logical_task'' = opt_str task) in
                if lease_active env ob now \<and> \<not> owned then
                  (Inl (retryable_failure ''WRITER_LEASE_CONFLICT'' ''conflict''
                          (case conflict_entry branch ob of JObj d \<Rightarrow> d | _ \<Rightarrow> [])), s)
                else (Inr True, unlink_json p s))))"

text \<open>
  \<^verbatim>\<open>root.glob("*.json")\<close>: the files of the lease directory, in the order of the dictionary.  A
  record that cannot be read stops the loop with the leases before it already released.
\<close>

fun release_loop ::
    "string \<Rightarrow> string option \<Rightarrow> spath list \<Rightarrow> store \<Rightarrow> string list result \<times> store" where
  "release_loop owner task [] s = (Inr [], s)"
| "release_loop owner task (p # ps) s =
     (case read_json s p of
        Inl e \<Rightarrow> (Inl e, s)
      | Inr None \<Rightarrow> release_loop owner task ps s
      | Inr (Some ob) \<Rightarrow>
          if obj_get ob ''owner'' \<noteq> JStr owner then release_loop owner task ps s
          else if task \<noteq> None \<and> obj_get ob ''logical_task'' \<noteq> opt_str task then
            release_loop owner task ps s
          else
            (case release_loop owner task ps (unlink_json p s) of
               (Inl e, s') \<Rightarrow> (Inl e, s')
             | (Inr released, s') \<Rightarrow>
                 (Inr ((case obj_get ob ''branch'' of JStr b \<Rightarrow> if b = [] then [] else [b] | _ \<Rightarrow> [])
                       @ released), s')))"

definition lease_files :: "spath \<Rightarrow> store \<Rightarrow> spath list" where
  "lease_files rt s =
     filter (\<lambda>p. butlast p = rt @ [''leases''] \<and> p \<noteq> [] \<and> endswith (last p) ''.json'')
       (keys (st_files s))"

definition release_owner_leases ::
    "store_env \<Rightarrow> spath \<Rightarrow> string \<Rightarrow> string option \<Rightarrow> store \<Rightarrow> string list result \<times> store" where
  "release_owner_leases env project owner task s =
     (case state_root env project of
        Inl e \<Rightarrow> (Inl e, s)
      | Inr rt \<Rightarrow>
          (case release_loop owner task (lease_files rt s) s of
             (Inl e, s') \<Rightarrow> (Inl e, s')
           | (Inr released, s') \<Rightarrow> (Inr (sort released), s')))"

section \<open>Checkpoints\<close>

definition read_state_checkpoint :: "store_env \<Rightarrow> spath \<Rightarrow> string \<Rightarrow> store \<Rightarrow> obj option result" where
  "read_state_checkpoint env project branch s =
     rbind (checkpoint_path env project branch False) (read_json s)"

definition read_authoritative_state_checkpoint ::
    "store_env \<Rightarrow> spath \<Rightarrow> string \<Rightarrow> store \<Rightarrow> obj option result" where
  "read_authoritative_state_checkpoint env project owner s =
     rbind (context_checkpoint_path env project owner) (read_json s)"

record checkpoint_request =
  cr_branch :: string
  cr_snapshot :: obj
  cr_phase :: string
  cr_operation :: string
  cr_owner :: "string option"
  cr_task :: "string option"
  cr_outcome :: string
  cr_previous :: "string option"
  cr_authority :: "string option"

text \<open>The fresh identifier of \<^verbatim>\<open>uuid.uuid4\<close> is an argument.\<close>

definition checkpoint_record :: "store_env \<Rightarrow> string \<Rightarrow> checkpoint_request \<Rightarrow> obj" where
  "checkpoint_record env new_id rq =
     [(''version'', JInt 2), (''checkpoint_id'', JStr new_id),
      (''repo'', obj_get (cr_snapshot rq) ''repo''),
      (''project_id'', obj_get (cr_snapshot rq) ''project_id''),
      (''branch'', JStr (cr_branch rq)), (''phase'', JStr (cr_phase rq)),
      (''operation'', JStr (cr_operation rq)), (''outcome'', JStr (cr_outcome rq)),
      (''writer_owner'', opt_str (cr_owner rq)), (''logical_task'', opt_str (cr_task rq)),
      (''previous_checkpoint_id'', opt_str (cr_previous rq)),
      (''timestamp'', JStr (en_iso env (en_clock env))), (''snapshot'', JObj (cr_snapshot rq))]"

definition write_state_checkpoint ::
    "store_env \<Rightarrow> spath \<Rightarrow> string \<Rightarrow> checkpoint_request \<Rightarrow> store \<Rightarrow> obj result \<times> store" where
  "write_state_checkpoint env project new_id rq s =
     (let r = checkpoint_record env new_id rq in
      case checkpoint_path env project (cr_branch rq) (cr_phase rq = ''before'') of
        Inl e \<Rightarrow> (Inl e, s)
      | Inr p \<Rightarrow>
          (case write_json env p r s of
             (Inl e, s') \<Rightarrow> (Inl e, s')
           | (Inr _, s') \<Rightarrow>
               (case cr_authority rq of
                  None \<Rightarrow> (Inr r, s')
                | Some a \<Rightarrow>
                    if cr_phase rq = ''before'' then (Inr r, s')
                    else (case context_checkpoint_path env project a of
                        Inl e \<Rightarrow> (Inl e, s')
                      | Inr q \<Rightarrow>
                          (case write_json env q r s' of
                             (Inl e, s'') \<Rightarrow> (Inl e, s'')
                           | (Inr _, s'') \<Rightarrow> (Inr r, s''))))))"

section \<open>Lemmas on the operations\<close>

lemma write_leases_write_all: "write_leases env ws s = js.write_all env ws s"
proof (induction ws arbitrary: s)
  case (Cons w ws)
  then show ?case by (cases w) (auto split: prod.splits sum.splits)
qed simp

lemma state_root_lease:
  "lease_path env project b = Inr p \<Longrightarrow> \<exists>rt. state_root env project = Inr rt \<and> butlast p = rt @ [''leases'']"
  by (auto simp: lease_path_def result_simps butlast_append)

lemma lease_paths_fail_together:
  "lease_path env project b = Inr p \<Longrightarrow> \<exists>q. lease_path env project b' = Inr q"
  by (auto simp: lease_path_def result_simps)

lemma rmap_lease_paths:
  assumes "lease_path env project b = Inr p"
  shows "\<exists>ps. rmap (\<lambda>br. lease_path env project (fst br)) xs = Inr ps"
proof (induction xs)
  case (Cons x xs)
  with lease_paths_fail_together [OF assms, of "fst x"] show ?case by auto
qed simp

text \<open>What a successful or failed acquisition did to the store.\<close>

lemma acquire_cases:
  assumes "acquire_writer_leases env project rq s = (r, s')"
  obtains (refused) e where "r = Inl e" "s' = s"
    | (wrote) existing records paths u where
        "rmap (read_lease env project s) (unique_branches (lr_branches rq)) = Inr existing"
        "\<forall>br \<in> set (zip (unique_branches (lr_branches rq)) existing).
            \<not> foreign_active env (lr_owner rq) (lr_now rq) (snd br)"
        "records = map (\<lambda>br. (fst br, lease_record env rq (fst br) (snd br)))
            (zip (unique_branches (lr_branches rq)) existing)"
        "rmap (\<lambda>br. lease_path env project (fst br)) records = Inr paths"
        "write_leases env (zip paths (map snd records)) s = (u, s')"
        "r = (case u of Inl e \<Rightarrow> Inl e | Inr _ \<Rightarrow> Inr records)"
  using assms unfolding acquire_writer_leases_def Let_def
  by (auto split: if_splits sum.splits prod.splits simp: filter_empty_conv)

lemma lease_record_get [simp]:
  "obj_get (lease_record env rq b prev) ''owner'' = JStr (lr_owner rq)"
  "obj_get (lease_record env rq b prev) ''branch'' = JStr b"
  "lease_active env (lease_record env rq b prev) now \<longleftrightarrow> lr_now rq + of_int (lr_ttl rq) > now"
  by (simp_all add: lease_record_def obj_get_def lease_active_def Let_def)

text \<open>The operations as one type, and a sequence of them.\<close>

datatype lease_op =
    Acquire lease_request
  | Release string string "string option" real
  | ReleaseOwner string "string option"

fun lease_step :: "store_env \<Rightarrow> spath \<Rightarrow> lease_op \<Rightarrow> store \<Rightarrow> store" where
  "lease_step env project (Acquire rq) s = snd (acquire_writer_leases env project rq s)"
| "lease_step env project (Release b ow task now) s = snd (release_writer_lease env project b ow task now s)"
| "lease_step env project (ReleaseOwner ow task) s = snd (release_owner_leases env project ow task s)"

fun lease_run :: "store_env \<Rightarrow> spath \<Rightarrow> lease_op list \<Rightarrow> store \<Rightarrow> store" where
  "lease_run env project [] s = s"
| "lease_run env project (x # xs) s = lease_run env project xs (lease_step env project x s)"

fun op_owner :: "lease_op \<Rightarrow> string" where
  "op_owner (Acquire rq) = lr_owner rq"
| "op_owner (Release b ow task now) = ow"
| "op_owner (ReleaseOwner ow task) = ow"

text \<open>The operation does not run at or after the time \<open>t\<close>; releasing all leases has no time.\<close>

fun op_before :: "real \<Rightarrow> lease_op \<Rightarrow> bool" where
  "op_before t (Acquire rq) = (lr_now rq < t)"
| "op_before t (Release b ow task now) = (now < t)"
| "op_before t (ReleaseOwner ow task) = True"

lemma zip_rmap_in:
  assumes "rmap f xs = Inr ys" "(x, y) \<in> set (zip xs ys)"
  shows "f x = Inr y"
  using assms rmap_Inr_nth [OF assms(1)] rmap_Inr_length [OF assms(1)] by (auto simp: set_zip)

lemma release_loop_foreign:
  "read_json s p = Inr (Some ob) \<Longrightarrow> obj_get ob ''owner'' \<noteq> JStr owner \<Longrightarrow>
   read_json (snd (release_loop owner task ps s)) p = Inr (Some ob)"
proof (induction owner task ps s rule: release_loop.induct)
  case (2 owner task q ps s)
  have "read_json (unlink_json q s) p = Inr (Some ob)"
    if "read_json s q = Inr (Some ob')" "obj_get ob' ''owner'' = JStr owner" for ob'
    using that 2(5,6) by (auto simp: js.read_unlink)
  with 2 show ?case
    by (auto split: sum.splits option.splits prod.splits if_splits)
qed simp

lemma lease_step_foreign:
  assumes p: "lease_path env project b = Inr p" and r: "read_json s p = Inr (Some ob)"
    and ow: "obj_get ob ''owner'' = JStr A" "op_owner x \<noteq> A"
    and act: "\<forall>now < t. lease_active env ob now" "op_before t x"
  shows "read_json (lease_step env project x s) p = Inr (Some ob)"
proof (cases x)
  case (Acquire rq)
  obtain res s' where run: "acquire_writer_leases env project rq s = (res, s')"
    by (cases "acquire_writer_leases env project rq s")
  from run show ?thesis
  proof (cases rule: acquire_cases)
    case refused
    with run r Acquire show ?thesis by simp
  next
    case (wrote existing records paths u)
    let ?bs = "unique_branches (lr_branches rq)"
    have "p \<notin> set paths"
    proof
      assume "p \<in> set paths"
      then obtain i where i: "i < length records" "lease_path env project (fst (records ! i)) = Inr p"
        using rmap_Inr_nth [OF wrote(4)] rmap_Inr_length [OF wrote(4)] by (metis in_set_conv_nth)
      then have i2: "i < length (zip ?bs existing)" "fst (records ! i) = fst (zip ?bs existing ! i)"
        using wrote(3) by auto
      obtain b1 e1 where be: "zip ?bs existing ! i = (b1, e1)" by (cases "zip ?bs existing ! i")
      have mem: "(b1, e1) \<in> set (zip ?bs existing)" using i2(1) be by (metis nth_mem)
      have "read_lease env project s b1 = Inr e1" by (rule zip_rmap_in [OF wrote(1) mem])
      then have "e1 = Some ob" using i(2) i2(2) be r by (simp add: read_lease_def)
      moreover have "\<not> foreign_active env (lr_owner rq) (lr_now rq) e1" using wrote(2) mem by fastforce
      ultimately show False
        using ow act Acquire by (simp add: foreign_active_def)
    qed
    then have "p \<notin> fst ` set (zip paths (map snd records))"
      using set_zip_leftD by fastforce
    with js.write_all_other wrote(5) r run Acquire show ?thesis
      by (auto simp: write_leases_write_all)
  qed
next
  case (Release b' B task now)
  with p r ow act lease_paths_fail_together [OF p, of b'] show ?thesis
    by (auto simp: release_writer_lease_def Let_def js.read_unlink split: option.splits sum.splits)
next
  case (ReleaseOwner B task)
  obtain rt where rt: "state_root env project = Inr rt" using state_root_lease [OF p] by blast
  from release_loop_foreign [OF r, of B task "lease_files rt s"] ow ReleaseOwner rt show ?thesis
    by (auto simp: release_owner_leases_def split: sum.splits prod.splits)
qed

lemma lease_run_foreign:
  assumes "lease_path env project b = Inr p" "obj_get ob ''owner'' = JStr A" "\<forall>now < t. lease_active env ob now"
  shows "read_json s p = Inr (Some ob) \<Longrightarrow> \<forall>x \<in> set xs. op_owner x \<noteq> A \<and> op_before t x \<Longrightarrow>
    read_json (lease_run env project xs s) p = Inr (Some ob)"
proof (induction xs arbitrary: s)
  case (Cons x xs)
  then show ?case using lease_step_foreign [OF assms(1) Cons.prems(1) assms(2) _ assms(3)] by simp
qed simp

lemma unique_branches_set [simp]: "set (unique_branches bs) = {b \<in> set bs. b \<noteq> []}"
  by (auto simp: unique_branches_def)

lemma acquire_Inr:
  assumes "acquire_writer_leases env project rq s = (Inr ls, s')" "b \<in> set (lr_branches rq)" "b \<noteq> []"
  shows "\<exists>p ob. lease_path env project b = Inr p \<and> read_json s' p = Inr (Some ob) \<and>
    obj_get ob ''owner'' = JStr (lr_owner rq) \<and>
    (\<forall>now < lr_now rq + of_int (lr_ttl rq). lease_active env ob now)"
  using assms(1)
proof (cases rule: acquire_cases)
  case (wrote existing records paths u)
  let ?bs = "unique_branches (lr_branches rq)"
  note len = rmap_Inr_length [OF wrote(1)] rmap_Inr_length [OF wrote(4)]
  obtain v where u: "u = Inr v" using wrote(6) by (cases u) auto
  obtain i where i: "i < length ?bs" "?bs ! i = b"
    using assms(2,3) by (metis (mono_tags, lifting) in_set_conv_nth mem_Collect_eq unique_branches_set)
  have "fst (records ! i) = b" "i < length records" using i len wrote(3) by auto
  then have p: "lease_path env project b = Inr (paths ! i)" "paths ! i \<in> set paths"
    using rmap_Inr_nth [OF wrote(4), of i] len by auto
  have "paths ! i \<in> fst ` set (zip paths (map snd records))"
    using p(2) len by (metis length_map map_fst_zip set_map)
  with js.write_all_done wrote(5) u obtain ob where
    ob: "(paths ! i, ob) \<in> set (zip paths (map snd records))" "read_json s' (paths ! i) = Inr (Some ob)"
    unfolding write_leases_write_all by blast
  then have "ob \<in> set (map snd records)" by (metis set_zip_rightD)
  then obtain b' prev where "ob = lease_record env rq b' prev" using wrote(3) by auto
  with p ob show ?thesis by auto
qed simp

section \<open>Theorems\<close>

text \<open>
  C13: exclusion of writers.  Once an owner has acquired the leases of some branches, no sequence of
  operations of other owners (acquisitions, releases, releases of all their leases, in any order
  and with any failing writes) takes one of these leases away before it expires: the record of the
  owner is still in place afterwards.  Collisions of the hash that names the files do not matter.
\<close>

theorem lease_exclusive:
  assumes "acquire_writer_leases env project rq s = (Inr ls, s')"
    and "b \<in> set (lr_branches rq)" "b \<noteq> []"
    and "\<forall>x \<in> set xs. op_owner x \<noteq> lr_owner rq \<and> op_before (lr_now rq + of_int (lr_ttl rq)) x"
  shows "\<exists>ob. read_lease env project (lease_run env project xs s') b = Inr (Some ob) \<and>
    obj_get ob ''owner'' = JStr (lr_owner rq) \<and>
    (\<forall>now < lr_now rq + of_int (lr_ttl rq). lease_active env ob now)"
proof -
  obtain p ob where p: "lease_path env project b = Inr p" "read_json s' p = Inr (Some ob)"
    and ob: "obj_get ob ''owner'' = JStr (lr_owner rq)"
      "\<forall>now < lr_now rq + of_int (lr_ttl rq). lease_active env ob now"
    using acquire_Inr [OF assms(1-3)] by blast
  from lease_run_foreign [OF p(1) ob p(2) assms(4)] p(1) ob show ?thesis
    by (auto simp: read_lease_def)
qed

text \<open>The store of the witnesses: no failing calls, no hash, an empty store.\<close>

definition demo_store_env :: store_env where
  "demo_store_env = \<lparr>en_config_root = [''c''], en_json_size = (\<lambda>v. 10), en_scope_id = (\<lambda>x. x),
     en_iso = (\<lambda>t. ''t''), en_clock = 5, en_float = (\<lambda>x. None), en_fault = (\<lambda>n. False)\<rparr>"

definition demo_store :: store where
  "demo_store = \<lparr>st_files = [], st_calls = 0\<rparr>"

definition demo_request :: "string \<Rightarrow> real \<Rightarrow> lease_request" where
  "demo_request owner now = \<lparr>lr_branches = [''main''], lr_owner = owner, lr_task = None, lr_ttl = 60,
     lr_checkpoint = None, lr_now = now\<rparr>"

lemma list_ex_never [simp]: "\<not> list_ex (\<lambda>n. False) xs"
  by (simp add: list_ex_iff)

lemma demo_branches: "unique_branches [''main''] = [''main'']"
  by (simp add: unique_branches_def)

lemma demo_acquire:
  "\<exists>ls s'. acquire_writer_leases demo_store_env [''w''] (demo_request ''A'' 100) demo_store = (Inr ls, s')"
  by (simp add: acquire_writer_leases_def demo_request_def demo_branches MAX_WRITER_TTL_SECONDS_def
      read_lease_def lease_path_def state_root_def read_json_def write_json_def Let_def
      demo_store_env_def demo_store_def foreign_active_def MAX_STATE_BYTES_def)

theorem lease_exclusive_witness:
  "\<exists>s' ob. s' = snd (acquire_writer_leases demo_store_env [''w''] (demo_request ''A'' 100) demo_store) \<and>
     read_lease demo_store_env [''w'']
       (lease_run demo_store_env [''w''] [Acquire (demo_request ''B'' 120), ReleaseOwner ''B'' None] s') ''main''
       = Inr (Some ob) \<and> obj_get ob ''owner'' = JStr ''A''"
proof -
  obtain ls s' where a: "acquire_writer_leases demo_store_env [''w''] (demo_request ''A'' 100) demo_store = (Inr ls, s')"
    using demo_acquire by blast
  have "\<exists>ob. read_lease demo_store_env [''w'']
       (lease_run demo_store_env [''w''] [Acquire (demo_request ''B'' 120), ReleaseOwner ''B'' None] s') ''main''
       = Inr (Some ob) \<and> obj_get ob ''owner'' = JStr (lr_owner (demo_request ''A'' 100)) \<and>
    (\<forall>now < lr_now (demo_request ''A'' 100) + of_int (lr_ttl (demo_request ''A'' 100)).
        lease_active demo_store_env ob now)"
    by (rule lease_exclusive [OF a]) (simp_all add: demo_request_def)
  with a show ?thesis by (auto simp: demo_request_def)
qed

lemma write_leases_succeeds:
  assumes "\<And>n. \<not> en_fault env n" "\<And>v. Suc (en_json_size env v) \<le> MAX_STATE_BYTES"
  shows "\<exists>s'. write_leases env ws s = (Inr (), s')"
proof (induction ws arbitrary: s)
  case (Cons w ws)
  obtain p ob where w: "w = (p, ob)" by (cases w)
  have "\<exists>s1. write_json env p ob s = (Inr (), s1)"
    using assms(1) assms(2) [of "JObj ob"] by (auto simp: write_json_def Let_def list_ex_iff)
  with Cons show ?case by (auto simp: w)
qed simp

text \<open>
  An acquisition is decided as a whole.  For a well-formed request whose lease files can be
  read, on a store that accepts writes: when some requested branch is actively leased by another
  owner, the call raises \<^verbatim>\<open>WRITER_LEASE_CONFLICT\<close> and changes nothing, not even the leases of the
  other branches; otherwise, also when earlier leases have expired or are the caller's own, it
  returns and the caller holds every requested branch until the end of the requested time.
\<close>

theorem acquire_decides:
  assumes "1 \<le> lr_ttl rq" "lr_ttl rq \<le> MAX_WRITER_TTL_SECONDS" "lr_owner rq \<noteq> []" "length (lr_owner rq) \<le> 256"
    and "unique_branches (lr_branches rq) \<noteq> []"
    and "rmap (read_lease env project s) (unique_branches (lr_branches rq)) = Inr existing"
    and "\<And>n. \<not> en_fault env n" "\<And>v. Suc (en_json_size env v) \<le> MAX_STATE_BYTES"
  shows "if list_ex (foreign_active env (lr_owner rq) (lr_now rq)) existing
    then \<exists>e. acquire_writer_leases env project rq s = (Inl e, s) \<and>
        failure_code e = Some ''WRITER_LEASE_CONFLICT''
    else \<exists>ls s'. acquire_writer_leases env project rq s = (Inr ls, s') \<and>
        (\<forall>b \<in> set (lr_branches rq). b \<noteq> [] \<longrightarrow>
          (\<exists>ob. read_lease env project s' b = Inr (Some ob) \<and> obj_get ob ''owner'' = JStr (lr_owner rq) \<and>
             (\<forall>now < lr_now rq + of_int (lr_ttl rq). lease_active env ob now)))"
proof -
  let ?bs = "unique_branches (lr_branches rq)"
  let ?c = "filter (\<lambda>br. foreign_active env (lr_owner rq) (lr_now rq) (snd br)) (zip ?bs existing)"
  have len: "length existing = length ?bs" by (rule rmap_Inr_length [OF assms(6)])
  have conf: "?c \<noteq> [] \<longleftrightarrow> list_ex (foreign_active env (lr_owner rq) (lr_now rq)) existing"
  proof -
    have "set existing = snd ` set (zip ?bs existing)" using len by (metis map_snd_zip set_map)
    then show ?thesis by (auto simp: filter_empty_conv list_ex_iff)
  qed
  show ?thesis
  proof (cases "?c = []")
    case False
    then have "acquire_writer_leases env project rq s =
         (Inl (retryable_failure ''WRITER_LEASE_CONFLICT'' ''conflict''
            [(''conflicts'', JList (map (\<lambda>br. conflict_entry (fst br) (the (snd br))) ?c))]), s)"
      using assms(1-6) by (simp add: acquire_writer_leases_def Let_def)
    moreover have "list_ex (foreign_active env (lr_owner rq) (lr_now rq)) existing" using False conf by blast
    ultimately show ?thesis by simp
  next
    case True
    obtain b0 where b0: "b0 \<in> set ?bs" using assms(5) by (meson last_in_set)
    then obtain i where "i < length ?bs" "?bs ! i = b0" by (metis in_set_conv_nth)
    then have "read_lease env project s b0 = Inr (existing ! i)" using rmap_Inr_nth [OF assms(6)] by metis
    then obtain p0 where p0: "lease_path env project b0 = Inr p0"
      by (auto simp: read_lease_def result_simps)
    let ?records = "map (\<lambda>br. (fst br, lease_record env rq (fst br) (snd br))) (zip ?bs existing)"
    obtain paths where paths: "rmap (\<lambda>br. lease_path env project (fst br)) ?records = Inr paths"
      using rmap_lease_paths [OF p0] by blast
    obtain s' where w: "write_leases env (zip paths (map snd ?records)) s = (Inr (), s')"
      using write_leases_succeeds [OF assms(7,8)] by blast
    have run: "acquire_writer_leases env project rq s = (Inr ?records, s')"
      using assms(1-6) True paths w by (simp add: acquire_writer_leases_def Let_def)
    show ?thesis
      using run acquire_Inr [OF run] conf True by (fastforce simp: read_lease_def)
  qed
qed

theorem acquire_decides_witness:
  "\<exists>ls s'. acquire_writer_leases demo_store_env [''w''] (demo_request ''A'' 100) demo_store = (Inr ls, s') \<and>
     (\<exists>ob. read_lease demo_store_env [''w''] s' ''main'' = Inr (Some ob) \<and> obj_get ob ''owner'' = JStr ''A'')"
proof -
  let ?rq = "demo_request ''A'' 100"
  have r: "rmap (read_lease demo_store_env [''w''] demo_store) (unique_branches (lr_branches ?rq)) = Inr [None]"
    by (simp add: demo_request_def demo_branches read_lease_def lease_path_def state_root_def read_json_def
        demo_store_env_def demo_store_def)
  have v: "1 \<le> lr_ttl ?rq" "lr_ttl ?rq \<le> MAX_WRITER_TTL_SECONDS" "lr_owner ?rq \<noteq> []" "length (lr_owner ?rq) \<le> 256"
    "unique_branches (lr_branches ?rq) \<noteq> []"
    by (simp_all add: demo_request_def demo_branches MAX_WRITER_TTL_SECONDS_def)
  have e: "\<And>n. \<not> en_fault demo_store_env n" "\<And>v. Suc (en_json_size demo_store_env v) \<le> MAX_STATE_BYTES"
    by (simp_all add: demo_store_env_def MAX_STATE_BYTES_def)
  from acquire_decides [OF v r e] show ?thesis
    by (auto simp: foreign_active_def demo_request_def)
qed

text \<open>
  C18: checkpoints round-trip and do not disturb each other.  A checkpoint that was written can be
  read back: as the checkpoint of its branch, or, when its phase is \<^verbatim>\<open>before\<close>, without touching
  the checkpoint of any branch; with an authority owner also as that owner's checkpoint.  (File
  names are digests of one fixed length, so that the two suffixes cannot be confused.)
\<close>

theorem write_checkpoint_roundtrip:
  assumes "write_state_checkpoint env project new_id rq s = (Inr r, s')"
    and "\<forall>x y. length (en_scope_id env x) = length (en_scope_id env y)"
  shows "(if cr_phase rq = ''before''
      then \<forall>b. read_state_checkpoint env project b s' = read_state_checkpoint env project b s
      else read_state_checkpoint env project (cr_branch rq) s' = Inr (Some r) \<and>
        (\<forall>a. cr_authority rq = Some a \<longrightarrow> read_authoritative_state_checkpoint env project a s' = Inr (Some r)))"
proof -
  let ?r = "checkpoint_record env new_id rq"
  obtain rt where rt: "state_root env project = Inr rt"
    using assms(1) by (auto simp: write_state_checkpoint_def checkpoint_path_def Let_def result_simps
        split: sum.splits)
  let ?p = "rt @ [''checkpoints'', en_scope_id env (cr_branch rq) @
      (if cr_phase rq = ''before'' then ''.before.json'' else ''.json'')]"
  obtain u1 s1 where w: "write_json env ?p ?r s = (Inr u1, s1)"
    using assms(1) rt by (auto simp: write_state_checkpoint_def checkpoint_path_def Let_def
        split: sum.splits prod.splits)
  have suffix: "en_scope_id env b @ ''.json'' \<noteq> en_scope_id env c @ ''.before.json''" for b c
    using assms(2) by (metis append_eq_append_conv list.inject list.distinct(1))
  show ?thesis
  proof (cases "cr_phase rq = ''before''")
    case True
    then have "s' = s1" using assms(1) rt w
      by (auto simp: write_state_checkpoint_def checkpoint_path_def Let_def split: option.splits)
    with True js.read_write_other [OF w] suffix show ?thesis
      by (auto simp: read_state_checkpoint_def checkpoint_path_def rt)
  next
    case False
    show ?thesis
    proof (cases "cr_authority rq")
      case None
      then have "s' = s1" "r = ?r" using assms(1) rt w False
        by (auto simp: write_state_checkpoint_def checkpoint_path_def Let_def)
      with False None js.read_write_same [OF w] show ?thesis
        by (simp add: read_state_checkpoint_def checkpoint_path_def rt)
    next
      case (Some a)
      let ?q = "rt @ [''contexts'', en_scope_id env a @ ''.json'']"
      obtain u2 where w2: "write_json env ?q ?r s1 = (Inr u2, s')" and r: "r = ?r"
        using assms(1) rt w False Some
        by (auto simp: write_state_checkpoint_def checkpoint_path_def context_checkpoint_path_def Let_def
            split: sum.splits prod.splits)
      have "read_json s' ?p = read_json s1 ?p" using js.read_write_other [OF w2] by simp
      with False Some r js.read_write_same [OF w] js.read_write_same [OF w2] show ?thesis
        by (simp add: read_state_checkpoint_def read_authoritative_state_checkpoint_def checkpoint_path_def
            context_checkpoint_path_def rt)
    qed
  qed
qed

definition demo_checkpoint :: checkpoint_request where
  "demo_checkpoint = \<lparr>cr_branch = ''main'', cr_snapshot = [(''repo'', JStr ''r'')], cr_phase = ''after'',
     cr_operation = ''push'', cr_owner = Some ''A'', cr_task = None, cr_outcome = ''ok'', cr_previous = None,
     cr_authority = Some ''A''\<rparr>"

theorem write_checkpoint_roundtrip_witness:
  "let env = demo_store_env\<lparr>en_scope_id := (\<lambda>x. ''h'')\<rparr>;
       r = write_state_checkpoint env [''w''] ''id'' demo_checkpoint demo_store in
   read_state_checkpoint env [''w''] ''main'' (snd r) = Inr (Some (checkpoint_record env ''id'' demo_checkpoint))"
proof -
  let ?env = "demo_store_env\<lparr>en_scope_id := (\<lambda>x. ''h'')\<rparr>"
  obtain s' where w: "write_state_checkpoint ?env [''w''] ''id'' demo_checkpoint demo_store =
      (Inr (checkpoint_record ?env ''id'' demo_checkpoint), s')"
    by (simp add: write_state_checkpoint_def checkpoint_path_def context_checkpoint_path_def state_root_def
        write_json_def demo_store_env_def demo_store_def demo_checkpoint_def MAX_STATE_BYTES_def Let_def)
  have "cr_phase demo_checkpoint \<noteq> ''before''" "cr_branch demo_checkpoint = ''main''"
    by (simp_all add: demo_checkpoint_def)
  with write_checkpoint_roundtrip [OF w] w show ?thesis by (simp add: Let_def)
qed

end
