(* ===== verification/Processes.thy ===== *)
theory Processes
  imports TextUtils
begin

text \<open>
  \<open>coding_tools_mcp/processes.py\<close>: the retained output of a command session, its cursor-based
  reading and its life cycle.  The process itself belongs to the operating system: what
  \<^verbatim>\<open>poll()\<close> reports is a field of the state that the environment changes, and the report after
  a termination request is an argument.  The signal names of the platform are a parameter.
\<close>

section \<open>Output buffers\<close>

definition SESSION_BUFFER_BYTES :: nat where
  "SESSION_BUFFER_BYTES = 524288"

text \<open>The fields that \<^verbatim>\<open>ExecSession\<close> keeps once for each of its two streams.\<close>

record stream_buf =
  sb_data :: bytes
  sb_start_offset :: nat
  sb_cursor :: nat
  sb_total_bytes :: nat
  sb_dropped_bytes :: nat

definition empty_buf :: stream_buf where
  "empty_buf = \<lparr>sb_data = [], sb_start_offset = 0, sb_cursor = 0, sb_total_bytes = 0, sb_dropped_bytes = 0\<rparr>"

text \<open>\<^verbatim>\<open>_trim_buffer\<close>: the trimmed buffer, its new start offset and the number of dropped bytes.\<close>

definition trim_buffer :: "nat \<Rightarrow> bytes \<Rightarrow> nat \<Rightarrow> nat \<Rightarrow> bytes \<times> nat \<times> nat" where
  "trim_buffer limit buffer tot start =
     (if length buffer \<le> limit then (buffer, start, 0)
      else let overflow = length buffer - limit; rest = drop overflow buffer in
           (rest, tot - length rest, overflow))"

definition append_stream :: "nat \<Rightarrow> bytes \<Rightarrow> stream_buf \<Rightarrow> stream_buf" where
  "append_stream limit chunk b =
     (let total = sb_total_bytes b + length chunk in
      case trim_buffer limit (sb_data b @ chunk) total (sb_start_offset b) of
        (rest, start, overflow) \<Rightarrow>
          b\<lparr>sb_data := rest, sb_start_offset := start, sb_total_bytes := total,
            sb_dropped_bytes := sb_dropped_bytes b + overflow\<rparr>)"

text \<open>The part of \<^verbatim>\<open>snapshot_since_cursor\<close> under the lock: bytes, omitted count, new buffer state.\<close>

definition read_stream :: "stream_buf \<Rightarrow> bytes \<times> nat \<times> stream_buf" where
  "read_stream b =
     (drop (sb_cursor b - sb_start_offset b) (sb_data b), sb_start_offset b - sb_cursor b,
      b\<lparr>sb_cursor := sb_total_bytes b\<rparr>)"

section \<open>Sessions\<close>

record ExecSession =
  es_id :: string
  es_poll :: "int option"
  es_timeout_at :: "real option"
  es_warnings :: "string list"
  es_stdout :: stream_buf
  es_stderr :: stream_buf
  es_limit :: nat
  es_completed_at :: "real option"
  es_closed :: bool
  es_exit_code :: "int option"
  es_signal_name :: "string option"
  es_timed_out :: bool
  es_terminating :: bool
  es_pty :: "nat option"
  es_cleanup :: bool
  es_auto_release :: bool
  es_stdin_closed :: bool
  es_cleanup_done :: bool
  es_reaper_started :: bool
  es_cleanup_runs :: nat

definition retained_bytes :: "ExecSession \<Rightarrow> nat" where
  "retained_bytes s = length (sb_data (es_stdout s)) + length (sb_data (es_stderr s))"

definition append_stdout :: "bytes \<Rightarrow> ExecSession \<Rightarrow> ExecSession" where
  "append_stdout chunk s = s\<lparr>es_stdout := append_stream (es_limit s) chunk (es_stdout s)\<rparr>"

definition append_stderr :: "bytes \<Rightarrow> ExecSession \<Rightarrow> ExecSession" where
  "append_stderr chunk s = s\<lparr>es_stderr := append_stream (es_limit s) chunk (es_stderr s)\<rparr>"

text \<open>\<^verbatim>\<open>write_input\<close>: the outcome of the write itself is an argument (true: it went through).\<close>

definition write_input :: "bool \<Rightarrow> ExecSession \<Rightarrow> unit result" where
  "write_input accepted s =
     (if es_stdin_closed s then Inl (tool_failure ''SESSION_CLOSED'' ''runtime'')
      else if accepted then Inr () else Inl (tool_failure ''SESSION_CLOSED'' ''runtime''))"

definition close_stdin :: "ExecSession \<Rightarrow> ExecSession" where
  "close_stdin s = (if es_pty s \<noteq> None \<or> es_stdin_closed s then s else s\<lparr>es_stdin_closed := True\<rparr>)"

definition close_pty_master_fd :: "nat \<Rightarrow> ExecSession \<Rightarrow> ExecSession" where
  "close_pty_master_fd fd s = (if es_pty s \<noteq> Some fd then s else s\<lparr>es_pty := None\<rparr>)"

definition mark_reaper_started :: "ExecSession \<Rightarrow> bool \<times> ExecSession" where
  "mark_reaper_started s =
     (if es_reaper_started s then (False, s) else (True, s\<lparr>es_reaper_started := True\<rparr>))"

text \<open>The callback is represented by whether it is present and by how often it has run.\<close>

definition release_owned_resources :: "ExecSession \<Rightarrow> ExecSession" where
  "release_owned_resources s =
     (if es_cleanup_done s then s
      else s\<lparr>es_pty := None, es_cleanup := False, es_cleanup_done := True,
             es_cleanup_runs := es_cleanup_runs s + (if es_cleanup s then 1 else 0)\<rparr>)"

definition signal_of :: "(int \<Rightarrow> string option) \<Rightarrow> int \<Rightarrow> string" where
  "signal_of sig_name n = (case sig_name n of Some t \<Rightarrow> t | None \<Rightarrow> int_str n)"

definition finish_status :: "(int \<Rightarrow> string option) \<Rightarrow> real \<Rightarrow> int \<Rightarrow> ExecSession \<Rightarrow> ExecSession" where
  "finish_status sig_name now code s =
     (let s1 = s\<lparr>es_exit_code := Some code, es_terminating := False,
                 es_signal_name :=
                   (if code < 0 then Some (signal_of sig_name (- code))
                    else if 128 < code then Some (signal_of sig_name (code - 128))
                    else es_signal_name s),
                 es_closed := True,
                 es_completed_at :=
                   (if es_completed_at s = None then Some now else es_completed_at s)\<rparr> in
      if es_auto_release s1 then release_owned_resources s1 else s1)"

definition timeout_due :: "real \<Rightarrow> ExecSession \<Rightarrow> bool" where
  "timeout_due now s \<longleftrightarrow>
     (case es_timeout_at s of None \<Rightarrow> False | Some t \<Rightarrow> t \<le> now) \<and> \<not> es_timed_out s \<and> es_poll s = None"

definition refresh_status ::
    "(int \<Rightarrow> string option) \<Rightarrow> real \<Rightarrow> int option \<Rightarrow> ExecSession \<Rightarrow> ExecSession" where
  "refresh_status sig_name now poll_after s =
     (let s1 = (if timeout_due now s then s\<lparr>es_timed_out := True, es_poll := poll_after\<rparr> else s) in
      case es_poll s1 of None \<Rightarrow> s1 | Some code \<Rightarrow> finish_status sig_name now code s1)"

definition session_status :: "ExecSession \<Rightarrow> string" where
  "session_status s =
     (if es_timed_out s then ''timeout''
      else if es_terminating s \<and> es_poll s = None then ''running''
      else if es_signal_name s \<noteq> None then ''terminated''
      else if es_poll s = None then ''running'' else ''exited'')"

definition truncate_output_bytes_tail :: "bytes \<Rightarrow> int \<Rightarrow> TextTruncation result" where
  "truncate_output_bytes_tail data mb = truncate_text_tail (decode_replace data) DEFAULT_MAX_LINES mb"

record stream_payload =
  sp_content :: pytext
  sp_truncated :: bool
  sp_truncated_by :: "string option"
  sp_output_lines :: nat
  sp_output_bytes :: nat
  sp_dropped :: nat
  sp_omitted :: nat

record session_payload =
  spl_id :: string
  spl_status :: string
  spl_exit_code :: "int option"
  spl_signal :: "string option"
  spl_timed_out :: bool
  spl_stdout :: stream_payload
  spl_stderr :: stream_payload
  spl_truncated :: bool
  spl_warnings :: "string list"

definition stream_part :: "TextTruncation \<Rightarrow> stream_buf \<Rightarrow> nat \<Rightarrow> stream_payload" where
  "stream_part t b omitted =
     \<lparr>sp_content = content t, sp_truncated = truncated t, sp_truncated_by = truncated_by t,
      sp_output_lines = output_lines t, sp_output_bytes = output_bytes t,
      sp_dropped = sb_dropped_bytes b, sp_omitted = omitted\<rparr>"

definition stream_warnings :: "string \<Rightarrow> stream_payload \<Rightarrow> string list" where
  "stream_warnings name p =
     (if sp_truncated p
      then [name @ '' truncated from tail by '' @ (case sp_truncated_by p of None \<Rightarrow> ''None'' | Some w \<Rightarrow> w)]
      else [])"

definition omitted_warnings :: "string \<Rightarrow> stream_payload \<Rightarrow> string list" where
  "omitted_warnings name p = (if 0 < sp_omitted p then [name @ '' cursor skipped dropped bytes''] else [])"

definition snapshot_since_cursor ::
    "(int \<Rightarrow> string option) \<Rightarrow> real \<Rightarrow> int option \<Rightarrow> int \<Rightarrow> ExecSession \<Rightarrow> session_payload result \<times> ExecSession"
  where
  "snapshot_since_cursor sig_name now poll_after mb s =
     (let s1 = refresh_status sig_name now poll_after s in
      case read_stream (es_stdout s1) of (out, out_om, ob) \<Rightarrow>
      case read_stream (es_stderr s1) of (err, err_om, eb) \<Rightarrow>
      let s2 = s1\<lparr>es_stdout := ob, es_stderr := eb\<rparr> in
      (rbind (truncate_output_bytes_tail out mb) (\<lambda>to.
       rbind (truncate_output_bytes_tail err mb) (\<lambda>te.
         let po = stream_part to ob out_om; pe = stream_part te eb err_om in
         Inr \<lparr>spl_id = es_id s2, spl_status = session_status s2, spl_exit_code = es_exit_code s2,
              spl_signal = es_signal_name s2, spl_timed_out = es_timed_out s2,
              spl_stdout = po, spl_stderr = pe,
              spl_truncated = (sp_truncated po \<or> sp_truncated pe \<or> 0 < out_om \<or> 0 < err_om),
              spl_warnings = es_warnings s2 @ stream_warnings ''stdout'' po @ stream_warnings ''stderr'' pe
                @ omitted_warnings ''stdout'' po @ omitted_warnings ''stderr'' pe\<rparr>)), s2))"

definition ascii_bytes :: "string \<Rightarrow> bytes" where
  "ascii_bytes t = map (\<lambda>c. word_of_nat (of_char c)) t"

definition retained_output_bytes :: "ExecSession \<Rightarrow> bytes" where
  "retained_output_bytes s =
     (let out = sb_data (es_stdout s); err = sb_data (es_stderr s);
          a = (if out = [] then [] else ascii_bytes (''--- stdout ---'' @ [CHR 0x0A]) @ out) in
      a @ (if err = [] then []
           else (if a = [] then [] else [10]) @ ascii_bytes (''--- stderr ---'' @ [CHR 0x0A]) @ err))"

definition retained_stream_bytes :: "string \<Rightarrow> ExecSession \<Rightarrow> (bytes \<times> nat \<times> nat \<times> nat) result" where
  "retained_stream_bytes stream s =
     (let f = (\<lambda>b. (sb_data b, sb_start_offset b, sb_total_bytes b, sb_dropped_bytes b)) in
      if stream = ''stdout'' then Inr (f (es_stdout s))
      else if stream = ''stderr'' then Inr (f (es_stderr s))
      else Inl (ValueError ''Unknown output stream''))"

text \<open>The watchdog thread: the process ended in time or not, as the argument says.\<close>

definition watchdog ::
    "(int \<Rightarrow> string option) \<Rightarrow> bool \<Rightarrow> real \<Rightarrow> int option \<Rightarrow> ExecSession \<Rightarrow> ExecSession" where
  "watchdog sig_name ended now poll_after s =
     (if es_timeout_at s = None then s
      else if ended then refresh_status sig_name now poll_after s
      else if es_poll s \<noteq> None \<or> es_timed_out s then s
      else refresh_status sig_name now poll_after (s\<lparr>es_timed_out := True, es_poll := poll_after\<rparr>))"

section \<open>The buffer is a window on the stream\<close>

text \<open>
  \<open>window limit S b\<close>: the buffer holds the last \<open>limit\<close> bytes of the whole stream \<open>S\<close>, and its
  counters say where it lies.
\<close>

definition window :: "nat \<Rightarrow> bytes \<Rightarrow> stream_buf \<Rightarrow> bool" where
  "window limit S b \<longleftrightarrow>
     sb_data b = drop (length S - limit) S \<and> sb_total_bytes b = length S \<and>
     sb_start_offset b = length S - limit \<and> sb_dropped_bytes b = length S - limit \<and>
     sb_cursor b \<le> length S"

lemma window_empty: "window limit [] empty_buf"
  by (simp add: window_def empty_buf_def)

lemma window_append: "window limit S b \<Longrightarrow> window limit (S @ chunk) (append_stream limit chunk b)"
  by (cases "length S \<le> limit"; cases "chunk = []")
    (auto simp: window_def append_stream_def trim_buffer_def Let_def add.commute)

lemma window_read:
  assumes "window limit S b" "read_stream b = (out, om, b')"
  shows "window limit S b'" "out = drop (sb_cursor b + om) S" "sb_cursor b' = length S"
    "sb_cursor b + om + length out = length S" "om = (length S - limit) - sb_cursor b"
proof -
  have "(c - a) + a = c + (a - c)" for a c :: nat by simp
  then have "sb_cursor b - (length S - limit) + (length S - limit) =
      sb_cursor b + (length S - limit - sb_cursor b)" .
  then show "window limit S b'" "out = drop (sb_cursor b + om) S" "sb_cursor b' = length S"
    "sb_cursor b + om + length out = length S" "om = (length S - limit) - sb_cursor b"
    using assms by (auto simp: window_def read_stream_def)
qed

section \<open>Sessions over time\<close>

datatype session_event =
    Out bytes
  | Err bytes
  | Snap real "int option" int
  | Refresh real "int option"
  | Watchdog bool real "int option"
  | Exit int
  | ReleaseResources
  | ClosePty nat
  | CloseStdin
  | MarkReaper

fun session_step :: "(int \<Rightarrow> string option) \<Rightarrow> session_event \<Rightarrow> ExecSession \<Rightarrow> ExecSession" where
  "session_step sn (Out c) s = append_stdout c s"
| "session_step sn (Err c) s = append_stderr c s"
| "session_step sn (Snap now poll mb) s = snd (snapshot_since_cursor sn now poll mb s)"
| "session_step sn (Refresh now poll) s = refresh_status sn now poll s"
| "session_step sn (Watchdog ended now poll) s = watchdog sn ended now poll s"
| "session_step sn (Exit code) s = s\<lparr>es_poll := Some code\<rparr>"
| "session_step sn ReleaseResources s = release_owned_resources s"
| "session_step sn (ClosePty fd) s = close_pty_master_fd fd s"
| "session_step sn CloseStdin s = close_stdin s"
| "session_step sn MarkReaper s = snd (mark_reaper_started s)"

fun session_run :: "(int \<Rightarrow> string option) \<Rightarrow> session_event list \<Rightarrow> ExecSession \<Rightarrow> ExecSession" where
  "session_run sn [] s = s"
| "session_run sn (e # es) s = session_run sn es (session_step sn e s)"

fun out_of :: "session_event \<Rightarrow> bytes" where
  "out_of (Out c) = c"
| "out_of _ = []"

text \<open>All standard output so far, and how much of it there was at the last snapshot.\<close>

definition out_stream :: "session_event list \<Rightarrow> bytes" where
  "out_stream evs = concat (map out_of evs)"

fun is_snap :: "session_event \<Rightarrow> bool" where
  "is_snap (Snap _ _ _) = True"
| "is_snap _ = False"

definition seen_length :: "session_event list \<Rightarrow> nat" where
  "seen_length evs = length (out_stream (rev (dropWhile (\<lambda>e. \<not> is_snap e) (rev evs))))"

definition fresh_session :: "ExecSession \<Rightarrow> bool" where
  "fresh_session s \<longleftrightarrow> es_stdout s = empty_buf \<and> es_stderr s = empty_buf"

lemma finish_status_keeps [simp]:
  "es_stdout (finish_status sn now c s) = es_stdout s" "es_stderr (finish_status sn now c s) = es_stderr s"
  "es_limit (finish_status sn now c s) = es_limit s"
  by (simp_all add: finish_status_def release_owned_resources_def Let_def)

lemma refresh_status_keeps [simp]:
  "es_stdout (refresh_status sn now p s) = es_stdout s" "es_stderr (refresh_status sn now p s) = es_stderr s"
  "es_limit (refresh_status sn now p s) = es_limit s"
  by (simp_all add: refresh_status_def Let_def split: option.splits)

lemma watchdog_keeps [simp]:
  "es_stdout (watchdog sn e now p s) = es_stdout s" "es_stderr (watchdog sn e now p s) = es_stderr s"
  "es_limit (watchdog sn e now p s) = es_limit s"
  by (simp_all add: watchdog_def)

lemma snapshot_state:
  "es_stdout (snd (snapshot_since_cursor sn now p mb s)) = snd (snd (read_stream (es_stdout s)))"
  "es_stderr (snd (snapshot_since_cursor sn now p mb s)) = snd (snd (read_stream (es_stderr s)))"
  "es_limit (snd (snapshot_since_cursor sn now p mb s)) = es_limit s"
  by (simp_all add: snapshot_since_cursor_def Let_def split: prod.splits)

lemma small_steps_keep [simp]:
  "es_stdout (release_owned_resources s) = es_stdout s" "es_limit (release_owned_resources s) = es_limit s"
  "es_stdout (close_pty_master_fd fd s) = es_stdout s" "es_limit (close_pty_master_fd fd s) = es_limit s"
  "es_stdout (close_stdin s) = es_stdout s" "es_limit (close_stdin s) = es_limit s"
  "es_stdout (snd (mark_reaper_started s)) = es_stdout s" "es_limit (snd (mark_reaper_started s)) = es_limit s"
  by (simp_all add: release_owned_resources_def close_pty_master_fd_def close_stdin_def mark_reaper_started_def)

lemma session_step_limit [simp]: "es_limit (session_step sn e s) = es_limit s"
  by (cases e) (simp_all add: append_stdout_def append_stderr_def snapshot_state)

lemma out_stream_snoc [simp]: "out_stream (evs @ [e]) = out_stream evs @ out_of e"
  by (simp add: out_stream_def)

lemma seen_length_snoc:
  "seen_length (evs @ [e]) = (if is_snap e then length (out_stream evs) else seen_length evs)"
  by (cases e) (simp_all add: seen_length_def out_stream_def)

lemma session_run_snoc: "session_run sn (evs @ [e]) s = session_step sn e (session_run sn evs s)"
  by (induction evs arbitrary: s) simp_all

lemma session_run_window:
  assumes "fresh_session s"
  shows "window (es_limit s) (out_stream evs) (es_stdout (session_run sn evs s)) \<and>
    sb_cursor (es_stdout (session_run sn evs s)) = seen_length evs \<and>
    es_limit (session_run sn evs s) = es_limit s"
proof (induction evs rule: rev_induct)
  case Nil
  then show ?case
    using assms window_empty by (simp add: fresh_session_def out_stream_def seen_length_def empty_buf_def)
next
  case (snoc e evs)
  let ?s = "session_run sn evs s"
  have cur: "sb_cursor (append_stream l c b) = sb_cursor b" for l c b
    by (simp add: append_stream_def Let_def split: prod.splits)
  obtain out om b' where r: "read_stream (es_stdout ?s) = (out, om, b')" by (cases "read_stream (es_stdout ?s)")
  show ?case
    using snoc window_append [of "es_limit s" "out_stream evs" "es_stdout ?s"]
      window_read [of "es_limit s" "out_stream evs" "es_stdout ?s", OF _ r] r
    by (cases e)
      (simp_all add: session_run_snoc seen_length_snoc append_stdout_def append_stderr_def snapshot_state cur)
qed

lemma truncate_output_returns:
  "\<exists>t. truncate_output_bytes_tail data mb = Inr t \<and> int (length (utf8 (content t))) \<le> max 1 mb \<and>
     (\<not> truncated t \<longrightarrow> content t = decode_replace data)"
proof -
  obtain t where t: "truncate_output_bytes_tail data mb = Inr t"
    using tail.returns [OF decode_replace_scalar, of data DEFAULT_MAX_LINES mb]
    unfolding truncate_output_bytes_tail_def by blast
  note t' = t [unfolded truncate_output_bytes_tail_def]
  from t tail.sizes [OF t'] tail.byte_budget [OF t'] tail.whole [OF t'] show ?thesis by auto
qed

section \<open>Theorems\<close>

text \<open>
  C29: nothing of the output is shown twice and nothing disappears unreported.  After any history
  of a session (output on both streams, snapshots, refreshes, timeouts, exit, cleanup) the next
  snapshot returns; its standard output is the decoded stream from the position of the previous
  snapshot, less exactly the \<^verbatim>\<open>stdout_omitted_bytes\<close> that it reports, which are the bytes that
  fell out of the bounded buffer in between; what is shown keeps to the byte limit and is complete
  unless it is marked as truncated; and the buffer never holds more than its limit.
\<close>

theorem snapshot_accounts_for_output:
  assumes "fresh_session s"
  shows "\<exists>p s'. snapshot_since_cursor sn now poll mb (session_run sn evs s) = (Inr p, s') \<and>
    sp_omitted (spl_stdout p) = (length (out_stream evs) - es_limit s) - seen_length evs \<and>
    (\<not> sp_truncated (spl_stdout p) \<longrightarrow>
       sp_content (spl_stdout p) =
         decode_replace (drop (seen_length evs + sp_omitted (spl_stdout p)) (out_stream evs))) \<and>
    int (length (utf8 (sp_content (spl_stdout p)))) \<le> max 1 mb \<and>
    sb_cursor (es_stdout s') = length (out_stream evs) \<and>
    length (sb_data (es_stdout s')) \<le> es_limit s"
proof -
  let ?s = "session_run sn evs s"
  note w = session_run_window [OF assms, of evs sn]
  obtain out om b' where r: "read_stream (es_stdout ?s) = (out, om, b')" by (cases "read_stream (es_stdout ?s)")
  obtain err em e' where re: "read_stream (es_stderr ?s) = (err, em, e')" by (cases "read_stream (es_stderr ?s)")
  note rd = window_read [OF conjunct1 [OF w] r]
  obtain to te where to: "truncate_output_bytes_tail out mb = Inr to"
      "int (length (utf8 (content to))) \<le> max 1 mb" "\<not> truncated to \<longrightarrow> content to = decode_replace out"
    and te: "truncate_output_bytes_tail err mb = Inr te"
    using truncate_output_returns [of out mb] truncate_output_returns [of err mb] by blast
  have len: "length (sb_data b') \<le> es_limit s" using rd(1) by (simp add: window_def)
  show ?thesis
    using r re to te rd w len
    by (simp add: snapshot_since_cursor_def Let_def stream_part_def)
qed

definition demo_session :: ExecSession where
  "demo_session =
     \<lparr>es_id = ''s'', es_poll = None, es_timeout_at = None, es_warnings = [], es_stdout = empty_buf,
      es_stderr = empty_buf, es_limit = 4, es_completed_at = None, es_closed = False, es_exit_code = None,
      es_signal_name = None, es_timed_out = False, es_terminating = False, es_pty = Some 3, es_cleanup = True,
      es_auto_release = True, es_stdin_closed = False, es_cleanup_done = False, es_reaper_started = False,
      es_cleanup_runs = 0\<rparr>"

theorem snapshot_accounts_for_output_witness:
  "\<exists>p s'. snapshot_since_cursor (\<lambda>n. None) 0 None 100
       (session_run (\<lambda>n. None) [Out [97, 98], Snap 0 None 9, Out [99, 100, 101], Out [102, 103]] demo_session)
       = (Inr p, s') \<and> sp_omitted (spl_stdout p) = 1"
proof -
  let ?evs = "[Out [97, 98], Snap 0 None 9, Out [99, 100, 101], Out [102, 103]]"
  have f: "fresh_session demo_session" by (simp add: fresh_session_def demo_session_def)
  have "length (out_stream ?evs) = 7" "seen_length ?evs = 2" "es_limit demo_session = 4"
    by (simp_all add: out_stream_def seen_length_def demo_session_def)
  with snapshot_accounts_for_output [OF f, of "\<lambda>n. None" 0 None 100 ?evs] show ?thesis by auto
qed

text \<open>
  The resources of a session are released exactly once.  Over any history the cleanup callback
  of a session that has one runs at most once; it has run as soon as the session is released, and
  with automatic release the first refresh after the process has exited (or has been stopped by its
  timeout) releases it, records the exit code and the completion time, and reports it closed.
\<close>

theorem cleanup_exactly_once:
  assumes "es_cleanup s" "\<not> es_cleanup_done s" "es_cleanup_runs s = 0" "es_auto_release s"
  shows "es_cleanup_runs (session_run sn evs s) = (if es_cleanup_done (session_run sn evs s) then 1 else 0) \<and>
    (\<forall>code now poll. es_poll (session_run sn evs s) = Some code \<longrightarrow>
       (let s' = refresh_status sn now poll (session_run sn evs s) in
        es_cleanup_done s' \<and> es_cleanup_runs s' = 1 \<and> es_closed s' \<and> es_exit_code s' = Some code \<and>
        es_completed_at s' \<noteq> None))"
proof -
  let ?J = "\<lambda>s. es_auto_release s \<and> es_cleanup s = (\<not> es_cleanup_done s) \<and>
      es_cleanup_runs s = (if es_cleanup_done s then 1 else 0)"
  have rel: "?J s \<Longrightarrow> ?J (release_owned_resources s)" for s
    by (simp add: release_owned_resources_def)
  have fin: "?J s \<Longrightarrow> ?J (finish_status sn now c s)" for s now c
    by (simp add: finish_status_def Let_def release_owned_resources_def)
  have ref: "?J s \<Longrightarrow> ?J (refresh_status sn now p s)" for s now p
    using fin by (simp add: refresh_status_def Let_def split: option.splits)
  have wd: "?J s \<Longrightarrow> ?J (watchdog sn e now p s)" for s e now p
    using ref [of s now p] ref [of "s\<lparr>es_timed_out := True, es_poll := p\<rparr>" now p]
    by (simp add: watchdog_def)
  have snap: "?J s \<Longrightarrow> ?J (snd (snapshot_since_cursor sn now p mb s))" for s now p mb
    using ref by (simp add: snapshot_since_cursor_def Let_def split: prod.splits)
  have step: "?J s \<Longrightarrow> ?J (session_step sn e s)" for s e
    using rel ref wd snap
    by (cases e) (simp_all add: append_stdout_def append_stderr_def close_pty_master_fd_def close_stdin_def
        mark_reaper_started_def)
  have run: "?J s \<Longrightarrow> ?J (session_run sn evs s)" for s
    by (induction evs arbitrary: s) (simp_all add: step)
  have J: "?J (session_run sn evs s)" using run assms by simp
  moreover have "let s' = refresh_status sn now poll (session_run sn evs s) in
      es_cleanup_done s' \<and> es_cleanup_runs s' = 1 \<and> es_closed s' \<and> es_exit_code s' = Some code \<and>
      es_completed_at s' \<noteq> None" if "es_poll (session_run sn evs s) = Some code" for code now poll
    using that J by (auto simp: refresh_status_def timeout_due_def finish_status_def release_owned_resources_def Let_def)
  ultimately show ?thesis by blast
qed

theorem cleanup_exactly_once_witness:
  "es_cleanup_runs (session_run (\<lambda>n. None) [Exit 0, Refresh 1 None, ReleaseResources, Refresh 2 None] demo_session) = 1"
proof -
  let ?s = "session_run (\<lambda>n. None) [Exit 0, Refresh 1 None, ReleaseResources, Refresh 2 None] demo_session"
  have "es_cleanup_done ?s"
    by (simp add: demo_session_def refresh_status_def timeout_due_def finish_status_def
        release_owned_resources_def Let_def)
  with cleanup_exactly_once [of demo_session "\<lambda>n. None" "[Exit 0, Refresh 1 None, ReleaseResources, Refresh 2 None]"]
  show ?thesis by (simp add: demo_session_def)
qed

end
