(* ===== verification/Registries.thy ===== *)
theory Registries
  imports Processes "HOL-Library.Multiset"
begin

text \<open>
  \<open>coding_tools_mcp/session_state.py\<close>: the registry of logical contexts and the registry of shared
  jobs.  Each critical section is one definition and a method is the composition of its sections; a
  section reads the clock once.
  Object identity (\<^verbatim>\<open>current is state\<close>) is a number that every context gets when it is created.
  Path resolution is a parameter, random identifiers are arguments, and the calls of the expiry
  callback are logged in the state.
\<close>

section \<open>Logical contexts\<close>

definition MAX_LOGICAL_CONTEXTS :: nat where
  "MAX_LOGICAL_CONTEXTS = 512"

record LogicalContextState =
  lc_id :: string
  lc_object :: nat
  lc_canonical :: string
  lc_effective :: string
  lc_cwd :: string
  lc_created_at :: real
  lc_last_seen :: real
  lc_leases :: int
  lc_claimed :: bool

record context_registry =
  cr_ttl :: real
  cr_callback :: bool
  cr_contexts :: "(string, LogicalContextState) dict"
  cr_notified :: "LogicalContextState list"
  cr_objects :: nat

type_synonym resolver = "string \<Rightarrow> string result"

text \<open>A context object as a client holds it: its identifier and its identity.\<close>

type_synonym ctx_ref = "string \<times> nat"

definition notify_expired :: "LogicalContextState list \<Rightarrow> context_registry \<Rightarrow> context_registry" where
  "notify_expired states rg =
     (if cr_callback rg then rg\<lparr>cr_notified := cr_notified rg @ states\<rparr> else rg)"

definition ctx_expired :: "context_registry \<Rightarrow> real \<Rightarrow> LogicalContextState \<Rightarrow> bool" where
  "ctx_expired rg now c \<longleftrightarrow> lc_leases c = 0 \<and> lc_last_seen c < now - cr_ttl rg"

definition ctx_prune :: "real \<Rightarrow> context_registry \<Rightarrow> context_registry" where
  "ctx_prune now rg =
     notify_expired (filter (ctx_expired rg now) (map snd (cr_contexts rg)))
       (rg\<lparr>cr_contexts := filter (\<lambda>e. \<not> ctx_expired rg now (snd e)) (cr_contexts rg)\<rparr>)"

text \<open>\<^verbatim>\<open>min(evictable, key=last_seen)\<close>: the first context with the least time.\<close>

fun oldest :: "(string \<times> LogicalContextState) list \<Rightarrow> string \<times> LogicalContextState" where
  "oldest [e] = e"
| "oldest (e # es) =
     (let m = oldest es in if lc_last_seen (snd e) \<le> lc_last_seen (snd m) then e else m)"
| "oldest [] = undefined"

text \<open>The eviction of \<^verbatim>\<open>create\<close>: the registry without the victim, and the victim.\<close>

definition ctx_evict :: "context_registry \<Rightarrow> (LogicalContextState option \<times> context_registry) result" where
  "ctx_evict rg =
     (if length (cr_contexts rg) < MAX_LOGICAL_CONTEXTS then Inr (None, rg)
      else let evictable = filter (\<lambda>e. lc_leases (snd e) = 0) (cr_contexts rg) in
           if evictable = [] then Inl (RuntimeError ''maximum leased logical-context count reached'')
           else let victim = oldest evictable in
                Inr (Some (snd victim), rg\<lparr>cr_contexts := dict_del (fst victim) (cr_contexts rg)\<rparr>))"

text \<open>
  Several methods prune first and then enter the lock a second time.  The second critical section has
  a definition of its own, the method is the pruning followed by it.
\<close>

definition ctx_add ::
    "resolver \<Rightarrow> string \<Rightarrow> real \<Rightarrow> string \<Rightarrow> string \<Rightarrow> string \<Rightarrow> context_registry \<Rightarrow>
     ctx_ref result \<times> context_registry" where
  "ctx_add resolve token now canonical effective cwd rg =
     (case ctx_evict rg of
        Inl e \<Rightarrow> (Inl e, rg)
      | Inr (evicted, rg1) \<Rightarrow>
          (case rbind (resolve canonical) (\<lambda>c. rbind (resolve effective) (\<lambda>e.
                  rbind (resolve cwd) (\<lambda>d. Inr (c, e, d)))) of
             Inl e \<Rightarrow> (Inl e, rg1)
           | Inr (c, e, d) \<Rightarrow>
               let cid = ''ctx_'' @ token;
                   state = \<lparr>lc_id = cid, lc_object = cr_objects rg1, lc_canonical = c, lc_effective = e,
                            lc_cwd = d, lc_created_at = now, lc_last_seen = now, lc_leases = 0,
                            lc_claimed = False\<rparr>;
                   rg2 = rg1\<lparr>cr_contexts := dict_set cid state (cr_contexts rg1),
                             cr_objects := Suc (cr_objects rg1)\<rparr> in
               (Inr (cid, lc_object state),
                case evicted of None \<Rightarrow> rg2 | Some x \<Rightarrow> notify_expired [x] rg2)))"

definition ctx_create ::
    "resolver \<Rightarrow> string \<Rightarrow> real \<Rightarrow> string \<Rightarrow> string \<Rightarrow> string \<Rightarrow> context_registry \<Rightarrow>
     ctx_ref result \<times> context_registry" where
  "ctx_create resolve token now canonical effective cwd rg =
     ctx_add resolve token now canonical effective cwd (ctx_prune now rg)"

definition ctx_put :: "LogicalContextState \<Rightarrow> context_registry \<Rightarrow> context_registry" where
  "ctx_put c rg = rg\<lparr>cr_contexts := dict_set (lc_id c) c (cr_contexts rg)\<rparr>"

definition ctx_seen :: "real \<Rightarrow> string \<Rightarrow> context_registry \<Rightarrow> ctx_ref option \<times> context_registry" where
  "ctx_seen now cid rg =
     (case map_of (cr_contexts rg) cid of
        None \<Rightarrow> (None, rg)
      | Some c \<Rightarrow> (Some (cid, lc_object c), ctx_put (c\<lparr>lc_last_seen := now\<rparr>) rg))"

definition ctx_get :: "real \<Rightarrow> string \<Rightarrow> context_registry \<Rightarrow> ctx_ref option \<times> context_registry" where
  "ctx_get now cid rg = ctx_seen now cid (ctx_prune now rg)"

text \<open>The registered context that is the given object.\<close>

definition ctx_current :: "context_registry \<Rightarrow> ctx_ref \<Rightarrow> LogicalContextState option" where
  "ctx_current rg r =
     (case map_of (cr_contexts rg) (fst r) of
        None \<Rightarrow> None
      | Some c \<Rightarrow> if lc_object c = snd r then Some c else None)"

definition ctx_update ::
    "resolver \<Rightarrow> real \<Rightarrow> ctx_ref \<Rightarrow> string \<Rightarrow> string \<Rightarrow> string \<Rightarrow> context_registry \<Rightarrow>
     unit result \<times> context_registry" where
  "ctx_update resolve now r canonical effective cwd rg =
     (case rbind (resolve canonical) (\<lambda>c. rbind (resolve effective) (\<lambda>e.
             rbind (resolve cwd) (\<lambda>d. Inr (c, e, d)))) of
        Inl e \<Rightarrow> (Inl e, rg)
      | Inr (c', e', d') \<Rightarrow>
          (case ctx_current rg r of
             None \<Rightarrow> (Inr (), rg)
           | Some c \<Rightarrow>
               let moved = lc_canonical c \<noteq> c';
                   abandoned = (if moved \<and> lc_effective c \<noteq> lc_canonical c
                                then [c\<lparr>lc_leases := 0, lc_claimed := True, lc_created_at := now,
                                        lc_last_seen := now\<rparr>] else []);
                   c1 = c\<lparr>lc_claimed := (lc_claimed c \<and> \<not> moved), lc_canonical := c', lc_effective := e',
                          lc_cwd := d', lc_last_seen := now\<rparr>;
                   rg1 = ctx_put c1 rg in
               (Inr (), if abandoned = [] then rg1 else notify_expired abandoned rg1)))"

definition claim_mutation ::
    "real \<Rightarrow> ctx_ref \<Rightarrow> context_registry \<Rightarrow> bool result \<times> context_registry" where
  "claim_mutation now r rg =
     (case ctx_current rg r of
        None \<Rightarrow> (Inl (RuntimeError ''logical context is no longer registered''), rg)
      | Some c \<Rightarrow>
          if lc_claimed c then (Inr (lc_effective c \<noteq> lc_canonical c), rg)
          else (Inr (list_ex (\<lambda>e. lc_object (snd e) \<noteq> lc_object c \<and> lc_claimed (snd e) \<and>
                               lc_canonical (snd e) = lc_canonical c) (cr_contexts rg)),
                ctx_put (c\<lparr>lc_claimed := True, lc_last_seen := now\<rparr>) rg))"

definition claim_mutation_workspace ::
    "real \<Rightarrow> ctx_ref \<Rightarrow> context_registry \<Rightarrow> bool result \<times> context_registry" where
  "claim_mutation_workspace now r rg = claim_mutation now r (ctx_prune now rg)"

definition rollback_mutation_workspace_claim ::
    "real \<Rightarrow> ctx_ref \<Rightarrow> context_registry \<Rightarrow> context_registry" where
  "rollback_mutation_workspace_claim now r rg =
     (case ctx_current rg r of
        None \<Rightarrow> rg
      | Some c \<Rightarrow>
          if lc_effective c = lc_canonical c
          then ctx_put (c\<lparr>lc_claimed := False, lc_last_seen := now\<rparr>) rg else rg)"

definition claim_existing ::
    "resolver \<Rightarrow> real \<Rightarrow> ctx_ref \<Rightarrow> string \<Rightarrow> string \<Rightarrow> context_registry \<Rightarrow>
     (string \<times> string \<times> bool) result \<times> context_registry" where
  "claim_existing resolve now r target cwd rg =
     (case rbind (resolve target) (\<lambda>t. rbind (resolve cwd) (\<lambda>d. Inr (t, d))) of
        Inl e \<Rightarrow> (Inl e, rg)
      | Inr (t, d) \<Rightarrow>
          (case ctx_current rg r of
             None \<Rightarrow> (Inl (RuntimeError ''logical context is no longer registered''), rg)
           | Some c \<Rightarrow>
               if lc_claimed c \<and> lc_effective c \<noteq> t then
                 (Inl (ValueError ''context already owns a conflicting workspace''), rg)
               else if list_ex (\<lambda>e. lc_object (snd e) \<noteq> lc_object c \<and> lc_claimed (snd e) \<and>
                        lc_canonical (snd e) = lc_canonical c \<and> lc_effective (snd e) = t)
                      (cr_contexts rg) then (Inl FileExistsError, rg)
               else (Inr (lc_effective c, lc_cwd c, lc_claimed c),
                     ctx_put (c\<lparr>lc_effective := t, lc_cwd := d, lc_claimed := True, lc_last_seen := now\<rparr>) rg)))"

definition claim_existing_workspace ::
    "resolver \<Rightarrow> real \<Rightarrow> ctx_ref \<Rightarrow> string \<Rightarrow> string \<Rightarrow> context_registry \<Rightarrow>
     (string \<times> string \<times> bool) result \<times> context_registry" where
  "claim_existing_workspace resolve now r target cwd rg = claim_existing resolve now r target cwd (ctx_prune now rg)"

definition rollback_existing_workspace_claim ::
    "(string \<Rightarrow> string) \<Rightarrow> real \<Rightarrow> ctx_ref \<Rightarrow> string \<Rightarrow> string \<times> string \<times> bool \<Rightarrow> context_registry \<Rightarrow>
     context_registry" where
  "rollback_existing_workspace_claim resolve_loose now r expected previous rg =
     (case ctx_current rg r of
        None \<Rightarrow> rg
      | Some c \<Rightarrow>
          if lc_effective c \<noteq> resolve_loose expected then rg
          else ctx_put (c\<lparr>lc_effective := fst previous, lc_cwd := fst (snd previous),
                          lc_claimed := snd (snd previous), lc_last_seen := now\<rparr>) rg)"

definition ctx_lease :: "real \<Rightarrow> string \<Rightarrow> context_registry \<Rightarrow> bool \<times> context_registry" where
  "ctx_lease now cid rg =
     (case map_of (cr_contexts rg) cid of
        None \<Rightarrow> (False, rg)
      | Some c \<Rightarrow> (True, ctx_put (c\<lparr>lc_leases := lc_leases c + 1, lc_last_seen := now\<rparr>) rg))"

definition ctx_retain :: "real \<Rightarrow> string \<Rightarrow> context_registry \<Rightarrow> bool \<times> context_registry" where
  "ctx_retain now cid rg = ctx_lease now cid (ctx_prune now rg)"

definition ctx_release :: "real \<Rightarrow> string \<Rightarrow> context_registry \<Rightarrow> context_registry" where
  "ctx_release now cid rg =
     (case map_of (cr_contexts rg) cid of
        None \<Rightarrow> rg
      | Some c \<Rightarrow> ctx_put (c\<lparr>lc_leases := max 0 (lc_leases c - 1), lc_last_seen := now\<rparr>) rg)"

definition ctx_close :: "context_registry \<Rightarrow> context_registry" where
  "ctx_close rg = notify_expired (map snd (cr_contexts rg)) (rg\<lparr>cr_contexts := []\<rparr>)"

definition ctx_stats :: "real \<Rightarrow> context_registry \<Rightarrow> (nat \<times> nat \<times> nat) \<times> context_registry" where
  "ctx_stats now rg0 =
     (let rg = ctx_prune now rg0; cs = map snd (cr_contexts rg) in
      ((length cs, length (filter lc_claimed cs),
        length (filter (\<lambda>c. lc_effective c \<noteq> lc_canonical c) cs)), rg))"

section \<open>Shared jobs\<close>

definition MAX_SHARED_JOBS :: nat where
  "MAX_SHARED_JOBS = 256"

record SharedJobRecord =
  jb_session :: ExecSession
  jb_owner :: string
  jb_created_at :: real
  jb_last_seen :: real

text \<open>
  The job registry with the context registry it holds (\<^verbatim>\<open>self.context_registry\<close> is always set by
  the server).  \<open>jr_disposed\<close> lists the sessions whose streams and resources have been given up.
\<close>

record job_registry =
  jr_ttl :: real
  jr_jobs :: "(string, SharedJobRecord) dict"
  jr_closed :: bool
  jr_disposed :: "ExecSession list"
  jr_contexts :: context_registry

text \<open>What the processes report: the signal names and \<^verbatim>\<open>poll()\<close> after a termination, by handle.\<close>

record proc_env =
  pe_signal :: "int \<Rightarrow> string option"
  pe_poll_after :: "string \<Rightarrow> int option"

definition new_handle :: "string \<Rightarrow> string" where
  "new_handle token = ''job_'' @ token"

definition refresh_jobs :: "proc_env \<Rightarrow> real \<Rightarrow> (string, SharedJobRecord) dict \<Rightarrow> (string, SharedJobRecord) dict" where
  "refresh_jobs pe now jobs =
     map (\<lambda>e. (fst e, (snd e)\<lparr>jb_session :=
            refresh_status (pe_signal pe) now (pe_poll_after pe (fst e)) (jb_session (snd e))\<rparr>)) jobs"

definition job_expired :: "real \<Rightarrow> real \<Rightarrow> SharedJobRecord \<Rightarrow> bool" where
  "job_expired ttl now r \<longleftrightarrow>
     es_poll (jb_session r) \<noteq> None \<and>
     (case es_completed_at (jb_session r) of None \<Rightarrow> False | Some t \<Rightarrow> ttl < now - t)"

text \<open>Releasing the contexts of removed jobs and giving up their sessions, one after the other.\<close>

fun drop_jobs :: "real \<Rightarrow> SharedJobRecord list \<Rightarrow> job_registry \<Rightarrow> job_registry" where
  "drop_jobs now [] jr = jr"
| "drop_jobs now (r # rs) jr =
     drop_jobs now rs
       (jr\<lparr>jr_contexts := ctx_release now (jb_owner r) (jr_contexts jr),
           jr_disposed := jr_disposed jr @ [release_owned_resources (jb_session r)]\<rparr>)"

text \<open>
  The critical sections of the job registry: the expired jobs taken out, a job entered, a job taken
  out, a job found.  What a method does to the contexts of these jobs comes after the section, when
  the lock has been given up.
\<close>

definition expire_jobs :: "proc_env \<Rightarrow> real \<Rightarrow> job_registry \<Rightarrow> (string, SharedJobRecord) dict \<times> job_registry" where
  "expire_jobs pe now jr =
     (let jobs = refresh_jobs pe now (jr_jobs jr) in
      (filter (\<lambda>e. job_expired (jr_ttl jr) now (snd e)) jobs,
       jr\<lparr>jr_jobs := filter (\<lambda>e. \<not> job_expired (jr_ttl jr) now (snd e)) jobs\<rparr>))"

definition job_prune :: "proc_env \<Rightarrow> real \<Rightarrow> job_registry \<Rightarrow> job_registry" where
  "job_prune pe now jr =
     (case expire_jobs pe now jr of (expired, jr1) \<Rightarrow> drop_jobs now (map snd expired) jr1)"

definition job_insert :: "real \<Rightarrow> ExecSession \<Rightarrow> string \<Rightarrow> job_registry \<Rightarrow> unit result \<times> job_registry" where
  "job_insert now session owner jr =
     (if jr_closed jr then (Inl (RuntimeError ''shared job registry is closed''), jr)
      else if MAX_SHARED_JOBS \<le> length (jr_jobs jr) then
        (Inl (RuntimeError ''maximum shared job count reached''), jr)
      else if es_id session \<in> set (keys (jr_jobs jr)) then
        (Inl (RuntimeError ''duplicate shared job handle''), jr)
      else
        (Inr (), jr\<lparr>jr_jobs := dict_set (es_id session)
           \<lparr>jb_session = session, jb_owner = owner, jb_created_at = now, jb_last_seen = now\<rparr> (jr_jobs jr)\<rparr>))"

definition job_pop :: "string \<Rightarrow> job_registry \<Rightarrow> SharedJobRecord option \<times> job_registry" where
  "job_pop handle jr = (map_of (jr_jobs jr) handle, jr\<lparr>jr_jobs := dict_del handle (jr_jobs jr)\<rparr>)"

definition job_register ::
    "proc_env \<Rightarrow> real \<Rightarrow> ExecSession \<Rightarrow> string \<Rightarrow> job_registry \<Rightarrow> unit result \<times> job_registry" where
  "job_register pe now session owner jr =
     (case job_insert now session owner (job_prune pe now jr) of
        (Inl e, jr1) \<Rightarrow> (Inl e, jr1)
      | (Inr _, jr1) \<Rightarrow>
          (case ctx_retain now owner (jr_contexts jr1) of
             (True, rg) \<Rightarrow> (Inr (), jr1\<lparr>jr_contexts := rg\<rparr>)
           | (False, rg) \<Rightarrow>
               (Inl (RuntimeError ''logical context expired while registering shared job''),
                snd (job_pop (es_id session) (jr1\<lparr>jr_contexts := rg\<rparr>)))))"

definition job_find :: "real \<Rightarrow> string \<Rightarrow> string \<Rightarrow> job_registry \<Rightarrow> (string \<times> ExecSession option) \<times> job_registry" where
  "job_find now handle owner jr =
     (case map_of (jr_jobs jr) handle of
        None \<Rightarrow> ((''missing'', None), jr)
      | Some r \<Rightarrow>
          if jb_owner r \<noteq> owner then ((''forbidden'', None), jr)
          else ((''found'', Some (jb_session r)),
                jr\<lparr>jr_jobs := dict_set handle (r\<lparr>jb_last_seen := now\<rparr>) (jr_jobs jr)\<rparr>))"

definition job_lookup ::
    "proc_env \<Rightarrow> real \<Rightarrow> string \<Rightarrow> string \<Rightarrow> job_registry \<Rightarrow> (string \<times> ExecSession option) \<times> job_registry" where
  "job_lookup pe now handle owner jr = job_find now handle owner (job_prune pe now jr)"

definition job_contains :: "string \<Rightarrow> job_registry \<Rightarrow> bool" where
  "job_contains handle jr \<longleftrightarrow> handle \<in> set (keys (jr_jobs jr))"

definition has_running_jobs :: "proc_env \<Rightarrow> real \<Rightarrow> string \<Rightarrow> job_registry \<Rightarrow> bool \<times> job_registry" where
  "has_running_jobs pe now owner jr0 =
     (let jr = job_prune pe now jr0 in
      (list_ex (\<lambda>e. jb_owner (snd e) = owner \<and> es_poll (jb_session (snd e)) = None) (jr_jobs jr), jr))"

definition job_touch :: "real \<Rightarrow> string \<Rightarrow> job_registry \<Rightarrow> job_registry" where
  "job_touch now handle jr =
     (case map_of (jr_jobs jr) handle of
        None \<Rightarrow> jr
      | Some r \<Rightarrow> jr\<lparr>jr_jobs := dict_set handle (r\<lparr>jb_last_seen := now\<rparr>) (jr_jobs jr)\<rparr>)"

definition job_remove :: "real \<Rightarrow> string \<Rightarrow> bool \<Rightarrow> job_registry \<Rightarrow> bool \<times> job_registry" where
  "job_remove now handle release_resources jr =
     (case job_pop handle jr of
        (None, jr1) \<Rightarrow> (False, jr1)
      | (Some r, jr1) \<Rightarrow>
          (True, jr1\<lparr>jr_contexts := ctx_release now (jb_owner r) (jr_contexts jr1),
                     jr_disposed := jr_disposed jr1 @
                       (if release_resources then [release_owned_resources (jb_session r)] else [])\<rparr>))"

definition job_stats :: "proc_env \<Rightarrow> real \<Rightarrow> job_registry \<Rightarrow> (nat \<times> nat) \<times> job_registry" where
  "job_stats pe now jr0 =
     (let jr = job_prune pe now jr0 in
      ((length (jr_jobs jr), length (filter (\<lambda>e. es_poll (jb_session (snd e)) = None) (jr_jobs jr))), jr))"

definition kill_session :: "proc_env \<Rightarrow> real \<Rightarrow> string \<Rightarrow> ExecSession \<Rightarrow> ExecSession" where
  "kill_session pe now handle s =
     (if es_poll s = None
      then refresh_status (pe_signal pe) now (pe_poll_after pe handle)
             (s\<lparr>es_terminating := True, es_poll := pe_poll_after pe handle\<rparr>)
      else s)"

definition job_clear :: "job_registry \<Rightarrow> (string, SharedJobRecord) dict \<times> job_registry" where
  "job_clear jr = (jr_jobs jr, jr\<lparr>jr_closed := True, jr_jobs := []\<rparr>)"

definition job_close :: "proc_env \<Rightarrow> real \<Rightarrow> job_registry \<Rightarrow> job_registry" where
  "job_close pe now jr =
     (case job_clear jr of (jobs, jr1) \<Rightarrow>
        drop_jobs now
          (map (\<lambda>e. (snd e)\<lparr>jb_session := kill_session pe now (fst e) (jb_session (snd e))\<rparr>) jobs) jr1)"

text \<open>The periodic pass of the janitor thread.\<close>

definition janitor :: "proc_env \<Rightarrow> real \<Rightarrow> job_registry \<Rightarrow> job_registry" where
  "janitor pe now jr =
     (let jr1 = job_prune pe now jr in jr1\<lparr>jr_contexts := ctx_prune now (jr_contexts jr1)\<rparr>)"

section \<open>Leases count their holders\<close>

text \<open>
  \<open>held H rg\<close>: every registered context has exactly as many leases as it occurs among the holders
  \<open>H\<close>, and every holder's context is registered.
\<close>

definition held :: "string multiset \<Rightarrow> context_registry \<Rightarrow> bool" where
  "held H rg \<longleftrightarrow>
     dict_ok (cr_contexts rg) \<and> length (cr_contexts rg) \<le> MAX_LOGICAL_CONTEXTS \<and>
     (\<forall>cid c. map_of (cr_contexts rg) cid = Some c \<longrightarrow> lc_id c = cid \<and> lc_leases c = int (count H cid)) \<and>
     (\<forall>cid. cid \<in># H \<longrightarrow> map_of (cr_contexts rg) cid \<noteq> None)"

lemma notify_contexts [simp]: "cr_contexts (notify_expired xs rg) = cr_contexts rg"
  by (simp add: notify_expired_def)

lemma held_notify [simp]: "held H (notify_expired xs rg) = held H rg"
  by (simp add: held_def)

lemma held_contexts: "cr_contexts rg = cr_contexts rg' \<Longrightarrow> held H rg = held H rg'"
  by (simp add: held_def)

lemma ctx_prune_map:
  assumes "dict_ok (cr_contexts rg)"
  shows "map_of (cr_contexts (ctx_prune now rg)) cid =
    (case map_of (cr_contexts rg) cid of
       None \<Rightarrow> None | Some c \<Rightarrow> if ctx_expired rg now c then None else Some c)"
  using map_of_filter_ok [OF assms, of "\<lambda>e. \<not> ctx_expired rg now (snd e)" cid]
  by (simp add: ctx_prune_def split: option.splits)

lemma held_prune: "held H rg \<Longrightarrow> held H (ctx_prune now rg)"
proof -
  assume h: "held H rg"
  then have ok: "dict_ok (cr_contexts rg)" by (simp add: held_def)
  have "map_of (cr_contexts (ctx_prune now rg)) cid \<noteq> None" if "cid \<in># H" for cid
  proof -
    from h that obtain c where c: "map_of (cr_contexts rg) cid = Some c" by (auto simp: held_def)
    then have "lc_leases c = int (count H cid)" using h by (simp add: held_def)
    with that have "\<not> ctx_expired rg now c" by (simp add: ctx_expired_def)
    with c show ?thesis by (simp add: ctx_prune_map [OF ok])
  qed
  moreover have "length (cr_contexts (ctx_prune now rg)) \<le> MAX_LOGICAL_CONTEXTS"
    using h le_trans [OF length_filter_le [of "\<lambda>e. \<not> ctx_expired rg now (snd e)" "cr_contexts rg"]]
    by (simp add: held_def ctx_prune_def)
  moreover have "dict_ok (cr_contexts (ctx_prune now rg))" using ok by (simp add: ctx_prune_def)
  ultimately show ?thesis
    using h by (auto simp: held_def ctx_prune_map [OF ok] split: option.splits if_splits)
qed

text \<open>Storing a context back under its own identifier with the leases its holders give it.\<close>

lemma held_put:
  assumes "held H rg" "map_of (cr_contexts rg) (lc_id c) \<noteq> None" "lc_leases c = int (count H' (lc_id c))"
    and "\<And>cid. cid \<noteq> lc_id c \<Longrightarrow> count H' cid = count H cid"
  shows "held H' (ctx_put c rg)"
proof -
  have "cid \<in># H' \<Longrightarrow> cid \<noteq> lc_id c \<Longrightarrow> cid \<in># H" for cid
    using assms(4) [of cid] by (metis count_greater_zero_iff)
  moreover have "lc_id c \<in> fst ` set (cr_contexts rg)"
    using assms(2) by (metis map_of_None_fst)
  ultimately show ?thesis
    using assms by (auto simp: held_def ctx_put_def length_dict_set)
qed

lemma held_put_same:
  assumes "held H rg" "map_of (cr_contexts rg) cid = Some c0" "lc_id c = lc_id c0" "lc_leases c = lc_leases c0"
  shows "held H (ctx_put c rg)"
proof -
  have "lc_id c0 = cid" "lc_leases c0 = int (count H cid)" using assms(1,2) by (auto simp: held_def)
  with assms show ?thesis by (intro held_put [OF assms(1)]) simp_all
qed

lemma ctx_currentD: "ctx_current rg r = Some c \<Longrightarrow> map_of (cr_contexts rg) (fst r) = Some c"
  by (auto simp: ctx_current_def split: option.splits if_splits)

lemma held_lease:
  assumes "held H rg" "ctx_lease now cid rg = (ok, rg')"
  shows "held (if ok then add_mset cid H else H) rg'"
proof (cases "map_of (cr_contexts rg) cid")
  case None
  with assms show ?thesis by (auto simp: ctx_lease_def)
next
  case (Some c)
  then have c: "lc_id c = cid" "lc_leases c = int (count H cid)" using assms(1) by (auto simp: held_def)
  have r: "ok" "rg' = ctx_put (c\<lparr>lc_leases := lc_leases c + 1, lc_last_seen := now\<rparr>) rg"
    using assms(2) Some by (auto simp: ctx_lease_def)
  have "held (add_mset cid H) rg'"
    unfolding r(2) by (rule held_put [OF assms(1)]) (use Some c in auto)
  with r show ?thesis by simp
qed

lemma held_retain:
  "held H rg \<Longrightarrow> ctx_retain now cid rg = (ok, rg') \<Longrightarrow> held (if ok then add_mset cid H else H) rg'"
  unfolding ctx_retain_def by (rule held_lease [OF held_prune])

lemma held_release:
  assumes "held H rg" "cid \<in># H"
  shows "held (H - {#cid#}) (ctx_release now cid rg)"
proof -
  obtain c where m: "map_of (cr_contexts rg) cid = Some c" using assms by (auto simp: held_def)
  then have c: "lc_id c = cid" "lc_leases c = int (count H cid)" using assms(1) by (auto simp: held_def)
  have pos: "0 < count H cid" using assms(2) by simp
  have "held (H - {#cid#}) (ctx_put (c\<lparr>lc_leases := max 0 (lc_leases c - 1), lc_last_seen := now\<rparr>) rg)"
    by (rule held_put [OF assms(1)]) (use m c pos in auto)
  with m show ?thesis by (simp add: ctx_release_def)
qed

lemma oldest_in: "es \<noteq> [] \<Longrightarrow> oldest es \<in> set es"
  by (induction es rule: oldest.induct) (auto simp: Let_def)

text \<open>Evicting removes an unleased context, and only then is there room for one more.\<close>

lemma held_evict:
  assumes "held H rg" "ctx_evict rg = Inr (x, rg')"
  shows "held H rg' \<and> length (cr_contexts rg') < MAX_LOGICAL_CONTEXTS \<and>
    (\<forall>cid. map_of (cr_contexts rg) cid = None \<longrightarrow> map_of (cr_contexts rg') cid = None)"
proof (cases "length (cr_contexts rg) < MAX_LOGICAL_CONTEXTS")
  case True
  with assms show ?thesis by (simp add: ctx_evict_def)
next
  case False
  let ?es = "filter (\<lambda>e. lc_leases (snd e) = 0) (cr_contexts rg)"
  let ?v = "oldest ?es"
  have ne: "?es \<noteq> []" and rg': "rg' = rg\<lparr>cr_contexts := dict_del (fst ?v) (cr_contexts rg)\<rparr>"
    using assms(2) False by (auto simp: ctx_evict_def Let_def split: if_splits)
  have ok: "dict_ok (cr_contexts rg)" using assms(1) by (simp add: held_def)
  have v: "?v \<in> set (cr_contexts rg)" "lc_leases (snd ?v) = 0" using oldest_in [OF ne] by auto
  then have m: "map_of (cr_contexts rg) (fst ?v) = Some (snd ?v)"
    using ok by (metis dict_ok_def map_of_is_SomeI prod.collapse)
  then have zero: "count H (fst ?v) = 0" using assms(1) v(2) by (simp add: held_def)
  have "length (cr_contexts rg') < length (cr_contexts rg)"
    unfolding rg' using length_dict_del_less [OF m] by simp
  with assms(1) zero show ?thesis
    by (auto simp: held_def rg' not_in_iff)
qed

lemma held_add:
  assumes h: "held H rg" and ad: "ctx_add rs token now a b c rg = (r, rg')"
    and new: "map_of (cr_contexts rg) (''ctx_'' @ token) = None"
  shows "held H rg'"
proof (cases "ctx_evict rg")
  case (Inl e)
  with h ad show ?thesis by (auto simp: ctx_add_def)
next
  case (Inr y)
  obtain x rg1 where y: "y = (x, rg1)" by (cases y)
  have h1: "held H rg1" "length (cr_contexts rg1) < MAX_LOGICAL_CONTEXTS"
    "map_of (cr_contexts rg1) (''ctx_'' @ token) = None"
    using held_evict [OF h] Inr y new by auto
  have z: "count H (''ctx_'' @ token) = 0"
  proof -
    have "''ctx_'' @ token \<notin># H" using h1(1,3) unfolding held_def by blast
    then show ?thesis by (simp add: not_in_iff)
  qed
  have "held H (rg1\<lparr>cr_contexts := dict_set (lc_id st) st (cr_contexts rg1), cr_objects := n\<rparr>)"
    if "lc_id st = ''ctx_'' @ token" "lc_leases st = 0" for st n
    using h1 that z by (auto simp: held_def length_dict_set)
  note put = this
  show ?thesis
  proof (cases "rbind (rs a) (\<lambda>c'. rbind (rs b) (\<lambda>e'. rbind (rs c) (\<lambda>d'. Inr (c', e', d'))))")
    case (Inl e)
    with ad Inr y h1(1) show ?thesis by (simp add: ctx_add_def)
  next
    case res: (Inr z)
    obtain c' e' d' where z: "z = (c', e', d')" by (cases z)
    show ?thesis
      using ad Inr y res z put by (auto simp: ctx_add_def Let_def split: option.splits)
  qed
qed

lemma held_create:
  assumes "held H rg" "ctx_create rs token now a b c rg = (r, rg')"
    and "map_of (cr_contexts rg) (''ctx_'' @ token) = None"
  shows "held H rg'"
proof (rule held_add [OF held_prune [OF assms(1)] assms(2) [unfolded ctx_create_def]])
  have "dict_ok (cr_contexts rg)" using assms(1) by (simp add: held_def)
  with assms(3) show "map_of (cr_contexts (ctx_prune now rg)) (''ctx_'' @ token) = None" by (simp add: ctx_prune_map)
qed

lemma held_sections:
  assumes "held H rg"
  shows "held H (snd (ctx_seen now cid rg))" "held H (snd (ctx_update rs now r a b c rg))"
    "held H (snd (claim_mutation now r rg))" "held H (rollback_mutation_workspace_claim now r rg)"
    "held H (snd (claim_existing rs now r a b rg))"
    "held H (rollback_existing_workspace_claim rl now r a prev rg)"
proof -
  show "held H (snd (ctx_seen now cid rg))"
    using assms by (auto simp: ctx_seen_def split: option.splits intro: held_put_same)
  show "held H (snd (ctx_update rs now r a b c rg))"
    using assms by (auto simp: ctx_update_def Let_def split: option.splits sum.splits
        intro!: held_put_same dest: ctx_currentD)
  show "held H (snd (claim_mutation now r rg))"
    using assms by (auto simp: claim_mutation_def split: option.splits
        intro!: held_put_same dest: ctx_currentD)
  show "held H (rollback_mutation_workspace_claim now r rg)"
    using assms by (auto simp: rollback_mutation_workspace_claim_def split: option.splits
        intro!: held_put_same dest: ctx_currentD)
  show "held H (snd (claim_existing rs now r a b rg))"
    using assms by (auto simp: claim_existing_def split: option.splits sum.splits
        intro!: held_put_same dest: ctx_currentD)
  show "held H (rollback_existing_workspace_claim rl now r a prev rg)"
    using assms by (auto simp: rollback_existing_workspace_claim_def split: option.splits
        intro!: held_put_same dest: ctx_currentD)
qed

lemma held_others:
  assumes "held H rg"
  shows "held H (snd (ctx_get now cid rg))" "held H (snd (ctx_update rs now r a b c rg))"
    "held H (snd (claim_mutation_workspace now r rg))" "held H (rollback_mutation_workspace_claim now r rg)"
    "held H (snd (claim_existing_workspace rs now r a b rg))"
    "held H (rollback_existing_workspace_claim rl now r a prev rg)" "held H (snd (ctx_stats now rg))"
  using held_sections [OF assms] held_sections [OF held_prune [OF assms]] held_prune [OF assms]
  by (simp_all add: ctx_get_def claim_mutation_workspace_def claim_existing_workspace_def ctx_stats_def Let_def)

definition owners :: "(string, SharedJobRecord) dict \<Rightarrow> string multiset" where
  "owners jobs = mset (map (\<lambda>e. jb_owner (snd e)) jobs)"

definition jobs_ok :: "string multiset \<Rightarrow> job_registry \<Rightarrow> bool" where
  "jobs_ok reqs jr \<longleftrightarrow>
     held (owners (jr_jobs jr) + reqs) (jr_contexts jr) \<and> dict_ok (jr_jobs jr) \<and>
     length (jr_jobs jr) \<le> MAX_SHARED_JOBS"

lemma drop_jobs_jobs [simp]: "jr_jobs (drop_jobs now rs jr) = jr_jobs jr" "jr_ttl (drop_jobs now rs jr) = jr_ttl jr"
  "jr_closed (drop_jobs now rs jr) = jr_closed jr"
  by (induction rs arbitrary: jr) simp_all

lemma drop_jobs_held:
  "held (mset (map jb_owner rs) + H) (jr_contexts jr) \<Longrightarrow> held H (jr_contexts (drop_jobs now rs jr))"
proof (induction rs arbitrary: jr)
  case (Cons r rs)
  have "held (mset (map jb_owner rs) + H) (ctx_release now (jb_owner r) (jr_contexts jr))"
    using held_release [OF Cons.prems, of "jb_owner r" now] by simp
  with Cons.IH show ?case by simp
qed simp

lemma refresh_jobs_simps [simp]:
  "owners (refresh_jobs pe now jobs) = owners jobs" "keys (refresh_jobs pe now jobs) = keys jobs"
  "length (refresh_jobs pe now jobs) = length jobs" "dict_ok (refresh_jobs pe now jobs) = dict_ok jobs"
  by (simp_all add: owners_def keys_def refresh_jobs_def dict_ok_def comp_def)

lemma owners_partition: "owners jobs = mset (map jb_owner (map snd (filter P jobs))) + owners (filter (\<lambda>e. \<not> P e) jobs)"
  by (induction jobs) (auto simp: owners_def)

lemma jobs_ok_prune: "jobs_ok reqs jr \<Longrightarrow> jobs_ok reqs (job_prune pe now jr)"
proof -
  assume j: "jobs_ok reqs jr"
  let ?jobs = "refresh_jobs pe now (jr_jobs jr)" and ?P = "\<lambda>e. job_expired (jr_ttl jr) now (snd e)"
  have "held (mset (map jb_owner (map snd (filter ?P ?jobs))) + (owners (filter (\<lambda>e. \<not> ?P e) ?jobs) + reqs))
      (jr_contexts jr)"
    using j owners_partition [of ?jobs ?P] by (simp add: jobs_ok_def add.assoc)
  then have "held (owners (filter (\<lambda>e. \<not> ?P e) ?jobs) + reqs) (jr_contexts (job_prune pe now jr))"
    unfolding job_prune_def expire_jobs_def Let_def prod.case by (intro drop_jobs_held) simp
  moreover have "length (filter (\<lambda>e. \<not> ?P e) ?jobs) \<le> MAX_SHARED_JOBS"
    using j le_trans [OF length_filter_le [of "\<lambda>e. \<not> ?P e" ?jobs]] by (auto simp: jobs_ok_def)
  ultimately show ?thesis using j by (simp add: jobs_ok_def job_prune_def expire_jobs_def Let_def)
qed

lemma owners_set_new: "k \<notin> set (keys jobs) \<Longrightarrow> owners (dict_set k r jobs) = add_mset (jb_owner r) (owners jobs)"
  by (simp add: owners_def dict_set_new keys_def)

lemma owners_set_same:
  "map_of jobs k = Some r0 \<Longrightarrow> jb_owner r = jb_owner r0 \<Longrightarrow> owners (dict_set k r jobs) = owners jobs"
  by (induction k r jobs rule: dict_set.induct) (auto simp: owners_def split: if_splits)

lemma owners_del:
  "dict_ok jobs \<Longrightarrow> map_of jobs k = Some r \<Longrightarrow> owners jobs = add_mset (jb_owner r) (owners (dict_del k jobs))"
proof (induction jobs)
  case (Cons e jobs)
  show ?case
  proof (cases "fst e = k")
    case True
    then have "k \<notin> fst ` set jobs" using Cons.prems(1) by (auto simp: dict_ok_def)
    then have "dict_del k jobs = jobs" by (auto simp: dict_del_def filter_id_conv)
    with True Cons.prems(2) show ?thesis by (cases e) (auto simp: owners_def dict_del_def)
  next
    case False
    with Cons show ?thesis by (cases e) (auto simp: owners_def dict_del_def dict_ok_def)
  qed
qed simp

lemma dict_del_absent: "map_of d k = None \<Longrightarrow> dict_del k d = d"
  by (auto simp: dict_del_def filter_id_conv map_of_eq_None_iff)

lemma jobs_ok_register: "jobs_ok reqs jr \<Longrightarrow> jobs_ok reqs (snd (job_register pe now session owner jr))"
proof -
  assume "jobs_ok reqs jr"
  then have j: "jobs_ok reqs (job_prune pe now jr)" by (rule jobs_ok_prune)
  let ?p = "job_prune pe now jr"
  show ?thesis
  proof (cases "jr_closed ?p \<or> MAX_SHARED_JOBS \<le> length (jr_jobs ?p) \<or> es_id session \<in> set (keys (jr_jobs ?p))")
    case True
    with j show ?thesis by (auto simp: job_register_def job_insert_def job_pop_def Let_def)
  next
    case False
    let ?r = "\<lparr>jb_session = session, jb_owner = owner, jb_created_at = now, jb_last_seen = now\<rparr>"
    have new: "es_id session \<notin> set (keys (jr_jobs ?p))" using False by blast
    obtain ok rg where rt: "ctx_retain now owner (jr_contexts ?p) = (ok, rg)"
      by (cases "ctx_retain now owner (jr_contexts ?p)")
    have h: "held (if ok then add_mset owner (owners (jr_jobs ?p) + reqs) else owners (jr_jobs ?p) + reqs) rg"
      using held_retain [OF _ rt] j by (simp add: jobs_ok_def)
    have del: "dict_del (es_id session) (dict_set (es_id session) ?r (jr_jobs ?p)) = jr_jobs ?p"
      using new dict_del_absent [of "jr_jobs ?p" "es_id session"]
      by (simp add: dict_set_new keys_def dict_del_def map_of_eq_None_iff)
    show ?thesis
    proof (cases ok)
      case True
      with False rt h j new show ?thesis
        by (simp add: job_register_def job_insert_def job_pop_def Let_def jobs_ok_def owners_set_new length_dict_set keys_def)
    next
      case nok: False
      with False rt h j new del show ?thesis
        by (simp add: job_register_def job_insert_def job_pop_def Let_def jobs_ok_def)
    qed
  qed
qed

lemma jobs_ok_put:
  assumes "jobs_ok reqs jr" "map_of (jr_jobs jr) k = Some r0" "jb_owner r = jb_owner r0"
  shows "jobs_ok reqs (jr\<lparr>jr_jobs := dict_set k r (jr_jobs jr)\<rparr>)"
proof -
  have "k \<in> fst ` set (jr_jobs jr)" using assms(2) by (metis map_of_None_fst option.distinct(1))
  with assms show ?thesis by (simp add: jobs_ok_def owners_set_same length_dict_set)
qed

lemma jobs_ok_others:
  assumes "jobs_ok reqs jr"
  shows "jobs_ok reqs (snd (job_lookup pe now k ow jr))" "jobs_ok reqs (snd (has_running_jobs pe now ow jr))"
    "jobs_ok reqs (job_touch now k jr)" "jobs_ok reqs (snd (job_remove now k b jr))"
    "jobs_ok reqs (snd (job_stats pe now jr))" "jobs_ok reqs (janitor pe now jr)"
proof -
  have p: "jobs_ok reqs (job_prune pe now jr)" by (rule jobs_ok_prune [OF assms])
  show "jobs_ok reqs (snd (job_lookup pe now k ow jr))"
    using p by (auto simp: job_lookup_def job_find_def Let_def split: option.splits intro: jobs_ok_put)
  show "jobs_ok reqs (snd (has_running_jobs pe now ow jr))" "jobs_ok reqs (snd (job_stats pe now jr))"
    using p by (simp_all add: has_running_jobs_def job_stats_def Let_def)
  show "jobs_ok reqs (job_touch now k jr)"
    using assms by (auto simp: job_touch_def split: option.splits intro: jobs_ok_put)
  show "jobs_ok reqs (janitor pe now jr)"
    using p held_prune by (simp add: janitor_def Let_def jobs_ok_def)
  show "jobs_ok reqs (snd (job_remove now k b jr))"
  proof (cases "map_of (jr_jobs jr) k")
    case None
    with assms show ?thesis by (simp add: job_remove_def job_pop_def dict_del_absent)
  next
    case (Some r)
    have o: "owners (jr_jobs jr) = add_mset (jb_owner r) (owners (dict_del k (jr_jobs jr)))"
      using owners_del [OF _ Some] assms by (simp add: jobs_ok_def)
    have "held (owners (dict_del k (jr_jobs jr)) + reqs) (ctx_release now (jb_owner r) (jr_contexts jr))"
      using held_release [of "owners (jr_jobs jr) + reqs" "jr_contexts jr" "jb_owner r" now] assms
      by (simp add: jobs_ok_def o)
    with Some assms le_trans [OF length_dict_del_le [of k "jr_jobs jr"]] show ?thesis
      by (auto simp: job_remove_def job_pop_def jobs_ok_def)
  qed
qed

section \<open>The registries as a state machine\<close>

text \<open>
  Every critical section is one step, so that the sections of several threads interleave in any
  order.  Beside the job registry, which holds the context registry, a state has what the threads
  have still to do: the contexts of running requests, each from its \<^verbatim>\<open>retain\<close> to its
  \<^verbatim>\<open>release\<close>; the jobs that are entered but whose context is not retained yet, and those whose
  context could not be retained and that will be taken out again; and the contexts of jobs that are
  taken out but not yet released.  A job is not removed, expired or closed while its registration is
  under way: its handle is known to no client, and it has not ended for the time to live.  Random
  identifiers are new.
\<close>

record reg_state =
  rs_jobs :: job_registry
  rs_requests :: "string multiset"
  rs_retaining :: "(string \<times> string) list"
  rs_undoing :: "string list"
  rs_releasing :: "string multiset"

definition pending :: "reg_state \<Rightarrow> string set" where
  "pending s = fst ` set (rs_retaining s) \<union> set (rs_undoing s)"

definition set_contexts :: "context_registry \<Rightarrow> reg_state \<Rightarrow> reg_state" where
  "set_contexts rg s = s\<lparr>rs_jobs := (rs_jobs s)\<lparr>jr_contexts := rg\<rparr>\<rparr>"

abbreviation contexts_of :: "reg_state \<Rightarrow> context_registry" where
  "contexts_of s \<equiv> jr_contexts (rs_jobs s)"

lemma pending_simps [simp]:
  "pending (s\<lparr>rs_jobs := jr\<rparr>) = pending s" "pending (s\<lparr>rs_releasing := q\<rparr>) = pending s"
  "pending (s\<lparr>rs_requests := q\<rparr>) = pending s" "pending (set_contexts rg s) = pending s"
  by (simp_all add: pending_def set_contexts_def)

inductive reg_step :: "reg_state \<Rightarrow> reg_state \<Rightarrow> bool" where
  prune: "reg_step s (set_contexts (ctx_prune now (contexts_of s)) s)"
| create: "map_of (cr_contexts (contexts_of s)) (''ctx_'' @ token) = None \<Longrightarrow>
    ctx_add rs token now a b c (contexts_of s) = (r, rg) \<Longrightarrow> reg_step s (set_contexts rg s)"
| get: "reg_step s (set_contexts (snd (ctx_seen now cid (contexts_of s))) s)"
| update: "reg_step s (set_contexts (snd (ctx_update rs now r a b c (contexts_of s))) s)"
| claim: "reg_step s (set_contexts (snd (claim_mutation now r (contexts_of s))) s)"
| unclaim: "reg_step s (set_contexts (rollback_mutation_workspace_claim now r (contexts_of s)) s)"
| claim_other: "reg_step s (set_contexts (snd (claim_existing rs now r a b (contexts_of s))) s)"
| unclaim_other: "reg_step s (set_contexts (rollback_existing_workspace_claim rl now r a prev (contexts_of s)) s)"
| request: "ctx_lease now cid (contexts_of s) = (ok, rg) \<Longrightarrow>
    reg_step s (set_contexts rg s\<lparr>rs_requests := if ok then add_mset cid (rs_requests s) else rs_requests s\<rparr>)"
| request_end: "cid \<in># rs_requests s \<Longrightarrow>
    reg_step s (set_contexts (ctx_release now cid (contexts_of s)) s\<lparr>rs_requests := rs_requests s - {#cid#}\<rparr>)"
| expire: "expire_jobs pe now (rs_jobs s) = (expired, jr) \<Longrightarrow> fst ` set expired \<inter> pending s = {} \<Longrightarrow>
    reg_step s (s\<lparr>rs_jobs := jr, rs_releasing := rs_releasing s + owners expired\<rparr>)"
| insert: "job_insert now session ow (rs_jobs s) = (Inr (), jr) \<Longrightarrow>
    reg_step s (s\<lparr>rs_jobs := jr, rs_retaining := (es_id session, ow) # rs_retaining s\<rparr>)"
| retain: "(k, ow) \<in> set (rs_retaining s) \<Longrightarrow> ctx_lease now ow (contexts_of s) = (ok, rg) \<Longrightarrow>
    reg_step s (set_contexts rg s\<lparr>rs_retaining := removeAll (k, ow) (rs_retaining s),
      rs_undoing := if ok then rs_undoing s else k # rs_undoing s\<rparr>)"
| undo: "k \<in> set (rs_undoing s) \<Longrightarrow> job_pop k (rs_jobs s) = (r, jr) \<Longrightarrow>
    reg_step s (s\<lparr>rs_jobs := jr, rs_undoing := removeAll k (rs_undoing s)\<rparr>)"
| find: "reg_step s (s\<lparr>rs_jobs := snd (job_find now k ow (rs_jobs s))\<rparr>)"
| touch: "reg_step s (s\<lparr>rs_jobs := job_touch now k (rs_jobs s)\<rparr>)"
| remove: "job_pop k (rs_jobs s) = (Some r, jr) \<Longrightarrow> k \<notin> pending s \<Longrightarrow>
    reg_step s (s\<lparr>rs_jobs := jr, rs_releasing := add_mset (jb_owner r) (rs_releasing s)\<rparr>)"
| release: "cid \<in># rs_releasing s \<Longrightarrow>
    reg_step s (set_contexts (ctx_release now cid (contexts_of s)) s\<lparr>rs_releasing := rs_releasing s - {#cid#}\<rparr>)"
| dispose: "reg_step s (s\<lparr>rs_jobs := (rs_jobs s)\<lparr>jr_disposed := jr_disposed (rs_jobs s) @ [x]\<rparr>\<rparr>)"
| close: "job_clear (rs_jobs s) = (jobs, jr) \<Longrightarrow> pending s = {} \<Longrightarrow>
    reg_step s (s\<lparr>rs_jobs := jr, rs_releasing := rs_releasing s + owners jobs\<rparr>)"

definition reg_start :: "reg_state \<Rightarrow> bool" where
  "reg_start s \<longleftrightarrow> jr_jobs (rs_jobs s) = [] \<and> cr_contexts (contexts_of s) = [] \<and> rs_requests s = {#} \<and>
     rs_retaining s = [] \<and> rs_undoing s = [] \<and> rs_releasing s = {#}"

interpretation reg: machine reg_start reg_step .

text \<open>The jobs whose registration has come to its end hold a lease; the others do not yet.\<close>

definition settled :: "reg_state \<Rightarrow> (string, SharedJobRecord) dict" where
  "settled s = filter (\<lambda>e. fst e \<notin> pending s) (jr_jobs (rs_jobs s))"

definition owned :: "(string, SharedJobRecord) dict \<Rightarrow> (string \<times> string) list \<Rightarrow> bool" where
  "owned jobs ps \<longleftrightarrow> (\<forall>k ow. (k, ow) \<in> set ps \<longrightarrow> (\<exists>r. map_of jobs k = Some r \<and> jb_owner r = ow))"

lemma owned_mono:
  assumes "owned jobs ps" "set qs \<subseteq> set ps" "\<And>k. k \<in> fst ` set qs \<Longrightarrow> map_of jobs' k = map_of jobs k"
  shows "owned jobs' qs"
  using assms by (force simp: owned_def)

definition reg_ok :: "reg_state \<Rightarrow> bool" where
  "reg_ok s \<longleftrightarrow>
     held (owners (settled s) + rs_requests s + rs_releasing s) (contexts_of s) \<and>
     dict_ok (jr_jobs (rs_jobs s)) \<and> length (jr_jobs (rs_jobs s)) \<le> MAX_SHARED_JOBS \<and>
     distinct (map fst (rs_retaining s) @ rs_undoing s) \<and> pending s \<subseteq> fst ` set (jr_jobs (rs_jobs s)) \<and>
     owned (jr_jobs (rs_jobs s)) (rs_retaining s)"

lemma reg_ok_contexts:
  assumes "reg_ok s" "held (owners (settled s) + rs_requests t + rs_releasing t) (contexts_of t)"
    and "jr_jobs (rs_jobs t) = jr_jobs (rs_jobs s)" "rs_retaining t = rs_retaining s" "rs_undoing t = rs_undoing s"
  shows "reg_ok t"
  using assms by (simp add: reg_ok_def settled_def pending_def)

lemma reg_ok_set:
  "reg_ok s \<Longrightarrow> (\<And>H. held H (contexts_of s) \<Longrightarrow> held H rg) \<Longrightarrow> reg_ok (set_contexts rg s)"
  by (simp add: reg_ok_def settled_def) (simp add: set_contexts_def)

lemma reg_ok_insert:
  assumes s: "reg_ok s" and i: "job_insert now session ow (rs_jobs s) = (Inr (), jr)"
  shows "reg_ok (s\<lparr>rs_jobs := jr, rs_retaining := (es_id session, ow) # rs_retaining s\<rparr>)"
proof -
  have new: "es_id session \<notin> fst ` set (jr_jobs (rs_jobs s))" "length (jr_jobs (rs_jobs s)) < MAX_SHARED_JOBS"
    and jr: "jr = (rs_jobs s)\<lparr>jr_jobs := jr_jobs (rs_jobs s) @ [(es_id session,
      \<lparr>jb_session = session, jb_owner = ow, jb_created_at = now, jb_last_seen = now\<rparr>)]\<rparr>"
    using i by (auto simp: job_insert_def keys_def dict_set_new split: if_splits)
  have np: "es_id session \<notin> pending s" using s new(1) by (auto simp: reg_ok_def)
  have "settled (s\<lparr>rs_jobs := jr, rs_retaining := (es_id session, ow) # rs_retaining s\<rparr>) = settled s"
    using new(1) by (auto simp: settled_def pending_def jr intro!: filter_cong) force
  moreover have "owned (jr_jobs jr) ((es_id session, ow) # rs_retaining s)"
  proof -
    have "map_of (jr_jobs (rs_jobs s)) (es_id session) = None" using new(1) by (simp add: map_of_eq_None_iff)
    moreover have "map_of (jr_jobs jr) k = map_of (jr_jobs (rs_jobs s)) k" if "k \<in> fst ` set (rs_retaining s)" for k
      using that np by (cases "k = es_id session") (simp_all add: jr pending_def map_add_def split: option.split)
    then have "owned (jr_jobs jr) (rs_retaining s)"
      using s owned_mono [of "jr_jobs (rs_jobs s)" "rs_retaining s"] by (simp add: reg_ok_def)
    ultimately show ?thesis by (auto simp: owned_def jr map_add_def)
  qed
  moreover have "dict_ok (jr_jobs jr)" using s new(1) by (simp add: reg_ok_def dict_ok_def jr)
  moreover have "jr_contexts jr = contexts_of s" "length (jr_jobs jr) \<le> MAX_SHARED_JOBS"
    "insert (es_id session) (pending s) \<subseteq> fst ` set (jr_jobs jr)"
    using s new(2) by (auto simp: jr reg_ok_def)
  ultimately show ?thesis
    using s np by (simp add: reg_ok_def pending_def)
qed

text \<open>The settled jobs when one of the pending handles is settled, or any handle is taken out.\<close>

lemma owners_settle:
  assumes "dict_ok jobs" "map_of jobs k = Some r" "k \<in> P"
  shows "owners (filter (\<lambda>e. fst e \<notin> P - {k}) jobs) = add_mset (jb_owner r) (owners (filter (\<lambda>e. fst e \<notin> P) jobs))"
proof -
  let ?f = "filter (\<lambda>e. fst e \<notin> P - {k}) jobs"
  have "dict_ok ?f" "map_of ?f k = Some r"
    using assms(1,2) map_of_filter_ok [OF assms(1), of "\<lambda>e. fst e \<notin> P - {k}" k] by simp_all
  then have "owners ?f = add_mset (jb_owner r) (owners (dict_del k ?f))" by (rule owners_del)
  moreover have "dict_del k ?f = filter (\<lambda>e. fst e \<notin> P) jobs"
    using assms(3) by (auto simp: dict_del_def intro: filter_cong)
  ultimately show ?thesis by simp
qed

lemma keys_dict_del: "fst ` set (dict_del k d) = fst ` set d - {k}"
  by (force simp: dict_del_def)

lemma settled_del: "filter (\<lambda>e. fst e \<notin> P) (dict_del k jobs) = filter (\<lambda>e. fst e \<notin> insert k P) jobs"
  by (auto simp: dict_del_def intro: filter_cong)

lemma reg_ok_retain:
  assumes s: "reg_ok s" and k: "(k, ow) \<in> set (rs_retaining s)" and l: "ctx_lease now ow (contexts_of s) = (ok, rg)"
  shows "reg_ok (set_contexts rg s\<lparr>rs_retaining := removeAll (k, ow) (rs_retaining s),
      rs_undoing := if ok then rs_undoing s else k # rs_undoing s\<rparr>)" (is "reg_ok ?t")
proof -
  have d: "distinct (map fst (rs_retaining s) @ rs_undoing s)" using s by (simp add: reg_ok_def)
  have only: "fst ` set (removeAll (k, ow) (rs_retaining s)) = fst ` set (rs_retaining s) - {k}"
    using d k by (force simp: distinct_map inj_on_def)
  have nu: "k \<notin> set (rs_undoing s)" "k \<in> pending s" using d k by (force simp: pending_def)+
  have pend: "pending ?t = (if ok then pending s - {k} else pending s)"
    using only nu by (auto simp: pending_def set_contexts_def)
  obtain r where r: "map_of (jr_jobs (rs_jobs s)) k = Some r" "jb_owner r = ow"
    using s k unfolding reg_ok_def owned_def by blast
  have o: "owners (settled ?t) = (if ok then add_mset ow (owners (settled s)) else owners (settled s))"
    using owners_settle [of "jr_jobs (rs_jobs s)" k r "pending s"] s r nu(2)
    by (auto simp: settled_def pend reg_ok_def) (simp_all add: set_contexts_def)
  have "held (owners (settled s) + rs_requests s + rs_releasing s) (contexts_of s)" using s by (simp add: reg_ok_def)
  from held_lease [OF this l] have "held (owners (settled ?t) + rs_requests ?t + rs_releasing ?t) (contexts_of ?t)"
    unfolding o by (cases ok) (simp_all add: set_contexts_def)
  moreover have "distinct (map fst (rs_retaining ?t) @ rs_undoing ?t)"
    using d nu(1) only by (auto simp: distinct_map_filter removeAll_filter_not_eq)
  moreover have "pending ?t \<subseteq> fst ` set (jr_jobs (rs_jobs ?t))"
    using s pend by (auto simp: reg_ok_def set_contexts_def split: if_splits)
  moreover have "owned (jr_jobs (rs_jobs s)) (rs_retaining ?t)"
    using s owned_mono [of "jr_jobs (rs_jobs s)" "rs_retaining s"] by (simp add: reg_ok_def)
  ultimately show ?thesis using s unfolding reg_ok_def by (simp add: set_contexts_def)
qed

lemma reg_ok_undo:
  assumes s: "reg_ok s" and k: "k \<in> set (rs_undoing s)"
  shows "reg_ok (s\<lparr>rs_jobs := snd (job_pop k (rs_jobs s)), rs_undoing := removeAll k (rs_undoing s)\<rparr>)" (is "reg_ok ?t")
proof -
  have d: "distinct (map fst (rs_retaining s) @ rs_undoing s)" using s by (simp add: reg_ok_def)
  have nr: "k \<notin> fst ` set (rs_retaining s)" using d k by auto
  have pend: "pending ?t = pending s - {k}" "k \<in> pending s" using nr k by (auto simp: pending_def)
  then have "settled ?t = settled s"
    unfolding settled_def pend(1) using settled_del [of "pending s - {k}" k "jr_jobs (rs_jobs s)"]
    by (simp add: job_pop_def insert_absorb del: Diff_iff)
  moreover have "length (dict_del k (jr_jobs (rs_jobs s))) \<le> MAX_SHARED_JOBS"
    using s le_trans [OF length_dict_del_le [of k]] by (auto simp: reg_ok_def)
  moreover have "pending ?t \<subseteq> fst ` set (jr_jobs (rs_jobs ?t))"
    unfolding pend(1) using s by (simp add: reg_ok_def job_pop_def keys_dict_del) blast
  moreover have "distinct (map fst (rs_retaining ?t) @ rs_undoing ?t)" using d by (auto simp: distinct_removeAll)
  moreover have "owned (jr_jobs (rs_jobs ?t)) (rs_retaining s)"
    by (rule owned_mono [of "jr_jobs (rs_jobs s)" "rs_retaining s"]) (use s nr in \<open>auto simp: reg_ok_def job_pop_def\<close>)
  ultimately show ?thesis using s unfolding reg_ok_def by (simp add: job_pop_def)
qed

lemma reg_ok_remove:
  assumes s: "reg_ok s" and k: "job_pop k (rs_jobs s) = (Some r, jr)" "k \<notin> pending s"
  shows "reg_ok (s\<lparr>rs_jobs := jr, rs_releasing := add_mset (jb_owner r) (rs_releasing s)\<rparr>)" (is "reg_ok ?t")
proof -
  have m: "map_of (jr_jobs (rs_jobs s)) k = Some r" and jr: "jr = (rs_jobs s)\<lparr>jr_jobs := dict_del k (jr_jobs (rs_jobs s))\<rparr>"
    using k(1) by (auto simp: job_pop_def)
  have pend: "pending ?t = pending s" by simp
  have "owners (settled s) = add_mset (jb_owner r) (owners (settled ?t))"
    using owners_settle [of "jr_jobs (rs_jobs s)" k r "insert k (pending s)"] s m k(2)
    by (simp add: settled_def pend jr settled_del reg_ok_def)
  moreover have "length (dict_del k (jr_jobs (rs_jobs s))) \<le> MAX_SHARED_JOBS"
    using s le_trans [OF length_dict_del_le [of k]] by (auto simp: reg_ok_def)
  moreover have "pending ?t \<subseteq> fst ` set (jr_jobs (rs_jobs ?t))"
    unfolding pend using s k(2) by (simp add: reg_ok_def jr keys_dict_del) blast
  moreover have "owned (jr_jobs (rs_jobs ?t)) (rs_retaining s)"
    by (rule owned_mono [of "jr_jobs (rs_jobs s)" "rs_retaining s"]) (use s k(2) in \<open>auto simp: reg_ok_def jr pending_def\<close>)
  ultimately show ?thesis using s unfolding reg_ok_def by (simp add: jr)
qed

lemma map_of_refresh:
  "map_of (refresh_jobs pe now jobs) k =
     map_option (\<lambda>r. r\<lparr>jb_session := refresh_status (pe_signal pe) now (pe_poll_after pe k) (jb_session r)\<rparr>)
       (map_of jobs k)"
  by (induction jobs) (auto simp: refresh_jobs_def)

lemma reg_ok_expire:
  assumes s: "reg_ok s" and e: "expire_jobs pe now (rs_jobs s) = (expired, jr)" "fst ` set expired \<inter> pending s = {}"
  shows "reg_ok (s\<lparr>rs_jobs := jr, rs_releasing := rs_releasing s + owners expired\<rparr>)" (is "reg_ok ?t")
proof -
  let ?J = "refresh_jobs pe now (jr_jobs (rs_jobs s))" and ?P = "\<lambda>e. job_expired (jr_ttl (rs_jobs s)) now (snd e)"
  have x: "expired = filter ?P ?J" and jr: "jr = (rs_jobs s)\<lparr>jr_jobs := filter (\<lambda>e. \<not> ?P e) ?J\<rparr>"
    using e(1) by (auto simp: expire_jobs_def Let_def)
  have ok: "dict_ok ?J" using s by (simp add: reg_ok_def)
  have stay: "\<not> ?P e" if "e \<in> set ?J" "fst e \<in> pending s" for e using that e(2) by (auto simp: x)
  have "owners (settled s) = owners (filter (\<lambda>e. fst e \<notin> pending s) ?J)"
    by (simp add: settled_def refresh_jobs_def filter_map comp_def owners_def)
  also have "\<dots> = owners (filter ?P (filter (\<lambda>e. fst e \<notin> pending s) ?J)) +
      owners (filter (\<lambda>e. \<not> ?P e) (filter (\<lambda>e. fst e \<notin> pending s) ?J))"
    using owners_partition [of "filter (\<lambda>e. fst e \<notin> pending s) ?J" ?P] by (simp add: owners_def comp_def)
  also have "filter ?P (filter (\<lambda>e. fst e \<notin> pending s) ?J) = expired"
    using stay by (auto simp: x intro: filter_cong)
  also have "filter (\<lambda>e. \<not> ?P e) (filter (\<lambda>e. fst e \<notin> pending s) ?J) = settled ?t"
    by (auto simp: settled_def jr intro: filter_cong)
  finally have o: "owners (settled s) = owners expired + owners (settled ?t)" .
  have keys: "fst ` set ?J = fst ` set (jr_jobs (rs_jobs s))" by (force simp: refresh_jobs_def)
  have m: "map_of (jr_jobs jr) k = map_of ?J k" if "k \<in> pending s" for k
    using map_of_filter_ok [OF ok, of "\<lambda>e. \<not> ?P e" k] stay that
    by (auto simp: jr split: option.splits dest: map_of_SomeD)
  have "owned ?J (rs_retaining s)"
    using s by (force simp: reg_ok_def owned_def map_of_refresh)
  then have "owned (jr_jobs jr) (rs_retaining s)"
    by (rule owned_mono) (simp, rule m, simp add: pending_def)
  moreover have "pending s \<subseteq> fst ` set (jr_jobs jr)"
  proof
    fix k assume k: "k \<in> pending s"
    then have "map_of ?J k \<noteq> None" using s keys by (auto simp: reg_ok_def map_of_eq_None_iff)
    with m [OF k] show "k \<in> fst ` set (jr_jobs jr)" by (metis map_of_None_fst)
  qed
  moreover have "length (jr_jobs jr) \<le> MAX_SHARED_JOBS"
    using s le_trans [OF length_filter_le [of "\<lambda>e. \<not> ?P e" ?J]] by (simp add: reg_ok_def jr)
  moreover have "dict_ok (jr_jobs jr)" using ok by (simp add: jr)
  moreover have "jr_contexts jr = contexts_of s" by (simp add: jr)
  ultimately show ?thesis using s unfolding reg_ok_def by (simp add: o ac_simps)
qed

lemma reg_ok_close:
  assumes "reg_ok s" "job_clear (rs_jobs s) = (jobs, jr)" "pending s = {}"
  shows "reg_ok (s\<lparr>rs_jobs := jr, rs_releasing := rs_releasing s + owners jobs\<rparr>)"
  using assms by (auto simp: reg_ok_def settled_def job_clear_def owned_def pending_def owners_def ac_simps)

lemma reg_ok_put:
  assumes s: "reg_ok s" and r: "map_of (jr_jobs (rs_jobs s)) k = Some r0" "jb_owner r = jb_owner r0"
  shows "reg_ok (s\<lparr>rs_jobs := (rs_jobs s)\<lparr>jr_jobs := dict_set k r (jr_jobs (rs_jobs s))\<rparr>\<rparr>)" (is "reg_ok ?t")
proof -
  have k: "k \<in> fst ` set (jr_jobs (rs_jobs s))" using r(1) by (metis map_of_None_fst option.distinct(1))
  have keys: "fst ` set (dict_set k r d) = insert k (fst ` set d)" for d :: "(string, SharedJobRecord) dict"
    by (induction k r d rule: dict_set.induct) auto
  have own: "owners (filter (\<lambda>e. fst e \<notin> P) (dict_set k r d)) = owners (filter (\<lambda>e. fst e \<notin> P) d)"
    if "map_of d k = Some r0" for d P
    using that r(2) by (induction k r d rule: dict_set.induct) (auto simp: owners_def split: if_splits)
  have "owned (jr_jobs (rs_jobs ?t)) (rs_retaining s)"
    using s r by (force simp: reg_ok_def owned_def)
  with s k own [OF r(1)] keys show ?thesis
    by (auto simp: reg_ok_def settled_def length_dict_set)
qed

lemma reg_ok_step: "reg_step s t \<Longrightarrow> reg_ok s \<Longrightarrow> reg_ok t"
proof (induction rule: reg_step.induct)
  case (create s token rs now a b c r rg)
  then have "held (owners (settled s) + rs_requests s + rs_releasing s) rg"
    by (intro held_add [OF _ create(2,1)]) (simp add: reg_ok_def)
  then show ?case by (intro reg_ok_contexts [OF create(3)]) (simp_all add: set_contexts_def)
next
  case (request now cid s ok rg)
  then have "held (if ok then add_mset cid (owners (settled s) + rs_requests s + rs_releasing s)
      else owners (settled s) + rs_requests s + rs_releasing s) rg"
    by (intro held_lease [OF _ request(1)]) (simp add: reg_ok_def)
  then show ?case by (intro reg_ok_contexts [OF request(2)]) (auto simp: set_contexts_def)
next
  case (request_end cid s now)
  have "held (owners (settled s) + rs_requests s + rs_releasing s - {#cid#}) (ctx_release now cid (contexts_of s))"
    using request_end by (intro held_release) (simp_all add: reg_ok_def)
  with request_end(1) show ?case by (intro reg_ok_contexts [OF request_end(2)]) (simp_all add: set_contexts_def)
next
  case (release cid s now)
  have "held (owners (settled s) + rs_requests s + rs_releasing s - {#cid#}) (ctx_release now cid (contexts_of s))"
    using release by (intro held_release) (simp_all add: reg_ok_def)
  with release(1) show ?case by (intro reg_ok_contexts [OF release(2)]) (simp_all add: set_contexts_def)
next
  case (undo k s r jr)
  then show ?case using reg_ok_undo by (metis snd_conv)
next
  case (find s now k ow)
  then show ?case by (auto simp: job_find_def split: option.splits intro: reg_ok_put)
next
  case (touch s now k)
  then show ?case by (auto simp: job_touch_def split: option.splits intro: reg_ok_put)
next
  case (dispose s x)
  then show ?case by (rule reg_ok_contexts) (use dispose in \<open>simp_all add: reg_ok_def\<close>)
qed (simp_all add: reg_ok_insert reg_ok_retain reg_ok_expire reg_ok_remove reg_ok_close reg_ok_set held_prune held_sections)

lemma reach_reg_ok: "reg.reach s \<Longrightarrow> reg_ok s"
proof (rule reg.reach_invariant [where J = reg_ok])
  show "reg_ok s" if "reg_start s" for s
    using that by (simp add: reg_start_def reg_ok_def settled_def held_def owners_def owned_def pending_def dict_ok_def)
qed (simp_all add: reg_ok_step)

section \<open>Theorems\<close>


definition demo_contexts :: context_registry where
  "demo_contexts = \<lparr>cr_ttl = 60, cr_callback = True, cr_contexts = [], cr_notified = [], cr_objects = 0\<rparr>"

definition demo_jobs :: job_registry where
  "demo_jobs = \<lparr>jr_ttl = 60, jr_jobs = [], jr_closed = False, jr_disposed = [], jr_contexts = demo_contexts\<rparr>"

definition demo_registries :: reg_state where
  "demo_registries = \<lparr>rs_jobs = demo_jobs, rs_requests = {#}, rs_retaining = [], rs_undoing = [], rs_releasing = {#}\<rparr>"


text \<open>
  Binding a context to an existing workspace is exclusive and can be undone.  When
  \<^verbatim>\<open>claim_existing_workspace\<close> returns, the context owns the resolved target, no other registered
  context of the same project owns it, and rolling the claim back restores the workspace, the
  working directory and the ownership the context had before.
\<close>

theorem claim_existing_exclusive:
  assumes "dict_ok (cr_contexts rg)" "\<forall>e \<in> set (cr_contexts rg). lc_id (snd e) = fst e"
    and "claim_existing_workspace rs now r target cwd rg = (Inr prev, rg')"
  shows "\<exists>c t. rs target = Inr t \<and> ctx_current rg' r = Some c \<and> lc_effective c = t \<and> lc_claimed c \<and>
    (\<forall>cid c'. map_of (cr_contexts rg') cid = Some c' \<longrightarrow> lc_object c' \<noteq> lc_object c \<longrightarrow> lc_claimed c' \<longrightarrow>
        lc_canonical c' = lc_canonical c \<longrightarrow> lc_effective c' \<noteq> t) \<and>
    (\<forall>now'. resolve_loose target = t \<longrightarrow>
       (\<exists>c0. ctx_current rg r = Some c0 \<and>
         (\<exists>c1. ctx_current (rollback_existing_workspace_claim resolve_loose now' r target prev rg') r = Some c1 \<and>
            lc_effective c1 = lc_effective c0 \<and> lc_cwd c1 = lc_cwd c0 \<and> lc_claimed c1 = lc_claimed c0)))"
proof -
  let ?p = "ctx_prune now rg"
  obtain t d c where t: "rs target = Inr t" "rs cwd = Inr d" and c: "ctx_current ?p r = Some c"
    and prev: "prev = (lc_effective c, lc_cwd c, lc_claimed c)"
    and free: "\<not> list_ex (\<lambda>e. lc_object (snd e) \<noteq> lc_object c \<and> lc_claimed (snd e) \<and>
        lc_canonical (snd e) = lc_canonical c \<and> lc_effective (snd e) = t) (cr_contexts ?p)"
    and rg': "rg' = ctx_put (c\<lparr>lc_effective := t, lc_cwd := d, lc_claimed := True, lc_last_seen := now\<rparr>) ?p"
    using assms(3)
    by (auto simp: claim_existing_workspace_def claim_existing_def Let_def result_simps split: sum.splits option.splits if_splits)
  have m: "map_of (cr_contexts ?p) (fst r) = Some c" "lc_object c = snd r"
    using c by (auto simp: ctx_current_def split: option.splits if_splits)
  have m0: "map_of (cr_contexts rg) (fst r) = Some c"
    using m(1) by (auto simp: ctx_prune_map [OF assms(1)] split: option.splits if_splits)
  have id: "lc_id c = fst r" using assms(2) map_of_SomeD [OF m0] by fastforce
  have cur: "ctx_current rg r = Some c" using m0 m(2) by (simp add: ctx_current_def)
  let ?c = "c\<lparr>lc_effective := t, lc_cwd := d, lc_claimed := True, lc_last_seen := now\<rparr>"
  have cur': "ctx_current rg' r = Some ?c" using m(2) id by (simp add: rg' ctx_put_def ctx_current_def)
  have other: "lc_effective c' \<noteq> t" if "map_of (cr_contexts rg') cid = Some c'" "lc_object c' \<noteq> lc_object ?c"
    "lc_claimed c'" "lc_canonical c' = lc_canonical ?c" for cid c'
  proof -
    have "map_of (cr_contexts ?p) cid = Some c'"
      using that(1,2) by (auto simp: rg' ctx_put_def split: if_splits)
    then have "(cid, c') \<in> set (cr_contexts ?p)" by (rule map_of_SomeD)
    with free that(2-4) show ?thesis by (fastforce simp: list_ex_iff)
  qed
  have undo: "\<exists>c1. ctx_current (rollback_existing_workspace_claim resolve_loose now' r target prev rg') r = Some c1 \<and>
      lc_effective c1 = lc_effective c \<and> lc_cwd c1 = lc_cwd c \<and> lc_claimed c1 = lc_claimed c"
    if "resolve_loose target = t" for now'
    using cur' that prev id m(2)
    by (simp add: rollback_existing_workspace_claim_def ctx_put_def ctx_current_def)
  show ?thesis
    using t cur cur' other undo by (intro exI [of _ ?c] exI [of _ t]) auto
qed

theorem claim_existing_exclusive_witness:
  "let x = ctx_create Inr ''t'' 1 ''/p'' ''/p'' ''/p'' demo_contexts;
       y = claim_existing_workspace Inr 2 (''ctx_t'', 0) ''/w'' ''/w'' (snd x) in
   fst x = Inr (''ctx_t'', 0) \<and> fst y = Inr (''/p'', ''/p'', False) \<and>
   (\<exists>c. ctx_current (snd y) (''ctx_t'', 0) = Some c \<and> lc_effective c = ''/w'')"
proof -
  let ?x = "ctx_create Inr ''t'' 1 ''/p'' ''/p'' ''/p'' demo_contexts"
  let ?y = "claim_existing_workspace Inr 2 (''ctx_t'', 0) ''/w'' ''/w'' (snd ?x)"
  note ev = ctx_create_def ctx_add_def ctx_evict_def ctx_prune_def notify_expired_def demo_contexts_def
    MAX_LOGICAL_CONTEXTS_def ctx_expired_def Let_def claim_existing_workspace_def claim_existing_def ctx_current_def
  have x: "fst ?x = Inr (''ctx_t'', 0)" "dict_ok (cr_contexts (snd ?x))"
    "\<forall>e \<in> set (cr_contexts (snd ?x)). lc_id (snd e) = fst e"
    by (simp_all add: ev dict_ok_def)
  have y: "fst ?y = Inr (''/p'', ''/p'', False)" by (simp add: ev)
  then have "?y = (Inr (''/p'', ''/p'', False), snd ?y)" by (metis prod.collapse)
  from claim_existing_exclusive [OF x(2,3) this, of "\<lambda>p. p"]
  obtain c where "ctx_current (snd ?y) (''ctx_t'', 0) = Some c" "lc_effective c = ''/w''" by blast
  with x(1) y show ?thesis by (auto simp: Let_def)
qed

text \<open>
  A running job belongs to its owner.  While its process runs and no timeout is due, the owner's
  lookup finds the job with its session unchanged, and every other context is told that it is
  forbidden and gets no session, no matter which jobs the pruning removes in between.
\<close>

theorem job_lookup_owner:
  assumes "dict_ok (jr_jobs jr)" "map_of (jr_jobs jr) k = Some r"
    and "es_poll (jb_session r) = None" "\<not> timeout_due now (jb_session r)"
  shows "fst (job_lookup pe now k ow jr) =
    (if ow = jb_owner r then (''found'', Some (jb_session r)) else (''forbidden'', None))"
proof -
  have same: "refresh_status (pe_signal pe) now (pe_poll_after pe k) (jb_session r) = jb_session r"
    using assms(3,4) by (simp add: refresh_status_def)
  have "map_of (refresh_jobs pe now (jr_jobs jr)) k = Some r"
    using assms(2) same by (simp add: map_of_refresh)
  then have "map_of (jr_jobs (job_prune pe now jr)) k = Some r"
    using map_of_filter_ok [of "refresh_jobs pe now (jr_jobs jr)" "\<lambda>e. \<not> job_expired (jr_ttl jr) now (snd e)" k]
      assms(1,3) by (simp add: job_prune_def expire_jobs_def Let_def job_expired_def)
  then show ?thesis by (simp add: job_lookup_def job_find_def Let_def)
qed

theorem job_lookup_owner_witness:
  "let r = \<lparr>jb_session = demo_session, jb_owner = ''ctx_t'', jb_created_at = 0, jb_last_seen = 0\<rparr>;
       jr = demo_jobs\<lparr>jr_jobs := [(''job_1'', r)]\<rparr>;
       pe = \<lparr>pe_signal = (\<lambda>n. None), pe_poll_after = (\<lambda>k. None)\<rparr> in
   fst (job_lookup pe 5 ''job_1'' ''ctx_t'' jr) = (''found'', Some demo_session) \<and>
   fst (job_lookup pe 5 ''job_1'' ''ctx_u'' jr) = (''forbidden'', None)"
proof -
  let ?r = "\<lparr>jb_session = demo_session, jb_owner = ''ctx_t'', jb_created_at = 0, jb_last_seen = 0\<rparr>"
  let ?jr = "demo_jobs\<lparr>jr_jobs := [(''job_1'', ?r)]\<rparr>"
  have h: "dict_ok (jr_jobs ?jr)" "map_of (jr_jobs ?jr) ''job_1'' = Some ?r" "es_poll (jb_session ?r) = None"
    "\<not> timeout_due 5 (jb_session ?r)"
    by (simp_all add: dict_ok_def demo_session_def timeout_due_def)
  show ?thesis using job_lookup_owner [OF h] by (simp add: Let_def)
qed

end
