(* ===== verification/HttpSessions.thy ===== *)
theory HttpSessions
  imports Registries
begin

text \<open>
  \<open>coding_tools_mcp/transport_http.py\<close>: the manager that owns one runtime per HTTP session.  Each
  critical section is one definition, which returns the runtimes its caller closes after the lock has
  been given up; a method is the composition of its sections.  In the state machine the sections of
  several threads interleave, with the construction and the closing of runtimes in between.  A
  runtime is a number; whether \<^verbatim>\<open>http_session_evictable\<close> allows its eviction is an argument of the
  sections that ask.
\<close>

section \<open>The manager\<close>

definition MAX_HTTP_SESSIONS :: nat where
  "MAX_HTTP_SESSIONS = 128"

definition HTTP_SESSION_TTL_SECONDS :: real where
  "HTTP_SESSION_TTL_SECONDS = 60 * 60"

record HTTPSessionRecord =
  hr_runtime :: nat
  hr_last_seen :: real
  hr_active :: nat
  hr_closing :: bool

record http_manager =
  hm_sessions :: "(string, HTTPSessionRecord) dict"
  hm_creating :: nat
  hm_closed :: bool
  hm_runtimes_closed :: "nat list"

definition close_runtimes :: "nat list \<Rightarrow> http_manager \<Rightarrow> http_manager" where
  "close_runtimes rts m = m\<lparr>hm_runtimes_closed := hm_runtimes_closed m @ rts\<rparr>"

definition http_idle :: "(nat \<Rightarrow> bool) \<Rightarrow> HTTPSessionRecord \<Rightarrow> bool" where
  "http_idle evictable r \<longleftrightarrow> hr_active r = 0 \<and> \<not> hr_closing r \<and> evictable (hr_runtime r)"

definition http_expired :: "(nat \<Rightarrow> bool) \<Rightarrow> real \<Rightarrow> HTTPSessionRecord \<Rightarrow> bool" where
  "http_expired evictable now r \<longleftrightarrow>
     hr_last_seen r < now - HTTP_SESSION_TTL_SECONDS \<and> http_idle evictable r"

definition http_expire :: "(nat \<Rightarrow> bool) \<Rightarrow> real \<Rightarrow> http_manager \<Rightarrow> nat list \<times> http_manager" where
  "http_expire evictable now m =
     (map (\<lambda>e. hr_runtime (snd e)) (filter (\<lambda>e. http_expired evictable now (snd e)) (hm_sessions m)),
      m\<lparr>hm_sessions := filter (\<lambda>e. \<not> http_expired evictable now (snd e)) (hm_sessions m)\<rparr>)"

definition http_prune :: "(nat \<Rightarrow> bool) \<Rightarrow> real \<Rightarrow> http_manager \<Rightarrow> http_manager" where
  "http_prune evictable now m = (case http_expire evictable now m of (rts, m1) \<Rightarrow> close_runtimes rts m1)"

fun least_seen :: "(string \<times> HTTPSessionRecord) list \<Rightarrow> string \<times> HTTPSessionRecord" where
  "least_seen [e] = e"
| "least_seen (e # es) =
     (let m = least_seen es in if hr_last_seen (snd e) \<le> hr_last_seen (snd m) then e else m)"
| "least_seen [] = undefined"

text \<open>
  The sections of \<^verbatim>\<open>create\<close>: a place is reserved, an idle session being evicted when there is none;
  the runtime that the factory made is installed; the reservation is given up.
\<close>

definition http_reserve :: "(nat \<Rightarrow> bool) \<Rightarrow> http_manager \<Rightarrow> nat list result \<times> http_manager" where
  "http_reserve evictable m =
     (if hm_closed m then (Inl (RuntimeError ''HTTP session manager is closed''), m)
      else if length (hm_sessions m) + hm_creating m < MAX_HTTP_SESSIONS then
        (Inr [], m\<lparr>hm_creating := Suc (hm_creating m)\<rparr>)
      else let idle = filter (\<lambda>e. http_idle evictable (snd e)) (hm_sessions m) in
           if idle = [] then (Inl (RuntimeError ''maximum HTTP session count reached''), m)
           else let victim = least_seen idle in
                (Inr [hr_runtime (snd victim)],
                 m\<lparr>hm_sessions := dict_del (fst victim) (hm_sessions m), hm_creating := Suc (hm_creating m)\<rparr>))"

definition http_install :: "string \<Rightarrow> nat \<Rightarrow> real \<Rightarrow> http_manager \<Rightarrow> unit result \<times> http_manager" where
  "http_install sid rt now m =
     (if hm_closed m then (Inl (RuntimeError ''HTTP session manager is closed''), m)
      else if sid \<in> set (keys (hm_sessions m)) then (Inl (RuntimeError ''duplicate HTTP session identifier''), m)
      else (Inr (), m\<lparr>hm_sessions := dict_set sid
              \<lparr>hr_runtime = rt, hr_last_seen = now, hr_active = 1, hr_closing = False\<rparr> (hm_sessions m)\<rparr>))"

definition http_unreserve :: "http_manager \<Rightarrow> http_manager" where
  "http_unreserve m = m\<lparr>hm_creating := hm_creating m - 1\<rparr>"

text \<open>\<^verbatim>\<open>create\<close> up to the factory, and from there: the factory returned a runtime, or raised.\<close>

definition http_begin_create :: "(nat \<Rightarrow> bool) \<Rightarrow> real \<Rightarrow> http_manager \<Rightarrow> unit result \<times> http_manager" where
  "http_begin_create evictable now m =
     (case http_reserve evictable (http_prune evictable now m) of
        (Inl e, m1) \<Rightarrow> (Inl e, m1)
      | (Inr rts, m1) \<Rightarrow> (Inr (), close_runtimes rts m1))"

definition http_end_create :: "(string \<times> nat) option \<Rightarrow> real \<Rightarrow> http_manager \<Rightarrow> nat result \<times> http_manager" where
  "http_end_create made now m =
     (case made of
        None \<Rightarrow> (Inl (RuntimeError ''factory''), http_unreserve m)
      | Some (sid, rt) \<Rightarrow>
          (case http_install sid rt now m of
             (Inl e, m1) \<Rightarrow> (Inl e, close_runtimes [rt] (http_unreserve m1))
           | (Inr _, m1) \<Rightarrow> (Inr rt, http_unreserve m1)))"

definition http_find :: "real \<Rightarrow> string \<Rightarrow> http_manager \<Rightarrow> nat option \<times> http_manager" where
  "http_find now sid m =
     (if hm_closed m then (None, m)
      else case map_of (hm_sessions m) sid of
          None \<Rightarrow> (None, m)
        | Some r \<Rightarrow>
            if hr_closing r then (None, m)
            else (Some (hr_runtime r),
                  m\<lparr>hm_sessions := dict_set sid (r\<lparr>hr_last_seen := now, hr_active := Suc (hr_active r)\<rparr>)
                      (hm_sessions m)\<rparr>))"

definition http_get :: "(nat \<Rightarrow> bool) \<Rightarrow> real \<Rightarrow> string \<Rightarrow> http_manager \<Rightarrow> nat option \<times> http_manager" where
  "http_get evictable now sid m = http_find now sid (http_prune evictable now m)"

definition http_leave :: "real \<Rightarrow> string \<Rightarrow> http_manager \<Rightarrow> nat list \<times> http_manager" where
  "http_leave now sid m =
     (case map_of (hm_sessions m) sid of
        None \<Rightarrow> ([], m)
      | Some r \<Rightarrow>
          let r' = r\<lparr>hr_active := hr_active r - 1, hr_last_seen := now\<rparr> in
          if hr_closing r' \<and> hr_active r' = 0
          then ([hr_runtime r], m\<lparr>hm_sessions := dict_del sid (hm_sessions m)\<rparr>)
          else ([], m\<lparr>hm_sessions := dict_set sid r' (hm_sessions m)\<rparr>))"

definition http_release :: "real \<Rightarrow> string \<Rightarrow> http_manager \<Rightarrow> http_manager" where
  "http_release now sid m = (case http_leave now sid m of (rts, m1) \<Rightarrow> close_runtimes rts m1)"

definition http_mark :: "string \<Rightarrow> http_manager \<Rightarrow> (bool \<times> nat list) \<times> http_manager" where
  "http_mark sid m =
     (case map_of (hm_sessions m) sid of
        None \<Rightarrow> ((False, []), m)
      | Some r \<Rightarrow>
          if hr_active r = 0
          then ((True, [hr_runtime r]), m\<lparr>hm_sessions := dict_del sid (hm_sessions m)\<rparr>)
          else ((True, []), m\<lparr>hm_sessions := dict_set sid (r\<lparr>hr_closing := True\<rparr>) (hm_sessions m)\<rparr>))"

definition http_delete :: "string \<Rightarrow> http_manager \<Rightarrow> bool \<times> http_manager" where
  "http_delete sid m = (case http_mark sid m of ((found, rts), m1) \<Rightarrow> (found, close_runtimes rts m1))"

record http_stats =
  hst_total :: nat
  hst_creating :: nat
  hst_active_sessions :: nat
  hst_active_requests :: nat
  hst_closing :: nat

definition http_stats_of :: "http_manager \<Rightarrow> http_stats" where
  "http_stats_of m =
     (let rs = map snd (hm_sessions m) in
      \<lparr>hst_total = length rs, hst_creating = hm_creating m,
       hst_active_sessions = length (filter (\<lambda>r. 0 < hr_active r) rs),
       hst_active_requests = sum_list (map hr_active rs), hst_closing = length (filter hr_closing rs)\<rparr>)"

definition http_clear :: "http_manager \<Rightarrow> nat list \<times> http_manager" where
  "http_clear m = (map (\<lambda>e. hr_runtime (snd e)) (hm_sessions m), m\<lparr>hm_sessions := [], hm_closed := True\<rparr>)"

definition http_close :: "http_manager \<Rightarrow> http_manager" where
  "http_close m = (case http_clear m of (rts, m1) \<Rightarrow> close_runtimes rts m1)"

lemma close_runtimes_Nil [simp]: "close_runtimes [] m = m"
  by (simp add: close_runtimes_def)

lemmas http_sections = http_expire_def http_reserve_def http_install_def http_unreserve_def http_find_def
  http_leave_def http_mark_def http_clear_def

section \<open>The manager as a state machine\<close>

text \<open>
  Beside the manager a state has what the threads have still to do: how many creations have a place
  and wait for their runtime; the creations whose runtime has been installed or refused and that
  still have their place, each with the runtime it closes afterwards; and the runtimes that have been
  taken out and are about to be closed.
\<close>

record http_state =
  hs_manager :: http_manager
  hs_making :: nat
  hs_finishing :: "nat list list"
  hs_closing :: "nat list"

datatype http_action =
    Expire "nat \<Rightarrow> bool" real
  | Reserve "nat \<Rightarrow> bool"
  | FactoryRaises
  | Install string nat real
  | Unreserve "nat list"
  | CloseRuntime nat
  | Find real string
  | Leave real string
  | Mark string
  | Clear

definition take_out :: "nat list \<times> http_manager \<Rightarrow> http_state \<Rightarrow> http_state" where
  "take_out x s = s\<lparr>hs_manager := snd x, hs_closing := hs_closing s @ fst x\<rparr>"

fun http_act :: "http_action \<Rightarrow> http_state \<Rightarrow> http_state" where
  "http_act (Expire ev now) s = take_out (http_expire ev now (hs_manager s)) s"
| "http_act (Reserve ev) s =
     (case http_reserve ev (hs_manager s) of
        (Inl e, m) \<Rightarrow> s\<lparr>hs_manager := m\<rparr>
      | (Inr rts, m) \<Rightarrow> (take_out (rts, m) s)\<lparr>hs_making := Suc (hs_making s)\<rparr>)"
| "http_act FactoryRaises s = s\<lparr>hs_making := hs_making s - 1, hs_finishing := [] # hs_finishing s\<rparr>"
| "http_act (Install sid rt now) s =
     (case http_install sid rt now (hs_manager s) of
        (Inl e, m) \<Rightarrow> s\<lparr>hs_manager := m, hs_making := hs_making s - 1, hs_finishing := [rt] # hs_finishing s\<rparr>
      | (Inr _, m) \<Rightarrow> s\<lparr>hs_manager := m, hs_making := hs_making s - 1, hs_finishing := [] # hs_finishing s\<rparr>)"
| "http_act (Unreserve rts) s =
     (take_out (rts, http_unreserve (hs_manager s)) s)\<lparr>hs_finishing := remove1 rts (hs_finishing s)\<rparr>"
| "http_act (CloseRuntime rt) s =
     s\<lparr>hs_manager := close_runtimes [rt] (hs_manager s), hs_closing := remove1 rt (hs_closing s)\<rparr>"
| "http_act (Find now sid) s = s\<lparr>hs_manager := snd (http_find now sid (hs_manager s))\<rparr>"
| "http_act (Leave now sid) s = take_out (http_leave now sid (hs_manager s)) s"
| "http_act (Mark sid) s =
     (case http_mark sid (hs_manager s) of ((found, rts), m) \<Rightarrow> take_out (rts, m) s)"
| "http_act Clear s = take_out (http_clear (hs_manager s)) s"

definition live_runtimes :: "http_manager \<Rightarrow> nat list" where
  "live_runtimes m = map (\<lambda>e. hr_runtime (snd e)) (hm_sessions m)"

text \<open>The runtimes there are: serving a session, about to be closed, refused, or closed.\<close>

definition runtimes :: "http_state \<Rightarrow> nat multiset" where
  "runtimes s = mset (live_runtimes (hs_manager s)) + mset (hs_closing s) + mset (concat (hs_finishing s)) +
     mset (hm_runtimes_closed (hs_manager s))"

text \<open>
  The factory runs, and a place is given up, only when a creation has reserved one, and the factory
  makes a new runtime.
\<close>

fun http_enabled :: "http_action \<Rightarrow> http_state \<Rightarrow> bool" where
  "http_enabled FactoryRaises s = (0 < hs_making s)"
| "http_enabled (Install sid rt now) s = (0 < hs_making s \<and> rt \<notin># runtimes s)"
| "http_enabled (Unreserve rts) s = (rts \<in> set (hs_finishing s))"
| "http_enabled (CloseRuntime rt) s = (rt \<in> set (hs_closing s))"
| "http_enabled _ s = True"

definition empty_manager :: http_manager where
  "empty_manager = \<lparr>hm_sessions = [], hm_creating = 0, hm_closed = False, hm_runtimes_closed = []\<rparr>"

definition http_start :: "http_state \<Rightarrow> bool" where
  "http_start s \<longleftrightarrow> s = \<lparr>hs_manager = empty_manager, hs_making = 0, hs_finishing = [], hs_closing = []\<rparr>"

definition http_step :: "http_state \<Rightarrow> http_state \<Rightarrow> bool" where
  "http_step s s' \<longleftrightarrow> (\<exists>a. http_enabled a s \<and> s' = http_act a s)"

interpretation http: machine http_start http_step .

text \<open>
  The invariant: the sessions and the creations that wait for a runtime keep to the capacity, the
  counter of the manager counts the creations, and no runtime is in two of its places.
\<close>

definition http_ok :: "http_state \<Rightarrow> bool" where
  "http_ok s \<longleftrightarrow>
     dict_ok (hm_sessions (hs_manager s)) \<and>
     length (hm_sessions (hs_manager s)) + hs_making s \<le> MAX_HTTP_SESSIONS \<and>
     hm_creating (hs_manager s) = hs_making s + length (hs_finishing s) \<and>
     (\<forall>rt. count (runtimes s) rt \<le> 1)"

lemma mset_split: "mset xs = mset (filter P xs) + mset (filter (\<lambda>e. \<not> P e) xs)"
  by (induction xs) auto

lemma distinct_by_count: "(\<And>x. count (mset xs) x \<le> 1) \<Longrightarrow> distinct xs"
proof (induction xs)
  case (Cons a xs)
  have "count (mset xs) x \<le> 1" for x using le_trans [OF _ Cons.prems [of x]] by simp
  moreover have "count (mset xs) a = 0" using Cons.prems [of a] by simp
  then have "a \<notin> set xs" by (simp add: count_mset_0_iff)
  ultimately show ?case using Cons.IH by simp
qed simp

lemma mset_concat_remove1: "x \<in> set xss \<Longrightarrow> mset (concat xss) = mset x + mset (concat (remove1 x xss))"
  by (induction xss) auto

text \<open>Sessions leave the manager together with their runtimes, while \<open>k\<close> places are reserved.\<close>

lemma http_ok_take:
  assumes ok: "http_ok s" and gone: "mset (hm_sessions (hs_manager s)) = mset gone + mset (hm_sessions m)"
    and m: "dict_ok (hm_sessions m)" "hm_runtimes_closed m = hm_runtimes_closed (hs_manager s)"
      "hm_creating m = hm_creating (hs_manager s) + k"
    and room: "length (hm_sessions m) + hs_making s + k \<le> MAX_HTTP_SESSIONS"
  shows "http_ok ((take_out (map (\<lambda>e. hr_runtime (snd e)) gone, m) s)\<lparr>hs_making := hs_making s + k\<rparr>)"
proof -
  let ?f = "\<lambda>e :: string \<times> HTTPSessionRecord. hr_runtime (snd e)"
  have "mset (map ?f (hm_sessions (hs_manager s))) = mset (map ?f gone) + mset (map ?f (hm_sessions m))"
    using arg_cong [OF gone, of "image_mset ?f"] by simp
  then have "runtimes ((take_out (map ?f gone, m) s)\<lparr>hs_making := hs_making s + k\<rparr>) = runtimes s"
    using m(2) by (simp add: runtimes_def take_out_def live_runtimes_def)
  with ok m room show ?thesis by (simp add: http_ok_def take_out_def)
qed

lemma http_ok_take_out:
  assumes ok: "http_ok s" and gone: "mset (hm_sessions (hs_manager s)) = mset gone + mset (hm_sessions m)"
    and m: "dict_ok (hm_sessions m)" "hm_runtimes_closed m = hm_runtimes_closed (hs_manager s)"
      "hm_creating m = hm_creating (hs_manager s)"
  shows "http_ok (take_out (map (\<lambda>e. hr_runtime (snd e)) gone, m) s)"
proof -
  have "length (hm_sessions m) \<le> length (hm_sessions (hs_manager s))"
    using arg_cong [OF gone, of size] by simp
  then have "length (hm_sessions m) + hs_making s + 0 \<le> MAX_HTTP_SESSIONS" using ok by (simp add: http_ok_def)
  from http_ok_take [OF ok gone m(1,2) _ this] m(3) show ?thesis by (simp add: take_out_def)
qed

lemma dict_del_split:
  assumes "dict_ok d" "map_of d k = Some r"
  shows "mset d = mset [(k, r)] + mset (dict_del k d)"
proof -
  have "filter (\<lambda>e. fst e = k) d = [(k, r)]"
    using assms
  proof (induction d)
    case (Cons e d)
    show ?case
    proof (cases "fst e = k")
      case True
      then have "k \<notin> fst ` set d" using Cons.prems(1) by (auto simp: dict_ok_def)
      then have "\<forall>x \<in> set d. fst x \<noteq> k" by (metis imageI)
      then have "filter (\<lambda>e. fst e = k) d = []" by (simp add: filter_empty_conv)
      with True Cons.prems(2) show ?thesis by (cases e) auto
    next
      case False
      with Cons show ?thesis by (cases e) (auto simp: dict_ok_def)
    qed
  qed simp
  with mset_split [of d "\<lambda>e. fst e = k"] show ?thesis by (simp add: dict_del_def)
qed

lemma http_ok_remove:
  assumes ok: "http_ok s" and r: "map_of (hm_sessions (hs_manager s)) sid = Some r"
  shows "http_ok (take_out ([hr_runtime r], (hs_manager s)\<lparr>hm_sessions := dict_del sid (hm_sessions (hs_manager s))\<rparr>) s)"
proof -
  have d: "dict_ok (hm_sessions (hs_manager s))" using ok by (simp add: http_ok_def)
  show ?thesis
    using http_ok_take_out [OF ok, of "[(sid, r)]" "(hs_manager s)\<lparr>hm_sessions := dict_del sid (hm_sessions (hs_manager s))\<rparr>"]
      dict_del_split [OF d r] d by simp
qed

lemma http_ok_put:
  assumes "http_ok s" "map_of (hm_sessions (hs_manager s)) k = Some r0" "hr_runtime r = hr_runtime r0"
  shows "http_ok (s\<lparr>hs_manager := (hs_manager s)\<lparr>hm_sessions := dict_set k r (hm_sessions (hs_manager s))\<rparr>\<rparr>)"
proof -
  have "map (\<lambda>e. hr_runtime (snd e)) (dict_set k r d) = map (\<lambda>e. hr_runtime (snd e)) d"
    if "map_of d k = Some r0" for d :: "(string, HTTPSessionRecord) dict"
    using that assms(3) by (induction k r d rule: dict_set.induct) (auto split: if_splits)
  moreover have "k \<in> fst ` set (hm_sessions (hs_manager s))" using assms(2) by (metis map_of_None_fst option.distinct(1))
  ultimately show ?thesis using assms by (simp add: http_ok_def live_runtimes_def runtimes_def length_dict_set)
qed

lemma take_out_none [simp]: "take_out ([], m) s = s\<lparr>hs_manager := m\<rparr>"
  by (simp add: take_out_def)

lemma least_seen_in: "es \<noteq> [] \<Longrightarrow> least_seen es \<in> set es"
  by (induction es rule: least_seen.induct) (auto simp: Let_def)

lemma http_begin_cases:
  assumes "dict_ok (hm_sessions (http_prune ev now m))" "http_begin_create ev now m = (r, m')"
  obtains (refused) e where "r = Inl e" "m' = http_prune ev now m"
    | (room) "r = Inr ()" "length (hm_sessions (http_prune ev now m)) + hm_creating (http_prune ev now m) < MAX_HTTP_SESSIONS"
        "m' = (http_prune ev now m)\<lparr>hm_creating := Suc (hm_creating (http_prune ev now m))\<rparr>"
    | (evicted) k x where "r = Inr ()" "map_of (hm_sessions (http_prune ev now m)) k = Some x" "http_idle ev x"
        "m' = close_runtimes [hr_runtime x] ((http_prune ev now m)\<lparr>
            hm_sessions := dict_del k (hm_sessions (http_prune ev now m)),
            hm_creating := Suc (hm_creating (http_prune ev now m))\<rparr>)"
proof -
  let ?p = "http_prune ev now m"
  let ?idle = "filter (\<lambda>e. http_idle ev (snd e)) (hm_sessions ?p)"
  consider "hm_closed ?p" | "\<not> hm_closed ?p" "length (hm_sessions ?p) + hm_creating ?p < MAX_HTTP_SESSIONS"
    | "\<not> hm_closed ?p" "\<not> length (hm_sessions ?p) + hm_creating ?p < MAX_HTTP_SESSIONS" "?idle = []"
    | "\<not> hm_closed ?p" "\<not> length (hm_sessions ?p) + hm_creating ?p < MAX_HTTP_SESSIONS" "?idle \<noteq> []"
    by blast
  then show thesis
  proof cases
    case 1
    with assms(2) refused show thesis by (auto simp: http_begin_create_def http_reserve_def Let_def)
  next
    case 2
    with assms(2) room show thesis by (auto simp: http_begin_create_def http_reserve_def Let_def)
  next
    case 3
    with assms(2) refused show thesis by (auto simp: http_begin_create_def http_reserve_def Let_def)
  next
    case 4
    let ?v = "least_seen ?idle"
    have v: "?v \<in> set (hm_sessions ?p)" "http_idle ev (snd ?v)" using least_seen_in [OF 4(3)] by auto
    then have m: "map_of (hm_sessions ?p) (fst ?v) = Some (snd ?v)"
      using assms(1) by (metis dict_ok_def map_of_is_SomeI prod.collapse)
    show thesis
      using evicted [OF _ m v(2)] assms(2) 4 by (simp add: http_begin_create_def http_reserve_def Let_def)
  qed
qed

lemma http_ok_reserve:
  assumes ok: "http_ok s"
  shows "http_ok (http_act (Reserve ev) s)"
proof -
  let ?m = "hs_manager s" and ?idle = "filter (\<lambda>e. http_idle ev (snd e)) (hm_sessions (hs_manager s))"
  have d: "dict_ok (hm_sessions ?m)" and c: "hs_making s \<le> hm_creating ?m" using ok by (simp_all add: http_ok_def)
  consider (refused) e where "http_reserve ev ?m = (Inl e, ?m)"
    | (room) "http_reserve ev ?m = (Inr [], ?m\<lparr>hm_creating := Suc (hm_creating ?m)\<rparr>)"
        "length (hm_sessions ?m) + hm_creating ?m < MAX_HTTP_SESSIONS"
    | (evicted) k x where "map_of (hm_sessions ?m) k = Some x" "http_reserve ev ?m = (Inr [hr_runtime x],
        ?m\<lparr>hm_sessions := dict_del k (hm_sessions ?m), hm_creating := Suc (hm_creating ?m)\<rparr>)"
  proof (cases "hm_closed ?m \<or> length (hm_sessions ?m) + hm_creating ?m < MAX_HTTP_SESSIONS \<or> ?idle = []")
    case True
    then consider "hm_closed ?m" | "\<not> hm_closed ?m" "length (hm_sessions ?m) + hm_creating ?m < MAX_HTTP_SESSIONS"
      | "\<not> hm_closed ?m" "\<not> length (hm_sessions ?m) + hm_creating ?m < MAX_HTTP_SESSIONS" "?idle = []" by blast
    then show thesis
    proof cases
      case 1
      then show thesis by (intro refused) (simp add: http_reserve_def)
    next
      case 2
      then show thesis by (intro room) (simp_all add: http_reserve_def)
    next
      case 3
      then show thesis by (intro refused) (simp add: http_reserve_def)
    qed
  next
    case False
    then have "least_seen ?idle \<in> set (hm_sessions ?m)" using least_seen_in [of ?idle] by auto
    then have "map_of (hm_sessions ?m) (fst (least_seen ?idle)) = Some (snd (least_seen ?idle))"
      using d by (metis dict_ok_def map_of_is_SomeI prod.collapse)
    with False evicted show thesis by (simp add: http_reserve_def Let_def)
  qed
  then show ?thesis
  proof cases
    case refused
    with ok show ?thesis by simp
  next
    case room
    with ok c http_ok_take [OF ok, of "[]" "?m\<lparr>hm_creating := Suc (hm_creating ?m)\<rparr>" 1] d show ?thesis by simp
  next
    case (evicted k x)
    have "length (dict_del k (hm_sessions ?m)) + hs_making s + 1 \<le> MAX_HTTP_SESSIONS"
      using length_dict_del_less [OF evicted(1)] ok by (simp add: http_ok_def)
    with http_ok_take [OF ok, of "[(k, x)]" "?m\<lparr>hm_sessions := dict_del k (hm_sessions ?m), hm_creating := Suc (hm_creating ?m)\<rparr>" 1]
      dict_del_split [OF d evicted(1)] d evicted(2) show ?thesis by simp
  qed
qed

lemma http_ok_install:
  assumes ok: "http_ok s" and en: "0 < hs_making s" "rt \<notin># runtimes s"
  shows "http_ok (http_act (Install sid rt now) s)"
proof -
  have cnt: "count (runtimes s) rt = 0" using en(2) by (simp add: not_in_iff)
  show ?thesis
  proof (cases "hm_closed (hs_manager s) \<or> sid \<in> set (keys (hm_sessions (hs_manager s)))")
    case True
    let ?t = "s\<lparr>hs_making := hs_making s - 1, hs_finishing := [rt] # hs_finishing s\<rparr>"
    have "http_act (Install sid rt now) s = ?t" using True by (auto simp: http_install_def)
    moreover have "runtimes ?t = add_mset rt (runtimes s)" by (simp add: runtimes_def)
    ultimately show ?thesis using ok en(1) cnt by (cases "hs_making s") (simp_all add: http_ok_def)
  next
    case False
    let ?r = "\<lparr>hr_runtime = rt, hr_last_seen = now, hr_active = 1, hr_closing = False\<rparr>"
    let ?t = "s\<lparr>hs_manager := (hs_manager s)\<lparr>hm_sessions := hm_sessions (hs_manager s) @ [(sid, ?r)]\<rparr>,
      hs_making := hs_making s - 1, hs_finishing := [] # hs_finishing s\<rparr>"
    have new: "sid \<notin> fst ` set (hm_sessions (hs_manager s))" using False by (simp add: keys_def)
    have "http_act (Install sid rt now) s = ?t" using False new by (simp add: http_install_def dict_set_new)
    moreover have "runtimes ?t = add_mset rt (runtimes s)" by (simp add: runtimes_def live_runtimes_def)
    ultimately show ?thesis using ok en(1) cnt new by (cases "hs_making s") (simp_all add: http_ok_def dict_ok_def)
  qed
qed

lemma http_ok_act:
  assumes ok: "http_ok s" and en: "http_enabled a s"
  shows "http_ok (http_act a s)"
proof (cases a)
  case (Expire ev now)
  let ?P = "\<lambda>e. http_expired ev now (snd e)"
  from http_ok_take_out [OF ok, of "filter ?P (hm_sessions (hs_manager s))" "snd (http_expire ev now (hs_manager s))"] ok
  show ?thesis by (simp add: Expire http_expire_def http_ok_def mset_split [of _ ?P, symmetric])
next
  case (Reserve ev)
  with http_ok_reserve [OF ok] show ?thesis by simp
next
  case (Install sid rt now)
  with en http_ok_install [OF ok] show ?thesis by (simp del: http_act.simps)
next
  case FactoryRaises
  with ok en show ?thesis by (cases "hs_making s") (simp_all add: http_ok_def runtimes_def)
next
  case (Unreserve rts)
  then have mem: "rts \<in> set (hs_finishing s)" using en by simp
  have "mset (concat (hs_finishing s)) = mset rts + mset (concat (remove1 rts (hs_finishing s)))"
    using mset_concat_remove1 [OF mem] .
  then have "runtimes (http_act a s) = runtimes s"
    by (simp add: Unreserve runtimes_def take_out_def http_unreserve_def live_runtimes_def)
  moreover have "length (remove1 rts (hs_finishing s)) = length (hs_finishing s) - 1" "hs_finishing s \<noteq> []"
    using mem by (auto simp: length_remove1)
  ultimately show ?thesis using ok
    by (cases "hs_finishing s") (simp_all add: http_ok_def Unreserve take_out_def http_unreserve_def)
next
  case (CloseRuntime rt)
  then have "runtimes (http_act a s) = runtimes s"
    using en by (simp add: runtimes_def close_runtimes_def live_runtimes_def)
  with ok show ?thesis by (simp add: http_ok_def CloseRuntime close_runtimes_def)
next
  case (Find now sid)
  with ok show ?thesis by (auto simp: http_find_def split: option.splits intro: http_ok_put)
next
  case (Leave now sid)
  with ok show ?thesis by (auto simp: http_leave_def Let_def split: option.splits intro: http_ok_put http_ok_remove)
next
  case (Mark sid)
  with ok show ?thesis by (auto simp: http_mark_def split: option.splits intro: http_ok_put http_ok_remove)
next
  case Clear
  from http_ok_take_out [OF ok, of "hm_sessions (hs_manager s)" "snd (http_clear (hs_manager s))"]
  show ?thesis by (simp add: Clear http_clear_def)
qed

lemma reach_http_ok: "http.reach s \<Longrightarrow> http_ok s"
proof (rule http.reach_invariant [where J = http_ok])
  show "http_ok s" if "http_start s" for s
    using that by (simp add: http_start_def http_ok_def runtimes_def live_runtimes_def empty_manager_def)
qed (auto simp: http_step_def http_ok_act)

section \<open>Theorems\<close>

text \<open>
  C31: in every reachable state of the manager, with any interleaving of the critical sections of
  creations, requests, deletions, prunings and the shutdown, the sessions together with the creations
  that wait for their runtime never exceed the capacity, and the counter of the manager is the number
  of creations that wait or have not yet given their place up; no runtime is closed twice; and no
  runtime that serves a registered session has been closed or is about to be.
\<close>

theorem http_runtime_lifecycle:
  assumes "http.reach s"
  shows "length (hm_sessions (hs_manager s)) + hs_making s \<le> MAX_HTTP_SESSIONS \<and>
    hm_creating (hs_manager s) = hs_making s + length (hs_finishing s) \<and>
    distinct (hm_runtimes_closed (hs_manager s) @ hs_closing s) \<and>
    (\<forall>sid r. map_of (hm_sessions (hs_manager s)) sid = Some r \<longrightarrow>
       hr_runtime r \<notin> set (hm_runtimes_closed (hs_manager s) @ hs_closing s))"
proof -
  have ok: "http_ok s" by (rule reach_http_ok [OF assms])
  have one: "count (mset (live_runtimes (hs_manager s))) rt + count (mset (hm_runtimes_closed (hs_manager s) @ hs_closing s)) rt \<le> 1" for rt
  proof -
    have "count (runtimes s) rt \<le> 1" using ok by (simp add: http_ok_def)
    then show ?thesis by (simp add: runtimes_def)
  qed
  from one have "distinct (hm_runtimes_closed (hs_manager s) @ hs_closing s)" by (metis add_leD2 distinct_by_count)
  moreover have "hr_runtime r \<notin> set (hm_runtimes_closed (hs_manager s) @ hs_closing s)"
    if "map_of (hm_sessions (hs_manager s)) sid = Some r" for sid r
  proof
    assume "hr_runtime r \<in> set (hm_runtimes_closed (hs_manager s) @ hs_closing s)"
    moreover have "hr_runtime r \<in> set (live_runtimes (hs_manager s))"
      using map_of_SomeD [OF that] by (force simp: live_runtimes_def)
    ultimately have "0 < count (mset (hm_runtimes_closed (hs_manager s) @ hs_closing s)) (hr_runtime r)"
      "0 < count (mset (live_runtimes (hs_manager s))) (hr_runtime r)" by (simp_all only: count_greater_zero_iff set_mset_mset)
    with one [of "hr_runtime r"] show False by linarith
  qed
  ultimately show ?thesis using ok by (simp add: http_ok_def)
qed

text \<open>A creation, its session marked for deletion, and the creation's end.\<close>

theorem http_runtime_lifecycle_witness:
  "\<exists>s. http.reach s \<and> hm_creating (hs_manager s) = 1 \<and> hs_making s = 0 \<and>
     hm_sessions (hs_manager s) = [(''s'', \<lparr>hr_runtime = 7, hr_last_seen = 1, hr_active = 1, hr_closing = True\<rparr>)] \<and>
     7 \<notin> set (hm_runtimes_closed (hs_manager s) @ hs_closing s)"
proof -
  let ?s0 = "\<lparr>hs_manager = empty_manager, hs_making = 0, hs_finishing = [], hs_closing = []\<rparr>"
  let ?s1 = "http_act (Reserve (\<lambda>n. True)) ?s0"
  let ?s2 = "http_act (Install ''s'' 7 1) ?s1"
  let ?s3 = "http_act (Mark ''s'') ?s2"
  note ev = empty_manager_def http_reserve_def MAX_HTTP_SESSIONS_def http_install_def keys_def http_mark_def
    runtimes_def live_runtimes_def
  have "http.reach ?s0" by (rule http.reach_start) (simp add: http_start_def)
  moreover have "http_step ?s0 ?s1" unfolding http_step_def by (rule exI [of _ "Reserve (\<lambda>n. True)"]) simp
  moreover have "http_enabled (Install ''s'' 7 1) ?s1" by (simp add: ev)
  then have "http_step ?s1 ?s2" unfolding http_step_def by blast
  moreover have "http_step ?s2 ?s3" unfolding http_step_def by (rule exI [of _ "Mark ''s''"]) simp
  ultimately have reach: "http.reach ?s3" by (blast intro: http.reach_step)
  have s: "hm_sessions (hs_manager ?s3) = [(''s'', \<lparr>hr_runtime = 7, hr_last_seen = 1, hr_active = 1, hr_closing = True\<rparr>)]"
    "hm_creating (hs_manager ?s3) = 1" "hs_making ?s3 = 0"
    by (simp_all add: ev)
  have "map_of (hm_sessions (hs_manager ?s3)) ''s'' =
      Some \<lparr>hr_runtime = 7, hr_last_seen = 1, hr_active = 1, hr_closing = True\<rparr>" unfolding s(1) by simp
  with http_runtime_lifecycle [OF reach] have "7 \<notin> set (hm_runtimes_closed (hs_manager ?s3) @ hs_closing ?s3)"
    by (metis HTTPSessionRecord.select_convs(1))
  with reach s show ?thesis by blast
qed

text \<open>
  A session in use stays.  While a session has active requests, no section but the shutdown of the
  manager removes it or lowers its count except the one that releases one of its own requests: a
  later lookup, a reservation at full capacity, pruning after any time or deletion keeps the session
  with its runtime, and only marks it as closing in the last case.
\<close>

theorem http_busy_session_stays:
  assumes ok: "dict_ok (hm_sessions (hs_manager s))" and r: "map_of (hm_sessions (hs_manager s)) sid = Some r" "0 < hr_active r"
    and a: "a \<noteq> Clear" "\<And>now. a \<noteq> Leave now sid"
  shows "\<exists>r'. map_of (hm_sessions (hs_manager (http_act a s))) sid = Some r' \<and> hr_runtime r' = hr_runtime r \<and>
    hr_active r \<le> hr_active r' \<and> (hr_closing r' \<longrightarrow> hr_closing r \<or> a = Mark sid)"
proof (cases a)
  case (Expire ev now)
  have "map_of (filter (\<lambda>e. \<not> http_expired ev now (snd e)) (hm_sessions (hs_manager s))) sid = Some r"
    using map_of_filter_ok [OF ok, of "\<lambda>e. \<not> http_expired ev now (snd e)" sid] r
    by (simp add: http_expired_def http_idle_def)
  with Expire show ?thesis by (simp add: take_out_def http_expire_def)
next
  case (Reserve ev)
  let ?idle = "filter (\<lambda>e. http_idle ev (snd e)) (hm_sessions (hs_manager s))"
  have "fst (least_seen ?idle) \<noteq> sid" if "?idle \<noteq> []"
  proof
    assume k: "fst (least_seen ?idle) = sid"
    have v: "least_seen ?idle \<in> set (hm_sessions (hs_manager s))" "http_idle ev (snd (least_seen ?idle))"
      using least_seen_in [OF that] by auto
    then have "map_of (hm_sessions (hs_manager s)) sid = Some (snd (least_seen ?idle))"
      using ok k by (metis dict_ok_def map_of_is_SomeI prod.collapse)
    with v(2) r show False by (simp add: http_idle_def)
  qed
  with Reserve r show ?thesis by (auto simp: http_reserve_def take_out_def Let_def)
next
  case (Install k rt now)
  have "sid \<in> set (keys (hm_sessions (hs_manager s)))"
    using r(1) by (simp add: keys_def) (metis map_of_None_fst option.distinct(1))
  with Install r show ?thesis by (auto simp: http_install_def)
next
  case (Find now k)
  with r show ?thesis by (auto simp: http_find_def split: option.splits)
next
  case (Leave now k)
  with a(2) r show ?thesis by (auto simp: http_leave_def take_out_def Let_def split: option.splits)
next
  case (Mark k)
  with r show ?thesis by (cases "k = sid") (auto simp: http_mark_def take_out_def split: option.splits)
qed (use r a(1) in \<open>auto simp: take_out_def http_unreserve_def close_runtimes_def\<close>)

theorem http_busy_session_stays_witness:
  "\<exists>r'. map_of (hm_sessions (snd (http_expire (\<lambda>n. True) 99999
     \<lparr>hm_sessions = [(''s'', \<lparr>hr_runtime = 7, hr_last_seen = 1, hr_active = 2, hr_closing = False\<rparr>)],
      hm_creating = 0, hm_closed = False, hm_runtimes_closed = []\<rparr>))) ''s'' = Some r' \<and> hr_runtime r' = 7"
proof -
  let ?r = "\<lparr>hr_runtime = 7, hr_last_seen = 1, hr_active = 2, hr_closing = False\<rparr>"
  let ?m = "\<lparr>hm_sessions = [(''s'', ?r)], hm_creating = 0, hm_closed = False, hm_runtimes_closed = []\<rparr>"
  let ?s = "\<lparr>hs_manager = ?m, hs_making = 0, hs_finishing = [], hs_closing = []\<rparr>"
  have h: "dict_ok (hm_sessions (hs_manager ?s))" "map_of (hm_sessions (hs_manager ?s)) ''s'' = Some ?r" "0 < hr_active ?r"
    by (simp_all add: dict_ok_def)
  from http_busy_session_stays [OF h, of "Expire (\<lambda>n. True) 99999"] show ?thesis by (auto simp: take_out_def)
qed

text \<open>
  Deletion takes effect.  After \<^verbatim>\<open>delete\<close> of a session with some active requests no lookup
  finds it any more, and once each of these requests has been released, the session is gone and
  its runtime has been closed; without active requests this is so at once.
\<close>

theorem http_delete_drains:
  assumes "dict_ok (hm_sessions m)" "map_of (hm_sessions m) sid = Some r"
  shows "fst (http_get ev now sid (snd (http_delete sid m))) = None \<and>
    (let m' = ((http_release now sid) ^^ hr_active r) (snd (http_delete sid m)) in
     map_of (hm_sessions m') sid = None \<and> hr_runtime r \<in> set (hm_runtimes_closed m'))"
proof -
  have gone: "map_of (hm_sessions (((http_release now sid) ^^ Suc n) m)) sid = None \<and>
      hr_runtime r0 \<in> set (hm_runtimes_closed (((http_release now sid) ^^ Suc n) m))"
    if "map_of (hm_sessions m) sid = Some r0" "hr_active r0 = Suc n" "hr_closing r0" for n r0 m
    using that
  proof (induction n arbitrary: m r0)
    case 0
    then show ?case by (simp add: http_release_def http_leave_def Let_def close_runtimes_def)
  next
    case (Suc n)
    let ?r = "r0\<lparr>hr_active := hr_active r0 - 1, hr_last_seen := now\<rparr>"
    have "map_of (hm_sessions (http_release now sid m)) sid = Some ?r"
      using Suc.prems by (simp add: http_release_def http_leave_def Let_def)
    from Suc.IH [OF this] Suc.prems show ?case by (simp only: funpow_Suc_right comp_apply) simp
  qed
  have get: "fst (http_get ev now sid m') = None"
    if "dict_ok (hm_sessions m')" "\<forall>r. map_of (hm_sessions m') sid = Some r \<longrightarrow> hr_closing r" for m'
    using that map_of_filter_ok [OF that(1), of "\<lambda>e. \<not> http_expired ev now (snd e)" sid]
    by (auto simp: http_get_def http_find_def Let_def http_prune_def http_expire_def close_runtimes_def split: option.splits)
  show ?thesis
  proof (cases "hr_active r")
    case 0
    then show ?thesis
      using assms get [of "snd (http_delete sid m)"] by (simp add: http_delete_def http_mark_def close_runtimes_def)
  next
    case (Suc n)
    let ?m = "snd (http_delete sid m)"
    have d: "map_of (hm_sessions ?m) sid = Some (r\<lparr>hr_closing := True\<rparr>)" "dict_ok (hm_sessions ?m)"
      using assms Suc by (simp_all add: http_delete_def http_mark_def)
    show ?thesis using get [OF d(2)] gone [OF d(1), of n] d(1) Suc by (simp add: Let_def)
  qed
qed

theorem http_delete_drains_witness:
  "let m = \<lparr>hm_sessions = [(''s'', \<lparr>hr_runtime = 7, hr_last_seen = 1, hr_active = 2, hr_closing = False\<rparr>)],
      hm_creating = 0, hm_closed = False, hm_runtimes_closed = []\<rparr>;
      m' = http_release 5 ''s'' (http_release 5 ''s'' (snd (http_delete ''s'' m))) in
   map_of (hm_sessions m') ''s'' = None \<and> 7 \<in> set (hm_runtimes_closed m')"
proof -
  let ?r = "\<lparr>hr_runtime = 7, hr_last_seen = 1, hr_active = 2, hr_closing = False\<rparr>"
  let ?m = "\<lparr>hm_sessions = [(''s'', ?r)], hm_creating = 0, hm_closed = False, hm_runtimes_closed = []\<rparr>"
  have h: "dict_ok (hm_sessions ?m)" "map_of (hm_sessions ?m) ''s'' = Some ?r" by (simp_all add: dict_ok_def)
  from http_delete_drains [OF h, of "\<lambda>n. True" 5] show ?thesis by (simp add: Let_def numeral_2_eq_2)
qed

end
