(* ===== verification/PyStr.thy ===== *)
theory PyStr
  imports Prelude "HOL-Library.Code_Target_Nat"
begin

text \<open>
  Python's \<^verbatim>\<open>str\<close> methods on short strings: header values, URLs, identifiers, command words.  A
  HOL \<open>string\<close> is a list of 8-bit characters, so these definitions are exact for strings of
  Latin-1 code points, which is what an HTTP header delivers; texts of arbitrary code points are
  the subject of \<open>PyText\<close>.
\<close>

named_theorems str_simps \<open>characterisations of the string methods\<close>

section \<open>Characters\<close>

definition ch_code :: "char \<Rightarrow> nat" where
  "ch_code c = of_char c"

definition ch_lower :: "char \<Rightarrow> char" where
  "ch_lower c =
     (let n = ch_code c in
      if (65 \<le> n \<and> n \<le> 90) \<or> (192 \<le> n \<and> n \<le> 222 \<and> n \<noteq> 215) then char_of (n + 32) else c)"

definition ch_space :: "char \<Rightarrow> bool" where
  "ch_space c \<longleftrightarrow>
     (let n = ch_code c in (9 \<le> n \<and> n \<le> 13) \<or> (28 \<le> n \<and> n \<le> 32) \<or> n = 133 \<or> n = 160)"

definition ch_digit :: "char \<Rightarrow> bool" where
  "ch_digit c \<longleftrightarrow> 48 \<le> ch_code c \<and> ch_code c \<le> 57"

definition ch_upper_ascii :: "char \<Rightarrow> bool" where
  "ch_upper_ascii c \<longleftrightarrow> 65 \<le> ch_code c \<and> ch_code c \<le> 90"

definition ch_alpha_ascii :: "char \<Rightarrow> bool" where
  "ch_alpha_ascii c \<longleftrightarrow> ch_upper_ascii c \<or> (97 \<le> ch_code c \<and> ch_code c \<le> 122)"

definition ch_alnum_ascii :: "char \<Rightarrow> bool" where
  "ch_alnum_ascii c \<longleftrightarrow> ch_alpha_ascii c \<or> ch_digit c"

definition isascii :: "string \<Rightarrow> bool" where
  "isascii s \<longleftrightarrow> list_all (\<lambda>c. ch_code c < 128) s"

section \<open>Strings\<close>

definition lower_str :: "string \<Rightarrow> string" where
  "lower_str s = map ch_lower s"

definition strip_str :: "string \<Rightarrow> string" where
  "strip_str = strip_by ch_space"

definition lstrip_by :: "('a \<Rightarrow> bool) \<Rightarrow> 'a list \<Rightarrow> 'a list" where
  "lstrip_by P s = dropWhile P s"

definition rstrip_by :: "('a \<Rightarrow> bool) \<Rightarrow> 'a list \<Rightarrow> 'a list" where
  "rstrip_by P s = rev (dropWhile P (rev s))"

text \<open>\<^verbatim>\<open>s.rstrip("/")\<close>.\<close>

definition rstrip_slash :: "string \<Rightarrow> string" where
  "rstrip_slash s = rstrip_by (\<lambda>c. c = CHR ''/'') s"

text \<open>
  \<^verbatim>\<open>s.partition(c)\<close> and \<^verbatim>\<open>s.rpartition(c)\<close> for one character: the part before, whether the
  separator was found, and the part after.  Without a separator the whole string is the first
  part for \<^verbatim>\<open>partition\<close> and the last for \<^verbatim>\<open>rpartition\<close>.
\<close>

definition partition_ch :: "char \<Rightarrow> string \<Rightarrow> string \<times> bool \<times> string" where
  "partition_ch c s =
     (let a = takeWhile (\<lambda>x. x \<noteq> c) s in
      if c \<in> set s then (a, True, drop (Suc (length a)) s) else (s, False, []))"

definition rpartition_ch :: "char \<Rightarrow> string \<Rightarrow> string \<times> bool \<times> string" where
  "rpartition_ch c s =
     (if c \<in> set s then
        (let b = rev (takeWhile (\<lambda>x. x \<noteq> c) (rev s)) in
         (take (length s - Suc (length b)) s, True, b))
      else ([], False, s))"

text \<open>\<^verbatim>\<open>s.split(c, 1)[0]\<close> is the first part of \<^verbatim>\<open>s.partition(c)\<close>.\<close>

definition first_part :: "char \<Rightarrow> string \<Rightarrow> string" where
  "first_part c s = fst (partition_ch c s)"

text \<open>\<^verbatim>\<open>int(s)\<close> for a string of ASCII digits.\<close>

definition digits_val :: "string \<Rightarrow> nat" where
  "digits_val s = foldl (\<lambda>n c. n * 10 + (ch_code c - 48)) 0 s"

text \<open>
  \<^verbatim>\<open>int(s)\<close> of a string: surrounding white space, an optional sign, digits with single
  underscores between them; \<open>None\<close> for the \<^verbatim>\<open>ValueError\<close>.
\<close>

fun int_digits :: "bool \<Rightarrow> nat \<Rightarrow> string \<Rightarrow> nat option" where
  "int_digits after_digit n [] = (if after_digit then Some n else None)"
| "int_digits after_digit n (c # cs) =
     (if ch_digit c then int_digits True (n * 10 + (ch_code c - 48)) cs
      else if c = CHR ''_'' \<and> after_digit then int_digits False n cs else None)"

definition py_int :: "string \<Rightarrow> int option" where
  "py_int s =
     (case strip_str s of
        [] \<Rightarrow> None
      | c # cs \<Rightarrow>
          if c = CHR ''-'' then map_option (\<lambda>n. - int n) (int_digits False 0 cs)
          else if c = CHR ''+'' then map_option int (int_digits False 0 cs)
          else map_option int (int_digits False 0 (c # cs)))"

definition truthy :: "string \<Rightarrow> bool" where
  "truthy s \<longleftrightarrow> lower_str (strip_str s) \<in> {''1'', ''true'', ''yes'', ''on''}"

section \<open>Lemmas\<close>

lemma ch_code_less: "ch_code c < 256"
  unfolding ch_code_def using of_char_mod_256 [of c, where 'a = nat] by (metis mod_less_divisor zero_less_numeral)

lemma ch_code_char_of [simp]: "n < 256 \<Longrightarrow> ch_code (char_of n) = n"
  by (simp add: ch_code_def)

lemma ch_code_inject: "ch_code c = ch_code d \<longleftrightarrow> c = d"
  by (simp add: ch_code_def)

lemma ch_lower_idem [simp]: "ch_lower (ch_lower c) = ch_lower c"
  using ch_code_less [of c] by (auto simp: ch_lower_def Let_def)

lemma lower_str_idem [simp]: "lower_str (lower_str s) = lower_str s"
  by (simp add: lower_str_def)

lemma lower_str_append [simp]: "lower_str (s @ t) = lower_str s @ lower_str t"
  by (simp add: lower_str_def)

lemma lower_str_Cons [simp]: "lower_str (c # s) = ch_lower c # lower_str s"
  by (simp add: lower_str_def)

lemma lower_str_Nil [simp]: "lower_str [] = []"
  by (simp add: lower_str_def)

lemma length_lower_str [simp]: "length (lower_str s) = length s"
  by (simp add: lower_str_def)

lemma set_strip_by: "set (strip_by P s) \<subseteq> set s"
  by (auto simp: strip_by_def dest!: set_dropWhileD)

lemma set_rstrip_by: "set (rstrip_by P s) \<subseteq> set s"
  by (auto simp: rstrip_by_def dest!: set_dropWhileD)

lemma set_rstrip_slash: "set (rstrip_slash s) \<subseteq> set s"
  by (simp add: rstrip_slash_def set_rstrip_by)

lemma rstrip_by_last: "rstrip_by P s = [] \<or> \<not> P (last (rstrip_by P s))"
proof (cases "dropWhile P (rev s)")
  case (Cons x xs)
  then have "\<not> P x" by (metis hd_dropWhile list.distinct(1) list.sel(1))
  with Cons show ?thesis by (simp add: rstrip_by_def)
qed (simp add: rstrip_by_def)

lemma rstrip_by_idem [simp]: "rstrip_by P (rstrip_by P s) = rstrip_by P s"
  by (simp add: rstrip_by_def dropWhile_idem)

lemma rstrip_slash_idem [simp]: "rstrip_slash (rstrip_slash s) = rstrip_slash s"
  by (simp add: rstrip_slash_def)

lemma rstrip_by_append: "\<exists>t. s = rstrip_by P s @ t \<and> list_all P t"
proof -
  have "rev s = takeWhile P (rev s) @ dropWhile P (rev s)" by simp
  then have "s = rev (dropWhile P (rev s)) @ rev (takeWhile P (rev s))"
    by (metis rev_append rev_rev_ident)
  then show ?thesis
    unfolding rstrip_by_def
    by (rule_tac x = "rev (takeWhile P (rev s))" in exI) (auto simp: list_all_iff dest: set_takeWhileD)
qed

text \<open>The parts put together give the string back, and the first part has no separator.\<close>

lemma partition_ch_found:
  assumes "partition_ch c s = (a, True, b)"
  shows "s = a @ c # b \<and> c \<notin> set a"
proof -
  have c: "c \<in> set s" and a: "a = takeWhile (\<lambda>x. x \<noteq> c) s" and b: "b = drop (Suc (length a)) s"
    using assms by (auto simp: partition_ch_def Let_def split: if_splits)
  then obtain xs ys where s: "s = xs @ c # ys" "c \<notin> set xs" by (meson split_list_first)
  then have "a = xs" using a by (auto simp: takeWhile_append)
  with s b show ?thesis by simp
qed

lemma partition_ch_not_found: "partition_ch c s = (a, False, b) \<Longrightarrow> a = s \<and> b = [] \<and> c \<notin> set s"
  by (auto simp: partition_ch_def Let_def split: if_splits)

lemma rpartition_ch_found:
  assumes "rpartition_ch c s = (a, True, b)"
  shows "s = a @ c # b \<and> c \<notin> set b"
proof -
  have c: "c \<in> set s" and b: "b = rev (takeWhile (\<lambda>x. x \<noteq> c) (rev s))"
    and a: "a = take (length s - Suc (length b)) s"
    using assms by (auto simp: rpartition_ch_def Let_def split: if_splits)
  from c obtain xs ys where s: "s = xs @ c # ys" "c \<notin> set ys" by (meson split_list_last)
  then have "b = ys" using b by (auto simp: takeWhile_append)
  with s a show ?thesis by simp
qed

lemma rpartition_ch_not_found: "rpartition_ch c s = (a, False, b) \<Longrightarrow> a = [] \<and> b = s \<and> c \<notin> set s"
  by (auto simp: rpartition_ch_def Let_def split: if_splits)

lemma first_part_no_sep [simp]: "c \<notin> set (first_part c s)"
  by (cases "partition_ch c s") (metis (full_types) first_part_def fst_conv partition_ch_found partition_ch_not_found prod_cases3)

end
