(* ===== verification/Urls.thy ===== *)
theory Urls
  imports PyStr
begin

text \<open>
  URLs and the parts of a request that the server derives URLs from: \<^verbatim>\<open>urllib.parse.urlsplit\<close> and
  the attributes of its result as the standard library of Python 3.11 defines them, the redirect
  URI check of \<open>coding_tools_mcp/oauth.py\<close>, and the host, proxy-header and origin functions of
  \<open>coding_tools_mcp/server.py\<close>.  Whether the text between brackets is an IPv6 literal
  (\<^verbatim>\<open>ipaddress.ip_address\<close>) is the parameter \<open>br\<close>.  The normalisation test of
  \<^verbatim>\<open>urlsplit\<close> never raises on Latin-1 characters and is left out.
\<close>

section \<open>urlsplit\<close>

record SplitResult =
  sr_scheme :: string
  sr_netloc :: string
  sr_path :: string
  sr_query :: string
  sr_fragment :: string

definition unsafe_url_char :: "char \<Rightarrow> bool" where
  "unsafe_url_char c \<longleftrightarrow> ch_code c \<in> {9, 10, 13}"

definition url_clean :: "string \<Rightarrow> string" where
  "url_clean u = filter (\<lambda>c. \<not> unsafe_url_char c) (lstrip_by (\<lambda>c. ch_code c \<le> 32) u)"

definition scheme_char :: "char \<Rightarrow> bool" where
  "scheme_char c \<longleftrightarrow> ch_alnum_ascii c \<or> c \<in> {CHR ''+'', CHR ''-'', CHR ''.''}"

definition url_scheme :: "string \<Rightarrow> string \<times> string" where
  "url_scheme u =
     (case partition_ch (CHR '':'') u of (a, found, b) \<Rightarrow>
        if found \<and> a \<noteq> [] \<and> ch_alpha_ascii (hd a) \<and> list_all scheme_char a then (lower_str a, b)
        else ([], u))"

definition netloc_end :: "char \<Rightarrow> bool" where
  "netloc_end c \<longleftrightarrow> c \<in> {CHR ''/'', CHR ''?'', CHR ''#''}"

definition bracketed_host :: "string \<Rightarrow> string" where
  "bracketed_host n = first_part (CHR '']'') (snd (snd (partition_ch (CHR ''['') n)))"

definition urlsplit :: "(string \<Rightarrow> bool) \<Rightarrow> string \<Rightarrow> SplitResult result" where
  "urlsplit br url =
     (case url_scheme (url_clean url) of (scheme, u) \<Rightarrow>
        let has = startswith u ''//'';
            netloc = (if has then takeWhile (\<lambda>c. \<not> netloc_end c) (drop 2 u) else []);
            rest = (if has then dropWhile (\<lambda>c. \<not> netloc_end c) (drop 2 u) else u);
            op = CHR ''['' \<in> set netloc; cl = CHR '']'' \<in> set netloc in
        if op \<noteq> cl then Inl (ValueError ''Invalid IPv6 URL'')
        else if op \<and> \<not> br (bracketed_host netloc) then Inl (ValueError ''Invalid bracketed host'')
        else (case partition_ch (CHR ''#'') rest of (p1, _, fragment) \<Rightarrow>
              case partition_ch (CHR ''?'') p1 of (p2, _, query) \<Rightarrow>
                Inr \<lparr>sr_scheme = scheme, sr_netloc = netloc, sr_path = p2, sr_query = query,
                     sr_fragment = fragment\<rparr>))"

definition userinfo :: "string \<Rightarrow> string option \<times> string option" where
  "userinfo netloc =
     (case rpartition_ch (CHR ''@'') netloc of (info, have, _) \<Rightarrow>
        if have then (case partition_ch (CHR '':'') info of (user, have_pw, pw) \<Rightarrow>
                        (Some user, if have_pw then Some pw else None))
        else (None, None))"

definition hostinfo :: "string \<Rightarrow> string \<times> string option" where
  "hostinfo netloc =
     (case rpartition_ch (CHR ''@'') netloc of (_, _, hi) \<Rightarrow>
      case partition_ch (CHR ''['') hi of (_, open_br, bracketed) \<Rightarrow>
        let (host, port) =
          (if open_br then
             (case partition_ch (CHR '']'') bracketed of (h, _, p) \<Rightarrow>
                (h, snd (snd (partition_ch (CHR '':'') p))))
           else (case partition_ch (CHR '':'') hi of (h, _, p) \<Rightarrow> (h, p))) in
        (host, if port = [] then None else Some port))"

definition hostname :: "string \<Rightarrow> string option" where
  "hostname netloc =
     (let h = fst (hostinfo netloc) in
      if h = [] then None
      else case partition_ch (CHR ''%'') h of (a, have, zone) \<Rightarrow>
        Some (lower_str a @ (if have then ''%'' else []) @ zone))"

definition url_port :: "string \<Rightarrow> nat option result" where
  "url_port netloc =
     (case snd (hostinfo netloc) of
        None \<Rightarrow> Inr None
      | Some p \<Rightarrow>
          if \<not> list_all ch_digit p then Inl (ValueError ''Port could not be cast to integer value'')
          else if 65535 < digits_val p then Inl (ValueError ''Port out of range 0-65535'')
          else Inr (Some (digits_val p)))"

section \<open>Redirect URIs (oauth.py)\<close>

definition MAX_REDIRECT_URIS :: nat where
  "MAX_REDIRECT_URIS = 10"

definition loopback_hosts :: "string list" where
  "loopback_hosts = [''localhost'', ''127.0.0.1'', ''::1'']"

definition check_redirect :: "(string \<Rightarrow> bool) \<Rightarrow> json \<Rightarrow> string result" where
  "check_redirect br item =
     (case item of
        JStr s \<Rightarrow>
          if 2048 < length s then
            Inl (ValueError ''redirect_uri must be a string of at most 2048 characters'')
          else rbind (urlsplit br s) (\<lambda>p.
            let n = sr_netloc p in
            if sr_fragment p \<noteq> [] \<or> sr_scheme p = [] \<or> n = [] \<or> hostname n = None then
              Inl (ValueError ''redirect_uri must be an absolute URI without a fragment'')
            else if fst (userinfo n) \<noteq> None \<or> snd (userinfo n) \<noteq> None then
              Inl (ValueError ''redirect_uri must not contain user information'')
            else if sr_scheme p = ''http'' \<and> lower_str (the (hostname n)) \<notin> set loopback_hosts then
              Inl (ValueError ''HTTP redirect_uri is allowed only for loopback hosts'')
            else if sr_scheme p \<notin> {''http'', ''https''} then
              Inl (ValueError ''redirect_uri must use HTTPS or loopback HTTP'')
            else Inr s)
      | _ \<Rightarrow> Inl (ValueError ''redirect_uri must be a string of at most 2048 characters''))"

definition validate_redirect_uris :: "(string \<Rightarrow> bool) \<Rightarrow> json \<Rightarrow> string list result" where
  "validate_redirect_uris br v =
     (case v of
        JList items \<Rightarrow>
          if items = [] \<or> MAX_REDIRECT_URIS < length items then
            Inl (ValueError ''redirect_uris must contain between 1 and 10 entries'')
          else rbind (rmap (check_redirect br) items) (\<lambda>redirects.
            if \<not> distinct redirects then Inl (ValueError ''redirect_uris must be unique'')
            else Inr redirects)
      | _ \<Rightarrow> Inl (ValueError ''redirect_uris must contain between 1 and 10 entries''))"

section \<open>Hosts, proxy headers and origins (server.py)\<close>

text \<open>
  A request: the path as sent, the header fields by lower-case name (first occurrence), the bytes of
  the body, and the environment the handlers read: whether proxy headers are trusted, the
  configured origins and the address the server is bound to.
\<close>

record http_req =
  rq_path :: string
  rq_headers :: "string \<Rightarrow> string option"
  rq_trust_proxy :: bool
  rq_allowed_origins :: string
  rq_bind_host :: string
  rq_bind_port :: nat

definition header :: "http_req \<Rightarrow> string \<Rightarrow> string" where
  "header rq n = (case rq_headers rq n of None \<Rightarrow> [] | Some v \<Rightarrow> v)"

definition http_base_for_bind_host :: "string \<Rightarrow> nat \<Rightarrow> string" where
  "http_base_for_bind_host host port =
     (let h = (if CHR '':'' \<in> set host \<and> \<not> startswith host ''['' then ''['' @ host @ '']'' else host) in
      ''http://'' @ h @ '':'' @ nat_str port)"

definition first_header_value :: "string \<Rightarrow> string" where
  "first_header_value v = strip_str (first_part (CHR '','') v)"

definition first_form_value :: "(string \<times> string list) list \<Rightarrow> string \<Rightarrow> string" where
  "first_form_value params key =
     (case map_of params key of Some (v # _) \<Rightarrow> v | _ \<Rightarrow> [])"

fun forwarded_parts :: "string \<Rightarrow> string list \<Rightarrow> string" where
  "forwarded_parts name [] = []"
| "forwarded_parts name (part # parts) =
     (case partition_ch (CHR ''='') (strip_str part) of (key, sep, raw) \<Rightarrow>
        if sep \<and> lower_str key = name then strip_by (\<lambda>c. c = CHR 0x22) (strip_str raw)
        else forwarded_parts name parts)"

definition forwarded_header_param :: "string \<Rightarrow> string \<Rightarrow> string" where
  "forwarded_header_param v name =
     forwarded_parts name (split_on (CHR '';'') (first_header_value v))"

definition bad_host_char :: "char \<Rightarrow> bool" where
  "bad_host_char c \<longleftrightarrow> ch_space c \<or> c \<in> set ''/@?#'' \<or> c = CHR 0x5C"

definition safe_external_host :: "(string \<Rightarrow> bool) \<Rightarrow> string \<Rightarrow> string" where
  "safe_external_host br host0 =
     (let host = strip_str host0 in
      if host = [] \<or> list_ex bad_host_char host then []
      else (case urlsplit br (''//'' @ host) of
              Inl _ \<Rightarrow> []
            | Inr p \<Rightarrow>
                (case url_port (sr_netloc p) of
                   Inl _ \<Rightarrow> []
                 | Inr _ \<Rightarrow>
                     if hostname (sr_netloc p) = None \<or> fst (userinfo (sr_netloc p)) \<noteq> None
                        \<or> snd (userinfo (sr_netloc p)) \<noteq> None then [] else host)))"

definition is_loopback_bind_host :: "string \<Rightarrow> bool" where
  "is_loopback_bind_host host \<longleftrightarrow> host \<in> {''localhost'', ''127.0.0.1'', ''::1'', []}"

text \<open>\<^verbatim>\<open>host.rsplit(":", 1)[0].strip("[]")\<close>.\<close>

definition host_without_port :: "string \<Rightarrow> string" where
  "host_without_port host =
     (case rpartition_ch (CHR '':'') host of (a, found, b) \<Rightarrow>
        strip_by (\<lambda>c. c \<in> {CHR ''['', CHR '']''}) (if found then a else b))"

definition oauth_base_url :: "(string \<Rightarrow> bool) \<Rightarrow> string option \<Rightarrow> http_req \<Rightarrow> string" where
  "oauth_base_url br server_url rq =
     (if (case server_url of Some u \<Rightarrow> u \<noteq> [] | None \<Rightarrow> False) then rstrip_slash (the server_url)
      else
        let trust = rq_trust_proxy rq;
            proto0 = (if trust then first_header_value (header rq ''x-forwarded-proto'') else []);
            proto1 = (if trust \<and> proto0 = [] then forwarded_header_param (header rq ''forwarded'') ''proto''
                      else proto0);
            host0 = (if trust then safe_external_host br (first_header_value (header rq ''x-forwarded-host''))
                     else []);
            host1 = (if trust \<and> host0 = [] then
                       safe_external_host br (forwarded_header_param (header rq ''forwarded'') ''host'')
                     else host0);
            host2 = (if host1 = [] then safe_external_host br (header rq ''host'') else host1);
            host = (if host2 = [] then
                      removeprefix (http_base_for_bind_host (rq_bind_host rq) (rq_bind_port rq)) ''http://''
                    else host2);
            proto = (if proto1 \<in> {''http'', ''https''} then proto1
                     else if is_loopback_bind_host (host_without_port host) then ''http'' else ''https'') in
        rstrip_slash (proto @ ''://'' @ host))"

definition configured_allowed_origins :: "string \<Rightarrow> string list" where
  "configured_allowed_origins raw =
     map (\<lambda>i. rstrip_slash (strip_str i)) (filter (\<lambda>i. strip_str i \<noteq> []) (split_on (CHR '','') raw))"

text \<open>\<^verbatim>\<open>urllib.parse.urlparse\<close> splits the parameters of the last path segment off.\<close>

definition split_params :: "string \<Rightarrow> string \<times> string" where
  "split_params path =
     (case rpartition_ch (CHR ''/'') path of (a, found, b) \<Rightarrow>
      case partition_ch (CHR '';'') b of (p, semi, params) \<Rightarrow>
        (if semi then ((if found then a @ ''/'' else []) @ p, params) else (path, [])))"

definition is_allowed_origin :: "(string \<Rightarrow> bool) \<Rightarrow> string \<Rightarrow> string \<Rightarrow> bool" where
  "is_allowed_origin br allowed origin =
     (case urlsplit br origin of
        Inl _ \<Rightarrow> False
      | Inr p \<Rightarrow>
          let n = sr_netloc p; (path, params) = split_params (sr_path p) in
          if sr_scheme p \<notin> {''http'', ''https''} \<or> hostname n = None
             \<or> fst (userinfo n) \<noteq> None \<or> snd (userinfo n) \<noteq> None
             \<or> path \<notin> {[], ''/''} \<or> params \<noteq> [] \<or> sr_query p \<noteq> [] \<or> sr_fragment p \<noteq> [] then False
          else (case url_port n of
                  Inl _ \<Rightarrow> False
                | Inr _ \<Rightarrow> the (hostname n) \<in> set loopback_hosts
                           \<or> rstrip_slash origin \<in> set (configured_allowed_origins allowed)))"

section \<open>The shape of a URL that splits\<close>

text \<open>A URL that \<^verbatim>\<open>urlsplit\<close> reads as it is written: nothing to strip, no tab or line break.\<close>

definition plain_url :: "string \<Rightarrow> bool" where
  "plain_url u \<longleftrightarrow> list_all (\<lambda>c. \<not> unsafe_url_char c) u \<and> (u = [] \<or> 32 < ch_code (hd u))"

text \<open>The host part of an authority, and what makes it a loopback authority.\<close>

definition loopback_authority :: "string \<Rightarrow> bool" where
  "loopback_authority n \<longleftrightarrow>
     (\<exists>h port. lower_str h \<in> set loopback_hosts \<and> CHR '':'' \<notin> set h \<and> (n = h \<or> n = h @ CHR '':'' # port)) \<or>
     (\<exists>pre h post. lower_str h \<in> set loopback_hosts \<and>
        (n = pre @ CHR ''['' # h \<or> n = pre @ CHR ''['' # h @ CHR '']'' # post))"

lemma url_clean_plain: "plain_url u \<Longrightarrow> url_clean u = u"
  by (cases u) (auto simp: plain_url_def url_clean_def lstrip_by_def list_all_iff intro: filter_True)

lemma url_scheme_found:
  assumes "url_scheme u = (sc, rest)" "sc \<noteq> []"
  shows "\<exists>a. u = a @ CHR '':'' # rest \<and> lower_str a = sc \<and> CHR '':'' \<notin> set a"
proof -
  obtain a f b where p: "partition_ch (CHR '':'') u = (a, f, b)" by (cases "partition_ch (CHR '':'') u")
  with assms have "f" "lower_str a = sc" "b = rest" by (auto simp: url_scheme_def split: if_splits)
  with partition_ch_found [of "CHR '':''" u a b] p show ?thesis by auto
qed

lemma startswith_split: "startswith u p \<Longrightarrow> u = p @ drop (length p) u"
  by (metis append_take_drop_id startswith_def)

lemma partition_fst_no_sep: "c \<notin> set (fst (partition_ch c s))"
  using first_part_no_sep [of c s] by (simp add: first_part_def)

lemma partition_after:
  assumes "partition_ch c s = (a, f, b)" "b = []"
  shows "\<forall>x y. s = x @ c # y \<longrightarrow> y = []"
proof (cases f)
  case True
  then have s: "s = a @ [c]" and a: "c \<notin> set a" using partition_ch_found [of c s a b] assms by auto
  show ?thesis
  proof (intro allI impI)
    fix x y
    assume "s = x @ c # y"
    with s a show "y = []"
      by (cases y rule: rev_cases) (auto simp flip: append_assoc append_Cons)
  qed
next
  case False
  then show ?thesis using partition_ch_not_found [of c s a b] assms(1) by auto
qed

lemma urlsplit_shape:
  assumes "urlsplit br u = Inr p" "plain_url u" "sr_scheme p \<noteq> []" "sr_netloc p \<noteq> []"
  shows "\<exists>sc rest. u = sc @ ''://'' @ sr_netloc p @ rest \<and> lower_str sc = sr_scheme p \<and>
    list_all (\<lambda>c. \<not> netloc_end c) (sr_netloc p) \<and>
    (rest = [] \<or> netloc_end (hd rest)) \<and>
    (sr_fragment p = [] \<longrightarrow> (\<forall>x y. rest = x @ CHR ''#'' # y \<longrightarrow> y = []))"
proof -
  obtain sc v where us: "url_scheme u = (sc, v)" by (cases "url_scheme u")
  let ?n = "takeWhile (\<lambda>c. \<not> netloc_end c) (drop 2 v)" and ?r = "dropWhile (\<lambda>c. \<not> netloc_end c) (drop 2 v)"
  obtain p1 f1 fr where h: "partition_ch (CHR ''#'') ?r = (p1, f1, fr)" by (cases "partition_ch (CHR ''#'') ?r")
  have has: "startswith v ''//''" and n: "sr_netloc p = ?n" and s: "sr_scheme p = sc" and fr: "sr_fragment p = fr"
    using assms(1,4) us h url_clean_plain [OF assms(2)]
    by (auto simp: urlsplit_def Let_def split: if_splits prod.splits)
  obtain a where a: "u = a @ CHR '':'' # v" "lower_str a = sc"
    using url_scheme_found [OF us] assms(3) s by auto
  have "v = ''//'' @ drop 2 v" using startswith_split [OF has] by (simp add: numeral_2_eq_2)
  then have "u = a @ ''://'' @ ?n @ ?r" using a by (simp add: takeWhile_dropWhile_id)
  moreover have "list_all (\<lambda>c. \<not> netloc_end c) ?n" by (auto simp: list_all_iff dest: set_takeWhileD)
  moreover have "?r = [] \<or> netloc_end (hd ?r)" using hd_dropWhile [of "\<lambda>c. \<not> netloc_end c" "drop 2 v"] by auto
  moreover have "fr = [] \<longrightarrow> (\<forall>x y. ?r = x @ CHR ''#'' # y \<longrightarrow> y = [])" using partition_after [OF h] by blast
  ultimately show ?thesis unfolding n s fr using a(2) by blast
qed

lemma userinfo_none: "fst (userinfo n) = None \<Longrightarrow> CHR ''@'' \<notin> set n"
  by (auto simp: userinfo_def rpartition_ch_def Let_def split: prod.splits if_splits)

lemma hostinfo_plain:
  assumes "CHR ''@'' \<notin> set n" "fst (hostinfo n) = h"
  shows "(CHR ''['' \<notin> set n \<and> CHR '':'' \<notin> set h \<and> (n = h \<or> (\<exists>port. n = h @ CHR '':'' # port))) \<or>
    (\<exists>pre b. n = pre @ CHR ''['' # b \<and> h = first_part (CHR '']'') b)"
proof -
  obtain x f b where p: "partition_ch (CHR ''['') n = (x, f, b)" by (cases "partition_ch (CHR ''['') n")
  have r: "rpartition_ch (CHR ''@'') n = ([], False, n)" using assms(1) by (simp add: rpartition_ch_def)
  show ?thesis
  proof (cases f)
    case True
    with partition_ch_found [of "CHR ''[''" n x b] p have "n = x @ CHR ''['' # b" by simp
    moreover have "h = first_part (CHR '']'') b"
      using assms(2) r p True by (simp add: hostinfo_def first_part_def Let_def split: prod.splits)
    ultimately show ?thesis by blast
  next
    case False
    then have nb: "CHR ''['' \<notin> set n" using partition_ch_not_found [of "CHR ''[''" n x b] p by simp
    obtain y g c where q: "partition_ch (CHR '':'') n = (y, g, c)" by (cases "partition_ch (CHR '':'') n")
    have h: "h = y" using assms(2) r p False q by (simp add: hostinfo_def Let_def split: prod.splits)
    have "CHR '':'' \<notin> set y" using partition_fst_no_sep [of "CHR '':''" n] q by simp
    moreover have "n = y \<or> (\<exists>port. n = y @ CHR '':'' # port)"
      using q partition_ch_found [of "CHR '':''" n y c] partition_ch_not_found [of "CHR '':''" n y c]
      by (cases g) auto
    ultimately show ?thesis using nb h by blast
  qed
qed

lemma hostname_loopback:
  assumes "CHR ''@'' \<notin> set n" "hostname n = Some x" "lower_str x \<in> set loopback_hosts"
  shows "loopback_authority n"
proof -
  obtain h where h: "fst (hostinfo n) = h" "h \<noteq> []" using assms(2) by (auto simp: hostname_def Let_def split: if_splits)
  obtain a f z where p: "partition_ch (CHR ''%'') h = (a, f, z)" by (cases "partition_ch (CHR ''%'') h")
  have x: "x = lower_str a @ (if f then ''%'' else []) @ z"
    using assms(2) h p by (simp add: hostname_def Let_def)
  have "\<not> f"
  proof
    assume f
    then have "CHR ''%'' \<in> set (lower_str x)" by (simp add: x ch_lower_def ch_code_def)
    with assms(3) show False by (auto simp: loopback_hosts_def)
  qed
  then have xh: "lower_str x = lower_str h" using partition_ch_not_found [of "CHR ''%''" h a z] p x by simp
  from hostinfo_plain [OF assms(1) h(1)] show ?thesis
  proof (elim disjE)
    assume "CHR ''['' \<notin> set n \<and> CHR '':'' \<notin> set h \<and> (n = h \<or> (\<exists>port. n = h @ CHR '':'' # port))"
    with assms(3) xh show ?thesis unfolding loopback_authority_def by metis
  next
    assume "\<exists>pre b. n = pre @ CHR ''['' # b \<and> h = first_part (CHR '']'') b"
    then obtain pre b where n: "n = pre @ CHR ''['' # b" and hb: "h = first_part (CHR '']'') b" by blast
    obtain y g c where q: "partition_ch (CHR '']'') b = (y, g, c)" by (cases "partition_ch (CHR '']'') b")
    show ?thesis
    proof (cases g)
      case True
      with partition_ch_found [of "CHR '']''" b y c] q have "b = y @ CHR '']'' # c" by simp
      moreover have "h = y" using hb q by (simp add: first_part_def)
      ultimately show ?thesis using n assms(3) xh unfolding loopback_authority_def by metis
    next
      case False
      then have "h = b" using partition_ch_not_found [of "CHR '']''" b y c] q hb by (auto simp: first_part_def)
      with n assms(3) xh show ?thesis unfolding loopback_authority_def by metis
    qed
  qed
qed

text \<open>
  What the check promises of a redirect URI in plain writing: \<^verbatim>\<open>scheme://authority...\<close>, no user
  information, nothing after a number sign, https or http to a loopback host.
\<close>

definition url_parts :: "string \<Rightarrow> string \<Rightarrow> string \<Rightarrow> string \<Rightarrow> bool" where
  "url_parts u sc auth rest \<longleftrightarrow>
     u = sc @ ''://'' @ auth @ rest \<and> auth \<noteq> [] \<and> CHR ''@'' \<notin> set auth \<and>
     list_all (\<lambda>c. \<not> netloc_end c) auth \<and> (rest = [] \<or> netloc_end (hd rest))"

definition no_fragment :: "string \<Rightarrow> bool" where
  "no_fragment rest \<longleftrightarrow> (\<forall>x y. rest = x @ CHR ''#'' # y \<longrightarrow> y = [])"

lemma urlsplit_parts:
  assumes "urlsplit br u = Inr p" "plain_url u" "sr_scheme p \<noteq> []" "sr_netloc p \<noteq> []"
    and "fst (userinfo (sr_netloc p)) = None"
  shows "\<exists>sc rest. url_parts u sc (sr_netloc p) rest \<and> lower_str sc = sr_scheme p \<and>
    (sr_fragment p = [] \<longrightarrow> no_fragment rest)"
proof -
  obtain sc rest where "u = sc @ ''://'' @ sr_netloc p @ rest" "lower_str sc = sr_scheme p"
    "list_all (\<lambda>c. \<not> netloc_end c) (sr_netloc p)" "rest = [] \<or> netloc_end (hd rest)"
    "sr_fragment p = [] \<longrightarrow> no_fragment rest"
    using urlsplit_shape [OF assms(1-4)] unfolding no_fragment_def by blast
  then show ?thesis
    using assms(4) userinfo_none [OF assms(5)] unfolding url_parts_def by blast
qed

lemma check_redirect_shape:
  assumes "check_redirect br j = Inr u"
  shows "j = JStr u \<and> length u \<le> 2048 \<and> (plain_url u \<longrightarrow>
    (\<exists>sc auth rest. url_parts u sc auth rest \<and> no_fragment rest \<and>
       (lower_str sc = ''https'' \<or> lower_str sc = ''http'' \<and> loopback_authority auth)))"
proof -
  obtain p where j: "j = JStr u" "length u \<le> 2048" and p: "urlsplit br u = Inr p"
    and ne: "sr_scheme p \<noteq> []" "sr_netloc p \<noteq> []" "sr_fragment p = []"
    and hn: "hostname (sr_netloc p) \<noteq> None" and ui: "fst (userinfo (sr_netloc p)) = None"
    and lb: "sr_scheme p = ''http'' \<longrightarrow> lower_str (the (hostname (sr_netloc p))) \<in> set loopback_hosts"
    and sc: "sr_scheme p \<in> {''http'', ''https''}"
    using assms by (auto simp: check_redirect_def result_simps Let_def split: json.splits if_splits)
  obtain x where x: "hostname (sr_netloc p) = Some x" using hn by blast
  have "sr_scheme p = ''http'' \<longrightarrow> loopback_authority (sr_netloc p)"
    using hostname_loopback [OF userinfo_none [OF ui] x] lb x by simp
  then have "lower_str sc' = sr_scheme p \<Longrightarrow> lower_str sc' = ''https'' \<or> lower_str sc' = ''http'' \<and> loopback_authority (sr_netloc p)" for sc'
    using sc by auto
  with urlsplit_parts [OF p _ ne(1,2) ui] ne(3) j show ?thesis by metis
qed

lemma nat_str_digits: "c \<in> set (nat_str n) \<Longrightarrow> ch_digit c"
proof (induction n rule: less_induct)
  case (less n)
  show ?case
  proof (cases "n < 10")
    case True
    then show ?thesis using less.prems by (subst (asm) nat_str.simps) (simp add: ch_digit_def)
  next
    case False
    have "ch_digit (char_of (48 + n mod 10))" by (simp add: ch_digit_def)
    moreover have "c \<in> set (nat_str (n div 10)) \<or> c = char_of (48 + n mod 10)"
      using less.prems False by (subst (asm) nat_str.simps) auto
    ultimately show ?thesis using less.IH [of "n div 10"] False by auto
  qed
qed

lemma safe_external_host_chars: "c \<in> set (safe_external_host br h) \<Longrightarrow> \<not> bad_host_char c"
  by (auto simp: safe_external_host_def Let_def list_ex_iff split: if_splits sum.splits)

lemma digit_not_bad: "ch_digit c \<Longrightarrow> \<not> bad_host_char c"
  by (auto simp: ch_digit_def bad_host_char_def ch_space_def Let_def ch_code_def)

lemma bind_host_chars:
  assumes "list_all (\<lambda>c. \<not> bad_host_char c) h"
    and "c \<in> set (removeprefix (http_base_for_bind_host h port) ''http://'')"
  shows "\<not> bad_host_char c"
proof -
  let ?h = "if CHR '':'' \<in> set h \<and> \<not> startswith h ''['' then ''['' @ h @ '']'' else h"
  have "removeprefix (http_base_for_bind_host h port) ''http://'' = ?h @ '':'' @ nat_str port"
    unfolding http_base_for_bind_host_def Let_def by (rule removeprefix_append)
  moreover have "\<not> bad_host_char (CHR ''['')" "\<not> bad_host_char (CHR '']'')" "\<not> bad_host_char (CHR '':'')"
    by (simp_all add: bad_host_char_def ch_space_def ch_code_def Let_def)
  ultimately show ?thesis
    using assms nat_str_digits digit_not_bad by (auto simp: list_all_iff split: if_splits)
qed

lemma bind_host_nonempty: "removeprefix (http_base_for_bind_host h port) ''http://'' \<noteq> []"
  unfolding http_base_for_bind_host_def Let_def removeprefix_append by simp

lemma rstrip_slash_keeps: "CHR ''/'' \<notin> set s \<Longrightarrow> s \<noteq> [] \<Longrightarrow> rstrip_slash (p @ s) = p @ s"
  by (cases s rule: rev_cases) (auto simp: rstrip_slash_def rstrip_by_def)

lemma allowed_origin_shape:
  assumes "is_allowed_origin br allowed u" "plain_url u"
    and "rstrip_slash u \<notin> set (configured_allowed_origins allowed)"
  shows "\<exists>sc auth rest. url_parts u sc auth rest \<and> lower_str sc \<in> {''http'', ''https''} \<and> loopback_authority auth"
proof -
  obtain p x where p: "urlsplit br u = Inr p" and sc: "sr_scheme p \<in> {''http'', ''https''}"
    and x: "hostname (sr_netloc p) = Some x" and ui: "fst (userinfo (sr_netloc p)) = None"
    and lb: "x \<in> set loopback_hosts"
    using assms(1,3) by (auto simp: is_allowed_origin_def Let_def split: sum.splits prod.splits if_splits)
  have "lower_str x = x" using lb by (auto simp: loopback_hosts_def ch_lower_def ch_code_def Let_def)
  with lb hostname_loopback [OF userinfo_none [OF ui] x] have lba: "loopback_authority (sr_netloc p)" by simp
  have n: "sr_netloc p \<noteq> []" using x by (auto simp: hostname_def hostinfo_def rpartition_ch_def partition_ch_def)
  have "sr_scheme p \<noteq> []" using sc by auto
  from urlsplit_parts [OF p assms(2) this n ui] sc lba show ?thesis by metis
qed

section \<open>Theorems\<close>

text \<open>
  A registered redirect URI cannot lead off.  When the check accepts a value, the value is a
  list of between one and ten distinct strings of at most 2048 characters, and each of them that
  is written without tabs, line breaks and leading blanks is \<^verbatim>\<open>scheme://authority...\<close> with no user
  information, no fragment, and the scheme https, or http with a loopback host as its authority.
\<close>

theorem redirect_uris_sound:
  assumes "validate_redirect_uris br v = Inr us"
  shows "v = JList (map JStr us) \<and> us \<noteq> [] \<and> length us \<le> MAX_REDIRECT_URIS \<and> distinct us \<and>
    (\<forall>u. u \<in> set us \<longrightarrow> length u \<le> 2048 \<and> (plain_url u \<longrightarrow>
      (\<exists>sc auth rest. url_parts u sc auth rest \<and> no_fragment rest \<and>
         (lower_str sc = ''https'' \<or> lower_str sc = ''http'' \<and> loopback_authority auth))))"
proof -
  obtain items where v: "v = JList items" "items \<noteq> []" "length items \<le> MAX_REDIRECT_URIS"
    and r: "rmap (check_redirect br) items = Inr us" and d: "distinct us"
    using assms by (auto simp: validate_redirect_uris_def result_simps split: json.splits if_splits)
  have len: "length us = length items" by (rule rmap_Inr_length [OF r])
  have each: "check_redirect br (items ! i) = Inr (us ! i)" if "i < length us" for i
    using rmap_Inr_nth [OF r] that len by simp
  have nth: "items ! i = JStr (us ! i)" if "i < length us" for i
    using check_redirect_shape [OF each [OF that]] by blast
  have "items = map JStr us" by (rule nth_equalityI) (simp_all add: len nth)
  moreover have "check_redirect br (JStr u) = Inr u" if "u \<in> set us" for u
    using that each nth by (metis in_set_conv_nth)
  then have "u \<in> set us \<longrightarrow> length u \<le> 2048 \<and> (plain_url u \<longrightarrow>
      (\<exists>sc auth rest. url_parts u sc auth rest \<and> no_fragment rest \<and>
         (lower_str sc = ''https'' \<or> lower_str sc = ''http'' \<and> loopback_authority auth)))" for u
    using check_redirect_shape [of br "JStr u" u] by blast
  ultimately show ?thesis using v d by auto
qed

theorem redirect_uris_sound_witness:
  "let us = [''https://app.example/cb?x=1'', ''http://LOCALHOST:8080/cb''] in
   validate_redirect_uris (\<lambda>h. False) (JList (map JStr us)) = Inr us \<and> distinct us \<and> length us \<le> MAX_REDIRECT_URIS"
proof -
  let ?us = "[''https://app.example/cb?x=1'', ''http://LOCALHOST:8080/cb'']"
  have v: "validate_redirect_uris (\<lambda>h. False) (JList (map JStr ?us)) = Inr ?us" by code_simp
  have "distinct ?us \<and> length ?us \<le> MAX_REDIRECT_URIS"
    using redirect_uris_sound [OF v] by (elim conjE) (intro conjI)
  with v show ?thesis unfolding Let_def by (rule conjI)
qed

text \<open>
  The check reads a URI without its tabs and line breaks but stores it with them: a URI with a
  carriage return and a line feed inside is accepted unchanged, and the redirect writes it into
  the \<^verbatim>\<open>Location\<close> header.
\<close>

lemma redirect_uri_line_break_accepted:
  "validate_redirect_uris (\<lambda>h. False) (JList [JStr (''https://a'' @ [CHR 0x0D, CHR 0x0A] @ ''X:1/cb'')]) =
     Inr [''https://a'' @ [CHR 0x0D, CHR 0x0A] @ ''X:1/cb'']"
  by code_simp

text \<open>
  C39: the base URL the server derives for itself, whatever headers the request has, is \<^verbatim>\<open>http://\<close>
  or \<^verbatim>\<open>https://\<close> followed by a non-empty host in which there is no white space (and so no line
  break), no slash, backslash, at-sign, question mark or number sign; it can be put into a response
  header.  This holds when no URL is configured and the server is bound to a host of such characters.
\<close>

theorem oauth_base_url_safe:
  assumes "server_url = None \<or> server_url = Some []"
    and "list_all (\<lambda>c. \<not> bad_host_char c) (rq_bind_host rq)"
  shows "\<exists>proto host. oauth_base_url br server_url rq = proto @ ''://'' @ host \<and>
    proto \<in> {''http'', ''https''} \<and> host \<noteq> [] \<and> list_all (\<lambda>c. \<not> bad_host_char c) host"
proof -
  have fin: "\<exists>proto host. rstrip_slash (pr @ ''://'' @ h) = proto @ ''://'' @ host \<and>
      proto \<in> {''http'', ''https''} \<and> host \<noteq> [] \<and> list_all (\<lambda>c. \<not> bad_host_char c) host"
    if "pr \<in> {''http'', ''https''}" "h \<noteq> []" "list_all (\<lambda>c. \<not> bad_host_char c) h" for pr h
  proof -
    have "CHR ''/'' \<notin> set h" using that(3) by (auto simp: list_all_iff bad_host_char_def)
    from rstrip_slash_keeps [OF this that(2), of "pr @ ''://''"] that show ?thesis by auto
  qed
  have safe: "list_all (\<lambda>c. \<not> bad_host_char c) (safe_external_host br h)" for h
    using safe_external_host_chars by (auto simp: list_all_iff)
  have bind: "list_all (\<lambda>c. \<not> bad_host_char c)
      (removeprefix (http_base_for_bind_host (rq_bind_host rq) (rq_bind_port rq)) ''http://'')"
    using bind_host_chars [OF assms(2)] by (auto simp: list_all_iff)
  have host: "(if h = [] then removeprefix (http_base_for_bind_host (rq_bind_host rq) (rq_bind_port rq)) ''http://'' else h) \<noteq> []"
    "list_all (\<lambda>c. \<not> bad_host_char c) h \<Longrightarrow> list_all (\<lambda>c. \<not> bad_host_char c)
      (if h = [] then removeprefix (http_base_for_bind_host (rq_bind_host rq) (rq_bind_port rq)) ''http://'' else h)" for h
    using bind bind_host_nonempty by simp_all
  have cfg: "\<not> (case server_url of Some u \<Rightarrow> u \<noteq> [] | None \<Rightarrow> False)" using assms(1) by auto
  show ?thesis
    unfolding oauth_base_url_def if_not_P [OF cfg] Let_def
    by (rule fin) (simp, rule host(1), rule host(2), simp add: safe)
qed

theorem oauth_base_url_safe_witness:
  "let rq = \<lparr>rq_path = ''/mcp'', rq_headers = [''x-forwarded-host'' \<mapsto> ''evil.example/x'', ''host'' \<mapsto> ''srv.example:80''],
      rq_trust_proxy = True, rq_allowed_origins = [], rq_bind_host = ''127.0.0.1'', rq_bind_port = 9000\<rparr>;
      base = oauth_base_url (\<lambda>h. False) None rq in
   base = ''https://srv.example:80'' \<and>
   (\<exists>proto host. base = proto @ ''://'' @ host \<and> proto \<in> {''http'', ''https''} \<and> host \<noteq> [] \<and>
      list_all (\<lambda>c. \<not> bad_host_char c) host)"
proof -
  let ?rq = "\<lparr>rq_path = ''/mcp'', rq_headers = [''x-forwarded-host'' \<mapsto> ''evil.example/x'', ''host'' \<mapsto> ''srv.example:80''],
      rq_trust_proxy = True, rq_allowed_origins = [], rq_bind_host = ''127.0.0.1'', rq_bind_port = 9000\<rparr>"
  have "list_all (\<lambda>c. \<not> bad_host_char c) (rq_bind_host ?rq)" by code_simp
  note safe = oauth_base_url_safe [OF disjI1 [OF refl] this]
  have "oauth_base_url (\<lambda>h. False) None ?rq = ''https://srv.example:80''" by code_simp
  then show ?thesis unfolding Let_def by (rule conjI) (rule safe)
qed

end
