(* ===== verification/OAuth.thy ===== *)
theory OAuth
  imports Urls PyText
begin

text \<open>
  The authorization server: \<open>coding_tools_mcp/oauth.py\<close> (clients, PKCE, access tokens) and the
  OAuth handlers of \<open>coding_tools_mcp/server.py\<close>.  The configuration with its client registry and
  its pending codes is one record; every handler is one step on it.  A form or a query arrives
  decoded (\<^verbatim>\<open>urllib.parse.parse_qs\<close>), a JSON body parsed.  SHA-256, the JWT package, the decoding
  of a Basic header and the random tokens are parameters.  An exception that leaves a handler is
  the response \<open>Raise\<close>: the HTTP server drops the connection.
\<close>

section \<open>Encodings\<close>

definition str_bytes :: "string \<Rightarrow> bytes" where
  "str_bytes s = utf8 (map ch_code s)"

definition hex_char :: "nat \<Rightarrow> char" where
  "hex_char n = (if n < 10 then char_of (48 + n) else char_of (87 + n))"

definition hexdigest :: "bytes \<Rightarrow> string" where
  "hexdigest bs = concat (map (\<lambda>b. [hex_char (unat b div 16), hex_char (unat b mod 16)]) bs)"

text \<open>\<^verbatim>\<open>base64.urlsafe_b64encode\<close>.\<close>

definition b64_char :: "nat \<Rightarrow> char" where
  "b64_char n =
     (if n < 26 then char_of (65 + n) else if n < 52 then char_of (71 + n)
      else if n < 62 then char_of (n - 4) else if n = 62 then CHR ''-'' else CHR ''_'')"

fun b64_nats :: "nat list \<Rightarrow> string" where
  "b64_nats (a # b # c # rest) =
     [b64_char (a div 4), b64_char (a mod 4 * 16 + b div 16), b64_char (b mod 16 * 4 + c div 64),
      b64_char (c mod 64)] @ b64_nats rest"
| "b64_nats [a, b] =
     [b64_char (a div 4), b64_char (a mod 4 * 16 + b div 16), b64_char (b mod 16 * 4), CHR ''='']"
| "b64_nats [a] = [b64_char (a div 4), b64_char (a mod 4 * 16), CHR ''='', CHR ''='']"
| "b64_nats [] = []"

definition urlsafe_b64encode :: "bytes \<Rightarrow> string" where
  "urlsafe_b64encode bs = b64_nats (map unat bs)"

text \<open>\<^verbatim>\<open>secrets.compare_digest\<close> of two strings raises for a character outside ASCII.\<close>

definition compare_digest :: "string \<Rightarrow> string \<Rightarrow> bool result" where
  "compare_digest a b = (if isascii a \<and> isascii b then Inr (a = b) else Inl TypeError)"

text \<open>\<^verbatim>\<open>urllib.parse.quote_plus\<close>, the codec of \<^verbatim>\<open>urlencode\<close>.\<close>

definition quote_safe :: "nat \<Rightarrow> bool" where
  "quote_safe n \<longleftrightarrow> (65 \<le> n \<and> n \<le> 90) \<or> (97 \<le> n \<and> n \<le> 122) \<or> (48 \<le> n \<and> n \<le> 57) \<or> n \<in> {95, 46, 45, 126}"

definition upper_hex :: "nat \<Rightarrow> char" where
  "upper_hex n = (if n < 10 then char_of (48 + n) else char_of (55 + n))"

definition quote_plus :: "string \<Rightarrow> string" where
  "quote_plus s =
     concat (map (\<lambda>b. let n = unat b in
                      if quote_safe n then [char_of n] else if n = 32 then ''+''
                      else [CHR ''%'', upper_hex (n div 16), upper_hex (n mod 16)]) (str_bytes s))"

section \<open>Clients (oauth.py)\<close>

definition OAUTH_CODE_TTL_SECONDS :: real where
  "OAUTH_CODE_TTL_SECONDS = 300"

definition OAUTH_MAX_BODY_BYTES :: int where
  "OAUTH_MAX_BODY_BYTES = 8192"

definition OAUTH_GRANT_TYPES_SUPPORTED :: "string list" where
  "OAUTH_GRANT_TYPES_SUPPORTED = [''authorization_code'']"

definition OAUTH_RESPONSE_TYPES_SUPPORTED :: "string list" where
  "OAUTH_RESPONSE_TYPES_SUPPORTED = [''code'']"

definition MAX_REGISTERED_CLIENTS :: nat where
  "MAX_REGISTERED_CLIENTS = 1024"

definition MAX_PENDING_CODES :: nat where
  "MAX_PENDING_CODES = 256"

record oauth_env =
  oe_sha256 :: "bytes \<Rightarrow> bytes"
  oe_bracket :: "string \<Rightarrow> bool"
  oe_jwt_encode :: "obj \<Rightarrow> bytes \<Rightarrow> string"
  oe_jwt_decode :: "string \<Rightarrow> bytes \<Rightarrow> string \<Rightarrow> string \<Rightarrow> int \<Rightarrow> obj option"
  oe_basic :: "string \<Rightarrow> (string \<times> string) option"

record OAuthClient =
  oc_id :: string
  oc_redirects :: "string list"
  oc_method :: string
  oc_name :: "string option"
  oc_digest :: "string option"
  oc_issued_at :: int

type_synonym clients = "(string, OAuthClient) dict"

definition secret_digest :: "oauth_env \<Rightarrow> string \<Rightarrow> string" where
  "secret_digest env s = hexdigest (oe_sha256 env (str_bytes s))"

definition optional_text :: "json \<Rightarrow> nat \<Rightarrow> string option" where
  "optional_text v maximum =
     (case v of JStr s \<Rightarrow> if strip_str s = [] then None else Some (take maximum (strip_str s)) | _ \<Rightarrow> None)"

definition verifies_secret :: "oauth_env \<Rightarrow> OAuthClient \<Rightarrow> string \<Rightarrow> bool result" where
  "verifies_secret env c secret =
     (if oc_method c = ''none'' then Inr (secret = [])
      else case oc_digest c of
          None \<Rightarrow> Inr False
        | Some d \<Rightarrow> if secret = [] then Inr False else compare_digest d (secret_digest env secret))"

definition add_preregistered ::
  "oauth_env \<Rightarrow> string \<Rightarrow> string list \<Rightarrow> string option \<Rightarrow> int \<Rightarrow> clients \<Rightarrow> clients result" where
  "add_preregistered env cid redirects secret now cs =
     rbind (validate_redirect_uris (oe_bracket env) (JList (map JStr redirects))) (\<lambda>rs.
       Inr (dict_set cid
         \<lparr>oc_id = cid, oc_redirects = rs,
          oc_method = (case secret of None \<Rightarrow> ''none'' | Some _ \<Rightarrow> ''client_secret_post''),
          oc_name = None, oc_digest = map_option (secret_digest env) secret, oc_issued_at = now\<rparr> cs))"

text \<open>The supported values among the requested ones; the default applies when the key is absent.\<close>

fun json_strings :: "json list \<Rightarrow> string list option" where
  "json_strings [] = Some []"
| "json_strings (JStr s # js) = map_option ((#) s) (json_strings js)"
| "json_strings (_ # js) = None"

definition narrow_types :: "obj \<Rightarrow> string \<Rightarrow> string list \<Rightarrow> string list result" where
  "narrow_types md key supported =
     (case (case map_of md key of None \<Rightarrow> JList (map JStr supported) | Some v \<Rightarrow> v) of
        JList js \<Rightarrow>
          (case json_strings js of
             None \<Rightarrow> Inl (ValueError (key @ '' must be an array of strings''))
           | Some requested \<Rightarrow>
               let ts = filter (\<lambda>t. t \<in> set requested) supported in
               if ts = [] then Inl (ValueError (key @ '' must include at least one supported value'')) else Inr ts)
      | _ \<Rightarrow> Inl (ValueError (key @ '' must be an array of strings'')))"

text \<open>
  \<^verbatim>\<open>str(metadata.get(...) or "none")\<close> and the test of the result: a true value that is no string
  has a \<^verbatim>\<open>str\<close> that is none of the method names.
\<close>

definition auth_method :: "obj \<Rightarrow> string result" where
  "auth_method md =
     (let v = obj_get md ''token_endpoint_auth_method'' in
      if json_falsy v then Inr ''none''
      else case v of
          JStr s \<Rightarrow> if s \<in> {''none'', ''client_secret_post'', ''client_secret_basic''} then Inr s
                     else Inl (ValueError ''unsupported token_endpoint_auth_method'')
        | _ \<Rightarrow> Inl (ValueError ''unsupported token_endpoint_auth_method''))"

text \<open>The loop that draws identifiers until one is free; \<open>None\<close> when the draws given run out.\<close>

fun draw_client_id :: "string list \<Rightarrow> clients \<Rightarrow> string option" where
  "draw_client_id [] cs = None"
| "draw_client_id (t # ts) cs = (if map_of cs t = None then Some t else draw_client_id ts cs)"

record registration =
  rg_client :: OAuthClient
  rg_grant_types :: "string list"
  rg_response_types :: "string list"
  rg_secret :: "string option"

definition register_client ::
  "oauth_env \<Rightarrow> string list \<Rightarrow> string \<Rightarrow> int \<Rightarrow> obj \<Rightarrow> clients \<Rightarrow> (registration \<times> clients) result option" where
  "register_client env draws secret now md cs =
     (case rbind (validate_redirect_uris (oe_bracket env) (obj_get md ''redirect_uris'')) (\<lambda>redirects.
           rbind (narrow_types md ''grant_types'' OAUTH_GRANT_TYPES_SUPPORTED) (\<lambda>gts.
           rbind (narrow_types md ''response_types'' OAUTH_RESPONSE_TYPES_SUPPORTED) (\<lambda>rts.
           rbind (auth_method md) (\<lambda>m.
             if MAX_REGISTERED_CLIENTS \<le> length cs then
               Inl (ValueError ''dynamic client registration limit reached'')
             else Inr (redirects, gts, rts, m))))) of
        Inl e \<Rightarrow> Some (Inl e)
      | Inr (redirects, gts, rts, m) \<Rightarrow>
          map_option (\<lambda>cid.
            let sec = (if m \<noteq> ''none'' then Some secret else None);
                client = \<lparr>oc_id = cid, oc_redirects = redirects, oc_method = m,
                  oc_name = optional_text (obj_get md ''client_name'') 200,
                  oc_digest = map_option (secret_digest env) sec, oc_issued_at = now\<rparr> in
            Inr (\<lparr>rg_client = client, rg_grant_types = gts, rg_response_types = rts, rg_secret = sec\<rparr>,
                 dict_set cid client cs)) (draw_client_id draws cs))"

definition registration_json :: "registration \<Rightarrow> obj" where
  "registration_json r =
     (let c = rg_client r in
      [(''client_id'', JStr (oc_id c)), (''client_id_issued_at'', JInt (oc_issued_at c)),
       (''redirect_uris'', JList (map JStr (oc_redirects c))),
       (''grant_types'', JList (map JStr (rg_grant_types r))),
       (''response_types'', JList (map JStr (rg_response_types r))),
       (''token_endpoint_auth_method'', JStr (oc_method c))]
      @ (case oc_name c of Some n \<Rightarrow> if n = [] then [] else [(''client_name'', JStr n)] | None \<Rightarrow> [])
      @ (case rg_secret r of Some s \<Rightarrow> [(''client_secret'', JStr s), (''client_secret_expires_at'', JInt 0)]
         | None \<Rightarrow> []))"

definition accepts_redirect :: "clients \<Rightarrow> string \<Rightarrow> string \<Rightarrow> bool" where
  "accepts_redirect cs cid uri =
     (case map_of cs cid of None \<Rightarrow> False | Some c \<Rightarrow> uri \<in> set (oc_redirects c))"

definition authenticates :: "oauth_env \<Rightarrow> clients \<Rightarrow> string \<Rightarrow> string \<Rightarrow> string \<Rightarrow> bool result" where
  "authenticates env cs cid secret meth =
     (case map_of cs cid of
        None \<Rightarrow> Inr False
      | Some c \<Rightarrow> if oc_method c = meth then verifies_secret env c secret else Inr False)"

section \<open>PKCE and access tokens (oauth.py)\<close>

definition verifier_char :: "char \<Rightarrow> bool" where
  "verifier_char c \<longleftrightarrow> ch_alnum_ascii c \<or> c \<in> {CHR ''-'', CHR ''.'', CHR ''_'', CHR ''~''}"

definition challenge_char :: "char \<Rightarrow> bool" where
  "challenge_char c \<longleftrightarrow> ch_alnum_ascii c \<or> c \<in> {CHR ''-'', CHR ''_''}"

definition valid_verifier :: "string \<Rightarrow> bool" where
  "valid_verifier v \<longleftrightarrow> 43 \<le> length v \<and> length v \<le> 128 \<and> list_all verifier_char v"

definition s256 :: "oauth_env \<Rightarrow> string \<Rightarrow> string" where
  "s256 env v = rstrip_by (\<lambda>c. c = CHR ''='') (urlsafe_b64encode (oe_sha256 env (str_bytes v)))"

definition verify_pkce :: "oauth_env \<Rightarrow> string \<Rightarrow> string \<Rightarrow> bool result" where
  "verify_pkce env v challenge =
     (if \<not> valid_verifier v then Inr False else compare_digest (s256 env v) challenge)"

definition valid_pkce_challenge :: "string \<Rightarrow> bool" where
  "valid_pkce_challenge ch \<longleftrightarrow> length ch = 43 \<and> list_all challenge_char ch"

record pending_code =
  pc_challenge :: string
  pc_client :: string
  pc_redirect :: string
  pc_state :: string
  pc_expires_at :: real
  pc_server_url :: string
  pc_resource :: string

record OAuthConfig =
  cf_password :: string
  cf_server_url :: "string option"
  cf_token_secret :: bytes
  cf_token_ttl :: int
  cf_clients :: clients
  cf_pending :: "(string, pending_code) dict"

definition token_claims :: "OAuthConfig \<Rightarrow> string \<Rightarrow> string \<Rightarrow> int \<Rightarrow> obj" where
  "token_claims cfg url cid now =
     [(''iss'', JStr url), (''aud'', JStr url), (''sub'', JStr cid), (''client_id'', JStr cid),
      (''iat'', JInt now), (''exp'', JInt (now + cf_token_ttl cfg)), (''scope'', JStr ''mcp'')]"

definition create_access_token :: "oauth_env \<Rightarrow> OAuthConfig \<Rightarrow> string \<Rightarrow> string \<Rightarrow> int \<Rightarrow> string" where
  "create_access_token env cfg url cid now =
     oe_jwt_encode env (token_claims cfg url cid now) (cf_token_secret cfg)"

definition validate_access_token :: "oauth_env \<Rightarrow> string \<Rightarrow> OAuthConfig \<Rightarrow> string \<Rightarrow> int \<Rightarrow> bool" where
  "validate_access_token env tok cfg url now =
     (case oe_jwt_decode env tok (cf_token_secret cfg) url url now of
        None \<Rightarrow> False
      | Some claims \<Rightarrow>
          (case obj_get claims ''client_id'' of
             JStr cid \<Rightarrow> map_of (cf_clients cfg) cid \<noteq> None
           | _ \<Rightarrow> False))"

section \<open>The handlers (server.py)\<close>

type_synonym form = "(string \<times> string list) list"

record oauth_req = http_req +
  rq_query :: form
  rq_form :: form
  rq_json :: "json option"

datatype oauth_resp =
    Json int obj
  | Html int string
  | Found string
  | Raise pyexn

definition get_content_type :: "('z) http_req_scheme \<Rightarrow> string" where
  "get_content_type rq =
     (case rq_headers rq ''content-type'' of
        None \<Rightarrow> ''text/plain''
      | Some v \<Rightarrow> let ct = lower_str (strip_str (first_part (CHR '';'') v)) in
                  if length (filter (\<lambda>c. c = CHR ''/'') ct) = 1 then ct else ''text/plain'')"

definition oauth_error :: "string \<Rightarrow> string \<Rightarrow> oauth_resp" where
  "oauth_error err desc = Json 400 [(''error'', JStr err), (''error_description'', JStr desc)]"

definition read_oauth_body :: "('z) http_req_scheme \<Rightarrow> oauth_resp + unit" where
  "read_oauth_body rq =
     (case rq_headers rq ''content-length'' of
        None \<Rightarrow> Inl (Json 411 [(''error'', JStr ''Content-Length required'')])
      | Some raw \<Rightarrow>
          (case py_int raw of
             None \<Rightarrow> Inl (Json 400 [(''error'', JStr ''Invalid Content-Length'')])
           | Some n \<Rightarrow> if 0 \<le> n \<and> n \<le> OAUTH_MAX_BODY_BYTES then Inr ()
                       else Inl (Json 413 [(''error'', JStr ''Request body too large'')])))"

text \<open>\<^verbatim>\<open>html.escape(v, quote=True)\<close>.\<close>

definition esc_char :: "char \<Rightarrow> string" where
  "esc_char c =
     (if c = CHR ''&'' then ''&amp;'' else if c = CHR ''<'' then ''&lt;'' else if c = CHR ''>'' then ''&gt;''
      else if c = CHR 0x22 then ''&quot;'' else if c = CHR 0x27 then ''&#x27;'' else [c])"

definition esc :: "string \<Rightarrow> string" where
  "esc s = concat (map esc_char s)"

definition q1 :: string where
  "q1 = [CHR 0x27]"

definition q2 :: string where
  "q2 = [CHR 0x22]"

definition hidden_field :: "string \<Rightarrow> string \<Rightarrow> string" where
  "hidden_field name v =
     ''<input type='' @ q1 @ ''hidden'' @ q1 @ '' name='' @ q1 @ name @ q1 @ '' value='' @ q1 @ esc v @ q1 @ ''>''"

definition page_head :: string where
  "page_head =
     ''<!DOCTYPE html><html lang='' @ q1 @ ''en'' @ q1 @ ''><head><meta charset='' @ q1 @ ''utf-8'' @ q1 @ ''>'' @
     ''<title>Authorize MCP Server</title>'' @
     ''<style>body{font-family:sans-serif;max-width:380px;margin:4rem auto;padding:1rem}'' @
     ''input{width:100%;padding:.5rem;margin:.4rem 0;box-sizing:border-box}'' @
     ''button{width:100%;padding:.7rem;background:#0066cc;color:#fff;border:none;cursor:pointer}</style>'' @
     ''</head><body><h2>Authorize Coding Tools MCP</h2>''"

definition page_foot :: string where
  "page_foot =
     ''<label>Password<input type='' @ q1 @ ''password'' @ q1 @ '' name='' @ q1 @ ''password'' @ q1 @
     '' autocomplete='' @ q1 @ ''current-password'' @ q1 @ '' required></label>'' @
     ''<button type='' @ q1 @ ''submit'' @ q1 @ ''>Authorize</button></form></body></html>''"

definition oauth_login_page ::
  "string \<Rightarrow> string \<Rightarrow> string \<Rightarrow> string \<Rightarrow> string \<Rightarrow> string \<Rightarrow> string \<Rightarrow> string" where
  "oauth_login_page client_id redirect_uri code_challenge meth state resource error =
     page_head @
     ''<p>Client: <strong>'' @ esc client_id @ ''</strong></p>'' @
     ''<p>Redirect URI: <code>'' @ esc redirect_uri @ ''</code></p>'' @
     (if error \<noteq> [] then ''<p style='' @ q2 @ ''color:red'' @ q2 @ ''>'' @ esc error @ ''</p>'' else []) @
     ''<form method='' @ q1 @ ''POST'' @ q1 @ '' action='' @ q1 @ ''/oauth/authorize'' @ q1 @ ''>'' @
     hidden_field ''client_id'' client_id @ hidden_field ''redirect_uri'' redirect_uri @
     hidden_field ''code_challenge'' code_challenge @ hidden_field ''code_challenge_method'' meth @
     hidden_field ''state'' state @ hidden_field ''resource'' resource @ page_foot"

definition handle_oauth_authorize_get :: "oauth_env \<Rightarrow> oauth_req \<Rightarrow> OAuthConfig option \<Rightarrow> oauth_resp" where
  "handle_oauth_authorize_get env rq c =
     (case c of
        None \<Rightarrow> Json 404 [(''error'', JStr ''OAuth not configured'')]
      | Some cfg \<Rightarrow>
          let p = first_form_value (rq_query rq);
              cid = p ''client_id''; uri = p ''redirect_uri''; ch = p ''code_challenge'';
              meth = p ''code_challenge_method'' in
          if p ''response_type'' \<noteq> ''code'' then
            Html 400 (''<h2>Error</h2><p>response_type must be '' @ q1 @ ''code'' @ q1 @ ''</p>'')
          else if map_of (cf_clients cfg) cid = None then Html 400 ''<h2>Error</h2><p>Unknown client_id</p>''
          else if \<not> accepts_redirect (cf_clients cfg) cid uri then
            Html 400 ''<h2>Error</h2><p>redirect_uri is not registered for this client</p>''
          else if meth \<noteq> ''S256'' \<or> \<not> valid_pkce_challenge ch then
            Html 400 ''<h2>Error</h2><p>code_challenge_method must be S256 and code_challenge is required</p>''
          else if rstrip_slash (p ''resource'') \<noteq> oauth_base_url (oe_bracket env) (cf_server_url cfg) (http_req.truncate rq) then
            Html 400 ''<h2>Error</h2><p>resource must identify this MCP server</p>''
          else Html 200 (oauth_login_page cid uri ch meth (p ''state'') (p ''resource'') []))"

text \<open>The oldest codes go until there is room for one more.\<close>

fun evict_codes :: "(string, pending_code) dict \<Rightarrow> (string, pending_code) dict" where
  "evict_codes [] = []"
| "evict_codes (e # d) = (if MAX_PENDING_CODES \<le> length (e # d) then evict_codes d else e # d)"

definition code_data :: "string \<Rightarrow> real \<Rightarrow> form \<Rightarrow> pending_code" where
  "code_data base now f =
     (let p = first_form_value f in
      \<lparr>pc_challenge = p ''code_challenge'', pc_client = p ''client_id'', pc_redirect = p ''redirect_uri'',
       pc_state = p ''state'', pc_expires_at = now + OAUTH_CODE_TTL_SECONDS, pc_server_url = base,
       pc_resource = rstrip_slash (p ''resource'')\<rparr>)"

definition store_code :: "string \<Rightarrow> real \<Rightarrow> pending_code \<Rightarrow> OAuthConfig \<Rightarrow> OAuthConfig" where
  "store_code code now d cfg =
     cfg\<lparr>cf_pending := dict_set code d
          (evict_codes (filter (\<lambda>e. \<not> pc_expires_at (snd e) < now) (cf_pending cfg)))\<rparr>"

definition redirect_location :: "string \<Rightarrow> string \<Rightarrow> string \<Rightarrow> string" where
  "redirect_location uri code state =
     uri @ (if CHR ''?'' \<in> set uri then ''&'' else ''?'') @
     ''code='' @ quote_plus code @ (if state \<noteq> [] then ''&state='' @ quote_plus state else [])"

definition handle_oauth_authorize_post ::
  "oauth_env \<Rightarrow> string \<Rightarrow> real \<Rightarrow> oauth_req \<Rightarrow> OAuthConfig option \<Rightarrow> oauth_resp \<times> OAuthConfig option" where
  "handle_oauth_authorize_post env code now rq c =
     (case c of
        None \<Rightarrow> (Json 404 [(''error'', JStr ''OAuth not configured'')], c)
      | Some cfg \<Rightarrow>
          (case read_oauth_body rq of
             Inl r \<Rightarrow> (r, c)
           | Inr _ \<Rightarrow>
               if lower_str (get_content_type rq) \<noteq> ''application/x-www-form-urlencoded'' then
                 (oauth_error ''invalid_request'' ''Content-Type must be application/x-www-form-urlencoded'', c)
               else
                 let p = first_form_value (rq_form rq);
                     cid = p ''client_id''; uri = p ''redirect_uri''; ch = p ''code_challenge'';
                     meth = p ''code_challenge_method''; st = p ''state''; res = p ''resource'';
                     base = oauth_base_url (oe_bracket env) (cf_server_url cfg) (http_req.truncate rq);
                     fail = (\<lambda>error status. Html status (oauth_login_page cid uri ch meth st res error)) in
                 if map_of (cf_clients cfg) cid = None \<or> \<not> accepts_redirect (cf_clients cfg) cid uri then
                   (fail ''Invalid client or redirect URI'' 400, c)
                 else if meth \<noteq> ''S256'' \<or> \<not> valid_pkce_challenge ch then (fail ''Invalid PKCE parameters'' 400, c)
                 else if rstrip_slash res \<noteq> base then (fail ''Invalid resource'' 400, c)
                 else (case compare_digest (p ''password'') (cf_password cfg) of
                         Inl e \<Rightarrow> (Raise e, c)
                       | Inr False \<Rightarrow> (fail ''Invalid password'' 401, c)
                       | Inr True \<Rightarrow>
                           (Found (redirect_location uri code st),
                            Some (store_code code now (code_data base now (rq_form rq)) cfg)))))"

text \<open>
  Client credentials of a token request: from the form, completed from a Basic header.  The header
  is read only when the form lacks one of them.
\<close>

definition token_credentials :: "oauth_env \<Rightarrow> oauth_req \<Rightarrow> string \<times> string \<times> string" where
  "token_credentials env rq =
     (let p = first_form_value (rq_form rq); cid = p ''client_id''; sec = p ''client_secret'';
          meth = (if sec \<noteq> [] then ''client_secret_post'' else ''none''); h = header (http_req.truncate rq) ''authorization'' in
      if startswith h ''Basic '' \<and> (cid = [] \<or> sec = []) then
        (case oe_basic env (drop 6 h) of
           None \<Rightarrow> (cid, sec, meth)
         | Some (bid, bsec) \<Rightarrow>
             (if cid = [] then bid else cid, if sec = [] then bsec else sec, ''client_secret_basic''))
      else (cid, sec, meth))"

text \<open>The tests on the code that was popped, in the order of the source.\<close>

definition check_code :: "oauth_env \<Rightarrow> real \<Rightarrow> string \<Rightarrow> string \<Rightarrow> string \<Rightarrow> string \<Rightarrow> pending_code \<Rightarrow> (oauth_resp option) result" where
  "check_code env now cid uri res verifier d =
     (if pc_expires_at d < now then Inr (Some (oauth_error ''invalid_grant'' ''Authorization code expired''))
      else rbind (compare_digest (pc_client d) cid) (\<lambda>same.
        if \<not> same then Inr (Some (oauth_error ''invalid_grant'' ''client_id mismatch''))
        else rbind (compare_digest (pc_redirect d) uri) (\<lambda>same.
          if \<not> same then Inr (Some (oauth_error ''invalid_grant'' ''redirect_uri mismatch''))
          else rbind (if res = [] then Inr False else compare_digest (pc_resource d) res) (\<lambda>same.
            if \<not> same then Inr (Some (oauth_error ''invalid_target'' ''resource mismatch''))
            else rbind (verify_pkce env verifier (pc_challenge d)) (\<lambda>ok.
              if \<not> ok then Inr (Some (oauth_error ''invalid_grant'' ''PKCE verification failed''))
              else Inr None)))))"

definition handle_oauth_token ::
  "oauth_env \<Rightarrow> real \<Rightarrow> oauth_req \<Rightarrow> OAuthConfig option \<Rightarrow> oauth_resp \<times> OAuthConfig option" where
  "handle_oauth_token env now rq c =
     (case c of
        None \<Rightarrow> (Json 400 [(''error'', JStr ''unsupported_grant_type'')], c)
      | Some cfg \<Rightarrow>
          (case read_oauth_body rq of
             Inl r \<Rightarrow> (r, c)
           | Inr _ \<Rightarrow>
               if lower_str (strip_str (first_part (CHR '';'') (header (http_req.truncate rq) ''content-type'')))
                  \<noteq> ''application/x-www-form-urlencoded'' then
                 (oauth_error ''invalid_request'' ''Content-Type must be application/x-www-form-urlencoded'', c)
               else
                 let p = first_form_value (rq_form rq); code = p ''code''; verifier = p ''code_verifier'';
                     res = rstrip_slash (p ''resource'');
                     (cid, sec, meth) = token_credentials env rq in
                 if p ''grant_type'' \<noteq> ''authorization_code'' then
                   (oauth_error ''unsupported_grant_type'' ''Only authorization_code is supported'', c)
                 else if map_of (cf_clients cfg) cid = None then
                   (oauth_error ''invalid_client'' ''Unknown client_id'', c)
                 else (case authenticates env (cf_clients cfg) cid sec meth of
                     Inl e \<Rightarrow> (Raise e, c)
                   | Inr False \<Rightarrow> (oauth_error ''invalid_client'' ''Invalid client_secret'', c)
                   | Inr True \<Rightarrow>
                       if code = [] then (oauth_error ''invalid_grant'' ''code is required'', c)
                       else if \<not> valid_verifier verifier then
                         (oauth_error ''invalid_grant'' ''Invalid code_verifier'', c)
                       else (case map_of (cf_pending cfg) code of
                           None \<Rightarrow> (oauth_error ''invalid_grant'' ''Unknown or already-used authorization code'', c)
                         | Some d \<Rightarrow>
                             let cfg' = cfg\<lparr>cf_pending := dict_del code (cf_pending cfg)\<rparr> in
                             (case check_code env now cid (p ''redirect_uri'') res verifier d of
                                Inl e \<Rightarrow> (Raise e, Some cfg')
                              | Inr (Some r) \<Rightarrow> (r, Some cfg')
                              | Inr None \<Rightarrow>
                                  (Json 200
                                     [(''access_token'', JStr (create_access_token env cfg res cid \<lfloor>now\<rfloor>)),
                                      (''token_type'', JStr ''Bearer''), (''expires_in'', JInt (cf_token_ttl cfg))],
                                   Some cfg'))))))"

definition registration_reply :: "OAuthConfig \<Rightarrow> (registration \<times> clients) result \<Rightarrow> oauth_resp \<times> OAuthConfig option" where
  "registration_reply cfg r =
     (case r of
        Inl (ValueError m) \<Rightarrow> (oauth_error ''invalid_client_metadata'' m, Some cfg)
      | Inl e \<Rightarrow> (Raise e, Some cfg)
      | Inr (reg, cs) \<Rightarrow> (Json 201 (registration_json reg), Some (cfg\<lparr>cf_clients := cs\<rparr>)))"

definition handle_oauth_register ::
  "oauth_env \<Rightarrow> string list \<Rightarrow> string \<Rightarrow> int \<Rightarrow> oauth_req \<Rightarrow> OAuthConfig option \<Rightarrow>
   (oauth_resp \<times> OAuthConfig option) option" where
  "handle_oauth_register env draws secret now rq c =
     (case c of
        None \<Rightarrow> Some (Json 404 [(''error'', JStr ''OAuth not configured'')], c)
      | Some cfg \<Rightarrow>
          (case read_oauth_body rq of
             Inl r \<Rightarrow> Some (r, c)
           | Inr _ \<Rightarrow>
               if lower_str (get_content_type rq) \<noteq> ''application/json'' then
                 Some (oauth_error ''invalid_client_metadata'' ''Content-Type must be application/json'', c)
               else (case rq_json rq of
                   None \<Rightarrow> Some (oauth_error ''invalid_client_metadata'' ''Body must be valid JSON'', c)
                 | Some (JObj md) \<Rightarrow>
                     map_option (registration_reply cfg)
                       (register_client env draws secret now md (cf_clients cfg))
                 | Some _ \<Rightarrow> Some (oauth_error ''invalid_client_metadata'' ''Metadata must be an object'', c))))"

section \<open>The server as a state machine\<close>

datatype oauth_event =
    EvAuthorize string real oauth_req
  | EvToken real oauth_req
  | EvRegister "string list" string int oauth_req

fun oauth_handle :: "oauth_env \<Rightarrow> oauth_event \<Rightarrow> OAuthConfig option \<Rightarrow> (oauth_resp \<times> OAuthConfig option) option" where
  "oauth_handle env (EvAuthorize code now rq) c = Some (handle_oauth_authorize_post env code now rq c)"
| "oauth_handle env (EvToken now rq) c = Some (handle_oauth_token env now rq c)"
| "oauth_handle env (EvRegister draws secret now rq) c = handle_oauth_register env draws secret now rq c"

type_synonym oauth_hist = "(oauth_event \<times> oauth_resp) list"

inductive oauth_step :: "oauth_env \<Rightarrow> OAuthConfig \<times> oauth_hist \<Rightarrow> OAuthConfig \<times> oauth_hist \<Rightarrow> bool" for env where
  "oauth_handle env ev (Some cfg) = Some (r, Some cfg') \<Longrightarrow> oauth_step env (cfg, h) (cfg', h @ [(ev, r)])"

definition oauth_start :: "OAuthConfig \<times> oauth_hist \<Rightarrow> bool" where
  "oauth_start s \<longleftrightarrow> cf_pending (fst s) = [] \<and> snd s = []"

interpretation oa: machine oauth_start "oauth_step env" for env .

text \<open>An exchange that handed out a code, with the data stored for it, and one that redeemed it.\<close>

definition issues :: "oauth_env \<Rightarrow> string option \<Rightarrow> string \<Rightarrow> oauth_event \<times> oauth_resp \<Rightarrow> string \<Rightarrow> pending_code \<Rightarrow> bool" where
  "issues env su pw x code d \<longleftrightarrow>
     (\<exists>now rq loc. x = (EvAuthorize code now rq, Found loc) \<and>
        first_form_value (rq_form rq) ''password'' = pw \<and>
        d = code_data (oauth_base_url (oe_bracket env) su (http_req.truncate rq)) now (rq_form rq))"

definition redeems :: "oauth_event \<times> oauth_resp \<Rightarrow> string \<Rightarrow> bool" where
  "redeems x code \<longleftrightarrow>
     (\<exists>now rq ob. x = (EvToken now rq, Json 200 ob) \<and> first_form_value (rq_form rq) ''code'' = code)"

section \<open>What the handlers do\<close>

lemma compare_digest_True: "compare_digest a b = Inr True \<longleftrightarrow> isascii a \<and> isascii b \<and> a = b"
  by (auto simp: compare_digest_def)

lemma authorize_post_cases:
  assumes "handle_oauth_authorize_post env code now rq (Some cfg) = (r, c')"
  obtains (refused) "c' = Some cfg" "\<And>loc. r \<noteq> Found loc"
  | (granted) "r = Found (redirect_location (first_form_value (rq_form rq) ''redirect_uri'') code
        (first_form_value (rq_form rq) ''state''))"
      "first_form_value (rq_form rq) ''password'' = cf_password cfg"
      "accepts_redirect (cf_clients cfg) (first_form_value (rq_form rq) ''client_id'')
         (first_form_value (rq_form rq) ''redirect_uri'')"
      "valid_pkce_challenge (first_form_value (rq_form rq) ''code_challenge'')"
      "c' = Some (store_code code now (code_data
         (oauth_base_url (oe_bracket env) (cf_server_url cfg) (http_req.truncate rq)) now (rq_form rq)) cfg)"
  using assms unfolding handle_oauth_authorize_post_def
  by (auto simp: Let_def oauth_error_def compare_digest_def read_oauth_body_def
      split: sum.splits if_splits option.splits bool.splits)

lemma check_code_passed:
  "check_code env now cid uri res v d = Inr None \<longleftrightarrow>
     \<not> pc_expires_at d < now \<and> isascii cid \<and> pc_client d = cid \<and> isascii uri \<and> pc_redirect d = uri \<and>
     res \<noteq> [] \<and> isascii res \<and> pc_resource d = res \<and> valid_verifier v \<and> isascii (s256 env v) \<and>
     s256 env v = pc_challenge d"
  by (auto simp: check_code_def result_simps compare_digest_def verify_pkce_def split: if_splits)

definition token_payload :: "oauth_env \<Rightarrow> OAuthConfig \<Rightarrow> string \<Rightarrow> string \<Rightarrow> real \<Rightarrow> obj" where
  "token_payload env cfg res cid now =
     [(''access_token'', JStr (create_access_token env cfg res cid \<lfloor>now\<rfloor>)),
      (''token_type'', JStr ''Bearer''), (''expires_in'', JInt (cf_token_ttl cfg))]"

lemma check_code_error:
  "check_code env now cid uri res v d = Inr (Some r) \<Longrightarrow> r \<noteq> Json 200 ob"
  by (auto simp: check_code_def result_simps compare_digest_def verify_pkce_def oauth_error_def split: if_splits)

lemma read_oauth_body_error: "read_oauth_body rq = Inl r \<Longrightarrow> r \<noteq> Json 200 ob"
  by (auto simp: read_oauth_body_def split: option.splits if_splits)

lemma token_cases:
  assumes "handle_oauth_token env now rq (Some cfg) = (r, c')"
    and "first_form_value (rq_form rq) ''code'' = code" and "token_credentials env rq = (cid, sec, meth)"
  obtains (refused) "c' = Some cfg" "\<And>ob. r \<noteq> Json 200 ob"
  | (wasted) d where "map_of (cf_pending cfg) code = Some d" "\<And>ob. r \<noteq> Json 200 ob"
      "c' = Some (cfg\<lparr>cf_pending := dict_del code (cf_pending cfg)\<rparr>)"
  | (granted) d where "map_of (cf_pending cfg) code = Some d"
      "check_code env now cid (first_form_value (rq_form rq) ''redirect_uri'')
         (rstrip_slash (first_form_value (rq_form rq) ''resource'')) (first_form_value (rq_form rq) ''code_verifier'') d = Inr None"
      "authenticates env (cf_clients cfg) cid sec meth = Inr True"
      "r = Json 200 (token_payload env cfg (rstrip_slash (first_form_value (rq_form rq) ''resource'')) cid now)"
      "c' = Some (cfg\<lparr>cf_pending := dict_del code (cf_pending cfg)\<rparr>)"
proof -
  have b: "\<And>ob. r \<noteq> Json 200 ob" if "read_oauth_body rq = Inl r" for r
    using read_oauth_body_error [OF that] by blast
  have k: "\<And>ob. r \<noteq> Json 200 ob" if "check_code env now cid uri res v d = Inr (Some r)" for uri res v d r
    using check_code_error [OF that] by blast
  show thesis
    using assms refused wasted granted unfolding handle_oauth_token_def token_payload_def
    by (auto simp: Let_def oauth_error_def dest: b k split: sum.splits if_splits option.splits bool.splits)
qed

lemma register_pending:
  "handle_oauth_register env draws secret now rq (Some cfg) = Some (r, Some cfg') \<Longrightarrow>
   cf_pending cfg' = cf_pending cfg \<and> cf_password cfg' = cf_password cfg \<and> cf_server_url cfg' = cf_server_url cfg"
proof -
  have reply: "registration_reply cfg z = (r, Some cfg') \<Longrightarrow>
    cf_pending cfg' = cf_pending cfg \<and> cf_password cfg' = cf_password cfg \<and> cf_server_url cfg' = cf_server_url cfg" for z
    by (auto simp: registration_reply_def split: sum.splits pyexn.splits)
  assume "handle_oauth_register env draws secret now rq (Some cfg) = Some (r, Some cfg')"
  with reply show ?thesis
    by (auto simp: handle_oauth_register_def split: sum.splits if_splits option.splits json.splits)
qed

lemma evict_codes_length: "length (evict_codes d) < MAX_PENDING_CODES"
  by (induction d) (auto simp: MAX_PENDING_CODES_def)

lemma evict_codes_ok: "dict_ok d \<Longrightarrow> dict_ok (evict_codes d)"
  by (induction d) (auto simp: dict_ok_def)

lemma evict_codes_map:
  "dict_ok d \<Longrightarrow> map_of (evict_codes d) c = Some x \<Longrightarrow> map_of d c = Some x"
proof (induction d)
  case (Cons e d)
  show ?case
  proof (cases "MAX_PENDING_CODES \<le> length (e # d)")
    case True
    then have m: "map_of d c = Some x" using Cons by (simp add: dict_ok_def)
    then have "c \<in> fst ` set d" by (force dest: map_of_SomeD)
    with Cons.prems(1) have "fst e \<noteq> c" by (auto simp: dict_ok_def)
    with m show ?thesis by (cases e) auto
  next
    case False
    with Cons.prems(2) show ?thesis by simp
  qed
qed simp

lemma store_code_map:
  assumes "dict_ok (cf_pending cfg)" "map_of (cf_pending (store_code code now d cfg)) c = Some x"
  shows "c = code \<and> x = d \<or> c \<noteq> code \<and> map_of (cf_pending cfg) c = Some x"
proof (cases "c = code")
  case True
  with assms(2) show ?thesis by (simp add: store_code_def)
next
  case False
  let ?f = "filter (\<lambda>e. \<not> pc_expires_at (snd e) < now) (cf_pending cfg)"
  have "map_of (evict_codes ?f) c = Some x" using assms(2) False by (simp add: store_code_def)
  then have "map_of ?f c = Some x" using evict_codes_map [of ?f c x] assms(1) by simp
  with False map_of_filter_ok [OF assms(1)] show ?thesis by (auto split: option.splits if_splits)
qed

section \<open>The invariant\<close>

text \<open>
  A pending code was issued by an exchange of the history, for the configured password and with
  the stored data, and has not been redeemed since.
\<close>

definition issued_unused :: "oauth_env \<Rightarrow> string option \<Rightarrow> string \<Rightarrow> oauth_hist \<Rightarrow> string \<Rightarrow> pending_code \<Rightarrow> bool" where
  "issued_unused env su pw h code d \<longleftrightarrow>
     (\<exists>j < length h. issues env su pw (h ! j) code d \<and> (\<forall>k. j < k \<and> k < length h \<longrightarrow> \<not> redeems (h ! k) code))"

text \<open>What justifies a token response at the end of a history.\<close>

definition token_justified :: "oauth_env \<Rightarrow> string option \<Rightarrow> string \<Rightarrow> oauth_hist \<Rightarrow> real \<Rightarrow> oauth_req \<Rightarrow> bool" where
  "token_justified env su pw h now rq \<longleftrightarrow>
     (\<exists>d. issued_unused env su pw h (first_form_value (rq_form rq) ''code'') d \<and>
        now \<le> pc_expires_at d \<and> pc_client d = fst (token_credentials env rq) \<and>
        pc_redirect d = first_form_value (rq_form rq) ''redirect_uri'' \<and>
        pc_resource d = rstrip_slash (first_form_value (rq_form rq) ''resource'') \<and>
        pc_challenge d = s256 env (first_form_value (rq_form rq) ''code_verifier''))"

definition oauth_inv :: "oauth_env \<Rightarrow> OAuthConfig \<times> oauth_hist \<Rightarrow> bool" where
  "oauth_inv env s \<longleftrightarrow>
     (case s of (cfg, h) \<Rightarrow>
        dict_ok (cf_pending cfg) \<and>
        (\<forall>code d. map_of (cf_pending cfg) code = Some d \<longrightarrow>
           issued_unused env (cf_server_url cfg) (cf_password cfg) h code d) \<and>
        (\<forall>i now rq ob. i < length h \<longrightarrow> h ! i = (EvToken now rq, Json 200 ob) \<longrightarrow>
           token_justified env (cf_server_url cfg) (cf_password cfg) (take i h) now rq))"

lemma issued_unused_snoc:
  assumes "issued_unused env su pw h code d" "\<not> redeems x code"
  shows "issued_unused env su pw (h @ [x]) code d"
proof -
  obtain j where j: "j < length h" "issues env su pw (h ! j) code d"
    "\<forall>k. j < k \<and> k < length h \<longrightarrow> \<not> redeems (h ! k) code"
    using assms(1) by (auto simp: issued_unused_def)
  then have "\<forall>k. j < k \<and> k < length (h @ [x]) \<longrightarrow> \<not> redeems ((h @ [x]) ! k) code"
    using assms(2) by (auto simp: nth_append less_Suc_eq)
  with j show ?thesis unfolding issued_unused_def by (intro exI [of _ j]) (simp add: nth_append)
qed

lemma issued_unused_new: "issues env su pw x code d \<Longrightarrow> issued_unused env su pw (h @ [x]) code d"
  unfolding issued_unused_def by (intro exI [of _ "length h"]) auto

lemma oauth_inv_snoc:
  assumes "oauth_inv env (cfg, h)" "cf_server_url cfg' = cf_server_url cfg" "cf_password cfg' = cf_password cfg"
    and "dict_ok (cf_pending cfg')"
    and "\<And>code d. map_of (cf_pending cfg') code = Some d \<Longrightarrow>
      issues env (cf_server_url cfg) (cf_password cfg) x code d \<or>
      map_of (cf_pending cfg) code = Some d \<and> \<not> redeems x code"
    and "\<And>now rq ob. x = (EvToken now rq, Json 200 ob) \<Longrightarrow>
      token_justified env (cf_server_url cfg) (cf_password cfg) h now rq"
  shows "oauth_inv env (cfg', h @ [x])"
proof -
  have p: "issued_unused env (cf_server_url cfg) (cf_password cfg) (h @ [x]) code d"
    if "map_of (cf_pending cfg') code = Some d" for code d
    using assms(5) [OF that]
  proof
    assume "issues env (cf_server_url cfg) (cf_password cfg) x code d"
    then show ?thesis by (rule issued_unused_new)
  next
    assume "map_of (cf_pending cfg) code = Some d \<and> \<not> redeems x code"
    moreover from this have "issued_unused env (cf_server_url cfg) (cf_password cfg) h code d"
      using assms(1) by (simp add: oauth_inv_def)
    ultimately show ?thesis by (simp add: issued_unused_snoc)
  qed
  have t: "token_justified env (cf_server_url cfg) (cf_password cfg) (take i (h @ [x])) now rq"
    if i: "i < length (h @ [x])" "(h @ [x]) ! i = (EvToken now rq, Json 200 ob)" for i now rq ob
  proof (cases "i < length h")
    case True
    with assms(1) i(2) show ?thesis by (simp add: oauth_inv_def nth_append)
  next
    case False
    then have "i = length h" using i(1) by simp
    with i(2) assms(6) show ?thesis by simp
  qed
  show ?thesis unfolding oauth_inv_def using p t assms(2-4) by auto
qed

lemma oauth_inv_step:
  assumes "oauth_inv env s" "oauth_step env s t"
  shows "oauth_inv env t"
  using assms(2)
proof (cases rule: oauth_step.cases)
  case (1 ev cfg r cfg' h)
  have inv: "oauth_inv env (cfg, h)" using assms(1) 1 by simp
  then have ok: "dict_ok (cf_pending cfg)" by (simp add: oauth_inv_def)
  have "oauth_inv env (cfg', h @ [(ev, r)])"
  proof (cases ev)
    case (EvAuthorize code now rq)
    then have run: "handle_oauth_authorize_post env code now rq (Some cfg) = (r, Some cfg')" using 1 by simp
    from run show ?thesis
    proof (cases rule: authorize_post_cases)
      case refused
      with inv ok EvAuthorize show ?thesis by (intro oauth_inv_snoc [of env cfg h]) (auto simp: redeems_def)
    next
      case granted
      let ?d = "code_data (oauth_base_url (oe_bracket env) (cf_server_url cfg) (http_req.truncate rq)) now (rq_form rq)"
      have c': "cfg' = store_code code now ?d cfg" using granted by simp
      have iss: "issues env (cf_server_url cfg) (cf_password cfg) (ev, r) code ?d"
        using granted EvAuthorize by (auto simp: issues_def)
      show ?thesis
      proof (rule oauth_inv_snoc [OF inv])
        show "dict_ok (cf_pending cfg')" using ok by (simp add: c' store_code_def evict_codes_ok)
        show "issues env (cf_server_url cfg) (cf_password cfg) (ev, r) code' d \<or>
            map_of (cf_pending cfg) code' = Some d \<and> \<not> redeems (ev, r) code'"
          if "map_of (cf_pending cfg') code' = Some d" for code' d
          using store_code_map [OF ok, of code now ?d code' d] that iss EvAuthorize by (auto simp: c' redeems_def)
      qed (use EvAuthorize in \<open>auto simp: c' store_code_def\<close>)
    qed
  next
    case (EvToken now rq)
    let ?code = "first_form_value (rq_form rq) ''code''"
    obtain cid sec meth where cred: "token_credentials env rq = (cid, sec, meth)" by (cases "token_credentials env rq")
    have run: "handle_oauth_token env now rq (Some cfg) = (r, Some cfg')" using 1 EvToken by simp
    have del: "map_of (dict_del ?code (cf_pending cfg)) c = Some d \<Longrightarrow> c \<noteq> ?code \<and> map_of (cf_pending cfg) c = Some d" for c d
      by (auto split: if_splits)
    from run refl cred show ?thesis
    proof (cases rule: token_cases)
      case refused
      with inv ok EvToken show ?thesis by (intro oauth_inv_snoc [of env cfg h]) (auto simp: redeems_def)
    next
      case (wasted d)
      with inv ok EvToken del show ?thesis by (intro oauth_inv_snoc [of env cfg h]) (auto simp: redeems_def)
    next
      case (granted d)
      have "issued_unused env (cf_server_url cfg) (cf_password cfg) h ?code d"
        using inv granted(1) by (simp add: oauth_inv_def)
      then have "token_justified env (cf_server_url cfg) (cf_password cfg) h now rq"
        unfolding token_justified_def using granted(2) cred
        by (intro exI [of _ d]) (auto simp: check_code_passed)
      with inv ok EvToken granted(5) del show ?thesis
        by (intro oauth_inv_snoc [of env cfg h]) (auto simp: redeems_def)
    qed
  next
    case (EvRegister draws secret now rq)
    have "cf_pending cfg' = cf_pending cfg \<and> cf_password cfg' = cf_password cfg \<and> cf_server_url cfg' = cf_server_url cfg"
      using 1 EvRegister register_pending [of env draws secret now rq cfg r cfg'] by simp
    with inv ok EvRegister show ?thesis by (intro oauth_inv_snoc [of env cfg h]) (auto simp: redeems_def)
  qed
  with 1 show ?thesis by simp
qed

lemma reach_oauth_inv:
  assumes "oa.reach env s"
  shows "oauth_inv env s"
  by (rule oa.reach_invariant [OF assms])
     (auto simp: oauth_start_def oauth_inv_def [of env "(_, [])"] intro: oauth_inv_step)

end
