(* ===== verification/OAuthFlow.thy ===== *)
theory OAuthFlow
  imports OAuth
begin

text \<open>
  The guarantees of the authorization server, over the handlers of \<open>OAuth\<close>: every access token goes
  back to a password-approved authorization, a conforming client gets its token and can use its
  code once, registration ends, and the login page keeps its markup.
\<close>

section \<open>The S256 challenge of a conforming client\<close>

lemma challenge_b64_char [simp]: "challenge_char (b64_char n)"
  by (auto simp: b64_char_def challenge_char_def ch_alnum_ascii_def ch_alpha_ascii_def ch_upper_ascii_def ch_digit_def)

lemma challenge_char_ascii: "challenge_char c \<Longrightarrow> ch_code c < 128"
  by (auto simp: challenge_char_def ch_alnum_ascii_def ch_alpha_ascii_def ch_upper_ascii_def ch_digit_def ch_code_def)

lemma b64_two_left:
  "length bs mod 3 = 2 \<Longrightarrow>
   \<exists>s. b64_nats bs = s @ ''='' \<and> list_all challenge_char s \<and> length s = 4 * (length bs div 3) + 3"
proof (induction bs rule: b64_nats.induct)
  case (1 a b c rest)
  then have "length rest mod 3 = 2" by simp
  from "1.IH" [OF this] obtain s where "b64_nats rest = s @ ''=''" "list_all challenge_char s"
    "length s = 4 * (length rest div 3) + 3" by blast
  then show ?case by auto
qed auto

lemma s256_valid:
  assumes "length (oe_sha256 env (str_bytes v)) = 32"
  shows "valid_pkce_challenge (s256 env v) \<and> isascii (s256 env v)"
proof -
  let ?bs = "map unat (oe_sha256 env (str_bytes v))"
  obtain s where s: "b64_nats ?bs = s @ ''=''" "list_all challenge_char s" "length s = 43"
    using b64_two_left [of ?bs] assms by auto
  have "\<not> challenge_char (CHR ''='')" by (simp add: challenge_char_def ch_alnum_ascii_def ch_alpha_ascii_def
        ch_upper_ascii_def ch_digit_def ch_code_def)
  then have "s = [] \<or> last s \<noteq> CHR ''=''" using s(2) by (cases s rule: rev_cases) auto
  then have "s256 env v = s"
    by (cases s rule: rev_cases) (auto simp: s256_def urlsafe_b64encode_def s(1) rstrip_by_def)
  with s show ?thesis
    by (auto simp: valid_pkce_challenge_def isascii_def list_all_iff dest: challenge_char_ascii)
qed

section \<open>Registration ends\<close>

lemma draw_client_id_some:
  assumes "distinct draws" "length cs < length draws"
  shows "\<exists>t. draw_client_id draws cs = Some t \<and> t \<in> set draws \<and> map_of cs t = None"
proof -
  have "\<exists>t \<in> set draws. map_of cs t = None"
  proof (rule ccontr)
    assume "\<not> ?thesis"
    then have "set draws \<subseteq> fst ` set cs" by (auto simp: map_of_eq_None_iff)
    then have "card (set draws) \<le> card (fst ` set cs)" by (intro card_mono) auto
    also have "\<dots> \<le> length cs" by (metis card_length length_map set_map)
    finally show False using assms distinct_card [of draws] by simp
  qed
  then show ?thesis by (induction draws) auto
qed

section \<open>The markup of the login page\<close>

definition is_markup :: "char \<Rightarrow> bool" where
  "is_markup c \<longleftrightarrow> c \<in> {CHR ''<'', CHR ''>'', CHR 0x22, CHR 0x27}"

lemma filter_markup_esc [simp]: "filter is_markup (esc s) = []"
proof (induction s)
  case (Cons c s)
  have "filter is_markup (esc_char c) = []" by (auto simp: esc_char_def is_markup_def)
  with Cons show ?case by (simp add: esc_def)
qed (simp add: esc_def)

lemma filter_markup_hidden: "filter is_markup (hidden_field n v) = filter is_markup (hidden_field n [])"
  by (simp add: hidden_field_def)

section \<open>Requests of a conforming client\<close>

definition authorize_form :: "string \<Rightarrow> string \<Rightarrow> string \<Rightarrow> string \<Rightarrow> string \<Rightarrow> string \<Rightarrow> form" where
  "authorize_form cid uri challenge st res pw =
     [(''client_id'', [cid]), (''redirect_uri'', [uri]), (''code_challenge'', [challenge]),
      (''code_challenge_method'', [''S256'']), (''state'', [st]), (''resource'', [res]), (''password'', [pw])]"

definition token_form :: "string \<Rightarrow> string \<Rightarrow> string \<Rightarrow> string \<Rightarrow> string \<Rightarrow> form" where
  "token_form cid uri code verifier res =
     [(''grant_type'', [''authorization_code'']), (''code'', [code]), (''redirect_uri'', [uri]),
      (''code_verifier'', [verifier]), (''client_id'', [cid]), (''resource'', [res])]"

lemma authorize_form_value:
  "first_form_value (authorize_form cid uri ch st res pw) ''client_id'' = cid"
  "first_form_value (authorize_form cid uri ch st res pw) ''redirect_uri'' = uri"
  "first_form_value (authorize_form cid uri ch st res pw) ''code_challenge'' = ch"
  "first_form_value (authorize_form cid uri ch st res pw) ''code_challenge_method'' = ''S256''"
  "first_form_value (authorize_form cid uri ch st res pw) ''state'' = st"
  "first_form_value (authorize_form cid uri ch st res pw) ''resource'' = res"
  "first_form_value (authorize_form cid uri ch st res pw) ''password'' = pw"
  by (simp_all add: authorize_form_def first_form_value_def)

lemma token_form_value:
  "first_form_value (token_form cid uri code v res) ''grant_type'' = ''authorization_code''"
  "first_form_value (token_form cid uri code v res) ''code'' = code"
  "first_form_value (token_form cid uri code v res) ''redirect_uri'' = uri"
  "first_form_value (token_form cid uri code v res) ''code_verifier'' = v"
  "first_form_value (token_form cid uri code v res) ''client_id'' = cid"
  "first_form_value (token_form cid uri code v res) ''client_secret'' = []"
  "first_form_value (token_form cid uri code v res) ''resource'' = res"
  by (simp_all add: token_form_def first_form_value_def)

text \<open>A form request: its length is announced and within the limit, its type is the form type.\<close>

definition form_post :: "oauth_req \<Rightarrow> bool" where
  "form_post rq \<longleftrightarrow> read_oauth_body rq = Inr () \<and>
     rq_headers rq ''content-type'' = Some ''application/x-www-form-urlencoded'' \<and> rq_headers rq ''authorization'' = None"

lemma form_type:
  "lower_str (strip_str (first_part (CHR '';'') ''application/x-www-form-urlencoded'')) = ''application/x-www-form-urlencoded''"
  "lower_str ''application/x-www-form-urlencoded'' = ''application/x-www-form-urlencoded''"
  by code_simp+

lemma form_post_type:
  assumes "form_post rq"
  shows "lower_str (get_content_type rq) = ''application/x-www-form-urlencoded''"
    "lower_str (strip_str (first_part (CHR '';'') (header (http_req.truncate rq) ''content-type''))) = ''application/x-www-form-urlencoded''"
    "header (http_req.truncate rq) ''authorization'' = []"
  using assms by (simp_all add: form_post_def get_content_type_def header_def form_type http_req.defs ch_lower_def ch_code_def)

lemma authorize_grants:
  assumes "form_post rq" "rq_form rq = authorize_form cid uri ch st res (cf_password cfg)"
    and "map_of (cf_clients cfg) cid = Some c" "uri \<in> set (oc_redirects c)" "valid_pkce_challenge ch"
    and "rstrip_slash res = oauth_base_url (oe_bracket env) (cf_server_url cfg) (http_req.truncate rq)"
    and "isascii (cf_password cfg)"
  shows "handle_oauth_authorize_post env code now rq (Some cfg) =
    (Found (redirect_location uri code st),
     Some (store_code code now \<lparr>pc_challenge = ch, pc_client = cid, pc_redirect = uri, pc_state = st,
        pc_expires_at = now + OAUTH_CODE_TTL_SECONDS, pc_server_url = rstrip_slash res, pc_resource = rstrip_slash res\<rparr> cfg))"
proof -
  have "read_oauth_body rq = Inr ()" using assms(1) by (simp add: form_post_def)
  with assms(2-7) form_post_type(1) [OF assms(1)] show ?thesis
    by (simp add: handle_oauth_authorize_post_def authorize_form_value accepts_redirect_def Let_def
        compare_digest_def code_data_def)
qed

lemma token_grants:
  assumes "form_post rq" "rq_form rq = token_form cid uri code v res"
    and "map_of (cf_clients cfg) cid = Some c" "oc_method c = ''none''" "code \<noteq> []"
    and "map_of (cf_pending cfg) code = Some d"
    and "check_code env now cid uri (rstrip_slash res) v d = Inr None"
  shows "handle_oauth_token env now rq (Some cfg) =
    (Json 200 (token_payload env cfg (rstrip_slash res) cid now),
     Some (cfg\<lparr>cf_pending := dict_del code (cf_pending cfg)\<rparr>))"
proof -
  have b: "read_oauth_body rq = Inr ()" using assms(1) by (simp add: form_post_def)
  have cred: "token_credentials env rq = (cid, [], ''none'')"
    using assms(2) form_post_type(3) [OF assms(1)]
    by (simp add: token_credentials_def token_form_value Let_def startswith_def)
  have "valid_verifier v" using assms(7) by (simp add: check_code_passed)
  with assms(2-7) b cred form_post_type(2) [OF assms(1)] show ?thesis
    by (simp add: handle_oauth_token_def token_form_value Let_def authenticates_def verifies_secret_def token_payload_def)
qed

lemma token_replay_refused:
  assumes "form_post rq" "rq_form rq = token_form cid uri code v res"
    and "map_of (cf_clients cfg) cid = Some c" "oc_method c = ''none''" "code \<noteq> []" "valid_verifier v"
    and "map_of (cf_pending cfg) code = None"
  shows "handle_oauth_token env now rq (Some cfg) =
    (oauth_error ''invalid_grant'' ''Unknown or already-used authorization code'', Some cfg)"
proof -
  have b: "read_oauth_body rq = Inr ()" using assms(1) by (simp add: form_post_def)
  have cred: "token_credentials env rq = (cid, [], ''none'')"
    using assms(2) form_post_type(3) [OF assms(1)]
    by (simp add: token_credentials_def token_form_value Let_def startswith_def)
  from assms(2-7) b cred form_post_type(2) [OF assms(1)] show ?thesis
    by (simp add: handle_oauth_token_def token_form_value Let_def authenticates_def verifies_secret_def)
qed

section \<open>Theorems\<close>

text \<open>
  C4: every access token goes back to one approved authorization.  In any history of the server,
  a token response is preceded by an authorization exchange that issued the presented code for the
  configured password, at most 300 seconds before, to the same client, redirect URI and resource,
  with a challenge that is the S256 digest of the presented verifier; and between the two no other
  token response was given for this code.
\<close>

theorem token_requires_authorization:
  assumes "oa.reach env (cfg, h)" "i < length h" "h ! i = (EvToken now rq, Json 200 ob)"
  shows "\<exists>j t rq' loc. j < i \<and>
    h ! j = (EvAuthorize (first_form_value (rq_form rq) ''code'') t rq', Found loc) \<and>
    first_form_value (rq_form rq') ''password'' = cf_password cfg \<and>
    now \<le> t + OAUTH_CODE_TTL_SECONDS \<and>
    first_form_value (rq_form rq') ''client_id'' = fst (token_credentials env rq) \<and>
    first_form_value (rq_form rq') ''redirect_uri'' = first_form_value (rq_form rq) ''redirect_uri'' \<and>
    rstrip_slash (first_form_value (rq_form rq') ''resource'') = rstrip_slash (first_form_value (rq_form rq) ''resource'') \<and>
    first_form_value (rq_form rq') ''code_challenge'' = s256 env (first_form_value (rq_form rq) ''code_verifier'') \<and>
    (\<forall>k. j < k \<and> k < i \<longrightarrow> \<not> redeems (h ! k) (first_form_value (rq_form rq) ''code''))"
proof -
  have "token_justified env (cf_server_url cfg) (cf_password cfg) (take i h) now rq"
    using reach_oauth_inv [OF assms(1)] assms(2,3) by (simp add: oauth_inv_def)
  then obtain d where iu: "issued_unused env (cf_server_url cfg) (cf_password cfg) (take i h) (first_form_value (rq_form rq) ''code'') d"
    and d: "now \<le> pc_expires_at d" "pc_client d = fst (token_credentials env rq)"
      "pc_redirect d = first_form_value (rq_form rq) ''redirect_uri''"
      "pc_resource d = rstrip_slash (first_form_value (rq_form rq) ''resource'')"
      "pc_challenge d = s256 env (first_form_value (rq_form rq) ''code_verifier'')"
    by (auto simp: token_justified_def)
  from iu obtain j t rq' loc where j: "j < i" "h ! j = (EvAuthorize (first_form_value (rq_form rq) ''code'') t rq', Found loc)"
      "first_form_value (rq_form rq') ''password'' = cf_password cfg"
      "d = code_data (oauth_base_url (oe_bracket env) (cf_server_url cfg) (http_req.truncate rq')) t (rq_form rq')"
      "\<forall>k. j < k \<and> k < i \<longrightarrow> \<not> redeems (h ! k) (first_form_value (rq_form rq) ''code'')"
    using assms(2) by (auto simp: issued_unused_def issues_def)
  with d show ?thesis by (intro exI [of _ j] exI [of _ t] exI [of _ rq'] exI [of _ loc]) (simp add: code_data_def Let_def)
qed

text \<open>A server with one public client, and the requests of its authorization.\<close>

definition demo_cfg :: OAuthConfig where
  "demo_cfg = \<lparr>cf_password = ''pw'', cf_server_url = Some ''https://s'', cf_token_secret = [], cf_token_ttl = 900,
     cf_clients = [(''c'', \<lparr>oc_id = ''c'', oc_redirects = [''https://a/cb''], oc_method = ''none'', oc_name = None,
        oc_digest = None, oc_issued_at = 0\<rparr>)], cf_pending = []\<rparr>"

text \<open>
  The JWT package by what its documentation promises.  A token encoded from string and integer claims
  is decoded with the same key to these claims while it is current: the audience and the issuer are
  the expected ones, the subject is a string, the time of issue has come and the expiry has not.
  A token that is not yet or no longer current promises nothing.
\<close>

definition claims_current :: "obj \<Rightarrow> string \<Rightarrow> string \<Rightarrow> int \<Rightarrow> bool" where
  "claims_current claims aud iss now \<longleftrightarrow>
     obj_get claims ''aud'' = JStr aud \<and> obj_get claims ''iss'' = JStr iss \<and>
     (case (obj_get claims ''sub'', obj_get claims ''iat'', obj_get claims ''exp'') of
        (JStr _, JInt iat, JInt ex) \<Rightarrow> iat \<le> now \<and> now < ex
      | _ \<Rightarrow> False)"

definition flat_claims :: "obj \<Rightarrow> bool" where
  "flat_claims claims \<longleftrightarrow> distinct (map fst claims) \<and>
     list_all (\<lambda>(k, v). case v of JStr _ \<Rightarrow> True | JInt _ \<Rightarrow> True | _ \<Rightarrow> False) claims"

definition jwt_documented :: "oauth_env \<Rightarrow> bool" where
  "jwt_documented env \<longleftrightarrow>
     (\<forall>claims key aud iss now. flat_claims claims \<and> claims_current claims aud iss now \<longrightarrow>
        oe_jwt_decode env (oe_jwt_encode env claims key) key aud iss now = Some claims)"

text \<open>A token format with these promises: the fields of the claims, each character marked.\<close>

definition field_text :: "string \<Rightarrow> string" where
  "field_text s = concat (map (\<lambda>c. [CHR ''+'', c]) s) @ ''--''"

fun text_fields :: "string \<Rightarrow> string \<Rightarrow> string list" where
  "text_fields acc (a # c # r) = (if a = CHR ''+'' then text_fields (acc @ [c]) r else acc # text_fields [] r)"
| "text_fields acc _ = []"

fun claim_fields :: "string \<times> json \<Rightarrow> string list" where
  "claim_fields (k, JStr s) = [k, ''s'', s]"
| "claim_fields (k, JInt i) = [k, if i < 0 then ''-'' else ''+'', replicate (nat \<bar>i\<bar>) (CHR ''1'')]"
| "claim_fields (k, v) = []"

fun fields_claims :: "string list \<Rightarrow> obj" where
  "fields_claims (k # t # v # r) =
     (k, if t = ''s'' then JStr v else if t = ''-'' then JInt (- int (length v)) else JInt (int (length v))) # fields_claims r"
| "fields_claims _ = []"

definition demo_encode :: "obj \<Rightarrow> bytes \<Rightarrow> string" where
  "demo_encode claims key = concat (map field_text (concat (map claim_fields claims)))"

definition demo_decode :: "string \<Rightarrow> bytes \<Rightarrow> string \<Rightarrow> string \<Rightarrow> int \<Rightarrow> obj option" where
  "demo_decode tok key aud iss now =
     (let claims = fields_claims (text_fields [] tok) in if claims_current claims aud iss now then Some claims else None)"

lemma text_fields_field: "text_fields acc (field_text s @ r) = (acc @ s) # text_fields [] r"
  by (induction s arbitrary: acc) (simp_all add: field_text_def)

lemma text_fields_fields: "text_fields [] (concat (map field_text fs)) = fs"
  using text_fields_field [of "[]"] by (induction fs) (simp_all add: field_text_def)

lemma fields_claims_fields: "flat_claims claims \<Longrightarrow> fields_claims (concat (map claim_fields claims)) = claims"
proof (induction claims)
  case (Cons c claims)
  then have "fields_claims (concat (map claim_fields claims)) = claims" by (simp add: flat_claims_def)
  with Cons.prems show ?case by (cases c) (auto simp: flat_claims_def split: json.splits)
qed simp

definition demo_env :: oauth_env where
  "demo_env = \<lparr>oe_sha256 = (\<lambda>b. replicate 32 0), oe_bracket = (\<lambda>h. False), oe_jwt_encode = demo_encode,
     oe_jwt_decode = demo_decode, oe_basic = (\<lambda>h. None)\<rparr>"

lemma demo_jwt: "jwt_documented demo_env"
  by (simp add: jwt_documented_def demo_env_def demo_encode_def demo_decode_def text_fields_fields fields_claims_fields)

definition demo_verifier :: string where
  "demo_verifier = replicate 43 (CHR ''v'')"

definition demo_req :: "form \<Rightarrow> oauth_req" where
  "demo_req f = \<lparr>rq_path = [], rq_headers = [''content-type'' \<mapsto> ''application/x-www-form-urlencoded'', ''content-length'' \<mapsto> ''99''],
     rq_trust_proxy = False, rq_allowed_origins = [], rq_bind_host = [], rq_bind_port = 0,
     rq_query = [], rq_form = f, rq_json = None\<rparr>"

definition demo_authorize :: oauth_req where
  "demo_authorize = demo_req (authorize_form ''c'' ''https://a/cb'' (s256 demo_env demo_verifier) [] ''https://s'' ''pw'')"

definition demo_token :: oauth_req where
  "demo_token = demo_req (token_form ''c'' ''https://a/cb'' ''k'' demo_verifier ''https://s'')"

lemma demo_sha: "length (oe_sha256 demo_env b) = 32"
  by (simp add: demo_env_def)

lemma demo_posts: "form_post demo_authorize" "form_post demo_token"
  by (simp_all add: form_post_def demo_authorize_def demo_token_def demo_req_def read_oauth_body_def) code_simp+

lemma demo_verifier_valid: "valid_verifier demo_verifier"
  by code_simp

lemma demo_forms:
  "rq_form demo_authorize = authorize_form ''c'' ''https://a/cb'' (s256 demo_env demo_verifier) [] ''https://s'' (cf_password demo_cfg)"
  "rq_form demo_token = token_form ''c'' ''https://a/cb'' ''k'' demo_verifier ''https://s''"
  by (simp_all add: demo_authorize_def demo_token_def demo_req_def demo_cfg_def)

lemma demo_clients: "map_of (cf_clients demo_cfg) ''c'' = Some \<lparr>oc_id = ''c'', oc_redirects = [''https://a/cb''], oc_method = ''none'',
    oc_name = None, oc_digest = None, oc_issued_at = 0\<rparr>"
  by (simp add: demo_cfg_def)

lemma demo_base: "rstrip_slash ''https://s'' = ''https://s''"
  "oauth_base_url br (cf_server_url demo_cfg) rq = ''https://s''"
  by (simp_all add: demo_cfg_def oauth_base_url_def rstrip_slash_def rstrip_by_def)

definition demo_code :: pending_code where
  "demo_code = \<lparr>pc_challenge = s256 demo_env demo_verifier, pc_client = ''c'', pc_redirect = ''https://a/cb'', pc_state = [],
     pc_expires_at = 0 + OAUTH_CODE_TTL_SECONDS, pc_server_url = ''https://s'', pc_resource = ''https://s''\<rparr>"

lemma demo_run:
  "oa.reach demo_env (demo_cfg,
     [(EvAuthorize ''k'' 0 demo_authorize, Found (redirect_location ''https://a/cb'' ''k'' [])),
      (EvToken 1 demo_token, Json 200 (token_payload demo_env demo_cfg ''https://s'' ''c'' 1))])"
proof -
  let ?c1 = "store_code ''k'' 0 demo_code demo_cfg"
  have asc: "isascii (cf_password demo_cfg)" "isascii ''c''" "isascii ''https://a/cb''" "isascii ''https://s''"
    by (simp_all add: isascii_def demo_cfg_def ch_code_def)
  note ch = s256_valid [OF demo_sha, of demo_verifier]
  have a: "handle_oauth_authorize_post demo_env ''k'' 0 demo_authorize (Some demo_cfg) =
      (Found (redirect_location ''https://a/cb'' ''k'' []), Some ?c1)"
    using authorize_grants [OF demo_posts(1) demo_forms(1) demo_clients, of demo_env "''k''" 0] ch asc(1)
    by (simp add: demo_base demo_code_def)
  have c1: "?c1 = demo_cfg\<lparr>cf_pending := [(''k'', demo_code)]\<rparr>" by (simp add: store_code_def demo_cfg_def)
  have "check_code demo_env 1 ''c'' ''https://a/cb'' ''https://s'' demo_verifier demo_code = Inr None"
    using ch asc demo_verifier_valid by (simp add: check_code_passed demo_code_def OAUTH_CODE_TTL_SECONDS_def)
  then have t: "handle_oauth_token demo_env 1 demo_token (Some ?c1) =
      (Json 200 (token_payload demo_env demo_cfg ''https://s'' ''c'' 1), Some demo_cfg)"
    using token_grants [OF demo_posts(2) demo_forms(2), of ?c1 _ demo_code demo_env 1] demo_clients
    by (simp add: demo_base c1 dict_del_def token_payload_def create_access_token_def token_claims_def) (simp add: demo_cfg_def)
  have "oa.reach demo_env (demo_cfg, [])" by (rule oa.reach_start) (simp add: oauth_start_def demo_cfg_def)
  then have "oa.reach demo_env (?c1, [(EvAuthorize ''k'' 0 demo_authorize, Found (redirect_location ''https://a/cb'' ''k'' []))])"
    by (rule oa.reach_step) (use oauth_step.intros [of demo_env "EvAuthorize ''k'' 0 demo_authorize" demo_cfg _ ?c1 "[]"] a in simp)
  then show ?thesis
    by (rule oa.reach_step) (use oauth_step.intros [of demo_env "EvToken 1 demo_token" ?c1 _ demo_cfg
        "[(EvAuthorize ''k'' 0 demo_authorize, Found (redirect_location ''https://a/cb'' ''k'' []))]"] t in simp)
qed

theorem token_requires_authorization_witness:
  "\<exists>h i ob j t rq' loc. i < length h \<and> h ! i = (EvToken 1 demo_token, Json 200 ob) \<and> j < i \<and>
     h ! j = (EvAuthorize ''k'' t rq', Found loc) \<and> first_form_value (rq_form rq') ''password'' = ''pw''"
proof -
  let ?h = "[(EvAuthorize ''k'' 0 demo_authorize, Found (redirect_location ''https://a/cb'' ''k'' [])),
      (EvToken 1 demo_token, Json 200 (token_payload demo_env demo_cfg ''https://s'' ''c'' 1))]"
  have i: "1 < length ?h" "?h ! 1 = (EvToken 1 demo_token, Json 200 (token_payload demo_env demo_cfg ''https://s'' ''c'' 1))"
    by simp_all
  have "first_form_value (rq_form demo_token) ''code'' = ''k''" "cf_password demo_cfg = ''pw''"
    by (simp_all add: demo_forms token_form_value demo_cfg_def)
  with token_requires_authorization [OF demo_run i] i show ?thesis by metis
qed

text \<open>
  C12: a conforming public client gets its token.  With a challenge derived from its verifier by
  S256, the right password and the server's own URL as resource, the authorization redirects back
  with the code; the token request with the verifier within 300 seconds is answered with a token
  that the server accepts from its issue until it expires; and a second request with the same code
  is refused.  The hash has 32 bytes, and the JWT package decodes what it has encoded while the token
  is current, which the claims written by the server have to make it.
\<close>

theorem conforming_client_served:
  assumes "length (oe_sha256 env (str_bytes v)) = 32" "valid_verifier v"
    and jwt: "jwt_documented env"
    and "form_post rq1" "rq_form rq1 = authorize_form cid uri (s256 env v) st res (cf_password cfg)"
    and "form_post rq2" "rq_form rq2 = token_form cid uri code v res"
    and "map_of (cf_clients cfg) cid = Some c" "uri \<in> set (oc_redirects c)" "oc_method c = ''none''"
    and "rstrip_slash res = oauth_base_url (oe_bracket env) (cf_server_url cfg) (http_req.truncate rq1)" "rstrip_slash res \<noteq> []"
    and "isascii (cf_password cfg)" "isascii cid" "isascii uri" "isascii res" "code \<noteq> []"
    and "t' \<le> t + OAUTH_CODE_TTL_SECONDS"
  shows "\<exists>cfg1 cfg2 tok. handle_oauth_authorize_post env code t rq1 (Some cfg) = (Found (redirect_location uri code st), Some cfg1) \<and>
    handle_oauth_token env t' rq2 (Some cfg1) =
      (Json 200 [(''access_token'', JStr tok), (''token_type'', JStr ''Bearer''), (''expires_in'', JInt (cf_token_ttl cfg))], Some cfg2) \<and>
    (\<forall>now. \<lfloor>t'\<rfloor> \<le> now \<and> now < \<lfloor>t'\<rfloor> + cf_token_ttl cfg \<longrightarrow> validate_access_token env tok cfg2 (rstrip_slash res) now) \<and>
    handle_oauth_token env t' rq2 (Some cfg2) =
      (oauth_error ''invalid_grant'' ''Unknown or already-used authorization code'', Some cfg2)"
proof -
  let ?d = "\<lparr>pc_challenge = s256 env v, pc_client = cid, pc_redirect = uri, pc_state = st,
        pc_expires_at = t + OAUTH_CODE_TTL_SECONDS, pc_server_url = rstrip_slash res, pc_resource = rstrip_slash res\<rparr>"
  let ?cfg1 = "store_code code t ?d cfg"
  let ?cfg2 = "?cfg1\<lparr>cf_pending := dict_del code (cf_pending ?cfg1)\<rparr>"
  let ?claims = "token_claims ?cfg1 (rstrip_slash res) cid \<lfloor>t'\<rfloor>"
  note ch = s256_valid [OF assms(1)]
  have asc: "isascii (rstrip_slash res)"
    using assms(16) set_rstrip_slash [of res] by (auto simp: isascii_def list_all_iff)
  have a: "handle_oauth_authorize_post env code t rq1 (Some cfg) = (Found (redirect_location uri code st), Some ?cfg1)"
    by (rule authorize_grants) (use assms ch in auto)
  have cl: "cf_clients ?cfg1 = cf_clients cfg" "cf_token_ttl ?cfg1 = cf_token_ttl cfg" by (simp_all add: store_code_def)
  have t: "handle_oauth_token env t' rq2 (Some ?cfg1) = (Json 200 (token_payload env ?cfg1 (rstrip_slash res) cid t'), Some ?cfg2)"
  proof (rule token_grants [OF assms(6,7)])
    show "map_of (cf_clients ?cfg1) cid = Some c" using assms(8) cl by simp
    show "map_of (cf_pending ?cfg1) code = Some ?d" by (simp add: store_code_def)
    show "check_code env t' cid uri (rstrip_slash res) v ?d = Inr None"
      using assms ch asc by (simp add: check_code_passed)
  qed (use assms in auto)
  have r: "handle_oauth_token env t' rq2 (Some ?cfg2) =
      (oauth_error ''invalid_grant'' ''Unknown or already-used authorization code'', Some ?cfg2)"
    by (rule token_replay_refused [OF assms(6,7)]) (use assms(2,8,10,17) cl in auto)
  have "flat_claims ?claims" by (simp add: flat_claims_def token_claims_def)
  moreover have "claims_current ?claims (rstrip_slash res) (rstrip_slash res) now"
    if "\<lfloor>t'\<rfloor> \<le> now" "now < \<lfloor>t'\<rfloor> + cf_token_ttl cfg" for now
    using that cl by (simp add: claims_current_def token_claims_def obj_get_def)
  ultimately have "validate_access_token env (create_access_token env ?cfg1 (rstrip_slash res) cid \<lfloor>t'\<rfloor>) ?cfg2 (rstrip_slash res) now"
    if "\<lfloor>t'\<rfloor> \<le> now" "now < \<lfloor>t'\<rfloor> + cf_token_ttl cfg" for now
    using that jwt assms(8) cl unfolding jwt_documented_def
    by (simp add: validate_access_token_def create_access_token_def) (simp add: token_claims_def obj_get_def)
  with a t r show ?thesis
    by (intro exI [of _ ?cfg1] exI [of _ ?cfg2] exI [of _ "create_access_token env ?cfg1 (rstrip_slash res) cid \<lfloor>t'\<rfloor>"])
       (simp add: token_payload_def cl)
qed

theorem conforming_client_served_witness:
  "\<exists>cfg1 cfg2 tok. handle_oauth_authorize_post demo_env ''k'' 0 demo_authorize (Some demo_cfg) =
      (Found (redirect_location ''https://a/cb'' ''k'' []), Some cfg1) \<and>
    handle_oauth_token demo_env 1 demo_token (Some cfg1) =
      (Json 200 [(''access_token'', JStr tok), (''token_type'', JStr ''Bearer''), (''expires_in'', JInt 900)], Some cfg2) \<and>
    validate_access_token demo_env tok cfg2 ''https://s'' 800"
proof -
  have sec: "cf_token_ttl demo_cfg = 900" by (simp add: demo_cfg_def)
  have "\<exists>cfg1 cfg2 tok. handle_oauth_authorize_post demo_env ''k'' 0 demo_authorize (Some demo_cfg) =
      (Found (redirect_location ''https://a/cb'' ''k'' []), Some cfg1) \<and>
    handle_oauth_token demo_env 1 demo_token (Some cfg1) =
      (Json 200 [(''access_token'', JStr tok), (''token_type'', JStr ''Bearer''), (''expires_in'', JInt (cf_token_ttl demo_cfg))], Some cfg2) \<and>
    (\<forall>now. \<lfloor>1 :: real\<rfloor> \<le> now \<and> now < \<lfloor>1 :: real\<rfloor> + cf_token_ttl demo_cfg \<longrightarrow> validate_access_token demo_env tok cfg2 (rstrip_slash ''https://s'') now) \<and>
    handle_oauth_token demo_env 1 demo_token (Some cfg2) =
      (oauth_error ''invalid_grant'' ''Unknown or already-used authorization code'', Some cfg2)"
    by (rule conforming_client_served [OF demo_sha demo_verifier_valid demo_jwt demo_posts(1) _ demo_posts(2) demo_forms(2) demo_clients])
       (simp_all add: demo_base demo_forms demo_env_def sec OAUTH_CODE_TTL_SECONDS_def isascii_def, simp_all add: demo_cfg_def ch_code_def)
  then show ?thesis by (auto simp: sec demo_base)
qed

text \<open>A registration whose first identifier is taken by the registered client.\<close>

definition demo_registration :: oauth_req where
  "demo_registration = (demo_req [])\<lparr>rq_headers := [''content-type'' \<mapsto> ''application/json'', ''content-length'' \<mapsto> ''99''],
     rq_json := Some (JObj [(''redirect_uris'', JList [JStr ''https://b/cb'']), (''token_endpoint_auth_method'', JStr ''none'')])\<rparr>"

definition demo_registered :: obj where
  "demo_registered = [(''client_id'', JStr ''d''), (''client_id_issued_at'', JInt 7),
     (''redirect_uris'', JList [JStr ''https://b/cb'']), (''grant_types'', JList [JStr ''authorization_code'']),
     (''response_types'', JList [JStr ''code'']), (''token_endpoint_auth_method'', JStr ''none'')]"

lemma demo_registers:
  "\<exists>cfg'. handle_oauth_register demo_env (''c'' # ''d'' # ts) ''s'' 7 demo_registration (Some demo_cfg) =
     Some (Json 201 demo_registered, Some cfg') \<and> map_of (cf_clients cfg') ''d'' \<noteq> None"
proof -
  let ?md = "[(''redirect_uris'', JList [JStr ''https://b/cb'']), (''token_endpoint_auth_method'', JStr ''none'')]"
  have rq: "read_oauth_body demo_registration = Inr ()" "rq_json demo_registration = Some (JObj ?md)"
    "lower_str (get_content_type demo_registration) = ''application/json''"
    by (simp_all add: demo_registration_def demo_req_def read_oauth_body_def get_content_type_def) code_simp+
  have md: "validate_redirect_uris (oe_bracket demo_env) (obj_get ?md ''redirect_uris'') = Inr [''https://b/cb'']"
    "narrow_types ?md ''grant_types'' OAUTH_GRANT_TYPES_SUPPORTED = Inr [''authorization_code'']"
    "narrow_types ?md ''response_types'' OAUTH_RESPONSE_TYPES_SUPPORTED = Inr [''code'']"
    "auth_method ?md = Inr ''none''" "optional_text (obj_get ?md ''client_name'') 200 = None"
    by (code_simp, code_simp, code_simp, code_simp, code_simp)
  have cl: "draw_client_id (''c'' # ''d'' # ts) (cf_clients demo_cfg) = Some ''d''" "length (cf_clients demo_cfg) < MAX_REGISTERED_CLIENTS"
    by (simp_all add: demo_cfg_def MAX_REGISTERED_CLIENTS_def)
  show ?thesis
    using cl by (simp add: handle_oauth_register_def rq register_client_def md registration_reply_def registration_json_def
        demo_registered_def Let_def del: draw_client_id.simps)
qed

text \<open>
  C38: dynamic registration ends and disturbs nobody.  Whatever the request, a registration returns
  when as many distinct identifiers are drawn as the registry may hold clients; afterwards every
  client that was registered is registered unchanged, and the registry has not grown beyond its
  limit.
\<close>

theorem registration_returns:
  assumes "distinct draws" "MAX_REGISTERED_CLIENTS \<le> length draws"
  shows "\<exists>r cfg'. handle_oauth_register env draws secret now rq (Some cfg) = Some (r, Some cfg') \<and>
    (\<forall>k. map_of (cf_clients cfg) k \<noteq> None \<longrightarrow> map_of (cf_clients cfg') k = map_of (cf_clients cfg) k) \<and>
    length (cf_clients cfg') \<le> max (length (cf_clients cfg)) MAX_REGISTERED_CLIENTS"
proof -
  let ?ok = "\<lambda>cfg'. (\<forall>k. map_of (cf_clients cfg) k \<noteq> None \<longrightarrow> map_of (cf_clients cfg') k = map_of (cf_clients cfg) k) \<and>
    length (cf_clients cfg') \<le> max (length (cf_clients cfg)) MAX_REGISTERED_CLIENTS"
  have reg: "\<exists>z. register_client env draws secret now md (cf_clients cfg) = Some z \<and>
      (\<exists>r cfg'. registration_reply cfg z = (r, Some cfg') \<and> ?ok cfg')" for md
  proof (cases "register_client env draws secret now md (cf_clients cfg)")
    case None
    then show ?thesis
      using draw_client_id_some [OF assms(1), of "cf_clients cfg"] assms(2)
      by (auto simp: register_client_def result_simps split: sum.splits if_splits)
  next
    case (Some z)
    have "\<exists>r cfg'. registration_reply cfg z = (r, Some cfg') \<and> ?ok cfg'"
    proof (cases z)
      case (Inl e)
      then show ?thesis by (cases e) (simp_all add: registration_reply_def)
    next
      case (Inr p)
      obtain g cs where p: "p = (g, cs)" by (cases p)
      obtain cid cl where c: "cs = dict_set cid cl (cf_clients cfg)" "length (cf_clients cfg) < MAX_REGISTERED_CLIENTS"
        "draw_client_id draws (cf_clients cfg) = Some cid"
        using Some Inr p by (auto simp: register_client_def result_simps Let_def split: sum.splits if_splits)
      have "map_of (cf_clients cfg) cid = None"
        using draw_client_id_some [OF assms(1), of "cf_clients cfg"] c(2,3) assms(2) by auto
      then show ?thesis using c Inr p by (auto simp: registration_reply_def length_dict_set)
    qed
    with Some show ?thesis by blast
  qed
  have same: "\<exists>r' cfg'. Some (r, Some cfg) = Some (r', Some cfg') \<and> ?ok cfg'" for r :: oauth_resp by simp
  show ?thesis
  proof (cases "rq_json rq")
    case (Some v)
    then show ?thesis
    proof (cases v)
      case (JObj md)
      from reg [of md] Some JObj same show ?thesis
        by (auto simp: handle_oauth_register_def split: sum.splits)
    qed (auto simp: handle_oauth_register_def split: sum.splits)
  qed (auto simp: handle_oauth_register_def split: sum.splits)
qed

theorem registration_returns_witness:
  "\<exists>ob cfg'. handle_oauth_register demo_env (''c'' # ''d'' # map (\<lambda>n. replicate n (CHR ''a'')) [0..<1024]) ''s'' 7
      demo_registration (Some demo_cfg) = Some (Json 201 ob, Some cfg') \<and>
    obj_get ob ''client_id'' = JStr ''d'' \<and> map_of (cf_clients cfg') ''d'' \<noteq> None \<and>
    map_of (cf_clients cfg') ''c'' = map_of (cf_clients demo_cfg) ''c'' \<and> map_of (cf_clients demo_cfg) ''c'' \<noteq> None"
proof -
  let ?xs = "map (\<lambda>n. replicate n (CHR ''a'')) [0..<1024]"
  have "inj_on (\<lambda>n. replicate n (CHR ''a'')) (set [0..<1024])" by (rule inj_onI) (metis length_replicate)
  moreover have "''c'' \<notin> set ?xs" "''d'' \<notin> set ?xs" by (auto simp: Cons_replicate_eq)
  ultimately have d: "distinct (''c'' # ''d'' # ?xs)" by (simp add: distinct_map)
  have l: "MAX_REGISTERED_CLIENTS \<le> length (''c'' # ''d'' # ?xs)"
    unfolding list.size length_map length_upt MAX_REGISTERED_CLIENTS_def by simp
  obtain cfg' where c: "handle_oauth_register demo_env (''c'' # ''d'' # ?xs) ''s'' 7 demo_registration (Some demo_cfg) =
      Some (Json 201 demo_registered, Some cfg')" "map_of (cf_clients cfg') ''d'' \<noteq> None"
    using demo_registers [of ?xs] by blast
  with registration_returns [OF d l, of demo_env "''s''" 7 demo_registration demo_cfg]
  have "map_of (cf_clients cfg') ''c'' = map_of (cf_clients demo_cfg) ''c''"
    by (auto simp: demo_clients)
  with c show ?thesis
    by (intro exI [of _ demo_registered] exI [of _ cfg']) (simp add: demo_clients demo_registered_def obj_get_def)
qed

text \<open>
  The login page cannot be marked up from outside.  Whatever the client identifier, the redirect
  URI, the other fields of the request and the error text are, the angle brackets and quotes of the
  page are exactly those of the page with all fields empty.
\<close>

theorem login_page_markup_fixed:
  "filter is_markup (oauth_login_page client_id redirect_uri code_challenge meth state resource error) =
   filter is_markup (oauth_login_page [] [] [] [] [] [] (if error = [] then [] else ''x''))"
proof -
  have h: "filter is_markup (hidden_field n v) = filter is_markup (hidden_field n [])" for n v
    by (rule filter_markup_hidden)
  note rules = filter_append filter_markup_esc h [of _ client_id] h [of _ redirect_uri] h [of _ code_challenge]
    h [of _ meth] h [of _ state] h [of _ resource] append_Nil
  show ?thesis
  proof (cases "error = []")
    case True
    then show ?thesis
      unfolding oauth_login_page_def by (simp only: rules simp_thms if_True if_False filter.simps(1))
  next
    case False
    then show ?thesis
      unfolding oauth_login_page_def by (simp only: rules simp_thms if_True if_False list.distinct not_False_eq_True)
  qed
qed

text \<open>
  A password with a character outside ASCII is not refused: the comparison raises and the request
  gets no answer, even when the configured password is the same string.
\<close>

lemma non_ascii_password_raises:
  assumes "form_post rq" "rq_form rq = authorize_form cid uri ch st res pw" "\<not> isascii pw"
    and "map_of (cf_clients cfg) cid = Some c" "uri \<in> set (oc_redirects c)" "valid_pkce_challenge ch"
    and "rstrip_slash res = oauth_base_url (oe_bracket env) (cf_server_url cfg) (http_req.truncate rq)"
  shows "handle_oauth_authorize_post env code now rq (Some cfg) = (Raise TypeError, Some cfg)"
proof -
  have "read_oauth_body rq = Inr ()" using assms(1) by (simp add: form_post_def)
  with assms(2-7) form_post_type(1) [OF assms(1)] show ?thesis
    by (simp add: handle_oauth_authorize_post_def authorize_form_value accepts_redirect_def Let_def compare_digest_def)
qed

end
