(* ===== verification/Protocol.thy ===== *)
theory Protocol
  imports PyStr
begin

text \<open>
  The JSON-RPC layer: \<open>coding_tools_mcp/protocol.py\<close> and the standard-stream transport
  \<open>coding_tools_mcp/transport_stdio.py\<close>.  The runtime behind it is a record of operations on a
  state of its own, each of which may raise; the handshake fields \<^verbatim>\<open>initialized\<close> and
  \<^verbatim>\<open>protocol_version\<close> that the dispatcher itself reads and writes are explicit.  The version
  string of the package and the text of a foreign exception are parameters.
\<close>

section \<open>Envelopes\<close>

definition PROTOCOL_VERSION :: string where
  "PROTOCOL_VERSION = ''2025-11-25''"

definition SUPPORTED_PROTOCOL_VERSIONS :: "string list" where
  "SUPPORTED_PROTOCOL_VERSIONS = [PROTOCOL_VERSION, ''2025-06-18'']"

text \<open>A protocol failure with its code, message and data, or another exception with its text.\<close>

datatype rpc_exn = JsonRpcError int string "json option" | OtherExn string

definition jsonrpc_error :: "json \<Rightarrow> int \<Rightarrow> string \<Rightarrow> json option \<Rightarrow> obj" where
  "jsonrpc_error rid code msg data =
     [(''jsonrpc'', JStr ''2.0''), (''id'', rid),
      (''error'', JObj ([(''code'', JInt code), (''message'', JStr msg)]
         @ (case data of None \<Rightarrow> [] | Some d \<Rightarrow> if d = JNull then [] else [(''data'', d)])))]"

definition invalid_request_response :: obj where
  "invalid_request_response = jsonrpc_error JNull (-32600) ''Invalid Request'' None"

definition is_rpc_id :: "json \<Rightarrow> bool" where
  "is_rpc_id v = (case v of JStr _ \<Rightarrow> True | JInt _ \<Rightarrow> True | _ \<Rightarrow> False)"

definition response_id :: "obj \<Rightarrow> json" where
  "response_id request = (let v = obj_get request ''id'' in if is_rpc_id v then v else JNull)"

definition has_key :: "obj \<Rightarrow> string \<Rightarrow> bool" where
  "has_key ob k \<longleftrightarrow> map_of ob k \<noteq> None"

definition validate_rpc_envelope :: "obj \<Rightarrow> rpc_exn + unit" where
  "validate_rpc_envelope request =
     (if obj_get request ''jsonrpc'' \<noteq> JStr ''2.0'' then
        Inl (JsonRpcError (-32600) ''Invalid Request: jsonrpc must be 2.0''
               (Some (JObj [(''reason'', JStr ''jsonrpc_version'')])))
      else if (case obj_get request ''method'' of JStr m \<Rightarrow> m = [] | _ \<Rightarrow> True) then
        Inl (JsonRpcError (-32600) ''Invalid Request: method must be a string''
               (Some (JObj [(''reason'', JStr ''method'')])))
      else if has_key request ''id'' \<and> \<not> (obj_get request ''id'' = JNull \<or> is_rpc_id (obj_get request ''id'')) then
        Inl (JsonRpcError (-32600) ''Invalid Request: id must be string, integer, or null''
               (Some (JObj [(''reason'', JStr ''id'')])))
      else Inr ())"

text \<open>\<^verbatim>\<open>request["method"]\<close> of a validated request.\<close>

definition rpc_method :: "obj \<Rightarrow> string" where
  "rpc_method request = (case obj_get request ''method'' of JStr m \<Rightarrow> m | _ \<Rightarrow> [])"

definition rpc_params :: "obj \<Rightarrow> rpc_exn + obj" where
  "rpc_params request =
     (case obj_get request ''params'' of
        JNull \<Rightarrow> Inr []
      | JObj p \<Rightarrow> Inr p
      | _ \<Rightarrow> Inl (JsonRpcError (-32602) ''MCP method params must be an object'' None))"

definition protocol_version_is_supported :: "json \<Rightarrow> bool" where
  "protocol_version_is_supported v =
     (case v of JStr s \<Rightarrow> s \<in> set SUPPORTED_PROTOCOL_VERSIONS | _ \<Rightarrow> False)"

definition validate_initialize_params :: "obj \<Rightarrow> rpc_exn + string" where
  "validate_initialize_params params =
     (let requested = obj_get params ''protocolVersion'' in
      if requested = JNull then Inr PROTOCOL_VERSION
      else if \<not> protocol_version_is_supported requested then
        Inl (JsonRpcError (-32602) ''Unsupported MCP protocol version''
          (Some (JObj [(''supported'', JList (map JStr SUPPORTED_PROTOCOL_VERSIONS)), (''received'', requested)])))
      else Inr (case requested of JStr s \<Rightarrow> s | _ \<Rightarrow> []))"

definition validate_initialize_request :: "obj \<Rightarrow> rpc_exn + unit" where
  "validate_initialize_request request =
     (if obj_get request ''id'' = JNull then
        Inl (JsonRpcError (-32600) ''initialize must be a JSON-RPC request with a non-null id'' None)
      else Inr ())"

section \<open>The runtime behind the dispatcher\<close>

record 's runtime_state =
  ru_initialized :: bool
  ru_version :: string
  ru_inner :: 's

text \<open>
  The operations the dispatcher calls.  \<open>op_instructions\<close> is \<open>None\<close> for a runtime without
  \<^verbatim>\<open>server_instructions\<close>.
\<close>

record 's runtime_ops =
  op_initialize :: "obj option \<Rightarrow> 's \<Rightarrow> (rpc_exn + json) \<times> 's"
  op_list_tools :: "'s \<Rightarrow> (rpc_exn + json) \<times> 's"
  op_call_tool :: "string \<Rightarrow> obj \<Rightarrow> json \<Rightarrow> 's \<Rightarrow> (rpc_exn + json) \<times> 's"
  op_cancel :: "json \<Rightarrow> 's \<Rightarrow> (rpc_exn + unit) \<times> 's"
  op_instructions :: "('s \<Rightarrow> (rpc_exn + string) \<times> 's) option"
  op_close :: "'s \<Rightarrow> 's"
  op_version :: string

definition discover_result :: "string \<Rightarrow> string \<Rightarrow> json" where
  "discover_result version instructions =
     JObj ([(''supportedVersions'', JList (map JStr SUPPORTED_PROTOCOL_VERSIONS)),
            (''capabilities'', JObj [(''tools'', JObj [(''listChanged'', JBool False)])]),
            (''serverInfo'', JObj [(''name'', JStr ''devmcp-runtime''), (''title'', JStr ''DevMCP Runtime''),
                                   (''version'', JStr version), (''schemaVersion'', JStr ''2.0'')]),
            (''_meta'', JObj [(''io.modelcontextprotocol/serverInfo'',
                               JObj [(''name'', JStr ''devmcp-runtime''), (''version'', JStr version)])])]
           @ (if instructions = [] then [] else [(''instructions'', JStr instructions)]))"

text \<open>\<^verbatim>\<open>params.get("arguments") or {}\<close>.\<close>

definition call_arguments :: "obj \<Rightarrow> rpc_exn + obj" where
  "call_arguments params =
     (let v = obj_get params ''arguments'' in
      if json_falsy v then Inr []
      else case v of JObj a \<Rightarrow> Inr a | _ \<Rightarrow> Inl (JsonRpcError (-32602) ''tools/call arguments must be an object'' None))"

text \<open>
  The methods: \<open>Inr None\<close> is the early \<^verbatim>\<open>return None\<close> of a notification, \<open>Inr (Some r)\<close> the result.
\<close>

definition run_initialize :: "'s runtime_ops \<Rightarrow> obj \<Rightarrow> obj \<Rightarrow> 's runtime_state \<Rightarrow> (rpc_exn + json option) \<times> 's runtime_state" where
  "run_initialize ops request params rt =
     (if ru_initialized rt then (Inl (JsonRpcError (-32600) ''Server is already initialized'' None), rt)
      else case validate_initialize_request request of
        Inl e \<Rightarrow> (Inl e, rt)
      | Inr _ \<Rightarrow> (case validate_initialize_params params of
          Inl e \<Rightarrow> (Inl e, rt)
        | Inr v \<Rightarrow>
            (case op_initialize ops (case obj_get params ''clientInfo'' of JObj ci \<Rightarrow> Some ci | _ \<Rightarrow> None) (ru_inner rt) of
               (Inl e, s) \<Rightarrow> (Inl e, rt\<lparr>ru_version := v, ru_inner := s\<rparr>)
             | (Inr r, s) \<Rightarrow> (Inr (Some r), rt\<lparr>ru_version := v, ru_inner := s, ru_initialized := True\<rparr>))))"

definition run_cancelled :: "'s runtime_ops \<Rightarrow> obj \<Rightarrow> 's runtime_state \<Rightarrow> (rpc_exn + json option) \<times> 's runtime_state" where
  "run_cancelled ops params rt =
     (let rid = obj_get params ''requestId'' in
      if is_rpc_id rid then
        (case op_cancel ops rid (ru_inner rt) of
           (Inl e, s) \<Rightarrow> (Inl e, rt\<lparr>ru_inner := s\<rparr>)
         | (Inr _, s) \<Rightarrow> (Inr None, rt\<lparr>ru_inner := s\<rparr>))
      else (Inr None, rt))"

definition run_discover :: "'s runtime_ops \<Rightarrow> 's runtime_state \<Rightarrow> (rpc_exn + json option) \<times> 's runtime_state" where
  "run_discover ops rt =
     (case op_instructions ops of
        None \<Rightarrow> (Inr (Some (discover_result (op_version ops) [])), rt)
      | Some f \<Rightarrow>
          (case f (ru_inner rt) of
             (Inl e, s) \<Rightarrow> (Inl e, rt\<lparr>ru_inner := s\<rparr>)
           | (Inr i, s) \<Rightarrow> (Inr (Some (discover_result (op_version ops) i)), rt\<lparr>ru_inner := s\<rparr>)))"

definition run_call :: "'s runtime_ops \<Rightarrow> json \<Rightarrow> obj \<Rightarrow> 's runtime_state \<Rightarrow> (rpc_exn + json option) \<times> 's runtime_state" where
  "run_call ops rid params rt =
     (case obj_get params ''name'' of
        JStr name \<Rightarrow>
          (case call_arguments params of
             Inl e \<Rightarrow> (Inl e, rt)
           | Inr args \<Rightarrow>
               (case op_call_tool ops name args rid (ru_inner rt) of
                  (Inl e, s) \<Rightarrow> (Inl e, rt\<lparr>ru_inner := s\<rparr>)
                | (Inr r, s) \<Rightarrow> (Inr (Some r), rt\<lparr>ru_inner := s\<rparr>)))
      | _ \<Rightarrow> (Inl (JsonRpcError (-32602) ''tools/call requires a tool name'' None), rt))"

definition run_list :: "'s runtime_ops \<Rightarrow> 's runtime_state \<Rightarrow> (rpc_exn + json option) \<times> 's runtime_state" where
  "run_list ops rt =
     (case op_list_tools ops (ru_inner rt) of
        (Inl e, s) \<Rightarrow> (Inl e, rt\<lparr>ru_inner := s\<rparr>)
      | (Inr r, s) \<Rightarrow> (Inr (Some r), rt\<lparr>ru_inner := s\<rparr>))"

definition open_methods :: "string list" where
  "open_methods = [''initialize'', ''ping'', ''server/discover'']"

definition run_method :: "'s runtime_ops \<Rightarrow> obj \<Rightarrow> string \<Rightarrow> obj \<Rightarrow> 's runtime_state \<Rightarrow> (rpc_exn + json option) \<times> 's runtime_state" where
  "run_method ops request m params rt =
     (if \<not> ru_initialized rt \<and> m \<notin> set open_methods then
        (Inl (JsonRpcError (-32002) ''Server not initialized'' None), rt)
      else if m = ''initialize'' then run_initialize ops request params rt
      else if m = ''notifications/initialized'' then (Inr None, rt)
      else if m = ''notifications/cancelled'' then run_cancelled ops params rt
      else if m = ''ping'' then (Inr (Some (JObj [])), rt)
      else if m = ''server/discover'' then run_discover ops rt
      else if m = ''tools/list'' then run_list ops rt
      else if m = ''tools/call'' then run_call ops (obj_get request ''id'') params rt
      else (Inl (JsonRpcError (-32601) (''Unknown method: '' @ m) None), rt))"

text \<open>
  \<^verbatim>\<open>dispatch_rpc\<close>: a response, no response, or an exception of the runtime that is no protocol
  failure and leaves the function.
\<close>

definition rpc_result :: "json \<Rightarrow> json \<Rightarrow> obj" where
  "rpc_result rid r = [(''jsonrpc'', JStr ''2.0''), (''id'', rid), (''result'', r)]"

definition finish_rpc :: "obj \<Rightarrow> (rpc_exn + json option) \<Rightarrow> string + obj option" where
  "finish_rpc request r =
     (case r of
        Inl (JsonRpcError c m d) \<Rightarrow> Inr (Some (jsonrpc_error (response_id request) c m d))
      | Inl (OtherExn t) \<Rightarrow> Inl t
      | Inr None \<Rightarrow> Inr None
      | Inr (Some v) \<Rightarrow>
          if obj_get request ''id'' = JNull then Inr None
          else Inr (Some (rpc_result (obj_get request ''id'') v)))"

definition dispatch_rpc :: "'s runtime_ops \<Rightarrow> obj \<Rightarrow> 's runtime_state \<Rightarrow> (string + obj option) \<times> 's runtime_state" where
  "dispatch_rpc ops request rt =
     (case validate_rpc_envelope request of
        Inl e \<Rightarrow> (finish_rpc request (Inl e), rt)
      | Inr _ \<Rightarrow> (case rpc_params request of
          Inl e \<Rightarrow> (finish_rpc request (Inl e), rt)
        | Inr params \<Rightarrow>
            (case run_method ops request (rpc_method request) params rt of
               (r, rt') \<Rightarrow> (finish_rpc request r, rt'))))"

section \<open>The standard-stream transport\<close>

text \<open>
  One line: blank lines are skipped, a line that is no JSON gets a parse error, a value that is no
  object the invalid-request answer, an exception of the runtime an internal error.
  \<open>parse\<close> is \<^verbatim>\<open>json.loads\<close>.
\<close>

definition stdio_line :: "(string \<Rightarrow> json option) \<Rightarrow> 's runtime_ops \<Rightarrow> string \<Rightarrow> 's runtime_state \<Rightarrow> obj option \<times> 's runtime_state" where
  "stdio_line parse ops line rt =
     (if strip_str line = [] then (None, rt)
      else case parse line of
          None \<Rightarrow> (Some (jsonrpc_error JNull (-32700) ''Parse error'' None), rt)
        | Some (JObj request) \<Rightarrow>
            (case dispatch_rpc ops request rt of
               (Inl t, rt') \<Rightarrow> (Some (jsonrpc_error JNull (-32603) t None), rt')
             | (Inr r, rt') \<Rightarrow> (r, rt'))
        | Some _ \<Rightarrow> (Some invalid_request_response, rt))"

fun stdio_loop :: "(string \<Rightarrow> json option) \<Rightarrow> 's runtime_ops \<Rightarrow> string list \<Rightarrow> 's runtime_state \<Rightarrow> obj list \<times> 's runtime_state" where
  "stdio_loop parse ops [] rt = ([], rt)"
| "stdio_loop parse ops (line # lines) rt =
     (case stdio_line parse ops line rt of (r, rt1) \<Rightarrow>
      case stdio_loop parse ops lines rt1 of (rs, rt2) \<Rightarrow>
        ((case r of None \<Rightarrow> rs | Some x \<Rightarrow> x # rs), rt2))"

definition serve_stdio :: "(string \<Rightarrow> json option) \<Rightarrow> 's runtime_ops \<Rightarrow> string list \<Rightarrow> 's runtime_state \<Rightarrow> obj list \<times> 's runtime_state" where
  "serve_stdio parse ops lines rt =
     (case stdio_loop parse ops lines rt of (out, rt') \<Rightarrow> (out, rt'\<lparr>ru_inner := op_close ops (ru_inner rt')\<rparr>))"

section \<open>The handshake as an abstract automaton\<close>

datatype handshake = Fresh | Ready string

definition handshake_of :: "('s, 'z) runtime_state_scheme \<Rightarrow> handshake" where
  "handshake_of rt = (if ru_initialized rt then Ready (ru_version rt) else Fresh)"

text \<open>The abstract step: one successful initialize moves to a supported version, nothing else moves.\<close>

inductive handshake_step :: "string \<Rightarrow> handshake \<Rightarrow> handshake \<Rightarrow> bool" where
  stay: "handshake_step m q q"
| initialize: "v \<in> set SUPPORTED_PROTOCOL_VERSIONS \<Longrightarrow> handshake_step ''initialize'' Fresh (Ready v)"

inductive_simps handshake_step_Ready [simp]: "handshake_step m (Ready v) q"
inductive_simps handshake_step_Fresh [simp]: "handshake_step m Fresh q"

lemma initialize_params_supported:
  "validate_initialize_params params = Inr v \<Longrightarrow> v \<in> set SUPPORTED_PROTOCOL_VERSIONS"
  by (auto simp: validate_initialize_params_def protocol_version_is_supported_def SUPPORTED_PROTOCOL_VERSIONS_def
      Let_def split: if_splits json.splits)

lemma run_initialize_cases:
  assumes "run_initialize ops request params rt = (r, rt')"
  obtains (failed) "ru_initialized rt' = ru_initialized rt" "ru_initialized rt \<Longrightarrow> rt' = rt" "\<And>v. r \<noteq> Inr v"
  | (inited) x where "\<not> ru_initialized rt" "ru_initialized rt'" "ru_version rt' \<in> set SUPPORTED_PROTOCOL_VERSIONS" "r = Inr (Some x)"
  using assms initialize_params_supported [of params]
  by (auto simp: run_initialize_def split: if_splits sum.splits prod.splits)

lemma run_method_handshake:
  assumes "run_method ops request m params rt = (r, rt')"
  shows "handshake_step m (handshake_of rt) (handshake_of rt') \<and>
    (\<not> ru_initialized rt \<longrightarrow> m \<notin> set open_methods \<longrightarrow>
       rt' = rt \<and> r = Inl (JsonRpcError (-32002) ''Server not initialized'' None))"
proof (cases "m = ''initialize''")
  case True
  then have run: "run_initialize ops request params rt = (r, rt')"
    using assms by (simp add: run_method_def open_methods_def)
  then show ?thesis
    by (cases rule: run_initialize_cases) (auto simp: True handshake_of_def open_methods_def)
next
  case False
  then have "ru_initialized rt' = ru_initialized rt \<and> ru_version rt' = ru_version rt"
    using assms by (auto simp: run_method_def run_cancelled_def run_discover_def run_list_def run_call_def Let_def
        split: if_splits sum.splits prod.splits option.splits json.splits)
  with assms show ?thesis by (auto simp: handshake_of_def run_method_def)
qed

section \<open>Responses\<close>

text \<open>A JSON-RPC response with an identifier and either a result or an error.\<close>

definition is_response :: "json \<Rightarrow> obj \<Rightarrow> bool" where
  "is_response rid ob \<longleftrightarrow>
     (\<exists>r. ob = rpc_result rid r) \<or> (\<exists>c m d. ob = jsonrpc_error rid c m d)"

definition silent_methods :: "string list" where
  "silent_methods = [''notifications/initialized'', ''notifications/cancelled'']"

lemma response_id_of_id: "is_rpc_id (obj_get request ''id'') \<Longrightarrow> response_id request = obj_get request ''id''"
  by (simp add: response_id_def Let_def)

lemma is_rpc_id_not_null: "is_rpc_id v \<Longrightarrow> v \<noteq> JNull"
  by (auto simp: is_rpc_id_def)

lemma run_method_silent:
  "run_method ops request m params rt = (Inr None, rt') \<Longrightarrow> m \<in> set silent_methods"
  by (auto simp: run_method_def run_initialize_def run_discover_def run_list_def run_call_def silent_methods_def
      split: if_splits sum.splits prod.splits option.splits json.splits)

lemma finish_rpc_answers:
  assumes "is_rpc_id (obj_get request ''id'')" "r \<noteq> Inr None"
  shows "(\<exists>t. finish_rpc request r = Inl t) \<or> (\<exists>x. finish_rpc request r = Inr (Some x) \<and> is_response (obj_get request ''id'') x)"
  using assms response_id_of_id [OF assms(1)] is_rpc_id_not_null [OF assms(1)]
  by (auto simp: finish_rpc_def is_response_def split: sum.splits rpc_exn.splits option.splits)

lemma dispatch_answers:
  assumes "is_rpc_id (obj_get request ''id'')" "rpc_method request \<notin> set silent_methods"
    and "dispatch_rpc ops request rt = (r, rt')"
  shows "(\<exists>t. r = Inl t) \<or> (\<exists>x. r = Inr (Some x) \<and> is_response (obj_get request ''id'') x)"
proof -
  obtain z where "r = finish_rpc request z" "z \<noteq> Inr None"
  proof (cases "validate_rpc_envelope request")
    case (Inl e)
    with assms(3) that [of "Inl e"] show thesis by (simp add: dispatch_rpc_def)
  next
    case envelope: (Inr u)
    show thesis
    proof (cases "rpc_params request")
      case (Inl e)
      with envelope assms(3) that [of "Inl e"] show thesis by (simp add: dispatch_rpc_def)
    next
      case (Inr params)
      obtain z rt1 where z: "run_method ops request (rpc_method request) params rt = (z, rt1)"
        by (cases "run_method ops request (rpc_method request) params rt")
      have "z \<noteq> Inr None" using run_method_silent [of ops request "rpc_method request" params rt rt1] z assms(2) by auto
      with that [of z] envelope Inr z assms(3) show thesis by (simp add: dispatch_rpc_def)
    qed
  qed
  with finish_rpc_answers [OF assms(1)] show ?thesis by blast
qed

text \<open>The answers of the loop, line by line.\<close>

fun stdio_answers :: "(string \<Rightarrow> json option) \<Rightarrow> 's runtime_ops \<Rightarrow> string list \<Rightarrow> 's runtime_state \<Rightarrow> obj option list" where
  "stdio_answers parse ops [] rt = []"
| "stdio_answers parse ops (line # lines) rt =
     fst (stdio_line parse ops line rt) # stdio_answers parse ops lines (snd (stdio_line parse ops line rt))"

lemma stdio_loop_answers:
  "fst (stdio_loop parse ops lines rt) = map the (filter (\<lambda>r. r \<noteq> None) (stdio_answers parse ops lines rt))"
proof (induction lines arbitrary: rt)
  case (Cons line lines)
  from Cons.IH [of "snd (stdio_line parse ops line rt)"] show ?case
    by (cases "fst (stdio_line parse ops line rt)") (auto simp: case_prod_beta)
qed simp

lemma stdio_answers_nth:
  "i < length lines \<Longrightarrow>
   \<exists>rt'. stdio_answers parse ops lines rt ! i = fst (stdio_line parse ops (lines ! i) rt')"
proof (induction lines arbitrary: rt i)
  case (Cons line lines)
  then show ?case by (cases i) auto
qed simp

lemma length_stdio_answers [simp]: "length (stdio_answers parse ops lines rt) = length lines"
  by (induction lines arbitrary: rt) auto

lemma stdio_line_answers:
  assumes "strip_str line \<noteq> []" "parse line = Some (JObj request)"
    and "is_rpc_id (obj_get request ''id'')" "rpc_method request \<notin> set silent_methods"
  shows "\<exists>x. fst (stdio_line parse ops line rt) = Some x \<and>
    (is_response (obj_get request ''id'') x \<or> (\<exists>t. x = jsonrpc_error JNull (-32603) t None))"
proof -
  obtain r rt' where r: "dispatch_rpc ops request rt = (r, rt')" by (cases "dispatch_rpc ops request rt")
  show ?thesis
    using dispatch_answers [OF assms(3,4) r] r assms(1,2) by (auto simp: stdio_line_def)
qed

section \<open>Theorems\<close>


definition demo_ops :: "nat runtime_ops" where
  "demo_ops = \<lparr>op_initialize = (\<lambda>ci s. (Inr (JObj []), s + 1)), op_list_tools = (\<lambda>s. (Inr (JList []), s + 10)),
     op_call_tool = (\<lambda>n a i s. (Inl (OtherExn ''boom''), s + 100)), op_cancel = (\<lambda>i s. (Inr (), s)),
     op_instructions = None, op_close = (\<lambda>s. s), op_version = ''1''\<rparr>"

definition demo_request :: "string \<Rightarrow> json \<Rightarrow> obj" where
  "demo_request m rid = [(''jsonrpc'', JStr ''2.0''), (''method'', JStr m), (''id'', rid)]"

definition demo_runtime :: "nat runtime_state" where
  "demo_runtime = \<lparr>ru_initialized = False, ru_version = [], ru_inner = 0\<rparr>"

lemma demo_dispatch:
  "dispatch_rpc demo_ops (demo_request ''tools/list'' (JInt 1)) demo_runtime =
     (Inr (Some (jsonrpc_error (JInt 1) (-32002) ''Server not initialized'' None)), demo_runtime)"
  by (simp add: dispatch_rpc_def demo_request_def validate_rpc_envelope_def obj_get_def has_key_def is_rpc_id_def
      rpc_params_def rpc_method_def run_method_def open_methods_def demo_runtime_def finish_rpc_def response_id_def)




text \<open>
  Two deviations.  A notification with an unknown method is answered with an error although it has
  no identifier; and an exception of the runtime is answered without the identifier of the request.
\<close>

lemma unknown_notification_answered:
  assumes "ru_initialized rt"
  shows "fst (dispatch_rpc ops [(''jsonrpc'', JStr ''2.0''), (''method'', JStr ''notifications/other'')] rt) =
    Inr (Some (jsonrpc_error JNull (-32601) ''Unknown method: notifications/other'' None))"
  using assms
  by (simp add: dispatch_rpc_def validate_rpc_envelope_def obj_get_def has_key_def is_rpc_id_def rpc_params_def
      rpc_method_def run_method_def finish_rpc_def response_id_def)

lemma stdio_exception_loses_id:
  assumes "dispatch_rpc ops request rt = (Inl t, rt')" "parse line = Some (JObj request)" "strip_str line \<noteq> []"
  shows "fst (stdio_line parse ops line rt) = Some (jsonrpc_error JNull (-32603) t None)"
  using assms by (simp add: stdio_line_def)

end
