(* ===== verification/HttpServer.thy ===== *)
theory HttpServer
  imports HttpSessions OAuth Protocol
begin

text \<open>
  The request handler \<^verbatim>\<open>MCPHandler\<close> of \<open>coding_tools_mcp/server.py\<close>: routing, origin and bearer
  checks, the life of a session around a JSON-RPC request, and its composition of the session
  manager, the authorization server and the dispatcher.  The server state is one record; what the
  clock, the runtime factory and the random generator deliver during a request is \<open>post_env\<close>.  A
  request body arrives parsed (\<^verbatim>\<open>json.loads\<close>).  Response headers other than the session identifier
  are not represented.
\<close>

section \<open>State and responses\<close>

record 's http_server =
  sv_manager :: http_manager
  sv_runtimes :: "nat \<Rightarrow> 's runtime_state"
  sv_control :: "'s runtime_state"
  sv_oauth :: "OAuthConfig option"
  sv_auth_token :: "string option"
  sv_auth_tokens :: "string list"

record 's post_env =
  po_oauth :: oauth_env
  po_ops :: "'s runtime_ops"
  po_exposed :: "string \<Rightarrow> bool"
  po_now :: real
  po_evictable :: "nat \<Rightarrow> bool"
  po_made :: "(string \<times> nat \<times> 's runtime_state) option"
  po_code :: string
  po_draws :: "string list"
  po_secret :: string

text \<open>
  A JSON response with its status, payload and session identifier; the bodiless 202, 200 and 204;
  an OAuth response; or an exception that leaves the handler.
\<close>

datatype http_resp =
    Reply int obj "string option"
  | Accepted "string option"
  | NoBody int
  | OAuthReply oauth_resp
  | Dropped pyexn

section \<open>Paths\<close>

fun norm_comps :: "bool \<Rightarrow> string list \<Rightarrow> string list \<Rightarrow> string list" where
  "norm_comps rooted acc [] = acc"
| "norm_comps rooted acc (c # cs) =
     (if c = [] \<or> c = ''.'' then norm_comps rooted acc cs
      else if c \<noteq> ''..'' \<or> (\<not> rooted \<and> acc = []) \<or> (acc \<noteq> [] \<and> last acc = ''..'') then norm_comps rooted (acc @ [c]) cs
      else if acc \<noteq> [] then norm_comps rooted (butlast acc) cs
      else norm_comps rooted acc cs)"

definition normpath :: "string \<Rightarrow> string" where
  "normpath path =
     (if path = [] then ''.''
      else let rooted = startswith path ''/'';
               slashes = (if startswith path ''//'' \<and> \<not> startswith path ''///'' then ''//''
                          else if rooted then ''/'' else []);
               p = slashes @ join ''/'' (norm_comps rooted [] (split_on (CHR ''/'') path)) in
           if p = [] then ''.'' else p)"

definition request_path :: "('z) http_req_scheme \<Rightarrow> string" where
  "request_path rq = normpath (first_part (CHR ''?'') (rq_path rq))"

definition is_mcp_path :: "(string \<Rightarrow> bool) \<Rightarrow> string \<Rightarrow> bool" where
  "is_mcp_path exposed path =
     (let n = normpath path in
      if n \<in> {''/mcp'', ''/''} \<or> startswith n ''/mcp/'' then True
      else exposed (dropWhile (\<lambda>c. c = CHR ''/'') n))"

section \<open>Authorization\<close>

definition auth_enabled :: "'s http_server \<Rightarrow> bool" where
  "auth_enabled sv \<longleftrightarrow> sv_auth_tokens sv \<noteq> [] \<or> sv_auth_token sv \<noteq> None \<or> sv_oauth sv \<noteq> None"

definition static_tokens :: "'s http_server \<Rightarrow> string list" where
  "static_tokens sv =
     (if sv_auth_tokens sv = [] then (case sv_auth_token sv of Some t \<Rightarrow> if t = [] then [] else [t] | None \<Rightarrow> [])
      else sv_auth_tokens sv)"

fun match_token :: "string \<Rightarrow> string list \<Rightarrow> bool result" where
  "match_token tok [] = Inr False"
| "match_token tok (c # cs) =
     (case compare_digest tok c of Inl e \<Rightarrow> Inl e | Inr True \<Rightarrow> Inr True | Inr False \<Rightarrow> match_token tok cs)"

definition bearer_token :: "oauth_req \<Rightarrow> string option" where
  "bearer_token rq =
     (let h = strip_str (header (http_req.truncate rq) ''authorization'') in
      if startswith h ''Bearer '' then Some (strip_str (drop 7 h)) else None)"

definition is_authorized :: "'s post_env \<Rightarrow> oauth_req \<Rightarrow> 's http_server \<Rightarrow> bool result" where
  "is_authorized pe rq sv =
     (if \<not> auth_enabled sv then Inr True
      else case bearer_token rq of
          None \<Rightarrow> Inr False
        | Some tok \<Rightarrow>
            (case match_token tok (static_tokens sv) of
               Inl e \<Rightarrow> Inl e
             | Inr True \<Rightarrow> Inr True
             | Inr False \<Rightarrow>
                 (case sv_oauth sv of
                    None \<Rightarrow> Inr False
                  | Some cfg \<Rightarrow>
                      Inr (validate_access_token (po_oauth pe) tok cfg
                        (oauth_base_url (oe_bracket (po_oauth pe)) (cf_server_url cfg) (http_req.truncate rq)) \<lfloor>po_now pe\<rfloor>))))"

definition origin_denied :: "'s post_env \<Rightarrow> oauth_req \<Rightarrow> bool" where
  "origin_denied pe rq =
     (case rq_headers rq ''origin'' of
        None \<Rightarrow> False
      | Some u \<Rightarrow> u \<noteq> [] \<and> \<not> is_allowed_origin (oe_bracket (po_oauth pe)) (rq_allowed_origins rq) u)"

section \<open>JSON-RPC over POST\<close>

definition MAX_HTTP_REQUEST_BYTES :: int where
  "MAX_HTTP_REQUEST_BYTES = 1048576"

definition send_rpc_error :: "json \<Rightarrow> int \<Rightarrow> string \<Rightarrow> int \<Rightarrow> json option \<Rightarrow> http_resp" where
  "send_rpc_error rid code msg status data = Reply status (jsonrpc_error rid code msg data) None"

text \<open>The checks on the request before a session is looked up, up to the parsed JSON object.\<close>

definition header_checks :: "oauth_req \<Rightarrow> http_resp + obj" where
  "header_checks rq =
     (if lower_str (get_content_type rq) \<noteq> ''application/json'' then
        Inl (send_rpc_error JNull (-32600) ''Content-Type must be application/json'' 415 None)
      else if (case rq_headers rq ''mcp-protocol-version'' of
                 Some v \<Rightarrow> v \<noteq> [] \<and> \<not> protocol_version_is_supported (JStr v) | None \<Rightarrow> False) then
        Inl (send_rpc_error JNull (-32600) ''Unsupported MCP protocol version'' 400
          (Some (JObj [(''supported'', JList (map JStr SUPPORTED_PROTOCOL_VERSIONS)),
                       (''received'', JStr (header (http_req.truncate rq) ''mcp-protocol-version''))])))
      else case rq_headers rq ''content-length'' of
          None \<Rightarrow> Inl (send_rpc_error JNull (-32600) ''Content-Length is required'' 411 None)
        | Some raw \<Rightarrow>
            (case py_int raw of
               None \<Rightarrow> Inl (send_rpc_error JNull (-32600) ''Content-Length must be a non-negative integer'' 400 None)
             | Some n \<Rightarrow>
                 if n < 0 then
                   Inl (send_rpc_error JNull (-32600) ''Content-Length must be a non-negative integer'' 400 None)
                 else if MAX_HTTP_REQUEST_BYTES < n then
                   Inl (send_rpc_error JNull (-32600) ''Request body exceeds maximum size'' 413
                     (Some (JObj [(''max_bytes'', JInt MAX_HTTP_REQUEST_BYTES)])))
                 else (case rq_json rq of
                     None \<Rightarrow> Inl (send_rpc_error JNull (-32700) ''Parse error'' 400 None)
                   | Some (JList _) \<Rightarrow>
                       Inl (send_rpc_error JNull (-32600)
                         ''JSON-RPC batch requests are not supported by Streamable HTTP'' 400 None)
                   | Some (JObj request) \<Rightarrow>
                       (case validate_rpc_envelope request of
                          Inl (JsonRpcError c m d) \<Rightarrow> Inl (send_rpc_error (response_id request) c m 200 d)
                        | Inl (OtherExn t) \<Rightarrow> Inl (Dropped (RuntimeError t))
                        | Inr _ \<Rightarrow> Inr request)
                   | Some _ \<Rightarrow> Inl (send_rpc_error JNull (-32600) ''Invalid Request'' 400 None))))"

text \<open>\<^verbatim>\<open>handle_rpc\<close>: an exception of the runtime becomes an internal error with the request's id.\<close>

definition handle_rpc :: "'s runtime_ops \<Rightarrow> obj \<Rightarrow> 's runtime_state \<Rightarrow> obj option \<times> 's runtime_state" where
  "handle_rpc ops request rt =
     (case dispatch_rpc ops request rt of
        (Inl t, rt') \<Rightarrow> (Some (jsonrpc_error (response_id request) (-32603) t None), rt')
      | (Inr r, rt') \<Rightarrow> (r, rt'))"

definition send_response :: "string option \<Rightarrow> obj option \<Rightarrow> http_resp" where
  "send_response sid r = (case r of None \<Rightarrow> Accepted sid | Some ob \<Rightarrow> Reply 200 ob sid)"

text \<open>\<^verbatim>\<open>initialize\<close>: create a session, dispatch, drop the session again when the answer is an error.\<close>

definition post_initialize :: "'s post_env \<Rightarrow> obj \<Rightarrow> 's http_server \<Rightarrow> http_resp \<times> 's http_server" where
  "post_initialize pe request sv =
     (case http_begin_create (po_evictable pe) (po_now pe) (sv_manager sv) of
        (Inl (RuntimeError t), m) \<Rightarrow>
          (send_rpc_error (obj_get request ''id'') (-32000) t 503 None, sv\<lparr>sv_manager := m\<rparr>)
      | (Inl e, m) \<Rightarrow> (Dropped e, sv\<lparr>sv_manager := m\<rparr>)
      | (Inr _, m) \<Rightarrow>
          (case http_end_create (map_option (\<lambda>x. (fst x, fst (snd x))) (po_made pe)) (po_now pe) m of
             (Inl (RuntimeError t), m') \<Rightarrow>
               (send_rpc_error (obj_get request ''id'') (-32000) t 503 None, sv\<lparr>sv_manager := m'\<rparr>)
           | (Inl e, m') \<Rightarrow> (Dropped e, sv\<lparr>sv_manager := m'\<rparr>)
           | (Inr rid, m') \<Rightarrow>
               let sid = fst (the (po_made pe)); rt = snd (snd (the (po_made pe)));
                   (r, rt') = handle_rpc (po_ops pe) request rt;
                   failed = (case r of Some ob \<Rightarrow> has_key ob ''error'' | None \<Rightarrow> False);
                   m2 = (if failed then snd (http_delete sid m') else m') in
               (send_response (if failed then None else Some sid) r,
                sv\<lparr>sv_manager := http_release (po_now pe) sid m2, sv_runtimes := (sv_runtimes sv)(rid := rt')\<rparr>)))"

text \<open>A request within a session: look it up, check the version header, dispatch, release.\<close>

definition post_session :: "'s post_env \<Rightarrow> oauth_req \<Rightarrow> obj \<Rightarrow> string \<Rightarrow> 's http_server \<Rightarrow> http_resp \<times> 's http_server" where
  "post_session pe rq request sid sv =
     (case http_get (po_evictable pe) (po_now pe) sid (sv_manager sv) of
        (None, m) \<Rightarrow> (send_rpc_error (response_id request) (-32001) ''Unknown MCP session'' 404 None, sv\<lparr>sv_manager := m\<rparr>)
      | (Some rid, m) \<Rightarrow>
          let rt = sv_runtimes sv rid; m' = http_release (po_now pe) sid m in
          if (case rq_headers rq ''mcp-protocol-version'' of Some v \<Rightarrow> v \<noteq> ru_version rt | None \<Rightarrow> False) then
            (Reply 400 (jsonrpc_error (obj_get request ''id'') (-32600)
               ''MCP-Protocol-Version does not match the initialized session''
               (Some (JObj [(''expected'', JStr (ru_version rt)),
                            (''received'', JStr (header (http_req.truncate rq) ''mcp-protocol-version''))]))) (Some sid),
             sv\<lparr>sv_manager := m'\<rparr>)
          else (case handle_rpc (po_ops pe) request rt of
                  (r, rt') \<Rightarrow> (send_response (Some sid) r,
                               sv\<lparr>sv_manager := m', sv_runtimes := (sv_runtimes sv)(rid := rt')\<rparr>)))"

definition post_request :: "'s post_env \<Rightarrow> oauth_req \<Rightarrow> obj \<Rightarrow> 's http_server \<Rightarrow> http_resp \<times> 's http_server" where
  "post_request pe rq request sv =
     (let sid = header (http_req.truncate rq) ''mcp-session-id''; m = rpc_method request in
      if m = ''initialize'' then
        (if sid \<noteq> [] then
           (send_rpc_error (obj_get request ''id'') (-32600) ''initialize must not include Mcp-Session-Id'' 400 None, sv)
         else post_initialize pe request sv)
      else if sid \<noteq> [] then post_session pe rq request sid sv
      else if m \<in> {''ping'', ''server/discover''} then
        (case handle_rpc (po_ops pe) request (sv_control sv) of
           (r, rt') \<Rightarrow> (send_response None r, sv\<lparr>sv_control := rt'\<rparr>))
      else (send_rpc_error (obj_get request ''id'') (-32002) ''Server not initialized'' 400 None, sv))"

definition mcp_post :: "'s post_env \<Rightarrow> oauth_req \<Rightarrow> 's http_server \<Rightarrow> http_resp \<times> 's http_server" where
  "mcp_post pe rq sv =
     (if origin_denied pe rq then (send_rpc_error JNull (-32600) ''Origin denied'' 403 None, sv)
      else case is_authorized pe rq sv of
          Inl e \<Rightarrow> (Dropped e, sv)
        | Inr False \<Rightarrow> (send_rpc_error JNull (-32000) ''Unauthorized'' 401 None, sv)
        | Inr True \<Rightarrow>
            (case header_checks rq of
               Inl r \<Rightarrow> (r, sv)
             | Inr request \<Rightarrow> post_request pe rq request sv))"

definition do_POST :: "'s post_env \<Rightarrow> oauth_req \<Rightarrow> 's http_server \<Rightarrow> (http_resp \<times> 's http_server) option" where
  "do_POST pe rq sv =
     (let p = request_path rq in
      if p = ''/oauth/authorize'' then
        (case handle_oauth_authorize_post (po_oauth pe) (po_code pe) (po_now pe) rq (sv_oauth sv) of
           (r, c) \<Rightarrow> Some (OAuthReply r, sv\<lparr>sv_oauth := c\<rparr>))
      else if p = ''/oauth/token'' then
        (case handle_oauth_token (po_oauth pe) (po_now pe) rq (sv_oauth sv) of
           (r, c) \<Rightarrow> Some (OAuthReply r, sv\<lparr>sv_oauth := c\<rparr>))
      else if p = ''/oauth/register'' then
        map_option (\<lambda>x. (OAuthReply (fst x), sv\<lparr>sv_oauth := snd x\<rparr>))
          (handle_oauth_register (po_oauth pe) (po_draws pe) (po_secret pe) \<lfloor>po_now pe\<rfloor> rq (sv_oauth sv))
      else if \<not> is_mcp_path (po_exposed pe) p then
        Some (send_rpc_error JNull (-32601) ''Unknown endpoint'' 404 None, sv)
      else Some (mcp_post pe rq sv))"

section \<open>The other methods\<close>

definition error_json :: "int \<Rightarrow> string \<Rightarrow> http_resp" where
  "error_json status t = Reply status [(''error'', JStr t)] None"

definition do_DELETE :: "'s post_env \<Rightarrow> oauth_req \<Rightarrow> 's http_server \<Rightarrow> http_resp \<times> 's http_server" where
  "do_DELETE pe rq sv =
     (if \<not> is_mcp_path (po_exposed pe) (request_path rq) then (error_json 404 ''Unknown endpoint'', sv)
      else case is_authorized pe rq sv of
          Inl e \<Rightarrow> (Dropped e, sv)
        | Inr False \<Rightarrow> (send_rpc_error JNull (-32000) ''Unauthorized'' 401 None, sv)
        | Inr True \<Rightarrow>
            let sid = header (http_req.truncate rq) ''mcp-session-id'';
                (found, m) = (if sid = [] then (False, sv_manager sv) else http_delete sid (sv_manager sv)) in
            if \<not> found then (send_rpc_error JNull (-32001) ''Unknown MCP session'' 404 None, sv\<lparr>sv_manager := m\<rparr>)
            else (NoBody 200, sv\<lparr>sv_manager := m\<rparr>))"

definition option_paths :: "string list" where
  "option_paths = [''/.well-known/mcp.json'', ''/.well-known/mcp/server-card.json'',
     ''/.well-known/oauth-authorization-server'', ''/.well-known/oauth-protected-resource'',
     ''/oauth/authorize'', ''/oauth/token'', ''/oauth/register'']"

definition do_OPTIONS :: "'s post_env \<Rightarrow> oauth_req \<Rightarrow> http_resp" where
  "do_OPTIONS pe rq =
     (let p = request_path rq in
      if \<not> (is_mcp_path (po_exposed pe) p \<or> p \<in> set option_paths) then error_json 404 ''Unknown endpoint''
      else if origin_denied pe rq then error_json 403 ''Origin denied''
      else NoBody 204)"

definition OAUTH_TOKEN_AUTH_METHODS :: "string list" where
  "OAUTH_TOKEN_AUTH_METHODS = [''client_secret_basic'', ''client_secret_post'', ''none'']"

definition handle_oauth_as_metadata :: "oauth_env \<Rightarrow> oauth_req \<Rightarrow> OAuthConfig option \<Rightarrow> http_resp" where
  "handle_oauth_as_metadata env rq c =
     (case c of
        None \<Rightarrow> error_json 404 ''OAuth not configured''
      | Some cfg \<Rightarrow>
          let base = oauth_base_url (oe_bracket env) (cf_server_url cfg) (http_req.truncate rq) in
          Reply 200
            [(''issuer'', JStr base), (''authorization_endpoint'', JStr (base @ ''/oauth/authorize'')),
             (''token_endpoint'', JStr (base @ ''/oauth/token'')),
             (''registration_endpoint'', JStr (base @ ''/oauth/register'')),
             (''response_types_supported'', JList (map JStr OAUTH_RESPONSE_TYPES_SUPPORTED)),
             (''grant_types_supported'', JList (map JStr OAUTH_GRANT_TYPES_SUPPORTED)),
             (''code_challenge_methods_supported'', JList [JStr ''S256'']),
             (''token_endpoint_auth_methods_supported'', JList (map JStr OAUTH_TOKEN_AUTH_METHODS))] None)"

definition handle_oauth_resource_metadata :: "oauth_env \<Rightarrow> oauth_req \<Rightarrow> OAuthConfig option \<Rightarrow> http_resp" where
  "handle_oauth_resource_metadata env rq c =
     (case c of
        None \<Rightarrow> error_json 404 ''OAuth not configured''
      | Some cfg \<Rightarrow>
          let base = oauth_base_url (oe_bracket env) (cf_server_url cfg) (http_req.truncate rq) in
          Reply 200
            [(''resource'', JStr base), (''authorization_servers'', JList [JStr base]),
             (''bearer_methods_supported'', JList [JStr ''header''])] None)"

text \<open>
  \<^verbatim>\<open>GET\<close> and \<^verbatim>\<open>HEAD\<close>.  The health payload and the server card, which report statistics and static
  descriptions, are parameters.
\<close>

definition handle_metadata_request :: "'s post_env \<Rightarrow> obj \<Rightarrow> obj \<Rightarrow> bool \<Rightarrow> oauth_req \<Rightarrow> 's http_server \<Rightarrow> http_resp" where
  "handle_metadata_request pe health server_card head_only rq sv =
     (let p = request_path rq; env = po_oauth pe in
      if p = ''/.well-known/oauth-authorization-server'' then handle_oauth_as_metadata env rq (sv_oauth sv)
      else if p \<in> {''/healthz'', ''/readyz''} then Reply 200 health None
      else if p = ''/.well-known/oauth-protected-resource'' then handle_oauth_resource_metadata env rq (sv_oauth sv)
      else if p = ''/oauth/authorize'' \<and> \<not> head_only then OAuthReply (handle_oauth_authorize_get env rq (sv_oauth sv))
      else if p \<in> {''/.well-known/mcp.json'', ''/.well-known/mcp/server-card.json''} then Reply 200 server_card None
      else if is_mcp_path (po_exposed pe) p then
        (if origin_denied pe rq then error_json 403 ''Origin denied''
         else case is_authorized pe rq sv of
             Inl e \<Rightarrow> Dropped e
           | Inr False \<Rightarrow> send_rpc_error JNull (-32000) ''Unauthorized'' 401 None
           | Inr True \<Rightarrow> send_rpc_error JNull (-32000) ''SSE GET stream is not supported'' 405 None)
      else error_json 404 ''Unknown endpoint'')"

section \<open>Sessions around a request\<close>

definition active_of :: "http_manager \<Rightarrow> string \<Rightarrow> nat" where
  "active_of m k = (case map_of (hm_sessions m) k of None \<Rightarrow> 0 | Some r \<Rightarrow> hr_active r)"

text \<open>
  A change of the manager that keeps every count of active requests, every session with active
  requests together with its runtime, and the count of creations under way.
\<close>

definition balanced :: "http_manager \<Rightarrow> http_manager \<Rightarrow> bool" where
  "balanced m m' \<longleftrightarrow>
     (\<forall>k. active_of m' k = active_of m k) \<and>
     (\<forall>k r. map_of (hm_sessions m) k = Some r \<longrightarrow> 0 < hr_active r \<longrightarrow>
        (\<exists>r'. map_of (hm_sessions m') k = Some r' \<and> hr_runtime r' = hr_runtime r)) \<and>
     hm_creating m' = hm_creating m"

text \<open>Only sessions without active requests have been removed.\<close>

definition idle_removal :: "http_manager \<Rightarrow> http_manager \<Rightarrow> bool" where
  "idle_removal m m' \<longleftrightarrow>
     (\<forall>k r. map_of (hm_sessions m') k = Some r \<longrightarrow> map_of (hm_sessions m) k = Some r) \<and>
     (\<forall>k r. map_of (hm_sessions m) k = Some r \<longrightarrow> 0 < hr_active r \<longrightarrow> map_of (hm_sessions m') k = Some r)"

lemma removal_back: "idle_removal m m' \<Longrightarrow> map_of (hm_sessions m') k = Some r \<Longrightarrow> map_of (hm_sessions m) k = Some r"
  unfolding idle_removal_def by blast

lemma removal_keep:
  "idle_removal m m' \<Longrightarrow> map_of (hm_sessions m) k = Some r \<Longrightarrow> 0 < hr_active r \<Longrightarrow> map_of (hm_sessions m') k = Some r"
  unfolding idle_removal_def by blast

lemma idle_removal_refl: "hm_sessions m' = hm_sessions m \<Longrightarrow> idle_removal m m'"
  unfolding idle_removal_def by simp

lemma idle_removal_active:
  assumes "idle_removal m m'"
  shows "active_of m' k = active_of m k"
proof (cases "map_of (hm_sessions m') k")
  case (Some r)
  with removal_back [OF assms Some] show ?thesis by (simp add: active_of_def)
next
  case None
  have "hr_active r = 0" if "map_of (hm_sessions m) k = Some r" for r
    using removal_keep [OF assms that] None by (cases "hr_active r = 0") auto
  with None show ?thesis by (auto simp: active_of_def split: option.splits)
qed

lemma idle_removal_trans: "idle_removal m m1 \<Longrightarrow> idle_removal m1 m2 \<Longrightarrow> idle_removal m m2"
  unfolding idle_removal_def by blast

lemma idle_removal_prune: "dict_ok (hm_sessions m) \<Longrightarrow> idle_removal m (http_prune ev now m)"
  unfolding idle_removal_def http_prune_def http_expire_def close_runtimes_def
  by (auto simp: map_of_filter_ok http_expired_def http_idle_def split: option.splits if_splits)

lemma prune_ok: "dict_ok (hm_sessions m) \<Longrightarrow> dict_ok (hm_sessions (http_prune ev now m))"
  by (simp add: http_prune_def http_expire_def close_runtimes_def)

lemma prune_creating [simp]: "hm_creating (http_prune ev now m) = hm_creating m"
  by (simp add: http_prune_def http_expire_def close_runtimes_def)

lemma balanced_removal:
  assumes "idle_removal m m'" "hm_creating m' = hm_creating m"
  shows "balanced m m'"
  unfolding balanced_def
  by (intro conjI allI impI exI, rule idle_removal_active [OF assms(1)], rule removal_keep [OF assms(1)]) (simp_all add: assms(2))

lemma begin_create_removal:
  assumes "dict_ok (hm_sessions m)" "http_begin_create ev now m = (r, m')"
  shows "idle_removal m m' \<and> hm_creating m' = (case r of Inl _ \<Rightarrow> hm_creating m | Inr _ \<Rightarrow> Suc (hm_creating m))"
  using prune_ok [OF assms(1)] assms(2)
proof (cases rule: http_begin_cases)
  case (evicted k x)
  have "idle_removal (http_prune ev now m) m'"
    unfolding idle_removal_def
  proof (intro conjI allI impI)
    fix c r
    assume "map_of (hm_sessions m') c = Some r"
    then show "map_of (hm_sessions (http_prune ev now m)) c = Some r"
      using evicted(4) by (simp add: close_runtimes_def split: if_splits)
  next
    fix c r
    assume c: "map_of (hm_sessions (http_prune ev now m)) c = Some r" "0 < hr_active r"
    then have "c \<noteq> k" using evicted(2,3) by (auto simp: http_idle_def)
    with c show "map_of (hm_sessions m') c = Some r" using evicted(4) by (simp add: close_runtimes_def)
  qed
  with idle_removal_prune [OF assms(1)] have "idle_removal m m'" by (rule idle_removal_trans)
  with evicted show ?thesis by (simp add: close_runtimes_def)
next
  case room
  then have "idle_removal (http_prune ev now m) m'" by (intro idle_removal_refl) simp
  with idle_removal_prune [OF assms(1)] have "idle_removal m m'" by (rule idle_removal_trans)
  with room show ?thesis by simp
next
  case (refused e)
  with idle_removal_prune [OF assms(1)] show ?thesis by simp
qed

lemma balanced_put:
  assumes "idle_removal m m1" "hm_creating m' = hm_creating m"
    and "\<And>k. k \<noteq> sid \<Longrightarrow> map_of (hm_sessions m') k = map_of (hm_sessions m1) k"
    and "active_of m' sid = active_of m1 sid"
    and "\<And>r. map_of (hm_sessions m1) sid = Some r \<Longrightarrow> 0 < hr_active r \<Longrightarrow>
      \<exists>r'. map_of (hm_sessions m') sid = Some r' \<and> hr_runtime r' = hr_runtime r"
  shows "balanced m m'"
proof -
  have "active_of m' k = active_of m k" for k
  proof -
    have "active_of m' k = active_of m1 k" using assms(3) [of k] assms(4) by (cases "k = sid") (simp_all add: active_of_def)
    then show ?thesis using idle_removal_active [OF assms(1), of k] by simp
  qed
  moreover have "\<exists>r'. map_of (hm_sessions m') k = Some r' \<and> hr_runtime r' = hr_runtime r"
    if "map_of (hm_sessions m) k = Some r" "0 < hr_active r" for k r
  proof -
    have "map_of (hm_sessions m1) k = Some r" by (rule removal_keep [OF assms(1) that])
    with assms(3) [of k] assms(5) that(2) show ?thesis by (cases "k = sid") auto
  qed
  ultimately show ?thesis using assms(2) unfolding balanced_def by blast
qed

lemma post_session_balanced:
  assumes "dict_ok (hm_sessions (sv_manager sv))" "post_session pe rq request sid sv = (r, sv')"
  shows "balanced (sv_manager sv) (sv_manager sv')"
proof -
  let ?m = "sv_manager sv" and ?p = "http_prune (po_evictable pe) (po_now pe) (sv_manager sv)"
  note rem = idle_removal_prune [OF assms(1), of "po_evictable pe" "po_now pe"]
  show ?thesis
  proof (cases "http_get (po_evictable pe) (po_now pe) sid ?m")
    case (Pair got m)
    show ?thesis
    proof (cases got)
      case None
      then have "m = ?p" using Pair by (auto simp: http_get_def http_find_def Let_def split: if_splits option.splits)
      with assms(2) Pair None rem show ?thesis by (auto simp: post_session_def intro: balanced_removal)
    next
      case (Some rid)
      obtain x where x: "map_of (hm_sessions ?p) sid = Some x" "\<not> hr_closing x"
        "m = ?p\<lparr>hm_sessions := dict_set sid (x\<lparr>hr_last_seen := po_now pe, hr_active := Suc (hr_active x)\<rparr>) (hm_sessions ?p)\<rparr>"
        using Pair Some by (auto simp: http_get_def http_find_def Let_def split: if_splits option.splits)
      have m': "sv_manager sv' = http_release (po_now pe) sid m"
        using assms(2) Pair Some by (auto simp: post_session_def Let_def split: if_splits prod.splits)
      show ?thesis
        by (rule balanced_put [OF rem, of _ sid]) (use x in \<open>auto simp: m' http_release_def http_leave_def Let_def active_of_def\<close>)
    qed
  qed
qed

lemma post_initialize_balanced:
  assumes "dict_ok (hm_sessions (sv_manager sv))" "post_initialize pe request sv = (r, sv')"
  shows "balanced (sv_manager sv) (sv_manager sv')"
proof -
  let ?m = "sv_manager sv"
  obtain b m where b: "http_begin_create (po_evictable pe) (po_now pe) ?m = (b, m)"
    by (cases "http_begin_create (po_evictable pe) (po_now pe) ?m")
  note rem = begin_create_removal [OF assms(1) b]
  show ?thesis
  proof (cases b)
    case (Inl e)
    then have "sv_manager sv' = m" using assms(2) b by (cases e) (auto simp: post_initialize_def)
    with rem Inl show ?thesis by (auto intro: balanced_removal)
  next
    case (Inr u)
    let ?made = "map_option (\<lambda>x. (fst x, fst (snd x))) (po_made pe)"
    obtain z m' where z: "http_end_create ?made (po_now pe) m = (z, m')" by (cases "http_end_create ?made (po_now pe) m")
    show ?thesis
    proof (cases z)
      case (Inl e)
      then have "sv_manager sv' = m'" using assms(2) b Inr z by (cases e) (auto simp: post_initialize_def)
      moreover have "hm_sessions m' = hm_sessions m" "hm_creating m' = hm_creating m - 1"
        using z Inl by (auto simp: http_end_create_def http_install_def http_unreserve_def Let_def close_runtimes_def split: option.splits if_splits prod.splits)
      moreover have "idle_removal ?m m'" 
        using idle_removal_trans [OF conjunct1 [OF rem] idle_removal_refl] calculation(2) by blast
      ultimately show ?thesis using rem Inr by (simp add: balanced_removal)
    next
      case made: (Inr rid)
      obtain sid rt where mk: "po_made pe = Some (sid, rid, rt)" "map_of (hm_sessions m) sid = None"
        "m' = m\<lparr>hm_creating := hm_creating m - 1, hm_sessions := dict_set sid
           \<lparr>hr_runtime = rid, hr_last_seen = po_now pe, hr_active = 1, hr_closing = False\<rparr> (hm_sessions m)\<rparr>"
        using z made by (auto simp: http_end_create_def http_install_def http_unreserve_def Let_def keys_def map_of_eq_None_iff
            split: option.splits if_splits prod.splits)
      obtain m2 where m2: "sv_manager sv' = http_release (po_now pe) sid m2" "m2 = m' \<or> m2 = snd (http_delete sid m')"
        using assms(2) b Inr z made mk(1) by (auto simp: post_initialize_def Let_def split: prod.splits if_splits)
      have cr: "hm_creating (sv_manager sv') = hm_creating ?m"
        using m2 mk(3) rem Inr by (auto simp: http_release_def http_leave_def http_delete_def http_mark_def Let_def close_runtimes_def split: option.splits)
      show ?thesis
        by (rule balanced_put [OF conjunct1 [OF rem] cr, of sid])
           (use m2 mk in \<open>auto simp: http_release_def http_leave_def http_delete_def http_mark_def Let_def close_runtimes_def active_of_def\<close>)
    qed
  qed
qed

lemma balanced_refl [simp]: "balanced m m"
  by (auto simp: balanced_def)

lemma mcp_post_balanced:
  assumes "dict_ok (hm_sessions (sv_manager sv))" "mcp_post pe rq sv = (r, sv')"
  shows "balanced (sv_manager sv) (sv_manager sv')"
  using assms post_session_balanced [OF assms(1)] post_initialize_balanced [OF assms(1)]
  by (auto simp: mcp_post_def post_request_def Let_def split: if_splits sum.splits bool.splits prod.splits)

lemma match_token_True: "match_token tok cs = Inr True \<Longrightarrow> tok \<in> set cs"
  by (induction cs) (auto simp: compare_digest_def split: sum.splits bool.splits if_splits)

definition oauth_paths :: "string list" where
  "oauth_paths = [''/oauth/authorize'', ''/oauth/token'', ''/oauth/register'']"

lemma do_POST_mcp:
  assumes "do_POST pe rq sv = Some (r, sv')" "request_path rq \<notin> set oauth_paths"
  shows "sv' = sv \<or> is_mcp_path (po_exposed pe) (request_path rq) \<and> mcp_post pe rq sv = (r, sv')"
  using assms by (auto simp: do_POST_def oauth_paths_def Let_def split: if_splits)

section \<open>Theorems\<close>


definition demo_server :: "nat http_server" where
  "demo_server = \<lparr>sv_manager = \<lparr>hm_sessions = [], hm_creating = 0, hm_closed = False, hm_runtimes_closed = []\<rparr>,
     sv_runtimes = (\<lambda>n. demo_runtime), sv_control = demo_runtime, sv_oauth = None,
     sv_auth_token = Some ''secret'', sv_auth_tokens = []\<rparr>"

definition demo_post :: "nat post_env" where
  "demo_post = \<lparr>po_oauth = \<lparr>oe_sha256 = (\<lambda>b. []), oe_bracket = (\<lambda>h. False), oe_jwt_encode = (\<lambda>c k. []),
       oe_jwt_decode = (\<lambda>t k a i n. None), oe_basic = (\<lambda>h. None)\<rparr>,
     po_ops = demo_ops, po_exposed = (\<lambda>n. False), po_now = 1, po_evictable = (\<lambda>n. True),
     po_made = Some (''s'', 7, demo_runtime), po_code = [], po_draws = [], po_secret = []\<rparr>"

definition demo_http :: "(string \<rightharpoonup> string) \<Rightarrow> oauth_req" where
  "demo_http h = \<lparr>rq_path = ''/mcp'', rq_headers = h(''content-type'' \<mapsto> ''application/json'', ''content-length'' \<mapsto> ''9''),
     rq_trust_proxy = False, rq_allowed_origins = [], rq_bind_host = [], rq_bind_port = 0,
     rq_query = [], rq_form = [], rq_json = Some (JObj (demo_request ''initialize'' (JInt 1)))\<rparr>"

definition demo_initialize :: oauth_req where
  "demo_initialize = demo_http [''authorization'' \<mapsto> ''Bearer secret'', ''origin'' \<mapsto> ''http://localhost:3000'']"

lemma demo_initialize_run:
  "case do_POST demo_post demo_initialize demo_server of
     Some (Reply st ob sid, sv') \<Rightarrow> st = 200 \<and> sid = Some ''s'' \<and> map fst (hm_sessions (sv_manager sv')) = [''s'']
   | _ \<Rightarrow> False"
  by code_simp


text \<open>
  A POST leaves no request behind.  Whatever path it takes (errors, exceptions of the runtime, a
  refused or a failed \<^verbatim>\<open>initialize\<close>), afterwards every session has as many active requests as before,
  no session with active requests has been removed or given another runtime, and no creation is left
  under way.
\<close>

theorem post_balances_sessions:
  assumes "dict_ok (hm_sessions (sv_manager sv))" "do_POST pe rq sv = Some (r, sv')"
  shows "balanced (sv_manager sv) (sv_manager sv')"
proof -
  have "sv_manager sv' = sv_manager sv \<or> mcp_post pe rq sv = (r, sv')"
    using assms(2) by (auto simp: do_POST_def Let_def split: if_splits prod.splits)
  then show ?thesis using mcp_post_balanced [OF assms(1)] by auto
qed

theorem post_balances_sessions_witness:
  "\<exists>r sv'. do_POST demo_post demo_initialize demo_server = Some (r, sv') \<and> balanced (sv_manager demo_server) (sv_manager sv')"
proof -
  obtain r sv' where run: "do_POST demo_post demo_initialize demo_server = Some (r, sv')"
    using demo_initialize_run by (auto split: option.splits)
  have "dict_ok (hm_sessions (sv_manager demo_server))" by (simp add: demo_server_def)
  from post_balances_sessions [OF this run] run show ?thesis by blast
qed

end
