(* ===== verification/Workspace.thy ===== *)
theory Workspace
  imports FileSystem PyStr
begin

text \<open>
  Path resolution: the class \<^verbatim>\<open>Workspace\<close> and the path methods of \<^verbatim>\<open>Runtime\<close> in
  \<open>coding_tools_mcp/server.py\<close>, over the tree of \<open>FileSystem\<close>.  A path text is the byte string
  that POSIX sees (\<^verbatim>\<open>os.fsencode\<close>); a \<^verbatim>\<open>Path\<close> is an absolute list of names that may contain
  \<^verbatim>\<open>..\<close>.  \<^verbatim>\<open>Path.resolve\<close> walks the names as \<^verbatim>\<open>os.path.realpath\<close> does (\<^verbatim>\<open>..\<close> drops the last
  name), \<^verbatim>\<open>Path.exists\<close> as the kernel does (every name but the last must be a directory), and both
  follow symbolic links.  The links are a field of the environment, each with the place where it lies
  and its target; the tree holds files and directories only, and a node of the tree is no link.  The
  kernel's limit on the number of links in one path is not represented.  A cycle of links raises, as in
  Python 3.11 and 3.12; that \<^verbatim>\<open>resolve(strict=False)\<close> lets a later \<^verbatim>\<open>..\<close> cancel the name of such a link
  is left out.
\<close>

section \<open>Path texts\<close>

record workspace_env =
  we_root :: path
  we_canonical :: path
  we_default_cwd :: path
  we_process_cwd :: path
  we_home :: "string \<Rightarrow> path option"
  we_links :: "(path \<times> bool \<times> path) list"
  we_mode :: string

record ResolvedPath =
  rp_display :: string
  rp_path :: path
  rp_existed :: bool

definition fs_name :: "pytext \<Rightarrow> string" where
  "fs_name t = map (\<lambda>b. char_of (unat b)) (utf8 t)"

definition path_parts :: "string \<Rightarrow> path" where
  "path_parts raw = filter (\<lambda>c. c \<noteq> [] \<and> c \<noteq> ''.'') (split_on (CHR ''/'') raw)"

definition abs_text :: "path \<Rightarrow> string" where
  "abs_text p = (if p = [] then ''/'' else concat (map (\<lambda>n. ''/'' @ n) p))"

text \<open>\<^verbatim>\<open>Path(raw).expanduser()\<close>: whether the path is absolute, and its names.\<close>

definition expanduser :: "workspace_env \<Rightarrow> string \<Rightarrow> (bool \<times> path) result" where
  "expanduser env raw =
     (let ps = path_parts raw in
      if startswith raw ''/'' then Inr (True, ps)
      else if ps \<noteq> [] \<and> startswith (hd ps) ''~'' then
        (case we_home env (tl (hd ps)) of
           None \<Rightarrow> Inl (RuntimeError ''Could not determine home directory.'')
         | Some h \<Rightarrow> Inr (True, h @ tl ps))
      else Inr (False, ps))"

definition drive_path :: "string \<Rightarrow> bool" where
  "drive_path raw =
     (case raw of c # d # e # _ \<Rightarrow> ch_alpha_ascii c \<and> d = CHR '':'' \<and> (e = CHR 0x5C \<or> e = CHR ''/'') | _ \<Rightarrow> False)"

definition path_text_is_absolute :: "workspace_env \<Rightarrow> string \<Rightarrow> bool result" where
  "path_text_is_absolute env raw = rbind (expanduser env raw) (\<lambda>x. Inr (fst x \<or> drive_path raw))"

text \<open>A path that only looks absolute is relative to the working directory of the process.\<close>

definition candidate_at :: "workspace_env \<Rightarrow> path \<Rightarrow> string \<Rightarrow> path result" where
  "candidate_at env base raw =
     rbind (expanduser env raw) (\<lambda>(is_abs, ps).
       Inr (if is_abs then ps else if drive_path raw then we_process_cwd env @ ps else base @ ps))"

definition reject_unsafe_text :: "string \<Rightarrow> path result" where
  "reject_unsafe_text raw =
     (if raw = [] \<or> CHR 0x00 \<in> set raw then Inl (tool_failure ''INVALID_ARGUMENT'' ''validation'')
      else Inr (path_parts (map (\<lambda>c. if c = CHR 0x5C then CHR ''/'' else c) raw)))"

section \<open>Walking the tree\<close>

type_synonym links = "(path \<times> bool \<times> path) list"

text \<open>The target of the link at a place: whether it is absolute, and its names.\<close>

definition link_at :: "links \<Rightarrow> fs \<Rightarrow> path \<Rightarrow> (bool \<times> path) option" where
  "link_at ls s p = (if fs_exists s p then None else map_of ls p)"

lemma link_at_key: "link_at ls s p = Some t \<Longrightarrow> p \<in> fst ` set ls"
  by (force simp: link_at_def split: if_splits dest: map_of_SomeD)

lemma links_left: "link_at ls s p = Some t \<Longrightarrow> p \<notin> set seen \<Longrightarrow>
    card (fst ` set ls - insert p (set seen)) < card (fst ` set ls - set seen)"
  by (intro psubset_card_mono) (auto dest: link_at_key)

text \<open>
  The walks of \<^verbatim>\<open>Path.resolve(strict=True)\<close>, of \<^verbatim>\<open>Path.resolve(strict=False)\<close> and of the kernel.  A
  link is replaced by its target before the rest of the names; \<open>seen\<close> are the links on the way, and a
  link that is met again is a loop.
\<close>

function (sequential) realpath :: "links \<Rightarrow> fs \<Rightarrow> path list \<Rightarrow> path \<Rightarrow> path \<Rightarrow> path result" where
  "realpath ls s seen acc [] = Inr acc"
| "realpath ls s seen acc (c # cs) =
     (if c = ''..'' then realpath ls s seen (butlast acc) cs
      else case map_of s acc of
          Some Dir \<Rightarrow>
            (case link_at ls s (acc @ [c]) of
               None \<Rightarrow> if fs_exists s (acc @ [c]) then realpath ls s seen (acc @ [c]) cs else Inl FileNotFoundError
             | Some (is_abs, target) \<Rightarrow>
                 if acc @ [c] \<in> set seen then Inl (RuntimeError ''Symlink loop'')
                 else (case realpath ls s ((acc @ [c]) # seen) (if is_abs then [] else acc) target of
                     Inl e \<Rightarrow> Inl e
                   | Inr q \<Rightarrow> realpath ls s seen q cs))
        | Some (File _ _) \<Rightarrow> Inl OSError
        | None \<Rightarrow> Inl FileNotFoundError)"
  by pat_completeness auto
termination
  by (relation "measures [\<lambda>(ls, s, seen, acc, cs). card (fst ` set ls - set seen), \<lambda>(ls, s, seen, acc, cs). length cs]")
    (auto intro: links_left)

definition resolve_strict :: "links \<Rightarrow> fs \<Rightarrow> path \<Rightarrow> path result" where
  "resolve_strict ls s p = realpath ls s [] [] p"

function (sequential) realpath_loose :: "links \<Rightarrow> fs \<Rightarrow> path list \<Rightarrow> path \<Rightarrow> path \<Rightarrow> path result" where
  "realpath_loose ls s seen acc [] = Inr acc"
| "realpath_loose ls s seen acc (c # cs) =
     (if c = ''..'' then realpath_loose ls s seen (butlast acc) cs
      else case link_at ls s (acc @ [c]) of
          None \<Rightarrow> realpath_loose ls s seen (acc @ [c]) cs
        | Some (is_abs, target) \<Rightarrow>
            if acc @ [c] \<in> set seen then Inl (RuntimeError ''Symlink loop'')
            else (case realpath_loose ls s ((acc @ [c]) # seen) (if is_abs then [] else acc) target of
                Inl e \<Rightarrow> Inl e
              | Inr q \<Rightarrow> realpath_loose ls s seen q cs))"
  by pat_completeness auto
termination
  by (relation "measures [\<lambda>(ls, s, seen, acc, cs). card (fst ` set ls - set seen), \<lambda>(ls, s, seen, acc, cs). length cs]")
    (auto intro: links_left)

definition resolve_loose :: "links \<Rightarrow> fs \<Rightarrow> path \<Rightarrow> path result" where
  "resolve_loose ls s p = realpath_loose ls s [] [] p"

function (sequential) kernel_path :: "links \<Rightarrow> fs \<Rightarrow> path list \<Rightarrow> path \<Rightarrow> path \<Rightarrow> path option" where
  "kernel_path ls s seen acc [] = (if fs_exists s acc then Some acc else None)"
| "kernel_path ls s seen acc (c # cs) =
     (if \<not> fs_is_dir s acc then None
      else if c = ''..'' then kernel_path ls s seen (butlast acc) cs
      else case link_at ls s (acc @ [c]) of
          None \<Rightarrow> kernel_path ls s seen (acc @ [c]) cs
        | Some (is_abs, target) \<Rightarrow>
            if acc @ [c] \<in> set seen then None
            else (case kernel_path ls s ((acc @ [c]) # seen) (if is_abs then [] else acc) target of
                None \<Rightarrow> None
              | Some q \<Rightarrow> kernel_path ls s seen q cs))"
  by pat_completeness auto
termination
  by (relation "measures [\<lambda>(ls, s, seen, acc, cs). card (fst ` set ls - set seen), \<lambda>(ls, s, seen, acc, cs). length cs]")
    (auto intro: links_left)

definition path_exists :: "links \<Rightarrow> fs \<Rightarrow> path \<Rightarrow> bool" where
  "path_exists ls s p \<longleftrightarrow> kernel_path ls s [] [] p \<noteq> None"

text \<open>
  \<^verbatim>\<open>Path.is_symlink\<close>: the kernel finds the directory of the last name, and a link in it.
\<close>

definition is_symlink :: "links \<Rightarrow> fs \<Rightarrow> path \<Rightarrow> bool" where
  "is_symlink ls s p \<longleftrightarrow> p \<noteq> [] \<and> last p \<noteq> ''..'' \<and>
     (case kernel_path ls s [] [] (butlast p) of
        Some q \<Rightarrow> fs_is_dir s q \<and> link_at ls s (q @ [last p]) \<noteq> None
      | None \<Rightarrow> False)"

section \<open>The class Workspace\<close>

definition is_relative_to :: "path \<Rightarrow> path \<Rightarrow> bool" where
  "is_relative_to p parent \<longleftrightarrow> prefix parent p"

definition normalize_rel_display :: "path \<Rightarrow> path \<Rightarrow> string" where
  "normalize_rel_display p r =
     (if prefix r p then (let rel = drop (length r) p in if rel = [] then ''.'' else join ''/'' rel) else abs_text p)"

definition display_for_path :: "workspace_env \<Rightarrow> path \<Rightarrow> string" where
  "display_for_path env p =
     (if is_relative_to p (we_root env) then normalize_rel_display p (we_root env) else abs_text p)"

definition not_found :: "'a result \<Rightarrow> 'a result" where
  "not_found r = (case r of Inl FileNotFoundError \<Rightarrow> Inl (tool_failure ''NOT_FOUND'' ''not_found'') | _ \<Rightarrow> r)"

definition resolve_existing_at :: "workspace_env \<Rightarrow> fs \<Rightarrow> path \<Rightarrow> string \<Rightarrow> ResolvedPath result" where
  "resolve_existing_at env s base raw0 =
     (let raw = (if raw0 = [] then ''.'' else raw0) in
      rbind (reject_unsafe_text raw) (\<lambda>_.
      rbind (candidate_at env base raw) (\<lambda>cand.
      rbind (not_found (resolve_strict (we_links env) s cand)) (\<lambda>p.
        Inr \<lparr>rp_display = display_for_path env p, rp_path = p, rp_existed = True\<rparr>))))"

text \<open>The nearest existing ancestor and the names below it.\<close>

function existing_parent :: "links \<Rightarrow> fs \<Rightarrow> path \<Rightarrow> path \<times> path" where
  "existing_parent ls s p =
     (if path_exists ls s p \<or> p = [] then (p, [])
      else (case existing_parent ls s (butlast p) of (q, names) \<Rightarrow> (q, names @ [last p])))"
  by pat_completeness auto
termination
  by (relation "measure (\<lambda>(ls, s, p). length p)") auto

declare existing_parent.simps [simp del]

definition resolve_for_write_at :: "workspace_env \<Rightarrow> fs \<Rightarrow> path \<Rightarrow> string \<Rightarrow> ResolvedPath result" where
  "resolve_for_write_at env s base raw =
     rbind (reject_unsafe_text raw) (\<lambda>pure.
       if pure = [] \<or> last pure \<in> {[], ''.'', ''..''} then Inl (tool_failure ''INVALID_ARGUMENT'' ''validation'')
       else rbind (candidate_at env base raw) (\<lambda>cand.
         if path_exists (we_links env) s cand \<or> is_symlink (we_links env) s cand then
           rbind (not_found (resolve_strict (we_links env) s cand)) (\<lambda>p.
             Inr \<lparr>rp_display = display_for_path env p, rp_path = p, rp_existed = True\<rparr>)
         else (case existing_parent (we_links env) s (butlast cand) of (q, names) \<Rightarrow>
           rbind (not_found (resolve_strict (we_links env) s q)) (\<lambda>parent.
             let target = parent @ names @ [if cand = [] then [] else last cand] in
             Inr \<lparr>rp_display = display_for_path env target, rp_path = target, rp_existed = False\<rparr>))))"

definition validate_base :: "workspace_env \<Rightarrow> fs \<Rightarrow> path \<Rightarrow> path result" where
  "validate_base env s base =
     rbind (not_found (resolve_strict (we_links env) s base)) (\<lambda>p.
       if fs_is_dir s p then Inr p else Inl (tool_failure ''NOT_A_DIRECTORY'' ''validation''))"

definition reject_write_symlink :: "workspace_env \<Rightarrow> fs \<Rightarrow> path \<Rightarrow> string \<Rightarrow> unit result" where
  "reject_write_symlink env s base raw =
     rbind (reject_unsafe_text raw) (\<lambda>_.
     rbind (validate_base env s base) (\<lambda>b.
     rbind (candidate_at env b raw) (\<lambda>cand.
       if is_symlink (we_links env) s cand then Inl (tool_failure ''SYMLINK_ESCAPE'' ''security'') else Inr ())))"

definition is_safe_existing_path :: "workspace_env \<Rightarrow> fs \<Rightarrow> path \<Rightarrow> bool result" where
  "is_safe_existing_path env s p =
     (case resolve_strict (we_links env) s p of
        Inl FileNotFoundError \<Rightarrow> Inr False
      | Inl e \<Rightarrow> Inl e
      | Inr q \<Rightarrow> Inr (is_relative_to q (we_root env)))"

text \<open>The constructor: neither the file system's root nor the home directory is a workspace.\<close>

definition workspace_init :: "workspace_env \<Rightarrow> fs \<Rightarrow> string \<Rightarrow> path result" where
  "workspace_init env s raw =
     rbind (expanduser env raw) (\<lambda>(is_abs, ps).
     rbind (resolve_strict (we_links env) s (if is_abs then ps else we_process_cwd env @ ps)) (\<lambda>r.
       if \<not> fs_is_dir s r then Inl (tool_failure ''INVALID_ARGUMENT'' ''validation'')
       else if r = [] \<or> map_option (resolve_loose (we_links env) s) (we_home env []) = Some (Inr r)
       then Inl (tool_failure ''INVALID_ARGUMENT'' ''security'') else Inr r))"

section \<open>The path methods of the runtime\<close>

definition consume_additional_root :: "workspace_env \<Rightarrow> fs \<Rightarrow> path \<Rightarrow> unit result" where
  "consume_additional_root env s p =
     rbind (resolve_loose (we_links env) s p) (\<lambda>q.
       if is_relative_to q (we_root env) then Inr ()
       else if we_mode env \<noteq> ''build'' then Inl (tool_failure ''PATH_OUTSIDE_WORKSPACE'' ''security'')
       else Inr ())"

definition map_canonical_path :: "workspace_env \<Rightarrow> fs \<Rightarrow> string \<Rightarrow> string result" where
  "map_canonical_path env s raw =
     (if we_root env = we_canonical env then Inr raw
      else rbind (path_text_is_absolute env raw) (\<lambda>is_abs.
        if \<not> is_abs then Inr raw
        else rbind (expanduser env raw) (\<lambda>(a, ps).
          rbind (resolve_loose (we_links env) s (if a then ps else we_process_cwd env @ ps)) (\<lambda>cand.
            if prefix (we_canonical env) cand
            then Inr (abs_text (we_root env @ drop (length (we_canonical env)) cand)) else Inr raw))))"

definition rt_resolve_existing :: "workspace_env \<Rightarrow> fs \<Rightarrow> string \<Rightarrow> ResolvedPath result" where
  "rt_resolve_existing env s raw =
     rbind (map_canonical_path env s raw) (\<lambda>m.
     rbind (resolve_existing_at env s (we_default_cwd env) m) (\<lambda>r.
     rbind (consume_additional_root env s (rp_path r)) (\<lambda>_. Inr r)))"

definition rt_resolve_for_write :: "workspace_env \<Rightarrow> fs \<Rightarrow> string \<Rightarrow> ResolvedPath result" where
  "rt_resolve_for_write env s raw =
     rbind (map_canonical_path env s raw) (\<lambda>m.
     rbind (resolve_for_write_at env s (we_default_cwd env) m) (\<lambda>r.
     rbind (consume_additional_root env s (rp_path r)) (\<lambda>_. Inr r)))"

definition protected_part :: "string \<Rightarrow> bool" where
  "protected_part c \<longleftrightarrow> c \<in> {''.git'', ''.ssh'', ''.aws'', ''.gnupg'', ''.kube''} \<or> startswith c ''.devmcp-''"

definition environment_part :: "string \<Rightarrow> bool" where
  "environment_part c \<longleftrightarrow> c \<noteq> ''.env.example'' \<and> (c = ''.env'' \<or> startswith c ''.env.'')"

definition validate_transaction_relative_path :: "string \<Rightarrow> unit result" where
  "validate_transaction_relative_path raw =
     (let parts = path_parts raw; unsafe = Inl (tool_failure_with ''TRANSACTION_UNSAFE_CHANGE'' ''security'' [(''path'', JStr raw)]) in
      if startswith raw ''/'' \<or> (\<exists>c \<in> set parts. c \<in> {[], ''.'', ''..''}) then unsafe
      else if \<exists>c \<in> set parts. protected_part c then unsafe
      else if \<exists>c \<in> set parts. environment_part c then unsafe
      else rbind (reject_unsafe_text raw) (\<lambda>_. Inr ()))"

section \<open>Proper paths and their displays\<close>

text \<open>The names of a path are neither empty nor a dot and contain no slash.\<close>

definition proper :: "path \<Rightarrow> bool" where
  "proper p \<longleftrightarrow> (\<forall>n \<in> set p. n \<noteq> [] \<and> n \<noteq> ''.'' \<and> CHR ''/'' \<notin> set n)"

definition ws_ok :: "workspace_env \<Rightarrow> bool" where
  "ws_ok env \<longleftrightarrow> proper (we_root env) \<and> proper (we_canonical env) \<and> proper (we_default_cwd env) \<and>
     proper (we_process_cwd env) \<and> (\<forall>h \<in> ran (we_home env). proper h) \<and>
     list_all (\<lambda>(_, _, t). proper t) (we_links env)"

lemma proper_simps [simp]:
  "proper []" "proper (p @ q) \<longleftrightarrow> proper p \<and> proper q"
  "proper (n # p) \<longleftrightarrow> n \<noteq> [] \<and> n \<noteq> ''.'' \<and> CHR ''/'' \<notin> set n \<and> proper p"
  by (auto simp: proper_def)

lemma proper_names: "proper p \<Longrightarrow> list_all (\<lambda>c. c \<noteq> [] \<and> c \<noteq> ''.'' \<and> CHR ''/'' \<notin> set c) p"
  by (auto simp: proper_def list_all_iff)

lemma proper_subset: "proper p \<Longrightarrow> set q \<subseteq> set p \<Longrightarrow> proper q"
  by (auto simp: proper_def)

lemma proper_butlast [simp]: "proper p \<Longrightarrow> proper (butlast p)"
  by (auto intro: proper_subset dest: in_set_butlastD)

lemma proper_tl [simp]: "proper p \<Longrightarrow> proper (tl p)"
  by (cases p) auto

lemma proper_parts [simp]: "proper (path_parts raw)"
  by (auto simp: proper_def path_parts_def split_on_no_sep)

lemma ws_okD:
  assumes "ws_ok env"
  shows "proper (we_root env)" "proper (we_canonical env)" "proper (we_default_cwd env)"
    "proper (we_process_cwd env)" "we_home env u = Some h \<Longrightarrow> proper h"
    "link_at (we_links env) s p = Some (a, t) \<Longrightarrow> proper t"
proof -
  show "link_at (we_links env) s p = Some (a, t) \<Longrightarrow> proper t"
    using assms by (force simp: ws_ok_def link_at_def list_all_iff split: if_splits dest: map_of_SomeD)
qed (use assms in \<open>auto simp: ws_ok_def ranI\<close>)

lemma path_parts_join: "proper p \<Longrightarrow> p \<noteq> [] \<Longrightarrow> path_parts (join ''/'' p) = p"
  by (auto simp: path_parts_def split_on_join proper_def intro!: filter_True)

lemma abs_text_join: "p \<noteq> [] \<Longrightarrow> abs_text p = ''/'' @ join ''/'' p"
  by (induction p rule: induct_list012) (auto simp: abs_text_def)

lemma path_parts_abs: "proper p \<Longrightarrow> path_parts (abs_text p) = p"
proof (cases "p = []")
  case True
  then show ?thesis by (simp add: abs_text_def path_parts_def)
next
  case False
  have "path_parts (''/'' @ t) = path_parts t" for t by (simp add: path_parts_def)
  moreover assume "proper p"
  ultimately show ?thesis using False by (simp add: abs_text_join path_parts_join del: append_Cons append_Nil)
qed

text \<open>The path that a display names.\<close>

definition path_of_display :: "workspace_env \<Rightarrow> string \<Rightarrow> path" where
  "path_of_display env d = (if startswith d ''/'' then path_parts d else we_root env @ path_parts d)"

lemma join_relative:
  assumes "proper p" "p \<noteq> []"
  shows "\<not> startswith (join ''/'' p) ''/''" "join ''/'' p \<noteq> []"
proof -
  obtain c n q where "p = (c # n) # q" "c \<noteq> CHR ''/''"
    using assms by (cases p; cases "hd p") auto
  then show "\<not> startswith (join ''/'' p) ''/''" "join ''/'' p \<noteq> []"
    by (cases q; simp add: startswith_def)+
qed

lemma abs_text_absolute: "startswith (abs_text p) ''/''"
  by (cases p) (simp_all add: abs_text_def startswith_def)

lemma path_of_display_for_path:
  assumes "proper p"
  shows "path_of_display env (display_for_path env p) = p"
proof (cases "prefix (we_root env) p")
  case False
  then show ?thesis
    using assms by (simp add: display_for_path_def is_relative_to_def path_of_display_def path_parts_abs abs_text_absolute)
next
  case True
  then obtain q where q: "p = we_root env @ q" by (auto simp: prefix_def)
  with assms show ?thesis
    by (cases "q = []")
      (simp_all add: display_for_path_def is_relative_to_def normalize_rel_display_def path_of_display_def
        path_parts_join join_relative startswith_def [of "''.''"] path_parts_def [of "''.''"])
qed

lemma display_inj: "proper p \<Longrightarrow> proper q \<Longrightarrow> display_for_path env p = display_for_path env q \<longleftrightarrow> p = q"
  using path_of_display_for_path [of p env] path_of_display_for_path [of q env] by metis

section \<open>Resolved paths\<close>

lemma expanduser_proper: "expanduser env raw = Inr (a, ps) \<Longrightarrow> ws_ok env \<Longrightarrow> proper ps"
  by (auto simp: expanduser_def Let_def ws_okD(5) split: if_splits option.splits)

lemma candidate_proper: "candidate_at env base raw = Inr p \<Longrightarrow> ws_ok env \<Longrightarrow> proper base \<Longrightarrow> proper p"
  by (auto simp: candidate_at_def result_simps ws_okD dest: expanduser_proper split: if_splits prod.splits)

text \<open>A property of the places that the strict walk goes through, with a property of the names it takes.\<close>

lemma realpath_invariant:
  assumes "realpath ls s seen acc p = Inr q" "I acc" "list_all N p"
    and root: "I []" and up: "\<And>x. I x \<Longrightarrow> I (butlast x)"
    and down: "\<And>x c. I x \<Longrightarrow> N c \<Longrightarrow> c \<noteq> ''..'' \<Longrightarrow> fs_exists s (x @ [c]) \<Longrightarrow> I (x @ [c])"
    and targets: "\<And>l a t. link_at ls s l = Some (a, t) \<Longrightarrow> list_all N t"
  shows "I q"
  using assms(1-3) down targets
proof (induction ls s seen acc p arbitrary: q rule: realpath.induct)
  case (2 ls s seen acc c cs)
  show ?case
  proof (cases "c = ''..''")
    case True
    with 2 up show ?thesis by simp
  next
    case False
    then have d: "map_of s acc = Some Dir" using "2.prems"(1) by (auto split: option.splits node.splits)
    show ?thesis
    proof (cases "link_at ls s (acc @ [c])")
      case None
      with False d "2.prems"(1) have ex: "fs_exists s (acc @ [c])" "realpath ls s seen (acc @ [c]) cs = Inr q"
        by (auto split: if_splits)
      have "I (acc @ [c])" using "2.prems"(2,3,4) False ex(1) by simp
      with 2(2) [OF False d refl None ex(1,2)] "2.prems"(3-5) show ?thesis by simp
    next
      case (Some x)
      obtain a t where x: "x = (a, t)" by (cases x)
      obtain q' where k: "acc @ [c] \<notin> set seen" "realpath ls s ((acc @ [c]) # seen) (if a then [] else acc) t = Inr q'"
        "realpath ls s seen q' cs = Inr q"
        using "2.prems"(1) False d Some x by (auto split: if_splits sum.splits)
      have "I (if a then [] else acc)" "list_all N t" using root "2.prems"(2,5) Some x by auto
      then have "I q'" using 2(3) [OF False d refl Some x [symmetric] k(1) k(2)] "2.prems"(4,5) by simp
      then show ?thesis using 2(4) [OF False d refl Some x [symmetric] k(1) k(2) k(3)] "2.prems"(3-5) by simp
    qed
  qed
qed simp

lemma realpath_names:
  assumes "realpath ls s seen acc p = Inr q" "\<And>l a t. link_at ls s l = Some (a, t) \<Longrightarrow> proper t" "proper acc" "proper p"
  shows "proper q"
  by (rule realpath_invariant [OF assms(1), where I = proper and N = "\<lambda>c. c \<noteq> [] \<and> c \<noteq> ''.'' \<and> CHR ''/'' \<notin> set c"])
    (use assms in \<open>auto dest: proper_names\<close>)

lemma realpath_clean: "realpath ls s seen acc p = Inr q \<Longrightarrow> ''..'' \<notin> set acc \<Longrightarrow> ''..'' \<notin> set q"
  by (erule realpath_invariant [where I = "\<lambda>x. ''..'' \<notin> set x" and N = "\<lambda>c. True"])
    (auto dest: in_set_butlastD simp: list_all_iff)

lemma not_found_Inr [simp]: "not_found r = Inr x \<longleftrightarrow> r = Inr x"
  by (auto simp: not_found_def split: sum.splits pyexn.splits)

lemma existing_parent_append: "existing_parent ls s p = (q, names) \<Longrightarrow> q @ names = p"
proof (induction ls s p arbitrary: q names rule: existing_parent.induct)
  case (1 ls s p)
  show ?case
  proof (cases "path_exists ls s p \<or> p = []")
    case True
    with 1(2) show ?thesis by (subst (asm) existing_parent.simps) auto
  next
    case False
    obtain q' n where e: "existing_parent ls s (butlast p) = (q', n)" by force
    from 1(1) [OF False e] False 1(2) e show ?thesis
      by (subst (asm) existing_parent.simps) (auto simp flip: append_assoc)
  qed
qed

text \<open>The strict walk ends at a node of the tree whose ancestors are nodes of the tree: no link is left in it.\<close>

lemma realpath_exists:
  assumes "realpath ls s seen acc p = Inr q" "fs_exists s []" "\<forall>k. fs_exists s (take k acc)"
  shows "\<forall>k. fs_exists s (take k q)"
proof (rule realpath_invariant [OF assms(1), where I = "\<lambda>x. \<forall>k. fs_exists s (take k x)" and N = "\<lambda>c. True"])
  show "\<forall>k. fs_exists s (take k (butlast x))" if "\<forall>k. fs_exists s (take k x)" for x
    using that by (simp add: butlast_conv_take take_take)
  show "\<forall>k. fs_exists s (take k (x @ [c]))" if "\<forall>k. fs_exists s (take k x)" "fs_exists s (x @ [c])" for x c
  proof
    show "fs_exists s (take k (x @ [c]))" for k using that by (cases "k \<le> length x") (auto simp: take_Cons')
  qed
qed (use assms(2,3) in \<open>simp_all add: list_all_iff\<close>)

lemma resolve_strict_exists: "resolve_strict ls s p = Inr q \<Longrightarrow> fs_is_dir s [] \<Longrightarrow> \<forall>k. fs_exists s (take k q)"
  by (rule realpath_exists) (auto simp: resolve_strict_def fs_is_dir_def fs_exists_def)

lemma resolve_strict_names:
  assumes "resolve_strict (we_links env) s p = Inr q" "ws_ok env"
  shows "proper p \<Longrightarrow> proper q" "''..'' \<notin> set q"
  using realpath_names [OF assms(1) [unfolded resolve_strict_def] ws_okD(6) [OF assms(2)]]
    realpath_clean [OF assms(1) [unfolded resolve_strict_def]] by simp_all

text \<open>A path of nodes is where the strict walk leads.\<close>

lemma realpath_nodes:
  "realpath ls s seen acc p = Inr q \<Longrightarrow> ''..'' \<notin> set p \<Longrightarrow> \<forall>k. fs_exists s (acc @ take k p) \<Longrightarrow> q = acc @ p"
proof (induction p arbitrary: acc)
  case (Cons c p)
  have n: "fs_exists s ((acc @ [c]) @ take k p)" for k using Cons.prems(3) [rule_format, of "Suc k"] by simp
  then have "link_at ls s (acc @ [c]) = None" using n [of 0] by (simp add: link_at_def)
  with n Cons.prems(1,2) Cons.IH [of "acc @ [c]"] show ?case by (auto split: if_splits option.splits node.splits)
qed simp

lemma resolve_strict_nodes:
  "resolve_strict ls s p = Inr q \<Longrightarrow> ''..'' \<notin> set p \<Longrightarrow> \<forall>k. fs_exists s (take k p) \<Longrightarrow> q = p"
  using realpath_nodes [of ls s "[]" "[]" p q] by (simp add: resolve_strict_def)

text \<open>Where no name is \<^verbatim>\<open>..\<close> and no link lies on the way, the loose walk changes nothing.\<close>

lemma realpath_loose_clean:
  "''..'' \<notin> set p \<Longrightarrow> (\<And>k. link_at ls s (acc @ take k p) = None) \<Longrightarrow> realpath_loose ls s seen acc p = Inr (acc @ p)"
proof (induction p arbitrary: acc)
  case (Cons c p)
  have "link_at ls s (acc @ [c]) = None" using Cons.prems(2) [of 1] by simp
  moreover have "link_at ls s ((acc @ [c]) @ take k p) = None" for k using Cons.prems(2) [of "Suc k"] by simp
  ultimately show ?case using Cons.IH [of "acc @ [c]"] Cons.prems(1) by auto
qed simp

lemma resolve_loose_clean:
  "''..'' \<notin> set p \<Longrightarrow> (\<And>k. link_at ls s (take k p) = None) \<Longrightarrow> resolve_loose ls s p = Inr p"
  unfolding resolve_loose_def using realpath_loose_clean [of p ls s "[]" "[]"] by simp

text \<open>The place that is opened lies under the root.\<close>

definition confined :: "workspace_env \<Rightarrow> fs \<Rightarrow> path \<Rightarrow> bool" where
  "confined env s p \<longleftrightarrow> (case resolve_loose (we_links env) s p of Inr q \<Rightarrow> prefix (we_root env) q | Inl _ \<Rightarrow> False)"

lemma consume_Inr:
  "consume_additional_root env s p = Inr () \<Longrightarrow> confined env s p \<or> we_mode env = ''build''"
  by (auto simp: consume_additional_root_def confined_def is_relative_to_def result_simps split: if_splits)

lemma rt_resolve_existingD:
  assumes "rt_resolve_existing env s raw = Inr r" "ws_ok env"
  shows "proper (rp_path r)" "''..'' \<notin> set (rp_path r)" "rp_display r = display_for_path env (rp_path r)"
    "rp_existed r" "fs_is_dir s [] \<Longrightarrow> \<forall>k. fs_exists s (take k (rp_path r))"
    "confined env s (rp_path r) \<or> we_mode env = ''build''"
proof -
  from assms(1) obtain base p cand where c: "candidate_at env (we_default_cwd env) base = Inr cand"
    "resolve_strict (we_links env) s cand = Inr p"
    and r: "r = \<lparr>rp_display = display_for_path env p, rp_path = p, rp_existed = True\<rparr>"
    "consume_additional_root env s p = Inr ()"
    by (auto simp: rt_resolve_existing_def resolve_existing_at_def Let_def result_simps)
  with assms(2) show "proper (rp_path r)" "''..'' \<notin> set (rp_path r)" "rp_display r = display_for_path env (rp_path r)"
    "rp_existed r" "fs_is_dir s [] \<Longrightarrow> \<forall>k. fs_exists s (take k (rp_path r))"
    "confined env s (rp_path r) \<or> we_mode env = ''build''"
    using candidate_proper [OF c(1)] resolve_strict_names [OF c(2) assms(2)] resolve_strict_exists [OF c(2)] consume_Inr [OF r(2)]
    by (simp_all add: ws_okD)
qed

lemma resolve_for_write_atD:
  assumes "resolve_for_write_at env s base raw = Inr r" "ws_ok env" "proper base" "fs_is_dir s []"
  shows "proper (rp_path r)" "rp_display r = display_for_path env (rp_path r)"
    "rp_existed r \<Longrightarrow> ''..'' \<notin> set (rp_path r)"
proof -
  from assms(1) obtain cand where c: "candidate_at env base raw = Inr cand"
    and step: "(if path_exists (we_links env) s cand \<or> is_symlink (we_links env) s cand then
           rbind (not_found (resolve_strict (we_links env) s cand)) (\<lambda>p.
             Inr \<lparr>rp_display = display_for_path env p, rp_path = p, rp_existed = True\<rparr>)
         else (case existing_parent (we_links env) s (butlast cand) of (q, names) \<Rightarrow>
           rbind (not_found (resolve_strict (we_links env) s q)) (\<lambda>parent.
             let target = parent @ names @ [if cand = [] then [] else last cand] in
             Inr \<lparr>rp_display = display_for_path env target, rp_path = target, rp_existed = False\<rparr>))) = Inr r"
    by (auto simp: resolve_for_write_at_def result_simps simp del: not_found_Inr split: if_splits)
  have cp: "proper cand" using c assms(2,3) by (rule candidate_proper)
  have "proper (rp_path r) \<and> rp_display r = display_for_path env (rp_path r) \<and> (rp_existed r \<longrightarrow> ''..'' \<notin> set (rp_path r))"
  proof (cases "path_exists (we_links env) s cand \<or> is_symlink (we_links env) s cand")
    case True
    then show ?thesis
      using step cp assms(2) by (auto simp: result_simps dest: resolve_strict_names)
  next
    case False
    then have ne: "cand \<noteq> []"
      using assms(4) by (auto simp: path_exists_def fs_is_dir_def fs_exists_def)
    obtain q names where e: "existing_parent (we_links env) s (butlast cand) = (q, names)" by force
    then have "proper (q @ names)" using cp existing_parent_append [OF e] by simp
    moreover have "proper [last cand]"
      by (rule proper_subset [OF cp]) (use ne in simp)
    ultimately show ?thesis
      using False step e ne assms(2) by (auto simp: result_simps Let_def dest: resolve_strict_names)
  qed
  then show "proper (rp_path r)" "rp_display r = display_for_path env (rp_path r)"
    "rp_existed r \<Longrightarrow> ''..'' \<notin> set (rp_path r)" by blast+
qed

lemma rt_resolve_for_writeD:
  assumes "rt_resolve_for_write env s raw = Inr r" "ws_ok env" "fs_is_dir s []"
  shows "proper (rp_path r)" "rp_display r = display_for_path env (rp_path r)"
    "rp_existed r \<Longrightarrow> ''..'' \<notin> set (rp_path r)"
    "confined env s (rp_path r) \<or> we_mode env = ''build''"
proof -
  from assms(1) obtain m where m: "resolve_for_write_at env s (we_default_cwd env) m = Inr r"
    and "consume_additional_root env s (rp_path r) = Inr ()"
    by (auto simp: rt_resolve_for_write_def result_simps)
  then show "proper (rp_path r)" "rp_display r = display_for_path env (rp_path r)"
    "rp_existed r \<Longrightarrow> ''..'' \<notin> set (rp_path r)"
    "confined env s (rp_path r) \<or> we_mode env = ''build''"
    using resolve_for_write_atD [OF m assms(2) ws_okD(3) [OF assms(2)] assms(3)] by (simp_all add: consume_Inr)
qed

text \<open>In a tree whose nodes lie in directories, a target that does not exist names no node.\<close>

definition tree_ok :: "fs \<Rightarrow> bool" where
  "tree_ok s \<longleftrightarrow> fs_is_dir s [] \<and> list_all (\<lambda>e. fst e = [] \<or> fs_is_dir s (butlast (fst e))) s"

lemma tree_ok_parent: "tree_ok s \<Longrightarrow> fs_exists s (p @ c # q) \<Longrightarrow> fs_is_dir s p"
proof (induction q rule: rev_induct)
  case Nil
  then obtain n where "(p @ [c], n) \<in> set s" by (auto simp: fs_exists_def dest: map_of_SomeD)
  with Nil(1) show ?case by (force simp: tree_ok_def list_all_iff)
next
  case (snoc x q)
  then obtain n where "(p @ c # q @ [x], n) \<in> set s" by (auto simp: fs_exists_def dest: map_of_SomeD)
  with snoc(2) have "fs_is_dir s (butlast (p @ c # q @ [x]))" by (force simp: tree_ok_def list_all_iff)
  with snoc show ?case by (simp add: butlast_append fs_exists_def fs_is_dir_def)
qed

lemma kernel_path_clean:
  "tree_ok s \<Longrightarrow> fs_exists s (acc @ p) \<Longrightarrow> ''..'' \<notin> set p \<Longrightarrow> kernel_path ls s seen acc p = Some (acc @ p)"
proof (induction p arbitrary: acc)
  case (Cons c p)
  then have d: "fs_is_dir s acc" using tree_ok_parent by blast
  have "fs_exists s (acc @ [c])"
    using Cons.prems tree_ok_parent [of s "acc @ [c]"] by (cases p) (auto simp: fs_is_dir_def fs_exists_def)
  then have "link_at ls s (acc @ [c]) = None" by (simp add: link_at_def)
  with d Cons.prems Cons.IH [of "acc @ [c]"] show ?case by auto
qed simp

lemma kernel_path_append:
  "kernel_path ls s seen acc p = Some q \<Longrightarrow> kernel_path ls s seen acc (p @ r) = kernel_path ls s seen q r"
  by (induction ls s seen acc p arbitrary: q rule: kernel_path.induct) (auto split: if_splits option.splits prod.splits)

lemma kernel_path_exists: "kernel_path ls s seen acc p = Some q \<Longrightarrow> fs_exists s acc"
  by (cases p) (auto simp: fs_is_dir_def fs_exists_def split: if_splits)

text \<open>What the kernel finds is what the strict walk returns.\<close>

lemma kernel_realpath: "kernel_path ls s seen acc p = Some q \<Longrightarrow> realpath ls s seen acc p = Inr q"
proof (induction ls s seen acc p arbitrary: q rule: kernel_path.induct)
  case (2 ls s seen acc c cs)
  then have d: "map_of s acc = Some Dir" by (auto simp: fs_is_dir_def split: if_splits)
  show ?case
  proof (cases "c = ''..'' \<or> link_at ls s (acc @ [c]) = None")
    case True
    with 2 d show ?thesis
      by (auto dest: kernel_path_exists split: if_splits)
  next
    case False
    then obtain a t where l: "link_at ls s (acc @ [c]) = Some (a, t)" by auto
    then obtain q' where k: "acc @ [c] \<notin> set seen" "kernel_path ls s seen q' cs = Some q"
      "kernel_path ls s ((acc @ [c]) # seen) (if a then [] else acc) t = Some q'"
      using "2.prems" False by (auto split: if_splits option.splits)
    have "realpath ls s ((acc @ [c]) # seen) (if a then [] else acc) t = Inr q'"
      using 2 k l False d by (auto simp: fs_is_dir_def)
    moreover have "realpath ls s seen q' cs = Inr q"
      using 2 k l False d by (auto simp: fs_is_dir_def)
    ultimately show ?thesis using False l k(1) d by simp
  qed
qed (simp split: if_splits)

lemma existing_parent_exists: "existing_parent ls s p = (q, names) \<Longrightarrow> tree_ok s \<Longrightarrow> path_exists ls s q"
proof (induction ls s p arbitrary: q names rule: existing_parent.induct)
  case (1 ls s p)
  show ?case
  proof (cases "path_exists ls s p \<or> p = []")
    case True
    with 1(2,3) show ?thesis
      by (subst (asm) existing_parent.simps) (auto simp: path_exists_def tree_ok_def fs_is_dir_def fs_exists_def)
  next
    case False
    obtain q' n where e: "existing_parent ls s (butlast p) = (q', n)" by force
    from 1(1) [OF False e 1(3)] False 1(2) e show ?thesis
      by (subst (asm) existing_parent.simps) auto
  qed
qed

lemma fresh_target:
  assumes "rt_resolve_for_write env s raw = Inr r" "tree_ok s" "\<not> rp_existed r" "''..'' \<notin> set (rp_path r)"
  shows "\<not> fs_exists s (rp_path r)"
proof
  assume ex: "fs_exists s (rp_path r)"
  let ?l = "we_links env"
  from assms(1,3) obtain cand q names parent where c: "\<not> path_exists ?l s cand"
    "existing_parent ?l s (butlast cand) = (q, names)" "resolve_strict ?l s q = Inr parent"
    and r: "rp_path r = parent @ names @ [if cand = [] then [] else last cand]"
    by (auto simp: rt_resolve_for_write_def resolve_for_write_at_def result_simps Let_def
        split: if_splits prod.splits)
  have root: "path_exists ?l s []" using assms(2) by (auto simp: path_exists_def tree_ok_def fs_is_dir_def fs_exists_def)
  with c(1) have ne: "cand \<noteq> []" by auto
  obtain p where k: "kernel_path ?l s [] [] q = Some p"
    using existing_parent_exists [OF c(2) assms(2)] by (auto simp: path_exists_def)
  have "p = parent" using kernel_realpath [OF k] c(3) by (simp add: resolve_strict_def)
  moreover have "cand = q @ names @ [last cand]"
    using ne existing_parent_append [OF c(2)] by (simp flip: append_assoc)
  ultimately have "kernel_path ?l s [] [] cand = kernel_path ?l s [] parent (names @ [last cand])"
    using kernel_path_append [OF k] by metis
  also have "\<dots> = Some (rp_path r)"
    using kernel_path_clean [of s parent "names @ [last cand]"] assms(2,4) ex r ne by simp
  finally show False using c(1) by (simp add: path_exists_def)
qed

lemma link_free_nodes: "\<forall>k. fs_exists s (take k p) \<Longrightarrow> link_at ls s (take k p) = None"
  by (simp add: link_at_def)

lemma confined_path:
  assumes "confined env s (rp_path r)" "''..'' \<notin> set (rp_path r)" "\<And>k. link_at (we_links env) s (take k (rp_path r)) = None"
    "proper (rp_path r)" "rp_display r = display_for_path env (rp_path r)"
  shows "\<exists>rel. rp_path r = we_root env @ rel \<and> proper rel \<and> ''..'' \<notin> set rel \<and>
    rp_display r = (if rel = [] then ''.'' else join ''/'' rel)"
proof -
  from assms(1) resolve_loose_clean [OF assms(2,3)] obtain rel where "rp_path r = we_root env @ rel"
    by (auto simp: confined_def prefix_def)
  with assms(2,4,5) show ?thesis
    by (auto simp: display_for_path_def is_relative_to_def normalize_rel_display_def)
qed

section \<open>Theorem\<close>

text \<open>
  A small workspace for the witnesses: \<^verbatim>\<open>/w\<close> with a directory \<^verbatim>\<open>/w/d\<close>, and a file \<^verbatim>\<open>/s\<close> outside; and the
  same with links: \<^verbatim>\<open>/w/in\<close> to \<^verbatim>\<open>d\<close>, \<^verbatim>\<open>/w/out\<close> to \<^verbatim>\<open>/s\<close>, \<^verbatim>\<open>/w/up\<close> to \<^verbatim>\<open>..\<close>, and \<^verbatim>\<open>/w/lost\<close> to a missing \<^verbatim>\<open>/n\<close>.
\<close>

definition demo_ws :: "string \<Rightarrow> workspace_env" where
  "demo_ws mode = \<lparr>we_root = [''w''], we_canonical = [''w''], we_default_cwd = [''w''], we_process_cwd = [''w''],
     we_home = (\<lambda>_. None), we_links = [], we_mode = mode\<rparr>"

definition linked_ws :: "string \<Rightarrow> workspace_env" where
  "linked_ws mode = (demo_ws mode)\<lparr>we_links := [([''w'', ''in''], False, [''d'']), ([''w'', ''out''], True, [''s'']),
     ([''w'', ''up''], False, [''..'']), ([''w'', ''lost''], True, [''n''])]\<rparr>"

definition demo_tree :: fs where
  "demo_tree = [([], Dir), ([''s''], File [83] 384), ([''w''], Dir), ([''w'', ''d''], Dir), ([''w'', ''a''], File [65, 10] 420)]"

lemma demo_ws_ok: "ws_ok (demo_ws mode)" "ws_ok (linked_ws mode)"
  by (simp_all add: demo_ws_def linked_ws_def ws_ok_def ran_def)

lemma demo_tree_root: "fs_is_dir demo_tree []"
  by (simp add: demo_tree_def fs_is_dir_def)

text \<open>
  C10: Outside build mode a path that a tool resolves stays in the workspace, whatever absolute path, home
  abbreviation, sequence of \<^verbatim>\<open>..\<close> or symbolic link the caller goes through.  An existing path is the root
  extended by proper names without \<^verbatim>\<open>..\<close>, every one of its ancestors is a node of the tree itself and no
  link, and its display is exactly these names.  A new path leads, when its links are followed, to a
  place under the root; and when it has no \<^verbatim>\<open>..\<close> and no dangling link in it, it has the same form.
\<close>

theorem resolved_paths_confined:
  assumes "ws_ok env" "fs_is_dir s []" "we_mode env \<noteq> ''build''"
  shows "(rt_resolve_existing env s raw = Inr r \<longrightarrow>
      (\<forall>k. fs_exists s (take k (rp_path r))) \<and> (\<exists>rel. rp_path r = we_root env @ rel \<and> proper rel \<and> ''..'' \<notin> set rel \<and>
        rp_display r = (if rel = [] then ''.'' else join ''/'' rel))) \<and>
    (rt_resolve_for_write env s raw = Inr r \<longrightarrow>
      (\<exists>q. resolve_loose (we_links env) s (rp_path r) = Inr q \<and> prefix (we_root env) q) \<and>
      (''..'' \<notin> set (rp_path r) \<and> (\<forall>k. link_at (we_links env) s (take k (rp_path r)) = None) \<longrightarrow>
        (\<exists>rel. rp_path r = we_root env @ rel \<and> proper rel \<and> ''..'' \<notin> set rel \<and>
           rp_display r = (if rel = [] then ''.'' else join ''/'' rel))))"
proof (intro conjI impI)
  assume e: "rt_resolve_existing env s raw = Inr r"
  note d = rt_resolve_existingD [OF e assms(1)]
  show n: "\<forall>k. fs_exists s (take k (rp_path r))" using d(5) assms(2) by blast
  show "\<exists>rel. rp_path r = we_root env @ rel \<and> proper rel \<and> ''..'' \<notin> set rel \<and>
      rp_display r = (if rel = [] then ''.'' else join ''/'' rel)"
    using d assms(3) link_free_nodes [OF n] by (intro confined_path) auto
next
  assume e: "rt_resolve_for_write env s raw = Inr r"
  note d = rt_resolve_for_writeD [OF e assms(1,2)]
  have p: "confined env s (rp_path r)" using d(4) assms(3) by blast
  then show "\<exists>q. resolve_loose (we_links env) s (rp_path r) = Inr q \<and> prefix (we_root env) q"
    by (auto simp: confined_def split: sum.splits)
  show "\<exists>rel. rp_path r = we_root env @ rel \<and> proper rel \<and> ''..'' \<notin> set rel \<and>
      rp_display r = (if rel = [] then ''.'' else join ''/'' rel)"
    if "''..'' \<notin> set (rp_path r) \<and> (\<forall>k. link_at (we_links env) s (take k (rp_path r)) = None)"
    using p that d by (intro confined_path) auto
qed

theorem resolved_paths_confined_witness:
  "rt_resolve_existing (linked_ws ''plan'') demo_tree ''d/../a'' =
     Inr \<lparr>rp_display = ''a'', rp_path = [''w'', ''a''], rp_existed = True\<rparr> \<and>
   rt_resolve_existing (linked_ws ''plan'') demo_tree ''in/../in'' =
     Inr \<lparr>rp_display = ''d'', rp_path = [''w'', ''d''], rp_existed = True\<rparr> \<and>
   rt_resolve_existing (linked_ws ''plan'') demo_tree ''out'' = Inl (tool_failure ''PATH_OUTSIDE_WORKSPACE'' ''security'') \<and>
   rt_resolve_for_write (linked_ws ''plan'') demo_tree ''up/x'' = Inl (tool_failure ''PATH_OUTSIDE_WORKSPACE'' ''security'') \<and>
   rt_resolve_for_write (linked_ws ''plan'') demo_tree ''lost/x'' = Inl (tool_failure ''PATH_OUTSIDE_WORKSPACE'' ''security'') \<and>
   prefix [''w''] [''w'', ''d'', ''x'']"
proof -
  have e: "rt_resolve_existing (linked_ws ''plan'') demo_tree ''d/../a'' =
      Inr \<lparr>rp_display = ''a'', rp_path = [''w'', ''a''], rp_existed = True\<rparr>"
    "rt_resolve_existing (linked_ws ''plan'') demo_tree ''in/../in'' =
      Inr \<lparr>rp_display = ''d'', rp_path = [''w'', ''d''], rp_existed = True\<rparr>"
    "rt_resolve_existing (linked_ws ''plan'') demo_tree ''out'' = Inl (tool_failure ''PATH_OUTSIDE_WORKSPACE'' ''security'')"
    "rt_resolve_for_write (linked_ws ''plan'') demo_tree ''up/x'' = Inl (tool_failure ''PATH_OUTSIDE_WORKSPACE'' ''security'')"
    "rt_resolve_for_write (linked_ws ''plan'') demo_tree ''lost/x'' = Inl (tool_failure ''PATH_OUTSIDE_WORKSPACE'' ''security'')"
    by (code_simp, code_simp, code_simp, code_simp, code_simp)
  have "rt_resolve_for_write (linked_ws ''plan'') demo_tree ''in/x'' =
      Inr \<lparr>rp_display = ''d/x'', rp_path = [''w'', ''d'', ''x''], rp_existed = False\<rparr>"
    "resolve_loose (we_links (linked_ws ''plan'')) demo_tree [''w'', ''d'', ''x''] = Inr [''w'', ''d'', ''x'']"
    by (code_simp, code_simp)
  then have "prefix [''w''] [''w'', ''d'', ''x'']"
    using resolved_paths_confined [OF demo_ws_ok(2) demo_tree_root, of "''plan''" "''in/x''"]
    by (fastforce simp: demo_ws_def linked_ws_def)
  with e show ?thesis by blast
qed

end
