(* ===== verification/PatchTool.thy ===== *)
theory PatchTool
  imports PatchText PatchCommit Workspace
begin

text \<open>
  The tool \<^verbatim>\<open>apply_patch\<close> of \<open>coding_tools_mcp/server.py\<close>: the analysis of a patch against the tree,
  the memory of patch baselines, and the commit.  It composes the parser and the hunks of \<open>PatchText\<close>,
  the paths of \<open>Workspace\<close> and the committer of \<open>PatchCommit\<close>.  \<^verbatim>\<open>difflib.unified_diff\<close>, the
  two-digit rounding of floats and the mirroring into a sandbox are parameters.  Paths enter as the
  byte strings of the operating system, displays likewise; path texts have no surrogates.  Links are
  followed where a path is resolved; a dangling link in the way of a new directory is one of the failures
  of \<^verbatim>\<open>mkdir\<close> that the system calls of the committer may have.
\<close>

section \<open>State\<close>

record patch_env =
  pe_ws :: workspace_env
  pe_os :: os
  pe_diff :: "pytext list \<Rightarrow> pytext list \<Rightarrow> string \<Rightarrow> string \<Rightarrow> pytext list"
  pe_round :: "real \<Rightarrow> real"
  pe_max_lines :: nat
  pe_max_percent :: real
  pe_sandbox :: "(string \<Rightarrow> (staged_content \<times> nat option) option \<Rightarrow> unit result) option"

record file_metrics =
  fm_path :: string
  fm_operation :: string
  fm_additions :: nat
  fm_removals :: nat
  fm_removed_existing :: nat
  fm_original :: nat
  fm_percentage :: real
  fm_risk :: string
  fm_risk_class :: string

record patch_analysis =
  an_staged :: "(string, StagedFile) dict"
  an_summaries :: "string list"
  an_affected :: "(string \<times> string) list"
  an_diff :: "pytext list"
  an_additions :: nat
  an_removals :: nat
  an_original :: nat
  an_metrics :: "file_metrics list"
  an_risk :: string

definition an_start :: patch_analysis where
  "an_start = \<lparr>an_staged = [], an_summaries = [], an_affected = [], an_diff = [], an_additions = 0,
     an_removals = 0, an_original = 0, an_metrics = [], an_risk = ''ALLOW''\<rparr>"

record patch_rt = world +
  pr_baselines :: "(string, pytext option) dict"
  pr_baseline_bytes :: nat

section \<open>Lines\<close>

text \<open>\<^verbatim>\<open>str.splitlines(keepends=True)\<close>.\<close>

fun splitlines_keep :: "pytext \<Rightarrow> pytext \<Rightarrow> pytext list" where
  "splitlines_keep cur [] = (if cur = [] then [] else [cur])"
| "splitlines_keep cur (c # cs) =
     (if is_line_break c then
        (if c = 13 then (case cs of [] \<Rightarrow> [cur @ [c]]
           | d # ds \<Rightarrow> if d = 10 then (cur @ [c, d]) # splitlines_keep [] ds else (cur @ [c]) # splitlines_keep [] cs)
         else (cur @ [c]) # splitlines_keep [] cs)
      else splitlines_keep (cur @ [c]) cs)"

definition keep_lines :: "pytext \<Rightarrow> pytext list" where
  "keep_lines t = splitlines_keep [] t"

text \<open>Lines of a unified diff with the given mark that are no file header.\<close>

definition count_marked :: "nat \<Rightarrow> pytext list \<Rightarrow> nat" where
  "count_marked m ls = length (filter (\<lambda>l. startswith l [m] \<and> \<not> startswith l [m, m, m]) ls)"

section \<open>The analysis\<close>

definition with_fs :: "(fs \<Rightarrow> 'a result) \<Rightarrow> ('a, 'z) io" where
  "with_fs f w = (f (w_fs w), w)"

definition validate_patch_path :: "patch_env \<Rightarrow> string \<Rightarrow> bool \<Rightarrow> (unit, 'z) io" where
  "validate_patch_path env raw require_existing =
     with_fs (\<lambda>s. rbind (if require_existing then rt_resolve_existing (pe_ws env) s raw
                          else rt_resolve_for_write (pe_ws env) s raw) (\<lambda>_. Inr ()))"

definition check_symlink :: "patch_env \<Rightarrow> string \<Rightarrow> (unit, 'z) io" where
  "check_symlink env raw = with_fs (\<lambda>s. reject_write_symlink (pe_ws env) s (we_default_cwd (pe_ws env)) raw)"

definition move_target :: "PatchOperation \<Rightarrow> pytext option" where
  "move_target op = (case op_move_to op of Some t \<Rightarrow> if t = [] then None else Some t | None \<Rightarrow> None)"

definition check_paths :: "patch_env \<Rightarrow> PatchOperation \<Rightarrow> (unit, 'z) io" where
  "check_paths env op =
     io_bind (validate_patch_path env (fs_name (op_path op)) (op_kind op \<in> {''update'', ''delete''})) (\<lambda>_.
     io_bind (if op_kind op \<in> {''add'', ''update'', ''delete''} then check_symlink env (fs_name (op_path op))
              else io_return ()) (\<lambda>_.
       case move_target op of
         None \<Rightarrow> io_return ()
       | Some t \<Rightarrow> io_bind (validate_patch_path env (fs_name t) False) (\<lambda>_. check_symlink env (fs_name t))))"

text \<open>What an operation reports: the counts and the risk of the file.\<close>

record op_counts =
  oc_add :: nat
  oc_rem :: nat
  oc_existing :: nat
  oc_orig :: nat
  oc_pct :: real
  oc_risk :: string

definition record_metrics :: "PatchOperation \<Rightarrow> op_counts \<Rightarrow> patch_analysis \<Rightarrow> patch_analysis" where
  "record_metrics op n a =
     a\<lparr>an_additions := an_additions a + oc_add n, an_removals := an_removals a + oc_rem n,
       an_original := an_original a + oc_orig n,
       an_metrics := an_metrics a @
         [\<lparr>fm_path = fs_name (op_path op), fm_operation = op_kind op, fm_additions = oc_add n,
           fm_removals = oc_rem n,
           fm_removed_existing = (if op_kind op = ''update'' then oc_existing n else oc_rem n),
           fm_original = oc_orig n, fm_percentage = oc_pct n, fm_risk = oc_risk n,
           fm_risk_class = (if oc_risk n = ''ASK'' then ''high'' else ''normal'')\<rparr>],
       an_risk := (if oc_risk n = ''ASK'' \<and> an_risk a \<noteq> ''DENY'' then ''ASK'' else an_risk a)\<rparr>"

definition stage :: "StagedFile \<Rightarrow> patch_analysis \<Rightarrow> patch_analysis" where
  "stage f a = a\<lparr>an_staged := dict_set (sf_display f) f (an_staged a)\<rparr>"

definition report :: "string \<Rightarrow> (string \<times> string) list \<Rightarrow> pytext list \<Rightarrow> patch_analysis \<Rightarrow> patch_analysis" where
  "report summary aff chunks a =
     a\<lparr>an_summaries := an_summaries a @ [summary], an_affected := an_affected a @ aff, an_diff := an_diff a @ chunks\<rparr>"

definition analyze_add :: "patch_env \<Rightarrow> PatchOperation \<Rightarrow> patch_analysis \<Rightarrow> (patch_analysis, 'z) io" where
  "analyze_add env op a =
     io_bind (with_fs (\<lambda>s. rt_resolve_for_write (pe_ws env) s (fs_name (op_path op)))) (\<lambda>target.
       if rp_existed target then io_raise patch_failed
       else io_bind (capture (pe_os env) (rp_path target)) (\<lambda>b.
         let new = (case op_add_content op of Some t \<Rightarrow> t | None \<Rightarrow> []); d = rp_display target in
         io_return (record_metrics op
           \<lparr>oc_add = length (splitlines new), oc_rem = 0, oc_existing = 0, oc_orig = 0, oc_pct = 0, oc_risk = ''ALLOW''\<rparr>
           (report (''A '' @ d) [(d, ''add'')] [concat (pe_diff env [] (keep_lines new) ''/dev/null'' (''b/'' @ d))]
             (stage \<lparr>sf_display = d, sf_path = rp_path target, sf_content = Some (CText new), sf_baseline = b,
                     sf_mode = None\<rparr> a)))))"

definition update_risk :: "patch_env \<Rightarrow> nat \<Rightarrow> real \<Rightarrow> string" where
  "update_risk env removed pct =
     (if pe_max_lines env < removed \<or> pe_max_percent env < pct then ''HIGH_RISK'' else ''ALLOW'')"

definition percent_of :: "patch_env \<Rightarrow> nat \<Rightarrow> nat \<Rightarrow> real" where
  "percent_of env n whole = (if 0 < whole then pe_round env (real n / real whole * 100) else 0)"

definition update_counts :: "patch_env \<Rightarrow> string \<Rightarrow> pytext \<Rightarrow> pytext \<Rightarrow> op_counts" where
  "update_counts env d orig new =
     (let diff = pe_diff env (keep_lines orig) (keep_lines new) (''a/'' @ d) (''b/'' @ d);
          n = length (splitlines orig); removed = n - length (keep_lines new); pct = percent_of env removed n in
      \<lparr>oc_add = count_marked 43 diff, oc_rem = count_marked 45 diff, oc_existing = removed, oc_orig = n,
       oc_pct = pct, oc_risk = update_risk env removed pct\<rparr>)"

definition analyze_update :: "patch_env \<Rightarrow> PatchOperation \<Rightarrow> patch_analysis \<Rightarrow> (patch_analysis, 'z) io" where
  "analyze_update env op a =
     io_bind (with_fs (\<lambda>s. rt_resolve_existing (pe_ws env) s (fs_name (op_path op)))) (\<lambda>source.
     io_bind (with_fs (\<lambda>s. Inr (fs_is_dir s (rp_path source)))) (\<lambda>is_dir.
       if is_dir then io_raise patch_failed
       else
         let d = rp_display source; prior = map_of (an_staged a) d in
         if (case prior of Some f \<Rightarrow> sf_content f = None | None \<Rightarrow> False) then io_raise patch_failed
         else io_bind (case prior of Some f \<Rightarrow> io_return (sf_baseline f) | None \<Rightarrow> capture (pe_os env) (rp_path source)) (\<lambda>b.
           io_bind (with_fs (\<lambda>_. case prior of
                Some f \<Rightarrow> (case sf_content f of Some (CText t) \<Rightarrow> Inr t | _ \<Rightarrow> Inl patch_failed)
              | None \<Rightarrow> baseline_text b)) (\<lambda>orig.
           io_bind (with_fs (\<lambda>_. apply_update_hunks orig (op_hunks op))) (\<lambda>new.
             io_return (record_metrics op (update_counts env d orig new)
               (report (''M '' @ d) [(d, ''update'')]
                  [concat (pe_diff env (keep_lines orig) (keep_lines new) (''a/'' @ d) (''b/'' @ d))]
                  (stage \<lparr>sf_display = d, sf_path = rp_path source, sf_content = Some (CText new), sf_baseline = b,
                          sf_mode = fb_mode b\<rparr> a))))))))"

definition analyze_delete :: "patch_env \<Rightarrow> PatchOperation \<Rightarrow> patch_analysis \<Rightarrow> (patch_analysis, 'z) io" where
  "analyze_delete env op a =
     io_bind (with_fs (\<lambda>s. rt_resolve_existing (pe_ws env) s (fs_name (op_path op)))) (\<lambda>source.
     io_bind (with_fs (\<lambda>s. Inr (fs_is_dir s (rp_path source)))) (\<lambda>is_dir.
       if is_dir then io_raise patch_failed
       else io_bind (capture (pe_os env) (rp_path source)) (\<lambda>b.
         let d = rp_display source; orig = decode_replace (case fb_data b of Some x \<Rightarrow> x | None \<Rightarrow> []);
             n = length (splitlines orig) in
         io_return (record_metrics op
           \<lparr>oc_add = 0, oc_rem = n, oc_existing = n, oc_orig = n, oc_pct = (if n = 0 then 0 else 100), oc_risk = ''ALLOW''\<rparr>
           (report (''D '' @ d) [(d, ''delete'')] [concat (pe_diff env (keep_lines orig) [] (''a/'' @ d) ''/dev/null'')]
             (stage \<lparr>sf_display = d, sf_path = rp_path source, sf_content = None, sf_baseline = b, sf_mode = None\<rparr> a))))))"

definition analyze_move :: "patch_env \<Rightarrow> PatchOperation \<Rightarrow> patch_analysis \<Rightarrow> (patch_analysis, 'z) io" where
  "analyze_move env op a =
     (case move_target op of
        None \<Rightarrow> io_raise patch_failed
      | Some t \<Rightarrow>
          io_bind (with_fs (\<lambda>s. rt_resolve_existing (pe_ws env) s (fs_name (op_path op)))) (\<lambda>source.
          io_bind (with_fs (\<lambda>s. rt_resolve_for_write (pe_ws env) s (fs_name t))) (\<lambda>target.
          io_bind (with_fs (\<lambda>s. Inr (fs_is_dir s (rp_path source)))) (\<lambda>is_dir.
            if is_dir then io_raise patch_failed
            else if rp_existed target then io_raise patch_failed
            else io_bind (capture (pe_os env) (rp_path source)) (\<lambda>b.
              io_bind (with_fs (\<lambda>_. baseline_text b)) (\<lambda>text.
              io_bind (capture (pe_os env) (rp_path target)) (\<lambda>tb.
                let d = rp_display source; e = rp_display target; n = length (splitlines text) in
                io_return (record_metrics op
                  \<lparr>oc_add = n, oc_rem = n, oc_existing = 0, oc_orig = n, oc_pct = 0, oc_risk = ''ALLOW''\<rparr>
                  (report (''M '' @ d @ '' -> '' @ e) [(d, ''move_from''), (e, ''move_to'')]
                    [concat (pe_diff env (keep_lines text) [] (''a/'' @ d) ''/dev/null''),
                     concat (pe_diff env [] (keep_lines text) ''/dev/null'' (''b/'' @ e))]
                    (stage \<lparr>sf_display = e, sf_path = rp_path target, sf_content = Some (CText text), sf_baseline = tb,
                            sf_mode = fb_mode b\<rparr>
                      (stage \<lparr>sf_display = d, sf_path = rp_path source, sf_content = None, sf_baseline = b,
                              sf_mode = None\<rparr> a)))))))))))"

definition analyze_op :: "patch_env \<Rightarrow> PatchOperation \<Rightarrow> patch_analysis \<Rightarrow> (patch_analysis, 'z) io" where
  "analyze_op env op a =
     io_bind (check_paths env op) (\<lambda>_.
       if op_kind op = ''add'' then analyze_add env op a
       else if op_kind op = ''update'' then analyze_update env op a
       else if op_kind op = ''delete'' then analyze_delete env op a
       else analyze_move env op a)"

fun analyze_ops :: "patch_env \<Rightarrow> PatchOperation list \<Rightarrow> patch_analysis \<Rightarrow> (patch_analysis, 'z) io" where
  "analyze_ops env [] a = io_return a"
| "analyze_ops env (op # ops) a = io_bind (analyze_op env op a) (analyze_ops env ops)"

definition analyze_patch :: "patch_env \<Rightarrow> pytext \<Rightarrow> (patch_analysis, 'z) io" where
  "analyze_patch env patch =
     (case parse_patch patch of
        Inl e \<Rightarrow> io_raise e
      | Inr ops \<Rightarrow> io_bind (analyze_ops env ops an_start) (\<lambda>a.
          if an_metrics a = [] then io_raise patch_failed else io_return a))"

section \<open>The commit and the tool\<close>

definition MAX_PATCH_BASELINE_BYTES :: nat where
  "MAX_PATCH_BASELINE_BYTES = 64 * 1024 * 1024"

definition MAX_PATCH_BASELINE_FILES :: nat where
  "MAX_PATCH_BASELINE_FILES = 4096"

definition new_baselines :: "StagedFile list \<Rightarrow> (string, pytext option) dict \<Rightarrow> (string \<times> pytext option \<times> nat) list" where
  "new_baselines staged known =
     map (\<lambda>f. let t = map_option decode_replace (fb_data (sf_baseline f)) in
              (sf_display f, t, case t of Some x \<Rightarrow> length (utf8 x) | None \<Rightarrow> 0))
       (filter (\<lambda>f. map_of known (sf_display f) = None) staged)"

fun mirror_sandbox :: "(string \<Rightarrow> (staged_content \<times> nat option) option \<Rightarrow> unit result) \<Rightarrow> StagedFile list \<Rightarrow> unit result" where
  "mirror_sandbox sb [] = Inr ()"
| "mirror_sandbox sb (f # fs) =
     rbind (sb (sf_display f) (map_option (\<lambda>c. (c, sf_mode f)) (sf_content f))) (\<lambda>_. mirror_sandbox sb fs)"

definition remember :: "(string \<times> pytext option \<times> nat) list \<Rightarrow> patch_rt \<Rightarrow> patch_rt" where
  "remember bs w =
     w\<lparr>pr_baselines := foldl (\<lambda>d x. dict_set (fst x) (fst (snd x)) d) (pr_baselines w) bs,
       pr_baseline_bytes := pr_baseline_bytes w + (\<Sum>x\<leftarrow>bs. snd (snd x))\<rparr>"

definition commit_staged_files :: "patch_env \<Rightarrow> StagedFile list \<Rightarrow> patch_rt \<Rightarrow> unit result \<times> patch_rt" where
  "commit_staged_files env staged w =
     (let bs = new_baselines staged (pr_baselines w);
          bytes = pr_baseline_bytes w + (\<Sum>x\<leftarrow>bs. snd (snd x)); files = length (pr_baselines w) + length bs in
      if MAX_PATCH_BASELINE_BYTES < bytes \<or> MAX_PATCH_BASELINE_FILES < files then
        (Inl (retryable_failure ''PATCH_BASELINE_LIMIT'' ''runtime''
           [(''max_bytes'', JInt (int MAX_PATCH_BASELINE_BYTES)), (''current_bytes'', JInt (int (pr_baseline_bytes w))),
            (''requested_bytes'', JInt (int bytes)), (''max_files'', JInt (int MAX_PATCH_BASELINE_FILES)),
            (''current_files'', JInt (int (length (pr_baselines w)))), (''requested_files'', JInt (int files))]), w)
      else case commit (pe_os env) staged (start_commit (world.truncate w)) of (r, c) \<Rightarrow>
        let w1 = w\<lparr>w_fs := w_fs c, w_calls := w_calls c\<rparr> in
        (case r of
           Inl e \<Rightarrow> (Inl e, w1)
         | Inr _ \<Rightarrow>
             let w2 = remember bs w1 in
             (case pe_sandbox env of None \<Rightarrow> (Inr (), w2) | Some sb \<Rightarrow> (mirror_sandbox sb staged, w2))))"

record patch_result =
  re_dry_run :: bool
  re_clean :: bool
  re_summary :: string
  re_affected :: "(string \<times> string) list"
  re_diff :: pytext
  re_files :: "file_metrics list"
  re_additions :: nat
  re_removals :: nat
  re_original :: nat
  re_percentage :: real
  re_removed_existing :: nat
  re_risk :: string
  re_risk_class :: string
  re_warnings :: "string list"

definition patch_report :: "patch_env \<Rightarrow> bool \<Rightarrow> patch_analysis \<Rightarrow> patch_result" where
  "patch_report env dry a =
     (let removed = (\<Sum>m\<leftarrow>an_metrics a. fm_removed_existing m) in
      \<lparr>re_dry_run = dry, re_clean = True, re_summary = join [CHR 0x0A] (an_summaries a), re_affected = an_affected a,
       re_diff = concat (an_diff a), re_files = an_metrics a, re_additions = an_additions a,
       re_removals = an_removals a, re_original = an_original a,
       re_percentage = percent_of env removed (an_original a), re_removed_existing = removed,
       re_risk = an_risk a, re_risk_class = (if an_risk a = ''ASK'' then ''high'' else ''normal''), re_warnings = []\<rparr>)"

definition apply_patch :: "patch_env \<Rightarrow> pytext \<Rightarrow> bool \<Rightarrow> patch_rt \<Rightarrow> patch_result result \<times> patch_rt" where
  "apply_patch env patch dry w =
     (if we_mode (pe_ws env) = ''plan'' \<and> \<not> dry then (Inl (tool_failure ''PERMISSION_REQUIRED'' ''permission''), w)
      else case analyze_patch env patch w of
          (Inl e, w1) \<Rightarrow> (Inl e, w1)
        | (Inr a, w1) \<Rightarrow>
            if dry then (Inr (patch_report env dry a), w1)
            else (case commit_staged_files env (map snd (an_staged a)) w1 of
                    (Inl e, w2) \<Rightarrow> (Inl e, w2)
                  | (Inr _, w2) \<Rightarrow> (Inr (patch_report env dry a), w2)))"

section \<open>The intended meaning of a patch\<close>

text \<open>
  The reference semantics runs the operations one after the other over an abstract map of files whose
  contents are the bytes on disk or a text that an earlier operation has produced.
\<close>

type_synonym vfiles = "path \<Rightarrow> (staged_content \<times> nat) option"

definition disk_files :: "fs \<Rightarrow> vfiles" where
  "disk_files s p = map_option (\<lambda>(d, m). (CBytes d, m)) (file_at s p)"

definition file_value :: "(staged_content \<times> nat) option \<Rightarrow> (bytes \<times> nat) option" where
  "file_value x =
     (case x of None \<Rightarrow> None | Some (c, m) \<Rightarrow> (case content_bytes c of Inl _ \<Rightarrow> None | Inr d \<Rightarrow> Some (d, m)))"

definition content_text :: "staged_content \<Rightarrow> pytext result" where
  "content_text c =
     (case c of CText t \<Rightarrow> Inr t
      | CBytes d \<Rightarrow> (case py_decode d of Inl _ \<Rightarrow> Inl (tool_failure ''UNSUPPORTED_ENCODING'' ''validation'') | Inr t \<Rightarrow> Inr t))"

definition vread :: "vfiles \<Rightarrow> path \<Rightarrow> (pytext \<times> nat) result" where
  "vread G p = (case G p of None \<Rightarrow> Inl patch_failed | Some (c, m) \<Rightarrow> rbind (content_text c) (\<lambda>t. Inr (t, m)))"

definition source_path :: "patch_env \<Rightarrow> fs \<Rightarrow> PatchOperation \<Rightarrow> path result" where
  "source_path env s op = rbind (rt_resolve_existing (pe_ws env) s (fs_name (op_path op))) (\<lambda>r. Inr (rp_path r))"

definition target_path :: "patch_env \<Rightarrow> fs \<Rightarrow> pytext \<Rightarrow> path result" where
  "target_path env s t = rbind (rt_resolve_for_write (pe_ws env) s (fs_name t)) (\<lambda>r. Inr (rp_path r))"

definition spec_op :: "patch_env \<Rightarrow> fs \<Rightarrow> PatchOperation \<Rightarrow> vfiles \<Rightarrow> vfiles result" where
  "spec_op env s op G =
     (if op_kind op = ''add'' then
        rbind (target_path env s (op_path op)) (\<lambda>p.
          Inr (G(p \<mapsto> (CText (case op_add_content op of Some t \<Rightarrow> t | None \<Rightarrow> []), 420))))
      else if op_kind op = ''update'' then
        rbind (source_path env s op) (\<lambda>p. rbind (vread G p) (\<lambda>(t, m).
        rbind (apply_update_hunks t (op_hunks op)) (\<lambda>new. Inr (G(p \<mapsto> (CText new, m))))))
      else if op_kind op = ''delete'' then rbind (source_path env s op) (\<lambda>p. Inr (G(p := None)))
      else
        rbind (source_path env s op) (\<lambda>p. rbind (target_path env s (the (op_move_to op))) (\<lambda>q.
        rbind (vread G p) (\<lambda>(t, m). Inr (G(p := None, q \<mapsto> (CText t, m)))))))"

fun spec_ops :: "patch_env \<Rightarrow> fs \<Rightarrow> PatchOperation list \<Rightarrow> vfiles \<Rightarrow> vfiles result" where
  "spec_ops env s [] G = Inr G"
| "spec_ops env s (op # ops) G = rbind (spec_op env s op G) (spec_ops env s ops)"

text \<open>
  The paths an operation touches, and the patches in which no added or moved file meets a path that an
  earlier operation touched.  Several updates of one file, and its final deletion, are allowed.
\<close>

definition path_list :: "path result \<Rightarrow> path list" where
  "path_list r = (case r of Inl _ \<Rightarrow> [] | Inr p \<Rightarrow> [p])"

definition touched :: "patch_env \<Rightarrow> fs \<Rightarrow> PatchOperation \<Rightarrow> path list" where
  "touched env s op =
     (if op_kind op = ''add'' then path_list (target_path env s (op_path op))
      else path_list (source_path env s op) @
        (if op_kind op \<in> {''update'', ''delete''} then []
         else case op_move_to op of None \<Rightarrow> [] | Some t \<Rightarrow> path_list (target_path env s t)))"

fun orderly :: "patch_env \<Rightarrow> fs \<Rightarrow> path list \<Rightarrow> PatchOperation list \<Rightarrow> bool" where
  "orderly env s seen [] \<longleftrightarrow> True"
| "orderly env s seen (op # ops) \<longleftrightarrow>
     (\<forall>p \<in> set (touched env s op). user_path p \<and> ''..'' \<notin> set p) \<and>
     (op_kind op \<in> {''update'', ''delete''} \<or> set (touched env s op) \<inter> set seen = {}) \<and>
     orderly env s (touched env s op @ seen) ops"

section \<open>The analysis reads the tree\<close>

definition at_tree :: "fs \<Rightarrow> 'z world_scheme \<Rightarrow> bool" where
  "at_tree s w \<longleftrightarrow> w_fs w = s"

definition captured :: "fs \<Rightarrow> path \<Rightarrow> FileBaseline \<Rightarrow> bool" where
  "captured s p b \<longleftrightarrow> fb_data b = map_option fst (file_at s p) \<and> fb_mode b = map_option snd (file_at s p)"

lemma bind_fs:
  "(\<And>x. f s = Inr x \<Longrightarrow> triple (at_tree s) (g x) Q (at_tree s)) \<Longrightarrow>
   triple (at_tree s) (io_bind (with_fs f) g) Q (at_tree s)"
  by (auto simp: triple_def io_bind_def with_fs_def at_tree_def split: sum.splits)

lemma capture_result:
  "capture os p w = (r, w') \<Longrightarrow> w_fs w' = w_fs w \<and> (\<forall>b. r = Inr b \<longrightarrow> captured (w_fs w) p b)"
  by (cases "map_of (w_fs w) p")
    (auto simp: capture_def io_return_def io_raise_def io_bind_def syscall_def fs_read_def Let_def fs_exists_def
      fs_is_dir_def captured_def file_at_def split: if_splits node.splits)

lemma bind_capture:
  "(\<And>b. captured s p b \<Longrightarrow> triple (at_tree s) (g b) Q (at_tree s)) \<Longrightarrow>
   triple (at_tree s) (io_bind (capture os p) g) Q (at_tree s)"
  by (rule triple_bind [where R = "\<lambda>b w. at_tree s w \<and> captured s p b"],
      (auto intro!: tripleI dest!: capture_result simp: at_tree_def) [1], rule triple_pure)

lemma bind_at_tree:
  "triple (at_tree s) m (\<lambda>_. at_tree s) (at_tree s) \<Longrightarrow> (\<And>x. triple (at_tree s) (g x) Q (at_tree s)) \<Longrightarrow>
   triple (at_tree s) (io_bind m g) Q (at_tree s)"
  by (rule triple_bind)

lemma with_fs_at_tree: "triple (at_tree s) (with_fs f) (\<lambda>_. at_tree s) (at_tree s)"
  by (auto simp: triple_def with_fs_def at_tree_def split: sum.splits)

lemma check_paths_at_tree: "triple (at_tree s) (check_paths env op) (\<lambda>_. at_tree s) (at_tree s)"
  unfolding check_paths_def validate_patch_path_def check_symlink_def
  by (intro bind_at_tree with_fs_at_tree)
    (auto intro!: bind_at_tree with_fs_at_tree triple_return split: option.splits)

section \<open>The staged files follow the meaning\<close>

definition entry_ok :: "patch_env \<Rightarrow> fs \<Rightarrow> vfiles \<Rightarrow> StagedFile \<Rightarrow> bool" where
  "entry_ok env s G f \<longleftrightarrow>
     proper (sf_path f) \<and> sf_display f = display_for_path (pe_ws env) (sf_path f) \<and>
     captured s (sf_path f) (sf_baseline f) \<and>
     G (sf_path f) = map_option (\<lambda>c. (c, install_mode (sf_mode f))) (sf_content f) \<and>
     (\<forall>c. sf_content f = Some c \<longrightarrow> (\<exists>t. c = CText t) \<and> (file_at s (sf_path f) = None \<or> sf_mode f = fb_mode (sf_baseline f)))"

definition staged_ok :: "patch_env \<Rightarrow> fs \<Rightarrow> path list \<Rightarrow> vfiles \<Rightarrow> patch_analysis \<Rightarrow> bool" where
  "staged_ok env s seen G a \<longleftrightarrow>
     dict_ok (an_staged a) \<and>
     (\<forall>d f. map_of (an_staged a) d = Some f \<longrightarrow> sf_display f = d \<and> sf_path f \<in> set seen \<and> entry_ok env s G f) \<and>
     (\<forall>p. (\<forall>d f. map_of (an_staged a) d = Some f \<longrightarrow> sf_path f \<noteq> p) \<longrightarrow> G p = disk_files s p)"

lemma staged_okD:
  assumes "staged_ok env s seen G a"
  shows "dict_ok (an_staged a)"
    and "map_of (an_staged a) d = Some f \<Longrightarrow> sf_display f = d \<and> sf_path f \<in> set seen \<and> entry_ok env s G f"
    and "(\<And>d f. map_of (an_staged a) d = Some f \<Longrightarrow> sf_path f \<noteq> p) \<Longrightarrow> G p = disk_files s p"
  using assms unfolding staged_ok_def by blast+

lemma staged_okI:
  assumes "dict_ok (an_staged a)"
    and "\<And>d f. map_of (an_staged a) d = Some f \<Longrightarrow> sf_display f = d \<and> sf_path f \<in> set seen \<and> entry_ok env s G f"
    and "\<And>p. (\<And>d f. map_of (an_staged a) d = Some f \<Longrightarrow> sf_path f \<noteq> p) \<Longrightarrow> G p = disk_files s p"
  shows "staged_ok env s seen G a"
  using assms unfolding staged_ok_def by blast

lemma staged_ok_start: "staged_ok env s seen (disk_files s) an_start"
  by (simp add: staged_ok_def an_start_def)

lemma staged_ok_report [simp]:
  "staged_ok env s seen G (record_metrics op n a) \<longleftrightarrow> staged_ok env s seen G a"
  "staged_ok env s seen G (report x y z a) \<longleftrightarrow> staged_ok env s seen G a"
  by (simp_all add: staged_ok_def record_metrics_def report_def)

lemma an_staged_simps [simp]:
  "an_staged (record_metrics op n a) = an_staged a" "an_staged (report x y z a) = an_staged a"
  "an_staged (stage f a) = dict_set (sf_display f) f (an_staged a)"
  by (simp_all add: record_metrics_def report_def stage_def)

lemma staged_ok_mono: "staged_ok env s seen G a \<Longrightarrow> set seen \<subseteq> set seen' \<Longrightarrow> staged_ok env s seen' G a"
  unfolding staged_ok_def by blast

lemma entry_ok_other: "entry_ok env s G f \<Longrightarrow> sf_path f \<noteq> p \<Longrightarrow> entry_ok env s (G(p := v)) f"
  by (simp add: entry_ok_def)

lemma staged_ok_stage:
  assumes ok: "staged_ok env s seen G a" and e: "entry_ok env s (G(sf_path f := v)) f" and p: "sf_path f \<in> set seen"
  shows "staged_ok env s seen (G(sf_path f := v)) (stage f a)"
proof (rule staged_okI)
  have same: "sf_display g = sf_display f \<longleftrightarrow> sf_path g = sf_path f" if "map_of (an_staged a) d = Some g" for d g
    using staged_okD(2) [OF ok that] e by (auto simp: entry_ok_def display_inj)
  show "sf_display g = d \<and> sf_path g \<in> set seen \<and> entry_ok env s (G(sf_path f := v)) g"
    if "map_of (an_staged (stage f a)) d = Some g" for d g
  proof (cases "d = sf_display f")
    case True
    with that e p show ?thesis by simp
  next
    case False
    with that have m: "map_of (an_staged a) d = Some g" by simp
    then show ?thesis using staged_okD(2) [OF ok m] same [OF m] False by (simp add: entry_ok_other)
  qed
  show "(G(sf_path f := v)) q = disk_files s q"
    if q: "\<And>d g. map_of (an_staged (stage f a)) d = Some g \<Longrightarrow> sf_path g \<noteq> q" for q
  proof -
    have ne: "q \<noteq> sf_path f" using q [of "sf_display f" f] by simp
    moreover have "sf_path g \<noteq> q" if m: "map_of (an_staged a) d = Some g" for d g
    proof (cases "d = sf_display f")
      case True
      then have "sf_path g = sf_path f" using same [OF m] staged_okD(2) [OF ok m] by blast
      then show ?thesis using ne by simp
    next
      case False
      then show ?thesis using q [of d g] m by simp
    qed
    ultimately show ?thesis using staged_okD(3) [OF ok, of q] by simp
  qed
  show "dict_ok (an_staged (stage f a))" using staged_okD(1) [OF ok] by simp
qed

lemma staged_patched:
  assumes ok: "staged_ok env s seen G a"
  shows "patched (file_at s) (map snd (an_staged a)) p = file_value (G p)"
proof (cases "\<exists>f \<in> set (map snd (an_staged a)). sf_path f = p")
  case True
  then obtain g where g: "find (\<lambda>f. sf_path f = p) (map snd (an_staged a)) = Some g"
    by (cases "find (\<lambda>f. sf_path f = p) (map snd (an_staged a))") (auto simp: find_None_iff)
  then obtain d where "(d, g) \<in> set (an_staged a)" and gp: "sf_path g = p"
    by (auto simp: find_Some_iff in_set_conv_nth) (metis nth_mem prod.collapse)
  then have "map_of (an_staged a) d = Some g"
    using staged_okD(1) [OF ok] by (simp add: dict_ok_def)
  then have "G p = map_option (\<lambda>c. (c, install_mode (sf_mode g))) (sf_content g)"
    using staged_okD(2) [OF ok] gp by (auto simp: entry_ok_def)
  then show ?thesis
    using True g by (auto simp: patched_def expected_def staged_value_def file_value_def split: option.splits sum.splits)
next
  case False
  then have "sf_path f \<noteq> p" if "map_of (an_staged a) d = Some f" for d f
    using map_of_SomeD [OF that] by force
  then have "G p = disk_files s p" by (rule staged_okD(3) [OF ok])
  then show ?thesis
    using False by (auto simp: patched_def disk_files_def file_value_def content_bytes_def split: option.splits)
qed

lemma path_list_simps [simp]: "path_list (Inr p) = [p]" "path_list (Inl e) = []"
  by (simp_all add: path_list_def)

definition follows :: "patch_env \<Rightarrow> fs \<Rightarrow> path list \<Rightarrow> PatchOperation \<Rightarrow> vfiles \<Rightarrow> patch_analysis \<Rightarrow> bool" where
  "follows env s seen op G a \<longleftrightarrow>
     (\<exists>G'. spec_op env s op G = Inr G' \<and> staged_ok env s (touched env s op @ seen) G' a)"

abbreviation step_ok :: "patch_env \<Rightarrow> fs \<Rightarrow> path list \<Rightarrow> PatchOperation \<Rightarrow> vfiles \<Rightarrow> (patch_analysis, 'z) io \<Rightarrow> bool" where
  "step_ok env s seen op G m \<equiv>
     triple (at_tree s) m (\<lambda>a w. at_tree s w \<and> follows env s seen op G a) (at_tree s)"

lemma step_return: "follows env s seen op G a \<Longrightarrow> step_ok env s seen op G (io_return a)"
  by (rule triple_return) simp

lemma step_raise: "step_ok env s seen op G (io_raise e)"
  by (rule triple_raise)

lemma captured_None: "file_at s p = None \<Longrightarrow> captured s p b \<Longrightarrow> fb_data b = None \<and> fb_mode b = None"
  by (simp add: captured_def)

lemma fresh_file: "\<not> fs_exists s p \<Longrightarrow> file_at s p = None"
  by (simp add: fs_exists_def file_at_None)

lemma source_file: "fs_exists s p \<Longrightarrow> \<not> fs_is_dir s p \<Longrightarrow> \<exists>d m. file_at s p = Some (d, m)"
  by (auto simp: fs_exists_def fs_is_dir_def file_at_def split: node.splits)

lemma io_bind_return: "io_bind (io_return x) g = g x"
  by (simp add: fun_eq_iff io_bind_def io_return_def)

lemma step_if:
  "(c \<Longrightarrow> step_ok env s seen op G m) \<Longrightarrow> (\<not> c \<Longrightarrow> step_ok env s seen op G m') \<Longrightarrow>
   step_ok env s seen op G (if c then m else m')"
  by simp

lemma followsI:
  "spec_op env s op G = Inr G' \<Longrightarrow> staged_ok env s (touched env s op @ seen) G' a \<Longrightarrow>
   follows env s seen op G (record_metrics op n (report x y z a))"
  by (simp add: follows_def)

lemma add_staged:
  assumes ok: "staged_ok env s seen G a" "ws_ok (pe_ws env)" "tree_ok s"
    and op: "op_kind op = ''add''" "\<forall>p \<in> set (touched env s op). ''..'' \<notin> set p"
    and r: "rt_resolve_for_write (pe_ws env) s (fs_name (op_path op)) = Inr r" "\<not> rp_existed r"
    and b: "captured s (rp_path r) b"
  shows "follows env s seen op G (record_metrics op n (report x y z
    (stage \<lparr>sf_display = rp_display r, sf_path = rp_path r,
       sf_content = Some (CText (case op_add_content op of Some t \<Rightarrow> t | None \<Rightarrow> [])), sf_baseline = b, sf_mode = None\<rparr> a)))"
    (is "follows _ _ _ _ _ (record_metrics _ _ (report _ _ _ (stage ?f a)))")
proof (rule followsI)
  have root: "fs_is_dir s []" using ok(3) by (simp add: tree_ok_def)
  have t: "target_path env s (op_path op) = Inr (rp_path r)" using r by (simp add: target_path_def)
  then have tch: "touched env s op = [rp_path r]" using op(1) by (simp add: touched_def)
  have none: "file_at s (rp_path r) = None"
    using fresh_target [OF r(1) ok(3) r(2)] op(2) tch by (simp add: fresh_file)
  let ?v = "Some (CText (case op_add_content op of Some t \<Rightarrow> t | None \<Rightarrow> []), 420)"
  show "spec_op env s op G = Inr (G(sf_path ?f := ?v))" using op(1) t by (simp add: spec_op_def)
  show "staged_ok env s (touched env s op @ seen) (G(sf_path ?f := ?v)) (stage ?f a)"
    using rt_resolve_for_writeD [OF r(1) ok(2) root] none b tch
    by (intro staged_ok_stage staged_ok_mono [OF ok(1)]) (auto simp: entry_ok_def install_mode_def)
qed

lemma add_step:
  assumes "staged_ok env s seen G a" "ws_ok (pe_ws env)" "tree_ok s"
    and "op_kind op = ''add''" "\<forall>p \<in> set (touched env s op). ''..'' \<notin> set p"
  shows "step_ok env s seen op G (analyze_add env op a)"
  unfolding analyze_add_def Let_def
  by (intro bind_fs step_if step_raise bind_capture step_return add_staged assms)

text \<open>The text an update or a move starts from is the one the reference reads.\<close>

lemma vread_fresh:
  assumes ok: "staged_ok env s seen G a" and p: "proper p" "file_at s p = Some (d, m)"
    and none: "map_of (an_staged a) (display_for_path (pe_ws env) p) = None"
    and b: "captured s p b" "baseline_text b = Inr t"
  shows "vread G p = Inr (t, m)" "fb_mode b = Some m"
proof -
  have "sf_path f \<noteq> p" if "map_of (an_staged a) k = Some f" for k f
    using staged_okD(2) [OF ok that] none that p(1) by (auto simp: entry_ok_def)
  then have "G p = disk_files s p" by (rule staged_okD(3) [OF ok])
  then show "vread G p = Inr (t, m)" "fb_mode b = Some m"
    using p(2) b by (auto simp: vread_def disk_files_def content_text_def captured_def baseline_text_def split: sum.splits)
qed

lemma vread_prior:
  assumes ok: "staged_ok env s seen G a" and p: "proper p" "file_at s p = Some (d, m)"
    and f: "map_of (an_staged a) (display_for_path (pe_ws env) p) = Some f" "sf_content f = Some (CText t)"
  shows "vread G p = Inr (t, m)" "fb_mode (sf_baseline f) = Some m" "captured s p (sf_baseline f)"
proof -
  have e: "entry_ok env s G f" "sf_path f = p"
    using staged_okD(2) [OF ok f(1)] p(1) by (auto simp: entry_ok_def display_inj)
  then show "vread G p = Inr (t, m)" "fb_mode (sf_baseline f) = Some m" "captured s p (sf_baseline f)"
    using f(2) p(2) by (auto simp: entry_ok_def vread_def content_text_def captured_def install_mode_def)
qed

lemma source_resolved:
  assumes "rt_resolve_existing (pe_ws env) s (fs_name (op_path op)) = Inr r" "ws_ok (pe_ws env)" "tree_ok s"
    and "\<not> fs_is_dir s (rp_path r)"
  shows "source_path env s op = Inr (rp_path r)" "proper (rp_path r)"
    "rp_display r = display_for_path (pe_ws env) (rp_path r)" "\<exists>d m. file_at s (rp_path r) = Some (d, m)"
proof -
  note d = rt_resolve_existingD [OF assms(1,2)]
  then have "fs_exists s (rp_path r)" using assms(3) by (metis tree_ok_def take_all order_refl)
  with assms d show "source_path env s op = Inr (rp_path r)" "proper (rp_path r)"
    "rp_display r = display_for_path (pe_ws env) (rp_path r)" "\<exists>d m. file_at s (rp_path r) = Some (d, m)"
    by (auto simp: source_path_def intro: source_file)
qed

lemma update_staged:
  assumes ok: "staged_ok env s seen G a" and p: "proper p" "file_at s p = Some (d, m)"
    and op: "op_kind op = ''update''" "source_path env s op = Inr p"
    and b: "captured s p b" "fb_mode b = Some m"
    and t: "vread G p = Inr (orig, m)" "apply_update_hunks orig (op_hunks op) = Inr new"
  shows "follows env s seen op G (record_metrics op n (report x y z
    (stage \<lparr>sf_display = display_for_path (pe_ws env) p, sf_path = p, sf_content = Some (CText new), sf_baseline = b,
       sf_mode = fb_mode b\<rparr> a)))"
    (is "follows _ _ _ _ _ (record_metrics _ _ (report _ _ _ (stage ?f a)))")
proof (rule followsI)
  have tch: "touched env s op = [p]" using op by (simp add: touched_def)
  show "spec_op env s op G = Inr (G(sf_path ?f := Some (CText new, m)))"
    using op t by (simp add: spec_op_def)
  show "staged_ok env s (touched env s op @ seen) (G(sf_path ?f := Some (CText new, m))) (stage ?f a)"
    using p b tch by (intro staged_ok_stage staged_ok_mono [OF ok]) (auto simp: entry_ok_def install_mode_def)
qed

lemma update_step:
  assumes ok: "staged_ok env s seen G a" "ws_ok (pe_ws env)" "tree_ok s" and op: "op_kind op = ''update''"
  shows "step_ok env s seen op G (analyze_update env op a)"
  unfolding analyze_update_def Let_def
proof (intro bind_fs step_if step_raise, goal_cases)
  case (1 r is_dir)
  then have nd: "\<not> fs_is_dir s (rp_path r)" by simp
  note src = source_resolved [OF 1(1) ok(2,3) nd]
  obtain d m where fa: "file_at s (rp_path r) = Some (d, m)" using src(4) by blast
  note staged = update_staged [OF ok(1) src(2) fa op src(1)]
  show ?case
  proof (cases "map_of (an_staged a) (rp_display r)")
    case None
    then have none: "map_of (an_staged a) (display_for_path (pe_ws env) (rp_path r)) = None" using src(3) by simp
    note fresh = vread_fresh [OF ok(1) src(2) fa none]
    show ?thesis
      unfolding src(3) none option.case
      by (intro bind_capture bind_fs step_return staged fresh(1) fresh(2)) assumption+
  next
    case (Some f)
    then obtain t where t: "sf_content f = Some (CText t)"
      using 1(4) staged_okD(2) [OF ok(1) Some] Some by (auto simp: entry_ok_def)
    have f: "map_of (an_staged a) (display_for_path (pe_ws env) (rp_path r)) = Some f" using Some src(3) by simp
    note prior = vread_prior [OF ok(1) src(2) fa f t]
    show ?thesis
      unfolding src(3) f option.case io_bind_return t staged_content.case
      by (intro bind_fs step_return) (auto intro: staged prior)
  qed
qed

lemma delete_staged:
  assumes ok: "staged_ok env s seen G a" and p: "proper p"
    and op: "op_kind op = ''delete''" "source_path env s op = Inr p" and b: "captured s p b"
  shows "follows env s seen op G (record_metrics op n (report x y z
    (stage \<lparr>sf_display = display_for_path (pe_ws env) p, sf_path = p, sf_content = None, sf_baseline = b,
       sf_mode = None\<rparr> a)))"
    (is "follows _ _ _ _ _ (record_metrics _ _ (report _ _ _ (stage ?f a)))")
proof (rule followsI)
  have tch: "touched env s op = [p]" using op by (simp add: touched_def)
  show "spec_op env s op G = Inr (G(sf_path ?f := None))" using op by (simp add: spec_op_def)
  show "staged_ok env s (touched env s op @ seen) (G(sf_path ?f := None)) (stage ?f a)"
    using p b tch by (intro staged_ok_stage staged_ok_mono [OF ok]) (auto simp: entry_ok_def)
qed

lemma delete_step:
  assumes ok: "staged_ok env s seen G a" "ws_ok (pe_ws env)" "tree_ok s" and op: "op_kind op = ''delete''"
  shows "step_ok env s seen op G (analyze_delete env op a)"
  unfolding analyze_delete_def Let_def
proof (intro bind_fs step_if step_raise, goal_cases)
  case (1 r is_dir)
  then have nd: "\<not> fs_is_dir s (rp_path r)" by simp
  note src = source_resolved [OF 1(1) ok(2,3) nd]
  show ?case
    unfolding src(3) by (intro bind_capture step_return delete_staged [OF ok(1) src(2) op src(1)])
qed

lemma move_staged:
  assumes ok: "staged_ok env s seen G a" and p: "proper p" "file_at s p = Some (d, m)"
    and q: "proper q" "file_at s q = None"
    and op: "op_kind op \<notin> {''add'', ''update'', ''delete''}" "source_path env s op = Inr p" "op_move_to op = Some t"
      "target_path env s t = Inr q" "set (touched env s op) \<inter> set seen = {}"
    and b: "captured s p b" "baseline_text b = Inr old" and c: "captured s q tb"
  shows "follows env s seen op G (record_metrics op n (report x y z
    (stage \<lparr>sf_display = display_for_path (pe_ws env) q, sf_path = q, sf_content = Some (CText old), sf_baseline = tb,
       sf_mode = fb_mode b\<rparr>
      (stage \<lparr>sf_display = display_for_path (pe_ws env) p, sf_path = p, sf_content = None, sf_baseline = b,
         sf_mode = None\<rparr> a))))"
    (is "follows _ _ _ _ _ (record_metrics _ _ (report _ _ _ (stage ?g (stage ?f a))))")
proof (rule followsI)
  have tch: "touched env s op = [p, q]" using op by (auto simp: touched_def)
  have none: "map_of (an_staged a) (display_for_path (pe_ws env) p) = None"
  proof (rule ccontr)
    assume "map_of (an_staged a) (display_for_path (pe_ws env) p) \<noteq> None"
    then obtain f where f: "map_of (an_staged a) (display_for_path (pe_ws env) p) = Some f" by auto
    then show False using staged_okD(2) [OF ok f] p(1) op(5) tch by (auto simp: entry_ok_def display_inj)
  qed
  note read = vread_fresh [OF ok p none b]
  show "spec_op env s op G = Inr ((G(sf_path ?f := None))(sf_path ?g := Some (CText old, m)))"
    using op read by (simp add: spec_op_def)
  have first: "staged_ok env s (touched env s op @ seen) (G(sf_path ?f := None)) (stage ?f a)"
    using p b tch by (intro staged_ok_stage staged_ok_mono [OF ok]) (auto simp: entry_ok_def)
  show "staged_ok env s (touched env s op @ seen) ((G(sf_path ?f := None))(sf_path ?g := Some (CText old, m)))
      (stage ?g (stage ?f a))"
    by (rule staged_ok_stage [OF first]) (use q c read(2) tch in \<open>auto simp: entry_ok_def install_mode_def\<close>)
qed

lemma move_step:
  assumes ok: "staged_ok env s seen G a" "ws_ok (pe_ws env)" "tree_ok s"
    and op: "op_kind op \<notin> {''add'', ''update'', ''delete''}" "\<forall>p \<in> set (touched env s op). ''..'' \<notin> set p"
      "set (touched env s op) \<inter> set seen = {}"
  shows "step_ok env s seen op G (analyze_move env op a)"
proof (cases "move_target op")
  case None
  then show ?thesis by (simp add: analyze_move_def step_raise)
next
  case (Some t)
  then have mt: "op_move_to op = Some t" by (auto simp: move_target_def split: option.splits if_splits)
  have root: "fs_is_dir s []" using ok(3) by (simp add: tree_ok_def)
  show ?thesis
    unfolding analyze_move_def Let_def Some option.case
  proof (intro bind_fs step_if step_raise, goal_cases)
    case (1 r e is_dir)
    then have nd: "\<not> fs_is_dir s (rp_path r)" by simp
    note src = source_resolved [OF 1(1) ok(2,3) nd]
    obtain d m where fa: "file_at s (rp_path r) = Some (d, m)" using src(4) by blast
    note tgt = rt_resolve_for_writeD [OF 1(2) ok(2) root]
    have tp: "target_path env s t = Inr (rp_path e)" using 1(2) by (simp add: target_path_def)
    have "''..'' \<notin> set (rp_path e)" using op(1,2) mt tp src(1) by (auto simp: touched_def)
    then have none: "file_at s (rp_path e) = None"
      using fresh_target [OF 1(2) ok(3) 1(5)] by (simp add: fresh_file)
    show ?case
      unfolding src(3) tgt(2)
      by (intro bind_capture bind_fs step_return
          move_staged [OF ok(1) src(2) fa tgt(1) none op(1) src(1) mt tp op(3)])
  qed
qed

lemma analyze_op_follows:
  assumes "staged_ok env s seen G a" "ws_ok (pe_ws env)" "tree_ok s" "orderly env s seen (op # ops)"
  shows "step_ok env s seen op G (analyze_op env op a)"
  unfolding analyze_op_def using assms
  by (intro bind_at_tree check_paths_at_tree step_if add_step update_step delete_step move_step) auto

lemma analyze_ops_follow:
  "staged_ok env s seen G a \<Longrightarrow> ws_ok (pe_ws env) \<Longrightarrow> tree_ok s \<Longrightarrow> orderly env s seen ops \<Longrightarrow>
   \<forall>p \<in> set seen. user_path p \<Longrightarrow>
   triple (at_tree s) (analyze_ops env ops a)
     (\<lambda>a' w. at_tree s w \<and> (\<exists>G' seen'. spec_ops env s ops G = Inr G' \<and> staged_ok env s seen' G' a' \<and>
        (\<forall>p \<in> set seen'. user_path p))) (at_tree s)"
proof (induction ops arbitrary: a G seen)
  case Nil
  then show ?case by (auto intro!: triple_return)
next
  case (Cons op ops)
  show ?case
    unfolding analyze_ops.simps
  proof (rule triple_bind [OF analyze_op_follows [OF Cons.prems(1-4)]], rule triple_pure, goal_cases)
    case (1 x)
    then obtain G' where g: "spec_op env s op G = Inr G'" "staged_ok env s (touched env s op @ seen) G' x"
      by (auto simp: follows_def)
    have "\<forall>p \<in> set (touched env s op @ seen). user_path p" using Cons.prems(4,5) by auto
    then show ?case
      using Cons.IH [OF g(2) Cons.prems(2,3)] Cons.prems(4) g(1) by simp
  qed
qed

lemma staged_user_changes:
  "staged_ok env s seen G a \<Longrightarrow> \<forall>p \<in> set seen. user_path p \<Longrightarrow> user_changes (map snd (an_staged a))"
  unfolding user_changes_def staged_ok_def by (force simp: list_all_iff dict_ok_def)

section \<open>The commit\<close>

lemma commit_staged_run:
  assumes "commit_staged_files env staged w = (r, w')"
  obtains "r = Inr ()" "run_commit (pe_os env) staged (world.truncate w) = (Inr (), w_fs w')"
  | e where "r = Inl e" "w' = w \<or> run_commit (pe_os env) staged (world.truncate w) = (Inl e, w_fs w') \<or> pe_sandbox env \<noteq> None"
  using assms
  by (cases r; cases "commit (pe_os env) staged (start_commit (world.truncate w))")
    (auto simp: commit_staged_files_def run_commit_def Let_def remember_def split: if_splits sum.splits option.splits)

lemma commit_staged_Inr:
  assumes "commit_staged_files env staged w = (Inr u, w')" "user_changes staged" "user_path p"
  shows "file_at (w_fs w') p = patched (file_at (w_fs w)) staged p"
  using pc.applied [OF assms(2), of "pe_os env" "world.truncate w" "()" "w_fs w'" p] assms(3)
  by (cases rule: commit_staged_run [OF assms(1)]) (simp_all add: world.defs)

lemma commit_staged_Inl:
  assumes "commit_staged_files env staged w = (Inl e, w')" "user_changes staged" "user_path p"
    and "failure_code e \<noteq> Some ''PATCH_ROLLBACK_FAILED''" "pe_sandbox env = None"
  shows "file_at (w_fs w') p = file_at (w_fs w) p"
  using pc.refused [OF assms(2), of "pe_os env" "world.truncate w" e "w_fs w'" p] assms(3-5)
  by (cases rule: commit_staged_run [OF assms(1)]) (auto simp: world.defs)

lemma analyze_patch_follows:
  assumes "analyze_patch env patch w = (Inr a, w')" "parse_patch patch = Inr ops" "ws_ok (pe_ws env)"
    "tree_ok (w_fs w)" "orderly env (w_fs w) [] ops"
  obtains G seen where "w_fs w' = w_fs w" "spec_ops env (w_fs w) ops (disk_files (w_fs w)) = Inr G"
    "staged_ok env (w_fs w) seen G a" "\<forall>p \<in> set seen. user_path p"
proof -
  have "analyze_ops env ops an_start w = (Inr a, w')"
    using assms(1,2) by (auto simp: analyze_patch_def io_bind_def io_return_def io_raise_def split: sum.splits prod.splits if_splits)
  then show thesis
    using triple_Inr [OF analyze_ops_follow [OF staged_ok_start assms(3-5)], of w a w'] that
    by (auto simp: at_tree_def)
qed

lemma apply_patch_Inr:
  assumes "apply_patch env patch False w = (Inr r, w')"
  obtains a w1 u where "analyze_patch env patch w = (Inr a, w1)" "r = patch_report env False a"
    "commit_staged_files env (map snd (an_staged a)) w1 = (Inr u, w')"
  using assms by (auto simp: apply_patch_def split: if_splits prod.splits sum.splits)

lemma apply_patch_meaning_lemma:
  assumes "ws_ok (pe_ws env)" "tree_ok (w_fs w)" "parse_patch patch = Inr ops" "orderly env (w_fs w) [] ops"
    and "apply_patch env patch False w = (Inr r, w')"
  shows "\<exists>G. spec_ops env (w_fs w) ops (disk_files (w_fs w)) = Inr G \<and>
    (\<forall>p. user_path p \<longrightarrow> file_at (w_fs w') p = file_value (G p))"
proof -
  obtain a w1 u where a: "analyze_patch env patch w = (Inr a, w1)"
    and c: "commit_staged_files env (map snd (an_staged a)) w1 = (Inr u, w')"
    using apply_patch_Inr [OF assms(5)] by metis
  obtain G seen where g: "w_fs w1 = w_fs w" "spec_ops env (w_fs w) ops (disk_files (w_fs w)) = Inr G"
    "staged_ok env (w_fs w) seen G a" "\<forall>p \<in> set seen. user_path p"
    using analyze_patch_follows [OF a assms(3,1,2,4)] by metis
  have "file_at (w_fs w') p = file_value (G p)" if "user_path p" for p
    using commit_staged_Inr [OF c staged_user_changes [OF g(3,4)] that] staged_patched [OF g(3)] g(1) by simp
  with g(2) show ?thesis by blast
qed

section \<open>Failures\<close>

text \<open>Whatever the patch, the analysis stages only the paths its operations touch.\<close>

definition staged_in :: "patch_analysis \<Rightarrow> bool" where
  "staged_in a \<longleftrightarrow> user_changes (map snd (an_staged a))"

lemma staged_in_simps [simp]:
  "staged_in (record_metrics op n a) \<longleftrightarrow> staged_in a" "staged_in (report x y z a) \<longleftrightarrow> staged_in a" "staged_in an_start"
  by (simp_all add: staged_in_def an_start_def user_changes_def)

lemma list_all_dict_set: "list_all P d \<Longrightarrow> P (k, v) \<Longrightarrow> list_all P (dict_set k v d)"
  by (induction k v d rule: dict_set.induct) auto

lemma staged_in_stage: "staged_in a \<Longrightarrow> user_path (sf_path f) \<Longrightarrow> staged_in (stage f a)"
  by (simp add: staged_in_def user_changes_def list_all_dict_set list.pred_map comp_def)

abbreviation keeps_user :: "fs \<Rightarrow> (patch_analysis, 'z) io \<Rightarrow> bool" where
  "keeps_user s m \<equiv> triple (at_tree s) m (\<lambda>a w. at_tree s w \<and> staged_in a) (at_tree s)"

lemma keeps_return: "staged_in a \<Longrightarrow> keeps_user s (io_return a)"
  by (rule triple_return) simp

lemma keeps_raise: "keeps_user s (io_raise e)"
  by (rule triple_raise)

lemma keeps_if: "keeps_user s m \<Longrightarrow> keeps_user s m' \<Longrightarrow> keeps_user s (if c then m else m')"
  by simp

lemma capture_at_tree: "triple (at_tree s) (capture os p) (\<lambda>_. at_tree s) (at_tree s)"
  by (auto intro!: tripleI dest!: capture_result simp: at_tree_def)

lemma prior_at_tree:
  "triple (at_tree s) (case prior of Some f \<Rightarrow> io_return (sf_baseline f) | None \<Rightarrow> capture os p) (\<lambda>_. at_tree s) (at_tree s)"
  by (cases prior) (simp_all add: capture_at_tree triple_return)

lemma source_user:
  assumes "\<forall>p \<in> set (touched env s op). user_path p" "op_kind op \<noteq> ''add''"
    "rt_resolve_existing (pe_ws env) s (fs_name (op_path op)) = Inr r"
  shows "user_path (rp_path r)"
  using assms by (simp add: touched_def source_path_def)

lemma target_user:
  assumes "\<forall>p \<in> set (touched env s op). user_path p" "op_kind op \<notin> {''add'', ''update'', ''delete''}"
    "move_target op = Some t" "rt_resolve_for_write (pe_ws env) s (fs_name t) = Inr r"
  shows "user_path (rp_path r)"
  using assms by (auto simp: touched_def target_path_def move_target_def split: option.splits if_splits)

lemma analyze_op_keeps:
  assumes a: "staged_in a" and u: "\<forall>p \<in> set (touched env s op). user_path p"
  shows "keeps_user s (analyze_op env op a)"
proof -
  have "keeps_user s (analyze_add env op a)" if "op_kind op = ''add''"
    using that a u unfolding analyze_add_def Let_def
    by (intro bind_fs keeps_if keeps_raise bind_capture keeps_return)
      (auto intro!: staged_in_stage simp: touched_def target_path_def)
  moreover have "keeps_user s (analyze_update env op a)" if "op_kind op = ''update''"
    using that a u unfolding analyze_update_def Let_def
    by (intro bind_fs keeps_if keeps_raise bind_at_tree prior_at_tree keeps_return)
      (auto intro!: staged_in_stage source_user)
  moreover have "keeps_user s (analyze_delete env op a)" if "op_kind op = ''delete''"
    using that a u unfolding analyze_delete_def Let_def
    by (intro bind_fs keeps_if keeps_raise bind_capture keeps_return) (auto intro!: staged_in_stage source_user)
  moreover have "keeps_user s (analyze_move env op a)" if "op_kind op \<notin> {''add'', ''update'', ''delete''}"
  proof (cases "move_target op")
    case (Some t)
    have "op_kind op \<noteq> ''add''" using that by simp
    note src = source_user [OF u this] and tgt = target_user [OF u that Some]
    show ?thesis
      using a unfolding analyze_move_def Let_def Some option.case
      by (intro bind_fs keeps_if keeps_raise bind_capture keeps_return)
        (simp add: staged_in_stage src tgt)
  qed (simp add: analyze_move_def keeps_raise)
  ultimately show ?thesis
    unfolding analyze_op_def by (intro bind_at_tree check_paths_at_tree) auto
qed

lemma analyze_ops_keep:
  "staged_in a \<Longrightarrow> \<forall>op \<in> set ops. \<forall>p \<in> set (touched env s op). user_path p \<Longrightarrow>
   keeps_user s (analyze_ops env ops a)"
proof (induction ops arbitrary: a)
  case Nil
  then show ?case by (simp add: keeps_return)
next
  case (Cons op ops)
  show ?case
    unfolding analyze_ops.simps
    by (rule triple_bind [OF analyze_op_keeps], use Cons.prems in simp, use Cons.prems in simp, rule triple_pure)
      (use Cons in simp)
qed

lemma analyze_patch_result:
  assumes "analyze_patch env patch w = (r, w')"
    and "\<forall>ops. parse_patch patch = Inr ops \<longrightarrow> (\<forall>op \<in> set ops. \<forall>p \<in> set (touched env (w_fs w) op). user_path p)"
  shows "w_fs w' = w_fs w" "r = Inr a \<Longrightarrow> staged_in a"
proof -
  have "w_fs w' = w_fs w \<and> (\<forall>a. r = Inr a \<longrightarrow> staged_in a)"
  proof (cases "parse_patch patch")
    case (Inl e)
    with assms(1) show ?thesis by (auto simp: analyze_patch_def io_raise_def)
  next
    case (Inr ops)
    then have k: "keeps_user (w_fs w) (analyze_ops env ops an_start)"
      using assms(2) by (intro analyze_ops_keep) simp_all
    obtain x w1 where x: "analyze_ops env ops an_start w = (x, w1)" by force
    have "w_fs w1 = w_fs w \<and> (\<forall>a. x = Inr a \<longrightarrow> staged_in a)"
      using triple_Inr [OF k, of w _ w1] triple_Inl [OF k, of w _ w1] x by (cases x) (auto simp: at_tree_def)
    then show ?thesis
      using assms(1) Inr x
      by (auto simp: analyze_patch_def io_bind_def io_return_def io_raise_def split: sum.splits if_splits)
  qed
  then show "w_fs w' = w_fs w" "r = Inr a \<Longrightarrow> staged_in a" by blast+
qed

lemma apply_patch_failure_lemma:
  assumes u: "\<forall>ops. parse_patch patch = Inr ops \<longrightarrow> (\<forall>op \<in> set ops. \<forall>p \<in> set (touched env (w_fs w) op). user_path p)"
    and run: "apply_patch env patch dry w = (r, w')"
  shows "(dry \<longrightarrow> w_fs w' = w_fs w) \<and>
    (\<forall>e p. r = Inl e \<longrightarrow> failure_code e \<noteq> Some ''PATCH_ROLLBACK_FAILED'' \<longrightarrow> pe_sandbox env = None \<longrightarrow> user_path p \<longrightarrow>
       file_at (w_fs w') p = file_at (w_fs w) p)"
proof -
  obtain x w1 where x: "analyze_patch env patch w = (x, w1)" by force
  note an = analyze_patch_result [OF x u]
  show ?thesis
  proof (cases "(we_mode (pe_ws env) = ''plan'' \<and> \<not> dry) \<or> dry \<or> (\<exists>e. x = Inl e)")
    case True
    then have "w_fs w' = w_fs w"
      using run x an(1) by (auto simp: apply_patch_def split: if_splits sum.splits)
    then show ?thesis by simp
  next
    case False
    then obtain a where a: "x = Inr a" by (cases x) auto
    obtain y w2 where y: "commit_staged_files env (map snd (an_staged a)) w1 = (y, w2)" by force
    have "w' = w2" and "r = Inl e \<Longrightarrow> y = Inl e" for e
      using run x y a False by (auto simp: apply_patch_def split: sum.splits)
    then show ?thesis
      using commit_staged_Inl [of env _ w1 _ w2] y an(1) an(2) [OF a] False by (auto simp: staged_in_def)
  qed
qed

section \<open>The risk report\<close>

text \<open>No branch of the analysis assigns the risk that the report tests for.\<close>

definition calm :: "patch_analysis \<Rightarrow> bool" where
  "calm a \<longleftrightarrow> an_risk a = ''ALLOW'' \<and> list_all (\<lambda>m. fm_risk_class m = ''normal'') (an_metrics a)"

abbreviation stays_calm :: "(patch_analysis, 'z) io \<Rightarrow> bool" where
  "stays_calm m \<equiv> triple (\<lambda>_. True) m (\<lambda>a _. calm a) (\<lambda>_. True)"

lemma calm_record: "calm a \<Longrightarrow> oc_risk n \<noteq> ''ASK'' \<Longrightarrow> calm (record_metrics op n a)"
  by (simp add: calm_def record_metrics_def)

lemma calm_simps [simp]: "calm (report x y z a) \<longleftrightarrow> calm a" "calm (stage f a) \<longleftrightarrow> calm a" "calm an_start"
  by (simp_all add: calm_def report_def stage_def an_start_def)

lemma any_bind: "(\<And>x. stays_calm (g x)) \<Longrightarrow> stays_calm (io_bind m g)"
  by (rule triple_bind [where R = "\<lambda>_ _. True"]) (simp_all add: triple_def split: sum.splits prod.splits)

lemma calm_rules: "calm a \<Longrightarrow> stays_calm (io_return a)" "stays_calm (io_raise e)"
  "stays_calm m \<Longrightarrow> stays_calm m' \<Longrightarrow> stays_calm (if c then m else m')"
  by (simp_all add: triple_return triple_raise)

lemma update_risk_known: "oc_risk (update_counts env d x y) \<noteq> ''ASK''"
  by (simp add: update_counts_def update_risk_def Let_def)

lemma analyze_op_calm: "calm a \<Longrightarrow> stays_calm (analyze_op env op a)"
proof -
  assume a: "calm a"
  have "stays_calm (analyze_add env op a)" "stays_calm (analyze_delete env op a)"
    using a unfolding analyze_add_def analyze_delete_def Let_def
    by (intro any_bind calm_rules calm_record; simp)+
  moreover have "stays_calm (analyze_move env op a)"
    using a unfolding analyze_move_def Let_def
    by (cases "move_target op"; simp only: option.case) (intro any_bind calm_rules calm_record; simp)+
  moreover have "stays_calm (analyze_update env op a)"
    using a unfolding analyze_update_def Let_def
    by (intro any_bind calm_rules calm_record) (simp_all add: update_risk_known)
  ultimately show ?thesis unfolding analyze_op_def by (intro any_bind calm_rules)
qed

lemma analyze_ops_calm: "calm a \<Longrightarrow> stays_calm (analyze_ops env ops a)"
proof (induction ops arbitrary: a)
  case (Cons op ops)
  show ?case
    unfolding analyze_ops.simps
    by (rule triple_bind [OF analyze_op_calm [OF Cons.prems]])
      (use Cons.IH in \<open>simp add: triple_def\<close>)
qed (simp add: calm_rules)

lemma analyze_patch_calm: "analyze_patch env patch w = (Inr a, w') \<Longrightarrow> calm a"
  using triple_Inr [OF analyze_ops_calm [of an_start env], of _ w]
  by (auto simp: analyze_patch_def io_bind_def io_return_def io_raise_def split: sum.splits prod.splits if_splits)

section \<open>Theorems\<close>

text \<open>
  The world of the witnesses: the workspace of \<open>Workspace\<close>, no failing system call, no sandbox.
\<close>

definition demo_env :: "string \<Rightarrow> patch_env" where
  "demo_env mode = \<lparr>pe_ws = demo_ws mode, pe_os = demo_os (\<lambda>_. False), pe_diff = (\<lambda>_ _ _ _. []), pe_round = id,
     pe_max_lines = 200, pe_max_percent = 50, pe_sandbox = None\<rparr>"

definition demo_rt :: patch_rt where
  "demo_rt = \<lparr>w_fs = demo_tree, w_calls = 0, pr_baselines = [], pr_baseline_bytes = 0\<rparr>"

definition demo_patch :: pytext where
  "demo_patch = join [10] (map lit [''*** Begin Patch'', ''*** Update File: a'', ''@@'', ''-A'', ''+B'',
     ''*** Update File: /w/a'', ''@@'', ''-B'', ''+C'', ''*** Add File: d/n'', ''+N'', ''*** End Patch''])"

definition lost_patch :: pytext where
  "lost_patch = join [10] (map lit [''*** Begin Patch'', ''*** Update File: a'', ''@@'', ''-A'', ''+B'',
     ''*** Update File: a'', ''*** Move to: b'', ''*** End Patch''])"

definition run_demo :: "pytext \<Rightarrow> patch_result result \<times> patch_rt" where
  "run_demo patch = apply_patch (demo_env ''build'') patch False demo_rt"

lemma demo_run_ok: "\<exists>r. fst (run_demo demo_patch) = Inr r"
proof -
  have "(case fst (run_demo demo_patch) of Inr r \<Rightarrow> True | Inl _ \<Rightarrow> False)" by code_simp
  then show ?thesis by (auto split: sum.splits)
qed

text \<open>
  C1: \<^verbatim>\<open>apply_patch\<close> does what the patch says.  When no added or moved file meets a path that an earlier
  operation of the patch touched, a call that returns has executed the operations one after the other:
  the reference run of the parsed operations over the files succeeds, and afterwards every file of the
  user holds exactly what the reference run leaves there, bytes and mode, all other files included.
  Several updates of the same file, under any spelling of its path, compose.  This holds for every
  pattern of failing system calls, across the parser, the path resolution, the hunks and the commit.
\<close>

theorem apply_patch_meaning:
  assumes "ws_ok (pe_ws env)" "tree_ok (w_fs w)" "parse_patch patch = Inr ops" "orderly env (w_fs w) [] ops"
    and "apply_patch env patch False w = (Inr r, w')"
  shows "\<exists>G. spec_ops env (w_fs w) ops (disk_files (w_fs w)) = Inr G \<and>
    (\<forall>p. user_path p \<longrightarrow> file_at (w_fs w') p = file_value (G p))"
  using assms by (rule apply_patch_meaning_lemma)

theorem apply_patch_meaning_witness:
  "file_at (w_fs (snd (run_demo demo_patch))) [''w'', ''a''] = Some ([67, 10], 420)"
proof -
  obtain r where r: "fst (run_demo demo_patch) = Inr r" using demo_run_ok by blast
  have ws: "ws_ok (pe_ws (demo_env ''build''))" by (simp add: demo_env_def demo_ws_ok)
  have tree: "tree_ok (w_fs demo_rt)" by code_simp
  have "(case parse_patch demo_patch of Inr ops \<Rightarrow> orderly (demo_env ''build'') (w_fs demo_rt) [] ops \<and>
      (case spec_ops (demo_env ''build'') (w_fs demo_rt) ops (disk_files (w_fs demo_rt)) of
         Inr G \<Rightarrow> file_value (G [''w'', ''a'']) = Some ([67, 10], 420) | Inl _ \<Rightarrow> False) | Inl _ \<Rightarrow> False)"
    by code_simp
  then obtain ops where ops: "parse_patch demo_patch = Inr ops" "orderly (demo_env ''build'') (w_fs demo_rt) [] ops"
    and G: "\<And>G. spec_ops (demo_env ''build'') (w_fs demo_rt) ops (disk_files (w_fs demo_rt)) = Inr G \<Longrightarrow>
      file_value (G [''w'', ''a'']) = Some ([67, 10], 420)"
    by (auto split: sum.splits)
  have "apply_patch (demo_env ''build'') demo_patch False demo_rt = (Inr r, snd (run_demo demo_patch))"
    using r by (simp add: run_demo_def prod_eq_iff)
  moreover have "user_path [''w'', ''a'']" by code_simp
  ultimately show ?thesis using apply_patch_meaning [OF ws tree ops] G by metis
qed

text \<open>
  An update and a later move of the same file in one patch lose the update: the call reports success
  and both operations, but the moved file has the content from before the patch, while the operations run
  one after the other would move the updated text.
\<close>

theorem moved_update_lost:
  "(case run_demo lost_patch of
      (Inr r, w) \<Rightarrow> re_affected r = [(''a'', ''update''), (''a'', ''move_from''), (''b'', ''move_to'')] \<and>
        file_at (w_fs w) [''w'', ''a''] = None \<and> file_at (w_fs w) [''w'', ''b''] = Some ([65, 10], 420)
    | (Inl _, _) \<Rightarrow> False) \<and>
   (case parse_patch lost_patch of
      Inr ops \<Rightarrow> (case spec_ops (demo_env ''build'') demo_tree ops (disk_files demo_tree) of
          Inr G \<Rightarrow> file_value (G [''w'', ''b'']) = Some ([66, 10], 420) | Inl _ \<Rightarrow> False)
    | Inl _ \<Rightarrow> False)"
  by code_simp


definition faulty_env :: patch_env where
  "faulty_env = (demo_env ''build'')\<lparr>pe_os := demo_os (\<lambda>n. n = 22)\<rparr>"


text \<open>
  The risk of a patch is never reported: whatever the limits on removed lines and whatever the patch
  removes, a call that returns reports the overall risk \<^verbatim>\<open>ALLOW\<close> and the class \<^verbatim>\<open>normal\<close>, for the whole
  patch and for every file, since the update branch sets \<^verbatim>\<open>HIGH_RISK\<close> and the report tests for \<^verbatim>\<open>ASK\<close>.
\<close>

theorem patch_risk_never_raised:
  assumes "apply_patch env patch dry w = (Inr r, w')"
  shows "re_risk r = ''ALLOW'' \<and> re_risk_class r = ''normal'' \<and> (\<forall>m \<in> set (re_files r). fm_risk_class m = ''normal'')"
proof -
  obtain a w1 where a: "analyze_patch env patch w = (Inr a, w1)" and r: "r = patch_report env dry a"
    using assms by (auto simp: apply_patch_def split: if_splits prod.splits sum.splits)
  show ?thesis
    using analyze_patch_calm [OF a] by (simp add: r patch_report_def Let_def calm_def list_all_iff)
qed

theorem patch_risk_never_raised_witness:
  "\<exists>r. fst (run_demo demo_patch) = Inr r \<and> re_risk_class r = ''normal''"
  using demo_run_ok patch_risk_never_raised [of "demo_env ''build''" demo_patch False demo_rt]
  unfolding run_demo_def by (metis prod.collapse)

end
