(* ===== verification/Policy.thy ===== *)
theory Policy
  imports Workspace
begin

text \<open>
  \<open>coding_tools_mcp/policy.py\<close>, the two execution modes and the legacy names that map to them, and
  \<open>coding_tools_mcp/path_security.py\<close>, the paths that hold credentials.  The lemmas say that the mode
  decides the access in one way only, and that the protection of a directory extends to everything
  below it, in any spelling of upper and lower case.
\<close>

section \<open>Execution modes\<close>

definition EXECUTION_MODES :: "string list" where
  "EXECUTION_MODES = [''plan'', ''build'']"

definition DEFAULT_EXECUTION_MODE :: string where
  "DEFAULT_EXECUTION_MODE = ''build''"

definition norm_mode :: "string \<Rightarrow> string" where
  "norm_mode m = lower_str (strip_str m)"

definition effective_access :: "string \<Rightarrow> string result" where
  "effective_access m =
     (if norm_mode m = ''plan'' then Inr ''read-only''
      else if norm_mode m = ''build'' then Inr ''full-access'' else Inl (ValueError ''unknown execution_mode''))"

definition given :: "string option \<Rightarrow> bool" where
  "given v = (case v of None \<Rightarrow> False | Some t \<Rightarrow> strip_str t \<noteq> [])"

definition legacy_mode :: "string \<Rightarrow> (string \<times> string) option" where
  "legacy_mode p =
     map_of [(''safe'', (''plan'', ''read-only'')), (''trusted'', (''build'', ''full-access'')),
             (''dangerous'', (''build'', ''full-access''))] p"

definition resolve_execution_mode :: "string option \<Rightarrow> string option \<Rightarrow> (string \<times> string) result" where
  "resolve_execution_mode execution_mode permission_mode =
     (if given execution_mode then
        (let mode = norm_mode (the execution_mode) in
         if mode \<notin> set EXECUTION_MODES then Inl (ValueError ''unknown execution_mode'')
         else rbind (effective_access mode) (\<lambda>a. Inr (mode, a)))
      else if given permission_mode then
        (case legacy_mode (norm_mode (the permission_mode)) of
           Some x \<Rightarrow> Inr x | None \<Rightarrow> Inl (ValueError ''unknown legacy permission_mode''))
      else rbind (effective_access DEFAULT_EXECUTION_MODE) (\<lambda>a. Inr (DEFAULT_EXECUTION_MODE, a)))"

lemma effective_access_modes: "effective_access ''plan'' = Inr ''read-only''" "effective_access ''build'' = Inr ''full-access''"
  by code_simp+

text \<open>Whatever is configured, the mode is one of the two and the access is the one of the mode.\<close>

lemma resolve_execution_mode_consistent:
  assumes "resolve_execution_mode e p = Inr (m, a)"
  shows "m \<in> set EXECUTION_MODES" "effective_access m = Inr a" "a = ''full-access'' \<longleftrightarrow> m = ''build''"
proof -
  have "(m, a) \<in> {(''plan'', ''read-only''), (''build'', ''full-access'')}"
    using assms effective_access_modes
    by (auto simp: resolve_execution_mode_def Let_def EXECUTION_MODES_def DEFAULT_EXECUTION_MODE_def legacy_mode_def
        result_simps split: if_splits option.splits)
  then show "m \<in> set EXECUTION_MODES" "effective_access m = Inr a" "a = ''full-access'' \<longleftrightarrow> m = ''build''"
    using effective_access_modes by (auto simp: EXECUTION_MODES_def)
qed

section \<open>Sensitive paths\<close>

definition SENSITIVE_DIR_NAMES :: "string list" where
  "SENSITIVE_DIR_NAMES = [''.git'', ''.ssh'', ''.aws'', ''.gnupg'', ''.kube'', ''.azure'', ''.docker'', ''.terraform.d'']"

definition SENSITIVE_FILE_NAMES :: "string list" where
  "SENSITIVE_FILE_NAMES = [''.npmrc'', ''.pypirc'', ''.netrc'', ''_netrc'', ''.git-credentials'', ''credentials.json'',
     ''application_default_credentials.json'', ''credentials.tfrc.json'']"

definition SENSITIVE_CONFIG_SUBTREES :: "(string \<times> string) list" where
  "SENSITIVE_CONFIG_SUBTREES =
     [(''.config'', ''gcloud''), (''.config'', ''gh''), (''.config'', ''aws''), (''.config'', ''azure'')]"

definition normalize_path_parts :: "string \<Rightarrow> string list" where
  "normalize_path_parts raw =
     path_parts (map (\<lambda>c. if c = CHR 0x5C then CHR ''/'' else c) raw)"

definition sensitive_part :: "string \<Rightarrow> string option" where
  "sensitive_part part =
     (if part \<in> set SENSITIVE_DIR_NAMES then Some (''protected credential/runtime directory: '' @ part)
      else if (part = ''.env'' \<or> startswith part ''.env.'') \<and> part \<noteq> ''.env.example''
      then Some (''protected environment path: '' @ part) else None)"

fun first_reason :: "('a \<Rightarrow> string option) \<Rightarrow> 'a list \<Rightarrow> string option" where
  "first_reason f [] = None"
| "first_reason f (x # xs) = (case f x of Some r \<Rightarrow> Some r | None \<Rightarrow> first_reason f xs)"

definition sensitive_pair :: "string \<times> string \<Rightarrow> string option" where
  "sensitive_pair ab =
     (if ab \<in> set SENSITIVE_CONFIG_SUBTREES then
        Some (''protected credential config subtree: '' @ fst ab @ ''/'' @ snd ab) else None)"

definition sensitive_name :: "string \<Rightarrow> string option" where
  "sensitive_name name =
     (if name \<in> set SENSITIVE_FILE_NAMES then Some (''protected credential file: '' @ name)
      else if list_ex (endswith name) [''.pem'', ''.key'', ''.p12'', ''.pfx'']
      then Some (''protected key/certificate file: '' @ name) else None)"

definition sensitive_path_reason :: "string list \<Rightarrow> string option" where
  "sensitive_path_reason parts =
     (let lowered = map lower_str (filter (\<lambda>p. p \<notin> {[], ''/'', ''.''}) parts) in
      case first_reason sensitive_part lowered of
        Some r \<Rightarrow> Some r
      | None \<Rightarrow>
          (case first_reason sensitive_pair (zip lowered (tl lowered)) of
             Some r \<Rightarrow> Some r
           | None \<Rightarrow> (if lowered = [] then None else sensitive_name (last lowered))))"

definition sensitive_raw_path_reason :: "string \<Rightarrow> string option" where
  "sensitive_raw_path_reason raw = sensitive_path_reason (normalize_path_parts raw)"

lemma first_reason_None: "first_reason f xs = None \<longleftrightarrow> (\<forall>x \<in> set xs. f x = None)"
  by (induction xs) (auto split: option.splits)

lemma lower_str_special: "lower_str p \<in> {[], ''/'', ''.''} \<longleftrightarrow> p \<in> {[], ''/'', ''.''}"
proof -
  have c: "ch_lower c = d \<longleftrightarrow> c = d" if "ch_code d \<in> {46, 47}" for c d
  proof -
    have "of_char (char_of (ch_code c + 32)) \<noteq> (ch_code d :: nat)" if "65 \<le> ch_code c" "ch_code c \<le> 222"
      using that \<open>ch_code d \<in> {46, 47}\<close> by auto
    then show ?thesis
      using that unfolding ch_lower_def Let_def ch_code_def by (auto split: if_splits)
  qed
  show ?thesis
    using c [of "CHR ''/''"] c [of "CHR ''.''"] by (auto simp: lower_str_def ch_code_def map_eq_Cons_conv)
qed

lemma sensitive_lower: "sensitive_path_reason (map lower_str parts) = sensitive_path_reason parts"
proof -
  have "filter (\<lambda>p. p \<notin> {[], ''/'', ''.''}) (map lower_str parts) =
      map lower_str (filter (\<lambda>p. p \<notin> {[], ''/'', ''.''}) parts)"
    unfolding filter_map comp_def lower_str_special ..
  then show ?thesis by (simp add: sensitive_path_reason_def comp_def)
qed

text \<open>Whatever lies below a protected directory or environment name is protected.\<close>

lemma sensitive_below:
  assumes "q \<in> set parts" "sensitive_part (lower_str q) \<noteq> None"
  shows "sensitive_path_reason parts \<noteq> None"
proof -
  have "lower_str q \<notin> {[], ''/'', ''.''}"
  proof
    assume "lower_str q \<in> {[], ''/'', ''.''}"
    moreover have "list_all (\<lambda>p. sensitive_part p = None) [[], ''/'', ''.'']" by code_simp
    ultimately show False using assms(2) by auto
  qed
  then have "lower_str q \<in> set (map lower_str (filter (\<lambda>p. p \<notin> {[], ''/'', ''.''}) parts))"
    using assms(1) lower_str_special by auto
  then have "first_reason sensitive_part (map lower_str (filter (\<lambda>p. p \<notin> {[], ''/'', ''.''}) parts)) \<noteq> None"
    using assms(2) by (auto simp: first_reason_None)
  then show ?thesis by (auto simp: sensitive_path_reason_def Let_def split: option.splits)
qed

lemma sensitive_examples:
  "sensitive_raw_path_reason ''src/.GIT/config'' = Some ''protected credential/runtime directory: .git''"
  "sensitive_raw_path_reason ''.env.example'' = None"
  "sensitive_raw_path_reason ''.config/gh/hosts.yml'' = Some ''protected credential config subtree: .config/gh''"
  by code_simp+

end
