(* ===== verification/Arguments.thy ===== *)
theory Arguments
  imports PyStr
begin

text \<open>
  How the handlers read their argument dictionary: \<^verbatim>\<open>str(v)\<close>, \<^verbatim>\<open>int(args.get(k, d))\<close>,
  \<^verbatim>\<open>bool(args.get(k, d))\<close>.  The text Python's \<^verbatim>\<open>str\<close> gives for numbers with a fraction, lists and
  objects is the parameter \<open>other\<close>.
\<close>

definition py_str :: "(json \<Rightarrow> string) \<Rightarrow> json \<Rightarrow> string" where
  "py_str other v =
     (case v of JStr s \<Rightarrow> s | JInt n \<Rightarrow> int_str n | JBool b \<Rightarrow> (if b then ''True'' else ''False'')
      | JNull \<Rightarrow> ''None'' | _ \<Rightarrow> other v)"

text \<open>\<^verbatim>\<open>int(v)\<close> truncates a fraction towards zero, parses a string, and refuses the rest.\<close>

definition int_value :: "json \<Rightarrow> int result" where
  "int_value v = (case v of
     JInt n \<Rightarrow> Inr n
   | JBool b \<Rightarrow> Inr (if b then 1 else 0)
   | JFloat x \<Rightarrow> Inr (if x < 0 then - \<lfloor>- x\<rfloor> else \<lfloor>x\<rfloor>)
   | JStr s \<Rightarrow> (case py_int s of Some n \<Rightarrow> Inr n | None \<Rightarrow> Inl (ValueError ''invalid literal for int()''))
   | _ \<Rightarrow> Inl TypeError)"

definition int_arg :: "obj \<Rightarrow> string \<Rightarrow> int \<Rightarrow> int result" where
  "int_arg args k d = (case map_of args k of None \<Rightarrow> Inr d | Some v \<Rightarrow> int_value v)"

definition bool_arg :: "obj \<Rightarrow> string \<Rightarrow> bool \<Rightarrow> bool" where
  "bool_arg args k d = (case map_of args k of None \<Rightarrow> d | Some v \<Rightarrow> \<not> json_falsy v)"

definition str_arg :: "(json \<Rightarrow> string) \<Rightarrow> obj \<Rightarrow> string \<Rightarrow> string \<Rightarrow> string" where
  "str_arg other args k d = (case map_of args k of None \<Rightarrow> d | Some v \<Rightarrow> py_str other v)"

text \<open>\<^verbatim>\<open>s.split()\<close>: the runs of characters that are no white space.\<close>

fun words_by :: "('a \<Rightarrow> bool) \<Rightarrow> 'a list \<Rightarrow> 'a list \<Rightarrow> 'a list list" where
  "words_by P acc [] = (if acc = [] then [] else [rev acc])"
| "words_by P acc (c # cs) =
     (if P c then (if acc = [] then words_by P [] cs else rev acc # words_by P [] cs)
      else words_by P (c # acc) cs)"

definition split_words :: "string \<Rightarrow> string list" where
  "split_words s = words_by ch_space [] s"

lemma arg_default [simp]:
  "map_of args k = None \<Longrightarrow> int_arg args k d = Inr d"
  "map_of args k = None \<Longrightarrow> bool_arg args k b = b"
  "map_of args k = None \<Longrightarrow> str_arg other args k t = t"
  by (simp_all add: int_arg_def bool_arg_def str_arg_def)

lemma int_arg_JInt [simp]: "map_of args k = Some (JInt n) \<Longrightarrow> int_arg args k d = Inr n"
  by (simp add: int_arg_def int_value_def)

lemma bool_arg_JBool [simp]: "map_of args k = Some (JBool b) \<Longrightarrow> bool_arg args k d = b"
  by (simp add: bool_arg_def json_falsy_def)

lemma str_arg_JStr [simp]: "map_of args k = Some (JStr s) \<Longrightarrow> str_arg other args k d = s"
  by (simp add: str_arg_def py_str_def)

end
