(* ===== verification/Tasks.thy ===== *)
theory Tasks
  imports Workspace Arguments
begin

text \<open>
  The registry of tasks, \<open>coding_tools_mcp/tasks.py\<close>, and the tools of \<open>coding_tools_mcp/server.py\<close> that
  use it.  A task is an executable with a fixed argument vector to which the caller may append arguments
  and a path.  Arguments are JSON values; the text that Python's \<^verbatim>\<open>str\<close> gives for numbers
  with a fraction, lists and objects is the parameter of \<open>py_str\<close> (\<open>Arguments\<close>).
\<close>

section \<open>Templates\<close>

record arg_definition =
  ad_type :: string
  ad_required :: bool
  ad_values :: "json list"

record TaskTemplate =
  tt_id :: string
  tt_category :: string
  tt_description :: string
  tt_executable :: string
  tt_argv :: "string list"
  tt_arg_definitions :: "(string, arg_definition) dict"
  tt_network :: bool
  tt_cwd_policy :: string

definition command_args :: "TaskTemplate \<Rightarrow> string list" where
  "command_args t = tt_executable t # tt_argv t"

definition COMMON_ARGUMENTS :: "(string, arg_definition) dict" where
  "COMMON_ARGUMENTS =
     [(''args'', \<lparr>ad_type = ''string_array'', ad_required = False, ad_values = []\<rparr>),
      (''path'', \<lparr>ad_type = ''path'', ad_required = False, ad_values = []\<rparr>)]"

definition task ::
    "string \<Rightarrow> string \<Rightarrow> string \<Rightarrow> string \<Rightarrow> string list \<Rightarrow> bool \<Rightarrow> (string, arg_definition) dict \<Rightarrow> TaskTemplate" where
  "task ident category description executable argv network arguments =
     \<lparr>tt_id = ident, tt_category = category, tt_description = description, tt_executable = executable,
      tt_argv = argv, tt_arg_definitions = (if arguments = [] then COMMON_ARGUMENTS else arguments),
      tt_network = network, tt_cwd_policy = ''workspace_root''\<rparr>"

section \<open>The registry\<close>

definition general_tasks :: "TaskTemplate list" where
  "general_tasks =
    [task ''test.echo'' ''test'' ''Safe echo test task.'' ''echo'' [''hello''] False COMMON_ARGUMENTS,
     task ''test.dummy'' ''test'' ''Safe dummy test task.'' ''python3'' [''-c'', ''print('dummy_task_ok')''] False COMMON_ARGUMENTS,
     task ''project.detect'' ''project'' ''Detect project type.'' ''python3'' [''-c'', ''import os; print('package.json' if os.path.exists('package.json') else 'pyproject.toml')''] False COMMON_ARGUMENTS,
     task ''project.summary'' ''project'' ''Summary of project files.'' ''ls'' [''-la''] False COMMON_ARGUMENTS,
     task ''file.stat'' ''file'' ''Get file stats.'' ''stat'' [] False COMMON_ARGUMENTS,
     task ''file.type'' ''file'' ''Get file type.'' ''file'' [] False COMMON_ARGUMENTS,
     task ''text.head'' ''text'' ''Get first N lines of a file.'' ''head'' [''-n''] False COMMON_ARGUMENTS,
     task ''text.tail'' ''text'' ''Get last N lines of a file.'' ''tail'' [''-n''] False COMMON_ARGUMENTS,
     task ''text.count'' ''text'' ''Count lines, words, and bytes.'' ''wc'' [] False COMMON_ARGUMENTS,
     task ''hash.sha256'' ''hash'' ''Calculate SHA256 hash.'' ''sha256sum'' [] False COMMON_ARGUMENTS,
     task ''search.rg'' ''search'' ''Search using ripgrep.'' ''rg'' [] False COMMON_ARGUMENTS,
     task ''search.files'' ''search'' ''Search for files.'' ''find'' [''.'', ''-name''] False COMMON_ARGUMENTS,
     task ''search.todo'' ''search'' ''Search for TODO.'' ''grep'' [''-rn'', ''TODO'', ''.''] False COMMON_ARGUMENTS,
     task ''json.validate'' ''json'' ''Validate JSON syntax.'' ''python3'' [''-m'', ''json.tool''] False COMMON_ARGUMENTS,
     task ''yaml.validate'' ''yaml'' ''Validate YAML syntax.'' ''python3'' [''-c'', ''import yaml, sys; yaml.safe_load(open(sys.argv[1]))''] False COMMON_ARGUMENTS,
     task ''toml.validate'' ''toml'' ''Validate TOML syntax.'' ''python3'' [''-c'', ''import tomllib, sys; tomllib.load(open(sys.argv[1], 'rb'))''] False COMMON_ARGUMENTS,
     task ''npm.test'' ''npm'' ''Run npm tests.'' ''npm'' [''test''] False COMMON_ARGUMENTS,
     task ''npm.test_target'' ''npm'' ''Run a specific npm test.'' ''npm'' [''test'', ''--''] False COMMON_ARGUMENTS,
     task ''npm.build'' ''npm'' ''Run npm build.'' ''npm'' [''run'', ''build''] False COMMON_ARGUMENTS,
     task ''npm.lint'' ''npm'' ''Run npm lint.'' ''npm'' [''run'', ''lint''] False COMMON_ARGUMENTS,
     task ''npm.typecheck'' ''npm'' ''Run npm typecheck.'' ''npm'' [''run'', ''typecheck''] False COMMON_ARGUMENTS,
     task ''npm.format_check'' ''npm'' ''Run npm format check.'' ''npm'' [''run'', ''format:check''] False COMMON_ARGUMENTS,
     task ''npm.install'' ''npm'' ''Install npm dependencies using normal BUILD network access.'' ''npm'' [''install''] True COMMON_ARGUMENTS,
     task ''npm.audit'' ''npm'' ''Run npm audit.'' ''npm'' [''audit''] False COMMON_ARGUMENTS,
     task ''pnpm.test'' ''pnpm'' ''Run pnpm tests.'' ''pnpm'' [''test''] False COMMON_ARGUMENTS,
     task ''pnpm.build'' ''pnpm'' ''Run pnpm build.'' ''pnpm'' [''run'', ''build''] False COMMON_ARGUMENTS,
     task ''pnpm.lint'' ''pnpm'' ''Run pnpm lint.'' ''pnpm'' [''run'', ''lint''] False COMMON_ARGUMENTS,
     task ''pnpm.install'' ''pnpm'' ''Install pnpm dependencies using normal BUILD network access.'' ''pnpm'' [''install''] True COMMON_ARGUMENTS,
     task ''yarn.test'' ''yarn'' ''Run yarn tests.'' ''yarn'' [''test''] False COMMON_ARGUMENTS,
     task ''yarn.build'' ''yarn'' ''Run yarn build.'' ''yarn'' [''run'', ''build''] False COMMON_ARGUMENTS,
     task ''yarn.lint'' ''yarn'' ''Run yarn lint.'' ''yarn'' [''run'', ''lint''] False COMMON_ARGUMENTS,
     task ''yarn.install'' ''yarn'' ''Install yarn dependencies using normal BUILD network access.'' ''yarn'' [''install''] True COMMON_ARGUMENTS,
     task ''bun.test'' ''bun'' ''Run bun tests.'' ''bun'' [''test''] False COMMON_ARGUMENTS,
     task ''bun.build'' ''bun'' ''Run bun build.'' ''bun'' [''run'', ''build''] False COMMON_ARGUMENTS,
     task ''bun.install'' ''bun'' ''Install bun dependencies using normal BUILD network access.'' ''bun'' [''install''] True COMMON_ARGUMENTS]"

definition language_tasks :: "TaskTemplate list" where
  "language_tasks =
    [task ''vitest.run'' ''javascript'' ''Run Vitest tests.'' ''vitest'' [''run''] False COMMON_ARGUMENTS,
     task ''jest.run'' ''javascript'' ''Run Jest tests.'' ''jest'' [] False COMMON_ARGUMENTS,
     task ''pytest.all'' ''python'' ''Run all pytest tests.'' ''python3'' [''-m'', ''pytest''] False COMMON_ARGUMENTS,
     task ''pytest.file'' ''python'' ''Run pytest on a file.'' ''python3'' [''-m'', ''pytest''] False [(''args'', \<lparr>ad_type = ''string_array'', ad_required = False, ad_values = []\<rparr>), (''path'', \<lparr>ad_type = ''path'', ad_required = True, ad_values = []\<rparr>)],
     task ''unittest.all'' ''python'' ''Run all unittests.'' ''python3'' [''-m'', ''unittest'', ''discover''] False COMMON_ARGUMENTS,
     task ''ruff.check'' ''python'' ''Run ruff check.'' ''ruff'' [''check'', ''.''] False COMMON_ARGUMENTS,
     task ''ruff.format_check'' ''python'' ''Run ruff format check.'' ''ruff'' [''format'', ''--check'', ''.''] False COMMON_ARGUMENTS,
     task ''mypy.check'' ''python'' ''Run mypy type checking.'' ''mypy'' [''.''] False COMMON_ARGUMENTS,
     task ''pyright.check'' ''python'' ''Run pyright.'' ''pyright'' [] False COMMON_ARGUMENTS,
     task ''python.compileall'' ''python'' ''Compile all Python files.'' ''python3'' [''-m'', ''compileall'', ''.''] False COMMON_ARGUMENTS,
     task ''python.build'' ''python'' ''Build the Python package.'' ''python3'' [''-m'', ''build''] False COMMON_ARGUMENTS,
     task ''tox.run'' ''python'' ''Run tox.'' ''tox'' [] False COMMON_ARGUMENTS,
     task ''nox.run'' ''python'' ''Run nox.'' ''nox'' [] False COMMON_ARGUMENTS,
     task ''uv.sync'' ''python'' ''Sync uv dependencies using normal BUILD network access.'' ''uv'' [''sync''] True COMMON_ARGUMENTS,
     task ''cargo.test'' ''rust'' ''Run cargo tests.'' ''cargo'' [''test''] False COMMON_ARGUMENTS,
     task ''cargo.build'' ''rust'' ''Run cargo build.'' ''cargo'' [''build''] False COMMON_ARGUMENTS,
     task ''cargo.check'' ''rust'' ''Run cargo check.'' ''cargo'' [''check''] False COMMON_ARGUMENTS,
     task ''cargo.clippy'' ''rust'' ''Run cargo clippy.'' ''cargo'' [''clippy''] False COMMON_ARGUMENTS,
     task ''cargo.fmt_check'' ''rust'' ''Run cargo fmt check.'' ''cargo'' [''fmt'', ''--'', ''--check''] False COMMON_ARGUMENTS,
     task ''cargo.run'' ''rust'' ''Run cargo project.'' ''cargo'' [''run''] False COMMON_ARGUMENTS,
     task ''go.test'' ''go'' ''Run Go tests.'' ''go'' [''test'', ''./...''] False COMMON_ARGUMENTS,
     task ''go.build'' ''go'' ''Build Go packages.'' ''go'' [''build'', ''./...''] False COMMON_ARGUMENTS,
     task ''go.vet'' ''go'' ''Run go vet.'' ''go'' [''vet'', ''./...''] False COMMON_ARGUMENTS,
     task ''go.fmt'' ''go'' ''Format Go packages.'' ''go'' [''fmt'', ''./...''] False COMMON_ARGUMENTS,
     task ''go.mod_tidy'' ''go'' ''Tidy Go dependencies using normal BUILD network access.'' ''go'' [''mod'', ''tidy''] True COMMON_ARGUMENTS,
     task ''golangci_lint.run'' ''go'' ''Run golangci-lint.'' ''golangci-lint'' [''run''] False COMMON_ARGUMENTS,
     task ''mvn.test'' ''java'' ''Run Maven tests.'' ''mvn'' [''test''] False COMMON_ARGUMENTS,
     task ''mvn.package'' ''java'' ''Build a Maven package.'' ''mvn'' [''package''] False COMMON_ARGUMENTS,
     task ''mvn.compile'' ''java'' ''Compile with Maven.'' ''mvn'' [''compile''] False COMMON_ARGUMENTS,
     task ''gradle.test'' ''java'' ''Run Gradle tests.'' ''./gradlew'' [''test''] False COMMON_ARGUMENTS,
     task ''gradle.build'' ''java'' ''Build with Gradle.'' ''./gradlew'' [''build''] False COMMON_ARGUMENTS,
     task ''make.all'' ''c'' ''Run make.'' ''make'' [] False COMMON_ARGUMENTS,
     task ''make.clean'' ''c'' ''Clean make outputs.'' ''make'' [''clean''] False COMMON_ARGUMENTS,
     task ''make.test'' ''c'' ''Run make tests.'' ''make'' [''test''] False COMMON_ARGUMENTS,
     task ''cmake.configure'' ''c'' ''Configure CMake.'' ''cmake'' [''-S'', ''.'', ''-B'', ''build''] False COMMON_ARGUMENTS,
     task ''cmake.build'' ''c'' ''Build CMake project.'' ''cmake'' [''--build'', ''build''] False COMMON_ARGUMENTS,
     task ''cmake.test'' ''c'' ''Run CTest.'' ''ctest'' [''--test-dir'', ''build''] False COMMON_ARGUMENTS,
     task ''playwright.test'' ''browser'' ''Run Playwright tests.'' ''npx'' [''playwright'', ''test''] False COMMON_ARGUMENTS,
     task ''playwright.test_target'' ''browser'' ''Run a Playwright target.'' ''npx'' [''playwright'', ''test''] False COMMON_ARGUMENTS,
     task ''playwright.smoke'' ''browser'' ''Run Playwright smoke tests.'' ''npx'' [''playwright'', ''test'', ''--grep'', ''@smoke''] False COMMON_ARGUMENTS,
     task ''cypress.run'' ''browser'' ''Run Cypress.'' ''npx'' [''cypress'', ''run''] False COMMON_ARGUMENTS,
     task ''prisma.generate'' ''db'' ''Generate Prisma client.'' ''npx'' [''prisma'', ''generate''] False COMMON_ARGUMENTS,
     task ''prisma.db_push'' ''db'' ''Push Prisma schema.'' ''npx'' [''prisma'', ''db'', ''push''] False COMMON_ARGUMENTS,
     task ''alembic.upgrade'' ''db'' ''Upgrade the Alembic database.'' ''alembic'' [''upgrade'', ''head''] False COMMON_ARGUMENTS,
     task ''http.health'' ''network'' ''Check HTTP health using normal BUILD network access.'' ''curl'' [''-sI''] True COMMON_ARGUMENTS]"


definition TASK_REGISTRY :: "TaskTemplate list" where
  "TASK_REGISTRY = general_tasks @ language_tasks"

definition tasks :: "(string, TaskTemplate) dict" where
  "tasks = dict_from (map (\<lambda>t. (tt_id t, t)) TASK_REGISTRY)"

definition get_task :: "string \<Rightarrow> TaskTemplate option" where
  "get_task ident = map_of tasks ident"

lemma registry_ids: "distinct (map tt_id TASK_REGISTRY)"
  by code_simp

lemma tasks_registry [code]: "tasks = map (\<lambda>t. (tt_id t, t)) TASK_REGISTRY"
  unfolding tasks_def by (rule dict_from_distinct) (simp add: comp_def registry_ids)

section \<open>Queries\<close>

text \<open>The check of a relative path: \<^verbatim>\<open>PurePosixPath\<close> drops empty names and dots.\<close>

definition relative_path :: "string \<Rightarrow> bool" where
  "relative_path p \<longleftrightarrow> \<not> startswith p ''/'' \<and> ''..'' \<notin> set (path_parts p)"

definition direct_match :: "string list \<Rightarrow> TaskTemplate \<Rightarrow> bool" where
  "direct_match argv t \<longleftrightarrow>
     argv = tt_executable t # tt_argv t \<or>
     (tt_id t = ''pytest.file'' \<and> length argv = 2 \<and> hd argv = tt_executable t \<and>
      argv ! 1 \<noteq> [] \<and> \<not> startswith (argv ! 1) ''-'' \<and> relative_path (argv ! 1))"

definition match_direct_argv :: "string list \<Rightarrow> TaskTemplate option" where
  "match_direct_argv argv = (if argv = [] then None else find (direct_match argv) (map snd tasks))"

definition contains :: "string \<Rightarrow> string \<Rightarrow> bool" where
  "contains hay needle \<longleftrightarrow> find_sub hay needle \<noteq> None"

definition definition_json :: "arg_definition \<Rightarrow> json" where
  "definition_json d =
     JObj ([(''type'', JStr (ad_type d)), (''required'', JBool (ad_required d))] @
       (if ad_values d = [] then [] else [(''values'', JList (ad_values d))]))"

definition task_json :: "TaskTemplate \<Rightarrow> obj \<Rightarrow> json" where
  "task_json t extra =
     JObj ([(''id'', JStr (tt_id t)), (''category'', JStr (tt_category t)), (''description'', JStr (tt_description t)),
       (''executable'', JStr (tt_executable t)), (''argv'', JList (map JStr (tt_argv t))),
       (''argument_definitions'', JObj (map (\<lambda>(n, d). (n, definition_json d)) (tt_arg_definitions t)))] @ extra @
      [(''network_requirement'', JBool (tt_network t)), (''cwd_policy'', JStr (tt_cwd_policy t))])"

definition listed :: "string option \<Rightarrow> string option \<Rightarrow> TaskTemplate \<Rightarrow> bool" where
  "listed category query t \<longleftrightarrow>
     (case category of None \<Rightarrow> True | Some c \<Rightarrow> c = [] \<or> tt_category t = c) \<and>
     (case query of None \<Rightarrow> True
      | Some q \<Rightarrow> q = [] \<or> contains (lower_str (tt_id t)) (lower_str q) \<or>
          contains (lower_str (tt_description t)) (lower_str q))"

definition list_tasks :: "string option \<Rightarrow> string option \<Rightarrow> json list" where
  "list_tasks category query = map (\<lambda>t. task_json t []) (filter (listed category query) (map snd tasks))"

definition task_not_found :: pyexn where
  "task_not_found = tool_failure ''NOT_FOUND'' ''validation''"

definition invalid_task_argument :: pyexn where
  "invalid_task_argument = tool_failure ''INVALID_ARGUMENT'' ''validation''"

definition describe_task :: "string \<Rightarrow> json result" where
  "describe_task ident =
     (case map_of tasks ident of
        None \<Rightarrow> Inl task_not_found
      | Some t \<Rightarrow> Inr (task_json t [(''command'', JStr (join '' '' (command_args t)))]))"

section \<open>Building a command\<close>

definition nonempty_str :: "json \<Rightarrow> bool" where
  "nonempty_str v = (case v of JStr s \<Rightarrow> s \<noteq> [] | _ \<Rightarrow> False)"

definition argument_valid :: "json \<Rightarrow> arg_definition \<Rightarrow> bool result" where
  "argument_valid v d =
     (if ad_type d = ''string'' then Inr (case v of JStr _ \<Rightarrow> True | _ \<Rightarrow> False)
      else if ad_type d = ''string_array'' then Inr (case v of JList xs \<Rightarrow> list_all nonempty_str xs | _ \<Rightarrow> False)
      else if ad_type d = ''integer'' then Inr (case v of JInt _ \<Rightarrow> True | _ \<Rightarrow> False)
      else if ad_type d = ''boolean'' then Inr (case v of JBool _ \<Rightarrow> True | _ \<Rightarrow> False)
      else if ad_type d = ''path'' then Inr (case v of JStr p \<Rightarrow> relative_path p \<and> [] \<notin> set (path_parts p) | _ \<Rightarrow> False)
      else if ad_type d = ''enum'' then Inr (list_ex (py_eq v) (ad_values d))
      else Inl invalid_task_argument)"

definition validate_argument :: "json \<Rightarrow> arg_definition \<Rightarrow> json result" where
  "validate_argument v d = rbind (argument_valid v d) (\<lambda>ok. if ok then Inr v else Inl invalid_task_argument)"

fun typed_arguments :: "(string, arg_definition) dict \<Rightarrow> obj \<Rightarrow> obj result" where
  "typed_arguments [] vals = Inr []"
| "typed_arguments ((name, d) # ds) vals =
     (if obj_get vals name = JNull then
        (if ad_required d then Inl invalid_task_argument else typed_arguments ds vals)
      else rbind (validate_argument (obj_get vals name) d) (\<lambda>v.
        rbind (typed_arguments ds vals) (\<lambda>typed. Inr ((name, v) # typed))))"

definition render_token :: "(json \<Rightarrow> string) \<Rightarrow> obj \<Rightarrow> string \<Rightarrow> json list" where
  "render_token other typed tok =
     (if startswith tok ''{'' \<and> endswith tok ''}'' then
        (case map_of typed (butlast (tl tok)) of
           None \<Rightarrow> [JStr tok] | Some (JList xs) \<Rightarrow> xs | Some v \<Rightarrow> [JStr (py_str other v)])
      else [JStr tok])"

text \<open>\<^verbatim>\<open>list.extend\<close> of a value that is not necessarily a list.\<close>

definition list_extend :: "json list \<Rightarrow> json \<Rightarrow> json list result" where
  "list_extend argv v =
     (if json_falsy v then Inr argv
      else case v of
          JList xs \<Rightarrow> Inr (argv @ xs)
        | JStr s \<Rightarrow> Inr (argv @ map (\<lambda>c. JStr [c]) s)
        | JObj kvs \<Rightarrow> Inr (argv @ map (\<lambda>f. JStr (fst f)) kvs)
        | _ \<Rightarrow> Inl TypeError)"

definition str_of :: "json \<Rightarrow> string" where
  "str_of v = (case v of JStr s \<Rightarrow> s | _ \<Rightarrow> [])"

definition build_argv :: "(json \<Rightarrow> string) \<Rightarrow> TaskTemplate \<Rightarrow> obj \<Rightarrow> string list result" where
  "build_argv other t vals =
     rbind (typed_arguments (tt_arg_definitions t) vals) (\<lambda>typed.
     rbind (list_extend (JStr (tt_executable t) # concat (map (render_token other typed) (tt_argv t)))
                   (obj_get typed ''args'')) (\<lambda>argv.
       let path = obj_get typed ''path''; full = (if json_falsy path then argv else argv @ [path]) in
       if list_all nonempty_str full then Inr (map str_of full) else Inl invalid_task_argument))"

definition resolve_command :: "(json \<Rightarrow> string) \<Rightarrow> string \<Rightarrow> json \<Rightarrow> json \<Rightarrow> string list result" where
  "resolve_command other ident args path =
     (case map_of tasks ident of
        None \<Rightarrow> Inl task_not_found
      | Some t \<Rightarrow> build_argv other t
          [(''args'', case args of JStr s \<Rightarrow> JList [JStr s] | _ \<Rightarrow> args), (''path'', path)])"

section \<open>Running a task\<close>

text \<open>
  \<^verbatim>\<open>run_task\<close> up to the call of the command executor: the working directory, the argument vector, the
  environment and the limits that the executor receives.  The environment of the project (the search
  path, the virtual environment and the interpreter) is a parameter.
\<close>

record project_env =
  pj_path :: string
  pj_venv :: "string option"
  pj_interpreter :: "string option"

record task_call =
  tc_workdir :: path
  tc_argv :: "string list"
  tc_env :: obj
  tc_limits :: obj
  tc_capabilities :: "string list"
  tc_execution_mode :: string
  tc_executor :: string

definition operation_workdir :: "(json \<Rightarrow> string) \<Rightarrow> workspace_env \<Rightarrow> fs \<Rightarrow> obj \<Rightarrow> ResolvedPath result" where
  "operation_workdir other env s args =
     (let workdir = (case map_of args ''workdir'' of Some v \<Rightarrow> v
                     | None \<Rightarrow> (case map_of args ''cwd'' of Some v \<Rightarrow> v | None \<Rightarrow> JStr ''.'')) in
      if map_of args ''workdir'' \<noteq> None \<and> map_of args ''cwd'' \<noteq> None \<and>
         py_str other (obj_get args ''workdir'') \<noteq> py_str other (obj_get args ''cwd'')
      then Inl (tool_failure ''INVALID_ARGUMENT'' ''validation'')
      else rbind (rt_resolve_existing env s (py_str other workdir)) (\<lambda>r.
        if fs_is_dir s (rp_path r) then Inr r else Inl (tool_failure ''NOT_A_DIRECTORY'' ''validation'')))"

definition task_env :: "project_env \<Rightarrow> json \<Rightarrow> obj" where
  "task_env pj raw =
     (let env = (case raw of JObj kvs \<Rightarrow> kvs | _ \<Rightarrow> []) in
      if map_of env ''PATH'' \<noteq> None then env
      else
        let env = dict_set ''PATH'' (JStr (pj_path pj)) env;
            env = (case (pj_venv pj, pj_interpreter pj) of
                     (Some v, Some _) \<Rightarrow> if v = [] then env else dict_set ''VIRTUAL_ENV'' (JStr v) env
                   | _ \<Rightarrow> env) in
        dict_del ''PYTHONHOME'' env)"

definition execute_task_argv ::
    "(json \<Rightarrow> string) \<Rightarrow> workspace_env \<Rightarrow> fs \<Rightarrow> string list \<Rightarrow> obj \<Rightarrow> obj \<Rightarrow> string list \<Rightarrow> task_call result" where
  "execute_task_argv other env s argv args tenv caps =
     (if argv = [] \<or> [] \<in> set argv then Inl (tool_failure ''INVALID_ARGUMENT'' ''validation'')
      else rbind (operation_workdir other env s args) (\<lambda>r.
        let mode = (if we_mode env = ''build'' then ''full-access'' else ''read-only'') in
        Inr \<lparr>tc_workdir = rp_path r, tc_argv = argv, tc_env = tenv, tc_limits = args, tc_capabilities = caps,
             tc_execution_mode = mode,
             tc_executor = (if mode = ''full-access'' then ''unsafe_host'' else ''read_only_workspace'')\<rparr>))"

definition arg_or :: "obj \<Rightarrow> string \<Rightarrow> int \<Rightarrow> json" where
  "arg_or args k d = (case map_of args k of Some v \<Rightarrow> v | None \<Rightarrow> JInt d)"

definition run_task ::
    "(json \<Rightarrow> string) \<Rightarrow> workspace_env \<Rightarrow> project_env \<Rightarrow> fs \<Rightarrow> obj \<Rightarrow> task_call result" where
  "run_task other env pj s args =
     (case get_task (case map_of args ''task_id'' of None \<Rightarrow> [] | Some v \<Rightarrow> py_str other v) of
        None \<Rightarrow> Inl task_not_found
      | Some t \<Rightarrow>
          rbind (operation_workdir other env s args) (\<lambda>cwd.
          if tt_cwd_policy t = ''workspace_root'' \<and> rp_path cwd \<noteq> we_root env then
            Inl (tool_failure ''ACCESS_DENIED'' ''security'')
          else if (case obj_get args ''path'' of JStr p \<Rightarrow> \<not> relative_path p | _ \<Rightarrow> False) then
            Inl (tool_failure ''PATH_OUTSIDE_WORKSPACE'' ''security'')
          else rbind (build_argv other t args) (\<lambda>argv.
            if we_mode env = ''plan'' then Inl (tool_failure ''EXECUTION_DENIED'' ''security'')
            else execute_task_argv other env s argv
                   [(''cwd'', JStr (rp_display cwd)), (''timeout_ms'', arg_or args ''timeout_ms'' 30000),
                    (''yield_time_ms'', arg_or args ''yield_time_ms'' 10000),
                    (''max_output_bytes'', arg_or args ''max_output_bytes'' 65536)]
                   (task_env pj (obj_get args ''env'')) [])))"

section \<open>What a command contains\<close>

text \<open>The arguments a caller may give to a task, as the registry declares them.\<close>

definition string_array :: "json \<Rightarrow> string list option" where
  "string_array v =
     (case v of JNull \<Rightarrow> Some []
      | JList xs \<Rightarrow> (if list_all nonempty_str xs then Some (map str_of xs) else None)
      | _ \<Rightarrow> None)"

definition path_argument :: "bool \<Rightarrow> json \<Rightarrow> string list option" where
  "path_argument required v =
     (case v of JNull \<Rightarrow> (if required then None else Some [])
      | JStr p \<Rightarrow> (if relative_path p then Some (if p = [] then [] else [p]) else None)
      | _ \<Rightarrow> None)"

definition task_command :: "TaskTemplate \<Rightarrow> obj \<Rightarrow> string list option" where
  "task_command t vals =
     (case (string_array (obj_get vals ''args''), path_argument (tt_id t = ''pytest.file'') (obj_get vals ''path'')) of
        (Some xs, Some ps) \<Rightarrow> Some (command_args t @ xs @ ps) | _ \<Rightarrow> None)"

text \<open>The registry declares the same two arguments for every task and uses no place holders.\<close>

definition path_definition :: "bool \<Rightarrow> (string, arg_definition) dict" where
  "path_definition required =
     [(''args'', \<lparr>ad_type = ''string_array'', ad_required = False, ad_values = []\<rparr>),
      (''path'', \<lparr>ad_type = ''path'', ad_required = required, ad_values = []\<rparr>)]"

definition plain_task :: "TaskTemplate \<Rightarrow> bool" where
  "plain_task t \<longleftrightarrow>
     tt_arg_definitions t = path_definition (tt_id t = ''pytest.file'') \<and>
     list_all (\<lambda>a. a \<noteq> [] \<and> \<not> startswith a ''{'') (command_args t) \<and> tt_cwd_policy t = ''workspace_root''"

lemma registry_plain: "list_all plain_task TASK_REGISTRY"
  by code_simp

lemma get_task_registered:
  assumes "get_task ident = Some t"
  shows "tt_id t = ident" "plain_task t"
proof -
  have "(ident, t) \<in> set (map (\<lambda>t. (tt_id t, t)) TASK_REGISTRY)"
    using assms by (intro map_of_SomeD) (simp add: get_task_def tasks_registry)
  then show "tt_id t = ident" "plain_task t" using registry_plain by (auto simp: list_all_iff)
qed

lemma nonempty_strings:
  "list_all nonempty_str xs \<Longrightarrow> map JStr (map str_of xs) = xs" "list_all nonempty_str xs \<Longrightarrow> [] \<notin> set (map str_of xs)"
  by (induction xs) (auto simp: nonempty_str_def str_of_def split: json.splits)

lemma str_of_JStr [simp]: "map str_of (map JStr xs) = xs" "list_all nonempty_str (map JStr xs) \<longleftrightarrow> [] \<notin> set xs"
  by (induction xs) (auto simp: str_of_def nonempty_str_def)

lemma render_plain: "list_all (\<lambda>a. \<not> startswith a ''{'') xs \<Longrightarrow> concat (map (render_token other typed) xs) = map JStr xs"
  by (induction xs) (auto simp: render_token_def)

lemma path_parts_nonempty [simp]: "[] \<notin> set (path_parts p)"
  by (auto simp: path_parts_def)

text \<open>The typed arguments of a plain task.\<close>

lemma typed_plain:
  "typed_arguments (path_definition req) vals =
     (case (string_array (obj_get vals ''args''), path_argument req (obj_get vals ''path'')) of
        (Some _, Some _) \<Rightarrow>
          Inr ((if obj_get vals ''args'' = JNull then [] else [(''args'', obj_get vals ''args'')]) @
               (if obj_get vals ''path'' = JNull then [] else [(''path'', obj_get vals ''path'')]))
      | _ \<Rightarrow> Inl invalid_task_argument)"
  by (cases "obj_get vals ''args''"; cases "obj_get vals ''path''")
    (simp_all add: path_definition_def validate_argument_def argument_valid_def string_array_def path_argument_def)

lemma extend_args:
  assumes "string_array v = Some xs" "map_of rest ''args'' = None"
  shows "list_extend argv (obj_get ((if v = JNull then [] else [(''args'', v)]) @ rest) ''args'') = Inr (argv @ map JStr xs)"
  using assms
  by (cases v) (auto simp: string_array_def obj_get_def list_extend_def json_falsy_def nonempty_strings(1)
      simp del: map_map split: if_splits)

lemma append_path:
  assumes "path_argument req v = Some ps" "map_of pre ''path'' = None"
  shows "(let path = obj_get (pre @ (if v = JNull then [] else [(''path'', v)])) ''path'' in
      if json_falsy path then argv else argv @ [path]) = argv @ map JStr ps"
  using assms by (cases v) (auto simp: path_argument_def obj_get_def json_falsy_def map_add_def split: if_splits)

lemma string_array_nonempty: "string_array v = Some xs \<Longrightarrow> [] \<notin> set xs"
  using nonempty_strings(2) by (auto simp: string_array_def split: json.splits if_splits)

lemma path_argument_nonempty: "path_argument req v = Some ps \<Longrightarrow> [] \<notin> set ps"
  by (auto simp: path_argument_def split: json.splits if_splits)

lemma build_argv_plain:
  assumes "plain_task t"
  shows "build_argv other t vals = (case task_command t vals of Some c \<Rightarrow> Inr c | None \<Rightarrow> Inl invalid_task_argument)"
proof (cases "\<exists>xs ps. string_array (obj_get vals ''args'') = Some xs \<and>
    path_argument (tt_id t = ''pytest.file'') (obj_get vals ''path'') = Some ps")
  case False
  then show ?thesis
    using assms by (auto simp: build_argv_def plain_task_def typed_plain task_command_def split: option.splits)
next
  case True
  then obtain xs ps where v: "string_array (obj_get vals ''args'') = Some xs"
    "path_argument (tt_id t = ''pytest.file'') (obj_get vals ''path'') = Some ps" by blast
  let ?a = "if obj_get vals ''args'' = JNull then [] else [(''args'', obj_get vals ''args'')]"
  let ?p = "if obj_get vals ''path'' = JNull then [] else [(''path'', obj_get vals ''path'')]"
  have t: "typed_arguments (tt_arg_definitions t) vals = Inr (?a @ ?p)"
    using assms v by (simp add: plain_task_def typed_plain del: append.simps if_distrib)
  have cmd: "\<not> startswith (tt_executable t) ''{''" "[] \<notin> set (command_args t)"
    "concat (map (render_token other (?a @ ?p)) (tt_argv t)) = map JStr (tt_argv t)"
    using assms by (auto simp: plain_task_def command_args_def list_all_iff intro!: render_plain)
  have e: "list_extend (map JStr (command_args t)) (obj_get (?a @ ?p) ''args'') = Inr (map JStr (command_args t @ xs))"
    using extend_args [OF v(1), of ?p "map JStr (command_args t)"] by simp
  have p: "(let path = obj_get (?a @ ?p) ''path'' in if json_falsy path then argv else argv @ [path]) = argv @ map JStr ps" for argv
    by (rule append_path [OF v(2)]) simp
  have ne: "[] \<notin> set (command_args t @ xs @ ps)"
    using cmd(2) string_array_nonempty [OF v(1)] path_argument_nonempty [OF v(2)] by simp
  have start: "JStr (tt_executable t) # concat (map (render_token other (?a @ ?p)) (tt_argv t)) = map JStr (command_args t)"
    using cmd(3) by (simp add: command_args_def)
  have full: "map JStr (command_args t @ xs) @ map JStr ps = map JStr (command_args t @ xs @ ps)" by simp
  show ?thesis
    unfolding build_argv_def t rbind.simps start e
    using p [of "map JStr (command_args t @ xs)"] ne
    unfolding full Let_def by (simp only: str_of_JStr if_True) (simp add: task_command_def v)
qed

lemma task_command_nonempty: "plain_task t \<Longrightarrow> task_command t vals = Some c \<Longrightarrow> c \<noteq> [] \<and> [] \<notin> set c"
  using string_array_nonempty path_argument_nonempty
  by (fastforce simp: task_command_def plain_task_def command_args_def list_all_iff split: option.splits)

lemma operation_workdir_Inr:
  assumes "operation_workdir other env s args = Inr r"
  shows "fs_is_dir s (rp_path r)"
  using assms by (auto simp: operation_workdir_def Let_def result_simps split: if_splits)

text \<open>The display of the root names the default directory.\<close>

lemma root_display: "display_for_path env (we_root env) = ''.''"
  by (simp add: display_for_path_def is_relative_to_def normalize_rel_display_def)

lemma dot_workdir:
  assumes "operation_workdir other env s args = Inr r" "map_of args ''workdir'' = None" "map_of args ''cwd'' = Some (JStr ''.'')"
  shows "resolve_strict (we_links env) s (we_default_cwd env) = Inr (rp_path r)"
proof -
  have "rt_resolve_existing env s ''.'' = Inr r"
    using assms by (auto simp: operation_workdir_def Let_def result_simps py_str_def split: if_splits)
  then show ?thesis
    by (auto simp: rt_resolve_existing_def resolve_existing_at_def map_canonical_path_def candidate_at_def
        path_text_is_absolute_def expanduser_def drive_path_def path_parts_def startswith_def Let_def result_simps
        split: if_splits)
qed

lemma run_task_Inr:
  assumes "run_task other env pj s args = Inr call" "map_of args ''task_id'' = Some (JStr ident)" "ws_ok env"
  obtains t c where "get_task ident = Some t" "task_command t args = Some c" "tc_argv call = c" "we_mode env \<noteq> ''plan''"
    "resolve_strict (we_links env) s (we_default_cwd env) = Inr (tc_workdir call)"
    "''..'' \<notin> set (we_root env)" "fs_is_dir s [] \<Longrightarrow> \<forall>k. fs_exists s (take k (we_root env))"
    "tc_executor call = (if we_mode env = ''build'' then ''unsafe_host'' else ''read_only_workspace'')"
proof -
  obtain t where t: "get_task ident = Some t"
    using assms(1,2) by (cases "get_task ident") (auto simp: run_task_def py_str_def)
  note reg = get_task_registered [OF t]
  have policy: "tt_cwd_policy t = ''workspace_root''" using reg(2) by (simp add: plain_task_def)
  obtain cwd argv where w: "operation_workdir other env s args = Inr cwd" "rp_path cwd = we_root env"
    and b: "build_argv other t args = Inr argv" "we_mode env \<noteq> ''plan''"
    and e: "execute_task_argv other env s argv
                   [(''cwd'', JStr (rp_display cwd)), (''timeout_ms'', arg_or args ''timeout_ms'' 30000),
                    (''yield_time_ms'', arg_or args ''yield_time_ms'' 10000),
                    (''max_output_bytes'', arg_or args ''max_output_bytes'' 65536)]
                   (task_env pj (obj_get args ''env'')) [] = Inr call"
    using assms(1,2) t policy by (auto simp: run_task_def py_str_def result_simps split: if_splits)
  obtain raw where r: "rt_resolve_existing env s raw = Inr cwd"
    using w(1) by (auto simp: operation_workdir_def Let_def result_simps split: if_splits)
  note root = rt_resolve_existingD [OF r assms(3), unfolded w(2)]
  have wd: "resolve_strict (we_links env) s (we_default_cwd env) = Inr (tc_workdir call)" "tc_argv call = argv"
    "tc_executor call = (if we_mode env = ''build'' then ''unsafe_host'' else ''read_only_workspace'')"
    using e root(3) by (auto simp: root_display execute_task_argv_def Let_def result_simps dest: dot_workdir split: if_splits)
  have "task_command t args = Some argv"
    using b(1) build_argv_plain [OF reg(2), of other args] by (auto split: option.splits)
  with wd t b(2) root(2,5) show thesis by (intro that)
qed

section \<open>Theorems\<close>

text \<open>
  The builder of commands is equivalent to its specification for every registered task: it returns the
  executable and the fixed arguments of the task followed by the strings of the caller and by the path,
  and it refuses with \<^verbatim>\<open>INVALID_ARGUMENT\<close> exactly when the arguments are not a list of non-empty strings or
  the path is not a relative one without \<^verbatim>\<open>..\<close> (or is missing where it is required).  No argument of the
  caller replaces a part of the registered command.
\<close>

theorem build_argv_equivalent:
  assumes "get_task ident = Some t"
  shows "build_argv other t vals =
    (case task_command t vals of Some c \<Rightarrow> Inr c | None \<Rightarrow> Inl invalid_task_argument)"
  using get_task_registered(2) [OF assms] by (rule build_argv_plain)

definition demo_args :: obj where
  "demo_args = [(''task_id'', JStr ''ruff.check''), (''args'', JList [JStr ''--fix'']), (''path'', JStr ''d'')]"

lemma ruff_registered:
  "get_task ''ruff.check'' = Some (task ''ruff.check'' ''python'' ''Run ruff check.'' ''ruff'' [''check'', ''.''] False COMMON_ARGUMENTS)"
  by code_simp

theorem build_argv_equivalent_witness:
  "map_option (\<lambda>t. build_argv (\<lambda>_. []) t demo_args) (get_task ''ruff.check'') =
     Some (Inr [''ruff'', ''check'', ''.'', ''--fix'', ''d''])"
  using build_argv_equivalent [OF ruff_registered, of "\<lambda>_. []" demo_args] ruff_registered
  by (simp add: task_command_def demo_args_def obj_get_def string_array_def path_argument_def nonempty_str_def
      str_of_def relative_path_def startswith_def path_parts_def command_args_def task_def)


definition demo_project :: project_env where
  "demo_project = \<lparr>pj_path = ''/bin'', pj_venv = None, pj_interpreter = None\<rparr>"


text \<open>
  When the default directory lies below the root, a call that names the root as its directory passes the
  check of the policy and is then executed in the default directory: the display of the root is resolved
  a second time.
\<close>

lemma run_task_other_directory:
  "(case run_task (\<lambda>_. []) ((demo_ws ''build'')\<lparr>we_default_cwd := [''w'', ''d'']\<rparr>) demo_project demo_tree
           [(''task_id'', JStr ''test.echo''), (''cwd'', JStr ''/w'')] of
      Inr call \<Rightarrow> tc_workdir call = [''w'', ''d''] | Inl _ \<Rightarrow> False)"
  by code_simp

text \<open>Any Python script counts as the task that runs pytest on a file.\<close>

lemma python_script_matches_pytest:
  "map_option tt_id (match_direct_argv [''python3'', ''setup.py'']) = Some ''pytest.file''"
  by code_simp

text \<open>The required path of that task may be empty, and is then left out.\<close>

lemma required_path_may_be_empty:
  "resolve_command (\<lambda>_. []) ''pytest.file'' JNull (JStr []) = Inr [''python3'', ''-m'', ''pytest'']"
  by code_simp

end
