(* ===== verification/Continuation.thy ===== *)
theory Continuation
  imports StateStore PyStr "HOL-Library.Product_Lexorder"
begin

text \<open>
  \<open>coding_tools_mcp/continuation.py\<close>: checkpoints from which a later session continues, one JSON record per
  project and scope, over the store of \<open>StateStore\<close>.  The bytes of the compact encoding of a payload are a
  further parameter.  The four patterns of secret material are given as regular expressions with the
  semantics of \<^verbatim>\<open>re.search\<close> for strings of Latin-1 characters.
\<close>

section \<open>Secret material\<close>

datatype re =
    Lit string
  | One "char \<Rightarrow> bool"
  | Many "char \<Rightarrow> bool" nat
  | Maybe "char \<Rightarrow> bool"
  | Boundary
  | Seq re re
  | Alt re re

definition word_char :: "char \<Rightarrow> bool" where
  "word_char c \<longleftrightarrow>
     ch_alnum_ascii c \<or> c = CHR ''_'' \<or>
     (let n = ch_code c in n \<in> {170, 178, 179, 181, 185, 186, 188, 189, 190} \<or> (192 \<le> n \<and> n \<noteq> 215 \<and> n \<noteq> 247))"

definition word_at :: "string \<Rightarrow> nat \<Rightarrow> bool" where
  "word_at s i \<longleftrightarrow> i < length s \<and> word_char (s ! i)"

text \<open>The ends of the matches that start at a position; literals ignore the case.\<close>

fun ends :: "re \<Rightarrow> string \<Rightarrow> nat \<Rightarrow> nat list" where
  "ends (Lit l) s i = (if startswith (lower_str (drop i s)) (lower_str l) then [i + length l] else [])"
| "ends (One P) s i = (if i < length s \<and> P (s ! i) then [Suc i] else [])"
| "ends (Many P n) s i = (let k = length (takeWhile P (drop i s)) in [i + n ..< i + k + 1])"
| "ends (Maybe P) s i = i # (if i < length s \<and> P (s ! i) then [Suc i] else [])"
| "ends Boundary s i = (if word_at s i = (0 < i \<and> word_at s (i - 1)) then [] else [i])"
| "ends (Seq a b) s i = concat (map (ends b s) (ends a s i))"
| "ends (Alt a b) s i = ends a s i @ ends b s i"

definition search :: "re \<Rightarrow> string \<Rightarrow> bool" where
  "search r s \<longleftrightarrow> list_ex (\<lambda>i. ends r s i \<noteq> []) [0 ..< Suc (length s)]"

definition separator :: "char \<Rightarrow> bool" where
  "separator c \<longleftrightarrow> c \<in> {CHR ''_'', CHR '' '', CHR ''-''}"

definition SECRET_VALUE_PATTERNS :: "re list" where
  "SECRET_VALUE_PATTERNS =
     [Seq (Lit ''-----BEGIN '') (Seq (Many (\<lambda>c. ch_alnum_ascii c \<or> c = CHR '' '') 0) (Lit ''PRIVATE KEY-----'')),
      Seq Boundary (Seq (Lit ''Bearer'') (Seq (Many ch_space 1)
        (Many (\<lambda>c. ch_alnum_ascii c \<or> c \<in> set ''._~+/=-'') 12))),
      Seq Boundary (Seq
        (Alt (Seq (Lit ''api'') (Seq (Maybe separator) (Lit ''key'')))
          (Alt (Seq (Lit ''access'') (Seq (Maybe separator) (Lit ''token'')))
            (Alt (Lit ''password'') (Lit ''secret''))))
        (Seq (Many ch_space 0) (Seq (One (\<lambda>c. c = CHR '':'' \<or> c = CHR ''='')) (Seq (Many ch_space 0)
          (Many (\<lambda>c. \<not> ch_space c) 8))))),
      Seq Boundary (Seq (Alt (Lit ''ghp_'') (Alt (Lit ''github_pat_'') (Lit ''sk-'')))
        (Many (\<lambda>c. ch_alnum_ascii c \<or> c = CHR ''_'' \<or> c = CHR ''-'') 12))]"

definition secret :: "string \<Rightarrow> bool" where
  "secret v \<longleftrightarrow> list_ex (\<lambda>r. search r v) SECRET_VALUE_PATTERNS"

lemma secret_examples:
  "secret ''token: Bearer abcdefghijkl''" "secret ''API-Key = 12345678''" "\<not> secret ''api key rotated today''"
  "\<not> secret ''task-sk-abc''"
  by code_simp+

section \<open>Payloads\<close>

record cont_env = store_env +
  ce_compact_size :: "json \<Rightarrow> nat"

definition MAX_CHECKPOINT_BYTES :: nat where
  "MAX_CHECKPOINT_BYTES = 16384"

definition MAX_LIST_LIMIT :: nat where
  "MAX_LIST_LIMIT = 64"

definition MAX_ITEMS :: nat where
  "MAX_ITEMS = 64"

definition MAX_COMPLETED_ITEM_CHARS :: nat where
  "MAX_COMPLETED_ITEM_CHARS = 256"

definition MAX_TEXT_CHARS :: nat where
  "MAX_TEXT_CHARS = 4096"

definition VERIFICATION_STATUSES :: "string list" where
  "VERIFICATION_STATUSES = [''not_run'', ''partial'', ''passed'', ''failed'', ''stale'']"

definition CHECKPOINT_FIELDS :: "string list" where
  "CHECKPOINT_FIELDS =
     [''active_task'', ''active_slice'', ''branch'', ''head'', ''checkpoint_id'', ''state_fingerprint'', ''pr_number'',
      ''workflow_run_id'', ''dirty_state_summary'', ''completed_acceptance_items'', ''next_action'', ''blocker_type'',
      ''timestamp'', ''objective'', ''remaining_items'', ''verification_status'', ''verified_head'',
      ''verified_state_fingerprint'', ''state_fingerprint_complete'', ''workspace_kind'', ''workspace_dirty'']"

definition invalid_payload :: pyexn where
  "invalid_payload = tool_failure ''INVALID_ARGUMENT'' ''validation''"

definition short_item :: "json \<Rightarrow> bool" where
  "short_item v = (case v of JStr t \<Rightarrow> length t \<le> MAX_COMPLETED_ITEM_CHARS | _ \<Rightarrow> False)"

text \<open>Membership of a JSON value in a set of strings: lists and objects are not hashable.\<close>

definition in_string_set :: "json \<Rightarrow> string list \<Rightarrow> bool result" where
  "in_string_set v xs =
     (case v of JStr t \<Rightarrow> Inr (t \<in> set xs) | JList _ \<Rightarrow> Inl TypeError | JObj _ \<Rightarrow> Inl TypeError | _ \<Rightarrow> Inr False)"

definition text_field_ok :: "json \<Rightarrow> bool" where
  "text_field_ok v =
     (case v of JNull \<Rightarrow> True | JStr t \<Rightarrow> length t \<le> MAX_TEXT_CHARS \<and> \<not> secret t | _ \<Rightarrow> False)"

definition check_field :: "string \<Rightarrow> json \<Rightarrow> unit result" where
  "check_field key v =
     (let need = (\<lambda>ok. if ok then Inr () else Inl invalid_payload) in
      if key \<in> {''completed_acceptance_items'', ''remaining_items''} then
        need (case v of JList xs \<Rightarrow> length xs \<le> MAX_ITEMS \<and> list_all short_item xs | _ \<Rightarrow> False)
      else if key \<in> {''state_fingerprint_complete'', ''workspace_dirty''} then
        need (case v of JBool _ \<Rightarrow> True | _ \<Rightarrow> False)
      else if key = ''verification_status'' then
        rbind (in_string_set v VERIFICATION_STATUSES) (\<lambda>ok.
          if ok then Inr () else Inl (tool_failure_with ''INVALID_ARGUMENT'' ''validation''
            [(''allowed'', JList (map JStr (sort VERIFICATION_STATUSES)))]))
      else if key = ''workspace_kind'' then rbind (in_string_set v [''canonical'', ''managed'']) need
      else if key \<in> {''pr_number'', ''workflow_run_id''} then
        need (case v of JNull \<Rightarrow> True | JInt n \<Rightarrow> 1 \<le> n | _ \<Rightarrow> False)
      else need (text_field_ok v))"

fun check_fields :: "obj \<Rightarrow> obj \<Rightarrow> obj result" where
  "check_fields normalized [] = Inr normalized"
| "check_fields normalized ((k, v) # kvs) =
     rbind (check_field k v) (\<lambda>_. check_fields (dict_set k v normalized) kvs)"

definition normalize_checkpoint_payload :: "cont_env \<Rightarrow> json \<Rightarrow> obj result" where
  "normalize_checkpoint_payload env payload =
     (case payload of
        JObj kvs \<Rightarrow>
          (let unknown = sort (filter (\<lambda>k. k \<notin> set CHECKPOINT_FIELDS) (map fst kvs)) in
           if unknown \<noteq> [] then
             Inl (tool_failure_with ''INVALID_ARGUMENT'' ''validation'' [(''fields'', JList (map JStr unknown))])
           else rbind (check_fields [] kvs) (\<lambda>normalized.
             let n = ce_compact_size env (JObj normalized) in
             if MAX_CHECKPOINT_BYTES < n then
               Inl (tool_failure_with ''OUTPUT_TOO_LARGE'' ''validation''
                 [(''bytes'', JInt (int n)), (''limit'', JInt (int MAX_CHECKPOINT_BYTES))])
             else Inr normalized))
      | _ \<Rightarrow> Inl invalid_payload)"

section \<open>Storage\<close>

definition calls :: "cont_env \<Rightarrow> nat \<Rightarrow> store \<Rightarrow> bool \<times> store" where
  "calls env n s =
     (list_ex (en_fault env) [st_calls s ..< st_calls s + n], s\<lparr>st_calls := st_calls s + n\<rparr>)"

definition checkpoint_dir :: "cont_env \<Rightarrow> spath \<Rightarrow> spath" where
  "checkpoint_dir env project =
     en_config_root env @ [''continuation-checkpoints'', en_scope_id env (spath_str project)]"

definition scope_file :: "cont_env \<Rightarrow> spath \<Rightarrow> string \<Rightarrow> spath" where
  "scope_file env project scope = checkpoint_dir env project @ [en_scope_id env scope @ ''.json'']"

text \<open>
  The configuration directories are created first (two calls), then the directory of the project.  A
  configuration directory inside the project is refused.
\<close>

definition cont_checkpoint_root :: "cont_env \<Rightarrow> spath \<Rightarrow> store \<Rightarrow> spath result \<times> store" where
  "cont_checkpoint_root env project s =
     (case calls env 2 s of (fault, s1) \<Rightarrow>
        if fault then (Inl OSError, s1)
        else if prefix project (en_config_root env) then
          (Inl (tool_failure ''RUNTIME_DIR_UNWRITABLE'' ''runtime''), s1)
        else (Inr (checkpoint_dir env project), s1))"

definition cont_checkpoint_path :: "cont_env \<Rightarrow> spath \<Rightarrow> string \<Rightarrow> store \<Rightarrow> spath result \<times> store" where
  "cont_checkpoint_path env project scope s =
     (case cont_checkpoint_root env project s of
        (Inl e, s1) \<Rightarrow> (Inl e, s1)
      | (Inr _, s1) \<Rightarrow>
          (case calls env 1 s1 of (fault, s2) \<Rightarrow>
             if fault then (Inl OSError, s2) else (Inr (scope_file env project scope), s2)))"

definition cont_record :: "cont_env \<Rightarrow> spath \<Rightarrow> string \<Rightarrow> obj \<Rightarrow> obj" where
  "cont_record env project scope payload =
     [(''version'', JInt 2), (''project'', JStr (spath_str project)), (''scope'', JStr scope),
      (''updated_at'', JStr (en_iso env (en_clock env))), (''payload'', JObj payload)]"

text \<open>
  The temporary file is made, protected, written and flushed, and replaces the record (five calls); the
  mode is set and the temporary name removed afterwards (two calls).
\<close>

definition cont_write_checkpoint :: "cont_env \<Rightarrow> spath \<Rightarrow> string \<Rightarrow> json \<Rightarrow> store \<Rightarrow> obj result \<times> store" where
  "cont_write_checkpoint env project scope payload s =
     (case normalize_checkpoint_payload env payload of
        Inl e \<Rightarrow> (Inl e, s)
      | Inr normalized \<Rightarrow>
          let r = cont_record env project scope normalized; n = Suc (en_json_size env (JObj r)) in
          (case cont_checkpoint_path env project scope s of
             (Inl e, s1) \<Rightarrow> (Inl e, s1)
           | (Inr p, s1) \<Rightarrow>
               (case calls env 5 s1 of (fault, s2) \<Rightarrow>
                  if fault then (Inl OSError, s2)
                  else
                    (case calls env 2 (s2\<lparr>st_files := dict_set p (Raw n (Some (JObj r))) (st_files s2)\<rparr>) of (fault, s3) \<Rightarrow>
                       (if fault then Inl OSError else Inr r, s3)))))"

definition READ_BOUND :: nat where
  "READ_BOUND = MAX_CHECKPOINT_BYTES + 8192"

definition invalid_state :: pyexn where
  "invalid_state = tool_failure ''INVALID_STATE'' ''runtime''"

definition load_checkpoint :: "spath \<Rightarrow> string \<Rightarrow> stored option \<Rightarrow> obj option result" where
  "load_checkpoint project scope f =
     (case f of
        None \<Rightarrow> Inr None
      | Some Unreadable \<Rightarrow> Inl (tool_failure ''RUNTIME_DIR_UNWRITABLE'' ''runtime'')
      | Some (Raw n v) \<Rightarrow>
          if READ_BOUND < n then Inl invalid_state
          else (case v of
              Some (JObj r) \<Rightarrow>
                if obj_get r ''project'' \<noteq> JStr (spath_str project) \<or> obj_get r ''scope'' \<noteq> JStr scope
                then Inl invalid_state else Inr (Some r)
            | _ \<Rightarrow> Inl invalid_state))"

definition cont_read_checkpoint :: "cont_env \<Rightarrow> spath \<Rightarrow> string \<Rightarrow> store \<Rightarrow> obj option result \<times> store" where
  "cont_read_checkpoint env project scope s =
     (case cont_checkpoint_path env project scope s of
        (Inl e, s1) \<Rightarrow> (Inl e, s1)
      | (Inr p, s1) \<Rightarrow> (load_checkpoint project scope (map_of (st_files s1) p), s1))"

definition clear_checkpoint :: "cont_env \<Rightarrow> spath \<Rightarrow> string \<Rightarrow> store \<Rightarrow> bool result \<times> store" where
  "clear_checkpoint env project scope s =
     (case cont_checkpoint_path env project scope s of
        (Inl e, s1) \<Rightarrow> (Inl e, s1)
      | (Inr p, s1) \<Rightarrow>
          (case calls env 1 s1 of (fault, s2) \<Rightarrow>
             if fault then (Inl (tool_failure ''RUNTIME_DIR_UNWRITABLE'' ''runtime''), s2)
             else if map_of (st_files s2) p = None then (Inr False, s2)
             else (Inr True, unlink_json p s2)))"

section \<open>Summaries\<close>

definition nonempty_text :: "json \<Rightarrow> bool" where
  "nonempty_text v = (case v of JStr t \<Rightarrow> t \<noteq> [] | _ \<Rightarrow> False)"

definition has_trusted_state :: "obj \<Rightarrow> bool result" where
  "has_trusted_state payload =
     (if \<not> list_all (\<lambda>k. nonempty_text (obj_get payload k)) [''branch'', ''head'', ''checkpoint_id'', ''state_fingerprint'']
      then Inr False
      else rbind (in_string_set (obj_get payload ''workspace_kind'') [''canonical'', ''managed'']) (\<lambda>known.
        Inr (known \<and> (case obj_get payload ''workspace_dirty'' of JBool _ \<Rightarrow> True | _ \<Rightarrow> False))))"

definition summary_fields :: "string list" where
  "summary_fields =
     [''active_task'', ''active_slice'', ''objective'', ''branch'', ''head'', ''workspace_kind'', ''workspace_dirty'',
      ''verification_status'', ''verified_head'', ''verified_state_fingerprint'', ''next_action'']"

definition checkpoint_summary :: "obj \<Rightarrow> obj result" where
  "checkpoint_summary r =
     (let version = obj_get r ''version''; payload = (case obj_get r ''payload'' of JObj kvs \<Rightarrow> kvs | _ \<Rightarrow> []);
          complete = (obj_get payload ''state_fingerprint_complete'' = JBool True) in
      rbind (has_trusted_state payload) (\<lambda>trusted.
        let v1 = py_eq version (JInt 1); v2 = py_eq version (JInt 2);
            resumable = (v2 \<and> trusted \<and> complete);
            blocker = (if v1 then JStr ''legacy_v1'' else if \<not> v2 then JStr ''unsupported_version''
                       else if \<not> trusted then JStr ''missing_state_authority''
                       else if \<not> complete then JStr ''state_fingerprint_incomplete'' else JNull) in
        Inr ([(''version'', version), (''scope'', obj_get r ''scope''), (''updated_at'', obj_get r ''updated_at'')] @
             map (\<lambda>k. (k, obj_get payload k)) summary_fields @
             [(''resumable'', JBool (if v1 then False else if \<not> v2 then False else resumable)),
              (''resume_blocker'', blocker)])))"

text \<open>
  A listing reads every record of the project in the order of the file names, counts the malformed ones
  and returns the newest ones.  A set that holds a list or an object is a \<^verbatim>\<open>TypeError\<close>, which the loop
  does not catch.
\<close>

definition well_formed_record :: "spath \<Rightarrow> obj \<Rightarrow> bool" where
  "well_formed_record project r \<longleftrightarrow>
     obj_get r ''project'' = JStr (spath_str project) \<and>
     (case obj_get r ''scope'' of JStr t \<Rightarrow> startswith t ''task:'' \<or> startswith t ''branch:'' | _ \<Rightarrow> False) \<and>
     (case obj_get r ''updated_at'' of JStr _ \<Rightarrow> True | _ \<Rightarrow> False) \<and>
     (case obj_get r ''payload'' of JObj _ \<Rightarrow> True | _ \<Rightarrow> False)"

definition listed_record :: "spath \<Rightarrow> stored \<Rightarrow> obj option" where
  "listed_record project f =
     (case f of
        Raw n (Some (JObj r)) \<Rightarrow> if n \<le> READ_BOUND \<and> well_formed_record project r then Some r else None
      | _ \<Rightarrow> None)"

fun list_loop :: "spath \<Rightarrow> stored list \<Rightarrow> (obj list \<times> nat) result" where
  "list_loop project [] = Inr ([], 0)"
| "list_loop project (f # fs) =
     (case listed_record project f of
        None \<Rightarrow> rbind (list_loop project fs) (\<lambda>(valid, bad). Inr (valid, Suc bad))
      | Some r \<Rightarrow> rbind (checkpoint_summary r) (\<lambda>x. rbind (list_loop project fs) (\<lambda>(valid, bad). Inr (x # valid, bad))))"

definition text_of :: "json \<Rightarrow> string" where
  "text_of v = (case v of JStr t \<Rightarrow> t | _ \<Rightarrow> [])"

definition recency :: "obj \<Rightarrow> string \<times> string" where
  "recency x = (text_of (obj_get x ''updated_at''), text_of (obj_get x ''scope''))"

definition newest_first :: "obj list \<Rightarrow> obj list" where
  "newest_first xs = rev (sort_key recency (rev xs))"

definition files_below :: "spath \<Rightarrow> (spath, stored) dict \<Rightarrow> (string \<times> stored) list" where
  "files_below dir fs =
     sort_key fst (map (\<lambda>e. (last (fst e), snd e))
       (filter (\<lambda>e. fst e \<noteq> [] \<and> butlast (fst e) = dir \<and> endswith (last (fst e)) ''.json'') fs))"

definition list_checkpoints :: "cont_env \<Rightarrow> spath \<Rightarrow> json \<Rightarrow> store \<Rightarrow> (obj list \<times> nat) result \<times> store" where
  "list_checkpoints env project limit s =
     (case limit of
        JInt n \<Rightarrow>
          if n < 1 \<or> int MAX_LIST_LIMIT < n then (Inl invalid_payload, s)
          else (case cont_checkpoint_root env project s of
              (Inl e, s1) \<Rightarrow> (Inl e, s1)
            | (Inr dir, s1) \<Rightarrow>
                (rbind (list_loop project (map snd (files_below dir (st_files s1)))) (\<lambda>(valid, bad).
                   Inr (take (nat n) (newest_first valid), bad)), s1))
      | _ \<Rightarrow> (Inl invalid_payload, s))"

section \<open>Lemmas\<close>

lemma check_fields_Inr:
  "check_fields acc kvs = Inr r \<Longrightarrow> distinct (map fst kvs) \<Longrightarrow> fst ` set acc \<inter> fst ` set kvs = {} \<Longrightarrow>
   r = acc @ kvs \<and> (\<forall>(k, v) \<in> set kvs. check_field k v = Inr ())"
proof (induction acc kvs rule: check_fields.induct)
  case (2 acc k v kvs)
  then have step: "check_field k v = Inr ()" "check_fields (dict_set k v acc) kvs = Inr r"
    by (auto simp: result_simps)
  have "dict_set k v acc = acc @ [(k, v)]" using 2(4) by (intro dict_set_new) auto
  with 2(1) [OF step(2)] 2(3,4) step(1) show ?case by auto
qed simp

lemma normalize_Inr:
  assumes "normalize_checkpoint_payload env (JObj kvs) = Inr r" "dict_ok kvs"
  shows "r = kvs" "\<forall>(k, v) \<in> set kvs. k \<in> set CHECKPOINT_FIELDS \<and> check_field k v = Inr ()"
proof -
  have u: "sort (filter (\<lambda>k. k \<notin> set CHECKPOINT_FIELDS) (map fst kvs)) = []" and c: "check_fields [] kvs = Inr r"
    using assms(1) by (auto simp: normalize_checkpoint_payload_def Let_def result_simps split: if_splits)
  from u have "set (filter (\<lambda>k. k \<notin> set CHECKPOINT_FIELDS) (map fst kvs)) = {}"
    by (metis set_empty set_sort)
  then have "\<forall>(k, v) \<in> set kvs. k \<in> set CHECKPOINT_FIELDS" by (auto simp: filter_empty_conv)
  with check_fields_Inr [OF c] assms(2)
  show "r = kvs" "\<forall>(k, v) \<in> set kvs. k \<in> set CHECKPOINT_FIELDS \<and> check_field k v = Inr ()"
    by (auto simp: dict_ok_def)
qed

text \<open>A text that passes the checks matches none of the patterns.\<close>

lemma check_field_secret:
  assumes "check_field k (JStr t) = Inr ()"
  shows "\<not> secret t"
proof (cases "k = ''verification_status'' \<or> k = ''workspace_kind''")
  case True
  then have "t \<in> set (VERIFICATION_STATUSES @ [''canonical'', ''managed''])"
    using assms by (auto simp: check_field_def in_string_set_def Let_def split: if_splits)
  moreover have "list_all (\<lambda>t. \<not> secret t) (VERIFICATION_STATUSES @ [''canonical'', ''managed''])" by code_simp
  ultimately show ?thesis by (auto simp: list_all_iff)
next
  case False
  then show ?thesis using assms by (auto simp: check_field_def text_field_ok_def Let_def split: if_splits)
qed

lemma calls_simps [simp]:
  "st_files (snd (calls env n s)) = st_files s" "st_calls (snd (calls env n s)) = st_calls s + n"
  "fst (calls env n s) \<longleftrightarrow> (\<exists>i \<in> {st_calls s ..< st_calls s + n}. en_fault env i)"
  by (simp_all add: calls_def list_ex_iff)

lemma path_result:
  assumes "cont_checkpoint_path env project scope s = (r, s')"
  shows "st_files s' = st_files s" "st_calls s \<le> st_calls s'" "r = Inr p \<Longrightarrow> p = scope_file env project scope"
    "r = Inr p \<Longrightarrow> \<not> prefix project (en_config_root env)"
    "r = Inl e \<Longrightarrow> \<not> prefix project (en_config_root env) \<Longrightarrow> \<exists>n \<ge> st_calls s. en_fault env n"
  using assms
  by (auto simp: cont_checkpoint_path_def cont_checkpoint_root_def calls_def
      intro: exI [of _ "Suc (st_calls s)"] exI [of _ "Suc (Suc (st_calls s))"] split: if_splits)

lemma write_result:
  assumes "cont_write_checkpoint env project scope payload s = (Inr r, s')"
  obtains normalized where "normalize_checkpoint_payload env payload = Inr normalized"
    "r = cont_record env project scope normalized" "\<not> prefix project (en_config_root env)"
    "st_files s' = dict_set (scope_file env project scope) (Raw (Suc (en_json_size env (JObj r))) (Some (JObj r))) (st_files s)"
proof -
  obtain normalized where n: "normalize_checkpoint_payload env payload = Inr normalized"
    using assms by (cases "normalize_checkpoint_payload env payload") (auto simp: cont_write_checkpoint_def)
  obtain q s1 where q: "cont_checkpoint_path env project scope s = (q, s1)" by force
  then obtain p where p: "q = Inr p"
    using assms n by (cases q) (auto simp: cont_write_checkpoint_def Let_def)
  show thesis
    using that [OF n] assms n q p path_result [OF q]
    by (auto simp: cont_write_checkpoint_def Let_def calls_def split: if_splits)
qed

lemma read_fault_free:
  assumes "\<not> prefix project (en_config_root env)" "\<forall>n \<ge> st_calls s. \<not> en_fault env n"
  shows "fst (cont_read_checkpoint env project scope s) =
    load_checkpoint project scope (map_of (st_files s) (scope_file env project scope))"
proof -
  obtain q s1 where q: "cont_checkpoint_path env project scope s = (q, s1)" by force
  with path_result [OF q] assms show ?thesis
    by (cases q) (auto simp: cont_read_checkpoint_def)
qed

lemma clear_fault_free:
  assumes "\<not> prefix project (en_config_root env)" "\<forall>n \<ge> st_calls s. \<not> en_fault env n"
    and "map_of (st_files s) (scope_file env project scope) = Some f"
    and c: "clear_checkpoint env project scope s = (b, s')"
  shows "b = Inr True" "st_files s' = dict_del (scope_file env project scope) (st_files s)" "st_calls s \<le> st_calls s'"
proof -
  obtain q s1 where q: "cont_checkpoint_path env project scope s = (q, s1)" by force
  note r = path_result [OF q]
  obtain p where p: "q = Inr p" using r(5) assms(1,2) by (cases q) auto
  have "\<not> fst (calls env 1 s1)" using r(2) assms(2) by auto
  then show "b = Inr True" "st_files s' = dict_del (scope_file env project scope) (st_files s)" "st_calls s \<le> st_calls s'"
    using c q p r assms(3) by (auto simp: clear_checkpoint_def calls_def unlink_json_def split: if_splits)
qed

lemma load_record:
  assumes "Suc (en_json_size env (JObj (cont_record env project scope payload))) \<le> READ_BOUND"
  shows "load_checkpoint project scope
      (Some (Raw (Suc (en_json_size env (JObj (cont_record env project scope payload))))
        (Some (JObj (cont_record env project scope payload))))) =
    Inr (Some (cont_record env project scope payload))"
  using assms by (simp add: load_checkpoint_def) (simp add: cont_record_def obj_get_def)

text \<open>A summary is resumable exactly when it names no blocker.\<close>

lemma obj_get_summary:
  "obj_get ((''version'', a) # (''scope'', b) # (''updated_at'', c) # map (\<lambda>k. (k, g k)) summary_fields @
     [(''resumable'', x), (''resume_blocker'', y)]) ''resumable'' = x"
  "obj_get ((''version'', a) # (''scope'', b) # (''updated_at'', c) # map (\<lambda>k. (k, g k)) summary_fields @
     [(''resumable'', x), (''resume_blocker'', y)]) ''resume_blocker'' = y"
  by (simp_all add: obj_get_def summary_fields_def)

lemma resumable_no_blocker:
  assumes "checkpoint_summary r = Inr x"
  shows "obj_get x ''resumable'' = JBool True \<longleftrightarrow> obj_get x ''resume_blocker'' = JNull"
  using assms by (auto simp: checkpoint_summary_def Let_def result_simps obj_get_summary py_eq_def split: if_splits)

lemma list_loop_accounts:
  "list_loop project fs = Inr (valid, bad) \<Longrightarrow> length valid + bad = length fs"
  by (induction fs arbitrary: valid bad) (auto simp: result_simps split: option.splits)

lemma newest_first_sorted: "sorted_wrt (\<lambda>x y. recency y \<le> recency x) (newest_first xs)"
  unfolding newest_first_def sorted_wrt_rev using sorted_sort_key [of recency "rev xs"] by (simp add: sorted_map)

text \<open>A listing returns at most the requested number of summaries, the newest first.\<close>

lemma list_checkpoints_bounded:
  assumes "fst (list_checkpoints env project (JInt n) s) = Inr (xs, bad)"
  shows "1 \<le> n" "n \<le> 64" "int (length xs) \<le> n" "sorted_wrt (\<lambda>x y. recency y \<le> recency x) xs"
  using assms newest_first_sorted
  by (auto simp: list_checkpoints_def result_simps MAX_LIST_LIMIT_def sorted_wrt_take split: if_splits prod.splits sum.splits)

section \<open>Theorem\<close>


definition demo_cont :: cont_env where
  "demo_cont = \<lparr>en_config_root = [''c''], en_json_size = (\<lambda>_. 100), en_scope_id = id, en_iso = (\<lambda>_. ''t''), en_clock = 0,
     en_float = (\<lambda>_. None), en_fault = (\<lambda>_. False), ce_compact_size = (\<lambda>_. 50)\<rparr>"

definition demo_payload :: obj where
  "demo_payload = [(''branch'', JStr ''main''), (''pr_number'', JInt 7), (''remaining_items'', JList [JStr ''docs''])]"

definition demo_written :: "obj result \<times> store" where
  "demo_written = cont_write_checkpoint demo_cont [''p''] ''task:1'' (JObj demo_payload) \<lparr>st_files = [], st_calls = 0\<rparr>"

lemma demo_written_Inr: "fst demo_written = Inr (cont_record demo_cont [''p''] ''task:1'' demo_payload)"
  by code_simp


text \<open>A record that outgrows the bound of the reader is written without complaint and cannot be read.\<close>

lemma oversized_record_unreadable:
  assumes "cont_write_checkpoint env project scope payload s = (Inr r, s1)" "READ_BOUND \<le> en_json_size env (JObj r)"
    and "\<forall>n \<ge> st_calls s1. \<not> en_fault env n"
  shows "fst (cont_read_checkpoint env project scope s1) = Inl invalid_state"
proof -
  obtain normalized where n: "\<not> prefix project (en_config_root env)"
    "st_files s1 = dict_set (scope_file env project scope) (Raw (Suc (en_json_size env (JObj r))) (Some (JObj r))) (st_files s)"
    using write_result [OF assms(1)] by metis
  then show ?thesis
    using read_fault_free [OF n(1) assms(3), of scope] assms(2) by (simp add: load_checkpoint_def)
qed

text \<open>One stored record whose workspace kind is a list makes every listing of the project fail.\<close>

definition poisoned :: store where
  "poisoned = \<lparr>st_files = [(scope_file demo_cont [''p''] ''task:1'', Raw 10 (Some (JObj
     (cont_record demo_cont [''p''] ''task:1'' [(''branch'', JStr ''b''), (''head'', JStr ''h''), (''checkpoint_id'', JStr ''c''),
       (''state_fingerprint'', JStr ''f''), (''workspace_kind'', JList [])]))))], st_calls = 0\<rparr>"

lemma poisoned_listing_raises: "fst (list_checkpoints demo_cont [''p''] (JInt 20) poisoned) = Inl TypeError"
  by code_simp

end
