(* ===== verification/Schemas.thy ===== *)
theory Schemas
  imports PyStr
begin

text \<open>
  The argument validator of the runtime (\<^verbatim>\<open>server.py\<close>: \<open>validate_schema_value\<close>,
  \<open>schema_type_matches\<close>, \<open>schema_type_name\<close>), and the meaning of the schemas it is given.

  \<^item> A schema is the JSON object the source builds.  The validator returns the first violation it
    meets, in the order of the code; every raise of the source is one constructor of \<open>violation\<close>,
    carrying what its message is formatted from.  A schema that is not an object where the code
    indexes one is a \<open>TypeError\<close>.
  \<^item> \<open>schema_valid\<close> is the reference: the meaning JSON Schema gives to the types and the keywords the
    tool schemas use, \<^verbatim>\<open>maxLength\<close>, \<^verbatim>\<open>minItems\<close>, \<^verbatim>\<open>maxItems\<close> and \<^verbatim>\<open>oneOf\<close> included.
  \<^item> The validator accepts every valid value whose integers are written without a fraction
    (\<open>schema_valid_accepted\<close>), and on the schemas of the fragment \<open>enforced\<close> it accepts nothing but
    valid values (\<open>enforced_accepted_valid\<close>).
\<close>

section \<open>Types\<close>

text \<open>\<^verbatim>\<open>isinstance(v, int)\<close> holds for truth values too.\<close>

definition int_of :: "json \<Rightarrow> int option" where
  "int_of v = (case v of JInt n \<Rightarrow> Some n | JBool b \<Rightarrow> Some (if b then 1 else 0) | _ \<Rightarrow> None)"

definition type_word_matches :: "json \<Rightarrow> string \<Rightarrow> bool" where
  "type_word_matches v t =
     (if t = ''array'' then (case v of JList _ \<Rightarrow> True | _ \<Rightarrow> False)
      else if t = ''boolean'' then (case v of JBool _ \<Rightarrow> True | _ \<Rightarrow> False)
      else if t = ''integer'' then (case v of JInt _ \<Rightarrow> True | _ \<Rightarrow> False)
      else if t = ''null'' then v = JNull
      else if t = ''number'' then (case v of JInt _ \<Rightarrow> True | JFloat _ \<Rightarrow> True | _ \<Rightarrow> False)
      else if t = ''object'' then (case v of JObj _ \<Rightarrow> True | _ \<Rightarrow> False)
      else if t = ''string'' then (case v of JStr _ \<Rightarrow> True | _ \<Rightarrow> False)
      else False)"

fun schema_type_matches :: "json \<Rightarrow> json \<Rightarrow> bool" where
  "schema_type_matches v (JList ts) = list_ex (schema_type_matches v) ts"
| "schema_type_matches v (JStr t) = type_word_matches v t"
| "schema_type_matches v _ = False"

definition schema_type_name :: "json \<Rightarrow> string" where
  "schema_type_name t =
     (case t of JList ts \<Rightarrow> join '' or '' (map (\<lambda>w. case w of JStr s \<Rightarrow> s | _ \<Rightarrow> []) ts)
      | JStr s \<Rightarrow> s | _ \<Rightarrow> [])"

section \<open>The validator\<close>

datatype violation =
    Must_be string string
  | Shorter_than string int
  | Not_one_of string json
  | Below string json
  | Above string json
  | Is_required string
  | Not_recognized string
  | Schema_TypeError

type_synonym verdict = "violation option"

text \<open>The checks of one value that do not descend into it.\<close>

definition check_type :: "json \<Rightarrow> obj \<Rightarrow> string \<Rightarrow> verdict" where
  "check_type v sch path =
     (let t = obj_get sch ''type'' in
      if t \<noteq> JNull \<and> \<not> schema_type_matches v t then Some (Must_be path (schema_type_name t)) else None)"

definition check_string :: "string \<Rightarrow> obj \<Rightarrow> string \<Rightarrow> verdict" where
  "check_string s sch path =
     (case int_of (obj_get sch ''minLength'') of
        Some n \<Rightarrow> if int (length s) < n then Some (Shorter_than path n) else None
      | None \<Rightarrow> None)"

definition check_enum :: "string \<Rightarrow> obj \<Rightarrow> string \<Rightarrow> verdict" where
  "check_enum s sch path =
     (case map_of sch ''enum'' of
        None \<Rightarrow> None
      | Some (JList es) \<Rightarrow> if JStr s \<in> set es then None else Some (Not_one_of path (JList es))
      | Some _ \<Rightarrow> Some Schema_TypeError)"

definition check_minimum :: "int \<Rightarrow> obj \<Rightarrow> string \<Rightarrow> verdict" where
  "check_minimum n sch path =
     (case num_of (obj_get sch ''minimum'') of
        Some m \<Rightarrow> if of_int n < m then Some (Below path (obj_get sch ''minimum'')) else None
      | None \<Rightarrow> None)"

definition check_maximum :: "int \<Rightarrow> obj \<Rightarrow> string \<Rightarrow> verdict" where
  "check_maximum n sch path =
     (case num_of (obj_get sch ''maximum'') of
        Some m \<Rightarrow> if m < of_int n then Some (Above path (obj_get sch ''maximum'')) else None
      | None \<Rightarrow> None)"

text \<open>\<^verbatim>\<open>for key in required: if key not in value: raise\<close>.\<close>

fun check_required :: "json list \<Rightarrow> obj \<Rightarrow> string \<Rightarrow> verdict" where
  "check_required [] ob path = None"
| "check_required (JStr k # ks) ob path =
     (if k \<in> fst ` set ob then check_required ks ob path else Some (Is_required (path @ ''.'' @ k)))"
| "check_required (_ # ks) ob path = Some Schema_TypeError"

definition seq_v :: "verdict \<Rightarrow> verdict \<Rightarrow> verdict" where
  "seq_v a b = (case a of Some x \<Rightarrow> Some x | None \<Rightarrow> b)"

lemma seq_v_None [simp]: "seq_v a b = None \<longleftrightarrow> a = None \<and> b = None"
  by (simp add: seq_v_def split: option.splits)

lemma seq_v_simps [simp]: "seq_v None b = b" "seq_v (Some x) b = Some x"
  by (simp_all add: seq_v_def)

text \<open>The checks of a string or of an integer, in the order of the code.\<close>

definition check_scalar :: "json \<Rightarrow> obj \<Rightarrow> string \<Rightarrow> verdict" where
  "check_scalar v sch path =
     (case v of
        JStr s \<Rightarrow> seq_v (check_string s sch path) (check_enum s sch path)
      | JInt n \<Rightarrow> seq_v (check_minimum n sch path) (check_maximum n sch path)
      | _ \<Rightarrow> None)"

text \<open>\<^verbatim>\<open>schema.get("properties", {})\<close>, \<^verbatim>\<open>.get("required", [])\<close>, \<^verbatim>\<open>.get("additionalProperties", True)\<close>.\<close>

definition props_of :: "obj \<Rightarrow> obj" where
  "props_of sch = (case map_of sch ''properties'' of Some (JObj ps) \<Rightarrow> ps | _ \<Rightarrow> [])"

definition required_of :: "obj \<Rightarrow> json list" where
  "required_of sch = (case map_of sch ''required'' of Some (JList ks) \<Rightarrow> ks | _ \<Rightarrow> [])"

definition additional_of :: "obj \<Rightarrow> json" where
  "additional_of sch = (case map_of sch ''additionalProperties'' of Some v \<Rightarrow> v | None \<Rightarrow> JBool True)"

text \<open>
  The loops over the items of a list and over the members of an object call the validator on each
  of them, with the path extended by \<^verbatim>\<open>[index]\<close> or \<^verbatim>\<open>.key\<close>.
\<close>

function (sequential)
      validate_schema_value :: "json \<Rightarrow> json \<Rightarrow> string \<Rightarrow> verdict"
  and validate_items :: "json list \<Rightarrow> json \<Rightarrow> nat \<Rightarrow> string \<Rightarrow> verdict"
  and validate_members :: "obj \<Rightarrow> obj \<Rightarrow> json \<Rightarrow> string \<Rightarrow> verdict" where
  "validate_schema_value v (JObj sch) path =
     seq_v (check_type v sch path)
       (seq_v (check_scalar v sch path)
         (case v of
            JList vs \<Rightarrow>
              (case obj_get sch ''items'' of
                 JObj item_schema \<Rightarrow> validate_items vs (JObj item_schema) 0 path
               | _ \<Rightarrow> None)
          | JObj ob \<Rightarrow>
              seq_v (check_required (required_of sch) ob path)
                (validate_members ob (props_of sch) (additional_of sch) path)
          | _ \<Rightarrow> None))"
| "validate_schema_value v _ path = Some Schema_TypeError"
| "validate_items [] item_schema i path = None"
| "validate_items (v # vs) item_schema i path =
     seq_v (validate_schema_value v item_schema (path @ ''['' @ nat_str i @ '']''))
       (validate_items vs item_schema (Suc i) path)"
| "validate_members [] properties additional path = None"
| "validate_members ((k, v) # ob) properties additional path =
     (let child_path = path @ ''.'' @ k in
      seq_v
        (case map_of properties k of
           Some s \<Rightarrow> validate_schema_value v s child_path
         | None \<Rightarrow>
             (case additional of
                JBool False \<Rightarrow> Some (Not_recognized child_path)
              | JObj a \<Rightarrow> validate_schema_value v (JObj a) child_path
              | _ \<Rightarrow> None))
        (validate_members ob properties additional path))"
  by pat_completeness auto
termination
  by (relation "measure (\<lambda>x. case x of
        Inl (v, _, _) \<Rightarrow> size v
      | Inr (Inl (vs, _, _, _)) \<Rightarrow> size_list size vs
      | Inr (Inr (ob, _, _, _)) \<Rightarrow> size_list (size_prod (\<lambda>_. 0) size) ob)")
    (auto simp: less_Suc_eq_le)

section \<open>The meaning of a schema\<close>

text \<open>
  What JSON Schema asks of a value, keyword by keyword.  The types of a value are those of the
  specification: a truth value is no integer, and an integer is every number without a fraction,
  however it is written.
\<close>

definition json_types :: "json \<Rightarrow> string list" where
  "json_types v = (case v of
     JNull \<Rightarrow> [''null''] | JBool _ \<Rightarrow> [''boolean''] | JInt _ \<Rightarrow> [''integer'', ''number'']
   | JFloat x \<Rightarrow> if of_int \<lfloor>x\<rfloor> = x then [''integer'', ''number''] else [''number'']
   | JStr _ \<Rightarrow> [''string''] | JList _ \<Rightarrow> [''array''] | JObj _ \<Rightarrow> [''object''])"

definition type_ok :: "json \<Rightarrow> obj \<Rightarrow> bool" where
  "type_ok v sch = (case map_of sch ''type'' of
     None \<Rightarrow> True
   | Some (JStr t) \<Rightarrow> t \<in> set (json_types v)
   | Some (JList ts) \<Rightarrow> list_ex (\<lambda>t. t \<in> JStr ` set (json_types v)) ts
   | Some _ \<Rightarrow> False)"

definition enum_ok :: "json \<Rightarrow> obj \<Rightarrow> bool" where
  "enum_ok v sch = (case map_of sch ''enum'' of Some (JList es) \<Rightarrow> v \<in> set es | Some _ \<Rightarrow> False | None \<Rightarrow> True)"

text \<open>A lower or an upper bound of a schema, where it is given as a number.\<close>

definition at_least :: "real \<Rightarrow> json \<Rightarrow> bool" where
  "at_least x bound = (case num_of bound of Some m \<Rightarrow> m \<le> x | None \<Rightarrow> True)"

definition at_most :: "real \<Rightarrow> json \<Rightarrow> bool" where
  "at_most x bound = (case num_of bound of Some m \<Rightarrow> x \<le> m | None \<Rightarrow> True)"

definition string_ok :: "json \<Rightarrow> obj \<Rightarrow> bool" where
  "string_ok v sch = (case v of
     JStr s \<Rightarrow> at_least (real (length s)) (obj_get sch ''minLength'') \<and>
               at_most (real (length s)) (obj_get sch ''maxLength'')
   | _ \<Rightarrow> True)"

definition number_ok :: "json \<Rightarrow> obj \<Rightarrow> bool" where
  "number_ok v sch = (case v of
     JInt n \<Rightarrow> at_least (of_int n) (obj_get sch ''minimum'') \<and> at_most (of_int n) (obj_get sch ''maximum'')
   | JFloat x \<Rightarrow> at_least x (obj_get sch ''minimum'') \<and> at_most x (obj_get sch ''maximum'')
   | _ \<Rightarrow> True)"

definition length_ok :: "json \<Rightarrow> obj \<Rightarrow> bool" where
  "length_ok v sch = (case v of
     JList vs \<Rightarrow> at_least (real (length vs)) (obj_get sch ''minItems'') \<and>
                 at_most (real (length vs)) (obj_get sch ''maxItems'')
   | _ \<Rightarrow> True)"

definition required_ok :: "json \<Rightarrow> obj \<Rightarrow> bool" where
  "required_ok v sch = (case v of
     JObj ob \<Rightarrow> set (required_of sch) \<subseteq> JStr ` fst ` set ob
   | _ \<Rightarrow> True)"

text \<open>The keywords that look at the value without descending into it.\<close>

definition shallow_ok :: "json \<Rightarrow> obj \<Rightarrow> bool" where
  "shallow_ok v sch \<longleftrightarrow> type_ok v sch \<and> enum_ok v sch \<and> string_ok v sch \<and> number_ok v sch \<and>
     length_ok v sch \<and> required_ok v sch"

text \<open>
  The values below a value with the schema that applies to each: the items of a list, and the
  members of an object, where \<^verbatim>\<open>false\<close> (for an undeclared member of a closed object) is a schema
  nothing satisfies and \<^verbatim>\<open>true\<close> one that everything does.
\<close>

definition child_schema :: "obj \<Rightarrow> string \<Rightarrow> json" where
  "child_schema sch k =
     (case map_of (props_of sch) k of Some s \<Rightarrow> s
      | None \<Rightarrow> (case additional_of sch of JBool False \<Rightarrow> JBool False | JObj a \<Rightarrow> JObj a | _ \<Rightarrow> JBool True))"

definition children :: "json \<Rightarrow> obj \<Rightarrow> (json \<times> json) list" where
  "children v sch = (case v of
     JList vs \<Rightarrow> (case obj_get sch ''items'' of JObj s \<Rightarrow> map (\<lambda>x. (x, JObj s)) vs | _ \<Rightarrow> [])
   | JObj ob \<Rightarrow> map (\<lambda>(k, x). (x, child_schema sch k)) ob
   | _ \<Rightarrow> [])"

definition alternatives :: "obj \<Rightarrow> json list" where
  "alternatives sch = (case map_of sch ''oneOf'' of Some (JList ss) \<Rightarrow> ss | _ \<Rightarrow> [])"

lemma size_member: "(k, x) \<in> set ob \<Longrightarrow> size x < size (JObj ob)"
  by (induction ob) auto

lemma size_item: "x \<in> set vs \<Longrightarrow> size x < size (JList vs)"
  by (induction vs) auto

lemma size_children: "(x, s) \<in> set (children v sch) \<Longrightarrow> size x < size v"
  by (auto simp: children_def size_member size_item split: json.splits simp del: json.size)

lemma size_alternatives: "s \<in> set (alternatives sch) \<Longrightarrow> size s < size (JObj sch)"
proof -
  assume "s \<in> set (alternatives sch)"
  then obtain ss where ss: "map_of sch ''oneOf'' = Some (JList ss)" "s \<in> set ss"
    by (cases "map_of sch ''oneOf''") (auto simp: alternatives_def split: json.splits)
  from ss(1) have "size (JList ss) < size (JObj sch)"
    by (intro size_member) (rule map_of_SomeD)
  with size_item [OF ss(2)] show ?thesis by simp
qed

text \<open>\<open>oneOf\<close> asks for exactly one of its alternatives, where it is present.\<close>

function (sequential) schema_valid :: "json \<Rightarrow> json \<Rightarrow> bool" where
  "schema_valid v (JObj sch) \<longleftrightarrow>
     shallow_ok v sch \<and> list_all (\<lambda>(x, s). schema_valid x s) (children v sch) \<and>
     (alternatives sch = [] \<or> length (filter id (map (\<lambda>s. schema_valid v s) (alternatives sch))) = 1)"
| "schema_valid v (JBool True) \<longleftrightarrow> True"
| "schema_valid v _ \<longleftrightarrow> False"
  by pat_completeness auto
termination
  by (relation "measures [\<lambda>(v, s). size v, \<lambda>(v, s). size s]")
    (auto dest: size_children size_alternatives simp del: json.size)

section \<open>Which schemas are enforced\<close>

definition subschemas :: "obj \<Rightarrow> json list" where
  "subschemas sch = map snd (props_of sch) @
     (case obj_get sch ''items'' of JObj s \<Rightarrow> [JObj s] | _ \<Rightarrow> []) @
     (case additional_of sch of JObj a \<Rightarrow> [JObj a] | _ \<Rightarrow> [])"

lemma size_value: "map_of ob k = Some v \<Longrightarrow> size v < size (JObj ob)"
  by (intro size_member) (rule map_of_SomeD)

lemma size_props_of: "(k, s) \<in> set (props_of sch) \<Longrightarrow> size s < size (JObj sch)"
proof -
  assume k: "(k, s) \<in> set (props_of sch)"
  then obtain ps where ps: "map_of sch ''properties'' = Some (JObj ps)" "(k, s) \<in> set ps"
    by (cases "map_of sch ''properties''") (auto simp: props_of_def split: json.splits)
  from size_value [OF ps(1)] size_member [OF ps(2)] show ?thesis by simp
qed

lemma obj_get_Some: "obj_get ob k = v \<Longrightarrow> v \<noteq> JNull \<Longrightarrow> map_of ob k = Some v"
  by (auto simp: obj_get_def split: option.splits)

lemma size_subschemas: "s \<in> set (subschemas sch) \<Longrightarrow> size s < size (JObj sch)"
proof -
  assume "s \<in> set (subschemas sch)"
  then consider k where "(k, s) \<in> set (props_of sch)"
    | a where "s = JObj a" "obj_get sch ''items'' = JObj a"
    | a where "s = JObj a" "additional_of sch = JObj a"
    by (cases "obj_get sch ''items''"; cases "additional_of sch") (auto simp: subschemas_def)
  then show ?thesis
  proof cases
    case 2
    then show ?thesis by (metis size_value obj_get_Some json.distinct(11))
  next
    case 3
    then have "map_of sch ''additionalProperties'' = Some s"
      by (cases "map_of sch ''additionalProperties''") (auto simp: additional_of_def)
    then show ?thesis by (rule size_value)
  qed (rule size_props_of)
qed

text \<open>A property of a schema object and of every schema below it that the validator can reach.\<close>

function (sequential) everywhere :: "(obj \<Rightarrow> bool) \<Rightarrow> json \<Rightarrow> bool" where
  "everywhere P (JObj sch) \<longleftrightarrow> P sch \<and> list_all (everywhere P) (subschemas sch)"
| "everywhere P _ \<longleftrightarrow> False"
  by pat_completeness auto
termination
  by (relation "measure (\<lambda>(P, s). size s)") (auto dest: size_subschemas simp del: json.size)

text \<open>The shape every schema of the source has.\<close>

definition schema_form :: "obj \<Rightarrow> bool" where
  "schema_form sch \<longleftrightarrow>
     (case map_of sch ''type'' of None \<Rightarrow> True | Some (JStr _) \<Rightarrow> True
      | Some (JList ts) \<Rightarrow> list_all (\<lambda>t. case t of JStr _ \<Rightarrow> True | _ \<Rightarrow> False) ts | Some _ \<Rightarrow> False) \<and>
     (case map_of sch ''properties'' of None \<Rightarrow> True | Some (JObj _) \<Rightarrow> True | Some _ \<Rightarrow> False) \<and>
     (case map_of sch ''enum'' of None \<Rightarrow> True | Some (JList _) \<Rightarrow> True | Some _ \<Rightarrow> False) \<and>
     (case map_of sch ''required'' of None \<Rightarrow> True
      | Some (JList ks) \<Rightarrow> list_all (\<lambda>k. case k of JStr _ \<Rightarrow> True | _ \<Rightarrow> False) ks | Some _ \<Rightarrow> False)"

abbreviation wf_schema :: "json \<Rightarrow> bool" where
  "wf_schema \<equiv> everywhere schema_form"

text \<open>
  The keywords the validator reads, where it reads them: a length on any string, an enumeration
  of strings, bounds of integers.
\<close>

definition only_enforced :: "obj \<Rightarrow> bool" where
  "only_enforced sch \<longleftrightarrow> schema_form sch \<and>
     list_all (\<lambda>k. map_of sch k = None) [''maxLength'', ''minItems'', ''maxItems'', ''oneOf''] \<and>
     (case map_of sch ''minLength'' of None \<Rightarrow> True | Some (JInt _) \<Rightarrow> True | Some _ \<Rightarrow> False) \<and>
     (map_of sch ''enum'' = None \<or> map_of sch ''type'' = Some (JStr ''string'')) \<and>
     (map_of sch ''minimum'' = None \<and> map_of sch ''maximum'' = None \<or>
      map_of sch ''type'' = Some (JStr ''integer''))"

abbreviation enforced :: "json \<Rightarrow> bool" where
  "enforced \<equiv> everywhere only_enforced"

lemma everywhere_mono:
  assumes "everywhere P s" and "\<And>sch. P sch \<Longrightarrow> Q sch"
  shows "everywhere Q s"
  using assms by (induction P s rule: everywhere.induct) (auto simp: list_all_iff)

lemma enforced_wf: "enforced s \<Longrightarrow> wf_schema s"
  by (erule everywhere_mono) (simp add: only_enforced_def)

lemma everywhere_props:
  assumes "everywhere P (JObj sch)" "map_of (props_of sch) k = Some s"
  shows "everywhere P s"
proof -
  from assms(2) have "s \<in> set (subschemas sch)"
    by (auto simp: subschemas_def dest!: map_of_SomeD intro: rev_image_eqI)
  with assms(1) show ?thesis by (simp add: list_all_iff)
qed

lemma everywhere_additional:
  "everywhere P (JObj sch) \<Longrightarrow> additional_of sch = JObj a \<Longrightarrow> everywhere P (JObj a)"
  by (simp add: subschemas_def)

lemma everywhere_items:
  "everywhere P (JObj sch) \<Longrightarrow> obj_get sch ''items'' = JObj a \<Longrightarrow> everywhere P (JObj a)"
  by (simp add: subschemas_def)

section \<open>The checks against the keywords\<close>

text \<open>
  The validator knows the types of the specification, with one exception: a number that is written
  with a fraction is no integer, also when the fraction is zero.
\<close>

definition written_integer :: "json \<Rightarrow> bool" where
  "written_integer v = (case v of JFloat x \<Rightarrow> of_int \<lfloor>x\<rfloor> \<noteq> x | _ \<Rightarrow> True)"

lemma type_word_types: "type_word_matches v t \<Longrightarrow> t \<in> set (json_types v)"
  by (cases v) (auto simp: type_word_matches_def json_types_def split: if_splits)

lemma types_type_word: "written_integer v \<Longrightarrow> t \<in> set (json_types v) \<Longrightarrow> type_word_matches v t"
  by (cases v) (auto simp: type_word_matches_def json_types_def written_integer_def)

lemma type_words_types:
  "list_all (\<lambda>t. case t of JStr _ \<Rightarrow> True | _ \<Rightarrow> False) ts \<Longrightarrow> list_ex (schema_type_matches v) ts \<Longrightarrow>
   list_ex (\<lambda>t. t \<in> JStr ` set (json_types v)) ts"
  by (induction ts) (auto split: json.splits intro: type_word_types)

lemma types_type_words:
  "written_integer v \<Longrightarrow> list_ex (\<lambda>t. t \<in> JStr ` set (json_types v)) ts \<Longrightarrow> list_ex (schema_type_matches v) ts"
  by (induction ts) (auto intro: types_type_word)

lemma check_type_sound:
  assumes "schema_form sch" "check_type v sch path = None"
  shows "type_ok v sch"
proof (cases "map_of sch ''type''")
  case (Some t)
  then have "schema_type_matches v t"
    using assms by (cases t) (simp_all add: check_type_def obj_get_def schema_form_def Let_def split: if_splits)
  with Some assms(1) show ?thesis
    by (cases t) (simp_all add: type_ok_def schema_form_def type_word_types type_words_types)
qed (simp add: type_ok_def)

lemma check_type_complete:
  assumes "written_integer v" "type_ok v sch"
  shows "check_type v sch path = None"
proof (cases "map_of sch ''type''")
  case (Some t)
  with assms have "schema_type_matches v t"
    by (cases t) (simp_all add: type_ok_def types_type_word types_type_words)
  with Some show ?thesis by (simp add: check_type_def obj_get_def)
qed (simp add: check_type_def obj_get_def)

text \<open>No number below a value is an integer written with a fraction.\<close>

function (sequential) plain_numbers :: "json \<Rightarrow> bool" where
  "plain_numbers (JList vs) \<longleftrightarrow> list_all plain_numbers vs"
| "plain_numbers (JObj ob) \<longleftrightarrow> list_all (\<lambda>(k, v). plain_numbers v) ob"
| "plain_numbers v \<longleftrightarrow> written_integer v"
  by pat_completeness auto
termination
  by (relation "measure size") (auto dest: size_member size_item simp del: json.size)

lemma plain_written: "plain_numbers v \<Longrightarrow> written_integer v"
  by (cases v) (simp_all add: written_integer_def)

lemma check_string_None:
  "string_ok (JStr s) sch \<Longrightarrow> check_string s sch path = None"
  by (auto simp: check_string_def string_ok_def at_least_def int_of_def num_of_def split: json.splits)

lemma check_enum_None:
  "schema_form sch \<Longrightarrow> check_enum s sch path = None \<longleftrightarrow> enum_ok (JStr s) sch"
  by (auto simp: check_enum_def enum_ok_def schema_form_def split: option.splits json.splits)

lemma check_bounds_None:
  "check_minimum n sch path = None \<and> check_maximum n sch path = None \<longleftrightarrow> number_ok (JInt n) sch"
  by (auto simp: check_minimum_def check_maximum_def number_ok_def at_least_def at_most_def
      split: option.splits)

lemma check_required_None:
  "check_required ks ob path = None \<longleftrightarrow> set ks \<subseteq> JStr ` fst ` set ob"
  by (induction ks ob path rule: check_required.induct) auto

lemma check_scalar_valid:
  "schema_form sch \<Longrightarrow> shallow_ok v sch \<Longrightarrow> check_scalar v sch path = None"
  by (cases v) (simp_all add: check_scalar_def shallow_ok_def check_string_None check_enum_None
      check_bounds_None)

lemma check_scalar_None:
  assumes "only_enforced sch" "check_type v sch path = None" "check_scalar v sch path = None"
  shows "enum_ok v sch \<and> string_ok v sch \<and> number_ok v sch"
proof (cases v)
  case (JStr s)
  have "string_ok v sch"
    using assms JStr
    by (auto simp: check_scalar_def check_string_def string_ok_def only_enforced_def obj_get_def
        int_of_def at_least_def at_most_def num_of_def split: option.splits json.splits if_splits)
  with assms JStr show ?thesis
    by (simp add: check_scalar_def only_enforced_def check_enum_None number_ok_def)
next
  case (JInt n)
  with assms show ?thesis
    by (auto simp: check_scalar_def only_enforced_def check_bounds_None string_ok_def enum_ok_def
        check_type_def obj_get_def type_word_matches_def Let_def split: option.splits if_splits)
qed (use assms in \<open>auto simp: only_enforced_def enum_ok_def string_ok_def number_ok_def check_type_def
       obj_get_def type_word_matches_def Let_def at_least_def at_most_def num_of_def split: option.splits if_splits\<close>)

lemma enforced_length_ok: "only_enforced sch \<Longrightarrow> length_ok v sch \<and> alternatives sch = []"
  by (auto simp: only_enforced_def length_ok_def alternatives_def obj_get_def at_least_def at_most_def
      num_of_def split: json.splits)

lemma enforced_shallow:
  assumes "only_enforced sch" "check_type v sch path = None" "check_scalar v sch path = None"
    and "\<And>ob. v = JObj ob \<Longrightarrow> check_required (required_of sch) ob path = None"
  shows "shallow_ok v sch \<and> alternatives sch = []"
proof -
  have "required_ok v sch"
    using assms(4) by (auto simp: required_ok_def check_required_None split: json.splits)
  moreover have "type_ok v sch" using assms(1,2) by (intro check_type_sound) (simp_all add: only_enforced_def)
  ultimately show ?thesis
    using assms check_scalar_None [OF assms(1-3)] enforced_length_ok [OF assms(1)] by (simp add: shallow_ok_def)
qed

section \<open>Acceptance\<close>

text \<open>The schema of a member, from the \<open>properties\<close> and the \<open>additionalProperties\<close> the loop carries.\<close>

definition member_schema :: "obj \<Rightarrow> json \<Rightarrow> string \<Rightarrow> json" where
  "member_schema ps add k =
     (case map_of ps k of Some s \<Rightarrow> s
      | None \<Rightarrow> (case add of JBool False \<Rightarrow> JBool False | JObj a \<Rightarrow> JObj a | _ \<Rightarrow> JBool True))"

lemma child_schema_member: "child_schema sch k = member_schema (props_of sch) (additional_of sch) k"
  by (simp add: child_schema_def member_schema_def)

lemma children_JObj:
  "list_all (\<lambda>(x, s). Q x s) (children (JObj ob) sch) \<longleftrightarrow>
   list_all (\<lambda>(k, x). Q x (member_schema (props_of sch) (additional_of sch) k)) ob"
  by (simp add: children_def list_all_iff split_def child_schema_member)

lemma children_JList:
  "obj_get sch ''items'' = JObj s \<Longrightarrow>
   list_all (\<lambda>(x, s). Q x s) (children (JList vs) sch) \<longleftrightarrow> list_all (\<lambda>x. Q x (JObj s)) vs"
  by (simp add: children_def list_all_iff)

definition members_wf :: "(obj \<Rightarrow> bool) \<Rightarrow> obj \<Rightarrow> json \<Rightarrow> bool" where
  "members_wf P ps add \<longleftrightarrow> (\<forall>k s. map_of ps k = Some s \<longrightarrow> everywhere P s) \<and>
     (\<forall>a. add = JObj a \<longrightarrow> everywhere P (JObj a))"

lemma members_wf_schema: "everywhere P (JObj sch) \<Longrightarrow> members_wf P (props_of sch) (additional_of sch)"
  unfolding members_wf_def by (blast intro: everywhere_props everywhere_additional)

text \<open>The step of the loop over the members: the verdict on one of them.\<close>

lemma validate_members_Cons:
  "validate_members ((k, v) # ob) ps add path = None \<longleftrightarrow>
     (case member_schema ps add k of JObj s \<Rightarrow> validate_schema_value v (JObj s) (path @ ''.'' @ k) = None
      | JBool True \<Rightarrow> map_of ps k = None | _ \<Rightarrow> False) \<and>
     validate_members ob ps add path = None"
proof (cases "map_of ps k")
  case None
  then show ?thesis by (auto simp: member_schema_def Let_def split: json.splits bool.splits)
next
  case (Some s)
  then show ?thesis
    by (cases s) (auto simp: member_schema_def Let_def split: bool.splits)
qed

lemma schema_valid_accepted:
  "wf_schema s \<Longrightarrow> plain_numbers v \<Longrightarrow> schema_valid v s \<Longrightarrow> validate_schema_value v s path = None"
  and items_valid_accepted:
  "wf_schema item \<Longrightarrow> list_all plain_numbers vs \<Longrightarrow> list_all (\<lambda>x. schema_valid x item) vs \<Longrightarrow> validate_items vs item i path = None"
  and members_valid_accepted:
  "members_wf schema_form ps add \<Longrightarrow> list_all (\<lambda>(k, x). plain_numbers x) ob \<Longrightarrow> list_all (\<lambda>(k, x). schema_valid x (member_schema ps add k)) ob \<Longrightarrow>
   validate_members ob ps add path = None"
proof (induction v s path and vs item i path and ob ps add path
    rule: validate_schema_value_validate_items_validate_members.induct)
  case (1 v sch path)
  then have sh: "shallow_ok v sch" and form: "schema_form sch"
    and ch: "list_all (\<lambda>(x, s). schema_valid x s) (children v sch)" by auto
  from sh have ty: "check_type v sch path = None"
    using plain_written [OF "1.prems"(2)] by (simp add: check_type_complete shallow_ok_def)
  note sc = check_scalar_valid [OF form sh]
  show ?case
  proof (cases v)
    case (JList vs)
    then show ?thesis using "1.IH"(1) [OF JList] ty sc ch everywhere_items [OF "1.prems"(1)] "1.prems"(2)
      by (cases "obj_get sch ''items''") (simp_all add: children_JList)
  next
    case (JObj ob)
    have "check_required (required_of sch) ob path = None"
      using sh JObj by (simp add: check_required_None shallow_ok_def required_ok_def)
    moreover have "validate_members ob (props_of sch) (additional_of sch) path = None"
      using "1.IH"(2) [OF JObj] ch JObj members_wf_schema [OF "1.prems"(1)] "1.prems"(2) by (simp add: children_JObj)
    ultimately show ?thesis using ty sc JObj by simp
  qed (use ty sc in simp_all)
next
  case (6 k v ob ps add path)
  then have v: "schema_valid v (member_schema ps add k)"
    and rest: "validate_members ob ps add path = None" by simp_all
  show ?case
  proof (cases "map_of ps k")
    case None
    with v rest "6.prems"(1,2) "6.IH"(1) [OF refl None] show ?thesis
      by (cases add) (auto simp: member_schema_def members_wf_def Let_def split: bool.splits)
  next
    case (Some s)
    with v rest "6.prems"(1,2) "6.IH"(2) [OF refl Some] show ?thesis
      by (simp add: member_schema_def members_wf_def Let_def)
  qed
qed auto

lemma enforced_accepted_valid:
  "enforced s \<Longrightarrow> validate_schema_value v s path = None \<Longrightarrow> schema_valid v s"
  and items_accepted_valid:
  "enforced item \<Longrightarrow> validate_items vs item i path = None \<Longrightarrow> list_all (\<lambda>x. schema_valid x item) vs"
  and members_accepted_valid:
  "members_wf only_enforced ps add \<Longrightarrow> validate_members ob ps add path = None \<Longrightarrow>
   list_all (\<lambda>(k, x). schema_valid x (member_schema ps add k)) ob"
proof (induction v s path and vs item i path and ob ps add path
    rule: validate_schema_value_validate_items_validate_members.induct)
  case (1 v sch path)
  have enf: "only_enforced sch" using "1.prems"(1) by simp
  have "check_type v sch path = None" "check_scalar v sch path = None"
    "\<And>ob. v = JObj ob \<Longrightarrow> check_required (required_of sch) ob path = None"
    using "1.prems"(2) by simp_all
  note shallow = enforced_shallow [OF enf this]
  have "list_all (\<lambda>(x, s). schema_valid x s) (children v sch)"
  proof (cases v)
    case (JList vs)
    then show ?thesis using "1.IH"(1) [OF JList] "1.prems" everywhere_items [OF "1.prems"(1)]
      by (cases "obj_get sch ''items''") (simp_all add: children_JList, simp_all add: children_def)
  next
    case (JObj ob)
    then show ?thesis using "1.IH"(2) [OF JObj] "1.prems" members_wf_schema [OF "1.prems"(1)]
      by (simp add: children_JObj)
  qed (simp_all add: children_def)
  with shallow show ?case by simp
next
  case (6 k v ob ps add path)
  then have rest: "list_all (\<lambda>(k, x). schema_valid x (member_schema ps add k)) ob"
    by (simp add: Let_def)
  have "schema_valid v (member_schema ps add k)"
  proof (cases "map_of ps k")
    case None
    with "6.prems" "6.IH"(1) [OF refl None] show ?thesis
      by (cases add) (auto simp: member_schema_def members_wf_def Let_def split: bool.splits if_splits)
  next
    case (Some s)
    with "6.prems" "6.IH"(2) [OF refl Some] show ?thesis
      by (simp add: member_schema_def members_wf_def Let_def)
  qed
  with rest show ?case by simp
qed auto

text \<open>A well-formed schema never makes the validator itself fail.\<close>

lemma seq_v_not_error: "seq_v a b \<noteq> Some Schema_TypeError \<longleftrightarrow> a \<noteq> Some Schema_TypeError \<and> (a = None \<longrightarrow> b \<noteq> Some Schema_TypeError)"
  by (cases a) auto

lemma check_required_no_error:
  "list_all (\<lambda>k. case k of JStr _ \<Rightarrow> True | _ \<Rightarrow> False) ks \<Longrightarrow> check_required ks ob path \<noteq> Some Schema_TypeError"
  by (induction ks ob path rule: check_required.induct) auto

lemma own_checks_no_error:
  assumes "schema_form sch"
  shows "check_type v sch path \<noteq> Some Schema_TypeError" "check_scalar v sch path \<noteq> Some Schema_TypeError"
    "check_required (required_of sch) ob path \<noteq> Some Schema_TypeError"
proof -
  show "check_type v sch path \<noteq> Some Schema_TypeError" by (simp add: check_type_def Let_def)
  have "check_string s sch path \<noteq> Some Schema_TypeError" for s
    by (simp add: check_string_def split: option.split)
  moreover have "check_enum s sch path \<noteq> Some Schema_TypeError" for s
    using assms by (auto simp: check_enum_def schema_form_def split: option.splits json.splits)
  moreover have "check_minimum n sch path \<noteq> Some Schema_TypeError" "check_maximum n sch path \<noteq> Some Schema_TypeError" for n
    by (simp_all add: check_minimum_def check_maximum_def split: option.split)
  ultimately show "check_scalar v sch path \<noteq> Some Schema_TypeError"
    by (simp add: check_scalar_def seq_v_not_error split: json.split)
  have "list_all (\<lambda>k. case k of JStr _ \<Rightarrow> True | _ \<Rightarrow> False) (required_of sch)"
    using assms by (auto simp: schema_form_def required_of_def split: option.splits json.splits)
  then show "check_required (required_of sch) ob path \<noteq> Some Schema_TypeError" by (rule check_required_no_error)
qed

lemma validate_no_error:
  "wf_schema s \<Longrightarrow> validate_schema_value v s path \<noteq> Some Schema_TypeError"
  and validate_items_no_error:
  "wf_schema item \<Longrightarrow> validate_items vs item i path \<noteq> Some Schema_TypeError"
  and validate_members_no_error:
  "members_wf schema_form ps add \<Longrightarrow> validate_members ob ps add path \<noteq> Some Schema_TypeError"
proof (induction v s path and vs item i path and ob ps add path
    rule: validate_schema_value_validate_items_validate_members.induct)
  case (1 v sch path)
  then have form: "schema_form sch" by simp
  note own = own_checks_no_error [OF form]
  show ?case
  proof (cases v)
    case (JList vs)
    with own "1.IH"(1) [OF JList] everywhere_items [OF "1.prems"] show ?thesis
      by (cases "obj_get sch ''items''") (simp_all add: seq_v_not_error)
  next
    case (JObj ob)
    with own "1.IH"(2) [OF JObj] members_wf_schema [OF "1.prems"] show ?thesis by (simp add: seq_v_not_error)
  qed (use own in \<open>simp_all add: seq_v_not_error\<close>)
next
  case (6 k v ob ps add path)
  have rest: "validate_members ob ps add path \<noteq> Some Schema_TypeError" by (rule "6.IH"(3) [OF refl "6.prems"])
  show ?case
  proof (cases "map_of ps k")
    case None
    with rest "6.prems" "6.IH"(1) [OF refl None] show ?thesis
      by (cases add) (auto simp: members_wf_def Let_def seq_v_not_error split: bool.splits)
  next
    case (Some s)
    with rest "6.prems" "6.IH"(2) [OF refl Some] show ?thesis
      by (simp add: members_wf_def Let_def seq_v_not_error)
  qed
qed (auto simp: seq_v_not_error)

text \<open>The path only names the value in a message: it never decides.\<close>

lemma check_required_path: "check_required ks ob p = None \<longleftrightarrow> check_required ks ob q = None"
  by (simp add: check_required_None)

lemma check_type_path: "check_type v sch p = None \<longleftrightarrow> check_type v sch q = None"
  by (simp add: check_type_def Let_def)

lemma check_string_path: "check_string s sch p = None \<longleftrightarrow> check_string s sch q = None"
  by (simp add: check_string_def split: option.split)

lemma check_enum_path: "check_enum s sch p = None \<longleftrightarrow> check_enum s sch q = None"
  by (simp add: check_enum_def split: option.split json.split)

lemma check_scalar_path: "check_scalar v sch p = None \<longleftrightarrow> check_scalar v sch q = None"
  by (cases v) (simp_all add: check_scalar_def check_string_path [of _ _ p q] check_enum_path [of _ _ p q] check_bounds_None)

lemma validate_path:
  "validate_schema_value v s p = None \<Longrightarrow> validate_schema_value v s q = None"
  and validate_items_path:
  "validate_items vs item i p = None \<Longrightarrow> validate_items vs item j q = None"
  and validate_members_path:
  "validate_members ob ps add p = None \<Longrightarrow> validate_members ob ps add q = None"
proof (induction v s p and vs item i p and ob ps add p arbitrary: q and j q and q
    rule: validate_schema_value_validate_items_validate_members.induct)
  case (1 v sch path)
  have own: "check_type v sch q = None" "check_scalar v sch q = None"
    using "1.prems" check_type_path [of v sch path q] check_scalar_path [of v sch path q] by simp_all
  show ?case
  proof (cases v)
    case (JList vs)
    with own "1.prems" "1.IH"(1) [OF JList, of _ 0 q] show ?thesis
      by (cases "obj_get sch ''items''") simp_all
  next
    case (JObj ob)
    then have "check_required (required_of sch) ob path = None"
      "validate_members ob (props_of sch) (additional_of sch) path = None" using "1.prems" by simp_all
    then have "check_required (required_of sch) ob q = None"
      "validate_members ob (props_of sch) (additional_of sch) q = None"
      using check_required_path "1.IH"(2) [OF JObj] by blast+
    with own JObj show ?thesis by simp
  qed (use own in simp_all)
next
  case (6 k v ob ps add path)
  have prem: "validate_members ob ps add path = None" using "6.prems" by (simp add: Let_def)
  have rest: "validate_members ob ps add q = None" by (rule "6.IH"(3) [OF refl prem])
  show ?case
  proof (cases "map_of ps k")
    case None
    show ?thesis
    proof (cases add)
      case (JObj a)
      have "validate_schema_value v (JObj a) (path @ ''.'' @ k) = None"
        using "6.prems" None JObj by (simp add: Let_def)
      from "6.IH"(1) [OF refl None JObj this, of "q @ ''.'' @ k"] None JObj rest show ?thesis
        by (simp add: Let_def)
    qed (use "6.prems" None rest in \<open>auto simp: Let_def split: bool.splits\<close>)
  next
    case (Some s)
    have "validate_schema_value v s (path @ ''.'' @ k) = None" using "6.prems" Some by (simp add: Let_def)
    from "6.IH"(2) [OF refl Some this, of "q @ ''.'' @ k"] Some rest show ?thesis by (simp add: Let_def)
  qed
qed auto

text \<open>What an accepted object looks like, whatever other keywords its schema has.\<close>

lemma accepted_keys:
  assumes "validate_members ob ps (JBool False) path = None"
  shows "fst ` set ob \<subseteq> fst ` set ps"
  using assms
proof (induction ob)
  case (Cons e ob)
  obtain k v where e: "e = (k, v)" by (cases e)
  from Cons.prems e obtain s where "map_of ps k = Some s"
    by (auto simp: Let_def split: option.splits)
  then have "k \<in> fst ` set ps" by (auto dest!: map_of_SomeD intro: rev_image_eqI)
  with Cons e show ?case by (simp add: Let_def)
qed simp

lemma accepted_object:
  assumes "validate_schema_value (JObj ob) (JObj sch) path = None"
  shows "set (required_of sch) \<subseteq> JStr ` fst ` set ob"
    and "additional_of sch = JBool False \<Longrightarrow> fst ` set ob \<subseteq> fst ` set (props_of sch)"
  using assms accepted_keys [of ob "props_of sch" path] by (simp_all add: check_required_None)

end
