(* ===== verification/ToolCatalogue.thy ===== *)
theory ToolCatalogue
  imports Schemas TextUtils Protocol
begin

text \<open>
  The catalogue of tools (\<^verbatim>\<open>server.py\<close>): the registry of titles, descriptions and annotation hints
  (\<open>TOOL_REGISTRY\<close>), the input schema of every tool (\<open>input_schemas\<close>), what \<^verbatim>\<open>tools/list\<close> and the
  server card report of them, and the validation of a call's arguments.  The tables are the
  source's, entry by entry, in its order.
\<close>

section \<open>The registry\<close>

text \<open>The only content builder of the registry turns an image payload into a content block.\<close>

datatype content_builder = Image_content

record ToolSpec =
  ts_title :: string
  ts_description :: string
  ts_read_only :: bool
  ts_destructive :: bool
  ts_idempotent :: bool
  ts_open_world :: bool
  ts_error_status :: "string option"
  ts_content_builder :: "content_builder option"
  ts_gated_by :: "string option"

text \<open>\<^verbatim>\<open>ToolSpec(title=..., description=...)\<close> with the defaults of the other fields.\<close>

definition tool_spec :: "string \<Rightarrow> string \<Rightarrow> ToolSpec" where
  "tool_spec t d =
     \<lparr>ts_title = t, ts_description = d, ts_read_only = False, ts_destructive = False,
      ts_idempotent = False, ts_open_world = False, ts_error_status = None,
      ts_content_builder = None, ts_gated_by = None\<rparr>"

definition registry_service_tools :: "(string \<times> ToolSpec) list" where
  "registry_service_tools =
    [(''server_info'', (tool_spec ''Server info''
       ''Server info.'')
       \<lparr>ts_read_only := True, ts_idempotent := True\<rparr>),
     (''health'', (tool_spec ''Health''
       ''Health check.'')
       \<lparr>ts_read_only := True, ts_idempotent := True\<rparr>),
     (''workspace_info'', (tool_spec ''Workspace info''
       ''Workspace info.'')
       \<lparr>ts_read_only := True, ts_idempotent := True\<rparr>),
     (''service_status'', (tool_spec ''DevMCP service status''
       ''Run the host-side DevMCP status diagnostic without entering the execution sandbox.'')
       \<lparr>ts_read_only := True, ts_idempotent := True\<rparr>),
     (''service_doctor'', (tool_spec ''DevMCP service doctor''
       ''Run the host-side DevMCP doctor diagnostic without entering the execution sandbox.'')
       \<lparr>ts_read_only := True, ts_idempotent := True\<rparr>),
     (''host_cli_probe'', (tool_spec ''Probe host CLI capability''
       ''Resolve one executable inside the selected project and run only bounded --version or --help discovery on the host with a sanitized environment.'')
       \<lparr>ts_read_only := True, ts_idempotent := True, ts_open_world := True\<rparr>),
     (''service_restart'', (tool_spec ''Restart DevMCP services''
       ''Schedule a host-side restart of the DevMCP MCP and tunnel user services after this tool response is returned.'')
       \<lparr>ts_destructive := True\<rparr>),
     (''service_update'', (tool_spec ''Update DevMCP service runtime''
       ''Schedule a user-level update of the installed DevMCP runtime from a clean pinned local checkout; development_mode explicitly permits a clean non-main branch for self-host testing.'')
       \<lparr>ts_destructive := True, ts_open_world := True\<rparr>),
     (''list_projects'', (tool_spec ''List projects''
       ''Discover Git repositories under operator-approved project roots.'')
       \<lparr>ts_read_only := True, ts_idempotent := True\<rparr>),
     (''select_project'', (tool_spec ''Select project''
       ''Select one discovered repository as the writable project for this MCP session.'')
       \<lparr>ts_idempotent := True\<rparr>),
     (''current_project'', (tool_spec ''Current project''
       ''Show the repository selected for this MCP session.'')
       \<lparr>ts_read_only := True, ts_idempotent := True\<rparr>),
     (''local_state_snapshot'', (tool_spec ''Local state snapshot''
       ''Return project, Git, dirty-path, runtime-version, service-SHA, and self-host execution state in one call.'')
       \<lparr>ts_read_only := True, ts_idempotent := True\<rparr>),
     (''project_checks'', (tool_spec ''Project checks''
       ''Discover bounded project-native verification commands for the selected repository.'')
       \<lparr>ts_read_only := True, ts_idempotent := True\<rparr>)]"

definition registry_file_tools :: "(string \<times> ToolSpec) list" where
  "registry_file_tools =
    [(''run_project_check'', (tool_spec ''Run project check''
       ''Run one discovered project-native verification command in the selected repository sandbox.'')
       \<lparr>ts_destructive := True\<rparr>),
     (''run_checks_for_diff'', (tool_spec ''Run checks for diff''
       ''Detect changed files, select relevant discovered lint/typecheck/test checks, run them server-side, and return one aggregate result.'')
       \<lparr>ts_destructive := True\<rparr>),
     (''read_file'', (tool_spec ''Read file''
       ''Read file.'')
       \<lparr>ts_read_only := True, ts_idempotent := True\<rparr>),
     (''read_files'', (tool_spec ''Read files''
       ''Read multiple files.'')
       \<lparr>ts_read_only := True, ts_idempotent := True\<rparr>),
     (''code_diagnostics'', (tool_spec ''Code diagnostics''
       ''Normalize compiler, traceback, or language-tool diagnostics without making diagnostics a core IDE dependency.'')
       \<lparr>ts_read_only := True, ts_idempotent := True\<rparr>),
     (''list_dir'', (tool_spec ''List dir''
       ''List directory.'')
       \<lparr>ts_read_only := True, ts_idempotent := True\<rparr>),
     (''list_files'', (tool_spec ''List files''
       ''List files.'')
       \<lparr>ts_read_only := True, ts_idempotent := True\<rparr>),
     (''search_text'', (tool_spec ''Search text''
       ''Search text.'')
       \<lparr>ts_read_only := True, ts_idempotent := True\<rparr>),
     (''inspect_symbol'', (tool_spec ''Inspect symbol''
       ''Find a symbol definition, references, relevant tests, and bounded surrounding source in one call.'')
       \<lparr>ts_read_only := True, ts_idempotent := True\<rparr>),
     (''view_image'', (tool_spec ''View image''
       ''View image.'')
       \<lparr>ts_read_only := True, ts_idempotent := True, ts_content_builder := Some Image_content\<rparr>),
     (''preview_patch'', (tool_spec ''Preview patch''
       ''Preview patch.'')
       \<lparr>ts_read_only := True, ts_idempotent := True\<rparr>),
     (''apply_patch'', (tool_spec ''Apply patch''
       ''Apply a previewed Add/Update/Delete/Move patch. Small updates run automatically; deletes, moves, and high-risk updates are blocked or require local approval.'')
       \<lparr>ts_destructive := True\<rparr>)]"

definition registry_git_tools :: "(string \<times> ToolSpec) list" where
  "registry_git_tools =
    [(''git_status'', (tool_spec ''Git status''
       ''Git status.'')
       \<lparr>ts_read_only := True, ts_idempotent := True\<rparr>),
     (''git_diff'', (tool_spec ''Git diff''
       ''Git diff.'')
       \<lparr>ts_read_only := True, ts_idempotent := True\<rparr>),
     (''git_log'', (tool_spec ''Git log''
       ''Git log.'')
       \<lparr>ts_read_only := True, ts_idempotent := True\<rparr>),
     (''git_show'', (tool_spec ''Git show''
       ''Git show.'')
       \<lparr>ts_read_only := True, ts_idempotent := True\<rparr>),
     (''git_blame'', (tool_spec ''Git blame''
       ''Git blame.'')
       \<lparr>ts_read_only := True, ts_idempotent := True\<rparr>),
     (''git_create_branch'', (tool_spec ''Create Git branch''
       ''Create and switch to a local branch in the selected repository.'')
       \<lparr>ts_destructive := True\<rparr>),
     (''git_switch_branch'', (tool_spec ''Switch Git branch''
       ''Switch to an existing local branch in the selected repository.'')
       \<lparr>ts_destructive := True\<rparr>),
     (''git_fetch'', (tool_spec ''Fetch Git remote''
       ''Fetch and prune one configured remote for the selected repository.'')
       \<lparr>ts_destructive := True, ts_open_world := True\<rparr>),
     (''git_pull'', (tool_spec ''Pull Git branch''
       ''Fast-forward only the current branch from one configured remote.'')
       \<lparr>ts_destructive := True, ts_open_world := True\<rparr>),
     (''git_merge_remote_branch'', (tool_spec ''Merge remote Git branch''
       ''Merge one branch from a configured remote into the current clean branch; abort automatically if conflicts occur.'')
       \<lparr>ts_destructive := True, ts_open_world := True\<rparr>),
     (''git_delete_branch'', (tool_spec ''Delete local Git branch''
       ''Safely delete one merged local branch; force deletion is not supported.'')
       \<lparr>ts_destructive := True\<rparr>),
     (''git_delete_remote_branch'', (tool_spec ''Delete remote Git branch''
       ''Delete one branch from a configured remote; arbitrary remote URLs are rejected.'')
       \<lparr>ts_destructive := True, ts_open_world := True\<rparr>),
     (''git_commit'', (tool_spec ''Git commit''
       ''Commit only explicitly named paths in the selected repository.'')
       \<lparr>ts_destructive := True\<rparr>),
     (''git_push'', (tool_spec ''Git push''
       ''Push the current branch to a configured remote; force push and URL remotes are rejected.'')
       \<lparr>ts_destructive := True, ts_open_world := True\<rparr>)]"

definition registry_run_tools :: "(string \<times> ToolSpec) list" where
  "registry_run_tools =
    [(''wait_for_external'', (tool_spec ''Wait for external process''
       ''Wait for one bounded interval before the client re-polls an external system.'')
       \<lparr>ts_read_only := True, ts_idempotent := True, ts_open_world := True\<rparr>),
     (''continuation_checkpoint'', (tool_spec ''Continuation checkpoint''
       ''Read, write, clear, or list bounded durable non-secret continuation checkpoints scoped to the selected canonical project and logical task or branch.'')
       \<lparr>ts_destructive := True, ts_idempotent := True\<rparr>),
     (''antigravity_delegate'', (tool_spec ''Delegate to Antigravity''
       ''Delegate one bounded coding task to the host Antigravity CLI in an isolated temporary Git worktree. Sensitive files, deletes, privilege escalation, and workspace escape are not permitted.'')
       \<lparr>ts_destructive := True, ts_open_world := True\<rparr>),
     (''list_tasks'', (tool_spec ''List tasks''
       ''List tasks.'')
       \<lparr>ts_read_only := True, ts_idempotent := True\<rparr>),
     (''describe_task'', (tool_spec ''Describe task''
       ''Describe task.'')
       \<lparr>ts_read_only := True, ts_idempotent := True\<rparr>),
     (''run_task'', (tool_spec ''Run task''
       ''Run a registered local test, lint, typecheck, build, check, or dependency task using the resolved PLAN/BUILD execution model.'')
       \<lparr>ts_destructive := True, ts_open_world := True\<rparr>),
     (''exec_command'', (tool_spec ''Exec command''
       ''Exec command.'')
       \<lparr>ts_destructive := True, ts_open_world := True, ts_error_status := Some ''failed''\<rparr>),
     (''exec_argv'', (tool_spec ''Exec argv''
       ''Execute a structured argv directly without shell parsing, using the same policy and sandbox enforcement as exec_command.'')
       \<lparr>ts_destructive := True, ts_open_world := True, ts_error_status := Some ''failed''\<rparr>),
     (''job_status'', (tool_spec ''Job status''
       ''Check a job without consuming output; wait_ms may wait for process completion and ignores intermediate stdout/stderr.'')
       \<lparr>ts_read_only := True, ts_idempotent := True\<rparr>),
     (''read_output'', (tool_spec ''Read output''
       ''Read output.'')
       \<lparr>ts_read_only := True, ts_idempotent := True\<rparr>),
     (''write_stdin'', (tool_spec ''Write stdin''
       ''Write input to an interactive/running process and optionally wait briefly for output or exit; use job_status for non-interactive polling.'')
       \<lparr>ts_destructive := True\<rparr>),
     (''kill_session'', (tool_spec ''Kill session''
       ''Kill session.'')
       \<lparr>ts_destructive := True\<rparr>),
     (''job_output'', (tool_spec ''Job output''
       ''Job output.'')
       \<lparr>ts_read_only := True, ts_idempotent := True\<rparr>),
     (''job_input'', (tool_spec ''Job input''
       ''Job input.'')
       \<lparr>ts_destructive := True\<rparr>),
     (''job_cancel'', (tool_spec ''Job cancel''
       ''Job cancel.'')
       \<lparr>ts_destructive := True\<rparr>),
     (''check_exec_environment'', (tool_spec ''Check exec environment''
       ''Check exec environment.'')
       \<lparr>ts_read_only := True, ts_idempotent := True\<rparr>),
     (''get_default_cwd'', (tool_spec ''Get default cwd''
       ''Get default cwd.'')
       \<lparr>ts_read_only := True, ts_idempotent := True\<rparr>),
     (''set_default_cwd'', (tool_spec ''Set default cwd''
       ''Set default cwd.'')
       \<lparr>ts_idempotent := True\<rparr>)]"

definition TOOL_REGISTRY :: "(string \<times> ToolSpec) list" where
  "TOOL_REGISTRY =
     registry_service_tools @ registry_file_tools @ registry_git_tools @ registry_run_tools"

section \<open>The input schemas\<close>

definition EXEC_PROCESS_TIMEOUT_MAX_MS :: int where
  "EXEC_PROCESS_TIMEOUT_MAX_MS = 3600000"

definition JOB_STATUS_MAX_WAIT_MS :: int where
  "JOB_STATUS_MAX_WAIT_MS = 60000"

definition object_schema :: "obj \<Rightarrow> string list \<Rightarrow> json" where
  "object_schema properties required =
     JObj [(''type'', JStr ''object''), (''properties'', JObj properties),
       (''required'', JList (map JStr required)), (''additionalProperties'', JBool False)]"

text \<open>
  The local dictionaries \<^verbatim>\<open>string\<close>, \<^verbatim>\<open>integer\<close>, \<^verbatim>\<open>boolean\<close> and \<^verbatim>\<open>string_array\<close> of the source, with the
  keywords an entry adds to them (\<^verbatim>\<open>{**string, "minLength": 1}\<close>).
\<close>

definition string_schema :: "obj \<Rightarrow> json" where
  "string_schema extra = JObj ((''type'', JStr ''string'') # extra)"

definition integer_schema :: "obj \<Rightarrow> json" where
  "integer_schema extra = JObj ((''type'', JStr ''integer'') # extra)"

definition boolean_schema :: "obj \<Rightarrow> json" where
  "boolean_schema extra = JObj ((''type'', JStr ''boolean'') # extra)"

definition string_array_schema :: "obj \<Rightarrow> json" where
  "string_array_schema extra =
     JObj ((''type'', JStr ''array'') # (''items'', JObj [(''type'', JStr ''string'')]) # extra)"

definition schemas_service_tools :: "obj" where
  "schemas_service_tools =
    [(''server_info'', object_schema
       []
       []),
     (''health'', object_schema
       []
       []),
     (''workspace_info'', object_schema
       []
       []),
     (''service_status'', object_schema
       []
       []),
     (''service_doctor'', object_schema
       []
       []),
     (''host_cli_probe'', object_schema
       [(''path'', string_schema [(''minLength'', JInt 1)]),
        (''probe'', string_schema [(''enum'', JList [JStr ''path'', JStr ''version'', JStr ''help''])])]
       [''path'', ''probe'']),
     (''service_restart'', object_schema
       []
       []),
     (''service_update'', object_schema
       [(''source_project'', string_schema []),
        (''development_mode'', boolean_schema [(''default'', JBool False)])]
       []),
     (''list_projects'', object_schema
       []
       []),
     (''select_project'', object_schema
       [(''project'', string_schema [(''minLength'', JInt 1)])]
       [''project'']),
     (''current_project'', object_schema
       []
       []),
     (''local_state_snapshot'', object_schema
       []
       []),
     (''project_checks'', object_schema
       []
       []),
     (''run_project_check'', object_schema
       [(''check_id'', string_schema [(''minLength'', JInt 1)]),
        (''timeout_ms'', integer_schema [(''minimum'', JInt 1), (''default'', JInt 120000)]),
        (''yield_time_ms'', integer_schema [(''minimum'', JInt 0), (''maximum'', JInt 300000), (''default'', JInt 10000)]),
        (''max_output_bytes'', integer_schema [(''minimum'', JInt 1), (''maximum'', JInt 1048576), (''default'', JInt 262144)])]
       [''check_id'']),
     (''run_checks_for_diff'', object_schema
       [(''timeout_ms'', integer_schema [(''minimum'', JInt 1), (''default'', JInt 120000)]),
        (''max_output_bytes'', integer_schema [(''minimum'', JInt 1), (''maximum'', JInt 1048576), (''default'', JInt 262144)]),
        (''max_checks'', integer_schema [(''minimum'', JInt 1), (''maximum'', JInt 8), (''default'', JInt 4)])]
       [])]"

definition schemas_file_tools :: "obj" where
  "schemas_file_tools =
    [(''read_file'', object_schema
       [(''path'', string_schema [(''minLength'', JInt 1)]),
        (''start_line'', integer_schema [(''minimum'', JInt 1), (''default'', JInt 1)]),
        (''end_line'', integer_schema [(''minimum'', JInt 1)]),
        (''max_lines'', integer_schema [(''minimum'', JInt 1)]),
        (''max_bytes'', integer_schema [(''minimum'', JInt 1), (''maximum'', JInt 1048576), (''default'', JInt 131072)]),
        (''encoding'', string_schema [(''enum'', JList [JStr ''utf-8'']), (''default'', JStr ''utf-8'')])]
       [''path'']),
     (''read_files'', object_schema
       [(''paths'', JObj [(''type'', JStr ''array''), (''items'', JObj [(''oneOf'', JList [string_schema [(''minLength'', JInt 1)], JObj [(''type'', JStr ''object''), (''additionalProperties'', JBool False), (''properties'', JObj [(''path'', string_schema [(''minLength'', JInt 1)]), (''start_line'', integer_schema [(''minimum'', JInt 1)]), (''end_line'', integer_schema [(''minimum'', JInt 1)]), (''max_lines'', integer_schema [(''minimum'', JInt 1)]), (''max_bytes'', integer_schema [(''minimum'', JInt 1)])]), (''required'', JList [JStr ''path''])]])])]),
        (''per_file_max_bytes'', integer_schema [(''minimum'', JInt 1), (''maximum'', JInt 1048576), (''default'', JInt 131072)]),
        (''per_file_max_lines'', integer_schema [(''minimum'', JInt 1), (''maximum'', JInt 100000), (''default'', JInt DEFAULT_MAX_LINES)]),
        (''total_max_bytes'', integer_schema [(''minimum'', JInt 1), (''maximum'', JInt 4194304), (''default'', JInt 524288)])]
       [''paths'']),
     (''code_diagnostics'', object_schema
       [(''text'', string_schema [(''minLength'', JInt 1), (''maxLength'', JInt 1048576)]),
        (''provider'', string_schema [(''enum'', JList [JStr ''compiler-text'']), (''default'', JStr ''compiler-text'')]),
        (''source'', string_schema [(''maxLength'', JInt 128), (''default'', JStr ''compiler'')]),
        (''max_results'', integer_schema [(''minimum'', JInt 1), (''maximum'', JInt 2000), (''default'', JInt 200)])]
       [''text'']),
     (''list_dir'', object_schema
       [(''path'', string_schema [(''default'', JStr ''.'')]),
        (''recursive'', boolean_schema [(''default'', JBool False)]),
        (''max_depth'', integer_schema [(''minimum'', JInt 1), (''maximum'', JInt 20), (''default'', JInt 1)]),
        (''max_entries'', integer_schema [(''minimum'', JInt 1), (''maximum'', JInt 10000), (''default'', JInt 1000)]),
        (''include_hidden'', boolean_schema [(''default'', JBool False)]),
        (''include_ignored'', boolean_schema [(''default'', JBool False)]),
        (''sort'', string_schema [(''enum'', JList [JStr ''name'', JStr ''type'', JStr ''modified'']), (''default'', JStr ''name'')])]
       []),
     (''list_files'', object_schema
       [(''path'', string_schema [(''default'', JStr ''.'')]),
        (''patterns'', string_array_schema []),
        (''glob'', string_schema []),
        (''exclude_patterns'', string_array_schema []),
        (''include_hidden'', boolean_schema [(''default'', JBool False)]),
        (''include_ignored'', boolean_schema [(''default'', JBool False)]),
        (''max_results'', integer_schema [(''minimum'', JInt 1), (''maximum'', JInt 50000), (''default'', JInt 5000)]),
        (''sort'', string_schema [(''enum'', JList [JStr ''path'', JStr ''modified'']), (''default'', JStr ''path'')])]
       [])]"

definition schemas_search_tools :: "obj" where
  "schemas_search_tools =
    [(''search_text'', object_schema
       [(''path'', string_schema [(''default'', JStr ''.'')]),
        (''query'', string_schema [(''minLength'', JInt 1)]),
        (''is_regex'', boolean_schema [(''default'', JBool False)]),
        (''case_sensitive'', boolean_schema [(''default'', JBool False)]),
        (''glob'', string_schema []),
        (''context_lines'', integer_schema [(''minimum'', JInt 0), (''maximum'', JInt 10), (''default'', JInt 1)]),
        (''max_results'', integer_schema [(''minimum'', JInt 1), (''maximum'', JInt 1000), (''default'', JInt 100)])]
       [''query'']),
     (''inspect_symbol'', object_schema
       [(''symbol'', string_schema [(''minLength'', JInt 1), (''maxLength'', JInt 256)]),
        (''path'', string_schema [(''default'', JStr ''.'')]),
        (''context_lines'', integer_schema [(''minimum'', JInt 0), (''maximum'', JInt 20), (''default'', JInt 4)]),
        (''max_results'', integer_schema [(''minimum'', JInt 1), (''maximum'', JInt 100), (''default'', JInt 40)])]
       [''symbol'']),
     (''view_image'', object_schema
       [(''path'', string_schema [(''minLength'', JInt 1)]),
        (''max_bytes'', integer_schema [(''minimum'', JInt 1), (''maximum'', JInt 10485760), (''default'', JInt 5242880)]),
        (''max_width'', integer_schema [(''minimum'', JInt 1), (''maximum'', JInt 4096), (''default'', JInt 1024)]),
        (''max_height'', integer_schema [(''minimum'', JInt 1), (''maximum'', JInt 4096), (''default'', JInt 1024)]),
        (''auto_resize'', boolean_schema [(''default'', JBool True)])]
       [''path'']),
     (''preview_patch'', object_schema
       [(''patch'', string_schema [(''minLength'', JInt 1)])]
       [''patch'']),
     (''apply_patch'', object_schema
       [(''patch'', string_schema [(''minLength'', JInt 1)]),
        (''dry_run'', boolean_schema [])]
       [''patch''])]"

definition schemas_git_tools :: "obj" where
  "schemas_git_tools =
    [(''git_status'', object_schema
       []
       []),
     (''git_diff'', object_schema
       [(''path'', string_schema [(''default'', JStr ''.'')]),
        (''staged'', boolean_schema [(''default'', JBool False)]),
        (''context_lines'', integer_schema [(''minimum'', JInt 0), (''maximum'', JInt 10), (''default'', JInt 3)]),
        (''max_bytes'', integer_schema [(''minimum'', JInt 1), (''maximum'', JInt 1048576), (''default'', JInt 262144)])]
       []),
     (''git_log'', object_schema
       [(''path'', string_schema [(''default'', JStr ''.'')]),
        (''ref'', string_schema [(''default'', JStr ''HEAD'')]),
        (''max_count'', integer_schema [(''minimum'', JInt 1), (''maximum'', JInt 1000), (''default'', JInt 20)]),
        (''skip'', integer_schema [(''minimum'', JInt 0), (''default'', JInt 0)])]
       []),
     (''git_show'', object_schema
       [(''rev'', string_schema [(''minLength'', JInt 1)]),
        (''path'', string_schema [(''default'', JStr ''.'')]),
        (''context'', integer_schema [(''minimum'', JInt 0), (''maximum'', JInt 10), (''default'', JInt 3)]),
        (''max_bytes'', integer_schema [(''minimum'', JInt 1), (''maximum'', JInt 1048576), (''default'', JInt 262144)]),
        (''include_diff'', boolean_schema [(''default'', JBool True)])]
       [''rev'']),
     (''git_blame'', object_schema
       [(''path'', string_schema [(''minLength'', JInt 1)]),
        (''rev'', string_schema []),
        (''start_line'', integer_schema [(''minimum'', JInt 1), (''default'', JInt 1)]),
        (''end_line'', integer_schema [(''minimum'', JInt 1)]),
        (''max_lines'', integer_schema [(''minimum'', JInt 1), (''maximum'', JInt 1000), (''default'', JInt 200)])]
       [''path'']),
     (''git_create_branch'', object_schema
       [(''name'', string_schema [(''minLength'', JInt 1)])]
       [''name'']),
     (''git_switch_branch'', object_schema
       [(''name'', string_schema [(''minLength'', JInt 1)])]
       [''name'']),
     (''git_fetch'', object_schema
       [(''remote'', string_schema [(''default'', JStr ''origin'')])]
       []),
     (''git_pull'', object_schema
       [(''remote'', string_schema [(''default'', JStr ''origin'')])]
       []),
     (''git_merge_remote_branch'', object_schema
       [(''remote'', string_schema [(''default'', JStr ''origin'')]),
        (''branch'', string_schema [(''minLength'', JInt 1)])]
       [''branch'']),
     (''git_delete_branch'', object_schema
       [(''name'', string_schema [(''minLength'', JInt 1)])]
       [''name'']),
     (''git_delete_remote_branch'', object_schema
       [(''name'', string_schema [(''minLength'', JInt 1)]),
        (''remote'', string_schema [(''default'', JStr ''origin'')])]
       [''name'']),
     (''git_commit'', object_schema
       [(''message'', string_schema [(''minLength'', JInt 1), (''maxLength'', JInt 4096)]),
        (''paths'', string_array_schema [(''minItems'', JInt 1), (''maxItems'', JInt 100)])]
       [''message'', ''paths'']),
     (''git_push'', object_schema
       [(''remote'', string_schema [(''default'', JStr ''origin'')]),
        (''force'', boolean_schema [(''default'', JBool False)])]
       [])]"

definition schemas_task_tools :: "obj" where
  "schemas_task_tools =
    [(''wait_for_external'', object_schema
       [(''seconds'', integer_schema [(''minimum'', JInt 1), (''maximum'', JInt 3600), (''default'', JInt 30)]),
        (''timeout_seconds'', integer_schema [(''minimum'', JInt 1), (''maximum'', JInt 90), (''default'', JInt 90)])]
       []),
     (''continuation_checkpoint'', object_schema
       [(''action'', JObj [(''type'', JStr ''string''), (''enum'', JList [JStr ''read'', JStr ''write'', JStr ''clear'', JStr ''list'', JStr ''resume''])]),
        (''logical_task'', string_schema [(''maxLength'', JInt 256)]),
        (''branch'', string_schema [(''maxLength'', JInt 256)]),
        (''payload'', JObj [(''type'', JStr ''object'')]),
        (''limit'', integer_schema [(''minimum'', JInt 1), (''maximum'', JInt 64), (''default'', JInt 20)])]
       [''action'']),
     (''antigravity_delegate'', object_schema
       [(''prompt'', string_schema [(''minLength'', JInt 1), (''maxLength'', JInt 20000)]),
        (''mode'', JObj [(''type'', JStr ''string''), (''enum'', JList [JStr ''read_only'', JStr ''workspace_edit'', JStr ''verify'']), (''default'', JStr ''workspace_edit'')]),
        (''timeout_seconds'', integer_schema [(''minimum'', JInt 1), (''maximum'', JInt 3600), (''default'', JInt 900)]),
        (''retry_transient'', boolean_schema [(''default'', JBool False)])]
       [''prompt'']),
     (''list_tasks'', object_schema
       [(''category'', string_schema []),
        (''query'', string_schema [])]
       []),
     (''describe_task'', object_schema
       [(''task_id'', string_schema [(''minLength'', JInt 1)])]
       [''task_id'']),
     (''run_task'', object_schema
       [(''task_id'', string_schema [(''minLength'', JInt 1)]),
        (''args'', string_array_schema []),
        (''path'', string_schema []),
        (''cwd'', string_schema []),
        (''env'', JObj [(''type'', JStr ''object''), (''additionalProperties'', JObj [(''type'', JStr ''string'')])]),
        (''timeout_ms'', integer_schema [(''minimum'', JInt 1), (''default'', JInt 30000)]),
        (''yield_time_ms'', integer_schema [(''minimum'', JInt 0), (''maximum'', JInt 300000), (''default'', JInt 10000)]),
        (''max_output_bytes'', integer_schema [(''minimum'', JInt 1), (''maximum'', JInt 1048576), (''default'', JInt 262144)])]
       [''task_id''])]"

definition schemas_exec_tools :: "obj" where
  "schemas_exec_tools =
    [(''exec_command'', object_schema
       [(''cmd'', string_schema [(''minLength'', JInt 1)]),
        (''argv'', JObj [(''type'', JStr ''array''), (''items'', string_schema [(''minLength'', JInt 1), (''maxLength'', JInt 4096)]), (''minItems'', JInt 1), (''maxItems'', JInt 256), (''description'', JStr ''Structured argv execution without a shell. Provide exactly one of cmd or argv.'')]),
        (''cwd'', string_schema []),
        (''workdir'', string_schema []),
        (''timeout_ms'', integer_schema [(''minimum'', JInt 1), (''maximum'', JInt EXEC_PROCESS_TIMEOUT_MAX_MS), (''default'', JInt 30000)]),
        (''yield_time_ms'', integer_schema [(''minimum'', JInt 0), (''maximum'', JInt 300000), (''default'', JInt 10000)]),
        (''env'', JObj [(''type'', JStr ''object''), (''additionalProperties'', JObj [(''type'', JStr ''string'')])]),
        (''transaction_mode'', string_schema [(''enum'', JList [JStr ''discard'', JStr ''apply'']), (''default'', JStr ''discard''), (''description'', JStr ''Shell execution is non-transactional by default; apply is an explicit compatibility opt-in for bounded transactional execution.'')]),
        (''state_effect'', string_schema [(''enum'', JList [JStr ''none'', JStr ''selected_repo'']), (''default'', JStr ''none''), (''description'', JStr ''Default none leaves repository state unmanaged and supports job-backed long work; selected_repo runs synchronously, advances the selected repository checkpoint only after exit 0, and over HTTP is limited to bounded foreground mutation.'')]),
        (''max_bytes'', integer_schema [(''minimum'', JInt 1), (''maximum'', JInt 1048576), (''default'', JInt 262144)]),
        (''max_output_bytes'', integer_schema [(''minimum'', JInt 1), (''maximum'', JInt 1048576), (''default'', JInt 262144)]),
        (''tty'', boolean_schema [(''default'', JBool False)]),
        (''stdin'', string_schema []),
        (''verbosity'', integer_schema [(''minimum'', JInt 0), (''maximum'', JInt 2), (''default'', JInt 0)]),
        (''preview_bytes'', integer_schema [(''minimum'', JInt 1), (''maximum'', JInt 1048576), (''default'', JInt 2048)]),
        (''task_id'', string_schema [])]
       []),
     (''exec_argv'', object_schema
       [(''argv'', JObj [(''type'', JStr ''array''), (''items'', string_schema [(''minLength'', JInt 1), (''maxLength'', JInt 4096)]), (''minItems'', JInt 1), (''maxItems'', JInt 256)]),
        (''cwd'', string_schema []),
        (''workdir'', string_schema []),
        (''timeout_ms'', integer_schema [(''minimum'', JInt 1), (''maximum'', JInt EXEC_PROCESS_TIMEOUT_MAX_MS), (''default'', JInt 30000)]),
        (''yield_time_ms'', integer_schema [(''minimum'', JInt 0), (''maximum'', JInt 300000), (''default'', JInt 10000)]),
        (''env'', JObj [(''type'', JStr ''object''), (''additionalProperties'', JObj [(''type'', JStr ''string'')])]),
        (''transaction_mode'', string_schema [(''enum'', JList [JStr ''discard'', JStr ''apply'']), (''default'', JStr ''discard''), (''description'', JStr ''Shell execution is non-transactional by default; apply is an explicit compatibility opt-in for bounded transactional execution.'')]),
        (''state_effect'', string_schema [(''enum'', JList [JStr ''none'', JStr ''selected_repo'']), (''default'', JStr ''none''), (''description'', JStr ''Default none leaves repository state unmanaged and supports job-backed long work; selected_repo runs synchronously, advances the selected repository checkpoint only after exit 0, and over HTTP is limited to bounded foreground mutation.'')]),
        (''max_output_bytes'', integer_schema [(''minimum'', JInt 1), (''maximum'', JInt 1048576), (''default'', JInt 262144)]),
        (''tty'', boolean_schema [(''default'', JBool False)]),
        (''stdin'', string_schema []),
        (''verbosity'', integer_schema [(''minimum'', JInt 0), (''maximum'', JInt 2), (''default'', JInt 0)]),
        (''preview_bytes'', integer_schema [(''minimum'', JInt 1), (''maximum'', JInt 1048576), (''default'', JInt 2048)]),
        (''task_id'', string_schema [])]
       [''argv''])]"

definition schemas_job_tools :: "obj" where
  "schemas_job_tools =
    [(''job_status'', object_schema
       [(''session_id'', string_schema [(''minLength'', JInt 1)]),
        (''wait_ms'', integer_schema [(''minimum'', JInt 0), (''maximum'', JInt JOB_STATUS_MAX_WAIT_MS), (''default'', JInt 0)])]
       [''session_id'']),
     (''read_output'', object_schema
       [(''output_ref'', string_schema [(''minLength'', JInt 1)]),
        (''offset'', integer_schema [(''minimum'', JInt 0)]),
        (''limit'', integer_schema [(''minimum'', JInt 1), (''maximum'', JInt 1048576), (''default'', JInt 262144)])]
       [''output_ref'']),
     (''write_stdin'', object_schema
       [(''session_id'', string_schema [(''minLength'', JInt 1)]),
        (''chars'', string_schema []),
        (''yield_time_ms'', integer_schema [(''minimum'', JInt 0), (''maximum'', JInt 300000), (''default'', JInt 10000)]),
        (''max_output_bytes'', integer_schema [(''minimum'', JInt 1), (''maximum'', JInt 1048576), (''default'', JInt 262144)])]
       [''session_id'']),
     (''kill_session'', object_schema
       [(''session_id'', string_schema [(''minLength'', JInt 1)]),
        (''signal'', string_schema [(''default'', JStr ''SIGTERM'')]),
        (''wait_ms'', integer_schema [(''minimum'', JInt 0), (''maximum'', JInt 300000), (''default'', JInt 5000)]),
        (''kill_wait_ms'', integer_schema [(''minimum'', JInt 0), (''maximum'', JInt 300000), (''default'', JInt 2000)])]
       [''session_id'']),
     (''job_output'', object_schema
       [(''session_id'', string_schema [(''minLength'', JInt 1)])]
       [''session_id'']),
     (''job_input'', object_schema
       [(''session_id'', string_schema [(''minLength'', JInt 1)]),
        (''input'', string_schema [(''minLength'', JInt 1)])]
       [''session_id'', ''input'']),
     (''job_cancel'', object_schema
       [(''session_id'', string_schema [(''minLength'', JInt 1)])]
       [''session_id'']),
     (''check_exec_environment'', object_schema
       []
       []),
     (''get_default_cwd'', object_schema
       []
       []),
     (''set_default_cwd'', object_schema
       [(''path'', string_schema [(''minLength'', JInt 1)])]
       [''path''])]"

definition input_schemas :: obj where
  "input_schemas =
     schemas_service_tools @ schemas_file_tools @ schemas_search_tools @ schemas_git_tools @
     schemas_task_tools @ schemas_exec_tools @ schemas_job_tools"

section \<open>What the catalogue is used for\<close>

text \<open>
  \<open>validate_arguments\<close>: a violation becomes the protocol error \<^verbatim>\<open>-32602\<close>; the message is the prose
  of the violation.  The dictionary lookup \<^verbatim>\<open>input_schemas()[tool_name]\<close> raises for another name.
\<close>

definition violation_message :: "violation \<Rightarrow> string" where
  "violation_message w = (case w of
     Must_be path t \<Rightarrow> path @ '' must be '' @ t @ ''.''
   | Shorter_than path n \<Rightarrow> path @ '' is shorter than '' @ int_str n @ ''.''
   | Not_one_of path _ \<Rightarrow> path @ '' must be one of the enumerated values.''
   | Below path b \<Rightarrow> path @ '' must be >= '' @ (case b of JInt n \<Rightarrow> int_str n | _ \<Rightarrow> []) @ ''.''
   | Above path b \<Rightarrow> path @ '' must be <= '' @ (case b of JInt n \<Rightarrow> int_str n | _ \<Rightarrow> []) @ ''.''
   | Is_required path \<Rightarrow> path @ '' is required.''
   | Not_recognized path \<Rightarrow> path @ '' is not a recognized argument.''
   | Schema_TypeError \<Rightarrow> [])"

definition validate_arguments :: "string \<Rightarrow> obj \<Rightarrow> rpc_exn + unit" where
  "validate_arguments tool_name args =
     (case map_of input_schemas tool_name of
        None \<Rightarrow> Inl (OtherExn ''KeyError'')
      | Some sch \<Rightarrow>
          (case validate_schema_value (JObj args) sch ''arguments'' of
             None \<Rightarrow> Inr ()
           | Some Schema_TypeError \<Rightarrow> Inl (OtherExn ''TypeError'')
           | Some w \<Rightarrow> Inl (JsonRpcError (-32602) (violation_message w)
               (Some (JObj [(''reason'', JStr ''invalid_arguments''), (''code'', JStr ''INVALID_ARGUMENT'')])))))"

definition tool_annotations :: "ToolSpec \<Rightarrow> bool \<Rightarrow> obj" where
  "tool_annotations spec fake_readonly =
     (if fake_readonly then
        [(''title'', JStr (ts_title spec)), (''readOnlyHint'', JBool True), (''destructiveHint'', JBool False),
         (''idempotentHint'', JBool (ts_idempotent spec)), (''openWorldHint'', JBool False)]
      else
        [(''title'', JStr (ts_title spec)), (''readOnlyHint'', JBool (ts_read_only spec)),
         (''destructiveHint'', JBool (ts_destructive spec)), (''idempotentHint'', JBool (ts_idempotent spec)),
         (''openWorldHint'', JBool (ts_open_world spec))])"

definition tool_output_schema :: json where
  "tool_output_schema =
     JObj [(''type'', JStr ''object''),
       (''properties'', JObj [
          (''ok'', JObj [(''type'', JStr ''boolean'')]),
          (''error'', JObj [(''type'', JStr ''object''),
             (''properties'', JObj [
                (''code'', JObj [(''type'', JStr ''string'')]),
                (''message'', JObj [(''type'', JStr ''string'')]),
                (''category'', JObj [(''type'', JStr ''string'')]),
                (''retryable'', JObj [(''type'', JStr ''boolean'')]),
                (''details'', JObj [(''type'', JStr ''object''), (''additionalProperties'', JBool True)])]),
             (''required'', JList (map JStr [''code'', ''message'', ''category'', ''retryable'', ''details''])),
             (''additionalProperties'', JBool True)])]),
       (''required'', JList [JStr ''ok'']),
       (''additionalProperties'', JBool True)]"

definition context_id_schema :: json where
  "context_id_schema =
     JObj [(''type'', JStr ''string''), (''minLength'', JInt 16),
       (''description'', JStr (''Opaque DevMCP logical-context capability. Reuse the context_id from a prior '' @
          ''tool result when continuing across a new MCP HTTP session.''))]"

definition task_scope_id_schema :: json where
  "task_scope_id_schema =
     JObj [(''type'', JStr ''string''), (''minLength'', JInt 8),
       (''description'', JStr (''Opaque logical task scope used to correlate state-management ownership across '' @
          ''operations that belong to the same coding task.''))]"

text \<open>\<^verbatim>\<open>{**schema, "properties": {**properties, "context_id": ..., "task_scope_id": ...}}\<close>.\<close>

definition published_schema :: "obj \<Rightarrow> obj" where
  "published_schema sch =
     dict_set ''properties''
       (JObj (dict_set ''task_scope_id'' task_scope_id_schema
                (dict_set ''context_id'' context_id_schema (props_of sch)))) sch"

definition tool_definition :: "string \<Rightarrow> bool \<Rightarrow> json option" where
  "tool_definition name fake_readonly =
     (case (map_of input_schemas name, map_of TOOL_REGISTRY name) of
        (Some (JObj sch), Some spec) \<Rightarrow>
          (let annotations = tool_annotations spec fake_readonly in
           Some (JObj [(''name'', JStr name), (''title'', obj_get annotations ''title''),
             (''description'', JStr (ts_description spec)), (''inputSchema'', JObj (published_schema sch)),
             (''outputSchema'', tool_output_schema), (''annotations'', JObj annotations)]))
      | _ \<Rightarrow> None)"

text \<open>
  The names a runtime exposes: the entries of the registry without a gate, and those whose gate
  (\<^verbatim>\<open>getattr(self, spec.gated_by)\<close>, the parameter \<open>attr\<close>) is true.
\<close>

definition exposed_tool_names :: "(string \<Rightarrow> bool) \<Rightarrow> string list" where
  "exposed_tool_names attr =
     map fst (filter (\<lambda>(_, spec). case ts_gated_by spec of None \<Rightarrow> True | Some g \<Rightarrow> attr g) TOOL_REGISTRY)"

definition list_tools :: "(string \<Rightarrow> bool) \<Rightarrow> bool \<Rightarrow> obj option" where
  "list_tools attr fake_readonly =
     (let ds = map (\<lambda>name. tool_definition name fake_readonly) (exposed_tool_names attr) in
      if None \<in> set ds then None else Some [(''tools'', JList (map the ds))])"

text \<open>The lists of the server card: always from the real annotations.\<close>

definition read_only_hint :: "string \<Rightarrow> bool" where
  "read_only_hint name =
     (case map_of TOOL_REGISTRY name of
        Some spec \<Rightarrow> obj_get (tool_annotations spec False) ''readOnlyHint'' = JBool True | None \<Rightarrow> False)"

definition server_card_tools :: "(string \<Rightarrow> bool) \<Rightarrow> bool \<Rightarrow> obj" where
  "server_card_tools attr fake_readonly =
     (let names = exposed_tool_names attr;
          read_only = filter read_only_hint names;
          mutating = filter (\<lambda>n. \<not> read_only_hint n) names in
      [(''count'', JInt (int (length names))), (''names'', JList (map JStr names)),
       (''readOnlyHintTrue'', JList (map JStr read_only)),
       (''readOnlyHintFalse'', JList (map JStr mutating)),
       (''annotationOverride'', if fake_readonly then JStr ''fake_readonly'' else JNull)])"

section \<open>The tables are complete and well formed\<close>

lemmas schema_tables =
  schemas_service_tools_def schemas_file_tools_def schemas_search_tools_def schemas_git_tools_def
  schemas_task_tools_def schemas_exec_tools_def schemas_job_tools_def

lemma registry_names_distinct: "distinct (map fst TOOL_REGISTRY)"
  by code_simp

lemma schema_names: "map fst input_schemas = map fst TOOL_REGISTRY"
  by code_simp

lemma registry_length: "length TOOL_REGISTRY = 57"
  by code_simp

lemma registry_no_gate: "list_all (\<lambda>(_, spec). ts_gated_by spec = None) TOOL_REGISTRY"
  by code_simp

lemma input_schemas_wf: "list_all (\<lambda>(_, s). wf_schema s) input_schemas"
  by code_simp

lemma input_schemas_closed:
  "list_all (\<lambda>(_, s). case s of JObj sch \<Rightarrow> additional_of sch = JBool False | _ \<Rightarrow> False) input_schemas"
  by code_simp

text \<open>The tools whose schema uses a keyword the validator does not read.\<close>

definition unenforced_tools :: "string list" where
  "unenforced_tools = map fst (filter (\<lambda>(_, s). \<not> enforced s) input_schemas)"

lemma unenforced_tools_are:
  "unenforced_tools =
     [''read_files'', ''code_diagnostics'', ''inspect_symbol'', ''git_commit'', ''continuation_checkpoint'',
      ''antigravity_delegate'', ''exec_command'', ''exec_argv'']"
  by code_simp

lemma input_schema_facts:
  assumes "map_of input_schemas name = Some s"
  obtains sch where "s = JObj sch" "wf_schema (JObj sch)" "additional_of sch = JBool False"
proof -
  from assms have "(name, s) \<in> set input_schemas" by (rule map_of_SomeD)
  with input_schemas_wf input_schemas_closed
  have "wf_schema s" "case s of JObj sch \<Rightarrow> additional_of sch = JBool False | _ \<Rightarrow> False"
    unfolding list_all_iff by blast+
  then show ?thesis by (cases s) (auto intro: that)
qed

lemma input_schema_enforced:
  assumes "map_of input_schemas name = Some s" "name \<notin> set unenforced_tools"
  shows "enforced s"
  using map_of_SomeD [OF assms(1)] assms(2) by (force simp: unenforced_tools_def)

lemma validate_arguments_Inr:
  "validate_arguments name args = Inr () \<longleftrightarrow>
     (\<exists>s. map_of input_schemas name = Some s \<and> validate_schema_value (JObj args) s ''arguments'' = None)"
  by (simp add: validate_arguments_def split: option.splits violation.splits)

lemma validate_arguments_Inl:
  assumes "map_of input_schemas name = Some s" "validate_arguments name args = Inl e"
  shows "\<exists>msg. e = JsonRpcError (-32602) msg
    (Some (JObj [(''reason'', JStr ''invalid_arguments''), (''code'', JStr ''INVALID_ARGUMENT'')]))"
proof -
  have "wf_schema s" using input_schema_facts [OF assms(1)] by blast
  then have "validate_schema_value (JObj args) s ''arguments'' \<noteq> Some Schema_TypeError" by (rule validate_no_error)
  with assms show ?thesis
    by (auto simp: validate_arguments_def split: option.splits violation.splits)
qed

lemma map_of_Some_iff_key: "(\<exists>v. map_of d k = Some v) \<longleftrightarrow> k \<in> set (map fst d)"
  by (metis map_of_eq_None_iff not_Some_eq set_map)

lemma registered_schema:
  "(\<exists>s. map_of input_schemas name = Some s) \<longleftrightarrow> (\<exists>spec. map_of TOOL_REGISTRY name = Some spec)"
  by (simp only: map_of_Some_iff_key schema_names)

lemma exposed_all: "exposed_tool_names attr = map fst TOOL_REGISTRY"
proof -
  have "filter (\<lambda>(_, spec). case ts_gated_by spec of None \<Rightarrow> True | Some g \<Rightarrow> attr g) TOOL_REGISTRY = TOOL_REGISTRY"
    using registry_no_gate by (intro filter_True) (auto simp: list_all_iff)
  then show ?thesis by (simp add: exposed_tool_names_def)
qed

lemma annotations_title: "obj_get (tool_annotations spec fake) ''title'' = JStr (ts_title spec)"
  by (simp add: tool_annotations_def obj_get_def)

lemma tool_definition_registered:
  "map_of input_schemas name = Some (JObj sch) \<Longrightarrow> map_of TOOL_REGISTRY name = Some spec \<Longrightarrow>
   tool_definition name fake =
     Some (JObj [(''name'', JStr name), (''title'', JStr (ts_title spec)),
       (''description'', JStr (ts_description spec)), (''inputSchema'', JObj (published_schema sch)),
       (''outputSchema'', tool_output_schema), (''annotations'', JObj (tool_annotations spec fake))])"
  by (simp only: tool_definition_def Let_def prod.case option.case json.case annotations_title)

lemma registered_name:
  assumes "name \<in> set (map fst TOOL_REGISTRY)"
  obtains sch spec where "map_of input_schemas name = Some (JObj sch)" "map_of TOOL_REGISTRY name = Some spec"
proof -
  from assms obtain spec where spec: "map_of TOOL_REGISTRY name = Some spec"
    using map_of_Some_iff_key by metis
  then obtain s where s: "map_of input_schemas name = Some s" using registered_schema by metis
  from input_schema_facts [OF s] obtain sch where "s = JObj sch" by blast
  with s spec that show ?thesis by blast
qed

text \<open>No tool declares one of the two fields the published schema adds, or requires them.\<close>

definition context_keys :: "string list" where
  "context_keys = [''context_id'', ''task_scope_id'']"

lemma context_keys_free:
  "list_all (\<lambda>(_, s). case s of
      JObj sch \<Rightarrow> list_all (\<lambda>k. k \<notin> set (map fst (props_of sch)) \<and> JStr k \<notin> set (required_of sch)) context_keys
    | _ \<Rightarrow> False) input_schemas"
  by code_simp

lemma registry_destructive_not_read_only:
  "list_all (\<lambda>(_, spec). \<not> (ts_read_only spec \<and> ts_destructive spec)) TOOL_REGISTRY"
  by code_simp

lemma dict_set_other: "k' \<noteq> k \<Longrightarrow> map_of (dict_set k v d) k' = map_of d k'"
  by simp

lemma published_keywords:
  "k \<noteq> ''properties'' \<Longrightarrow> map_of (published_schema sch) k = map_of sch k"
  "props_of (published_schema sch) =
     dict_set ''task_scope_id'' task_scope_id_schema (dict_set ''context_id'' context_id_schema (props_of sch))"
  by (simp_all add: published_schema_def props_of_def [of "dict_set _ _ _"])

lemma published_obj_get: "k \<noteq> ''properties'' \<Longrightarrow> obj_get (published_schema sch) k = obj_get sch k"
  by (simp add: obj_get_def published_keywords(1))

lemma published_same:
  "check_type v (published_schema sch) path = check_type v sch path"
  "check_scalar v (published_schema sch) path = check_scalar v sch path"
  "required_of (published_schema sch) = required_of sch"
  "additional_of (published_schema sch) = additional_of sch"
  unfolding check_type_def check_scalar_def check_string_def check_enum_def check_minimum_def check_maximum_def
    required_of_def additional_of_def
  by (simp_all add: published_obj_get published_keywords(1) cong: json.case_cong option.case_cong if_cong)

lemma schema_type_matches_objects: "schema_type_matches (JObj a) t = schema_type_matches (JObj b) t"
  by (induction "JObj a" t rule: schema_type_matches.induct) (auto simp: list_ex_iff type_word_matches_def)

text \<open>Dropping members keeps a loop over the members without a violation.\<close>

lemma validate_members_drop:
  assumes "validate_members ob ps' add path = None"
    and "\<And>k. k \<notin> set ks \<Longrightarrow> map_of ps' k = map_of ps k"
  shows "validate_members (filter (\<lambda>(k, _). k \<notin> set ks) ob) ps add path = None"
  using assms(1)
proof (induction ob)
  case (Cons e ob)
  obtain k v where e: "e = (k, v)" by (cases e)
  show ?case
  proof (cases "k \<in> set ks")
    case True
    with Cons e show ?thesis by (simp add: Let_def)
  next
    case False
    from assms(2) [OF this] Cons e False show ?thesis
      by (simp add: Let_def split: option.splits json.splits bool.splits)
  qed
qed simp

definition drop_context :: "obj \<Rightarrow> obj" where
  "drop_context args = filter (\<lambda>(k, _). k \<notin> set context_keys) args"

lemma published_accepted:
  assumes "map_of input_schemas name = Some (JObj sch)"
    and "validate_schema_value (JObj args) (JObj (published_schema sch)) path = None"
  shows "validate_schema_value (JObj (drop_context args)) (JObj sch) path = None"
proof -
  have free: "\<forall>k \<in> set context_keys. JStr k \<notin> set (required_of sch)"
    using context_keys_free map_of_SomeD [OF assms(1)] by (auto simp: list_all_iff)
  have req: "set (required_of sch) \<subseteq> JStr ` fst ` set args"
    using assms(2) by (simp add: published_same check_required_None)
  have "set (required_of sch) \<subseteq> JStr ` fst ` set (drop_context args)"
  proof
    fix x assume x: "x \<in> set (required_of sch)"
    with req obtain k v where kv: "x = JStr k" "(k, v) \<in> set args" by fastforce
    with free x have "(k, v) \<in> set (drop_context args)" by (auto simp: drop_context_def)
    with kv(1) show "x \<in> JStr ` fst ` set (drop_context args)" by force
  qed
  moreover have "validate_members (drop_context args) (props_of sch) (additional_of sch) path = None"
    unfolding drop_context_def
    by (rule validate_members_drop [where ps' = "props_of (published_schema sch)"])
      (use assms(2) in \<open>simp_all add: published_same published_keywords context_keys_def\<close>)
  moreover have "check_type (JObj args) sch path = None" using assms(2) by (simp add: published_same)
  then have "check_type (JObj (drop_context args)) sch path = None"
    using schema_type_matches_objects [of "drop_context args" _ args] by (simp add: check_type_def Let_def split: if_splits)
  moreover have "check_scalar (JObj (drop_context args)) sch path = None" by (simp add: check_scalar_def)
  ultimately show ?thesis by (simp add: check_required_None)
qed

lemma read_only_hint_annotations:
  "map_of TOOL_REGISTRY name = Some spec \<Longrightarrow> read_only_hint name \<longleftrightarrow> ts_read_only spec"
  by (simp add: read_only_hint_def tool_annotations_def obj_get_def)

lemma annotations_other:
  "k \<notin> {''readOnlyHint'', ''destructiveHint'', ''openWorldHint''} \<Longrightarrow>
   obj_get (tool_annotations spec fake) k = obj_get (tool_annotations spec False) k"
  by (simp add: tool_annotations_def obj_get_def)

section \<open>Properties\<close>

text \<open>
  C27: \<open>validate_arguments\<close> decides the tools' schemas.  For every tool, arguments that are valid in
  the meaning JSON Schema gives to the tool's schema, with no integer written with a fraction among
  them, are accepted.  For every tool but the eight whose schemas use \<^verbatim>\<open>maxLength\<close>, \<^verbatim>\<open>minItems\<close>,
  \<^verbatim>\<open>maxItems\<close> or \<^verbatim>\<open>oneOf\<close>, keywords the validator never reads, nothing but valid arguments is accepted.
\<close>

theorem validate_arguments_exact:
  assumes "map_of input_schemas name = Some sch"
  shows "(plain_numbers (JObj args) \<and> schema_valid (JObj args) sch \<longrightarrow> validate_arguments name args = Inr ()) \<and>
    (name \<notin> {''read_files'', ''code_diagnostics'', ''inspect_symbol'', ''git_commit'',
               ''continuation_checkpoint'', ''antigravity_delegate'', ''exec_command'', ''exec_argv''} \<longrightarrow>
     validate_arguments name args = Inr () \<longrightarrow> schema_valid (JObj args) sch)"
proof -
  obtain sc where sc: "sch = JObj sc" "wf_schema (JObj sc)" using input_schema_facts [OF assms] by blast
  have valid: "validate_arguments name args = Inr ()" if "plain_numbers (JObj args) \<and> schema_valid (JObj args) sch"
    using schema_valid_accepted [OF sc(2)] that assms unfolding sc(1) validate_arguments_Inr by blast
  have "schema_valid (JObj args) sch"
    if "name \<notin> set unenforced_tools" "validate_arguments name args = Inr ()"
    using that(2) enforced_accepted_valid [OF input_schema_enforced [OF assms that(1)]] assms
    unfolding validate_arguments_Inr by (metis option.inject)
  note exact = this [unfolded unenforced_tools_are list.set]
  show ?thesis by (intro conjI impI) (erule valid, erule (1) exact)
qed

theorem validate_arguments_exact_witness:
  "validate_arguments ''read_file'' [(''path'', JStr ''a.py''), (''start_line'', JInt 3)] = Inr () \<and>
   schema_valid (JObj [(''path'', JStr ''a.py''), (''start_line'', JInt 3)]) (the (map_of input_schemas ''read_file'')) \<and>
   validate_arguments ''read_file'' [(''path'', JStr ''a.py''), (''start_line'', JInt 0)] \<noteq> Inr ()"
proof -
  have s: "map_of input_schemas ''read_file'' = Some (the (map_of input_schemas ''read_file''))" by code_simp
  have a: "plain_numbers (JObj [(''path'', JStr ''a.py''), (''start_line'', JInt 3)])"
    "schema_valid (JObj [(''path'', JStr ''a.py''), (''start_line'', JInt 3)]) (the (map_of input_schemas ''read_file''))"
    by (code_simp, code_simp)
  have b: "validate_arguments ''read_file'' [(''path'', JStr ''a.py''), (''start_line'', JInt 0)] \<noteq> Inr ()" by code_simp
  from validate_arguments_exact [OF s, of "[(''path'', JStr ''a.py''), (''start_line'', JInt 3)]"] a b
  show ?thesis by simp
qed

text \<open>The validator refuses an integer that is written with a fraction, which its schema allows.\<close>

lemma written_fraction_refused:
  "schema_valid (JFloat 3) (JObj [(''type'', JStr ''integer'')])"
  "validate_schema_value (JFloat 3) (JObj [(''type'', JStr ''integer'')]) path \<noteq> None"
  by (simp_all add: shallow_ok_def type_ok_def json_types_def enum_ok_def string_ok_def number_ok_def length_ok_def
      required_ok_def children_def alternatives_def at_least_def at_most_def num_of_def obj_get_def
      check_type_def type_word_matches_def)

text \<open>
  The validator accepts calls the published schemas rule out: a commit of no path, and an empty
  argument vector.
\<close>

lemma unenforced_accepted:
  "validate_arguments ''git_commit'' [(''message'', JStr ''m''), (''paths'', JList [])] = Inr ()"
  "\<not> schema_valid (JObj [(''message'', JStr ''m''), (''paths'', JList [])]) (the (map_of input_schemas ''git_commit''))"
  by code_simp+

text \<open>
  Accepted arguments are shaped for their handler: the tool is registered, every argument is
  one its schema declares and every argument the schema requires is present.  All 57 schemas are
  closed, so this covers every tool.
\<close>

theorem validate_arguments_shape:
  assumes "validate_arguments name args = Inr ()"
  shows "name \<in> set (map fst TOOL_REGISTRY) \<and>
    (\<exists>sch. map_of input_schemas name = Some (JObj sch) \<and>
       fst ` set args \<subseteq> fst ` set (props_of sch) \<and> set (required_of sch) \<subseteq> JStr ` fst ` set args)"
proof -
  from assms obtain s where s: "map_of input_schemas name = Some s"
    and acc: "validate_schema_value (JObj args) s ''arguments'' = None" by (auto simp: validate_arguments_Inr)
  obtain sch where sch: "s = JObj sch" "additional_of sch = JBool False" using input_schema_facts [OF s] by blast
  have "name \<in> set (map fst TOOL_REGISTRY)" using s registered_schema map_of_Some_iff_key by metis
  with s sch accepted_object [OF acc [unfolded sch(1)]] show ?thesis by blast
qed

theorem validate_arguments_shape_witness:
  "\<exists>sch. map_of input_schemas ''git_push'' = Some (JObj sch) \<and>
     fst ` set [(''remote'', JStr ''origin'')] \<subseteq> fst ` set (props_of sch)"
proof -
  have "validate_arguments ''git_push'' [(''remote'', JStr ''origin'')] = Inr ()" by code_simp
  from validate_arguments_shape [OF this] show ?thesis by blast
qed

text \<open>
  What \<^verbatim>\<open>tools/list\<close> publishes is what \<^verbatim>\<open>tools/call\<close> accepts.  For every tool, a call whose
  arguments satisfy the published input schema passes \<open>validate_arguments\<close> once the two context
  fields are popped, which the runtime does before it validates.
\<close>

theorem published_call_accepted:
  assumes "map_of input_schemas name = Some (JObj sch)"
    and "validate_schema_value (JObj args) (JObj (published_schema sch)) path = None"
  shows "validate_arguments name (drop_context args) = Inr ()"
proof -
  have "validate_schema_value (JObj (drop_context args)) (JObj sch) path = None"
    by (rule published_accepted [OF assms])
  then have "validate_schema_value (JObj (drop_context args)) (JObj sch) ''arguments'' = None"
    by (rule validate_path)
  with assms(1) show ?thesis unfolding validate_arguments_Inr by blast
qed

theorem published_call_accepted_witness:
  "validate_arguments ''set_default_cwd'' (drop_context [(''path'', JStr ''src''), (''context_id'', JStr ''0123456789abcdef'')]) = Inr ()"
proof -
  have s: "map_of input_schemas ''set_default_cwd'' =
      Some (JObj (case the (map_of input_schemas ''set_default_cwd'') of JObj o1 \<Rightarrow> o1 | _ \<Rightarrow> []))" by code_simp
  show ?thesis by (rule published_call_accepted [OF s, of _ "''arguments''"]) code_simp
qed

text \<open>
  The tool list is total and the same for every configuration: each of the 57 tools of the
  registry is listed, in its order, with its definition, whatever attributes the runtime has.  In
  particular no attribute of the runtime removes \<^verbatim>\<open>view_image\<close>.
\<close>

theorem list_tools_total:
  "exposed_tool_names attr = map fst TOOL_REGISTRY \<and> length (exposed_tool_names attr) = 57 \<and>
   ''view_image'' \<in> set (exposed_tool_names attr) \<and>
   (\<exists>ds. list_tools attr fake = Some [(''tools'', JList ds)] \<and>
      map Some ds = map (\<lambda>name. tool_definition name fake) (map fst TOOL_REGISTRY))"
proof -
  have def: "tool_definition name fake \<noteq> None" if "name \<in> set (map fst TOOL_REGISTRY)" for name
    using registered_name [OF that] tool_definition_registered by (metis option.distinct(1))
  then have "None \<notin> set (map (\<lambda>name. tool_definition name fake) (map fst TOOL_REGISTRY))" by force
  moreover have "map Some (map the xs) = xs" if "None \<notin> set xs" for xs :: "json option list"
    using that by (induction xs) auto
  moreover have "''view_image'' \<in> set (map fst TOOL_REGISTRY)" by code_simp
  ultimately show ?thesis using registry_length
    by (simp add: exposed_all list_tools_def Let_def del: map_map)
qed

text \<open>
  The annotation override does not reach the server card.  Whatever \<open>fake_readonly\<close> is, the
  card's two lists split the exposed tools by the registry's own \<^verbatim>\<open>read_only\<close>, no tool marked
  destructive is in the read-only list, and the override is reported; the override itself changes
  only the three hints in \<^verbatim>\<open>tools/list\<close>, never a title or the idempotence hint.
\<close>

theorem server_card_truthful:
  "obj_get (server_card_tools attr fake) ''readOnlyHintTrue'' =
     JList (map JStr [n \<leftarrow> map fst TOOL_REGISTRY. ts_read_only (the (map_of TOOL_REGISTRY n))]) \<and>
   obj_get (server_card_tools attr fake) ''readOnlyHintFalse'' =
     JList (map JStr [n \<leftarrow> map fst TOOL_REGISTRY. \<not> ts_read_only (the (map_of TOOL_REGISTRY n))]) \<and>
   (\<nexists>name spec. map_of TOOL_REGISTRY name = Some spec \<and> ts_destructive spec \<and> read_only_hint name) \<and>
   (obj_get (server_card_tools attr fake) ''annotationOverride'' = JNull \<longleftrightarrow> \<not> fake) \<and>
   (\<nexists>spec k. k \<notin> {''readOnlyHint'', ''destructiveHint'', ''openWorldHint''} \<and>
      obj_get (tool_annotations spec fake) k \<noteq> obj_get (tool_annotations spec False) k)"
proof -
  have hint: "read_only_hint n \<longleftrightarrow> ts_read_only (the (map_of TOOL_REGISTRY n))"
    if "n \<in> set (map fst TOOL_REGISTRY)" for n
    using registered_name [OF that] by (metis read_only_hint_annotations option.sel)
  have ro: "filter read_only_hint (map fst TOOL_REGISTRY) =
      [n \<leftarrow> map fst TOOL_REGISTRY. ts_read_only (the (map_of TOOL_REGISTRY n))]"
    and mu: "filter (\<lambda>n. \<not> read_only_hint n) (map fst TOOL_REGISTRY) =
      [n \<leftarrow> map fst TOOL_REGISTRY. \<not> ts_read_only (the (map_of TOOL_REGISTRY n))]"
    using hint by (auto intro: filter_cong)
  have "\<not> (map_of TOOL_REGISTRY name = Some spec \<and> ts_destructive spec \<and> read_only_hint name)" for name spec
    using registry_destructive_not_read_only map_of_SomeD [of TOOL_REGISTRY name spec]
    by (auto simp: list_all_iff read_only_hint_annotations)
  moreover have "\<nexists>spec k. k \<notin> {''readOnlyHint'', ''destructiveHint'', ''openWorldHint''} \<and>
      obj_get (tool_annotations spec fake) k \<noteq> obj_get (tool_annotations spec False) k"
    using annotations_other by blast
  ultimately show ?thesis
    unfolding server_card_tools_def exposed_all Let_def ro mu
    by (intro conjI) (simp add: obj_get_def, simp add: obj_get_def, blast, simp add: obj_get_def, assumption)
qed

end
