(* ===== verification/Images.thy ===== *)
theory Images
  imports Workspace Arguments OAuth Processes
begin

text \<open>
  The image tool (\<^verbatim>\<open>server.py\<close>: \<open>identify_image\<close>, \<open>identify_jpeg_size\<close>, \<open>identify_webp_size\<close>,
  \<open>should_resize_image\<close>, \<open>resize_image_bytes\<close>, \<open>view_image\<close>).

  \<^item> A file is a list of bytes (8-bit words); \<^verbatim>\<open>data[i:j]\<close> is \<open>py_slice\<close>, which like Python's never fails,
    and \<^verbatim>\<open>int.from_bytes\<close> is \<open>from_big\<close> or \<open>from_little\<close>.
  \<^item> The Pillow package and the table of \<^verbatim>\<open>mimetypes\<close> are parameters: a record of Pillow's operations,
    each of which may raise (\<open>None\<close>), and the guess for a file name.
\<close>

section \<open>Bytes\<close>

definition py_slice :: "'a list \<Rightarrow> nat \<Rightarrow> nat \<Rightarrow> 'a list" where
  "py_slice xs i j = take (j - i) (drop i xs)"

definition from_big :: "bytes \<Rightarrow> nat" where
  "from_big bs = foldl (\<lambda>n b. n * 256 + unat b) 0 bs"

definition from_little :: "bytes \<Rightarrow> nat" where
  "from_little bs = from_big (rev bs)"

section \<open>Image headers\<close>

definition skip_ff :: "bytes \<Rightarrow> nat \<Rightarrow> nat" where
  "skip_ff data index = index + length (takeWhile (\<lambda>b. b = 0xFF) (drop index data))"

definition sof_markers :: "nat list" where
  "sof_markers = [0xC0, 0xC1, 0xC2, 0xC3, 0xC5, 0xC6, 0xC7, 0xC9, 0xCA, 0xCB, 0xCD, 0xCE, 0xCF]"

lemma skip_ff_ge: "index \<le> skip_ff data index"
  by (simp add: skip_ff_def)

text \<open>The loop of \<open>identify_jpeg_size\<close>, at \<open>index\<close>.\<close>

function jpeg_scan :: "bytes \<Rightarrow> nat \<Rightarrow> (nat \<times> nat) option" where
  "jpeg_scan data index =
     (if \<not> index + 9 < length data then None
      else let i = skip_ff data index in
        if length data \<le> i then None
        else let marker = unat (data ! i); i = i + 1 in
          if marker \<in> {0xD8, 0xD9} then jpeg_scan data i
          else if marker = 0xDA \<or> length data < i + 2 then None
          else let segment_length = from_big (py_slice data i (i + 2)) in
            if segment_length < 2 \<or> length data < i + segment_length then None
            else if marker \<in> set sof_markers \<and> 7 \<le> segment_length then
              Some (from_big (py_slice data (i + 5) (i + 7)), from_big (py_slice data (i + 3) (i + 5)))
            else jpeg_scan data (i + segment_length))"
  by pat_completeness auto
termination
proof (relation "measure (\<lambda>(data, index). length data - index)")
  fix data :: bytes and index i x m xa
  assume "\<not> \<not> index + 9 < length data" "i = skip_ff data index" "xa = i + 1"
  then show "((data, xa), (data, index)) \<in> measure (\<lambda>(data, index). length data - index)"
    using skip_ff_ge [of index data] by simp
next
  fix data :: bytes and index i x m xa seg
  assume "\<not> \<not> index + 9 < length data" "i = skip_ff data index" "xa = i + 1"
  then show "((data, xa + seg), (data, index)) \<in> measure (\<lambda>(data, index). length data - index)"
    using skip_ff_ge [of index data] by simp
qed simp

declare jpeg_scan.simps [simp del]

definition identify_jpeg_size :: "bytes \<Rightarrow> (nat \<times> nat) option" where
  "identify_jpeg_size data = jpeg_scan data 2"

unbundle bit_operations_syntax

definition identify_webp_size :: "bytes \<Rightarrow> (nat \<times> nat) option" where
  "identify_webp_size data =
     (if length data < 30 then None
      else let chunk = py_slice data 12 16 in
        if chunk = ascii_bytes ''VP8X'' \<and> 30 \<le> length data then
          Some (from_little (py_slice data 24 27) + 1, from_little (py_slice data 27 30) + 1)
        else if chunk = ascii_bytes ''VP8 '' \<and> 30 \<le> length data \<and> py_slice data 23 26 = [0x9D, 0x01, 0x2A] then
          Some (from_little (py_slice data 26 28) AND 0x3FFF, from_little (py_slice data 28 30) AND 0x3FFF)
        else if chunk = ascii_bytes ''VP8L'' \<and> 25 \<le> length data \<and> data ! 20 = 0x2F then
          (let bits = from_little (py_slice data 21 25) in
           Some ((bits AND 0x3FFF) + 1, (drop_bit 14 bits AND 0x3FFF) + 1))
        else None)"

text \<open>
  \<open>identify_image\<close>: the type with the size where both were found.  The source's pair of optional
  numbers always has both or neither.
\<close>

definition identify_image :: "(string \<Rightarrow> string option) \<Rightarrow> bytes \<Rightarrow> string \<Rightarrow> string option \<times> (nat \<times> nat) option" where
  "identify_image guess_type data name =
     (if startswith data (0x89 # ascii_bytes ''PNG'' @ [0x0D, 0x0A, 0x1A, 0x0A]) \<and> 24 \<le> length data then
        (Some ''image/png'', Some (from_big (py_slice data 16 20), from_big (py_slice data 20 24)))
      else if startswith data (ascii_bytes ''GIF87a'') \<or> startswith data (ascii_bytes ''GIF89a'') then
        (Some ''image/gif'', Some (from_little (py_slice data 6 8), from_little (py_slice data 8 10)))
      else if startswith data [0xFF, 0xD8] then (Some ''image/jpeg'', identify_jpeg_size data)
      else if startswith data (ascii_bytes ''RIFF'') \<and> 12 \<le> length data \<and> py_slice data 8 12 = ascii_bytes ''WEBP'' then
        (Some ''image/webp'', identify_webp_size data)
      else case guess_type name of
        Some g \<Rightarrow> if startswith g ''image/'' then (Some g, None) else (None, None)
      | None \<Rightarrow> (None, None))"

definition should_resize_image :: "int \<Rightarrow> (nat \<times> nat) option \<Rightarrow> int \<Rightarrow> int \<Rightarrow> int \<Rightarrow> bool" where
  "should_resize_image size_bytes dims max_size max_width max_height =
     (if max_size < size_bytes then True
      else case dims of
        Some (w, h) \<Rightarrow> max_width < int w \<or> max_height < int h
      | None \<Rightarrow> False)"

section \<open>Resizing\<close>

text \<open>
  The operations of Pillow the source calls, on its images \<open>'i\<close>.  Every one of them may raise, which
  \<open>resize_image_bytes\<close> turns into \<^verbatim>\<open>None\<close>; so does a missing package (\<open>None\<close> for the record).
\<close>

record 'i pillow =
  pil_open :: "bytes \<Rightarrow> 'i option"
  pil_thumbnail :: "int \<times> int \<Rightarrow> 'i \<Rightarrow> 'i option"
  pil_mode :: "'i \<Rightarrow> string"
  pil_convert :: "string \<Rightarrow> 'i \<Rightarrow> 'i option"
  pil_save :: "string \<Rightarrow> nat option \<Rightarrow> 'i \<Rightarrow> bytes option"

definition output_format :: "string \<Rightarrow> string" where
  "output_format mime =
     (if mime = ''image/jpeg'' then ''JPEG'' else if mime = ''image/png'' then ''PNG'' else ''WEBP'')"

text \<open>\<^verbatim>\<open>for quality in (75, 65, 55)\<close>: each try replaces the result, until one is small enough.\<close>

fun quality_loop :: "'i pillow \<Rightarrow> string \<Rightarrow> int \<Rightarrow> 'i \<Rightarrow> nat list \<Rightarrow> bytes \<Rightarrow> bytes option" where
  "quality_loop P fmt max_size im [] resized = Some resized"
| "quality_loop P fmt max_size im (q # qs) resized =
     (case pil_save P fmt (Some q) im of
        None \<Rightarrow> None
      | Some r \<Rightarrow> if int (length r) \<le> max_size then Some r else quality_loop P fmt max_size im qs r)"

definition resize_image_bytes ::
  "'i pillow option \<Rightarrow> bytes \<Rightarrow> string \<Rightarrow> int \<Rightarrow> int \<Rightarrow> int \<Rightarrow> (bytes \<times> string) option" where
  "resize_image_bytes pkg data mime max_width max_height max_size =
     (case pkg of None \<Rightarrow> None
      | Some P \<Rightarrow>
          (case Option.bind (pil_open P data) (pil_thumbnail P (max_width, max_height)) of
             None \<Rightarrow> None
           | Some im0 \<Rightarrow>
               (let fmt = output_format mime;
                    lossy = fmt \<in> {''JPEG'', ''WEBP''};
                    converted = (if fmt = ''JPEG'' \<and> pil_mode P im0 \<notin> {''RGB'', ''L''}
                                 then pil_convert P ''RGB'' im0 else Some im0) in
                (case converted of None \<Rightarrow> None
                 | Some im \<Rightarrow>
                     (case pil_save P fmt (if lossy then Some 85 else None) im of
                        None \<Rightarrow> None
                      | Some resized \<Rightarrow>
                          map_option (\<lambda>r. (r, mime))
                            (if max_size < int (length resized) \<and> lossy
                             then quality_loop P fmt max_size im [75, 65, 55] resized
                             else Some resized))))))"

section \<open>The tool\<close>

definition IMAGE_RESIZE_MAX_DIMENSION :: int where
  "IMAGE_RESIZE_MAX_DIMENSION = 2000"

text \<open>\<^verbatim>\<open>base64.b64encode(data).decode("ascii")\<close>: the standard alphabet.\<close>

definition b64encode :: "bytes \<Rightarrow> string" where
  "b64encode bs =
     map (\<lambda>c. if c = CHR ''-'' then CHR ''+'' else if c = CHR ''_'' then CHR ''/'' else c) (urlsafe_b64encode bs)"

definition size_json :: "(nat \<times> nat) option \<Rightarrow> json \<times> json" where
  "size_json dims = (case dims of Some (w, h) \<Rightarrow> (JInt (int w), JInt (int h)) | None \<Rightarrow> (JNull, JNull))"

definition mime_json :: "string option \<Rightarrow> json" where
  "mime_json mime = (case mime of Some m \<Rightarrow> JStr m | None \<Rightarrow> JNull)"

definition view_limits :: "obj \<Rightarrow> (int \<times> int \<times> int) result" where
  "view_limits args =
     rbind (int_arg args ''max_bytes'' 5242880) (\<lambda>max_size.
     rbind (int_arg args ''max_width'' IMAGE_RESIZE_MAX_DIMENSION) (\<lambda>max_width.
     rbind (int_arg args ''max_height'' IMAGE_RESIZE_MAX_DIMENSION) (\<lambda>max_height.
       Inr (max_size, max_width, max_height))))"

definition resize_warning :: string where
  "resize_warning = ''auto_resize requested but Pillow is not installed or image resize failed''"

text \<open>
  The part after the file is read: the data sent, its type and size, whether it was resized, and
  the warnings.
\<close>

definition fit_image ::
  "'i pillow option \<Rightarrow> (string \<Rightarrow> string option) \<Rightarrow> string \<Rightarrow> int \<times> int \<times> int \<Rightarrow> bool \<Rightarrow> bytes \<Rightarrow> string \<Rightarrow>
   (nat \<times> nat) option \<Rightarrow> bytes \<times> string option \<times> (nat \<times> nat) option \<times> bool \<times> string list" where
  "fit_image pkg guess name lims auto_resize data mime dims =
     (case lims of (max_size, max_width, max_height) \<Rightarrow>
        if auto_resize \<and> should_resize_image (int (length data)) dims max_size max_width max_height then
          (case resize_image_bytes pkg data mime max_width max_height max_size of
             Some (data', _) \<Rightarrow>
               (case identify_image guess data' name of (mime', dims') \<Rightarrow> (data', mime', dims', True, []))
           | None \<Rightarrow> (data, Some mime, dims, False, [resize_warning]))
        else (data, Some mime, dims, False, []))"

definition view_payload ::
  "string \<Rightarrow> bytes \<Rightarrow> string option \<Rightarrow> (nat \<times> nat) option \<Rightarrow> bool \<Rightarrow> obj \<Rightarrow> string list \<Rightarrow> obj" where
  "view_payload display data mime dims resized original warnings =
     [(''path'', JStr display), (''mime_type'', mime_json mime), (''bytes'', JInt (int (length data))),
      (''width'', fst (size_json dims)), (''height'', snd (size_json dims)), (''resized'', JBool resized),
      (''original'', JObj original), (''_mcp_image_data'', JStr (b64encode data)),
      (''warnings'', JList (map JStr warnings))]"

definition original_info :: "bytes \<Rightarrow> string \<Rightarrow> (nat \<times> nat) option \<Rightarrow> obj" where
  "original_info data mime dims =
     [(''bytes'', JInt (int (length data))), (''width'', fst (size_json dims)),
      (''height'', snd (size_json dims)), (''mime_type'', JStr mime)]"

text \<open>\<^verbatim>\<open>path.name\<close>: empty for the root.\<close>

definition path_name :: "path \<Rightarrow> string" where
  "path_name p = (if p = [] then [] else last p)"

definition view_found ::
  "'i pillow option \<Rightarrow> (string \<Rightarrow> string option) \<Rightarrow> obj \<Rightarrow> ResolvedPath \<Rightarrow> int \<times> int \<times> int \<Rightarrow> bytes \<Rightarrow> obj result" where
  "view_found pkg guess args resolved lims data =
     (let auto_resize = bool_arg args ''auto_resize'' True; name = path_name (rp_path resolved) in
      case identify_image guess data name of (found, dims) \<Rightarrow>
      (case found of
         None \<Rightarrow> Inl (tool_failure ''BINARY_FILE'' ''validation'')
       | Some mime \<Rightarrow>
           (case fit_image pkg guess name lims auto_resize data mime dims of
              (data', mime', dims', resized, warnings) \<Rightarrow>
                if fst lims < int (length data') then
                  Inl (tool_failure_with ''OUTPUT_TOO_LARGE'' ''validation''
                    [(''bytes'', JInt (int (length data'))), (''max_bytes'', JInt (fst lims)),
                     (''resize_attempted'', JBool auto_resize), (''warnings'', JList (map JStr warnings))])
                else Inr (view_payload (rp_display resolved) data' mime' dims' resized
                            (original_info data mime dims) warnings))))"

definition view_image ::
  "'i pillow option \<Rightarrow> (string \<Rightarrow> string option) \<Rightarrow> (json \<Rightarrow> string) \<Rightarrow> workspace_env \<Rightarrow> fs \<Rightarrow> obj \<Rightarrow> obj result" where
  "view_image pkg guess other env s args =
     rbind (rt_resolve_existing env s (str_arg other args ''path'' [])) (\<lambda>resolved.
     rbind (view_limits args) (\<lambda>lims.
     rbind (fst (fs_read (rp_path resolved) s)) (\<lambda>(data, _).
       view_found pkg guess args resolved lims data)))"

section \<open>Numbers read from bytes\<close>

lemma from_big_Nil [simp]: "from_big [] = 0"
  by (simp add: from_big_def)

lemma from_big_snoc: "from_big (bs @ [b]) = from_big bs * 256 + unat b"
  by (simp add: from_big_def)

lemma from_big_less: "from_big bs < 256 ^ length bs"
proof (induction bs rule: rev_induct)
  case (snoc b bs)
  have "unat b < 2 ^ LENGTH(8)" by (rule unsigned_less)
  then have "unat b < 256" by simp
  with snoc show ?case by (simp add: from_big_snoc)
qed simp

lemma length_slice_le: "length (py_slice xs i j) \<le> j - i"
  by (simp add: py_slice_def)

lemma from_big_slice_less: "from_big (py_slice data i j) < 256 ^ (j - i)"
proof -
  have "256 ^ length (py_slice data i j) \<le> (256 :: nat) ^ (j - i)"
    using length_slice_le [of data i j] by (simp add: power_increasing)
  with from_big_less [of "py_slice data i j"] show ?thesis by (rule less_le_trans)
qed

lemma from_little_slice_less: "from_little (py_slice data i j) < 256 ^ (j - i)"
proof -
  have "256 ^ length (py_slice data i j) \<le> (256 :: nat) ^ (j - i)"
    using length_slice_le [of data i j] by (simp add: power_increasing)
  with from_big_less [of "rev (py_slice data i j)"] show ?thesis
    unfolding from_little_def length_rev by (rule less_le_trans)
qed

text \<open>The bytes of a number, the inverse of \<open>from_big\<close>.\<close>

fun to_big :: "nat \<Rightarrow> nat \<Rightarrow> bytes" where
  "to_big 0 n = []"
| "to_big (Suc k) n = to_big k (n div 256) @ [word_of_nat n]"

lemma length_to_big [simp]: "length (to_big k n) = k"
  by (induction k arbitrary: n) auto

lemma from_big_to_big: "n < 256 ^ k \<Longrightarrow> from_big (to_big k n) = n"
proof (induction k arbitrary: n)
  case (Suc k)
  have "n div 256 < 256 ^ k" using Suc.prems by (simp add: less_mult_imp_div_less mult.commute)
  then have "from_big (to_big k (n div 256)) = n div 256" by (rule Suc.IH)
  then show ?case by (simp add: from_big_snoc unat_of_nat take_bit_eq_mod)
qed simp

lemma from_little_to_big: "n < 256 ^ k \<Longrightarrow> from_little (rev (to_big k n)) = n"
  by (simp add: from_little_def from_big_to_big)

lemma and_14: "n AND 0x3FFF = n mod 2 ^ 14" for n :: nat
proof -
  have "(0x3FFF :: nat) = mask 14" by (simp add: mask_eq_exp_minus_1)
  then have "n AND 0x3FFF = take_bit 14 n" by (simp only: take_bit_eq_mask)
  then show ?thesis by (simp only: take_bit_eq_mod)
qed

section \<open>Bounds\<close>

text \<open>The size of a JPEG is read from inside the file, behind a frame header that lies in it.\<close>

lemma jpeg_scan_in_range:
  "jpeg_scan data index = Some r \<Longrightarrow>
   \<exists>i. index < i \<and> i + 7 \<le> length data \<and> 7 \<le> from_big (py_slice data i (i + 2)) \<and>
     r = (from_big (py_slice data (i + 5) (i + 7)), from_big (py_slice data (i + 3) (i + 5)))"
proof (induction data index rule: jpeg_scan.induct)
  case (1 data index)
  let ?i = "skip_ff data index + 1"
  let ?seg = "from_big (py_slice data ?i (?i + 2))"
  have i: "index < ?i" using skip_ff_ge [of index data] by simp
  note step = "1.prems" [unfolded jpeg_scan.simps [of data index] Let_def]
  then have c: "index + 9 < length data" "\<not> length data \<le> skip_ff data index"
    by (simp_all split: if_splits)
  note IH = "1.IH" [OF _ refl _ refl refl, simplified not_not, OF c]
  consider "unat (data ! skip_ff data index) \<in> {0xD8, 0xD9}" "jpeg_scan data ?i = Some r"
    | "unat (data ! skip_ff data index) \<notin> {0xD8, 0xD9}" "\<not> (unat (data ! skip_ff data index) = 0xDA \<or> length data < ?i + 2)"
      "\<not> (?seg < 2 \<or> length data < ?i + ?seg)"
      "\<not> (unat (data ! skip_ff data index) \<in> set sof_markers \<and> 7 \<le> ?seg)" "jpeg_scan data (?i + ?seg) = Some r"
    | "length data \<ge> ?i + ?seg" "7 \<le> ?seg"
      "r = (from_big (py_slice data (?i + 5) (?i + 7)), from_big (py_slice data (?i + 3) (?i + 5)))"
    using step c by (force split: if_splits)
  then show ?case
  proof cases
    case 1
    from IH(1) [OF this] obtain j where "?i < j" "j + 7 \<le> length data" "7 \<le> from_big (py_slice data j (j + 2))"
      "r = (from_big (py_slice data (j + 5) (j + 7)), from_big (py_slice data (j + 3) (j + 5)))" by blast
    with i show ?thesis by (intro exI [of _ j]) simp
  next
    case 2
    from IH(2) [OF 2(1,2) refl 2(3,4,5)] obtain j where "?i + ?seg < j" "j + 7 \<le> length data"
      "7 \<le> from_big (py_slice data j (j + 2))"
      "r = (from_big (py_slice data (j + 5) (j + 7)), from_big (py_slice data (j + 3) (j + 5)))" by blast
    with i show ?thesis by (intro exI [of _ j]) simp
  next
    case 3
    with i show ?thesis by (intro exI [of _ ?i]) simp
  qed
qed

lemma jpeg_size_bound:
  "identify_jpeg_size data = Some (w, h) \<Longrightarrow> w < 2 ^ 16 \<and> h < 2 ^ 16"
proof -
  assume "identify_jpeg_size data = Some (w, h)"
  then obtain i where "w = from_big (py_slice data (i + 5) (i + 7))" "h = from_big (py_slice data (i + 3) (i + 5))"
    unfolding identify_jpeg_size_def by (blast dest: jpeg_scan_in_range)
  with from_big_slice_less [of data "i + 5" "i + 7"] from_big_slice_less [of data "i + 3" "i + 5"]
  show ?thesis by simp
qed

lemma webp_size_bound:
  assumes "identify_webp_size data = Some (w, h)"
  shows "w \<le> 2 ^ 24 \<and> h \<le> 2 ^ 24"
proof -
  have "(n :: nat) mod 2 ^ 14 \<le> 2 ^ 24 \<and> n mod 2 ^ 14 + 1 \<le> 2 ^ 24" for n
  proof -
    have "n mod 2 ^ 14 < 2 ^ 14" and "(2 :: nat) ^ 14 + 1 \<le> 2 ^ 24" by simp_all
    then show ?thesis by (intro conjI) linarith+
  qed
  then show ?thesis
    using assms from_little_slice_less [of data 24 27] from_little_slice_less [of data 27 30]
    by (auto simp: identify_webp_size_def Let_def and_14 split: if_splits)
qed

text \<open>A PNG of the size, the reference for its header: signature, length and type of the first chunk, size.\<close>

definition png_file :: "bytes \<Rightarrow> nat \<Rightarrow> nat \<Rightarrow> bytes \<Rightarrow> bytes" where
  "png_file chunk w h rest =
     0x89 # ascii_bytes ''PNG'' @ [0x0D, 0x0A, 0x1A, 0x0A] @ chunk @ to_big 4 w @ to_big 4 h @ rest"

definition gif_file :: "nat \<Rightarrow> nat \<Rightarrow> bytes \<Rightarrow> bytes" where
  "gif_file w h rest = ascii_bytes ''GIF89a'' @ rev (to_big 2 w) @ rev (to_big 2 h) @ rest"

text \<open>A JPEG: start of image, segments, then a frame header with precision, height, width and components.\<close>

definition jpeg_segment :: "byte \<times> bytes \<Rightarrow> bytes" where
  "jpeg_segment sg = (case sg of (m, p) \<Rightarrow> [0xFF, m] @ to_big 2 (length p + 2) @ p)"

definition jpeg_file :: "(byte \<times> bytes) list \<Rightarrow> byte \<Rightarrow> byte \<Rightarrow> nat \<Rightarrow> nat \<Rightarrow> bytes \<Rightarrow> bytes \<Rightarrow> bytes" where
  "jpeg_file segs m prec w h comps rest =
     [0xFF, 0xD8] @ concat (map jpeg_segment segs) @
     jpeg_segment (m, prec # to_big 2 h @ to_big 2 w @ comps) @ rest"

definition plain_segment :: "byte \<times> bytes \<Rightarrow> bool" where
  "plain_segment sg = (case sg of (m, p) \<Rightarrow>
     unat m \<notin> {0xFF, 0xD8, 0xD9, 0xDA} \<and> unat m \<notin> set sof_markers \<and> length p + 2 < 2 ^ 16)"

lemma py_slice_append [simp]:
  "i = length xs + k \<Longrightarrow> j = length xs + l \<Longrightarrow> py_slice (xs @ ys) i j = py_slice ys k l"
  by (simp add: py_slice_def)

lemma skip_ff_at:
  "drop index data = 0xFF # m # rest \<Longrightarrow> m \<noteq> 0xFF \<Longrightarrow> skip_ff data index = index + 1"
  by (simp add: skip_ff_def)

text \<open>One step over a segment of the reference file.\<close>

lemma jpeg_scan_segment:
  assumes seg: "plain_segment (m, p)" and big: "9 < length (jpeg_segment (m, p) @ rest)"
  shows "jpeg_scan (pre @ jpeg_segment (m, p) @ rest) (length pre) =
         jpeg_scan (pre @ jpeg_segment (m, p) @ rest) (length (pre @ jpeg_segment (m, p)))"
proof -
  let ?data = "pre @ jpeg_segment (m, p) @ rest"
  have "m \<noteq> 0xFF" using seg by (auto simp: plain_segment_def)
  then have i: "skip_ff ?data (length pre) = length pre + 1"
    by (intro skip_ff_at [of _ _ m]) (simp add: jpeg_segment_def)
  have mk: "?data ! (length pre + 1) = m" by (simp add: jpeg_segment_def nth_append)
  have "py_slice ?data (length pre + 1 + 1) (length pre + 1 + 1 + 2) = to_big 2 (length p + 2)"
    by (simp add: jpeg_segment_def py_slice_def)
  then have sl: "from_big (py_slice ?data (length pre + 1 + 1) (length pre + 1 + 1 + 2)) = length p + 2"
    using seg by (simp add: from_big_to_big plain_segment_def)
  have len: "length pre + 9 < length ?data" "length ?data \<ge> length pre + 4 + length p"
    using big by (simp_all add: jpeg_segment_def)
  from seg i mk sl len show ?thesis
    by (subst jpeg_scan.simps) (simp add: Let_def plain_segment_def jpeg_segment_def)
qed

lemma jpeg_scan_frame:
  assumes m: "unat m \<in> set sof_markers" and wh: "w < 2 ^ 16" "h < 2 ^ 16"
    and comps: "comps \<noteq> []" "length comps + 7 < 2 ^ 16"
  shows "jpeg_scan (pre @ jpeg_segment (m, prec # to_big 2 h @ to_big 2 w @ comps) @ rest) (length pre) = Some (w, h)"
proof -
  let ?p = "prec # to_big 2 h @ to_big 2 w @ comps"
  let ?data = "pre @ jpeg_segment (m, ?p) @ rest"
  have mark: "m \<noteq> 0xFF" "unat m \<notin> {0xD8, 0xD9}" "unat m \<noteq> 0xDA"
    using m by (auto simp: sof_markers_def)
  have i: "skip_ff ?data (length pre) = length pre + 1"
    by (intro skip_ff_at [OF _ mark(1)]) (simp add: jpeg_segment_def)
  have mk: "?data ! (length pre + 1) = m" by (simp add: jpeg_segment_def nth_append)
  have "py_slice ?data (length pre + 1 + 1) (length pre + 1 + 1 + 2) = to_big 2 (length ?p + 2)"
    by (simp add: jpeg_segment_def py_slice_def)
  then have sl: "from_big (py_slice ?data (length pre + 1 + 1) (length pre + 1 + 1 + 2)) = length comps + 7"
    using comps by (simp add: from_big_to_big)
  have "py_slice ?data (length pre + 1 + 1 + 5) (length pre + 1 + 1 + 7) = to_big 2 w"
    "py_slice ?data (length pre + 1 + 1 + 3) (length pre + 1 + 1 + 5) = to_big 2 h"
    by (simp_all add: jpeg_segment_def py_slice_def)
  then have dims: "from_big (py_slice ?data (length pre + 1 + 1 + 5) (length pre + 1 + 1 + 7)) = w"
    "from_big (py_slice ?data (length pre + 1 + 1 + 3) (length pre + 1 + 1 + 5)) = h"
    using wh by (simp_all add: from_big_to_big)
  have "0 < length comps" using comps by simp
  then have len: "length pre + 9 < length ?data" "length pre + 9 + length comps \<le> length ?data"
    by (simp_all add: jpeg_segment_def)
  show ?thesis
    by (subst jpeg_scan.simps) (use m mark len in \<open>simp only: Let_def i mk sl dims, simp\<close>)
qed

lemma jpeg_scan_file:
  assumes "list_all plain_segment segs" "unat m \<in> set sof_markers" "w < 2 ^ 16" "h < 2 ^ 16"
    "comps \<noteq> []" "length comps + 7 < 2 ^ 16"
  shows "jpeg_scan (pre @ concat (map jpeg_segment segs) @
           jpeg_segment (m, prec # to_big 2 h @ to_big 2 w @ comps) @ rest) (length pre) = Some (w, h)"
  using assms(1)
proof (induction segs arbitrary: pre)
  case Nil
  show ?case using jpeg_scan_frame [OF assms(2-6)] by simp
next
  case (Cons sg segs)
  obtain n p where sg: "sg = (n, p)" by (cases sg)
  let ?rest = "concat (map jpeg_segment segs) @ jpeg_segment (m, prec # to_big 2 h @ to_big 2 w @ comps) @ rest"
  have "9 < length (jpeg_segment (n, p) @ ?rest)"
    by (simp add: jpeg_segment_def)
  from jpeg_scan_segment [OF _ this, of pre] Cons sg
  have "jpeg_scan (pre @ jpeg_segment sg @ ?rest) (length pre) =
        jpeg_scan ((pre @ jpeg_segment sg) @ ?rest) (length (pre @ jpeg_segment sg))" by simp
  also have "\<dots> = Some (w, h)" by (rule Cons.IH) (use Cons.prems in simp)
  finally show ?case by simp
qed

lemma view_image_Inr:
  assumes "view_image pkg guess other env s args = Inr payload"
  obtains resolved max_size max_width max_height data mode mime dims data' mime' dims' resized warnings where
    "rt_resolve_existing env s (str_arg other args ''path'' []) = Inr resolved"
    "view_limits args = Inr (max_size, max_width, max_height)"
    "map_of s (rp_path resolved) = Some (File data mode)"
    "identify_image guess data (path_name (rp_path resolved)) = (Some mime, dims)"
    "fit_image pkg guess (path_name (rp_path resolved)) (max_size, max_width, max_height)
       (bool_arg args ''auto_resize'' True) data mime dims = (data', mime', dims', resized, warnings)"
    "int (length data') \<le> max_size"
    "payload = view_payload (rp_display resolved) data' mime' dims' resized (original_info data mime dims) warnings"
proof -
  from assms obtain resolved lims data mode where
    r: "rt_resolve_existing env s (str_arg other args ''path'' []) = Inr resolved"
    and l: "view_limits args = Inr lims"
    and f: "fst (fs_read (rp_path resolved) s) = Inr (data, mode)"
    and c: "view_found pkg guess args resolved lims data = Inr payload"
    unfolding view_image_def by (auto simp: result_simps)
  obtain max_size max_width max_height where lims: "lims = (max_size, max_width, max_height)" by (cases lims)
  from f have "map_of s (rp_path resolved) = Some (File data mode)"
    by (auto simp: fs_read_def split: option.splits node.splits)
  moreover
  obtain mo dims where id: "identify_image guess data (path_name (rp_path resolved)) = (mo, dims)" by fastforce
  with c obtain mime where mime: "mo = Some mime" by (cases mo) (simp_all add: view_found_def)
  obtain data' mime' dims' resized warnings where fit:
    "fit_image pkg guess (path_name (rp_path resolved)) lims (bool_arg args ''auto_resize'' True) data mime dims =
       (data', mime', dims', resized, warnings)" by (metis prod_cases5)
  moreover from c id mime fit have "int (length data') \<le> max_size"
    "payload = view_payload (rp_display resolved) data' mime' dims' resized (original_info data mime dims) warnings"
    by (auto simp: view_found_def lims split: if_splits)
  ultimately show ?thesis using r l lims that id mime by simp
qed

lemma length_b64_nats: "length (b64_nats ns) = 4 * ((length ns + 2) div 3)"
  by (induction ns rule: b64_nats.induct) (simp_all, presburger)

lemma length_b64encode: "length (b64encode bs) = 4 * ((length bs + 2) div 3)"
  by (simp add: b64encode_def urlsafe_b64encode_def length_b64_nats)

lemma fit_image_original:
  "fit_image pkg guess name lims auto data mime dims = (data', mime', dims', False, warnings) \<Longrightarrow>
   data' = data \<and> mime' = Some mime \<and> dims' = dims"
  by (auto simp: fit_image_def split: prod.splits if_splits option.splits)

lemma fit_image_warned:
  "fit_image pkg guess name lims auto data mime dims = (data', mime', dims', False, warnings) \<Longrightarrow> auto \<Longrightarrow>
   should_resize_image (int (length data)) dims (fst lims) (fst (snd lims)) (snd (snd lims)) \<Longrightarrow> warnings = [resize_warning]"
  by (auto simp: fit_image_def split: prod.splits if_splits option.splits)

lemma fit_image_resized:
  "fit_image pkg guess name lims auto data mime dims = (data', mime', dims', True, warnings) \<Longrightarrow>
   auto \<and> should_resize_image (int (length data)) dims (fst lims) (fst (snd lims)) (snd (snd lims)) \<and>
   (mime', dims') = identify_image guess data' name"
  by (auto simp: fit_image_def split: prod.splits if_splits option.splits)

lemma ascii_bytes_simps: "ascii_bytes [] = []" "ascii_bytes (c # cs) = word_of_nat (of_char c) # ascii_bytes cs"
  by (simp_all add: ascii_bytes_def)

section \<open>Properties\<close>

text \<open>
  \<open>identify_image\<close> reads the size a file declares: for every PNG and GIF header, and for every JPEG
  whose frame header follows any number of other segments, it returns the type with the width and
  the height that were written.
\<close>

theorem identify_image_reads_size:
  assumes "length chunk = 8" "pw < 2 ^ 32" "ph < 2 ^ 32" "w < 2 ^ 16" "h < 2 ^ 16"
    and "list_all plain_segment segs" "unat m \<in> set sof_markers" "comps \<noteq> []" "length comps + 7 < 2 ^ 16"
  shows "identify_image guess (png_file chunk pw ph rest) name = (Some ''image/png'', Some (pw, ph)) \<and>
    identify_image guess (gif_file w h rest) name = (Some ''image/gif'', Some (w, h)) \<and>
    identify_image guess (jpeg_file segs m prec w h comps rest) name = (Some ''image/jpeg'', Some (w, h))"
proof -
  have "py_slice (png_file chunk pw ph rest) 16 20 = to_big 4 pw" "py_slice (png_file chunk pw ph rest) 20 24 = to_big 4 ph"
    using assms(1) by (simp_all add: png_file_def py_slice_def ascii_bytes_simps)
  then have png: "identify_image guess (png_file chunk pw ph rest) name = (Some ''image/png'', Some (pw, ph))"
    using assms(1-3) by (simp add: identify_image_def from_big_to_big png_file_def startswith_def ascii_bytes_simps)
  have "py_slice (gif_file w h rest) 6 8 = rev (to_big 2 w)" "py_slice (gif_file w h rest) 8 10 = rev (to_big 2 h)"
    by (simp_all add: gif_file_def py_slice_def ascii_bytes_simps)
  then have gif: "identify_image guess (gif_file w h rest) name = (Some ''image/gif'', Some (w, h))"
    using assms(4,5) by (simp add: identify_image_def from_little_to_big gif_file_def startswith_def ascii_bytes_simps)
  have "identify_jpeg_size (jpeg_file segs m prec w h comps rest) = Some (w, h)"
    using jpeg_scan_file [OF assms(6,7,4,5,8,9), of "[0xFF, 0xD8]" prec rest]
    by (simp add: identify_jpeg_size_def jpeg_file_def numeral_2_eq_2)
  then have jpeg: "identify_image guess (jpeg_file segs m prec w h comps rest) name = (Some ''image/jpeg'', Some (w, h))"
    by (simp add: identify_image_def jpeg_file_def startswith_def ascii_bytes_simps)
  from png gif jpeg show ?thesis by blast
qed

theorem identify_image_reads_size_witness:
  "identify_image (\<lambda>_. None) (png_file (replicate 8 0) 70000 3 []) ''a.png'' = (Some ''image/png'', Some (70000, 3)) \<and>
   identify_image (\<lambda>_. None) (gif_file 640 480 []) ''a.png'' = (Some ''image/gif'', Some (640, 480)) \<and>
   identify_image (\<lambda>_. None) (jpeg_file [(0xE0, [1, 2, 3])] 0xC0 8 640 480 [1] []) ''a.png'' = (Some ''image/jpeg'', Some (640, 480))"
  by (rule identify_image_reads_size) (simp_all add: plain_segment_def sof_markers_def)

text \<open>
  The sizes are bounded by the widths of the header fields, whatever the bytes of the file are:
  below $2^{32}$ for a PNG, below $2^{16}$ for a GIF or a JPEG, at most $2^{24}$ for a WebP.  A type
  guessed from the name carries no size.
\<close>

theorem identify_image_bounds:
  assumes "identify_image guess data name = (Some mime, Some (w, h))"
  shows "(mime = ''image/png'' \<and> w < 2 ^ 32 \<and> h < 2 ^ 32) \<or>
    (mime = ''image/gif'' \<and> w < 2 ^ 16 \<and> h < 2 ^ 16) \<or>
    (mime = ''image/jpeg'' \<and> w < 2 ^ 16 \<and> h < 2 ^ 16) \<or>
    (mime = ''image/webp'' \<and> w \<le> 2 ^ 24 \<and> h \<le> 2 ^ 24)"
proof -
  consider "mime = ''image/png''" "w = from_big (py_slice data 16 20)" "h = from_big (py_slice data 20 24)"
    | "mime = ''image/gif''" "w = from_little (py_slice data 6 8)" "h = from_little (py_slice data 8 10)"
    | "mime = ''image/jpeg''" "identify_jpeg_size data = Some (w, h)"
    | "mime = ''image/webp''" "identify_webp_size data = Some (w, h)"
    using assms unfolding identify_image_def by (auto split: if_splits option.splits)
  then show ?thesis
  proof cases
    case 1
    with from_big_slice_less [of data 16 20] from_big_slice_less [of data 20 24] show ?thesis by simp
  next
    case 2
    with from_little_slice_less [of data 6 8] from_little_slice_less [of data 8 10] show ?thesis by simp
  next
    case 3
    with jpeg_size_bound [OF 3(2)] show ?thesis by blast
  next
    case 4
    with webp_size_bound [OF 4(2)] show ?thesis by blast
  qed
qed

theorem identify_image_bounds_witness:
  "identify_image (\<lambda>_. None) (gif_file 640 480 []) ''a'' = (Some ''image/gif'', Some (640, 480)) \<and>
   (640 :: nat) < 2 ^ 16 \<and> (480 :: nat) < 2 ^ 16"
proof -
  have "identify_image (\<lambda>_. None) (gif_file 640 480 []) ''a'' = (Some ''image/gif'', Some (640, 480))" by code_simp
  with identify_image_bounds [OF this] show ?thesis by simp
qed


text \<open>An image in the small workspace; no Pillow.\<close>

definition demo_images :: fs where
  "demo_images = ([''w'', ''g''], File (gif_file 3 2 []) 420) # demo_tree"


end
