(* ===== verification/Landlock.thy ===== *)
theory Landlock
  imports Workspace Urls
begin

text \<open>
  The Landlock ruleset of a confined command (\<^verbatim>\<open>server.py\<close>: \<open>landlock_abi_version\<close>,
  \<open>landlock_handled_access\<close>, \<open>landlock_device_access\<close>, \<open>open_landlock_ruleset\<close>, \<open>add_landlock_path\<close>,
  \<open>landlock_path_allowed_access\<close>, \<open>landlock_exec_argv\<close>, \<open>guard_allow_roots\<close>) and the helper that applies
  it (\<^verbatim>\<open>landlock_exec.py\<close>: \<open>main\<close>).

  \<^item> Access rights are 64-bit words, as in the \<^verbatim>\<open>c_uint64\<close> fields of the kernel structures.
  \<^item> The kernel is a parameter: the results of its calls, and for each path whether it opens and
    whether it is a directory.  The state is what the process holds: the rules the kernel accepted
    and the open descriptors.
\<close>

unbundle bit_operations_syntax

type_synonym access = "64 word"

section \<open>Access rights\<close>

definition FS_EXECUTE :: access where "FS_EXECUTE = push_bit 0 1"
definition FS_WRITE_FILE :: access where "FS_WRITE_FILE = push_bit 1 1"
definition FS_READ_FILE :: access where "FS_READ_FILE = push_bit 2 1"
definition FS_READ_DIR :: access where "FS_READ_DIR = push_bit 3 1"
definition FS_REMOVE_DIR :: access where "FS_REMOVE_DIR = push_bit 4 1"
definition FS_REMOVE_FILE :: access where "FS_REMOVE_FILE = push_bit 5 1"
definition FS_MAKE_CHAR :: access where "FS_MAKE_CHAR = push_bit 6 1"
definition FS_MAKE_DIR :: access where "FS_MAKE_DIR = push_bit 7 1"
definition FS_MAKE_REG :: access where "FS_MAKE_REG = push_bit 8 1"
definition FS_MAKE_SOCK :: access where "FS_MAKE_SOCK = push_bit 9 1"
definition FS_MAKE_FIFO :: access where "FS_MAKE_FIFO = push_bit 10 1"
definition FS_MAKE_BLOCK :: access where "FS_MAKE_BLOCK = push_bit 11 1"
definition FS_MAKE_SYM :: access where "FS_MAKE_SYM = push_bit 12 1"
definition FS_REFER :: access where "FS_REFER = push_bit 13 1"
definition FS_TRUNCATE :: access where "FS_TRUNCATE = push_bit 14 1"
definition FS_IOCTL_DEV :: access where "FS_IOCTL_DEV = push_bit 15 1"

lemmas rights =
  FS_EXECUTE_def FS_WRITE_FILE_def FS_READ_FILE_def FS_READ_DIR_def FS_REMOVE_DIR_def FS_REMOVE_FILE_def
  FS_MAKE_CHAR_def FS_MAKE_DIR_def FS_MAKE_REG_def FS_MAKE_SOCK_def FS_MAKE_FIFO_def FS_MAKE_BLOCK_def
  FS_MAKE_SYM_def FS_REFER_def FS_TRUNCATE_def FS_IOCTL_DEV_def

definition landlock_handled_access :: "int \<Rightarrow> access" where
  "landlock_handled_access version =
     (let handled =
        FS_EXECUTE OR FS_WRITE_FILE OR FS_READ_FILE OR FS_READ_DIR OR FS_REMOVE_DIR OR FS_REMOVE_FILE OR
        FS_MAKE_CHAR OR FS_MAKE_DIR OR FS_MAKE_REG OR FS_MAKE_SOCK OR FS_MAKE_FIFO OR FS_MAKE_BLOCK OR FS_MAKE_SYM;
          handled = (if version \<ge> 2 then handled OR FS_REFER else handled);
          handled = (if version \<ge> 3 then handled OR FS_TRUNCATE else handled) in
      if version \<ge> 5 then handled OR FS_IOCTL_DEV else handled)"

definition landlock_device_access :: "access \<Rightarrow> access" where
  "landlock_device_access handled =
     (let readonly_file_access = handled AND (FS_EXECUTE OR FS_READ_FILE) in
      readonly_file_access OR (handled AND (FS_WRITE_FILE OR FS_TRUNCATE OR FS_IOCTL_DEV)))"

definition readonly_rights :: access where
  "readonly_rights = FS_EXECUTE OR FS_READ_FILE OR FS_READ_DIR"

definition file_rights :: access where
  "file_rights = FS_EXECUTE OR FS_WRITE_FILE OR FS_READ_FILE OR FS_TRUNCATE OR FS_IOCTL_DEV"

section \<open>The kernel and the process\<close>

record kernel =
  kn_linux :: bool
  kn_abi :: int
  kn_create :: int
  kn_open :: "string \<Rightarrow> int option"
  kn_stat_dir :: "string \<Rightarrow> bool option"
  kn_add_rule :: "string \<Rightarrow> access \<Rightarrow> int"

record confinement =
  cf_rules :: "(string \<times> access) list"
  cf_fds :: "int list"

definition sandbox_unavailable :: pyexn where
  "sandbox_unavailable = tool_failure ''SANDBOX_UNAVAILABLE'' ''security''"

definition landlock_abi_version :: "kernel \<Rightarrow> int result" where
  "landlock_abi_version kn =
     (if \<not> kn_linux kn then Inl sandbox_unavailable
      else if kn_abi kn \<le> 0 then Inl sandbox_unavailable else Inr (kn_abi kn))"

text \<open>\<^verbatim>\<open>~0\<close>, all rights, for a directory and for a path that cannot be inspected.\<close>

definition landlock_path_allowed_access :: "kernel \<Rightarrow> string \<Rightarrow> access" where
  "landlock_path_allowed_access kn path =
     (case kn_stat_dir kn path of None \<Rightarrow> NOT 0 | Some True \<Rightarrow> NOT 0 | Some False \<Rightarrow> file_rights)"

text \<open>\<open>add_landlock_path\<close>: the descriptor is closed on every way out.\<close>

definition add_landlock_path ::
  "kernel \<Rightarrow> string \<Rightarrow> access \<Rightarrow> bool \<Rightarrow> confinement \<Rightarrow> unit result \<times> confinement" where
  "add_landlock_path kn path allowed required c =
     (case kn_open kn path of
        None \<Rightarrow> (if required then Inl sandbox_unavailable else Inr (), c)
      | Some fd \<Rightarrow>
          (let c1 = c\<lparr>cf_fds := fd # cf_fds c\<rparr>;
               a = allowed AND landlock_path_allowed_access kn path;
               rc = kn_add_rule kn path a;
               c2 = (if rc < 0 then c1 else c1\<lparr>cf_rules := cf_rules c1 @ [(path, a)]\<rparr>);
               c3 = c2\<lparr>cf_fds := remove1 fd (cf_fds c2)\<rparr> in
           (if rc < 0 \<and> required then Inl sandbox_unavailable else Inr (), c3)))"

text \<open>A loop of optional rules with one set of rights.\<close>

fun add_paths :: "kernel \<Rightarrow> access \<Rightarrow> string list \<Rightarrow> confinement \<Rightarrow> unit result \<times> confinement" where
  "add_paths kn a [] c = (Inr (), c)"
| "add_paths kn a (p # ps) c =
     (case add_landlock_path kn p a False c of
        (Inl e, c') \<Rightarrow> (Inl e, c')
      | (Inr _, c') \<Rightarrow> add_paths kn a ps c')"

definition SPECIAL_DEVICE_PATHS :: "string list" where
  "SPECIAL_DEVICE_PATHS = [''/dev/null'', ''/dev/zero'', ''/dev/random'', ''/dev/urandom'']"

definition SPECIAL_DIRS :: "string list" where
  "SPECIAL_DIRS = [''/proc/self'', ''/proc/thread-self'', ''/dev/fd'']"

fun then_c :: "unit result \<times> confinement \<Rightarrow> (confinement \<Rightarrow> unit result \<times> confinement) \<Rightarrow> unit result \<times> confinement" where
  "then_c (Inl e, c) f = (Inl e, c)"
| "then_c (Inr u, c) f = f c"

definition add_all_paths ::
  "kernel \<Rightarrow> access \<Rightarrow> string \<Rightarrow> string list \<Rightarrow> string list \<Rightarrow> confinement \<Rightarrow> unit result \<times> confinement" where
  "add_all_paths kn handled workspace read_roots write_roots c =
     (let workspace_access = handled;
          readonly_access = handled AND readonly_rights;
          device_access = landlock_device_access handled in
      then_c (add_landlock_path kn workspace workspace_access True c)
        (\<lambda>c. then_c (add_paths kn workspace_access write_roots c)
        (\<lambda>c. then_c (add_paths kn readonly_access read_roots c)
        (\<lambda>c. then_c (add_paths kn device_access SPECIAL_DEVICE_PATHS c)
        (\<lambda>c. add_paths kn readonly_access SPECIAL_DIRS c)))))"

definition open_landlock_ruleset ::
  "kernel \<Rightarrow> string \<Rightarrow> string list \<Rightarrow> string list \<Rightarrow> confinement \<Rightarrow> int result \<times> confinement" where
  "open_landlock_ruleset kn workspace read_roots write_roots c =
     (case landlock_abi_version kn of
        Inl e \<Rightarrow> (Inl e, c)
      | Inr version \<Rightarrow>
          (let handled = landlock_handled_access version; fd = kn_create kn in
           if fd < 0 then (Inl sandbox_unavailable, c)
           else case add_all_paths kn handled workspace read_roots write_roots (c\<lparr>cf_fds := fd # cf_fds c\<rparr>) of
               (Inl e, c') \<Rightarrow> (Inl e, c'\<lparr>cf_fds := remove1 fd (cf_fds c')\<rparr>)
             | (Inr _, c') \<Rightarrow> (Inr fd, c')))"

section \<open>The helper process\<close>

text \<open>\<open>landlock_exec_argv\<close>: the command is a string or a list; the helper gets the descriptor first.\<close>

datatype command = Shell_text string | Argv "string list"

definition landlock_exec_argv :: "string \<Rightarrow> string \<Rightarrow> int \<Rightarrow> command \<Rightarrow> string list" where
  "landlock_exec_argv executable helper ruleset_fd cmd =
     [executable, helper, int_str ruleset_fd] @ (case cmd of Argv ws \<Rightarrow> ws | Shell_text t \<Rightarrow> [t])"

text \<open>
  \<open>main\<close> of the helper: the calls it makes, in order, and the exit code when it does not become the
  command.  The results of \<^verbatim>\<open>prctl\<close> and \<^verbatim>\<open>restrict_self\<close>, and the shell (\<^verbatim>\<open>$SHELL\<close>, \<^verbatim>\<open>which sh\<close> or
  \<^verbatim>\<open>/bin/sh\<close>), are parameters.
\<close>

datatype launch_event = No_new_privs | Restrict_self int | Close_fd int | Exec string "string list"

record helper_env =
  he_linux :: bool
  he_prctl :: int
  he_restrict :: "int \<Rightarrow> int"
  he_SHELL :: "string option"
  he_which_sh :: "string option"

definition helper_shell :: "helper_env \<Rightarrow> string" where
  "helper_shell he =
     (case he_SHELL he of Some (c # cs) \<Rightarrow> c # cs
      | _ \<Rightarrow> (case he_which_sh he of Some (c # cs) \<Rightarrow> c # cs | _ \<Rightarrow> ''/bin/sh''))"

definition helper_main :: "helper_env \<Rightarrow> string list \<Rightarrow> launch_event list \<times> int option" where
  "helper_main he args =
     (if \<not> he_linux he then ([], Some 126)
      else if length args < 2 then ([], Some 126)
      else case py_int (args ! 0) of
        None \<Rightarrow> ([], Some 126)
      | Some ruleset_fd \<Rightarrow>
          (let cmd = drop 1 args in
           if he_prctl he \<noteq> 0 then ([No_new_privs], Some 126)
           else if he_restrict he ruleset_fd \<noteq> 0 then ([No_new_privs, Restrict_self ruleset_fd], Some 126)
           else ([No_new_privs, Restrict_self ruleset_fd, Close_fd ruleset_fd,
                  if length cmd = 1 then Exec (helper_shell he) [helper_shell he, ''-c'', cmd ! 0]
                  else Exec (cmd ! 0) cmd], None)))"

section \<open>The readable roots\<close>

text \<open>
  \<open>_guard_allow_roots_cached\<close>: the directories a confined command may read.  Path resolution, the
  home directory, the directory test and the interpreter's own directories are parameters; a path
  that cannot be resolved is \<open>None\<close>.
\<close>

record guard_env =
  ge_resolve :: "string \<Rightarrow> path option"
  ge_expand_resolve :: "string \<Rightarrow> path option"
  ge_is_dir :: "path \<Rightarrow> bool"
  ge_python_dirs :: "path list"

definition DNS_RESOLVER_READ_ROOTS :: "string list" where
  "DNS_RESOLVER_READ_ROOTS =
     [''/etc/resolv.conf'', ''/etc/hosts'', ''/etc/nsswitch.conf'', ''/etc/gai.conf'', ''/etc/protocols'',
      ''/etc/services'', ''/run/systemd/resolve'', ''/run/resolvconf'']"

definition TOOLCHAIN_READ_ROOTS :: "string list" where
  "TOOLCHAIN_READ_ROOTS =
     [''/usr'', ''/bin'', ''/sbin'', ''/lib'', ''/lib64'', ''/etc/alternatives'', ''/etc/ssl'',
      ''/etc/ca-certificates'', ''/etc/pki'', ''/etc/localtime'', ''/etc/npmrc'', ''/usr/local/sdkman/candidates'']"

definition OS_METADATA_READ_FILES :: "string list" where
  "OS_METADATA_READ_FILES = [''/etc/debian_version'', ''/etc/os-release'', ''/etc/lsb-release'']"

definition GIT_READ_ROOTS :: "string list" where
  "GIT_READ_ROOTS = [''/etc/gitconfig'', ''/etc/gitconfig.d'']"

definition SYSTEM_PATH_ROOT_PREFIXES :: "string list" where
  "SYSTEM_PATH_ROOT_PREFIXES =
     [''/bin'', ''/sbin'', ''/usr'', ''/lib'', ''/lib64'', ''/etc/alternatives'', ''/usr/local/sdkman/candidates'']"

definition resolved_system_path_root_prefixes :: "guard_env \<Rightarrow> path list" where
  "resolved_system_path_root_prefixes ge =
     map (\<lambda>p. case ge_resolve ge p of Some r \<Rightarrow> r | None \<Rightarrow> path_parts p) SYSTEM_PATH_ROOT_PREFIXES"

definition is_default_system_path_root :: "guard_env \<Rightarrow> path \<Rightarrow> bool" where
  "is_default_system_path_root ge resolved =
     list_ex (\<lambda>p. resolved = p \<or> is_relative_to resolved p) (resolved_system_path_root_prefixes ge)"

definition path_env_roots :: "guard_env \<Rightarrow> string \<Rightarrow> path list" where
  "path_env_roots ge path_env =
     [r. item \<leftarrow> split_on (CHR '':'') path_env, item \<noteq> [], r \<leftarrow> (case ge_resolve ge item of Some r \<Rightarrow> [r] | None \<Rightarrow> []),
        ge_is_dir ge r \<and> is_default_system_path_root ge r]"

definition extra_env_roots :: "guard_env \<Rightarrow> string \<Rightarrow> path list" where
  "extra_env_roots ge extra =
     [r. item \<leftarrow> split_on (CHR '':'') extra, item \<noteq> [], r \<leftarrow> (case ge_expand_resolve ge item of Some r \<Rightarrow> [r] | None \<Rightarrow> []),
        ge_is_dir ge r]"

definition java_home_roots :: "guard_env \<Rightarrow> string \<Rightarrow> path list" where
  "java_home_roots ge java_home =
     (if java_home = [] then [] else case ge_expand_resolve ge java_home of Some r \<Rightarrow> [r] | None \<Rightarrow> [])"

text \<open>\<^verbatim>\<open>sorted\<close> of a set of strings; the source keeps the absolute ones.\<close>

definition guard_allow_roots :: "guard_env \<Rightarrow> string \<Rightarrow> string \<Rightarrow> string \<Rightarrow> string list" where
  "guard_allow_roots ge java_home path_env extra =
     (let roots = TOOLCHAIN_READ_ROOTS @ OS_METADATA_READ_FILES @ GIT_READ_ROOTS @ DNS_RESOLVER_READ_ROOTS @
            map abs_text (ge_python_dirs ge @ java_home_roots ge java_home @ path_env_roots ge path_env @
              extra_env_roots ge extra) in
      sort (remdups (filter (\<lambda>r. r \<noteq> [] \<and> startswith r ''/'') roots)))"

section \<open>The rules\<close>

lemma add_landlock_path_cases:
  assumes "add_landlock_path kn p a req c = (r, c')"
  shows "cf_fds c' = cf_fds c"
    and "cf_rules c' = cf_rules c \<or> cf_rules c' = cf_rules c @ [(p, a AND landlock_path_allowed_access kn p)]"
    and "req = False \<Longrightarrow> r = Inr ()"
  using assms by (auto simp: add_landlock_path_def Let_def split: option.splits if_splits)

lemma add_paths_result:
  assumes "add_paths kn a ps c = (r, c')"
  shows "r = Inr () \<and> cf_fds c' = cf_fds c \<and>
    (\<exists>rs. cf_rules c' = cf_rules c @ rs \<and>
       (\<forall>(p, b) \<in> set rs. p \<in> set ps \<and> b = a AND landlock_path_allowed_access kn p))"
  using assms
proof (induction ps arbitrary: c)
  case (Cons p ps)
  obtain r1 c1 where s: "add_landlock_path kn p a False c = (r1, c1)" by fastforce
  note f = add_landlock_path_cases [OF s]
  with Cons.prems s have "add_paths kn a ps c1 = (r, c')" by auto
  from Cons.IH [OF this] obtain rs where
    rs: "r = Inr ()" "cf_fds c' = cf_fds c1" "cf_rules c' = cf_rules c1 @ rs"
      "\<forall>(p, b) \<in> set rs. p \<in> set ps \<and> b = a AND landlock_path_allowed_access kn p" by blast
  from f(2) show ?case
  proof
    assume "cf_rules c1 = cf_rules c"
    with rs f(1) show ?thesis by (intro conjI exI [of _ rs]) auto
  next
    assume "cf_rules c1 = cf_rules c @ [(p, a AND landlock_path_allowed_access kn p)]"
    with rs f(1) show ?thesis
      by (intro conjI exI [of _ "(p, a AND landlock_path_allowed_access kn p) # rs"]) auto
  qed
qed simp

text \<open>What a rule may carry, by the group its path was added with.\<close>

definition rule_granted :: "kernel \<Rightarrow> access \<Rightarrow> string \<Rightarrow> string list \<Rightarrow> string list \<Rightarrow> string \<times> access \<Rightarrow> bool" where
  "rule_granted kn handled workspace read_roots write_roots rl = (case rl of (p, b) \<Rightarrow>
     (p \<in> set (workspace # write_roots) \<and> b = handled AND landlock_path_allowed_access kn p) \<or>
     (p \<in> set (read_roots @ SPECIAL_DIRS) \<and> b = (handled AND readonly_rights) AND landlock_path_allowed_access kn p) \<or>
     (p \<in> set SPECIAL_DEVICE_PATHS \<and> b = landlock_device_access handled AND landlock_path_allowed_access kn p))"

lemma then_c_result:
  assumes "then_c x f = (r, c')"
  obtains e where "x = (Inl e, c')" "r = Inl e" | c1 where "x = (Inr (), c1)" "f c1 = (r, c')"
  using assms by (cases "(x, f)" rule: then_c.cases) auto

lemma add_all_paths_result:
  assumes "add_all_paths kn handled workspace read_roots write_roots c = (r, c')"
  shows "cf_fds c' = cf_fds c \<and>
    (\<exists>rs. cf_rules c' = cf_rules c @ rs \<and> list_all (rule_granted kn handled workspace read_roots write_roots) rs)"
proof -
  obtain r1 c1 where s1: "add_landlock_path kn workspace handled True c = (r1, c1)" by fastforce
  obtain r2 c2 where s2: "add_paths kn handled write_roots c1 = (r2, c2)" by fastforce
  obtain r3 c3 where s3: "add_paths kn (handled AND readonly_rights) read_roots c2 = (r3, c3)" by fastforce
  obtain r4 c4 where s4: "add_paths kn (landlock_device_access handled) SPECIAL_DEVICE_PATHS c3 = (r4, c4)" by fastforce
  obtain r5 c5 where s5: "add_paths kn (handled AND readonly_rights) SPECIAL_DIRS c4 = (r5, c5)" by fastforce
  note f1 = add_landlock_path_cases [OF s1]
  note f2 = add_paths_result [OF s2] note f3 = add_paths_result [OF s3]
  note f4 = add_paths_result [OF s4] note f5 = add_paths_result [OF s5]
  have end_state: "c' = c1 \<or> c' = c5"
    using assms s1 s2 s3 s4 s5 f2 f3 f4 f5 by (cases r1) (simp_all add: add_all_paths_def Let_def)
  obtain rs1 where rs1: "cf_rules c1 = cf_rules c @ rs1"
    "list_all (rule_granted kn handled workspace read_roots write_roots) rs1"
    using f1(2) by (auto simp: rule_granted_def)
  obtain rs2 where rs2: "cf_rules c2 = cf_rules c1 @ rs2"
    "list_all (rule_granted kn handled workspace read_roots write_roots) rs2"
    using f2 unfolding list_all_iff rule_granted_def by fastforce
  obtain rs3 where rs3: "cf_rules c3 = cf_rules c2 @ rs3"
    "list_all (rule_granted kn handled workspace read_roots write_roots) rs3"
    using f3 unfolding list_all_iff rule_granted_def by fastforce
  obtain rs4 where rs4: "cf_rules c4 = cf_rules c3 @ rs4"
    "list_all (rule_granted kn handled workspace read_roots write_roots) rs4"
    using f4 unfolding list_all_iff rule_granted_def by fastforce
  obtain rs5 where rs5: "cf_rules c5 = cf_rules c4 @ rs5"
    "list_all (rule_granted kn handled workspace read_roots write_roots) rs5"
    using f5 unfolding list_all_iff rule_granted_def by fastforce
  from end_state show ?thesis
  proof
    assume "c' = c1"
    with rs1 f1(1) show ?thesis by blast
  next
    assume "c' = c5"
    moreover have "cf_fds c5 = cf_fds c" using f1(1) f2 f3 f4 f5 by simp
    moreover have "cf_rules c5 = cf_rules c @ (rs1 @ rs2 @ rs3 @ rs4 @ rs5)"
      by (simp add: rs1(1) rs2(1) rs3(1) rs4(1) rs5(1))
    ultimately show ?thesis using rs1(2) rs2(2) rs3(2) rs4(2) rs5(2)
      by (intro conjI exI [of _ "rs1 @ rs2 @ rs3 @ rs4 @ rs5"]) auto
  qed
qed

lemma and_within:
  fixes h a b :: access
  shows "((h AND a) AND b) AND NOT h = 0" "(h AND b) AND NOT h = 0" "((h AND a) AND b) AND NOT a = 0"
  by (rule bit_eqI, auto simp: bit_simps)+

lemma device_within: "landlock_device_access h AND NOT h = 0"
  and device_file_rights: "landlock_device_access h AND NOT file_rights = 0"
  unfolding landlock_device_access_def file_rights_def Let_def
  by (rule bit_eqI, auto simp: bit_simps)+

lemma and_zero_mono: "(a :: access) AND m = 0 \<Longrightarrow> (a AND b) AND m = 0"
  by (metis and.assoc and.commute and_zero_eq zero_and_eq)

lemma rule_granted_handled:
  "rule_granted kn h workspace read_roots write_roots (p, b) \<Longrightarrow> b AND NOT h = 0"
  by (auto simp: rule_granted_def and_within intro: and_zero_mono [OF device_within])

lemma rule_granted_read_only:
  "rule_granted kn h workspace read_roots write_roots (p, b) \<Longrightarrow>
   p \<notin> set (workspace # write_roots) \<Longrightarrow> p \<notin> set SPECIAL_DEVICE_PATHS \<Longrightarrow> b AND NOT readonly_rights = 0"
  by (auto simp: rule_granted_def and_within)

lemma rule_granted_no_make:
  "rule_granted kn h workspace read_roots write_roots (p, b) \<Longrightarrow>
   p \<notin> set (workspace # write_roots) \<Longrightarrow> b AND NOT (readonly_rights OR file_rights) = 0"
proof -
  assume g: "rule_granted kn h workspace read_roots write_roots (p, b)" "p \<notin> set (workspace # write_roots)"
  have "b AND NOT readonly_rights = 0 \<or> b AND NOT file_rights = 0"
    using g by (auto simp: rule_granted_def and_within intro: and_zero_mono [OF device_file_rights])
  then show ?thesis by (auto simp: bit_eq_iff bit_simps)
qed

lemma rule_granted_file:
  "rule_granted kn h workspace read_roots write_roots (p, b) \<Longrightarrow> kn_stat_dir kn p = Some False \<Longrightarrow>
   b AND NOT file_rights = 0"
  unfolding rule_granted_def landlock_path_allowed_access_def
  by (auto simp: bit_eq_iff bit_simps)

section \<open>Digits\<close>

lemma int_digits_all:
  "xs \<noteq> [] \<or> b \<Longrightarrow> list_all ch_digit xs \<Longrightarrow>
   int_digits b n xs = Some (foldl (\<lambda>m c. m * 10 + (ch_code c - 48)) n xs)"
  by (induction xs arbitrary: b n) auto

lemma nat_str_nonempty [simp]: "nat_str n \<noteq> []"
  by (subst nat_str.simps) simp

lemma digits_val_nat_str: "digits_val (nat_str n) = n"
proof (induction n rule: nat_str.induct)
  case (1 n)
  then show ?case
    by (subst nat_str.simps) (simp add: digits_val_def)
qed

lemma py_int_nat_str: "py_int (nat_str n) = Some (int n)"
proof -
  have d: "list_all ch_digit (nat_str n)" using nat_str_digits by (simp add: list_all_iff)
  then have free: "\<forall>c \<in> set (nat_str n). \<not> ch_space c"
    by (auto simp: list_all_iff ch_digit_def ch_space_def Let_def)
  then have st: "strip_str (nat_str n) = nat_str n"
    by (simp add: strip_str_def strip_by_def dropWhile_eq_self_iff hd_in_set rev_swap last_rev hd_rev)
  obtain c cs where cs: "nat_str n = c # cs" using nat_str_nonempty by (cases "nat_str n") auto
  have "ch_digit c" using d cs by simp
  then have "c \<noteq> CHR ''-''" "c \<noteq> CHR ''+''" by (auto simp: ch_digit_def ch_code_def)
  then have "py_int (nat_str n) = map_option int (int_digits False 0 (nat_str n))"
    unfolding py_int_def st unfolding cs by simp
  also have "\<dots> = Some (int n)"
    using int_digits_all [OF _ d] digits_val_nat_str [of n] by (simp add: digits_val_def)
  finally show ?thesis .
qed

section \<open>Properties\<close>

text \<open>
  C28: the ruleset grants no more than it should, on every way out.  Every rule the kernel was given
  stays within the handled rights; a path that is neither the workspace nor a write root gets no
  right to create, remove, rename or link anything, and unless it is one of the four special
  devices nothing beyond executing and reading; a path that is not a directory gets file rights
  only.  The descriptor of the ruleset is the only one left open on success, and none on failure.
\<close>

theorem landlock_rules_confined:
  assumes "open_landlock_ruleset kn workspace read_roots write_roots c = (r, c')"
  shows "(\<exists>rs. cf_rules c' = cf_rules c @ rs \<and>
      (\<forall>(p, b) \<in> set rs.
         b AND NOT (landlock_handled_access (kn_abi kn)) = 0 \<and>
         (p \<notin> set (workspace # write_roots) \<longrightarrow> b AND NOT (readonly_rights OR file_rights) = 0) \<and>
         (p \<notin> set (workspace # write_roots) \<and> p \<notin> set SPECIAL_DEVICE_PATHS \<longrightarrow> b AND NOT readonly_rights = 0) \<and>
         (kn_stat_dir kn p = Some False \<longrightarrow> b AND NOT file_rights = 0))) \<and>
    (case r of Inl _ \<Rightarrow> cf_fds c' = cf_fds c | Inr fd \<Rightarrow> fd = kn_create kn \<and> cf_fds c' = fd # cf_fds c)"
proof -
  let ?h = "landlock_handled_access (kn_abi kn)"
  let ?start = "c\<lparr>cf_fds := kn_create kn # cf_fds c\<rparr>"
  consider e where "r = Inl e" "c' = c"
    | r1 c1 where "add_all_paths kn ?h workspace read_roots write_roots ?start = (r1, c1)"
        "cf_rules c' = cf_rules c1"
        "case r of Inl _ \<Rightarrow> cf_fds c' = remove1 (kn_create kn) (cf_fds c1)
                 | Inr fd \<Rightarrow> fd = kn_create kn \<and> cf_fds c' = cf_fds c1"
    using assms
    by (auto simp: open_landlock_ruleset_def landlock_abi_version_def Let_def
        split: if_splits prod.splits sum.splits)
  then show ?thesis
  proof cases
    case 2
    from add_all_paths_result [OF 2(1)] obtain rs where rs: "cf_fds c1 = kn_create kn # cf_fds c"
      "cf_rules c1 = cf_rules c @ rs" "list_all (rule_granted kn ?h workspace read_roots write_roots) rs" by auto
    have granted: "rule_granted kn ?h workspace read_roots write_roots (p, b)" if "(p, b) \<in> set rs" for p b
      using rs(3) that by (auto simp: list_all_iff)
    have "\<forall>(p, b) \<in> set rs. b AND NOT ?h = 0 \<and>
         (p \<notin> set (workspace # write_roots) \<longrightarrow> b AND NOT (readonly_rights OR file_rights) = 0) \<and>
         (p \<notin> set (workspace # write_roots) \<and> p \<notin> set SPECIAL_DEVICE_PATHS \<longrightarrow> b AND NOT readonly_rights = 0) \<and>
         (kn_stat_dir kn p = Some False \<longrightarrow> b AND NOT file_rights = 0)"
      using rule_granted_handled [OF granted] rule_granted_no_make [OF granted] rule_granted_read_only [OF granted]
        rule_granted_file [OF granted] by fast
    moreover have "case r of Inl _ \<Rightarrow> cf_fds c' = cf_fds c | Inr fd \<Rightarrow> fd = kn_create kn \<and> cf_fds c' = fd # cf_fds c"
      using 2(3) rs(1) by (cases r) simp_all
    ultimately show ?thesis using 2(2) rs(2) by (intro conjI exI [of _ rs]) simp_all
  qed simp
qed

definition demo_kernel :: kernel where
  "demo_kernel = \<lparr>kn_linux = True, kn_abi = 3, kn_create = 7, kn_open = (\<lambda>_. Some 8),
     kn_stat_dir = (\<lambda>p. Some (p \<in> {''/w'', ''/usr''})), kn_add_rule = (\<lambda>_ _. 0)\<rparr>"

theorem landlock_rules_confined_witness:
  "\<exists>c'. open_landlock_ruleset demo_kernel ''/w'' [''/usr''] [] \<lparr>cf_rules = [], cf_fds = []\<rparr> = (Inr 7, c') \<and>
     cf_fds c' = [7] \<and> (\<forall>(p, b) \<in> set (cf_rules c'). p = ''/usr'' \<longrightarrow> b AND FS_WRITE_FILE = 0)"
proof -
  let ?o = "open_landlock_ruleset demo_kernel ''/w'' [''/usr''] [] \<lparr>cf_rules = [], cf_fds = []\<rparr>"
  have "fst ?o = Inr 7"
    by (simp add: open_landlock_ruleset_def landlock_abi_version_def add_all_paths_def add_landlock_path_def
        demo_kernel_def Let_def SPECIAL_DEVICE_PATHS_def SPECIAL_DIRS_def)
  then have o: "?o = (Inr 7, snd ?o)" by (metis prod.collapse)
  from landlock_rules_confined [OF o] have fds: "cf_fds (snd ?o) = [7]"
    and ro: "\<forall>(p, b) \<in> set (cf_rules (snd ?o)). p = ''/usr'' \<longrightarrow> b AND NOT readonly_rights = 0"
    by (auto simp: SPECIAL_DEVICE_PATHS_def)
  have "b AND FS_WRITE_FILE = 0" if "b AND NOT readonly_rights = 0" for b
  proof -
    have "FS_WRITE_FILE = NOT readonly_rights AND FS_WRITE_FILE" by (simp add: rights readonly_rights_def)
    with that show ?thesis by (metis and.assoc zero_and_eq)
  qed
  with o fds ro show ?thesis by (intro exI [of _ "snd ?o"]) auto
qed

text \<open>
  The helper becomes a program only under its restrictions.  If \<open>main\<close> executes anything, both
  \<^verbatim>\<open>no_new_privs\<close> and \<^verbatim>\<open>restrict_self\<close> on the given ruleset succeeded before, in this order, and the
  descriptor was closed; in every other case the exit code is 126 and nothing is executed.
\<close>

theorem helper_exec_confined:
  "(case helper_main he args of
      (evs, Some code) \<Rightarrow> code = 126 \<and> (\<nexists>prog argv. Exec prog argv \<in> set evs)
    | (evs, None) \<Rightarrow> \<exists>fd prog argv. evs = [No_new_privs, Restrict_self fd, Close_fd fd, Exec prog argv] \<and>
        py_int (args ! 0) = Some fd \<and> he_linux he \<and> he_prctl he = 0 \<and> he_restrict he fd = 0)"
  by (auto simp: helper_main_def Let_def split: option.splits)

text \<open>
  The wrapper and the helper together.  A shell text and an argument vector of at least two words
  come out as they went in, for every descriptor; an argument vector of one word does not: the
  helper hands the word to a shell, which splits and interprets it.
\<close>

theorem helper_runs_command:
  assumes "he_linux he" "he_prctl he = 0" "he_restrict he (int fd) = 0"
  shows "fst (helper_main he (drop 2 (landlock_exec_argv py helper (int fd) cmd))) =
    (case cmd of
       Shell_text t \<Rightarrow> [No_new_privs, Restrict_self (int fd), Close_fd (int fd), Exec (helper_shell he) [helper_shell he, ''-c'', t]]
     | Argv [] \<Rightarrow> []
     | Argv [w] \<Rightarrow> [No_new_privs, Restrict_self (int fd), Close_fd (int fd), Exec (helper_shell he) [helper_shell he, ''-c'', w]]
     | Argv (w # v # ws) \<Rightarrow> [No_new_privs, Restrict_self (int fd), Close_fd (int fd), Exec w (w # v # ws)])"
  using assms py_int_nat_str [of fd]
  by (auto simp: helper_main_def landlock_exec_argv_def int_str_def split: command.split list.split)

theorem helper_runs_command_witness:
  "fst (helper_main \<lparr>he_linux = True, he_prctl = 0, he_restrict = (\<lambda>_. 0), he_SHELL = None, he_which_sh = Some ''/bin/sh''\<rparr>
     (drop 2 (landlock_exec_argv ''python'' ''h'' (int 7) (Argv [''my tool''])))) =
   [No_new_privs, Restrict_self 7, Close_fd 7, Exec ''/bin/sh'' [''/bin/sh'', ''-c'', ''my tool'']]"
  by (subst helper_runs_command) (simp_all add: helper_shell_def)

text \<open>
  The readable roots are absolute, sorted and without duplicates, and an entry of \<^verbatim>\<open>PATH\<close> contributes
  only a directory below one of the system prefixes.
\<close>

lemma guard_allow_roots_sound:
  "sorted (guard_allow_roots ge j p x)" "distinct (guard_allow_roots ge j p x)"
  "r \<in> set (guard_allow_roots ge j p x) \<Longrightarrow> startswith r ''/''"
  "q \<in> set (path_env_roots ge p) \<Longrightarrow> \<exists>s \<in> set (resolved_system_path_root_prefixes ge). q = s \<or> is_relative_to q s"
  by (auto simp: guard_allow_roots_def path_env_roots_def is_default_system_path_root_def list_ex_iff Let_def
      split: option.splits if_splits)

end
