(* ===== verification/ToolResults.thy ===== *)
theory ToolResults
  imports TextUtils Arguments
begin

text \<open>
  \<^verbatim>\<open>tool_results.py\<close>: the text a model sees of a tool's payload, its safety ceiling, and the result
  object.  A payload is a JSON object; its strings are strings of characters, the rendered text is a
  text of code points (\<open>lit\<close> embeds one in the other), since the renderers add an ellipsis and a
  multiplication sign.  The parameter \<open>other\<close> is Python's \<^verbatim>\<open>str\<close> of floats, lists and objects.
\<close>

type_synonym str_of = "json \<Rightarrow> string"

section \<open>Reading a payload\<close>

text \<open>\<^verbatim>\<open>payload.get(k, d)\<close>, \<^verbatim>\<open>a or b\<close>, an f-string hole, and the narrowing to a dict or a list.\<close>

definition get_or :: "obj \<Rightarrow> string \<Rightarrow> json \<Rightarrow> json" where
  "get_or ob k d = (case map_of ob k of None \<Rightarrow> d | Some v \<Rightarrow> v)"

definition py_or :: "json \<Rightarrow> json \<Rightarrow> json" where
  "py_or a b = (if json_falsy a then b else a)"

definition hole :: "str_of \<Rightarrow> json \<Rightarrow> pytext" where
  "hole other v = lit (py_str other v)"

definition as_obj :: "json \<Rightarrow> obj" where
  "as_obj v = (case v of JObj ob \<Rightarrow> ob | _ \<Rightarrow> [])"

definition as_list :: "json \<Rightarrow> json list" where
  "as_list v = (case v of JList vs \<Rightarrow> vs | _ \<Rightarrow> [])"

definition dicts_of :: "json list \<Rightarrow> obj list" where
  "dicts_of vs = concat (map (\<lambda>v. case v of JObj ob \<Rightarrow> [ob] | _ \<Rightarrow> []) vs)"

definition flag :: "obj \<Rightarrow> string \<Rightarrow> bool" where
  "flag ob k \<longleftrightarrow> \<not> json_falsy (obj_get ob k)"

text \<open>A non-empty string, the test most renderers use.\<close>

definition nonempty_str :: "json \<Rightarrow> string option" where
  "nonempty_str v = (case v of JStr (c # cs) \<Rightarrow> Some (c # cs) | _ \<Rightarrow> None)"

definition newline :: pytext where "newline = [10]"
definition ellipsis :: pytext where "ellipsis = [0x2026]"

definition join_lines :: "pytext list \<Rightarrow> pytext" where
  "join_lines ls = join newline ls"

section \<open>JSON text\<close>

text \<open>\<^verbatim>\<open>json.dumps(value, ensure_ascii=False, separators=(",", ":"))\<close>.\<close>

definition dumps_char :: "char \<Rightarrow> string" where
  "dumps_char c =
     (let n = ch_code c in
      if c = CHR 34 then [CHR 92, c] else if n = 92 then [CHR 92, CHR 92]
      else if n = 10 then [CHR 92, CHR ''n''] else if n = 13 then [CHR 92, CHR ''r'']
      else if n = 9 then [CHR 92, CHR ''t''] else if n = 8 then [CHR 92, CHR ''b'']
      else if n = 12 then [CHR 92, CHR ''f'']
      else if n < 32 then [CHR 92] @ ''u00'' @ [if n < 16 then CHR ''0'' else CHR ''1'',
        if n mod 16 < 10 then char_of (48 + n mod 16) else char_of (87 + n mod 16)]
      else [c])"

definition dumps_str :: "string \<Rightarrow> string" where
  "dumps_str s = [CHR 34] @ concat (map dumps_char s) @ [CHR 34]"

fun dumps :: "str_of \<Rightarrow> json \<Rightarrow> string"
  and dumps_items :: "str_of \<Rightarrow> json list \<Rightarrow> string"
  and dumps_members :: "str_of \<Rightarrow> obj \<Rightarrow> string" where
  "dumps other JNull = ''null''"
| "dumps other (JBool b) = (if b then ''true'' else ''false'')"
| "dumps other (JInt n) = int_str n"
| "dumps other (JFloat x) = other (JFloat x)"
| "dumps other (JStr s) = dumps_str s"
| "dumps other (JList vs) = ''['' @ dumps_items other vs @ '']''"
| "dumps other (JObj ob) = ''{'' @ dumps_members other ob @ ''}''"
| "dumps_items other [] = []"
| "dumps_items other [v] = dumps other v"
| "dumps_items other (v # w # vs) = dumps other v @ '','' @ dumps_items other (w # vs)"
| "dumps_members other [] = []"
| "dumps_members other [(k, v)] = dumps_str k @ '':'' @ dumps other v"
| "dumps_members other ((k, v) # e # ob) = dumps_str k @ '':'' @ dumps other v @ '','' @ dumps_members other (e # ob)"

definition render_tool_call :: "str_of \<Rightarrow> string \<Rightarrow> obj \<Rightarrow> string" where
  "render_tool_call other tool arguments =
     tool @ ''('' @ join '', '' (map (\<lambda>(k, v). k @ ''='' @ dumps other v) arguments) @ '')''"

definition render_next_action :: "str_of \<Rightarrow> obj \<Rightarrow> string" where
  "render_next_action other payload =
     (case obj_get payload ''next_action'' of
        JObj a \<Rightarrow> (case (obj_get a ''tool'', obj_get a ''arguments'') of
                    (JStr tool, JObj args) \<Rightarrow> render_tool_call other tool args | _ \<Rightarrow> [])
      | _ \<Rightarrow> [])"

section \<open>Renderers\<close>

definition error_suggestions :: "json \<Rightarrow> pytext list" where
  "error_suggestions diagnostics =
     concat (map (\<lambda>item. case nonempty_str (py_or (obj_get item ''suggested_fix'') (obj_get item ''suggested_next_command'')) of
         Some t \<Rightarrow> [lit (''Suggested action: '' @ t)] | None \<Rightarrow> []) (dicts_of (as_list diagnostics)))"

definition render_error :: "str_of \<Rightarrow> obj \<Rightarrow> pytext" where
  "render_error other payload =
     (let error = as_obj (obj_get payload ''error'');
          code = py_str other (py_or (obj_get error ''code'') (JStr ''TOOL_ERROR''));
          message = py_str other (py_or (obj_get error ''message'') (JStr ''Tool call failed.''));
          details = as_obj (obj_get error ''details'');
          retry = (case nonempty_str (obj_get details ''retry_hint'') of
                     Some h \<Rightarrow> [lit (''Retry: '' @ h)] | None \<Rightarrow> []) in
      join_lines ([lit (code @ '': '' @ message)] @ retry @ error_suggestions (obj_get payload ''diagnostics'')))"

definition render_server_info :: "str_of \<Rightarrow> obj \<Rightarrow> pytext" where
  "render_server_info other payload =
     hole other (get_or payload ''server'' (JStr ''devmcp-runtime'')) @ lit '' '' @
     hole other (get_or payload ''version'' (JStr ''unknown'')) @ newline @
     lit ''Workspace: '' @ hole other (get_or payload ''workspace'' (JStr ''.''))"

definition render_exec_environment :: "str_of \<Rightarrow> obj \<Rightarrow> pytext" where
  "render_exec_environment other payload =
     (let landlock = as_obj (obj_get payload ''landlock'');
          state = (if flag landlock ''available'' then ''available'' else ''unavailable'');
          warnings = as_list (obj_get payload ''warnings'') in
      lit (''Execution environment checked. Landlock: '' @ state @ ''.'') @
      (if warnings = [] then [] else newline @ join_lines (map (hole other) warnings)))"

definition render_cwd :: "str_of \<Rightarrow> obj \<Rightarrow> pytext" where
  "render_cwd other payload = lit ''Default working directory: '' @ hole other (get_or payload ''default_cwd'' (JStr ''.''))"

definition render_read_file :: "str_of \<Rightarrow> obj \<Rightarrow> pytext" where
  "render_read_file other payload =
     (case obj_get payload ''content'' of
        JStr body \<Rightarrow>
          if \<not> flag payload ''truncated'' then lit body
          else
            (let q = JStr ''?'';
                 shown = ''Showing lines '' @ py_str other (get_or payload ''start_line'' q) @ ''-'' @
                   py_str other (get_or payload ''end_line'' q) @ '' of '' @ py_str other (get_or payload ''total_lines'' q);
                 next_start = obj_get payload ''next_start_line'';
                 next0 = render_next_action other payload;
                 next_call = (if next0 = [] \<and> \<not> json_falsy next_start
                   then render_tool_call other ''read_file'' [(''path'', get_or payload ''path'' (JStr [])), (''start_line'', next_start)]
                   else next0);
                 hint = (if next_call \<noteq> [] then ''; continue with '' @ next_call
                         else ''; content truncated; raise max_bytes or request a narrower range'') in
             lit (''['' @ shown @ hint @ '']'') @ newline @ lit body)
      | _ \<Rightarrow> [])"

definition render_list :: "str_of \<Rightarrow> obj \<Rightarrow> pytext" where
  "render_list other payload =
     (let entries = (case obj_get payload ''entries'' of JList vs \<Rightarrow> JList vs | _ \<Rightarrow> obj_get payload ''files'') in
      if as_list entries = [] then lit ''No entries found.''
      else join_lines (map (\<lambda>item.
               let kind = obj_get item ''type'' in
               hole other (py_or (obj_get item ''path'') (obj_get item ''name'')) @
               (if json_falsy kind then [] else lit ('' ['' @ py_str other kind @ '']''))) (dicts_of (as_list entries)) @
             (if flag payload ''truncated''
              then [ellipsis @ lit '' results truncated; narrow the path/patterns or raise the entry limit.''] else [])))"

definition match_lines :: "str_of \<Rightarrow> obj \<Rightarrow> pytext list" where
  "match_lines other item =
     (let e = JStr []; column = get_or item ''column'' e in
      [hole other (get_or item ''path'' e) @ lit '':'' @ hole other (get_or item ''line'' e) @
       (if json_falsy column then [] else lit '':'' @ hole other column) @ lit '': '' @ hole other (get_or item ''preview'' e)] @
      map (\<lambda>v. lit ''  '' @ hole other v) (as_list (obj_get item ''before'')) @
      map (\<lambda>v. lit ''  '' @ hole other v) (as_list (obj_get item ''after'')))"

definition render_search :: "str_of \<Rightarrow> obj \<Rightarrow> pytext" where
  "render_search other payload =
     (let ms = as_list (obj_get payload ''matches'') in
      if ms = [] then lit ''No matches found.''
      else join_lines (concat (map (match_lines other) (dicts_of ms)) @
        (if \<not> flag payload ''truncated'' then []
         else case obj_get payload ''total_matches'' of
             JInt n \<Rightarrow> [ellipsis @ lit ('' showing '' @ nat_str (length (dicts_of ms)) @ '' of '' @ int_str n @
               (if json_falsy (get_or payload ''total_matches_exact'' (JBool True)) then ''+'' else []) @
               '' matches; narrow the query/path or raise max_results.'')]
           | JBool b \<Rightarrow> [ellipsis @ lit ('' showing '' @ nat_str (length (dicts_of ms)) @ '' of '' @ (if b then ''True'' else ''False'') @
               (if json_falsy (get_or payload ''total_matches_exact'' (JBool True)) then ''+'' else []) @
               '' matches; narrow the query/path or raise max_results.'')]
           | _ \<Rightarrow> [ellipsis @ lit '' results truncated; narrow the query/path or raise max_results.''])))"

definition render_patch :: "str_of \<Rightarrow> obj \<Rightarrow> pytext" where
  "render_patch other payload =
     (let verb = (if flag payload ''dry_run'' then ''Patch validated'' else ''Patch applied'');
          count = length (as_list (obj_get payload ''affected_files''));
          changes = '' (+'' @ py_str other (get_or payload ''additions'' (JInt 0)) @ '' -'' @
            py_str other (get_or payload ''removals'' (JInt 0)) @ '')'';
          summary = strip_str (py_str other (py_or (obj_get payload ''summary'') (JStr []))) in
      lit (verb @ '' to '' @ nat_str count @ '' file'' @ (if count = 1 then [] else ''s'') @ changes @ ''.'') @
      (if summary = [] then [] else newline @ lit summary))"

definition exec_header :: "str_of \<Rightarrow> obj \<Rightarrow> string list" where
  "exec_header other payload =
     [''Status: '' @ py_str other (get_or payload ''status'' (JStr ''unknown''))] @
     (case obj_get payload ''command_success'' of
        JBool b \<Rightarrow> [''command_success='' @ (if b then ''true'' else ''false'')] | _ \<Rightarrow> []) @
     (if obj_get payload ''exit_code'' = JNull then [] else [''exit code '' @ py_str other (obj_get payload ''exit_code'')]) @
     (if flag payload ''signal'' then [''signal '' @ py_str other (obj_get payload ''signal'')] else []) @
     (if flag payload ''timed_out'' then [''timed out''] else []) @
     (case obj_get payload ''elapsed_ms'' of
        JInt n \<Rightarrow> [int_str n @ '' ms'']
      | JBool b \<Rightarrow> [(if b then ''1'' else ''0'') @ '' ms'']
      | JFloat x \<Rightarrow> [int_str (if x < 0 then - \<lfloor>- x\<rfloor> else \<lfloor>x\<rfloor>) @ '' ms'']
      | _ \<Rightarrow> [])"

text \<open>The streams whose output was cut: as reported, or else by their own flags, or else by the preview's.\<close>

definition cut_streams :: "obj \<Rightarrow> string list" where
  "cut_streams payload =
     (let refs = as_obj (obj_get payload ''output_refs'');
          both = [''stdout'', ''stderr''];
          reported = concat (map (\<lambda>v. case v of JStr t \<Rightarrow> if t \<in> set both then [t] else [] | _ \<Rightarrow> [])
                       (as_list (obj_get payload ''truncated_output_streams'')));
          flagged = filter (\<lambda>t. flag payload (t @ ''_truncated'') \<or>
                       (case obj_get payload (t @ ''_omitted_bytes'') of JInt n \<Rightarrow> 0 < n | JBool b \<Rightarrow> b | _ \<Rightarrow> False)) both;
          found = (if reported = [] then flagged else reported) in
      if found = [] \<and> flag payload ''preview_truncated'' then filter (flag refs) both else found)"

fun stream_continuations :: "str_of \<Rightarrow> obj \<Rightarrow> string list \<Rightarrow> string list \<Rightarrow> string list" where
  "stream_continuations other refs seen [] = []"
| "stream_continuations other refs seen (t # ts) =
     (case nonempty_str (obj_get refs t) of
        Some r \<Rightarrow>
          if r \<in> set seen then stream_continuations other refs seen ts
          else (t @ '' output truncated; continue with '' @
                render_tool_call other ''read_output'' [(''output_ref'', JStr r), (''offset'', JInt 0)] @ ''.'')
               # stream_continuations other refs (r # seen) ts
      | None \<Rightarrow> stream_continuations other refs seen ts)"

definition render_exec_continuations :: "str_of \<Rightarrow> obj \<Rightarrow> string list" where
  "render_exec_continuations other payload =
     (let cs = stream_continuations other (as_obj (obj_get payload ''output_refs'')) [] (cut_streams payload) in
      if cs \<noteq> [] then cs
      else case nonempty_str (obj_get payload ''output_ref'') of
          Some r \<Rightarrow> [''Output truncated; continue with '' @
            render_tool_call other ''read_output'' [(''output_ref'', JStr r), (''offset'', JInt 0)] @ ''.'']
        | None \<Rightarrow> [])"

definition exec_sections :: "str_of \<Rightarrow> obj \<Rightarrow> string list" where
  "exec_sections other payload =
     (let s0 = [join '' | '' (exec_header other payload)];
          s1 = s0 @ (case nonempty_str (obj_get payload ''stdout'') of Some t \<Rightarrow> [t] | None \<Rightarrow> []) @
            (case nonempty_str (obj_get payload ''stderr'') of Some t \<Rightarrow> [''stderr:'' @ [CHR 10] @ t] | None \<Rightarrow> []);
          s2 = s1 @ (case nonempty_str (obj_get payload ''preview'') of Some t \<Rightarrow> if length s1 = 1 then [t] else [] | None \<Rightarrow> []);
          s3 = s2 @ (case nonempty_str (obj_get payload ''summary'') of Some t \<Rightarrow> if length s2 = 1 then [t] else [] | None \<Rightarrow> []) in
      s3)"

definition render_exec :: "str_of \<Rightarrow> obj \<Rightarrow> pytext" where
  "render_exec other payload =
     (let session_id = obj_get payload ''session_id'';
          next_call = render_next_action other payload;
          running = (if obj_get payload ''status'' = JStr ''running'' \<and> \<not> json_falsy session_id
            then [''Session still running; '' @
                  (if next_call \<noteq> [] then ''continue with '' @ next_call @ ''.''
                   else ''poll with write_stdin(session_id='' @ [CHR 34] @ py_str other session_id @ [CHR 34] @ '', chars='' @
                     [CHR 34, CHR 34] @ '', yield_time_ms=10000).'')]
            else []);
          cut = (if flag payload ''truncated''
            then (let cs = render_exec_continuations other payload in
                  if cs \<noteq> [] then cs
                  else [''Output truncated; use read_output with the returned output_ref to read more.''])
            else []) in
      join_lines (map lit (exec_sections other payload @ running @ cut)))"

definition render_read_output :: "str_of \<Rightarrow> obj \<Rightarrow> pytext" where
  "render_read_output other payload =
     (case obj_get payload ''content'' of
        JStr body \<Rightarrow>
          (let next_offset = obj_get payload ''next_offset'' in
           if next_offset = JNull then lit body
           else
             (let next0 = render_next_action other payload;
                  ref = py_or (py_or (obj_get payload ''stream_output_ref'') (obj_get payload ''output_ref'')) (JStr []);
                  next_call = (if next0 = [] then render_tool_call other ''read_output'' [(''output_ref'', ref), (''offset'', next_offset)]
                               else next0) in
              lit body @ newline @ lit (''[more: '' @ next_call @ '']'')))
      | _ \<Rightarrow> [])"

definition render_kill :: "str_of \<Rightarrow> obj \<Rightarrow> pytext" where
  "render_kill other payload =
     lit (''Session '' @ py_str other (get_or payload ''session_id'' (JStr [])) @ '': '' @
       py_str other (get_or payload ''status'' (JStr ''completed'')) @
       (case nonempty_str (obj_get payload ''signal_sent'') of Some t \<Rightarrow> '' (signal '' @ t @ '')'' | None \<Rightarrow> []) @ ''.'')"

definition render_git_status :: "str_of \<Rightarrow> obj \<Rightarrow> pytext" where
  "render_git_status other payload =
     (if json_falsy (get_or payload ''is_repo'' (JBool True)) then lit ''Not a Git repository.''
      else
        (let entries = as_list (obj_get payload ''entries'') in
         join_lines ([lit ''## '' @ hole other (py_or (obj_get payload ''branch'') (JStr ''detached''))] @
           map (\<lambda>e. hole other (get_or e ''index_status'' (JStr '' '')) @ hole other (get_or e ''worktree_status'' (JStr '' '')) @
                    lit '' '' @ hole other (get_or e ''path'' (JStr []))) (dicts_of entries) @
           (if entries = [] then [lit ''Working tree clean.''] else []) @
           (if flag payload ''truncated'' then [ellipsis @ lit '' status entries truncated; narrow path or raise max_entries.''] else []))))"

definition render_key :: "obj \<Rightarrow> string \<Rightarrow> string \<Rightarrow> pytext" where
  "render_key payload k fallback = lit (case nonempty_str (obj_get payload k) of Some t \<Rightarrow> t | None \<Rightarrow> fallback)"

definition render_git_diff :: "obj \<Rightarrow> pytext" where
  "render_git_diff payload =
     render_key payload ''diff'' ''No diff.'' @
     (if flag payload ''truncated'' then newline @ ellipsis @ lit '' diff truncated; raise max_bytes or diff specific paths.'' else [])"

definition render_git_show :: "obj \<Rightarrow> pytext" where
  "render_git_show payload =
     render_key payload ''content'' ''No output.'' @
     (if flag payload ''truncated'' then newline @ ellipsis @ lit '' output truncated; raise max_bytes or narrow paths.'' else [])"

definition continue_or :: "str_of \<Rightarrow> obj \<Rightarrow> string \<Rightarrow> string \<Rightarrow> pytext" where
  "continue_or other payload what fallback =
     (if flag payload ''truncated''
      then newline @ ellipsis @ lit what @
        lit (let next_call = render_next_action other payload in
             if next_call \<noteq> [] then ''; continue with '' @ next_call @ ''.'' else fallback)
      else [])"

definition render_git_log :: "str_of \<Rightarrow> obj \<Rightarrow> pytext" where
  "render_git_log other payload =
     (let commits = as_list (obj_get payload ''commits'') in
      if commits = [] then lit ''No commits found.''
      else join_lines (map (\<lambda>c. hole other (get_or c ''short_hash'' (JStr [])) @ lit '' '' @ hole other (get_or c ''subject'' (JStr [])))
             (dicts_of commits)) @
           continue_or other payload '' more commits available'' ''; raise max_count or use skip.'')"

definition render_git_blame :: "str_of \<Rightarrow> obj \<Rightarrow> pytext" where
  "render_git_blame other payload =
     (let ls = as_list (obj_get payload ''lines'') in
      if ls = [] then lit ''No blame lines found.''
      else join_lines (map (\<lambda>l. hole other (get_or l ''line'' (JStr [])) @ lit '' '' @ hole other (get_or l ''commit'' (JStr [])) @
               lit '' '' @ hole other (get_or l ''content'' (JStr []))) (dicts_of ls)) @
           continue_or other payload '' blame lines truncated'' ''; raise max_lines or advance start_line.'')"

definition render_image :: "str_of \<Rightarrow> obj \<Rightarrow> pytext" where
  "render_image other payload =
     lit ''Image: '' @ hole other (get_or payload ''path'' (JStr [])) @ lit '' ('' @
     hole other (get_or payload ''mime_type'' (JStr ''unknown'')) @
     (if flag payload ''width'' \<and> flag payload ''height''
      then lit '', '' @ hole other (obj_get payload ''width'') @ [0xD7] @ hole other (obj_get payload ''height'') else []) @ lit '')''"

definition RENDERERS :: "str_of \<Rightarrow> (string \<times> (obj \<Rightarrow> pytext)) list" where
  "RENDERERS other =
     [(''server_info'', render_server_info other), (''check_exec_environment'', render_exec_environment other),
      (''get_default_cwd'', render_cwd other), (''set_default_cwd'', render_cwd other),
      (''read_file'', render_read_file other), (''list_dir'', render_list other), (''list_files'', render_list other),
      (''search_text'', render_search other), (''apply_patch'', render_patch other), (''exec_command'', render_exec other),
      (''write_stdin'', render_exec other), (''kill_session'', render_kill other), (''read_output'', render_read_output other),
      (''git_status'', render_git_status other), (''git_diff'', render_git_diff), (''git_log'', render_git_log other),
      (''git_show'', render_git_show), (''git_blame'', render_git_blame other), (''view_image'', render_image other)]"

definition render_tool_text :: "str_of \<Rightarrow> string \<Rightarrow> obj \<Rightarrow> bool \<Rightarrow> pytext" where
  "render_tool_text other tool_name payload is_error =
     (if is_error \<or> obj_get payload ''ok'' = JBool False then render_error other payload
      else case map_of (RENDERERS other) tool_name of
          Some renderer \<Rightarrow> renderer payload
        | None \<Rightarrow>
            (case nonempty_str (obj_get payload ''summary'') of
               Some t \<Rightarrow> lit t
             | None \<Rightarrow> lit (tool_name @ '': '' @ py_str other (py_or (obj_get payload ''status'') (JStr ''completed'')) @ ''.'')))"

section \<open>The ceiling and the result\<close>

definition MODEL_TEXT_SAFETY_LIMIT_BYTES :: nat where
  "MODEL_TEXT_SAFETY_LIMIT_BYTES = 2 * 1048576 + 65536"

text \<open>\<^verbatim>\<open>data.decode("utf-8", errors="ignore")\<close> drops the ill-formed sequences.\<close>

definition decode_ignore :: "bytes \<Rightarrow> pytext" where
  "decode_ignore bs = concat (map (\<lambda>r. case r of Some c \<Rightarrow> [c] | None \<Rightarrow> []) (decode_nats (map unat bs)))"

definition ceiling_suffix :: "string \<Rightarrow> pytext" where
  "ceiling_suffix tool_name =
     newline @ ellipsis @ lit ('' '' @ tool_name @ '' model text reached the '' @ nat_str MODEL_TEXT_SAFETY_LIMIT_BYTES @
       ''-byte safety ceiling; retry with narrower paths or limits.'')"

definition bounded_model_text :: "pytext \<Rightarrow> string \<Rightarrow> pytext result" where
  "bounded_model_text val tool_name =
     rbind (py_encode val) (\<lambda>encoded.
       if length encoded \<le> MODEL_TEXT_SAFETY_LIMIT_BYTES then Inr val
       else
         let suffix = ceiling_suffix tool_name;
             preview_budget = MODEL_TEXT_SAFETY_LIMIT_BYTES - length (utf8 suffix) in
         Inr (decode_ignore (take preview_budget encoded) @ suffix))"

text \<open>A content block and the result: \<open>content\<close>, \<open>structuredContent\<close> and \<open>isError\<close>.\<close>

datatype content_block = Text_block pytext | Image_block string string

record tool_result =
  tr_content :: "content_block list"
  tr_structured :: obj
  tr_is_error :: bool

definition make_tool_result :: "str_of \<Rightarrow> string \<Rightarrow> obj \<Rightarrow> bool \<Rightarrow> content_block list \<Rightarrow> tool_result result" where
  "make_tool_result other tool_name payload is_error blocks =
     (let t = render_tool_text other tool_name payload is_error in
      rbind (if t = [] then Inr [] else rbind (bounded_model_text t tool_name) (\<lambda>b. Inr [Text_block b])) (\<lambda>extra.
        Inr \<lparr>tr_content = blocks @ extra, tr_structured = payload, tr_is_error = is_error\<rparr>))"

section \<open>Decoding a cut text\<close>

lemma decode1_Some:
  "decode1 (b # bs) = (Some c, k) \<Longrightarrow> k = seq_len b \<and> k \<le> length (b # bs)"
  by (auto simp: Let_def seq_len_def split: list.splits if_splits)

lemma decode1_None: "decode1 (b # bs) = (None, k) \<Longrightarrow> 0 < k"
  using decode1_pos [of b bs] by simp

lemma seq_len_cont: "cont_ok b \<Longrightarrow> seq_len b = 0"
  by (simp add: cont_ok_def seq_len_def)

lemma decode_nats_conts: "list_all cont_ok bs \<Longrightarrow> set (decode_nats bs) \<subseteq> {None}"
proof (induction bs rule: decode_nats.induct)
  case (2 b bs)
  then have "decode1 (b # bs) = (None, 1)" by (simp add: seq_len_cont)
  with 2 show ?case by simp
qed simp

lemma unat_encode1_shape:
  assumes "is_scalar c"
  obtains b bs where "map unat (encode1 c) = b # bs" "seq_len b = length (encode1 c)" "list_all cont_ok bs"
proof -
  have ne: "map unat (encode1 c) \<noteq> []" by simp
  then obtain b bs where b: "map unat (encode1 c) = b # bs" by (cases "map unat (encode1 c)") auto
  have "decode1 (b # bs) = (Some c, length (encode1 c))"
    using decode1_encode1 [OF assms, of "[]"] b by simp
  then have "seq_len b = length (encode1 c)" using decode1_Some by metis
  moreover have "list_all cont_ok bs"
    using encode1_tl [OF assms] b is_cont_unat
    by (auto simp: list_all_iff cont_ok_def map_eq_Cons_conv)
  ultimately show ?thesis by (intro that [OF b])
qed

text \<open>The start of one encoded character, cut before its end, decodes to nothing.\<close>

lemma decode_nats_partial:
  assumes "is_scalar c" "n < length (encode1 c)"
  shows "set (decode_nats (map unat (take n (encode1 c)))) \<subseteq> {None}"
proof (cases n)
  case (Suc m)
  obtain b bs where b: "map unat (encode1 c) = b # bs" "seq_len b = length (encode1 c)" "list_all cont_ok bs"
    by (rule unat_encode1_shape [OF assms(1)])
  have "map unat (take n (encode1 c)) = take n (map unat (encode1 c))" by (rule take_map [symmetric])
  then have t: "map unat (take n (encode1 c)) = b # take m bs" by (simp only: b(1) Suc take_Suc_Cons)
  obtain r k where d: "decode1 (b # take m bs) = (r, k)" by fastforce
  have "r = None"
  proof (cases r)
    case (Some x)
    with d have "k = seq_len b" "k \<le> length (b # take m bs)" using decode1_Some by blast+
    moreover have "length (b # take m bs) = n" using t assms(2) by (metis length_map length_take min.absorb4)
    ultimately show ?thesis using b(2) assms(2) by simp
  qed
  moreover have "list_all cont_ok (drop k (b # take m bs))"
  proof -
    have "0 < k" using d \<open>r = None\<close> decode1_None by blast
    then obtain j where "k = Suc j" by (cases k) auto
    with b(3) show ?thesis by (auto simp: list_all_iff dest: in_set_dropD in_set_takeD)
  qed
  ultimately show ?thesis using t d decode_nats_conts by (simp del: decode1.simps)
qed simp

lemma decode_ignore_append_utf8:
  "list_all is_scalar s \<Longrightarrow> decode_ignore (utf8 s @ bs) = s @ decode_ignore bs"
  by (simp add: decode_ignore_def decode_nats_utf8_append comp_def)

lemma decode_ignore_None: "set (decode_nats (map unat bs)) \<subseteq> {None} \<Longrightarrow> decode_ignore bs = []"
  by (auto simp: decode_ignore_def split: option.splits)

text \<open>Cutting the encoding anywhere and decoding it leniently gives the longest prefix that fits.\<close>

lemma decode_ignore_take:
  assumes "list_all is_scalar s"
  shows "\<exists>k \<le> length s. decode_ignore (take n (utf8 s)) = take k s \<and> length (utf8 (take k s)) \<le> n \<and>
    (k < length s \<longrightarrow> n < length (utf8 (take (Suc k) s)))"
  using assms
proof (induction s arbitrary: n)
  case (Cons c s)
  show ?case
  proof (cases "n < length (encode1 c)")
    case True
    then have "decode_ignore (take n (utf8 (c # s))) = []"
      using decode_nats_partial Cons.prems by (intro decode_ignore_None) simp
    with True show ?thesis by (intro exI [of _ 0]) simp
  next
    case False
    let ?n = "n - length (encode1 c)"
    have t: "take n (utf8 (c # s)) = utf8 [c] @ take ?n (utf8 s)" using False by simp
    have "list_all is_scalar s" using Cons.prems by simp
    from Cons.IH [OF this, of ?n] obtain k where k: "k \<le> length s" "decode_ignore (take ?n (utf8 s)) = take k s"
      "length (utf8 (take k s)) \<le> ?n" "k < length s \<longrightarrow> ?n < length (utf8 (take (Suc k) s))" by blast
    have "decode_ignore (take n (utf8 (c # s))) = take (Suc k) (c # s)"
      unfolding t using decode_ignore_append_utf8 [of "[c]"] Cons.prems k(2) by simp
    with k False show ?thesis by (intro exI [of _ "Suc k"]) auto
  qed
qed (simp add: decode_ignore_def)

section \<open>Rendered texts encode\<close>

named_theorems renderers \<open>definitions of the renderers\<close>

declare render_error_def [renderers] error_suggestions_def [renderers] render_server_info_def [renderers]
  render_exec_environment_def [renderers] render_cwd_def [renderers] render_read_file_def [renderers]
  render_list_def [renderers] match_lines_def [renderers] render_search_def [renderers] render_patch_def [renderers]
  render_exec_def [renderers] render_read_output_def [renderers] render_kill_def [renderers]
  render_git_status_def [renderers] render_key_def [renderers] render_git_diff_def [renderers]
  render_git_show_def [renderers] continue_or_def [renderers] render_git_log_def [renderers]
  render_git_blame_def [renderers] render_image_def [renderers]

lemma scalar_lit [simp]: "list_all is_scalar (lit s)"
proof -
  have "is_scalar (of_char c)" for c
    using ch_code_less [of c] unfolding ch_code_def is_scalar_def by linarith
  then show ?thesis by (simp add: lit_def list_all_iff)
qed

lemma scalar_parts [simp]:
  "list_all is_scalar newline" "list_all is_scalar ellipsis" "list_all is_scalar (hole other v)" "is_scalar 0xD7"
  by (simp_all add: newline_def ellipsis_def hole_def is_scalar_def)

lemma scalar_join: "list_all is_scalar sep \<Longrightarrow> list_all (list_all is_scalar) ls \<Longrightarrow> list_all is_scalar (join sep ls)"
  by (induction sep ls rule: join.induct) simp_all

lemma scalar_join_lines [simp]: "list_all (list_all is_scalar) ls \<Longrightarrow> list_all is_scalar (join_lines ls)"
  by (simp add: join_lines_def scalar_join)

lemma scalar_map [simp]: "(\<And>x. list_all is_scalar (f x)) \<Longrightarrow> list_all (list_all is_scalar) (map f xs)"
  by (simp add: list_all_iff)

lemma scalar_concat [simp]: "(\<And>x. list_all (list_all is_scalar) (f x)) \<Longrightarrow> list_all (list_all is_scalar) (concat (map f xs))"
  by (simp add: list_all_iff)

lemma scalar_match_lines [simp]: "list_all (list_all is_scalar) (match_lines other m)"
  by (simp add: match_lines_def Let_def)

lemma scalar_error_suggestions [simp]: "list_all (list_all is_scalar) (error_suggestions d)"
  by (simp add: error_suggestions_def split: option.split)

lemma scalar_render_error: "list_all is_scalar (render_error other payload)"
  by (simp add: render_error_def Let_def split: option.split)

lemma scalar_renderer:
  assumes "map_of (RENDERERS other) name = Some f"
  shows "list_all is_scalar (f payload)"
proof -
  have "list_all (\<lambda>(_, f). list_all is_scalar (f payload)) (RENDERERS other)"
    unfolding RENDERERS_def by (simp add: renderers Let_def split: json.split option.split)
  with map_of_SomeD [OF assms] show ?thesis by (auto simp: list_all_iff)
qed

lemma scalar_render_tool_text: "list_all is_scalar (render_tool_text other name payload is_error)"
  using scalar_renderer scalar_render_error
  by (auto simp: render_tool_text_def split: option.splits)

lemma make_tool_result_total:
  "\<exists>extra. make_tool_result other name payload is_error blocks =
     Inr \<lparr>tr_content = blocks @ extra, tr_structured = payload, tr_is_error = is_error\<rparr>"
  using scalar_render_tool_text [of other name payload is_error]
  by (auto simp: make_tool_result_def bounded_model_text_def py_encode_def Let_def)

section \<open>Properties\<close>

lemma utf8_append: "utf8 (s @ t) = utf8 s @ utf8 t"
  by (simp add: utf8_def)

lemma length_encode1_char: "length (encode1 (of_char c)) \<le> 2"
proof -
  have "of_char c < (256 :: nat)" using ch_code_less [of c] unfolding ch_code_def .
  then have "of_char c < (0x800 :: nat)" by linarith
  then show ?thesis by (simp add: encode1_def)
qed

lemma length_utf8_lit: "length (utf8 (lit s)) \<le> 2 * length s"
proof (induction s)
  case (Cons c s)
  have "length (utf8 (lit (c # s))) = length (encode1 (of_char c)) + length (utf8 (lit s))" by (simp add: lit_def)
  with Cons length_encode1_char [of c] show ?case by simp
qed (simp add: lit_def)

lemma limit_text: "nat_str MODEL_TEXT_SAFETY_LIMIT_BYTES = ''2162688''"
  by code_simp

lemma length_ceiling_suffix:
  "length (utf8 (ceiling_suffix tool_name)) \<le> 200 + 2 * length tool_name"
proof -
  let ?t = "'' '' @ tool_name @ '' model text reached the '' @ nat_str MODEL_TEXT_SAFETY_LIMIT_BYTES @
       ''-byte safety ceiling; retry with narrower paths or limits.''"
  have "length (utf8 (ceiling_suffix tool_name)) = length (encode1 10) + length (encode1 0x2026) + length (utf8 (lit ?t))"
    by (simp add: ceiling_suffix_def newline_def ellipsis_def)
  moreover have "length (encode1 0x2026) = 3" by (simp add: encode1_def)
  moreover have "length (utf8 (lit ?t)) \<le> 2 * length ?t" by (rule length_utf8_lit)
  moreover have "length ?t = 90 + length tool_name" by (simp add: limit_text)
  ultimately show ?thesis by simp
qed

text \<open>
  C37: the text of a tool result respects its ceiling.  A text of at most 2162688 bytes of UTF-8 is
  passed on unchanged; a longer one becomes its longest prefix that fits the budget, never cut inside a
  character, followed by the notice, and the whole stays within the ceiling; only a text with a lone
  surrogate raises.
\<close>

theorem bounded_model_text_bounds:
  assumes "length tool_name \<le> 1000"
  shows "(if list_all is_scalar val then
       (\<exists>out. bounded_model_text val tool_name = Inr out \<and> length (utf8 out) \<le> MODEL_TEXT_SAFETY_LIMIT_BYTES \<and>
          (if length (utf8 val) \<le> MODEL_TEXT_SAFETY_LIMIT_BYTES then out = val
           else \<exists>k < length val. out = take k val @ ceiling_suffix tool_name \<and>
                  MODEL_TEXT_SAFETY_LIMIT_BYTES < length (utf8 (take (Suc k) val @ ceiling_suffix tool_name))))
     else bounded_model_text val tool_name = Inl UnicodeEncodeError)"
proof (cases "list_all is_scalar val \<and> MODEL_TEXT_SAFETY_LIMIT_BYTES < length (utf8 val)")
  case True
  let ?s = "ceiling_suffix tool_name" and ?L = MODEL_TEXT_SAFETY_LIMIT_BYTES
  have fits: "length (utf8 ?s) \<le> ?L"
    using length_ceiling_suffix [of tool_name] assms by (simp add: MODEL_TEXT_SAFETY_LIMIT_BYTES_def)
  obtain k where k: "k \<le> length val" "decode_ignore (take (?L - length (utf8 ?s)) (utf8 val)) = take k val"
    "length (utf8 (take k val)) \<le> ?L - length (utf8 ?s)"
    "k < length val \<longrightarrow> ?L - length (utf8 ?s) < length (utf8 (take (Suc k) val))"
    using decode_ignore_take True by blast
  have "k < length val" using k(1,3) True by (cases "k = length val") auto
  moreover have "bounded_model_text val tool_name = Inr (take k val @ ?s)"
    using True k(2) by (simp add: bounded_model_text_def py_encode_def Let_def)
  ultimately show ?thesis using True k fits
    by (auto simp: utf8_append intro!: exI [of _ k])
qed (auto simp: bounded_model_text_def py_encode_def)

theorem bounded_model_text_bounds_witness:
  "\<exists>out. bounded_model_text (lit ''ok'') ''read_file'' = Inr out \<and> length (utf8 out) \<le> MODEL_TEXT_SAFETY_LIMIT_BYTES"
proof -
  have "list_all is_scalar (lit ''ok'')" by code_simp
  with bounded_model_text_bounds [of "''read_file''" "lit ''ok''"] show ?thesis by auto
qed

end
