(* ===== verification/CallTool.thy ===== *)
theory CallTool
  imports ToolCatalogue ToolResults Registries Workspace
begin

text \<open>
  The execution of a tool call (\<^verbatim>\<open>server.py\<close>: \<open>call_tool\<close> with the logical-context steps it runs, and
  the permission diagnostics of its error payloads).

  \<^item> The state is the part of a \<open>Runtime\<close> the call reads and writes: the shared registry of logical
    contexts (absent on a transport without contexts) and that of shared jobs (its contexts are those
    of the former), the bound context and its paths, the request
    tables, the request-local fields of the thread, the context locks that are held, and an inner
    state \<open>'s\<close> that only the handlers use.
  \<^item> The handlers are parameters, as are the clock, the random token, path resolution, the creation of
    a managed worktree and the message text of an exception.  Every raise inside the try block is a
    value of \<open>pyexn\<close>; the two except clauses and the two finally clauses are written out.
\<close>

section \<open>State\<close>

record request_ctx =
  rq_request_id :: json
  rq_context :: "string option"
  rq_scope :: "string option"
  rq_cancel :: bool
  rq_leases :: bool

record 's runtime_ctx =
  rc_registry :: "context_registry option"
  rc_jobs :: job_registry
  rc_context_id :: "string option"
  rc_canonical :: string
  rc_effective :: string
  rc_cwd :: string
  rc_project_roots :: "string list"
  rc_mode :: string
  rc_active_project :: obj
  rc_project_context :: string
  rc_baselines :: "string list"
  rc_baseline_bytes :: nat
  rc_starting :: nat
  rc_running :: nat
  rc_sandbox_users :: nat
  rc_sandbox :: bool
  rc_request :: request_ctx
  rc_request_sessions :: "(json, string) dict"
  rc_cancel_events :: "json list"
  rc_locked :: "string list"
  rc_inner :: 's

record call_env =
  ce_time :: "nat \<Rightarrow> real"
  ce_token :: "nat \<Rightarrow> string"
  ce_resolve :: resolver
  ce_is_dir :: "string \<Rightarrow> bool"
  ce_project_record :: "string \<Rightarrow> obj result"
  ce_worktree :: "string \<Rightarrow> string \<Rightarrow> string result"
  ce_message :: "pyexn \<Rightarrow> string"
  ce_str :: str_of

type_synonym 's handler = "obj \<Rightarrow> 's runtime_ctx \<Rightarrow> obj result \<times> 's runtime_ctx"

section \<open>Diagnostics of a refused permission\<close>

text \<open>\<^verbatim>\<open>" ".join(text.strip().split())\<close>, cut to the limit.\<close>

definition truncate_evidence :: "string \<Rightarrow> nat \<Rightarrow> string" where
  "truncate_evidence t limit =
     (let s = join '' '' (split_words t) in if length s \<le> limit then s else take (limit - 3) s @ ''...'')"

definition diagnostic :: "string \<Rightarrow> string \<Rightarrow> string \<Rightarrow> string \<Rightarrow> string \<Rightarrow> string \<Rightarrow> obj" where
  "diagnostic code evidence severity fix next_command server_flag =
     [(''code'', JStr code), (''severity'', JStr severity)] @
     (if evidence = [] then [] else [(''evidence'', JStr (truncate_evidence evidence 240))]) @
     (if fix = [] then [] else [(''suggested_fix'', JStr fix)]) @
     (if next_command = [] then [] else [(''suggested_next_command'', JStr next_command)]) @
     (if server_flag = [] then [] else [(''suggested_server_flag'', JStr server_flag)])"

definition INLINE_SCRIPT_PERMISSION :: string where
  "INLINE_SCRIPT_PERMISSION = ''inline_script''"

definition PERMISSION_FAILURE_DIAGNOSTICS :: "(string \<times> string \<times> string \<times> string) list" where
  "PERMISSION_FAILURE_DIAGNOSTICS =
     [(''network'', ''NETWORK_PERMISSION_REQUIRED'',
       ''Restart the server with --permission-mode trusted or --allow-network.'', ''--permission-mode trusted''),
      (''shell_expansion'', ''SHELL_EXPANSION_PERMISSION_REQUIRED'',
       ''Restart the server with --permission-mode trusted for local development shell expansion.'', ''--permission-mode trusted''),
      (INLINE_SCRIPT_PERMISSION, ''INLINE_SCRIPT_PERMISSION_REQUIRED'',
       ''Restart the server with --permission-mode trusted for local development inline scripts.'', ''--permission-mode trusted''),
      (''sensitive_env'', ''SECRET_ENV_REJECTED'',
       ''Remove secret-looking or loader/startup environment variables from exec_command env.'', [])]"

definition permission_failure_diagnostics :: "call_env \<Rightarrow> ToolFailure \<Rightarrow> obj list" where
  "permission_failure_diagnostics ev f =
     (case map_of PERMISSION_FAILURE_DIAGNOSTICS
             (py_str (ce_str ev) (py_or (obj_get (tf_details f) ''permission'') (JStr []))) of
        None \<Rightarrow> []
      | Some (code, fix, fl) \<Rightarrow> [diagnostic code (ce_message ev (Tool f)) ''error'' fix [] fl])"

section \<open>The logical context of a call\<close>

definition service_unavailable :: pyexn where
  "service_unavailable = retryable_failure ''SERVICE_UNAVAILABLE'' ''runtime'' []"

definition create_context :: "call_env \<Rightarrow> nat \<Rightarrow> context_registry \<Rightarrow> 's runtime_ctx \<Rightarrow> ctx_ref result \<times> context_registry" where
  "create_context ev i rg rt =
     (case ctx_create (ce_resolve ev) (ce_token ev i) (ce_time ev i) (rc_canonical rt) (rc_effective rt) (rc_cwd rt) rg of
        (Inl (RuntimeError _), rg') \<Rightarrow> (Inl service_unavailable, rg')
      | res \<Rightarrow> res)"

definition ensure_logical_context ::
    "call_env \<Rightarrow> context_registry \<Rightarrow> 's runtime_ctx \<Rightarrow> string result \<times> 's runtime_ctx" where
  "ensure_logical_context ev rg rt =
     (case rc_context_id rt of
        Some cid \<Rightarrow> (Inr cid, rt)
      | None \<Rightarrow>
          (case create_context ev 0 rg rt of
             (Inl e, rg') \<Rightarrow> (Inl e, rt\<lparr>rc_registry := Some rg'\<rparr>)
           | (Inr r, rg') \<Rightarrow> (Inr (fst r), rt\<lparr>rc_registry := Some rg', rc_context_id := Some (fst r)\<rparr>)))"

text \<open>\<^verbatim>\<open>registry.retain(context_id)\<close> returns the context object.\<close>

definition retain_ref :: "real \<Rightarrow> string \<Rightarrow> context_registry \<Rightarrow> ctx_ref option \<times> context_registry" where
  "retain_ref now cid rg =
     (case ctx_retain now cid rg of
        (False, rg') \<Rightarrow> (None, rg')
      | (True, rg') \<Rightarrow>
          (case map_of (cr_contexts rg') cid of Some c \<Rightarrow> (Some (cid, lc_object c), rg') | None \<Rightarrow> (None, rg')))"

definition context_not_found :: "string \<Rightarrow> pyexn" where
  "context_not_found cid = tool_failure_with ''CONTEXT_NOT_FOUND'' ''not_found'' [(''context_id'', JStr cid)]"

text \<open>
  The first part of the try block.  It returns the context that was retained, the value of
  \<^verbatim>\<open>context_id\<close> at that point, which the finally clause releases, and the state.
\<close>

definition obtain_context ::
    "call_env \<Rightarrow> string option \<Rightarrow> 's runtime_ctx \<Rightarrow> ctx_ref option result \<times> string option \<times> 's runtime_ctx" where
  "obtain_context ev requested rt =
     (case rc_registry rt of
        None \<Rightarrow>
          (if requested \<noteq> None then Inl (tool_failure ''INVALID_ARGUMENT'' ''validation'') else Inr None, None, rt)
      | Some rg \<Rightarrow>
          (case requested of
             Some cid \<Rightarrow>
               (case retain_ref (ce_time ev 1) cid rg of
                  (None, rg') \<Rightarrow> (Inl (context_not_found cid), Some cid, rt\<lparr>rc_registry := Some rg'\<rparr>)
                | (Some r, rg') \<Rightarrow> (Inr (Some r), Some cid, rt\<lparr>rc_registry := Some rg'\<rparr>))
           | None \<Rightarrow>
               (case ensure_logical_context ev rg rt of
                  (Inl e, rt1) \<Rightarrow> (Inl e, None, rt1)
                | (Inr cid, rt1) \<Rightarrow>
                    (case retain_ref (ce_time ev 1) cid (the (rc_registry rt1)) of
                       (Some r, rg1) \<Rightarrow> (Inr (Some r), Some cid, rt1\<lparr>rc_registry := Some rg1\<rparr>)
                     | (None, rg1) \<Rightarrow>
                         (case create_context ev 2 rg1 rt1 of
                            (Inl e, rg2) \<Rightarrow> (Inl e, Some cid, rt1\<lparr>rc_registry := Some rg2\<rparr>)
                          | (Inr r, rg2) \<Rightarrow>
                              (case retain_ref (ce_time ev 3) (fst r) rg2 of
                                 (got, rg3) \<Rightarrow>
                                   (if got = Some r then Inr (Some r) else Inl AssertionError, Some (fst r),
                                    rt1\<lparr>rc_registry := Some rg3, rc_context_id := Some (fst r)\<rparr>)))))))"

definition is_below :: "string \<Rightarrow> string \<Rightarrow> bool" where
  "is_below p base_dir \<longleftrightarrow> is_relative_to (path_parts p) (path_parts base_dir)"

definition resolve3 :: "call_env \<Rightarrow> LogicalContextState \<Rightarrow> (string \<times> string \<times> string) result" where
  "resolve3 ev st =
     rbind (ce_resolve ev (lc_canonical st)) (\<lambda>c.
     rbind (ce_resolve ev (lc_effective st)) (\<lambda>e.
     rbind (ce_resolve ev (lc_cwd st)) (\<lambda>d. Inr (c, e, d))))"

definition context_invalid :: "string \<Rightarrow> pyexn" where
  "context_invalid cat = tool_failure ''CONTEXT_INVALID'' cat"

definition discard_execution_sandbox :: "'s runtime_ctx \<Rightarrow> 's runtime_ctx" where
  "discard_execution_sandbox rt = (if rc_sandbox_users rt > 0 then rt else rt\<lparr>rc_sandbox := False\<rparr>)"

definition rebind_workspace :: "string \<Rightarrow> 's runtime_ctx \<Rightarrow> 's runtime_ctx" where
  "rebind_workspace e rt =
     (if rc_effective rt = e then rt
      else rt\<lparr>rc_effective := e, rc_baselines := [], rc_baseline_bytes := 0, rc_project_context := e\<rparr>)"

definition apply_logical_context_state ::
    "call_env \<Rightarrow> LogicalContextState \<Rightarrow> 's runtime_ctx \<Rightarrow> unit result \<times> 's runtime_ctx" where
  "apply_logical_context_state ev st rt =
     (case resolve3 ev st of
        Inl e \<Rightarrow> (Inl e, rt)
      | Inr (c, e, d) \<Rightarrow>
          if \<not> list_ex (is_below c) (rc_project_roots rt) then (Inl (context_invalid ''security''), rt)
          else if \<not> ce_is_dir ev e then (Inl (context_invalid ''runtime''), rt)
          else if \<not> ce_is_dir ev d \<or> \<not> (is_below d e \<or> (rc_mode rt = ''build'' \<and> \<not> is_below d c))
          then (Inl (context_invalid ''runtime''), rt)
          else if rc_canonical rt \<noteq> c \<or> rc_effective rt \<noteq> e then
            (if rc_starting rt > 0 \<or> rc_running rt > 0 \<or> rc_sandbox_users rt > 0
             then (Inl (tool_failure ''INVALID_STATE'' ''runtime''), rt)
             else
               let rt1 = (rebind_workspace e (discard_execution_sandbox rt))\<lparr>rc_canonical := c\<rparr> in
               (case ce_project_record ev c of
                  Inl x \<Rightarrow> (Inl x, rt1)
                | Inr pr \<Rightarrow> (Inr (), rt1\<lparr>rc_active_project := pr, rc_cwd := d\<rparr>)))
          else (Inr (), rt\<lparr>rc_cwd := d\<rparr>))"

definition map_logical_context_default_cwd ::
    "call_env \<Rightarrow> LogicalContextState \<Rightarrow> string \<Rightarrow> string result" where
  "map_logical_context_default_cwd ev st target0 =
     rbind (ce_resolve ev (lc_cwd st)) (\<lambda>cwd.
     rbind (ce_resolve ev target0) (\<lambda>target.
     rbind (ce_resolve ev (lc_effective st)) (\<lambda>e.
     rbind (ce_resolve ev (lc_canonical st)) (\<lambda>c.
       let mapped = (\<lambda>base_dir. abs_text (path_parts target @ drop (length (path_parts base_dir)) (path_parts cwd)));
           pick = (\<lambda>base_dir. if ce_is_dir ev (mapped base_dir) then mapped base_dir else target) in
       Inr (if is_below cwd e then pick e else if is_below cwd c then pick c else cwd)))))"

definition WORKTREE_CLAIM_TOOLS :: "string list" where
  "WORKTREE_CLAIM_TOOLS =
     [''apply_patch'', ''exec_command'', ''exec_argv'', ''git_commit'', ''git_create_branch'', ''git_delete_branch'',
      ''git_merge_remote_branch'', ''git_pull'', ''git_switch_branch'', ''run_checks_for_diff'', ''run_project_check'', ''run_task'']"

text \<open>The fields of the context object, which the registry updates in place.\<close>

definition ctx_fields :: "ctx_ref \<Rightarrow> LogicalContextState \<Rightarrow> context_registry \<Rightarrow> LogicalContextState" where
  "ctx_fields r st rg = (case ctx_current rg r of Some c \<Rightarrow> c | None \<Rightarrow> st)"

definition ensure_context_mutation_workspace ::
    "call_env \<Rightarrow> ctx_ref \<Rightarrow> LogicalContextState \<Rightarrow> string \<Rightarrow> 's runtime_ctx \<Rightarrow> unit result \<times> 's runtime_ctx" where
  "ensure_context_mutation_workspace ev r st0 tool_name rt =
     (case rc_registry rt of
        None \<Rightarrow> (Inr (), rt)
      | Some rg \<Rightarrow>
          if rc_mode rt \<noteq> ''build'' \<or> tool_name \<notin> set WORKTREE_CLAIM_TOOLS then (Inr (), rt)
          else
            (case claim_mutation_workspace (ce_time ev 4) r rg of
               (Inl e, rg1) \<Rightarrow>
                 (Inl (retryable_failure ''CONTEXT_NOT_FOUND'' ''not_found'' []), rt\<lparr>rc_registry := Some rg1\<rparr>)
             | (Inr needs_isolation, rg1) \<Rightarrow>
                 (let rt1 = rt\<lparr>rc_registry := Some rg1\<rparr>; st = ctx_fields r st0 rg1 in
                  if \<not> needs_isolation \<or> lc_effective st \<noteq> lc_canonical st then (Inr (), rt1)
                  else
                    (case ce_worktree ev (lc_canonical st) (lc_id st) of
                       Inl e \<Rightarrow> (Inl e, rt1\<lparr>rc_registry := Some (rollback_mutation_workspace_claim (ce_time ev 5) r rg1)\<rparr>)
                     | Inr base_dir \<Rightarrow>
                         (case map_logical_context_default_cwd ev st base_dir of
                            Inl e \<Rightarrow> (Inl e, rt1)
                          | Inr cwd \<Rightarrow>
                              (case ctx_update (ce_resolve ev) (ce_time ev 6) r (lc_canonical st) base_dir cwd rg1 of
                                 (Inl e, rg2) \<Rightarrow> (Inl e, rt1\<lparr>rc_registry := Some rg2\<rparr>)
                               | (Inr _, rg2) \<Rightarrow>
                                   apply_logical_context_state ev (ctx_fields r st rg2) (rt1\<lparr>rc_registry := Some rg2\<rparr>)))))))"

definition save_logical_context_state ::
    "call_env \<Rightarrow> ctx_ref \<Rightarrow> 's runtime_ctx \<Rightarrow> unit result \<times> 's runtime_ctx" where
  "save_logical_context_state ev r rt =
     (case rc_registry rt of
        None \<Rightarrow> (Inr (), rt)
      | Some rg \<Rightarrow>
          (case ctx_update (ce_resolve ev) (ce_time ev 7) r (rc_canonical rt) (rc_effective rt) (rc_cwd rt) rg of
             (res, rg') \<Rightarrow> (res, rt\<lparr>rc_registry := Some rg'\<rparr>)))"

section \<open>The call\<close>

definition setdefault :: "string \<Rightarrow> json \<Rightarrow> obj \<Rightarrow> obj" where
  "setdefault k v ob = (if k \<in> fst ` set ob then ob else ob @ [(k, v)])"

definition decorate :: "string option \<Rightarrow> string option \<Rightarrow> 's runtime_ctx \<Rightarrow> obj \<Rightarrow> obj" where
  "decorate cid scope rt payload =
     (let p1 = (case cid of Some c \<Rightarrow> setdefault ''context_id'' (JStr c) payload | None \<Rightarrow> payload);
          p2 = (case scope of Some t \<Rightarrow> setdefault ''task_scope_id'' (JStr t) p1 | None \<Rightarrow> p1) in
      setdefault ''active_project'' (JObj (rc_active_project rt)) (setdefault ''workspace'' (JStr (rc_effective rt)) p2))"

definition error_payload :: "call_env \<Rightarrow> pyexn \<Rightarrow> obj" where
  "error_payload ev e =
     [(''ok'', JBool False),
      (''error'', JObj (case e of
         Tool f \<Rightarrow> [(''code'', JStr (tf_code f)), (''message'', JStr (ce_message ev e)), (''category'', JStr (tf_category f)),
                    (''retryable'', JBool (tf_retryable f)), (''details'', JObj (tf_details f))]
       | _ \<Rightarrow> [(''code'', JStr ''INTERNAL_ERROR''), (''message'', JStr (ce_message ev e)), (''category'', JStr ''internal''),
              (''retryable'', JBool False), (''details'', JObj [])]))]"

definition permission_request :: "call_env \<Rightarrow> string \<Rightarrow> ToolFailure \<Rightarrow> json" where
  "permission_request ev name f =
     JObj [(''tool_name'', JStr name), (''permission'', py_or (obj_get (tf_details f) ''permission'') (JStr ''unknown'')),
           (''status'', JStr ''required''), (''retryable'', JBool True)]"

text \<open>The payload of the two except clauses.\<close>

definition failure_payload ::
    "call_env \<Rightarrow> string \<Rightarrow> ToolSpec \<Rightarrow> string option \<Rightarrow> string option \<Rightarrow> 's runtime_ctx \<Rightarrow> pyexn \<Rightarrow> obj" where
  "failure_payload ev name spec cid scope rt e =
     (let p1 = decorate cid scope rt (error_payload ev e);
          p2 = (case ts_error_status spec of Some t \<Rightarrow> if t = [] then p1 else dict_set ''status'' (JStr t) p1 | None \<Rightarrow> p1) in
      case e of
        Tool f \<Rightarrow>
          (let diags = permission_failure_diagnostics ev f;
               p3 = (if diags = [] then p2 else dict_set ''diagnostics'' (JList (map JObj diags)) p2) in
           if tf_code f = ''PERMISSION_REQUIRED''
           then dict_set ''permission_request'' (permission_request ev name f) p3 else p3)
      | _ \<Rightarrow> p2)"

text \<open>\<open>_image_content\<close> takes the image out of the payload.\<close>

definition build_content :: "call_env \<Rightarrow> ToolSpec \<Rightarrow> obj \<Rightarrow> content_block list \<times> obj" where
  "build_content ev spec payload =
     (case ts_content_builder spec of
        None \<Rightarrow> ([], payload)
      | Some Image_content \<Rightarrow>
          (let encoded = py_str (ce_str ev) (get_or payload ''_mcp_image_data'' (JStr []));
               payload' = dict_del ''_mcp_image_data'' payload in
           ([Image_block encoded (py_str (ce_str ev) (get_or payload' ''mime_type'' (JStr ''application/octet-stream'')))], payload')))"

text \<open>The handler with the request-local fields around it, the save of the context, and the inner finally clause.\<close>

definition enter_request :: "json \<Rightarrow> string option \<Rightarrow> string option \<Rightarrow> 's runtime_ctx \<Rightarrow> 's runtime_ctx" where
  "enter_request rid cid scope rt =
     rt\<lparr>rc_request := (rc_request rt)\<lparr>rq_request_id := rid, rq_context := cid, rq_scope := scope, rq_leases := True\<rparr>\<rparr>"

definition arm_cancel :: "json \<Rightarrow> 's runtime_ctx \<Rightarrow> 's runtime_ctx" where
  "arm_cancel rid rt =
     rt\<lparr>rc_cancel_events := (if is_rpc_id rid then rid # removeAll rid (rc_cancel_events rt) else rc_cancel_events rt),
        rc_request := (rc_request rt)\<lparr>rq_cancel := is_rpc_id rid\<rparr>\<rparr>"

definition leave_request :: "json \<Rightarrow> 's runtime_ctx \<Rightarrow> 's runtime_ctx" where
  "leave_request rid rt =
     (let rt1 = (if rid = JNull then rt
                 else rt\<lparr>rc_request_sessions := dict_del rid (rc_request_sessions rt),
                         rc_cancel_events := removeAll rid (rc_cancel_events rt)\<rparr>) in
      rt1\<lparr>rc_request := (rc_request rt1)\<lparr>rq_request_id := JNull, rq_cancel := False, rq_context := None, rq_scope := None\<rparr>\<rparr>)"

definition run_handler ::
    "call_env \<Rightarrow> 's handler \<Rightarrow> obj \<Rightarrow> json \<Rightarrow> ctx_ref option \<Rightarrow> 's runtime_ctx \<Rightarrow> obj result \<times> 's runtime_ctx" where
  "run_handler ev h args rid cref rt =
     (case h args (arm_cancel rid rt) of
        (Inl e, rt1) \<Rightarrow> (Inl e, leave_request rid rt1)
      | (Inr payload, rt1) \<Rightarrow>
          (case cref of
             None \<Rightarrow> (Inr payload, leave_request rid rt1)
           | Some r \<Rightarrow>
               (case save_logical_context_state ev r rt1 of
                  (Inl e, rt2) \<Rightarrow> (Inl e, leave_request rid rt2)
                | (Inr _, rt2) \<Rightarrow> (Inr payload, leave_request rid rt2))))"

text \<open>The try block up to the payload; \<open>st\<close> are the fields of the retained context.\<close>

definition call_body ::
    "call_env \<Rightarrow> 's handler \<Rightarrow> string \<Rightarrow> obj \<Rightarrow> json \<Rightarrow> string option \<Rightarrow> ctx_ref option \<Rightarrow> string option \<Rightarrow>
     's runtime_ctx \<Rightarrow> obj result \<times> 's runtime_ctx" where
  "call_body ev h name args rid scope cref cid rt =
     (case cref of
        None \<Rightarrow> run_handler ev h args rid None (enter_request rid cid scope rt)
      | Some r \<Rightarrow>
          (case rc_registry rt of
             None \<Rightarrow> (Inl AssertionError, rt)
           | Some rg \<Rightarrow>
               (case ctx_current rg r of
                  None \<Rightarrow> (Inl AssertionError, rt)
                | Some st \<Rightarrow>
                    (case apply_logical_context_state ev st rt of
                       (Inl e, rt1) \<Rightarrow> (Inl e, rt1)
                     | (Inr _, rt1) \<Rightarrow>
                         (case ensure_context_mutation_workspace ev r st name (enter_request rid cid scope rt1) of
                            (Inl e, rt2) \<Rightarrow> (Inl e, rt2)
                          | (Inr _, rt2) \<Rightarrow> run_handler ev h args rid cref rt2)))))"

text \<open>The outer finally clause.\<close>

definition leave_call :: "call_env \<Rightarrow> string option \<Rightarrow> 's runtime_ctx \<Rightarrow> 's runtime_ctx" where
  "leave_call ev cid rt =
     (let rt1 = rt\<lparr>rc_request := (rc_request rt)\<lparr>rq_leases := False, rq_context := None, rq_scope := None\<rparr>\<rparr> in
      case (cid, rc_registry rt1) of
        (Some c, Some rg) \<Rightarrow> rt1\<lparr>rc_registry := Some (ctx_release (ce_time ev 8) c rg)\<rparr>
      | _ \<Rightarrow> rt1)"

definition lock_context :: "ctx_ref option \<Rightarrow> 's runtime_ctx \<Rightarrow> 's runtime_ctx" where
  "lock_context cref rt = (case cref of None \<Rightarrow> rt | Some r \<Rightarrow> rt\<lparr>rc_locked := fst r # rc_locked rt\<rparr>)"

definition unlock_context :: "ctx_ref option \<Rightarrow> 's runtime_ctx \<Rightarrow> 's runtime_ctx" where
  "unlock_context cref rt = (case cref of None \<Rightarrow> rt | Some r \<Rightarrow> rt\<lparr>rc_locked := remove1 (fst r) (rc_locked rt)\<rparr>)"

definition result_of ::
    "call_env \<Rightarrow> string \<Rightarrow> ToolSpec \<Rightarrow> string option \<Rightarrow> string option \<Rightarrow> 's runtime_ctx \<Rightarrow> obj result \<Rightarrow> tool_result result" where
  "result_of ev name spec cid scope rt res =
     (let failed = (\<lambda>e. make_tool_result (ce_str ev) name (failure_payload ev name spec cid scope rt e) True []) in
      case res of
        Inl e \<Rightarrow> failed e
      | Inr payload0 \<Rightarrow>
          (case build_content ev spec (decorate cid scope rt (setdefault ''ok'' (JBool True) payload0)) of
             (blocks, payload) \<Rightarrow>
               (case make_tool_result (ce_str ev) name payload (obj_get payload ''ok'' = JBool False) blocks of
                  Inr r \<Rightarrow> Inr r
                | Inl e \<Rightarrow> failed e)))"

definition opaque_arg :: "nat \<Rightarrow> json \<Rightarrow> string option option" where
  "opaque_arg lo v = (case v of JNull \<Rightarrow> Some None
     | JStr t \<Rightarrow> if lo \<le> length t \<and> length t \<le> 128 then Some (Some t) else None | _ \<Rightarrow> None)"

definition invalid_params :: "string \<Rightarrow> rpc_exn" where
  "invalid_params msg =
     JsonRpcError (-32602) msg (Some (JObj [(''reason'', JStr ''invalid_arguments''), (''code'', JStr ''INVALID_ARGUMENT'')]))"

definition exn_name :: "pyexn \<Rightarrow> string" where
  "exn_name e = (case e of UnicodeEncodeError \<Rightarrow> ''UnicodeEncodeError'' | _ \<Rightarrow> ''Exception'')"

definition call_tool ::
    "call_env \<Rightarrow> (string \<Rightarrow> 's handler option) \<Rightarrow> (string \<Rightarrow> bool) \<Rightarrow> string \<Rightarrow> obj \<Rightarrow> json \<Rightarrow> 's runtime_ctx \<Rightarrow>
     (rpc_exn + tool_result) \<times> 's runtime_ctx" where
  "call_tool ev handlers attr name arguments rid rt =
     (let args = drop_context arguments in
      case opaque_arg 16 (obj_get arguments ''context_id'') of
        None \<Rightarrow> (Inl (invalid_params ''context_id must be an opaque string between 16 and 128 characters.''), rt)
      | Some requested \<Rightarrow>
      (case opaque_arg 8 (obj_get arguments ''task_scope_id'') of
        None \<Rightarrow> (Inl (invalid_params ''task_scope_id must be an opaque string between 8 and 128 characters.''), rt)
      | Some scope \<Rightarrow>
      (case (if name \<in> set (exposed_tool_names attr) then handlers name else None, map_of TOOL_REGISTRY name) of
        (Some h, Some spec) \<Rightarrow>
          (case validate_arguments name args of
             Inl e \<Rightarrow> (Inl e, rt)
           | Inr _ \<Rightarrow>
               (case obtain_context ev requested rt of
                  (Inl e, cid, rt1) \<Rightarrow>
                    ((case result_of ev name spec cid scope rt1 (Inl e) of Inr r \<Rightarrow> Inr r | Inl x \<Rightarrow> Inl (OtherExn (exn_name x))),
                     leave_call ev cid rt1)
                | (Inr cref, cid, rt1) \<Rightarrow>
                    (case call_body ev h name args rid scope cref cid (lock_context cref rt1) of
                       (res, rt2) \<Rightarrow>
                         ((case result_of ev name spec cid scope rt2 res of Inr r \<Rightarrow> Inr r | Inl x \<Rightarrow> Inl (OtherExn (exn_name x))),
                          leave_call ev cid (unlock_context cref rt2)))))
      | _ \<Rightarrow> (Inl (JsonRpcError (-32602) (''Unknown tool: '' @ name) (Some (JObj [(''reason'', JStr ''unknown_tool'')]))), rt))))"

section \<open>Leases\<close>

text \<open>The leases of the registry, where there is one, are those of the holders \<open>H\<close>.\<close>

definition hold :: "string multiset \<Rightarrow> 's runtime_ctx \<Rightarrow> bool" where
  "hold H rt \<longleftrightarrow> (case rc_registry rt of None \<Rightarrow> True | Some rg \<Rightarrow> held H rg)"

lemma retain_ref_held:
  assumes "held H rg" "retain_ref now cid rg = (res, rg')"
  shows "case res of
     Some r \<Rightarrow> fst r = cid \<and> held (add_mset cid H) rg'
   | None \<Rightarrow> held H rg' \<and> map_of (cr_contexts rg') cid = None"
proof -
  obtain ok rg1 where rt: "ctx_retain now cid rg = (ok, rg1)" by fastforce
  note h = held_retain [OF assms(1) rt]
  show ?thesis
  proof (cases ok)
    case True
    with h have "held (add_mset cid H) rg1" by simp
    moreover have "map_of (cr_contexts rg1) cid \<noteq> None" using h True by (auto simp: held_def)
    ultimately show ?thesis using assms(2) rt True by (auto simp: retain_ref_def split: option.splits)
  next
    case False
    with rt have "map_of (cr_contexts rg1) cid = None"
      by (auto simp: ctx_retain_def ctx_lease_def Let_def split: option.splits)
    with h assms(2) rt False show ?thesis by (auto simp: retain_ref_def)
  qed
qed

lemma ctx_create_absent:
  assumes "held H rg" "ctx_create rs token now a b c rg = (r, rg')" "map_of (cr_contexts rg) x = None"
    and "x \<noteq> ''ctx_'' @ token \<or> (\<exists>e. r = Inl e)"
  shows "map_of (cr_contexts rg') x = None"
proof -
  have ok: "dict_ok (cr_contexts rg)" using assms(1) by (simp add: held_def)
  have p: "map_of (cr_contexts (ctx_prune now rg)) x = None"
    using assms(3) by (simp add: ctx_prune_map [OF ok])
  have ev: "map_of (cr_contexts rg1) x = None" if "ctx_evict (ctx_prune now rg) = Inr (v, rg1)" for v rg1
    using held_evict [OF held_prune [OF assms(1)] that] p by blast
  show ?thesis
    using assms(2,4) p ev
    by (auto simp: ctx_create_def ctx_add_def Let_def split: sum.splits option.splits prod.splits)
qed

lemma ctx_create_id: "ctx_create rs token now a b c rg = (Inr r, rg') \<Longrightarrow> fst r = ''ctx_'' @ token"
  by (auto simp: ctx_create_def ctx_add_def Let_def split: sum.splits prod.splits)

lemma create_context_held:
  assumes "held H rg" "create_context ev i rg rt = (res, rg')"
    and "map_of (cr_contexts rg) (''ctx_'' @ ce_token ev i) = None"
  shows "held H rg'"
    and "res = Inr r \<Longrightarrow> fst r = ''ctx_'' @ ce_token ev i"
    and "map_of (cr_contexts rg) x = None \<Longrightarrow> x \<noteq> ''ctx_'' @ ce_token ev i \<or> (\<exists>e. res = Inl e) \<Longrightarrow>
      map_of (cr_contexts rg') x = None"
proof -
  obtain r0 where c: "ctx_create (ce_resolve ev) (ce_token ev i) (ce_time ev i) (rc_canonical rt) (rc_effective rt) (rc_cwd rt) rg
      = (r0, rg')" and same: "r0 = res \<or> (\<exists>e e'. r0 = Inl e \<and> res = Inl e')"
    using assms(2) by (auto simp: create_context_def split: prod.splits sum.splits pyexn.splits)
  show "held H rg'" by (rule held_create [OF assms(1) c assms(3)])
  show "fst r = ''ctx_'' @ ce_token ev i" if "res = Inr r"
    using c same that ctx_create_id by fastforce
  show "map_of (cr_contexts rg') x = None"
    if "map_of (cr_contexts rg) x = None" "x \<noteq> ''ctx_'' @ ce_token ev i \<or> (\<exists>e. res = Inl e)"
    by (rule ctx_create_absent [OF assms(1) c that(1)]) (use same that(2) in auto)
qed

text \<open>The random tokens of a call are new.\<close>

definition fresh_tokens :: "call_env \<Rightarrow> 's runtime_ctx \<Rightarrow> bool" where
  "fresh_tokens ev rt \<longleftrightarrow>
     ce_token ev 0 \<noteq> ce_token ev 2 \<and>
     (case rc_registry rt of None \<Rightarrow> True | Some rg \<Rightarrow>
        map_of (cr_contexts rg) (''ctx_'' @ ce_token ev 0) = None \<and> map_of (cr_contexts rg) (''ctx_'' @ ce_token ev 2) = None)"

lemma held_absent: "held H rg \<Longrightarrow> map_of (cr_contexts rg) x = None \<Longrightarrow> ctx_retain now y rg = (b, rg') \<Longrightarrow>
   map_of (cr_contexts rg') x = None"
proof -
  assume h: "held H rg" and n: "map_of (cr_contexts rg) x = None" and r: "ctx_retain now y rg = (b, rg')"
  have ok: "dict_ok (cr_contexts rg)" using h by (simp add: held_def)
  have p: "map_of (cr_contexts (ctx_prune now rg)) x = None" using n by (simp add: ctx_prune_map [OF ok])
  have id: "lc_id c = y" if "map_of (cr_contexts (ctx_prune now rg)) y = Some c" for c
    using held_prune [OF h] that by (auto simp: held_def)
  show "map_of (cr_contexts rg') x = None"
    using r p id by (auto simp: ctx_retain_def ctx_lease_def Let_def ctx_put_def split: option.splits)
qed

lemma retain_ref_absent:
  "held H rg \<Longrightarrow> map_of (cr_contexts rg) x = None \<Longrightarrow> retain_ref now y rg = (res, rg') \<Longrightarrow>
   map_of (cr_contexts rg') x = None"
  using held_absent by (fastforce simp: retain_ref_def split: prod.splits bool.splits option.splits)

text \<open>
  What the first part of the call leaves: with a context, one more lease for it; without one, the
  leases as they were, and an identifier whose release does nothing.
\<close>

definition obtained :: "string multiset \<Rightarrow> ctx_ref option result \<times> string option \<times> 's runtime_ctx \<Rightarrow> bool" where
  "obtained H out \<longleftrightarrow> (case out of
     (Inr (Some r), cid, rt) \<Rightarrow> cid = Some (fst r) \<and> hold (add_mset (fst r) H) rt
   | (Inr None, cid, rt) \<Rightarrow> cid = None \<and> hold H rt
   | (Inl _, cid, rt) \<Rightarrow> hold H rt \<and>
       (case (cid, rc_registry rt) of (Some c, Some rg) \<Rightarrow> map_of (cr_contexts rg) c = None | _ \<Rightarrow> True))"

lemma obtained_retain:
  assumes "held H rg" "retain_ref now cid rg = (res, rg')"
  shows "obtained H (case res of None \<Rightarrow> (Inl e, Some cid, rt\<lparr>rc_registry := Some rg'\<rparr>)
                   | Some r \<Rightarrow> (Inr (Some r), Some cid, rt\<lparr>rc_registry := Some rg'\<rparr>))"
  using retain_ref_held [OF assms] by (auto simp: obtained_def hold_def split: option.splits)

lemma create_context_object:
  assumes "create_context ev i rg rt = (Inr r, rg')"
  shows "\<exists>c. map_of (cr_contexts rg') (fst r) = Some c \<and> lc_object c = snd r \<and> lc_id c = fst r"
  using assms
  by (auto simp: create_context_def ctx_create_def ctx_add_def Let_def split: prod.splits sum.splits pyexn.splits option.splits)

lemma retain_ref_object:
  assumes "held H rg" "map_of (cr_contexts rg) cid = Some c" "retain_ref now cid rg = (got, rg')"
  shows "got = None \<or> got = Some (cid, lc_object c)"
proof -
  have ok: "dict_ok (cr_contexts rg)" using assms(1) by (simp add: held_def)
  have id: "lc_id c = cid" using assms(1,2) by (auto simp: held_def)
  show ?thesis
    using assms(3) id
    by (auto simp: retain_ref_def ctx_retain_def ctx_lease_def Let_def ctx_put_def ctx_prune_map [OF ok] assms(2)
        split: option.splits if_splits)
qed

lemma create_then_retain:
  assumes "held H rg'" "create_context ev i rg rt = (Inr r, rg')" "retain_ref now (fst r) rg' = (got, rg'')"
  shows "got = Some r \<or> got = None"
  using create_context_object [OF assms(2)] retain_ref_object [OF assms(1) _ assms(3)]
  by (metis prod.collapse)

text \<open>Retaining the bound context, or creating another when it has expired.\<close>

lemma obtained_bound:
  assumes h: "held H rg" and new: "map_of (cr_contexts rg) (''ctx_'' @ ce_token ev 2) = None" and rg: "rc_registry rt1 = Some rg"
  shows "obtained H
    (case retain_ref (ce_time ev 1) cid rg of
       (Some r, rg1) \<Rightarrow> (Inr (Some r), Some cid, rt1\<lparr>rc_registry := Some rg1\<rparr>)
     | (None, rg1) \<Rightarrow>
         (case create_context ev 2 rg1 rt1 of
            (Inl e, rg2) \<Rightarrow> (Inl e, Some cid, rt1\<lparr>rc_registry := Some rg2\<rparr>)
          | (Inr r, rg2) \<Rightarrow>
              (case retain_ref (ce_time ev 3) (fst r) rg2 of
                 (got, rg3) \<Rightarrow>
                   (if got = Some r then Inr (Some r) else Inl AssertionError, Some (fst r),
                    rt1\<lparr>rc_registry := Some rg3, rc_context_id := Some (fst r)\<rparr>))))"
proof -
  obtain res rg1 where r1: "retain_ref (ce_time ev 1) cid rg = (res, rg1)" by fastforce
  note h1 = retain_ref_held [OF h r1]
  show ?thesis
  proof (cases res)
    case (Some r)
    with h1 r1 show ?thesis by (simp add: obtained_def hold_def)
  next
    case None
    with h1 have h1: "held H rg1" and out: "map_of (cr_contexts rg1) cid = None" by auto
    have new1: "map_of (cr_contexts rg1) (''ctx_'' @ ce_token ev 2) = None"
      by (rule retain_ref_absent [OF h new r1])
    obtain res2 rg2 where c: "create_context ev 2 rg1 rt1 = (res2, rg2)" by fastforce
    note h2 = create_context_held [OF h1 c new1]
    show ?thesis
    proof (cases res2)
      case (Inl e)
      with h2(1) h2(3) [OF out] r1 None c show ?thesis by (simp add: obtained_def hold_def)
    next
      case (Inr r)
      obtain got rg3 where r3: "retain_ref (ce_time ev 3) (fst r) rg2 = (got, rg3)" by fastforce
      note h3 = retain_ref_held [OF h2(1) r3]
      have lone: "got = Some r \<or> got = None"
        using create_then_retain [OF h2(1)] c Inr r3 by blast
      then show ?thesis using h3 r1 None c Inr r3 by (auto simp: obtained_def hold_def split: option.splits)
    qed
  qed
qed

lemma obtain_context_obtained:
  assumes "hold H rt" "fresh_tokens ev rt"
  shows "obtained H (obtain_context ev requested rt)"
proof (cases "rc_registry rt")
  case None
  with assms(1) show ?thesis by (simp add: obtain_context_def obtained_def hold_def)
next
  case (Some rg)
  have h: "held H rg" using assms(1) Some by (simp add: hold_def)
  have new: "map_of (cr_contexts rg) (''ctx_'' @ ce_token ev 0) = None"
    "map_of (cr_contexts rg) (''ctx_'' @ ce_token ev 2) = None" "ce_token ev 2 \<noteq> ce_token ev 0"
    using assms(2) Some by (auto simp: fresh_tokens_def)
  show ?thesis
  proof (cases requested)
    case req: (Some cid)
    obtain res rg' where r: "retain_ref (ce_time ev 1) cid rg = (res, rg')" by fastforce
    show ?thesis using retain_ref_held [OF h r] r Some req
      by (cases res) (simp_all add: obtain_context_def obtained_def hold_def)
  next
    case req: None
    show ?thesis
    proof (cases "rc_context_id rt")
      case bound: (Some cid)
      have e: "ensure_logical_context ev rg rt = (Inr cid, rt)" using bound by (simp add: ensure_logical_context_def)
      show ?thesis using obtained_bound [OF h new(2) Some, of cid] Some
        by (simp add: obtain_context_def req e)
    next
      case unbound: None
      obtain res rg1 where c: "create_context ev 0 rg rt = (res, rg1)" by fastforce
      note h1 = create_context_held [OF h c new(1)]
      show ?thesis
      proof (cases res)
        case (Inl e)
        with c Some req unbound h1(1) show ?thesis
          by (simp add: obtain_context_def ensure_logical_context_def obtained_def hold_def)
      next
        case (Inr r)
        let ?rt1 = "rt\<lparr>rc_registry := Some rg1, rc_context_id := Some (fst r)\<rparr>"
        have e: "ensure_logical_context ev rg rt = (Inr (fst r), ?rt1)"
          using c Inr unbound by (simp add: ensure_logical_context_def)
        have "map_of (cr_contexts rg1) (''ctx_'' @ ce_token ev 2) = None"
          by (rule h1(3) [OF new(2)]) (use new(3) in simp)
        from obtained_bound [OF h1(1) this, of ?rt1 "fst r"] Some show ?thesis
          by (simp add: obtain_context_def req e)
      qed
    qed
  qed
qed

lemma obtain_context_locked: "obtain_context ev requested rt = (oc, cid, rt1) \<Longrightarrow> rc_locked rt1 = rc_locked rt"
  by (auto simp: obtain_context_def ensure_logical_context_def split: option.splits prod.splits sum.splits if_splits)

section \<open>The body\<close>

text \<open>
  The handlers reach the two registries only through their methods: a handler starts, finds, polls
  and removes jobs, and binds its context to an existing workspace.  Everything else a handler does
  leaves the registries and the locks alone.
\<close>

datatype registry_op =
    Register proc_env real ExecSession string
  | Lookup proc_env real string string
  | Running proc_env real string
  | Touch real string
  | Remove real string bool
  | Prune_jobs proc_env real
  | Claim_existing resolver real ctx_ref string string
  | Unclaim_existing "string \<Rightarrow> string" real ctx_ref string "string \<times> string \<times> bool"

fun registry_call :: "registry_op \<Rightarrow> job_registry \<Rightarrow> job_registry" where
  "registry_call (Register pe now session owner) jr = snd (job_register pe now session owner jr)"
| "registry_call (Lookup pe now k owner) jr = snd (job_lookup pe now k owner jr)"
| "registry_call (Running pe now owner) jr = snd (has_running_jobs pe now owner jr)"
| "registry_call (Touch now k) jr = job_touch now k jr"
| "registry_call (Remove now k b) jr = snd (job_remove now k b jr)"
| "registry_call (Prune_jobs pe now) jr = job_prune pe now jr"
| "registry_call (Claim_existing rs now r target cwd) jr =
     jr\<lparr>jr_contexts := snd (claim_existing_workspace rs now r target cwd (jr_contexts jr))\<rparr>"
| "registry_call (Unclaim_existing rl now r expected previous) jr =
     jr\<lparr>jr_contexts := rollback_existing_workspace_claim rl now r expected previous (jr_contexts jr)\<rparr>"

definition run_registry :: "registry_op \<Rightarrow> 's runtime_ctx \<Rightarrow> 's runtime_ctx" where
  "run_registry c rt =
     (case rc_registry rt of
        None \<Rightarrow> rt
      | Some rg \<Rightarrow>
          let jr = registry_call c ((rc_jobs rt)\<lparr>jr_contexts := rg\<rparr>) in
          rt\<lparr>rc_jobs := jr, rc_registry := Some (jr_contexts jr)\<rparr>)"

inductive tool_handler :: "'s handler \<Rightarrow> bool" where
  own: "(\<And>args rt. rc_registry (snd (h args rt)) = rc_registry rt \<and> rc_jobs (snd (h args rt)) = rc_jobs rt \<and>
    rc_locked (snd (h args rt)) = rc_locked rt) \<Longrightarrow> tool_handler h"
| call: "tool_handler h \<Longrightarrow> tool_handler (\<lambda>args rt. h args (run_registry (c args rt) rt))"
| seq: "tool_handler h \<Longrightarrow> (\<And>x. tool_handler (k x)) \<Longrightarrow>
    tool_handler (\<lambda>args rt. case h args rt of (x, rt') \<Rightarrow> k x args rt')"

text \<open>
  The leases are accounted for: every registered context has as many leases as it has registered jobs
  and occurs among the other holders \<open>Q\<close>, which are the requests that run.
\<close>

definition leased :: "string multiset \<Rightarrow> 's runtime_ctx \<Rightarrow> bool" where
  "leased Q rt \<longleftrightarrow> hold (owners (jr_jobs (rc_jobs rt)) + Q) rt \<and>
     dict_ok (jr_jobs (rc_jobs rt)) \<and> length (jr_jobs (rc_jobs rt)) \<le> MAX_SHARED_JOBS"

lemma leased_jobs_ok:
  "rc_registry rt = Some rg \<Longrightarrow> leased Q rt \<longleftrightarrow> jobs_ok Q ((rc_jobs rt)\<lparr>jr_contexts := rg\<rparr>)"
  by (simp add: leased_def hold_def jobs_ok_def)

lemma leased_keep: "leased Q rt \<Longrightarrow> (\<And>H. hold H rt \<Longrightarrow> hold H rt') \<Longrightarrow> rc_jobs rt' = rc_jobs rt \<Longrightarrow> leased Q rt'"
  by (simp add: leased_def)

lemma jobs_ok_call: "jobs_ok Q jr \<Longrightarrow> jobs_ok Q (registry_call c jr)"
  by (cases c) (simp_all add: jobs_ok_register jobs_ok_others jobs_ok_prune, simp_all add: jobs_ok_def held_others)

lemma run_registry_keeps:
  "leased Q rt \<Longrightarrow> leased Q (run_registry c rt)" "rc_locked (run_registry c rt) = rc_locked rt"
proof -
  show "leased Q rt \<Longrightarrow> leased Q (run_registry c rt)"
  proof (cases "rc_registry rt")
    case (Some rg)
    assume "leased Q rt"
    with Some have "jobs_ok Q (registry_call c ((rc_jobs rt)\<lparr>jr_contexts := rg\<rparr>))"
      by (simp add: leased_jobs_ok jobs_ok_call)
    with Some show ?thesis by (simp add: run_registry_def Let_def leased_jobs_ok)
  qed (simp add: run_registry_def)
  show "rc_locked (run_registry c rt) = rc_locked rt" by (simp add: run_registry_def Let_def split: option.split)
qed

lemma tool_handler_keeps:
  assumes "tool_handler h" "h args rt = (res, rt')"
  shows "rc_locked rt' = rc_locked rt \<and> (leased Q rt \<longrightarrow> leased Q rt')"
  using assms
proof (induction arbitrary: args rt res rt' rule: tool_handler.induct)
  case (own h)
  then have "rc_registry rt' = rc_registry rt" "rc_jobs rt' = rc_jobs rt" "rc_locked rt' = rc_locked rt"
    by (metis snd_conv)+
  then show ?case by (simp add: leased_def hold_def)
next
  case (call h c)
  from call.IH [OF call.prems] run_registry_keeps show ?case by metis
next
  case (seq h k)
  then show ?case by (auto split: prod.splits)
qed

lemma hold_registry: "rc_registry rt = rc_registry rt' \<Longrightarrow> hold H rt = hold H rt'"
  by (simp add: hold_def)

lemma hold_leave_request [simp]: "hold H (leave_request rid rt) = hold H rt"
  by (simp add: hold_def leave_request_def Let_def)

lemma hold_small [simp]:
  "hold H (enter_request rid cid scope rt) = hold H rt" "hold H (arm_cancel rid rt) = hold H rt"
  "hold H (lock_context cref rt) = hold H rt" "hold H (unlock_context cref rt) = hold H rt"
  by (simp_all add: hold_def enter_request_def arm_cancel_def lock_context_def unlock_context_def split: option.split)

lemma locked_small [simp]:
  "rc_locked (enter_request rid cid scope rt) = rc_locked rt" "rc_locked (arm_cancel rid rt) = rc_locked rt"
  "rc_locked (leave_request rid rt) = rc_locked rt" "rc_locked (leave_call ev c rt) = rc_locked rt"
  by (simp_all add: enter_request_def arm_cancel_def leave_request_def leave_call_def Let_def split: option.split)

lemma registry_small [simp]:
  "rc_registry (enter_request rid cid scope rt) = rc_registry rt" "rc_registry (arm_cancel rid rt) = rc_registry rt"
  "rc_registry (leave_request rid rt) = rc_registry rt"
  by (simp_all add: enter_request_def arm_cancel_def leave_request_def Let_def)

lemma jobs_small [simp]:
  "rc_jobs (enter_request rid cid scope rt) = rc_jobs rt" "rc_jobs (arm_cancel rid rt) = rc_jobs rt"
  "rc_jobs (leave_request rid rt) = rc_jobs rt" "rc_jobs (leave_call ev c rt) = rc_jobs rt"
  "rc_jobs (lock_context cref rt) = rc_jobs rt" "rc_jobs (unlock_context cref rt) = rc_jobs rt"
  by (simp_all add: enter_request_def arm_cancel_def leave_request_def leave_call_def lock_context_def unlock_context_def
      Let_def split: option.split)

lemma leased_small [simp]:
  "leased Q (enter_request rid cid scope rt) = leased Q rt" "leased Q (arm_cancel rid rt) = leased Q rt"
  "leased Q (leave_request rid rt) = leased Q rt" "leased Q (lock_context cref rt) = leased Q rt"
  "leased Q (unlock_context cref rt) = leased Q rt"
  by (simp_all add: leased_def)

lemma apply_keeps:
  "rc_jobs (snd (apply_logical_context_state ev st rt)) = rc_jobs rt"
  "rc_registry (snd (apply_logical_context_state ev st rt)) = rc_registry rt"
  "rc_locked (snd (apply_logical_context_state ev st rt)) = rc_locked rt"
  by (auto simp: apply_logical_context_state_def rebind_workspace_def discard_execution_sandbox_def Let_def
      split: sum.splits prod.splits)

lemma hold_apply [simp]: "hold H (snd (apply_logical_context_state ev st rt)) = hold H rt"
  by (simp add: hold_def apply_keeps)

lemma save_keeps:
  "hold H rt \<Longrightarrow> hold H (snd (save_logical_context_state ev r rt))"
  "rc_locked (snd (save_logical_context_state ev r rt)) = rc_locked rt"
  "rc_jobs (snd (save_logical_context_state ev r rt)) = rc_jobs rt"
proof -
  show "hold H rt \<Longrightarrow> hold H (snd (save_logical_context_state ev r rt))"
  proof (cases "rc_registry rt")
    case (Some rg)
    assume "hold H rt"
    with Some have "held H (snd (ctx_update (ce_resolve ev) (ce_time ev 7) r (rc_canonical rt) (rc_effective rt) (rc_cwd rt) rg))"
      by (intro held_others(2)) (simp add: hold_def)
    with Some show ?thesis by (simp add: save_logical_context_state_def hold_def case_prod_beta)
  qed (simp add: save_logical_context_state_def)
  show "rc_locked (snd (save_logical_context_state ev r rt)) = rc_locked rt"
    "rc_jobs (snd (save_logical_context_state ev r rt)) = rc_jobs rt"
    by (simp_all add: save_logical_context_state_def split: option.split prod.split)
qed

lemma ensure_mutation_keeps:
  "hold H rt \<Longrightarrow> hold H (snd (ensure_context_mutation_workspace ev r st name rt))"
  "rc_locked (snd (ensure_context_mutation_workspace ev r st name rt)) = rc_locked rt"
  "rc_jobs (snd (ensure_context_mutation_workspace ev r st name rt)) = rc_jobs rt"
proof -
  show "rc_locked (snd (ensure_context_mutation_workspace ev r st name rt)) = rc_locked rt"
    "rc_jobs (snd (ensure_context_mutation_workspace ev r st name rt)) = rc_jobs rt"
    by (simp_all add: ensure_context_mutation_workspace_def Let_def apply_keeps split: option.split prod.split sum.split)
  assume h: "hold H rt"
  show "hold H (snd (ensure_context_mutation_workspace ev r st name rt))"
  proof (cases "rc_registry rt")
    case (Some rg)
    then have hr: "held H rg" using h by (simp add: hold_def)
    obtain cl rg1 where c: "claim_mutation_workspace (ce_time ev 4) r rg = (cl, rg1)" by fastforce
    then have h1: "held H rg1" using held_others(3) [OF hr] by (metis snd_conv)
    have h2: "held H (rollback_mutation_workspace_claim t r rg1)" for t by (rule held_others(4) [OF h1])
    have h3: "held H rg2" if "ctx_update rs t r a b d rg1 = (u, rg2)" for rs t a b d u rg2
      using held_others(2) [OF h1] that by (metis snd_conv)
    show ?thesis
      using h hr Some c h1 h2
      by (auto simp: ensure_context_mutation_workspace_def hold_def Let_def apply_keeps
          split: option.split prod.split sum.split dest: h3)
  qed (use h in \<open>simp add: ensure_context_mutation_workspace_def\<close>)
qed

text \<open>
  The way through the body: the handler runs, in a state that differs from the one before in what the
  context steps set, or one of these steps raises.
\<close>

definition context_raises :: "call_env \<Rightarrow> string \<Rightarrow> 's runtime_ctx \<Rightarrow> pyexn \<Rightarrow> bool" where
  "context_raises ev name rt e \<longleftrightarrow>
     (\<exists>st (rt1 :: 's runtime_ctx). fst (apply_logical_context_state ev st rt1) = Inl e) \<or>
     (\<exists>r st (rt1 :: 's runtime_ctx). fst (ensure_context_mutation_workspace ev r st name rt1) = Inl e) \<or>
     (\<exists>r (rt1 :: 's runtime_ctx). fst (save_logical_context_state ev r rt1) = Inl e)"

definition is_current :: "ctx_ref option \<Rightarrow> 's runtime_ctx \<Rightarrow> bool" where
  "is_current cref rt \<longleftrightarrow> (case cref of None \<Rightarrow> True | Some r \<Rightarrow>
     (case rc_registry rt of None \<Rightarrow> False | Some rg \<Rightarrow> ctx_current rg r \<noteq> None))"

lemma run_handler_cases:
  assumes "run_handler ev h args rid cref rt = (res, rt')"
  obtains (raised) e rt1 where "h args (arm_cancel rid rt) = (Inl e, rt1)" "res = Inl e" "rt' = leave_request rid rt1"
    | (unsaved) payload rt1 r e where "h args (arm_cancel rid rt) = (Inr payload, rt1)" "cref = Some r"
        "fst (save_logical_context_state ev r rt1) = Inl e" "res = Inl e"
        "rt' = leave_request rid (snd (save_logical_context_state ev r rt1))"
    | (returned) payload rt1 where "h args (arm_cancel rid rt) = (Inr payload, rt1)" "res = Inr payload"
        "rt' = leave_request rid rt1 \<or> (\<exists>r. rt' = leave_request rid (snd (save_logical_context_state ev r rt1)))"
proof -
  obtain x rt1 where h: "h args (arm_cancel rid rt) = (x, rt1)" by fastforce
  show thesis
  proof (cases x)
    case (Inl e)
    with h assms show thesis by (intro raised [of e rt1]) (simp_all add: run_handler_def)
  next
    case (Inr payload)
    show thesis
    proof (cases cref)
      case None
      with h Inr assms show thesis by (intro returned [of payload rt1]) (simp_all add: run_handler_def)
    next
      case (Some r)
      obtain y rt2 where sv: "save_logical_context_state ev r rt1 = (y, rt2)" by fastforce
      show thesis
      proof (cases y)
        case (Inl e)
        with h Inr Some sv assms show thesis by (intro unsaved [of payload rt1 r e]) (simp_all add: run_handler_def)
      next
        case y: (Inr u)
        then have "rt' = leave_request rid (snd (save_logical_context_state ev r rt1))" "res = Inr payload"
          using h Inr Some sv assms by (simp_all add: run_handler_def)
        with h Inr show thesis by (intro returned [of payload rt1]) blast+
      qed
    qed
  qed
qed

lemma call_body_cases:
  assumes body: "call_body ev h name args rid scope cref cid rt = (res, rt')"
    and cur: "is_current cref rt"
  obtains (raised) e where "res = Inl e" "context_raises ev name rt e"
        "rc_locked rt' = rc_locked rt" "rc_jobs rt' = rc_jobs rt" "\<And>H. hold H rt \<Longrightarrow> hold H rt'"
    | (ran) rt2 where "run_handler ev h args rid cref rt2 = (res, rt')"
        "rc_locked rt2 = rc_locked rt" "rc_jobs rt2 = rc_jobs rt" "\<And>H. hold H rt \<Longrightarrow> hold H rt2"
proof (cases cref)
  case None
  with body show thesis by (intro ran [of "enter_request rid cid scope rt"]) (simp_all add: call_body_def)
next
  case (Some r)
  obtain rg st where st: "rc_registry rt = Some rg" "ctx_current rg r = Some st" using cur Some by (auto simp: is_current_def split: option.splits)
  obtain a rt1 where ap: "apply_logical_context_state ev st rt = (a, rt1)" by fastforce
  have k1: "rc_locked rt1 = rc_locked rt" "rc_jobs rt1 = rc_jobs rt" "\<And>H. hold H rt1 = hold H rt"
    using apply_keeps [of ev st rt] hold_apply [of _ ev st rt] ap by simp_all
  obtain b rt2 where en: "ensure_context_mutation_workspace ev r st name (enter_request rid cid scope rt1) = (b, rt2)"
    by fastforce
  have k2: "rc_locked rt2 = rc_locked rt" "rc_jobs rt2 = rc_jobs rt" "\<And>H. hold H rt \<Longrightarrow> hold H rt2"
    using ensure_mutation_keeps(1) [of _ "enter_request rid cid scope rt1" ev r st name]
      ensure_mutation_keeps(2,3) [of ev r st name "enter_request rid cid scope rt1"] en k1 by simp_all
  note run = body [unfolded call_body_def Some, simplified, unfolded st, simplified, unfolded st, simplified, unfolded ap, simplified]
  show thesis
  proof (cases a)
    case (Inl e)
    then have "context_raises ev name rt e" using ap unfolding context_raises_def by (metis fst_conv)
    with run Inl k1 show thesis by (intro raised) simp_all
  next
    case a: (Inr u)
    show thesis
    proof (cases b)
      case (Inl e)
      then have "context_raises ev name rt e" using en unfolding context_raises_def by (metis fst_conv)
      with run a en Inl k2 show thesis by (intro raised) simp_all
    next
      case (Inr v)
      with run a en k2 Some show thesis by (intro ran [of rt2]) simp_all
    qed
  qed
qed

lemma run_handler_keeps:
  assumes "tool_handler h" "run_handler ev h args rid cref rt = (res, rt')"
  shows "rc_locked rt' = rc_locked rt \<and> (leased Q rt \<longrightarrow> leased Q rt')"
proof -
  have save: "leased Q (snd (save_logical_context_state ev r rt1))" if "leased Q rt1" for r rt1
    by (rule leased_keep [OF that]) (simp_all add: save_keeps)
  from assms(2) show ?thesis
  proof (cases rule: run_handler_cases)
    case raised
    with tool_handler_keeps [OF assms(1) raised(1), of Q] show ?thesis by simp
  next
    case (unsaved payload rt1 r e)
    with tool_handler_keeps [OF assms(1) unsaved(1), of Q] save [of rt1 r] show ?thesis by (simp add: save_keeps)
  next
    case (returned payload rt1)
    with tool_handler_keeps [OF assms(1) returned(1), of Q] save show ?thesis by (auto simp: save_keeps)
  qed
qed

lemma call_body_keeps:
  assumes "tool_handler h" "call_body ev h name args rid scope cref cid rt = (res, rt')"
    and "is_current cref rt"
  shows "rc_locked rt' = rc_locked rt \<and> (leased Q rt \<longrightarrow> leased Q rt')"
  using assms(2,3)
proof (cases rule: call_body_cases)
  case raised
  then show ?thesis using leased_keep by auto
next
  case (ran rt2)
  then have "leased Q rt \<longrightarrow> leased Q rt2" using leased_keep by auto
  with run_handler_keeps [OF assms(1) ran(1), of Q] ran(2) show ?thesis by simp
qed

text \<open>What is retained is registered.\<close>

lemma retain_ref_current:
  assumes "retain_ref now cid rg = (Some r, rg')"
  shows "ctx_current rg' r \<noteq> None"
  using assms by (auto simp: retain_ref_def ctx_current_def split: prod.splits bool.splits option.splits)

lemma obtain_context_current:
  assumes "obtain_context ev requested rt = (Inr cref, cid, rt1)"
  shows "is_current cref rt1"
  using assms retain_ref_current
  by (fastforce simp: obtain_context_def is_current_def split: option.splits prod.splits sum.splits if_splits)

lemma obtain_context_jobs: "obtain_context ev requested rt = (oc, cid, rt1) \<Longrightarrow> rc_jobs rt1 = rc_jobs rt"
  by (auto simp: obtain_context_def ensure_logical_context_def split: option.splits prod.splits sum.splits if_splits)

section \<open>Properties\<close>

lemma leave_call_hold:
  assumes "hold (add_mset c H) rt"
  shows "hold H (leave_call ev (Some c) rt)"
  using assms held_release [of "add_mset c H" _ c]
  by (auto simp: hold_def leave_call_def Let_def split: option.splits)

lemma leave_call_hold_absent:
  assumes "hold H rt" "case (cid, rc_registry rt) of (Some c, Some rg) \<Rightarrow> map_of (cr_contexts rg) c = None | _ \<Rightarrow> True"
  shows "hold H (leave_call ev cid rt)"
  using assms by (auto simp: hold_def leave_call_def Let_def ctx_release_def split: option.splits)

lemma leave_call_request:
  "rq_leases (rc_request (leave_call ev cid rt)) = False" "rq_context (rc_request (leave_call ev cid rt)) = None"
  "rq_scope (rc_request (leave_call ev cid rt)) = None"
  by (simp_all add: leave_call_def Let_def split: option.split)

lemma call_tool_cases:
  assumes "call_tool ev handlers attr name arguments rid rt = (out, rt')"
  obtains (refused) msg d where "out = Inl (JsonRpcError (-32602) msg d)" "rt' = rt"
    | (early) requested scope spec h e cid rt1 where "handlers name = Some h"
        "obtain_context ev requested rt = (Inl e, cid, rt1)" "rt' = leave_call ev cid rt1"
        "opaque_arg 16 (obj_get arguments ''context_id'') = Some requested"
        "opaque_arg 8 (obj_get arguments ''task_scope_id'') = Some scope"
        "map_of TOOL_REGISTRY name = Some spec" "validate_arguments name (drop_context arguments) = Inr ()"
        "out = (case result_of ev name spec cid scope rt1 (Inl e) of Inr r \<Rightarrow> Inr r | Inl x \<Rightarrow> Inl (OtherExn (exn_name x)))"
    | (ran) requested scope spec h cref cid rt1 res rt2 where
        "handlers name = Some h" "obtain_context ev requested rt = (Inr cref, cid, rt1)"
        "call_body ev h name (drop_context arguments) rid scope cref cid (lock_context cref rt1) = (res, rt2)"
        "rt' = leave_call ev cid (unlock_context cref rt2)"
        "opaque_arg 16 (obj_get arguments ''context_id'') = Some requested"
        "opaque_arg 8 (obj_get arguments ''task_scope_id'') = Some scope"
        "map_of TOOL_REGISTRY name = Some spec" "validate_arguments name (drop_context arguments) = Inr ()"
        "out = (case result_of ev name spec cid scope rt2 res of Inr r \<Rightarrow> Inr r | Inl x \<Rightarrow> Inl (OtherExn (exn_name x)))"
proof -
  show ?thesis
  proof (cases "opaque_arg 16 (obj_get arguments ''context_id'')")
    case None
    with assms show ?thesis by (intro refused) (auto simp: call_tool_def Let_def invalid_params_def)
  next
    case req: (Some requested)
    show ?thesis
    proof (cases "opaque_arg 8 (obj_get arguments ''task_scope_id'')")
      case None
      with assms req show ?thesis by (intro refused) (auto simp: call_tool_def Let_def invalid_params_def)
    next
      case sc: (Some scope)
      let ?h = "if name \<in> set (exposed_tool_names attr) then handlers name else None"
      show ?thesis
      proof (cases "?h = None \<or> map_of TOOL_REGISTRY name = None")
        case True
        with assms req sc show ?thesis
          by (intro refused) (auto simp: call_tool_def Let_def split: option.splits)
      next
        case False
        then obtain h spec where h: "?h = Some h" and spec: "map_of TOOL_REGISTRY name = Some spec" by auto
        from h have hn: "handlers name = Some h" by (auto split: if_splits)
        show ?thesis
        proof (cases "validate_arguments name (drop_context arguments)")
          case (Inl e)
          obtain s where "map_of input_schemas name = Some s" using spec registered_schema by metis
          then obtain msg d where "e = JsonRpcError (-32602) msg d" using validate_arguments_Inl Inl by blast
          with assms req sc h spec Inl show ?thesis
            by (intro refused [of msg d]) (auto simp: call_tool_def Let_def)
        next
          case (Inr u)
          obtain oc cid rt1 where oc: "obtain_context ev requested rt = (oc, cid, rt1)" by (metis prod_cases3)
          show ?thesis
          proof (cases oc)
            case e: (Inl e)
            with assms req sc h spec Inr oc hn show ?thesis
              by (intro early [of h requested e cid rt1 scope spec]) (simp_all add: call_tool_def Let_def)
          next
            case c: (Inr cref)
            obtain res rt2 where b: "call_body ev h name (drop_context arguments) rid scope cref cid (lock_context cref rt1) = (res, rt2)"
              by fastforce
            with assms req sc h spec Inr oc c hn show ?thesis
              by (intro ran [of h requested cref cid rt1 scope res rt2 spec]) (simp_all add: call_tool_def Let_def)
          qed
        qed
      qed
    qed
  qed
qed

text \<open>
  C20: a call returns what it took.  Whatever happens in it, refused arguments, an unknown or expired
  context, a failing worktree, a handler that raises, every registered context has afterwards, as it
  had before, one lease for each of its registered jobs and for each of the other requests \<open>Q\<close> that
  hold it; no context stays locked; and the thread's fields for the context, the task scope and the
  capability leases are cleared once the arguments were accepted.  (The request identifier is cleared
  by the inner clause only, so that it stays set when the worktree of the context fails.)  A handler may do
  anything that reaches the registries through their methods only.
\<close>

theorem call_tool_returns_leases:
  assumes "\<And>n h. handlers n = Some h \<Longrightarrow> tool_handler h"
    and "leased Q rt" "fresh_tokens ev rt"
    and "call_tool ev handlers attr name arguments rid rt = (out, rt')"
  shows "leased Q rt' \<and> rc_locked rt' = rc_locked rt \<and>
    (rt' = rt \<or> rq_leases (rc_request rt') = False \<and> rq_context (rc_request rt') = None \<and> rq_scope (rc_request rt') = None)"
proof -
  let ?H = "owners (jr_jobs (rc_jobs rt)) + Q"
  have h: "hold ?H rt" using assms(2) by (simp add: leased_def)
  have jobs: "leased Q x \<longleftrightarrow> hold ?H x" "leased (add_mset c Q) x \<longleftrightarrow> hold (add_mset c ?H) x"
    if "rc_jobs x = rc_jobs rt" for x :: "'a runtime_ctx" and c
    using that assms(2) by (simp_all add: leased_def)
  from assms(4) show ?thesis
  proof (cases rule: call_tool_cases)
    case (early requested scope spec h' e cid rt1)
    have "obtained ?H (Inl e, cid, rt1)" using obtain_context_obtained [OF h assms(3), of requested] early(2) by simp
    then have "hold ?H (leave_call ev cid rt1)" by (intro leave_call_hold_absent) (simp_all add: obtained_def)
    then have "leased Q (leave_call ev cid rt1)" using jobs(1) obtain_context_jobs [OF early(2)] by simp
    with early(3) obtain_context_locked [OF early(2)] leave_call_request show ?thesis by auto
  next
    case (ran requested scope spec h cref cid rt1 res rt2)
    have ob: "obtained ?H (Inr cref, cid, rt1)" using obtain_context_obtained [OF h assms(3), of requested] ran(2) by simp
    have "is_current cref (lock_context cref rt1)"
      using obtain_context_current [OF ran(2)] by (cases cref) (simp_all add: is_current_def lock_context_def)
    note k = call_body_keeps [OF assms(1) [OF ran(1)] ran(3) this]
    have "rc_locked rt' = rc_locked rt"
      using k [of Q] obtain_context_locked [OF ran(2)] ran(4)
      by (simp add: lock_context_def unlock_context_def split: option.splits)
    moreover have "leased Q rt'"
    proof (cases cref)
      case None
      with ob have "cid = None" "leased Q rt1"
        using jobs(1) obtain_context_jobs [OF ran(2)] by (auto simp: obtained_def)
      with k [of Q] ran(4) None show ?thesis
        by (simp add: leave_call_def Let_def leased_def hold_def lock_context_def unlock_context_def)
    next
      case (Some r)
      with ob have c: "cid = Some (fst r)" "leased (add_mset (fst r) Q) rt1"
        using jobs(2) obtain_context_jobs [OF ran(2)] by (auto simp: obtained_def)
      then have "leased (add_mset (fst r) Q) (unlock_context cref rt2)" using k [of "add_mset (fst r) Q"] by simp
      then show ?thesis
        using leave_call_hold [of "fst r" _ "unlock_context cref rt2" ev] c(1) ran(4) by (simp add: leased_def)
    qed
    ultimately show ?thesis using ran(4) leave_call_request by auto
  qed (use assms(2) in auto)
qed

text \<open>A runtime with one handler, which moves the working directory, and an empty registry.\<close>

definition demo_call_env :: call_env where
  "demo_call_env = \<lparr>ce_time = (\<lambda>_. 100), ce_token = (\<lambda>i. replicate (20 + i) (CHR ''a'')), ce_resolve = (\<lambda>p. Inr p),
     ce_is_dir = (\<lambda>_. True), ce_project_record = (\<lambda>_. Inr []), ce_worktree = (\<lambda>_ _. Inl OSError),
     ce_message = (\<lambda>_. ''message''), ce_str = (\<lambda>_. [])\<rparr>"

definition demo_runtime :: "unit runtime_ctx" where
  "demo_runtime = \<lparr>rc_registry = Some \<lparr>cr_ttl = 60, cr_callback = False, cr_contexts = [], cr_notified = [], cr_objects = 0\<rparr>,
     rc_jobs = demo_jobs, rc_context_id = None, rc_canonical = ''/w'', rc_effective = ''/w'', rc_cwd = ''/w'', rc_project_roots = [''/w''],
     rc_mode = ''plan'', rc_active_project = [], rc_project_context = ''/w'', rc_baselines = [], rc_baseline_bytes = 0,
     rc_starting = 0, rc_running = 0, rc_sandbox_users = 0, rc_sandbox = False,
     rc_request = \<lparr>rq_request_id = JNull, rq_context = None, rq_scope = None, rq_cancel = False, rq_leases = False\<rparr>,
     rc_request_sessions = [], rc_cancel_events = [], rc_locked = [], rc_inner = ()\<rparr>"

definition demo_handlers :: "string \<Rightarrow> unit handler option" where
  "demo_handlers n = (if n = ''get_default_cwd''
     then Some (\<lambda>args rt. (Inr [(''default_cwd'', JStr (rc_cwd rt))], rt)) else None)"

theorem call_tool_returns_leases_witness:
  "\<exists>r rt'. call_tool demo_call_env demo_handlers (\<lambda>_. True) ''get_default_cwd'' [] (JInt 1) demo_runtime = (Inr r, rt') \<and>
     leased {#} rt' \<and> rc_locked rt' = [] \<and> obj_get (tr_structured r) ''default_cwd'' = JStr ''/w''"
proof -
  let ?c = "call_tool demo_call_env demo_handlers (\<lambda>_. True) ''get_default_cwd'' [] (JInt 1) demo_runtime"
  have k: "tool_handler h" if "demo_handlers n = Some h" for n h
    using that by (auto simp: demo_handlers_def intro!: tool_handler.own split: if_splits)
  have ok: "case fst ?c of Inr r \<Rightarrow> obj_get (tr_structured r) ''default_cwd'' = JStr ''/w'' | Inl _ \<Rightarrow> False" by code_simp
  then obtain r where r: "fst ?c = Inr r" "obj_get (tr_structured r) ''default_cwd'' = JStr ''/w''"
    by (auto split: sum.splits)
  then have c: "?c = (Inr r, snd ?c)" by (metis prod.collapse)
  have "leased {#} demo_runtime" "fresh_tokens demo_call_env demo_runtime"
    by (simp_all add: leased_def hold_def held_def demo_runtime_def fresh_tokens_def demo_call_env_def demo_jobs_def owners_def)
  from call_tool_returns_leases [OF k this c] have "leased {#} (snd ?c) \<and> rc_locked (snd ?c) = []"
    by (auto simp: demo_runtime_def)
  with c r(2) show ?thesis by blast
qed

lemma keys_setdefault: "fst ` set (setdefault k v ob) = insert k (fst ` set ob)"
  by (auto simp: setdefault_def)

lemma keys_decorate: "{''workspace'', ''active_project''} \<union> fst ` set ob \<subseteq> fst ` set (decorate cid scope rt ob)"
  by (auto simp: decorate_def keys_setdefault Let_def split: option.split)

lemma setdefault_other: "k' \<noteq> k \<Longrightarrow> obj_get (setdefault k v ob) k' = obj_get ob k'"
  by (simp add: setdefault_def obj_get_def map_add_def split: option.split)

lemma decorate_keeps:
  "k \<notin> {''context_id'', ''task_scope_id'', ''workspace'', ''active_project''} \<Longrightarrow>
   obj_get (decorate cid scope rt ob) k = obj_get ob k"
  by (simp add: decorate_def Let_def setdefault_other split: option.split)

lemma obj_get_dict_set: "obj_get (dict_set k v ob) k' = (if k' = k then v else obj_get ob k')"
  by (simp add: obj_get_def)

lemma obj_get_dict_del: "obj_get (dict_del k ob) k' = (if k' = k then JNull else obj_get ob k')"
  by (simp add: obj_get_def)

lemma failure_payload_facts:
  "obj_get (failure_payload ev name spec cid scope rt e) ''ok'' = JBool False"
  "obj_get (failure_payload ev name spec cid scope rt e) ''error'' = obj_get (error_payload ev e) ''error''"
  by (cases e; simp add: failure_payload_def Let_def obj_get_dict_set decorate_keeps error_payload_def obj_get_def [of "_ # _"]
      split: option.split)+

text \<open>The report of an exception: the fields of a tool failure, or an internal error for anything else.\<close>

definition reports :: "call_env \<Rightarrow> pyexn \<Rightarrow> tool_result \<Rightarrow> bool" where
  "reports ev e r \<longleftrightarrow> tr_is_error r \<and>
     (\<exists>ob. obj_get (tr_structured r) ''error'' = JObj ob \<and> obj_get ob ''message'' = JStr (ce_message ev e) \<and>
        (case e of
           Tool f \<Rightarrow> obj_get ob ''code'' = JStr (tf_code f) \<and> obj_get ob ''category'' = JStr (tf_category f) \<and>
             obj_get ob ''retryable'' = JBool (tf_retryable f) \<and> obj_get ob ''details'' = JObj (tf_details f)
         | _ \<Rightarrow> obj_get ob ''code'' = JStr ''INTERNAL_ERROR'' \<and> obj_get ob ''category'' = JStr ''internal'' \<and>
             obj_get ob ''retryable'' = JBool False))"

lemma failure_reported:
  "\<exists>r. result_of ev name spec cid scope rt (Inl e) = Inr r \<and> reports ev e r \<and> obj_get (tr_structured r) ''ok'' = JBool False"
proof -
  let ?p = "failure_payload ev name spec cid scope rt e"
  obtain r where r: "result_of ev name spec cid scope rt (Inl e) = Inr r" "tr_is_error r" "tr_structured r = ?p"
    using make_tool_result_total [of "ce_str ev" name ?p True "[]"] by (auto simp: result_of_def Let_def)
  have "reports ev e r"
    using r failure_payload_facts(2) [of ev name spec cid scope rt e]
    by (cases e) (simp_all add: reports_def error_payload_def obj_get_def [of "_ # _"])
  with r failure_payload_facts(1) show ?thesis by metis
qed

lemma keys_setdefault_get: "k \<in> fst ` set ob \<Longrightarrow> obj_get (setdefault k' v ob) k = obj_get ob k"
  by (cases "k = k'") (simp_all add: setdefault_other, simp add: setdefault_def)

lemma decorate_present: "k \<in> fst ` set ob \<Longrightarrow> obj_get (decorate cid scope rt ob) k = obj_get ob k"
  by (simp add: decorate_def Let_def keys_setdefault_get keys_setdefault split: option.split)

lemma payload_reported:
  "\<exists>r. result_of ev name spec cid scope rt (Inr p) = Inr r \<and>
     (tr_is_error r \<longleftrightarrow> obj_get (tr_structured r) ''ok'' = JBool False) \<and>
     (\<forall>k. k \<in> fst ` set p \<and> k \<noteq> ''_mcp_image_data'' \<longrightarrow> obj_get (tr_structured r) k = obj_get p k) \<and>
     (''ok'' \<notin> fst ` set p \<longrightarrow> obj_get (tr_structured r) ''ok'' = JBool True)"
proof -
  let ?p1 = "setdefault ''ok'' (JBool True) p"
  obtain blocks payload where b: "build_content ev spec (decorate cid scope rt ?p1) = (blocks, payload)" by fastforce
  then have same: "obj_get payload k = obj_get (decorate cid scope rt ?p1) k" if "k \<noteq> ''_mcp_image_data''" for k
    using that by (auto simp: build_content_def Let_def obj_get_dict_del split: option.splits content_builder.splits)
  have ok: "obj_get payload ''ok'' = obj_get ?p1 ''ok''"
    using same [of "''ok''"] by (simp add: decorate_keeps)
  have keys: "obj_get payload k = obj_get p k" if "k \<in> fst ` set p" "k \<noteq> ''_mcp_image_data''" for k
    using same [OF that(2)] that(1) by (simp add: decorate_present keys_setdefault_get keys_setdefault)
  obtain extra where "make_tool_result (ce_str ev) name payload (obj_get payload ''ok'' = JBool False) blocks =
      Inr \<lparr>tr_content = blocks @ extra, tr_structured = payload, tr_is_error = (obj_get payload ''ok'' = JBool False)\<rparr>"
    using make_tool_result_total by blast
  with b have "result_of ev name spec cid scope rt (Inr p) =
      Inr \<lparr>tr_content = blocks @ extra, tr_structured = payload, tr_is_error = (obj_get payload ''ok'' = JBool False)\<rparr>"
    by (simp add: result_of_def Let_def)
  moreover have "''ok'' \<notin> fst ` set p \<longrightarrow> obj_get payload ''ok'' = JBool True"
  proof
    assume n: "''ok'' \<notin> fst ` set p"
    then have "map_of p ''ok'' = None" by (simp add: map_of_eq_None_iff)
    with n ok show "obj_get payload ''ok'' = JBool True" by (simp add: setdefault_def obj_get_def map_add_def)
  qed
  ultimately show ?thesis using keys by simp
qed

lemma body_result:
  assumes "call_body ev h name args rid scope cref cid rt = (res, rt')" "is_current cref rt"
  shows "(\<exists>rt1 rt2. h args rt1 = (res, rt2)) \<or> (\<exists>e. res = Inl e \<and> context_raises ev name rt e)"
  using assms
proof (cases rule: call_body_cases)
  case (ran rt2)
  from ran(1) show ?thesis
  proof (cases rule: run_handler_cases)
    case (unsaved payload rt1 r e)
    then have "context_raises ev name rt e" unfolding context_raises_def by blast
    with unsaved show ?thesis by blast
  qed blast+
qed blast

text \<open>
  C21: a call ends in one of two ways.  Either its name or its arguments are refused with the protocol
  error \<^verbatim>\<open>-32602\<close> and nothing has changed; or it returns a result that is marked as an error exactly when
  its payload has \<^verbatim>\<open>ok\<close> false.  When the search of the context or the body raised, the result reports this
  very exception: a tool failure with its code, category, retry hint, details and message, anything
  else as an internal error with its message; and what the body raised came from the handler or from a
  step of the context.  Otherwise the handler returned, and every member of what it returned but the
  image data is in the payload.
\<close>

theorem call_tool_structured:
  assumes "call_tool ev handlers attr name arguments rid rt = (out, rt')"
  shows "(\<exists>msg d. out = Inl (JsonRpcError (-32602) msg d) \<and> rt' = rt) \<or>
    (\<exists>r requested scope h. out = Inr r \<and> (tr_is_error r \<longleftrightarrow> obj_get (tr_structured r) ''ok'' = JBool False) \<and>
       opaque_arg 16 (obj_get arguments ''context_id'') = Some requested \<and>
       opaque_arg 8 (obj_get arguments ''task_scope_id'') = Some scope \<and> handlers name = Some h \<and>
       (case obtain_context ev requested rt of
          (Inl e, _, _) \<Rightarrow> reports ev e r
        | (Inr cref, cid, rt1) \<Rightarrow>
            (case fst (call_body ev h name (drop_context arguments) rid scope cref cid (lock_context cref rt1)) of
               Inl e \<Rightarrow> reports ev e r \<and>
                 ((\<exists>rt2 rt3. h (drop_context arguments) rt2 = (Inl e, rt3)) \<or> context_raises ev name rt1 e)
             | Inr p \<Rightarrow> (\<exists>rt2 rt3. h (drop_context arguments) rt2 = (Inr p, rt3)) \<and>
                 (\<forall>k. k \<in> fst ` set p \<and> k \<noteq> ''_mcp_image_data'' \<longrightarrow> obj_get (tr_structured r) k = obj_get p k) \<and>
                 (''ok'' \<notin> fst ` set p \<longrightarrow> obj_get (tr_structured r) ''ok'' = JBool True))))"
  using assms
proof (cases rule: call_tool_cases)
  case (early requested scope spec h e cid rt1)
  obtain r where "result_of ev name spec cid scope rt1 (Inl e) = Inr r" "reports ev e r"
    "obj_get (tr_structured r) ''ok'' = JBool False"
    using failure_reported by blast
  with early show ?thesis
    by (intro disjI2 exI [of _ r] exI [of _ requested] exI [of _ scope] exI [of _ h]) (simp add: reports_def)
next
  case (ran requested scope spec h cref cid rt1 res rt2)
  have cur: "is_current cref (lock_context cref rt1)"
    using obtain_context_current [OF ran(2)] by (cases cref) (simp_all add: is_current_def lock_context_def)
  have raises: "context_raises ev name (lock_context cref rt1) e = context_raises ev name rt1 e" for e
    by (simp add: context_raises_def)
  note from_body = body_result [OF ran(3) cur]
  show ?thesis
  proof (cases res)
    case (Inl e)
    obtain r where "result_of ev name spec cid scope rt2 (Inl e) = Inr r" "reports ev e r"
      "obj_get (tr_structured r) ''ok'' = JBool False"
      using failure_reported by blast
    with ran Inl from_body show ?thesis
      by (intro disjI2 exI [of _ r] exI [of _ requested] exI [of _ scope] exI [of _ h])
         (simp add: reports_def raises)
  next
    case (Inr p)
    obtain r where "result_of ev name spec cid scope rt2 (Inr p) = Inr r"
      "tr_is_error r \<longleftrightarrow> obj_get (tr_structured r) ''ok'' = JBool False"
      "\<forall>k. k \<in> fst ` set p \<and> k \<noteq> ''_mcp_image_data'' \<longrightarrow> obj_get (tr_structured r) k = obj_get p k"
      "''ok'' \<notin> fst ` set p \<longrightarrow> obj_get (tr_structured r) ''ok'' = JBool True"
      using payload_reported by blast
    with ran Inr from_body show ?thesis
      by (intro disjI2 exI [of _ r] exI [of _ requested] exI [of _ scope] exI [of _ h]) simp
  qed
qed auto

text \<open>A handler that refuses, whose failure the result reports.\<close>

definition refusing_handlers :: "string \<Rightarrow> unit handler option" where
  "refusing_handlers n = (if n = ''get_default_cwd''
     then Some (\<lambda>args rt. (Inl (tool_failure ''NOT_FOUND'' ''not_found''), rt)) else None)"

theorem call_tool_structured_witness:
  "(\<exists>msg d. call_tool demo_call_env demo_handlers (\<lambda>_. True) ''get_default_cwd'' [(''path'', JStr ''x'')] (JInt 1) demo_runtime =
     (Inl (JsonRpcError (-32602) msg d), demo_runtime)) \<and>
   (\<exists>r rt'. call_tool demo_call_env refusing_handlers (\<lambda>_. True) ''get_default_cwd'' [] (JInt 1) demo_runtime = (Inr r, rt') \<and>
     reports demo_call_env (tool_failure ''NOT_FOUND'' ''not_found'') r)"
proof -
  let ?c = "call_tool demo_call_env demo_handlers (\<lambda>_. True) ''get_default_cwd'' [(''path'', JStr ''x'')] (JInt 1) demo_runtime"
  have "case fst ?c of Inl _ \<Rightarrow> True | Inr _ \<Rightarrow> False" by code_simp
  with call_tool_structured [of demo_call_env demo_handlers "\<lambda>_. True" "''get_default_cwd''" "[(''path'', JStr ''x'')]" "JInt 1"
      demo_runtime "fst ?c" "snd ?c"]
  have refused: "\<exists>msg d. ?c = (Inl (JsonRpcError (-32602) msg d), demo_runtime)"
    by (cases "fst ?c") (auto simp: prod_eq_iff)
  let ?d = "call_tool demo_call_env refusing_handlers (\<lambda>_. True) ''get_default_cwd'' [] (JInt 1) demo_runtime"
  let ?b = "\<lambda>h. case obtain_context demo_call_env None demo_runtime of (Inl _, _, _) \<Rightarrow> None
    | (Inr cref, cid, rt1) \<Rightarrow> Some (fst (call_body demo_call_env h ''get_default_cwd'' (drop_context []) (JInt 1) None cref cid (lock_context cref rt1)))"
  have ev: "case fst ?d of Inl _ \<Rightarrow> False | Inr _ \<Rightarrow> True" "opaque_arg 16 (obj_get [] ''context_id'') = Some None"
    "opaque_arg 8 (obj_get [] ''task_scope_id'') = Some None"
    "?b (the (refusing_handlers ''get_default_cwd'')) = Some (Inl (tool_failure ''NOT_FOUND'' ''not_found''))"
    by (code_simp, code_simp, code_simp, code_simp)
  from ev(1) obtain r where r: "fst ?d = Inr r" by (auto split: sum.splits)
  then have d: "?d = (Inr r, snd ?d)" by (metis prod.collapse)
  obtain cref cid rt1 where "obtain_context demo_call_env None demo_runtime = (Inr cref, cid, rt1)"
    "fst (call_body demo_call_env (the (refusing_handlers ''get_default_cwd'')) ''get_default_cwd'' (drop_context []) (JInt 1)
       None cref cid (lock_context cref rt1)) = Inl (tool_failure ''NOT_FOUND'' ''not_found'')"
    using ev(4) by (auto split: prod.splits sum.splits)
  with call_tool_structured [OF d] ev(2,3) have "reports demo_call_env (tool_failure ''NOT_FOUND'' ''not_found'') r"
    by auto
  with d refused show ?thesis by blast
qed

end
