(* ===== verification/GitTools.thy ===== *)
theory GitTools
  imports Workspace TextUtils Arguments
begin

text \<open>
  The git tools of the runtime (\<^verbatim>\<open>server.py\<close>: \<open>git_status\<close> to \<open>git_push\<close>, their helpers and the parsers
  of git's output).

  \<^item> Git is a parameter: a function from an argument vector, the file tree and the repository to an
    exit code with two outputs, or to the exception of an expired timeout, and to the new tree and
    repository.  The repository is an abstract type.  Nothing is assumed about git but what a theorem
    names.
  \<^item> A tool is a program in the monad of \<open>FileSystem\<close> over a world with the repository and the trace of
    the commands that were run.  The text outputs of git are strings of characters, the outputs read as
    bytes are bytes.
\<close>

section \<open>Running git\<close>

record git_out =
  go_code :: int
  go_stdout :: string
  go_stderr :: string
  go_bytes :: bytes

type_synonym environ = "(string, string) dict"

text \<open>A command that was run: its environment, its argument vector, what it answered.\<close>

record git_call =
  gc_env :: environ
  gc_argv :: "string list"
  gc_answer :: "git_out result"

record 'r git_world = world +
  gw_repo :: 'r
  gw_trace :: "git_call list"

type_synonym 'r git_program = "environ \<Rightarrow> string list \<Rightarrow> fs \<Rightarrow> 'r \<Rightarrow> git_out result \<times> fs \<times> 'r"

type_synonym ('a, 'r) git = "'r git_world \<Rightarrow> 'a result \<times> 'r git_world"

text \<open>
  What the tools read of their surroundings: the path of git (\<^verbatim>\<open>cached_which\<close>), git itself, the process
  environment and the configured one, the credentials file, the workspace, the baselines of the patches
  and \<^verbatim>\<open>difflib.unified_diff\<close>.
\<close>

record 'r git_setting =
  ge_git :: "string option"
  ge_run :: "'r git_program"
  ge_environ :: environ
  ge_set :: environ
  ge_credentials :: "string option"
  ge_ws :: workspace_env
  ge_other :: "json \<Rightarrow> string"
  ge_baselines :: "(string, pytext option) dict"
  ge_unified_diff :: "pytext list \<Rightarrow> pytext list \<Rightarrow> string \<Rightarrow> string \<Rightarrow> pytext list"

definition git_config_entries :: "string option \<Rightarrow> (string \<times> string) list" where
  "git_config_entries credentials =
     (''core.hooksPath'', ''/dev/null'') #
     (case credentials of None \<Rightarrow> []
      | Some f \<Rightarrow> [(''credential.helper'', []), (''credential.helper'', ''store --file='' @ f)])"

definition git_env :: "'r git_setting \<Rightarrow> environ" where
  "git_env ge =
     (let entries = git_config_entries (ge_credentials ge);
          env = foldl (\<lambda>env (k, v). dict_set k v env) (ge_environ ge) (ge_set ge);
          env = dict_set ''GIT_CONFIG_COUNT'' (nat_str (length entries)) env;
          env = foldl (\<lambda>env (i, k, v).
                  dict_set (''GIT_CONFIG_VALUE_'' @ nat_str i) v (dict_set (''GIT_CONFIG_KEY_'' @ nat_str i) k env))
                env (enumerate 0 entries) in
      dict_set ''GIT_TERMINAL_PROMPT'' ''0'' env)"

text \<open>
  \<^verbatim>\<open>subprocess.run\<close>: an argument with a null character is refused before a process exists.  The answer of
  the parameter is an exception when the time is over or an output cannot be decoded.
\<close>

definition run_git :: "'r git_setting \<Rightarrow> string list \<Rightarrow> (git_out, 'r) git" where
  "run_git ge argv w =
     (if list_ex (\<lambda>a. CHR 0x00 \<in> set a) argv then (Inl (ValueError ''embedded null byte''), w)
      else (case ge_run ge (git_env ge) argv (w_fs w) (gw_repo w) of
        (res, s, r) \<Rightarrow> (res, w\<lparr>w_fs := s, gw_repo := r,
          gw_trace := gw_trace w @ [\<lparr>gc_env = git_env ge, gc_argv = argv, gc_answer = res\<rparr>]\<rparr>)))"

definition git_error :: pyexn where
  "git_error = tool_failure ''GIT_ERROR'' ''runtime''"

definition invalid_argument :: pyexn where
  "invalid_argument = tool_failure ''INVALID_ARGUMENT'' ''validation''"

definition require_git :: "'r git_setting \<Rightarrow> (string, 'r) git" where
  "require_git ge = (case ge_git ge of Some g \<Rightarrow> if g = [] then io_raise git_error else io_return g | None \<Rightarrow> io_raise git_error)"

text \<open>A step that reads the tree and may raise.\<close>

definition reads :: "(fs \<Rightarrow> 'a result) \<Rightarrow> ('a, 'r) git" where
  "reads f w = (f (w_fs w), w)"

definition lift_r :: "'a result \<Rightarrow> ('a, 'r) git" where
  "lift_r r w = (r, w)"

definition root_text :: "'r git_setting \<Rightarrow> string" where
  "root_text ge = abs_text (we_root (ge_ws ge))"

definition git_at :: "'r git_setting \<Rightarrow> string \<Rightarrow> string list \<Rightarrow> (git_out, 'r) git" where
  "git_at ge git words = run_git ge (git # ''-C'' # root_text ge # words)"

definition is_git_repo :: "'r git_setting \<Rightarrow> path \<Rightarrow> (bool, 'r) git" where
  "is_git_repo ge p =
     io_bind (require_git ge) (\<lambda>git.
     io_bind (run_git ge [git, ''-C'', abs_text p, ''rev-parse'', ''--is-inside-work-tree'']) (\<lambda>out.
       io_return (go_code out = 0 \<and> strip_str (go_stdout out) = ''true'')))"

definition git_rev_parse :: "'r git_setting \<Rightarrow> path \<Rightarrow> string \<Rightarrow> (string, 'r) git" where
  "git_rev_parse ge p revision =
     io_bind (require_git ge) (\<lambda>git.
     io_bind (run_git ge [git, ''-C'', abs_text p, ''rev-parse'', revision]) (\<lambda>out.
       io_return (if go_code out = 0 then strip_str (go_stdout out) else [])))"

definition default_cwd_display :: "'r git_setting \<Rightarrow> string" where
  "default_cwd_display ge = display_for_path (ge_ws ge) (we_default_cwd (ge_ws ge))"

definition git_path_filter :: "'r git_setting \<Rightarrow> string \<Rightarrow> (string, 'r) git" where
  "git_path_filter ge raw =
     (if raw = ''.'' then io_return (default_cwd_display ge)
      else io_bind (reads (\<lambda>s. rt_resolve_for_write (ge_ws ge) s raw)) (\<lambda>r. io_return (rp_display r)))"

fun git_map :: "('x \<Rightarrow> ('y, 'r) git) \<Rightarrow> 'x list \<Rightarrow> ('y list, 'r) git" where
  "git_map f [] = io_return []"
| "git_map f (x # xs) = io_bind (f x) (\<lambda>y. io_bind (git_map f xs) (\<lambda>ys. io_return (y # ys)))"

definition git_path_filters :: "'r git_setting \<Rightarrow> obj \<Rightarrow> (string list, 'r) git" where
  "git_path_filters ge args =
     git_map (git_path_filter ge)
       ((case obj_get args ''path'' of JStr p \<Rightarrow> [p] | _ \<Rightarrow> []) @
        (case obj_get args ''paths'' of JList ps \<Rightarrow> map (py_str (ge_other ge)) ps | _ \<Rightarrow> []))"

definition validate_git_ref :: "string \<Rightarrow> string result" where
  "validate_git_ref ref =
     (if ref = [] \<or> startswith ref ''-'' \<or> CHR 0x00 \<in> set ref \<or> CHR 10 \<in> set ref \<or> CHR 13 \<in> set ref
      then Inl invalid_argument else Inr ref)"

section \<open>Parsers\<close>

text \<open>\<^verbatim>\<open>s.split(sep, 1)\<close> for a separator of several characters: what precedes and what follows it.\<close>

definition cut_at :: "'a list \<Rightarrow> 'a list \<Rightarrow> ('a list \<times> 'a list) option" where
  "cut_at sep s = map_option (\<lambda>i. (take i s, drop (i + length sep) s)) (find_sub s sep)"

text \<open>\<^verbatim>\<open>re.search(word + r" (\\d+)", meta)\<close>, read as an integer, 0 when it does not match.\<close>

fun count_after :: "string \<Rightarrow> string \<Rightarrow> int" where
  "count_after word [] = 0"
| "count_after word (c # cs) =
     (let rest = drop (length word) (c # cs); ds = takeWhile ch_digit rest in
      if startswith (c # cs) word \<and> ds \<noteq> [] then int (digits_val ds) else count_after word cs)"

definition parse_branch_line :: "string \<Rightarrow> string \<times> string \<times> int \<times> int" where
  "parse_branch_line line =
     (let (branch, upstream) = (case cut_at ''...'' line of
            Some (b, rest) \<Rightarrow> (b, first_part (CHR '' '') rest)
          | None \<Rightarrow> (line, []));
          meta = (if CHR ''['' \<in> set line \<and> CHR '']'' \<in> set line
                  then first_part (CHR '']'') (drop 1 (dropWhile (\<lambda>c. c \<noteq> CHR ''['') line)) else []) in
      (strip_str branch, strip_str upstream, count_after ''ahead '' meta, count_after ''behind '' meta))"

record status_entry =
  se_path :: string
  se_original :: "string option"
  se_index :: char
  se_worktree :: char

text \<open>
  The loop over the lines of \<^verbatim>\<open>git status --porcelain=v1 -b\<close>.  A line with one character raises in the
  source (\<^verbatim>\<open>line[1]\<close>); the loop stops when there are enough entries.
\<close>

definition status_line :: "string \<Rightarrow> status_entry result" where
  "status_line line =
     (if length line < 2 then Inl (RuntimeError ''IndexError'')
      else
        let t = drop 3 line in
        Inr (case cut_at '' -> '' t of
               Some (o1, p) \<Rightarrow> \<lparr>se_path = p, se_original = Some o1, se_index = line ! 0, se_worktree = line ! 1\<rparr>
             | None \<Rightarrow> \<lparr>se_path = t, se_original = None, se_index = line ! 0, se_worktree = line ! 1\<rparr>))"

fun status_loop ::
    "int \<Rightarrow> string list \<Rightarrow> string \<times> string \<times> int \<times> int \<Rightarrow> status_entry list \<Rightarrow>
     ((string \<times> string \<times> int \<times> int) \<times> status_entry list) result" where
  "status_loop max_entries [] head entries = Inr (head, entries)"
| "status_loop max_entries (line # lines) head entries =
     (if startswith line ''## '' then status_loop max_entries lines (parse_branch_line (drop 3 line)) entries
      else if line = [] then status_loop max_entries lines head entries
      else rbind (status_line line) (\<lambda>e.
        let entries' = entries @ [e] in
        if max_entries \<le> int (length entries') then Inr (head, entries')
        else status_loop max_entries lines head entries'))"

text \<open>\<^verbatim>\<open>str.splitlines\<close> on a string of characters.\<close>

definition str_lines :: "string \<Rightarrow> string list" where
  "str_lines s = map (map char_of) (splitlines (lit s))"

definition hex_or_caret :: "char \<Rightarrow> bool" where
  "hex_or_caret c \<longleftrightarrow> ch_digit c \<or> (97 \<le> ch_code c \<and> ch_code c \<le> 102) \<or> (65 \<le> ch_code c \<and> ch_code c \<le> 70) \<or> c = CHR ''^''"

text \<open>\<^verbatim>\<open>str.isdigit\<close> also holds for superscripts, which \<^verbatim>\<open>int\<close> refuses.\<close>

definition isdigit_str :: "string \<Rightarrow> bool" where
  "isdigit_str s \<longleftrightarrow> s \<noteq> [] \<and> list_all (\<lambda>c. ch_digit c \<or> ch_code c \<in> {178, 179, 185}) s"

definition int_or :: "json \<Rightarrow> string \<Rightarrow> json result" where
  "int_or d s = (if isdigit_str s then (case py_int s of Some n \<Rightarrow> Inr (JInt n) | None \<Rightarrow> Inl (ValueError ''invalid literal for int()''))
                 else Inr d)"

definition blame_line :: "string \<Rightarrow> obj \<times> obj list \<Rightarrow> (obj \<times> obj list) result" where
  "blame_line raw st = (case st of (current, rows) \<Rightarrow>
     (let parts = split_words raw in
      if 3 \<le> length parts \<and> length (parts ! 0) = 40 \<and> list_all hex_or_caret (parts ! 0) then
        rbind (int_or JNull (parts ! 1)) (\<lambda>ol. rbind (int_or JNull (parts ! 2)) (\<lambda>l.
          Inr ([(''commit'', JStr (lstrip_by (\<lambda>c. c = CHR ''^'') (parts ! 0))), (''original_line'', ol), (''line'', l)], rows)))
      else if startswith raw ''author '' then Inr (dict_set ''author'' (JStr (removeprefix raw ''author '')) current, rows)
      else if startswith raw ''author-mail '' then
        Inr (dict_set ''author_mail'' (JStr (strip_by (\<lambda>c. c = CHR ''<'' \<or> c = CHR ''>'') (removeprefix raw ''author-mail ''))) current, rows)
      else if startswith raw ''author-time '' then
        rbind (int_or (JStr (removeprefix raw ''author-time '')) (removeprefix raw ''author-time '')) (\<lambda>t.
          Inr (dict_set ''author_time'' t current, rows))
      else if startswith raw ''summary '' then Inr (dict_set ''summary'' (JStr (removeprefix raw ''summary '')) current, rows)
      else if startswith raw [CHR 9] then Inr (current, rows @ [dict_set ''content'' (JStr (drop 1 raw)) current])
      else Inr (current, rows)))"

fun blame_loop :: "string list \<Rightarrow> obj \<times> obj list \<Rightarrow> (obj \<times> obj list) result" where
  "blame_loop [] st = Inr st"
| "blame_loop (raw # raws) st = rbind (blame_line raw st) (blame_loop raws)"

definition parse_git_blame_porcelain :: "string \<Rightarrow> obj list result" where
  "parse_git_blame_porcelain out = rbind (blame_loop (str_lines out) ([], [])) (\<lambda>(_, rows). Inr rows)"

record diff_file =
  df_path :: pytext
  df_status :: string
  df_binary :: bool

text \<open>The files of a diff in the order of the text; \<^verbatim>\<open>current\<close> is the last one.\<close>

definition diff_line :: "pytext \<Rightarrow> diff_file list \<Rightarrow> diff_file list" where
  "diff_line line fs =
     (if startswith line (lit ''diff --git '') then
        (let parts = words_by is_space [] line in
         if 4 \<le> length parts
         then fs @ [\<lparr>df_path = (if startswith (parts ! 3) (lit ''b/'') then drop 2 (parts ! 3) else parts ! 3),
                     df_status = ''modified'', df_binary = False\<rparr>]
         else fs)
      else if fs = [] then fs
      else if startswith line (lit ''new file mode'') then butlast fs @ [(last fs)\<lparr>df_status := ''added''\<rparr>]
      else if startswith line (lit ''deleted file mode'') then butlast fs @ [(last fs)\<lparr>df_status := ''deleted''\<rparr>]
      else if startswith line (lit ''Binary files'') then butlast fs @ [(last fs)\<lparr>df_binary := True\<rparr>]
      else fs)"

definition parse_diff_files :: "pytext \<Rightarrow> diff_file list" where
  "parse_diff_files t = foldl (\<lambda>fs l. diff_line l fs) [] (splitlines t)"

text \<open>\<^verbatim>\<open>data.decode("utf-8", errors="surrogateescape")\<close>: an undecodable byte becomes a lone surrogate.\<close>

function (sequential) escape_nats :: "nat list \<Rightarrow> nat list" where
  "escape_nats [] = []"
| "escape_nats (b # bs) =
     (case decode1 (b # bs) of (r, k) \<Rightarrow>
        (case r of Some c \<Rightarrow> [c] | None \<Rightarrow> map (\<lambda>x. 0xDC00 + x) (take k (b # bs))) @ escape_nats (drop k (b # bs)))"
  by pat_completeness auto
termination
proof (relation "measure length", goal_cases)
  case (2 b bs r k)
  then have "0 < k" using decode1_pos [of b bs] by (metis snd_conv)
  then show ?case by simp
qed simp

definition decode_escape :: "bytes \<Rightarrow> pytext" where
  "decode_escape bs = escape_nats (map unat bs)"

section \<open>The reading tools\<close>

text \<open>\<^verbatim>\<open>completed.stderr.strip() or default\<close> is only the message of the failure, which the model leaves out.\<close>

definition git_done :: "pyexn \<Rightarrow> git_out \<Rightarrow> (unit, 'r) git" where
  "git_done e out = (if go_code out = 0 then io_return () else io_raise e)"

definition status_json :: "status_entry \<Rightarrow> json" where
  "status_json e = JObj
     [(''path'', JStr (se_path e)),
      (''original_path'', case se_original e of None \<Rightarrow> JNull | Some p \<Rightarrow> JStr p),
      (''index_status'', JStr [se_index e]), (''worktree_status'', JStr [se_worktree e])]"

definition git_status_not_repo :: "git_out \<Rightarrow> obj" where
  "git_status_not_repo out =
     [(''is_repo'', JBool False), (''clean'', JBool True), (''entries'', JList []), (''truncated'', JBool False),
      (''warnings'', JList (if strip_str (go_stderr out) = [] then []
        else [JStr (''git rev-parse failed: '' @ strip_str (go_stderr out))]))]"

definition git_status :: "'r git_setting \<Rightarrow> obj \<Rightarrow> (obj, 'r) git" where
  "git_status ge args =
     io_bind (reads (\<lambda>s. rt_resolve_existing (ge_ws ge) s (str_arg (ge_other ge) args ''path'' ''.''))) (\<lambda>r.
     io_bind (lift_r (int_arg args ''max_entries'' 1000)) (\<lambda>max_entries.
     io_bind (require_git ge) (\<lambda>git.
     io_bind (run_git ge [git, ''-C'', abs_text (rp_path r), ''rev-parse'', ''--show-toplevel'']) (\<lambda>root_check.
     if go_code root_check \<noteq> 0 then io_return (git_status_not_repo root_check)
     else
       io_bind (run_git ge ([git, ''-C'', abs_text (rp_path r), ''status'', ''--porcelain=v1'', ''-b''] @
                 (if bool_arg args ''include_untracked'' True then [] else [''--untracked-files=no'']))) (\<lambda>out.
       io_bind (git_done git_error out) (\<lambda>_.
       io_bind (lift_r (status_loop max_entries (str_lines (go_stdout out)) ([], [], 0, 0) []))
         (\<lambda>((branch, upstream, ahead, behind), entries).
       io_bind (git_rev_parse ge (rp_path r) ''HEAD'') (\<lambda>head.
       io_return
         [(''is_repo'', JBool True), (''branch'', JStr branch), (''head'', JStr head),
          (''upstream'', JStr upstream), (''ahead'', JInt ahead), (''behind'', JInt behind),
          (''clean'', JBool (entries = [])), (''entries'', JList (map status_json entries)),
          (''truncated'', JBool (max_entries \<le> int (length entries) \<and>
             max_entries + 1 < int (length (str_lines (go_stdout out)))))])))))))) "

record diff_answer =
  da_text :: pytext
  da_files :: "diff_file list"
  da_truncation :: TextTruncation
  da_warnings :: "string list"

text \<open>The lines of a file with their line ends, \<^verbatim>\<open>splitlines(keepends=True)\<close>.\<close>

fun keep_lines :: "pytext \<Rightarrow> pytext \<Rightarrow> pytext list" where
  "keep_lines acc [] = (if acc = [] then [] else [rev acc])"
| "keep_lines acc (c # cs) =
     (if c = 13 \<and> cs \<noteq> [] \<and> hd cs = 10 then keep_lines (c # acc) cs
      else if is_line_break c then rev (c # acc) # keep_lines [] cs
      else keep_lines (c # acc) cs)"

definition fallback_entry ::
    "'r git_setting \<Rightarrow> fs \<Rightarrow> string \<Rightarrow> pytext option \<Rightarrow> (pytext list \<times> diff_file list) result" where
  "fallback_entry ge s rel before =
     rbind (resolve_for_write_at (ge_ws ge) s (we_root (ge_ws ge)) rel) (\<lambda>r.
     rbind (if fs_exists s (rp_path r) \<and> \<not> fs_is_dir s (rp_path r)
            then rbind (fst (fs_read (rp_path r) s)) (\<lambda>(d, _). rbind (py_decode d) (\<lambda>t. Inr (Some t)))
            else Inr None) (\<lambda>after.
     if before = after then Inr ([], [])
     else Inr
       (ge_unified_diff ge (case before of None \<Rightarrow> [] | Some t \<Rightarrow> keep_lines [] t)
          (case after of None \<Rightarrow> [] | Some t \<Rightarrow> keep_lines [] t) (''a/'' @ rel) (''b/'' @ rel),
        [\<lparr>df_path = lit rel,
          df_status = (if before = None then ''added'' else if after = None then ''deleted'' else ''modified''),
          df_binary = False\<rparr>])))"

definition fallback_diff :: "'r git_setting \<Rightarrow> fs \<Rightarrow> string list \<Rightarrow> int \<Rightarrow> diff_answer result" where
  "fallback_diff ge s path_filters mb =
     rbind (rmap (\<lambda>rel. fallback_entry ge s rel (the (map_of (ge_baselines ge) rel)))
             (filter (\<lambda>rel. path_filters = [] \<or> rel \<in> set path_filters) (sort (map fst (ge_baselines ge))))) (\<lambda>parts.
     let diff = join [10] (concat (map fst parts));
         diff = (if diff \<noteq> [] \<and> \<not> endswith diff [10] then diff @ [10] else diff) in
     rbind (truncate_text_head diff DEFAULT_MAX_LINES mb) (\<lambda>t.
     Inr \<lparr>da_text = content t, da_files = concat (map snd parts), da_truncation = t,
          da_warnings = ''non-git diff fallback'' # (if truncated t then [''diff truncated''] else [])\<rparr>))"

definition run_git_diff :: "'r git_setting \<Rightarrow> string \<Rightarrow> int \<Rightarrow> string list \<Rightarrow> bool \<Rightarrow> (bytes, 'r) git" where
  "run_git_diff ge git context path_filters cached =
     io_bind (git_at ge git
       ([''diff'', ''--unified='' @ int_str context] @ (if cached then [''--cached''] else []) @
        (if path_filters = [] then [] else ''--'' # path_filters))) (\<lambda>out.
     if go_code out = 0 \<or> go_code out = 1 then io_return (go_bytes out) else io_raise git_error)"

definition join_chunks :: "bytes list \<Rightarrow> bytes" where
  "join_chunks = foldl (\<lambda>combined chunk.
     (if combined \<noteq> [] \<and> chunk \<noteq> [] \<and> \<not> endswith combined [10] then combined @ [10] else combined) @ chunk) []"

definition diff_result :: "string \<Rightarrow> bytes \<Rightarrow> int \<Rightarrow> diff_answer result" where
  "diff_result warning data mb =
     rbind (truncate_text_head (decode_replace data) DEFAULT_MAX_LINES mb) (\<lambda>t.
     Inr \<lparr>da_text = content t, da_files = parse_diff_files (content t), da_truncation = t,
          da_warnings = (if truncated t then [warning] else [])\<rparr>)"

definition diff_chunks :: "'r git_setting \<Rightarrow> string \<Rightarrow> int \<Rightarrow> string list \<Rightarrow> bool \<Rightarrow> bool \<Rightarrow> (bytes list, 'r) git" where
  "diff_chunks ge git context path_filters cached wanted =
     (if wanted then io_bind (run_git_diff ge git context path_filters cached) (\<lambda>c. io_return [c]) else io_return [])"

definition git_diff :: "'r git_setting \<Rightarrow> obj \<Rightarrow> (diff_answer, 'r) git" where
  "git_diff ge args =
     io_bind (require_git ge) (\<lambda>git.
     io_bind (lift_r (int_arg args ''context_lines'' 3)) (\<lambda>context.
     io_bind (lift_r (int_arg args ''max_bytes'' 262144)) (\<lambda>mb.
     io_bind (git_path_filters ge args) (\<lambda>path_filters.
     io_bind (is_git_repo ge (we_root (ge_ws ge))) (\<lambda>repo.
     if \<not> repo then reads (\<lambda>s. fallback_diff ge s path_filters mb)
     else
       io_bind (diff_chunks ge git context path_filters False (bool_arg args ''unstaged'' True)) (\<lambda>c1.
       io_bind (diff_chunks ge git context path_filters True (bool_arg args ''staged'' False)) (\<lambda>c2.
       lift_r (diff_result ''diff truncated'' (join_chunks (c1 @ c2)) mb))))))))"

definition log_record :: "string \<Rightarrow> obj list" where
  "log_record rec =
     (let fields = split_on (CHR 31) (strip_by (\<lambda>c. c = CHR 10) rec) in
      if length fields < 6 \<or> fields ! 0 = [] then []
      else [[(''hash'', JStr (fields ! 0)), (''short_hash'', JStr (fields ! 1)), (''author_name'', JStr (fields ! 2)),
             (''author_email'', JStr (fields ! 3)), (''author_date'', JStr (fields ! 4)), (''subject'', JStr (fields ! 5))]])"

text \<open>\<^verbatim>\<open>commits[:n]\<close>, which counts from the end when \<open>n\<close> is negative.\<close>

definition upto_slice :: "int \<Rightarrow> 'a list \<Rightarrow> 'a list" where
  "upto_slice n xs = take (nat (if n < 0 then int (length xs) + n else n)) xs"

definition log_pretty :: string where
  "log_pretty = ''--pretty=format:%H%x1f%h%x1f%an%x1f%ae%x1f%ad%x1f%s%x1e''"

definition git_log :: "'r git_setting \<Rightarrow> obj \<Rightarrow> (obj, 'r) git" where
  "git_log ge args =
     io_bind (require_git ge) (\<lambda>git.
     let requested = str_arg (ge_other ge) args ''path'' ''.'' in
     io_bind (reads (\<lambda>s. rt_resolve_existing (ge_ws ge) s requested)) (\<lambda>r.
     io_bind (is_git_repo ge (rp_path r)) (\<lambda>repo.
     if \<not> repo then io_return [(''is_repo'', JBool False), (''commits'', JList []), (''truncated'', JBool False), (''warnings'', JList [])]
     else
       io_bind (lift_r (validate_git_ref (str_arg (ge_other ge) args ''ref'' ''HEAD''))) (\<lambda>ref.
       io_bind (lift_r (int_arg args ''max_count'' 20)) (\<lambda>max_count.
       io_bind (lift_r (int_arg args ''skip'' 0)) (\<lambda>skip.
       io_bind (git_at ge git
         ([''log'', ''--max-count='' @ int_str (max_count + 1), ''--skip='' @ int_str skip, ''--date=iso-strict'',
           log_pretty, ref] @ (if rp_display r = ''.'' then [] else [''--'', rp_display r]))) (\<lambda>out.
       io_bind (git_done git_error out) (\<lambda>_.
       let commits = concat (map log_record (split_on (CHR 30) (go_stdout out)));
           trunc = max_count < int (length commits) in
       io_return
         ([(''is_repo'', JBool True), (''ref'', JStr ref), (''path'', JStr (rp_display r)), (''max_count'', JInt max_count),
           (''skip'', JInt skip), (''commits'', JList (map JObj (upto_slice max_count commits))), (''truncated'', JBool trunc),
           (''warnings'', JList (if trunc then [JStr ''commit limit reached''] else []))] @
          (if trunc then [(''next_action'', JObj [(''tool'', JStr ''git_log''),
             (''arguments'', JObj [(''path'', JStr requested), (''ref'', JStr ref), (''max_count'', JInt max_count),
                (''skip'', JInt (skip + max_count))])])] else [])))))))))) "

definition git_show :: "'r git_setting \<Rightarrow> obj \<Rightarrow> ((string \<times> diff_answer) option, 'r) git" where
  "git_show ge args =
     io_bind (require_git ge) (\<lambda>git.
     io_bind (is_git_repo ge (we_root (ge_ws ge))) (\<lambda>repo.
     if \<not> repo then io_return None
     else
       io_bind (lift_r (validate_git_ref (str_arg (ge_other ge) args ''rev'' ''HEAD''))) (\<lambda>ref.
       io_bind (lift_r (int_arg args ''context_lines'' 3)) (\<lambda>context.
       io_bind (lift_r (int_arg args ''max_bytes'' 262144)) (\<lambda>mb.
       io_bind (git_path_filters ge args) (\<lambda>path_filters.
       io_bind (git_at ge git
         ([''show'', ''--no-ext-diff'', ''--format=fuller'', ''--unified='' @ int_str context] @
          (if bool_arg args ''include_diff'' True then [] else [''--no-patch'']) @ [ref] @
          (if path_filters = [] then [] else ''--'' # path_filters))) (\<lambda>out.
       io_bind (git_done git_error out) (\<lambda>_.
       io_bind (lift_r (diff_result ''output truncated'' (go_bytes out) mb)) (\<lambda>answer.
       io_return (Some (ref, answer)))))))))))"

definition blame_next :: "string \<Rightarrow> int \<Rightarrow> int \<Rightarrow> int \<Rightarrow> string option \<Rightarrow> json" where
  "blame_next requested start_line end_line ml ref =
     JObj [(''tool'', JStr ''git_blame''), (''arguments'', JObj
       ([(''path'', JStr requested), (''start_line'', JInt start_line), (''end_line'', JInt end_line), (''max_lines'', JInt ml)] @
        (case ref of None \<Rightarrow> [] | Some t \<Rightarrow> [(''rev'', JStr t)])))]"

definition blame_ref :: "obj \<Rightarrow> string option result" where
  "blame_ref args =
     (case obj_get args ''rev'' of
        JStr t \<Rightarrow> if t = [] then Inr None else rbind (validate_git_ref t) (\<lambda>ref. Inr (Some ref))
      | _ \<Rightarrow> Inr None)"

definition blame_final :: "obj \<Rightarrow> int \<Rightarrow> int \<Rightarrow> int result" where
  "blame_final args start_line ml =
     (if obj_get args ''end_line'' = JNull then Inr (start_line + ml - 1) else int_value (obj_get args ''end_line''))"

definition git_blame :: "'r git_setting \<Rightarrow> obj \<Rightarrow> (obj, 'r) git" where
  "git_blame ge args =
     io_bind (require_git ge) (\<lambda>git.
     let requested = str_arg (ge_other ge) args ''path'' [] in
     io_bind (reads (\<lambda>s. rt_resolve_existing (ge_ws ge) s requested)) (\<lambda>r.
     io_bind (reads (\<lambda>s. if fs_is_dir s (rp_path r) then Inl (tool_failure ''IS_DIRECTORY'' ''validation'') else Inr ())) (\<lambda>_.
     io_bind (is_git_repo ge (we_root (ge_ws ge))) (\<lambda>repo.
     if \<not> repo then io_return [(''is_repo'', JBool False), (''path'', JStr (rp_display r)), (''lines'', JList []),
                                (''truncated'', JBool False), (''warnings'', JList [])]
     else
       io_bind (lift_r (blame_ref args)) (\<lambda>ref.
       io_bind (lift_r (int_arg args ''start_line'' 1)) (\<lambda>start_line.
       io_bind (lift_r (int_arg args ''max_lines'' 200)) (\<lambda>ml.
       io_bind (lift_r (blame_final args start_line ml)) (\<lambda>requested_final.
       if requested_final < start_line then io_raise invalid_argument
       else let final_line = min requested_final (start_line + ml - 1) in
       io_bind (git_at ge git
         ([''blame'', ''--line-porcelain'', ''-L'', int_str start_line @ '','' @ int_str final_line] @
          (case ref of None \<Rightarrow> [] | Some t \<Rightarrow> [t]) @ [''--'', rp_display r])) (\<lambda>out.
       io_bind (git_done git_error out) (\<lambda>_.
       io_bind (lift_r (parse_git_blame_porcelain (go_stdout out))) (\<lambda>rows.
       let over = ml < int (length rows);
           trunc = (ml < requested_final - start_line + 1 \<or> over);
           rows' = (if over then upto_slice ml rows else rows) in
       io_return
         ([(''is_repo'', JBool True), (''path'', JStr (rp_display r)), (''rev'', case ref of None \<Rightarrow> JNull | Some t \<Rightarrow> JStr t),
           (''start_line'', JInt start_line), (''end_line'', JInt final_line), (''max_lines'', JInt ml),
           (''lines'', JList (map JObj rows')), (''truncated'', JBool trunc),
           (''warnings'', JList (if trunc then [JStr ''line limit reached''] else []))] @
          (if trunc \<and> final_line < requested_final
           then [(''next_action'', blame_next requested (final_line + 1) requested_final ml ref)] else [])))))))))))))"

section \<open>The tools that change the repository\<close>

definition require_selected_git_repo :: "'r git_setting \<Rightarrow> (string, 'r) git" where
  "require_selected_git_repo ge =
     io_bind (require_git ge) (\<lambda>git.
     io_bind (is_git_repo ge (we_root (ge_ws ge))) (\<lambda>repo.
     if repo then io_return git else io_raise git_error))"

definition git_current_branch :: "'r git_setting \<Rightarrow> string \<Rightarrow> (string, 'r) git" where
  "git_current_branch ge git =
     io_bind (git_at ge git [''branch'', ''--show-current'']) (\<lambda>out.
     let branch = (if go_code out = 0 then strip_str (go_stdout out) else []) in
     if branch = [] then io_raise git_error else io_return branch)"

definition validate_branch_name :: "'r git_setting \<Rightarrow> string \<Rightarrow> string \<Rightarrow> (string, 'r) git" where
  "validate_branch_name ge name git =
     (if name = [] \<or> 255 < length name then io_raise invalid_argument
      else io_bind (run_git ge [git, ''check-ref-format'', ''--branch'', name]) (\<lambda>out.
        if go_code out \<noteq> 0 then io_raise invalid_argument else io_return name))"

definition show_ref :: "'r git_setting \<Rightarrow> string \<Rightarrow> string \<Rightarrow> (git_out, 'r) git" where
  "show_ref ge git name = git_at ge git [''show-ref'', ''--verify'', ''--quiet'', ''refs/heads/'' @ name]"

definition branch_arg :: "'r git_setting \<Rightarrow> obj \<Rightarrow> string \<Rightarrow> string" where
  "branch_arg ge args k = strip_str (str_arg (ge_other ge) args k [])"

definition git_head :: "'r git_setting \<Rightarrow> (string, 'r) git" where
  "git_head ge = git_rev_parse ge (we_root (ge_ws ge)) ''HEAD''"

definition git_create_branch :: "'r git_setting \<Rightarrow> obj \<Rightarrow> (obj, 'r) git" where
  "git_create_branch ge args =
     io_bind (require_selected_git_repo ge) (\<lambda>git.
     io_bind (validate_branch_name ge (branch_arg ge args ''name'') git) (\<lambda>name.
     io_bind (show_ref ge git name) (\<lambda>known.
     if go_code known = 0 then io_raise invalid_argument
     else
       io_bind (git_at ge git [''switch'', ''-c'', name]) (\<lambda>out.
       io_bind (git_done git_error out) (\<lambda>_.
       io_bind (git_head ge) (\<lambda>sha.
       io_return [(''branch'', JStr name), (''sha'', JStr sha)]))))))"

definition git_switch_branch :: "'r git_setting \<Rightarrow> obj \<Rightarrow> (obj, 'r) git" where
  "git_switch_branch ge args =
     io_bind (require_selected_git_repo ge) (\<lambda>git.
     io_bind (validate_branch_name ge (branch_arg ge args ''name'') git) (\<lambda>name.
     io_bind (show_ref ge git name) (\<lambda>known.
     if go_code known \<noteq> 0 then io_raise (tool_failure ''NOT_FOUND'' ''not_found'')
     else
       io_bind (git_at ge git [''switch'', name]) (\<lambda>out.
       io_bind (git_done git_error out) (\<lambda>_.
       io_bind (git_head ge) (\<lambda>sha.
       io_return [(''branch'', JStr name), (''sha'', JStr sha)]))))))"

text \<open>\<^verbatim>\<open>str(raw_remote or "origin").strip() or "origin"\<close>, then the name must be a configured remote.\<close>

definition configured_git_remote :: "'r git_setting \<Rightarrow> string \<Rightarrow> obj \<Rightarrow> (string, 'r) git" where
  "configured_git_remote ge git args =
     (let raw = (case map_of args ''remote'' of None \<Rightarrow> JStr ''origin'' | Some v \<Rightarrow> v);
          text = strip_str (if json_falsy raw then ''origin'' else py_str (ge_other ge) raw);
          remote = (if text = [] then ''origin'' else text) in
      if 256 < length remote \<or> CHR 0x00 \<in> set remote \<or> startswith remote ''-'' then io_raise invalid_argument
      else io_bind (git_at ge git [''remote'']) (\<lambda>out.
        if go_code out = 0 \<and> remote \<in> set (split_words (go_stdout out)) then io_return remote
        else io_raise invalid_argument))"

definition git_fetch :: "'r git_setting \<Rightarrow> obj \<Rightarrow> (obj, 'r) git" where
  "git_fetch ge args =
     io_bind (require_selected_git_repo ge) (\<lambda>git.
     io_bind (configured_git_remote ge git args) (\<lambda>remote.
     io_bind (git_at ge git [''fetch'', ''--prune'', remote]) (\<lambda>out.
     io_bind (git_done (tool_failure_with ''GIT_ERROR'' ''runtime'' [(''remote'', JStr remote)]) out) (\<lambda>_.
     io_return [(''remote'', JStr remote), (''result'', JStr ''fetched_and_pruned'')]))))"

text \<open>The guard of \<open>git_pull\<close> and \<open>git_merge_remote_branch\<close>: no tracked or staged change.\<close>

definition require_clean :: "'r git_setting \<Rightarrow> string \<Rightarrow> (unit, 'r) git" where
  "require_clean ge git =
     io_bind (git_at ge git [''status'', ''--porcelain=v1'', ''--untracked-files=no'']) (\<lambda>dirty.
     io_bind (git_done git_error dirty) (\<lambda>_.
     if strip_str (go_stdout dirty) \<noteq> [] then io_raise (tool_failure ''INVALID_STATE'' ''conflict'') else io_return ()))"

definition git_pull :: "'r git_setting \<Rightarrow> obj \<Rightarrow> (obj, 'r) git" where
  "git_pull ge args =
     io_bind (require_selected_git_repo ge) (\<lambda>git.
     io_bind (git_current_branch ge git) (\<lambda>branch.
     io_bind (configured_git_remote ge git args) (\<lambda>remote.
     io_bind (require_clean ge git) (\<lambda>_.
     io_bind (git_at ge git [''pull'', ''--ff-only'', remote, branch]) (\<lambda>out.
     io_bind (git_done (tool_failure_with ''GIT_ERROR'' ''runtime'' [(''remote'', JStr remote), (''branch'', JStr branch)]) out) (\<lambda>_.
     io_bind (git_head ge) (\<lambda>sha.
     io_return [(''branch'', JStr branch), (''remote'', JStr remote), (''sha'', JStr sha), (''result'', JStr ''fast_forwarded'')])))))))"

definition remote_ref :: "string \<Rightarrow> string \<Rightarrow> string" where
  "remote_ref remote branch = ''refs/remotes/'' @ remote @ ''/'' @ branch"

definition git_merge_remote_branch :: "'r git_setting \<Rightarrow> obj \<Rightarrow> (obj, 'r) git" where
  "git_merge_remote_branch ge args =
     io_bind (require_selected_git_repo ge) (\<lambda>git.
     io_bind (git_current_branch ge git) (\<lambda>current.
     io_bind (configured_git_remote ge git args) (\<lambda>remote.
     io_bind (validate_branch_name ge (branch_arg ge args ''branch'') git) (\<lambda>branch.
     io_bind (require_clean ge git) (\<lambda>_.
     io_bind (git_rev_parse ge (we_root (ge_ws ge)) (remote_ref remote branch)) (\<lambda>known.
     if known = []
     then io_raise (tool_failure_with ''NOT_FOUND'' ''not_found'' [(''remote'', JStr remote), (''branch'', JStr branch)])
     else
       io_bind (git_head ge) (\<lambda>before.
       io_bind (git_at ge git [''merge'', ''--no-edit'', remote_ref remote branch]) (\<lambda>out.
       if go_code out \<noteq> 0 then
         io_bind (git_at ge git [''merge'', ''--abort'']) (\<lambda>_.
         io_raise (tool_failure_with ''GIT_CONFLICT'' ''conflict''
           [(''remote'', JStr remote), (''branch'', JStr branch), (''before'', JStr before)]))
       else
         io_bind (git_head ge) (\<lambda>sha.
         io_return [(''branch'', JStr current), (''remote'', JStr remote), (''merged_branch'', JStr branch),
                    (''before'', JStr before), (''sha'', JStr sha), (''result'', JStr ''merged'')])))))))))"

definition git_delete_branch :: "'r git_setting \<Rightarrow> obj \<Rightarrow> (obj, 'r) git" where
  "git_delete_branch ge args =
     io_bind (require_selected_git_repo ge) (\<lambda>git.
     io_bind (validate_branch_name ge (branch_arg ge args ''name'') git) (\<lambda>name.
     io_bind (git_current_branch ge git) (\<lambda>current.
     if name = current then io_raise (tool_failure ''INVALID_STATE'' ''conflict'')
     else
       io_bind (git_at ge git [''branch'', ''-d'', name]) (\<lambda>out.
       io_bind (git_done git_error out) (\<lambda>_.
       io_return [(''branch'', JStr name), (''result'', JStr ''deleted_local'')])))))"

definition git_delete_remote_branch :: "'r git_setting \<Rightarrow> obj \<Rightarrow> (obj, 'r) git" where
  "git_delete_remote_branch ge args =
     io_bind (require_selected_git_repo ge) (\<lambda>git.
     io_bind (validate_branch_name ge (branch_arg ge args ''name'') git) (\<lambda>name.
     io_bind (configured_git_remote ge git args) (\<lambda>remote.
     io_bind (git_at ge git [''push'', remote, ''--delete'', name]) (\<lambda>out.
     io_bind (git_done (tool_failure_with ''GIT_ERROR'' ''runtime'' [(''remote'', JStr remote), (''branch'', JStr name)]) out) (\<lambda>_.
     io_return [(''branch'', JStr name), (''remote'', JStr remote), (''result'', JStr ''deleted_remote'')])))))"

section \<open>Commit and push\<close>

definition explicit_git_path :: "'r git_setting \<Rightarrow> fs \<Rightarrow> json \<Rightarrow> string result" where
  "explicit_git_path ge s raw =
     (case raw of
        JStr t \<Rightarrow>
          if strip_str t = [] then Inl invalid_argument
          else rbind (rt_resolve_for_write (ge_ws ge) s (strip_str t)) (\<lambda>r.
            if rp_display r = [] \<or> rp_display r = ''.'' then Inl invalid_argument
            else if rp_existed r \<and> fs_is_dir s (rp_path r)
              then Inl (tool_failure_with ''INVALID_ARGUMENT'' ''validation'' [(''path'', JStr (rp_display r))])
            else Inr (rp_display r))
      | _ \<Rightarrow> Inl invalid_argument)"

text \<open>\<^verbatim>\<open>list(dict.fromkeys(paths))\<close> keeps the first of equal paths.\<close>

definition explicit_git_paths :: "'r git_setting \<Rightarrow> fs \<Rightarrow> json \<Rightarrow> string list result" where
  "explicit_git_paths ge s raw =
     (case raw of
        JList xs \<Rightarrow>
          if xs = [] \<or> 100 < length xs then Inl invalid_argument
          else rbind (rmap (explicit_git_path ge s) xs) (\<lambda>ps. Inr (rev (remdups (rev ps))))
      | _ \<Rightarrow> Inl invalid_argument)"

definition staged_words :: "string list" where
  "staged_words = [''diff'', ''--cached'', ''--name-only'', ''-z'']"

definition staged_of :: "git_out \<Rightarrow> pytext list" where
  "staged_of out = map decode_escape (filter (\<lambda>part. part \<noteq> []) (split_on 0 (go_bytes out)))"

definition staged_git_paths :: "'r git_setting \<Rightarrow> string \<Rightarrow> (pytext list, 'r) git" where
  "staged_git_paths ge git =
     io_bind (git_at ge git staged_words) (\<lambda>out.
     io_bind (git_done git_error out) (\<lambda>_. io_return (staged_of out)))"

record commit_answer =
  ca_branch :: string
  ca_sha :: string
  ca_paths :: "pytext list"

text \<open>The details of the two refusals, the sorted paths outside the request, are left out.\<close>

definition refuse_outside :: "pytext list \<Rightarrow> string list \<Rightarrow> (unit, 'r) git" where
  "refuse_outside staged paths =
     (if list_all (\<lambda>p. p \<in> set (map lit paths)) staged then io_return ()
      else io_raise (tool_failure ''INVALID_STATE'' ''conflict''))"

definition git_commit :: "'r git_setting \<Rightarrow> obj \<Rightarrow> (commit_answer, 'r) git" where
  "git_commit ge args =
     io_bind (require_selected_git_repo ge) (\<lambda>git.
     let message = strip_str (str_arg (ge_other ge) args ''message'' []) in
     if message = [] \<or> 4096 < length message \<or> CHR 0x00 \<in> set message then io_raise invalid_argument
     else
       io_bind (reads (\<lambda>s. explicit_git_paths ge s (obj_get args ''paths''))) (\<lambda>paths.
       io_bind (git_current_branch ge git) (\<lambda>branch.
       io_bind (staged_git_paths ge git) (\<lambda>already.
       io_bind (refuse_outside already paths) (\<lambda>_.
       io_bind (git_at ge git ([''add'', ''--''] @ paths)) (\<lambda>added.
       io_bind (git_done git_error added) (\<lambda>_.
       io_bind (staged_git_paths ge git) (\<lambda>staged.
       io_bind (refuse_outside staged paths) (\<lambda>_.
       if staged = [] then io_raise (tool_failure ''INVALID_STATE'' ''conflict'')
       else
         io_bind (git_at ge git ([''commit'', ''-m'', message, ''--''] @ paths)) (\<lambda>committed.
         io_bind (git_done git_error committed) (\<lambda>_.
         io_bind (git_head ge) (\<lambda>sha.
         io_return \<lparr>ca_branch = branch, ca_sha = sha, ca_paths = staged\<rparr>))))))))))))"

definition git_push :: "'r git_setting \<Rightarrow> obj \<Rightarrow> (obj, 'r) git" where
  "git_push ge args =
     (if bool_arg args ''force'' False then io_raise (tool_failure ''ACCESS_DENIED'' ''security'')
      else
        io_bind (require_selected_git_repo ge) (\<lambda>git.
        io_bind (git_current_branch ge git) (\<lambda>branch.
        io_bind (configured_git_remote ge git args) (\<lambda>remote.
        io_bind (git_at ge git [''push'', ''--set-upstream'', remote, branch]) (\<lambda>out.
        io_bind (git_done (tool_failure_with ''GIT_ERROR'' ''runtime'' [(''remote'', JStr remote), (''branch'', JStr branch)]) out) (\<lambda>_.
        io_return [(''branch'', JStr branch), (''remote'', JStr remote), (''upstream'', JStr (remote @ ''/'' @ branch)),
                   (''result'', JStr ''pushed'')]))))))"

text \<open>The handlers by the names under which the registry knows them.\<close>

datatype git_answer = Answer obj | DiffAnswer diff_answer | ShowAnswer "(string \<times> diff_answer) option" | CommitAnswer commit_answer

definition answering :: "('a \<Rightarrow> git_answer) \<Rightarrow> ('a, 'r) git \<Rightarrow> (git_answer, 'r) git" where
  "answering f m = io_bind m (\<lambda>x. io_return (f x))"

definition git_handlers :: "'r git_setting \<Rightarrow> obj \<Rightarrow> (string \<times> (git_answer, 'r) git) list" where
  "git_handlers ge args =
     [(''git_status'', answering Answer (git_status ge args)),
      (''git_diff'', answering DiffAnswer (git_diff ge args)),
      (''git_log'', answering Answer (git_log ge args)),
      (''git_show'', answering ShowAnswer (git_show ge args)),
      (''git_blame'', answering Answer (git_blame ge args)),
      (''git_create_branch'', answering Answer (git_create_branch ge args)),
      (''git_switch_branch'', answering Answer (git_switch_branch ge args)),
      (''git_fetch'', answering Answer (git_fetch ge args)),
      (''git_pull'', answering Answer (git_pull ge args)),
      (''git_merge_remote_branch'', answering Answer (git_merge_remote_branch ge args)),
      (''git_delete_branch'', answering Answer (git_delete_branch ge args)),
      (''git_delete_remote_branch'', answering Answer (git_delete_remote_branch ge args)),
      (''git_commit'', answering CommitAnswer (git_commit ge args)),
      (''git_push'', answering Answer (git_push ge args))]"

section \<open>What git is asked to do\<close>

text \<open>
  The words of an argument vector that git can read as options: those with a leading dash, up to \<^verbatim>\<open>--\<close>,
  without the words that are the value of \<^verbatim>\<open>-C\<close>, \<^verbatim>\<open>-m\<close>, \<^verbatim>\<open>-L\<close> or (in \<^verbatim>\<open>check-ref-format\<close>) \<^verbatim>\<open>--branch\<close>.
\<close>

function (sequential) option_words :: "string list \<Rightarrow> string list" where
  "option_words [] = []"
| "option_words (a # as) =
     (if a = ''--'' then []
      else if a \<in> {''-C'', ''-m'', ''-L'', ''--branch''} then a # option_words (tl as)
      else if startswith a ''-'' then a # option_words as
      else option_words as)"
  by pat_completeness auto
termination
  by (relation "measure length") (auto simp: less_Suc_eq_le)

definition fixed_options :: "string list" where
  "fixed_options =
     [''-C'', ''-m'', ''-L'', ''-b'', ''-c'', ''-d'', ''-z'', ''--is-inside-work-tree'', ''--show-toplevel'', ''--porcelain=v1'',
      ''--untracked-files=no'', ''--cached'', ''--name-only'', ''--date=iso-strict'', log_pretty, ''--no-ext-diff'',
      ''--format=fuller'', ''--no-patch'', ''--line-porcelain'', ''--show-current'', ''--branch'', ''--verify'', ''--quiet'',
      ''--prune'', ''--ff-only'', ''--no-edit'', ''--abort'', ''--delete'', ''--set-upstream'']"

definition allowed_option :: "string \<Rightarrow> bool" where
  "allowed_option a \<longleftrightarrow> a \<in> set fixed_options \<or>
     (\<exists>n. a = ''--unified='' @ int_str n \<or> a = ''--max-count='' @ int_str n \<or> a = ''--skip='' @ int_str n)"

definition words_ok :: "string list \<Rightarrow> bool" where
  "words_ok ws \<longleftrightarrow> list_all allowed_option (option_words ws)"

definition call_ok :: "'r git_setting \<Rightarrow> git_call \<Rightarrow> bool" where
  "call_ok ge c \<longleftrightarrow> gc_env c = git_env ge \<and> words_ok (tl (gc_argv c))"

text \<open>
  What the tools rely on in git: \<^verbatim>\<open>check-ref-format --branch\<close> refuses a name with a leading dash, and the
  current branch has no such name.
\<close>

definition git_refuses_dashes :: "'r git_setting \<Rightarrow> bool" where
  "git_refuses_dashes ge \<longleftrightarrow>
     (\<forall>env git name s r out s' r'.
        ge_run ge env [git, ''check-ref-format'', ''--branch'', name] s r = (Inr out, s', r') \<longrightarrow> go_code out = 0 \<longrightarrow>
        \<not> startswith name ''-'') \<and>
     (\<forall>env git p s r out s' r'.
        ge_run ge env [git, ''-C'', p, ''branch'', ''--show-current''] s r = (Inr out, s', r') \<longrightarrow> go_code out = 0 \<longrightarrow>
        \<not> startswith (strip_str (go_stdout out)) ''-'')"

definition runs_ok :: "'r git_setting \<Rightarrow> git_call list \<Rightarrow> 'r git_world \<Rightarrow> bool" where
  "runs_ok ge t w \<longleftrightarrow> (\<exists>tr. gw_trace w = t @ tr \<and> list_all (call_ok ge) tr)"

definition git_safe :: "'r git_setting \<Rightarrow> ('a, 'r) git \<Rightarrow> ('a \<Rightarrow> bool) \<Rightarrow> bool" where
  "git_safe ge m Q \<longleftrightarrow> (\<forall>t. triple (runs_ok ge t) m (\<lambda>x w. runs_ok ge t w \<and> Q x) (runs_ok ge t))"

named_theorems git_safe \<open>the commands of a program are allowed\<close>

lemma safe_return [git_safe]: "Q x \<Longrightarrow> git_safe ge (io_return x) Q"
  by (auto simp: git_safe_def intro: triple_return)

lemma safe_raise [git_safe]: "git_safe ge (io_raise e) Q"
  by (auto simp: git_safe_def intro: triple_raise)

lemma safe_bind [git_safe]:
  assumes "git_safe ge m R" and "\<And>x. R x \<Longrightarrow> git_safe ge (f x) Q"
  shows "git_safe ge (io_bind m f) Q"
  unfolding git_safe_def
proof
  fix t
  show "triple (runs_ok ge t) (io_bind m f) (\<lambda>x w. runs_ok ge t w \<and> Q x) (runs_ok ge t)"
  proof (rule triple_bind)
    show "triple (runs_ok ge t) m (\<lambda>x w. runs_ok ge t w \<and> R x) (runs_ok ge t)"
      using assms(1) by (simp add: git_safe_def)
    show "triple (\<lambda>w. runs_ok ge t w \<and> R x) (f x) (\<lambda>x w. runs_ok ge t w \<and> Q x) (runs_ok ge t)" for x
      using assms(2) [of x] by (intro triple_pure) (simp add: git_safe_def)
  qed
qed

lemma safe_if [git_safe]:
  "(c \<Longrightarrow> git_safe ge a Q) \<Longrightarrow> (\<not> c \<Longrightarrow> git_safe ge b Q) \<Longrightarrow> git_safe ge (if c then a else b) Q"
  by simp

lemma safe_reads: "(\<And>s x. f s = Inr x \<Longrightarrow> Q x) \<Longrightarrow> git_safe ge (reads f) Q"
  by (auto simp: git_safe_def triple_def reads_def split: sum.splits)

lemma safe_lift: "(\<And>x. r = Inr x \<Longrightarrow> Q x) \<Longrightarrow> git_safe ge (lift_r r) Q"
  by (auto simp: git_safe_def triple_def lift_r_def split: sum.splits)

lemma safe_reads_any [git_safe]: "git_safe ge (reads f) (\<lambda>_. True)"
  by (rule safe_reads) simp

lemma safe_run_post:
  assumes "words_ok (tl argv)"
    and "\<And>s r out s' r'. ge_run ge (git_env ge) argv s r = (Inr out, s', r') \<Longrightarrow> Q out"
  shows "git_safe ge (run_git ge argv) Q"
  using assms unfolding git_safe_def triple_def run_git_def runs_ok_def
  by (auto simp: call_ok_def split: sum.splits prod.splits)

lemma safe_run [git_safe]: "words_ok (tl argv) \<Longrightarrow> git_safe ge (run_git ge argv) (\<lambda>_. True)"
  by (rule safe_run_post) simp_all

lemma words_ok_Cons [simp]:
  "words_ok []"
  "\<not> startswith a ''-'' \<Longrightarrow> words_ok (a # as) = words_ok as"
  "words_ok (''--'' # as)"
  "words_ok (''-C'' # p # as) = words_ok as"
  "words_ok (''-m'' # p # as) = words_ok as"
  "words_ok (''-L'' # p # as) = words_ok as"
  "words_ok (''--branch'' # p # as) = words_ok as"
  by (auto simp: words_ok_def allowed_option_def fixed_options_def startswith_def)

lemma words_ok_option [simp]:
  "startswith a ''-'' \<Longrightarrow> a \<noteq> ''--'' \<Longrightarrow> a \<notin> {''-C'', ''-m'', ''-L'', ''--branch''} \<Longrightarrow> allowed_option a \<Longrightarrow> words_ok (a # as) = words_ok as"
  by (simp add: words_ok_def)

lemma words_ok_numeric [simp]:
  "words_ok ((''--unified='' @ int_str n) # as) = words_ok as"
  "words_ok ((''--max-count='' @ int_str n) # as) = words_ok as"
  "words_ok ((''--skip='' @ int_str n) # as) = words_ok as"
  by (intro words_ok_option; auto simp: startswith_def allowed_option_def)+

lemmas words_ok_numerals [simp] = words_ok_numeric [simplified]

lemma words_ok_paths [simp]: "words_ok (if ps = [] then [] else ''--'' # ps)"
  by simp

lemma safe_git_at [git_safe]: "words_ok ws \<Longrightarrow> git_safe ge (git_at ge git ws) (\<lambda>_. True)"
  unfolding git_at_def by (rule safe_run) simp

lemmas option_eval = startswith_def allowed_option_def fixed_options_def log_pretty_def

lemma safe_done [git_safe]: "git_safe ge (git_done e out) (\<lambda>_. True)"
  unfolding git_done_def by (rule git_safe | simp)+

lemma safe_require_git [git_safe]: "git_safe ge (require_git ge) (\<lambda>_. True)"
  unfolding require_git_def by (auto split: option.splits intro: git_safe)

lemma safe_is_git_repo [git_safe]: "git_safe ge (is_git_repo ge p) (\<lambda>_. True)"
  unfolding is_git_repo_def by (rule git_safe | simp add: option_eval)+

lemma safe_require_repo [git_safe]: "git_safe ge (require_selected_git_repo ge) (\<lambda>_. True)"
  unfolding require_selected_git_repo_def by (rule git_safe | simp)+

lemma safe_rev_parse [git_safe]: "\<not> startswith revision ''-'' \<Longrightarrow> git_safe ge (git_rev_parse ge p revision) (\<lambda>_. True)"
  unfolding git_rev_parse_def by (rule git_safe | simp add: startswith_def)+

lemma safe_head [git_safe]: "git_safe ge (git_head ge) (\<lambda>_. True)"
  unfolding git_head_def by (rule safe_rev_parse) (simp add: startswith_def)

lemma safe_map [git_safe]: "(\<And>x. git_safe ge (f x) (\<lambda>_. True)) \<Longrightarrow> git_safe ge (git_map f xs) (\<lambda>_. True)"
  by (induction xs) (auto intro!: git_safe safe_bind [where R = "\<lambda>_. True"])

lemma safe_path_filters [git_safe]: "git_safe ge (git_path_filters ge args) (\<lambda>_. True)"
  unfolding git_path_filters_def git_path_filter_def by (rule git_safe | simp)+

lemma safe_int [git_safe]: "git_safe ge (lift_r (int_arg args k d)) (\<lambda>_. True)"
  by (rule safe_lift) simp

lemma safe_ref [git_safe]: "git_safe ge (lift_r (validate_git_ref ref)) (\<lambda>t. \<not> startswith t ''-'')"
  by (rule safe_lift) (auto simp: validate_git_ref_def split: if_splits)

lemma safe_remote [git_safe]: "git_safe ge (configured_git_remote ge git args) (\<lambda>t. \<not> startswith t ''-'')"
  unfolding configured_git_remote_def Let_def by (rule git_safe | simp add: startswith_def)+

lemma git_refuses_dashesD:
  assumes "git_refuses_dashes ge" "go_code out = 0"
  shows "ge_run ge env [git, ''check-ref-format'', ''--branch'', name] s r = (Inr out, s', r') \<Longrightarrow> \<not> startswith name ''-''"
    and "ge_run ge env [git, ''-C'', p, ''branch'', ''--show-current''] s r = (Inr out, s', r') \<Longrightarrow>
      \<not> startswith (strip_str (go_stdout out)) ''-''"
  using assms unfolding git_refuses_dashes_def by blast+

lemma safe_validate_branch_name [git_safe]:
  assumes "git_refuses_dashes ge"
  shows "git_safe ge (validate_branch_name ge name git) (\<lambda>b. \<not> startswith b ''-'')"
proof -
  have "git_safe ge (run_git ge [git, ''check-ref-format'', ''--branch'', name])
    (\<lambda>out. go_code out = 0 \<longrightarrow> \<not> startswith name ''-'')"
    using git_refuses_dashesD [OF assms] by (intro safe_run_post) (simp add: startswith_def [of "''check-ref-format''"], blast)
  then show ?thesis
    unfolding validate_branch_name_def by (intro safe_if safe_raise, rule safe_bind) (auto intro: git_safe)
qed

lemma safe_current_branch [git_safe]:
  assumes "git_refuses_dashes ge"
  shows "git_safe ge (git_current_branch ge git) (\<lambda>b. \<not> startswith b ''-'')"
proof -
  have "git_safe ge (git_at ge git [''branch'', ''--show-current''])
    (\<lambda>out. go_code out = 0 \<longrightarrow> \<not> startswith (strip_str (go_stdout out)) ''-'')"
    unfolding git_at_def using git_refuses_dashesD [OF assms]
    by (intro safe_run_post) (simp add: option_eval, blast)
  then show ?thesis
    unfolding git_current_branch_def Let_def by (rule safe_bind) (auto intro: git_safe)
qed

lemma safe_require_clean [git_safe]: "git_safe ge (require_clean ge git) (\<lambda>_. True)"
  unfolding require_clean_def by (rule git_safe | simp add: option_eval)+

lemma safe_staged [git_safe]: "git_safe ge (staged_git_paths ge git) (\<lambda>_. True)"
  unfolding staged_git_paths_def staged_words_def by (rule git_safe | simp add: option_eval)+

lemma safe_outside [git_safe]: "git_safe ge (refuse_outside staged paths) (\<lambda>_. True)"
  unfolding refuse_outside_def by (rule git_safe | simp)+

lemma safe_show_ref [git_safe]: "git_safe ge (show_ref ge git name) (\<lambda>_. True)"
  unfolding show_ref_def by (rule git_safe | simp add: option_eval)+

lemma safe_run_diff [git_safe]: "git_safe ge (run_git_diff ge git n filters cached) (\<lambda>_. True)"
  unfolding run_git_diff_def by (rule git_safe | simp add: option_eval)+

lemma safe_chunks [git_safe]: "git_safe ge (diff_chunks ge git n filters cached wanted) (\<lambda>_. True)"
  unfolding diff_chunks_def by (rule git_safe | simp)+

lemma safe_case_prod [git_safe]:
  "(\<And>a b. p = (a, b) \<Longrightarrow> git_safe ge (f a b) Q) \<Longrightarrow> git_safe ge (case p of (a, b) \<Rightarrow> f a b) Q"
  by (cases p) simp

lemma safe_case_prod_arg [git_safe]:
  "(\<And>a b. p = (a, b) \<Longrightarrow> git_safe ge (f a b c) Q) \<Longrightarrow> git_safe ge ((case p of (a, b) \<Rightarrow> f a b) c) Q"
  by (cases p) simp

lemma safe_lift_any: "git_safe ge (lift_r r) (\<lambda>_. True)"
  by (rule safe_lift) simp

lemma safe_blame_ref [git_safe]:
  "git_safe ge (lift_r (blame_ref args)) (\<lambda>ref. words_ok ((case ref of None \<Rightarrow> [] | Some t \<Rightarrow> [t]) @ [''--'', d]))"
  by (rule safe_lift) (auto simp: blame_ref_def validate_git_ref_def result_simps split: json.splits if_splits)

text \<open>Each tool.\<close>

lemma safe_git_status: "git_safe ge (git_status ge args) (\<lambda>_. True)"
  unfolding git_status_def Let_def by (rule git_safe | assumption | rule safe_lift_any | simp add: option_eval)+

lemma safe_git_diff: "git_safe ge (git_diff ge args) (\<lambda>_. True)"
  unfolding git_diff_def Let_def by (rule git_safe | assumption | rule safe_lift_any | simp add: option_eval)+

lemma safe_git_log: "git_safe ge (git_log ge args) (\<lambda>_. True)"
  unfolding git_log_def Let_def by (rule git_safe | assumption | rule safe_lift_any | simp add: option_eval)+

lemma safe_git_show: "git_safe ge (git_show ge args) (\<lambda>_. True)"
  unfolding git_show_def Let_def by (rule git_safe | assumption | rule safe_lift_any | simp add: option_eval)+

lemma safe_git_blame: "git_safe ge (git_blame ge args) (\<lambda>_. True)"
  unfolding git_blame_def Let_def by (rule git_safe | assumption | rule safe_lift_any | simp add: option_eval)+

lemma safe_git_create_branch: "git_refuses_dashes ge \<Longrightarrow> git_safe ge (git_create_branch ge args) (\<lambda>_. True)"
  unfolding git_create_branch_def Let_def by (rule git_safe | assumption | rule safe_lift_any | simp add: option_eval)+

lemma safe_git_switch_branch: "git_refuses_dashes ge \<Longrightarrow> git_safe ge (git_switch_branch ge args) (\<lambda>_. True)"
  unfolding git_switch_branch_def Let_def by (rule git_safe | assumption | rule safe_lift_any | simp add: option_eval)+

lemma safe_git_fetch: "git_safe ge (git_fetch ge args) (\<lambda>_. True)"
  unfolding git_fetch_def Let_def by (rule git_safe | assumption | rule safe_lift_any | simp add: option_eval)+

lemma safe_git_pull: "git_refuses_dashes ge \<Longrightarrow> git_safe ge (git_pull ge args) (\<lambda>_. True)"
  unfolding git_pull_def Let_def by (rule git_safe | assumption | rule safe_lift_any | simp add: option_eval)+

lemma safe_git_merge_remote_branch: "git_refuses_dashes ge \<Longrightarrow> git_safe ge (git_merge_remote_branch ge args) (\<lambda>_. True)"
  unfolding git_merge_remote_branch_def remote_ref_def Let_def by (rule git_safe | assumption | rule safe_lift_any | simp add: option_eval)+

lemma safe_git_delete_branch: "git_refuses_dashes ge \<Longrightarrow> git_safe ge (git_delete_branch ge args) (\<lambda>_. True)"
  unfolding git_delete_branch_def Let_def by (rule git_safe | assumption | rule safe_lift_any | simp add: option_eval)+

lemma safe_git_delete_remote_branch: "git_refuses_dashes ge \<Longrightarrow> git_safe ge (git_delete_remote_branch ge args) (\<lambda>_. True)"
  unfolding git_delete_remote_branch_def Let_def by (rule git_safe | assumption | rule safe_lift_any | simp add: option_eval)+

lemma safe_git_commit: "git_refuses_dashes ge \<Longrightarrow> git_safe ge (git_commit ge args) (\<lambda>_. True)"
  unfolding git_commit_def Let_def by (rule git_safe | assumption | rule safe_lift_any | simp add: option_eval)+

lemma safe_git_push: "git_refuses_dashes ge \<Longrightarrow> git_safe ge (git_push ge args) (\<lambda>_. True)"
  unfolding git_push_def Let_def by (rule git_safe | assumption | rule safe_lift_any | simp add: option_eval)+

lemma safe_answering [git_safe]: "git_safe ge m (\<lambda>_. True) \<Longrightarrow> git_safe ge (answering f m) (\<lambda>_. True)"
  unfolding answering_def by (rule git_safe | assumption | simp)+

lemma safe_handlers:
  assumes "git_refuses_dashes ge" "(name, m) \<in> set (git_handlers ge args)"
  shows "git_safe ge m (\<lambda>_. True)"
  using assms by (auto simp: git_handlers_def intro!: safe_answering safe_git_status safe_git_diff safe_git_log safe_git_show
      safe_git_blame safe_git_create_branch safe_git_switch_branch safe_git_fetch safe_git_pull safe_git_merge_remote_branch
      safe_git_delete_branch safe_git_delete_remote_branch safe_git_commit safe_git_push)

lemma git_safe_run:
  assumes "git_safe ge m Q" "m w = (res, w')"
  shows "\<exists>tr. gw_trace w' = gw_trace w @ tr \<and> list_all (call_ok ge) tr"
proof -
  have "runs_ok ge (gw_trace w) w" by (simp add: runs_ok_def)
  moreover have "triple (runs_ok ge (gw_trace w)) m (\<lambda>x w'. runs_ok ge (gw_trace w) w' \<and> Q x) (runs_ok ge (gw_trace w))"
    using assms(1) by (simp add: git_safe_def)
  ultimately have "runs_ok ge (gw_trace w) w'"
    using assms(2) by (cases res) (auto dest: triple_Inl triple_Inr)
  then show ?thesis by (simp add: runs_ok_def)
qed

text \<open>The environment of every command: the entries that are passed as configuration.\<close>

lemma git_env_config:
  "map_of (git_env ge) ''GIT_CONFIG_KEY_0'' = Some ''core.hooksPath''"
  "map_of (git_env ge) ''GIT_CONFIG_VALUE_0'' = Some ''/dev/null''"
  "map_of (git_env ge) ''GIT_TERMINAL_PROMPT'' = Some ''0''"
  "map_of (git_env ge) ''GIT_CONFIG_COUNT'' = Some (if ge_credentials ge = None then ''1'' else ''3'')"
proof -
  have n: "nat_str 0 = ''0''" "nat_str (Suc 0) = ''1''" "nat_str (Suc (Suc 0)) = ''2''" "nat_str (Suc (Suc (Suc 0))) = ''3''"
    by code_simp+
  show "map_of (git_env ge) ''GIT_CONFIG_KEY_0'' = Some ''core.hooksPath''"
    "map_of (git_env ge) ''GIT_CONFIG_VALUE_0'' = Some ''/dev/null''"
    "map_of (git_env ge) ''GIT_TERMINAL_PROMPT'' = Some ''0''"
    "map_of (git_env ge) ''GIT_CONFIG_COUNT'' = Some (if ge_credentials ge = None then ''1'' else ''3'')"
    by (cases "ge_credentials ge"; simp add: git_env_def git_config_entries_def Let_def n del: nat_str.simps)+
qed

section \<open>What git_commit commits\<close>

definition is_commit :: "git_call \<Rightarrow> bool" where
  "is_commit c \<longleftrightarrow> (case gc_argv c of _ # _ # _ # word # _ \<Rightarrow> word = ''commit'' | _ \<Rightarrow> False)"

text \<open>A program that runs no commit.\<close>

definition quiet :: "('a, 'r) git \<Rightarrow> bool" where
  "quiet m \<longleftrightarrow> (\<forall>w res w'. m w = (res, w') \<longrightarrow>
     (\<exists>tr. gw_trace w' = gw_trace w @ tr \<and> list_all (\<lambda>c. \<not> is_commit c) tr))"

lemma quiet_bind:
  assumes "quiet m" "\<And>x. quiet (f x)"
  shows "quiet (io_bind m f)"
  unfolding quiet_def
proof (intro allI impI)
  fix w res w'
  assume b: "io_bind m f w = (res, w')"
  obtain r1 w1 where m: "m w = (r1, w1)" by (cases "m w")
  with assms(1) obtain t1 where t1: "gw_trace w1 = gw_trace w @ t1" "list_all (\<lambda>c. \<not> is_commit c) t1"
    unfolding quiet_def by blast
  show "\<exists>tr. gw_trace w' = gw_trace w @ tr \<and> list_all (\<lambda>c. \<not> is_commit c) tr"
  proof (cases r1)
    case (Inl e)
    then show ?thesis using b m t1 by (auto simp: io_bind_def)
  next
    case (Inr x)
    then have "f x w1 = (res, w')" using b m by (simp add: io_bind_def)
    with assms(2) [of x] obtain t2 where "gw_trace w' = gw_trace w1 @ t2" "list_all (\<lambda>c. \<not> is_commit c) t2"
      unfolding quiet_def by blast
    then show ?thesis using t1 by (intro exI [of _ "t1 @ t2"]) simp
  qed
qed

lemma quiet_plain [simp, intro]:
  "quiet (io_return x)" "quiet (io_raise e)" "quiet (reads f)" "quiet (lift_r r)" "quiet (git_done e out)"
  "quiet (require_git ge)" "quiet (refuse_outside staged paths)"
  by (auto simp: quiet_def io_return_def io_raise_def reads_def lift_r_def git_done_def require_git_def refuse_outside_def
      split: option.splits)

lemma quiet_run:
  assumes "\<And>res. \<not> is_commit \<lparr>gc_env = git_env ge, gc_argv = argv, gc_answer = res\<rparr>"
  shows "quiet (run_git ge argv)"
  using assms unfolding quiet_def run_git_def by (auto split: prod.splits)

lemma quiet_git_at: "hd ws \<noteq> ''commit'' \<Longrightarrow> quiet (git_at ge git ws)"
  unfolding git_at_def by (rule quiet_run) (auto simp: is_commit_def split: list.splits)

lemma quiet_steps [simp, intro]:
  "quiet (is_git_repo ge p)" "quiet (git_rev_parse ge p r)"
  unfolding is_git_repo_def git_rev_parse_def by (auto intro!: quiet_bind quiet_run simp: is_commit_def)

lemma quiet_queries [simp, intro]:
  "quiet (require_selected_git_repo ge)" "quiet (git_current_branch ge git)" "quiet (git_head ge)"
  "quiet (staged_git_paths ge git)"
  unfolding require_selected_git_repo_def git_current_branch_def git_head_def staged_git_paths_def staged_words_def Let_def
  by (auto intro!: quiet_bind quiet_git_at)

text \<open>The trace since the start: without a commit; ending in a query of the index; with the one commit.\<close>

definition uncommitted :: "git_call list \<Rightarrow> 'r git_world \<Rightarrow> bool" where
  "uncommitted t w \<longleftrightarrow> (\<exists>tr. gw_trace w = t @ tr \<and> list_all (\<lambda>c. \<not> is_commit c) tr)"

definition staged_call :: "'r git_setting \<Rightarrow> string \<Rightarrow> git_out \<Rightarrow> git_call" where
  "staged_call ge git out =
     \<lparr>gc_env = git_env ge, gc_argv = git # ''-C'' # root_text ge # staged_words, gc_answer = Inr out\<rparr>"

definition inspected :: "'r git_setting \<Rightarrow> git_call list \<Rightarrow> string \<Rightarrow> pytext list \<Rightarrow> 'r git_world \<Rightarrow> bool" where
  "inspected ge t git staged w \<longleftrightarrow>
     (\<exists>tr out. gw_trace w = t @ tr @ [staged_call ge git out] \<and> list_all (\<lambda>c. \<not> is_commit c) tr \<and>
        go_code out = 0 \<and> staged = staged_of out)"

definition commit_words :: "'r git_setting \<Rightarrow> string \<Rightarrow> string \<Rightarrow> string list \<Rightarrow> string list" where
  "commit_words ge git message paths = [git, ''-C'', root_text ge, ''commit'', ''-m'', message, ''--''] @ paths"

definition committed ::
    "'r git_setting \<Rightarrow> git_call list \<Rightarrow> string \<Rightarrow> string \<Rightarrow> string list \<Rightarrow> pytext list \<Rightarrow> 'r git_world \<Rightarrow> bool" where
  "committed ge t git message paths staged w \<longleftrightarrow>
     (\<exists>tr out res post. gw_trace w = t @ tr @ [staged_call ge git out,
          \<lparr>gc_env = git_env ge, gc_argv = commit_words ge git message paths, gc_answer = res\<rparr>] @ post \<and>
        list_all (\<lambda>c. \<not> is_commit c) tr \<and> list_all (\<lambda>c. \<not> is_commit c) post \<and>
        go_code out = 0 \<and> staged = staged_of out)"

lemma quiet_keeps:
  assumes "quiet m"
  shows "triple (uncommitted t) m (\<lambda>_. uncommitted t) (uncommitted t)"
    and "triple (committed ge t git message paths staged) m (\<lambda>_. committed ge t git message paths staged)
      (committed ge t git message paths staged)"
proof -
  show "triple (uncommitted t) m (\<lambda>_. uncommitted t) (uncommitted t)"
    using assms unfolding quiet_def uncommitted_def by (intro tripleI) fastforce+
  have k: "committed ge t git message paths staged w'"
    if c: "committed ge t git message paths staged w" and m: "m w = (res, w')" for w w' res
  proof -
    from assms m obtain t2 where "gw_trace w' = gw_trace w @ t2" "list_all (\<lambda>c. \<not> is_commit c) t2"
      unfolding quiet_def by blast
    moreover from c obtain tr out r post where "gw_trace w = t @ tr @ [staged_call ge git out,
          \<lparr>gc_env = git_env ge, gc_argv = commit_words ge git message paths, gc_answer = r\<rparr>] @ post"
        "list_all (\<lambda>c. \<not> is_commit c) tr" "list_all (\<lambda>c. \<not> is_commit c) post" "go_code out = 0" "staged = staged_of out"
      unfolding committed_def by blast
    ultimately show ?thesis
      unfolding committed_def by (intro exI [of _ tr] exI [of _ out] exI [of _ r] exI [of _ "post @ t2"]) simp
  qed
  show "triple (committed ge t git message paths staged) m (\<lambda>_. committed ge t git message paths staged)
      (committed ge t git message paths staged)"
    by (rule tripleI) (erule (1) k)+
qed

lemma staged_triple:
  "triple (uncommitted t) (staged_git_paths ge git) (\<lambda>staged. inspected ge t git staged) (uncommitted t)"
proof (rule tripleI)
  fix w e w'
  assume "uncommitted t w" "staged_git_paths ge git w = (Inl e, w')"
  then show "uncommitted t w'"
    using triple_Inl [OF quiet_keeps(1) [of "staged_git_paths ge git" t]] by simp
next
  fix w x w'
  assume "uncommitted t w" "staged_git_paths ge git w = (Inr x, w')"
  then show "inspected ge t git x w'"
    by (auto simp: staged_git_paths_def io_bind_def git_at_def run_git_def git_done_def io_return_def io_raise_def
        uncommitted_def inspected_def staged_call_def split: if_splits prod.splits sum.splits)
qed

lemma inspected_uncommitted: "inspected ge t git staged w \<Longrightarrow> uncommitted t w"
  unfolding inspected_def uncommitted_def staged_call_def
  by (auto simp: is_commit_def staged_words_def)

lemma commit_step_triple:
  "triple (inspected ge t git staged) (git_at ge git ([''commit'', ''-m'', message, ''--''] @ paths))
     (\<lambda>_. committed ge t git message paths staged)
     (\<lambda>w. uncommitted t w \<or> committed ge t git message paths staged w)"
proof -
  have k: "committed ge t git message paths staged
      (w\<lparr>w_fs := s, gw_repo := r,
         gw_trace := gw_trace w @ [\<lparr>gc_env = git_env ge, gc_argv = commit_words ge git message paths, gc_answer = res\<rparr>]\<rparr>)"
    if i: "inspected ge t git staged w" for w s r res
  proof -
    from i obtain tr out where "gw_trace w = t @ tr @ [staged_call ge git out]" "list_all (\<lambda>c. \<not> is_commit c) tr"
        "go_code out = 0" "staged = staged_of out"
      unfolding inspected_def by blast
    then show ?thesis
      unfolding committed_def by (intro exI [of _ tr] exI [of _ out] exI [of _ res] exI [of _ "[]"]) simp
  qed
  have "git # ''-C'' # root_text ge # [''commit'', ''-m'', message, ''--''] @ paths = commit_words ge git message paths"
    by (simp add: commit_words_def)
  then show ?thesis
    by (intro tripleI; simp only: git_at_def run_git_def)
      (auto dest: k inspected_uncommitted split: if_splits prod.splits)
qed

definition commit_guarded :: "'r git_setting \<Rightarrow> obj \<Rightarrow> git_call list \<Rightarrow> pytext list \<Rightarrow> 'r git_world \<Rightarrow> bool" where
  "commit_guarded ge args t staged w \<longleftrightarrow>
     (\<exists>s git paths. explicit_git_paths ge s (obj_get args ''paths'') = Inr paths \<and> staged \<noteq> [] \<and>
        set staged \<subseteq> set (map lit paths) \<and>
        committed ge t git (strip_str (str_arg (ge_other ge) args ''message'' [])) paths staged w)"

definition commit_end :: "'r git_setting \<Rightarrow> obj \<Rightarrow> git_call list \<Rightarrow> 'r git_world \<Rightarrow> bool" where
  "commit_end ge args t w \<longleftrightarrow> uncommitted t w \<or> (\<exists>staged. commit_guarded ge args t staged w)"

lemma uncommitted_end: "quiet m \<Longrightarrow> triple (uncommitted t) m (\<lambda>_. uncommitted t) (commit_end ge args t)"
  by (rule triple_exc [OF quiet_keeps(1)]) (simp_all add: commit_end_def)

lemma commit_tail:
  assumes "explicit_git_paths ge s (obj_get args ''paths'') = Inr paths" "staged \<noteq> []" "set staged \<subseteq> set (map lit paths)"
    and m: "message = strip_str (str_arg (ge_other ge) args ''message'' [])"
  shows "triple (inspected ge t git staged)
     (io_bind (git_at ge git ([''commit'', ''-m'', message, ''--''] @ paths)) (\<lambda>done.
      io_bind (git_done git_error done) (\<lambda>_.
      io_bind (git_head ge) (\<lambda>sha. io_return \<lparr>ca_branch = branch, ca_sha = sha, ca_paths = staged\<rparr>))))
     (\<lambda>a. commit_guarded ge args t (ca_paths a)) (commit_end ge args t)"
proof -
  let ?C = "committed ge t git message paths staged"
  have g: "?C w \<Longrightarrow> commit_guarded ge args t staged w" for w
    unfolding commit_guarded_def m using assms(1-3) by blast
  have q: "quiet n \<Longrightarrow> triple ?C n (\<lambda>_. ?C) (commit_end ge args t)" for n :: "('x, 'a) git"
    by (rule triple_exc [OF quiet_keeps(2)]) (auto simp: commit_end_def dest: g)
  show ?thesis
  proof (intro triple_bind)
    show "triple (inspected ge t git staged) (git_at ge git ([''commit'', ''-m'', message, ''--''] @ paths))
        (\<lambda>_. ?C) (commit_end ge args t)"
      by (rule triple_exc [OF commit_step_triple]) (auto simp: commit_end_def dest: g)
    show "triple ?C (git_done git_error out) (\<lambda>_. ?C) (commit_end ge args t)" for out
      by (rule q) simp
    show "triple ?C (git_head ge) (\<lambda>_. ?C) (commit_end ge args t)"
      by (rule q) simp
    show "triple ?C (io_return \<lparr>ca_branch = branch, ca_sha = sha, ca_paths = staged\<rparr>)
        (\<lambda>a. commit_guarded ge args t (ca_paths a)) (commit_end ge args t)" for sha
      by (rule triple_return) (simp add: g)
  qed
qed

lemma refuse_triple:
  "triple (inspected ge t git staged) (refuse_outside staged paths)
     (\<lambda>_ w. inspected ge t git staged w \<and> set staged \<subseteq> set (map lit paths)) (commit_end ge args t)"
  unfolding refuse_outside_def
  by (auto simp: list_all_iff commit_end_def dest: inspected_uncommitted intro!: triple_return triple_raise)

lemma paths_triple:
  "triple (uncommitted t) (reads (\<lambda>s. explicit_git_paths ge s raw))
     (\<lambda>paths w. uncommitted t w \<and> (\<exists>s. explicit_git_paths ge s raw = Inr paths)) (commit_end ge args t)"
  by (auto simp: triple_def reads_def commit_end_def split: sum.splits)

lemma git_commit_triple:
  "triple (uncommitted t) (git_commit ge args) (\<lambda>a. commit_guarded ge args t (ca_paths a)) (commit_end ge args t)"
proof -
  have e: "triple (uncommitted t) (io_raise x) R (commit_end ge args t)" for x and R :: "commit_answer \<Rightarrow> 'a git_world \<Rightarrow> bool"
    by (rule triple_raise) (simp add: commit_end_def)
  have e': "triple (inspected ge t git staged) (io_raise x) R (commit_end ge args t)" for x git staged and R :: "commit_answer \<Rightarrow> 'a git_world \<Rightarrow> bool"
    by (rule triple_raise) (auto simp: commit_end_def dest: inspected_uncommitted)
  have s: "triple (uncommitted t) (staged_git_paths ge git) (\<lambda>staged. inspected ge t git staged) (commit_end ge args t)" for git
    by (rule triple_exc [OF staged_triple]) (simp add: commit_end_def)
  show ?thesis
    unfolding git_commit_def Let_def
    apply (rule triple_bind [OF uncommitted_end [OF quiet_queries(1)]])
    subgoal for git
      apply (cases "strip_str (str_arg (ge_other ge) args ''message'' []) = [] \<or>
          4096 < length (strip_str (str_arg (ge_other ge) args ''message'' [])) \<or>
          CHR 0x00 \<in> set (strip_str (str_arg (ge_other ge) args ''message'' []))")
       apply (simp add: e)
      apply (simp only: if_False)
      apply (rule triple_bind [OF paths_triple], rule triple_pure, erule exE)
      apply (rule triple_bind [OF uncommitted_end [OF quiet_queries(2)]])
      apply (rule triple_bind [OF uncommitted_end [OF quiet_queries(4)]])
      apply (rule triple_bind [OF uncommitted_end [OF quiet_plain(7)]])
      apply (rule triple_bind [OF uncommitted_end [OF quiet_git_at]], simp)
      apply (rule triple_bind [OF uncommitted_end [OF quiet_plain(5)]])
      apply (rule triple_bind [OF s])
      apply (rule triple_bind [OF refuse_triple], rule triple_pure)
      subgoal for paths s branch already u added u' staged u''
        apply (cases "staged = []"; simp only: if_True if_False refl)
         apply (rule e')
        by (rule commit_tail) (assumption | rule refl)+
      done
    done
qed

lemma explicit_git_paths_Inr:
  assumes "explicit_git_paths ge s raw = Inr paths"
  shows "distinct paths" "paths \<noteq> []" "length paths \<le> 100" "''.'' \<notin> set paths" "[] \<notin> set paths"
proof -
  from assms obtain xs ps where x: "raw = JList xs" "xs \<noteq> []" "length xs \<le> 100"
      "rmap (explicit_git_path ge s) xs = Inr ps" "paths = rev (remdups (rev ps))"
    by (auto simp: explicit_git_paths_def result_simps split: json.splits if_splits)
  have l: "length ps = length xs" using x(4) by (rule rmap_Inr_length)
  show "distinct paths" "paths \<noteq> []" "length paths \<le> 100"
    using x l length_remdups_leq [of "rev ps"] by auto
  have "p \<noteq> ''.'' \<and> p \<noteq> []" if "p \<in> set ps" for p
  proof -
    from that obtain i where "i < length ps" "p = ps ! i" by (metis in_set_conv_nth)
    then have "explicit_git_path ge s (xs ! i) = Inr p" using rmap_Inr_nth [OF x(4)] l by simp
    then show ?thesis by (auto simp: explicit_git_path_def result_simps split: json.splits if_splits)
  qed
  then show "''.'' \<notin> set paths" "[] \<notin> set paths" using x(5) by auto
qed

section \<open>A repository to try the tools on\<close>

text \<open>A git with one branch, one remote and an index, whose state is the list of the staged paths.\<close>

definition demo_answer :: "string \<Rightarrow> git_out" where
  "demo_answer t = \<lparr>go_code = 0, go_stdout = t, go_stderr = [], go_bytes = []\<rparr>"

definition demo_git :: "string list git_program" where
  "demo_git env argv s staged =
     (if argv ! 1 = ''check-ref-format''
      then (Inr ((demo_answer [])\<lparr>go_code := if startswith (argv ! 3) ''-'' then 128 else 0\<rparr>), s, staged)
      else
        let command = argv ! 3; words = drop 4 argv in
        if command = ''rev-parse'' then (Inr (demo_answer (if hd words = ''HEAD'' then ''4f2a'' else ''true'')), s, staged)
        else if command = ''branch'' then (Inr (demo_answer ''main''), s, staged)
        else if command = ''remote'' then (Inr (demo_answer ''origin''), s, staged)
        else if command = ''diff''
          then (Inr ((demo_answer [])\<lparr>go_bytes := concat (map (\<lambda>p. utf8 (lit p) @ [0]) staged)\<rparr>), s, staged)
        else if command = ''add'' then (Inr (demo_answer []), s, staged @ filter (\<lambda>p. p \<notin> set staged) (tl words))
        else if command = ''commit'' then (Inr (demo_answer []), s, [])
        else (Inr (demo_answer []), s, staged))"

definition demo_setting :: "string list git_setting" where
  "demo_setting =
     \<lparr>ge_git = Some ''git'', ge_run = demo_git, ge_environ = [(''HOME'', ''/h'')], ge_set = [], ge_credentials = None,
      ge_ws = demo_ws ''plan'', ge_other = (\<lambda>_. []), ge_baselines = [], ge_unified_diff = (\<lambda>_ _ _ _. [])\<rparr>"

definition demo_repo :: "string list \<Rightarrow> string list git_world" where
  "demo_repo staged = \<lparr>w_fs = demo_tree, w_calls = 0, gw_repo = staged, gw_trace = []\<rparr>"

lemma demo_refuses_dashes: "git_refuses_dashes demo_setting"
  by (auto simp: git_refuses_dashes_def demo_setting_def demo_git_def demo_answer_def startswith_def strip_str_def
      strip_by_def split: if_splits)

text \<open>
  The branch of a push is passed as git names it.  A branch whose name begins with a plus is a legal name,
  and as an argument of \<^verbatim>\<open>git push\<close> a refspec that forces the update.
\<close>

definition plus_setting :: "string list git_setting" where
  "plus_setting = demo_setting\<lparr>ge_run := (\<lambda>env argv s r.
     if argv ! 3 = ''branch'' then (Inr (demo_answer ''+main''), s, r) else demo_git env argv s r)\<rparr>"

lemma git_push_plus_branch:
  "fst (git_create_branch (plus_setting\<lparr>ge_run := \<lambda>env argv s r.
      if argv ! 3 = ''show-ref'' then (Inr ((demo_answer [])\<lparr>go_code := 1\<rparr>), s, r) else demo_git env argv s r\<rparr>)
      [(''name'', JStr ''+main'')] (demo_repo [])) = Inr [(''branch'', JStr ''+main''), (''sha'', JStr ''4f2a'')]"
  "last (map gc_argv (gw_trace (snd (git_push plus_setting [] (demo_repo []))))) =
     [''git'', ''-C'', ''/w'', ''push'', ''--set-upstream'', ''origin'', ''+main'']"
  by code_simp+

section \<open>Properties\<close>

text \<open>
  C22: Whatever arguments a git tool is called with, every git command it runs, also when it fails half
  way, has only options the tool itself chose: a word with a leading dash before \<^verbatim>\<open>--\<close> is one of a fixed
  list, which has no \<^verbatim>\<open>--force\<close>, or one of three numeric options.  A revision, a branch, a remote, a path
  or a message is never read as an option.  And every command has hooks switched off and no terminal
  prompt.  Git is assumed to refuse branch names with a leading dash.
\<close>

theorem git_tools_run_known_options:
  assumes "git_refuses_dashes ge" and "map_of (git_handlers ge args) name = Some m" and "m w = (res, w')"
  shows "\<exists>tr. gw_trace w' = gw_trace w @ tr \<and>
    (\<forall>c\<in>set tr.
       (\<forall>a\<in>set (option_words (tl (gc_argv c))). a \<in> set fixed_options \<or>
          (\<exists>n. a = ''--unified='' @ int_str n \<or> a = ''--max-count='' @ int_str n \<or> a = ''--skip='' @ int_str n)) \<and>
       map_of (gc_env c) ''GIT_CONFIG_KEY_0'' = Some ''core.hooksPath'' \<and>
       map_of (gc_env c) ''GIT_CONFIG_VALUE_0'' = Some ''/dev/null'' \<and>
       map_of (gc_env c) ''GIT_CONFIG_COUNT'' = Some (if ge_credentials ge = None then ''1'' else ''3'') \<and>
       map_of (gc_env c) ''GIT_TERMINAL_PROMPT'' = Some ''0'')"
proof -
  have "git_safe ge m (\<lambda>_. True)"
    using safe_handlers [OF assms(1)] map_of_SomeD [OF assms(2)] by blast
  from git_safe_run [OF this assms(3)] show ?thesis
    by (auto simp: call_ok_def words_ok_def allowed_option_def list_all_iff git_env_config)
qed

theorem git_tools_run_known_options_witness:
  "map gc_argv (gw_trace (snd (git_push demo_setting [] (demo_repo [])))) =
      [[''git'', ''-C'', ''/w'', ''rev-parse'', ''--is-inside-work-tree''],
       [''git'', ''-C'', ''/w'', ''branch'', ''--show-current''], [''git'', ''-C'', ''/w'', ''remote''],
       [''git'', ''-C'', ''/w'', ''push'', ''--set-upstream'', ''origin'', ''main'']] \<and>
   list_all (\<lambda>c. map_of (gc_env c) ''GIT_CONFIG_VALUE_0'' = Some ''/dev/null'')
     (gw_trace (snd (git_push demo_setting [] (demo_repo []))))"
proof -
  let ?m = "answering Answer (git_push demo_setting [])"
  have h: "map_of (git_handlers demo_setting []) ''git_push'' = Some ?m"
    by (simp add: git_handlers_def)
  obtain res w' where r: "?m (demo_repo []) = (res, w')" by (cases "?m (demo_repo [])")
  have t: "w' = snd (git_push demo_setting [] (demo_repo []))"
    using r by (auto simp: answering_def io_bind_def io_return_def split: prod.splits sum.splits)
  have "list_all (\<lambda>c. map_of (gc_env c) ''GIT_CONFIG_VALUE_0'' = Some ''/dev/null'') (gw_trace w')"
    using git_tools_run_known_options [OF demo_refuses_dashes h r] by (auto simp: demo_repo_def list_all_iff)
  moreover have "map gc_argv (gw_trace (snd (git_push demo_setting [] (demo_repo [])))) =
      [[''git'', ''-C'', ''/w'', ''rev-parse'', ''--is-inside-work-tree''],
       [''git'', ''-C'', ''/w'', ''branch'', ''--show-current''], [''git'', ''-C'', ''/w'', ''remote''],
       [''git'', ''-C'', ''/w'', ''push'', ''--set-upstream'', ''origin'', ''main'']]"
    by code_simp
  ultimately show ?thesis by (simp only: t)
qed

text \<open>
  C23: A commit takes in exactly what was asked for.  Either \<open>git_commit\<close> raises and has run no commit; or
  it has run one, whose paths are the explicit paths of the request (distinct, at most 100, none of them
  the repository), and the command just before it listed the staged paths: there were some, and all of
  them were requested.  The paths a successful call reports are those.
\<close>

theorem git_commit_only_requested:
  assumes "git_commit ge args w = (res, w')"
  shows "(\<exists>e tr. res = Inl e \<and> gw_trace w' = gw_trace w @ tr \<and> (\<forall>c\<in>set tr. \<not> is_commit c)) \<or>
    (\<exists>s git paths out answer pre post.
       explicit_git_paths ge s (obj_get args ''paths'') = Inr paths \<and>
       distinct paths \<and> length paths \<le> 100 \<and> ''.'' \<notin> set paths \<and>
       gw_trace w' = gw_trace w @ pre @
         [\<lparr>gc_env = git_env ge, gc_argv = [git, ''-C'', root_text ge, ''diff'', ''--cached'', ''--name-only'', ''-z''],
           gc_answer = Inr out\<rparr>,
          \<lparr>gc_env = git_env ge,
           gc_argv = [git, ''-C'', root_text ge, ''commit'', ''-m'', strip_str (str_arg (ge_other ge) args ''message'' []), ''--''] @ paths,
           gc_answer = answer\<rparr>] @ post \<and>
       (\<forall>c\<in>set (pre @ post). \<not> is_commit c) \<and>
       go_code out = 0 \<and> staged_of out \<noteq> [] \<and> set (staged_of out) \<subseteq> lit ` set paths \<and>
       (\<forall>a. res = Inr a \<longrightarrow> ca_paths a = staged_of out))"
proof -
  have start: "uncommitted (gw_trace w) w" by (simp add: uncommitted_def)
  note t = triple_Inr [OF git_commit_triple start] triple_Inl [OF git_commit_triple start]
  consider (none) e where "res = Inl e" "uncommitted (gw_trace w) w'"
    | (one) staged where "commit_guarded ge args (gw_trace w) staged w'" "\<forall>a. res = Inr a \<longrightarrow> ca_paths a = staged"
  proof (cases res)
    case (Inl e)
    then show thesis using assms t(2) [of ge args e w'] none one by (auto simp: commit_end_def)
  next
    case (Inr a)
    then show thesis using assms t(1) [of ge args a w'] one by auto
  qed
  then show ?thesis
  proof cases
    case none
    then show ?thesis by (auto simp: uncommitted_def list_all_iff)
  next
    case one
    then obtain s git paths tr out answer post where c: "explicit_git_paths ge s (obj_get args ''paths'') = Inr paths"
        "staged \<noteq> []" "set staged \<subseteq> set (map lit paths)" "list_all (\<lambda>c. \<not> is_commit c) tr" "list_all (\<lambda>c. \<not> is_commit c) post"
        "go_code out = 0" "staged = staged_of out"
        "gw_trace w' = gw_trace w @ tr @ [staged_call ge git out,
          \<lparr>gc_env = git_env ge, gc_argv = commit_words ge git (strip_str (str_arg (ge_other ge) args ''message'' [])) paths,
           gc_answer = answer\<rparr>] @ post"
      unfolding commit_guarded_def committed_def by blast
    show ?thesis
      using c one(2) explicit_git_paths_Inr [OF c(1)]
      by (intro disjI2 exI [of _ s] exI [of _ git] exI [of _ paths] exI [of _ out] exI [of _ answer] exI [of _ tr] exI [of _ post])
        (auto simp: list_all_iff staged_call_def staged_words_def commit_words_def)
  qed
qed

theorem git_commit_only_requested_witness:
  "fst (git_commit demo_setting [(''message'', JStr ''fix''), (''paths'', JList [JStr ''a''])] (demo_repo [])) =
     Inr \<lparr>ca_branch = ''main'', ca_sha = ''4f2a'', ca_paths = [lit ''a'']\<rparr> \<and>
   (\<exists>out pre post. gw_trace (snd (git_commit demo_setting [(''message'', JStr ''fix''), (''paths'', JList [JStr ''a''])] (demo_repo []))) =
      pre @ [staged_call demo_setting ''git'' out] @ post \<and> staged_of out = [lit ''a'']) \<and>
   fst (git_commit demo_setting [(''message'', JStr ''fix''), (''paths'', JList [JStr ''a''])] (demo_repo [''b''])) =
     Inl (tool_failure ''INVALID_STATE'' ''conflict'')"
proof -
  let ?args = "[(''message'', JStr ''fix''), (''paths'', JList [JStr ''a''])]"
  have r: "fst (git_commit demo_setting ?args (demo_repo [])) = Inr \<lparr>ca_branch = ''main'', ca_sha = ''4f2a'', ca_paths = [lit ''a'']\<rparr>"
    "fst (git_commit demo_setting ?args (demo_repo [''b''])) = Inl (tool_failure ''INVALID_STATE'' ''conflict'')"
    by code_simp+
  have g: "\<forall>c\<in>set (gw_trace (snd (git_commit demo_setting ?args (demo_repo [])))). hd (gc_argv c) = ''git''"
    by code_simp
  obtain w' where w: "git_commit demo_setting ?args (demo_repo []) = (Inr \<lparr>ca_branch = ''main'', ca_sha = ''4f2a'', ca_paths = [lit ''a'']\<rparr>, w')"
    using r(1) by (metis prod.collapse)
  from git_commit_only_requested [OF w] g w show ?thesis
    using r by (fastforce simp: staged_call_def staged_words_def demo_repo_def)
qed

end
