(* ===== verification/CommandScan.thy ===== *)
theory CommandScan
  imports GitTools Tasks
begin

text \<open>
  The scan of a shell command before it runs (\<^verbatim>\<open>server.py\<close>: \<open>shlex_split\<close> to
  \<open>is_literal_network_reference_command\<close> and the methods \<^verbatim>\<open>_check_command_paths\<close> and
  \<^verbatim>\<open>_check_command_path_candidate\<close>; \<^verbatim>\<open>system_view.py\<close>).

  \<^item> \<open>lex_tokens\<close> is the token reader of \<^verbatim>\<open>shlex.shlex(posix=True, punctuation_chars=True)\<close> with
    \<^verbatim>\<open>whitespace_split\<close>, as one recursion over the text.
  \<^item> The scan of the tokens finds the executables, the paths a command names, and inline scripts.
  \<^item> The check of a path looks at the tree of \<open>FileSystem\<close> through the resolution of \<open>Workspace\<close>.
\<close>

section \<open>Tokens\<close>

datatype lex_mode = LSpace | LWord | LPunct | LQuote char | LEscWord | LEscQuote char

definition lex_white :: "char \<Rightarrow> bool" where
  "lex_white c \<longleftrightarrow> c = CHR '' '' \<or> c = CHR 9 \<or> c = CHR 13 \<or> c = CHR 10"

definition lex_punct :: "char \<Rightarrow> bool" where
  "lex_punct c \<longleftrightarrow> c \<in> set ''();<>|&''"

definition lex_quote :: "char \<Rightarrow> bool" where
  "lex_quote c \<longleftrightarrow> c = CHR 39 \<or> c = CHR 34"

definition skip_line :: "string \<Rightarrow> string" where
  "skip_line cs = drop 1 (dropWhile (\<lambda>c. c \<noteq> CHR 10) cs)"

definition emit :: "string \<Rightarrow> string list result \<Rightarrow> string list result" where
  "emit tok r = rbind r (\<lambda>ts. Inr (tok # ts))"

text \<open>
  \<open>lex_tokens mode tok quoted input\<close>: \<open>tok\<close> is the token so far, \<open>quoted\<close> whether it had a quotation.  A
  character that is pushed back is read again.
\<close>

function (sequential) lex_tokens :: "lex_mode \<Rightarrow> string \<Rightarrow> bool \<Rightarrow> string \<Rightarrow> string list result" where
  "lex_tokens LSpace tok quoted [] = Inr []"
| "lex_tokens LSpace tok quoted (c # cs) =
     (if lex_white c then lex_tokens LSpace [] False cs
      else if c = CHR ''#'' then lex_tokens LSpace [] False (skip_line cs)
      else if c = CHR 92 then lex_tokens LEscWord [] False cs
      else if lex_punct c then lex_tokens LPunct [c] False cs
      else if lex_quote c then lex_tokens (LQuote c) [] False cs
      else lex_tokens LWord [c] False cs)"
| "lex_tokens (LQuote k) tok quoted [] = Inl (ValueError ''No closing quotation'')"
| "lex_tokens (LQuote k) tok quoted (c # cs) =
     (if c = k then lex_tokens LWord tok True cs
      else if c = CHR 92 \<and> k = CHR 34 then lex_tokens (LEscQuote k) tok True cs
      else lex_tokens (LQuote k) (tok @ [c]) True cs)"
| "lex_tokens LEscWord tok quoted [] = Inl (ValueError ''No escaped character'')"
| "lex_tokens LEscWord tok quoted (c # cs) = lex_tokens LWord (tok @ [c]) quoted cs"
| "lex_tokens (LEscQuote k) tok quoted [] = Inl (ValueError ''No escaped character'')"
| "lex_tokens (LEscQuote k) tok quoted (c # cs) =
     lex_tokens (LQuote k) (if c \<noteq> CHR 92 \<and> c \<noteq> k then tok @ [CHR 92, c] else tok @ [c]) quoted cs"
| "lex_tokens LWord tok quoted [] = Inr (if tok = [] \<and> \<not> quoted then [] else [tok])"
| "lex_tokens LWord tok quoted (c # cs) =
     (if lex_white c then (if tok \<noteq> [] \<or> quoted then emit tok (lex_tokens LSpace [] False cs) else lex_tokens LSpace [] False cs)
      else if c = CHR ''#'' then
        (if tok \<noteq> [] \<or> quoted then emit tok (lex_tokens LSpace [] False (skip_line cs)) else lex_tokens LSpace [] False (skip_line cs))
      else if lex_quote c then lex_tokens (LQuote c) tok quoted cs
      else if c = CHR 92 then lex_tokens LEscWord tok quoted cs
      else if \<not> lex_punct c then lex_tokens LWord (tok @ [c]) quoted cs
      else if tok \<noteq> [] \<or> quoted then emit tok (lex_tokens LSpace [] False (c # cs)) else lex_tokens LSpace [] False (c # cs))"
| "lex_tokens LPunct tok quoted [] = Inr [tok]"
| "lex_tokens LPunct tok quoted (c # cs) =
     (if lex_white c then emit tok (lex_tokens LSpace [] False cs)
      else if c = CHR ''#'' then emit tok (lex_tokens LSpace [] False (skip_line cs))
      else if lex_punct c then lex_tokens LPunct (tok @ [c]) quoted cs
      else emit tok (lex_tokens LSpace [] False (c # cs)))"
  by pat_completeness auto
termination
proof (relation "measures [\<lambda>(m, t, q, cs). length cs, \<lambda>(m, t, q, cs). if m = LSpace then 0 else 1]", goal_cases)
qed (auto simp: skip_line_def le_imp_less_Suc diff_le_self le_trans [OF diff_le_self length_dropWhile_le])

definition shlex_split :: "string \<Rightarrow> string list result" where
  "shlex_split command = lex_tokens LSpace [] False command"

definition SHELL_CONTROL_TOKENS :: "string list" where
  "SHELL_CONTROL_TOKENS = [''|'', ''||'', ''&'', ''&&'', '';'', ''('', '')'']"

definition REDIRECTION_TOKENS :: "string list" where
  "REDIRECTION_TOKENS = [''>'', ''>>'', ''<'', ''<>'', ''>&'', ''<&'', ''&>'', ''&>>'']"

definition HEREDOC_TOKENS :: "string list" where
  "HEREDOC_TOKENS = [''<<'', ''<<<'']"

section \<open>Here-documents\<close>

text \<open>The word after \<^verbatim>\<open><<\<close>: what is left of the text, and the delimiter without its quotes.\<close>

function (sequential) heredoc_word :: "string \<Rightarrow> string \<Rightarrow> string \<times> string" where
  "heredoc_word acc [] = ([], acc)"
| "heredoc_word acc (c # cs) =
     (if lex_quote c then
        heredoc_word (acc @ takeWhile (\<lambda>d. d \<noteq> c) cs) (drop 1 (dropWhile (\<lambda>d. d \<noteq> c) cs))
      else if c = CHR 92 \<and> cs \<noteq> [] then heredoc_word (acc @ [hd cs]) (tl cs)
      else if ch_space c \<or> c \<in> set '';&|<>()'' then (c # cs, acc)
      else heredoc_word (acc @ [c]) cs)"
  by pat_completeness auto
termination
  by (relation "measure (length \<circ> snd)") (auto simp: le_imp_less_Suc le_trans [OF diff_le_self length_dropWhile_le])

definition parse_heredoc_delimiter :: "string \<Rightarrow> string \<times> string \<times> bool" where
  "parse_heredoc_delimiter cs =
     (let strip_tabs = startswith cs ''-'';
          cs1 = dropWhile (\<lambda>c. c = CHR '' '' \<or> c = CHR 9) (if strip_tabs then tl cs else cs);
          (rest, delimiter) = heredoc_word [] cs1 in
      (rest, delimiter, strip_tabs))"

text \<open>The lines of one body, up to the delimiter or the end.\<close>

definition line_is :: "string \<Rightarrow> bool \<Rightarrow> string \<Rightarrow> bool" where
  "line_is delimiter strip_tabs line =
     (let l = rstrip_by (\<lambda>c. c = CHR 13) line in
      (if strip_tabs then lstrip_by (\<lambda>c. c = CHR 9) l else l) = delimiter)"

function skip_body :: "string \<Rightarrow> bool \<Rightarrow> string \<Rightarrow> string" where
  "skip_body delimiter strip_tabs cs =
     (if cs = [] then []
      else
        let line = takeWhile (\<lambda>c. c \<noteq> CHR 10) cs; rest = drop (length line + 1) cs in
        if line_is delimiter strip_tabs line then rest else skip_body delimiter strip_tabs rest)"
  by pat_completeness auto
termination
  by (relation "measure (\<lambda>(d, t, cs). length cs)") (simp_all add: length_greater_0_conv [symmetric] del: length_greater_0_conv)

declare skip_body.simps [simp del]

definition skip_bodies :: "(string \<times> bool) list \<Rightarrow> string \<Rightarrow> string" where
  "skip_bodies pending cs = foldl (\<lambda>rest (d, t). skip_body d t rest) cs pending"

record strip_state =
  ss_single :: bool
  ss_double :: bool
  ss_arith :: nat
  ss_pending :: "(string \<times> bool) list"

lemma heredoc_word_length: "length (fst (heredoc_word acc cs)) \<le> length cs"
proof (induction acc cs rule: heredoc_word.induct)
  case (2 acc c cs)
  have "length (dropWhile (\<lambda>d. d \<noteq> c) cs) - 1 \<le> length cs"
    using length_dropWhile_le [of "\<lambda>d. d \<noteq> c" cs] by linarith
  then have q: "lex_quote c \<Longrightarrow> ?case" using 2(1) by simp
  have e: "\<not> lex_quote c \<Longrightarrow> c = CHR 92 \<and> cs \<noteq> [] \<Longrightarrow> ?case" using 2(2) by simp
  show ?case using q e le_SucI [OF 2(3)] by (cases "lex_quote c"; cases "c = CHR 92 \<and> cs \<noteq> []") simp_all
qed simp

lemma parse_heredoc_length: "length (fst (parse_heredoc_delimiter cs)) \<le> length cs"
proof -
  let ?cs1 = "dropWhile (\<lambda>c. c = CHR '' '' \<or> c = CHR 9) (if startswith cs ''-'' then tl cs else cs)"
  have "length ?cs1 \<le> length cs"
    using length_dropWhile_le [of "\<lambda>c. c = CHR '' '' \<or> c = CHR 9" "if startswith cs ''-'' then tl cs else cs"]
    by (auto split: if_splits)
  then show ?thesis
    using heredoc_word_length [of "[]" ?cs1] by (auto simp: parse_heredoc_delimiter_def Let_def split: prod.splits)
qed

lemma skip_body_length: "length (skip_body d t cs) \<le> length cs"
proof (induction d t cs rule: skip_body.induct)
  case (1 d t cs)
  then show ?case by (subst skip_body.simps) (auto simp: Let_def intro: order_trans [OF _ diff_le_self])
qed

lemma skip_bodies_length: "length (skip_bodies pending cs) \<le> length cs"
  unfolding skip_bodies_def
proof (induction pending arbitrary: cs)
  case (Cons p ps)
  then show ?case using skip_body_length [of "fst p" "snd p" cs] by (auto simp: case_prod_beta intro: order_trans)
qed simp

text \<open>The loop: the text that stays visible.\<close>

function (sequential) strip_loop :: "strip_state \<Rightarrow> string \<Rightarrow> string" where
  "strip_loop st [] = []"
| "strip_loop st (c # cs) =
     (if ss_single st then c # strip_loop (st\<lparr>ss_single := c \<noteq> CHR 39\<rparr>) cs
      else if ss_double st then
        (if c = CHR 92 \<and> cs \<noteq> [] then c # hd cs # strip_loop st (tl cs)
         else c # strip_loop (st\<lparr>ss_double := c \<noteq> CHR 34\<rparr>) cs)
      else if c = CHR 92 \<and> cs \<noteq> [] then c # hd cs # strip_loop st (tl cs)
      else if c = CHR 39 then c # strip_loop (st\<lparr>ss_single := True\<rparr>) cs
      else if c = CHR 34 then c # strip_loop (st\<lparr>ss_double := True\<rparr>) cs
      else if ss_arith st \<noteq> 0 then
        c # strip_loop (st\<lparr>ss_arith := if c = CHR ''('' then ss_arith st + 1 else if c = CHR '')'' then ss_arith st - 1 else ss_arith st\<rparr>) cs
      else if c = CHR ''('' \<and> startswith cs ''('' then ''(('' @ strip_loop (st\<lparr>ss_arith := 2\<rparr>) (tl cs)
      else if c = CHR ''<'' \<and> startswith cs ''<<'' then ''<<<'' @ strip_loop st (drop 2 cs)
      else if c = CHR ''<'' \<and> startswith cs ''<'' then
        (case parse_heredoc_delimiter (tl cs) of (rest, delimiter, strip_tabs) \<Rightarrow>
           take (length (c # cs) - length rest) (c # cs) @
           strip_loop (if delimiter \<noteq> [] then st\<lparr>ss_pending := ss_pending st @ [(delimiter, strip_tabs)]\<rparr> else st) rest)
      else if c = CHR 10 then c # strip_loop (st\<lparr>ss_pending := []\<rparr>) (skip_bodies (ss_pending st) cs)
      else c # strip_loop st cs)"
  by pat_completeness auto
termination
proof (relation "measure (length \<circ> snd)", goal_cases)
  case (11 st c cs x rest y d)
  then show ?case using parse_heredoc_length [of "tl cs"] by (cases cs) (auto simp: startswith_def dest!: arg_cong [where f = fst])
next
  case (12 st c cs)
  then show ?case using skip_bodies_length [of "ss_pending st" cs] by simp
qed auto

definition strip_heredoc_payloads :: "string \<Rightarrow> string" where
  "strip_heredoc_payloads command =
     (if find_sub command ''<<'' = None then command
      else strip_loop \<lparr>ss_single = False, ss_double = False, ss_arith = 0, ss_pending = []\<rparr> command)"

section \<open>The scan of the tokens\<close>

text \<open>\<^verbatim>\<open>PurePosixPath(command.replace("\\", "/")).name\<close>, lowered for commands.\<close>

definition slashes :: "string \<Rightarrow> string" where
  "slashes t = map (\<lambda>c. if c = CHR 92 then CHR ''/'' else c) t"

definition pure_name :: "string \<Rightarrow> string" where
  "pure_name t = (let ps = path_parts t in if ps = [] then [] else last ps)"

definition command_name :: "string \<Rightarrow> string" where
  "command_name t = lower_str (pure_name (slashes t))"

definition name_char :: "char \<Rightarrow> bool" where
  "name_char c \<longleftrightarrow> ch_alnum_ascii c \<or> c = CHR ''_''"

definition is_env_assignment_token :: "string \<Rightarrow> bool" where
  "is_env_assignment_token t =
     (case t of [] \<Rightarrow> False
      | c # cs \<Rightarrow> (ch_alpha_ascii c \<or> c = CHR ''_'') \<and> startswith (dropWhile name_char cs) ''='')"

definition is_url :: "string \<Rightarrow> bool" where
  "is_url t =
     (case t of [] \<Rightarrow> False
      | c # cs \<Rightarrow> ch_alpha_ascii c \<and>
          startswith (dropWhile (\<lambda>d. ch_alnum_ascii d \<or> d \<in> set ''+.-'') cs) ''://'')"

definition is_inspectable_path_argument :: "string \<Rightarrow> bool" where
  "is_inspectable_path_argument t =
     (if t = [] \<or> startswith t ''-'' then False
      else
        let n = slashes t in
        if is_url n then False
        else if list_ex (startswith n) [''/'', ''~'', ''./'', ''../''] \<or>
                (case n of c # d # e # _ \<Rightarrow> ch_alpha_ascii c \<and> d = CHR '':'' \<and> e = CHR ''/'' | _ \<Rightarrow> False) then True
        else if CHR ''/'' \<in> set n then True
        else CHR ''.'' \<in> set (pure_name n))"

definition PATH_ARGUMENT_COMMANDS :: "string list" where
  "PATH_ARGUMENT_COMMANDS =
     [''cat'', ''cd'', ''chdir'', ''chmod'', ''chown'', ''cp'', ''head'', ''less'', ''ln'', ''ls'', ''mkdir'', ''more'', ''mv'',
      ''rm'', ''rmdir'', ''stat'', ''tail'', ''touch'', ''wc'']"

definition PATTERN_THEN_PATH_COMMANDS :: "string list" where
  "PATTERN_THEN_PATH_COMMANDS = [''grep'', ''egrep'', ''fgrep'', ''rg'', ''sed'', ''awk'']"

definition SCRIPT_COMMANDS :: "string list" where
  "SCRIPT_COMMANDS = [''bash'', ''sh'', ''zsh'', ''python'', ''python3'', ''node'', ''ruby'', ''perl'']"

definition ENV_OPTIONS_WITH_ARGUMENT :: "string list" where
  "ENV_OPTIONS_WITH_ARGUMENT =
     [''-u'', ''--unset'', ''-C'', ''--chdir'', ''-S'', ''--split-string'', ''-a'', ''--argv0'']"

text \<open>The word before a redirection that is a file descriptor.\<close>

definition is_descriptor :: "string \<Rightarrow> string list \<Rightarrow> bool" where
  "is_descriptor t ts \<longleftrightarrow> isdigit_str t \<and> ts \<noteq> [] \<and> hd ts \<in> set REDIRECTION_TOKENS"

fun executables_loop :: "bool \<Rightarrow> string list \<Rightarrow> string list" where
  "executables_loop expect [] = []"
| "executables_loop expect (t # ts) =
     (if t = [] then executables_loop expect ts
      else if t \<in> set SHELL_CONTROL_TOKENS then executables_loop True ts
      else if t \<in> set REDIRECTION_TOKENS \<or> t \<in> set HEREDOC_TOKENS then executables_loop False ts
      else if is_descriptor t ts then executables_loop expect ts
      else if expect then
        (if is_env_assignment_token t then executables_loop True ts else t # executables_loop False ts)
      else executables_loop expect ts)"

definition command_executables :: "string list \<Rightarrow> string list" where
  "command_executables tokens = executables_loop True tokens"

definition words_or_split :: "string \<Rightarrow> string list" where
  "words_or_split command = (case shlex_split command of Inr ts \<Rightarrow> ts | Inl _ \<Rightarrow> split_words command)"

text \<open>\<open>env_wrapped_command\<close>: the directories of \<^verbatim>\<open>-C\<close>, the command that \<^verbatim>\<open>env\<close> runs, and its arguments.\<close>

definition env_split_command :: "string list \<Rightarrow> string \<Rightarrow> string list \<times> string option \<times> string list" where
  "env_split_command candidates command =
     (case words_or_split command of [] \<Rightarrow> (candidates, None, []) | t # ts \<Rightarrow> (candidates, Some t, ts))"

definition env_rest :: "string list \<Rightarrow> string list \<Rightarrow> string list \<times> string option \<times> string list" where
  "env_rest candidates args = (case args of [] \<Rightarrow> (candidates, None, []) | a # as \<Rightarrow> (candidates, Some a, as))"

definition after_equals :: "string \<Rightarrow> string" where
  "after_equals t = drop 1 (dropWhile (\<lambda>c. c \<noteq> CHR ''='') t)"

text \<open>
  The words that are skipped alone: flags, options with their value attached and assignments.  The lists of
  such options in the source only name words that begin with a dash, which the last test skips anyway.
\<close>

definition env_skips_word :: "string \<Rightarrow> bool" where
  "env_skips_word a \<longleftrightarrow> startswith a ''-'' \<or> is_env_assignment_token a"

fun env_loop :: "string list \<Rightarrow> string list \<Rightarrow> string list \<times> string option \<times> string list" where
  "env_loop candidates [] = (candidates, None, [])"
| "env_loop candidates (a # as) =
     (if a = ''--'' then env_rest candidates as
      else if a = ''-S'' \<or> a = ''--split-string'' then
        (case as of [] \<Rightarrow> (candidates, None, []) | b # _ \<Rightarrow> env_split_command candidates b)
      else if startswith a ''--split-string='' then env_split_command candidates (after_equals a)
      else if startswith a ''-S'' then env_split_command candidates (drop 2 a)
      else if a = ''-C'' \<or> a = ''--chdir'' then
        (case as of [] \<Rightarrow> (candidates, None, []) | b # bs \<Rightarrow> env_loop (candidates @ [b]) bs)
      else if startswith a ''--chdir='' then env_loop (candidates @ [after_equals a]) as
      else if startswith a ''-C'' then env_loop (candidates @ [drop 2 a]) as
      else if a \<in> set ENV_OPTIONS_WITH_ARGUMENT then (case as of [] \<Rightarrow> (candidates, None, []) | _ # bs \<Rightarrow> env_loop candidates bs)
      else if env_skips_word a then env_loop candidates as
      else (candidates, Some a, as))"

definition env_wrapped_command :: "string list \<Rightarrow> string list \<times> string option \<times> string list" where
  "env_wrapped_command args = env_loop [] args"

text \<open>The tokens of a text are no longer than the text, which bounds the recursion through \<^verbatim>\<open>env -S\<close>.\<close>

definition total_chars :: "string list \<Rightarrow> nat" where
  "total_chars ts = sum_list (map length ts)"

lemma total_simps [simp]: "total_chars [] = 0" "total_chars (t # ts) = length t + total_chars ts"
  by (simp_all add: total_chars_def)

lemma skip_line_length: "length (skip_line cs) \<le> length cs"
  unfolding skip_line_def using length_dropWhile_le [of "\<lambda>c. c \<noteq> CHR 10" cs] by (simp add: le_diff_conv)

lemma emit_Inr: "emit tok r = Inr ts \<longleftrightarrow> (\<exists>ts'. r = Inr ts' \<and> ts = tok # ts')"
  by (auto simp: emit_def result_simps)

lemma lex_total: "lex_tokens m tok q cs = Inr ts \<Longrightarrow> total_chars ts \<le> (case m of LSpace \<Rightarrow> 0 | LEscQuote _ \<Rightarrow> Suc (length tok) | _ \<Rightarrow> length tok) + length cs"
proof (induction m tok q cs arbitrary: ts rule: lex_tokens.induct)
  case (2 tok quoted c cs)
  then show ?case using skip_line_length [of cs] by (fastforce split: if_splits)
next
  case (4 k tok quoted c cs)
  consider "c = k" | "c \<noteq> k" "c = CHR 92 \<and> k = CHR 34" | "c \<noteq> k" "\<not> (c = CHR 92 \<and> k = CHR 34)" by blast
  then show ?case
  proof cases
    case 1
    then show ?thesis using "4.prems" "4.IH"(1) [of ts] by simp
  next
    case 2
    then show ?thesis using "4.prems" "4.IH"(2) [of ts] by simp
  next
    case 3
    then show ?thesis using "4.prems" "4.IH"(3) [of ts] by (simp split: if_splits)
  qed
next
  case (6 tok quoted c cs)
  from "6.prems" show ?case by (auto dest!: "6.IH")
next
  case (8 k tok quoted c cs)
  from "8.IH" [of ts] "8.prems" show ?case by (simp split: if_splits)
next
  case (10 tok quoted c cs)
  then show ?case using skip_line_length [of cs] by (fastforce simp: emit_Inr split: if_splits)
next
  case (12 tok quoted c cs)
  then show ?case using skip_line_length [of cs] by (fastforce simp: emit_Inr split: if_splits)
qed auto

lemma words_by_total: "total_chars (words_by P acc cs) \<le> length acc + length cs"
  by (induction P acc cs rule: words_by.induct) (auto simp: le_SucI)

lemma words_or_split_total: "total_chars (words_or_split t) \<le> length t"
  using lex_total [of LSpace "[]" False t] words_by_total [of ch_space "[]" t]
  by (auto simp: words_or_split_def shlex_split_def split_words_def split: sum.splits)

lemma env_split_total: "env_split_command cands t = (cands', Some w, ws) \<Longrightarrow> length w + total_chars ws \<le> length t"
  using words_or_split_total [of t] by (auto simp: env_split_command_def split: list.splits)

lemma after_equals_length: "length (after_equals t) \<le> length t"
  unfolding after_equals_def using length_dropWhile_le [of "\<lambda>c. c \<noteq> CHR ''=''" t] by (simp add: le_diff_conv)

lemma env_loop_total: "env_loop cands args = (cands', Some w, ws) \<Longrightarrow> length w + total_chars ws \<le> total_chars args"
proof (induction cands args rule: env_loop.induct)
  case (2 cands a as)
  have s: "length t \<le> n \<Longrightarrow> env_split_command cands t = (cands', Some w, ws) \<Longrightarrow> length w + total_chars ws \<le> n + m" for t n m
    using env_split_total [of cands t cands' w ws] by simp
  show ?case
    using 2 s [of "after_equals a" "length a" "total_chars as"] s [of "drop 2 a" "length a" "total_chars as"] after_equals_length [of a]
    by (auto simp: env_rest_def split: if_splits list.splits dest!: env_split_total)
qed simp

lemma command_name_Nil: "command_name [] = []"
  by (simp add: command_name_def slashes_def pure_name_def path_parts_def lower_str_def)

section \<open>Paths in the arguments of a command\<close>

fun pattern_loop :: "bool \<Rightarrow> bool \<Rightarrow> string list \<Rightarrow> string list" where
  "pattern_loop consumed skip [] = []"
| "pattern_loop consumed skip (a # as) =
     (if skip then pattern_loop consumed False as
      else if a \<in> {''-e'', ''-f'', ''--regexp'', ''--file'', ''-g'', ''--glob''} then pattern_loop consumed True as
      else if startswith a ''-'' then pattern_loop consumed False as
      else if \<not> consumed then pattern_loop True False as
      else if is_inspectable_path_argument a then a # pattern_loop consumed False as
      else pattern_loop consumed False as)"

definition pattern_command_path_candidates :: "string list \<Rightarrow> string list" where
  "pattern_command_path_candidates args = pattern_loop False False args"

definition find_command_path_candidates :: "string list \<Rightarrow> string list" where
  "find_command_path_candidates args =
     filter is_inspectable_path_argument (takeWhile (\<lambda>a. \<not> (a \<in> {''!'', ''('', '')''} \<or> startswith a ''-'')) args)"

definition shells :: "string list" where
  "shells = [''bash'', ''sh'', ''zsh'']"

definition inline_option :: "string \<Rightarrow> string \<Rightarrow> bool" where
  "inline_option name a \<longleftrightarrow>
     (name \<in> set shells \<and> startswith a ''-'' \<and> CHR ''c'' \<in> set (lstrip_by (\<lambda>c. c = CHR ''-'') a)) \<or>
     (name \<in> {''python'', ''python3''} \<and> a = ''-c'') \<or>
     (name = ''node'' \<and> a \<in> {''-e'', ''--eval'', ''-p'', ''--print''}) \<or>
     (name \<in> {''ruby'', ''perl''} \<and> a = ''-e'')"

text \<open>The last test of the loop, for \<^verbatim>\<open>python -\<close>, is never reached: the dash has been skipped before.\<close>

fun script_loop :: "string \<Rightarrow> bool \<Rightarrow> string list \<Rightarrow> string list" where
  "script_loop name skip [] = []"
| "script_loop name skip (a # as) =
     (if skip then script_loop name False as
      else if inline_option name a then []
      else if a \<in> {''-m'', ''--require'', ''-r''} then script_loop name True as
      else if startswith a ''-'' then script_loop name False as
      else if startswith name ''python'' \<and> a = ''-'' then []
      else if is_inspectable_path_argument a then [a] else [])"

definition script_command_path_candidates :: "string \<Rightarrow> string list \<Rightarrow> string list" where
  "script_command_path_candidates name args = script_loop name False args"

function command_argument_path_candidates :: "string option \<Rightarrow> string list \<Rightarrow> string list" where
  "command_argument_path_candidates cmd args =
     (case cmd of None \<Rightarrow> []
      | Some command \<Rightarrow>
          if command = [] then []
          else
            let name = command_name command in
            if name = ''env'' then
              (case env_wrapped_command args of (candidates, wrapped, wrapped_args) \<Rightarrow>
                 if wrapped = None then candidates
                 else candidates @ command_argument_path_candidates wrapped wrapped_args)
            else if name \<in> set PATH_ARGUMENT_COMMANDS then filter is_inspectable_path_argument args
            else if name \<in> set PATTERN_THEN_PATH_COMMANDS then pattern_command_path_candidates args
            else if name = ''find'' then find_command_path_candidates args
            else if name \<in> set SCRIPT_COMMANDS then script_command_path_candidates name args
            else [])"
  by pat_completeness auto
termination
proof (relation "measure (\<lambda>(cmd, args). case cmd of None \<Rightarrow> 0 | Some c \<Rightarrow> length c + total_chars args)", goal_cases)
  case (2 cmd args command name cands rest wrapped wrapped_args)
  then obtain w where w: "wrapped = Some w" by (cases wrapped) auto
  with 2 have "env_loop [] args = (cands, Some w, wrapped_args)" by (simp add: env_wrapped_command_def)
  from env_loop_total [OF this] 2 w show ?case by (cases command) auto
qed simp

declare command_argument_path_candidates.simps [simp del]

text \<open>The state of the loop over the tokens: the command of the segment and its arguments.\<close>

fun candidates_loop :: "string option \<Rightarrow> string list \<Rightarrow> string list \<Rightarrow> string list" where
  "candidates_loop cmd args [] = command_argument_path_candidates cmd args"
| "candidates_loop cmd args (t # ts) =
     (if t \<in> set SHELL_CONTROL_TOKENS then command_argument_path_candidates cmd args @ candidates_loop None [] ts
      else if is_descriptor t ts then candidates_loop cmd args ts
      else if t \<in> set REDIRECTION_TOKENS then
        (case ts of [] \<Rightarrow> candidates_loop cmd args [] | u # us \<Rightarrow> u # candidates_loop cmd args us)
      else if t \<in> set HEREDOC_TOKENS then
        (case ts of [] \<Rightarrow> candidates_loop cmd args [] | u # us \<Rightarrow> candidates_loop cmd args us)
      else if cmd = None then candidates_loop (if is_env_assignment_token t then None else Some t) args ts
      else candidates_loop cmd (args @ [t]) ts)"

definition explicit_command_path_candidates :: "string list \<Rightarrow> string list" where
  "explicit_command_path_candidates tokens = rev (remdups (rev (candidates_loop None [] tokens)))"

section \<open>Inline scripts\<close>

function inline_script_segment :: "string option \<Rightarrow> string list \<Rightarrow> (string \<times> string) option" where
  "inline_script_segment cmd args =
     (case cmd of None \<Rightarrow> None
      | Some command \<Rightarrow>
          if command = [] then None
          else
            let name = command_name command in
            if name = ''env'' then
              (case env_wrapped_command args of (_, wrapped, wrapped_args) \<Rightarrow> inline_script_segment wrapped wrapped_args)
            else if name \<in> set shells then map_option (Pair name) (find (inline_option name) args)
            else if name \<in> {''python'', ''python3''} then
              (if ''-c'' \<in> set args then Some (name, ''-c'') else if ''-'' \<in> set args then Some (name, ''-'') else None)
            else if name = ''node'' then
              map_option (Pair name) (find (\<lambda>x. x \<in> set args) [''-e'', ''--eval'', ''-p'', ''--print''])
            else if name \<in> {''ruby'', ''perl''} \<and> ''-e'' \<in> set args then Some (name, ''-e'')
            else None)"
  by pat_completeness auto
termination
proof (relation "measure (\<lambda>(cmd, args). case cmd of None \<Rightarrow> 0 | Some c \<Rightarrow> length c + total_chars args)", goal_cases)
  case (2 cmd args command name cands rest wrapped wrapped_args)
  then show ?case
  proof (cases wrapped)
    case (Some w)
    with 2 have "env_loop [] args = (cands, Some w, wrapped_args)" by (simp add: env_wrapped_command_def)
    from env_loop_total [OF this] 2 Some show ?thesis by (cases command) auto
  next
    case None
    with 2 None show ?thesis by (cases command) auto
  qed
qed simp

declare inline_script_segment.simps [simp del]

definition stdin_script_segment :: "string option \<Rightarrow> string list \<Rightarrow> string \<Rightarrow> (string \<times> string) option" where
  "stdin_script_segment cmd args redirection =
     (case cmd of None \<Rightarrow> None
      | Some command \<Rightarrow>
          let name = command_name command in
          if command = [] \<or> name \<notin> set SCRIPT_COMMANDS then None
          else if name \<in> {''python'', ''python3''} \<and> ''-m'' \<in> set args then None
          else if list_ex (\<lambda>a. \<not> startswith a ''-'' \<or> a = ''-'') args then None
          else Some (name, redirection))"

fun inline_loop :: "string option \<Rightarrow> string list \<Rightarrow> string list \<Rightarrow> (string \<times> string) option" where
  "inline_loop cmd args [] = inline_script_segment cmd args"
| "inline_loop cmd args (t # ts) =
     (if t \<in> set SHELL_CONTROL_TOKENS then
        (case inline_script_segment cmd args of Some r \<Rightarrow> Some r | None \<Rightarrow> inline_loop None [] ts)
      else if is_descriptor t ts then inline_loop cmd args ts
      else if t \<in> set HEREDOC_TOKENS then
        (case stdin_script_segment cmd args t of Some r \<Rightarrow> Some r
         | None \<Rightarrow> (case ts of [] \<Rightarrow> inline_loop cmd args [] | u # us \<Rightarrow> inline_loop cmd args us))
      else if t \<in> set REDIRECTION_TOKENS then
        (case ts of [] \<Rightarrow> inline_loop cmd args [] | u # us \<Rightarrow> inline_loop cmd args us)
      else if cmd = None then inline_loop (if is_env_assignment_token t then None else Some t) args ts
      else inline_loop cmd (args @ [t]) ts)"

definition inline_script_command :: "string \<Rightarrow> (string \<times> string) option" where
  "inline_script_command command = inline_loop None [] (words_or_split command)"

definition NETWORK_LITERAL_COMMANDS :: "string list" where
  "NETWORK_LITERAL_COMMANDS =
     [''echo'', ''printf'', ''grep'', ''egrep'', ''fgrep'', ''rg'', ''cat'', ''head'', ''tail'', ''wc'']"

definition is_literal_network_reference_command :: "string \<Rightarrow> bool" where
  "is_literal_network_reference_command command =
     (case shlex_split command of Inl _ \<Rightarrow> False
      | Inr tokens \<Rightarrow>
          let executables = command_executables tokens in
          executables \<noteq> [] \<and> list_all (\<lambda>e. command_name e \<in> set NETWORK_LITERAL_COMMANDS) executables)"

end
