(* ===== verification/CommandCheck.thy ===== *)
theory CommandCheck
  imports CommandScan
begin

text \<open>
  The check of the paths a command names (\<^verbatim>\<open>server.py\<close>: \<^verbatim>\<open>_check_command_paths\<close>,
  \<^verbatim>\<open>_check_command_path_candidate\<close>, \<^verbatim>\<open>_reject_setuid_executable\<close>, \<^verbatim>\<open>is_allowed_command_tmp_path\<close>; the
  read-only paths of \<open>system_view.py\<close>), and what it means for commands that are written with quoted
  words: the text is split into the words again, here-documents do not interfere, and every path the
  check is made for is inspected.
\<close>

unbundle bit_operations_syntax

section \<open>Read-only system paths\<close>

definition TOOLCHAIN_RUNTIME_DIRS :: "string list" where
  "TOOLCHAIN_RUNTIME_DIRS =
     [''/usr'', ''/bin'', ''/sbin'', ''/lib'', ''/lib64'', ''/opt'', ''/snap'', ''/etc/alternatives'', ''/usr/local/sdkman/candidates'']"

definition OS_METADATA_PATHS :: "string list" where
  "OS_METADATA_PATHS =
     [''/etc/os-release'', ''/etc/debian_version'', ''/etc/lsb-release'', ''/etc/localtime'', ''/etc/timezone'', ''/etc/passwd'',
      ''/etc/group'', ''/etc/nsswitch.conf'', ''/etc/machine-id'']"

definition TOOLCHAIN_CONFIG_PATHS :: "string list" where
  "TOOLCHAIN_CONFIG_PATHS = [''/etc/maven'', ''/etc/gradle'', ''/etc/npmrc'', ''/etc/npm'', ''/etc/fonts'', ''/etc/xml'']"

definition DYNAMIC_LINKER_PATHS :: "string list" where
  "DYNAMIC_LINKER_PATHS = [''/etc/ld.so.cache'', ''/etc/ld.so.conf'', ''/etc/ld.so.conf.d'']"

definition NETWORK_METADATA_PATHS :: "string list" where
  "NETWORK_METADATA_PATHS =
     [''/etc/resolv.conf'', ''/etc/hosts'', ''/etc/nsswitch.conf'', ''/etc/gai.conf'', ''/etc/protocols'', ''/etc/services'',
      ''/run/systemd/resolve'', ''/run/resolvconf'']"

definition CA_CERTIFICATE_PATHS :: "string list" where
  "CA_CERTIFICATE_PATHS = [''/etc/ssl'', ''/etc/ca-certificates'', ''/etc/pki'']"

text \<open>\<^verbatim>\<open>sorted(Path("/etc").glob("java-*"))\<close>.\<close>

definition java_config_paths :: "links \<Rightarrow> fs \<Rightarrow> path list" where
  "java_config_paths ls s =
     map (\<lambda>n. [''etc'', n])
       (sort (map last (filter (\<lambda>p. length p = 2 \<and> hd p = ''etc'' \<and> startswith (last p) ''java-'') (map fst s @ map fst ls))))"

definition add_new :: "path list \<Rightarrow> path \<Rightarrow> path list" where
  "add_new ps p = (if p \<in> set ps then ps else ps @ [p])"

definition readonly_system_paths :: "links \<Rightarrow> fs \<Rightarrow> bool \<Rightarrow> path list" where
  "readonly_system_paths ls s allow_network =
     foldl add_new []
       (filter (path_exists ls s)
          (map path_parts (TOOLCHAIN_RUNTIME_DIRS @ OS_METADATA_PATHS @ DYNAMIC_LINKER_PATHS @ TOOLCHAIN_CONFIG_PATHS @
             (if allow_network then NETWORK_METADATA_PATHS @ CA_CERTIFICATE_PATHS else [])) @
           java_config_paths ls s))"

section \<open>The check\<close>

record command_env =
  ce_ws :: workspace_env
  ce_backend :: string
  ce_runtime_dir :: path
  ce_which :: "string \<Rightarrow> string option"
  ce_dir_mode :: "path \<Rightarrow> nat"

definition SPECIAL_DEVICE_PATHS :: "string list" where
  "SPECIAL_DEVICE_PATHS = [''/dev/null'', ''/dev/zero'', ''/dev/random'', ''/dev/urandom'']"

text \<open>\<^verbatim>\<open>Path(t).expanduser().resolve(strict=False)\<close>; a null character raises in the system call.\<close>

definition resolve_lenient :: "workspace_env \<Rightarrow> fs \<Rightarrow> string \<Rightarrow> path result" where
  "resolve_lenient env s t =
     rbind (expanduser env t) (\<lambda>(is_abs, ps).
       if CHR 0x00 \<in> set t then Inl (ValueError ''embedded null byte'')
       else resolve_loose (we_links env) s (if is_abs then ps else we_process_cwd env @ ps))"

definition is_allowed_command_tmp_path :: "command_env \<Rightarrow> fs \<Rightarrow> string \<Rightarrow> bool result" where
  "is_allowed_command_tmp_path ce s candidate =
     (let n = slashes candidate in
      if ce_backend ce \<in> {''bwrap'', ''inherited''} \<and> (n = ''/tmp'' \<or> startswith n ''/tmp/'') then Inr True
      else rbind (resolve_lenient (ce_ws ce) s candidate) (\<lambda>p. Inr (is_relative_to p (ce_runtime_dir ce))))"

definition escape_codes :: "string list" where
  "escape_codes = [''PATH_OUTSIDE_WORKSPACE'', ''ABSOLUTE_PATH_DENIED'', ''SYMLINK_ESCAPE'']"

definition escape_failure :: "string \<Rightarrow> pyexn" where
  "escape_failure candidate =
     tool_failure_with ''PERMISSION_REQUIRED'' ''permission'' [(''permission'', JStr ''filesystem_escape''), (''path'', JStr candidate)]"

definition is_os_error :: "pyexn \<Rightarrow> bool" where
  "is_os_error e \<longleftrightarrow> e \<in> {OSError, FileNotFoundError, FileExistsError}"

definition path_is_dir :: "links \<Rightarrow> fs \<Rightarrow> path \<Rightarrow> bool" where
  "path_is_dir ls s p \<longleftrightarrow> (case kernel_path ls s [] [] p of Some q \<Rightarrow> fs_is_dir s q | None \<Rightarrow> False)"

definition under_system_path :: "links \<Rightarrow> fs \<Rightarrow> path \<Rightarrow> bool" where
  "under_system_path ls s p \<longleftrightarrow>
     list_ex (\<lambda>r. p = r \<or> (path_is_dir ls s r \<and> is_relative_to p r)) (readonly_system_paths ls s True)"

text \<open>The error number and its text in the details of the validation failure are left out.\<close>

definition resolve_or_refuse :: "command_env \<Rightarrow> fs \<Rightarrow> string \<Rightarrow> string \<Rightarrow> unit result" where
  "resolve_or_refuse ce s candidate n =
     (case rt_resolve_existing (ce_ws ce) s n of
        Inr _ \<Rightarrow> Inr ()
      | Inl e \<Rightarrow>
          if is_os_error e then Inl (tool_failure_with ''INVALID_ARGUMENT'' ''validation'' [(''path'', JStr (take 200 candidate))])
          else if failure_code e = Some ''NOT_FOUND'' then
            (case rt_resolve_for_write (ce_ws ce) s n of
               Inr _ \<Rightarrow> Inr ()
             | Inl e' \<Rightarrow>
                 if failure_code e' = Some ''NOT_FOUND'' then Inr ()
                 else if failure_code e' \<in> Some ` set escape_codes then Inl (escape_failure candidate)
                 else Inl e')
          else if failure_code e \<in> Some ` set escape_codes then Inl (escape_failure candidate)
          else Inl e)"

definition check_command_path_candidate :: "command_env \<Rightarrow> fs \<Rightarrow> string \<Rightarrow> unit result" where
  "check_command_path_candidate ce s raw =
     (let candidate = strip_str raw; n = slashes candidate in
      if candidate = [] \<or> candidate = ''-'' \<or> candidate = ''--'' then Inr ()
      else if is_url candidate then Inr ()
      else if n \<in> set SPECIAL_DEVICE_PATHS then Inr ()
      else rbind (is_allowed_command_tmp_path ce s n) (\<lambda>tmp.
        if tmp then Inr ()
        else rbind (resolve_lenient (ce_ws ce) s n) (\<lambda>p.
          if under_system_path (we_links (ce_ws ce)) s p then Inr () else resolve_or_refuse ce s candidate n)))"

definition stat_mode :: "command_env \<Rightarrow> fs \<Rightarrow> path \<Rightarrow> nat option" where
  "stat_mode ce s p =
     (case kernel_path (we_links (ce_ws ce)) s [] [] p of None \<Rightarrow> None
      | Some q \<Rightarrow> (case map_of s q of Some (File _ m) \<Rightarrow> Some m | Some Dir \<Rightarrow> Some (ce_dir_mode ce q) | None \<Rightarrow> None))"

text \<open>\<^verbatim>\<open>Path("")\<close> is the working directory: an executable that is not found is looked at as this directory.\<close>

definition reject_setuid_executable :: "command_env \<Rightarrow> fs \<Rightarrow> string \<Rightarrow> unit result" where
  "reject_setuid_executable ce s executable =
     (if executable = [] then Inr ()
      else
        let t = (if CHR ''/'' \<in> set executable then executable
                 else (case ce_which ce executable of None \<Rightarrow> [] | Some w \<Rightarrow> w));
            p = (if startswith t ''/'' then path_parts t else we_process_cwd (ce_ws ce) @ path_parts t) in
        if CHR 0x00 \<in> set t then Inl (ValueError ''embedded null byte'')
        else (case stat_mode ce s p of None \<Rightarrow> Inr ()
          | Some m \<Rightarrow>
              if m AND 3072 \<noteq> 0
              then Inl (tool_failure_with ''PERMISSION_REQUIRED'' ''permission''
                     [(''permission'', JStr ''privileged_executable''), (''path'', JStr (if t = [] then ''.'' else t))])
              else Inr ()))"

definition check_command_paths :: "command_env \<Rightarrow> fs \<Rightarrow> string \<Rightarrow> unit result" where
  "check_command_paths ce s cmd =
     (let tokens = words_or_split (strip_heredoc_payloads cmd) in
      rbind (rmap (reject_setuid_executable ce s) (command_executables tokens)) (\<lambda>_.
      rbind (rmap (check_command_path_candidate ce s) (explicit_command_path_candidates tokens)) (\<lambda>_. Inr ())))"

definition registered_direct_task :: "string \<Rightarrow> TaskTemplate option" where
  "registered_direct_task cmd =
     (case shlex_split (strip_heredoc_payloads cmd) of Inl _ \<Rightarrow> None | Inr tokens \<Rightarrow> match_direct_argv tokens)"

text \<open>\<^verbatim>\<open>shlex.quote\<close> and \<^verbatim>\<open>shlex.join\<close>, which make the text of a command given as a list.\<close>

definition quote_free :: "char \<Rightarrow> bool" where
  "quote_free c \<longleftrightarrow> ch_alnum_ascii c \<or> c \<in> set ''_@%+=:,./-''"

definition shlex_quote :: "string \<Rightarrow> string" where
  "shlex_quote w =
     (if w = [] then [CHR 39, CHR 39]
      else if list_all quote_free w then w
      else CHR 39 # concat (map (\<lambda>c. if c = CHR 39 then [CHR 39, CHR 34, CHR 39, CHR 34, CHR 39] else [c]) w) @ [CHR 39])"

definition shlex_join :: "string list \<Rightarrow> string" where
  "shlex_join ws = join '' '' (map shlex_quote ws)"

section \<open>Commands written with quoted words\<close>

datatype shell_token = Op string | Wd string

fun token_text :: "shell_token \<Rightarrow> string" where
  "token_text (Op t) = t"
| "token_text (Wd w) = shlex_quote w"

fun token_value :: "shell_token \<Rightarrow> string" where
  "token_value (Op t) = t"
| "token_value (Wd w) = w"

definition operators :: "string list" where
  "operators = SHELL_CONTROL_TOKENS @ REDIRECTION_TOKENS"

fun token_ok :: "shell_token \<Rightarrow> bool" where
  "token_ok (Op t) = (t \<in> set operators)"
| "token_ok (Wd w) = True"

definition token_line :: "shell_token list \<Rightarrow> string" where
  "token_line ts = join '' '' (map token_text ts)"

definition escaped :: "string \<Rightarrow> string" where
  "escaped w = concat (map (\<lambda>c. if c = CHR 39 then [CHR 39, CHR 34, CHR 39, CHR 34, CHR 39] else [c]) w)"

lemma escaped_simps [simp]:
  "escaped [] = []"
  "escaped (c # w) = (if c = CHR 39 then [CHR 39, CHR 34, CHR 39, CHR 34, CHR 39] else [c]) @ escaped w"
  by (simp_all add: escaped_def)

lemma shlex_quote_cases:
  obtains "w = []" "shlex_quote w = [CHR 39, CHR 39]"
  | "w \<noteq> []" "list_all quote_free w" "shlex_quote w = w"
  | "w \<noteq> []" "shlex_quote w = CHR 39 # escaped w @ [CHR 39]"
proof (cases "w = []")
  case True
  then show thesis using that(1) by (simp add: shlex_quote_def)
next
  case False
  then show thesis
    using that(2,3) by (cases "list_all quote_free w") (simp_all add: shlex_quote_def escaped_def)
qed

lemma quote_free_plain:
  assumes "quote_free c"
  shows "\<not> lex_white c" "c \<noteq> CHR ''#''" "c \<noteq> CHR 92" "\<not> lex_punct c" "\<not> lex_quote c" "c \<noteq> CHR 39" "c \<noteq> CHR 34"
    "c \<noteq> CHR ''<''" "c \<noteq> CHR 10" "c \<noteq> CHR ''(''"
  using assms by (auto simp: quote_free_def lex_white_def lex_punct_def lex_quote_def ch_alnum_ascii_def ch_alpha_ascii_def
      ch_upper_ascii_def ch_digit_def ch_code_def)

lemma lex_quoted: "lex_tokens (LQuote (CHR 39)) tok q (escaped w @ CHR 39 # rest) = lex_tokens LWord (tok @ w) True rest"
proof (induction w arbitrary: tok q)
  case (Cons c w)
  then show ?case by (simp add: lex_quote_def lex_white_def lex_punct_def)
qed simp

lemma lex_free: "list_all quote_free w \<Longrightarrow> lex_tokens LWord tok q (w @ rest) = lex_tokens LWord (tok @ w) q rest"
proof (induction w arbitrary: tok)
  case (Cons c w)
  then show ?case by (simp add: quote_free_plain)
qed simp

lemma lex_word:
  assumes "rest = [] \<or> hd rest = CHR '' ''"
  shows "lex_tokens LSpace tok q (shlex_quote w @ rest) = emit w (lex_tokens LSpace [] False (tl rest))"
proof -
  have e: "x \<noteq> [] \<or> b \<Longrightarrow> lex_tokens LWord x b rest = emit x (lex_tokens LSpace [] False (tl rest))" for x b
    using assms by (cases rest) (auto simp: emit_def lex_white_def)
  show ?thesis
  proof (cases w rule: shlex_quote_cases)
    case 1
    then show ?thesis using e [of "[]" True] by (simp add: lex_white_def lex_punct_def lex_quote_def)
  next
    case 2
    then obtain c v where w: "w = c # v" by (cases w) auto
    then show ?thesis using 2 e [of w False] by (simp add: quote_free_plain lex_free [of v "[c]"])
  next
    case 3
    have "lex_tokens LSpace tok q (shlex_quote w @ rest) = lex_tokens LWord w True rest"
      using lex_quoted [of "[]" False w rest] 3 by (simp add: lex_white_def lex_punct_def lex_quote_def)
    then show ?thesis using e [of w True] by simp
  qed
qed

lemma lex_punct_run: "list_all lex_punct t \<Longrightarrow> lex_tokens LPunct tok q (t @ rest) = lex_tokens LPunct (tok @ t) q rest"
proof (induction t arbitrary: tok)
  case (Cons c t)
  then have "\<not> lex_white c" "c \<noteq> CHR ''#''" by (auto simp: lex_punct_def lex_white_def)
  with Cons show ?case by simp
qed simp

lemma operators_punct: "t \<in> set operators \<Longrightarrow> t \<noteq> [] \<and> list_all lex_punct t"
  by (auto simp: operators_def SHELL_CONTROL_TOKENS_def REDIRECTION_TOKENS_def lex_punct_def)

lemma lex_operator:
  assumes "t \<in> set operators" "rest = [] \<or> hd rest = CHR '' ''"
  shows "lex_tokens LSpace tok q (t @ rest) = emit t (lex_tokens LSpace [] False (tl rest))"
proof -
  obtain c v where t: "t = c # v" "lex_punct c" "list_all lex_punct v"
    using operators_punct [OF assms(1)] by (cases t) auto
  then have "\<not> lex_white c" "c \<noteq> CHR ''#''" "c \<noteq> CHR 92" by (auto simp: lex_punct_def lex_white_def)
  moreover have "lex_tokens LPunct t False rest = emit t (lex_tokens LSpace [] False (tl rest))"
    using assms(2) by (cases rest) (auto simp: emit_def lex_white_def)
  ultimately show ?thesis using t lex_punct_run [of v "[c]" False rest] by simp
qed

lemma lex_token_line:
  "list_all token_ok ts \<Longrightarrow> lex_tokens LSpace tok q (token_line ts) = Inr (map token_value ts)"
proof (induction ts arbitrary: tok q)
  case Nil
  then show ?case by (simp add: token_line_def)
next
  case (Cons t ts)
  let ?rest = "if ts = [] then [] else CHR '' '' # token_line ts"
  have l: "token_line (t # ts) = token_text t @ ?rest"
    by (cases ts) (simp_all add: token_line_def)
  have r: "?rest = [] \<or> hd ?rest = CHR '' ''" "lex_tokens LSpace [] False (tl ?rest) = Inr (map token_value ts)"
    using Cons by (auto simp: token_line_def)
  show ?case
    unfolding l using Cons.prems r lex_word [OF r(1)] lex_operator [OF _ r(1)]
    by (cases t) (simp_all add: emit_def)
qed

text \<open>Here-documents: nothing of such a text is one.\<close>

definition plain_state :: strip_state where
  "plain_state = \<lparr>ss_single = False, ss_double = False, ss_arith = 0, ss_pending = []\<rparr>"

lemma strip_quoted:
  "strip_loop (plain_state\<lparr>ss_single := True\<rparr>) (escaped w @ CHR 39 # rest) = escaped w @ CHR 39 # strip_loop plain_state rest"
proof (induction w)
  case Nil
  then show ?case by (simp add: plain_state_def)
next
  case (Cons c w)
  then show ?case by (simp add: plain_state_def)
qed

lemma strip_free: "list_all quote_free w \<Longrightarrow> strip_loop plain_state (w @ rest) = w @ strip_loop plain_state rest"
proof (induction w)
  case (Cons c w)
  then show ?case by (simp add: quote_free_plain plain_state_def)
qed simp

lemma strip_word: "strip_loop plain_state (shlex_quote w @ rest) = shlex_quote w @ strip_loop plain_state rest"
proof (cases w rule: shlex_quote_cases)
  case 1
  then show ?thesis by (simp add: plain_state_def)
next
  case 2
  then show ?thesis by (simp add: strip_free)
next
  case 3
  have "strip_loop plain_state (CHR 39 # escaped w @ CHR 39 # rest) =
      CHR 39 # strip_loop (plain_state\<lparr>ss_single := True\<rparr>) (escaped w @ CHR 39 # rest)"
    by (simp add: plain_state_def)
  with 3 show ?thesis by (simp add: strip_quoted)
qed

lemma strip_operator:
  assumes "t \<in> set operators" "rest = [] \<or> hd rest = CHR '' ''"
  shows "strip_loop plain_state (t @ rest) = t @ strip_loop plain_state rest"
  using assms by (cases rest) (auto simp: operators_def SHELL_CONTROL_TOKENS_def REDIRECTION_TOKENS_def plain_state_def startswith_def)

lemma strip_token_line: "list_all token_ok ts \<Longrightarrow> strip_loop plain_state (token_line ts) = token_line ts"
proof (induction ts)
  case Nil
  then show ?case by (simp add: token_line_def)
next
  case (Cons t ts)
  let ?rest = "if ts = [] then [] else CHR '' '' # token_line ts"
  have l: "token_line (t # ts) = token_text t @ ?rest"
    by (cases ts) (simp_all add: token_line_def)
  have "strip_loop plain_state ?rest = ?rest"
    using Cons by (simp add: plain_state_def)
  moreover have "?rest = [] \<or> hd ?rest = CHR '' ''" by simp
  ultimately show ?case
    unfolding l using Cons.prems strip_operator [of _ ?rest] strip_word [of _ ?rest] by (cases t) simp_all
qed

lemma heredoc_token_line: "list_all token_ok ts \<Longrightarrow> strip_heredoc_payloads (token_line ts) = token_line ts"
  using strip_token_line by (simp add: strip_heredoc_payloads_def plain_state_def)

section \<open>The structure of a command line\<close>

datatype shell_item = Word string | Redir string string | FdRedir string string string

fun item_tokens :: "shell_item \<Rightarrow> shell_token list" where
  "item_tokens (Word w) = [Wd w]"
| "item_tokens (Redir rd t) = [Op rd, Wd t]"
| "item_tokens (FdRedir n rd t) = [Wd n, Op rd, Wd t]"

definition segment_tokens :: "shell_item list \<Rightarrow> shell_token list" where
  "segment_tokens items = concat (map item_tokens items)"

text \<open>A line: a first segment, then segments that each follow a control operator.\<close>

type_synonym shell_line = "shell_item list \<times> (string \<times> shell_item list) list"

definition line_tokens :: "shell_line \<Rightarrow> shell_token list" where
  "line_tokens l = segment_tokens (fst l) @ concat (map (\<lambda>(sep, items). Op sep # segment_tokens items) (snd l))"

definition line_text :: "shell_line \<Rightarrow> string" where
  "line_text l = token_line (line_tokens l)"

definition line_segments :: "shell_line \<Rightarrow> shell_item list list" where
  "line_segments l = fst l # map snd (snd l)"

text \<open>
  A word is none of the operators, and a word of digits does not stand before a redirection, where it would
  be a descriptor.
\<close>

fun redirects :: "shell_item list \<Rightarrow> bool" where
  "redirects (Redir _ _ # _) = True"
| "redirects _ = False"

fun items_ok :: "shell_item list \<Rightarrow> bool" where
  "items_ok [] = True"
| "items_ok (Word w # items) =
     (w \<notin> set operators \<and> w \<notin> set HEREDOC_TOKENS \<and> (isdigit_str w \<longrightarrow> \<not> redirects items) \<and> items_ok items)"
| "items_ok (Redir rd t # items) = (rd \<in> set REDIRECTION_TOKENS \<and> items_ok items)"
| "items_ok (FdRedir n rd t # items) = (isdigit_str n \<and> rd \<in> set REDIRECTION_TOKENS \<and> items_ok items)"

definition line_ok :: "shell_line \<Rightarrow> bool" where
  "line_ok l \<longleftrightarrow> items_ok (fst l) \<and> list_all (\<lambda>(sep, items). sep \<in> set SHELL_CONTROL_TOKENS \<and> items_ok items) (snd l)"

fun item_target :: "shell_item \<Rightarrow> string list" where
  "item_target (Word w) = []"
| "item_target (Redir rd t) = [t]"
| "item_target (FdRedir n rd t) = [t]"

fun item_word :: "shell_item \<Rightarrow> string list" where
  "item_word (Word w) = [w]"
| "item_word _ = []"

definition segment_targets :: "shell_item list \<Rightarrow> string list" where
  "segment_targets items = concat (map item_target items)"

text \<open>The command of a segment and its arguments: the words after the assignments.\<close>

definition segment_command :: "shell_item list \<Rightarrow> string option \<times> string list" where
  "segment_command items =
     (case dropWhile is_env_assignment_token (concat (map item_word items)) of
        [] \<Rightarrow> (None, []) | c # args \<Rightarrow> (Some c, args))"

definition segment_candidates :: "shell_item list \<Rightarrow> string list" where
  "segment_candidates items =
     segment_targets items @ (case segment_command items of (c, args) \<Rightarrow> command_argument_path_candidates c args)"

fun feed :: "string option \<Rightarrow> string list \<Rightarrow> string list \<Rightarrow> string option \<times> string list" where
  "feed cmd args [] = (cmd, args)"
| "feed None args (w # ws) = feed (if is_env_assignment_token w then None else Some w) args ws"
| "feed (Some c) args (w # ws) = feed (Some c) (args @ [w]) ws"

lemma feed_Some: "feed (Some c) args ws = (Some c, args @ ws)"
  by (induction ws arbitrary: args) auto

lemma feed_start: "feed None [] ws = (case dropWhile is_env_assignment_token ws of [] \<Rightarrow> (None, []) | c # args \<Rightarrow> (Some c, args))"
  by (induction ws) (auto simp: feed_Some)

lemma operator_not_digits: "t \<in> set operators \<Longrightarrow> \<not> isdigit_str t"
  by (auto simp: operators_def SHELL_CONTROL_TOKENS_def REDIRECTION_TOKENS_def isdigit_str_def ch_digit_def ch_code_def)

lemma token_sets:
  "t \<in> set REDIRECTION_TOKENS \<Longrightarrow> t \<notin> set SHELL_CONTROL_TOKENS \<and> t \<notin> set HEREDOC_TOKENS \<and> \<not> isdigit_str t"
  "t \<in> set SHELL_CONTROL_TOKENS \<Longrightarrow> t \<notin> set REDIRECTION_TOKENS"
  "isdigit_str t \<Longrightarrow> t \<notin> set REDIRECTION_TOKENS \<and> t \<notin> set SHELL_CONTROL_TOKENS"
proof -
  have "set REDIRECTION_TOKENS \<inter> set SHELL_CONTROL_TOKENS = {}" "set REDIRECTION_TOKENS \<inter> set HEREDOC_TOKENS = {}"
    by (simp_all add: SHELL_CONTROL_TOKENS_def REDIRECTION_TOKENS_def HEREDOC_TOKENS_def)
  then show "t \<in> set REDIRECTION_TOKENS \<Longrightarrow> t \<notin> set SHELL_CONTROL_TOKENS \<and> t \<notin> set HEREDOC_TOKENS \<and> \<not> isdigit_str t"
    "t \<in> set SHELL_CONTROL_TOKENS \<Longrightarrow> t \<notin> set REDIRECTION_TOKENS"
    "isdigit_str t \<Longrightarrow> t \<notin> set REDIRECTION_TOKENS \<and> t \<notin> set SHELL_CONTROL_TOKENS"
    using operator_not_digits by (auto simp: operators_def)
qed

lemma not_descriptor:
  assumes "items_ok (Word w # items)" "rest = [] \<or> hd rest \<in> set SHELL_CONTROL_TOKENS"
  shows "\<not> is_descriptor w (map token_value (segment_tokens items) @ rest)"
proof (cases items)
  case Nil
  then show ?thesis using assms by (auto simp: is_descriptor_def segment_tokens_def dest: token_sets(2))
next
  case (Cons i its)
  then show ?thesis using assms by (cases i) (auto simp: is_descriptor_def segment_tokens_def operators_def dest: token_sets(3))
qed

lemma candidates_items:
  assumes "rest = [] \<or> hd rest \<in> set SHELL_CONTROL_TOKENS"
  shows "items_ok items \<Longrightarrow> candidates_loop cmd args (map token_value (segment_tokens items) @ rest) =
    segment_targets items @ (case feed cmd args (concat (map item_word items)) of (c, as) \<Rightarrow> candidates_loop c as rest)"
proof (induction items arbitrary: cmd args)
  case Nil
  then show ?case by (simp add: segment_tokens_def segment_targets_def)
next
  case (Cons i items)
  have t: "segment_tokens (j # items) = item_tokens j @ segment_tokens items"
    "segment_targets (j # items) = item_target j @ segment_targets items" for j
    by (simp_all add: segment_tokens_def segment_targets_def)
  show ?case
  proof (cases i)
    case (Word w)
    then show ?thesis
      using Cons not_descriptor [OF _ assms, of w items] by (cases cmd) (simp_all add: t operators_def)
  next
    case (Redir rd u)
    then show ?thesis using Cons token_sets(1) [of rd] by (simp add: t is_descriptor_def)
  next
    case (FdRedir n rd u)
    then show ?thesis using Cons token_sets(1) [of rd] token_sets(3) [of n] by (simp add: t is_descriptor_def)
  qed
qed

lemma segment_candidates_feed:
  "segment_candidates items = segment_targets items @
     (case feed None [] (concat (map item_word items)) of (c, args) \<Rightarrow> command_argument_path_candidates c args)"
  by (simp add: segment_candidates_def segment_command_def feed_start)

lemma candidates_line:
  assumes "line_ok l"
  shows "candidates_loop None [] (map token_value (line_tokens l)) = concat (map segment_candidates (line_segments l))"
proof -
  let ?tail = "\<lambda>segs. map token_value (concat (map (\<lambda>(sep, items). Op sep # segment_tokens items) segs))"
  have h: "?tail segs = [] \<or> hd (?tail segs) \<in> set SHELL_CONTROL_TOKENS"
    if "list_all (\<lambda>(sep, items). sep \<in> set SHELL_CONTROL_TOKENS \<and> items_ok items) segs" for segs
    using that by (cases segs) auto
  have "candidates_loop None [] (map token_value (segment_tokens items) @ ?tail segs) =
      segment_candidates items @ concat (map (segment_candidates \<circ> snd) segs)"
    if "items_ok items" "list_all (\<lambda>(sep, items). sep \<in> set SHELL_CONTROL_TOKENS \<and> items_ok items) segs" for items segs
    using that
  proof (induction segs arbitrary: items)
    case Nil
    then show ?case
      using candidates_items [of "[]" items None "[]"]
      by (simp add: segment_candidates_feed split: prod.splits)
  next
    case (Cons seg segs)
    obtain sep its where seg: "seg = (sep, its)" "sep \<in> set SHELL_CONTROL_TOKENS" "items_ok its"
      using Cons.prems by (cases seg) auto
    have "candidates_loop c as (?tail (seg # segs)) =
        command_argument_path_candidates c as @ segment_candidates its @ concat (map (segment_candidates \<circ> snd) segs)" for c as
      using Cons.IH [of its] Cons.prems seg by (simp add: comp_def)
    then show ?case
      using candidates_items [OF h [OF Cons.prems(2)] Cons.prems(1), of None "[]"] seg
      by (simp add: segment_candidates_feed [of items] comp_def split: prod.splits)
  qed
  from this [of "fst l" "snd l"] assms show ?thesis
    by (simp add: line_ok_def line_tokens_def line_segments_def comp_def)
qed

lemma line_tokens_ok: "line_ok l \<Longrightarrow> list_all token_ok (line_tokens l)"
proof -
  have i: "items_ok items \<Longrightarrow> list_all token_ok (segment_tokens items)" for items
    by (induction items rule: items_ok.induct) (auto simp: segment_tokens_def operators_def)
  assume "line_ok l"
  then show ?thesis
    unfolding line_ok_def line_tokens_def using i by (auto simp: list_all_iff operators_def)
qed

lemma line_scan:
  assumes "line_ok l"
  shows "words_or_split (strip_heredoc_payloads (line_text l)) = map token_value (line_tokens l)"
  using lex_token_line [OF line_tokens_ok [OF assms]] heredoc_token_line [OF line_tokens_ok [OF assms]]
  by (simp add: line_text_def words_or_split_def shlex_split_def)

lemma rmap_Inr_all: "rmap f xs = Inr ys \<Longrightarrow> x \<in> set xs \<Longrightarrow> \<exists>y. f x = Inr y"
  by (induction xs arbitrary: ys) (auto simp: result_simps)

lemma checked_candidate:
  assumes "check_command_paths ce s cmd = Inr ()"
    and "t \<in> set (explicit_command_path_candidates (words_or_split (strip_heredoc_payloads cmd)))"
  shows "check_command_path_candidate ce s t = Inr ()"
  using assms rmap_Inr_all [of "check_command_path_candidate ce s" _ _ t]
  by (fastforce simp: check_command_paths_def Let_def result_simps)

lemma set_segment_candidates:
  assumes "segment_command items = (Some c, args)" "command_name c \<in> set PATH_ARGUMENT_COMMANDS"
    and "t \<in> set args" "is_inspectable_path_argument t"
  shows "t \<in> set (segment_candidates items)"
proof -
  have "c \<noteq> []" using assms(2) command_name_Nil by (auto simp: PATH_ARGUMENT_COMMANDS_def)
  moreover have "command_name c \<noteq> ''env''" using assms(2) by (auto simp: PATH_ARGUMENT_COMMANDS_def)
  ultimately show ?thesis
    using assms by (simp add: segment_candidates_def command_argument_path_candidates.simps [of "Some c"] Let_def)
qed

text \<open>What an accepted path is.\<close>

lemma accepted_candidate:
  assumes "check_command_path_candidate ce s t = Inr ()" and "ws_ok (ce_ws ce)" "fs_is_dir s []" "we_mode (ce_ws ce) \<noteq> ''build''"
  defines "n \<equiv> slashes (strip_str t)"
  shows "strip_str t \<in> {[], ''-'', ''--''} \<or> is_url (strip_str t) \<or> n \<in> set SPECIAL_DEVICE_PATHS \<or>
    (ce_backend ce \<in> {''bwrap'', ''inherited''} \<and> (n = ''/tmp'' \<or> startswith n ''/tmp/'')) \<or>
    (\<exists>p. resolve_lenient (ce_ws ce) s n = Inr p \<and> (prefix (ce_runtime_dir ce) p \<or> under_system_path (we_links (ce_ws ce)) s p)) \<or>
    (\<exists>r. (rt_resolve_existing (ce_ws ce) s n = Inr r \<or> rt_resolve_for_write (ce_ws ce) s n = Inr r) \<and>
       confined (ce_ws ce) s (rp_path r)) \<or>
    (\<exists>e e'. rt_resolve_existing (ce_ws ce) s n = Inl e \<and> rt_resolve_for_write (ce_ws ce) s n = Inl e' \<and>
       failure_code e = Some ''NOT_FOUND'' \<and> failure_code e' = Some ''NOT_FOUND'')"
proof -
  have m: "slashes n = n" by (simp add: n_def slashes_def comp_def)
  have x: "rt_resolve_existing (ce_ws ce) s n = Inr r \<Longrightarrow> confined (ce_ws ce) s (rp_path r)" for r
    using rt_resolve_existingD(6) assms(2-4) by blast
  have y: "rt_resolve_for_write (ce_ws ce) s n = Inr r \<Longrightarrow> confined (ce_ws ce) s (rp_path r)" for r
    using rt_resolve_for_writeD(4) assms(2-4) by blast
  show ?thesis
    using assms(1) x y unfolding check_command_path_candidate_def n_def [symmetric] Let_def is_allowed_command_tmp_path_def
      resolve_or_refuse_def m is_relative_to_def
    by (auto simp: result_simps split: if_splits sum.splits)
qed

section \<open>A line with a here-document\<close>

definition plain_char :: "char \<Rightarrow> bool" where
  "plain_char c \<longleftrightarrow> c \<notin> {CHR 92, CHR 39, CHR 34, CHR ''('', CHR ''<'', CHR 10}"

definition stops_word :: "char \<Rightarrow> bool" where
  "stops_word c \<longleftrightarrow> ch_space c \<or> c \<in> set '';&|>)''"

definition text_lines :: "string list \<Rightarrow> string" where
  "text_lines ls = concat (map (\<lambda>l. l @ [CHR 10]) ls)"

lemma strip_plain:
  assumes "\<not> ss_single st" "\<not> ss_double st" "ss_arith st = 0"
  shows "list_all plain_char p \<Longrightarrow> strip_loop st (p @ rest) = p @ strip_loop st rest"
  using assms by (induction p) (auto simp: plain_char_def)

lemma heredoc_word_free:
  assumes "list_all quote_free d" "rest = [] \<or> stops_word (hd rest)"
  shows "heredoc_word acc (d @ rest) = (rest, acc @ d)"
  using assms
proof (induction d arbitrary: acc)
  case Nil
  show ?case
  proof (cases rest)
    case (Cons c cs)
    with Nil have "stops_word c" by simp
    moreover from this have "\<not> lex_quote c" "c \<noteq> CHR 92"
      by (auto simp: stops_word_def lex_quote_def ch_space_def ch_code_def)
    ultimately show ?thesis using Cons by (auto simp: stops_word_def)
  qed simp
next
  case (Cons c d)
  then have c: "\<not> lex_quote c" "c \<noteq> CHR 92" "\<not> (ch_space c \<or> c \<in> set '';&|<>()'')"
    by (auto simp: quote_free_plain quote_free_def ch_space_def ch_code_def ch_alnum_ascii_def ch_alpha_ascii_def
        ch_upper_ascii_def ch_digit_def)
  then show ?case using Cons by simp
qed

lemma quote_free_not_blank: "quote_free c \<Longrightarrow> c \<noteq> CHR '' '' \<and> c \<noteq> CHR 9 \<and> c \<noteq> CHR 13 \<and> c \<noteq> CHR 10"
  using quote_free_plain(1) [of c] by (auto simp: lex_white_def)

lemma parse_heredoc_free:
  assumes "list_all quote_free d" "d \<noteq> []" "hd d \<noteq> CHR ''-''" "rest = [] \<or> stops_word (hd rest)"
  shows "parse_heredoc_delimiter (d @ rest) = (rest, d, False)"
proof -
  obtain c v where d: "d = c # v" using assms(2) by (cases d) auto
  have "quote_free c" "c \<noteq> CHR ''-''" using assms d by auto
  then have "\<not> startswith (d @ rest) ''-''" "dropWhile (\<lambda>c. c = CHR '' '' \<or> c = CHR 9) (d @ rest) = d @ rest"
    using quote_free_not_blank [of c] by (simp_all add: d startswith_def)
  then show ?thesis
    using heredoc_word_free [OF assms(1,4), of "[]"] by (simp add: parse_heredoc_delimiter_def Let_def)
qed

lemma line_is_free: "list_all quote_free d \<Longrightarrow> line_is d False d"
proof -
  assume f: "list_all quote_free d"
  have "rstrip_by (\<lambda>c. c = CHR 13) d = d"
    using f quote_free_not_blank by (cases d rule: rev_cases) (auto simp: rstrip_by_def)
  then show ?thesis by (simp add: line_is_def)
qed

lemma skip_body_lines:
  assumes "list_all quote_free d" "list_all (\<lambda>l. CHR 10 \<notin> set l \<and> \<not> line_is d False l) body"
  shows "skip_body d False (text_lines body @ d @ CHR 10 # rest) = rest"
proof -
  have step: "skip_body d False (l @ CHR 10 # more) = (if line_is d False l then more else skip_body d False more)"
    if "CHR 10 \<notin> set l" for l more
  proof -
    have "takeWhile (\<lambda>c. c \<noteq> CHR 10) (l @ CHR 10 # more) = l"
      using that by (subst takeWhile_append2) auto
    then show ?thesis by (subst skip_body.simps) (simp add: Let_def)
  qed
  have d: "CHR 10 \<notin> set d" using assms(1) quote_free_not_blank by (auto simp: list_all_iff)
  show ?thesis
    using assms(2)
  proof (induction body)
    case Nil
    then show ?case using step [OF d] line_is_free [OF assms(1)] by (simp add: text_lines_def)
  next
    case (Cons l body)
    then show ?case using step [of l "text_lines body @ d @ CHR 10 # rest"] by (simp add: text_lines_def)
  qed
qed

section \<open>Properties\<close>

definition demo_command_env :: command_env where
  "demo_command_env =
     \<lparr>ce_ws = demo_ws ''plan'', ce_backend = ''bwrap'', ce_runtime_dir = [''r''], ce_which = (\<lambda>_. None), ce_dir_mode = (\<lambda>_. 493)\<rparr>"

text \<open>A line with two segments: an assignment, a command with two arguments and a redirection; then another command.\<close>

definition demo_line :: shell_line where
  "demo_line =
     ([Word ''A=1'', Word ''cat'', Word ''a b.txt'', Word ''it's'', Redir ''>'' ''d/out'', FdRedir ''2'' ''>>'' ''/dev/null''],
      [(''&&'', [Word ''ls'', Word ''./d''])])"

lemma demo_line_ok: "line_ok demo_line"
  by code_simp

text \<open>
  A command given as a list of words is scanned as this list: splitting the text that \<^verbatim>\<open>shlex.join\<close>
  makes gives the words back, whatever characters they have, and no here-document is seen in it.
\<close>

theorem command_list_scanned:
  "shlex_split (strip_heredoc_payloads (shlex_join ws)) = Inr ws"
proof -
  have t: "shlex_join ws = token_line (map Wd ws)" by (simp add: shlex_join_def token_line_def comp_def)
  have o: "list_all token_ok (map Wd ws)" by (simp add: list_all_iff)
  show ?thesis
    unfolding t heredoc_token_line [OF o] shlex_split_def lex_token_line [OF o] by (simp add: comp_def)
qed

text \<open>
  C25: The scan of a command line agrees with the structure of the line.  For segments of words and
  redirections that are joined by control operators and written with quoted words, the paths to inspect
  are, segment by segment, the targets of the redirections and the paths in the arguments of the command
  after its assignments, each once and in the order of their first occurrence.
\<close>

theorem line_scan_exact:
  assumes "line_ok l"
  shows "explicit_command_path_candidates (words_or_split (strip_heredoc_payloads (line_text l))) =
    rev (remdups (rev (concat (map segment_candidates (line_segments l)))))"
  by (simp add: line_scan [OF assms] explicit_command_path_candidates_def candidates_line [OF assms])

theorem line_scan_exact_witness:
  "explicit_command_path_candidates (words_or_split (strip_heredoc_payloads (line_text demo_line))) =
     [''d/out'', ''/dev/null'', ''a b.txt'', ''./d'']"
proof -
  have "rev (remdups (rev (concat (map segment_candidates (line_segments demo_line))))) = [''d/out'', ''/dev/null'', ''a b.txt'', ''./d'']"
    by code_simp
  then show ?thesis using line_scan_exact [OF demo_line_ok] by simp
qed



text \<open>
  The body of a here-document is not scanned, and nothing else is lost: the line with the operator stays
  as it is, with what follows the delimiter on it, and the text after the closing delimiter is scanned on.
\<close>

theorem heredoc_body_removed:
  assumes "list_all plain_char p" "list_all plain_char q" "q = [] \<or> stops_word (hd q)"
    and "list_all quote_free d" "d \<noteq> []" "hd d \<noteq> CHR ''-''"
    and "list_all (\<lambda>l. CHR 10 \<notin> set l \<and> \<not> line_is d False l) body"
  shows "strip_heredoc_payloads (p @ ''<<'' @ d @ q @ CHR 10 # text_lines body @ d @ CHR 10 # rest) =
    p @ ''<<'' @ d @ q @ CHR 10 # strip_loop plain_state rest"
proof -
  let ?tail = "CHR 10 # text_lines body @ d @ CHR 10 # rest"
  let ?st = "plain_state\<lparr>ss_pending := [(d, False)]\<rparr>"
  let ?text = "p @ ''<<'' @ d @ q @ ?tail"
  have r: "q @ ?tail = [] \<or> stops_word (hd (q @ ?tail))"
    using assms(3) by (cases q) (auto simp: stops_word_def ch_space_def ch_code_def)
  obtain c v where d: "d = c # v" using assms(5) by (cases d) auto
  then have "c \<noteq> CHR ''<''" using assms(4) quote_free_plain(8) [of c] by auto
  then have "strip_loop plain_state (''<<'' @ d @ q @ ?tail) = ''<<'' @ d @ strip_loop ?st (q @ ?tail)"
    using parse_heredoc_free [OF assms(4,5,6) r] d by (simp add: plain_state_def startswith_def numeral_3_eq_3)
  moreover have "strip_loop ?st (q @ ?tail) = q @ strip_loop ?st ?tail"
    using assms(2) by (intro strip_plain) (simp_all add: plain_state_def)
  moreover have "strip_loop ?st ?tail = CHR 10 # strip_loop plain_state rest"
    using skip_body_lines [OF assms(4,7)] by (simp add: plain_state_def skip_bodies_def)
  moreover have "strip_loop plain_state ?text = p @ strip_loop plain_state (''<<'' @ d @ q @ ?tail)"
    using assms(1) by (intro strip_plain) (simp_all add: plain_state_def)
  moreover have "find_sub ?text ''<<'' \<noteq> None"
    using find_sub_None [of ?text "''<<''" "length p"] by (auto simp: startswith_def)
  then have "strip_heredoc_payloads ?text = strip_loop plain_state ?text"
    by (simp only: strip_heredoc_payloads_def plain_state_def if_False)
  ultimately show ?thesis by simp
qed

theorem heredoc_body_removed_witness:
  "strip_heredoc_payloads (''cat <<EOF > d/x'' @ CHR 10 # text_lines [''rm /s''] @ ''EOF'' @ CHR 10 # ''ls'') =
     ''cat <<EOF > d/x'' @ CHR 10 # ''ls''"
proof -
  have "list_all plain_char ''cat ''" "list_all plain_char '' > d/x''" "stops_word (hd '' > d/x'')" "list_all quote_free ''EOF''"
    "list_all (\<lambda>l. CHR 10 \<notin> set l \<and> \<not> line_is ''EOF'' False l) [''rm /s'']" "strip_loop plain_state ''ls'' = ''ls''"
    by code_simp+
  then show ?thesis using heredoc_body_removed [of "''cat ''" "'' > d/x''" "''EOF''" "[''rm /s'']" "''ls''"] by simp
qed

section \<open>Limits of the scan\<close>

text \<open>
  The same path, refused in a plain command, passes when the shell and the scan read the text differently:
  a new line does not separate commands for the scan; a run of operators is one unknown token; a number
  sign inside a word starts a comment; in a comment \<^verbatim>\<open><<\<close> hides the lines that follow; a quoted operator
  ends the segment; and the prefix \<^verbatim>\<open>/tmp/\<close> is not normalized.
\<close>

lemma scan_limits:
  "check_command_paths demo_command_env demo_tree ''cat /s'' = Inl (escape_failure ''/s'')"
  "check_command_paths demo_command_env demo_tree (''true'' @ CHR 10 # ''cat /s'') = Inr ()"
  "check_command_paths demo_command_env demo_tree ''true;(cat /s)'' = Inr ()"
  "check_command_paths demo_command_env demo_tree ''echo a#b; cat /s'' = Inr ()"
  "check_command_paths demo_command_env demo_tree (''cat a # <<E'' @ CHR 10 # ''cat /s'') = Inr ()"
  "check_command_paths demo_command_env demo_tree (''cat '' @ [CHR 39, CHR '';'', CHR 39] @ '' /s'') = Inr ()"
  "check_command_paths demo_command_env demo_tree ''cat /tmp/../s'' = Inr ()"
  by code_simp+

text \<open>In a working directory with the set-group-id bit, a command that is not found as a file is refused.\<close>

lemma setgid_directory_refused:
  "check_command_paths (demo_command_env\<lparr>ce_dir_mode := \<lambda>_. 1533\<rparr>) demo_tree ''cd d'' =
     Inl (tool_failure_with ''PERMISSION_REQUIRED'' ''permission''
       [(''permission'', JStr ''privileged_executable''), (''path'', JStr ''.'')])"
  by code_simp

end
