(* ===== verification/StateSnapshot.thy ===== *)
theory StateSnapshot
  imports GitTools Policy Urls
begin

unbundle bit_operations_syntax

text \<open>
  The snapshot of a branch (\<^verbatim>\<open>state_snapshot.py\<close>, \<^verbatim>\<open>state_remote.py\<close>): what git says of the branch, the index
  and the changed paths, and the evidence of the work tree.  A snapshot is a JSON object.

  \<^item> Git is the parameter of \<open>GitTools\<close>.  Names of files are the bytes POSIX sees, as in \<open>Workspace\<close>;
    Python orders names that are not UTF-8 differently.
  \<^item> SHA-256 and the two digests over the canonical JSON text of descriptors and snapshots are fields of
    \<open>snapshot_env\<close>; the trees have no symbolic links and reading a file that is there does not fail.
\<close>

section \<open>Queries\<close>

record snapshot_env =
  sn_sha256 :: "string \<Rightarrow> string"
  sn_evidence :: "json list \<Rightarrow> string"
  sn_fingerprint :: "json \<Rightarrow> string"
  sn_bracketed :: "string \<Rightarrow> bool"

definition TimeoutExpired :: pyexn where
  "TimeoutExpired = RuntimeError ''TimeoutExpired''"

definition process_trouble :: "pyexn \<Rightarrow> bool" where
  "process_trouble e \<longleftrightarrow> e \<in> {OSError, FileNotFoundError, FileExistsError, TimeoutExpired}"

definition git_text :: "'r git_setting \<Rightarrow> path \<Rightarrow> string list \<Rightarrow> (string option, 'r) git" where
  "git_text ge project words =
     (case ge_git ge of None \<Rightarrow> io_return None
      | Some git \<Rightarrow>
          io_catch (io_bind (run_git ge (git # ''-C'' # abs_text project # words)) (\<lambda>out.
              io_return (if go_code out = 0 then Some (strip_str (go_stdout out)) else None)))
            (\<lambda>e. if process_trouble e \<or> failure_code e \<noteq> None then io_return None else io_raise e))"

definition git_bytes :: "'r git_setting \<Rightarrow> path \<Rightarrow> string list \<Rightarrow> (bytes option, 'r) git" where
  "git_bytes ge project words =
     (case ge_git ge of None \<Rightarrow> io_return None
      | Some git \<Rightarrow>
          io_catch (io_bind (run_git ge (git # ''-C'' # abs_text project # words)) (\<lambda>out.
              io_return (if go_code out = 0 then Some (go_bytes out) else None)))
            (\<lambda>e. if process_trouble e then io_return None else io_raise e))"

definition byte_name :: "bytes \<Rightarrow> string" where
  "byte_name bs = map (\<lambda>b. char_of (unat b)) bs"

definition name_bytes :: "string \<Rightarrow> bytes" where
  "name_bytes t = map (\<lambda>c. of_nat (ch_code c)) t"

definition git_paths :: "'r git_setting \<Rightarrow> path \<Rightarrow> string list \<Rightarrow> (string list, 'r) git" where
  "git_paths ge project words =
     io_bind (git_bytes ge project words) (\<lambda>out.
       io_return (case out of None \<Rightarrow> []
         | Some bs \<Rightarrow> map byte_name (filter (\<lambda>item. item \<noteq> []) (split_on 0 bs))))"

section \<open>The remote without credentials\<close>

definition removesuffix :: "string \<Rightarrow> string \<Rightarrow> string" where
  "removesuffix t x = (if x \<noteq> [] \<and> endswith t x then take (length t - length x) t else t)"

text \<open>\<^verbatim>\<open>^[^/@:]+@[^:]+:.+$\<close>: the host and the path.\<close>

definition scp_remote :: "string \<Rightarrow> (string \<times> string) option" where
  "scp_remote v =
     (let user = takeWhile (\<lambda>c. c \<notin> set ''/@:'') v; rest = drop (length user) v;
          host = takeWhile (\<lambda>c. c \<noteq> CHR '':'') (tl rest); p = drop (Suc (length host)) (tl rest) in
      if user \<noteq> [] \<and> startswith rest ''@'' \<and> host \<noteq> [] \<and> p \<noteq> [] \<and> CHR 10 \<notin> set p then Some (host, p) else None)"

definition sanitize_repo_url :: "snapshot_env \<Rightarrow> string option \<Rightarrow> string option result" where
  "sanitize_repo_url se raw =
     (case raw of None \<Rightarrow> Inr None
      | Some r \<Rightarrow>
          let value = strip_str r in
          if value = [] then Inr None
          else (case scp_remote value of
              Some (host, p) \<Rightarrow> Inr (Some (host @ ''/'' @ removesuffix p ''.git''))
            | None \<Rightarrow>
                rbind (urlsplit (sn_bracketed se) value) (\<lambda>parsed.
                if sr_scheme parsed \<noteq> [] \<and> sr_netloc parsed \<noteq> [] then
                  (let host = (case hostname (sr_netloc parsed) of
                         Some h \<Rightarrow> h | None \<Rightarrow> last (split_on (CHR ''@'') (sr_netloc parsed))) in
                   rbind (url_port (sr_netloc parsed)) (\<lambda>port.
                   Inr (Some ((case port of Some n \<Rightarrow> if n = 0 then host else host @ '':'' @ nat_str n | None \<Rightarrow> host) @
                              removesuffix (sr_path parsed) ''.git''))))
                else Inr (Some (removesuffix value ''.git'')))))"

section \<open>Paths and contents\<close>

definition MAX_HASH_BYTES :: nat where
  "MAX_HASH_BYTES = 2 * 1024 * 1024"

definition utf8_name :: "string \<Rightarrow> bool" where
  "utf8_name t = (case py_decode (name_bytes t) of Inr _ \<Rightarrow> True | Inl _ \<Rightarrow> False)"

text \<open>A sensitive name appears as a hash; \<^verbatim>\<open>path.encode()\<close> refuses a name that is not UTF-8.\<close>

definition inventory_key :: "snapshot_env \<Rightarrow> string \<Rightarrow> string result" where
  "inventory_key se p =
     (if sensitive_raw_path_reason p = None then Inr p
      else if utf8_name p then Inr (''sensitive:'' @ take 16 (sn_sha256 se p))
      else Inl UnicodeEncodeError)"

definition sorted_set :: "string list \<Rightarrow> string list" where
  "sorted_set xs = sort (remdups xs)"

definition inventory :: "snapshot_env \<Rightarrow> string list \<Rightarrow> string list result" where
  "inventory se ps = rbind (rmap (inventory_key se) ps) (\<lambda>ks. Inr (sorted_set ks))"

definition below :: "path \<Rightarrow> string \<Rightarrow> path" where
  "below project rel = project @ path_parts rel"

definition content_hashes :: "snapshot_env \<Rightarrow> fs \<Rightarrow> path \<Rightarrow> string list \<Rightarrow> obj" where
  "content_hashes se s project ps =
     concat (map (\<lambda>rel.
       if sensitive_raw_path_reason rel \<noteq> None then []
       else (case file_at s (below project rel) of
           Some (d, _) \<Rightarrow> if MAX_HASH_BYTES < length d then [] else [(rel, JStr (sn_sha256 se (byte_name d)))]
         | None \<Rightarrow> [])) (sorted_set ps))"

text \<open>The descriptor of one path, and whether it accounts for the whole content.\<close>

definition path_descriptor :: "snapshot_env \<Rightarrow> fs \<Rightarrow> path \<Rightarrow> string \<Rightarrow> (json \<times> bool) result" where
  "path_descriptor se s project rel =
     rbind (inventory_key se rel) (\<lambda>key.
     Inr (case map_of s (below project rel) of
        None \<Rightarrow> (JObj [(''path'', JStr key), (''type'', JStr ''missing'')], True)
      | Some (File d m) \<Rightarrow>
          (JObj [(''path'', JStr key), (''executable'', JBool (m AND 73 \<noteq> 0)), (''type'', JStr ''regular''),
                 (''size'', JInt (int (length d))),
                 (''content_hash'', if MAX_HASH_BYTES < length d then JNull else JStr (sn_sha256 se (byte_name d)))],
           length d \<le> MAX_HASH_BYTES)
      | Some Dir \<Rightarrow> (JObj [(''path'', JStr key), (''executable'', JBool True), (''type'', JStr ''directory'')], False)))"

definition worktree_state_evidence :: "snapshot_env \<Rightarrow> fs \<Rightarrow> path \<Rightarrow> string list \<Rightarrow> (string \<times> bool) result" where
  "worktree_state_evidence se s project ps =
     rbind (rmap (path_descriptor se s project) (sorted_set ps)) (\<lambda>ds.
       Inr (sn_evidence se (map fst ds), list_all snd ds))"

section \<open>Comparison\<close>

definition DRIFT_FIELDS :: "string list" where
  "DRIFT_FIELDS =
     [''branch'', ''local_head'', ''upstream'', ''dirty_paths'', ''staged_paths'', ''untracked_paths'', ''content_hashes'',
      ''index_state_hash'', ''worktree_state_hash'', ''worktree_state_complete'']"

definition state_fingerprint_complete :: "obj \<Rightarrow> bool" where
  "state_fingerprint_complete snap \<longleftrightarrow>
     \<not> json_falsy (obj_get snap ''index_state_hash'') \<and> \<not> json_falsy (obj_get snap ''worktree_state_complete'')"

text \<open>
  Python's equality of a stored value with a value of a snapshot, whose lists and dictionaries hold strings
  only: dictionaries are compared without their order.
\<close>

definition field_eq :: "json \<Rightarrow> json \<Rightarrow> bool" where
  "field_eq a b =
     (case (a, b) of
        (JObj x, JObj y) \<Rightarrow> set (keys x) = set (keys y) \<and> list_all (\<lambda>k. py_eq (obj_get x k) (obj_get y k)) (keys x)
      | _ \<Rightarrow> py_eq a b)"

definition compare_snapshots :: "obj \<Rightarrow> obj \<Rightarrow> obj" where
  "compare_snapshots expected actual =
     map (\<lambda>f. (f, JObj [(''expected'', obj_get expected f), (''actual'', obj_get actual f)]))
       (filter (\<lambda>f. \<not> field_eq (obj_get expected f) (obj_get actual f)) DRIFT_FIELDS)"

text \<open>The canonical text is encoded strictly: a name that is not UTF-8 has no encoding.\<close>

definition encodable :: "json \<Rightarrow> bool" where
  "encodable v =
     (case v of JStr t \<Rightarrow> utf8_name t
      | JList xs \<Rightarrow> list_all (\<lambda>x. case x of JStr t \<Rightarrow> utf8_name t | _ \<Rightarrow> True) xs
      | JObj kvs \<Rightarrow> list_all (\<lambda>(k, x). utf8_name k \<and> (case x of JStr t \<Rightarrow> utf8_name t | _ \<Rightarrow> True)) kvs
      | _ \<Rightarrow> True)"

definition state_fingerprint :: "snapshot_env \<Rightarrow> obj \<Rightarrow> string result" where
  "state_fingerprint se snap =
     (if list_all (\<lambda>f. encodable (obj_get snap f)) DRIFT_FIELDS
      then Inr (sn_fingerprint se (JObj (map (\<lambda>f. (f, obj_get snap f)) DRIFT_FIELDS)))
      else Inl UnicodeEncodeError)"

section \<open>The snapshot\<close>

definition str_or_null :: "string option \<Rightarrow> json" where
  "str_or_null x = (case x of None \<Rightarrow> JNull | Some t \<Rightarrow> JStr t)"

definition nonempty_or_none :: "string option \<Rightarrow> string option" where
  "nonempty_or_none x = (case x of Some [] \<Rightarrow> None | _ \<Rightarrow> x)"

text \<open>\<^verbatim>\<open>raw.split("\x1f", 4)\<close> and the record of the last commit.\<close>

definition last_commit :: "string option \<Rightarrow> json" where
  "last_commit raw =
     (case nonempty_or_none raw of None \<Rightarrow> JNull
      | Some r \<Rightarrow>
          let fields = split_on (CHR 31) r in
          if length fields < 5 then JNull
          else JObj
            [(''sha'', JStr (fields ! 0)), (''parents'', JList (map JStr (split_words (fields ! 1)))),
             (''author'', JStr (fields ! 2)), (''author_date'', JStr (fields ! 3)),
             (''subject'', JStr (join [CHR 31] (drop 4 fields)))])"

record snapshot_args =
  sa_project_id :: "string option"
  sa_version :: string
  sa_sha :: "string option"
  sa_protocol :: string
  sa_writer :: "string option"
  sa_task :: "string option"
  sa_push_verified :: "bool option"
  sa_remote_head :: "string option"
  sa_timestamp :: string

definition str_list :: "string list \<Rightarrow> json" where
  "str_list xs = JList (map JStr xs)"

definition snapshot_object ::
    "snapshot_args \<Rightarrow> string option \<Rightarrow> string option \<Rightarrow> string option \<Rightarrow> string option \<Rightarrow> string option \<Rightarrow>
     string list \<Rightarrow> string list \<Rightarrow> string list \<Rightarrow> obj \<Rightarrow> string option \<Rightarrow> string \<times> bool \<Rightarrow> string option \<Rightarrow> obj" where
  "snapshot_object sa repo branch head upstream tracking dirty staged untracked hashes index_hash evidence last_raw =
     [(''repo'', str_or_null repo), (''project_id'', str_or_null (sa_project_id sa)), (''branch'', str_or_null branch),
      (''local_head'', str_or_null head), (''upstream'', str_or_null upstream),
      (''remote_head'', str_or_null (sa_remote_head sa)), (''remote_tracking_head'', str_or_null tracking),
      (''pr_number'', JNull), (''pr_head'', JNull), (''dirty_paths'', str_list dirty), (''staged_paths'', str_list staged),
      (''untracked_paths'', str_list untracked), (''content_hashes'', JObj hashes),
      (''index_state_hash'', str_or_null index_hash), (''worktree_state_hash'', JStr (fst evidence)),
      (''worktree_state_complete'', JBool (snd evidence)), (''last_commit'', last_commit last_raw),
      (''push_verified'', case sa_push_verified sa of None \<Rightarrow> JNull | Some b \<Rightarrow> JBool b),
      (''workflow_runs_by_sha'', JObj []), (''job_ids'', JList []), (''attempts'', JList []), (''pending_failures'', JList []),
      (''installed_service_version'', JStr (sa_version sa)), (''installed_service_git_sha'', str_or_null (sa_sha sa)),
      (''protocol_version'', JStr (sa_protocol sa)), (''writer_owner'', str_or_null (sa_writer sa)),
      (''logical_task'', str_or_null (sa_task sa)), (''timestamp'', JStr (sa_timestamp sa))]"

definition upstream_of :: "'r git_setting \<Rightarrow> path \<Rightarrow> string option \<Rightarrow> (string option, 'r) git" where
  "upstream_of ge project branch =
     (case branch of None \<Rightarrow> io_return None
      | Some b \<Rightarrow>
          io_bind (git_text ge project [''for-each-ref'', ''--format=%(upstream:short)'', ''refs/heads/'' @ b]) (\<lambda>u.
          io_return (nonempty_or_none u)))"

definition tracking_head :: "'r git_setting \<Rightarrow> path \<Rightarrow> string option \<Rightarrow> (string option, 'r) git" where
  "tracking_head ge project upstream =
     (case upstream of None \<Rightarrow> io_return None | Some u \<Rightarrow> git_text ge project [''rev-parse'', u])"

definition collect_state_snapshot ::
    "'r git_setting \<Rightarrow> snapshot_env \<Rightarrow> path \<Rightarrow> snapshot_args \<Rightarrow> (obj, 'r) git" where
  "collect_state_snapshot ge se project sa =
     io_bind (git_text ge project [''branch'', ''--show-current'']) (\<lambda>b.
     let branch = nonempty_or_none b in
     io_bind (git_text ge project [''rev-parse'', ''HEAD'']) (\<lambda>head.
     io_bind (upstream_of ge project branch) (\<lambda>upstream.
     io_bind (tracking_head ge project upstream) (\<lambda>tracking.
     io_bind (git_paths ge project [''diff'', ''--name-only'', ''-z'']) (\<lambda>unstaged.
     io_bind (git_paths ge project [''diff'', ''--cached'', ''--name-only'', ''-z'']) (\<lambda>staged.
     io_bind (git_paths ge project [''ls-files'', ''--others'', ''--exclude-standard'', ''-z'']) (\<lambda>untracked.
     io_bind (lift_r (inventory se (unstaged @ staged))) (\<lambda>dirty_paths.
     io_bind (lift_r (inventory se staged)) (\<lambda>staged_paths.
     io_bind (lift_r (inventory se untracked)) (\<lambda>untracked_paths.
     io_bind (reads (\<lambda>s. Inr (content_hashes se s project (unstaged @ staged @ untracked)))) (\<lambda>hashes.
     io_bind (git_bytes ge project [''ls-files'', ''--stage'', ''-z'']) (\<lambda>index.
     io_bind (reads (\<lambda>s. worktree_state_evidence se s project (unstaged @ staged @ untracked))) (\<lambda>evidence.
     io_bind (git_text ge project [''remote'', ''get-url'', ''origin'']) (\<lambda>url.
     io_bind (lift_r (sanitize_repo_url se url)) (\<lambda>repo.
     io_bind (git_text ge project [''log'', ''-1'', ''--format=%H%x1f%P%x1f%an%x1f%aI%x1f%s'']) (\<lambda>last_raw.
     io_return (snapshot_object sa repo branch head upstream tracking dirty_paths staged_paths untracked_paths hashes
       (map_option (\<lambda>bs. sn_sha256 se (byte_name bs)) index) evidence last_raw)))))))))))))))))"

definition verify_remote_branch_head ::
    "'r git_setting \<Rightarrow> path \<Rightarrow> string \<Rightarrow> string \<Rightarrow> (bool \<times> string option \<times> string option, 'r) git" where
  "verify_remote_branch_head ge project branch remote =
     io_bind (git_text ge project [''rev-parse'', ''HEAD'']) (\<lambda>local_head.
     io_bind (git_text ge project [''ls-remote'', ''--heads'', remote, ''refs/heads/'' @ branch]) (\<lambda>line.
     let remote_head = (case nonempty_or_none line of None \<Rightarrow> None | Some l \<Rightarrow> Some (hd (split_words l))) in
     io_return (nonempty_or_none local_head \<noteq> None \<and> remote_head = local_head, local_head, remote_head)))"

definition filter_ci_runs_for_sha :: "(json \<Rightarrow> string) \<Rightarrow> string \<Rightarrow> obj list \<Rightarrow> obj list \<times> obj list" where
  "filter_ci_runs_for_sha other sha runs =
     partition (\<lambda>run. (let v = obj_get run ''commit_sha'' in if json_falsy v then [] else py_str other v) = sha) runs"

section \<open>The installed build\<close>

definition is_commit_sha :: "string \<Rightarrow> bool" where
  "is_commit_sha t \<longleftrightarrow> length t = 40 \<and> list_all (\<lambda>c. c \<in> set ''0123456789abcdef'') t"

text \<open>\<^verbatim>\<open>tomllib.load\<close> of the configuration file is an argument; a missing or unreadable file gives no data.\<close>

definition read_build_identity :: "(json \<Rightarrow> string) \<Rightarrow> obj option \<Rightarrow> string \<Rightarrow> string \<Rightarrow> string option \<Rightarrow> obj" where
  "read_build_identity other config package_version protocol_version env_sha =
     (let dat = (case config of Some d \<Rightarrow> d | None \<Rightarrow> []);
          configured = (let v = obj_get dat ''installed_runtime_sha'' in if json_falsy v then [] else py_str other v);
          raw = (case nonempty_or_none env_sha of Some t \<Rightarrow> t | None \<Rightarrow> configured);
          sha = lower_str (strip_str raw);
          shown = (if is_commit_sha sha then JStr sha else JNull) in
      [(''package_version'', JStr package_version), (''git_sha'', shown), (''build_sha'', shown),
       (''build_install_timestamp'', obj_get dat ''installed_runtime_installed_at''),
       (''source_repo'', obj_get dat ''installed_runtime_source_repo''),
       (''source_branch'', obj_get dat ''installed_runtime_branch''),
       (''dirty_build'', obj_get dat ''installed_runtime_dirty_build''),
       (''development_mode'', JBool (bool_arg dat ''installed_runtime_development_mode'' False)),
       (''protocol_version'', JStr protocol_version)])"

section \<open>Two snapshots of one tree\<close>

text \<open>
  The queries of a snapshot, exactly as they are issued.  Git documents that they report and do not change files,
  references or the entries of the index (a refreshed cache of file times is no part of the repository state of
  the model); this is a hypothesis on the parameter.
\<close>

definition reading :: "string list \<Rightarrow> bool" where
  "reading words \<longleftrightarrow>
     words \<in> {[''branch'', ''--show-current''], [''remote'', ''get-url'', ''origin''], [''diff'', ''--name-only'', ''-z''],
       [''diff'', ''--cached'', ''--name-only'', ''-z''], [''ls-files'', ''--others'', ''--exclude-standard'', ''-z''],
       [''ls-files'', ''--stage'', ''-z''], [''log'', ''-1'', ''--format=%H%x1f%P%x1f%an%x1f%aI%x1f%s'']} \<or>
     (\<exists>revision. words = [''rev-parse'', revision]) \<or>
     (\<exists>b. words = [''for-each-ref'', ''--format=%(upstream:short)'', ''refs/heads/'' @ b])"

definition queries_read_only :: "'r git_setting \<Rightarrow> bool" where
  "queries_read_only ge \<longleftrightarrow>
     (\<forall>git dir words s r. ge_git ge = Some git \<longrightarrow> reading words \<longrightarrow>
        snd (ge_run ge (git_env ge) (git # ''-C'' # dir # words) s r) = (s, r))"

definition same_tree :: "('r, 'z) git_world_scheme \<Rightarrow> ('r, 'y) git_world_scheme \<Rightarrow> bool" where
  "same_tree w v \<longleftrightarrow> w_fs w = w_fs v \<and> gw_repo w = gw_repo v"

text \<open>Two programs that only look at the tree: on the same tree their results are related.\<close>

definition agree :: "('a \<Rightarrow> 'b \<Rightarrow> bool) \<Rightarrow> ('a, 'r) git \<Rightarrow> ('b, 'r) git \<Rightarrow> bool" where
  "agree R m n \<longleftrightarrow>
     (\<forall>w v. same_tree w v \<longrightarrow>
        rel_sum (=) R (fst (m w)) (fst (n v)) \<and> same_tree w (snd (m w)) \<and> same_tree v (snd (n v)))"

lemma same_tree_refl [simp]: "same_tree w w"
  by (simp add: same_tree_def)

lemma same_tree_sym: "same_tree w v \<Longrightarrow> same_tree v w"
  by (simp add: same_tree_def)

lemma same_tree_trans: "same_tree u v \<Longrightarrow> same_tree v w \<Longrightarrow> same_tree u w"
  by (simp add: same_tree_def)

lemma agree_Inr:
  assumes "agree R m n" "same_tree w v" "m w = (Inr x, w')" "n v = (Inr y, v')"
  shows "R x y"
proof -
  have "rel_sum (=) R (fst (m w)) (fst (n v))" using assms(1,2) by (simp add: agree_def)
  with assms(3,4) show ?thesis by simp
qed

lemma agree_bind:
  assumes "agree (=) m m" "\<And>x. agree S (f x) (g x)"
  shows "agree S (io_bind m f) (io_bind m g)"
  unfolding agree_def
proof (intro allI impI)
  fix w v :: "'b git_world"
  assume "same_tree w v"
  then have a: "rel_sum (=) (=) (fst (m w)) (fst (m v))" "same_tree w (snd (m w))" "same_tree v (snd (m v))"
    using assms(1) by (auto simp: agree_def)
  have s: "same_tree (snd (m w)) (snd (m v))"
    using \<open>same_tree w v\<close> a by (meson same_tree_sym same_tree_trans)
  obtain r w1 where m: "m w = (r, w1)" by fastforce
  obtain r' v1 where m': "m v = (r', v1)" by fastforce
  have r: "r' = r" using a(1) m m' by (simp add: sum.rel_eq)
  show "rel_sum (=) S (fst (io_bind m f w)) (fst (io_bind m g v)) \<and>
    same_tree w (snd (io_bind m f w)) \<and> same_tree v (snd (io_bind m g v))"
  proof (cases r)
    case (Inl e)
    with a m m' r show ?thesis by (simp add: io_bind_def)
  next
    case (Inr x)
    have "rel_sum (=) S (fst (f x w1)) (fst (g x v1))" "same_tree w1 (snd (f x w1))" "same_tree v1 (snd (g x v1))"
      using assms(2) [of x] s m m' by (auto simp: agree_def)
    with a m m' r Inr show ?thesis by (auto simp: io_bind_def intro: same_tree_trans)
  qed
qed

lemma agree_simple:
  "R x y \<Longrightarrow> agree R (io_return x) (io_return y)" "agree (=) (lift_r q) (lift_r q)" "agree (=) (reads h) (reads h)"
  by (auto simp: agree_def io_return_def lift_r_def reads_def same_tree_def sum.rel_eq)

lemma agree_run:
  assumes "queries_read_only ge" "reading words" "ge_git ge = Some git"
  shows "agree (=) (run_git ge (git # ''-C'' # dir # words)) (run_git ge (git # ''-C'' # dir # words))"
proof -
  have q: "snd (ge_run ge (git_env ge) (git # ''-C'' # dir # words) s r) = (s, r)" for s r
    using assms by (simp add: queries_read_only_def)
  have "same_tree w (snd (run_git ge (git # ''-C'' # dir # words) w))" for w
    using q [of "w_fs w" "gw_repo w"] by (auto simp: run_git_def same_tree_def split: prod.splits)
  moreover have "fst (run_git ge (git # ''-C'' # dir # words) w) = fst (run_git ge (git # ''-C'' # dir # words) v)"
    if "same_tree w v" for w v
    using that by (auto simp: run_git_def same_tree_def split: prod.splits)
  ultimately show ?thesis by (auto simp: agree_def sum.rel_eq)
qed

lemma agree_catch:
  assumes "agree (=) m m" "\<And>e. agree (=) (h e) (h e)"
  shows "agree (=) (io_catch m h) (io_catch m h)"
proof -
  have "rel_sum (=) (=) (fst (io_catch m h w)) (fst (io_catch m h v)) \<and>
    same_tree w (snd (io_catch m h w)) \<and> same_tree v (snd (io_catch m h v))" if wv: "same_tree w v" for w v
  proof -
    have a: "fst (m w) = fst (m v)" "same_tree w (snd (m w))" "same_tree v (snd (m v))"
      using assms(1) wv by (auto simp: agree_def sum.rel_eq)
    have s: "same_tree (snd (m w)) (snd (m v))" using wv a by (meson same_tree_sym same_tree_trans)
    show ?thesis
    proof (cases "fst (m v)")
      case (Inl e)
      have "fst (h e (snd (m w))) = fst (h e (snd (m v)))" "same_tree (snd (m w)) (snd (h e (snd (m w))))"
        "same_tree (snd (m v)) (snd (h e (snd (m v))))"
        using assms(2) [of e] s by (auto simp: agree_def sum.rel_eq)
      with a Inl show ?thesis
        by (auto simp: io_catch_def sum.rel_eq split: prod.splits intro: same_tree_trans)
    next
      case (Inr x)
      with a show ?thesis by (auto simp: io_catch_def sum.rel_eq split: prod.splits)
    qed
  qed
  then show ?thesis by (simp add: agree_def)
qed

lemma agree_raise: "agree R (io_raise e) (io_raise e)"
  by (auto simp: agree_def io_raise_def)

lemma agree_queries:
  assumes "queries_read_only ge" "reading words"
  shows "agree (=) (git_text ge project words) (git_text ge project words)"
    "agree (=) (git_bytes ge project words) (git_bytes ge project words)"
    "agree (=) (git_paths ge project words) (git_paths ge project words)"
proof -
  show "agree (=) (git_text ge project words) (git_text ge project words)"
    unfolding git_text_def
    by (auto split: option.splits intro!: agree_catch agree_bind agree_run [OF assms] agree_simple agree_raise)
  show b: "agree (=) (git_bytes ge project words) (git_bytes ge project words)"
    unfolding git_bytes_def
    by (auto split: option.splits intro!: agree_catch agree_bind agree_run [OF assms] agree_simple agree_raise)
  show "agree (=) (git_paths ge project words) (git_paths ge project words)"
    unfolding git_paths_def by (intro agree_bind b agree_simple refl)
qed

lemma agree_upstream:
  assumes "queries_read_only ge"
  shows "agree (=) (upstream_of ge project b) (upstream_of ge project b)" "agree (=) (tracking_head ge project u) (tracking_head ge project u)"
  unfolding upstream_of_def tracking_head_def using assms
  by (auto split: option.splits intro!: agree_bind agree_queries agree_simple simp: reading_def)

lemma py_eq_refl [simp]: "py_eq v v"
  by (simp add: py_eq_def split: option.splits)

lemma field_eq_refl [simp]: "field_eq v v"
  by (auto simp: field_eq_def list_all_iff split: json.splits)

definition no_drift :: "obj \<Rightarrow> obj \<Rightarrow> bool" where
  "no_drift s t \<longleftrightarrow> list_all (\<lambda>f. obj_get s f = obj_get t f) DRIFT_FIELDS"

lemma no_drift_compare: "no_drift s t \<Longrightarrow> compare_snapshots s t = []"
  by (simp add: no_drift_def compare_snapshots_def list_all_iff)

lemma no_drift_fingerprint: "no_drift s t \<Longrightarrow> state_fingerprint se s = state_fingerprint se t"
proof -
  assume "no_drift s t"
  then have e: "obj_get s f = obj_get t f" if "f \<in> set DRIFT_FIELDS" for f
    using that by (simp add: no_drift_def list_all_iff)
  have "map (\<lambda>f. (f, obj_get s f)) DRIFT_FIELDS = map (\<lambda>f. (f, obj_get t f)) DRIFT_FIELDS"
    using e by (intro map_cong) auto
  moreover have "list_all (\<lambda>f. encodable (obj_get s f)) DRIFT_FIELDS = list_all (\<lambda>f. encodable (obj_get t f)) DRIFT_FIELDS"
    using e by (simp add: list_all_iff)
  ultimately show ?thesis by (simp only: state_fingerprint_def)
qed

lemma snapshot_object_no_drift:
  "no_drift (snapshot_object sa repo b h u tr d st ut hs ix ev l) (snapshot_object sb repo b h u tr d st ut hs ix ev l)"
  by (simp add: no_drift_def DRIFT_FIELDS_def snapshot_object_def obj_get_def)

lemma agree_snapshot:
  assumes "queries_read_only ge"
  shows "agree no_drift (collect_state_snapshot ge se project sa) (collect_state_snapshot ge se project sb)"
  unfolding collect_state_snapshot_def Let_def using assms
  by (intro agree_bind agree_queries agree_upstream agree_simple snapshot_object_no_drift) (simp_all add: reading_def)

section \<open>What a snapshot contains\<close>

lemma io_bind_Inr:
  assumes "io_bind m f w = (Inr y, w')"
  obtains x w1 where "m w = (Inr x, w1)" "f x w1 = (Inr y, w')"
  using assms by (auto simp: io_bind_def split: prod.splits sum.splits)

lemma collect_object:
  assumes "collect_state_snapshot ge se project sa w = (Inr snap, w')"
  shows "\<exists>b w1 head up track unstaged staged untracked d st ut s ix ev repo l.
    git_text ge project [''branch'', ''--show-current''] w = (Inr b, w1) \<and>
    inventory se (unstaged @ staged) = Inr d \<and> inventory se staged = Inr st \<and> inventory se untracked = Inr ut \<and>
    snap = snapshot_object sa repo (nonempty_or_none b) head up track d st ut
      (content_hashes se s project (unstaged @ staged @ untracked)) ix ev l"
  using assms unfolding collect_state_snapshot_def Let_def
  by (elim io_bind_Inr) (simp only: io_return_def lift_r_def reads_def prod.inject sum.inject, blast)

text \<open>A name that may be shown: one that is not sensitive, or the first digits of the hash of a sensitive one.\<close>

definition shown_name :: "snapshot_env \<Rightarrow> string \<Rightarrow> bool" where
  "shown_name se t \<longleftrightarrow>
     sensitive_raw_path_reason t = None \<or>
     (\<exists>p. sensitive_raw_path_reason p \<noteq> None \<and> t = ''sensitive:'' @ take 16 (sn_sha256 se p))"

lemma inventory_key_shown: "inventory_key se p = Inr x \<Longrightarrow> shown_name se x"
proof -
  assume k: "inventory_key se p = Inr x"
  show ?thesis
  proof (cases "sensitive_raw_path_reason p = None")
    case True
    with k have "x = p" by (simp add: inventory_key_def)
    with True show ?thesis by (simp only: shown_name_def simp_thms)
  next
    case False
    with k have "x = ''sensitive:'' @ take 16 (sn_sha256 se p)"
      by (cases "utf8_name p") (simp_all only: inventory_key_def if_False if_True sum.inject sum.distinct)
    with False show ?thesis unfolding shown_name_def by blast
  qed
qed

lemma inventory_shown:
  assumes "inventory se ps = Inr ks"
  shows "list_all (shown_name se) ks"
proof -
  obtain xs where m: "rmap (inventory_key se) ps = Inr xs" and k: "ks = sorted_set xs"
    using assms by (auto simp: inventory_def result_simps)
  have "shown_name se x" if x: "x \<in> set xs" for x
  proof -
    obtain i where "i < length xs" "x = xs ! i" using x unfolding in_set_conv_nth by blast
    then have "inventory_key se (ps ! i) = Inr x" using rmap_Inr_nth [OF m] rmap_Inr_length [OF m] by simp
    then show ?thesis by (rule inventory_key_shown)
  qed
  then show ?thesis by (simp add: k sorted_set_def list_all_iff)
qed

section \<open>Theorems\<close>


definition demo_snap :: snapshot_env where
  "demo_snap = \<lparr>sn_sha256 = (\<lambda>_. ''0123456789abcdef''), sn_evidence = (\<lambda>_. ''e''), sn_fingerprint = (\<lambda>_. ''f''), sn_bracketed = (\<lambda>_. True)\<rparr>"

definition demo_snapshot_args :: snapshot_args where
  "demo_snapshot_args =
     \<lparr>sa_project_id = None, sa_version = ''1'', sa_sha = None, sa_protocol = ''2'', sa_writer = None, sa_task = None,
      sa_push_verified = None, sa_remote_head = None, sa_timestamp = ''t''\<rparr>"


end
