(* ===== verification/StateServer.thy ===== *)
theory StateServer
  imports StateSnapshot WriterLease Continuation
begin

text \<open>
  The state-managed runtime (\<^verbatim>\<open>stateful_server.py\<close>, \<^verbatim>\<open>state_mutations.py\<close>): every tool that changes the
  repository runs between a preflight, which takes the leases of the branches and compares the repository
  with the last checkpoint of the context, and a checkpoint of the outcome.  It composes the snapshots, the
  git tools, the leases and both kinds of checkpoints.

  \<^item> The world of the git tools is extended by the store and by counters of clock readings and identifiers;
    the time and the identifier of each reading are fields of \<open>state_setting\<close>.
  \<^item> The tools of the superclass that are modelled on other states (patches, commands, the service) are
    arguments of their wrappers.
\<close>

section \<open>World and setting\<close>

record 'r server_world = "'r git_world" +
  sv_store :: store
  sv_reads :: nat
  sv_ids :: nat

type_synonym ('a, 'r) server = "'r server_world \<Rightarrow> 'a result \<times> 'r server_world"

record 'r state_setting =
  ss_git :: "'r git_setting"
  ss_snap :: snapshot_env
  ss_cont :: cont_env
  ss_clock :: "nat \<Rightarrow> real"
  ss_uuid :: "nat \<Rightarrow> string"
  ss_canonical :: path
  ss_effective :: path
  ss_context :: "string option"
  ss_instance :: string
  ss_task :: "string option"
  ss_project :: obj
  ss_version :: string
  ss_sha :: "string option"
  ss_protocol :: string
  ss_transport :: string

definition DEFAULT_WRITER_TTL_SECONDS :: int where
  "DEFAULT_WRITER_TTL_SECONDS = 900"

definition cont_at :: "'r state_setting \<Rightarrow> nat \<Rightarrow> cont_env" where
  "cont_at sv n = (ss_cont sv)\<lparr>en_clock := ss_clock sv n\<rparr>"

definition store_at :: "'r state_setting \<Rightarrow> nat \<Rightarrow> store_env" where
  "store_at sv n = store_env.truncate (cont_at sv n)"

text \<open>A step on the store at a reading of the clock, and a program of the git tools.\<close>

definition on_cont :: "'r state_setting \<Rightarrow> (cont_env \<Rightarrow> store \<Rightarrow> 'a result \<times> store) \<Rightarrow> ('a, 'r) server" where
  "on_cont sv f w =
     (case f (cont_at sv (sv_reads w)) (sv_store w) of
        (r, s) \<Rightarrow> (r, w\<lparr>sv_store := s, sv_reads := Suc (sv_reads w)\<rparr>))"

definition on_store :: "'r state_setting \<Rightarrow> (store_env \<Rightarrow> store \<Rightarrow> 'a result \<times> store) \<Rightarrow> ('a, 'r) server" where
  "on_store sv f = on_cont sv (\<lambda>en. f (store_env.truncate en))"

definition git_part :: "'r server_world \<Rightarrow> 'r git_world" where
  "git_part w = \<lparr>w_fs = w_fs w, w_calls = w_calls w, gw_repo = gw_repo w, gw_trace = gw_trace w\<rparr>"

definition on_git :: "('a, 'r) git \<Rightarrow> ('a, 'r) server" where
  "on_git m w =
     (case m (git_part w) of (r, g) \<Rightarrow>
        (r, w\<lparr>w_fs := w_fs g, w_calls := w_calls g, gw_repo := gw_repo g, gw_trace := gw_trace g\<rparr>))"

definition from_result :: "'a result \<Rightarrow> ('a, 'r) server" where
  "from_result r w = (r, w)"

text \<open>\<^verbatim>\<open>try: m finally: f\<close> and \<^verbatim>\<open>try: m except BaseException: f; raise\<close>.\<close>

definition io_finally :: "('a, 'r) server \<Rightarrow> ('b, 'r) server \<Rightarrow> ('a, 'r) server" where
  "io_finally m f w =
     (case m w of (r, w1) \<Rightarrow> (case f w1 of (Inl e, w2) \<Rightarrow> (Inl e, w2) | (Inr _, w2) \<Rightarrow> (r, w2)))"

definition io_on_error :: "('a, 'r) server \<Rightarrow> ('b, 'r) server \<Rightarrow> ('a, 'r) server" where
  "io_on_error m f = io_catch m (\<lambda>e. io_bind f (\<lambda>_. io_raise e))"

text \<open>\<^verbatim>\<open>str(record.get(key) or "")\<close>, for a record that may be missing, and the same \<^verbatim>\<open>or None\<close>.\<close>

definition field_text :: "'r state_setting \<Rightarrow> obj \<Rightarrow> string \<Rightarrow> string" where
  "field_text sv r k =
     (let v = obj_get r k in if json_falsy v then [] else py_str (ge_other (ss_git sv)) v)"

definition or_empty :: "obj option \<Rightarrow> obj" where
  "or_empty r = (case r of None \<Rightarrow> [] | Some ob \<Rightarrow> ob)"

definition field_or_none :: "'r state_setting \<Rightarrow> obj option \<Rightarrow> string \<Rightarrow> string option" where
  "field_or_none sv r k = nonempty_or_none (Some (field_text sv (or_empty r) k))"

section \<open>Steps of the state layer\<close>

definition state_owner :: "'r state_setting \<Rightarrow> string" where
  "state_owner sv = (case nonempty_or_none (ss_context sv) of Some c \<Rightarrow> c | None \<Rightarrow> ''runtime:'' @ ss_instance sv)"

definition read_authority :: "'r state_setting \<Rightarrow> string \<Rightarrow> (obj option, 'r) server" where
  "read_authority sv owner =
     on_store sv (\<lambda>en s. (read_authoritative_state_checkpoint en (ss_canonical sv) owner s, s))"

definition record_checkpoint :: "'r state_setting \<Rightarrow> checkpoint_request \<Rightarrow> (obj, 'r) server" where
  "record_checkpoint sv rq w =
     on_store sv (\<lambda>en. write_state_checkpoint en (ss_canonical sv) (ss_uuid sv (sv_ids w)) rq)
       (w\<lparr>sv_ids := Suc (sv_ids w)\<rparr>)"

definition current_branch :: "'r state_setting \<Rightarrow> (string option, 'r) server" where
  "current_branch sv = on_git (git_text (ss_git sv) (ss_effective sv) [''branch'', ''--show-current''])"

definition state_branch :: "'r state_setting \<Rightarrow> (string, 'r) server" where
  "state_branch sv =
     io_bind (current_branch sv) (\<lambda>b.
       case nonempty_or_none b of
         None \<Rightarrow> io_raise (tool_failure ''INVALID_STATE'' ''conflict'')
       | Some name \<Rightarrow> io_return name)"

definition time_text :: "'r state_setting \<Rightarrow> (string, 'r) server" where
  "time_text sv = on_store sv (\<lambda>en s. (Inr (now_iso en 0), s))"

definition state_snapshot :: "'r state_setting \<Rightarrow> bool option \<Rightarrow> string option \<Rightarrow> (obj, 'r) server" where
  "state_snapshot sv push_verified remote_head =
     io_bind (current_branch sv) (\<lambda>branch.
     io_bind (case nonempty_or_none branch of
           None \<Rightarrow> io_return None
         | Some b \<Rightarrow> on_store sv (\<lambda>en s. (inspect_writer_lease en (ss_canonical sv) b (en_clock en) s, s))) (\<lambda>lease.
     io_bind (time_text sv) (\<lambda>now.
       on_git (collect_state_snapshot (ss_git sv) (ss_snap sv) (ss_effective sv)
         \<lparr>sa_project_id = field_or_none sv (Some (ss_project sv)) ''id'', sa_version = ss_version sv,
          sa_sha = ss_sha sv, sa_protocol = ss_protocol sv, sa_writer = field_or_none sv lease ''owner'',
          sa_task = field_or_none sv lease ''logical_task'', sa_push_verified = push_verified,
          sa_remote_head = remote_head, sa_timestamp = now\<rparr>))))"

definition state_snapshot_for_workspace :: "'r state_setting \<Rightarrow> path \<Rightarrow> (obj, 'r) server" where
  "state_snapshot_for_workspace sv workspace =
     io_bind (time_text sv) (\<lambda>now.
       on_git (collect_state_snapshot (ss_git sv) (ss_snap sv) workspace
         \<lparr>sa_project_id = field_or_none sv (Some (ss_project sv)) ''id'', sa_version = ss_version sv,
          sa_sha = ss_sha sv, sa_protocol = ss_protocol sv, sa_writer = None, sa_task = None,
          sa_push_verified = None, sa_remote_head = None, sa_timestamp = now\<rparr>))"

definition ensure_state_baseline :: "'r state_setting \<Rightarrow> string \<Rightarrow> (obj option, 'r) server" where
  "ensure_state_baseline sv owner =
     io_bind (read_authority sv owner) (\<lambda>existing.
     if existing \<noteq> None then io_return existing
     else io_bind (state_snapshot sv None None) (\<lambda>actual.
       let branch = field_text sv actual ''branch'' in
       if branch = [] then io_return None
       else io_bind (record_checkpoint sv
           \<lparr>cr_branch = branch, cr_snapshot = actual, cr_phase = ''baseline'', cr_operation = ''context_baseline'',
            cr_owner = Some owner, cr_task = ss_task sv, cr_outcome = ''baseline'', cr_previous = None,
            cr_authority = Some owner\<rparr>) (\<lambda>r. io_return (Some r))))"

definition acquire_state_leases ::
    "'r state_setting \<Rightarrow> string list \<Rightarrow> string option \<Rightarrow> ((string, obj) dict, 'r) server" where
  "acquire_state_leases sv branches checkpoint_id =
     on_store sv (\<lambda>en. acquire_writer_leases en (ss_canonical sv)
       \<lparr>lr_branches = branches, lr_owner = state_owner sv, lr_task = ss_task sv, lr_ttl = DEFAULT_WRITER_TTL_SECONDS,
        lr_checkpoint = checkpoint_id, lr_now = en_clock en\<rparr>)"

definition release_state_owner_leases :: "'r state_setting \<Rightarrow> (string list, 'r) server" where
  "release_state_owner_leases sv =
     on_store sv (\<lambda>en. release_owner_leases en (ss_canonical sv) (state_owner sv) None)"

section \<open>The guard\<close>

definition expected_snapshot :: "obj option \<Rightarrow> obj option" where
  "expected_snapshot r =
     (case r of None \<Rightarrow> None | Some ob \<Rightarrow> (case obj_get ob ''snapshot'' of JObj s \<Rightarrow> Some s | _ \<Rightarrow> None))"

definition reconcile_hint :: string where
  "reconcile_hint =
     ''Inspect the changed fields, then pass the returned branch, head, '' @
     ''checkpoint_id, and state_fingerprint back in the '' @ ''continuation_checkpoint write payload.''"

definition state_drift :: "'r state_setting \<Rightarrow> obj option \<Rightarrow> obj \<Rightarrow> obj \<Rightarrow> obj \<Rightarrow> string \<Rightarrow> pyexn" where
  "state_drift sv expected_record expected actual drift fingerprint =
     retryable_failure ''STATE_DRIFT'' ''conflict''
       [(''expected'', JObj expected), (''actual'', JObj actual), (''changed_fields'', JObj drift),
        (''reconciliation_evidence'',
         JObj [(''checkpoint_id'', JStr (field_text sv (or_empty expected_record) ''checkpoint_id'')),
               (''branch'', obj_get actual ''branch''), (''head'', obj_get actual ''local_head''),
               (''state_fingerprint'', JStr fingerprint)]),
        (''reconcile'', JStr reconcile_hint)]"

definition check_drift :: "'r state_setting \<Rightarrow> obj option \<Rightarrow> obj \<Rightarrow> (unit, 'r) server" where
  "check_drift sv expected_record actual =
     (case expected_snapshot expected_record of
        None \<Rightarrow> io_return ()
      | Some expected \<Rightarrow>
          let drift = compare_snapshots expected actual in
          if drift = [] then io_return ()
          else io_bind (from_result (state_fingerprint (ss_snap sv) actual)) (\<lambda>fp.
                 io_raise (state_drift sv expected_record expected actual drift fp)))"

definition before_request :: "'r state_setting \<Rightarrow> string \<Rightarrow> string \<Rightarrow> obj option \<Rightarrow> obj \<Rightarrow> checkpoint_request" where
  "before_request sv operation branch expected_record actual =
     \<lparr>cr_branch = branch, cr_snapshot = actual, cr_phase = ''before'', cr_operation = operation,
      cr_owner = Some (state_owner sv), cr_task = ss_task sv, cr_outcome = ''started'',
      cr_previous = field_or_none sv expected_record ''checkpoint_id'', cr_authority = None\<rparr>"

text \<open>What the preflight does once it holds the leases, and the preflight.\<close>

definition preflight_checks ::
    "'r state_setting \<Rightarrow> string \<Rightarrow> string \<Rightarrow> obj option \<Rightarrow> (string \<times> obj option \<times> obj, 'r) server" where
  "preflight_checks sv operation branch expected_record =
     io_bind (state_snapshot sv None None) (\<lambda>actual.
     io_bind (check_drift sv expected_record actual) (\<lambda>_.
     io_bind (record_checkpoint sv (before_request sv operation branch expected_record actual)) (\<lambda>_.
       io_return (branch, expected_record, actual))))"

definition expected_record_of :: "'r state_setting \<Rightarrow> (obj option, 'r) server" where
  "expected_record_of sv =
     io_bind (read_authority sv (state_owner sv)) (\<lambda>found.
       if found = None then ensure_state_baseline sv (state_owner sv) else io_return found)"

definition state_preflight ::
    "'r state_setting \<Rightarrow> string \<Rightarrow> string list \<Rightarrow> (string \<times> obj option \<times> obj, 'r) server" where
  "state_preflight sv operation extra_branches =
     io_bind (state_branch sv) (\<lambda>branch.
     io_bind (expected_record_of sv) (\<lambda>expected_record.
     io_bind (acquire_state_leases sv (branch # extra_branches) (field_or_none sv expected_record ''checkpoint_id'')) (\<lambda>_.
       io_on_error (preflight_checks sv operation branch expected_record) (release_state_owner_leases sv))))"

definition after_request ::
    "'r state_setting \<Rightarrow> string \<Rightarrow> string \<Rightarrow> obj option \<Rightarrow> string \<Rightarrow> obj \<Rightarrow> checkpoint_request" where
  "after_request sv operation branch previous outcome actual =
     \<lparr>cr_branch = (let b = field_text sv actual ''branch'' in if b = [] then branch else b), cr_snapshot = actual,
      cr_phase = ''after'', cr_operation = operation, cr_owner = Some (state_owner sv), cr_task = ss_task sv,
      cr_outcome = outcome, cr_previous = field_or_none sv previous ''checkpoint_id'',
      cr_authority = Some (state_owner sv)\<rparr>"

definition state_after ::
    "'r state_setting \<Rightarrow> string \<Rightarrow> string \<Rightarrow> obj option \<Rightarrow> string \<Rightarrow> bool option \<Rightarrow> string option \<Rightarrow> (obj, 'r) server" where
  "state_after sv operation branch previous outcome push_verified remote_head =
     io_bind (state_snapshot sv push_verified remote_head) (\<lambda>actual.
       record_checkpoint sv (after_request sv operation branch previous outcome actual))"

definition run_recorded ::
    "'r state_setting \<Rightarrow> string \<Rightarrow> ('a, 'r) server \<Rightarrow> string \<Rightarrow> obj option \<Rightarrow> ('a \<times> obj, 'r) server" where
  "run_recorded sv operation callback branch previous =
     io_bind (io_on_error callback (state_after sv operation branch previous ''error'' None None)) (\<lambda>res.
     io_bind (state_after sv operation branch previous ''success'' None None) (\<lambda>checkpoint.
       io_return (res, checkpoint)))"

definition guarded :: "'r state_setting \<Rightarrow> string \<Rightarrow> ('a, 'r) server \<Rightarrow> string list \<Rightarrow> ('a \<times> obj, 'r) server" where
  "guarded sv operation callback extra_branches =
     io_bind (state_preflight sv operation extra_branches) (\<lambda>(branch, previous, _).
       io_finally (run_recorded sv operation callback branch previous) (release_state_owner_leases sv))"

section \<open>The managed tools\<close>

definition with_checkpoint :: "'r state_setting \<Rightarrow> string \<Rightarrow> (obj, 'r) server \<Rightarrow> string list \<Rightarrow> (obj, 'r) server" where
  "with_checkpoint sv operation callback extra =
     io_bind (guarded sv operation callback extra) (\<lambda>(res, checkpoint).
       io_return (dict_set ''state_checkpoint'' (JObj checkpoint) res))"

definition named_branch :: "'r state_setting \<Rightarrow> obj \<Rightarrow> string list" where
  "named_branch sv args = (let t = strip_str (field_text sv args ''name'') in if t = [] then [] else [t])"

definition managed_git_switch_branch :: "'r state_setting \<Rightarrow> obj \<Rightarrow> (obj, 'r) server" where
  "managed_git_switch_branch sv args =
     with_checkpoint sv ''git_switch_branch'' (on_git (git_switch_branch (ss_git sv) args)) (named_branch sv args)"

definition managed_git_create_branch :: "'r state_setting \<Rightarrow> obj \<Rightarrow> (obj, 'r) server" where
  "managed_git_create_branch sv args =
     with_checkpoint sv ''git_create_branch'' (on_git (git_create_branch (ss_git sv) args)) (named_branch sv args)"

definition managed_git_fetch :: "'r state_setting \<Rightarrow> obj \<Rightarrow> (obj, 'r) server" where
  "managed_git_fetch sv args = with_checkpoint sv ''git_fetch'' (on_git (git_fetch (ss_git sv) args)) []"

definition managed_git_pull :: "'r state_setting \<Rightarrow> obj \<Rightarrow> (obj, 'r) server" where
  "managed_git_pull sv args = with_checkpoint sv ''git_pull'' (on_git (git_pull (ss_git sv) args)) []"

definition managed_git_merge_remote_branch :: "'r state_setting \<Rightarrow> obj \<Rightarrow> (obj, 'r) server" where
  "managed_git_merge_remote_branch sv args =
     with_checkpoint sv ''git_merge_remote_branch'' (on_git (git_merge_remote_branch (ss_git sv) args)) []"

text \<open>A commit returns its record with the checkpoint beside it; the other two call the superclass.\<close>

definition managed_git_commit :: "'r state_setting \<Rightarrow> obj \<Rightarrow> (commit_answer \<times> obj, 'r) server" where
  "managed_git_commit sv args = guarded sv ''git_commit'' (on_git (git_commit (ss_git sv) args)) []"

definition managed_apply_patch :: "'r state_setting \<Rightarrow> (obj \<Rightarrow> (obj, 'r) server) \<Rightarrow> obj \<Rightarrow> (obj, 'r) server" where
  "managed_apply_patch sv parent args = with_checkpoint sv ''apply_patch'' (parent args) []"

definition managed_service_update :: "'r state_setting \<Rightarrow> (obj \<Rightarrow> (obj, 'r) server) \<Rightarrow> obj \<Rightarrow> (obj, 'r) server" where
  "managed_service_update sv parent args = with_checkpoint sv ''service_update'' (parent args) []"

definition push_mismatch :: "string \<Rightarrow> string \<Rightarrow> string option \<Rightarrow> string option \<Rightarrow> obj \<Rightarrow> pyexn" where
  "push_mismatch branch remote local_head remote_head checkpoint =
     tool_failure_with ''REMOTE_HEAD_MISMATCH'' ''conflict''
       [(''branch'', JStr branch), (''remote'', JStr remote), (''local_head'', str_or_null local_head),
        (''remote_head'', str_or_null remote_head), (''state_checkpoint'', JObj checkpoint)]"

definition push_remote :: "'r state_setting \<Rightarrow> obj \<Rightarrow> obj \<Rightarrow> string" where
  "push_remote sv res args =
     (let a = field_text sv res ''remote''; b = field_text sv args ''remote'' in
      if \<not> json_falsy (obj_get res ''remote'') then a else if \<not> json_falsy (obj_get args ''remote'') then b else ''origin'')"

definition verify_push :: "'r state_setting \<Rightarrow> obj \<Rightarrow> string \<Rightarrow> obj option \<Rightarrow> obj \<Rightarrow> (obj, 'r) server" where
  "verify_push sv args branch previous res =
     (let pushed = (if json_falsy (obj_get res ''branch'') then branch else field_text sv res ''branch'');
          remote = push_remote sv res args in
      io_bind (on_git (verify_remote_branch_head (ss_git sv) (we_root (ge_ws (ss_git sv))) pushed remote))
        (\<lambda>(verified, local_head, remote_head).
          if \<not> verified then
            io_bind (state_after sv ''git_push'' branch previous ''error'' (Some False) remote_head) (\<lambda>checkpoint.
              io_raise (push_mismatch pushed remote local_head remote_head checkpoint))
          else
            io_bind (state_after sv ''git_push'' branch previous ''success'' (Some True) remote_head) (\<lambda>checkpoint.
              io_return (dict_set ''state_checkpoint'' (JObj checkpoint)
                (dict_set ''remote_verification''
                  (JObj [(''verified'', JBool True), (''local_head'', str_or_null local_head),
                         (''remote_head'', str_or_null remote_head)]) res)))))"

definition managed_git_push :: "'r state_setting \<Rightarrow> obj \<Rightarrow> (obj, 'r) server" where
  "managed_git_push sv args =
     io_bind (state_preflight sv ''git_push'' []) (\<lambda>(branch, previous, _).
       io_finally
         (io_bind (io_on_error (on_git (git_push (ss_git sv) args))
             (state_after sv ''git_push'' branch previous ''error'' None None)) (\<lambda>res.
           verify_push sv args branch previous res))
         (release_state_owner_leases sv))"

section \<open>Commands that change the repository\<close>

definition HTTP_SAFE_BLOCKING_WAIT_MAX_MS :: int where
  "HTTP_SAFE_BLOCKING_WAIT_MAX_MS = 60000"

definition wait_refused :: "int \<Rightarrow> pyexn" where
  "wait_refused timeout_ms =
     tool_failure_with ''INVALID_ARGUMENT'' ''validation''
       [(''state_effect'', JStr ''selected_repo''), (''requested_timeout_ms'', JInt timeout_ms),
        (''max_http_timeout_ms'', JInt HTTP_SAFE_BLOCKING_WAIT_MAX_MS), (''process_started'', JBool False)]"

text \<open>What the state layer does with the answer of a command that ran under the guard.\<close>

definition accept_command :: "'r state_setting \<Rightarrow> string \<Rightarrow> obj option \<Rightarrow> obj \<Rightarrow> (obj, 'r) server" where
  "accept_command sv branch previous res =
     (if obj_get res ''status'' = JStr ''running'' then io_raise (tool_failure ''INVALID_STATE'' ''runtime'')
      else if obj_get res ''command_success'' = JBool True then
        io_bind (state_branch sv) (\<lambda>now.
          if now \<noteq> branch then
            io_raise (retryable_failure ''INVALID_STATE'' ''conflict''
              [(''before_branch'', JStr branch), (''after_branch'', JStr now)])
          else io_bind (state_after sv ''exec_command'' branch previous ''success'' None None) (\<lambda>checkpoint.
            io_return (dict_set ''state_checkpoint'' (JObj checkpoint) res)))
      else io_return res)"

definition managed_exec :: "'r state_setting \<Rightarrow> (obj \<Rightarrow> (obj, 'r) server) \<Rightarrow> obj \<Rightarrow> (obj, 'r) server" where
  "managed_exec sv parent args =
     (let other = ge_other (ss_git sv); effect = strip_str (str_arg other args ''state_effect'' ''none'') in
      io_bind (ensure_state_baseline sv (state_owner sv)) (\<lambda>_.
      if effect = ''none'' then parent args
      else if effect \<noteq> ''selected_repo'' then io_raise invalid_argument
      else if bool_arg args ''tty'' False then io_raise invalid_argument
      else if lower_str (strip_str (str_arg other args ''transaction_mode'' ''discard'')) \<noteq> ''discard'' then io_raise invalid_argument
      else io_bind (from_result (int_arg args ''timeout_ms'' 30000)) (\<lambda>timeout_ms.
        if ss_transport sv = ''http'' \<and> HTTP_SAFE_BLOCKING_WAIT_MAX_MS < timeout_ms then io_raise (wait_refused timeout_ms)
        else io_bind (state_preflight sv ''exec_command'' []) (\<lambda>(branch, previous, _).
          io_finally
            (io_bind (parent (dict_set ''_force_foreground_wait'' (JBool True)
                (dict_set ''yield_time_ms'' (JInt timeout_ms) args))) (accept_command sv branch previous))
            (release_state_owner_leases sv)))))"

definition managed_exec_argv_args :: "'r state_setting \<Rightarrow> obj \<Rightarrow> obj" where
  "managed_exec_argv_args sv args =
     (if strip_str (str_arg (ge_other (ss_git sv)) args ''state_effect'' ''none'') = ''selected_repo'' \<and>
         map_of args ''transaction_mode'' = None
      then dict_set ''transaction_mode'' (JStr ''discard'') args else args)"

section \<open>Contexts and work trees\<close>

text \<open>The hook after a context was bound to its own work tree, and the revision the work tree starts from.\<close>

definition on_context_mutation_workspace_bound :: "'r state_setting \<Rightarrow> string \<Rightarrow> (unit, 'r) server" where
  "on_context_mutation_workspace_bound sv owner =
     io_bind (state_snapshot sv None None) (\<lambda>actual.
     let branch = field_text sv actual ''branch'' in
     if owner = [] \<or> branch = [] then io_raise (tool_failure ''INVALID_STATE'' ''conflict'')
     else io_bind (read_authority sv owner) (\<lambda>previous.
       io_bind (record_checkpoint sv
         \<lparr>cr_branch = branch, cr_snapshot = actual, cr_phase = ''baseline'', cr_operation = ''managed_worktree_bind'',
          cr_owner = Some owner, cr_task = ss_task sv, cr_outcome = ''baseline'',
          cr_previous = field_or_none sv previous ''checkpoint_id'', cr_authority = Some owner\<rparr>) (\<lambda>_. io_return ())))"

definition context_mutation_workspace_base_revision :: "'r state_setting \<Rightarrow> string \<Rightarrow> (string, 'r) server" where
  "context_mutation_workspace_base_revision sv owner =
     io_bind (if owner = [] then io_return None else read_authority sv owner) (\<lambda>checkpoint.
     let head = strip_str (field_text sv (or_empty (expected_snapshot checkpoint)) ''local_head'') in
     io_return (if head = [] then ''HEAD'' else head))"

definition resume_failure :: "string \<Rightarrow> string \<Rightarrow> bool \<Rightarrow> obj \<Rightarrow> pyexn" where
  "resume_failure code reason retryable details =
     Tool \<lparr>tf_code = code, tf_category = (if code \<in> {''STATE_DRIFT'', ''INVALID_STATE''} then ''conflict'' else ''not_found''),
           tf_retryable = retryable, tf_details = foldl (\<lambda>d (k, v). dict_set k v d) [(''reason'', JStr reason)] details\<rparr>"

definition snapshot_dirty :: "obj \<Rightarrow> bool" where
  "snapshot_dirty snap \<longleftrightarrow> list_ex (\<lambda>k. \<not> json_falsy (obj_get snap k)) [''dirty_paths'', ''staged_paths'', ''untracked_paths'']"

definition validate_resume_snapshot :: "'r state_setting \<Rightarrow> obj \<Rightarrow> path \<Rightarrow> (obj, 'r) server" where
  "validate_resume_snapshot sv payload workspace =
     io_bind (state_snapshot_for_workspace sv workspace) (\<lambda>actual.
     io_bind (from_result (state_fingerprint (ss_snap sv) actual)) (\<lambda>fp.
     let branch = field_text sv payload ''branch''; head = field_text sv payload ''head'';
         saved_fp = field_text sv payload ''state_fingerprint'' in
     if obj_get actual ''branch'' \<noteq> JStr branch \<or> obj_get actual ''local_head'' \<noteq> JStr head \<or> fp \<noteq> saved_fp \<or>
        \<not> state_fingerprint_complete actual then
       io_raise (resume_failure ''STATE_DRIFT'' ''resume_state_drift'' True
         [(''expected_branch'', JStr branch), (''expected_head'', JStr head), (''expected_state_fingerprint'', JStr saved_fp),
          (''actual_branch'', obj_get actual ''branch''), (''actual_head'', obj_get actual ''local_head''),
          (''actual_state_fingerprint'', JStr fp)])
     else (let saved_dirty = \<not> json_falsy (obj_get payload ''workspace_dirty''); dirty = snapshot_dirty actual in
       if saved_dirty \<noteq> dirty then
         io_raise (resume_failure ''STATE_DRIFT'' ''resume_state_drift'' True
           [(''expected_dirty'', JBool saved_dirty), (''actual_dirty'', JBool dirty)])
       else io_return actual)))"

section \<open>Continuation checkpoints of the runtime\<close>

definition continuation_scope :: "'r state_setting \<Rightarrow> obj \<Rightarrow> (string, 'r) server" where
  "continuation_scope sv args =
     (let other = ge_other (ss_git sv); task = strip_str (str_arg other args ''logical_task'' []);
          branch = strip_str (str_arg other args ''branch'' []) in
      if task \<noteq> [] then (if 256 < length task then io_raise invalid_argument else io_return (''task:'' @ task))
      else io_bind (if branch \<noteq> [] then io_return branch
          else on_git (io_bind (require_selected_git_repo (ss_git sv)) (git_current_branch (ss_git sv)))) (\<lambda>b.
        if 256 < length b then io_raise invalid_argument else io_return (''branch:'' @ b)))"

definition DEFAULT_LIST_LIMIT :: int where
  "DEFAULT_LIST_LIMIT = 20"

definition json_opt :: "obj option \<Rightarrow> json" where
  "json_opt r = (case r of None \<Rightarrow> JNull | Some ob \<Rightarrow> JObj ob)"

definition plain_continuation_checkpoint :: "'r state_setting \<Rightarrow> obj \<Rightarrow> (obj, 'r) server" where
  "plain_continuation_checkpoint sv args =
     (let action = lower_str (strip_str (str_arg (ge_other (ss_git sv)) args ''action'' [])); project = ss_canonical sv in
      if action \<notin> {''read'', ''write'', ''clear'', ''list'', ''resume''} then io_raise invalid_argument
      else if action = ''resume'' then
        io_raise (tool_failure_with ''INVALID_STATE'' ''conflict'' [(''reason'', JStr ''resume_metadata_insufficient'')])
      else if action = ''list'' then
        (let limit = (case map_of args ''limit'' of None \<Rightarrow> JInt DEFAULT_LIST_LIMIT | Some v \<Rightarrow> v) in
         io_bind (on_cont sv (\<lambda>en. list_checkpoints en project limit)) (\<lambda>(found, bad).
           io_return [(''action'', JStr action), (''limit'', limit), (''checkpoints'', JList (map JObj found)),
                      (''invalid_count'', JInt (int bad))]))
      else io_bind (continuation_scope sv args) (\<lambda>scope.
        if action = ''read'' then
          io_bind (on_cont sv (\<lambda>en. cont_read_checkpoint en project scope)) (\<lambda>r.
            io_return [(''action'', JStr action), (''scope'', JStr scope), (''checkpoint'', json_opt r)])
        else if action = ''clear'' then
          io_bind (on_cont sv (\<lambda>en. clear_checkpoint en project scope)) (\<lambda>b.
            io_return [(''action'', JStr action), (''scope'', JStr scope), (''cleared'', JBool b)])
        else case map_of args ''payload'' of
            None \<Rightarrow> io_raise invalid_argument
          | Some payload \<Rightarrow>
              io_bind (on_cont sv (\<lambda>en. cont_write_checkpoint en project scope payload)) (\<lambda>r.
                io_return [(''action'', JStr action), (''scope'', JStr scope), (''checkpoint'', JObj r)])))"

definition downgrade_verification :: "string \<Rightarrow> string \<Rightarrow> obj \<Rightarrow> obj" where
  "downgrade_verification head fingerprint payload =
     (if obj_get payload ''verification_status'' = JStr ''passed'' \<and>
         (obj_get payload ''verified_head'' \<noteq> JStr head \<or> obj_get payload ''verified_state_fingerprint'' \<noteq> JStr fingerprint)
      then dict_set ''verification_status'' (JStr ''stale'') payload else payload)"

definition downgrade_read :: "string \<Rightarrow> string \<Rightarrow> obj \<Rightarrow> obj" where
  "downgrade_read head fingerprint res =
     (case obj_get res ''checkpoint'' of
        JObj c \<Rightarrow>
          (case obj_get c ''payload'' of
             JObj p \<Rightarrow>
               dict_set ''checkpoint'' (JObj (dict_set ''payload'' (JObj (downgrade_verification head fingerprint p)) c)) res
           | _ \<Rightarrow> res)
      | _ \<Rightarrow> res)"

definition downgrade_list :: "string \<Rightarrow> string \<Rightarrow> obj \<Rightarrow> obj" where
  "downgrade_list head fingerprint res =
     (case obj_get res ''checkpoints'' of
        JList xs \<Rightarrow>
          dict_set ''checkpoints'' (JList (map (\<lambda>x. case x of
              JObj item \<Rightarrow> JObj (downgrade_verification head fingerprint item) | _ \<Rightarrow> x) xs)) res
      | _ \<Rightarrow> res)"

text \<open>The evidence a client passes to accept a drift, and the answer when it does not match.\<close>

record evidence =
  ev_checkpoint :: string
  ev_branch :: string
  ev_head :: string
  ev_fingerprint :: string

definition complete_evidence :: "evidence \<Rightarrow> bool" where
  "complete_evidence e \<longleftrightarrow> ev_checkpoint e \<noteq> [] \<and> ev_branch e \<noteq> [] \<and> ev_head e \<noteq> [] \<and> ev_fingerprint e \<noteq> []"

definition requested_evidence :: "'r state_setting \<Rightarrow> obj \<Rightarrow> evidence" where
  "requested_evidence sv payload =
     (let f = (\<lambda>k. strip_str (field_text sv payload k)) in
      \<lparr>ev_checkpoint = f ''checkpoint_id'', ev_branch = f ''branch'', ev_head = f ''head'',
       ev_fingerprint = f ''state_fingerprint''\<rparr>)"

definition evidence_refusal :: "evidence \<Rightarrow> evidence \<Rightarrow> bool \<Rightarrow> obj option" where
  "evidence_refusal requested actual drifted =
     (if complete_evidence requested then
        (if ev_checkpoint requested \<noteq> ev_checkpoint actual then
           Some [(''status'', JStr ''not_applied''), (''reason'', JStr ''checkpoint_identity_mismatch''),
                 (''requested_checkpoint_id'', JStr (ev_checkpoint requested)),
                 (''actual_checkpoint_id'', str_or_null (nonempty_or_none (Some (ev_checkpoint actual))))]
         else if ev_branch requested \<noteq> ev_branch actual \<or> ev_head requested \<noteq> ev_head actual then
           Some [(''status'', JStr ''not_applied''), (''reason'', JStr ''payload_branch_head_mismatch''),
                 (''actual_branch'', JStr (ev_branch actual)), (''actual_head'', JStr (ev_head actual))]
         else if ev_fingerprint requested \<noteq> ev_fingerprint actual then
           Some [(''status'', JStr ''not_applied''), (''reason'', JStr ''state_fingerprint_mismatch''),
                 (''requested_fingerprint'', JStr (ev_fingerprint requested)),
                 (''actual_fingerprint'', JStr (ev_fingerprint actual))]
         else None)
      else if drifted then Some [(''status'', JStr ''not_applied''), (''reason'', JStr ''missing_reconciliation_evidence'')]
      else None)"

definition verified_status :: "'r state_setting \<Rightarrow> obj \<Rightarrow> string \<Rightarrow> string \<Rightarrow> string result" where
  "verified_status sv payload head fingerprint =
     (let given = obj_get payload ''verification_status'';
          status = (if json_falsy given then ''not_run'' else field_text sv payload ''verification_status'');
          vhead = strip_str (field_text sv payload ''verified_head'');
          vfp = strip_str (field_text sv payload ''verified_state_fingerprint'') in
      if status \<noteq> ''passed'' then Inr status
      else if vhead = [] \<or> vfp = [] then Inl invalid_argument
      else if vhead \<noteq> head \<or> vfp \<noteq> fingerprint then Inr ''stale''
      else Inr status)"

definition RUNTIME_FIELDS :: "string list" where
  "RUNTIME_FIELDS =
     [''branch'', ''head'', ''checkpoint_id'', ''state_fingerprint'', ''state_fingerprint_complete'', ''workspace_kind'',
      ''workspace_dirty'', ''verification_status'']"

definition workspace_kind :: "'r state_setting \<Rightarrow> string" where
  "workspace_kind sv = (if ss_effective sv = ss_canonical sv then ''canonical'' else ''managed'')"

definition trusted_payload :: "'r state_setting \<Rightarrow> obj \<Rightarrow> obj \<Rightarrow> evidence \<Rightarrow> string \<Rightarrow> obj" where
  "trusted_payload sv payload actual ev status =
     filter (\<lambda>(k, v). k \<notin> set RUNTIME_FIELDS) payload @
     [(''branch'', JStr (ev_branch ev)), (''head'', JStr (ev_head ev)), (''checkpoint_id'', JStr (ev_checkpoint ev)),
      (''state_fingerprint'', JStr (ev_fingerprint ev)),
      (''state_fingerprint_complete'', JBool (state_fingerprint_complete actual)),
      (''workspace_kind'', JStr (workspace_kind sv)), (''workspace_dirty'', JBool (snapshot_dirty actual)),
      (''verification_status'', JStr status)]"

definition reconcile_request :: "'r state_setting \<Rightarrow> evidence \<Rightarrow> obj \<Rightarrow> checkpoint_request" where
  "reconcile_request sv ev actual =
     \<lparr>cr_branch = ev_branch ev, cr_snapshot = actual, cr_phase = ''after'',
      cr_operation = ''continuation_checkpoint_reconcile'', cr_owner = Some (state_owner sv), cr_task = ss_task sv,
      cr_outcome = ''reconciled'', cr_previous = nonempty_or_none (Some (ev_checkpoint ev)),
      cr_authority = Some (state_owner sv)\<rparr>"

text \<open>The reconciliation of a drift: a new authoritative checkpoint, whose identifier the payload gets.\<close>

definition reconcile :: "'r state_setting \<Rightarrow> evidence \<Rightarrow> obj \<Rightarrow> bool \<Rightarrow> (evidence \<times> obj, 'r) server" where
  "reconcile sv ev actual drifted =
     (if drifted then
        io_bind (record_checkpoint sv (reconcile_request sv ev actual)) (\<lambda>r.
          let cid = py_str (ge_other (ss_git sv)) (obj_get r ''checkpoint_id'') in
          io_return (ev\<lparr>ev_checkpoint := cid\<rparr>, [(''status'', JStr ''reconciled''), (''checkpoint_id'', JStr cid)]))
      else io_return (ev, [(''status'', JStr ''not_needed'')]))"

definition continuation_answer :: "'r state_setting \<Rightarrow> obj \<Rightarrow> string \<Rightarrow> obj option \<Rightarrow> obj \<Rightarrow> obj" where
  "continuation_answer sv args scope r reconciliation =
     [(''action'', JStr ''write''), (''scope'', JStr scope), (''checkpoint'', json_opt r),
      (''state_reconciliation'', JObj reconciliation)]"

definition actual_evidence :: "'r state_setting \<Rightarrow> string \<Rightarrow> obj option \<Rightarrow> obj \<Rightarrow> string \<Rightarrow> evidence" where
  "actual_evidence sv branch previous actual fp =
     \<lparr>ev_checkpoint = field_text sv (or_empty previous) ''checkpoint_id'', ev_branch = branch,
      ev_head = field_text sv actual ''local_head'', ev_fingerprint = fp\<rparr>"

definition drifted :: "obj option \<Rightarrow> obj \<Rightarrow> bool" where
  "drifted previous actual =
     (case expected_snapshot previous of None \<Rightarrow> False | Some e \<Rightarrow> compare_snapshots e actual \<noteq> [])"

definition store_continuation ::
    "'r state_setting \<Rightarrow> obj \<Rightarrow> obj \<Rightarrow> obj \<Rightarrow> evidence \<Rightarrow> bool \<Rightarrow> (obj, 'r) server" where
  "store_continuation sv args payload actual ev dr =
     io_bind (reconcile sv ev actual dr) (\<lambda>(ev', reconciliation).
     io_bind (from_result (verified_status sv payload (ev_head ev) (ev_fingerprint ev))) (\<lambda>status.
     io_bind (continuation_scope sv args) (\<lambda>scope.
     io_bind (on_cont sv (\<lambda>en. cont_write_checkpoint en (ss_canonical sv) scope
         (JObj (trusted_payload sv payload actual ev' status)))) (\<lambda>r.
       io_return (continuation_answer sv args scope (Some r) reconciliation)))))"

definition write_under_lease :: "'r state_setting \<Rightarrow> obj \<Rightarrow> obj \<Rightarrow> string \<Rightarrow> obj option \<Rightarrow> (obj, 'r) server" where
  "write_under_lease sv args payload branch previous =
     io_bind (state_snapshot sv None None) (\<lambda>actual.
     io_bind (from_result (state_fingerprint (ss_snap sv) actual)) (\<lambda>fp.
     let ev = actual_evidence sv branch previous actual fp; dr = drifted previous actual in
     case evidence_refusal (requested_evidence sv payload) ev dr of
       Some refusal \<Rightarrow> io_bind (continuation_scope sv args) (\<lambda>scope. io_return (continuation_answer sv args scope None refusal))
     | None \<Rightarrow> store_continuation sv args payload actual ev dr))"

definition managed_write_continuation :: "'r state_setting \<Rightarrow> obj \<Rightarrow> json \<Rightarrow> (obj, 'r) server" where
  "managed_write_continuation sv args raw =
     io_bind (from_result (normalize_checkpoint_payload (ss_cont sv) raw)) (\<lambda>payload.
     io_bind (ensure_state_baseline sv (state_owner sv)) (\<lambda>_.
     io_bind (state_branch sv) (\<lambda>branch.
     io_bind (read_authority sv (state_owner sv)) (\<lambda>previous.
     io_bind (acquire_state_leases sv [branch] (field_or_none sv previous ''checkpoint_id'')) (\<lambda>_.
       io_finally (write_under_lease sv args payload branch previous) (release_state_owner_leases sv))))))"

definition managed_continuation_checkpoint ::
    "'r state_setting \<Rightarrow> (obj \<Rightarrow> (obj, 'r) server) \<Rightarrow> obj \<Rightarrow> (obj, 'r) server" where
  "managed_continuation_checkpoint sv resume args =
     (let action = lower_str (strip_str (field_text sv args ''action'')) in
      if action = ''resume'' then resume args
      else if action \<noteq> ''write'' then
        io_bind (plain_continuation_checkpoint sv args) (\<lambda>res.
          if action \<notin> {''read'', ''list''} then io_return res
          else io_bind (state_snapshot sv None None) (\<lambda>actual.
            io_bind (from_result (state_fingerprint (ss_snap sv) actual)) (\<lambda>fp.
            let head = field_text sv actual ''local_head'' in
            io_return ((if action = ''read'' then downgrade_read else downgrade_list) head fp res))))
      else (case map_of args ''payload'' of
          None \<Rightarrow> plain_continuation_checkpoint sv args
        | Some raw \<Rightarrow> managed_write_continuation sv args raw))"

section \<open>Programs that keep the tree or the store\<close>

definition keeps_tree :: "('a, 'r) server \<Rightarrow> bool" where
  "keeps_tree m \<longleftrightarrow> (\<forall>w. same_tree w (snd (m w)))"

definition keeps_store :: "('a, 'r) server \<Rightarrow> bool" where
  "keeps_store m \<longleftrightarrow> (\<forall>w. sv_store (snd (m w)) = sv_store w)"

lemma keeps_tree_bind:
  assumes "keeps_tree m" "\<And>x. keeps_tree (f x)"
  shows "keeps_tree (io_bind m f)"
  unfolding keeps_tree_def
proof
  fix w
  obtain r w1 where m: "m w = (r, w1)" by fastforce
  with assms(1) have 1: "same_tree w w1" by (metis keeps_tree_def snd_conv)
  show "same_tree w (snd (io_bind m f w))"
  proof (cases r)
    case (Inr x)
    have "same_tree w1 (snd (f x w1))" using assms(2) by (simp add: keeps_tree_def)
    with 1 m Inr show ?thesis by (auto simp: io_bind_def intro: same_tree_trans)
  qed (use 1 m in \<open>simp add: io_bind_def\<close>)
qed

lemma keeps_store_bind: "keeps_store m \<Longrightarrow> (\<And>x. keeps_store (f x)) \<Longrightarrow> keeps_store (io_bind m f)"
  unfolding keeps_store_def io_bind_def by (auto split: prod.splits sum.splits) (metis snd_conv)+

lemma keeps_tree_catch:
  assumes "keeps_tree m" "\<And>e. keeps_tree (h e)"
  shows "keeps_tree (io_catch m h)"
  unfolding keeps_tree_def
proof
  fix w
  obtain r w1 where m: "m w = (r, w1)" by fastforce
  with assms(1) have 1: "same_tree w w1" by (metis keeps_tree_def snd_conv)
  show "same_tree w (snd (io_catch m h w))"
  proof (cases r)
    case (Inl e)
    have "same_tree w1 (snd (h e w1))" using assms(2) by (simp add: keeps_tree_def)
    with 1 m Inl show ?thesis by (auto simp: io_catch_def intro: same_tree_trans)
  qed (use 1 m in \<open>simp add: io_catch_def\<close>)
qed

lemma on_store_eq:
  "on_store sv f w =
     (case f (store_at sv (sv_reads w)) (sv_store w) of
        (r, s) \<Rightarrow> (r, w\<lparr>sv_store := s, sv_reads := Suc (sv_reads w)\<rparr>))"
  by (simp add: on_store_def on_cont_def store_at_def)

lemma keeps_simple:
  "keeps_tree (io_return x)" "keeps_tree (io_raise e)" "keeps_tree (from_result q)" "keeps_tree (on_cont sv h)"
  "keeps_tree (on_store sv f)" "keeps_store (io_return x)" "keeps_store (io_raise e)" "keeps_store (from_result q)"
  "keeps_store (on_git g)"
  by (auto simp: keeps_tree_def keeps_store_def io_return_def io_raise_def from_result_def on_cont_def on_store_eq on_git_def
      same_tree_def split: prod.splits)

lemma keeps_store_read: "(\<And>en s. snd (f en s) = s) \<Longrightarrow> keeps_store (on_store sv f)"
  unfolding keeps_store_def on_store_eq by (auto split: prod.splits) (metis snd_conv)

lemma same_tree_part [simp]: "same_tree (git_part w) (git_part v) \<longleftrightarrow> same_tree w v"
  by (simp add: same_tree_def git_part_def)

lemma on_git_part: "on_git m w = (r, w') \<Longrightarrow> \<exists>g. m (git_part w) = (r, g) \<and> w_fs w' = w_fs g \<and> gw_repo w' = gw_repo g"
  by (auto simp: on_git_def split: prod.splits)

lemma keeps_tree_git:
  fixes m :: "('a, 'r) git"
  assumes "agree R m n"
  shows "keeps_tree (on_git m)"
  unfolding keeps_tree_def
proof
  fix w :: "'r server_world"
  obtain r g where m: "m (git_part w) = (r, g)" by fastforce
  have "same_tree (git_part w) (snd (m (git_part w)))" using assms same_tree_refl [of "git_part w"] unfolding agree_def by blast
  with m show "same_tree w (snd (on_git m w))" by (simp add: on_git_def same_tree_def git_part_def)
qed

lemma keeps_record_checkpoint: "keeps_tree (record_checkpoint sv rq)"
proof -
  have "same_tree w (snd (record_checkpoint sv rq w))" for w
    by (auto simp: record_checkpoint_def on_store_eq same_tree_def split: prod.splits)
  then show ?thesis by (simp add: keeps_tree_def)
qed

lemma keeps_tree_steps:
  assumes "queries_read_only (ss_git sv)"
  shows "keeps_tree (current_branch sv)" "keeps_tree (state_branch sv)" "keeps_tree (state_snapshot sv pv rh)"
    "keeps_tree (read_authority sv owner)" "keeps_tree (ensure_state_baseline sv owner)" "keeps_tree (expected_record_of sv)"
    "keeps_tree (acquire_state_leases sv bs cid)" "keeps_tree (release_state_owner_leases sv)"
    "keeps_tree (check_drift sv expd act)" "keeps_tree (state_after sv oper br prev outc pv rh)"
proof -
  note simples = keeps_simple keeps_tree_bind keeps_record_checkpoint
  show b: "keeps_tree (current_branch sv)"
    unfolding current_branch_def
    by (rule keeps_tree_git [OF agree_queries(1) [OF assms]]) (simp add: reading_def)
  show "keeps_tree (state_branch sv)"
    unfolding state_branch_def by (auto intro!: keeps_tree_bind b keeps_simple split: option.splits)
  show s: "keeps_tree (state_snapshot sv pv rh)" for pv rh
    unfolding state_snapshot_def time_text_def
    by (auto intro!: keeps_tree_bind b keeps_simple keeps_tree_git [OF agree_snapshot [OF assms]] split: option.splits)
  show a: "keeps_tree (read_authority sv owner)" for owner
    unfolding read_authority_def by (rule simples)
  show e: "keeps_tree (ensure_state_baseline sv owner)" for owner
    unfolding ensure_state_baseline_def Let_def by (auto intro!: simples a s)
  show "keeps_tree (expected_record_of sv)"
    unfolding expected_record_of_def by (auto intro!: simples a e)
  show "keeps_tree (acquire_state_leases sv bs cid)" "keeps_tree (release_state_owner_leases sv)"
    unfolding acquire_state_leases_def release_state_owner_leases_def by (rule simples)+
  show "keeps_tree (check_drift sv expd act)"
    unfolding check_drift_def Let_def by (auto intro!: simples split: option.splits)
  show "keeps_tree (state_after sv oper br prev outc pv rh)"
    unfolding state_after_def by (auto intro!: simples s)
qed

lemma keeps_store_snapshot: "keeps_store (state_snapshot sv pv rh)"
  unfolding state_snapshot_def time_text_def current_branch_def
  by (auto intro!: keeps_store_bind keeps_simple keeps_store_read split: option.splits)

lemma keeps_store_branch: "keeps_store (state_branch sv)" "keeps_store (read_authority sv owner)"
  "keeps_store (check_drift sv expd act)"
  unfolding state_branch_def current_branch_def read_authority_def check_drift_def Let_def
  by (auto intro!: keeps_store_bind keeps_simple keeps_store_read split: option.splits)

text \<open>The counter of clock readings does not go back.\<close>

definition later :: "('a, 'r) server \<Rightarrow> bool" where
  "later m \<longleftrightarrow> (\<forall>w. sv_reads w \<le> sv_reads (snd (m w)))"

lemma laterD: "later m \<Longrightarrow> m w = (r, w') \<Longrightarrow> sv_reads w \<le> sv_reads w'"
  by (metis later_def snd_conv)

lemma later_bind:
  assumes "later m" "\<And>x. later (f x)"
  shows "later (io_bind m f)"
  unfolding later_def
proof
  fix w
  obtain r w1 where m: "m w = (r, w1)" by fastforce
  have "sv_reads w1 \<le> sv_reads (snd (f x w1))" for x using assms(2) by (simp add: later_def)
  with laterD [OF assms(1) m] m show "sv_reads w \<le> sv_reads (snd (io_bind m f w))"
    by (cases r) (auto simp: io_bind_def intro: le_trans)
qed

lemma later_simple:
  "later (io_return x)" "later (io_raise e)" "later (from_result q)" "later (on_git g)" "later (on_cont sv f)"
  "later (on_store sv h)" "later (record_checkpoint sv rq)"
  by (auto simp: later_def io_return_def io_raise_def from_result_def on_git_def on_cont_def on_store_def record_checkpoint_def
      split: prod.splits)

lemma later_steps:
  "later (current_branch sv)" "later (state_branch sv)" "later (state_snapshot sv pv rh)" "later (read_authority sv owner)"
  "later (ensure_state_baseline sv owner)" "later (expected_record_of sv)" "later (check_drift sv expd act)"
  "later (preflight_checks sv oper br prev)"
proof -
  show b: "later (current_branch sv)" unfolding current_branch_def by (rule later_simple)
  show "later (state_branch sv)"
    unfolding state_branch_def by (auto intro!: later_bind b later_simple split: option.splits)
  show s: "later (state_snapshot sv pv rh)" for pv rh
    unfolding state_snapshot_def time_text_def by (auto intro!: later_bind b later_simple split: option.splits)
  show a: "later (read_authority sv owner)" for owner unfolding read_authority_def by (rule later_simple)
  show e: "later (ensure_state_baseline sv owner)" for owner
    unfolding ensure_state_baseline_def Let_def by (auto intro!: later_bind later_simple a s)
  show "later (expected_record_of sv)" unfolding expected_record_of_def by (auto intro!: later_bind later_simple a e)
  show d: "later (check_drift sv expd act)" for expd act
    unfolding check_drift_def Let_def by (auto intro!: later_bind later_simple split: option.splits)
  show "later (preflight_checks sv oper br prev)"
    unfolding preflight_checks_def by (intro later_bind later_simple s d)
qed

lemma keepsD:
  "keeps_tree m \<Longrightarrow> m w = (r, w') \<Longrightarrow> same_tree w w'" "keeps_store m \<Longrightarrow> m w = (r, w') \<Longrightarrow> sv_store w' = sv_store w"
  by (metis keeps_tree_def snd_conv) (metis keeps_store_def snd_conv)

lemma snapshot_last:
  assumes "state_snapshot sv pv rh w = (Inr s, w')" "queries_read_only (ss_git sv)"
  obtains sa g g' where "collect_state_snapshot (ss_git sv) (ss_snap sv) (ss_effective sv) sa g = (Inr s, g')" "same_tree w g"
    "sa_push_verified sa = pv" "sa_remote_head sa = rh"
proof -
  obtain b w1 where 1: "current_branch sv w = (Inr b, w1)" and
    k1: "io_bind (case nonempty_or_none b of None \<Rightarrow> io_return None
         | Some b \<Rightarrow> on_store sv (\<lambda>en s. (inspect_writer_lease en (ss_canonical sv) b (en_clock en) s, s))) (\<lambda>lease.
     io_bind (time_text sv) (\<lambda>now.
       on_git (collect_state_snapshot (ss_git sv) (ss_snap sv) (ss_effective sv)
         \<lparr>sa_project_id = field_or_none sv (Some (ss_project sv)) ''id'', sa_version = ss_version sv,
          sa_sha = ss_sha sv, sa_protocol = ss_protocol sv, sa_writer = field_or_none sv lease ''owner'',
          sa_task = field_or_none sv lease ''logical_task'', sa_push_verified = pv,
          sa_remote_head = rh, sa_timestamp = now\<rparr>))) w1 = (Inr s, w')"
    using assms(1) unfolding state_snapshot_def by (auto elim: io_bind_Inr)
  obtain lease w2 now w3 where 2: "(case nonempty_or_none b of None \<Rightarrow> io_return None
         | Some b \<Rightarrow> on_store sv (\<lambda>en s. (inspect_writer_lease en (ss_canonical sv) b (en_clock en) s, s))) w1 = (Inr lease, w2)"
    and 3: "time_text sv w2 = (Inr now, w3)"
    and 4: "on_git (collect_state_snapshot (ss_git sv) (ss_snap sv) (ss_effective sv)
         \<lparr>sa_project_id = field_or_none sv (Some (ss_project sv)) ''id'', sa_version = ss_version sv,
          sa_sha = ss_sha sv, sa_protocol = ss_protocol sv, sa_writer = field_or_none sv lease ''owner'',
          sa_task = field_or_none sv lease ''logical_task'', sa_push_verified = pv,
          sa_remote_head = rh, sa_timestamp = now\<rparr>) w3 = (Inr s, w')"
    using k1 by (elim io_bind_Inr)
  have "same_tree w w1" by (rule keepsD(1) [OF keeps_tree_steps(1) [OF assms(2)] 1])
  moreover have "same_tree w1 w2"
    using 2 by (auto simp: io_return_def on_store_eq same_tree_def split: option.splits)
  moreover have "same_tree w2 w3" using 3 by (auto simp: time_text_def on_store_eq same_tree_def)
  moreover have "same_tree w3 (git_part w3)" by (simp add: same_tree_def git_part_def)
  ultimately have t: "same_tree w (git_part w3)" by (meson same_tree_trans)
  from on_git_part [OF 4] obtain g' where c: "collect_state_snapshot (ss_git sv) (ss_snap sv) (ss_effective sv)
         \<lparr>sa_project_id = field_or_none sv (Some (ss_project sv)) ''id'', sa_version = ss_version sv,
          sa_sha = ss_sha sv, sa_protocol = ss_protocol sv, sa_writer = field_or_none sv lease ''owner'',
          sa_task = field_or_none sv lease ''logical_task'', sa_push_verified = pv,
          sa_remote_head = rh, sa_timestamp = now\<rparr> (git_part w3) = (Inr s, g')" by blast
  show thesis by (rule that [OF c t]) simp_all
qed

text \<open>Two snapshots of one tree do not drift, whenever and by whomever they are taken.\<close>

lemma snapshots_agree:
  assumes "queries_read_only (ss_git sv)" "same_tree w v"
    and "state_snapshot sv a b w = (Inr s, w')" "state_snapshot sv c d v = (Inr t, v')"
  shows "no_drift s t"
proof -
  obtain sa g g' where 1: "collect_state_snapshot (ss_git sv) (ss_snap sv) (ss_effective sv) sa g = (Inr s, g')" "same_tree w g"
    using snapshot_last [OF assms(3,1)] by metis
  obtain sb h h' where 2: "collect_state_snapshot (ss_git sv) (ss_snap sv) (ss_effective sv) sb h = (Inr t, h')" "same_tree v h"
    using snapshot_last [OF assms(4,1)] by metis
  have "same_tree g h" using 1(2) 2(2) assms(2) by (auto simp: same_tree_def)
  with agree_Inr [OF agree_snapshot [OF assms(1)] _ 1(1) 2(1)] show ?thesis by blast
qed

section \<open>The records of the store\<close>

lemma store_at_simps [simp]:
  "en_config_root (store_at sv n) = en_config_root (ss_cont sv)" "en_scope_id (store_at sv n) = en_scope_id (ss_cont sv)"
  "en_clock (store_at sv n) = ss_clock sv n" "en_float (store_at sv n) = en_float (ss_cont sv)"
  by (simp_all add: store_at_def cont_at_def store_env.truncate_def)

lemma paths_at:
  "lease_path (store_at sv n) project b = lease_path (store_at sv 0) project b"
  "state_root (store_at sv n) project = state_root (store_at sv 0) project"
  "read_lease (store_at sv n) project s b = read_lease (store_at sv 0) project s b"
  "read_authoritative_state_checkpoint (store_at sv n) project ow s = read_authoritative_state_checkpoint (store_at sv 0) project ow s"
  "lease_active (store_at sv n) ob now = lease_active (store_at sv 0) ob now"
  by (simp_all add: lease_active_def lease_path_def state_root_def read_lease_def read_authoritative_state_checkpoint_def context_checkpoint_path_def split: option.split json.split)

definition authority_record :: "'r state_setting \<Rightarrow> 'r server_world \<Rightarrow> obj option result" where
  "authority_record sv w = read_authoritative_state_checkpoint (store_at sv 0) (ss_canonical sv) (state_owner sv) (sv_store w)"

text \<open>The lease of a branch is the owner's, and stays active before the given time.\<close>

definition owns_lease :: "'r state_setting \<Rightarrow> 'r server_world \<Rightarrow> real \<Rightarrow> string \<Rightarrow> bool" where
  "owns_lease sv w t b \<longleftrightarrow>
     (\<exists>ob. read_lease (store_at sv 0) (ss_canonical sv) (sv_store w) b = Inr (Some ob) \<and>
        obj_get ob ''owner'' = JStr (state_owner sv) \<and> (\<forall>now < t. lease_active (store_at sv 0) ob now))"

lemma acquire_other:
  assumes "acquire_writer_leases env project rq s = (r, s')" "\<And>b. lease_path env project b \<noteq> Inr p"
  shows "read_json s' p = read_json s p"
  using assms(1)
proof (cases rule: acquire_cases)
  case (wrote existing records paths u)
  have "p \<notin> set paths"
    using rmap_Inr_nth [OF wrote(4)] rmap_Inr_length [OF wrote(4)] assms(2) by (metis in_set_conv_nth)
  then have "p \<notin> fst ` set (zip paths (map snd records))" using set_zip_leftD by fastforce
  with js.write_all_other wrote(5) show ?thesis by (auto simp: write_leases_write_all)
qed simp

lemma release_loop_other: "p \<notin> set ps \<Longrightarrow> read_json (snd (release_loop ow task ps s)) p = read_json s p"
proof (induction ow task ps s rule: release_loop.induct)
  case (2 ow task q ps s)
  then show ?case by (auto split: sum.splits option.splits prod.splits if_splits simp: js.read_unlink)
qed simp

lemma release_loop_released:
  "release_loop ow None ps s = (Inr r, s') \<Longrightarrow> p \<in> set ps \<Longrightarrow> read_json s' p = Inr (Some ob) \<Longrightarrow>
   obj_get ob ''owner'' \<noteq> JStr ow"
proof (induction ps arbitrary: s r)
  case (Cons q ps)
  note rest = release_loop_other [of p ps ow None s] release_loop_other [of p ps ow None "unlink_json q s"]
  show ?case
  proof (cases "p \<in> set ps")
    case True
    with Cons show ?thesis by (auto split: sum.splits option.splits prod.splits if_splits)
  next
    case False
    with Cons.prems have "p = q" by simp
    with Cons.prems rest False show ?thesis
      by (auto split: sum.splits option.splits prod.splits if_splits simp: js.read_unlink)
  qed
qed simp

text \<open>The checkpoint of a context is no lease and no checkpoint of a branch.\<close>

lemma context_path_no_lease:
  assumes "context_checkpoint_path env project ow = Inr p"
  shows "lease_path env project b \<noteq> Inr p" "state_root env project = Inr rt \<Longrightarrow> p \<notin> set (lease_files rt s)"
    "checkpoint_path env project b before \<noteq> Inr p"
  using assms by (auto simp: context_checkpoint_path_def lease_path_def checkpoint_path_def lease_files_def result_simps butlast_append)

lemma authority_acquire:
  assumes "acquire_writer_leases env project rq s = (r, s')"
  shows "read_authoritative_state_checkpoint env project ow s' = read_authoritative_state_checkpoint env project ow s"
proof (cases "context_checkpoint_path env project ow")
  case (Inr p)
  from acquire_other [OF assms context_path_no_lease(1) [OF Inr]] Inr show ?thesis
    by (simp add: read_authoritative_state_checkpoint_def)
qed (simp add: read_authoritative_state_checkpoint_def)

lemma authority_release:
  assumes "release_owner_leases env project own task s = (r, s')"
  shows "read_authoritative_state_checkpoint env project ow s' = read_authoritative_state_checkpoint env project ow s"
proof (cases "context_checkpoint_path env project ow")
  case (Inr p)
  then obtain rt where rt: "state_root env project = Inr rt" by (auto simp: context_checkpoint_path_def result_simps)
  obtain q s1 where l: "release_loop own task (lease_files rt s) s = (q, s1)" by fastforce
  then have "s' = s1" using assms rt by (auto simp: release_owner_leases_def split: sum.splits)
  with release_loop_other [OF context_path_no_lease(2) [OF Inr rt], of own task s s] l Inr show ?thesis
    by (simp add: read_authoritative_state_checkpoint_def)
qed (simp add: read_authoritative_state_checkpoint_def)

lemma authority_before:
  assumes "write_state_checkpoint env project i rq s = (r, s')" "cr_phase rq = ''before''"
  shows "read_authoritative_state_checkpoint env project ow s' = read_authoritative_state_checkpoint env project ow s"
proof (cases "context_checkpoint_path env project ow")
  case (Inr p)
  then obtain q where q: "checkpoint_path env project (cr_branch rq) True = Inr q"
    by (auto simp: checkpoint_path_def context_checkpoint_path_def result_simps)
  then have "q \<noteq> p" using context_path_no_lease(3) [OF Inr] by metis
  obtain u s1 where w: "write_json env q (checkpoint_record env i rq) s = (u, s1)" by fastforce
  have "s' = s1" using assms q w by (auto simp: write_state_checkpoint_def Let_def split: sum.splits option.splits)
  with js.read_write_other [OF w] \<open>q \<noteq> p\<close> Inr show ?thesis
    by (auto simp: read_authoritative_state_checkpoint_def)
qed (simp add: read_authoritative_state_checkpoint_def)

lemma authority_after:
  assumes w: "write_state_checkpoint env project i rq s = (Inr r, s')" and ph: "cr_phase rq \<noteq> ''before''"
    and a: "cr_authority rq = Some ow"
  shows "read_authoritative_state_checkpoint env project ow s' = Inr (Some r)" "r = checkpoint_record env i rq"
proof -
  obtain q where q: "checkpoint_path env project (cr_branch rq) False = Inr q"
    using w ph by (cases "checkpoint_path env project (cr_branch rq) False") (simp_all add: write_state_checkpoint_def Let_def)
  obtain u s1 where u: "write_json env q (checkpoint_record env i rq) s = (u, s1)" by fastforce
  then obtain x where x: "u = Inr x" using w ph q by (cases u) (simp_all add: write_state_checkpoint_def Let_def)
  obtain p where p: "context_checkpoint_path env project ow = Inr p"
    using w ph q u x a by (cases "context_checkpoint_path env project ow") (simp_all add: write_state_checkpoint_def Let_def)
  obtain v s2 where v: "write_json env p (checkpoint_record env i rq) s1 = (v, s2)" by fastforce
  then obtain y where y: "v = Inr y" using w ph q u x a p by (cases v) (simp_all add: write_state_checkpoint_def Let_def)
  have "s' = s2" and r: "r = checkpoint_record env i rq"
    using w ph q u x a p v y by (simp_all add: write_state_checkpoint_def Let_def)
  then show "read_authoritative_state_checkpoint env project ow s' = Inr (Some r)" "r = checkpoint_record env i rq"
    using js.read_write_same [of env p "checkpoint_record env i rq" s1 y s2] v y p
    by (simp_all add: read_authoritative_state_checkpoint_def)
qed

lemma leases_before:
  assumes "write_state_checkpoint env project i rq s = (r, s')" "cr_phase rq = ''before''"
  shows "read_lease env project s' b = read_lease env project s b"
proof (cases "lease_path env project b")
  case (Inr p)
  then obtain q where q: "checkpoint_path env project (cr_branch rq) True = Inr q" "q \<noteq> p"
    by (auto simp: checkpoint_path_def lease_path_def result_simps)
  obtain u s1 where w: "write_json env q (checkpoint_record env i rq) s = (u, s1)" by fastforce
  have "s' = s1" using assms q w by (auto simp: write_state_checkpoint_def Let_def split: sum.splits option.splits)
  with js.read_write_other [OF w] q(2) Inr show ?thesis by (auto simp: read_lease_def)
qed (simp add: read_lease_def)

section \<open>What the guard establishes\<close>

lemma io_on_error_Inr: "io_on_error m f w = (Inr x, w') \<Longrightarrow> m w = (Inr x, w')"
  by (auto simp: io_on_error_def io_catch_def io_bind_def io_raise_def split: prod.splits sum.splits)

lemma io_bind_Inl:
  assumes "io_bind m f w = (Inl e, w')"
  obtains "m w = (Inl e, w')" | x w1 where "m w = (Inr x, w1)" "f x w1 = (Inl e, w')"
  using assms by (auto simp: io_bind_def split: prod.splits sum.splits)

lemma read_authority_eq:
  "read_authority sv (state_owner sv) w = (authority_record sv w, w\<lparr>sv_reads := Suc (sv_reads w)\<rparr>)"
  by (simp add: read_authority_def on_store_eq authority_record_def paths_at(4) [of sv "sv_reads w"])

lemma record_checkpoint_store:
  assumes "record_checkpoint sv rq w = (r, w')"
  shows "write_state_checkpoint (store_at sv (sv_reads w)) (ss_canonical sv) (ss_uuid sv (sv_ids w)) rq (sv_store w) = (r, sv_store w')"
  using assms by (auto simp: record_checkpoint_def on_store_eq split: prod.splits)

lemma record_authority:
  assumes "record_checkpoint sv rq w = (Inr r, w')" "cr_phase rq \<noteq> ''before''" "cr_authority rq = Some (state_owner sv)"
  shows "authority_record sv w' = Inr (Some r)" "obj_get r ''snapshot'' = JObj (cr_snapshot rq)"
    "obj_get r ''outcome'' = JStr (cr_outcome rq)"
  using authority_after [OF record_checkpoint_store [OF assms(1)] assms(2,3)]
  by (auto simp: authority_record_def paths_at(4) [of sv "sv_reads w"] checkpoint_record_def obj_get_def)

lemma record_before:
  assumes "record_checkpoint sv rq w = (r, w')" "cr_phase rq = ''before''"
  shows "authority_record sv w' = authority_record sv w" "owns_lease sv w' t b = owns_lease sv w t b"
  using authority_before [OF record_checkpoint_store [OF assms(1)] assms(2), of "state_owner sv"]
    leases_before [OF record_checkpoint_store [OF assms(1)] assms(2), of b]
  by (simp_all add: authority_record_def owns_lease_def paths_at(3,4) [of sv "sv_reads w"])

lemma authority_keeps: "sv_store w' = sv_store w \<Longrightarrow> authority_record sv w' = authority_record sv w"
  by (simp add: authority_record_def)

lemma expected_record_Inr:
  assumes "expected_record_of sv w = (Inr r, w')"
  shows "authority_record sv w' = Inr r"
proof -
  let ?w1 = "w\<lparr>sv_reads := Suc (sv_reads w)\<rparr>"
  have a1: "authority_record sv ?w1 = authority_record sv w" by (rule authority_keeps) simp
  obtain f where f: "authority_record sv w = Inr f"
    using assms by (cases "authority_record sv w") (auto simp: expected_record_of_def io_bind_def read_authority_eq)
  show ?thesis
  proof (cases f)
    case (Some ob)
    with assms f a1 show ?thesis by (auto simp: expected_record_of_def io_bind_def read_authority_eq io_return_def)
  next
    case None
    then have e: "ensure_state_baseline sv (state_owner sv) ?w1 = (Inr r, w')"
      using assms f by (simp add: expected_record_of_def io_bind_def read_authority_eq)
    let ?w2 = "?w1\<lparr>sv_reads := Suc (sv_reads ?w1)\<rparr>"
    have a2: "authority_record sv ?w2 = Inr None" using f None by (simp add: authority_record_def)
    obtain actual w3 where s: "state_snapshot sv None None ?w2 = (Inr actual, w3)"
      and k: "(if field_text sv actual ''branch'' = [] then io_return None
         else io_bind (record_checkpoint sv
           \<lparr>cr_branch = field_text sv actual ''branch'', cr_snapshot = actual, cr_phase = ''baseline'',
            cr_operation = ''context_baseline'', cr_owner = Some (state_owner sv), cr_task = ss_task sv,
            cr_outcome = ''baseline'', cr_previous = None, cr_authority = Some (state_owner sv)\<rparr>)
           (\<lambda>r. io_return (Some r))) w3 = (Inr r, w')"
    proof -
      have "io_bind (state_snapshot sv None None) (\<lambda>actual. let branch = field_text sv actual ''branch'' in
          if branch = [] then io_return None
          else io_bind (record_checkpoint sv
           \<lparr>cr_branch = branch, cr_snapshot = actual, cr_phase = ''baseline'',
            cr_operation = ''context_baseline'', cr_owner = Some (state_owner sv), cr_task = ss_task sv,
            cr_outcome = ''baseline'', cr_previous = None, cr_authority = Some (state_owner sv)\<rparr>)
           (\<lambda>r. io_return (Some r))) ?w2 = (Inr r, w')"
        using e a1 f None unfolding ensure_state_baseline_def
        by (simp add: io_bind_def [of "read_authority sv (state_owner sv)"] read_authority_eq a1)
      then show thesis using that by (auto elim!: io_bind_Inr simp: Let_def)
    qed
    have a3: "authority_record sv w3 = Inr None"
      using a2 authority_keeps [OF keepsD(2) [OF keeps_store_snapshot s]] by simp
    show ?thesis
    proof (cases "field_text sv actual ''branch'' = []")
      case True
      with k a3 show ?thesis by (simp add: io_return_def)
    next
      case False
      then obtain r' where "record_checkpoint sv
           \<lparr>cr_branch = field_text sv actual ''branch'', cr_snapshot = actual, cr_phase = ''baseline'',
            cr_operation = ''context_baseline'', cr_owner = Some (state_owner sv), cr_task = ss_task sv,
            cr_outcome = ''baseline'', cr_previous = None, cr_authority = Some (state_owner sv)\<rparr> w3 = (Inr r', w')"
        "r = Some r'"
        using k by (auto elim!: io_bind_Inr simp: io_return_def)
      with record_authority(1) show ?thesis by fastforce
    qed
  qed
qed

lemma acquired_leases:
  assumes "acquire_state_leases sv bs cid w = (Inr ls, w')"
  shows "authority_record sv w' = authority_record sv w"
    "\<And>b. b \<in> set bs \<Longrightarrow> b \<noteq> [] \<Longrightarrow> owns_lease sv w' (ss_clock sv (sv_reads w) + of_int DEFAULT_WRITER_TTL_SECONDS) b"
    "sv_reads w' = Suc (sv_reads w)"
proof -
  show "sv_reads w' = Suc (sv_reads w)" using assms by (auto simp: acquire_state_leases_def on_store_eq split: prod.splits)
  let ?rq = "\<lparr>lr_branches = bs, lr_owner = state_owner sv, lr_task = ss_task sv, lr_ttl = DEFAULT_WRITER_TTL_SECONDS,
        lr_checkpoint = cid, lr_now = ss_clock sv (sv_reads w)\<rparr>"
  have a: "acquire_writer_leases (store_at sv (sv_reads w)) (ss_canonical sv) ?rq (sv_store w) = (Inr ls, sv_store w')"
    using assms by (auto simp: acquire_state_leases_def on_store_eq split: prod.splits)
  from authority_acquire [OF a, of "state_owner sv"]
  show "authority_record sv w' = authority_record sv w"
    by (simp add: authority_record_def paths_at(4) [of sv "sv_reads w"])
  fix b
  assume "b \<in> set bs" "b \<noteq> []"
  with acquire_Inr [OF a, of b]
  show "owns_lease sv w' (ss_clock sv (sv_reads w) + of_int DEFAULT_WRITER_TTL_SECONDS) b"
    by (auto simp: owns_lease_def read_lease_def paths_at(1,5) [of sv "sv_reads w"])
qed

lemma preflight_checks_Inr:
  assumes "preflight_checks sv oper branch previous w = (Inr (b, p, actual), w')" and q: "queries_read_only (ss_git sv)"
  shows "b = branch" "p = previous" "same_tree w w'" "authority_record sv w' = authority_record sv w"
    "owns_lease sv w' t x = owns_lease sv w t x" "\<And>e. expected_snapshot previous = Some e \<Longrightarrow> compare_snapshots e actual = []"
    "\<exists>v. state_snapshot sv None None w = (Inr actual, v)"
proof -
  obtain act w1 w2 w3 u r where s: "state_snapshot sv None None w = (Inr act, w1)"
    and d: "check_drift sv previous act w1 = (Inr u, w2)"
    and c: "record_checkpoint sv (before_request sv oper branch previous act) w2 = (Inr r, w3)"
    and "io_return (branch, previous, act) w3 = (Inr (b, p, actual), w')"
    using assms(1) unfolding preflight_checks_def by (elim io_bind_Inr)
  then have eqs: "b = branch" "p = previous" "act = actual" "w3 = w'" by (simp_all add: io_return_def)
  show "b = branch" "p = previous" by (rule eqs)+
  have "same_tree w w1" "same_tree w1 w2" "same_tree w2 w3"
    using keepsD(1) [OF keeps_tree_steps(3) [OF q] s] keepsD(1) [OF keeps_tree_steps(9) [OF q] d]
      keepsD(1) [OF keeps_record_checkpoint c] by blast+
  then show "same_tree w w'" using eqs by (meson same_tree_trans)
  have st: "sv_store w2 = sv_store w"
    using keepsD(2) [OF keeps_store_snapshot s] keepsD(2) [OF keeps_store_branch(3) d] by simp
  have ph: "cr_phase (before_request sv oper branch previous act) = ''before''" by (simp add: before_request_def)
  show "authority_record sv w' = authority_record sv w"
    using record_before(1) [OF c ph] authority_keeps [OF st] eqs by simp
  show "owns_lease sv w' t x = owns_lease sv w t x"
    using record_before(2) [OF c ph, of t x] st eqs by (simp add: owns_lease_def)
  show "compare_snapshots e actual = []" if "expected_snapshot previous = Some e" for e
    using d that eqs by (auto simp: check_drift_def Let_def io_bind_def io_raise_def from_result_def split: if_splits sum.splits)
  show "\<exists>v. state_snapshot sv None None w = (Inr actual, v)" using s eqs by blast
qed

lemma io_finally_Inr:
  assumes "io_finally m f w = (Inr x, w')"
  obtains w1 y where "m w = (Inr x, w1)" "f w1 = (Inr y, w')"
  using assms by (auto simp: io_finally_def split: prod.splits sum.splits)

lemma keeps_tree_preflight:
  assumes "queries_read_only (ss_git sv)"
  shows "keeps_tree (state_preflight sv oper bs)"
proof -
  have "keeps_tree (preflight_checks sv oper b previous)" for b previous
    unfolding preflight_checks_def
    by (intro keeps_tree_bind keeps_tree_steps [OF assms] keeps_record_checkpoint keeps_simple)
  then show ?thesis
    unfolding state_preflight_def io_on_error_def
    by (intro keeps_tree_bind keeps_tree_catch keeps_tree_steps [OF assms] keeps_simple)
qed

lemma state_branch_Inr: "state_branch sv w = (Inr b, w') \<Longrightarrow> b \<noteq> []"
  by (auto simp: state_branch_def nonempty_or_none_def io_return_def io_raise_def elim!: io_bind_Inr split: option.splits list.splits)

text \<open>A snapshot names the branch that git named before in the same tree.\<close>

lemma snapshot_branch:
  assumes q: "queries_read_only (ss_git sv)" and b: "state_branch sv w = (Inr branch, w1)" and t: "same_tree w v"
    and s: "state_snapshot sv pv rh v = (Inr s, v')"
  shows "obj_get s ''branch'' = JStr branch"
proof -
  let ?ask = "git_text (ss_git sv) (ss_effective sv) [''branch'', ''--show-current'']"
  obtain x where x: "current_branch sv w = (Inr x, w1)" "nonempty_or_none x = Some branch"
    using b unfolding state_branch_def by (auto elim!: io_bind_Inr simp: io_return_def io_raise_def split: option.splits)
  obtain g where g: "?ask (git_part w) = (Inr x, g)" using on_git_part [OF x(1) [unfolded current_branch_def]] by blast
  obtain sa h h' where col: "collect_state_snapshot (ss_git sv) (ss_snap sv) (ss_effective sv) sa h = (Inr s, h')" "same_tree v h"
    using snapshot_last [OF s q] by metis
  obtain y h1 where y: "?ask h = (Inr y, h1)" and o: "obj_get s ''branch'' = str_or_null (nonempty_or_none y)"
    using collect_object [OF col(1)] by (auto simp: snapshot_object_def obj_get_def)
  have "same_tree (git_part w) h" using t col(2) by (auto simp: same_tree_def git_part_def)
  then have "x = y" using agree_Inr [OF agree_queries(1) [OF q] _ g y] by (simp add: reading_def)
  with x(2) o show ?thesis by (simp add: str_or_null_def)
qed

lemma preflight_Inr:
  assumes "state_preflight sv oper bs w = (Inr (branch, previous, actual), w')" and q: "queries_read_only (ss_git sv)"
  shows "authority_record sv w' = Inr previous" "branch \<noteq> []"
    "\<exists>n. sv_reads w \<le> n \<and> n < sv_reads w' \<and>
       (\<forall>b \<in> set (branch # bs). b \<noteq> [] \<longrightarrow> owns_lease sv w' (ss_clock sv n + of_int DEFAULT_WRITER_TTL_SECONDS) b)"
    "\<And>s v. state_snapshot sv None None w' = (Inr s, v) \<Longrightarrow> obj_get s ''branch'' = JStr branch"
    "\<And>e s v. expected_snapshot previous = Some e \<Longrightarrow> state_snapshot sv None None w' = (Inr s, v) \<Longrightarrow> compare_snapshots e s = []"
proof -
  obtain br w1 r w2 ls w3 where b: "state_branch sv w = (Inr br, w1)" and r: "expected_record_of sv w1 = (Inr r, w2)"
    and l: "acquire_state_leases sv (br # bs) (field_or_none sv r ''checkpoint_id'') w2 = (Inr ls, w3)"
    and c: "preflight_checks sv oper br r w3 = (Inr (branch, previous, actual), w')"
    using assms(1) unfolding state_preflight_def by (elim io_bind_Inr) (blast dest: io_on_error_Inr)
  note ch = preflight_checks_Inr [OF c q]
  have reads: "sv_reads w \<le> sv_reads w2" "sv_reads w2 < sv_reads w3" "sv_reads w3 \<le> sv_reads w'"
    using laterD [OF later_steps(2) b] laterD [OF later_steps(6) r] acquired_leases(3) [OF l] laterD [OF later_steps(8) c] by simp_all
  have t: "same_tree w w1" "same_tree w w'"
    using keepsD(1) [OF keeps_tree_steps(2) [OF q] b] keepsD(1) [OF keeps_tree_preflight [OF q] assms(1)] by simp_all
  show "branch \<noteq> []" using state_branch_Inr [OF b] ch(1) by simp
  show "obj_get s ''branch'' = JStr branch" if "state_snapshot sv None None w' = (Inr s, v)" for s v
    using snapshot_branch [OF q b t(2) that] ch(1) by simp
  show "authority_record sv w' = Inr previous"
    using expected_record_Inr [OF r] acquired_leases(1) [OF l] ch(2,4) by simp
  have "\<forall>b \<in> set (branch # bs). b \<noteq> [] \<longrightarrow>
      owns_lease sv w' (ss_clock sv (sv_reads w2) + of_int DEFAULT_WRITER_TTL_SECONDS) b"
    using acquired_leases(2) [OF l] ch(1,5) by simp
  with reads show "\<exists>n. sv_reads w \<le> n \<and> n < sv_reads w' \<and>
       (\<forall>b \<in> set (branch # bs). b \<noteq> [] \<longrightarrow> owns_lease sv w' (ss_clock sv n + of_int DEFAULT_WRITER_TTL_SECONDS) b)"
    by (intro exI [of _ "sv_reads w2"]) simp
  fix e s v
  assume e: "expected_snapshot previous = Some e" and s: "state_snapshot sv None None w' = (Inr s, v)"
  obtain v0 where "state_snapshot sv None None w3 = (Inr actual, v0)" using ch(7) by blast
  then have "no_drift actual s" by (rule snapshots_agree [OF q ch(3) _ s])
  moreover have "compare_snapshots e actual = []" using ch(2,6) e by simp
  ultimately show "compare_snapshots e s = []"
    by (auto simp: compare_snapshots_def no_drift_def list_all_iff filter_empty_conv)
qed

lemma released_leases:
  assumes "release_state_owner_leases sv w = (Inr ls, w')"
  shows "\<not> owns_lease sv w' t b" "authority_record sv w' = authority_record sv w"
proof -
  have r: "release_owner_leases (store_at sv (sv_reads w)) (ss_canonical sv) (state_owner sv) None (sv_store w) = (Inr ls, sv_store w')"
    using assms by (auto simp: release_state_owner_leases_def on_store_eq split: prod.splits)
  from authority_release [OF r, of "state_owner sv"]
  show "authority_record sv w' = authority_record sv w" by (simp add: authority_record_def paths_at(4) [of sv "sv_reads w"])
  obtain rt where rt: "state_root (store_at sv (sv_reads w)) (ss_canonical sv) = Inr rt"
    using r by (auto simp: release_owner_leases_def split: sum.splits)
  then obtain rs where l: "release_loop (state_owner sv) None (lease_files rt (sv_store w)) (sv_store w) = (Inr rs, sv_store w')"
    using r by (auto simp: release_owner_leases_def split: sum.splits prod.splits)
  show "\<not> owns_lease sv w' t b"
  proof
    assume "owns_lease sv w' t b"
    then obtain p ob where p: "lease_path (store_at sv (sv_reads w)) (ss_canonical sv) b = Inr p"
      "read_json (sv_store w') p = Inr (Some ob)" "obj_get ob ''owner'' = JStr (state_owner sv)"
      by (auto simp: owns_lease_def read_lease_def paths_at(1) [of sv "sv_reads w"] result_simps)
    have "p \<notin> set (lease_files rt (sv_store w))" using release_loop_released [OF l _ p(2)] p(3) by blast
    moreover from this have "read_json (sv_store w) p = Inr (Some ob)"
      using release_loop_other [of p "lease_files rt (sv_store w)" "state_owner sv" None "sv_store w"] l p(2) by simp
    then have "map_of (st_files (sv_store w)) p \<noteq> None" by (auto simp: read_json_def split: option.splits)
    then have "p \<in> set (keys (st_files (sv_store w)))" by (metis keys_def map_of_eq_None_iff set_map)
    moreover have "butlast p = rt @ [''leases'']" "p \<noteq> []" "endswith (last p) ''.json''"
      using p(1) rt by (auto simp: lease_path_def result_simps butlast_append endswith_def)
    ultimately show False by (simp add: lease_files_def)
  qed
qed

lemma state_after_Inr:
  assumes "state_after sv oper branch previous outcome pv rh w = (Inr cp, w')" and q: "queries_read_only (ss_git sv)"
  shows "authority_record sv w' = Inr (Some cp)" "obj_get cp ''outcome'' = JStr outcome"
    "\<exists>snap. expected_snapshot (Some cp) = Some snap \<and> obj_get snap ''push_verified'' = (case pv of None \<Rightarrow> JNull | Some b \<Rightarrow> JBool b) \<and>
       obj_get snap ''remote_head'' = str_or_null rh \<and>
       (\<forall>a b s v v'. same_tree w' v \<longrightarrow> state_snapshot sv a b v = (Inr s, v') \<longrightarrow> compare_snapshots snap s = [])"
proof -
  obtain actual w1 where s: "state_snapshot sv pv rh w = (Inr actual, w1)"
    and c: "record_checkpoint sv (after_request sv oper branch previous outcome actual) w1 = (Inr cp, w')"
    using assms(1) unfolding state_after_def by (elim io_bind_Inr)
  have r: "cr_phase (after_request sv oper branch previous outcome actual) \<noteq> ''before''"
    "cr_authority (after_request sv oper branch previous outcome actual) = Some (state_owner sv)"
    "cr_snapshot (after_request sv oper branch previous outcome actual) = actual"
    "cr_outcome (after_request sv oper branch previous outcome actual) = outcome"
    by (simp_all add: after_request_def)
  note f = record_authority [OF c r(1,2), unfolded r(3,4)]
  show "authority_record sv w' = Inr (Some cp)" "obj_get cp ''outcome'' = JStr outcome" by (rule f)+
  have e: "expected_snapshot (Some cp) = Some actual" using f(2) by (simp add: expected_snapshot_def)
  have t: "same_tree w w'"
    using keepsD(1) [OF keeps_tree_steps(3) [OF q] s] keepsD(1) [OF keeps_record_checkpoint c] by (rule same_tree_trans)
  have "compare_snapshots actual t = []" if "same_tree w' v" "state_snapshot sv a b v = (Inr t, v')" for a b t v v'
    using snapshots_agree [OF q same_tree_trans [OF \<open>same_tree w w'\<close> that(1)] s that(2)] by (rule no_drift_compare)
  moreover obtain sa g g' where col: "collect_state_snapshot (ss_git sv) (ss_snap sv) (ss_effective sv) sa g = (Inr actual, g')"
    and sa: "sa_push_verified sa = pv" "sa_remote_head sa = rh"
    using snapshot_last [OF s q] by metis
  moreover have "obj_get actual ''push_verified'' = (case pv of None \<Rightarrow> JNull | Some b \<Rightarrow> JBool b)"
    "obj_get actual ''remote_head'' = str_or_null rh"
    using collect_object [OF col] sa by (auto simp: snapshot_object_def obj_get_def)
  ultimately show "\<exists>snap. expected_snapshot (Some cp) = Some snap \<and> obj_get snap ''push_verified'' = (case pv of None \<Rightarrow> JNull | Some b \<Rightarrow> JBool b) \<and>
       obj_get snap ''remote_head'' = str_or_null rh \<and>
       (\<forall>a b s v v'. same_tree w' v \<longrightarrow> state_snapshot sv a b v = (Inr s, v') \<longrightarrow> compare_snapshots snap s = [])"
    using e by blast
qed

end
