(* ===== verification/StateGuard.thy ===== *)
theory StateGuard
  imports StateServer
begin

text \<open>
  What the state-managed runtime guarantees: the theorems on the guard, on pushes and on continuation
  checkpoints, and a server on which their hypotheses hold.
\<close>

section \<open>A server for the witnesses\<close>


text \<open>
  A git that answers every query with the same text and no paths, and a store
  without failing calls.
\<close>

definition still_git :: "nat git_program" where
  "still_git env argv s r =
     (Inr \<lparr>go_code = 0, go_stdout = (if last argv = ''--is-inside-work-tree'' then ''true'' else ''main''), go_stderr = [],
           go_bytes = []\<rparr>, s, r)"

definition still_setting :: "nat git_setting" where
  "still_setting =
     \<lparr>ge_git = Some ''git'', ge_run = still_git, ge_environ = [], ge_set = [], ge_credentials = None,
      ge_ws = demo_ws ''build'', ge_other = (\<lambda>_. []), ge_baselines = [], ge_unified_diff = (\<lambda>_ _ _ _. [])\<rparr>"

definition still_server :: "nat state_setting" where
  "still_server =
     \<lparr>ss_git = still_setting,
      ss_snap = \<lparr>sn_sha256 = (\<lambda>t. t), sn_evidence = (\<lambda>ds. ''e''), sn_fingerprint = (\<lambda>v. ''f''), sn_bracketed = (\<lambda>_. True)\<rparr>,
      ss_cont = demo_cont, ss_clock = of_nat, ss_uuid = (\<lambda>_. ''id''), ss_canonical = [''w''], ss_effective = [''w''],
      ss_context = Some ''A'', ss_instance = ''i'', ss_task = None, ss_project = [], ss_version = ''1'',
      ss_sha = None, ss_protocol = ''2'', ss_transport = ''http''\<rparr>"

definition still_world :: "nat server_world" where
  "still_world =
     \<lparr>w_fs = [], w_calls = 0, gw_repo = 0, gw_trace = [], sv_store = \<lparr>st_files = [], st_calls = 0\<rparr>, sv_reads = 0, sv_ids = 0\<rparr>"

lemma still_read_only: "queries_read_only (ss_git still_server)"
  by (simp add: queries_read_only_def still_server_def still_setting_def still_git_def)

text \<open>A git program that returns the given value in every world.\<close>

definition settles :: "('a, 'r) git \<Rightarrow> 'a \<Rightarrow> bool" where
  "settles m x \<longleftrightarrow> (\<forall>w. fst (m w) = Inr x)"

lemma settles_bind: "settles m x \<Longrightarrow> settles (f x) y \<Longrightarrow> settles (io_bind m f) y"
  unfolding settles_def io_bind_def by (auto split: prod.splits sum.splits) (metis fst_conv sum.inject(2) sum.distinct(1))+

lemma settles_simple: "settles (io_return x) x" "r = Inr y \<Longrightarrow> settles (lift_r r) y" "(\<And>s. h s = Inr z) \<Longrightarrow> settles (reads h) z"
  by (auto simp: settles_def io_return_def lift_r_def reads_def)

definition plain_words :: "string list \<Rightarrow> bool" where
  "plain_words ws \<longleftrightarrow> ws \<noteq> [] \<and> last ws \<noteq> ''--is-inside-work-tree'' \<and> \<not> list_ex (\<lambda>a. CHR 0x00 \<in> set a) ws"

lemma settles_still:
  assumes "plain_words ws"
  shows "settles (git_text still_setting [''w''] ws) (Some ''main'')" "settles (git_bytes still_setting [''w''] ws) (Some [])"
    "settles (git_paths still_setting [''w''] ws) []"
proof -
  have m: "strip_str ''main'' = ''main''" by code_simp
  note defs = still_setting_def run_git_def still_git_def io_catch_def io_bind_def io_return_def plain_words_def abs_text_def
  show "settles (git_text still_setting [''w''] ws) (Some ''main'')"
    using assms m by (simp add: settles_def git_text_def defs)
  show b: "settles (git_bytes still_setting [''w''] ws) (Some [])"
    using assms by (simp add: settles_def git_bytes_def defs)
  show "settles (git_paths still_setting [''w''] ws) []"
    unfolding git_paths_def by (rule settles_bind [OF b]) (simp add: settles_def io_return_def)
qed

definition still_snapshot :: "snapshot_args \<Rightarrow> obj" where
  "still_snapshot sa = snapshot_object sa (Some ''main'') (Some ''main'') (Some ''main'') (Some ''main'') (Some ''main'') [] [] [] []
     (Some []) (''e'', True) (Some ''main'')"

lemma still_collect: "settles (collect_state_snapshot still_setting (ss_snap still_server) [''w''] sa) (still_snapshot sa)"
proof -
  let ?se = "ss_snap still_server"
  have n: "nonempty_or_none (Some ''main'') = Some ''main''" by (simp add: nonempty_or_none_def)
  have u: "settles (upstream_of still_setting [''w''] (nonempty_or_none (Some ''main''))) (Some ''main'')"
    "settles (tracking_head still_setting [''w''] (Some ''main'')) (Some ''main'')"
    unfolding upstream_of_def tracking_head_def n option.case
    by (rule settles_bind settles_still | simp add: n settles_simple plain_words_def)+
  have i: "settles (lift_r (inventory ?se ([] @ []))) []" "settles (lift_r (inventory ?se [])) []"
    "settles (reads (\<lambda>s. Inr (content_hashes ?se s [''w''] ([] @ [] @ [])))) []"
    "settles (reads (\<lambda>s. worktree_state_evidence ?se s [''w''] ([] @ [] @ []))) (''e'', True)"
    by (simp_all add: settles_def lift_r_def reads_def inventory_def sorted_set_def content_hashes_def
        worktree_state_evidence_def still_server_def)
  have "sanitize_repo_url ?se (Some ''main'') = Inr (Some ''main'')" by code_simp
  then have r: "settles (lift_r (sanitize_repo_url ?se (Some ''main''))) (Some ''main'')" by (simp add: settles_simple)
  show ?thesis
    unfolding collect_state_snapshot_def Let_def still_snapshot_def
    by (rule settles_bind settles_still i r u | simp add: plain_words_def settles_def io_return_def still_server_def byte_name_def n)+
qed

text \<open>
  A store in which nothing stands in the way: every file is a readable record, no lease is another's, and the
  stored snapshots show the repository as it is.
\<close>

definition settled_record :: "obj \<Rightarrow> bool" where
  "settled_record ob \<longleftrightarrow>
     (\<forall>n. \<not> foreign_active (store_at still_server 0) ''A'' (of_nat n) (Some ob)) \<and>
     (\<forall>e sa. obj_get ob ''snapshot'' = JObj e \<longrightarrow> compare_snapshots e (still_snapshot sa) = []) \<and>
     obj_get ob ''checkpoint_id'' \<in> {JNull, JStr ''id''}"

definition calm_store :: "store \<Rightarrow> bool" where
  "calm_store s \<longleftrightarrow>
     (\<forall>f \<in> snd ` set (st_files s). \<exists>n ob. f = Raw n (Some (JObj ob)) \<and> n \<le> MAX_STATE_BYTES \<and> settled_record ob)"

lemma still_env [simp]:
  "ss_git still_server = still_setting" "ss_effective still_server = [''w'']" "ss_canonical still_server = [''w'']"
  "state_owner still_server = ''A''" "ss_clock still_server n = of_nat n" "ss_task still_server = None" "ss_uuid still_server k = ''id''"
  "en_fault (store_at still_server n) = (\<lambda>_. False)" "en_json_size (store_at still_server n) = (\<lambda>_. 100)"
  "en_config_root (ss_cont still_server) = [''c'']"
  by (simp_all add: still_server_def state_owner_def nonempty_or_none_def store_at_def cont_at_def store_env.truncate_def demo_cont_def)

lemma calm_read: "calm_store s \<Longrightarrow> \<exists>r. read_json s p = Inr r \<and> (\<forall>ob. r = Some ob \<longrightarrow> settled_record ob)"
  by (cases "map_of (st_files s) p") (fastforce simp: read_json_def calm_store_def dest: map_of_SomeD)+

lemma dict_set_values: "x \<in> set (dict_set k v d) \<Longrightarrow> snd x = v \<or> x \<in> set d"
  by (induction d) (auto split: if_splits)

lemma calm_write:
  assumes "calm_store s" "settled_record ob"
  shows "\<exists>s'. write_json (store_at still_server n) p ob s = (Inr (), s') \<and> calm_store s'"
  using assms by (auto simp: write_json_def Let_def MAX_STATE_BYTES_def calm_store_def dest!: dict_set_values)

lemma calm_unlink: "calm_store s \<Longrightarrow> calm_store (unlink_json p s)"
  by (auto simp: calm_store_def unlink_json_def dict_del_def)

lemma calm_write_leases:
  "calm_store s \<Longrightarrow> list_all (settled_record \<circ> snd) ws \<Longrightarrow>
   \<exists>s'. write_leases (store_at still_server n) ws s = (Inr (), s') \<and> calm_store s'"
proof (induction ws arbitrary: s)
  case (Cons x ws)
  then obtain s1 where "write_json (store_at still_server n) (fst x) (snd x) s = (Inr (), s1)" "calm_store s1"
    using calm_write [of s "snd x" n "fst x"] by auto
  with Cons show ?case by (cases x) auto
qed simp

lemma calm_release: "calm_store s \<Longrightarrow> \<exists>ls s'. release_loop ow task ps s = (Inr ls, s') \<and> calm_store s'"
proof (induction ps arbitrary: s)
  case (Cons p ps)
  obtain r where "read_json s p = Inr r" using calm_read [OF Cons.prems] by blast
  moreover obtain ls s1 where "release_loop ow task ps s = (Inr ls, s1)" "calm_store s1"
    using Cons.IH [OF Cons.prems] by blast
  moreover obtain ls' s2 where "release_loop ow task ps (unlink_json p s) = (Inr ls', s2)" "calm_store s2"
    using Cons.IH [OF calm_unlink [OF Cons.prems]] by blast
  ultimately show ?case by (cases r) auto
qed simp

lemma still_paths:
  "\<exists>p. lease_path (store_at still_server n) [''w''] b = Inr p"
  "\<exists>p. checkpoint_path (store_at still_server n) [''w''] b bf = Inr p"
  "\<exists>p. context_checkpoint_path (store_at still_server n) [''w''] b = Inr p"
  "\<exists>p. state_root (store_at still_server n) [''w''] = Inr p"
  by (simp_all add: lease_path_def checkpoint_path_def context_checkpoint_path_def state_root_def)

lemma calm_acquire:
  assumes "calm_store s" "lr_owner rq = ''A''" "lr_ttl rq = 900" "lr_now rq = of_nat k" "''main'' \<in> set (lr_branches rq)"
    and "lr_checkpoint rq \<in> {None, Some ''id''}"
  shows "\<exists>ls s'. acquire_writer_leases (store_at still_server n) [''w''] rq s = (Inr ls, s') \<and> calm_store s'"
proof -
  let ?env = "store_at still_server n" and ?bs = "unique_branches (lr_branches rq)"
  have rl: "\<exists>r. read_lease ?env [''w''] s b = Inr r \<and> (\<forall>ob. r = Some ob \<longrightarrow> settled_record ob)" for b
    using still_paths(1) [of n b] calm_read [OF assms(1)] by (auto simp: read_lease_def)
  have "\<exists>rs. rmap (read_lease ?env [''w''] s) bs = Inr rs \<and> length rs = length bs \<and>
      (\<forall>ob. Some ob \<in> set rs \<longrightarrow> settled_record ob)" for bs
  proof (induction bs)
    case (Cons b bs)
    with rl [of b] show ?case by auto
  qed simp
  then obtain rs where rs: "rmap (read_lease ?env [''w''] s) ?bs = Inr rs" "\<forall>ob. Some ob \<in> set rs \<longrightarrow> settled_record ob" by blast
  have fa: "\<not> foreign_active ?env ''A'' (of_nat k) r" if "r \<in> set rs" for r
    using rs(2) that by (cases r) (auto simp: settled_record_def foreign_active_def paths_at(5) [of still_server n])
  have nf: "filter (\<lambda>br. foreign_active ?env (lr_owner rq) (lr_now rq) (snd br)) (zip ?bs rs) = []"
    using fa assms(2,4) by (auto simp: filter_empty_conv dest: set_zip_rightD)
  let ?records = "map (\<lambda>br. (fst br, lease_record ?env rq (fst br) (snd br))) (zip ?bs rs)"
  obtain paths where ps: "rmap (\<lambda>br. lease_path ?env [''w''] (fst br)) ?records = Inr paths"
    using still_paths(1) [of n "[]"] rmap_lease_paths by blast
  have "settled_record (lease_record ?env rq b r)" for b r
    using assms(2,6) by (simp add: settled_record_def foreign_active_def) (auto simp: lease_record_def obj_get_def Let_def opt_str_def)
  then have "list_all (settled_record \<circ> snd) (zip paths (map snd ?records))"
    by (auto simp: list_all_iff dest!: set_zip_rightD)
  then obtain s' where w: "write_leases ?env (zip paths (map snd ?records)) s = (Inr (), s')" "calm_store s'"
    using calm_write_leases [OF assms(1)] by blast
  have "?bs \<noteq> []" using assms(5) unique_branches_set [of "lr_branches rq"] by fastforce
  then show ?thesis
    using assms(2,3) rs nf ps w by (simp add: acquire_writer_leases_def Let_def MAX_WRITER_TTL_SECONDS_def)
qed

lemma calm_checkpoint:
  assumes "calm_store s" "cr_snapshot rq = still_snapshot sa"
  shows "\<exists>r s'. write_state_checkpoint (store_at still_server n) [''w''] ''id'' rq s = (Inr r, s') \<and> calm_store s' \<and> settled_record r"
proof -
  let ?env = "store_at still_server n" let ?r = "checkpoint_record ?env ''id'' rq"
  have "no_drift (still_snapshot sa) (still_snapshot sb)" for sb by (simp add: still_snapshot_def snapshot_object_no_drift)
  then have cr: "settled_record ?r"
    using assms(2) by (auto simp: settled_record_def foreign_active_def lease_active_def checkpoint_record_def obj_get_def no_drift_compare)
  obtain p q where pq: "checkpoint_path ?env [''w''] (cr_branch rq) (cr_phase rq = ''before'') = Inr p"
    using still_paths(2) by blast
  obtain s1 where w: "write_json ?env p ?r s = (Inr (), s1)" "calm_store s1" using calm_write [OF assms(1) cr] by blast
  have c: "\<exists>q s2. context_checkpoint_path ?env [''w''] a = Inr q \<and> write_json ?env q ?r s1 = (Inr (), s2) \<and> calm_store s2" for a
    using still_paths(3) [of n a] calm_write [OF w(2) cr] by blast
  show ?thesis
  proof (cases "cr_authority rq")
    case None
    with pq w cr show ?thesis by (auto simp: write_state_checkpoint_def Let_def)
  next
    case (Some a)
    with pq w cr c [of a] show ?thesis by (auto simp: write_state_checkpoint_def Let_def)
  qed
qed

section \<open>A guarded tool on a calm store\<close>

definition calm_world :: "nat server_world \<Rightarrow> bool" where
  "calm_world w \<longleftrightarrow> calm_store (sv_store w)"

text \<open>The program returns, with a value of the given kind, and leaves the store calm.\<close>

definition sure :: "('a, nat) server \<Rightarrow> ('a \<Rightarrow> bool) \<Rightarrow> bool" where
  "sure m P \<longleftrightarrow> (\<forall>w. calm_world w \<longrightarrow> (\<exists>x w'. m w = (Inr x, w') \<and> calm_world w' \<and> P x))"

lemma sureD: "sure m P \<Longrightarrow> calm_world w \<Longrightarrow> \<exists>x w'. m w = (Inr x, w') \<and> calm_world w' \<and> P x"
  by (simp add: sure_def)

lemma sure_bind:
  assumes "sure m P" "\<And>x. P x \<Longrightarrow> sure (f x) Q"
  shows "sure (io_bind m f) Q"
  unfolding sure_def
proof (intro allI impI)
  fix w :: "nat server_world"
  assume "calm_world w"
  then obtain x w1 where "m w = (Inr x, w1)" "calm_world w1" "P x" using sureD [OF assms(1)] by blast
  with sureD [OF assms(2)] show "\<exists>x w'. io_bind m f w = (Inr x, w') \<and> calm_world w' \<and> Q x" by (simp add: io_bind_def)
qed

lemma sure_return: "P x \<Longrightarrow> sure (io_return x) P"
  by (simp add: sure_def io_return_def)

lemma sure_cont:
  assumes "\<And>n s. calm_store s \<Longrightarrow> \<exists>x s'. f (cont_at still_server n) s = (Inr x, s') \<and> calm_store s' \<and> P x"
  shows "sure (on_cont still_server f) P"
  unfolding sure_def on_cont_def calm_world_def
proof (intro allI impI)
  fix w :: "nat server_world"
  assume "calm_store (sv_store w)"
  then obtain x s' where "f (cont_at still_server (sv_reads w)) (sv_store w) = (Inr x, s')" "calm_store s'" "P x"
    using assms by blast
  then show "\<exists>x w'. (case f (cont_at still_server (sv_reads w)) (sv_store w) of
      (r, s) \<Rightarrow> (r, w\<lparr>sv_store := s, sv_reads := Suc (sv_reads w)\<rparr>)) = (Inr x, w') \<and> calm_store (sv_store w') \<and> P x"
    by simp
qed

lemma sure_store:
  assumes "\<And>n s. calm_store s \<Longrightarrow> \<exists>x s'. f (store_at still_server n) s = (Inr x, s') \<and> calm_store s' \<and> P x"
  shows "sure (on_store still_server f) P"
  unfolding on_store_def using assms by (intro sure_cont) (simp add: store_at_def)

lemma sure_from: "sure (from_result (Inr x)) (\<lambda>y. y = x)"
  by (simp add: sure_def from_result_def)

lemma sure_git:
  assumes "settles m x"
  shows "sure (on_git m) (\<lambda>y. y = x)"
  unfolding sure_def
proof (intro allI impI)
  fix w :: "nat server_world"
  assume c: "calm_world w"
  obtain r g where m: "m (git_part w) = (r, g)" by fastforce
  moreover have "r = Inr x" using assms m by (metis fst_conv settles_def)
  ultimately show "\<exists>y w'. on_git m w = (Inr y, w') \<and> calm_world w' \<and> y = x" using c by (simp add: on_git_def calm_world_def)
qed

lemma sure_on_error:
  assumes "sure m P"
  shows "sure (io_on_error m f) P"
  unfolding sure_def
proof (intro allI impI)
  fix w :: "nat server_world"
  assume "calm_world w"
  then obtain x w1 where "m w = (Inr x, w1)" "calm_world w1" "P x" using sureD [OF assms] by blast
  then show "\<exists>x w'. io_on_error m f w = (Inr x, w') \<and> calm_world w' \<and> P x" by (simp add: io_on_error_def io_catch_def)
qed

lemma sure_finally:
  assumes "sure m P" "sure f Q"
  shows "sure (io_finally m f) P"
  unfolding sure_def
proof (intro allI impI)
  fix w :: "nat server_world"
  assume "calm_world w"
  then obtain x w1 where 1: "m w = (Inr x, w1)" "calm_world w1" "P x" using sureD [OF assms(1)] by blast
  then obtain y w2 where "f w1 = (Inr y, w2)" "calm_world w2" using sureD [OF assms(2)] by blast
  with 1 show "\<exists>x w'. io_finally m f w = (Inr x, w') \<and> calm_world w' \<and> P x" by (simp add: io_finally_def)
qed

lemma sure_weaken: "sure m P \<Longrightarrow> (\<And>x. P x \<Longrightarrow> Q x) \<Longrightarrow> sure m Q"
  unfolding sure_def by meson

lemma sure_checkpoint:
  assumes "cr_snapshot rq = still_snapshot sa"
  shows "sure (record_checkpoint still_server rq) settled_record"
proof -
  have "sure (on_store still_server (\<lambda>en. write_state_checkpoint en [''w''] ''id'' rq)) settled_record"
    using calm_checkpoint [OF _ assms] by (intro sure_store) blast
  then show ?thesis unfolding sure_def record_checkpoint_def by (simp add: calm_world_def)
qed

lemma sure_steps:
  "sure (current_branch still_server) (\<lambda>b. b = Some ''main'')" "sure (state_branch still_server) (\<lambda>b. b = ''main'')"
  "sure (read_authority still_server ow) (\<lambda>r. \<forall>ob. r = Some ob \<longrightarrow> settled_record ob)"
  "sure (state_snapshot still_server pv rh) (\<lambda>s. \<exists>sa. s = still_snapshot sa)"
  "sure (release_state_owner_leases still_server) (\<lambda>_. True)"
  "cid \<in> {None, Some ''id''} \<Longrightarrow> sure (acquire_state_leases still_server (''main'' # bs) cid) (\<lambda>_. True)"
proof -
  show b: "sure (current_branch still_server) (\<lambda>b. b = Some ''main'')"
    unfolding current_branch_def by (rule sure_git) (simp add: settles_still plain_words_def)
  show "sure (state_branch still_server) (\<lambda>b. b = ''main'')"
    unfolding state_branch_def by (rule sure_bind [OF b]) (auto simp: nonempty_or_none_def intro: sure_return)
  show "sure (read_authority still_server ow) (\<lambda>r. \<forall>ob. r = Some ob \<longrightarrow> settled_record ob)"
    unfolding read_authority_def
  proof (rule sure_store)
    fix n s
    assume c: "calm_store s"
    obtain p where "context_checkpoint_path (store_at still_server n) [''w''] ow = Inr p" using still_paths(3) by blast
    moreover obtain r where "read_json s p = Inr r" "\<forall>ob. r = Some ob \<longrightarrow> settled_record ob" using calm_read [OF c] by blast
    ultimately show "\<exists>x s'. (read_authoritative_state_checkpoint (store_at still_server n) (ss_canonical still_server) ow s, s) =
      (Inr x, s') \<and> calm_store s' \<and> (\<forall>ob. x = Some ob \<longrightarrow> settled_record ob)"
      using c by (simp add: read_authoritative_state_checkpoint_def)
  qed
  have "sure (on_store still_server (\<lambda>en s. (inspect_writer_lease en [''w''] b (en_clock en) s, s))) (\<lambda>_. True)" for b
  proof (rule sure_store)
    fix n s
    assume c: "calm_store s"
    obtain p where "lease_path (store_at still_server n) [''w''] b = Inr p" using still_paths(1) by blast
    moreover obtain r where "read_json s p = Inr r" using calm_read [OF c] by blast
    ultimately show "\<exists>x s'. (inspect_writer_lease (store_at still_server n) [''w''] b (en_clock (store_at still_server n)) s, s) =
      (Inr x, s') \<and> calm_store s' \<and> True"
      using c by (cases r) (auto simp: inspect_writer_lease_def)
  qed
  moreover have "sure (time_text still_server) (\<lambda>_. True)"
    unfolding time_text_def by (rule sure_store) auto
  moreover have "sure (on_git (collect_state_snapshot still_setting (ss_snap still_server) [''w''] sa)) (\<lambda>s. \<exists>sa. s = still_snapshot sa)" for sa
    by (rule sure_weaken [OF sure_git [OF still_collect]]) blast
  ultimately show "sure (state_snapshot still_server pv rh) (\<lambda>s. \<exists>sa. s = still_snapshot sa)"
    unfolding state_snapshot_def
    by (intro sure_bind [OF b]) (auto simp: nonempty_or_none_def intro!: sure_bind)
  show "sure (release_state_owner_leases still_server) (\<lambda>_. True)"
    unfolding release_state_owner_leases_def
  proof (rule sure_store)
    fix n s
    assume c: "calm_store s"
    obtain rt where "state_root (store_at still_server n) [''w''] = Inr rt" using still_paths(4) by blast
    moreover obtain ls s' where "release_loop ''A'' None (lease_files rt s) s = (Inr ls, s')" "calm_store s'"
      using calm_release [OF c] by blast
    ultimately show "\<exists>x s'. release_owner_leases (store_at still_server n) (ss_canonical still_server) (state_owner still_server) None s =
      (Inr x, s') \<and> calm_store s' \<and> True"
      by (simp add: release_owner_leases_def)
  qed
  show "sure (acquire_state_leases still_server (''main'' # bs) cid) (\<lambda>_. True)" if "cid \<in> {None, Some ''id''}"
    using that unfolding acquire_state_leases_def using calm_acquire
    by (intro sure_store) (fastforce simp: DEFAULT_WRITER_TTL_SECONDS_def)
qed

lemma still_text [simp]: "field_text still_server (still_snapshot sa) ''branch'' = ''main''"
  by (simp add: field_text_def still_snapshot_def snapshot_object_def obj_get_def str_or_null_def json_falsy_def py_str_def)

lemma sure_baseline: "sure (ensure_state_baseline still_server ow) (\<lambda>r. \<forall>ob. r = Some ob \<longrightarrow> settled_record ob)"
  unfolding ensure_state_baseline_def
  by (rule sure_bind [OF sure_steps(3)])
    (auto simp: Let_def intro!: sure_return sure_bind [OF sure_steps(4)] sure_bind [OF sure_checkpoint])

lemma sure_expected: "sure (expected_record_of still_server) (\<lambda>r. \<forall>ob. r = Some ob \<longrightarrow> settled_record ob)"
  unfolding expected_record_of_def
  by (intro sure_bind [OF sure_steps(3)]) (auto intro: sure_return sure_baseline)

lemma calm_id:
  assumes "\<forall>ob. r = Some ob \<longrightarrow> settled_record ob"
  shows "field_or_none still_server r ''checkpoint_id'' \<in> {None, Some ''id''}"
    "field_text still_server (or_empty r) ''checkpoint_id'' \<in> {[], ''id''}"
proof -
  have "obj_get (or_empty r) ''checkpoint_id'' \<in> {JNull, JStr ''id''}"
    using assms by (cases r) (auto simp: or_empty_def settled_record_def obj_get_def)
  then show "field_or_none still_server r ''checkpoint_id'' \<in> {None, Some ''id''}"
    "field_text still_server (or_empty r) ''checkpoint_id'' \<in> {[], ''id''}"
    by (auto simp: field_or_none_def field_text_def nonempty_or_none_def json_falsy_def py_str_def)
qed

lemma sure_drift:
  assumes "\<forall>ob. r = Some ob \<longrightarrow> settled_record ob"
  shows "sure (check_drift still_server r (still_snapshot sa)) (\<lambda>_. True)"
  using assms
  by (auto simp: check_drift_def expected_snapshot_def settled_record_def Let_def intro: sure_return split: option.splits json.splits)

lemma sure_preflight: "sure (state_preflight still_server oper bs) (\<lambda>x. \<exists>r s. x = (''main'', r, s))"
proof -
  have "sure (preflight_checks still_server oper ''main'' r) (\<lambda>x. \<exists>r s. x = (''main'', r, s))"
    if "\<forall>ob. r = Some ob \<longrightarrow> settled_record ob" for r
    unfolding preflight_checks_def
    by (rule sure_bind [OF sure_steps(4)])
      (auto simp: before_request_def intro!: sure_return sure_bind [OF sure_drift [OF that]] sure_bind [OF sure_checkpoint])
  then show ?thesis
    unfolding state_preflight_def
    by (intro sure_bind [OF sure_steps(2)] sure_bind [OF sure_expected])
      (auto intro!: sure_bind [OF sure_steps(6) [OF calm_id(1)]] sure_on_error)
qed

lemma sure_after: "sure (state_after still_server oper br prev outc pv rh) (\<lambda>_. True)"
  unfolding state_after_def
  by (rule sure_bind [OF sure_steps(4)])
    (auto simp: after_request_def intro!: sure_weaken [OF sure_checkpoint])

lemma sure_guarded:
  assumes "sure callback P"
  shows "sure (guarded still_server oper callback bs) (\<lambda>(r, c). P r)"
proof -
  have "sure (run_recorded still_server oper callback ''main'' prev) (\<lambda>(r, c). P r)" for prev
    unfolding run_recorded_def
    by (rule sure_bind [OF sure_on_error [OF assms]]) (auto intro!: sure_bind [OF sure_after] sure_return)
  then show ?thesis
    unfolding guarded_def
    by (intro sure_bind [OF sure_preflight]) (auto intro: sure_finally [OF _ sure_steps(5)])
qed

lemma calm_start: "calm_world still_world"
  by (simp add: calm_world_def calm_store_def still_world_def)

section \<open>Theorems\<close>

text \<open>
  C14: no change of a repository without its lease and its checkpoint.  A guarded tool either refuses, with an
  outcome that does not depend on the tool and with the tree as it was, or runs the tool once in a world where
  the tree is still the one of the call, the branch that a snapshot shows and every other named branch is leased
  to the caller for the time to live counted from a reading of the clock during the call, and the repository
  shows no drift from the caller's authoritative checkpoint.
\<close>

theorem guarded_runs_checked:
  assumes "queries_read_only (ss_git sv)"
  shows "(\<exists>e w1. same_tree w w1 \<and> (\<forall>callback. guarded sv oper callback bs w = (Inl e, w1))) \<or>
    (\<exists>w1 branch previous n.
       same_tree w w1 \<and> authority_record sv w1 = Inr previous \<and> branch \<noteq> [] \<and> sv_reads w \<le> n \<and> n < sv_reads w1 \<and>
       (\<forall>s v. state_snapshot sv None None w1 = (Inr s, v) \<longrightarrow> obj_get s ''branch'' = JStr branch) \<and>
       (\<forall>b \<in> set (branch # bs). b \<noteq> [] \<longrightarrow> owns_lease sv w1 (ss_clock sv n + of_int DEFAULT_WRITER_TTL_SECONDS) b) \<and>
       (\<forall>e s v. expected_snapshot previous = Some e \<longrightarrow> state_snapshot sv None None w1 = (Inr s, v) \<longrightarrow> compare_snapshots e s = []) \<and>
       (\<forall>callback. guarded sv oper callback bs w =
          io_finally (run_recorded sv oper callback branch previous) (release_state_owner_leases sv) w1))"
proof -
  obtain r w1 where p: "state_preflight sv oper bs w = (r, w1)" by fastforce
  have t: "same_tree w w1" by (rule keepsD(1) [OF keeps_tree_preflight [OF assms] p])
  show ?thesis
  proof (cases r)
    case (Inl e)
    with p have "guarded sv oper callback bs w = (Inl e, w1)" for callback by (simp add: guarded_def io_bind_def)
    with t show ?thesis by blast
  next
    case (Inr x)
    obtain branch previous actual where x: "x = (branch, previous, actual)" by (cases x)
    have "guarded sv oper callback bs w =
        io_finally (run_recorded sv oper callback branch previous) (release_state_owner_leases sv) w1" for callback
      using p Inr x by (simp add: guarded_def io_bind_def)
    with t preflight_Inr [OF p [unfolded Inr x] assms] show ?thesis by blast
  qed
qed

lemma still_guarded: "\<exists>cp w'. guarded still_server ''t'' (io_return ()) [''side''] still_world = (Inr ((), cp), w')"
proof -
  obtain x w' where "guarded still_server ''t'' (io_return ()) [''side''] still_world = (Inr x, w')"
    using sureD [OF sure_guarded [OF sure_return [of "\<lambda>_. True" "()"]] calm_start] by blast
  then show ?thesis by (cases x) auto
qed

theorem guarded_runs_checked_witness:
  "\<exists>w1 n. same_tree still_world w1 \<and>
     owns_lease still_server w1 (ss_clock still_server n + of_int DEFAULT_WRITER_TTL_SECONDS) ''side''"
  using guarded_runs_checked [OF still_read_only, where w = still_world and oper = "''t''" and bs = "[''side'']"]
proof (elim disjE exE conjE)
  fix e w1
  assume "\<forall>callback. guarded still_server ''t'' callback [''side''] still_world = (Inl e :: (unit \<times> obj) result, w1)"
  then show ?thesis using still_guarded by simp
next
  fix w1 branch previous n
  assume "same_tree still_world w1" and "\<forall>b \<in> set (branch # [''side'']). b \<noteq> [] \<longrightarrow>
      owns_lease still_server w1 (ss_clock still_server n + of_int DEFAULT_WRITER_TTL_SECONDS) b"
  then show ?thesis by fastforce
qed

text \<open>
  C15: the checkpoint of an operation describes the repository it leaves.  When a guarded tool returns, its
  checkpoint is the authoritative one of the caller and records success; as long as the tree stays as it is, no
  later snapshot drifts from it, so the next guarded tool is not refused; and no lease of the caller is left.
\<close>

theorem guarded_checkpoint_current:
  assumes q: "queries_read_only (ss_git sv)" and g: "guarded sv oper callback bs w = (Inr (res, cp), w')"
  shows "authority_record sv w' = Inr (Some cp) \<and> obj_get cp ''outcome'' = JStr ''success'' \<and>
    (\<exists>snap. expected_snapshot (Some cp) = Some snap \<and>
       (\<forall>a b s v v'. same_tree w' v \<longrightarrow> state_snapshot sv a b v = (Inr s, v') \<longrightarrow> compare_snapshots snap s = [])) \<and>
    (\<forall>t b. \<not> owns_lease sv w' t b)"
proof -
  obtain branch previous act w1 w2 ls where r: "run_recorded sv oper callback branch previous w1 = (Inr (res, cp), w2)"
    and l: "release_state_owner_leases sv w2 = (Inr ls, w')"
    using g unfolding guarded_def by (auto elim!: io_bind_Inr io_finally_Inr)
  obtain w3 where a: "state_after sv oper branch previous ''success'' None None w3 = (Inr cp, w2)"
    using r unfolding run_recorded_def by (auto elim!: io_bind_Inr simp: io_return_def)
  note f = state_after_Inr [OF a q]
  have t: "same_tree w2 w'" by (rule keepsD(1) [OF keeps_tree_steps(8) [OF q] l])
  obtain snap where snap: "expected_snapshot (Some cp) = Some snap"
    "\<And>a b s v v'. same_tree w2 v \<Longrightarrow> state_snapshot sv a b v = (Inr s, v') \<Longrightarrow> compare_snapshots snap s = []"
    using f(3) by blast
  have "compare_snapshots snap s = []" if "same_tree w' v" "state_snapshot sv a b v = (Inr s, v')" for a b s v v'
    using snap(2) [OF same_tree_trans [OF t that(1)] that(2)] .
  with snap(1) f(1,2) released_leases [OF l] show ?thesis by auto
qed

theorem guarded_checkpoint_current_witness:
  "\<exists>cp w'. guarded still_server ''t'' (io_return ()) [''side''] still_world = (Inr ((), cp), w') \<and>
     authority_record still_server w' = Inr (Some cp) \<and> \<not> owns_lease still_server w' 0 ''side''"
proof -
  obtain cp w' where g: "guarded still_server ''t'' (io_return ()) [''side''] still_world = (Inr ((), cp), w')"
    using still_guarded by blast
  with guarded_checkpoint_current [OF still_read_only g] show ?thesis by blast
qed

lemma verify_Inr:
  assumes "verify_remote_branch_head ge project branch remote g = (Inr (True, lh, rh), g')"
  shows "\<exists>h line g1. h \<noteq> [] \<and> lh = Some h \<and> rh = Some h \<and> git_text ge project [''rev-parse'', ''HEAD''] g = (Inr (Some h), g1) \<and>
    git_text ge project [''ls-remote'', ''--heads'', remote, ''refs/heads/'' @ branch] g1 = (Inr (Some line), g') \<and>
    hd (split_words line) = h"
  using assms unfolding verify_remote_branch_head_def Let_def nonempty_or_none_def
  by (elim io_bind_Inr) (auto simp: io_return_def split: option.splits list.splits)

lemma verify_push_Inr:
  assumes "verify_push sv args branch previous pushed w = (Inr res, w')" and q: "queries_read_only (ss_git sv)"
  shows "\<exists>h cp snap b r line g g1 g2.
    obj_get res ''remote_verification'' = JObj [(''verified'', JBool True), (''local_head'', JStr h), (''remote_head'', JStr h)] \<and>
    git_text (ss_git sv) (we_root (ge_ws (ss_git sv))) [''rev-parse'', ''HEAD''] g = (Inr (Some h), g1) \<and>
    git_text (ss_git sv) (we_root (ge_ws (ss_git sv))) [''ls-remote'', ''--heads'', r, ''refs/heads/'' @ b] g1 = (Inr (Some line), g2) \<and>
    hd (split_words line) = h \<and> h \<noteq> [] \<and> authority_record sv w' = Inr (Some cp) \<and> expected_snapshot (Some cp) = Some snap \<and>
    obj_get snap ''push_verified'' = JBool True \<and> obj_get snap ''remote_head'' = JStr h \<and>
    (b = field_text sv res ''branch'' \<or> json_falsy (obj_get res ''branch'')) \<and>
    (r = field_text sv res ''remote'' \<or> json_falsy (obj_get res ''remote''))"
proof -
  let ?b = "if json_falsy (obj_get pushed ''branch'') then branch else field_text sv pushed ''branch''"
  let ?r = "push_remote sv pushed args" and ?ge = "ss_git sv"
  let ?root = "we_root (ge_ws (ss_git sv))"
  obtain v lh rh w1 where 1: "on_git (verify_remote_branch_head ?ge ?root ?b ?r) w = (Inr (v, lh, rh), w1)"
    and 2: "(if \<not> v then io_bind (state_after sv ''git_push'' branch previous ''error'' (Some False) rh) (\<lambda>checkpoint.
              io_raise (push_mismatch ?b ?r lh rh checkpoint))
          else io_bind (state_after sv ''git_push'' branch previous ''success'' (Some True) rh) (\<lambda>checkpoint.
              io_return (dict_set ''state_checkpoint'' (JObj checkpoint)
                (dict_set ''remote_verification''
                  (JObj [(''verified'', JBool True), (''local_head'', str_or_null lh), (''remote_head'', str_or_null rh)]) pushed)))) w1
        = (Inr res, w')"
    using assms(1) unfolding verify_push_def Let_def by (auto elim!: io_bind_Inr)
  have v: "v" using 2 by (cases v) (auto elim!: io_bind_Inr simp: io_raise_def)
  obtain cp w2 where a: "state_after sv ''git_push'' branch previous ''success'' (Some True) rh w1 = (Inr cp, w2)"
    and "io_return (dict_set ''state_checkpoint'' (JObj cp) (dict_set ''remote_verification''
        (JObj [(''verified'', JBool True), (''local_head'', str_or_null lh), (''remote_head'', str_or_null rh)]) pushed)) w2 = (Inr res, w')"
    using 2 v by (auto elim!: io_bind_Inr)
  then have w: "w2 = w'" and res: "obj_get res ''remote_verification'' =
      JObj [(''verified'', JBool True), (''local_head'', str_or_null lh), (''remote_head'', str_or_null rh)]"
    and keep: "obj_get res ''branch'' = obj_get pushed ''branch''" "obj_get res ''remote'' = obj_get pushed ''remote''"
    by (auto simp: io_return_def obj_get_def)
  obtain g' where "verify_remote_branch_head ?ge ?root ?b ?r (git_part w) = (Inr (True, lh, rh), g')"
    using on_git_part [OF 1] v by auto
  from verify_Inr [OF this] obtain h line g1 where h: "h \<noteq> []" "lh = Some h" "rh = Some h"
    "git_text ?ge ?root [''rev-parse'', ''HEAD''] (git_part w) = (Inr (Some h), g1)"
    "git_text ?ge ?root [''ls-remote'', ''--heads'', ?r, ''refs/heads/'' @ ?b] g1 = (Inr (Some line), g')"
    "hd (split_words line) = h" by blast
  obtain snap where "expected_snapshot (Some cp) = Some snap" "obj_get snap ''push_verified'' = JBool True"
    "obj_get snap ''remote_head'' = JStr h"
    using state_after_Inr(3) [OF a q] h(3) by (auto simp: str_or_null_def)
  moreover have "authority_record sv w' = Inr (Some cp)" using state_after_Inr(1) [OF a q] w by simp
  moreover have "obj_get res ''remote_verification'' = JObj [(''verified'', JBool True), (''local_head'', JStr h), (''remote_head'', JStr h)]"
    using res h by (simp add: str_or_null_def)
  moreover have "json_falsy (obj_get res ''branch'') \<or> ?b = field_text sv res ''branch''"
    "?r = field_text sv res ''remote'' \<or> json_falsy (obj_get res ''remote'')"
    using keep by (auto simp: field_text_def push_remote_def Let_def)
  ultimately show ?thesis using h(1,4-6) by blast
qed

text \<open>
  C16: a push counts only when the remote confirms it.  The managed push returns only after git named a local
  head and the remote, asked by \<^verbatim>\<open>git ls-remote\<close>, named the same one for the branch; the result says so, and the
  caller's authoritative checkpoint records the verified push with that head.  No lease of the caller is left.
\<close>

theorem push_confirmed:
  assumes q: "queries_read_only (ss_git sv)" and p: "managed_git_push sv args w = (Inr res, w')"
  shows "\<exists>h cp snap b r line g g1 g2.
    obj_get res ''remote_verification'' = JObj [(''verified'', JBool True), (''local_head'', JStr h), (''remote_head'', JStr h)] \<and>
    git_text (ss_git sv) (we_root (ge_ws (ss_git sv))) [''rev-parse'', ''HEAD''] g = (Inr (Some h), g1) \<and>
    git_text (ss_git sv) (we_root (ge_ws (ss_git sv))) [''ls-remote'', ''--heads'', r, ''refs/heads/'' @ b] g1 = (Inr (Some line), g2) \<and>
    hd (split_words line) = h \<and> h \<noteq> [] \<and> authority_record sv w' = Inr (Some cp) \<and> expected_snapshot (Some cp) = Some snap \<and>
    obj_get snap ''push_verified'' = JBool True \<and> obj_get snap ''remote_head'' = JStr h \<and>
    (b = field_text sv res ''branch'' \<or> json_falsy (obj_get res ''branch'')) \<and>
    (r = field_text sv res ''remote'' \<or> json_falsy (obj_get res ''remote'')) \<and> (\<forall>t b. \<not> owns_lease sv w' t b)"
proof -
  obtain branch previous pushed w1 w2 ls where v: "verify_push sv args branch previous pushed w1 = (Inr res, w2)"
    and l: "release_state_owner_leases sv w2 = (Inr ls, w')"
    using p unfolding managed_git_push_def by (auto elim!: io_bind_Inr io_finally_Inr)
  from verify_push_Inr [OF v q] released_leases [OF l] show ?thesis by metis
qed

lemma still_push: "settles (git_push still_setting [(''remote'', JStr ''main'')])
    [(''branch'', JStr ''main''), (''remote'', JStr ''main''), (''upstream'', JStr ''main/main''), (''result'', JStr ''pushed'')]"
proof -
  have t: "strip_str ''main'' = ''main''" "split_words ''main'' = [''main'']" "strip_str ''true'' = ''true''" by code_simp+
  show ?thesis
    by (simp add: settles_def git_push_def bool_arg_def require_selected_git_repo_def require_git_def is_git_repo_def
        git_current_branch_def configured_git_remote_def git_at_def root_text_def git_done_def run_git_def still_setting_def
        still_git_def demo_ws_def abs_text_def io_bind_def io_return_def io_raise_def t json_falsy_def py_str_def Let_def
        startswith_def)
qed

lemma still_verify: "settles (verify_remote_branch_head still_setting [''w''] ''main'' ''main'') (True, Some ''main'', Some ''main'')"
proof -
  have t: "split_words ''main'' = [''main'']" by code_simp
  show ?thesis
    unfolding verify_remote_branch_head_def Let_def
    by (rule settles_bind settles_still | simp add: plain_words_def t nonempty_or_none_def settles_simple)+
qed

lemma sure_push: "sure (managed_git_push still_server [(''remote'', JStr ''main'')]) (\<lambda>_. True)"
proof -
  let ?res = "[(''branch'', JStr ''main''), (''remote'', JStr ''main''), (''upstream'', JStr ''main/main''), (''result'', JStr ''pushed'')]"
  have f: "field_text still_server ?res ''branch'' = ''main''" "push_remote still_server ?res [(''remote'', JStr ''main'')] = ''main''"
    "we_root (ge_ws still_setting) = [''w'']" and c: "json_falsy (obj_get ?res ''branch'') = False"
    by (simp_all add: field_text_def push_remote_def obj_get_def json_falsy_def py_str_def still_setting_def demo_ws_def Let_def)
  have "sure (verify_push still_server [(''remote'', JStr ''main'')] ''main'' prev ?res) (\<lambda>_. True)" for prev
    unfolding verify_push_def Let_def
    by (simp only: f c if_False still_env, rule sure_bind [OF sure_git [OF still_verify]])
      (auto intro!: sure_bind [OF sure_after] sure_return)
  then show ?thesis
    unfolding managed_git_push_def
    by (intro sure_bind [OF sure_preflight])
      (auto intro!: sure_finally [OF _ sure_steps(5)] sure_bind [OF sure_on_error [OF sure_git [OF still_push]]])
qed

theorem push_confirmed_witness:
  "\<exists>res w' cp snap. managed_git_push still_server [(''remote'', JStr ''main'')] still_world = (Inr res, w') \<and>
     authority_record still_server w' = Inr (Some cp) \<and> expected_snapshot (Some cp) = Some snap \<and>
     obj_get snap ''push_verified'' = JBool True"
proof -
  obtain res w' where p: "managed_git_push still_server [(''remote'', JStr ''main'')] still_world = (Inr res, w')"
    using sureD [OF sure_push calm_start] by blast
  with push_confirmed [OF still_read_only p] show ?thesis by blast
qed

lemma evidence_accepted:
  assumes "evidence_refusal requested actual dr = None"
  shows "dr \<Longrightarrow> requested = actual" "complete_evidence requested \<Longrightarrow> requested = actual"
  using assms by (auto simp: evidence_refusal_def split: if_splits)

lemma verified_status_passed:
  assumes "verified_status sv payload head fp = Inr ''passed''"
  shows "strip_str (field_text sv payload ''verified_head'') = head"
    "strip_str (field_text sv payload ''verified_state_fingerprint'') = fp"
  using assms by (auto simp: verified_status_def Let_def split: if_splits)

lemma trusted_dict_ok:
  assumes "dict_ok payload"
  shows "dict_ok (trusted_payload sv payload actual ev status)"
proof -
  have "map fst (filter (\<lambda>(k, v). k \<notin> set RUNTIME_FIELDS) payload) = filter (\<lambda>k. k \<notin> set RUNTIME_FIELDS) (map fst payload)"
    by (induction payload) auto
  with assms show ?thesis by (auto simp: dict_ok_def trusted_payload_def RUNTIME_FIELDS_def)
qed

lemma trusted_get:
  "obj_get (trusted_payload sv payload actual ev status) ''branch'' = JStr (ev_branch ev)"
  "obj_get (trusted_payload sv payload actual ev status) ''head'' = JStr (ev_head ev)"
  "obj_get (trusted_payload sv payload actual ev status) ''checkpoint_id'' = JStr (ev_checkpoint ev)"
  "obj_get (trusted_payload sv payload actual ev status) ''state_fingerprint'' = JStr (ev_fingerprint ev)"
  "obj_get (trusted_payload sv payload actual ev status) ''workspace_dirty'' = JBool (snapshot_dirty actual)"
  "obj_get (trusted_payload sv payload actual ev status) ''verification_status'' = JStr status"
proof -
  have "map_of (filter (\<lambda>(k, v). k \<notin> set RUNTIME_FIELDS) payload) k = None" if "k \<in> set RUNTIME_FIELDS" for k
    using that by (auto simp: map_of_eq_None_iff)
  then show "obj_get (trusted_payload sv payload actual ev status) ''branch'' = JStr (ev_branch ev)"
    "obj_get (trusted_payload sv payload actual ev status) ''head'' = JStr (ev_head ev)"
    "obj_get (trusted_payload sv payload actual ev status) ''checkpoint_id'' = JStr (ev_checkpoint ev)"
    "obj_get (trusted_payload sv payload actual ev status) ''state_fingerprint'' = JStr (ev_fingerprint ev)"
    "obj_get (trusted_payload sv payload actual ev status) ''workspace_dirty'' = JBool (snapshot_dirty actual)"
    "obj_get (trusted_payload sv payload actual ev status) ''verification_status'' = JStr status"
    by (simp_all add: obj_get_def trusted_payload_def RUNTIME_FIELDS_def map_add_def)
qed

lemma reconcile_keeps: "reconcile sv ev actual dr w = (Inr (ev', res), w') \<Longrightarrow> \<exists>cid. ev' = ev\<lparr>ev_checkpoint := cid\<rparr>"
  unfolding reconcile_def Let_def by (cases ev) (auto simp: io_return_def elim!: io_bind_Inr split: if_splits)

lemma store_continuation_Inr:
  assumes "store_continuation sv args payload actual ev dr w = (Inr ans, w')" "obj_get ans ''checkpoint'' = JObj r" "dict_ok payload"
  shows "\<exists>cid status. verified_status sv payload (ev_head ev) (ev_fingerprint ev) = Inr status \<and>
    obj_get r ''payload'' = JObj (trusted_payload sv payload actual (ev\<lparr>ev_checkpoint := cid\<rparr>) status)"
proof -
  obtain x w1 status w2 scope w3 r' w4 where 1: "reconcile sv ev actual dr w = (Inr x, w1)"
    and 2: "from_result (verified_status sv payload (ev_head ev) (ev_fingerprint ev)) w1 = (Inr status, w2)"
    and 3: "on_cont sv (\<lambda>en. cont_write_checkpoint en (ss_canonical sv) scope
         (JObj (trusted_payload sv payload actual (fst x) status))) w3 = (Inr r', w4)"
    and 4: "io_return (continuation_answer sv args scope (Some r') (snd x)) w4 = (Inr ans, w')"
    using assms(1) unfolding store_continuation_def by (elim io_bind_Inr) (auto elim!: io_bind_Inr)
  have "r' = r" using 4 assms(2) by (auto simp: io_return_def continuation_answer_def json_opt_def obj_get_def)
  obtain cid where cid: "fst x = ev\<lparr>ev_checkpoint := cid\<rparr>"
    using reconcile_keeps [of sv ev actual dr w "fst x" "snd x" w1] 1 by auto
  obtain en st where "cont_write_checkpoint en (ss_canonical sv) scope
      (JObj (trusted_payload sv payload actual (fst x) status)) st = (Inr r, sv_store w4)"
    using 3 \<open>r' = r\<close> by (auto simp: on_cont_def split: prod.splits)
  from write_result [OF this] obtain nrm where
    n: "normalize_checkpoint_payload en (JObj (trusted_payload sv payload actual (fst x) status)) = Inr nrm"
    "r = cont_record en (ss_canonical sv) scope nrm" by metis
  have "nrm = trusted_payload sv payload actual (fst x) status"
    using normalize_Inr(1) [OF n(1) trusted_dict_ok [OF assms(3)]] .
  then have "obj_get r ''payload'' = JObj (trusted_payload sv payload actual (fst x) status)"
    using n(2) by (simp add: cont_record_def obj_get_def)
  with 2 cid show ?thesis by (auto simp: from_result_def)
qed

lemma write_under_lease_Inr:
  assumes "write_under_lease sv args payload branch previous w = (Inr ans, w')" "obj_get ans ''checkpoint'' = JObj r"
    and "dict_ok payload"
  obtains actual fp cid status v where "state_snapshot sv None None w = (Inr actual, v)"
    "state_fingerprint (ss_snap sv) actual = Inr fp"
    "verified_status sv payload (field_text sv actual ''local_head'') fp = Inr status"
    "obj_get r ''payload'' = JObj (trusted_payload sv payload actual
       (actual_evidence sv branch previous actual fp\<lparr>ev_checkpoint := cid\<rparr>) status)"
    "drifted previous actual \<Longrightarrow> requested_evidence sv payload = actual_evidence sv branch previous actual fp"
proof -
  obtain actual w1 fp w2 where s: "state_snapshot sv None None w = (Inr actual, w1)"
    and f: "from_result (state_fingerprint (ss_snap sv) actual) w1 = (Inr fp, w2)"
    and k: "(let ev = actual_evidence sv branch previous actual fp; dr = drifted previous actual in
     case evidence_refusal (requested_evidence sv payload) ev dr of
       Some refusal \<Rightarrow> io_bind (continuation_scope sv args) (\<lambda>scope. io_return (continuation_answer sv args scope None refusal))
     | None \<Rightarrow> store_continuation sv args payload actual ev dr) w2 = (Inr ans, w')"
    using assms(1) unfolding write_under_lease_def by (elim io_bind_Inr)
  let ?ev = "actual_evidence sv branch previous actual fp"
  have none: "evidence_refusal (requested_evidence sv payload) ?ev (drifted previous actual) = None"
  proof (rule ccontr)
    assume "evidence_refusal (requested_evidence sv payload) ?ev (drifted previous actual) \<noteq> None"
    with k have "obj_get ans ''checkpoint'' = JNull"
      by (auto elim!: io_bind_Inr simp: Let_def io_return_def continuation_answer_def json_opt_def obj_get_def)
    with assms(2) show False by simp
  qed
  with k have "store_continuation sv args payload actual ?ev (drifted previous actual) w2 = (Inr ans, w')" by (simp add: Let_def)
  from store_continuation_Inr [OF this assms(2,3)] obtain cid status where
    "verified_status sv payload (ev_head ?ev) (ev_fingerprint ?ev) = Inr status"
    "obj_get r ''payload'' = JObj (trusted_payload sv payload actual (?ev\<lparr>ev_checkpoint := cid\<rparr>) status)" by blast
  then show thesis
    using that [OF s _ _ _ evidence_accepted(1) [OF none]] f by (auto simp: from_result_def actual_evidence_def)
qed

text \<open>
  C17: a stored continuation tells the truth about the repository.  Whatever payload a client sends, a write that
  returns a record stored the branch, the head, the fingerprint and the dirtiness of a snapshot taken in the
  unchanged tree, after that branch was leased to the caller for the time to live counted from a reading of the
  clock during the call; verification is recorded as passed only when
  the client verified exactly this head and fingerprint; and when the repository had drifted from the caller's
  checkpoint, the client had named exactly that checkpoint, branch, head and fingerprint.
\<close>

theorem continuation_truthful:
  assumes q: "queries_read_only (ss_git sv)" and "dict_ok kvs"
    and "managed_write_continuation sv args (JObj kvs) w = (Inr ans, w')" and "obj_get ans ''checkpoint'' = JObj r"
  shows "\<exists>p v v' actual fp branch previous n.
    obj_get r ''payload'' = JObj p \<and> same_tree w v \<and> state_snapshot sv None None v = (Inr actual, v') \<and> sv_reads w \<le> n \<and> n < sv_reads v \<and>
    owns_lease sv v (ss_clock sv n + of_int DEFAULT_WRITER_TTL_SECONDS) branch \<and> obj_get actual ''branch'' = JStr branch \<and>
    authority_record sv v = Inr previous \<and> state_fingerprint (ss_snap sv) actual = Inr fp \<and>
    obj_get p ''branch'' = JStr branch \<and> obj_get p ''head'' = JStr (field_text sv actual ''local_head'') \<and>
    obj_get p ''state_fingerprint'' = JStr fp \<and> obj_get p ''workspace_dirty'' = JBool (snapshot_dirty actual) \<and>
    (obj_get p ''verification_status'' = JStr ''passed'' \<longrightarrow>
       strip_str (field_text sv kvs ''verified_head'') = field_text sv actual ''local_head'' \<and>
       strip_str (field_text sv kvs ''verified_state_fingerprint'') = fp) \<and>
    (drifted previous actual \<longrightarrow> requested_evidence sv kvs = actual_evidence sv branch previous actual fp)"
proof -
  obtain payload w1 b0 w2 branch w3 previous w4 ls w5 where n: "from_result (normalize_checkpoint_payload (ss_cont sv) (JObj kvs)) w = (Inr payload, w1)"
    and b: "ensure_state_baseline sv (state_owner sv) w1 = (Inr b0, w2)" "state_branch sv w2 = (Inr branch, w3)"
    and a: "read_authority sv (state_owner sv) w3 = (Inr previous, w4)"
    and l: "acquire_state_leases sv [branch] (field_or_none sv previous ''checkpoint_id'') w4 = (Inr ls, w5)"
    and f: "io_finally (write_under_lease sv args payload branch previous) (release_state_owner_leases sv) w5 = (Inr ans, w')"
    using assms(3) unfolding managed_write_continuation_def by (elim io_bind_Inr)
  have w1: "w1 = w" and "normalize_checkpoint_payload (ss_cont sv) (JObj kvs) = Inr payload" using n by (auto simp: from_result_def)
  then have p: "payload = kvs" using normalize_Inr(1) [OF _ assms(2)] by blast
  have auth: "authority_record sv w5 = Inr previous"
    using a acquired_leases(1) [OF l] by (auto simp: read_authority_eq authority_record_def)
  have "same_tree w w5"
    using keepsD(1) [OF keeps_tree_steps(5) [OF q] b(1)] keepsD(1) [OF keeps_tree_steps(2) [OF q] b(2)]
      keepsD(1) [OF keeps_tree_steps(4) [OF q] a] keepsD(1) [OF keeps_tree_steps(7) [OF q] l] w1 by (meson same_tree_trans)
  moreover have "owns_lease sv w5 (ss_clock sv (sv_reads w4) + of_int DEFAULT_WRITER_TTL_SECONDS) branch"
    using acquired_leases(2) [OF l] state_branch_Inr [OF b(2)] by simp
  moreover obtain w6 where wr: "write_under_lease sv args payload branch previous w5 = (Inr ans, w6)" using f by (elim io_finally_Inr)
  obtain actual fp cid status v where u: "state_snapshot sv None None w5 = (Inr actual, v)"
    "state_fingerprint (ss_snap sv) actual = Inr fp" "verified_status sv kvs (field_text sv actual ''local_head'') fp = Inr status"
    "obj_get r ''payload'' = JObj (trusted_payload sv kvs actual (actual_evidence sv branch previous actual fp\<lparr>ev_checkpoint := cid\<rparr>) status)"
    "drifted previous actual \<Longrightarrow> requested_evidence sv kvs = actual_evidence sv branch previous actual fp"
    by (rule write_under_lease_Inr [OF wr [unfolded p] assms(4,2)]) blast
  moreover have "obj_get actual ''branch'' = JStr branch"
    using snapshot_branch [OF q b(2) _ u(1)] keepsD(1) [OF keeps_tree_steps(2) [OF q] b(2)]
      keepsD(1) [OF keeps_tree_steps(4) [OF q] a] keepsD(1) [OF keeps_tree_steps(7) [OF q] l] by (meson same_tree_trans)
  moreover have "sv_reads w \<le> sv_reads w4" "sv_reads w4 < sv_reads w5"
    using laterD [OF later_steps(5) b(1)] laterD [OF later_steps(2) b(2)] laterD [OF later_steps(4) a] acquired_leases(3) [OF l] w1
    by simp_all
  moreover have "strip_str (field_text sv kvs ''verified_head'') = field_text sv actual ''local_head'' \<and>
       strip_str (field_text sv kvs ''verified_state_fingerprint'') = fp" if "status = ''passed''"
    using verified_status_passed [of sv kvs "field_text sv actual ''local_head''" fp] u(3) that by simp
  ultimately show ?thesis using auth
    by (intro exI [of _ "trusted_payload sv kvs actual (actual_evidence sv branch previous actual fp\<lparr>ev_checkpoint := cid\<rparr>) status"]
        exI [of _ w5] exI [of _ v] exI [of _ actual] exI [of _ fp] exI [of _ branch] exI [of _ previous]
        exI [of _ "sv_reads w4"])
      (simp add: trusted_get, simp add: actual_evidence_def)
qed

text \<open>The payload that the server of the witnesses stores.\<close>

definition still_payload :: "string \<Rightarrow> obj" where
  "still_payload cid =
     [(''next_action'', JStr ''go''), (''branch'', JStr ''main''), (''head'', JStr ''main''), (''checkpoint_id'', JStr cid),
      (''state_fingerprint'', JStr ''f''), (''state_fingerprint_complete'', JBool False), (''workspace_kind'', JStr ''canonical''),
      (''workspace_dirty'', JBool False), (''verification_status'', JStr ''not_run'')]"

lemma sure_write_payload:
  assumes "cid \<in> {[], ''id''}"
  shows "sure (on_cont still_server (\<lambda>en. cont_write_checkpoint en [''w''] scope (JObj (still_payload cid)))) (\<lambda>_. True)"
proof -
  have "list_all (\<lambda>c. check_fields [] (still_payload c) = Inr (still_payload c) \<and>
      list_all (\<lambda>k. k \<in> set CHECKPOINT_FIELDS) (map fst (still_payload c))) [[], ''id'']" by code_simp
  then have c: "check_fields [] (still_payload cid) = Inr (still_payload cid)"
    "filter (\<lambda>k. k \<notin> set CHECKPOINT_FIELDS) (map fst (still_payload cid)) = []"
    using assms by (auto simp: list_all_iff filter_empty_conv)
  have e: "ce_compact_size (cont_at still_server n) = (\<lambda>_. 50)" "en_fault (cont_at still_server n) = (\<lambda>_. False)"
    "en_config_root (cont_at still_server n) = [''c'']" "en_json_size (cont_at still_server n) = (\<lambda>_. 100)" for n
    by (simp_all add: cont_at_def still_server_def demo_cont_def)
  have n: "normalize_checkpoint_payload (cont_at still_server n) (JObj (still_payload cid)) = Inr (still_payload cid)" for n
    using c by (simp add: normalize_checkpoint_payload_def e MAX_CHECKPOINT_BYTES_def)
  have k: "settled_record (cont_record en [''w''] scope pl)" for en pl
    by (auto simp: settled_record_def foreign_active_def lease_active_def cont_record_def obj_get_def)
  have "\<exists>r s'. cont_write_checkpoint (cont_at still_server n) [''w''] scope (JObj (still_payload cid)) s = (Inr r, s') \<and> calm_store s'"
    if "calm_store s" for n s
    using that k by (auto simp: cont_write_checkpoint_def n cont_checkpoint_path_def cont_checkpoint_root_def calls_def e Let_def
        calm_store_def MAX_STATE_BYTES_def dest!: dict_set_values)
  then show ?thesis by (intro sure_cont) blast
qed

lemma still_fingerprint: "state_fingerprint (ss_snap still_server) (still_snapshot sa) = Inr ''f''"
proof -
  have "utf8_name ''main''" "utf8_name []" "utf8_name ''e''" by code_simp+
  then show ?thesis
    by (simp add: state_fingerprint_def DRIFT_FIELDS_def still_snapshot_def snapshot_object_def obj_get_def encodable_def
        str_or_null_def str_list_def still_server_def)
qed

lemma still_trusted:
  "trusted_payload still_server [(''next_action'', JStr ''go'')] (still_snapshot sa)
     \<lparr>ev_checkpoint = cid, ev_branch = ''main'', ev_head = field_text still_server (still_snapshot sa) ''local_head'', ev_fingerprint = ''f''\<rparr>
     ''not_run'' = still_payload cid"
  by (simp add: trusted_payload_def RUNTIME_FIELDS_def still_payload_def still_snapshot_def snapshot_object_def obj_get_def
      field_text_def json_falsy_def py_str_def str_or_null_def state_fingerprint_complete_def snapshot_dirty_def str_list_def
      workspace_kind_def)

lemma sure_continuation:
  "sure (managed_write_continuation still_server [(''logical_task'', JStr ''t'')] (JObj [(''next_action'', JStr ''go'')]))
     (\<lambda>ans. \<exists>r. obj_get ans ''checkpoint'' = JObj r)"
proof -
  let ?args = "[(''logical_task'', JStr ''t'')]" and ?p = "[(''next_action'', JStr ''go'')]"
  have "normalize_checkpoint_payload demo_cont (JObj ?p) = Inr ?p" by code_simp
  then have n: "normalize_checkpoint_payload (ss_cont still_server) (JObj ?p) = Inr ?p" by (simp add: still_server_def)
  have rq: "requested_evidence still_server ?p = \<lparr>ev_checkpoint = [], ev_branch = [], ev_head = [], ev_fingerprint = []\<rparr>"
    by (simp add: requested_evidence_def field_text_def obj_get_def json_falsy_def strip_str_def strip_by_def Let_def)
  have st: "verified_status still_server ?p h f = Inr ''not_run''" for h f
    by (simp add: verified_status_def obj_get_def json_falsy_def Let_def)
  have sc: "sure (continuation_scope still_server ?args) (\<lambda>_. True)"
  proof -
    have "strip_str ''t'' = ''t''" by code_simp
    then show ?thesis by (simp add: continuation_scope_def str_arg_def py_str_def Let_def sure_return)
  qed
  have w: "sure (write_under_lease still_server ?args ?p ''main'' prev) (\<lambda>ans. \<exists>r. obj_get ans ''checkpoint'' = JObj r)"
    if prev: "\<forall>ob. prev = Some ob \<longrightarrow> settled_record ob" for prev
  proof -
    have d: "\<not> drifted prev (still_snapshot sa)" for sa
      using prev by (auto simp: drifted_def expected_snapshot_def settled_record_def split: option.splits json.splits)
    have "sure (store_continuation still_server ?args ?p (still_snapshot sa)
        (actual_evidence still_server ''main'' prev (still_snapshot sa) ''f'') False) (\<lambda>ans. \<exists>r. obj_get ans ''checkpoint'' = JObj r)" for sa
      unfolding store_continuation_def reconcile_def if_False
      by (rule sure_bind [OF sure_return [of "\<lambda>x. x = (actual_evidence still_server ''main'' prev (still_snapshot sa) ''f'',
            [(''status'', JStr ''not_needed'')])"]])
        (auto simp: st actual_evidence_def still_trusted continuation_answer_def json_opt_def obj_get_def
          intro!: sure_bind [OF sc] sure_bind [OF sure_write_payload [OF calm_id(2) [OF prev]]] sure_return
            sure_bind [OF sure_from])
    then show ?thesis
      unfolding write_under_lease_def
      by (intro sure_bind [OF sure_steps(4)])
        (auto simp: still_fingerprint Let_def d rq evidence_refusal_def complete_evidence_def
          intro!: sure_bind [OF sure_from])
  qed
  show ?thesis
    unfolding managed_write_continuation_def n
    by (rule sure_bind [OF sure_from])
      (auto intro!: sure_bind [OF sure_baseline] sure_bind [OF sure_steps(2)] sure_bind [OF sure_steps(3)]
          sure_bind [OF sure_steps(6) [OF calm_id(1)]] sure_finally [OF w sure_steps(5)])
qed

theorem continuation_truthful_witness:
  "\<exists>ans w' r p. managed_write_continuation still_server [(''logical_task'', JStr ''t'')] (JObj [(''next_action'', JStr ''go'')]) still_world =
       (Inr ans, w') \<and> obj_get ans ''checkpoint'' = JObj r \<and> obj_get r ''payload'' = JObj p \<and>
     (\<exists>branch. obj_get p ''branch'' = JStr branch)"
proof -
  obtain ans w' r where a: "managed_write_continuation still_server [(''logical_task'', JStr ''t'')] (JObj [(''next_action'', JStr ''go'')])
      still_world = (Inr ans, w')" and r: "obj_get ans ''checkpoint'' = JObj r"
    using sureD [OF sure_continuation calm_start] by blast
  have "dict_ok [(''next_action'', JStr ''go'')]" by (simp add: dict_ok_def)
  from continuation_truthful [OF still_read_only this a r] a r show ?thesis by blast
qed

end
