(* ===== verification/Spec2Isabelle.thy ===== *)
theory Spec2Isabelle
  imports Prelude PyText TextUtils PatchText FileSystem PatchCommit Transactions StateStore WriterLease Processes Registries HttpSessions PyStr Urls OAuth OAuthFlow Protocol HttpServer Workspace PatchTool Policy Tasks Continuation Arguments Schemas ToolCatalogue Images Landlock ToolResults CallTool GitTools CommandScan CommandCheck StateSnapshot StateServer StateGuard
begin

text \<open>
  A model of the DevMCP runtime (the Python package \<open>coding_tools_mcp\<close>): a server for the Model
  Context Protocol that gives a language model tools on one workspace.  A request arrives over HTTP or
  over the standard streams, is authorized, bound to a session and dispatched as JSON-RPC to a runtime,
  whose tools read and patch files, run commands and keep records for later sessions.

  \<^bold>\<open>Theories and sources.\<close>

  \<^item> \<open>Prelude\<close>: errors as values (\<open>errors.py\<close>), JSON values, Python's list and dictionary operations, the
    locale \<open>machine\<close> of state machines with the invariant rule.
  \<^item> \<open>PyText\<close>, \<open>PyStr\<close>: Python text and bytes.  File contents and patches are lists of code points with the
    UTF-8 codec; headers, identifiers and paths are strings of 8-bit characters.
  \<^item> \<open>TextUtils\<close> (\<open>textutils.py\<close>): truncation of texts to a number of lines and bytes; the locale
    \<open>bounded_truncation\<close> is interpreted by both directions.
  \<^item> \<open>FileSystem\<close>: the tree of files and the system calls, each of which may fail, with triples for programs
    that raise.
  \<^item> \<open>PatchText\<close>, \<open>PatchCommit\<close> (\<open>patching.py\<close>): the parser, the hunks, and the committer with its rollback;
    the locale \<open>file_committer\<close> is what its clients rely on.
  \<^item> \<open>Workspace\<close> (\<open>server.py\<close>, class \<^verbatim>\<open>Workspace\<close> and the path methods of \<^verbatim>\<open>Runtime\<close>): path resolution.
  \<^item> \<open>PatchTool\<close> (\<open>server.py\<close>, \<^verbatim>\<open>_analyze_patch\<close>, \<^verbatim>\<open>apply_patch\<close>, \<^verbatim>\<open>_commit_staged_files\<close>): the tool that
    composes the previous three.
  \<^item> \<open>Transactions\<close> (\<open>transactions.py\<close>): snapshots of two trees, their difference and its commit.
  \<^item> \<open>StateStore\<close>, \<open>WriterLease\<close>, \<open>Continuation\<close> (\<open>state_store.py\<close>, \<open>writer_lease.py\<close>,
    \<open>state_checkpoint.py\<close>, \<open>continuation.py\<close>): JSON records in files, the leases of branch writers and two
    kinds of checkpoints; the locale \<open>record_store\<close> is the contract of the store.
  \<^item> \<open>Processes\<close> (\<open>processes.py\<close>): the retained output of a command, cursors and the life of a session.
  \<^item> \<open>Registries\<close> (\<open>session_state.py\<close>): logical contexts with their leases and the jobs shared between
    transports.
  \<^item> \<open>HttpSessions\<close> (\<open>transport_http.py\<close>): the owner of one runtime per HTTP session.
  \<^item> \<open>Urls\<close>, \<open>OAuth\<close>, \<open>OAuthFlow\<close> (\<open>oauth.py\<close> and the OAuth part of \<open>server.py\<close>): URL parsing, clients,
    codes, tokens and the handlers.
  \<^item> \<open>Protocol\<close> (\<open>protocol.py\<close>, \<open>transport_stdio.py\<close>): the dispatcher and the standard-stream server.
  \<^item> \<open>HttpServer\<close> (\<open>server.py\<close>, \<^verbatim>\<open>MCPHandler\<close>): the composition of sessions, authorization and dispatch.
  \<^item> \<open>Policy\<close> (\<open>policy.py\<close>, \<open>path_security.py\<close>): execution modes and sensitive paths.
  \<^item> \<open>Tasks\<close> (\<open>tasks.py\<close>, \<^verbatim>\<open>run_task\<close> of \<open>server.py\<close>): the registry of tasks and the commands it builds.
  \<^item> \<open>Arguments\<close>: how the handlers read their argument dictionary.
  \<^item> \<open>Schemas\<close>, \<open>ToolCatalogue\<close> (\<open>server.py\<close>, \<^verbatim>\<open>validate_schema_value\<close>, \<^verbatim>\<open>input_schemas\<close>, \<^verbatim>\<open>TOOL_REGISTRY\<close>): the
    validator, a reference meaning of its keywords, the 57 tools and what \<^verbatim>\<open>tools/list\<close> publishes.
  \<^item> \<open>ToolResults\<close> (\<open>tool_results.py\<close>): the texts and result objects the model sees.
  \<^item> \<open>CallTool\<close> (\<open>server.py\<close>, \<^verbatim>\<open>call_tool\<close>): one call from the arguments to the result, with the logical
    context it is bound to; it composes \<open>Registries\<close>, \<open>ToolCatalogue\<close> and \<open>ToolResults\<close>.
  \<^item> \<open>Images\<close> (\<open>server.py\<close>, \<^verbatim>\<open>identify_image\<close> to \<^verbatim>\<open>view_image\<close>): image headers and the image tool.
  \<^item> \<open>Landlock\<close> (\<open>server.py\<close>, \<open>landlock_exec.py\<close>): the rules of the Landlock sandbox and its helper.
  \<^item> \<open>GitTools\<close> (\<open>server.py\<close>, \<^verbatim>\<open>git_status\<close> to \<^verbatim>\<open>git_push\<close>): the fourteen git tools and the parsers of git's
    output.
  \<^item> \<open>CommandScan\<close>, \<open>CommandCheck\<close> (\<open>server.py\<close>, \<^verbatim>\<open>strip_heredoc_payloads\<close> to \<^verbatim>\<open>_check_command_paths\<close>;
    \<open>system_view.py\<close>): the lexer of \<^verbatim>\<open>shlex\<close>, the scans for programs and paths in a command line, and the check
    that runs before a command.
  \<^item> \<open>StateSnapshot\<close> (\<open>state_snapshot.py\<close>, \<open>state_remote.py\<close>): what git says of a branch, its comparison and its
    fingerprint.
  \<^item> \<open>StateServer\<close>, \<open>StateGuard\<close> (\<open>stateful_server.py\<close>, \<open>state_mutations.py\<close>): the guard around every tool that
    changes the repository, which composes snapshots, leases, checkpoints and git tools; the first theory has
    the definitions and what each step does to tree and store, the second the theorems.

  \<^bold>\<open>How state and errors correspond.\<close>  A class with state is a record, each method a function on it that
  returns a result of the sum type (\<open>Inl\<close> for a raise) and the new state.  A method that runs under a lock
  is one step; where the code releases the lock in between (the creation of a session) there are two.  The
  machines over these steps are \<open>inductive\<close> relations, and the locale \<open>machine\<close> gives their reachable states.
  File programs are functions on a world with a counter of system calls; the parameter \<open>os_fault\<close> says which
  calls fail, and the theorems quantify over it.

  \<^bold>\<open>What is shown.\<close>  For patches: \<^verbatim>\<open>apply_patch\<close> refines a sequential reference semantics of the operations,
  a commit applies everything or, unless its rollback fails, nothing, and after a failed rollback every
  original is in place or in a named backup; parsing inverts printing; hunks replace exactly the lines they
  name; resolved paths stay in the workspace outside build mode.  For transactions: exactly the difference of
  the snapshots is applied.  For leases and checkpoints: exclusion, exact decisions, round trips.  For
  processes and registries: no byte of output is counted twice or lost unnoticed, cleanup runs once, leases
  count their holders.  For HTTP: runtimes are closed once and never in use, effects need authorization,
  requests balance their session.  For OAuth: every token goes back to an approved authorization, conforming
  clients are served, registration ends.  For the protocol: the handshake automaton, and one answer per
  request line.  For tasks: only registered commands run, in the root.  For tool calls: arguments are checked
  against exactly the published schemas, a call gives back its leases on every way and reports what was
  raised, and its text is bounded.  For the sandbox rules: rights to write and create stay in the workspace
  and the write roots.  For git: no argument of a caller becomes an option, hooks are off, and a commit takes
  in what was requested.  For commands: the scan finds exactly the paths of a structured line, and a line that
  passes the check names no path outside.  For the repository state: a tool runs only under its lease and
  without drift, its checkpoint describes what it leaves, a push is confirmed by the remote, a stored
  continuation tells the truth, and snapshots show no sensitive name.  Some theorems and lemmas record
  behaviour that is not intended, such as a lost update before a move or a risk that is never reported.

  \<^bold>\<open>Bounds and loops.\<close>  Every loop is a total function: the recursion is structural, over the lines, entries,
  names or directories that are left, or has a measure (\<open>mkdir_parents\<close>, \<open>existing_parent\<close>,
  \<open>replace_all\<close>, \<open>parse_loop\<close>).  Loops that may run forever in the code take the drawn random
  identifiers as a list, and a theorem says that they return when the list holds enough fresh ones.  Times
  are real numbers, counters natural numbers; Python's integers do not overflow.

  \<^bold>\<open>Parameters.\<close>  Git, hash functions, JWT signing, random names, clocks, the JSON codec (as sizes of its output),
  \<^verbatim>\<open>difflib\<close>, the state of processes, and whether a path is a symbolic link are arguments.  Properties that
  rely on laws about them name the laws as hypotheses and have a witness with concrete functions.

  \<^bold>\<open>Not modelled.\<close>  The remaining tools of \<open>server.py\<close> (reading, searching, web), the start and supervision of
  processes, the sandboxes besides Landlock, managed worktrees and the resume of a continuation in one,
  configuration files, telemetry, and the command line and desktop applications: they drive the operating system, the
  network or a user interface, or format payloads.  Trees have no
  symbolic links and other processes do not interfere between two system calls of a modelled operation.
\<close>

end
